(* ===== verification/Prelude.thy ===== *)
theory Prelude
  imports Complex_Main "HOL-Library.AList"
begin

text \<open>
  Shared vocabulary of the development.

  \<^item> names for the model's basic types: money and instants, results of fallible calls, the
    HTTP error the routes raise;
  \<^item> Python values that travel through the gateway as JSON, with the dictionary operations the
    source uses on them (lookup, in-place update, right-biased merge, truthiness);
  \<^item> the string operations of the source: lower-casing, stripping, prefixes, splitting once,
    substring search;
  \<^item> the collections of simplification rules the component theories extend.

  Strings are lists of characters; \<open>py_lower\<close> and \<open>py_strip\<close> follow Python on the ASCII
  range. Money and clock readings that the source keeps in floats are real numbers here: the
  development is about the gateway's bookkeeping, not about floating-point rounding.
\<close>

named_theorems store_simps "rewriting of the relational store's operations"
named_theorems settle_simps "rewriting of the settlement operations of a request"
named_theorems py_simps "rewriting of Python dictionary and string operations"

section \<open>Basic types\<close>

type_synonym money = real
type_synonym instant = int
type_synonym ('e, 'a) result = "'e + 'a"
type_synonym ('k, 'v) dict = "('k \<times> 'v) list"

text \<open>
  FastAPI's \<open>HTTPException\<close>: status code, detail and optional response headers. The messages route
  raises its errors with a dictionary as detail, which wraps the message with an error type;
  \<open>error_type\<close> is that type, and \<^const>\<open>None\<close> for a plain-text detail.
\<close>

record http_exception =
  status_code :: nat
  detail :: string
  headers :: "(string, string) dict"
  error_type :: "string option"

definition http_error :: "nat \<Rightarrow> string \<Rightarrow> http_exception" where
  "http_error c d = \<lparr>status_code = c, detail = d, headers = [], error_type = None\<rparr>"

lemma http_error_simps [simp]:
  "status_code (http_error c d) = c" "detail (http_error c d) = d" "headers (http_error c d) = []"
  "error_type (http_error c d) = None"
  by (simp_all add: http_error_def)

text \<open>Sequencing of fallible computations: an exception skips the rest.\<close>

definition rbind :: "('e, 'a) result \<Rightarrow> ('a \<Rightarrow> ('e, 'b) result) \<Rightarrow> ('e, 'b) result" where
  "rbind r f = (case r of Inl e \<Rightarrow> Inl e | Inr a \<Rightarrow> f a)"

lemma rbind_simps [simp]: "rbind (Inl e) f = Inl e" "rbind (Inr a) f = f a"
  by (simp_all add: rbind_def)

lemma rbind_eq_Inr: "rbind r f = Inr b \<longleftrightarrow> (\<exists>a. r = Inr a \<and> f a = Inr b)"
  by (cases r) auto

lemma rbind_eq_Inl: "rbind r f = Inl e \<longleftrightarrow> r = Inl e \<or> (\<exists>a. r = Inr a \<and> f a = Inl e)"
  by (cases r) auto

lemma rbind_assoc: "rbind (rbind r f) g = rbind r (\<lambda>a. rbind (f a) g)"
  by (cases r) auto

section \<open>Dictionaries\<close>

text \<open>
  A Python dictionary keeps insertion order; assigning to a present key keeps its position and
  assigning to a new key appends. \<^term>\<open>AList.update\<close> does exactly that on the list of items.
  \<open>dict_merge a b\<close> is \<open>{**a, **b}\<close>: the items of \<open>b\<close> are assigned in order over \<open>a\<close>.
\<close>

definition dict_merge :: "('k, 'v) dict \<Rightarrow> ('k, 'v) dict \<Rightarrow> ('k, 'v) dict" where
  "dict_merge a b = foldl (\<lambda>d p. AList.update (fst p) (snd p) d) a b"

definition dict_remove :: "'k set \<Rightarrow> ('k, 'v) dict \<Rightarrow> ('k, 'v) dict" where
  "dict_remove ks d = filter (\<lambda>p. fst p \<notin> ks) d"

lemma map_of_update [simp, py_simps]: "map_of (AList.update k v d) = (map_of d)(k \<mapsto> v)"
  by (rule AList.update_conv')

lemma map_of_dict_merge_snoc:
  "map_of (dict_merge a (b @ [(k, v)])) = (map_of (dict_merge a b))(k \<mapsto> v)"
  by (simp add: dict_merge_def)

lemma dict_merge_Nil [simp]: "dict_merge a [] = a"
  by (simp add: dict_merge_def)

lemma map_of_dict_merge_rev: "map_of (dict_merge a b) = map_of a ++ map_of (rev b)"
proof (induction b rule: rev_induct)
  case Nil
  show ?case by simp
next
  case (snoc p b)
  obtain k v where p: "p = (k, v)" by (cases p)
  show ?case
    unfolding p map_of_dict_merge_snoc snoc.IH by (simp add: map_add_def fun_eq_iff)
qed

lemma map_of_rev_distinct: "distinct (map fst b) \<Longrightarrow> map_of (rev b) = map_of b"
  by (rule map_of_eqI) (auto simp: rev_map[symmetric])

lemma map_of_dict_merge [py_simps]:
  "distinct (map fst b) \<Longrightarrow> map_of (dict_merge a b) = map_of a ++ map_of b"
  by (simp add: map_of_dict_merge_rev map_of_rev_distinct)

lemma map_of_dict_remove [simp, py_simps]:
  "map_of (dict_remove ks d) k = (if k \<in> ks then None else map_of d k)"
  by (induction d) (auto simp: dict_remove_def)

section \<open>JSON values\<close>

datatype json =
    JNull
  | JBool bool
  | JInt int
  | JFloat rat
  | JStr string
  | JArr "json list"
  | JObj "(string \<times> json) list"

text \<open>Python's truth value of a decoded JSON value.\<close>

fun truthy :: "json \<Rightarrow> bool" where
  "truthy JNull = False"
| "truthy (JBool b) = b"
| "truthy (JInt i) = (i \<noteq> 0)"
| "truthy (JFloat q) = (q \<noteq> 0)"
| "truthy (JStr s) = (s \<noteq> [])"
| "truthy (JArr xs) = (xs \<noteq> [])"
| "truthy (JObj d) = (d \<noteq> [])"

definition truthy_opt :: "json option \<Rightarrow> bool" where
  "truthy_opt v = (case v of None \<Rightarrow> False | Some x \<Rightarrow> truthy x)"

text \<open>\<open>v.get(key)\<close> on a value that is a dictionary; \<^const>\<open>None\<close> otherwise.\<close>

fun jget :: "string \<Rightarrow> json \<Rightarrow> json option" where
  "jget k (JObj d) = map_of d k"
| "jget k _ = None"

fun is_jobj :: "json \<Rightarrow> bool" where
  "is_jobj (JObj d) = True"
| "is_jobj _ = False"

lemma truthy_opt_simps [simp]:
  "truthy_opt None = False" "truthy_opt (Some v) = truthy v"
  by (simp_all add: truthy_opt_def)

section \<open>Strings\<close>

definition lower_char :: "char \<Rightarrow> char" where
  "lower_char c = (let n = of_char c :: nat in if 65 \<le> n \<and> n \<le> 90 then char_of (n + 32) else c)"

definition py_lower :: "string \<Rightarrow> string" where
  "py_lower = map lower_char"

definition is_space :: "char \<Rightarrow> bool" where
  "is_space c = (let n = of_char c :: nat in (9 \<le> n \<and> n \<le> 13) \<or> (28 \<le> n \<and> n \<le> 32))"

definition py_lstrip :: "string \<Rightarrow> string" where
  "py_lstrip = dropWhile is_space"

definition py_rstrip :: "string \<Rightarrow> string" where
  "py_rstrip s = rev (dropWhile is_space (rev s))"

definition py_strip :: "string \<Rightarrow> string" where
  "py_strip s = py_rstrip (py_lstrip s)"

text \<open>\<open>s.rstrip(c)\<close> and \<open>s.lstrip(c)\<close> for a one-character argument.\<close>

definition rstrip_char :: "char \<Rightarrow> string \<Rightarrow> string" where
  "rstrip_char c s = rev (dropWhile (\<lambda>x. x = c) (rev s))"

definition lstrip_char :: "char \<Rightarrow> string \<Rightarrow> string" where
  "lstrip_char c s = dropWhile (\<lambda>x. x = c) s"

definition starts_with :: "string \<Rightarrow> string \<Rightarrow> bool" where
  "starts_with p s \<longleftrightarrow> take (length p) s = p"

definition ends_with :: "string \<Rightarrow> string \<Rightarrow> bool" where
  "ends_with p s \<longleftrightarrow> starts_with (rev p) (rev s)"

text \<open>\<open>needle in s\<close>.\<close>

fun contains :: "string \<Rightarrow> string \<Rightarrow> bool" where
  "contains p [] = (p = [])"
| "contains p (c # s) = (starts_with p (c # s) \<or> contains p s)"

text \<open>\<open>s.split(c, 1)\<close> when \<open>c\<close> occurs: what is before its first occurrence and what is after.\<close>

fun split_once :: "char \<Rightarrow> string \<Rightarrow> (string \<times> string) option" where
  "split_once c [] = None"
| "split_once c (x # s) =
     (if x = c then Some ([], s)
      else (case split_once c s of None \<Rightarrow> None | Some (a, b) \<Rightarrow> Some (x # a, b)))"

text \<open>\<open>'{s}'\<close> in a formatted message.\<close>

definition quoted :: "string \<Rightarrow> string" where
  "quoted s = CHR 0x27 # s @ [CHR 0x27]"

text \<open>\<open>str(n)\<close> of an integer.\<close>

fun str_nat :: "nat \<Rightarrow> string" where
  "str_nat n = (if n < 10 then [char_of (48 + n)] else str_nat (n div 10) @ [char_of (48 + n mod 10)])"

declare str_nat.simps [simp del]

definition str_int :: "int \<Rightarrow> string" where
  "str_int i = (if i < 0 then CHR ''-'' # str_nat (nat (- i)) else str_nat (nat i))"

fun join :: "string \<Rightarrow> string list \<Rightarrow> string" where
  "join sep [] = []"
| "join sep [x] = x"
| "join sep (x # y # xs) = x @ sep @ join sep (y # xs)"

lemma starts_with_iff: "starts_with p s \<longleftrightarrow> (\<exists>t. s = p @ t)"
proof
  assume "starts_with p s"
  then have "s = p @ drop (length p) s"
    unfolding starts_with_def by (metis append_take_drop_id)
  then show "\<exists>t. s = p @ t" by blast
qed (auto simp: starts_with_def)

lemma ends_with_iff: "ends_with p s \<longleftrightarrow> (\<exists>t. s = t @ p)"
proof -
  have "(\<exists>t. rev s = rev p @ t) \<longleftrightarrow> (\<exists>t. s = t @ p)"
    by (metis rev_append rev_rev_ident)
  then show ?thesis by (simp add: ends_with_def starts_with_iff)
qed

lemma contains_iff: "contains p s \<longleftrightarrow> (\<exists>a b. s = a @ p @ b)"
proof (induction s)
  case Nil
  then show ?case by auto
next
  case (Cons c s)
  have "(\<exists>a b. c # s = a @ p @ b) \<longleftrightarrow> (\<exists>b. c # s = p @ b) \<or> (\<exists>a b. s = a @ p @ b)"
    by (auto simp: Cons_eq_append_conv)
  then show ?case by (simp add: Cons.IH starts_with_iff)
qed

lemma split_once_append: "c \<notin> set a \<Longrightarrow> split_once c (a @ c # b) = Some (a, b)"
  by (induction a) auto

lemma split_once_SomeD: "split_once c s = Some (a, b) \<Longrightarrow> s = a @ c # b \<and> c \<notin> set a"
proof (induction s arbitrary: a)
  case (Cons x s)
  show ?case
  proof (cases "x = c")
    case True
    with Cons.prems show ?thesis by simp
  next
    case False
    with Cons.prems obtain a' where "a = x # a'" "split_once c s = Some (a', b)"
      by (auto split: option.splits)
    with Cons.IH[of a'] False show ?thesis by simp
  qed
qed simp

lemma split_once_Some: "split_once c s = Some (a, b) \<longleftrightarrow> s = a @ c # b \<and> c \<notin> set a"
  using split_once_append split_once_SomeD by metis

lemma split_once_None: "split_once c s = None \<longleftrightarrow> c \<notin> set s"
  by (induction s) (auto split: option.splits)

lemma length_py_lower [simp]: "length (py_lower s) = length s"
  by (simp add: py_lower_def)

lemma lower_char_idem [simp]: "lower_char (lower_char c) = lower_char c"
  by (auto simp: lower_char_def Let_def)

lemma py_lower_idem [simp]: "py_lower (py_lower s) = py_lower s"
  by (simp add: py_lower_def)

lemma py_lower_append [simp]: "py_lower (s @ t) = py_lower s @ py_lower t"
  by (simp add: py_lower_def)

section \<open>Lists\<close>

lemma sum_list_nonneg_real: "(\<And>x. x \<in> set xs \<Longrightarrow> (0::real) \<le> f x) \<Longrightarrow> 0 \<le> sum_list (map f xs)"
  by (rule sum_list_nonneg) auto

lemma member_le_sum_list_real:
  assumes "x \<in> set xs" and "\<And>y. y \<in> set xs \<Longrightarrow> (0::real) \<le> f y"
  shows "f x \<le> sum_list (map f xs)"
  using assms
proof (induction xs)
  case (Cons y ys)
  have "0 \<le> sum_list (map f ys)" by (rule sum_list_nonneg_real) (simp add: Cons.prems)
  with Cons show ?case by fastforce
qed simp

lemma sum_list_remove1_real:
  "x \<in> set xs \<Longrightarrow> sum_list (map f (remove1 x xs)) = sum_list (map f xs) - (f x :: real)"
  by (induction xs) auto

lemma dropWhile_sorted_filter:
  "sorted xs \<Longrightarrow> dropWhile (\<lambda>x. x \<le> c) xs = filter (\<lambda>x. \<not> x \<le> (c::real)) xs"
proof (induction xs)
  case (Cons x xs)
  show ?case
  proof (cases "x \<le> c")
    case False
    with Cons.prems have "\<forall>y \<in> set xs. \<not> y \<le> c" by fastforce
    with False show ?thesis by simp
  qed (use Cons in simp)
qed simp

end
