(* ===== verification/Store.thy ===== *)
theory Store
  imports Prelude
begin

text \<open>
  The relational store behind the gateway (\<open>models/entities.py\<close>): one record per table the
  modelled code reads or writes, and the operations the code performs through SQLAlchemy: lookup
  by primary key, \<open>UPDATE ... WHERE\<close> with its row count, and \<open>commit\<close>.

  A commit can fail (\<open>SQLAlchemyError\<close>). The list \<open>faults\<close> says which of the coming commits
  do: each commit takes one entry off it, \<^const>\<open>True\<close> meaning failure, and an empty list means
  that every later commit succeeds. Reads do not fail in the model. Columns that no modelled
  operation reads (aliases, free-form metadata, creation and update stamps) are left out.
  Instants are microseconds.
\<close>

record user_row =
  user_id :: string
  spend :: money
  reserved :: money
  budget_id :: "string option"
  budget_started_at :: "instant option"
  next_budget_reset_at :: "instant option"
  blocked :: bool
  deleted_at :: "instant option"

record budget_row =
  max_budget :: "money option"
  budget_duration_sec :: "int option"

record model_pricing =
  model_key :: string
  effective_at :: instant
  input_price_per_million :: money
  output_price_per_million :: money

record usage_log =
  log_api_key_id :: "string option"
  log_user_id :: "string option"
  log_timestamp :: instant
  log_model :: string
  log_provider :: "string option"
  log_endpoint :: string
  log_status :: string
  log_error :: "string option"
  log_tokens :: "int list option"
  log_cost :: "money option"

record budget_reset_log =
  reset_user_id :: string
  reset_budget_id :: string
  previous_spend :: money
  reset_at :: instant
  next_reset_at :: "instant option"

record api_key_row =
  key_id :: string
  key_user_id :: "string option"
  last_used_at :: "instant option"
  expires_at :: "instant option"
  is_active :: bool

record db =
  users :: "string \<rightharpoonup> user_row"
  budgets :: "string \<rightharpoonup> budget_row"
  pricing :: "model_pricing list"
  usage_logs :: "usage_log list"
  reset_logs :: "budget_reset_log list"
  api_keys :: "(string, api_key_row) dict"
  faults :: "bool list"

text \<open>\<open>commit d d'\<close>: make the pending state \<open>d'\<close> permanent, or fall back to \<open>d\<close>.\<close>

definition commit :: "db \<Rightarrow> db \<Rightarrow> db \<times> bool" where
  "commit d d' = (case faults d of
       [] \<Rightarrow> (d'\<lparr>faults := []\<rparr>, True)
     | f # fs \<Rightarrow> if f then (d\<lparr>faults := fs\<rparr>, False) else (d'\<lparr>faults := fs\<rparr>, True))"

text \<open>\<open>get_active_user\<close>: the row of a user that is not soft-deleted.\<close>

definition get_active_user :: "db \<Rightarrow> string \<Rightarrow> user_row option" where
  "get_active_user d u = (case users d u of
       None \<Rightarrow> None | Some r \<Rightarrow> if deleted_at r = None then Some r else None)"

text \<open>
  \<open>UPDATE users SET ... WHERE user_id = u AND deleted_at IS NULL AND P\<close>: the pending state and
  whether a row matched (the primary key makes the row count 0 or 1).
\<close>

definition update_user :: "db \<Rightarrow> string \<Rightarrow> (user_row \<Rightarrow> bool) \<Rightarrow> (user_row \<Rightarrow> user_row) \<Rightarrow> db \<times> bool" where
  "update_user d u P f = (case get_active_user d u of
       None \<Rightarrow> (d, False)
     | Some r \<Rightarrow> if P r then (d\<lparr>users := (users d)(u \<mapsto> f r)\<rparr>, True) else (d, False))"

section \<open>Lemmas\<close>

lemma get_active_user_Some [store_simps]:
  "get_active_user d u = Some r \<longleftrightarrow> users d u = Some r \<and> deleted_at r = None"
  by (auto simp: get_active_user_def split: option.splits if_splits)

lemma get_active_user_faults [simp]: "get_active_user (d\<lparr>faults := fs\<rparr>) u = get_active_user d u"
  and get_active_user_logs [simp]: "get_active_user (d\<lparr>reset_logs := rl\<rparr>) u = get_active_user d u"
    "get_active_user (d\<lparr>usage_logs := ul\<rparr>) u = get_active_user d u"
  by (simp_all add: get_active_user_def)

lemma commit_ok [simp]: "faults d = [] \<Longrightarrow> commit d d' = (d'\<lparr>faults := []\<rparr>, True)"
  by (simp add: commit_def)

lemma commit_cases:
  "(\<exists>fs. commit d d' = (d'\<lparr>faults := fs\<rparr>, True)) \<or> (\<exists>fs. commit d d' = (d\<lparr>faults := fs\<rparr>, False))"
  by (auto simp: commit_def split: list.splits)

lemma commitE:
  obtains fs where "commit d d' = (d'\<lparr>faults := fs\<rparr>, True)"
  | fs where "commit d d' = (d\<lparr>faults := fs\<rparr>, False)"
  using commit_cases by blast

lemma get_active_user_upd [simp]:
  "get_active_user (d\<lparr>users := (users d)(u \<mapsto> r)\<rparr>) v =
     (if v = u then (if deleted_at r = None then Some r else None) else get_active_user d v)"
  by (simp add: get_active_user_def)

lemma update_user_frame [simp]:
  "budgets (fst (update_user d u P f)) = budgets d"
  "pricing (fst (update_user d u P f)) = pricing d"
  "usage_logs (fst (update_user d u P f)) = usage_logs d"
  "reset_logs (fst (update_user d u P f)) = reset_logs d"
  "api_keys (fst (update_user d u P f)) = api_keys d"
  "faults (fst (update_user d u P f)) = faults d"
  by (auto simp: update_user_def split: option.splits)

lemma update_user_active:
  assumes "\<And>r. deleted_at (f r) = deleted_at r"
  shows "get_active_user (fst (update_user d u P f)) v =
    (if v = u then map_option (\<lambda>r. if P r then f r else r) (get_active_user d u)
     else get_active_user d v)"
  using assms by (auto simp: update_user_def get_active_user_def split: option.splits)

lemma update_user_matched:
  "snd (update_user d u P f) \<longleftrightarrow> (\<exists>r. get_active_user d u = Some r \<and> P r)"
  by (auto simp: update_user_def split: option.splits)

end
