(* ===== verification/Pricing.thy ===== *)
theory Pricing
  imports Store
begin

text \<open>
  Pricing lookup (\<open>services/pricing_service.py\<close>): the row in force for a model key at an
  instant, the legacy key, and the default prices of the \<open>genai-prices\<close> package.

  The package is a parameter, \<open>calc_price provider model as_of\<close>: it finds no model
  (\<open>LookupError\<close>), fails in some other way, or gives the input and output rates, each of them
  possibly missing. The process-wide toggle \<open>_default_pricing_enabled\<close> is an argument.
\<close>

datatype rate = Flat money | Tiered money

datatype price_lookup = Price_Not_Found | Price_Failed | Price "rate option" "rate option"

type_synonym price_source = "string option \<Rightarrow> string \<Rightarrow> instant \<Rightarrow> price_lookup"

fun flat_rate :: "rate \<Rightarrow> money" where
  "flat_rate (Tiered base) = base"
| "flat_rate (Flat v) = v"

text \<open>Python's truth value of an optional string.\<close>

definition given :: "string option \<Rightarrow> bool" where
  "given p \<longleftrightarrow> p \<noteq> None \<and> p \<noteq> Some []"

text \<open>The key \<open>f"{provider}:{model}" if provider else model\<close>.\<close>

definition pricing_key :: "string option \<Rightarrow> string \<Rightarrow> string" where
  "pricing_key p m = (if given p then the p @ '':'' @ m else m)"

text \<open>\<open>model.rsplit(":", 1)\<close>.\<close>

definition rsplit_once :: "char \<Rightarrow> string \<Rightarrow> (string \<times> string) option" where
  "rsplit_once c s = (case split_once c (rev s) of
       None \<Rightarrow> None | Some (a, b) \<Rightarrow> Some (rev b, rev a))"

definition price_attempts :: "string option \<Rightarrow> string \<Rightarrow> (string option \<times> string) list" where
  "price_attempts p m =
     (case (if p = Some ''huggingface'' then rsplit_once CHR '':'' m else None) of
        Some (base_model, backend) \<Rightarrow> [(Some (''huggingface_'' @ backend), base_model)]
      | None \<Rightarrow> [])
     @ [(p, m)] @ (if p \<noteq> None then [(None, m)] else [])"

fun try_prices :: "price_source \<Rightarrow> string \<Rightarrow> instant \<Rightarrow> (string option \<times> string) list \<Rightarrow> model_pricing option" where
  "try_prices calc key as_of [] = None"
| "try_prices calc key as_of ((p, m) # rest) = (case calc p m as_of of
       Price_Not_Found \<Rightarrow> try_prices calc key as_of rest
     | Price_Failed \<Rightarrow> None
     | Price inp out \<Rightarrow> (case inp of
         None \<Rightarrow> None
       | Some i \<Rightarrow> Some \<lparr>model_key = key, effective_at = as_of,
           input_price_per_million = flat_rate i,
           output_price_per_million = (case out of None \<Rightarrow> 0 | Some r \<Rightarrow> flat_rate r)\<rparr>))"

definition default_model_pricing :: "price_source \<Rightarrow> string option \<Rightarrow> string \<Rightarrow> instant \<Rightarrow> model_pricing option" where
  "default_model_pricing calc p m as_of = try_prices calc (pricing_key p m) as_of (price_attempts p m)"

text \<open>\<open>_find_by_model_key\<close>: \<open>ORDER BY effective_at DESC LIMIT 1\<close> over the rows in force.\<close>

fun latest :: "model_pricing list \<Rightarrow> model_pricing option" where
  "latest [] = None"
| "latest (r # rs) = (case latest rs of
       None \<Rightarrow> Some r
     | Some b \<Rightarrow> if effective_at b \<le> effective_at r then Some r else Some b)"

definition find_by_model_key :: "db \<Rightarrow> string \<Rightarrow> instant \<Rightarrow> model_pricing option" where
  "find_by_model_key d key as_of =
     latest (filter (\<lambda>r. model_key r = key \<and> effective_at r \<le> as_of) (pricing d))"

definition find_model_pricing :: "bool \<Rightarrow> price_source \<Rightarrow> db \<Rightarrow> string option \<Rightarrow> string \<Rightarrow> instant
    \<Rightarrow> model_pricing option" where
  "find_model_pricing enabled calc d p m as_of =
     (case find_by_model_key d (pricing_key p m) as_of of
        Some r \<Rightarrow> Some r
      | None \<Rightarrow> (case (if given p then find_by_model_key d (the p @ ''/'' @ m) as_of else None) of
          Some r \<Rightarrow> Some r
        | None \<Rightarrow> if enabled then default_model_pricing calc p m as_of else None))"

definition pricing_required_but_missing :: "model_pricing option \<Rightarrow> bool \<Rightarrow> bool" where
  "pricing_required_but_missing p require_pricing \<longleftrightarrow> p = None \<and> require_pricing"

section \<open>Lemmas\<close>

lemma latest_None [simp]: "latest rs = None \<longleftrightarrow> rs = []"
  by (cases rs) (auto split: option.splits)

lemma latest_in: "latest rs = Some r \<Longrightarrow> r \<in> set rs"
  by (induction rs arbitrary: r) (auto split: option.splits if_splits)

lemma latest_max: "latest rs = Some r \<Longrightarrow> x \<in> set rs \<Longrightarrow> effective_at x \<le> effective_at r"
  by (induction rs arbitrary: r) (fastforce split: option.splits if_splits)+

lemma find_by_model_key_Some:
  assumes "find_by_model_key d k t = Some r"
  shows "r \<in> set (pricing d) \<and> model_key r = k \<and> effective_at r \<le> t
    \<and> (\<forall>x \<in> set (pricing d). model_key x = k \<longrightarrow> effective_at x \<le> t \<longrightarrow> effective_at x \<le> effective_at r)"
  using latest_in [OF assms [unfolded find_by_model_key_def]]
    latest_max [OF assms [unfolded find_by_model_key_def]] by auto

lemma find_by_model_key_None:
  "find_by_model_key d k t = None \<longleftrightarrow> (\<forall>x \<in> set (pricing d). model_key x = k \<longrightarrow> t < effective_at x)"
  by (auto simp: find_by_model_key_def filter_empty_conv)

lemma try_prices_key: "try_prices calc key t xs = Some r \<Longrightarrow> model_key r = key \<and> effective_at r = t"
  by (induction xs) (auto split: price_lookup.splits option.splits)

text \<open>The rates the first model found by \<open>genai-prices\<close> gives, in the order of the attempts.\<close>

lemma try_prices_skip:
  "calc p m t = Price_Not_Found \<Longrightarrow> try_prices calc key t ((p, m) # xs) = try_prices calc key t xs"
  by simp

text \<open>Explicit prices win: when the database holds a row in force for the canonical key, the
  lookup returns such a row, the latest one, whatever the default pricing source says; and the
  result of any successful lookup is in force at the requested instant.\<close>

theorem explicit_pricing_wins:
  assumes "x \<in> set (pricing d)" "model_key x = pricing_key p m" "effective_at x \<le> t"
  shows "\<exists>r. find_model_pricing enabled calc d p m t = Some r \<and> r \<in> set (pricing d)
    \<and> model_key r = pricing_key p m \<and> effective_at x \<le> effective_at r \<and> effective_at r \<le> t"
proof (cases "find_by_model_key d (pricing_key p m) t")
  case None
  with assms show ?thesis unfolding find_by_model_key_None by force
next
  case (Some r)
  with find_by_model_key_Some [OF Some] assms show ?thesis
    by (auto simp: find_model_pricing_def)
qed

definition sample_row :: "instant \<Rightarrow> money \<Rightarrow> model_pricing" where
  "sample_row t p = \<lparr>model_key = ''openai:gpt'', effective_at = t,
     input_price_per_million = p, output_price_per_million = 2 * p\<rparr>"

theorem explicit_pricing_wins_witness:
  "\<exists>r. find_model_pricing True (\<lambda>_ _ _. Price_Failed)
      \<lparr>users = Map.empty, budgets = Map.empty, pricing = [sample_row 5 1, sample_row 9 3],
       usage_logs = [], reset_logs = [], api_keys = [], faults = []\<rparr>
      (Some ''openai'') ''gpt'' 7 = Some r
    \<and> r \<in> set [sample_row 5 1, sample_row 9 3]
    \<and> model_key r = pricing_key (Some ''openai'') ''gpt'' \<and> 5 \<le> effective_at r \<and> effective_at r \<le> 7"
  using explicit_pricing_wins [where x = "sample_row 5 1" and p = "Some ''openai''" and m = "''gpt''"
      and t = 7 and enabled = True and calc = "\<lambda>_ _ _. Price_Failed"
      and d = "\<lparr>users = Map.empty, budgets = Map.empty, pricing = [sample_row 5 1, sample_row 9 3],
       usage_logs = [], reset_logs = [], api_keys = [], faults = []\<rparr>"]
  by (simp add: sample_row_def pricing_key_def given_def)

end
