(* ===== verification/Ledger.thy ===== *)
theory Ledger
  imports Prelude "HOL-Library.Multiset"
begin

text \<open>
  The interface between the reservation protocol and the code that drives it.

  A ledger keeps, per user, the money spent and the money held for requests in flight. Its three
  transactions are \<open>take\<close> (hold an amount, subject to an optional cap), \<open>settle\<close> (release a held
  amount and add a cost to the spending; cost 0 is a refund) and \<open>wipe\<close> (a budget reset: the
  spending starts again from zero). Each reports whether it took effect.

  \<open>balanced\<close> says that what is held for every user is exactly the sum of the open entries of that
  user, and \<open>under_caps\<close> that spending plus holds stay below a cap. The locale derives from the laws
  that both survive every transaction; the concurrent model of the gateway rests on these lemmas.
\<close>

type_synonym entry = "string \<times> money"

definition entries_of :: "string \<Rightarrow> entry list \<Rightarrow> money" where
  "entries_of u es = sum_list (map snd (filter (\<lambda>p. fst p = u) es))"

definition balanced :: "(string \<Rightarrow> money) \<Rightarrow> entry list \<Rightarrow> bool" where
  "balanced held_by es \<longleftrightarrow> (\<forall>u. held_by u = entries_of u es) \<and> (\<forall>p \<in> set es. 0 \<le> snd p)"

definition under_caps :: "(string \<Rightarrow> money) \<Rightarrow> (string \<Rightarrow> money) \<Rightarrow> (string \<Rightarrow> money option) \<Rightarrow> bool" where
  "under_caps spent_by held_by cap \<longleftrightarrow>
     (\<forall>u m. cap u = Some m \<longrightarrow> spent_by u + held_by u \<le> m)"

lemma entries_of_simps [simp]:
  "entries_of u [] = 0"
  "entries_of u ((v, e) # es) = (if v = u then e else 0) + entries_of u es"
  "entries_of u (es @ fs) = entries_of u es + entries_of u fs"
  by (simp_all add: entries_of_def)

lemma entries_of_nonneg: "\<forall>p \<in> set es. 0 \<le> snd p \<Longrightarrow> 0 \<le> entries_of u es"
  unfolding entries_of_def by (rule sum_list_nonneg) auto

lemma entries_of_remove1:
  "p \<in> set es \<Longrightarrow> entries_of u (remove1 p es) = entries_of u es - (if fst p = u then snd p else 0)"
  by (induction es) (auto simp: entries_of_def)

lemma entry_le:
  assumes "(u, e) \<in> set es" and "\<forall>p \<in> set es. 0 \<le> snd p"
  shows "e \<le> entries_of u es"
proof -
  have "0 \<le> entries_of u (remove1 (u, e) es)"
    using assms(2) notin_set_remove1 by (intro entries_of_nonneg) fastforce
  then show ?thesis using entries_of_remove1[OF assms(1), of u] by simp
qed

lemma balanced_le:
  assumes "balanced h es" "(u, e) \<in> set es" shows "e \<le> h u"
  using assms entry_le[of u e es] by (simp add: balanced_def)

lemma balanced_nonneg: "balanced h es \<Longrightarrow> 0 \<le> h u"
  by (simp add: balanced_def entries_of_nonneg)

lemma balanced_Nil: "balanced h [] \<longleftrightarrow> (\<forall>u. h u = 0)"
  by (simp add: balanced_def)

lemma balanced_Cons:
  assumes "balanced h es" "0 \<le> e" "\<And>v. h' v = h v + (if v = u then e else 0)"
  shows "balanced h' ((u, e) # es)"
  using assms by (auto simp: balanced_def)

lemma balanced_remove1:
  assumes "balanced h es" "(u, e) \<in> set es" "\<And>v. h' v = h v - (if v = u then e else 0)"
  shows "balanced h' (remove1 (u, e) es)"
  using assms notin_set_remove1[of _ es "(u, e)"]
  by (fastforce simp: balanced_def entries_of_remove1)

lemma entries_of_mset: "entries_of u es = (\<Sum>p \<in># mset es. if fst p = u then snd p else 0)"
  by (induction es) (auto simp: entries_of_def)

lemma balanced_mset:
  assumes "mset es = mset fs" shows "balanced h es = balanced h fs"
  using assms mset_eq_setD[OF assms] by (simp add: balanced_def entries_of_mset)

locale reservation_ledger =
  fixes live :: "'s \<Rightarrow> string \<Rightarrow> bool"
    and held :: "'s \<Rightarrow> string \<Rightarrow> money"
    and spent :: "'s \<Rightarrow> string \<Rightarrow> money"
    and take :: "'s \<Rightarrow> string \<Rightarrow> money \<Rightarrow> money option \<Rightarrow> 's \<times> bool"
    and settle :: "'s \<Rightarrow> string \<Rightarrow> money \<Rightarrow> money \<Rightarrow> 's \<times> bool"
    and wipe :: "'s \<Rightarrow> string \<Rightarrow> 's \<times> bool"
  assumes take_ok: "\<lbrakk>live s u; take s u e cap = (s', True)\<rbrakk> \<Longrightarrow>
        held s' v = held s v + (if v = u then e else 0) \<and> spent s' v = spent s v"
    and take_fits: "\<lbrakk>live s u; take s u e (Some m) = (s', True)\<rbrakk> \<Longrightarrow>
        spent s u + held s u < m \<and> spent s u + held s u + e \<le> m"
    and take_no: "take s u e cap = (s', False) \<Longrightarrow> held s' v = held s v \<and> spent s' v = spent s v"
    and settle_ok: "\<lbrakk>live s u; 0 \<le> e; e \<le> held s u; settle s u e c = (s', True)\<rbrakk> \<Longrightarrow>
        held s' v = held s v - (if v = u then e else 0) \<and>
        spent s' v = spent s v + (if v = u then max c 0 else 0)"
    and settle_no: "settle s u e c = (s', False) \<Longrightarrow> held s' v = held s v \<and> spent s' v = spent s v"
    and wipe_held: "held (fst (wipe s u)) v = held s v"
    and wipe_spent: "spent (fst (wipe s u)) v = spent s v \<or> (v = u \<and> spent (fst (wipe s u)) v = 0)"
    and live_take: "live (fst (take s u e cap)) v = live s v"
    and live_settle: "live (fst (settle s u e c)) v = live s v"
    and live_wipe: "live (fst (wipe s u)) v = live s v"
begin

definition sound :: "(string \<Rightarrow> money option) \<Rightarrow> 's \<Rightarrow> entry list \<Rightarrow> bool" where
  "sound cap s es \<longleftrightarrow> balanced (held s) es \<and> under_caps (spent s) (held s) cap \<and> (\<forall>u. 0 \<le> spent s u)
     \<and> (\<forall>p \<in> set es. live s (fst p))"

lemma balanced_take:
  assumes "balanced (held s) es" "live s u" "0 \<le> e" "take s u e cap = (s', b)"
  shows "balanced (held s') (if b then (u, e) # es else es)"
proof (cases b)
  case True
  with assms take_ok[of s u e cap s'] balanced_Cons[of "held s" es e "held s'" u] show ?thesis by simp
next
  case False
  with assms take_no[of s u e cap s'] have "held s' = held s" by auto
  with False assms show ?thesis by simp
qed

lemma balanced_settle:
  assumes "balanced (held s) es" "(u, e) \<in> set es" "live s u" "settle s u e c = (s', b)"
  shows "balanced (held s') (if b then remove1 (u, e) es else es)"
proof (cases b)
  case True
  have "0 \<le> e" using assms(1,2) by (auto simp: balanced_def)
  with True assms settle_ok[of s u e c s'] balanced_le[of "held s" es u e]
    balanced_remove1[of "held s" es u e "held s'"]
  show ?thesis by simp
next
  case False
  with assms settle_no[of s u e c s'] have "held s' = held s" by auto
  with False assms show ?thesis by simp
qed

lemma under_caps_take:
  assumes "under_caps (spent s) (held s) cap" "live s u" "take s u e k = (s', b)"
    and "cap u = None \<or> k = cap u"
  shows "under_caps (spent s') (held s') cap"
proof (cases b)
  case True
  with assms take_ok[of s u e k s'] take_fits[of s u e _ s'] show ?thesis
    by (fastforce simp: under_caps_def)
next
  case False
  with assms take_no[of s u e k s'] show ?thesis by (simp add: under_caps_def)
qed

lemma under_caps_settle:
  assumes "under_caps (spent s) (held s) cap" "balanced (held s) es" "(u, e) \<in> set es" "live s u"
    and "settle s u e c = (s', b)" "cap u = None \<or> c \<le> e"
  shows "under_caps (spent s') (held s') cap"
proof (cases b)
  case True
  have e: "0 \<le> e" "e \<le> held s u"
    using assms(2,3) balanced_le[OF assms(2,3)] by (auto simp: balanced_def)
  have "held s' v = held s v - (if v = u then e else 0)"
    "spent s' v = spent s v + (if v = u then max c 0 else 0)" for v
    using settle_ok[OF assms(4) e, of c s' v] assms(5) True by auto
  then show ?thesis using assms(1,6) e by (fastforce simp: under_caps_def)
next
  case False
  with assms settle_no[of s u e c s'] show ?thesis by (simp add: under_caps_def)
qed

lemma under_caps_wipe:
  assumes "under_caps (spent s) (held s) cap" "\<And>u. 0 \<le> spent s u"
  shows "under_caps (spent (fst (wipe s u))) (held (fst (wipe s u))) cap"
  unfolding under_caps_def
proof (intro allI impI)
  fix v m
  assume "cap v = Some m"
  with assms have "spent s v + held s v \<le> m" by (simp add: under_caps_def)
  with wipe_held[of s u v] wipe_spent[of s u v] assms(2)[of v]
  show "spent (fst (wipe s u)) v + held (fst (wipe s u)) v \<le> m" by linarith
qed

lemma sound_take:
  assumes "sound cap s es" "live s u" "0 \<le> e" "take s u e k = (s', b)"
    and "cap u = None \<or> k = cap u"
  shows "sound cap s' (if b then (u, e) # es else es)"
proof -
  have "spent s' v = spent s v" for v
    using take_ok[of s u e k s' v] take_no[of s u e k s' v] assms by (cases b) auto
  moreover have "live s' v = live s v" for v
    using live_take[of s u e k v] assms(4) by simp
  ultimately show ?thesis
    using assms balanced_take[of s es u e k s' b] under_caps_take[of s cap u e k s' b]
    by (auto simp: sound_def)
qed

lemma sound_settle:
  assumes "sound cap s es" "(u, e) \<in> set es" "settle s u e c = (s', b)"
    and "cap u = None \<or> c \<le> e"
  shows "sound cap s' (if b then remove1 (u, e) es else es)"
proof -
  have l: "live s u" and bal: "balanced (held s) es" using assms by (auto simp: sound_def)
  have e: "0 \<le> e" "e \<le> held s u"
    using bal assms(2) balanced_le[OF bal assms(2)] by (auto simp: balanced_def)
  have "0 \<le> spent s' v" for v
    using settle_ok[OF l e, of c s' v] settle_no[of s u e c s' v] assms by (cases b) (auto simp: sound_def)
  moreover have "live s' v = live s v" for v
    using live_settle[of s u e c v] assms(3) by simp
  moreover have "p \<in> set es" if "p \<in> set (if b then remove1 (u, e) es else es)" for p
    using that set_remove1_subset[of "(u, e)" es] by (auto split: if_splits)
  moreover have "under_caps (spent s') (held s') cap"
    using under_caps_settle[of s cap es u e c s' b] assms bal l by (simp add: sound_def)
  moreover have "balanced (held s') (if b then remove1 (u, e) es else es)"
    by (rule balanced_settle[OF bal assms(2) l assms(3)])
  ultimately show ?thesis using assms(1) unfolding sound_def by blast
qed

lemma sound_charge:
  assumes "sound cap s es" "live s u" "settle s u 0 c = (s', b)" and "cap u = None \<or> c \<le> 0"
  shows "sound cap s' es"
proof -
  have "0 \<le> held s u" using assms(1) balanced_nonneg by (auto simp: sound_def)
  then have h: "held s' v = held s v" "spent s' v = spent s v + (if v = u \<and> b then max c 0 else 0)" for v
    using settle_ok[OF assms(2), of 0 c s' v] settle_no[of s u 0 c s' v] assms(3) by (cases b; auto)+
  have "held s' = held s" using h by auto
  moreover have "live s' v = live s v" for v using live_settle[of s u 0 c v] assms(3) by simp
  moreover have "under_caps (spent s') (held s') cap"
    using assms(1,4) h by (auto simp: sound_def under_caps_def)
  ultimately show ?thesis using assms(1) h by (auto simp: sound_def)
qed

lemma sound_mset: "mset es = mset fs \<Longrightarrow> sound cap s es = sound cap s fs"
  using balanced_mset[of es fs] mset_eq_setD[of es fs] by (simp add: sound_def)

text \<open>The entries may be regrouped as long as every user's total stays the same.\<close>

lemma sound_regroup:
  assumes "sound cap s es" "\<And>u. entries_of u fs = entries_of u es"
    and "\<And>p. p \<in> set fs \<Longrightarrow> 0 \<le> snd p \<and> live s (fst p)"
  shows "sound cap s fs"
  using assms by (simp add: sound_def balanced_def)

lemma sound_cong:
  assumes "held s' = held s" "spent s' = spent s" "live s' = live s"
  shows "sound cap s' es = sound cap s es"
  using assms by (simp add: sound_def)

lemma sound_wipe:
  assumes "sound cap s es"
  shows "sound cap (fst (wipe s u)) es"
proof -
  have "held (fst (wipe s u)) = held s" by (simp add: fun_eq_iff wipe_held)
  moreover have "0 \<le> spent (fst (wipe s u)) v" for v
    using wipe_spent[of s u v] assms by (auto simp: sound_def)
  ultimately show ?thesis
    using assms under_caps_wipe[of s cap u] by (simp add: sound_def live_wipe)
qed

end

end
