(* ===== verification/Budget.thy ===== *)
theory Budget
  imports Pricing Ledger
begin

text \<open>
  Budget enforcement (\<open>services/budget_service.py\<close>): resets, the legacy \<open>validate_user_budget\<close>
  gate, and the reservation protocol \<open>reserve_budget\<close> / \<open>increase_reservation\<close> /
  \<open>reconcile_reservation\<close> / \<open>refund_reservation\<close> that pre-debits an estimate to
  \<open>users.reserved\<close> and settles it later.

  Every operation takes the store and returns the store it leaves behind together with its result;
  \<open>HTTPException\<close>s and \<open>SQLAlchemyError\<close>s are values of \<open>budget_error\<close>. \<open>now\<close> is the clock
  reading the source takes from \<open>datetime.now(UTC)\<close>. The model name is split by the \<open>any_llm\<close>
  package: \<open>split_model\<close> of the environment is that parameter, \<^const>\<open>None\<close> when it raises.
\<close>

datatype budget_error = Http http_exception | Store_Error

record gateway_env =
  split_model :: "string \<Rightarrow> (string option \<times> string) option"
  calc_price :: price_source
  default_pricing :: bool

record reservation_handle =
  h_user :: string
  estimate :: money
  is_reserved :: bool
  strategy :: string

definition find_price :: "gateway_env \<Rightarrow> db \<Rightarrow> string option \<Rightarrow> string \<Rightarrow> instant \<Rightarrow> model_pricing option" where
  "find_price E d p m t = find_model_pricing (default_pricing E) (calc_price E) d p m t"

section \<open>Resets\<close>

definition calculate_next_reset :: "instant \<Rightarrow> int \<Rightarrow> instant" where
  "calculate_next_reset start duration_sec = start + duration_sec * 1000000"

text \<open>\<open>budget.budget_duration_sec\<close> counts as absent when it is 0.\<close>

definition next_reset_of :: "budget_row \<Rightarrow> instant \<Rightarrow> instant option" where
  "next_reset_of b now = (case budget_duration_sec b of
       None \<Rightarrow> None | Some s \<Rightarrow> if s = 0 then None else Some (calculate_next_reset now s))"

definition reset_row :: "budget_row \<Rightarrow> instant \<Rightarrow> user_row \<Rightarrow> user_row" where
  "reset_row b now r =
     r\<lparr>spend := 0, budget_started_at := Some now, next_budget_reset_at := next_reset_of b now\<rparr>"

definition reset_log_of :: "string \<Rightarrow> budget_row \<Rightarrow> instant \<Rightarrow> user_row \<Rightarrow> budget_reset_log" where
  "reset_log_of bid b now r =
     \<lparr>reset_user_id = user_id r, reset_budget_id = bid, previous_spend = spend r, reset_at = now,
      next_reset_at = next_reset_of b now\<rparr>"

definition add_reset_log :: "budget_reset_log \<Rightarrow> db \<Rightarrow> db" where
  "add_reset_log l d = d\<lparr>reset_logs := reset_logs d @ [l]\<rparr>"

definition reset_user_budget :: "db \<Rightarrow> user_row \<Rightarrow> string \<Rightarrow> budget_row \<Rightarrow> instant
    \<Rightarrow> db \<times> (budget_error, user_row) result" where
  "reset_user_budget d r bid b now =
     (let d' = add_reset_log (reset_log_of bid b now r)
                 (d\<lparr>users := (users d)(user_id r \<mapsto> reset_row b now r)\<rparr>)
      in case commit d d' of
           (d2, True) \<Rightarrow> (d2, Inr (reset_row b now r))
         | (d2, False) \<Rightarrow> (d2, Inl Store_Error))"

definition reset_due :: "instant \<Rightarrow> user_row \<Rightarrow> bool" where
  "reset_due now r \<longleftrightarrow> (case next_budget_reset_at r of None \<Rightarrow> False | Some t \<Rightarrow> t \<le> now)"

text \<open>The compare-and-swap reset: the row is updated only if its reset is still due.\<close>

definition cas_reset_user_budget :: "db \<Rightarrow> user_row \<Rightarrow> string \<Rightarrow> budget_row \<Rightarrow> instant
    \<Rightarrow> db \<times> (budget_error, user_row) result" where
  "cas_reset_user_budget d r bid b now =
     (case update_user d (user_id r) (reset_due now) (reset_row b now) of
        (d', True) \<Rightarrow>
          (case commit d (add_reset_log (reset_log_of bid b now r) d') of
             (d2, True) \<Rightarrow> (d2, Inr (case get_active_user d2 (user_id r) of
                                      None \<Rightarrow> r | Some r2 \<Rightarrow> r2))
           | (d2, False) \<Rightarrow> (d2, Inl Store_Error))
      | (_, False) \<Rightarrow> (d, Inr r))"

section \<open>Strategies, free models, the legacy gate\<close>

definition normalize_strategy :: "string option \<Rightarrow> string" where
  "normalize_strategy s =
     (let n = py_lower (py_strip (case s of None \<Rightarrow> ''for_update''
                                  | Some x \<Rightarrow> if x = [] then ''for_update'' else x))
      in if n \<in> {''for_update'', ''cas'', ''disabled''} then n else ''for_update'')"

definition is_model_free :: "gateway_env \<Rightarrow> db \<Rightarrow> string \<Rightarrow> instant \<Rightarrow> bool" where
  "is_model_free E d model now = (case split_model E model of
       None \<Rightarrow> False
     | Some (p, m) \<Rightarrow> (case find_price E d p m now of
         None \<Rightarrow> False
       | Some pr \<Rightarrow> input_price_per_million pr = 0 \<and> output_price_per_million pr = 0))"

definition model_is_free :: "gateway_env \<Rightarrow> db \<Rightarrow> string option \<Rightarrow> instant \<Rightarrow> bool" where
  "model_is_free E d model now \<longleftrightarrow> given model \<and> is_model_free E d (the model) now"

definition not_found_error :: "string \<Rightarrow> budget_error" where
  "not_found_error u = Http (http_error 404 (''User '' @ quoted u @ '' not found''))"

definition blocked_error :: "string \<Rightarrow> budget_error" where
  "blocked_error u = Http (http_error 403 (''User '' @ quoted u @ '' is blocked''))"

definition exceeded_error :: "string \<Rightarrow> budget_error" where
  "exceeded_error u = Http (http_error 403 (''User '' @ quoted u @ '' has exceeded budget limit''))"

text \<open>\<open>_get_budget\<close> of a user's optional budget id; an empty id counts as none.\<close>

definition budget_of :: "db \<Rightarrow> user_row \<Rightarrow> (string \<times> budget_row) option" where
  "budget_of d r = (if given (budget_id r)
     then map_option (\<lambda>b. (the (budget_id r), b)) (budgets d (the (budget_id r))) else None)"

definition over_budget :: "budget_row \<Rightarrow> user_row \<Rightarrow> bool" where
  "over_budget b r = (case max_budget b of None \<Rightarrow> False | Some m \<Rightarrow> m \<le> spend r)"

definition finish_validation :: "gateway_env \<Rightarrow> string \<Rightarrow> string option \<Rightarrow> instant \<Rightarrow> budget_row
    \<Rightarrow> db \<times> (budget_error, user_row) result \<Rightarrow> db \<times> (budget_error, user_row) result" where
  "finish_validation E u model now b dr = (case dr of
       (d, Inl e) \<Rightarrow> (d, Inl e)
     | (d, Inr r) \<Rightarrow>
         (if over_budget b r \<and> \<not> model_is_free E d model now then (d, Inl (exceeded_error u))
          else (d, Inr r)))"

definition validate_user_budget :: "gateway_env \<Rightarrow> db \<Rightarrow> string \<Rightarrow> string option \<Rightarrow> string option
    \<Rightarrow> instant \<Rightarrow> db \<times> (budget_error, user_row) result" where
  "validate_user_budget E d u model strat now =
     (let n = normalize_strategy strat in
      case get_active_user d u of
        None \<Rightarrow> (d, Inl (not_found_error u))
      | Some r \<Rightarrow>
          if blocked r then (d, Inl (blocked_error u))
          else if n = ''disabled'' then (d, Inr r)
          else (case budget_of d r of
             None \<Rightarrow> (d, Inr r)
           | Some (bid, b) \<Rightarrow>
               finish_validation E u model now b
                 (if reset_due now r
                  then (if n = ''cas'' then cas_reset_user_budget d r bid b now
                        else reset_user_budget d r bid b now)
                  else (d, Inr r))))"

section \<open>Estimates\<close>

definition estimate_cost :: "model_pricing option \<Rightarrow> int \<Rightarrow> int option \<Rightarrow> int \<Rightarrow> money" where
  "estimate_cost p prompt_chars max_output_tokens default_output_tokens = (case p of
       None \<Rightarrow> 0
     | Some pr \<Rightarrow>
         (let prompt_tokens = real_of_int (max prompt_chars 0) / 4;
              output_tokens = max (case max_output_tokens of None \<Rightarrow> default_output_tokens
                                   | Some n \<Rightarrow> n) 0
          in (prompt_tokens / 1000000) * input_price_per_million pr
             + (real_of_int output_tokens / 1000000) * output_price_per_million pr))"

section \<open>Reservations\<close>

definition no_reservation :: "string \<Rightarrow> string \<Rightarrow> reservation_handle" where
  "no_reservation u n = \<lparr>h_user = u, estimate = 0, is_reserved = False, strategy = n\<rparr>"

definition held_handle :: "string \<Rightarrow> money \<Rightarrow> string \<Rightarrow> reservation_handle" where
  "held_handle u e n = \<lparr>h_user = u, estimate = e, is_reserved = True, strategy = n\<rparr>"

definition add_reserved :: "money \<Rightarrow> user_row \<Rightarrow> user_row" where
  "add_reserved e r = r\<lparr>reserved := reserved r + e\<rparr>"

text \<open>The conditional \<open>UPDATE\<close> that is the gate, and the commit after it.\<close>

definition fits :: "money \<Rightarrow> money \<Rightarrow> user_row \<Rightarrow> bool" where
  "fits m e r \<longleftrightarrow> spend r + reserved r < m \<and> spend r + reserved r + e \<le> m"

definition take_reservation :: "db \<Rightarrow> string \<Rightarrow> money \<Rightarrow> string \<Rightarrow> money option
    \<Rightarrow> db \<times> (budget_error, reservation_handle) result" where
  "take_reservation d u e n cap = (case cap of
       None \<Rightarrow> (case commit d (fst (update_user d u (\<lambda>_. True) (add_reserved e))) of
           (d2, True) \<Rightarrow> (d2, Inr (held_handle u e n))
         | (d2, False) \<Rightarrow> (d2, Inl Store_Error))
     | Some m \<Rightarrow> (case update_user d u (fits m e) (add_reserved e) of (d', matched) \<Rightarrow>
         (case commit d d' of
            (d2, True) \<Rightarrow> (d2, if matched then Inr (held_handle u e n) else Inl (exceeded_error u))
          | (d2, False) \<Rightarrow> (d2, Inl Store_Error))))"

definition reserve_after_reset :: "gateway_env \<Rightarrow> string \<Rightarrow> money \<Rightarrow> string option \<Rightarrow> string \<Rightarrow> instant
    \<Rightarrow> budget_row \<Rightarrow> db \<times> (budget_error, user_row) result
    \<Rightarrow> db \<times> (budget_error, reservation_handle) result" where
  "reserve_after_reset E u e model n now b dr = (case dr of
       (d, Inl err) \<Rightarrow> (d, Inl err)
     | (d, Inr _) \<Rightarrow>
         (if model_is_free E d model now then (d, Inr (no_reservation u n))
          else take_reservation d u e n (max_budget b)))"

definition reserve_budget :: "gateway_env \<Rightarrow> db \<Rightarrow> string \<Rightarrow> money \<Rightarrow> string option \<Rightarrow> string option
    \<Rightarrow> instant \<Rightarrow> db \<times> (budget_error, reservation_handle) result" where
  "reserve_budget E d u est model strat now =
     (let e = max est 0; n = normalize_strategy strat in
      case get_active_user d u of
        None \<Rightarrow> (d, Inl (not_found_error u))
      | Some r \<Rightarrow>
          if blocked r then (d, Inl (blocked_error u))
          else if n = ''disabled'' then (d, Inr (no_reservation u n))
          else (case budget_of d r of
             None \<Rightarrow> (d, Inr (no_reservation u n))
           | Some (bid, b) \<Rightarrow>
               reserve_after_reset E u e model n now b
                 (if reset_due now r then cas_reset_user_budget d r bid b now else (d, Inr r))))"

text \<open>\<open>_release_reserved\<close>: subtract, clamped at zero.\<close>

definition release_reserved :: "money \<Rightarrow> money \<Rightarrow> money" where
  "release_reserved e res = (if res - e < 0 then 0 else res - e)"

definition settle_row :: "reservation_handle \<Rightarrow> money \<Rightarrow> user_row \<Rightarrow> user_row" where
  "settle_row h cost r =
     r\<lparr>spend := (if cost \<noteq> 0 then spend r + cost else spend r),
       reserved := (if is_reserved h then release_reserved (estimate h) (reserved r) else reserved r)\<rparr>"

text \<open>The third component says whether the operation returned or raised \<open>SQLAlchemyError\<close>.\<close>

definition reconcile_reservation :: "db \<Rightarrow> reservation_handle \<Rightarrow> money \<Rightarrow> db \<times> bool" where
  "reconcile_reservation d h actual_cost =
     (let cost = max actual_cost 0 in
      if cost = 0 \<and> \<not> is_reserved h then (d, True)
      else commit d (fst (update_user d (h_user h) (\<lambda>_. True) (settle_row h cost))))"

definition refund_row :: "reservation_handle \<Rightarrow> user_row \<Rightarrow> user_row" where
  "refund_row h r = r\<lparr>reserved := release_reserved (estimate h) (reserved r)\<rparr>"

definition refund_reservation :: "db \<Rightarrow> reservation_handle \<Rightarrow> db \<times> bool" where
  "refund_reservation d h =
     (if \<not> is_reserved h then (d, True)
      else commit d (fst (update_user d (h_user h) (\<lambda>_. True) (refund_row h))))"

definition increase_reservation :: "gateway_env \<Rightarrow> db \<Rightarrow> reservation_handle \<Rightarrow> money \<Rightarrow> string option
    \<Rightarrow> string option \<Rightarrow> instant \<Rightarrow> db \<times> (budget_error, reservation_handle) result" where
  "increase_reservation E d h extra model strat now =
     (if extra \<le> 0 then (d, Inr h)
      else (case reserve_budget E d (h_user h) extra model strat now of
          (d', Inl e) \<Rightarrow> (d', Inl e)
        | (d', Inr delta) \<Rightarrow> (d', Inr (if is_reserved delta
             then h\<lparr>estimate := estimate h + estimate delta, is_reserved := True\<rparr> else h))))"

section \<open>The store as a ledger\<close>

text \<open>What the store says of a user: present and not deleted, money held, money spent.\<close>

definition active :: "db \<Rightarrow> string \<Rightarrow> bool" where
  "active d u \<longleftrightarrow> get_active_user d u \<noteq> None"

definition held_of :: "db \<Rightarrow> string \<Rightarrow> money" where
  "held_of d u = (case get_active_user d u of None \<Rightarrow> 0 | Some r \<Rightarrow> reserved r)"

definition spent_of :: "db \<Rightarrow> string \<Rightarrow> money" where
  "spent_of d u = (case get_active_user d u of None \<Rightarrow> 0 | Some r \<Rightarrow> spend r)"

definition ledger_take :: "string \<Rightarrow> db \<Rightarrow> string \<Rightarrow> money \<Rightarrow> money option \<Rightarrow> db \<times> bool" where
  "ledger_take n d u e cap = (case take_reservation d u e n cap of
       (d', Inr h) \<Rightarrow> (d', True) | (d', Inl err) \<Rightarrow> (d', False))"

definition ledger_settle :: "string \<Rightarrow> db \<Rightarrow> string \<Rightarrow> money \<Rightarrow> money \<Rightarrow> db \<times> bool" where
  "ledger_settle n d u e c = reconcile_reservation d (held_handle u e n) c"

definition ledger_wipe :: "user_row \<Rightarrow> string \<Rightarrow> budget_row \<Rightarrow> instant \<Rightarrow> db \<Rightarrow> string \<Rightarrow> db \<times> bool" where
  "ledger_wipe r bid b now d u = (case cas_reset_user_budget d (r\<lparr>user_id := u\<rparr>) bid b now of
       (d', Inr r') \<Rightarrow> (d', True) | (d', Inl err) \<Rightarrow> (d', False))"

lemma handle_simps [simp, settle_simps]:
  "h_user (held_handle u e n) = u" "estimate (held_handle u e n) = e"
  "is_reserved (held_handle u e n)" "strategy (held_handle u e n) = n"
  "h_user (no_reservation u n) = u" "estimate (no_reservation u n) = 0"
  "\<not> is_reserved (no_reservation u n)" "strategy (no_reservation u n) = n"
  by (simp_all add: held_handle_def no_reservation_def)

lemma row_ops_deleted [simp]:
  "deleted_at (add_reserved e r) = deleted_at r" "deleted_at (settle_row h c r) = deleted_at r"
  "deleted_at (refund_row h r) = deleted_at r" "deleted_at (reset_row b now r) = deleted_at r"
  by (simp_all add: add_reserved_def settle_row_def refund_row_def reset_row_def)

lemma row_ops_spend [simp]:
  "spend (add_reserved e r) = spend r" "spend (settle_row h c r) = spend r + c"
  "spend (refund_row h r) = spend r" "spend (reset_row b now r) = 0"
  by (simp_all add: add_reserved_def settle_row_def refund_row_def reset_row_def)

lemma row_ops_reserved [simp]:
  "reserved (add_reserved e r) = reserved r + e"
  "reserved (refund_row h r) = release_reserved (estimate h) (reserved r)"
  "reserved (settle_row h c r) =
     (if is_reserved h then release_reserved (estimate h) (reserved r) else reserved r)"
  "reserved (reset_row b now r) = reserved r"
  by (simp_all add: add_reserved_def settle_row_def refund_row_def reset_row_def)

lemma release_exact [simp]: "e \<le> res \<Longrightarrow> release_reserved e res = res - e"
  by (simp add: release_reserved_def)

lemma release_nonneg: "0 \<le> release_reserved e res"
  by (simp add: release_reserved_def)

lemma active_Some: "active d u \<longleftrightarrow> (\<exists>r. get_active_user d u = Some r)"
  by (simp add: active_def)

lemma of_row [simp]:
  "get_active_user d u = Some r \<Longrightarrow> held_of d u = reserved r"
  "get_active_user d u = Some r \<Longrightarrow> spent_of d u = spend r"
  "get_active_user d u = Some r \<Longrightarrow> active d u"
  by (simp_all add: held_of_def spent_of_def active_def)

lemma of_faults [simp]:
  "held_of (d\<lparr>faults := fs\<rparr>) = held_of d" "spent_of (d\<lparr>faults := fs\<rparr>) = spent_of d"
  "active (d\<lparr>faults := fs\<rparr>) = active d"
  by (simp_all add: held_of_def spent_of_def active_def fun_eq_iff)

lemma of_logs [simp]:
  "held_of (add_reset_log l d) = held_of d" "spent_of (add_reset_log l d) = spent_of d"
  "active (add_reset_log l d) = active d"
  by (simp_all add: add_reset_log_def held_of_def spent_of_def active_def fun_eq_iff)

text \<open>The effect of one conditional update on the three readings.\<close>

lemma of_update:
  assumes "\<And>r. deleted_at (f r) = deleted_at r"
  shows "active (fst (update_user d u P f)) v = active d v"
    and "v \<noteq> u \<Longrightarrow> held_of (fst (update_user d u P f)) v = held_of d v"
    and "v \<noteq> u \<Longrightarrow> spent_of (fst (update_user d u P f)) v = spent_of d v"
    and "get_active_user d u = Some r \<Longrightarrow>
      held_of (fst (update_user d u P f)) u = (if P r then reserved (f r) else reserved r)"
    and "get_active_user d u = Some r \<Longrightarrow>
      spent_of (fst (update_user d u P f)) u = (if P r then spend (f r) else spend r)"
    and "get_active_user d u = None \<Longrightarrow> fst (update_user d u P f) = d"
  using update_user_active[of f d u P, OF assms]
  by (auto simp: active_def held_of_def spent_of_def update_user_def split: option.splits)

lemma take_reservation_held:
  assumes "active d u" "take_reservation d u e n cap = (d', Inr h)"
  shows "h = held_handle u e n" and "held_of d' v = held_of d v + (if v = u then e else 0)"
    and "spent_of d' v = spent_of d v" and "active d' v = active d v"
    and "cap = Some m \<Longrightarrow> spent_of d u + held_of d u < m \<and> spent_of d u + held_of d u + e \<le> m"
proof -
  obtain r where r: "get_active_user d u = Some r" using assms(1) by (auto simp: active_Some)
  define P where "P = (case cap of None \<Rightarrow> \<lambda>_. True | Some m \<Rightarrow> fits m e)"
  define d1 where "d1 = fst (update_user d u P (add_reserved e))"
  have c: "h = held_handle u e n \<and> P r \<and> (\<exists>fs. d' = d1\<lparr>faults := fs\<rparr>)"
  proof (cases cap)
    case None
    with assms(2) show ?thesis
      by (auto simp: take_reservation_def d1_def P_def elim!: commitE[of d d1] split: prod.splits bool.splits)
        (metis commitE prod.inject)+
  next
    case (Some m)
    have "snd (update_user d u (fits m e) (add_reserved e)) = fits m e r"
      using r by (auto simp: update_user_def)
    with Some assms(2) commit_cases[of d d1] show ?thesis
      by (auto simp: take_reservation_def d1_def P_def split: prod.splits bool.splits if_splits)
  qed
  note up = of_update[where f = "add_reserved e" and d = d and u = u and P = P, folded d1_def, OF row_ops_deleted(1)]
  from c up(2)[of v] up(4)[OF r] r show "held_of d' v = held_of d v + (if v = u then e else 0)" by auto
  from c up(3)[of v] up(5)[OF r] r show "spent_of d' v = spent_of d v" by (cases "v = u") auto
  from c up(1)[of v] show "active d' v = active d v" by auto
  from c show "h = held_handle u e n" by simp
  from c r show "cap = Some m \<Longrightarrow> spent_of d u + held_of d u < m \<and> spent_of d u + held_of d u + e \<le> m"
    by (auto simp: P_def fits_def)
qed

lemma take_reservation_failed:
  assumes "take_reservation d u e n cap = (d', Inl err)"
  shows "held_of d' v = held_of d v" and "spent_of d' v = spent_of d v"
    and "err = Store_Error \<or> err = exceeded_error u" and "active d' v = active d v"
    and "users d' = users d"
proof -
  define P where "P = (case cap of None \<Rightarrow> \<lambda>_. True | Some m \<Rightarrow> fits m e)"
  define d1 where "d1 = fst (update_user d u P (add_reserved e))"
  have "(err = Store_Error \<or> err = exceeded_error u) \<and> (\<exists>fs. d' = d\<lparr>faults := fs\<rparr>)"
  proof (cases cap)
    case None
    with assms commit_cases[of d d1] show ?thesis
      by (auto simp: take_reservation_def d1_def P_def split: prod.splits bool.splits)
  next
    case (Some m)
    have "snd (update_user d u (fits m e) (add_reserved e)) \<or> d1 = d"
      using Some by (auto simp: update_user_def d1_def P_def split: option.splits)
    with Some assms commit_cases[of d d1] show ?thesis
      by (auto simp: take_reservation_def d1_def P_def split: prod.splits bool.splits if_splits)
  qed
  then show "held_of d' v = held_of d v" "spent_of d' v = spent_of d v"
    "err = Store_Error \<or> err = exceeded_error u" "active d' v = active d v" "users d' = users d"
    by auto
qed

lemma reconcile_held:
  assumes "active d u" "reconcile_reservation d (held_handle u e n) c = (d', True)"
  shows "held_of d' v = (if v = u then release_reserved e (held_of d u) else held_of d v)"
    and "spent_of d' v = spent_of d v + (if v = u then max c 0 else 0)"
    and "active d' v = active d v"
proof -
  obtain r where r: "get_active_user d u = Some r" using assms(1) by (auto simp: active_Some)
  define f where "f = settle_row (held_handle u e n) (max c 0)"
  define d1 where "d1 = fst (update_user d u (\<lambda>_. True) f)"
  have c: "\<exists>fs. d' = d1\<lparr>faults := fs\<rparr>"
    using assms(2) commit_cases[of d d1] by (auto simp: reconcile_reservation_def d1_def f_def)
  have fd: "\<And>r. deleted_at (f r) = deleted_at r" by (simp add: f_def)
  note up = of_update[where f = f and d = d and u = u and P = "\<lambda>_. True", folded d1_def, OF fd]
  from c up(2)[of v] up(4)[OF r] r
  show "held_of d' v = (if v = u then release_reserved e (held_of d u) else held_of d v)"
    by (auto simp: f_def)
  from c up(3)[of v] up(5)[OF r] r show "spent_of d' v = spent_of d v + (if v = u then max c 0 else 0)"
    by (auto simp: f_def)
  from c up(1)[of v] show "active d' v = active d v" by auto
qed

lemma reconcile_failed:
  assumes "reconcile_reservation d h c = (d', False)"
  shows "\<exists>fs. d' = d\<lparr>faults := fs\<rparr>"
  using assms commit_cases[of d "fst (update_user d (h_user h) (\<lambda>_. True) (settle_row h (max c 0)))"]
  by (auto simp: reconcile_reservation_def Let_def split: if_splits)

lemma reconcile_active: "active (fst (reconcile_reservation d h c)) v = active d v"
  using commit_cases[of d "fst (update_user d (h_user h) (\<lambda>_. True) (settle_row h (max c 0)))"]
    of_update(1)[where f = "settle_row h (max c 0)" and d = d and u = "h_user h" and P = "\<lambda>_. True" and v = v]
  by (auto simp: reconcile_reservation_def Let_def)

text \<open>A refund is a settlement of cost 0.\<close>

lemma refund_is_reconcile: "refund_reservation d h = reconcile_reservation d h 0"
proof -
  have "refund_row h = settle_row h 0" if "is_reserved h"
    using that by (auto simp: refund_row_def settle_row_def fun_eq_iff)
  then show ?thesis by (simp add: refund_reservation_def reconcile_reservation_def Let_def)
qed

text \<open>A compare-and-swap reset leaves everything alone but the spending of one user.\<close>

lemma cas_reset_cases:
  obtains (fired) fs where "update_user d (user_id r) (reset_due now) (reset_row b now) =
        (fst (update_user d (user_id r) (reset_due now) (reset_row b now)), True)"
      "fst (cas_reset_user_budget d r bid b now) =
        (add_reset_log (reset_log_of bid b now r)
           (fst (update_user d (user_id r) (reset_due now) (reset_row b now))))\<lparr>faults := fs\<rparr>"
      "\<exists>r'. snd (cas_reset_user_budget d r bid b now) = Inr r'"
  | (failed) fs where "fst (cas_reset_user_budget d r bid b now) = d\<lparr>faults := fs\<rparr>"
      "snd (cas_reset_user_budget d r bid b now) = Inl Store_Error"
  | (lost) "cas_reset_user_budget d r bid b now = (d, Inr r)"
proof -
  obtain d1 m where u: "update_user d (user_id r) (reset_due now) (reset_row b now) = (d1, m)"
    by fastforce
  show ?thesis
  proof (cases m)
    case True
    with u commit_cases[of d "add_reset_log (reset_log_of bid b now r) d1"] show ?thesis
      by (auto simp: cas_reset_user_budget_def intro: fired failed)
  next
    case False
    with u show ?thesis by (intro lost) (simp add: cas_reset_user_budget_def)
  qed
qed

lemma cas_reset_readings:
  shows "held_of (fst (cas_reset_user_budget d r bid b now)) v = held_of d v"
    and "active (fst (cas_reset_user_budget d r bid b now)) v = active d v"
    and "spent_of (fst (cas_reset_user_budget d r bid b now)) v = spent_of d v \<or>
      v = user_id r \<and> spent_of (fst (cas_reset_user_budget d r bid b now)) v = 0"
proof -
  note up = of_update[where f = "reset_row b now" and d = d and u = "user_id r" and P = "reset_due now",
      OF row_ops_deleted(4)]
  show "held_of (fst (cas_reset_user_budget d r bid b now)) v = held_of d v"
  proof (cases rule: cas_reset_cases[of d r now b bid])
    case (fired fs)
    then show ?thesis
      using up(2)[of v] up(4) up(6) by (cases "get_active_user d (user_id r)"; cases "v = user_id r") auto
  qed auto
  show "active (fst (cas_reset_user_budget d r bid b now)) v = active d v"
    by (cases rule: cas_reset_cases[of d r now b bid]) (use up(1)[of v] in auto)
  show "spent_of (fst (cas_reset_user_budget d r bid b now)) v = spent_of d v \<or>
      v = user_id r \<and> spent_of (fst (cas_reset_user_budget d r bid b now)) v = 0"
  proof (cases rule: cas_reset_cases[of d r now b bid])
    case (fired fs)
    then show ?thesis
      using up(3)[of v] up(5) up(6) by (cases "get_active_user d (user_id r)"; cases "v = user_id r") auto
  qed auto
qed

lemma ledger_wipe_cas: "fst (ledger_wipe r bid b now d u) = fst (cas_reset_user_budget d (r\<lparr>user_id := u\<rparr>) bid b now)"
  by (auto simp: ledger_wipe_def split: prod.splits sum.splits)

text \<open>The reservation protocol keeps the laws of a ledger.\<close>

interpretation budget_ledger: reservation_ledger active held_of spent_of "ledger_take n"
  "ledger_settle n" "ledger_wipe r bid b now" for n r bid b now
proof unfold_locales
  fix s s' :: db and u v e c m cap
  assume "active s u" and "ledger_take n s u e cap = (s', True)"
  then obtain h where "active s u" "take_reservation s u e n cap = (s', Inr h)"
    by (auto simp: ledger_take_def split: prod.splits sum.splits)
  from take_reservation_held(2,3)[OF this]
  show "held_of s' v = held_of s v + (if v = u then e else 0) \<and> spent_of s' v = spent_of s v" by simp
next
  fix s s' :: db and u e m
  assume "active s u" and "ledger_take n s u e (Some m) = (s', True)"
  then obtain h where "active s u" "take_reservation s u e n (Some m) = (s', Inr h)"
    by (auto simp: ledger_take_def split: prod.splits sum.splits)
  from take_reservation_held(5)[OF this refl]
  show "spent_of s u + held_of s u < m \<and> spent_of s u + held_of s u + e \<le> m" .
next
  fix s s' :: db and u v e cap
  assume "ledger_take n s u e cap = (s', False)"
  then obtain err where "take_reservation s u e n cap = (s', Inl err)"
    by (auto simp: ledger_take_def split: prod.splits sum.splits)
  from take_reservation_failed(1,2)[OF this]
  show "held_of s' v = held_of s v \<and> spent_of s' v = spent_of s v" by simp
next
  fix s s' :: db and u v e c
  assume "active s u" "0 \<le> e" "e \<le> held_of s u" "ledger_settle n s u e c = (s', True)"
  then show "held_of s' v = held_of s v - (if v = u then e else 0) \<and>
      spent_of s' v = spent_of s v + (if v = u then max c 0 else 0)"
    using reconcile_held[of s u e n c s' v] by (simp add: ledger_settle_def)
next
  fix s s' :: db and u v e c
  assume "ledger_settle n s u e c = (s', False)"
  then show "held_of s' v = held_of s v \<and> spent_of s' v = spent_of s v"
    using reconcile_failed[of s "held_handle u e n" c s'] by (auto simp: ledger_settle_def)
next
  fix s :: db and u v e cap
  show "active (fst (ledger_take n s u e cap)) v = active s v"
  proof (cases "take_reservation s u e n cap")
    case (Pair s' x)
    then show ?thesis
    proof (cases x)
      case (Inr h)
      have "active s' v = active s v"
      proof (cases "get_active_user s u")
        case None
        with Pair Inr commit_cases[of s s] show ?thesis
          by (auto simp: take_reservation_def update_user_def split: option.splits prod.splits bool.splits)
      qed (use Pair Inr take_reservation_held(4)[of s u e n cap s' h v] in auto)
      with Pair Inr show ?thesis by (simp add: ledger_take_def)
    qed (use take_reservation_failed(4)[of s u e n cap s' _ v] in \<open>auto simp: ledger_take_def\<close>)
  qed
next
  fix s :: db and u v e c
  show "active (fst (ledger_settle n s u e c)) v = active s v"
    by (simp add: ledger_settle_def reconcile_active)
qed (use cas_reset_readings[where r = "r\<lparr>user_id := _\<rparr>"] in \<open>auto simp: ledger_wipe_cas\<close>)

text \<open>
  What the protocol never changes: the budget rows, and which users there are with which budget.
\<close>

definition identity_of :: "db \<Rightarrow> string \<Rightarrow> (string \<times> string option) option" where
  "identity_of d u = map_option (\<lambda>r. (user_id r, budget_id r)) (get_active_user d u)"

definition same_frame :: "db \<Rightarrow> db \<Rightarrow> bool" where
  "same_frame d d' \<longleftrightarrow> budgets d' = budgets d \<and> identity_of d' = identity_of d"

definition cap_of :: "db \<Rightarrow> string \<Rightarrow> money option" where
  "cap_of d u = (case get_active_user d u of None \<Rightarrow> None
     | Some r \<Rightarrow> (case budget_of d r of None \<Rightarrow> None | Some (bid, b) \<Rightarrow> max_budget b))"

definition keyed :: "db \<Rightarrow> bool" where
  "keyed d \<longleftrightarrow> (\<forall>u r. get_active_user d u = Some r \<longrightarrow> user_id r = u)"

lemma same_frame_refl [simp]: "same_frame d d"
  by (simp add: same_frame_def)

lemma same_frame_trans: "same_frame d d' \<Longrightarrow> same_frame d' d'' \<Longrightarrow> same_frame d d''"
  by (simp add: same_frame_def)

lemma same_frame_faults [simp]:
  "same_frame d (d'\<lparr>faults := fs\<rparr>) = same_frame d d'"
  "same_frame d (add_reset_log l d') = same_frame d d'"
  by (simp_all add: same_frame_def identity_of_def fun_eq_iff add_reset_log_def get_active_user_def)

lemma same_frame_update:
  assumes "\<And>r. deleted_at (f r) = deleted_at r \<and> user_id (f r) = user_id r \<and> budget_id (f r) = budget_id r"
  shows "same_frame d (fst (update_user d u P f))"
proof -
  have "map_option (\<lambda>r. (user_id r, budget_id r)) (map_option (\<lambda>r. if P r then f r else r) x) =
      map_option (\<lambda>r. (user_id r, budget_id r)) x" for x
    using assms by (cases x) auto
  then show ?thesis
    using update_user_active[of f d u P] assms by (simp add: same_frame_def identity_of_def fun_eq_iff)
qed

lemma same_frame_active:
  assumes "same_frame d d'" shows "active d' u = active d u"
proof -
  have "active e u \<longleftrightarrow> identity_of e u \<noteq> None" for e by (simp add: active_def identity_of_def)
  with assms show ?thesis by (simp add: same_frame_def)
qed

lemma same_frame_keyed:
  assumes "same_frame d d'" "keyed d" shows "keyed d'"
  unfolding keyed_def
proof (intro allI impI)
  fix u r'
  assume "get_active_user d' u = Some r'"
  then have "identity_of d' u = Some (user_id r', budget_id r')" by (simp add: identity_of_def)
  with assms(1) have "identity_of d u = Some (user_id r', budget_id r')" by (simp add: same_frame_def)
  then show "user_id r' = u" using assms(2) by (auto simp: identity_of_def keyed_def)
qed

lemma same_frame_cap:
  assumes "same_frame d d'" shows "cap_of d' u = cap_of d u"
proof -
  have b: "budgets d' = budgets d" and i: "identity_of d' u = identity_of d u"
    using assms by (auto simp: same_frame_def)
  show ?thesis
    using b i by (cases "get_active_user d u"; cases "get_active_user d' u")
      (auto simp: cap_of_def identity_of_def budget_of_def split: option.splits)
qed

lemma row_ops_identity [simp]:
  "user_id (add_reserved e r) = user_id r" "user_id (settle_row h c r) = user_id r"
  "user_id (refund_row h r) = user_id r" "user_id (reset_row b now r) = user_id r"
  "budget_id (add_reserved e r) = budget_id r" "budget_id (settle_row h c r) = budget_id r"
  "budget_id (refund_row h r) = budget_id r" "budget_id (reset_row b now r) = budget_id r"
  by (simp_all add: add_reserved_def settle_row_def refund_row_def reset_row_def)

lemma take_reservation_frame: "same_frame d (fst (take_reservation d u e n cap))"
proof -
  have "same_frame d (fst (commit d (fst (update_user d u P (add_reserved e)))))" for P
    using commit_cases[of d "fst (update_user d u P (add_reserved e))"] same_frame_update[of "add_reserved e" d u P]
    by auto
  then show ?thesis
    by (cases cap) (simp_all add: take_reservation_def split: prod.splits bool.splits, (metis fst_conv)+)
qed

lemma reconcile_frame: "same_frame d (fst (reconcile_reservation d h c))"
proof -
  have "same_frame d (fst (commit d (fst (update_user d u P (settle_row h x)))))" for u P x
    using commit_cases[of d "fst (update_user d u P (settle_row h x))"] same_frame_update[of "settle_row h x" d u P]
    by auto
  then show ?thesis by (simp add: reconcile_reservation_def Let_def)
qed

lemma cas_reset_frame: "same_frame d (fst (cas_reset_user_budget d r bid b now))"
  using same_frame_update[of "reset_row b now" d "user_id r" "reset_due now"]
  by (cases rule: cas_reset_cases[of d r now b bid]) auto

lemma settle_unreserved:
  assumes "\<not> is_reserved h" "0 \<le> held_of d (h_user h)" "active d (h_user h)"
  shows "reconcile_reservation d h c = (d, True) \<and> max c 0 = 0 \<or>
    reconcile_reservation d h c = ledger_settle (strategy h) d (h_user h) 0 c"
proof (cases "max c 0 = 0")
  case True
  with assms(1) show ?thesis by (simp add: reconcile_reservation_def)
next
  case False
  obtain r where r: "get_active_user d (h_user h) = Some r" using assms(3) by (auto simp: active_Some)
  then have "0 \<le> reserved r" using assms(2) by simp
  then have "settle_row h (max c 0) r = settle_row (held_handle (h_user h) 0 (strategy h)) (max c 0) r"
    using assms(1) False by (simp add: settle_row_def)
  then have "update_user d (h_user h) (\<lambda>_. True) (settle_row h (max c 0)) =
      update_user d (h_user h) (\<lambda>_. True) (settle_row (held_handle (h_user h) 0 (strategy h)) (max c 0))"
    by (simp add: update_user_def r)
  with False show ?thesis by (simp add: reconcile_reservation_def ledger_settle_def Let_def)
qed

lemma reserve_budget_user:
  assumes "reserve_budget E d u est model strat now = (d', Inr h)"
  shows "h_user h = u"
  using assms unfolding reserve_budget_def reserve_after_reset_def take_reservation_def
  by (auto simp: Let_def split: option.splits if_splits prod.splits sum.splits bool.splits)

lemma reserve_budget_frame: "same_frame d (fst (reserve_budget E d u est model strat now))"
proof -
  have x: "same_frame d (fst (reserve_after_reset E u e model n now b dr))" if "same_frame d (fst dr)" for e n b dr
    using that take_reservation_frame[of "fst dr" u e n "max_budget b"] same_frame_trans
    by (cases dr) (auto simp: reserve_after_reset_def split: sum.splits)
  show ?thesis
    by (auto simp: reserve_budget_def Let_def cas_reset_frame x split: option.splits)
qed

section \<open>A small store for the witnesses\<close>

text \<open>A small store for the witnesses: user \<open>u\<close> with a cap of 10 and nothing spent.\<close>

definition user0 :: user_row where
  "user0 = \<lparr>user_id = ''u'', spend = 0, reserved = 0, budget_id = Some ''b'', budget_started_at = None,
     next_budget_reset_at = None, blocked = False, deleted_at = None\<rparr>"

definition budget0 :: budget_row where
  "budget0 = \<lparr>max_budget = Some 10, budget_duration_sec = None\<rparr>"

definition store0 :: db where
  "store0 = \<lparr>users = [''u'' \<mapsto> user0], budgets = [''b'' \<mapsto> budget0], pricing = [], usage_logs = [],
     reset_logs = [], api_keys = [], faults = []\<rparr>"

definition env0 :: gateway_env where
  "env0 = \<lparr>split_model = (\<lambda>m. Some (None, m)), calc_price = (\<lambda>_ _ _. Price_Not_Found), default_pricing = False\<rparr>"

lemma store0_row [simp]: "get_active_user store0 ''u'' = Some user0"
  by (simp add: get_active_user_def store0_def user0_def)

lemma store0_faults [simp]: "faults store0 = []" "budgets store0 ''b'' = Some budget0"
  by (simp_all add: store0_def)

lemma store0_cap [simp]: "cap_of store0 ''u'' = Some 10"
  by (simp add: cap_of_def budget_of_def given_def user0_def budget0_def)

lemma store0_other: "v \<noteq> ''u'' \<Longrightarrow> get_active_user store0 v = None"
  by (simp add: get_active_user_def store0_def)

lemma reserve_store0:
  assumes "0 \<le> e" "e \<le> 10"
  shows "reserve_budget env0 store0 ''u'' e None None 0 =
    (store0\<lparr>users := [''u'' \<mapsto> user0\<lparr>reserved := e\<rparr>]\<rparr>, Inr (held_handle ''u'' e ''for_update''))"
proof -
  have n: "normalize_strategy None = ''for_update''"
    by (simp add: normalize_strategy_def py_lower_def py_strip_def py_rstrip_def py_lstrip_def
        is_space_def lower_char_def)
  have b: "budget_of store0 user0 = Some (''b'', budget0)"
    by (simp add: budget_of_def given_def user0_def)
  have f: "model_is_free env0 store0 None 0 = False" by (simp add: model_is_free_def given_def)
  have t: "take_reservation store0 ''u'' e ''for_update'' (Some 10) =
      (store0\<lparr>users := [''u'' \<mapsto> user0\<lparr>reserved := e\<rparr>]\<rparr>, Inr (held_handle ''u'' e ''for_update''))"
    using assms
    by (simp add: take_reservation_def update_user_def fits_def add_reserved_def)
      (simp add: user0_def store0_def)
  have "blocked user0 = False" "reset_due 0 user0 = False" "max_budget budget0 = Some 10"
    by (simp_all add: user0_def reset_due_def budget0_def)
  with n b f t assms(1) show ?thesis
    by (simp add: reserve_budget_def reserve_after_reset_def max_absorb1)
qed

end
