(* ===== verification/Budget_Concurrency.thy ===== *)
theory Budget_Concurrency
  imports Budget
begin

text \<open>
  Concurrent requests on one store. \<open>reserve_budget\<close> holds no row lock: between its read of the
  user row, its compare-and-swap reset and its conditional update other requests can commit. Here
  every transaction of \<open>services/budget_service.py\<close> is one step of a relation on worlds, a world
  being the store and the phase each request has reached; a request that has read its user row
  keeps that snapshot, however old it becomes.

  \<^item> \<open>read\<close>: the guards of \<open>reserve_budget\<close> up to the read of the budget row;
  \<^item> \<open>reset\<close>: \<open>_cas_reset_user_budget\<close> on the snapshot, when the snapshot says a reset is due;
  \<^item> \<open>skip\<close>: the model is free, so nothing is held;
  \<^item> \<open>take\<close>: the conditional update, with the cap of the snapshot's budget;
  \<^item> \<open>grow\<close>: \<open>increase_reservation\<close> folds a second hold of the same user into the first;
  \<^item> \<open>finish\<close> / \<open>abort\<close>: \<open>reconcile_reservation\<close> with a cost, \<open>refund_reservation\<close>. When the commit of
    either fails the hold stays in the store and the request is over: it is \<open>Leaked\<close>.
\<close>

datatype phase =
    Checked (ph_user: string) (ph_amount: money) (ph_row: user_row) (ph_bid: string)
      (ph_budget: budget_row) (ph_strategy: string)
  | Ready (ph_user: string) (ph_amount: money) (ph_budget: budget_row) (ph_strategy: string)
  | Holding reservation_handle
  | Leaked reservation_handle
  | Over

record world =
  store :: db
  phases :: "phase list"

text \<open>The guards \<open>reserve_budget\<close> runs before its first write.\<close>

definition read_step :: "db \<Rightarrow> string \<Rightarrow> money \<Rightarrow> string option \<Rightarrow> phase" where
  "read_step d u est strat =
     (let n = normalize_strategy strat in
      case get_active_user d u of
        None \<Rightarrow> Over
      | Some r \<Rightarrow>
          if blocked r then Over
          else if n = ''disabled'' then Holding (no_reservation u n)
          else (case budget_of d r of
             None \<Rightarrow> Holding (no_reservation u n)
           | Some (bid, b) \<Rightarrow> Checked u (max est 0) r bid b n))"

definition reset_step :: "db \<Rightarrow> instant \<Rightarrow> phase \<Rightarrow> db \<times> phase" where
  "reset_step d now p = (case p of
       Checked u e r bid b n \<Rightarrow>
         (case (if reset_due now r then cas_reset_user_budget d r bid b now else (d, Inr r)) of
            (d', Inr r') \<Rightarrow> (d', Ready u e b n)
          | (d', Inl err) \<Rightarrow> (d', Over))
     | _ \<Rightarrow> (d, p))"

definition take_step :: "db \<Rightarrow> phase \<Rightarrow> db \<times> phase" where
  "take_step d p = (case p of
       Ready u e b n \<Rightarrow>
         (case take_reservation d u e n (max_budget b) of
            (d', Inr h) \<Rightarrow> (d', Holding h)
          | (d', Inl err) \<Rightarrow> (d', Over))
     | _ \<Rightarrow> (d, p))"

definition skip_step :: "phase \<Rightarrow> phase" where
  "skip_step p = (case p of Ready u e b n \<Rightarrow> Holding (no_reservation u n) | _ \<Rightarrow> p)"

definition fold_handle :: "reservation_handle \<Rightarrow> reservation_handle \<Rightarrow> reservation_handle" where
  "fold_handle h delta = (if is_reserved delta
     then h\<lparr>estimate := estimate h + estimate delta, is_reserved := True\<rparr> else h)"

definition settle_step :: "db \<Rightarrow> reservation_handle \<Rightarrow> money \<Rightarrow> db \<times> phase" where
  "settle_step d h cost = (case reconcile_reservation d h cost of
       (d', True) \<Rightarrow> (d', Over) | (d', False) \<Rightarrow> (d', Leaked h))"

definition refund_step :: "db \<Rightarrow> reservation_handle \<Rightarrow> db \<times> phase" where
  "refund_step d h = (case refund_reservation d h of
       (d', True) \<Rightarrow> (d', Over) | (d', False) \<Rightarrow> (d', Leaked h))"

definition set_phase :: "nat \<Rightarrow> db \<times> phase \<Rightarrow> world \<Rightarrow> world" where
  "set_phase i dp w = \<lparr>store = fst dp, phases = (phases w)[i := snd dp]\<rparr>"

text \<open>
  The steps are indexed by \<open>C\<close>, a bound on what a finishing request may cost given its handle:
  \<open>\<lambda>_ _. True\<close> puts no restriction at all.
\<close>

inductive step :: "(reservation_handle \<Rightarrow> money \<Rightarrow> bool) \<Rightarrow> world \<Rightarrow> world \<Rightarrow> bool"
  for C :: "reservation_handle \<Rightarrow> money \<Rightarrow> bool" where
  read: "step C w (w\<lparr>phases := phases w @ [read_step (store w) u est strat]\<rparr>)"
| reset: "\<lbrakk>i < length (phases w); phases w ! i = Checked u e r bid b n\<rbrakk>
    \<Longrightarrow> step C w (set_phase i (reset_step (store w) now (phases w ! i)) w)"
| skip: "\<lbrakk>i < length (phases w); phases w ! i = Ready u e b n\<rbrakk>
    \<Longrightarrow> step C w (set_phase i (store w, skip_step (phases w ! i)) w)"
| take: "\<lbrakk>i < length (phases w); phases w ! i = Ready u e b n\<rbrakk>
    \<Longrightarrow> step C w (set_phase i (take_step (store w) (phases w ! i)) w)"
| grow: "\<lbrakk>i < length (phases w); j < length (phases w); i \<noteq> j; phases w ! i = Holding h;
      phases w ! j = Holding delta; h_user h = h_user delta\<rbrakk>
    \<Longrightarrow> step C w (set_phase i (store w, Holding (fold_handle h delta)) (set_phase j (store w, Over) w))"
| finish: "\<lbrakk>i < length (phases w); phases w ! i = Holding h; C h cost\<rbrakk>
    \<Longrightarrow> step C w (set_phase i (settle_step (store w) h cost) w)"
| abort: "\<lbrakk>i < length (phases w); phases w ! i = Holding h\<rbrakk>
    \<Longrightarrow> step C w (set_phase i (refund_step (store w) h) w)"

abbreviation runs :: "(reservation_handle \<Rightarrow> money \<Rightarrow> bool) \<Rightarrow> world \<Rightarrow> world \<Rightarrow> bool" where
  "runs C \<equiv> (step C)\<^sup>*\<^sup>*"

text \<open>What a phase holds, and the open entries of a world.\<close>

definition holds :: "phase \<Rightarrow> entry list" where
  "holds p = (case p of
       Holding h \<Rightarrow> (if is_reserved h then [(h_user h, estimate h)] else [])
     | Leaked h \<Rightarrow> (if is_reserved h then [(h_user h, estimate h)] else [])
     | _ \<Rightarrow> [])"

definition open_entries :: "world \<Rightarrow> entry list" where
  "open_entries w = concat (map holds (phases w))"

text \<open>The money a user's requests hold, in flight or leaked.\<close>

definition outstanding :: "world \<Rightarrow> string \<Rightarrow> money" where
  "outstanding w u = entries_of u (open_entries w)"

text \<open>The store before the first request: keys match rows, nothing is held, no debts.\<close>

definition fresh_store :: "db \<Rightarrow> bool" where
  "fresh_store d \<longleftrightarrow> (\<forall>u r. users d u = Some r \<longrightarrow> user_id r = u \<and> reserved r = 0 \<and> 0 \<le> spend r)"

section \<open>The invariant\<close>

definition phase_ok :: "(string \<Rightarrow> money option) \<Rightarrow> db \<Rightarrow> phase \<Rightarrow> bool" where
  "phase_ok cap d p = (case p of
       Checked u e r bid b n \<Rightarrow> 0 \<le> e \<and> active d u \<and> user_id r = u \<and> (cap u = None \<or> max_budget b = cap u)
     | Ready u e b n \<Rightarrow> 0 \<le> e \<and> active d u \<and> (cap u = None \<or> max_budget b = cap u)
     | Holding h \<Rightarrow> active d (h_user h) \<and> (is_reserved h \<or> estimate h = 0)
     | _ \<Rightarrow> True)"

definition sound_world :: "(string \<Rightarrow> money option) \<Rightarrow> world \<Rightarrow> bool" where
  "sound_world cap w \<longleftrightarrow> keyed (store w) \<and> (\<forall>u. cap u = None \<or> cap_of (store w) u = cap u)
     \<and> (\<forall>p \<in> set (phases w). phase_ok cap (store w) p)
     \<and> budget_ledger.sound cap (store w) (open_entries w)"

lemma open_entries_update:
  "i < length ps \<Longrightarrow> mset (concat (map holds (ps[i := p]))) + mset (holds (ps ! i)) =
     mset (concat (map holds ps)) + mset (holds p)"
proof (induction ps arbitrary: i)
  case (Cons q ps)
  then show ?case by (cases i) (auto simp: ac_simps)
qed simp

lemma open_entries_set_phase:
  "i < length (phases w) \<Longrightarrow> mset (open_entries (set_phase i (d, p) w)) + mset (holds (phases w ! i)) =
     mset (open_entries w) + mset (holds p)"
  unfolding open_entries_def set_phase_def by (simp add: open_entries_update)

lemma phase_ok_frame: "same_frame d d' \<Longrightarrow> phase_ok cap d' p = phase_ok cap d p"
  by (simp add: phase_ok_def same_frame_active split: phase.splits)

text \<open>
  One step of one request keeps the invariant when it keeps the frame, its new phase is in order
  and the store and the open entries stay a sound ledger.
\<close>

lemma sound_world_set_phase:
  assumes "sound_world cap w" "i < length (phases w)" "same_frame (store w) d" "phase_ok cap d p"
    and "budget_ledger.sound cap d es"
    and "mset es + mset (holds (phases w ! i)) = mset (open_entries w) + mset (holds p)"
  shows "sound_world cap (set_phase i (d, p) w)"
proof -
  have "mset (open_entries (set_phase i (d, p) w)) = mset es"
    using open_entries_set_phase[OF assms(2), of d p] assms(6) by (metis add_right_cancel)
  with assms(5) have "budget_ledger.sound cap d (open_entries (set_phase i (d, p) w))"
    using budget_ledger.sound_mset by metis
  moreover have "phase_ok cap d q" if "q \<in> set ((phases w)[i := p])" for q
    using that assms(1,4) set_update_subset_insert[of "phases w" i p] phase_ok_frame[OF assms(3)]
    by (auto simp: sound_world_def)
  ultimately show ?thesis
    using assms(1) same_frame_keyed[OF assms(3)] same_frame_cap[OF assms(3)]
    by (auto simp: sound_world_def set_phase_def)
qed

lemma holds_simps [simp]:
  "holds (Checked u e r bid b n) = []" "holds (Ready u e b n) = []" "holds Over = []"
  "holds (Holding h) = (if is_reserved h then [(h_user h, estimate h)] else [])"
  "holds (Leaked h) = (if is_reserved h then [(h_user h, estimate h)] else [])"
  by (simp_all add: holds_def)

lemma phase_ok_simps [simp]:
  "phase_ok cap d (Checked u e r bid b n) \<longleftrightarrow>
     0 \<le> e \<and> active d u \<and> user_id r = u \<and> (cap u = None \<or> max_budget b = cap u)"
  "phase_ok cap d (Ready u e b n) \<longleftrightarrow> 0 \<le> e \<and> active d u \<and> (cap u = None \<or> max_budget b = cap u)"
  "phase_ok cap d (Holding h) \<longleftrightarrow> active d (h_user h) \<and> (is_reserved h \<or> estimate h = 0)"
  "phase_ok cap d (Leaked h)" "phase_ok cap d Over"
  by (simp_all add: phase_ok_def)

lemma read_step_ok:
  assumes "keyed d" "\<And>u. cap u = None \<or> cap_of d u = cap u"
  shows "phase_ok cap d (read_step d u est strat)" and "holds (read_step d u est strat) = []"
  using assms(1) assms(2)[of u]
  by (auto simp: read_step_def Let_def keyed_def cap_of_def no_reservation_def split: option.splits)

lemma world_read:
  assumes "sound_world cap w"
  shows "sound_world cap (w\<lparr>phases := phases w @ [read_step (store w) u est strat]\<rparr>)"
proof -
  have "keyed (store w)" "\<And>u. cap u = None \<or> cap_of (store w) u = cap u"
    using assms by (auto simp: sound_world_def)
  from read_step_ok[OF this] assms show ?thesis
    by (auto simp: sound_world_def open_entries_def)
qed

lemma world_reset:
  assumes "sound_world cap w" "i < length (phases w)" "phases w ! i = Checked u e r bid b n"
  shows "sound_world cap (set_phase i (reset_step (store w) now (phases w ! i)) w)"
proof -
  have ok: "phase_ok cap (store w) (Checked u e r bid b n)"
    using assms nth_mem[OF assms(2)] by (auto simp: sound_world_def)
  have snd: "budget_ledger.sound cap (store w) (open_entries w)"
    using assms(1) by (simp add: sound_world_def)
  let ?c = "cas_reset_user_budget (store w) r bid b now"
  have r: "r\<lparr>user_id := u\<rparr> = r" using ok by auto
  have s: "budget_ledger.sound cap (fst ?c) (open_entries w)"
    using budget_ledger.sound_wipe[OF snd, of r bid b now u] by (simp add: ledger_wipe_cas r)
  have f: "same_frame (store w) (fst ?c)" by (rule cas_reset_frame)
  let ?d = "if reset_due now r then fst ?c else store w"
  define p where "p = snd (reset_step (store w) now (phases w ! i))"
  have p: "reset_step (store w) now (phases w ! i) = (?d, p)" and q: "p = Ready u e b n \<or> p = Over"
    by (auto simp: reset_step_def assms(3) p_def split: prod.splits sum.splits)
  have "sound_world cap (set_phase i (?d, p) w)"
    by (rule sound_world_set_phase[OF assms(1,2), where es = "open_entries w"])
      (use ok q s snd f same_frame_active[OF f, of u] in \<open>auto simp: assms(3)\<close>)
  then show ?thesis by (simp add: p)
qed

lemma world_skip:
  assumes "sound_world cap w" "i < length (phases w)" "phases w ! i = Ready u e b n"
  shows "sound_world cap (set_phase i (store w, skip_step (phases w ! i)) w)"
proof -
  have "phase_ok cap (store w) (Ready u e b n)"
    using assms nth_mem[OF assms(2)] by (auto simp: sound_world_def)
  then show ?thesis
    using assms(1)
    by (intro sound_world_set_phase[OF assms(1,2), where es = "open_entries w"])
      (auto simp: assms(3) skip_step_def sound_world_def)
qed

lemma world_take:
  assumes "sound_world cap w" "i < length (phases w)" "phases w ! i = Ready u e b n"
  shows "sound_world cap (set_phase i (take_step (store w) (phases w ! i)) w)"
proof -
  have ok: "phase_ok cap (store w) (Ready u e b n)"
    using assms nth_mem[OF assms(2)] by (auto simp: sound_world_def)
  have snd: "budget_ledger.sound cap (store w) (open_entries w)"
    using assms(1) by (simp add: sound_world_def)
  obtain d x where t: "take_reservation (store w) u e n (max_budget b) = (d, x)" by fastforce
  have f: "same_frame (store w) d"
    using take_reservation_frame[of "store w" u e n "max_budget b"] by (simp add: t)
  have tk: "ledger_take n (store w) u e (max_budget b) = (d, case x of Inl _ \<Rightarrow> False | Inr _ \<Rightarrow> True)"
    by (simp add: ledger_take_def t split: sum.splits)
  have s: "budget_ledger.sound cap d (if case x of Inl _ \<Rightarrow> False | Inr _ \<Rightarrow> True
      then (u, e) # open_entries w else open_entries w)"
    by (rule budget_ledger.sound_take[OF snd _ _ tk]) (use ok in auto)
  show ?thesis
  proof (cases x)
    case (Inl err)
    then show ?thesis
      using sound_world_set_phase[OF assms(1,2) f, of Over "open_entries w"] s
      by (simp add: assms(3) take_step_def t)
  next
    case (Inr h)
    with take_reservation_held(1)[of "store w" u e n "max_budget b" d h] ok t
    have h: "h = held_handle u e n" by simp
    have "phase_ok cap d (Holding h)" using ok same_frame_active[OF f, of u] by (simp add: h)
    from sound_world_set_phase[OF assms(1,2) f this, of "(u, e) # open_entries w"] s Inr
    show ?thesis by (simp add: assms(3) take_step_def t h)
  qed
qed

text \<open>Settling a hold, at any cost for an uncapped user and within the estimate for a capped one.\<close>

lemma world_finish:
  assumes "sound_world cap w" "i < length (phases w)" "phases w ! i = Holding h"
    and "cap (h_user h) = None \<or> c \<le> estimate h"
  shows "sound_world cap (set_phase i (settle_step (store w) h c) w)"
proof -
  let ?d = "store w"
  have ok: "active ?d (h_user h)" "is_reserved h \<or> estimate h = 0"
    using assms(1-3) nth_mem[OF assms(2)] by (auto simp: sound_world_def)
  have snd: "budget_ledger.sound cap ?d (open_entries w)" using assms(1) by (simp add: sound_world_def)
  have mem: "(h_user h, estimate h) \<in> set (open_entries w)" if "is_reserved h"
    using that nth_mem[OF assms(2)] assms(3) by (force simp: open_entries_def)
  obtain d b where st: "reconcile_reservation ?d h c = (d, b)" by fastforce
  have f: "same_frame ?d d" using reconcile_frame[of ?d h c] by (simp add: st)
  let ?es = "if is_reserved h \<and> b then remove1 (h_user h, estimate h) (open_entries w) else open_entries w"
  have s: "budget_ledger.sound cap d ?es"
  proof (cases "is_reserved h")
    case True
    then have "ledger_settle (strategy h) ?d (h_user h) (estimate h) c = (d, b)"
      using st by (cases h) (simp add: ledger_settle_def held_handle_def)
    from budget_ledger.sound_settle[OF snd mem[OF True] this assms(4)] True show ?thesis by simp
  next
    case False
    have "0 \<le> held_of ?d (h_user h)"
      using snd balanced_nonneg by (auto simp: budget_ledger.sound_def)
    from settle_unreserved[OF False this ok(1), of c] consider "d = ?d"
      | "ledger_settle (strategy h) ?d (h_user h) 0 c = (d, b)" using st by auto
    then show ?thesis
    proof cases
      case 2
      from budget_ledger.sound_charge[OF snd ok(1) this] assms(4) ok(2) False show ?thesis by simp
    qed (use snd False in simp)
  qed
  have m: "mset ?es + mset (holds (Holding h)) =
      mset (open_entries w) + mset (holds (if b then Over else Leaked h))"
    using mem by (auto simp: open_entries_def)
  have "settle_step ?d h c = (d, if b then Over else Leaked h)" by (cases b) (simp_all add: settle_step_def st)
  with sound_world_set_phase[OF assms(1,2) f _ s, of "if b then Over else Leaked h"] m assms(3)
  show ?thesis by simp
qed

lemma refund_step_settle: "refund_step d h = settle_step d h 0"
  by (simp add: refund_step_def settle_step_def refund_is_reconcile)

lemma entries_update:
  assumes "i < length ps"
  shows "entries_of u (concat (map holds (ps[i := p]))) =
    entries_of u (concat (map holds ps)) - entries_of u (holds (ps ! i)) + entries_of u (holds p)"
  using arg_cong[OF open_entries_update[OF assms, of p], of "\<lambda>M. \<Sum>q \<in># M. if fst q = u then snd q else 0"]
  by (simp add: entries_of_mset)

lemma entries_fold:
  assumes "h_user h = h_user delta" "is_reserved h \<or> estimate h = 0"
  shows "entries_of u (holds (Holding (fold_handle h delta))) =
    entries_of u (holds (Holding h)) + entries_of u (holds (Holding delta))"
  using assms by (auto simp: fold_handle_def)

lemma holding_mem:
  "i < length (phases w) \<Longrightarrow> phases w ! i = Holding h \<Longrightarrow> is_reserved h \<Longrightarrow>
    (h_user h, estimate h) \<in> set (open_entries w)"
  using nth_mem by (force simp: open_entries_def)

lemma world_grow:
  assumes "sound_world cap w" "i < length (phases w)" "j < length (phases w)" "i \<noteq> j"
    and "phases w ! i = Holding h" "phases w ! j = Holding delta" "h_user h = h_user delta"
  shows "sound_world cap (set_phase i (store w, Holding (fold_handle h delta)) (set_phase j (store w, Over) w))"
proof -
  let ?f = "Holding (fold_handle h delta)"
  let ?ps = "((phases w)[j := Over])[i := ?f]"
  have okh: "phase_ok cap (store w) (Holding h)" and okd: "phase_ok cap (store w) (Holding delta)"
    using assms nth_mem[OF assms(2)] nth_mem[OF assms(3)] by (auto simp: sound_world_def)
  have snd: "budget_ledger.sound cap (store w) (open_entries w)" using assms(1) by (simp add: sound_world_def)
  then have all: "0 \<le> snd q \<and> active (store w) (fst q)" if "q \<in> set (open_entries w)" for q
    using that by (auto simp: budget_ledger.sound_def balanced_def)
  have sub: "set ?ps \<subseteq> insert ?f (insert Over (set (phases w)))"
    using set_update_subset_insert[of "(phases w)[j := Over]" i] set_update_subset_insert[of "phases w" j]
    by blast
  have tot: "entries_of u (concat (map holds ?ps)) = entries_of u (open_entries w)" for u
    using entries_update[of i "(phases w)[j := Over]" u ?f] entries_update[OF assms(3), of u Over]
      entries_fold[OF assms(7), of u] okh assms by (simp add: open_entries_def)
  have new: "0 \<le> snd p \<and> active (store w) (fst p)" if p: "p \<in> set (holds ?f)" for p
    using that okh okd all[OF holding_mem[OF assms(2,5)]] all[OF holding_mem[OF assms(3,6)]]
    by (auto simp: fold_handle_def split: if_splits)
  have "0 \<le> snd p \<and> active (store w) (fst p)" if "p \<in> set (concat (map holds ?ps))" for p
    using that sub new[of p] all[of p] by (fastforce simp: open_entries_def)
  from budget_ledger.sound_regroup[OF snd tot this]
  have "budget_ledger.sound cap (store w) (concat (map holds ?ps))" .
  moreover have "phase_ok cap (store w) ?f" using okh by (auto simp: fold_handle_def)
  then have "phase_ok cap (store w) q" if "q \<in> set ?ps" for q
    using that sub assms(1) by (auto simp: sound_world_def)
  ultimately show ?thesis
    using assms(1) by (auto simp: sound_world_def set_phase_def open_entries_def)
qed

lemma world_step:
  assumes "step C w w'" "sound_world cap w" "\<And>h c. C h c \<Longrightarrow> cap (h_user h) = None \<or> c \<le> estimate h"
  shows "sound_world cap w'"
  using assms(1)
proof cases
  case (abort i h)
  have "sound_world cap (set_phase i (settle_step (store w) h (min 0 (estimate h))) w)"
    by (rule world_finish[OF assms(2) abort(2,3)]) simp
  moreover have "settle_step (store w) h (min 0 (estimate h)) = settle_step (store w) h 0"
    by (simp add: settle_step_def reconcile_reservation_def Let_def)
  ultimately show ?thesis by (simp add: abort refund_step_settle)
qed (use assms world_read world_reset world_skip world_take world_finish world_grow in metis)+

lemma world_runs:
  assumes "runs C w w'" "sound_world cap w" "\<And>h c. C h c \<Longrightarrow> cap (h_user h) = None \<or> c \<le> estimate h"
  shows "sound_world cap w'"
  using assms(1,2) by (induction rule: rtranclp_induct) (use world_step assms(3) in blast)+

section \<open>The sequential operations are runs\<close>

definition outcome :: "(budget_error, reservation_handle) result \<Rightarrow> phase" where
  "outcome x = (case x of Inr h \<Rightarrow> Holding h | Inl err \<Rightarrow> Over)"

lemma set_phase_snoc [simp]:
  "set_phase (length ps) (d', p') \<lparr>store = d, phases = ps @ [p]\<rparr> = \<lparr>store = d', phases = ps @ [p']\<rparr>"
  by (simp add: set_phase_def)

lemma reserve_run:
  "runs C \<lparr>store = d, phases = ps\<rparr>
     \<lparr>store = fst (reserve_budget E d u est model strat now),
      phases = ps @ [outcome (snd (reserve_budget E d u est model strat now))]\<rparr>"
proof -
  let ?w = "\<lambda>d p. \<lparr>store = d, phases = ps @ [p]\<rparr>"
  let ?p = "read_step d u est strat"
  have rd: "runs C \<lparr>store = d, phases = ps\<rparr> (?w d ?p)"
    using step.read[of C "\<lparr>store = d, phases = ps\<rparr>" u est strat] by auto
  show ?thesis
  proof (cases "\<exists>e r bid b n. ?p = Checked u e r bid b n")
    case False
    then have "reserve_budget E d u est model strat now = (d, snd (reserve_budget E d u est model strat now))
        \<and> outcome (snd (reserve_budget E d u est model strat now)) = ?p"
      by (auto simp: read_step_def reserve_budget_def outcome_def Let_def split: option.splits if_splits)
    with rd show ?thesis by (metis fst_conv)
  next
    case True
    then obtain e r bid b n where p: "?p = Checked u e r bid b n" by blast
    define x where "x = (if reset_due now r then cas_reset_user_budget d r bid b now else (d, Inr r))"
    have R: "reserve_budget E d u est model strat now = reserve_after_reset E u e model n now b x"
      using p by (auto simp: read_step_def reserve_budget_def x_def Let_def split: option.splits if_splits)
    have rs: "reset_step d now ?p = (fst x, case snd x of Inl err \<Rightarrow> Over | Inr r' \<Rightarrow> Ready u e b n)"
      unfolding reset_step_def p phase.case x_def[symmetric] by (cases x) (simp split: sum.splits)
    have s1: "step C (?w d ?p) (?w (fst x) (snd (reset_step d now ?p)))"
      using step.reset[of "length ps" "?w d ?p" u e r bid b n C now] p by (simp add: rs[unfolded p])
    show ?thesis
    proof (cases "snd x")
      case (Inl err)
      then have "snd (reset_step d now ?p) = Over" "reserve_after_reset E u e model n now b x = (fst x, Inl err)"
        by (cases x; simp add: rs[unfolded p] p reserve_after_reset_def)+
      with rd s1 R show ?thesis by (simp add: outcome_def)
    next
      case (Inr r')
      have p1: "snd (reset_step d now ?p) = Ready u e b n"
        using Inr by (simp add: rs[unfolded p] p)
      let ?d = "fst x" and ?q = "Ready u e b n"
      have R': "reserve_budget E d u est model strat now =
          (if model_is_free E ?d model now then (?d, Inr (no_reservation u n))
           else take_reservation ?d u e n (max_budget b))"
        using R Inr by (cases x) (simp add: reserve_after_reset_def)
      have "step C (?w ?d ?q) (?w ?d (Holding (no_reservation u n)))"
        using step.skip[of "length ps" "?w ?d ?q" u e b n C] by (simp add: skip_step_def)
      moreover have "step C (?w ?d ?q) (?w (fst (take_reservation ?d u e n (max_budget b)))
          (outcome (snd (take_reservation ?d u e n (max_budget b)))))"
        using step.take[of "length ps" "?w ?d ?q" u e b n C]
        by (auto simp: take_step_def outcome_def split: prod.splits sum.splits)
      ultimately have "step C (?w ?d ?q) (?w (fst (reserve_budget E d u est model strat now))
          (outcome (snd (reserve_budget E d u est model strat now))))"
        using R' by (auto simp: outcome_def)
      with rd s1 p1 show ?thesis by (metis (no_types, lifting) rtranclp.rtrancl_into_rtrancl)
    qed
  qed
qed

lemma increase_run:
  assumes "i < length ps" "ps ! i = Holding h"
  shows "runs C \<lparr>store = d, phases = ps\<rparr>
     \<lparr>store = fst (increase_reservation E d h extra model strat now),
      phases = ps[i := Holding (case snd (increase_reservation E d h extra model strat now) of
          Inr h' \<Rightarrow> h' | Inl err \<Rightarrow> h)] @ (if extra \<le> 0 then [] else [Over])\<rparr>"
proof (cases "extra \<le> 0")
  case True
  then show ?thesis using assms list_update_id[of ps i] by (simp add: increase_reservation_def)
next
  case False
  obtain d' x where R: "reserve_budget E d (h_user h) extra model strat now = (d', x)" by fastforce
  have r: "runs C \<lparr>store = d, phases = ps\<rparr> \<lparr>store = d', phases = ps @ [outcome x]\<rparr>"
    using reserve_run[of C d ps E "h_user h" extra model strat now] by (simp add: R)
  show ?thesis
  proof (cases x)
    case (Inl err)
    with r assms False R show ?thesis
      using list_update_id[of ps i] by (simp add: increase_reservation_def outcome_def)
  next
    case (Inr delta)
    let ?w = "\<lparr>store = d', phases = ps @ [Holding delta]\<rparr>"
    have "step C ?w (set_phase i (store ?w, Holding (fold_handle h delta))
        (set_phase (length ps) (store ?w, Over) ?w))"
      using reserve_budget_user[of E d "h_user h" extra model strat now d' delta] R Inr assms
      by (intro step.grow) (auto simp: nth_append)
    then have "step C ?w \<lparr>store = d', phases = ps[i := Holding (fold_handle h delta)] @ [Over]\<rparr>"
      using assms(1) by (simp add: set_phase_def list_update_append)
    with r Inr have "runs C \<lparr>store = d, phases = ps\<rparr>
        \<lparr>store = d', phases = ps[i := Holding (fold_handle h delta)] @ [Over]\<rparr>"
      by (simp add: outcome_def)
    moreover have "increase_reservation E d h extra model strat now = (d', Inr (fold_handle h delta))"
      using False R Inr by (simp add: increase_reservation_def fold_handle_def)
    ultimately show ?thesis using False by simp
  qed
qed

lemma world_start:
  assumes "fresh_store d" "\<And>u. cap u = None \<or> cap_of d u = cap u"
    and "\<And>u m. cap u = Some m \<Longrightarrow> spent_of d u \<le> m"
  shows "sound_world cap \<lparr>store = d, phases = []\<rparr>"
proof -
  have z: "held_of d u = 0" "0 \<le> spent_of d u" for u
    using assms(1) by (auto simp: fresh_store_def held_of_def spent_of_def store_simps split: option.splits)
  have "keyed d" using assms(1) by (auto simp: keyed_def fresh_store_def store_simps)
  with z assms show ?thesis
    by (auto simp: sound_world_def open_entries_def budget_ledger.sound_def balanced_Nil under_caps_def)
qed

section \<open>Properties\<close>

text \<open>A finishing request may cost a capped user at most what it reserved.\<close>

definition within_estimate :: "db \<Rightarrow> reservation_handle \<Rightarrow> money \<Rightarrow> bool" where
  "within_estimate d h c \<longleftrightarrow> cap_of d (h_user h) = None \<or> c \<le> estimate h"

lemma store0_fresh: "fresh_store store0" "cap_of store0 u = Some m \<Longrightarrow> spent_of store0 u \<le> m"
  by (auto simp: fresh_store_def store0_def user0_def cap_of_def budget_of_def budget0_def given_def
      spent_of_def get_active_user_def split: if_splits)

text \<open>C1. In every state that any interleaving of requests can reach, commit failures included,
  \<open>users.reserved\<close> of every user is exactly the sum of the estimates its unsettled requests hold;
  once every request is over it is back to 0. No estimate leaks and none is released twice.\<close>

theorem reserved_is_outstanding:
  assumes "fresh_store d" and "runs (\<lambda>_ _. True) \<lparr>store = d, phases = []\<rparr> w"
    and "get_active_user (store w) u = Some r"
  shows "reserved r = outstanding w u \<and> ((\<forall>p \<in> set (phases w). p = Over) \<longrightarrow> reserved r = 0)"
proof -
  have "sound_world (\<lambda>_. None) \<lparr>store = d, phases = []\<rparr>"
    by (rule world_start) (use assms(1) in auto)
  from world_runs[OF assms(2) this] have "balanced (held_of (store w)) (open_entries w)"
    by (simp add: sound_world_def budget_ledger.sound_def)
  then have "reserved r = outstanding w u" using of_row(1)[OF assms(3)] by (simp add: balanced_def outstanding_def)
  moreover have "outstanding w u = 0" if "\<forall>p \<in> set (phases w). p = Over"
  proof -
    have "open_entries w = []" using that by (auto simp: open_entries_def)
    then show ?thesis by (simp add: outstanding_def)
  qed
  ultimately show ?thesis by simp
qed

theorem reserved_is_outstanding_witness:
  "\<exists>w. runs (\<lambda>_ _. True) \<lparr>store = store0, phases = []\<rparr> w \<and> outstanding w ''u'' = 4"
proof -
  let ?w = "\<lparr>store = store0\<lparr>users := [''u'' \<mapsto> user0\<lparr>reserved := 4\<rparr>]\<rparr>,
    phases = [Holding (held_handle ''u'' 4 ''for_update'')]\<rparr>"
  have r: "runs (\<lambda>_ _. True) \<lparr>store = store0, phases = []\<rparr> ?w"
    using reserve_run[of "\<lambda>_ _. True" store0 "[]" env0 "''u''" 4 None None 0]
    by (simp add: reserve_store0 outcome_def)
  have g: "get_active_user (store ?w) ''u'' = Some (user0\<lparr>reserved := 4\<rparr>)"
    by (simp add: get_active_user_def user0_def)
  show ?thesis using reserved_is_outstanding[OF store0_fresh(1) r g] r by auto
qed

text \<open>C2. However requests interleave, as long as no request of a capped user costs more than it
  reserved, the money spent plus the money held of a capped user never exceeds the cap: concurrent
  requests cannot collectively overspend.\<close>

theorem cap_never_exceeded:
  assumes "fresh_store d" and "\<And>u m. cap_of d u = Some m \<Longrightarrow> spent_of d u \<le> m"
    and "runs (within_estimate d) \<lparr>store = d, phases = []\<rparr> w" and "cap_of d u = Some m"
  shows "spent_of (store w) u + outstanding w u \<le> m"
proof -
  have "sound_world (cap_of d) \<lparr>store = d, phases = []\<rparr>"
    by (rule world_start) (use assms(1,2) in auto)
  from world_runs[OF assms(3) this] have "balanced (held_of (store w)) (open_entries w)"
    "under_caps (spent_of (store w)) (held_of (store w)) (cap_of d)"
    by (auto simp: sound_world_def budget_ledger.sound_def within_estimate_def)
  with assms(4) show ?thesis by (simp add: balanced_def outstanding_def under_caps_def)
qed

theorem cap_never_exceeded_witness:
  "\<exists>w. runs (within_estimate store0) \<lparr>store = store0, phases = []\<rparr> w
     \<and> outstanding w ''u'' = 10 \<and> spent_of (store w) ''u'' + outstanding w ''u'' \<le> 10"
proof -
  let ?w = "\<lparr>store = store0\<lparr>users := [''u'' \<mapsto> user0\<lparr>reserved := 10\<rparr>]\<rparr>,
    phases = [Holding (held_handle ''u'' 10 ''for_update'')]\<rparr>"
  have r: "runs (within_estimate store0) \<lparr>store = store0, phases = []\<rparr> ?w"
    using reserve_run[of "within_estimate store0" store0 "[]" env0 "''u''" 10 None None 0]
    by (simp add: reserve_store0 outcome_def)
  have "outstanding ?w ''u'' = 10" by (simp add: outstanding_def open_entries_def)
  with r cap_never_exceeded[OF store0_fresh r store0_cap] show ?thesis by blast
qed



end
