(* ===== verification/Budget_Spec.thy ===== *)
theory Budget_Spec
  imports Budget
begin

text \<open>
  The contract of the reservation protocol for one request: exactly when \<open>reserve_budget\<close> lets it
  through, that a hold given back leaves no trace, that settling charges the cost and nothing else,
  and what the resets touch.
\<close>

section \<open>Lemmas\<close>

lemma is_free_pricing: "pricing d' = pricing d \<Longrightarrow> model_is_free E d' m t = model_is_free E d m t"
  by (simp add: model_is_free_def is_model_free_def find_price_def find_model_pricing_def
      find_by_model_key_def split: option.splits)

lemma take_reservation_ok:
  assumes "faults d = []" "get_active_user d u = Some r"
  shows "snd (take_reservation d u e n cap) =
    (if case cap of None \<Rightarrow> True | Some m \<Rightarrow> fits m e r then Inr (held_handle u e n)
     else Inl (exceeded_error u))"
  using assms by (auto simp: take_reservation_def update_user_def split: option.splits)

lemma cas_reset_ok:
  assumes "faults d = []" "get_active_user d (user_id r) = Some r" "reset_due now r"
  obtains d' where "cas_reset_user_budget d r bid b now = (d', Inr (reset_row b now r))"
    "get_active_user d' (user_id r) = Some (reset_row b now r)" "faults d' = []" "pricing d' = pricing d"
proof -
  let ?d = "add_reset_log (reset_log_of bid b now r)
      (d\<lparr>users := (users d)(user_id r \<mapsto> reset_row b now r)\<rparr>)"
  have g: "get_active_user ?d (user_id r) = Some (reset_row b now r)"
    using assms(2) by (simp add: get_active_user_def add_reset_log_def split: option.splits if_splits)
  have "update_user d (user_id r) (reset_due now) (reset_row b now) =
      (d\<lparr>users := (users d)(user_id r \<mapsto> reset_row b now r)\<rparr>, True)"
    using assms by (simp add: update_user_def)
  then have "cas_reset_user_budget d r bid b now = (?d\<lparr>faults := []\<rparr>, Inr (reset_row b now r))"
    using assms(1) g by (simp add: cas_reset_user_budget_def)
  with g that show ?thesis by (simp add: add_reset_log_def)
qed

text \<open>The guards of \<open>reserve_budget\<close> behind the user lookup.\<close>

lemma reserve_budget_enforced:
  assumes "get_active_user d u = Some r" "\<not> blocked r" "normalize_strategy strat \<noteq> ''disabled''"
    and "budget_of d r = Some (bid, b)"
  shows "reserve_budget E d u est model strat now =
    reserve_after_reset E u (max est 0) model (normalize_strategy strat) now b
      (if reset_due now r then cas_reset_user_budget d r bid b now else (d, Inr r))"
  using assms by (simp add: reserve_budget_def Let_def)

text \<open>What any successful reservation did to the ledger.\<close>

lemma reserve_budget_effect:
  assumes "reserve_budget E d u est model strat now = (d', Inr h)" "keyed d"
  shows "active d u" and "active d' v = active d v"
    and "h_user h = u" and "is_reserved h \<or> estimate h = 0" and "0 \<le> estimate h"
    and "held_of d' v = held_of d v + (if v = u then estimate h else 0)"
    and "spent_of d' v = spent_of d v \<or> v = u \<and> spent_of d' v = 0"
proof -
  obtain r where r: "get_active_user d u = Some r" and nb: "\<not> blocked r"
    using assms(1) by (auto simp: reserve_budget_def Let_def split: option.splits if_splits)
  have a: "active d u" using r by simp
  have u: "user_id r = u" using assms(2) r by (simp add: keyed_def)
  let ?n = "normalize_strategy strat"
  have "active d' v = active d v \<and> h_user h = u \<and> (is_reserved h \<or> estimate h = 0) \<and> 0 \<le> estimate h \<and>
      held_of d' v = held_of d v + (if v = u then estimate h else 0) \<and>
      (spent_of d' v = spent_of d v \<or> v = u \<and> spent_of d' v = 0)"
  proof (cases "?n = ''disabled'' \<or> budget_of d r = None")
    case True
    then have "d' = d" "h = no_reservation u ?n"
      using assms(1) r nb by (auto simp: reserve_budget_def Let_def split: if_splits)
    then show ?thesis by simp
  next
    case False
    then obtain bid b where b: "budget_of d r = Some (bid, b)" and nd: "?n \<noteq> ''disabled''" by auto
    let ?x = "if reset_due now r then cas_reset_user_budget d r bid b now else (d, Inr r)"
    obtain d1 y where x: "?x = (d1, y)" by fastforce
    have c: "held_of d1 w = held_of d w" "active d1 w = active d w"
      "spent_of d1 w = spent_of d w \<or> w = u \<and> spent_of d1 w = 0" for w
      using cas_reset_readings[of d r bid b now w] x u by (auto split: if_splits)
    have R: "reserve_after_reset E u (max est 0) model ?n now b (d1, y) = (d', Inr h)"
      using assms(1) reserve_budget_enforced[OF r nb nd b, of E est model now] x by simp
    show ?thesis
    proof (cases "d' = d1 \<and> h = no_reservation u ?n")
      case True
      with c[of v] show ?thesis by simp
    next
      case False
      with R have t: "take_reservation d1 u (max est 0) ?n (max_budget b) = (d', Inr h)"
        by (auto simp: reserve_after_reset_def split: sum.splits if_splits)
      have a1: "active d1 u" using c a by simp
      from take_reservation_held(1-4)[OF a1 t] c[of v] show ?thesis by simp
    qed
  qed
  with a show "active d u" "active d' v = active d v" "h_user h = u"
    "is_reserved h \<or> estimate h = 0" "0 \<le> estimate h"
    "held_of d' v = held_of d v + (if v = u then estimate h else 0)"
    "spent_of d' v = spent_of d v \<or> v = u \<and> spent_of d' v = 0" by auto
qed

lemma fold_effect:
  assumes "increase_reservation E d h extra model strat now = (d', Inr h')" "keyed d"
    and "active d (h_user h)" "is_reserved h \<or> estimate h = 0" "0 \<le> estimate h"
  shows "h_user h' = h_user h \<and> (is_reserved h' \<or> estimate h' = 0) \<and> 0 \<le> estimate h'
    \<and> active d' (h_user h)
    \<and> held_of d' v = held_of d v + (if v = h_user h then estimate h' - estimate h else 0)"
proof (cases "extra \<le> 0")
  case True
  with assms show ?thesis by (simp add: increase_reservation_def)
next
  case False
  with assms(1) obtain delta where R: "reserve_budget E d (h_user h) extra model strat now = (d', Inr delta)"
    and h': "h' = (if is_reserved delta
      then h\<lparr>estimate := estimate h + estimate delta, is_reserved := True\<rparr> else h)"
    by (auto simp: increase_reservation_def split: prod.splits sum.splits if_splits)
  from reserve_budget_effect(2)[OF R assms(2), of "h_user h"] reserve_budget_effect(3-5)[OF R assms(2)]
    reserve_budget_effect(6)[OF R assms(2), of v] h' assms(3-5)
  show ?thesis by auto
qed

lemma increase_effect:
  assumes "keyed d" "reserve_budget E d u est model strat now = (d1, Inr h)"
    and "increase_reservation E d1 h extra model strat now' = (d2, Inr h')"
  shows "active d2 u" and "h_user h' = u" and "is_reserved h' \<or> estimate h' = 0" and "0 \<le> estimate h'"
    and "held_of d2 v = held_of d v + (if v = u then estimate h' else 0)"
proof -
  note e = reserve_budget_effect[OF assms(2,1)]
  have k: "keyed d1"
    using same_frame_keyed[OF _ assms(1), of d1] reserve_budget_frame[of d E u est model strat now] assms(2)
    by simp
  have a: "active d1 (h_user h)" using e(1,3) e(2)[of u] by simp
  from fold_effect[OF assms(3) k a e(4,5), of v] e(3) e(6)[of v]
  show "active d2 u" "h_user h' = u" "is_reserved h' \<or> estimate h' = 0" "0 \<le> estimate h'"
    "held_of d2 v = held_of d v + (if v = u then estimate h' else 0)" by auto
qed

lemma reset_user_held:
  assumes "keyed d" "get_active_user d u = Some r"
  shows "held_of (fst (reset_user_budget d r bid b now)) v = held_of d v"
proof -
  let ?d = "add_reset_log (reset_log_of bid b now r) (d\<lparr>users := (users d)(user_id r \<mapsto> reset_row b now r)\<rparr>)"
  have u: "user_id r = u" using assms by (simp add: keyed_def)
  have "held_of ?d w = held_of d w" for w
    using assms(2) assms(2)[unfolded get_active_user_Some] by (auto simp: held_of_def u)
  then show ?thesis
    using commit_cases[of d ?d] by (auto simp: reset_user_budget_def Let_def)
qed

lemma validate_held:
  assumes "keyed d"
  shows "held_of (fst (validate_user_budget E d u model strat now)) v = held_of d v"
proof -
  have f: "fst (finish_validation E u model now b dr) = fst dr" for b dr
    by (auto simp: finish_validation_def split: prod.splits sum.splits)
  show ?thesis
    by (auto simp: validate_user_budget_def Let_def f cas_reset_readings reset_user_held[OF assms]
        split: option.splits)
qed

section \<open>Properties\<close>

text \<open>C5. The gate of \<open>reserve_budget\<close> is exact: for an enforced, capped, unblocked user and a model
  that is not free, the request is let through if and only if the user is still below the cap and
  the (clamped) estimate fits under it, spending counted from zero when a reset is due; it is then
  given a handle over the estimate, and otherwise rejected with 403.\<close>

theorem reserve_budget_gate:
  assumes "faults d = []" "get_active_user d u = Some r" "user_id r = u" "\<not> blocked r"
    and "normalize_strategy strat \<noteq> ''disabled''" "budget_of d r = Some (bid, b)"
    and "max_budget b = Some m" "\<not> model_is_free E d model now"
    and "base = (if reset_due now r then 0 else spend r)"
  shows "snd (reserve_budget E d u est model strat now) =
    (if base + reserved r < m \<and> base + reserved r + max est 0 \<le> m
     then Inr (held_handle u (max est 0) (normalize_strategy strat))
     else Inl (exceeded_error u))"
proof (cases "reset_due now r")
  case True
  with assms obtain d' where "cas_reset_user_budget d r bid b now = (d', Inr (reset_row b now r))"
    "get_active_user d' u = Some (reset_row b now r)" "faults d' = []" "pricing d' = pricing d"
    using cas_reset_ok[of d r now bid b] by metis
  with True assms take_reservation_ok[of d' u "reset_row b now r" "max est 0" "normalize_strategy strat" "Some m"]
    reserve_budget_enforced[of d u r strat bid b E est model now] is_free_pricing[of d' d E model now]
  show ?thesis by (simp add: reserve_after_reset_def fits_def)
next
  case False
  with assms take_reservation_ok[of d u r "max est 0" "normalize_strategy strat" "Some m"]
    reserve_budget_enforced[of d u r strat bid b E est model now]
  show ?thesis by (simp add: reserve_after_reset_def fits_def)
qed

theorem reserve_budget_gate_witness:
  "snd (reserve_budget env0 store0 ''u'' 11 None (Some ''cas'') 0) = Inl (exceeded_error ''u'')
   \<and> snd (reserve_budget env0 store0 ''u'' (-3) None (Some ''cas'') 0) = Inr (held_handle ''u'' 0 ''cas'')"
proof -
  have n: "normalize_strategy (Some ''cas'') = ''cas''"
    by (simp add: normalize_strategy_def py_lower_def py_strip_def py_rstrip_def py_lstrip_def
        is_space_def lower_char_def)
  have r: "user_id user0 = ''u''" "\<not> blocked user0" "budget_of store0 user0 = Some (''b'', budget0)"
    "max_budget budget0 = Some 10" "\<not> reset_due 0 user0" "spend user0 = 0" "reserved user0 = 0"
    by (simp_all add: user0_def budget0_def budget_of_def given_def reset_due_def)
  have f: "\<not> model_is_free env0 store0 None 0" by (simp add: model_is_free_def given_def)
  note g = reserve_budget_gate[OF store0_faults(1) store0_row r(1,2) _ r(3,4) f, of "Some ''cas''" 0]
  show ?thesis using g[of 11] g[of "-3"] by (simp add: n r)
qed

text \<open>A reservation that is settled leaves no hold behind: after \<open>reserve_budget\<close>, possibly grown
  by \<open>increase_reservation\<close>, and \<open>reconcile_reservation\<close>, what is held for every user is what was
  held before, and the user alone is charged the cost, never less than nothing; a refund charges
  nothing.\<close>

theorem settle_charges_cost_only:
  assumes "keyed d" "0 \<le> held_of d u"
    and "reserve_budget E d u est model strat now = (d1, Inr h)"
    and "increase_reservation E d1 h extra model strat now' = (d2, Inr h')"
    and "reconcile_reservation d2 h' cost = (d3, True)"
  shows "held_of d3 v = held_of d v \<and> spent_of d3 v = spent_of d2 v + (if v = u then max cost 0 else 0)"
proof -
  from increase_effect[OF assms(1,3,4)]
  have h': "active d2 u" "h_user h' = u" "is_reserved h' \<or> estimate h' = 0" "0 \<le> estimate h'"
    and held: "held_of d2 w = held_of d w + (if w = u then estimate h' else 0)" for w by auto
  show ?thesis
  proof (cases "is_reserved h'")
    case True
    then have "h' = held_handle u (estimate h') (strategy h')" using h' by (cases h') (simp add: held_handle_def)
    with reconcile_held[OF h'(1), of "estimate h'" "strategy h'" cost d3 v] assms(2,5) held
    show ?thesis by auto
  next
    case False
    with h' held[of u] assms(2) have z: "estimate h' = 0" "0 \<le> held_of d2 u" by auto
    with settle_unreserved[OF False, of d2 cost] assms(5) h'(1,2) consider "d3 = d2" "max cost 0 = 0"
      | "ledger_settle (strategy h') d2 u 0 cost = (d3, True)" by auto
    then show ?thesis
    proof cases
      case 2
      with budget_ledger.settle_ok[OF h'(1) order_refl z(2), of "strategy h'" cost d3 v] held z
      show ?thesis by auto
    qed (use held z in auto)
  qed
qed

theorem settle_charges_cost_only_witness:
  "spent_of (fst (reconcile_reservation (fst (reserve_budget env0 store0 ''u'' 4 None None 0))
      (held_handle ''u'' 4 ''for_update'') 3)) ''u'' = 3"
proof -
  let ?d1 = "store0\<lparr>users := [''u'' \<mapsto> user0\<lparr>reserved := 4\<rparr>]\<rparr>"
  let ?h = "held_handle ''u'' 4 ''for_update''"
  have k: "keyed store0" by (auto simp: keyed_def get_active_user_def store0_def user0_def)
  have z: "0 \<le> held_of store0 ''u''" by (simp add: user0_def)
  have r: "reserve_budget env0 store0 ''u'' 4 None None 0 = (?d1, Inr ?h)" by (simp add: reserve_store0)
  have i: "increase_reservation env0 ?d1 ?h 0 None None 0 = (?d1, Inr ?h)"
    by (simp add: increase_reservation_def)
  obtain d3 where s: "reconcile_reservation ?d1 ?h 3 = (d3, True)"
    by (simp add: reconcile_reservation_def)
  have "spent_of ?d1 ''u'' = 0" by (simp add: spent_of_def get_active_user_def user0_def)
  then show ?thesis using settle_charges_cost_only[OF k z r i s, of "''u''"] s r by simp
qed

text \<open>Resetting a budget never touches a hold: neither the compare-and-swap reset, nor the plain
  reset, nor the whole legacy gate \<open>validate_user_budget\<close> changes what is held for any user, so a
  hold left behind by a failed settlement survives the next budget reset.\<close>

theorem resets_keep_reserved:
  assumes "keyed d" "get_active_user d u = Some r"
  shows "held_of (fst (cas_reset_user_budget d r bid b now)) v = held_of d v \<and>
    held_of (fst (reset_user_budget d r bid b now)) v = held_of d v \<and>
    held_of (fst (validate_user_budget E d u model strat now)) v = held_of d v"
  using cas_reset_readings(1)[of d r bid b now v] reset_user_held[OF assms, of bid b now v]
    validate_held[OF assms(1), of E u model strat now v] by blast

theorem resets_keep_reserved_witness:
  "held_of (fst (validate_user_budget env0 (store0\<lparr>users := [''u'' \<mapsto> user0\<lparr>reserved := 4, spend := 6,
      next_budget_reset_at := Some 5\<rparr>]\<rparr>) ''u'' None None 9)) ''u'' = 4"
proof -
  let ?r = "user0\<lparr>reserved := 4, spend := 6, next_budget_reset_at := Some 5\<rparr>"
  let ?d = "store0\<lparr>users := [''u'' \<mapsto> ?r]\<rparr>"
  have k: "keyed ?d" by (auto simp: keyed_def get_active_user_def user0_def split: if_splits)
  have g: "get_active_user ?d ''u'' = Some ?r" by (simp add: get_active_user_def user0_def)
  show ?thesis using resets_keep_reserved[OF k g, of _ _ _ "''u''"] of_row(1)[OF g] by simp
qed

end
