(* ===== verification/Log_Writer.thy ===== *)
theory Log_Writer
  imports Store
begin

text \<open>
  The usage-log writers (\<open>services/log_writer.py\<close>): \<open>SingleLogWriter\<close> writes each row in its own
  transaction, \<open>BatchLogWriter\<close> queues rows and flushes them in batches, \<open>NoopLogWriter\<close> discards
  them. A row whose commit fails is dropped, never raised to the request.

  \<open>log_sink\<close> is what the request pipeline relies on: writing a log row moves no money.
\<close>

record server =
  sdb :: db
  log_queue :: "usage_log list"
  reports :: "(string \<times> string) list"

definition insert_logs :: "usage_log list \<Rightarrow> db \<Rightarrow> db" where
  "insert_logs ls d = fst (commit d (d\<lparr>usage_logs := usage_logs d @ ls\<rparr>))"

definition single_put :: "usage_log \<Rightarrow> server \<Rightarrow> server" where
  "single_put l s = s\<lparr>sdb := insert_logs [l] (sdb s)\<rparr>"

definition batch_put :: "usage_log \<Rightarrow> server \<Rightarrow> server" where
  "batch_put l s = s\<lparr>log_queue := log_queue s @ [l]\<rparr>"

definition noop_put :: "usage_log \<Rightarrow> server \<Rightarrow> server" where
  "noop_put l s = s"

text \<open>\<open>_collect_batch\<close>: at most \<open>max_batch\<close> rows off the front of the queue, none if it is empty.\<close>

definition collect_batch :: "nat \<Rightarrow> server \<Rightarrow> usage_log list \<times> server" where
  "collect_batch max_batch s = (case log_queue s of
       [] \<Rightarrow> ([], s)
     | l # ls \<Rightarrow> (l # take (max_batch - 1) ls, s\<lparr>log_queue := drop (max_batch - 1) ls\<rparr>))"

definition flush :: "usage_log list \<Rightarrow> server \<Rightarrow> server" where
  "flush batch s = s\<lparr>sdb := insert_logs batch (sdb s)\<rparr>"

text \<open>One turn of \<open>_run\<close>, and \<open>_flush_all\<close> at shutdown.\<close>

definition run_once :: "nat \<Rightarrow> server \<Rightarrow> server" where
  "run_once max_batch s = (case collect_batch max_batch s of
       ([], s') \<Rightarrow> s' | (batch, s') \<Rightarrow> flush batch s')"

definition flush_all :: "server \<Rightarrow> server" where
  "flush_all s = (case log_queue s of [] \<Rightarrow> s | ls \<Rightarrow> flush ls (s\<lparr>log_queue := []\<rparr>))"

datatype writer_event = Put usage_log | Tick

fun run_batch :: "nat \<Rightarrow> writer_event list \<Rightarrow> server \<Rightarrow> server" where
  "run_batch k [] s = s"
| "run_batch k (Put l # es) s = run_batch k es (batch_put l s)"
| "run_batch k (Tick # es) s = run_batch k es (run_once k s)"

fun puts_of :: "writer_event list \<Rightarrow> usage_log list" where
  "puts_of [] = []"
| "puts_of (Put l # es) = l # puts_of es"
| "puts_of (Tick # es) = puts_of es"

section \<open>The interface\<close>

locale log_sink =
  fixes put :: "usage_log \<Rightarrow> server \<Rightarrow> server"
  assumes put_users: "users (sdb (put l s)) = users (sdb s)"
    and put_budgets: "budgets (sdb (put l s)) = budgets (sdb s)"
    and put_pricing: "pricing (sdb (put l s)) = pricing (sdb s)"
    and put_resets: "reset_logs (sdb (put l s)) = reset_logs (sdb s)"
    and put_faults: "faults (sdb s) = [] \<Longrightarrow> faults (sdb (put l s)) = []"
    and put_reports: "reports (put l s) = reports s"
begin

lemma put_row: "get_active_user (sdb (put l s)) u = get_active_user (sdb s) u"
  by (simp add: get_active_user_def put_users)

lemma puts_row: "get_active_user (sdb (fold put ls s)) u = get_active_user (sdb s) u"
  by (induction ls arbitrary: s) (simp_all add: put_row)

end

lemma insert_logs_frame [simp]:
  "users (insert_logs ls d) = users d" "budgets (insert_logs ls d) = budgets d"
  "pricing (insert_logs ls d) = pricing d" "reset_logs (insert_logs ls d) = reset_logs d"
  using commit_cases[of d "d\<lparr>usage_logs := usage_logs d @ ls\<rparr>"] by (auto simp: insert_logs_def)

lemma insert_logs_ok [simp]:
  "faults d = [] \<Longrightarrow> insert_logs ls d = d\<lparr>usage_logs := usage_logs d @ ls, faults := []\<rparr>"
  by (simp add: insert_logs_def)

interpretation single_sink: log_sink single_put
  by unfold_locales (simp_all add: single_put_def)

interpretation batch_sink: log_sink batch_put
  by unfold_locales (simp_all add: batch_put_def)

interpretation noop_sink: log_sink noop_put
  by unfold_locales (simp_all add: noop_put_def)

section \<open>Lemmas\<close>

lemma insert_logs_append:
  "faults d = [] \<Longrightarrow> insert_logs ms (insert_logs ls d) = insert_logs (ls @ ms) d"
  by simp

lemma collect_batch_split:
  "collect_batch k s = (b, s') \<Longrightarrow> b @ log_queue s' = log_queue s \<and> sdb s' = sdb s \<and> reports s' = reports s"
  by (auto simp: collect_batch_def split: list.splits)

text \<open>What the batch writer has persisted and queued together never changes but by a \<open>put\<close>.\<close>

definition pending_all :: "server \<Rightarrow> usage_log list" where
  "pending_all s = usage_logs (sdb s) @ log_queue s"

lemma run_once_keeps:
  assumes "faults (sdb s) = []"
  shows "pending_all (run_once k s) = pending_all s" "faults (sdb (run_once k s)) = []"
    "sdb (run_once k s)\<lparr>usage_logs := []\<rparr> = sdb s\<lparr>usage_logs := []\<rparr>" "reports (run_once k s) = reports s"
proof -
  obtain b s' where c: "collect_batch k s = (b, s')" by fastforce
  from collect_batch_split[OF c] assms c
  show "pending_all (run_once k s) = pending_all s" "faults (sdb (run_once k s)) = []"
    "sdb (run_once k s)\<lparr>usage_logs := []\<rparr> = sdb s\<lparr>usage_logs := []\<rparr>" "reports (run_once k s) = reports s"
    by (auto simp: run_once_def flush_def pending_all_def split: list.splits)
qed

lemma run_batch_keeps:
  "faults (sdb s) = [] \<Longrightarrow> pending_all (run_batch k es s) = pending_all s @ puts_of es
    \<and> faults (sdb (run_batch k es s)) = []
    \<and> sdb (run_batch k es s)\<lparr>usage_logs := []\<rparr> = sdb s\<lparr>usage_logs := []\<rparr>
    \<and> reports (run_batch k es s) = reports s"
proof (induction k es s rule: run_batch.induct)
  case (2 k l es s)
  then show ?case by (simp add: batch_put_def pending_all_def)
next
  case (3 k es s)
  then show ?case by (simp add: run_once_keeps)
qed simp

lemma flush_all_keeps:
  assumes "faults (sdb s) = []"
  shows "flush_all s = s\<lparr>sdb := sdb s\<lparr>usage_logs := pending_all s, faults := []\<rparr>, log_queue := []\<rparr>"
  using assms by (cases "log_queue s") (simp_all add: flush_all_def flush_def pending_all_def)

lemma logs_differ_only:
  "(d :: db)\<lparr>usage_logs := []\<rparr> = d'\<lparr>usage_logs := []\<rparr> \<Longrightarrow>
    d\<lparr>usage_logs := ls, faults := []\<rparr> = d'\<lparr>usage_logs := ls, faults := []\<rparr>"
  by (cases d; cases d') simp

lemma fold_single_put:
  "faults (sdb s) = [] \<Longrightarrow> fold single_put ls s =
    s\<lparr>sdb := sdb s\<lparr>usage_logs := usage_logs (sdb s) @ ls, faults := []\<rparr>\<rparr>"
  by (induction ls arbitrary: s) (simp_all add: single_put_def)

section \<open>Properties\<close>

text \<open>Batching loses and reorders nothing: whatever the batch size, and however the flushes
  interleave with the requests that log, once the batch writer has been stopped the store holds
  exactly what the inline writer would have left, every row once and in the order written, as long
  as no commit fails.\<close>

theorem batch_writer_equals_single:
  assumes "faults (sdb s) = []" "log_queue s = []"
  shows "flush_all (run_batch k es s) = fold single_put (puts_of es) s"
proof -
  let ?b = "run_batch k es s"
  from run_batch_keeps[OF assms(1), of k es] have p: "pending_all ?b = pending_all s @ puts_of es"
    and f: "faults (sdb ?b) = []" and d: "sdb ?b\<lparr>usage_logs := []\<rparr> = sdb s\<lparr>usage_logs := []\<rparr>"
    and r: "reports ?b = reports s" by auto
  have "pending_all ?b = usage_logs (sdb s) @ puts_of es" using p assms(2) by (simp add: pending_all_def)
  then have "flush_all ?b = ?b\<lparr>sdb := sdb s\<lparr>usage_logs := usage_logs (sdb s) @ puts_of es, faults := []\<rparr>,
      log_queue := []\<rparr>"
    unfolding flush_all_keeps[OF f] logs_differ_only[OF d] by simp
  also have "\<dots> = s\<lparr>sdb := sdb s\<lparr>usage_logs := usage_logs (sdb s) @ puts_of es, faults := []\<rparr>\<rparr>"
    using r assms(2) by (intro server.equality) simp_all
  finally show ?thesis using fold_single_put[OF assms(1)] by simp
qed

definition empty_server :: server where
  "empty_server = \<lparr>sdb = \<lparr>users = Map.empty, budgets = Map.empty, pricing = [], usage_logs = [],
     reset_logs = [], api_keys = [], faults = []\<rparr>, log_queue = [], reports = []\<rparr>"

definition sample_log :: "instant \<Rightarrow> usage_log" where
  "sample_log t = \<lparr>log_api_key_id = None, log_user_id = Some ''u'', log_timestamp = t, log_model = ''gpt'',
     log_provider = Some ''openai'', log_endpoint = ''/v1/chat/completions'', log_status = ''success'',
     log_error = None, log_tokens = None, log_cost = None\<rparr>"

theorem batch_writer_equals_single_witness:
  "flush_all (run_batch 2 [Put (sample_log 1), Put (sample_log 2), Put (sample_log 3), Tick, Put (sample_log 4)]
      empty_server) = fold single_put (map sample_log [1, 2, 3, 4]) empty_server"
  using batch_writer_equals_single[of empty_server 2 "[Put (sample_log 1), Put (sample_log 2), Put (sample_log 3),
      Tick, Put (sample_log 4)]"]
  by (simp add: empty_server_def)

end
