(* ===== verification/Usage.thy ===== *)
theory Usage
  imports Prelude
begin

text \<open>
  Token usage carriers (\<open>core/usage.py\<close>) and the way a stream's usage chunks are merged
  (\<open>streaming.py\<close>, \<open>_merge_usage\<close>).

  A provider reports a plain \<open>CompletionUsage\<close>; the gateway's own \<open>GatewayUsage\<close> is a
  subclass with two more integers. The two constructors of \<open>usage\<close> are the two classes, so
  \<open>isinstance\<close> is a case distinction. \<open>completion_tokens_details\<close> is carried along by the
  source and read nowhere; it is left out.
\<close>

text \<open>\<open>prompt_tokens_details\<close> is absent or an object whose \<open>cached_tokens\<close> may be absent.\<close>

record completion_usage =
  prompt_tokens :: int
  completion_tokens :: int
  total_tokens :: int
  prompt_tokens_details :: "int option option"

datatype usage = Completion_Usage completion_usage | Gateway_Usage completion_usage int int

fun base_usage :: "usage \<Rightarrow> completion_usage" where
  "base_usage (Completion_Usage u) = u"
| "base_usage (Gateway_Usage u _ _) = u"

text \<open>Python's \<open>a or b\<close> on integers: the first one unless it is zero.\<close>

definition int_or :: "int \<Rightarrow> int \<Rightarrow> int" where
  "int_or a b = (if a \<noteq> 0 then a else b)"

definition opt_or0 :: "int option \<Rightarrow> int" where
  "opt_or0 v = (case v of None \<Rightarrow> 0 | Some i \<Rightarrow> int_or i 0)"

fun cache_read_tokens_of :: "usage \<Rightarrow> int" where
  "cache_read_tokens_of (Gateway_Usage _ r _) = r"
| "cache_read_tokens_of (Completion_Usage u) =
     (case prompt_tokens_details u of Some d \<Rightarrow> opt_or0 d | None \<Rightarrow> 0)"

fun cache_write_tokens_of :: "usage \<Rightarrow> int" where
  "cache_write_tokens_of (Gateway_Usage _ _ w) = w"
| "cache_write_tokens_of (Completion_Usage _) = 0"

definition from_completion_usage :: "usage \<Rightarrow> int option \<Rightarrow> int option \<Rightarrow> usage" where
  "from_completion_usage u r w =
     Gateway_Usage (base_usage u)
       (case r of None \<Rightarrow> cache_read_tokens_of u | Some i \<Rightarrow> i)
       (case w of None \<Rightarrow> cache_write_tokens_of u | Some i \<Rightarrow> i)"

definition zero_usage :: usage where
  "zero_usage = Completion_Usage
     \<lparr>prompt_tokens = 0, completion_tokens = 0, total_tokens = 0, prompt_tokens_details = None\<rparr>"

text \<open>\<open>_merge_usage(current, update)\<close>: the last non-zero value of each field is kept.\<close>

definition merge_usage :: "usage \<Rightarrow> usage \<Rightarrow> usage" where
  "merge_usage cur upd = Gateway_Usage
     \<lparr>prompt_tokens = int_or (prompt_tokens (base_usage upd)) (prompt_tokens (base_usage cur)),
      completion_tokens = int_or (completion_tokens (base_usage upd)) (completion_tokens (base_usage cur)),
      total_tokens = int_or (total_tokens (base_usage upd)) (total_tokens (base_usage cur)),
      prompt_tokens_details = None\<rparr>
     (int_or (cache_read_tokens_of upd) (cache_read_tokens_of cur))
     (int_or (cache_write_tokens_of upd) (cache_write_tokens_of cur))"

section \<open>Lemmas\<close>

text \<open>The five counts the report builder reads off a usage value.\<close>

definition usage_counts :: "usage \<Rightarrow> int list" where
  "usage_counts u =
     [prompt_tokens (base_usage u), completion_tokens (base_usage u), total_tokens (base_usage u),
      cache_read_tokens_of u, cache_write_tokens_of u]"

lemma usage_counts_zero [simp]: "usage_counts zero_usage = [0, 0, 0, 0, 0]"
  by (simp add: usage_counts_def zero_usage_def)

lemma usage_counts_merge:
  "usage_counts (merge_usage c u) = map2 int_or (usage_counts u) (usage_counts c)"
  by (simp add: usage_counts_def merge_usage_def)

lemma length_usage_counts [simp]: "length (usage_counts u) = 5"
  by (simp add: usage_counts_def)

text \<open>Reference: the last non-zero entry of a list of integers, zero if there is none.\<close>

definition last_nonzero :: "int list \<Rightarrow> int" where
  "last_nonzero xs = last (0 # filter (\<lambda>x. x \<noteq> 0) xs)"

lemma last_nonzero_Nil [simp]: "last_nonzero [] = 0"
  by (simp add: last_nonzero_def)

lemma last_nonzero_snoc: "last_nonzero (xs @ [x]) = int_or x (last_nonzero xs)"
  by (auto simp: last_nonzero_def int_or_def)

lemma foldl_merge_counts:
  assumes "k < 5"
  shows "usage_counts (foldl merge_usage zero_usage us) ! k
    = last_nonzero (map (\<lambda>u. usage_counts u ! k) us)"
proof (induction us rule: rev_induct)
  case Nil
  have "k \<in> {0, 1, 2, 3, 4}" using assms by auto
  then show ?case by auto
next
  case (snoc u us)
  then show ?case using assms by (simp add: usage_counts_merge last_nonzero_snoc)
qed

lemma from_completion_usage_idem:
  "from_completion_usage (from_completion_usage u r w) None None = from_completion_usage u r w"
  by (simp add: from_completion_usage_def)

lemma usage_counts_from_completion:
  "usage_counts (from_completion_usage u None None) = usage_counts u"
  by (simp add: usage_counts_def from_completion_usage_def)

end
