(* ===== verification/Streaming.thy ===== *)
theory Streaming
  imports Usage
begin

text \<open>
  The streaming utilities (\<open>streaming.py\<close>): \<open>streaming_generator\<close>, which forwards a provider
  stream as server-sent events and settles the request, and \<open>iterate_streaming_attempts\<close>, which
  tries providers until one yields a first chunk.

  A generator runs against two parties. The provider stream is a list of \<open>pull\<close>s: what each
  \<open>__anext__\<close> gives, the end of the list being the end of the stream. The consumer is a list of
  \<open>resume\<close>s: how it answers each \<open>yield\<close>, by asking for more, by closing the generator
  (\<open>GeneratorExit\<close>) or by being cancelled (\<open>CancelledError\<close>); a consumer whose list is used up
  keeps asking. The settlement callbacks are parameters; a callback returns, raises an \<open>Exception\<close>,
  or is interrupted by a cancellation, as \<open>cb\<close> says of each call. Every call is recorded as an
  event.
\<close>

section \<open>Formats\<close>

record stream_format =
  done_marker :: string
  error_payload :: string
  yield_done_on_error :: bool

abbreviation newline :: string where
  "newline \<equiv> [CHR 0x0A]"

definition openai_error :: string where
  "openai_error = ''{\"error\": {\"message\": \"An error occurred during streaming\", \"type\": \"server_error\"}}''"

definition anthropic_error :: string where
  "anthropic_error = ''{\"type\": \"error\", \"error\": {\"type\": \"api_error\", \"message\": \"An error occurred during streaming\"}}''"

definition openai_stream_format :: stream_format where
  "openai_stream_format = \<lparr>done_marker = ''data: [DONE]'' @ newline @ newline,
     error_payload = ''data: '' @ openai_error @ newline @ newline, yield_done_on_error = True\<rparr>"

definition responses_stream_format :: stream_format where
  "responses_stream_format = \<lparr>done_marker = ''data: [DONE]'' @ newline @ newline,
     error_payload = ''event: error'' @ newline @ ''data: '' @ openai_error @ newline @ newline,
     yield_done_on_error = False\<rparr>"

definition anthropic_stream_format :: stream_format where
  "anthropic_stream_format = \<lparr>done_marker = ''event: done'' @ newline @ ''data: {}'' @ newline @ newline,
     error_payload = ''event: error'' @ newline @ ''data: '' @ anthropic_error @ newline @ newline,
     yield_done_on_error = False\<rparr>"

section \<open>The generator\<close>

datatype exn = Exc string | Cancelled_Error | Generator_Exit

datatype 'c pull = Chunk 'c | Upstream exn

datatype resume = Resume | Close | Cancel

datatype event = On_Complete usage | On_No_Usage | On_Error string | On_Incomplete

datatype callback_result = Returns | Raises | Interrupted

text \<open>The arguments of one call: formatter, usage extractor (both may raise), format, callbacks.\<close>

record 'c gen_args =
  format_chunk :: "'c \<Rightarrow> (string, string) result"
  extract_usage :: "'c \<Rightarrow> (string, usage option) result"
  fmt :: stream_format
  has_on_no_usage :: bool
  has_on_incomplete :: bool
  cb :: "nat \<Rightarrow> event \<Rightarrow> callback_result"

text \<open>The generator's state: what it has sent, what it has called, its locals, and the consumer.\<close>

record gen =
  sent :: "string list"
  events :: "event list"
  acc_usage :: usage
  has_usage :: bool
  settled :: bool
  consumer :: "resume list"

definition start_gen :: "resume list \<Rightarrow> gen" where
  "start_gen rs = \<lparr>sent = [], events = [], acc_usage = zero_usage, has_usage = False, settled = False,
     consumer = rs\<rparr>"

definition yield_out :: "string \<Rightarrow> gen \<Rightarrow> gen \<times> exn option" where
  "yield_out s g = (let g' = g\<lparr>sent := sent g @ [s], consumer := tl (consumer g)\<rparr> in
     case consumer g of
       Close # _ \<Rightarrow> (g', Some Generator_Exit)
     | Cancel # _ \<Rightarrow> (g', Some Cancelled_Error)
     | _ \<Rightarrow> (g', None))"

definition call :: "'c gen_args \<Rightarrow> event \<Rightarrow> gen \<Rightarrow> gen \<times> callback_result" where
  "call A ev g = (g\<lparr>events := events g @ [ev]\<rparr>, cb A (length (events g)) ev)"

text \<open>\<open>async for chunk in stream\<close>: the body runs until the stream ends or something is raised.\<close>

fun pump :: "'c gen_args \<Rightarrow> 'c pull list \<Rightarrow> gen \<Rightarrow> gen \<times> exn option" where
  "pump A [] g = (g, None)"
| "pump A (Upstream x # ps) g = (g, Some x)"
| "pump A (Chunk c # ps) g = (case extract_usage A c of
       Inl e \<Rightarrow> (g, Some (Exc e))
     | Inr cu \<Rightarrow>
         (let g1 = (case cu of None \<Rightarrow> g
                    | Some u \<Rightarrow> g\<lparr>acc_usage := merge_usage (acc_usage g) u, has_usage := True\<rparr>)
          in case format_chunk A c of
               Inl e \<Rightarrow> (g1, Some (Exc e))
             | Inr s \<Rightarrow> (case yield_out s g1 of
                 (g2, Some x) \<Rightarrow> (g2, Some x)
               | (g2, None) \<Rightarrow> pump A ps g2)))"

text \<open>The settlement on normal completion: a failing callback is logged, a cancelled one propagates.\<close>

definition settle_completed :: "'c gen_args \<Rightarrow> gen \<Rightarrow> gen \<times> exn option" where
  "settle_completed A g0 = (let g = g0\<lparr>settled := True\<rparr> in
     if has_usage g \<or> has_on_no_usage A
     then (case call A (if has_usage g then On_Complete (acc_usage g) else On_No_Usage) g of
             (g', Interrupted) \<Rightarrow> (g', Some Cancelled_Error)
           | (g', _) \<Rightarrow> (g', None))
     else (g, None))"

definition try_body :: "'c gen_args \<Rightarrow> 'c pull list \<Rightarrow> gen \<Rightarrow> gen \<times> exn option" where
  "try_body A ps g = (case pump A ps g of
       (g1, Some x) \<Rightarrow> (g1, Some x)
     | (g1, None) \<Rightarrow> (case yield_out (done_marker (fmt A)) g1 of
         (g2, Some x) \<Rightarrow> (g2, Some x)
       | (g2, None) \<Rightarrow> settle_completed A g2))"

text \<open>\<open>except asyncio.CancelledError\<close>\<close>

definition handle_cancelled :: "'c gen_args \<Rightarrow> gen \<Rightarrow> gen \<times> exn option" where
  "handle_cancelled A g =
     (if \<not> settled g \<and> has_on_incomplete A
      then (case call A On_Incomplete g of
              (g', Interrupted) \<Rightarrow> (g', Some Cancelled_Error)
            | (g', _) \<Rightarrow> (g'\<lparr>settled := True\<rparr>, Some Cancelled_Error))
      else (g\<lparr>settled := True\<rparr>, Some Cancelled_Error))"

text \<open>\<open>except Exception\<close>\<close>

definition handle_exception :: "'c gen_args \<Rightarrow> string \<Rightarrow> gen \<Rightarrow> gen \<times> exn option" where
  "handle_exception A e g = (case yield_out (error_payload (fmt A)) g of
       (g1, Some x) \<Rightarrow> (g1, Some x)
     | (g1, None) \<Rightarrow>
         (case (if yield_done_on_error (fmt A) then yield_out (done_marker (fmt A)) g1 else (g1, None)) of
            (g2, Some x) \<Rightarrow> (g2, Some x)
          | (g2, None) \<Rightarrow> (case call A (On_Error e) (g2\<lparr>settled := True\<rparr>) of
              (g3, Interrupted) \<Rightarrow> (g3, Some Cancelled_Error)
            | (g3, _) \<Rightarrow> (g3, None))))"

definition finally_block :: "'c gen_args \<Rightarrow> gen \<times> exn option \<Rightarrow> gen \<times> exn option" where
  "finally_block A gx = (case gx of (g, x) \<Rightarrow>
     if \<not> settled g \<and> has_on_incomplete A
     then (case call A On_Incomplete g of
             (g', Interrupted) \<Rightarrow> (g', Some Cancelled_Error)
           | (g', _) \<Rightarrow> (g', x))
     else (g, x))"

definition streaming_generator :: "'c gen_args \<Rightarrow> 'c pull list \<Rightarrow> resume list \<Rightarrow> gen \<times> exn option" where
  "streaming_generator A ps rs = finally_block A
     (case try_body A ps (start_gen rs) of
        (g, None) \<Rightarrow> (g, None)
      | (g, Some (Exc e)) \<Rightarrow> handle_exception A e g
      | (g, Some Cancelled_Error) \<Rightarrow> handle_cancelled A g
      | (g, Some Generator_Exit) \<Rightarrow> (g, Some Generator_Exit))"

section \<open>Trying providers in turn\<close>

text \<open>
  What an attempt does: \<open>build_stream\<close> raises, or gives a stream whose first \<open>__anext__\<close> ends the
  stream, times out, raises, or yields a chunk with the rest of the stream behind it. The report of
  a failed attempt can itself raise. The outcome records, in order, the failures reported and the
  attempts whose stream was closed.
\<close>

datatype 'c attempt_run =
    Build_Raises exn
  | Ends_Empty
  | First_Timeout
  | First_Raises exn
  | Yields 'c "'c pull list"

datatype failure_exn = Raised exn | Timeout_Error | No_Attempts

record stream_failure =
  error_class :: string
  failure_exception :: failure_exn

record ('a, 'c) tried =
  failures :: "('a \<times> stream_failure) list"
  closed :: "'a list"
  result :: "(failure_exn, 'a \<times> 'c pull list) result"

definition stitched :: "'c \<Rightarrow> 'c pull list \<Rightarrow> 'c pull list" where
  "stitched first remaining = Chunk first # remaining"

definition empty_async_iter :: "'c pull list" where
  "empty_async_iter = []"

definition record_failure :: "'a \<Rightarrow> stream_failure \<Rightarrow> bool \<Rightarrow> ('a, 'c) tried \<Rightarrow> ('a, 'c) tried" where
  "record_failure a f opened t =
     t\<lparr>failures := (a, f) # failures t, closed := (if opened then a # closed t else closed t)\<rparr>"

definition stop_with :: "'a \<Rightarrow> stream_failure \<Rightarrow> bool \<Rightarrow> failure_exn \<Rightarrow> ('a, 'c) tried" where
  "stop_with a f close_it x =
     \<lparr>failures = [(a, f)], closed = (if close_it then [a] else []), result = Inl x\<rparr>"

text \<open>One failed attempt: report it, close what was opened, then go on or raise.\<close>

definition after_failure :: "('a \<Rightarrow> stream_failure \<Rightarrow> exn option) \<Rightarrow> 'a \<Rightarrow> bool \<Rightarrow> stream_failure \<Rightarrow> bool
    \<Rightarrow> ('a, 'c) tried \<Rightarrow> ('a, 'c) tried" where
  "after_failure report a opened f retryable rest = (case report a f of
       Some x \<Rightarrow> stop_with a f False (Raised x)
     | None \<Rightarrow> if retryable then record_failure a f opened rest
               else stop_with a f opened (failure_exception f))"

fun iterate_streaming_attempts :: "('a \<Rightarrow> 'c attempt_run) \<Rightarrow> (exn \<Rightarrow> bool \<times> string)
    \<Rightarrow> ('a \<Rightarrow> stream_failure \<Rightarrow> exn option) \<Rightarrow> failure_exn \<Rightarrow> 'a list \<Rightarrow> ('a, 'c) tried" where
  "iterate_streaming_attempts run classify report last_exn [] =
     \<lparr>failures = [], closed = [], result = Inl last_exn\<rparr>"
| "iterate_streaming_attempts run classify report last_exn (a # as) = (case run a of
       Build_Raises x \<Rightarrow> (case classify x of (retryable, cls) \<Rightarrow>
         after_failure report a False \<lparr>error_class = cls, failure_exception = Raised x\<rparr> retryable
           (iterate_streaming_attempts run classify report (Raised x) as))
     | Ends_Empty \<Rightarrow> \<lparr>failures = [], closed = [], result = Inr (a, empty_async_iter)\<rparr>
     | First_Timeout \<Rightarrow>
         after_failure report a True \<lparr>error_class = ''timeout'', failure_exception = Timeout_Error\<rparr> True
           (iterate_streaming_attempts run classify report Timeout_Error as)
     | First_Raises x \<Rightarrow> (case classify x of (retryable, cls) \<Rightarrow>
         after_failure report a True \<lparr>error_class = cls, failure_exception = Raised x\<rparr> retryable
           (iterate_streaming_attempts run classify report (Raised x) as))
     | Yields c rest \<Rightarrow> \<lparr>failures = [], closed = [], result = Inr (a, stitched c rest)\<rparr>)"

definition try_streams :: "('a \<Rightarrow> 'c attempt_run) \<Rightarrow> (exn \<Rightarrow> bool \<times> string)
    \<Rightarrow> ('a \<Rightarrow> stream_failure \<Rightarrow> exn option) \<Rightarrow> 'a list \<Rightarrow> ('a, 'c) tried" where
  "try_streams run classify report attempts =
     iterate_streaming_attempts run classify report No_Attempts attempts"

section \<open>Lemmas on the generator\<close>

named_theorems gen_simps "rewriting of the streaming generator's state"

lemma yield_out_frame:
  assumes "yield_out s g = (g', x)"
  shows "events g' = events g" "settled g' = settled g" "acc_usage g' = acc_usage g"
    "has_usage g' = has_usage g" "sent g' = sent g @ [s]" "x \<noteq> Some (Exc e)"
  using assms by (auto simp: yield_out_def Let_def split: list.splits resume.splits)

lemma call_simps [gen_simps]:
  "call A ev g = (g', r) \<longleftrightarrow> g' = g\<lparr>events := events g @ [ev]\<rparr> \<and> r = cb A (length (events g)) ev"
  by (auto simp: call_def)

lemma pump_frame:
  "pump A ps g = (g', x) \<Longrightarrow> events g' = events g \<and> settled g' = settled g"
proof (induction A ps g arbitrary: g' x rule: pump.induct)
  case (3 A c ps g)
  show ?case
  proof (cases "extract_usage A c")
    case (Inr cu)
    define g1 where "g1 = (case cu of None \<Rightarrow> g
        | Some u \<Rightarrow> g\<lparr>acc_usage := merge_usage (acc_usage g) u, has_usage := True\<rparr>)"
    have g1f: "events g1 = events g" "settled g1 = settled g"
      by (simp_all add: g1_def split: option.splits)
    show ?thesis
    proof (cases "format_chunk A c")
      case f: (Inr s)
      obtain g2 y where y: "yield_out s g1 = (g2, y)" by fastforce
      note fr = yield_out_frame(1,2)[OF y]
      show ?thesis
      proof (cases y)
        case None
        from "3.prems" Inr f y None have "pump A ps g2 = (g', x)" by (simp add: g1_def)
        from "3.IH"[OF Inr g1_def f y[symmetric] None this] fr g1f show ?thesis by simp
      qed (use "3.prems" Inr f y fr g1f in \<open>simp add: g1_def\<close>)
    qed (use "3.prems" Inr g1f in \<open>simp add: g1_def\<close>)
  qed (use "3.prems" in simp)
qed auto

text \<open>The bytes and the usages of chunks that are formatted and read without an error.\<close>

definition formatted :: "'c gen_args \<Rightarrow> 'c list \<Rightarrow> string list" where
  "formatted A cs = map (\<lambda>c. case format_chunk A c of Inr s \<Rightarrow> s | Inl e \<Rightarrow> []) cs"

definition usages :: "'c gen_args \<Rightarrow> 'c list \<Rightarrow> usage list" where
  "usages A cs = List.map_filter (\<lambda>c. case extract_usage A c of Inr u \<Rightarrow> u | Inl e \<Rightarrow> None) cs"

definition readable :: "'c gen_args \<Rightarrow> 'c list \<Rightarrow> bool" where
  "readable A cs \<longleftrightarrow> (\<forall>c \<in> set cs. (\<exists>s. format_chunk A c = Inr s) \<and> (\<exists>u. extract_usage A c = Inr u))"

lemma formatted_simps [simp]: "formatted A [] = []"
  "formatted A (c # cs) = (case format_chunk A c of Inr s \<Rightarrow> s | Inl e \<Rightarrow> []) # formatted A cs"
  by (simp_all add: formatted_def)

lemma usages_simps [simp]: "usages A [] = []"
  "usages A (c # cs) = (case extract_usage A c of Inr (Some u) \<Rightarrow> u # usages A cs | _ \<Rightarrow> usages A cs)"
  by (auto simp: usages_def split: sum.splits option.splits)

lemma readable_simps [simp]: "readable A []"
  "readable A (c # cs) \<longleftrightarrow>
     (\<exists>s. format_chunk A c = Inr s) \<and> (\<exists>u. extract_usage A c = Inr u) \<and> readable A cs"
  by (auto simp: readable_def)

text \<open>If the loop ends normally, every chunk was delivered and every usage counted.\<close>

lemma pump_delivered:
  assumes "pump A ps g = (g', None)"
  shows "\<exists>cs. ps = map Chunk cs \<and> readable A cs \<and> sent g' = sent g @ formatted A cs
    \<and> acc_usage g' = foldl merge_usage (acc_usage g) (usages A cs)
    \<and> (has_usage g' \<longleftrightarrow> has_usage g \<or> usages A cs \<noteq> [])"
  using assms
proof (induction A ps g rule: pump.induct)
  case (3 A c ps g)
  from "3.prems" obtain cu s g1 g2 where
    cu: "extract_usage A c = Inr cu" and s: "format_chunk A c = Inr s"
    and g1: "g1 = (case cu of None \<Rightarrow> g
        | Some u \<Rightarrow> g\<lparr>acc_usage := merge_usage (acc_usage g) u, has_usage := True\<rparr>)"
    and y: "yield_out s g1 = (g2, None)" and p: "pump A ps g2 = (g', None)"
    by (auto simp: Let_def split: sum.splits option.splits prod.splits)
  from "3.IH"[OF cu g1 s y[symmetric] refl p] obtain cs where cs: "ps = map Chunk cs" "readable A cs"
    "sent g' = sent g2 @ formatted A cs" "acc_usage g' = foldl merge_usage (acc_usage g2) (usages A cs)"
    "has_usage g' \<longleftrightarrow> has_usage g2 \<or> usages A cs \<noteq> []" by blast
  show ?case
    by (rule exI[of _ "c # cs"])
      (use cs cu s g1 yield_out_frame(3-5)[OF y] in \<open>auto split: option.splits\<close>)
qed auto

text \<open>A consumer that keeps asking gets everything.\<close>

lemma yield_out_patient [simp]:
  "consumer g = [] \<Longrightarrow> yield_out s g = (g\<lparr>sent := sent g @ [s]\<rparr>, None)"
  by (simp add: yield_out_def)

lemma pump_patient:
  assumes "consumer g = []" "readable A cs"
  shows "pump A (map Chunk cs @ ps) g = pump A ps
    (g\<lparr>sent := sent g @ formatted A cs, acc_usage := foldl merge_usage (acc_usage g) (usages A cs),
       has_usage := has_usage g \<or> usages A cs \<noteq> []\<rparr>)"
  using assms
proof (induction cs arbitrary: g)
  case (Cons c cs)
  from Cons.prems obtain s cu where "format_chunk A c = Inr s" "extract_usage A c = Inr cu" by auto
  with Cons show ?case by (cases cu) (simp_all add: Let_def)
qed simp

text \<open>How the guarded body can end, and with which calls made.\<close>

lemma try_body_cases:
  assumes "try_body A ps (start_gen rs) = (g, x)"
  obtains (raised) y where "x = Some y" "events g = []" "\<not> settled g"
  | (delivered) cs where "x = None" "settled g" "ps = map Chunk cs" "readable A cs"
      "sent g = formatted A cs @ [done_marker (fmt A)]"
      "events g = (if usages A cs \<noteq> [] then [On_Complete (foldl merge_usage zero_usage (usages A cs))]
        else if has_on_no_usage A then [On_No_Usage] else [])"
  | (interrupted) cs ev where "x = Some Cancelled_Error" "settled g" "ps = map Chunk cs" "readable A cs"
      "sent g = formatted A cs @ [done_marker (fmt A)]" "events g = [ev]" "cb A 0 ev = Interrupted"
      "ev = (if usages A cs \<noteq> [] then On_Complete (foldl merge_usage zero_usage (usages A cs))
        else On_No_Usage)" "usages A cs \<noteq> [] \<or> has_on_no_usage A"
proof -
  obtain g1 y where p: "pump A ps (start_gen rs) = (g1, y)" by fastforce
  from pump_frame[OF p] have f1: "events g1 = []" "\<not> settled g1" by (simp_all add: start_gen_def)
  show ?thesis
  proof (cases y)
    case (Some e)
    with assms p f1 show ?thesis by (intro raised) (auto simp: try_body_def)
  next
    case None
    obtain g2 z where q: "yield_out (done_marker (fmt A)) g1 = (g2, z)" by fastforce
    note fr = yield_out_frame(1-5)[OF q]
    from pump_delivered[OF p[unfolded None]] obtain cs where cs: "ps = map Chunk cs" "readable A cs"
      "sent g1 = formatted A cs" "acc_usage g1 = foldl merge_usage zero_usage (usages A cs)"
      "has_usage g1 \<longleftrightarrow> usages A cs \<noteq> []" by (auto simp: start_gen_def)
    show ?thesis
    proof (cases z)
      case (Some e)
      with assms p q None fr f1 show ?thesis by (intro raised) (auto simp: try_body_def)
    next
      case z: None
      with assms p q None have s: "settle_completed A g2 = (g, x)" by (simp add: try_body_def)
      show ?thesis
      proof (cases x)
        case None
        then show ?thesis
          using s fr cs f1 delivered[of cs]
          by (auto simp: settle_completed_def Let_def gen_simps split: if_splits prod.splits callback_result.splits)
      next
        case (Some e)
        then show ?thesis
          using s fr cs f1 interrupted[of cs]
          by (auto simp: settle_completed_def Let_def gen_simps split: if_splits prod.splits callback_result.splits)
      qed
    qed
  qed
qed

lemma handle_exception_cases:
  assumes "handle_exception A e g = (g', x)" "events g = []" "\<not> settled g"
  shows "(events g' = [On_Error e] \<and> settled g') \<or> (events g' = [] \<and> \<not> settled g' \<and> x \<noteq> None)"
proof -
  obtain g1 y where y: "yield_out (error_payload (fmt A)) g = (g1, y)" by fastforce
  obtain g2 z where z: "(if yield_done_on_error (fmt A) then yield_out (done_marker (fmt A)) g1
      else (g1, None)) = (g2, z)" by fastforce
  have f1: "events g1 = []" "\<not> settled g1" using yield_out_frame(1,2)[OF y] assms(2,3) by auto
  have f2: "events g2 = []" "\<not> settled g2"
    using z f1 yield_out_frame(1,2)[of "done_marker (fmt A)" g1 g2 z] by (auto split: if_splits)
  show ?thesis
  proof (cases "y = None \<and> z = None")
    case True
    then have "(case call A (On_Error e) (g2\<lparr>settled := True\<rparr>) of
        (g3, Interrupted) \<Rightarrow> (g3, Some Cancelled_Error) | (g3, _) \<Rightarrow> (g3, None)) = (g', x)"
      using assms(1) y z by (simp add: handle_exception_def)
    with f2 show ?thesis
      by (auto simp: gen_simps split: prod.splits callback_result.splits)
  next
    case False
    with assms(1) y z f1 f2 show ?thesis
      by (cases y; cases z) (auto simp: handle_exception_def split: if_splits)
  qed
qed

text \<open>The calls a generator makes: one settlement, or an interrupted settlement made again.\<close>

lemma generator_events:
  assumes "has_on_incomplete A" "streaming_generator A ps rs = (g, x)"
  shows "(\<exists>ev. events g = [ev]) \<or> (events g = [On_Incomplete, On_Incomplete] \<and> cb A 0 On_Incomplete = Interrupted)
    \<or> (events g = [] \<and> \<not> has_on_no_usage A \<and> x = None)"
proof -
  obtain g1 y where t: "try_body A ps (start_gen rs) = (g1, y)" by fastforce
  show ?thesis
    using t
  proof (cases rule: try_body_cases)
    case (raised z)
    show ?thesis
    proof (cases z)
      case (Exc e)
      obtain g2 w where h: "handle_exception A e g1 = (g2, w)" by fastforce
      have "finally_block A (g2, w) = (g, x)"
        using assms(2) t raised(1) Exc h by (simp add: streaming_generator_def)
      with handle_exception_cases[OF h raised(2,3)] assms(1) show ?thesis
        by (auto simp: finally_block_def gen_simps split: prod.splits callback_result.splits)
    next
      case Cancelled_Error
      then have "finally_block A (handle_cancelled A g1) = (g, x)"
        using assms(2) t raised(1) by (simp add: streaming_generator_def)
      with raised(2,3) assms(1) show ?thesis
        by (auto simp: finally_block_def handle_cancelled_def gen_simps split: prod.splits callback_result.splits)
    next
      case Generator_Exit
      then have "finally_block A (g1, Some Generator_Exit) = (g, x)"
        using assms(2) t raised(1) by (simp add: streaming_generator_def)
      with raised(2,3) assms(1) show ?thesis
        by (auto simp: finally_block_def gen_simps split: prod.splits callback_result.splits)
    qed
  next
    case (delivered cs)
    then have "finally_block A (g1, None) = (g, x)"
      using assms(2) t by (simp add: streaming_generator_def)
    with delivered show ?thesis by (auto simp: finally_block_def split: if_splits)
  next
    case (interrupted cs ev)
    then have "finally_block A (handle_cancelled A g1) = (g, x)"
      using assms(2) t by (simp add: streaming_generator_def)
    with interrupted show ?thesis by (auto simp: finally_block_def handle_cancelled_def split: if_splits)
  qed
qed

lemma generator_complete_only:
  assumes "streaming_generator A ps rs = (g, x)" "On_Complete u \<in> set (events g) \<or> On_No_Usage \<in> set (events g)"
  shows "\<exists>cs. ps = map Chunk cs \<and> readable A cs \<and> sent g = formatted A cs @ [done_marker (fmt A)] \<and>
    events g = [if usages A cs \<noteq> [] then On_Complete (foldl merge_usage zero_usage (usages A cs))
      else On_No_Usage]"
proof -
  obtain g1 y where t: "try_body A ps (start_gen rs) = (g1, y)" by fastforce
  show ?thesis
    using t
  proof (cases rule: try_body_cases)
    case (raised z)
    have False
    proof (cases z)
      case (Exc e)
      obtain g2 w where h: "handle_exception A e g1 = (g2, w)" by fastforce
      have "finally_block A (g2, w) = (g, x)"
        using assms(1) t raised(1) Exc h by (simp add: streaming_generator_def)
      with handle_exception_cases[OF h raised(2,3)] assms(2) show False
        by (auto simp: finally_block_def gen_simps split: prod.splits callback_result.splits if_splits)
    next
      case Cancelled_Error
      then have "finally_block A (handle_cancelled A g1) = (g, x)"
        using assms(1) t raised(1) by (simp add: streaming_generator_def)
      with raised(2,3) assms(2) show False
        by (auto simp: finally_block_def handle_cancelled_def gen_simps
            split: prod.splits callback_result.splits if_splits)
    next
      case Generator_Exit
      then have "finally_block A (g1, Some Generator_Exit) = (g, x)"
        using assms(1) t raised(1) by (simp add: streaming_generator_def)
      with raised(2,3) assms(2) show False
        by (auto simp: finally_block_def gen_simps split: prod.splits callback_result.splits if_splits)
    qed
    then show ?thesis ..
  next
    case (delivered cs)
    then have "g = g1" using assms(1) t by (simp add: streaming_generator_def finally_block_def)
    with delivered assms(2) show ?thesis by (intro exI[of _ cs]) (auto split: if_splits)
  next
    case (interrupted cs ev)
    then have "events g = events g1 \<and> sent g = sent g1"
      using assms(1) t by (auto simp: streaming_generator_def finally_block_def handle_cancelled_def)
    with interrupted show ?thesis by auto
  qed
qed

lemma generator_patient:
  assumes "readable A cs" "usages A cs \<noteq> [] \<or> has_on_no_usage A"
  shows "sent (fst (streaming_generator A (map Chunk cs) [])) = formatted A cs @ [done_marker (fmt A)]"
    and "events (fst (streaming_generator A (map Chunk cs) [])) =
      [if usages A cs \<noteq> [] then On_Complete (foldl merge_usage zero_usage (usages A cs)) else On_No_Usage]"
proof -
  have c: "consumer (start_gen []) = []" by (simp add: start_gen_def)
  note p = pump_patient[OF c assms(1), where ps = "[]", simplified]
  have "\<exists>g y. try_body A (map Chunk cs) (start_gen []) = (g, y) \<and> (y = None \<or> y = Some Cancelled_Error)
      \<and> settled g \<and> sent g = formatted A cs @ [done_marker (fmt A)] \<and>
      events g = [if usages A cs \<noteq> [] then On_Complete (foldl merge_usage zero_usage (usages A cs)) else On_No_Usage]"
    unfolding try_body_def p using assms(2)
    by (cases "usages A cs = []")
      (auto simp: start_gen_def settle_completed_def Let_def call_def split: callback_result.splits)
  then show "sent (fst (streaming_generator A (map Chunk cs) [])) = formatted A cs @ [done_marker (fmt A)]"
    "events (fst (streaming_generator A (map Chunk cs) [])) =
      [if usages A cs \<noteq> [] then On_Complete (foldl merge_usage zero_usage (usages A cs)) else On_No_Usage]"
    by (auto simp: streaming_generator_def finally_block_def handle_cancelled_def)
qed

section \<open>Lemmas on the attempts\<close>

text \<open>What a single attempt amounts to: the failure it reports, or \<^const>\<open>None\<close> when it is committed.\<close>

definition failure_of :: "(exn \<Rightarrow> bool \<times> string) \<Rightarrow> 'c attempt_run \<Rightarrow> stream_failure option" where
  "failure_of classify r = (case r of
       Build_Raises x \<Rightarrow> Some \<lparr>error_class = snd (classify x), failure_exception = Raised x\<rparr>
     | First_Raises x \<Rightarrow> Some \<lparr>error_class = snd (classify x), failure_exception = Raised x\<rparr>
     | First_Timeout \<Rightarrow> Some \<lparr>error_class = ''timeout'', failure_exception = Timeout_Error\<rparr>
     | _ \<Rightarrow> None)"

definition retryable_run :: "(exn \<Rightarrow> bool \<times> string) \<Rightarrow> 'c attempt_run \<Rightarrow> bool" where
  "retryable_run classify r = (case r of
       Build_Raises x \<Rightarrow> fst (classify x) | First_Raises x \<Rightarrow> fst (classify x) | _ \<Rightarrow> True)"

definition opened_run :: "'c attempt_run \<Rightarrow> bool" where
  "opened_run r = (case r of Build_Raises x \<Rightarrow> False | _ \<Rightarrow> True)"

definition stream_of :: "'c attempt_run \<Rightarrow> 'c pull list" where
  "stream_of r = (case r of Yields c rest \<Rightarrow> Chunk c # rest | _ \<Rightarrow> [])"

text \<open>The attempts that fail retryably, up to the first that does not.\<close>

definition skipped :: "('a \<Rightarrow> 'c attempt_run) \<Rightarrow> (exn \<Rightarrow> bool \<times> string) \<Rightarrow> 'a list \<Rightarrow> 'a list" where
  "skipped run classify as =
     takeWhile (\<lambda>a. failure_of classify (run a) \<noteq> None \<and> retryable_run classify (run a)) as"

lemma iterate_step:
  "iterate_streaming_attempts run classify report last_exn (a # as) = (case failure_of classify (run a) of
       None \<Rightarrow> \<lparr>failures = [], closed = [], result = Inr (a, stream_of (run a))\<rparr>
     | Some f \<Rightarrow> after_failure report a (opened_run (run a)) f (retryable_run classify (run a))
         (iterate_streaming_attempts run classify report (failure_exception f) as))"
  by (simp add: failure_of_def retryable_run_def opened_run_def stream_of_def stitched_def empty_async_iter_def
      split: attempt_run.splits prod.splits)

text \<open>With reports that return, the loop is a scan for the first attempt that is not skipped.\<close>

lemma iterate_scan:
  assumes "\<And>a f. report a f = None"
  shows "iterate_streaming_attempts run classify report last_exn as =
    (let sk = skipped run classify as; F = \<lambda>a. (a, the (failure_of classify (run a))) in
     case drop (length sk) as of
       [] \<Rightarrow> \<lparr>failures = map F sk, closed = filter (\<lambda>a. opened_run (run a)) sk,
              result = Inl (last (last_exn # map (failure_exception \<circ> snd \<circ> F) sk))\<rparr>
     | a # _ \<Rightarrow> (case failure_of classify (run a) of
         None \<Rightarrow> \<lparr>failures = map F sk, closed = filter (\<lambda>a. opened_run (run a)) sk,
                  result = Inr (a, stream_of (run a))\<rparr>
       | Some f \<Rightarrow> \<lparr>failures = map F sk @ [(a, f)],
                    closed = filter (\<lambda>a. opened_run (run a)) (sk @ [a]),
                    result = Inl (failure_exception f)\<rparr>))"
proof (induction as arbitrary: last_exn)
  case (Cons a as)
  show ?case
  proof (cases "failure_of classify (run a)")
    case None
    then show ?thesis by (simp add: iterate_step skipped_def Let_def del: iterate_streaming_attempts.simps)
  next
    case (Some f)
    then show ?thesis
      using Cons.IH[of "failure_exception f"]
      by (cases "retryable_run classify (run a)")
        (auto simp: iterate_step skipped_def Let_def after_failure_def assms record_failure_def stop_with_def
          comp_def simp del: iterate_streaming_attempts.simps split: list.splits option.splits)
  qed
qed (simp add: skipped_def)

section \<open>Properties\<close>

text \<open>C3. A stream settles exactly once: whatever the provider sends, raises or withholds, however
  the consumer behaves and whichever callbacks fail, the generator makes exactly one settlement
  call. The one exception is a cancellation that lands inside \<open>on_incomplete\<close> itself, which makes
  the generator start that callback a second time.\<close>

theorem stream_settles_once:
  assumes "has_on_incomplete A" "has_on_no_usage A"
  shows "(\<exists>ev. events (fst (streaming_generator A ps rs)) = [ev]) \<or>
    (events (fst (streaming_generator A ps rs)) = [On_Incomplete, On_Incomplete]
      \<and> cb A 0 On_Incomplete = Interrupted)"
  using generator_events[OF assms(1), of ps rs "fst (streaming_generator A ps rs)"
      "snd (streaming_generator A ps rs)"] assms(2) by auto

definition sample_args :: "(nat \<Rightarrow> event \<Rightarrow> callback_result) \<Rightarrow> char gen_args" where
  "sample_args f = \<lparr>format_chunk = (\<lambda>c. Inr [c]), extract_usage = (\<lambda>c. Inr None),
     fmt = openai_stream_format, has_on_no_usage = True, has_on_incomplete = True, cb = f\<rparr>"

theorem stream_settles_once_witness:
  "events (fst (streaming_generator (sample_args (\<lambda>_ _. Interrupted)) [Chunk CHR ''a''] [Cancel])) =
     [On_Incomplete, On_Incomplete]
   \<and> (\<exists>ev. events (fst (streaming_generator (sample_args (\<lambda>_ _. Raises)) [Chunk CHR ''a''] [Close])) = [ev])"
proof
  show "events (fst (streaming_generator (sample_args (\<lambda>_ _. Interrupted)) [Chunk CHR ''a''] [Cancel])) =
      [On_Incomplete, On_Incomplete]"
    by (simp add: streaming_generator_def try_body_def sample_args_def start_gen_def yield_out_def
        handle_cancelled_def finally_block_def call_def)
  show "\<exists>ev. events (fst (streaming_generator (sample_args (\<lambda>_ _. Raises)) [Chunk CHR ''a''] [Close])) = [ev]"
    using stream_settles_once[of "sample_args (\<lambda>_ _. Raises)" "[Chunk CHR ''a'']" "[Close]"]
    by (simp add: sample_args_def)
qed

text \<open>A stream is billed as complete only if it was delivered: when the generator reports
  completion, every chunk of the provider and the done marker had been sent, in order, and the
  usage it reports is, field by field, the last non-zero value any chunk carried.\<close>

theorem completed_stream_was_delivered:
  assumes "On_Complete u \<in> set (events (fst (streaming_generator A ps rs)))" "k < 5"
  shows "\<exists>cs. ps = map Chunk cs \<and> readable A cs
    \<and> sent (fst (streaming_generator A ps rs)) = formatted A cs @ [done_marker (fmt A)]
    \<and> usages A cs \<noteq> [] \<and> usage_counts u ! k = last_nonzero (map (\<lambda>v. usage_counts v ! k) (usages A cs))"
proof -
  obtain g x where g: "streaming_generator A ps rs = (g, x)" by fastforce
  with assms(1) have "On_Complete u \<in> set (events g)" by simp
  with generator_complete_only[OF g, of u] obtain cs where
    "ps = map Chunk cs" "readable A cs" "sent g = formatted A cs @ [done_marker (fmt A)]"
    "usages A cs \<noteq> []" "u = foldl merge_usage zero_usage (usages A cs)"
    by (auto split: if_splits)
  with g foldl_merge_counts[OF assms(2), of "usages A cs"] show ?thesis by auto
qed

definition usage_of :: "int \<Rightarrow> usage" where
  "usage_of n = Completion_Usage \<lparr>prompt_tokens = n, completion_tokens = 0, total_tokens = n,
     prompt_tokens_details = None\<rparr>"

definition metered_args :: "int gen_args" where
  "metered_args = \<lparr>format_chunk = (\<lambda>c. Inr ''x''), extract_usage = (\<lambda>c. Inr (Some (usage_of c))),
     fmt = openai_stream_format, has_on_no_usage = True, has_on_incomplete = True,
     cb = (\<lambda>_ _. Returns)\<rparr>"

theorem completed_stream_was_delivered_witness:
  "\<exists>u. On_Complete u \<in> set (events (fst (streaming_generator metered_args [Chunk 7, Chunk 0] [])))
     \<and> usage_counts u ! 0 = 7"
proof -
  have r: "readable metered_args [7, 0]" and u: "usages metered_args [7, 0] = [usage_of 7, usage_of 0]"
    by (simp_all add: metered_args_def)
  have "map Chunk [7, 0] = [Chunk 7, Chunk 0]" by simp
  with generator_patient(2)[OF r] u obtain v where
    v: "On_Complete v \<in> set (events (fst (streaming_generator metered_args [Chunk 7, Chunk 0] [])))"
    by simp
  have k: "(0::nat) < 5" by simp
  from completed_stream_was_delivered[OF v k] obtain cs where
    cs: "[Chunk 7, Chunk 0] = map Chunk cs"
      "usage_counts v ! 0 = last_nonzero (map (\<lambda>w. usage_counts w ! 0) (usages metered_args cs))"
    by (elim exE conjE) (rule that)
  then have "cs = [7, 0]" by (auto simp: Cons_eq_map_conv)
  with cs u v show ?thesis by (intro exI[of _ v]) (simp add: usage_counts_def usage_of_def last_nonzero_def)
qed

text \<open>An undisturbed stream is forwarded whole and billed by its merged usage; if no chunk
  carried usage, the missing-usage callback is called instead.\<close>

theorem undisturbed_stream_completes:
  assumes "readable A cs" "usages A cs \<noteq> [] \<or> has_on_no_usage A"
  shows "sent (fst (streaming_generator A (map Chunk cs) [])) = formatted A cs @ [done_marker (fmt A)]
    \<and> events (fst (streaming_generator A (map Chunk cs) [])) =
      [if usages A cs \<noteq> [] then On_Complete (foldl merge_usage zero_usage (usages A cs)) else On_No_Usage]"
  using generator_patient[OF assms] by blast

theorem undisturbed_stream_completes_witness:
  "events (fst (streaming_generator (sample_args (\<lambda>_ _. Returns)) (map Chunk ''hi'') [])) = [On_No_Usage]"
  using undisturbed_stream_completes[of "sample_args (\<lambda>_ _. Returns)" "''hi''"] by (simp add: sample_args_def)

text \<open>Provider failover: as long as the failure reports return, the attempts that fail
  retryably are reported in order and their opened streams closed, up to the first attempt that
  yields (which is committed, with its first chunk put back in front) or fails for good (whose
  exception is raised); when all are used up the last exception is raised, and \<open>No_Attempts\<close> if
  there were none.\<close>

theorem failover_scans_in_order:
  assumes "\<And>a f. report a f = None"
  shows "try_streams run classify report as =
    (let sk = skipped run classify as; F = \<lambda>a. (a, the (failure_of classify (run a))) in
     case drop (length sk) as of
       [] \<Rightarrow> \<lparr>failures = map F sk, closed = filter (\<lambda>a. opened_run (run a)) sk,
              result = Inl (last (No_Attempts # map (failure_exception \<circ> snd \<circ> F) sk))\<rparr>
     | a # _ \<Rightarrow> (case failure_of classify (run a) of
         None \<Rightarrow> \<lparr>failures = map F sk, closed = filter (\<lambda>a. opened_run (run a)) sk,
                  result = Inr (a, stream_of (run a))\<rparr>
       | Some f \<Rightarrow> \<lparr>failures = map F sk @ [(a, f)],
                    closed = filter (\<lambda>a. opened_run (run a)) (sk @ [a]),
                    result = Inl (failure_exception f)\<rparr>))"
  unfolding try_streams_def by (rule iterate_scan[OF assms])

theorem failover_scans_in_order_witness:
  "result (try_streams (\<lambda>a :: nat. if a = 0 then First_Timeout else Yields CHR ''x'' [])
      (\<lambda>_. (True, ''upstream'')) (\<lambda>_ _. None) [0, 1]) = Inr (1, [Chunk CHR ''x''])"
  using failover_scans_in_order[where report = "\<lambda>_ _. None" and classify = "\<lambda>_. (True, ''upstream'')"
      and run = "\<lambda>a :: nat. if a = 0 then First_Timeout else Yields CHR ''x'' []" and as = "[0, 1]"]
  by (simp add: Let_def skipped_def failure_of_def retryable_run_def stream_of_def)

end
