(* ===== verification/Providers.thy ===== *)
theory Providers
  imports Pricing
begin

text \<open>
  Provider instances (\<open>services/provider_kwargs.py\<close> and \<open>GatewayConfig.provider_instance_type\<close> /
  \<open>validate_provider_instances\<close> of \<open>core/config.py\<close>): how a request's model selector
  \<open>instance:model\<close> is resolved to an implementation and its credentials, and how the keys that
  prices are stored under are normalised.

  The \<open>any_llm\<close> package is a parameter: \<open>known\<close> is membership in its \<open>LLMProvider\<close> enumeration and
  \<open>any_split\<close> its \<open>split_model_provider\<close>. The Vertex AI client setup reads files and the process
  environment; it is the parameter \<open>vertex_setup\<close>.
\<close>

datatype provider_error = Value_Error string | Any_LLM_Error | Vertex_Error http_exception

type_synonym kwargs = "(string, json) dict"

record providers_config =
  providers :: "(string, kwargs) dict"
  known :: "string \<Rightarrow> bool"
  any_split :: "string \<Rightarrow> (provider_error, string \<times> string) result"
  vertex_setup :: "json option \<Rightarrow> json option \<Rightarrow> json option \<Rightarrow> (http_exception, kwargs) result"

definition provider_type_aliases :: "(string, string) dict" where
  "provider_type_aliases = [(''openai-compatible'', ''openai''), (''openai_compatible'', ''openai'')]"

definition alias_of :: "string \<Rightarrow> string" where
  "alias_of s = (case map_of provider_type_aliases s of None \<Rightarrow> s | Some t \<Rightarrow> t)"

text \<open>A declared \<open>provider_type\<close> counts when it is a non-empty string.\<close>

definition declared_type :: "kwargs \<Rightarrow> string option" where
  "declared_type entry = (case map_of entry ''provider_type'' of
       Some (JStr s) \<Rightarrow> if s = [] then None else Some s | _ \<Rightarrow> None)"

definition provider_instance_type :: "providers_config \<Rightarrow> string \<Rightarrow> string" where
  "provider_instance_type C inst = (case map_of (providers C) inst of
       None \<Rightarrow> inst
     | Some entry \<Rightarrow> (case declared_type entry of None \<Rightarrow> inst | Some s \<Rightarrow> alias_of s))"

fun is_jstr :: "json \<Rightarrow> bool" where
  "is_jstr (JStr s) = True"
| "is_jstr _ = False"

definition models_ok :: "kwargs \<Rightarrow> bool" where
  "models_ok entry = (case map_of entry ''models'' of
       None \<Rightarrow> True | Some JNull \<Rightarrow> True | Some (JArr xs) \<Rightarrow> list_all is_jstr xs | _ \<Rightarrow> False)"

definition check_instance :: "providers_config \<Rightarrow> string \<times> kwargs \<Rightarrow> string option" where
  "check_instance C p = (case p of (inst, entry) \<Rightarrow>
     if CHR '':'' \<in> set inst \<or> CHR ''/'' \<in> set inst
     then Some (''provider instance name '' @ quoted inst @ '' must not contain '' @ quoted '':'' @ '' or ''
       @ quoted ''/'' @ ''.'')
     else if (case declared_type entry of None \<Rightarrow> False | Some s \<Rightarrow> \<not> known C (alias_of s))
     then Some (''providers.'' @ inst @ ''.provider_type '' @ quoted (the (declared_type entry))
       @ '' is not a known provider implementation.'')
     else if \<not> models_ok entry
     then Some (''providers.'' @ inst @ ''.models must be a list of model id strings.'')
     else None)"

text \<open>The first offending instance raises.\<close>

definition validate_provider_instances :: "providers_config \<Rightarrow> string option" where
  "validate_provider_instances C = (case List.map_filter (check_instance C) (providers C) of
       [] \<Rightarrow> None | m # _ \<Rightarrow> Some m)"

section \<open>Selectors\<close>

text \<open>Split on the first colon or slash, whichever comes first; both sides must be non-empty.\<close>

fun split_delim :: "string \<Rightarrow> (string \<times> string) option" where
  "split_delim [] = None"
| "split_delim (c # s) =
     (if c = CHR '':'' \<or> c = CHR ''/'' then Some ([], s)
      else (case split_delim s of None \<Rightarrow> None | Some (a, b) \<Rightarrow> Some (c # a, b)))"

definition split_selector :: "string \<Rightarrow> (string \<times> string) option" where
  "split_selector s = (case split_delim s of
       None \<Rightarrow> None | Some (a, b) \<Rightarrow> if a = [] \<or> b = [] then None else Some (a, b))"

definition instance_meta_keys :: "string set" where
  "instance_meta_keys = {''provider_type'', ''models''}"

definition assign_from :: "string \<Rightarrow> kwargs \<Rightarrow> kwargs \<Rightarrow> kwargs" where
  "assign_from k src d = (case map_of src k of None \<Rightarrow> d | Some v \<Rightarrow> AList.update k v d)"

definition get_provider_kwargs :: "providers_config \<Rightarrow> string \<Rightarrow> string option \<Rightarrow> (http_exception, kwargs) result" where
  "get_provider_kwargs C provider inst =
     (case map_of (providers C) (case inst of None \<Rightarrow> provider | Some i \<Rightarrow> i) of
        None \<Rightarrow> Inr []
      | Some raw \<Rightarrow>
          (let pc = dict_remove instance_meta_keys raw in
           if provider = ''vertexai''
           then rbind (vertex_setup C (map_of pc ''credentials'') (map_of pc ''project'') (map_of pc ''location''))
                  (\<lambda>kw. Inr (assign_from ''client_args'' pc (dict_merge [] kw)))
           else Inr (assign_from ''client_args'' pc (dict_remove {''client_args''} pc))))"

record resolved_provider =
  instance_name :: string
  provider_impl :: string
  model_name :: string
  call_kwargs :: kwargs

definition dispatch_model :: "resolved_provider \<Rightarrow> string" where
  "dispatch_model r = provider_impl r @ '':'' @ model_name r"

definition with_kwargs :: "providers_config \<Rightarrow> string \<Rightarrow> string \<Rightarrow> string
    \<Rightarrow> (provider_error, resolved_provider) result" where
  "with_kwargs C inst provider m = (case get_provider_kwargs C provider (Some inst) of
       Inl e \<Rightarrow> Inl (Vertex_Error e)
     | Inr kw \<Rightarrow> Inr \<lparr>instance_name = inst, provider_impl = provider, model_name = m, call_kwargs = kw\<rparr>)"

definition configured_split :: "providers_config \<Rightarrow> string \<Rightarrow> (string \<times> string) option" where
  "configured_split C s = (case split_selector s of
       None \<Rightarrow> None
     | Some (a, b) \<Rightarrow> if map_of (providers C) a \<noteq> None then Some (a, b) else None)"

definition resolve_provider_selector :: "providers_config \<Rightarrow> string \<Rightarrow> (provider_error, resolved_provider) result" where
  "resolve_provider_selector C s = (case configured_split C s of
       Some (inst, m) \<Rightarrow>
         (if known C (provider_instance_type C inst)
          then with_kwargs C inst (provider_instance_type C inst) m
          else Inl (Value_Error (provider_instance_type C inst)))
     | None \<Rightarrow> rbind (any_split C s) (\<lambda>(p, m). with_kwargs C p p m))"

text \<open>Only a \<open>ValueError\<close> of the split is caught; any other exception propagates.\<close>

definition normalize_pricing_key :: "providers_config \<Rightarrow> string \<Rightarrow> (provider_error, string) result" where
  "normalize_pricing_key C raw = (case configured_split C raw of
       Some (inst, m) \<Rightarrow> Inr (inst @ '':'' @ m)
     | None \<Rightarrow> (case any_split C raw of
         Inr (p, m) \<Rightarrow> Inr (p @ '':'' @ m)
       | Inl (Value_Error e) \<Rightarrow> Inr raw
       | Inl e \<Rightarrow> Inl e))"

section \<open>Lemmas\<close>

definition is_delim :: "char \<Rightarrow> bool" where
  "is_delim c \<longleftrightarrow> c = CHR '':'' \<or> c = CHR ''/''"

lemma split_delim_append:
  "is_delim c \<Longrightarrow> CHR '':'' \<notin> set a \<Longrightarrow> CHR ''/'' \<notin> set a \<Longrightarrow> split_delim (a @ c # b) = Some (a, b)"
  by (induction a) (auto simp: is_delim_def)

lemma split_delim_dest:
  "split_delim s = Some (a, b) \<Longrightarrow>
    \<exists>c. is_delim c \<and> s = a @ c # b \<and> CHR '':'' \<notin> set a \<and> CHR ''/'' \<notin> set a"
proof (induction s arbitrary: a)
  case (Cons x s)
  show ?case
  proof (cases "is_delim x")
    case True
    with Cons.prems show ?thesis by (auto simp: is_delim_def)
  next
    case False
    with Cons.prems obtain a' where a: "a = x # a'" "split_delim s = Some (a', b)"
      by (auto simp: is_delim_def split: option.splits)
    with Cons.IH[OF a(2)] False show ?thesis by (auto simp: is_delim_def)
  qed
qed simp

lemma split_selector_Some:
  "split_selector s = Some (a, b) \<longleftrightarrow> a \<noteq> [] \<and> b \<noteq> [] \<and>
    (\<exists>c. is_delim c \<and> s = a @ c # b \<and> CHR '':'' \<notin> set a \<and> CHR ''/'' \<notin> set a)"
proof -
  have "split_selector s = Some (a, b) \<longleftrightarrow> a \<noteq> [] \<and> b \<noteq> [] \<and> split_delim s = Some (a, b)"
    by (auto simp: split_selector_def split: option.splits if_splits)
  then show ?thesis using split_delim_dest[of s a b] split_delim_append[of _ a b] by blast
qed

lemma validate_checks:
  assumes "validate_provider_instances C = None" "(inst, entry) \<in> set (providers C)"
  shows "check_instance C (inst, entry) = None"
  using assms by (auto simp: validate_provider_instances_def List.map_filter_def filter_empty_conv split: list.splits)

lemma validated_type_known:
  assumes "validate_provider_instances C = None" "map_of (providers C) inst = Some entry"
    and "declared_type entry = Some s"
  shows "known C (provider_instance_type C inst)"
  using validate_checks[OF assms(1) map_of_SomeD[OF assms(2)]] assms(2,3)
  by (auto simp: check_instance_def provider_instance_type_def split: if_splits)

lemma validated_name:
  assumes "validate_provider_instances C = None" "map_of (providers C) inst = Some entry"
  shows "CHR '':'' \<notin> set inst" "CHR ''/'' \<notin> set inst"
  using validate_checks[OF assms(1) map_of_SomeD[OF assms(2)]]
  by (auto simp: check_instance_def split: if_splits)

lemma configured_split_validated:
  assumes "validate_provider_instances C = None" "map_of (providers C) inst = Some entry"
    and "inst \<noteq> []" "m \<noteq> []" "c = CHR '':'' \<or> c = CHR ''/''"
  shows "configured_split C (inst @ c # m) = Some (inst, m)"
proof -
  have "split_selector (inst @ c # m) = Some (inst, m)"
    using validated_name[OF assms(1,2)] assms(3-5) unfolding split_selector_Some is_delim_def by blast
  then show ?thesis using assms(2) by (simp add: configured_split_def)
qed

lemma configured_split_instance:
  "configured_split C s = Some (inst, m) \<Longrightarrow> map_of (providers C) inst \<noteq> None \<and> inst \<noteq> [] \<and> m \<noteq> []"
  by (auto simp: configured_split_def split_selector_Some split: option.splits if_splits)

lemma credentials_stripped:
  assumes "get_provider_kwargs C p i = Inr kw" "p \<noteq> ''vertexai''" "k \<in> instance_meta_keys"
  shows "map_of kw k = None"
  using assms
  by (auto simp: get_provider_kwargs_def Let_def assign_from_def instance_meta_keys_def split: option.splits)

section \<open>Properties\<close>

text \<open>Prices are found under the key they were stored under: whenever a selector resolves to an
  instance and a model, \<open>normalize_pricing_key\<close> of the same selector is the key that the pricing
  lookup of the resolved pair uses, so a price set through the pricing routes applies to requests
  that name the model the same way.\<close>

theorem pricing_key_matches_lookup:
  assumes "resolve_provider_selector C s = Inr r" "instance_name r \<noteq> []"
  shows "normalize_pricing_key C s = Inr (pricing_key (Some (instance_name r)) (model_name r))"
proof -
  have k: "with_kwargs C i p m = Inr r \<Longrightarrow> instance_name r = i \<and> model_name r = m" for i p m
    by (auto simp: with_kwargs_def split: sum.splits)
  show ?thesis
  proof (cases "configured_split C s")
    case None
    with assms(1) obtain p m where "any_split C s = Inr (p, m)" "with_kwargs C p p m = Inr r"
      by (auto simp: resolve_provider_selector_def rbind_eq_Inr)
    with None k[of p p m] assms(2) show ?thesis
      by (auto simp: normalize_pricing_key_def pricing_key_def given_def)
  next
    case (Some im)
    with assms(1) k show ?thesis
      by (cases im) (use assms(2) in \<open>auto simp: resolve_provider_selector_def normalize_pricing_key_def
        pricing_key_def given_def split: if_splits\<close>)
  qed
qed

definition sample_providers :: providers_config where
  "sample_providers = \<lparr>providers = [(''local'', [(''provider_type'', JStr ''openai-compatible''),
       (''api_key'', JStr ''k'')])],
     known = (\<lambda>p. p = ''openai''), any_split = (\<lambda>s. Inl Any_LLM_Error), vertex_setup = (\<lambda>_ _ _. Inr [])\<rparr>"

lemma sample_local:
  "resolve_provider_selector sample_providers ''local/llama'' = Inr \<lparr>instance_name = ''local'',
     provider_impl = ''openai'', model_name = ''llama'', call_kwargs = [(''api_key'', JStr ''k'')]\<rparr>"
  by (simp add: resolve_provider_selector_def configured_split_def split_selector_def sample_providers_def
      with_kwargs_def get_provider_kwargs_def provider_instance_type_def declared_type_def alias_of_def
      provider_type_aliases_def dict_remove_def instance_meta_keys_def assign_from_def Let_def)

theorem pricing_key_matches_lookup_witness:
  "normalize_pricing_key sample_providers ''local/llama'' = Inr ''local:llama''"
  using pricing_key_matches_lookup[OF sample_local] by (simp add: pricing_key_def given_def)

text \<open>Every instance that passes start-up validation is reachable: with either delimiter its
  selector resolves to that instance and to the declared implementation, whatever the model is
  called, and the credentials handed to the provider never contain the gateway's own metadata
  keys.\<close>

theorem validated_instance_reachable:
  assumes "validate_provider_instances C = None" "map_of (providers C) inst = Some entry"
    and "declared_type entry = Some s" "alias_of s \<noteq> ''vertexai''"
    and "inst \<noteq> []" "m \<noteq> []" "c = CHR '':'' \<or> c = CHR ''/''"
  shows "\<exists>kw. resolve_provider_selector C (inst @ c # m) = Inr \<lparr>instance_name = inst,
      provider_impl = alias_of s, model_name = m, call_kwargs = kw\<rparr>
    \<and> (\<forall>k \<in> instance_meta_keys. map_of kw k = None)"
proof -
  have t: "provider_instance_type C inst = alias_of s"
    using assms(2,3) by (simp add: provider_instance_type_def)
  have k: "known C (alias_of s)" using validated_type_known[OF assms(1-3)] t by simp
  obtain kw where kw: "get_provider_kwargs C (alias_of s) (Some inst) = Inr kw"
    using assms(2,4) by (simp add: get_provider_kwargs_def Let_def)
  have "resolve_provider_selector C (inst @ c # m) = Inr \<lparr>instance_name = inst,
      provider_impl = alias_of s, model_name = m, call_kwargs = kw\<rparr>"
    using configured_split_validated[OF assms(1,2,5-7)] t k kw
    by (simp add: resolve_provider_selector_def with_kwargs_def)
  with credentials_stripped[OF kw assms(4)] show ?thesis by blast
qed

theorem validated_instance_reachable_witness:
  "\<exists>kw. resolve_provider_selector sample_providers ''local:a/b'' = Inr \<lparr>instance_name = ''local'',
      provider_impl = ''openai'', model_name = ''a/b'', call_kwargs = kw\<rparr>"
proof -
  have "validate_provider_instances sample_providers = None"
    by (simp add: validate_provider_instances_def sample_providers_def List.map_filter_def check_instance_def
        declared_type_def alias_of_def provider_type_aliases_def models_ok_def)
  from validated_instance_reachable[OF this, of "''local''" _ "''openai-compatible''" "''a/b''" "CHR '':''"]
  show ?thesis
    by (auto simp: sample_providers_def declared_type_def alias_of_def provider_type_aliases_def)
qed

end
