(* ===== verification/Settlement.thy ===== *)
theory Settlement
  imports Budget_Spec Log_Writer Streaming Providers
begin

text \<open>
  Settling a request (\<open>api/routes/_pipeline.py\<close>): usage logging and its cost, the refund helpers,
  the bundle of streaming callbacks of \<open>build_streaming_response\<close>, and the two standalone runners
  \<open>run_single_attempt_stream\<close> and \<open>run_standalone_non_stream\<close>.

  The server state is the store, the log writer's queue and the usage reports scheduled for the
  platform. An operation that settles says whether it returned or raised \<open>SQLAlchemyError\<close>. The
  wire format is an \<open>adapter\<close>; the provider call, the tool loops and the stream are given by their
  outcomes.
\<close>

datatype error_kind = Invalid_Request | Api | Permission

text \<open>An upstream exception, with the attributes the gateway probes.\<close>

record upstream_exn =
  exn_message :: string
  exn_is_timeout :: bool
  exn_status :: "json option"
  exn_response_status :: "json option"

section \<open>Classifying provider errors\<close>

definition present :: "json option \<Rightarrow> bool" where
  "present v \<longleftrightarrow> v \<noteq> None \<and> v \<noteq> Some JNull"

text \<open>\<open>isinstance(v, int)\<close>: a \<open>bool\<close> is an \<open>int\<close>.\<close>

fun as_int :: "json option \<Rightarrow> int option" where
  "as_int (Some (JInt i)) = Some i"
| "as_int (Some (JBool b)) = Some (if b then 1 else 0)"
| "as_int _ = None"

definition upstream_status_code :: "upstream_exn \<Rightarrow> int option" where
  "upstream_status_code x = as_int (if present (exn_status x) then exn_status x else exn_response_status x)"

definition classify_provider_error :: "upstream_exn \<Rightarrow> (nat \<times> string) option" where
  "classify_provider_error x =
     (if exn_is_timeout x then Some (504, ''LLM provider timeout'')
      else (case upstream_status_code x of
         None \<Rightarrow> None
       | Some c \<Rightarrow>
           if c = 400 \<or> c = 422 then Some (400, ''The provider rejected the request as invalid (check the model name and parameters)'')
           else if c = 404 then Some (404, ''The requested model was not found on the provider'')
           else if c = 401 \<or> c = 403 then Some (502, ''The provider rejected the gateway'' @ [CHR 0x27] @ ''s credentials'')
           else if c = 429 then Some (429, ''The provider rate-limited this request'')
           else None))"

section \<open>The pipeline's parameters\<close>

record adapter =
  endpoint :: string
  mk_error :: "nat \<Rightarrow> string \<Rightarrow> error_kind \<Rightarrow> http_exception"
  provider_error :: "upstream_exn \<Rightarrow> http_exception"
  log_success_without_usage :: bool

record pipeline =
  env :: gateway_env
  pcfg :: providers_config
  budget_strategy :: "string option"
  require_pricing :: bool
  reject_user_mismatch :: bool
  default_output_tokens :: int
  missing_usage_policy :: string
  vision_model :: "string option"
  log_put :: "usage_log \<Rightarrow> server \<Rightarrow> server"

text \<open>\<open>RequestContext\<close>: what the settlement reads of it.\<close>

record request_context =
  has_db :: bool
  hybrid_mode :: bool
  req_api_key :: "string option"
  req_user :: "string option"
  reservation :: "reservation_handle option"

datatype pipe_error = Pipe_Http http_exception | Pipe_Store | Pipe_Crash

definition in_db :: "(db \<Rightarrow> db \<times> 'a) \<Rightarrow> server \<Rightarrow> server \<times> 'a" where
  "in_db f s = (case f (sdb s) of (d, r) \<Rightarrow> (s\<lparr>sdb := d\<rparr>, r))"

section \<open>Usage logging\<close>

definition usage_cost :: "model_pricing \<Rightarrow> usage \<Rightarrow> money" where
  "usage_cost p u =
     real_of_int (prompt_tokens (base_usage u)) / 1000000 * input_price_per_million p
     + real_of_int (completion_tokens (base_usage u)) / 1000000 * output_price_per_million p"

record log_call =
  lc_api_key :: "string option"
  lc_user :: "string option"
  lc_model :: string
  lc_provider :: "string option"
  lc_endpoint :: string

definition log_usage :: "pipeline \<Rightarrow> log_call \<Rightarrow> usage option \<Rightarrow> usage option \<Rightarrow> string option \<Rightarrow> money option
    \<Rightarrow> instant \<Rightarrow> server \<Rightarrow> server \<times> money option" where
  "log_usage P c override response_usage err cost_override now s =
     (let u = (case override of Some u \<Rightarrow> Some u | None \<Rightarrow> response_usage);
          cost = (case u of None \<Rightarrow> None
                  | Some u \<Rightarrow> map_option (\<lambda>p. usage_cost p u)
                      (find_price (env P) (sdb s) (lc_provider c) (lc_model c) now));
          final = (case cost_override of Some x \<Rightarrow> Some x | None \<Rightarrow> cost);
          row = \<lparr>log_api_key_id = lc_api_key c, log_user_id = lc_user c, log_timestamp = now,
                 log_model = lc_model c, log_provider = lc_provider c, log_endpoint = lc_endpoint c,
                 log_status = (if err = None then ''success'' else ''error''), log_error = err,
                 log_tokens = map_option usage_counts u, log_cost = final\<rparr>
      in (log_put P row s, final))"

definition log_call_of :: "adapter \<Rightarrow> request_context \<Rightarrow> string option \<Rightarrow> string \<Rightarrow> log_call" where
  "log_call_of A ctx provider model = \<lparr>lc_api_key = req_api_key ctx, lc_user = req_user ctx,
     lc_model = model, lc_provider = provider, lc_endpoint = endpoint A\<rparr>"

section \<open>Refund helpers\<close>

definition release_reservation :: "request_context \<Rightarrow> server \<Rightarrow> server \<times> bool" where
  "release_reservation ctx s = (case reservation ctx of
       Some h \<Rightarrow> if has_db ctx then in_db (\<lambda>d. refund_reservation d h) s else (s, True)
     | None \<Rightarrow> (s, True))"

definition log_failure_and_refund :: "pipeline \<Rightarrow> adapter \<Rightarrow> request_context \<Rightarrow> string option \<Rightarrow> string
    \<Rightarrow> string \<Rightarrow> instant \<Rightarrow> server \<Rightarrow> server \<times> bool" where
  "log_failure_and_refund P A ctx provider model err now s =
     (if \<not> has_db ctx then (s, True)
      else release_reservation ctx
        (fst (log_usage P (log_call_of A ctx provider model) None None (Some err) None now s)))"

section \<open>Streaming callbacks\<close>

text \<open>The closure variables of \<open>build_streaming_response\<close>.\<close>

record stream_settlement =
  ss_ctx :: request_context
  ss_provider :: "string option"
  ss_model :: string
  ss_has_writer :: bool
  ss_correlation :: "string option"
  ss_now :: instant

definition raised_of :: "bool \<Rightarrow> callback_result" where
  "raised_of ok = (if ok then Returns else Raises)"

definition settle_with :: "request_context \<Rightarrow> (db \<Rightarrow> reservation_handle \<Rightarrow> db \<times> bool) \<Rightarrow> server
    \<Rightarrow> server \<times> callback_result" where
  "settle_with ctx f s = (case reservation ctx of
       None \<Rightarrow> (s, Returns)
     | Some h \<Rightarrow> (case in_db (\<lambda>d. f d h) s of (s', ok) \<Rightarrow> (s', raised_of ok)))"

definition report :: "string \<Rightarrow> string \<Rightarrow> server \<Rightarrow> server" where
  "report cid oc s = s\<lparr>reports := reports s @ [(cid, oc)]\<rparr>"

definition cb_complete :: "pipeline \<Rightarrow> adapter \<Rightarrow> stream_settlement \<Rightarrow> usage \<Rightarrow> server \<Rightarrow> server \<times> callback_result" where
  "cb_complete P A T u s = (case ss_correlation T of
       Some cid \<Rightarrow> (report cid ''success'' s, Returns)
     | None \<Rightarrow>
         if \<not> has_db (ss_ctx T) \<or> \<not> ss_has_writer T then (s, Returns)
         else (case log_usage P (log_call_of A (ss_ctx T) (ss_provider T) (ss_model T)) (Some u) None None None
                  (ss_now T) s of
                 (s', cost) \<Rightarrow> settle_with (ss_ctx T)
                   (\<lambda>d h. reconcile_reservation d h (case cost of None \<Rightarrow> 0 | Some c \<Rightarrow> c)) s'))"

definition cb_no_usage :: "pipeline \<Rightarrow> adapter \<Rightarrow> stream_settlement \<Rightarrow> server \<Rightarrow> server \<times> callback_result" where
  "cb_no_usage P A T s = (case reservation (ss_ctx T) of
       None \<Rightarrow> (s, Returns)
     | Some h \<Rightarrow>
         if \<not> has_db (ss_ctx T) \<or> \<not> ss_has_writer T then (s, Returns)
         else if missing_usage_policy P = ''allow_free''
         then settle_with (ss_ctx T) refund_reservation
           (fst (log_usage P (log_call_of A (ss_ctx T) (ss_provider T) (ss_model T)) None None None None (ss_now T) s))
         else settle_with (ss_ctx T) (\<lambda>d h. reconcile_reservation d h (estimate h))
           (fst (log_usage P (log_call_of A (ss_ctx T) (ss_provider T) (ss_model T)) None None
             (if missing_usage_policy P = ''fail'' then Some ''stream completed without usage data'' else None)
             (Some (estimate h)) (ss_now T) s)))"

definition cb_error :: "pipeline \<Rightarrow> adapter \<Rightarrow> stream_settlement \<Rightarrow> string \<Rightarrow> server \<Rightarrow> server \<times> callback_result" where
  "cb_error P A T err s = (case ss_correlation T of
       Some cid \<Rightarrow> (report cid ''error'' s, Returns)
     | None \<Rightarrow>
         if \<not> has_db (ss_ctx T) \<or> \<not> ss_has_writer T then (s, Returns)
         else settle_with (ss_ctx T) refund_reservation
           (fst (log_usage P (log_call_of A (ss_ctx T) (ss_provider T) (ss_model T)) None None (Some err) None
             (ss_now T) s)))"

definition cb_incomplete :: "stream_settlement \<Rightarrow> server \<Rightarrow> server \<times> callback_result" where
  "cb_incomplete T s =
     (if \<not> has_db (ss_ctx T) then (s, Returns) else settle_with (ss_ctx T) refund_reservation s)"

fun on_event :: "pipeline \<Rightarrow> adapter \<Rightarrow> stream_settlement \<Rightarrow> event \<Rightarrow> server \<Rightarrow> server \<times> callback_result" where
  "on_event P A T (On_Complete u) s = cb_complete P A T u s"
| "on_event P A T On_No_Usage s = cb_no_usage P A T s"
| "on_event P A T (On_Error e) s = cb_error P A T e s"
| "on_event P A T On_Incomplete s = cb_incomplete T s"

text \<open>
  The response of \<open>build_streaming_response\<close> run to its end in server state \<open>s\<close>: the generator
  with these callbacks, each of which takes effect on the server. The format's chunk functions
  come with \<open>G\<close>.
\<close>

definition stream_args :: "pipeline \<Rightarrow> adapter \<Rightarrow> stream_settlement \<Rightarrow> server \<Rightarrow> 'c gen_args \<Rightarrow> 'c gen_args" where
  "stream_args P A T s G = G\<lparr>has_on_no_usage := True, has_on_incomplete := True,
     cb := (\<lambda>_ ev. snd (on_event P A T ev s))\<rparr>"

definition run_response :: "pipeline \<Rightarrow> adapter \<Rightarrow> stream_settlement \<Rightarrow> 'c gen_args \<Rightarrow> 'c pull list \<Rightarrow> resume list
    \<Rightarrow> server \<Rightarrow> server" where
  "run_response P A T G ps rs s =
     foldl (\<lambda>s ev. fst (on_event P A T ev s)) s
       (events (fst (streaming_generator (stream_args P A T s G) ps rs)))"

section \<open>The standalone runners\<close>

datatype 'c opened =
    Opened "'c pull list"
  | Open_Http http_exception
  | Open_Sandbox_Down
  | Open_Web_Search_Down
  | Open_Failed upstream_exn

definition sandbox_unreachable_detail :: string where
  "sandbox_unreachable_detail = ''code_execution sandbox unreachable '' @ [CHR 0xE2, CHR 0x80, CHR 0x94]
     @ '' check OTARI_SANDBOX_URL''"

definition web_search_unreachable_detail :: string where
  "web_search_unreachable_detail = ''web_search backend unreachable '' @ [CHR 0xE2, CHR 0x80, CHR 0x94]
     @ '' check OTARI_WEB_SEARCH_URL''"

text \<open>Raise an error once the refund before it has returned.\<close>

definition raise_after :: "server \<times> bool \<Rightarrow> http_exception \<Rightarrow> server \<times> (pipe_error, 'a) result" where
  "raise_after sr e = (case sr of (s, ok) \<Rightarrow> (s, Inl (if ok then Pipe_Http e else Pipe_Store)))"

definition run_single_attempt_stream :: "pipeline \<Rightarrow> adapter \<Rightarrow> request_context \<Rightarrow> string option \<Rightarrow> string
    \<Rightarrow> string option \<Rightarrow> instant \<Rightarrow> 'c opened \<Rightarrow> server
    \<Rightarrow> server \<times> (pipe_error, stream_settlement \<times> 'c pull list) result" where
  "run_single_attempt_stream P A ctx provider model cid now op s = (case op of
       Open_Http e \<Rightarrow> raise_after (release_reservation ctx s) e
     | Open_Sandbox_Down \<Rightarrow> raise_after (release_reservation ctx s) (mk_error A 502 sandbox_unreachable_detail Api)
     | Open_Web_Search_Down \<Rightarrow>
         raise_after (release_reservation ctx s) (mk_error A 502 web_search_unreachable_detail Api)
     | Open_Failed x \<Rightarrow>
         raise_after (log_failure_and_refund P A ctx provider model (exn_message x) now s) (provider_error A x)
     | Opened ps \<Rightarrow> (s, Inr (\<lparr>ss_ctx = ctx, ss_provider = provider, ss_model = model, ss_has_writer = True,
         ss_correlation = cid, ss_now = now\<rparr>, ps)))"

datatype 'r dispatched =
    Replied 'r "usage option"
  | Dispatch_Http http_exception
  | Tool_Cap_Hit string
  | Sandbox_Down
  | Web_Search_Down
  | Call_Failed upstream_exn

text \<open>\<open>SQLAlchemyError\<close> as the provider-error mapping sees it: no status, no timeout.\<close>

definition store_exn :: upstream_exn where
  "store_exn = \<lparr>exn_message = ''store error'', exn_is_timeout = False, exn_status = None, exn_response_status = None\<rparr>"

definition settle_reply :: "pipeline \<Rightarrow> adapter \<Rightarrow> request_context \<Rightarrow> string option \<Rightarrow> string \<Rightarrow> usage option
    \<Rightarrow> instant \<Rightarrow> server \<Rightarrow> server \<times> bool" where
  "settle_reply P A ctx provider model u now s =
     (if \<not> has_db ctx then (s, True)
      else (case (if u \<noteq> None \<or> log_success_without_usage A
                  then log_usage P (log_call_of A ctx provider model) u None None None now s
                  else (s, None)) of
              (s', cost) \<Rightarrow> (case reservation ctx of
                  None \<Rightarrow> (s', True)
                | Some h \<Rightarrow>
                    in_db (\<lambda>d. reconcile_reservation d h (case cost of None \<Rightarrow> 0 | Some c \<Rightarrow> c)) s')))"

definition run_standalone_non_stream :: "pipeline \<Rightarrow> adapter \<Rightarrow> request_context \<Rightarrow> string option \<Rightarrow> string
    \<Rightarrow> instant \<Rightarrow> 'r dispatched \<Rightarrow> server \<Rightarrow> server \<times> (pipe_error, 'r) result" where
  "run_standalone_non_stream P A ctx provider model now out s = (case out of
       Replied r u \<Rightarrow> (case settle_reply P A ctx provider model u now s of
           (s', True) \<Rightarrow> (s', Inr r)
         | (s', False) \<Rightarrow> raise_after
             (log_failure_and_refund P A ctx provider model (exn_message store_exn) now s') (provider_error A store_exn))
     | Dispatch_Http e \<Rightarrow> raise_after (release_reservation ctx s) e
     | Tool_Cap_Hit m \<Rightarrow>
         raise_after (log_failure_and_refund P A ctx provider model m now s) (mk_error A 422 m Invalid_Request)
     | Sandbox_Down \<Rightarrow> raise_after (release_reservation ctx s) (mk_error A 502 sandbox_unreachable_detail Api)
     | Web_Search_Down \<Rightarrow> raise_after (release_reservation ctx s) (mk_error A 502 web_search_unreachable_detail Api)
     | Call_Failed x \<Rightarrow>
         raise_after (log_failure_and_refund P A ctx provider model (exn_message x) now s) (provider_error A x))"

end
