(* ===== verification/Platform.thy ===== *)
theory Platform
  imports Settlement
begin

text \<open>
  Hybrid mode (\<open>api/routes/_platform.py\<close> and the platform runner of \<open>_pipeline.py\<close>): the caller's
  token, the routing plan the platform resolves, the walk over its attempts with lock-in, what is
  reported back about them, and the bounded retry of one report.

  The provider call of the \<open>i\<close>-th attempt, the answers of the platform and any-llm's provider names are
  parameters.
\<close>

section \<open>Routing plan\<close>

record resolved_attempt =
  attempt_id :: string
  position :: int
  att_provider :: string
  att_model :: string
  att_api_base :: "string option"
  att_api_key :: string
  managed :: bool

record resolved_route =
  request_id :: string
  fallback_enabled :: bool
  attempts :: "resolved_attempt list"

text \<open>\<open>str(v)\<close> and \<open>int(v)\<close> of decoded JSON; \<open>render\<close> is Python's rendering of floats and containers,
  \<open>parse\<close> its reading of decimal text.\<close>

record py_conv =
  render :: "json \<Rightarrow> string"
  parse :: "string \<Rightarrow> int option"

fun py_str :: "py_conv \<Rightarrow> json \<Rightarrow> string" where
  "py_str C (JStr s) = s"
| "py_str C (JInt i) = str_int i"
| "py_str C (JBool b) = (if b then ''True'' else ''False'')"
| "py_str C JNull = ''None''"
| "py_str C v = render C v"

fun py_int :: "py_conv \<Rightarrow> json \<Rightarrow> int option" where
  "py_int C (JInt i) = Some i"
| "py_int C (JBool b) = Some (if b then 1 else 0)"
| "py_int C (JFloat q) = Some (if q < 0 then \<lceil>q\<rceil> else \<lfloor>q\<rfloor>)"
| "py_int C (JStr s) = parse C s"
| "py_int C _ = None"

text \<open>An optional string field of a pydantic model.\<close>

fun opt_str_field :: "json option \<Rightarrow> string option option" where
  "opt_str_field None = Some None"
| "opt_str_field (Some JNull) = Some None"
| "opt_str_field (Some (JStr s)) = Some (Some s)"
| "opt_str_field _ = None"

definition bool_of :: "json option \<Rightarrow> bool" where
  "bool_of v = truthy_opt v"

text \<open>One attempt; \<^const>\<open>None\<close> is a \<open>KeyError\<close>, \<open>ValueError\<close> or validation error.\<close>

definition parse_attempt :: "py_conv \<Rightarrow> json \<Rightarrow> resolved_attempt option" where
  "parse_attempt C att =
     (case (jget ''attempt_id'' att, jget ''position'' att, jget ''provider'' att, jget ''model'' att,
        opt_str_field (jget ''api_base'' att), jget ''api_key'' att) of
       (Some i, Some p, Some pr, Some m, Some b, Some k) \<Rightarrow>
         map_option (\<lambda>n. \<lparr>attempt_id = py_str C i, position = n, att_provider = py_str C pr,
             att_model = py_str C m, att_api_base = b, att_api_key = py_str C k,
             managed = bool_of (jget ''managed'' att)\<rparr>) (py_int C p)
     | _ \<Rightarrow> None)"

fun parse_attempts :: "py_conv \<Rightarrow> json list \<Rightarrow> resolved_attempt list option" where
  "parse_attempts C [] = Some []"
| "parse_attempts C (a # as) = (case (parse_attempt C a, parse_attempts C as) of
     (Some r, Some rs) \<Rightarrow> Some (r # rs) | _ \<Rightarrow> None)"

definition parse_legacy :: "py_conv \<Rightarrow> json \<Rightarrow> resolved_route option" where
  "parse_legacy C p =
     (case (jget ''correlation_id'' p, jget ''provider'' p, jget ''model'' p,
        opt_str_field (jget ''api_base'' p), jget ''api_key'' p) of
       (Some c, Some pr, Some m, Some b, Some k) \<Rightarrow>
         Some \<lparr>request_id = py_str C c, fallback_enabled = False,
           attempts = [\<lparr>attempt_id = py_str C c, position = 0, att_provider = py_str C pr,
             att_model = py_str C m, att_api_base = b, att_api_key = py_str C k,
             managed = bool_of (jget ''managed'' p)\<rparr>]\<rparr>
     | _ \<Rightarrow> None)"

definition parse_resolve_payload :: "py_conv \<Rightarrow> json \<Rightarrow> resolved_route option" where
  "parse_resolve_payload C p =
     (case jget ''attempts'' p of
        Some (JArr as) \<Rightarrow> (case (parse_attempts C as, jget ''request_id'' p) of
            (Some rs, Some i) \<Rightarrow> Some \<lparr>request_id = py_str C i,
               fallback_enabled = bool_of (jget ''fallback_enabled'' p), attempts = rs\<rparr>
          | _ \<Rightarrow> None)
      | None \<Rightarrow> parse_legacy C p
      | Some JNull \<Rightarrow> parse_legacy C p
      | Some _ \<Rightarrow> None)"

section \<open>Requests to the platform\<close>

text \<open>\<open>_extract_platform_user_token\<close> of the \<open>Authorization\<close> header.\<close>

definition missing_token :: http_exception where
  "missing_token = http_error 401 ''Missing authentication token''"

definition extract_platform_user_token :: "string option \<Rightarrow> (http_exception, string) result" where
  "extract_platform_user_token auth = (case auth of
     None \<Rightarrow> Inl missing_token
   | Some h \<Rightarrow> (if h = [] \<or> \<not> starts_with ''Bearer '' h then Inl missing_token
       else (let token = py_strip (drop 7 h) in if token = [] then Inl missing_token else Inr token)))"

definition or_none :: "string \<Rightarrow> string option" where
  "or_none s = (if s = [] then None else Some s)"

definition split_model_selector :: "string \<Rightarrow> string option \<times> string" where
  "split_model_selector s = (case split_once (CHR '':'') s of
     Some (p, m) \<Rightarrow> (or_none p, m)
   | None \<Rightarrow> (case split_once (CHR ''/'') s of Some (p, m) \<Rightarrow> (or_none p, m) | None \<Rightarrow> (None, s)))"

definition platform_url :: "string \<Rightarrow> string \<Rightarrow> string" where
  "platform_url base path = rstrip_char (CHR ''/'') base @ ''/'' @ lstrip_char (CHR ''/'') path"

text \<open>What a POST to the platform ends in: a timeout or network error, or a response.\<close>

record platform_response =
  resp_status :: int
  resp_json :: "json option"
  resp_retry_after :: "string option"

datatype post_result = Post_Unreachable | Post_Response platform_response

definition auth_unavailable :: http_exception where
  "auth_unavailable = http_error 502 ''Authorization service unavailable''"

definition safe_detail_from_platform :: "platform_response \<Rightarrow> string \<Rightarrow> string" where
  "safe_detail_from_platform r fallback = (case resp_json r of None \<Rightarrow> fallback
     | Some p \<Rightarrow> (case jget ''detail'' p of Some (JStr d) \<Rightarrow> d | _ \<Rightarrow> fallback))"

definition forwarded_statuses :: "int set" where
  "forwarded_statuses = {401, 402, 403, 404, 429}"

text \<open>The status handling the resolve calls share; a 200 hands over the decoded body.\<close>

definition platform_reply :: "string \<Rightarrow> post_result \<Rightarrow> (http_exception, json option) result" where
  "platform_reply fallback res = (case res of
     Post_Unreachable \<Rightarrow> Inl auth_unavailable
   | Post_Response r \<Rightarrow>
       if resp_status r = 200 then Inr (resp_json r)
       else if resp_status r \<in> forwarded_statuses
       then Inl \<lparr>status_code = nat (resp_status r), detail = safe_detail_from_platform r fallback,
         headers = (case resp_retry_after r of
             Some ra \<Rightarrow> if resp_status r = 429 \<and> ra \<noteq> [] then [(''Retry-After'', ra)] else []
           | None \<Rightarrow> []), error_type = None\<rparr>
       else Inl auth_unavailable)"

definition misconfigured :: http_exception where
  "misconfigured = http_error 500 ''Hybrid mode is misconfigured''"

text \<open>The two resolve calls, given how the platform answers a request body. \<^const>\<open>None\<close> in the result is
  an exception other than an HTTP one: a body that is not JSON or lacks a field.\<close>

definition resolve_body :: "string \<Rightarrow> (string, json) dict" where
  "resolve_body selector = (case split_model_selector selector of (p, m) \<Rightarrow>
     (''model'', JStr m) # (case p of Some p \<Rightarrow> [(''provider'', JStr p)] | None \<Rightarrow> []))"

definition resolve_platform_credentials :: "py_conv \<Rightarrow> string option \<Rightarrow> ((string, json) dict \<Rightarrow> post_result)
    \<Rightarrow> string \<Rightarrow> (http_exception, resolved_route option) result" where
  "resolve_platform_credentials C base_url post selector =
     (if base_url = None \<or> base_url = Some [] then Inl misconfigured
      else rbind (platform_reply ''Authorization request rejected'' (post (resolve_body selector)))
        (\<lambda>j. Inr (case j of None \<Rightarrow> None | Some p \<Rightarrow> parse_resolve_payload C p)))"

definition resolve_platform_web_search :: "string option \<Rightarrow> ((string, json) dict \<Rightarrow> post_result)
    \<Rightarrow> (http_exception, json option) result" where
  "resolve_platform_web_search base_url post =
     (if base_url = None \<or> base_url = Some [] then Inl misconfigured
      else rbind (platform_reply ''Web search resolution failed'' (post []))
        (\<lambda>j. Inr (map_option (\<lambda>p. if is_jobj p then p else JObj []) j)))"

section \<open>Walking the attempts\<close>

text \<open>An exception of the upstream call; a cancellation is a \<open>BaseException\<close> without the attributes the
  classifier probes.\<close>

record platform_exn = upstream_exn +
  exn_is_network :: bool
  exn_is_cancelled :: bool

definition upstream :: "platform_exn \<Rightarrow> upstream_exn" where
  "upstream x = upstream_exn.truncate x"

datatype attempt_exn = Raised_Http http_exception | Raised_Max_Iterations string | Raised_Other platform_exn

definition non_retryable_statuses :: "int set" where
  "non_retryable_statuses = {400, 422}"

definition retryable_statuses :: "int set" where
  "retryable_statuses = {401, 403, 404, 405, 408, 409, 410, 429, 500, 502, 503, 504}"

definition classify_upstream_error :: "platform_exn \<Rightarrow> bool \<times> string" where
  "classify_upstream_error x =
     (if exn_is_timeout x then (True, ''timeout'')
      else if exn_is_network x then (True, ''conn_err'')
      else (case upstream_status_code (upstream x) of
          None \<Rightarrow> (False, ''unknown'')
        | Some c \<Rightarrow> (if c \<in> non_retryable_statuses then False
             else c \<in> retryable_statuses \<or> (500 \<le> c \<and> c \<le> 599), ''http_'' @ str_int c)))"

definition provider_failure_http_exc :: "platform_exn \<Rightarrow> string \<Rightarrow> http_exception" where
  "provider_failure_http_exc x fallback = (case classify_provider_error (upstream x) of
     Some (c, d) \<Rightarrow> http_error c d | None \<Rightarrow> http_error 502 fallback)"

text \<open>One outcome report: attempt, outcome, usage and error class.\<close>

datatype report = Report (rep_attempt: resolved_attempt) (rep_success: bool) (rep_usage: "usage option")
  (rep_error: "string option")

text \<open>\<open>LLMProvider(v)\<close> is \<open>provider_of v\<close>; \<open>run i kwargs\<close> says whether the \<open>i\<close>-th attempt locked in and how it
  ended.\<close>

record 'r platform_env =
  provider_of :: "string \<Rightarrow> string option"
  run_attempt :: "nat \<Rightarrow> (string, json) dict \<Rightarrow> bool \<times> (attempt_exn, 'r) result"
  usage_of_result :: "'r \<Rightarrow> usage option"

datatype walk_error = Walk_Http http_exception | Walk_Crash string

record 'r walked =
  w_called :: "resolved_attempt list"
  w_reports :: "report list"
  w_result :: "(walk_error, resolved_attempt \<times> 'r) result"

definition completion_kwargs :: "resolved_attempt \<Rightarrow> string \<Rightarrow> (string, json) dict \<Rightarrow> (string, json) dict" where
  "completion_kwargs a provider base =
     AList.update ''model'' (JStr (provider @ '':'' @ att_model a))
       (dict_merge ([(''api_key'', JStr (att_api_key a))]
          @ (case att_api_base a of Some b \<Rightarrow> if b = [] then [] else [(''api_base'', JStr b)] | None \<Rightarrow> [])) base)"

definition all_failed :: "nat \<Rightarrow> platform_exn option \<Rightarrow> http_exception" where
  "all_failed n prev =
     (case prev of
        Some x \<Rightarrow>
          if exn_is_timeout x
          then http_error 504 (if n \<le> 1 then ''LLM provider timeout'' else ''All upstream providers timed out'')
          else if n \<le> 1 then provider_failure_http_exc x ''LLM provider error''
          else http_error 502 ''All upstream providers failed''
      | None \<Rightarrow> http_error 502 ''All upstream providers failed'')"

definition stop_walk :: "(walk_error, resolved_attempt \<times> 'r) result \<Rightarrow> report list \<Rightarrow> resolved_attempt list \<Rightarrow> 'r walked" where
  "stop_walk r reps called = \<lparr>w_called = called, w_reports = reps, w_result = r\<rparr>"

definition add_front :: "resolved_attempt \<Rightarrow> report \<Rightarrow> 'r walked \<Rightarrow> 'r walked" where
  "add_front a r w = w\<lparr>w_called := a # w_called w, w_reports := r # w_reports w\<rparr>"

text \<open>The loop from the \<open>i\<close>-th attempt on, of \<open>n\<close> in all, with the last exception so far.\<close>

fun walk_attempts :: "'r platform_env \<Rightarrow> (string, json) dict \<Rightarrow> nat \<Rightarrow> nat \<Rightarrow> platform_exn option
    \<Rightarrow> resolved_attempt list \<Rightarrow> 'r walked" where
  "walk_attempts V base n i prev [] = stop_walk (Inl (Walk_Http (all_failed n prev))) [] []"
| "walk_attempts V base n i prev (a # as) =
     (case provider_of V (att_provider a) of
        None \<Rightarrow> stop_walk (Inl (Walk_Crash (quoted (att_provider a) @ '' is not a valid LLMProvider''))) [] []
      | Some p \<Rightarrow> (case run_attempt V i (completion_kwargs a p base) of
          (_, Inr r) \<Rightarrow> stop_walk (Inr (a, r)) [Report a True (usage_of_result V r) None] [a]
        | (_, Inl (Raised_Http e)) \<Rightarrow> stop_walk (Inl (Walk_Http e)) [] [a]
        | (_, Inl (Raised_Max_Iterations m)) \<Rightarrow> stop_walk (Inl (Walk_Http (http_error 422 m))) [] [a]
        | (locked, Inl (Raised_Other x)) \<Rightarrow>
            (let (retry, cls) = classify_upstream_error x; rep = Report a False None (Some cls)
             in if locked \<or> \<not> retry
                then stop_walk (Inl (Walk_Http (provider_failure_http_exc x ''LLM provider error''))) [rep] [a]
                else add_front a rep (walk_attempts V base n (i + 1) (Some x) as))))"

definition empty_attempts_detail :: string where
  "empty_attempts_detail = ''Internal error: run_platform_attempts received an empty attempts list ''
     @ [CHR 0xE2, CHR 0x80, CHR 0x94] @ '' the caller should have raised a 502 '' @ quoted ''no resolvable provider'' @ '' before reaching the runner''"

definition run_platform_attempts :: "'r platform_env \<Rightarrow> (string, json) dict \<Rightarrow> resolved_attempt list \<Rightarrow> 'r walked" where
  "run_platform_attempts V base as =
     (if as = [] then stop_walk (Inl (Walk_Http (http_error 500 empty_attempts_detail))) [] []
      else walk_attempts V base (length as) 0 None as)"

text \<open>\<open>run_platform_non_stream\<close>: background reports run only after a success; on an HTTP error the
  error reports are sent inline, on any other exception nothing is sent.\<close>

record 'r platform_reply_of =
  pr_result :: "(walk_error, 'r) result"
  pr_sent :: "report list"
  pr_inline :: bool
  pr_correlation :: "string option"

definition no_resolvable_provider_detail :: string where
  "no_resolvable_provider_detail = ''Authorization service returned no resolvable provider''"

definition run_platform_non_stream :: "'r platform_env \<Rightarrow> adapter \<Rightarrow> (string, json) dict \<Rightarrow> resolved_route \<Rightarrow> 'r platform_reply_of" where
  "run_platform_non_stream V A base route =
     (if attempts route = []
      then \<lparr>pr_result = Inl (Walk_Http (mk_error A 502 no_resolvable_provider_detail Api)), pr_sent = [],
        pr_inline = False, pr_correlation = None\<rparr>
      else (let w = run_platform_attempts V base (attempts route) in
        case w_result w of
          Inr (a, r) \<Rightarrow> \<lparr>pr_result = Inr r, pr_sent = w_reports w, pr_inline = False,
            pr_correlation = Some (attempt_id a)\<rparr>
        | Inl (Walk_Http e) \<Rightarrow> \<lparr>pr_result = Inl (Walk_Http e),
            pr_sent = filter (\<lambda>r. \<not> rep_success r) (w_reports w), pr_inline = True, pr_correlation = None\<rparr>
        | Inl (Walk_Crash m) \<Rightarrow> \<lparr>pr_result = Inl (Walk_Crash m), pr_sent = [], pr_inline = False,
            pr_correlation = None\<rparr>))"

section \<open>Reporting one attempt\<close>

definition usage_non_retryable :: "int set" where
  "usage_non_retryable = {401, 402, 404, 409, 422}"

text \<open>The posts of one report: how many are made and the pauses between them, in quarters of a second.
  \<open>k\<close> tries are left, the \<open>i\<close>-th post answers \<open>post i\<close>.\<close>

definition report_retries :: "post_result \<Rightarrow> bool" where
  "report_retries r = (case r of Post_Unreachable \<Rightarrow> True
     | Post_Response p \<Rightarrow> resp_status p \<noteq> 204 \<and> resp_status p \<notin> usage_non_retryable \<and> 500 \<le> resp_status p)"

fun report_posts :: "(nat \<Rightarrow> post_result) \<Rightarrow> nat \<Rightarrow> nat \<Rightarrow> nat \<Rightarrow> nat \<times> nat list" where
  "report_posts post 0 i delay = (i, [])"
| "report_posts post (Suc k) i delay =
     (if \<not> report_retries (post i) \<or> k = 0 then (i + 1, [])
      else (case report_posts post k (i + 1) (2 * delay) of (n, ds) \<Rightarrow> (n, delay # ds)))"

definition report_platform_usage :: "string option \<Rightarrow> int \<Rightarrow> (nat \<Rightarrow> post_result) \<Rightarrow> nat \<times> nat list" where
  "report_platform_usage base_url max_retries post =
     (if base_url = None \<or> base_url = Some [] then (0, []) else report_posts post (nat max_retries) 0 1)"

definition report_body :: "report \<Rightarrow> (string, json) dict" where
  "report_body r = [(''correlation_id'', JStr (attempt_id (rep_attempt r))),
     (''status'', JStr (if rep_success r then ''success'' else ''error''))]
     @ (if rep_success r
        then (let u = (case rep_usage r of Some u \<Rightarrow> u | None \<Rightarrow> zero_usage) in
          [(''usage'', JObj [(''prompt_tokens'', JInt (prompt_tokens (base_usage u))),
             (''completion_tokens'', JInt (completion_tokens (base_usage u))),
             (''total_tokens'', JInt (total_tokens (base_usage u))),
             (''cache_read_tokens'', JInt (cache_read_tokens_of u)),
             (''cache_write_tokens'', JInt (cache_write_tokens_of u))])])
        else (case rep_error r of Some e \<Rightarrow> [(''error_class'', JStr e)] | None \<Rightarrow> []))"

section \<open>Lemmas\<close>

text \<open>An attempt the walk moves past: its call failed before locking in, in a retryable way.\<close>

definition fall_exn :: "'r platform_env \<Rightarrow> (string, json) dict \<Rightarrow> nat \<times> resolved_attempt \<Rightarrow> platform_exn option" where
  "fall_exn V base ia = (case provider_of V (att_provider (snd ia)) of
     None \<Rightarrow> None
   | Some p \<Rightarrow> (case run_attempt V (fst ia) (completion_kwargs (snd ia) p base) of
       (False, Inl (Raised_Other x)) \<Rightarrow> if fst (classify_upstream_error x) then Some x else None
     | _ \<Rightarrow> None))"

definition fall_report :: "resolved_attempt \<Rightarrow> platform_exn \<Rightarrow> report" where
  "fall_report a x = Report a False None (Some (snd (classify_upstream_error x)))"

lemma walk_past:
  assumes "fall_exn V base (i, a) = Some x"
  shows "walk_attempts V base n i prev (a # as) =
    add_front a (fall_report a x) (walk_attempts V base n (i + 1) (Some x) as)"
  using assms
  by (auto simp: fall_exn_def fall_report_def Let_def split: option.splits prod.splits bool.splits sum.splits
      attempt_exn.splits if_splits)

text \<open>Any other attempt decides the walk, whatever comes after it.\<close>

definition decides :: "'r platform_env \<Rightarrow> (string, json) dict \<Rightarrow> nat \<Rightarrow> resolved_attempt \<Rightarrow> 'r walked \<Rightarrow> bool" where
  "decides V base i a w \<longleftrightarrow> (case provider_of V (att_provider a) of
     None \<Rightarrow> w_called w = [] \<and> w_reports w = [] \<and> (\<exists>m. w_result w = Inl (Walk_Crash m))
   | Some p \<Rightarrow> w_called w = [a] \<and> (case snd (run_attempt V i (completion_kwargs a p base)) of
       Inr r \<Rightarrow> w_result w = Inr (a, r) \<and> w_reports w = [Report a True (usage_of_result V r) None]
     | Inl (Raised_Other x) \<Rightarrow> (\<exists>e. w_result w = Inl (Walk_Http e)) \<and> w_reports w = [fall_report a x]
     | Inl _ \<Rightarrow> (\<exists>e. w_result w = Inl (Walk_Http e)) \<and> w_reports w = []))"

lemma walk_decides:
  assumes "fall_exn V base (i, a) = None"
  shows "decides V base i a (walk_attempts V base n i prev (a # as))"
  using assms
  by (auto simp: fall_exn_def fall_report_def decides_def stop_walk_def Let_def split: option.splits prod.splits bool.splits
      sum.splits attempt_exn.splits if_splits)

lemma add_front_simps [simp]:
  "w_called (add_front a r w) = a # w_called w" "w_reports (add_front a r w) = r # w_reports w"
  "w_result (add_front a r w) = w_result w"
  by (simp_all add: add_front_def)

lemma report_posts_bound:
  "report_posts post k i d = (n, ds) \<Longrightarrow> n \<le> i + k \<and> (0 < k \<longrightarrow> i < n)
    \<and> ds = map (\<lambda>j. d * 2 ^ j) [0..<n - i - 1]
    \<and> (\<forall>j. i \<le> j \<longrightarrow> j + 1 < n \<longrightarrow> report_retries (post j))
    \<and> (n < i + k \<longrightarrow> \<not> report_retries (post (n - 1)))"
proof (induction k arbitrary: i d n ds)
  case (Suc k)
  show ?case
  proof (cases "\<not> report_retries (post i) \<or> k = 0")
    case False
    obtain m es where r: "report_posts post k (i + 1) (2 * d) = (m, es)" by fastforce
    from Suc.prems False r have n: "n = m" "ds = d # es" by auto
    from Suc.IH[OF r] False have ih: "m \<le> i + 1 + k" "i + 1 < m" "es = map (\<lambda>j. 2 * d * 2 ^ j) [0..<m - (i + 1) - 1]"
      "\<forall>j. i + 1 \<le> j \<longrightarrow> j + 1 < m \<longrightarrow> report_retries (post j)"
      "m < i + 1 + k \<longrightarrow> \<not> report_retries (post (m - 1))" by auto
    have "map (\<lambda>j. d * 2 ^ j) [0..<Suc (m - (i + 1) - 1)] = d # map (\<lambda>j. 2 * d * 2 ^ j) [0..<m - (i + 1) - 1]"
      by (subst upt_conv_Cons) (simp_all add: map_Suc_upt[symmetric] del: upt_Suc)
    moreover have "Suc (m - (i + 1) - 1) = m - i - 1" using ih(2) by simp
    ultimately have ds: "ds = map (\<lambda>j. d * 2 ^ j) [0..<m - i - 1]" using n ih(3) by metis
    have "report_retries (post j)" if "i \<le> j" "j + 1 < n" for j
      using that ih(4) False n(1) by (cases "j = i") auto
    with ds n ih(1,2,5) show ?thesis by auto
  qed (use Suc.prems in auto)
qed simp

definition passed :: "'r platform_env \<Rightarrow> (string, json) dict \<Rightarrow> nat \<Rightarrow> resolved_attempt list \<Rightarrow> (nat \<times> resolved_attempt) list" where
  "passed V base i as = takeWhile (\<lambda>ia. fall_exn V base ia \<noteq> None) (enumerate i as)"

definition fall_reports :: "'r platform_env \<Rightarrow> (string, json) dict \<Rightarrow> (nat \<times> resolved_attempt) list \<Rightarrow> report list" where
  "fall_reports V base ps = map (\<lambda>ia. fall_report (snd ia) (the (fall_exn V base ia))) ps"

lemma passed_Cons:
  "passed V base i (a # as) = (if fall_exn V base (i, a) = None then [] else (i, a) # passed V base (i + 1) as)"
  by (simp add: passed_def)

lemma passed_Nil [simp]: "passed V base i [] = []"
  by (simp add: passed_def)

lemma walk_characterised:
  "(length (passed V base i as) < length as \<longrightarrow> (\<exists>w'. decides V base (i + length (passed V base i as)) (as ! length (passed V base i as)) w'
        \<and> w_called (walk_attempts V base n i prev as) = take (length (passed V base i as)) as @ w_called w'
        \<and> w_reports (walk_attempts V base n i prev as) = fall_reports V base (passed V base i as) @ w_reports w'
        \<and> w_result (walk_attempts V base n i prev as) = w_result w'))
    \<and> (length (passed V base i as) = length as \<longrightarrow> w_called (walk_attempts V base n i prev as) = as
        \<and> w_reports (walk_attempts V base n i prev as) = fall_reports V base (passed V base i as)
        \<and> w_result (walk_attempts V base n i prev as) =
          Inl (Walk_Http (all_failed n (if as = [] then prev else fall_exn V base (last (enumerate i as))))))"
proof (induction as arbitrary: i prev)
  case Nil
  show ?case by (simp add: passed_def stop_walk_def fall_reports_def)
next
  case (Cons a as)
  show ?case
  proof (cases "fall_exn V base (i, a)")
    case None
    with walk_decides[OF None, of n prev as] show ?thesis
      by (auto simp: passed_Cons fall_reports_def intro!: exI[of _ "walk_attempts V base n i prev (a # as)"]
          simp del: walk_attempts.simps)
  next
    case (Some x)
    have l: "as \<noteq> [] \<Longrightarrow> last (enumerate i (a # as)) = last (enumerate (i + 1) as)" by (cases as) simp_all
    show ?thesis
      using Cons.IH[of "i + 1" "Some x"] l
      by (cases "as = []")
        (auto simp: walk_past[OF Some] passed_Cons Some fall_reports_def stop_walk_def
          simp del: walk_attempts.simps(2))
  qed
qed

lemma passed_length: "length (passed V base i as) \<le> length as"
  unfolding passed_def by (metis length_enumerate length_takeWhile_le)

lemma decides_http: "decides V base i a w \<Longrightarrow> w_result w = Inl (Walk_Http e) \<Longrightarrow> \<forall>r \<in> set (w_reports w). \<not> rep_success r"
  by (auto simp: decides_def fall_report_def split: option.splits sum.splits attempt_exn.splits)

lemma walk_http_reports:
  assumes "w_result (walk_attempts V base n i prev as) = Inl (Walk_Http e)"
  shows "\<forall>r \<in> set (w_reports (walk_attempts V base n i prev as)). \<not> rep_success r"
proof (cases "length (passed V base i as) < length as")
  case True
  with walk_characterised[of V base i as n prev] assms decides_http show ?thesis
    by (fastforce simp: fall_reports_def fall_report_def)
next
  case False
  with passed_length[of V base i as] walk_characterised[of V base i as n prev] show ?thesis
    by (auto simp: fall_reports_def fall_report_def)
qed

text \<open>A first provider that times out and a second one that answers.\<close>

definition timeout_exn :: platform_exn where
  "timeout_exn = \<lparr>exn_message = ''timed out'', exn_is_timeout = True, exn_status = None,
     exn_response_status = None, exn_is_network = False, exn_is_cancelled = False\<rparr>"

definition cancelled_exn :: platform_exn where
  "cancelled_exn = \<lparr>exn_message = [], exn_is_timeout = False, exn_status = None,
     exn_response_status = None, exn_is_network = False, exn_is_cancelled = True\<rparr>"

definition sample_attempt :: "string \<Rightarrow> int \<Rightarrow> resolved_attempt" where
  "sample_attempt p i = \<lparr>attempt_id = p, position = i, att_provider = p, att_model = ''m'',
     att_api_base = None, att_api_key = ''k'', managed = False\<rparr>"

definition sample_env :: "unit platform_env" where
  "sample_env = \<lparr>provider_of = (\<lambda>p. if p = ''gone'' then None else Some p),
     run_attempt = (\<lambda>i _. if i = 0 then (False, Inl (Raised_Other timeout_exn)) else (False, Inr ())),
     usage_of_result = (\<lambda>_. None)\<rparr>"

definition C0 :: py_conv where
  "C0 = \<lparr>render = (\<lambda>_. []), parse = (\<lambda>_. None)\<rparr>"

lemmas sample_simps = sample_env_def sample_attempt_def timeout_exn_def cancelled_exn_def
  fall_exn_def fall_reports_def fall_report_def classify_upstream_error_def passed_Cons

section \<open>Properties\<close>

text \<open>C16. The walk calls the attempts in order and stops at the first one that does not fail in a
  retryable way before locking in: every attempt before it was called once and reported as an error,
  no attempt after it is called; without such an attempt all were called and the answer is the
  all-failed error of the last failure.\<close>

theorem platform_walk_order:
  assumes "as \<noteq> []"
  shows "let w = run_platform_attempts V base as; ps = passed V base 0 as; k = length ps in
    (k < length as \<longrightarrow> (\<exists>w'. decides V base k (as ! k) w' \<and> w_called w = take k as @ w_called w'
        \<and> w_reports w = fall_reports V base ps @ w_reports w' \<and> w_result w = w_result w'))
    \<and> (k = length as \<longrightarrow> w_called w = as \<and> w_reports w = fall_reports V base ps
        \<and> w_result w = Inl (Walk_Http (all_failed (length as) (fall_exn V base (last (enumerate 0 as))))))"
  using walk_characterised[of V base 0 as "length as" None] assms
  by (simp add: run_platform_attempts_def Let_def)

lemma platform_walk_order_witness:
  "w_called (run_platform_attempts sample_env [] [sample_attempt ''a'' 0, sample_attempt ''b'' 1, sample_attempt ''c'' 2])
     = [sample_attempt ''a'' 0, sample_attempt ''b'' 1]"
  using platform_walk_order[of "[sample_attempt ''a'' 0, sample_attempt ''b'' 1, sample_attempt ''c'' 2]" sample_env "[]"]
  by (auto simp: sample_simps decides_def Let_def)

text \<open>Unless an attempt names a provider any-llm does not know, what is sent to the platform is exactly
  the list of outcomes of the attempts that were called, whether the request succeeds or fails.\<close>

theorem reports_reach_platform:
  assumes "attempts route \<noteq> []" "\<forall>m. pr_result (run_platform_non_stream V A base route) \<noteq> Inl (Walk_Crash m)"
  shows "pr_sent (run_platform_non_stream V A base route) = w_reports (run_platform_attempts V base (attempts route))"
proof (cases "w_result (run_platform_attempts V base (attempts route))")
  case (Inl e)
  show ?thesis
  proof (cases e)
    case (Walk_Http h)
    have "\<forall>r \<in> set (w_reports (run_platform_attempts V base (attempts route))). \<not> rep_success r"
      using walk_http_reports Inl Walk_Http assms(1) unfolding run_platform_attempts_def by fastforce
    with Inl Walk_Http assms(1) show ?thesis by (simp add: run_platform_non_stream_def Let_def)
  qed (use assms Inl in \<open>auto simp: run_platform_non_stream_def Let_def\<close>)
next
  case (Inr ar)
  with assms(1) show ?thesis by (cases ar) (simp add: run_platform_non_stream_def Let_def)
qed

definition sample_route :: "resolved_attempt list \<Rightarrow> resolved_route" where
  "sample_route as = \<lparr>request_id = ''r'', fallback_enabled = True, attempts = as\<rparr>"

definition plain_adapter :: adapter where
  "plain_adapter = \<lparr>endpoint = ''/v1/chat/completions'', mk_error = (\<lambda>c d _. http_error c d),
     provider_error = (\<lambda>x. http_error 502 (exn_message x)), log_success_without_usage = True\<rparr>"

lemma reports_reach_platform_witness:
  "length (pr_sent (run_platform_non_stream sample_env plain_adapter [] (sample_route [sample_attempt ''a'' 0, sample_attempt ''b'' 1]))) = 2"
proof -
  let ?r = "sample_route [sample_attempt ''a'' 0, sample_attempt ''b'' 1]"
  have s: "w_reports (run_platform_attempts sample_env [] (attempts ?r)) =
      [Report (sample_attempt ''a'' 0) False None (Some ''timeout''), Report (sample_attempt ''b'' 1) True None None]"
    and ok: "w_result (run_platform_attempts sample_env [] (attempts ?r)) = Inr (sample_attempt ''b'' 1, ())"
    by (simp_all add: sample_route_def run_platform_attempts_def sample_simps stop_walk_def)
  have "pr_sent (run_platform_non_stream sample_env plain_adapter [] ?r) = w_reports (run_platform_attempts sample_env [] (attempts ?r))"
    by (rule reports_reach_platform)
      (use ok in \<open>auto simp: run_platform_non_stream_def Let_def sample_route_def\<close>)
  then show ?thesis by (simp add: s)
qed

text \<open>An attempt whose provider any-llm does not know ends the request with an unhandled error, even
  when later attempts could serve it, and the reports of the attempts that failed before it are lost.\<close>

theorem unknown_provider_aborts_walk:
  assumes "k = length (passed V base 0 (attempts route))" "k < length (attempts route)"
    "provider_of V (att_provider (attempts route ! k)) = None"
  shows "(\<exists>m. pr_result (run_platform_non_stream V A base route) = Inl (Walk_Crash m))
    \<and> pr_sent (run_platform_non_stream V A base route) = []
    \<and> length (w_reports (run_platform_attempts V base (attempts route))) = k"
proof -
  have ne: "attempts route \<noteq> []" using assms(2) by auto
  from walk_characterised[of V base 0 "attempts route" "length (attempts route)" None] assms ne
  obtain w' where "decides V base k (attempts route ! k) w'"
    "w_result (run_platform_attempts V base (attempts route)) = w_result w'"
    "w_reports (run_platform_attempts V base (attempts route)) = fall_reports V base (passed V base 0 (attempts route)) @ w_reports w'"
    by (auto simp: run_platform_attempts_def)
  with assms(1,3) ne show ?thesis
    by (auto simp: decides_def run_platform_non_stream_def Let_def fall_reports_def)
qed

lemma unknown_provider_aborts_walk_witness:
  "pr_sent (run_platform_non_stream sample_env plain_adapter []
     (sample_route [sample_attempt ''a'' 0, sample_attempt ''gone'' 1, sample_attempt ''b'' 2])) = []"
  using unknown_provider_aborts_walk[of 1 sample_env "[]"
      "sample_route [sample_attempt ''a'' 0, sample_attempt ''gone'' 1, sample_attempt ''b'' 2]" plain_adapter]
  by (simp add: sample_route_def sample_simps)

text \<open>A cancellation of the upstream call does not end the request as one: it is classified as a
  provider failure, answered with 502 and reported to the platform inline, during teardown.\<close>

theorem cancellation_becomes_502:
  assumes "attempts route = a # as" "provider_of V (att_provider a) = Some p"
    "run_attempt V 0 (completion_kwargs a p base) = (locked, Inl (Raised_Other cancelled_exn))"
  shows "pr_result (run_platform_non_stream V A base route) = Inl (Walk_Http (http_error 502 ''LLM provider error''))
    \<and> pr_sent (run_platform_non_stream V A base route) = [Report a False None (Some ''unknown'')]
    \<and> pr_inline (run_platform_non_stream V A base route)"
  using assms
  by (simp add: run_platform_non_stream_def run_platform_attempts_def stop_walk_def cancelled_exn_def
      classify_upstream_error_def provider_failure_http_exc_def classify_provider_error_def upstream_def
      upstream_exn.truncate_def upstream_status_code_def present_def Let_def)

lemma cancellation_becomes_502_witness:
  "pr_inline (run_platform_non_stream (sample_env\<lparr>run_attempt := (\<lambda>_ _. (False, Inl (Raised_Other cancelled_exn)))\<rparr>)
     plain_adapter [] (sample_route [sample_attempt ''a'' 0]))"
  using cancellation_becomes_502[of "sample_route [sample_attempt ''a'' 0]" "sample_attempt ''a'' 0" "[]"
      "sample_env\<lparr>run_attempt := (\<lambda>_ _. (False, Inl (Raised_Other cancelled_exn)))\<rparr>" "''a''" "[]" False plain_adapter]
  by (simp add: sample_route_def sample_env_def sample_attempt_def)

text \<open>One usage report makes at most \<open>usage_max_retries\<close> posts, stops at the first answer that is not
  worth retrying, and pauses for times that double from a quarter of a second.\<close>

theorem usage_report_bounded:
  assumes "report_platform_usage url retries post = (n, pauses)"
  shows "n \<le> nat retries \<and> pauses = map (\<lambda>j. 2 ^ j) [0..<n - 1]
    \<and> (\<forall>j. j + 1 < n \<longrightarrow> report_retries (post j)) \<and> (0 < n \<longrightarrow> n < nat retries \<longrightarrow> \<not> report_retries (post (n - 1)))"
proof (cases "url = None \<or> url = Some []")
  case False
  then have "report_posts post (nat retries) 0 1 = (n, pauses)" using assms by (auto simp: report_platform_usage_def)
  from report_posts_bound[OF this] show ?thesis by simp
qed (use assms in \<open>auto simp: report_platform_usage_def\<close>)

lemma usage_report_bounded_witness:
  "fst (report_platform_usage (Some ''u'') 3 (\<lambda>_. Post_Unreachable)) \<le> 3"
  using usage_report_bounded[of "Some ''u''" 3 "\<lambda>_. Post_Unreachable"]
  by (cases "report_platform_usage (Some ''u'') 3 (\<lambda>_. Post_Unreachable)") simp

text \<open>The legacy answer of an older platform means the same as the attempts-list answer that holds it as
  its only attempt, at position 0, with the correlation id as request and attempt id.\<close>

theorem legacy_payload_single_attempt:
  assumes "map_of d ''attempts'' = None" "map_of d ''correlation_id'' = Some c"
  shows "parse_resolve_payload C (JObj d) = parse_resolve_payload C
    (JObj [(''request_id'', c), (''attempts'', JArr [JObj ((''attempt_id'', c) # (''position'', JInt 0) # d)])])"
  using assms
  by (simp add: parse_resolve_payload_def parse_legacy_def parse_attempt_def bool_of_def split: option.splits)

lemma legacy_payload_single_attempt_witness:
  "parse_resolve_payload C0 (JObj [(''correlation_id'', JStr ''x'')]) = parse_resolve_payload C0
    (JObj [(''request_id'', JStr ''x''), (''attempts'', JArr [JObj [(''attempt_id'', JStr ''x''), (''position'', JInt 0),
      (''correlation_id'', JStr ''x'')]])])"
  using legacy_payload_single_attempt[of "[(''correlation_id'', JStr ''x'')]" "JStr ''x''" C0] by simp

text \<open>What a failing platform tells the caller: only the statuses 401, 402, 403, 404 and 429 pass
  through, everything else becomes 502 (500 when the gateway has no platform URL), and a
  \<open>Retry-After\<close> header is passed on with a 429 only.\<close>

theorem platform_errors_mapped:
  assumes "resolve_platform_credentials C url post selector = Inl e"
  shows "status_code e \<in> {401, 402, 403, 404, 429, 500, 502}
    \<and> (status_code e = 500 \<longrightarrow> url = None \<or> url = Some [])
    \<and> (headers e \<noteq> [] \<longrightarrow> status_code e = 429 \<and> (\<exists>v. headers e = [(''Retry-After'', v)] \<and> v \<noteq> []))"
  using assms
  by (auto simp: resolve_platform_credentials_def platform_reply_def misconfigured_def auth_unavailable_def
      forwarded_statuses_def rbind_def split: if_splits post_result.splits option.splits sum.splits)

lemma platform_errors_mapped_witness:
  "status_code (the (case resolve_platform_credentials C0 (Some ''u'') (\<lambda>_. Post_Unreachable) ''m'' of Inl e \<Rightarrow> Some e | Inr _ \<Rightarrow> None))
     \<in> {401, 402, 403, 404, 429, 500, 502}"
  using platform_errors_mapped[of C0 "Some ''u''" "\<lambda>_. Post_Unreachable" "''m''" auth_unavailable]
  by (simp add: resolve_platform_credentials_def platform_reply_def auth_unavailable_def)

end
