(* ===== verification/Url_Safety.thy ===== *)
theory Url_Safety
  imports Prelude
begin

text \<open>
  URL safety (\<open>services/url_safety.py\<close>) and the environment lookup behind its switches (\<open>core/env.py\<close>):
  which MCP endpoints a client may name and which result pages the gateway fetches.

  \<open>urlparse\<close>, \<open>ipaddress.ip_address\<close> and name resolution are parameters; an address is its answers to
  the standard library's predicates.
\<close>

section \<open>Parameters\<close>

text \<open>The parts of \<open>urlparse(u)\<close> the gateway reads.\<close>

record parsed_url =
  u_scheme :: string
  u_hostname :: "string option"
  u_port :: "nat option"
  u_path :: string

record ip_addr =
  is_unspecified :: bool
  is_loopback :: bool
  is_link_local :: bool
  is_multicast :: bool
  is_private :: bool
  is_reserved :: bool

record net =
  urlparse :: "string \<Rightarrow> parsed_url"
  ip_literal :: "string \<Rightarrow> ip_addr option"
  resolve_all :: "string \<Rightarrow> ip_addr list"
  environ :: "string \<Rightarrow> string option"

section \<open>Environment\<close>

definition otari_env :: "(string \<Rightarrow> string option) \<Rightarrow> string \<Rightarrow> string option" where
  "otari_env e suffix = (case e (''OTARI_'' @ suffix) of
     Some v \<Rightarrow> Some v
   | None \<Rightarrow> e (''GATEWAY_'' @ suffix))"

definition otari_env_or :: "(string \<Rightarrow> string option) \<Rightarrow> string \<Rightarrow> string \<Rightarrow> string" where
  "otari_env_or e suffix d = (case otari_env e suffix of Some v \<Rightarrow> v | None \<Rightarrow> d)"

definition allow_loopback :: "net \<Rightarrow> bool" where
  "allow_loopback N \<longleftrightarrow> py_lower (otari_env_or (environ N) ''MCP_ALLOW_LOOPBACK'' ''true'') \<notin> {''0'', ''false'', ''no''}"

definition allow_private_hosts :: "net \<Rightarrow> bool" where
  "allow_private_hosts N \<longleftrightarrow>
     py_lower (otari_env_or (environ N) ''MCP_ALLOW_PRIVATE_HOSTS'' ''false'') \<in> {''1'', ''true'', ''yes''}"

definition allow_web_search_private_hosts :: "net \<Rightarrow> bool" where
  "allow_web_search_private_hosts N \<longleftrightarrow>
     py_lower (otari_env_or (environ N) ''WEB_SEARCH_ALLOW_PRIVATE_HOSTS'' ''false'') \<in> {''1'', ''true'', ''yes''}"

section \<open>The two checks\<close>

datatype unsafe_url = Bad_Scheme string | Needs_Https | No_Host | Unresolved string | Blocked string string

definition blocked_reason :: "ip_addr \<Rightarrow> string option" where
  "blocked_reason a =
     (if is_unspecified a then Some ''unspecified (0.0.0.0/::)''
      else if is_loopback a then Some ''loopback''
      else if is_link_local a then Some ''link-local''
      else if is_multicast a then Some ''multicast''
      else if is_private a then Some ''in a private range (RFC 1918 / ULA)''
      else if is_reserved a then Some ''in a reserved range''
      else None)"

text \<open>The addresses a host stands for; empty when it cannot be resolved.\<close>

definition addresses_of :: "net \<Rightarrow> string \<Rightarrow> ip_addr list" where
  "addresses_of N host = (case ip_literal N host of Some a \<Rightarrow> [a] | None \<Rightarrow> resolve_all N host)"

text \<open>The first address that is not acceptable.\<close>

fun first_blocked :: "bool \<Rightarrow> string \<Rightarrow> ip_addr list \<Rightarrow> unsafe_url option" where
  "first_blocked loopback_ok host [] = None"
| "first_blocked loopback_ok host (a # as) =
     (if is_loopback a \<and> loopback_ok then first_blocked loopback_ok host as
      else (case blocked_reason a of Some r \<Rightarrow> Some (Blocked host r) | None \<Rightarrow> first_blocked loopback_ok host as))"

definition check_host :: "net \<Rightarrow> bool \<Rightarrow> string \<Rightarrow> unsafe_url option" where
  "check_host N loopback_ok host =
     (let as = addresses_of N host in if as = [] then Some (Unresolved host) else first_blocked loopback_ok host as)"

text \<open>\<^const>\<open>None\<close> accepts the URL.\<close>

definition validate_mcp_url :: "net \<Rightarrow> string \<Rightarrow> bool \<Rightarrow> unsafe_url option" where
  "validate_mcp_url N url has_token =
     (let u = urlparse N url; scheme = py_lower (u_scheme u) in
      if scheme \<noteq> ''http'' \<and> scheme \<noteq> ''https'' then Some (Bad_Scheme scheme)
      else if scheme = ''http'' \<and> has_token then Some Needs_Https
      else (case u_hostname u of
          None \<Rightarrow> Some No_Host
        | Some host \<Rightarrow> if host = [] then Some No_Host
            else if allow_private_hosts N then None else check_host N (allow_loopback N) host))"

definition validate_outbound_fetch_url :: "net \<Rightarrow> string \<Rightarrow> unsafe_url option" where
  "validate_outbound_fetch_url N url =
     (let u = urlparse N url; scheme = py_lower (u_scheme u) in
      if scheme \<noteq> ''http'' \<and> scheme \<noteq> ''https'' then Some (Bad_Scheme scheme)
      else (case u_hostname u of
          None \<Rightarrow> Some No_Host
        | Some host \<Rightarrow> if host = [] then Some No_Host
            else if allow_web_search_private_hosts N then None else check_host N False host))"

section \<open>Lemmas\<close>

lemma first_blocked_None:
  "first_blocked l host as = None \<longleftrightarrow> (\<forall>a \<in> set as. (is_loopback a \<and> l) \<or> blocked_reason a = None)"
  by (induction as) (auto split: option.splits)

lemma check_host_None:
  "check_host N l host = None \<longleftrightarrow> addresses_of N host \<noteq> [] \<and>
    (\<forall>a \<in> set (addresses_of N host). (is_loopback a \<and> l) \<or> blocked_reason a = None)"
  by (auto simp: check_host_def Let_def first_blocked_None)

lemma blocked_reason_None:
  "blocked_reason a = None \<longleftrightarrow> \<not> is_unspecified a \<and> \<not> is_loopback a \<and> \<not> is_link_local a \<and> \<not> is_multicast a
     \<and> \<not> is_private a \<and> \<not> is_reserved a"
  by (simp add: blocked_reason_def)

text \<open>A public host and an internal one.\<close>

definition public_ip :: ip_addr where
  "public_ip = \<lparr>is_unspecified = False, is_loopback = False, is_link_local = False, is_multicast = False,
     is_private = False, is_reserved = False\<rparr>"

definition sample_net :: net where
  "sample_net = \<lparr>urlparse = (\<lambda>u. \<lparr>u_scheme = ''https'', u_hostname = Some u, u_port = None, u_path = []\<rparr>),
     ip_literal = (\<lambda>_. None),
     resolve_all = (\<lambda>h. if h = ''internal'' then [public_ip\<lparr>is_private := True\<rparr>] else [public_ip]),
     environ = (\<lambda>_. None)\<rparr>"

lemma sample_net_simps:
  "urlparse sample_net u = \<lparr>u_scheme = ''https'', u_hostname = Some u, u_port = None, u_path = []\<rparr>"
  "\<not> allow_private_hosts sample_net" "\<not> allow_web_search_private_hosts sample_net"
  "addresses_of sample_net h = (if h = ''internal'' then [public_ip\<lparr>is_private := True\<rparr>] else [public_ip])"
  "py_lower ''https'' = ''https''"
  by (simp_all add: sample_net_def allow_private_hosts_def allow_web_search_private_hosts_def otari_env_or_def
      otari_env_def addresses_of_def py_lower_def lower_char_def)

lemma public_fetch_ok: "h \<noteq> [] \<Longrightarrow> h \<noteq> ''internal'' \<Longrightarrow> validate_outbound_fetch_url sample_net h = None"
  by (simp add: validate_outbound_fetch_url_def sample_net_simps check_host_None blocked_reason_None public_ip_def)

section \<open>Properties\<close>

text \<open>With private hosts off, an MCP endpoint is accepted only over http or https (https when a token
  goes with it), with a host that resolves, and only if every address of the host is public or,
  where loopback is allowed, loopback.\<close>

theorem accepted_mcp_url:
  assumes "validate_mcp_url N url has_token = None" "\<not> allow_private_hosts N"
  shows "(py_lower (u_scheme (urlparse N url)) = ''https'' \<or> (py_lower (u_scheme (urlparse N url)) = ''http'' \<and> \<not> has_token))
    \<and> (\<exists>host. u_hostname (urlparse N url) = Some host \<and> host \<noteq> [] \<and> addresses_of N host \<noteq> []
        \<and> (\<forall>a \<in> set (addresses_of N host). (is_loopback a \<and> allow_loopback N) \<or>
            \<not> (is_unspecified a \<or> is_loopback a \<or> is_link_local a \<or> is_multicast a \<or> is_private a \<or> is_reserved a)))"
  using assms
  by (auto simp: validate_mcp_url_def Let_def check_host_None blocked_reason_None split: if_splits option.splits)

lemma accepted_mcp_url_witness: "addresses_of sample_net ''h'' \<noteq> []"
  using accepted_mcp_url[of sample_net "''h''" True]
  by (simp add: validate_mcp_url_def sample_net_simps check_host_None blocked_reason_None public_ip_def)

text \<open>The check for fetched pages is the stricter one: with the private-host switches off, what it
  accepts is an acceptable MCP endpoint too, and it never accepts a host with a loopback address.\<close>

theorem fetch_check_is_stricter:
  assumes "validate_outbound_fetch_url N url = None" "\<not> allow_web_search_private_hosts N"
  shows "validate_mcp_url N url False = None
    \<and> (\<exists>host. u_hostname (urlparse N url) = Some host \<and> (\<forall>a \<in> set (addresses_of N host). blocked_reason a = None))"
  using assms
  by (auto simp: validate_outbound_fetch_url_def validate_mcp_url_def Let_def check_host_None
      split: if_splits option.splits)

lemma fetch_check_is_stricter_witness: "validate_mcp_url sample_net ''h'' False = None"
  using fetch_check_is_stricter[OF public_fetch_ok[of "''h''"]] by (simp add: sample_net_simps)

end
