(* ===== verification/Gateway_Tools.thy ===== *)
theory Gateway_Tools
  imports Platform Url_Safety
begin

text \<open>
  Gateway-managed tools (\<open>api/routes/_tools.py\<close>, \<open>_schema_derive.py\<close> and \<open>prepare_gateway_tools\<close> of
  \<open>_pipeline.py\<close>): the fields stripped from a request before it is merged over the credentials, the
  tool entries the gateway runs itself, which backend a request gets, and which backend is handed a
  token.

  The results of the guardrail check and of the platform's two resolve calls, the environment and
  \<open>urlparse\<close> are parameters.
\<close>

section \<open>Stripping a request\<close>

definition sensitive_param_fields :: "string set" where
  "sensitive_param_fields = {''api_key'', ''api_base'', ''base_url'', ''provider'', ''organization'', ''api_version'',
     ''client'', ''credentials'', ''aws_access_key_id'', ''aws_secret_access_key''}"

definition gateway_internal_fields :: "string set" where
  "gateway_internal_fields = {''mcp_servers'', ''mcp_server_ids'', ''guardrails'', ''tools_header'',
     ''max_tool_iterations'', ''user''}"

definition strip_gateway_fields :: "bool \<Rightarrow> json list option \<Rightarrow> (string, json) dict \<Rightarrow> (string, json) dict" where
  "strip_gateway_fields tools_extracted remaining d =
     (let d' = dict_remove (gateway_internal_fields \<union> sensitive_param_fields) d in
      if \<not> tools_extracted then d'
      else (case remaining of
          Some (t # ts) \<Rightarrow> AList.update ''tools'' (JArr (t # ts)) d'
        | _ \<Rightarrow> dict_remove {''tools''} d'))"

text \<open>\<open>default_attempt_kwargs\<close>, and the merge of the standalone path.\<close>

definition attempt_credentials :: "resolved_attempt \<Rightarrow> (string, json) dict" where
  "attempt_credentials a = (''api_key'', JStr (att_api_key a))
     # (case att_api_base a of Some b \<Rightarrow> if b = [] then [] else [(''api_base'', JStr b)] | None \<Rightarrow> [])"

definition default_attempt_kwargs :: "resolved_attempt \<Rightarrow> string \<Rightarrow> (string, json) dict \<Rightarrow> (string, json) dict" where
  "default_attempt_kwargs a provider base =
     AList.update ''model'' (JStr (provider @ '':'' @ att_model a)) (dict_merge (attempt_credentials a) base)"

definition standalone_kwargs :: "(string, json) dict \<Rightarrow> string \<Rightarrow> (string, json) dict \<Rightarrow> (string, json) dict" where
  "standalone_kwargs provider_kwargs model base = AList.update ''model'' (JStr model) (dict_merge provider_kwargs base)"

section \<open>Tool entries\<close>

definition is_web_search_tool_type :: "json option \<Rightarrow> bool" where
  "is_web_search_tool_type t \<longleftrightarrow> t = Some (JStr ''otari_web_search'')"

definition is_code_execution_tool_type :: "json option \<Rightarrow> bool" where
  "is_code_execution_tool_type t \<longleftrightarrow> t = Some (JStr ''otari_code_execution'')"

fun first_match :: "(json option \<Rightarrow> bool) \<Rightarrow> json list \<Rightarrow> json option \<times> json list" where
  "first_match P [] = (None, [])"
| "first_match P (t # ts) = (if is_jobj t \<and> P (jget ''type'' t) then (Some t, ts)
     else (case first_match P ts of (e, rs) \<Rightarrow> (e, t # rs)))"

definition extract_first_matching_tool :: "(json option \<Rightarrow> bool) \<Rightarrow> json list option \<Rightarrow> json option \<times> json list option" where
  "extract_first_matching_tool P tools = (case tools of
     None \<Rightarrow> (None, None)
   | Some [] \<Rightarrow> (None, Some [])
   | Some ts \<Rightarrow> (case first_match P ts of (e, rs) \<Rightarrow> (e, if rs = [] then None else Some rs)))"

section \<open>Same origin\<close>

definition default_ports :: "string \<Rightarrow> nat option" where
  "default_ports = map_of [(''http'', 80), (''https'', 443)]"

definition normalized_origin :: "parsed_url \<Rightarrow> string \<times> string option \<times> nat option" where
  "normalized_origin u = (u_scheme u, u_hostname u,
     case u_port u of Some p \<Rightarrow> Some p | None \<Rightarrow> default_ports (u_scheme u))"

definition web_search_url_targets_platform :: "(string \<Rightarrow> parsed_url) \<Rightarrow> string \<Rightarrow> string option \<Rightarrow> bool" where
  "web_search_url_targets_platform split_url url platform_base_url = (case platform_base_url of
     None \<Rightarrow> False
   | Some b \<Rightarrow> b \<noteq> [] \<and> normalized_origin (split_url url) = normalized_origin (split_url b)
       \<and> (let base_path = rstrip_char (CHR ''/'') (u_path (split_url b))
          in u_path (split_url url) = base_path \<or> starts_with (base_path @ ''/'') (u_path (split_url url))))"

section \<open>Preparing the tools of a request\<close>

definition max_tool_iterations_cap :: int where "max_tool_iterations_cap = 25"
definition default_max_tool_iterations :: int where "default_max_tool_iterations = 10"

text \<open>An awaited step returns, raises an HTTP error, or raises something else.\<close>

datatype 'a step = Step_Ok 'a | Step_Http http_exception | Step_Crash

record 'm tool_request =
  tq_tools :: "json list option"
  tq_mcp_servers :: "'m list option"
  tq_mcp_server_ids :: "string list option"
  tq_max_iterations :: "int option"
  tq_tools_header :: "string option"

record 'm tool_env =
  te_urlparse :: "string \<Rightarrow> parsed_url"
  te_sandbox_url :: "string option"
  te_web_search_url :: "string option"
  te_platform_url :: "string option"
  te_platform_token :: "string option"
  te_user_token :: "string option"
  te_guardrails :: "unit step"
  te_resolve_mcp :: "string list \<Rightarrow> 'm list step"
  te_resolve_web :: "(string, json) dict step"

record 'm tool_context =
  tc_mcp_servers :: "'m list option"
  tc_use_sandbox :: bool
  tc_sandbox_entry :: "json option"
  tc_sandbox_url :: "string option"
  tc_sandbox_token :: "string option"
  tc_use_web_search :: bool
  tc_web_search_entry :: "json option"
  tc_web_search_url :: "string option"
  tc_web_search_token :: "string option"
  tc_remaining_tools :: "json list option"
  tc_max_iterations :: int
  tc_tools_header :: "string option"

definition tools_extracted :: "'m tool_context \<Rightarrow> bool" where
  "tools_extracted c \<longleftrightarrow> tc_sandbox_entry c \<noteq> None \<or> tc_web_search_entry c \<noteq> None"

definition nonempty :: "'a list option \<Rightarrow> bool" where
  "nonempty xs \<longleftrightarrow> xs \<noteq> None \<and> xs \<noteq> Some []"

definition use_tool_loop :: "'m tool_context \<Rightarrow> bool" where
  "use_tool_loop c \<longleftrightarrow> nonempty (tc_mcp_servers c) \<or> tc_use_sandbox c \<or> tc_use_web_search c"

definition nonempty_str :: "string option \<Rightarrow> string option" where
  "nonempty_str s = (if s = Some [] then None else s)"

definition step_bind :: "'a step \<Rightarrow> ('a \<Rightarrow> 'b step) \<Rightarrow> 'b step" where
  "step_bind r f = (case r of Step_Ok a \<Rightarrow> f a | Step_Http e \<Rightarrow> Step_Http e | Step_Crash \<Rightarrow> Step_Crash)"

lemma step_bind_simps [simp]:
  "step_bind (Step_Ok a) f = f a" "step_bind (Step_Http e) f = Step_Http e" "step_bind Step_Crash f = Step_Crash"
  by (simp_all add: step_bind_def)

lemma step_bind_ok: "step_bind r f = Step_Ok b \<longleftrightarrow> (\<exists>a. r = Step_Ok a \<and> f a = Step_Ok b)"
  by (cases r) auto

text \<open>MCP server ids, hybrid mode only.\<close>

definition resolve_mcp_step :: "adapter \<Rightarrow> bool \<Rightarrow> 'm tool_env \<Rightarrow> 'm tool_request \<Rightarrow> 'm list option step" where
  "resolve_mcp_step A hybrid E q =
     (if \<not> nonempty (tq_mcp_server_ids q) then Step_Ok (tq_mcp_servers q)
      else if \<not> hybrid
      then Step_Http (mk_error A 400 ''mcp_server_ids is only available in hybrid mode'' Invalid_Request)
      else if te_user_token E = None then Step_Crash
      else step_bind (te_resolve_mcp E (case tq_mcp_server_ids q of Some ids \<Rightarrow> ids | None \<Rightarrow> []))
        (\<lambda>ms. Step_Ok (Some ((case tq_mcp_servers q of Some xs \<Rightarrow> xs | None \<Rightarrow> []) @ ms))))"

definition sandbox_not_configured_detail :: string where
  "sandbox_not_configured_detail = ''otari_code_execution tool requested but no sandbox is configured on this gateway. ''
     @ ''Set OTARI_SANDBOX_URL on the gateway, or remove otari_code_execution from `tools`.''"

definition sandbox_mcp_conflict_detail :: string where
  "sandbox_mcp_conflict_detail = ''otari_code_execution and mcp_servers cannot be combined in the same request yet; ''
     @ ''pick one. Multi-backend dispatch is a planned refinement.''"

definition web_search_not_configured_detail :: string where
  "web_search_not_configured_detail = ''otari_web_search tool requested but no search backend is configured on this gateway. ''
     @ ''Set OTARI_WEB_SEARCH_URL on the gateway, or remove otari_web_search from `tools`.''"

definition web_search_conflict_detail :: string where
  "web_search_conflict_detail = ''otari_web_search cannot be combined with otari_code_execution or mcp_servers ''
     @ ''in the same request yet; pick one.''"

text \<open>Whether the request runs in the sandbox, and the token its backend gets.\<close>

definition sandbox_step :: "adapter \<Rightarrow> bool \<Rightarrow> 'm tool_env \<Rightarrow> 'm list option \<Rightarrow> json option \<Rightarrow> (bool \<times> string option) step" where
  "sandbox_step A hybrid E mcp entry =
     (if entry = None then Step_Ok (False, None)
      else (case nonempty_str (te_sandbox_url E) of
          None \<Rightarrow> Step_Http (mk_error A 400 sandbox_not_configured_detail Invalid_Request)
        | Some url \<Rightarrow>
            if nonempty mcp then Step_Http (mk_error A 400 sandbox_mcp_conflict_detail Invalid_Request)
            else if \<not> hybrid then Step_Ok (True, None)
            else if te_user_token E = None then Step_Crash
            else Step_Ok (True, if web_search_url_targets_platform (te_urlparse E) url (te_platform_url E)
                                then te_user_token E else None)))"

text \<open>Workspace defaults fill what the request's own entry leaves empty.\<close>

fun fill_default :: "(string, json) dict \<Rightarrow> (string, json) dict \<Rightarrow> string \<Rightarrow> (string, json) dict" where
  "fill_default policy entry key =
     (case map_of policy key of
        Some v \<Rightarrow> if \<not> truthy_opt (map_of entry key) \<and> v \<noteq> JNull then AList.update key v entry else entry
      | None \<Rightarrow> entry)"

definition merge_policy :: "(string, json) dict \<Rightarrow> (string, json) dict \<Rightarrow> (string, json) dict" where
  "merge_policy policy entry =
     (let e = foldl (fill_default policy) entry [''max_results'', ''allowed_domains'', ''blocked_domains'', ''purpose_hint'']
      in (case map_of policy ''provider_options'' of
          Some (JObj w) \<Rightarrow> AList.update ''provider_options'' (case map_of e ''provider_options'' of
              Some (JObj r) \<Rightarrow> JObj (dict_merge w r) | _ \<Rightarrow> JObj w) e
        | _ \<Rightarrow> e))"

definition web_policy_step :: "adapter \<Rightarrow> 'm tool_env \<Rightarrow> string \<Rightarrow> json \<Rightarrow> (json \<times> string option) step" where
  "web_policy_step A E url entry =
     (if te_user_token E = None then Step_Crash
      else step_bind (te_resolve_web E) (\<lambda>policy.
        if \<not> truthy_opt (map_of policy ''enabled'')
        then Step_Http (mk_error A 403 ''web search is not enabled for this workspace'' Permission)
        else Step_Ok (case entry of JObj d \<Rightarrow> JObj (merge_policy policy d) | v \<Rightarrow> v,
          if web_search_url_targets_platform (te_urlparse E) url (te_platform_url E)
          then te_platform_token E else None)))"

definition web_search_step :: "adapter \<Rightarrow> bool \<Rightarrow> 'm tool_env \<Rightarrow> 'm list option \<Rightarrow> bool \<Rightarrow> json option
    \<Rightarrow> (json option \<times> string option) step" where
  "web_search_step A hybrid E mcp sandbox entry = (case entry of
     None \<Rightarrow> Step_Ok (None, None)
   | Some e \<Rightarrow> (case nonempty_str (te_web_search_url E) of
       None \<Rightarrow> Step_Http (mk_error A 400 web_search_not_configured_detail Invalid_Request)
     | Some url \<Rightarrow>
         if sandbox \<or> nonempty mcp then Step_Http (mk_error A 400 web_search_conflict_detail Invalid_Request)
         else if \<not> hybrid then Step_Ok (Some e, None)
         else step_bind (web_policy_step A E url e) (\<lambda>(e', tok). Step_Ok (Some e', tok))))"

text \<open>The body of the \<open>try\<close> block.\<close>

definition iterations_of :: "int option \<Rightarrow> int" where
  "iterations_of m = min (case m of Some i \<Rightarrow> if i = 0 then default_max_tool_iterations else i
     | None \<Rightarrow> default_max_tool_iterations) max_tool_iterations_cap"

definition choose_tools :: "adapter \<Rightarrow> bool \<Rightarrow> 'm tool_env \<Rightarrow> 'm tool_request \<Rightarrow> 'm tool_context step" where
  "choose_tools A hybrid E q =
     step_bind (te_guardrails E) (\<lambda>_.
     step_bind (resolve_mcp_step A hybrid E q) (\<lambda>mcp.
     (case extract_first_matching_tool is_code_execution_tool_type (tq_tools q) of (sb, tools1) \<Rightarrow>
     step_bind (sandbox_step A hybrid E mcp sb) (\<lambda>(use_sb, sb_tok).
     (case extract_first_matching_tool is_web_search_tool_type tools1 of (ws, tools2) \<Rightarrow>
     step_bind (web_search_step A hybrid E mcp use_sb ws) (\<lambda>(ws', ws_tok).
       Step_Ok \<lparr>tc_mcp_servers = mcp, tc_use_sandbox = use_sb, tc_sandbox_entry = sb,
         tc_sandbox_url = nonempty_str (te_sandbox_url E), tc_sandbox_token = sb_tok,
         tc_use_web_search = (ws \<noteq> None), tc_web_search_entry = ws',
         tc_web_search_url = nonempty_str (te_web_search_url E), tc_web_search_token = ws_tok,
         tc_remaining_tools = tools2, tc_max_iterations = iterations_of (tq_max_iterations q),
         tc_tools_header = tq_tools_header q\<rparr>))))))"

definition prepare_gateway_tools :: "adapter \<Rightarrow> request_context \<Rightarrow> 'm tool_env \<Rightarrow> 'm tool_request \<Rightarrow> server
    \<Rightarrow> server \<times> (pipe_error, 'm tool_context) result" where
  "prepare_gateway_tools A ctx E q s = (case choose_tools A (hybrid_mode ctx) E q of
     Step_Ok c \<Rightarrow> (s, Inr c)
   | Step_Http e \<Rightarrow> (case release_reservation ctx s of (s', ok) \<Rightarrow>
       (s', Inl (if ok then Pipe_Http e else Pipe_Store)))
   | Step_Crash \<Rightarrow> (s, Inl Pipe_Crash))"

text \<open>The backend that serves a dispatched call, in the order of the ladder.\<close>

datatype backend = No_Backend | Mcp_Backend | Sandbox_Backend | Web_Search_Backend

definition backend_of :: "'m tool_context \<Rightarrow> backend" where
  "backend_of c = (if \<not> use_tool_loop c then No_Backend
     else if nonempty (tc_mcp_servers c) then Mcp_Backend
     else if tc_use_sandbox c then Sandbox_Backend else Web_Search_Backend)"

section \<open>Lemmas\<close>

lemma map_of_strip:
  "k \<in> gateway_internal_fields \<union> sensitive_param_fields \<Longrightarrow> k \<noteq> ''tools'' \<Longrightarrow>
    map_of (strip_gateway_fields x r d) k = None"
  by (auto simp: strip_gateway_fields_def Let_def split: option.splits list.splits)

lemma sensitive_not_tools: "k \<in> sensitive_param_fields \<Longrightarrow> k \<noteq> ''tools'' \<and> k \<noteq> ''model''"
  by (auto simp: sensitive_param_fields_def)

lemma merge_absent: "map_of b k = None \<Longrightarrow> map_of (dict_merge a b) k = map_of a k"
proof -
  assume "map_of b k = None"
  then have "map_of (rev b) k = None" by (simp add: map_of_eq_None_iff)
  then show ?thesis by (simp add: map_of_dict_merge_rev map_add_def)
qed

lemma credentials_survive:
  assumes "k \<in> sensitive_param_fields"
  shows "map_of (AList.update ''model'' m (dict_merge creds (strip_gateway_fields x r d))) k = map_of creds k"
proof -
  have "map_of (strip_gateway_fields x r d) k = None"
    by (rule map_of_strip) (use assms sensitive_not_tools in blast)+
  then show ?thesis using sensitive_not_tools[OF assms] by (simp add: merge_absent)
qed

lemma first_match_spec:
  "first_match P ts = (e, rs) \<Longrightarrow> (case e of
     None \<Rightarrow> rs = ts \<and> (\<forall>t \<in> set ts. \<not> (is_jobj t \<and> P (jget ''type'' t)))
   | Some t \<Rightarrow> is_jobj t \<and> P (jget ''type'' t) \<and> (\<exists>a b. ts = a @ t # b \<and> rs = a @ b
       \<and> (\<forall>u \<in> set a. \<not> (is_jobj u \<and> P (jget ''type'' u)))))"
proof (induction ts arbitrary: e rs)
  case (Cons t ts)
  show ?case
  proof (cases "is_jobj t \<and> P (jget ''type'' t)")
    case True
    with Cons.prems have "e = Some t" "rs = ts" by auto
    with True show ?thesis by (simp add: exI[of _ "[]"])
  next
    case False
    obtain e' rs' where f: "first_match P ts = (e', rs')" by fastforce
    with Cons.prems False have e: "e = e'" "rs = t # rs'" by (auto split: if_splits)
    show ?thesis
    proof (cases e')
      case None
      with Cons.IH[OF f] False show ?thesis by (simp add: e)
    next
      case (Some u)
      with Cons.IH[OF f] obtain a b where "is_jobj u \<and> P (jget ''type'' u)" "ts = a @ u # b" "rs' = a @ b"
        "\<forall>u \<in> set a. \<not> (is_jobj u \<and> P (jget ''type'' u))" by auto
      with False have "t # ts = (t # a) @ u # b \<and> t # rs' = (t # a) @ b
        \<and> (\<forall>v \<in> set (t # a). \<not> (is_jobj v \<and> P (jget ''type'' v)))" by simp
      moreover have "is_jobj u \<and> P (jget ''type'' u)" by fact
      ultimately show ?thesis unfolding e Some option.case by blast
    qed
  qed
qed simp

lemma sandbox_step_ok:
  "sandbox_step A hybrid E mcp entry = Step_Ok (u, tok) \<Longrightarrow>
    (u \<longleftrightarrow> entry \<noteq> None) \<and> (u \<longrightarrow> \<not> nonempty mcp) \<and>
    (tok \<noteq> None \<longrightarrow> hybrid \<and> tok = te_user_token E \<and> (\<exists>url. nonempty_str (te_sandbox_url E) = Some url \<and>
       web_search_url_targets_platform (te_urlparse E) url (te_platform_url E)))"
  by (auto simp: sandbox_step_def split: if_splits option.splits)

lemma web_search_step_ok:
  "web_search_step A hybrid E mcp sb entry = Step_Ok (e', tok) \<Longrightarrow>
    (e' = None \<longleftrightarrow> entry = None) \<and> (entry \<noteq> None \<longrightarrow> \<not> sb \<and> \<not> nonempty mcp) \<and>
    (tok \<noteq> None \<longrightarrow> hybrid \<and> tok = te_platform_token E \<and> (\<exists>url. nonempty_str (te_web_search_url E) = Some url \<and>
       web_search_url_targets_platform (te_urlparse E) url (te_platform_url E)))"
  by (auto simp: web_search_step_def web_policy_step_def step_bind_ok split: if_splits option.splits)

lemma choose_tools_ok:
  assumes "choose_tools A hybrid E q = Step_Ok c"
  obtains sb tools1 ws where
    "extract_first_matching_tool is_code_execution_tool_type (tq_tools q) = (sb, tools1)"
    "extract_first_matching_tool is_web_search_tool_type tools1 = (ws, tc_remaining_tools c)"
    "sandbox_step A hybrid E (tc_mcp_servers c) sb = Step_Ok (tc_use_sandbox c, tc_sandbox_token c)"
    "web_search_step A hybrid E (tc_mcp_servers c) (tc_use_sandbox c) ws = Step_Ok (tc_web_search_entry c, tc_web_search_token c)"
    "tc_use_web_search c = (ws \<noteq> None)" "tc_sandbox_entry c = sb"
    "tc_sandbox_url c = nonempty_str (te_sandbox_url E)" "tc_web_search_url c = nonempty_str (te_web_search_url E)"
    "tc_max_iterations c = iterations_of (tq_max_iterations q)"
proof -
  obtain sb tools1 where x1: "extract_first_matching_tool is_code_execution_tool_type (tq_tools q) = (sb, tools1)"
    by fastforce
  obtain ws tools2 where x2: "extract_first_matching_tool is_web_search_tool_type tools1 = (ws, tools2)" by fastforce
  from assms obtain mcp u st where
    st: "sandbox_step A hybrid E mcp sb = Step_Ok (u, st)" and
    r1: "step_bind (web_search_step A hybrid E mcp u ws) (\<lambda>(ws', ws_tok).
       Step_Ok \<lparr>tc_mcp_servers = mcp, tc_use_sandbox = u, tc_sandbox_entry = sb,
         tc_sandbox_url = nonempty_str (te_sandbox_url E), tc_sandbox_token = st,
         tc_use_web_search = (ws \<noteq> None), tc_web_search_entry = ws',
         tc_web_search_url = nonempty_str (te_web_search_url E), tc_web_search_token = ws_tok,
         tc_remaining_tools = tools2, tc_max_iterations = iterations_of (tq_max_iterations q),
         tc_tools_header = tq_tools_header q\<rparr>) = Step_Ok c"
    by (auto simp: choose_tools_def x1 x2 step_bind_ok)
  then obtain ws' wt where wt: "web_search_step A hybrid E mcp u ws = Step_Ok (ws', wt)" and
    c: "c = \<lparr>tc_mcp_servers = mcp, tc_use_sandbox = u, tc_sandbox_entry = sb,
         tc_sandbox_url = nonempty_str (te_sandbox_url E), tc_sandbox_token = st,
         tc_use_web_search = (ws \<noteq> None), tc_web_search_entry = ws',
         tc_web_search_url = nonempty_str (te_web_search_url E), tc_web_search_token = wt,
         tc_remaining_tools = tools2, tc_max_iterations = iterations_of (tq_max_iterations q),
         tc_tools_header = tq_tools_header q\<rparr>"
    by (auto simp: step_bind_ok)
  show ?thesis by (rule that[OF x1, of ws]) (use x2 st wt c in simp_all)
qed

definition sample_url :: "string \<Rightarrow> parsed_url" where
  "sample_url s = \<lparr>u_scheme = ''https'', u_hostname = Some s, u_port = None, u_path = []\<rparr>"

definition sample_tool_env :: "nat tool_env" where
  "sample_tool_env = \<lparr>te_urlparse = sample_url, te_sandbox_url = Some ''h'', te_web_search_url = None,
     te_platform_url = Some ''h'', te_platform_token = Some ''p'', te_user_token = Some ''u'',
     te_guardrails = Step_Ok (), te_resolve_mcp = (\<lambda>_. Step_Ok []), te_resolve_web = Step_Crash\<rparr>"

definition sandbox_request :: "nat tool_request" where
  "sandbox_request = \<lparr>tq_tools = Some [JObj [(''type'', JStr ''otari_code_execution'')]], tq_mcp_servers = None,
     tq_mcp_server_ids = None, tq_max_iterations = None, tq_tools_header = None\<rparr>"

definition sandbox_context :: "nat tool_context" where
  "sandbox_context = \<lparr>tc_mcp_servers = None, tc_use_sandbox = True,
     tc_sandbox_entry = Some (JObj [(''type'', JStr ''otari_code_execution'')]), tc_sandbox_url = Some ''h'',
     tc_sandbox_token = Some ''u'', tc_use_web_search = False, tc_web_search_entry = None,
     tc_web_search_url = None, tc_web_search_token = None, tc_remaining_tools = None,
     tc_max_iterations = 10, tc_tools_header = None\<rparr>"

lemma sandbox_context_chosen: "choose_tools plain_adapter True sample_tool_env sandbox_request = Step_Ok sandbox_context"
  by (simp add: choose_tools_def resolve_mcp_step_def sandbox_step_def web_search_step_def sample_tool_env_def
      sandbox_request_def sandbox_context_def extract_first_matching_tool_def is_code_execution_tool_type_def
      nonempty_def nonempty_str_def web_search_url_targets_platform_def normalized_origin_def sample_url_def
      rstrip_char_def iterations_of_def default_max_tool_iterations_def max_tool_iterations_cap_def Let_def)

section \<open>Properties\<close>



text \<open>The caller's token reaches a sandbox backend, and the platform token a search backend, only in
  hybrid mode and only when the backend's URL has the platform's origin and lies under its path.\<close>

theorem tokens_stay_with_platform:
  assumes "choose_tools A hybrid E q = Step_Ok c"
  shows "(tc_sandbox_token c \<noteq> None \<longrightarrow> hybrid \<and> tc_sandbox_token c = te_user_token E \<and>
      (\<exists>url. tc_sandbox_url c = Some url \<and> web_search_url_targets_platform (te_urlparse E) url (te_platform_url E)))
    \<and> (tc_web_search_token c \<noteq> None \<longrightarrow> hybrid \<and> tc_web_search_token c = te_platform_token E \<and>
      (\<exists>url. tc_web_search_url c = Some url \<and> web_search_url_targets_platform (te_urlparse E) url (te_platform_url E)))"
proof (rule choose_tools_ok[OF assms])
  fix sb tools1 ws
  assume a: "sandbox_step A hybrid E (tc_mcp_servers c) sb = Step_Ok (tc_use_sandbox c, tc_sandbox_token c)"
    "web_search_step A hybrid E (tc_mcp_servers c) (tc_use_sandbox c) ws = Step_Ok (tc_web_search_entry c, tc_web_search_token c)"
    "tc_sandbox_url c = nonempty_str (te_sandbox_url E)" "tc_web_search_url c = nonempty_str (te_web_search_url E)"
  show ?thesis using sandbox_step_ok[OF a(1)] web_search_step_ok[OF a(2)] by (simp only: a(3,4)) blast
qed

lemma tokens_stay_with_platform_witness:
  "\<exists>url. tc_sandbox_url sandbox_context = Some url \<and> web_search_url_targets_platform sample_url url (Some ''h'')"
  using tokens_stay_with_platform[OF sandbox_context_chosen] by (simp add: sandbox_context_def sample_tool_env_def)

text \<open>A prepared request has at most one tool backend, the ladder picks exactly the one it was prepared
  for, and between 1 and 25 rounds of it are allowed.\<close>

theorem one_backend_per_request:
  assumes "choose_tools A hybrid E q = Step_Ok c" "case tq_max_iterations q of None \<Rightarrow> True | Some i \<Rightarrow> 1 \<le> i"
  shows "(tc_use_sandbox c \<longrightarrow> \<not> nonempty (tc_mcp_servers c) \<and> \<not> tc_use_web_search c)
    \<and> (tc_use_web_search c \<longrightarrow> \<not> nonempty (tc_mcp_servers c))
    \<and> (backend_of c = Sandbox_Backend \<longleftrightarrow> tc_use_sandbox c)
    \<and> (backend_of c = Web_Search_Backend \<longleftrightarrow> tc_use_web_search c)
    \<and> (backend_of c = Mcp_Backend \<longleftrightarrow> nonempty (tc_mcp_servers c))
    \<and> 1 \<le> tc_max_iterations c \<and> tc_max_iterations c \<le> 25"
proof (rule choose_tools_ok[OF assms(1)])
  fix sb tools1 ws
  assume a: "sandbox_step A hybrid E (tc_mcp_servers c) sb = Step_Ok (tc_use_sandbox c, tc_sandbox_token c)"
    "web_search_step A hybrid E (tc_mcp_servers c) (tc_use_sandbox c) ws = Step_Ok (tc_web_search_entry c, tc_web_search_token c)"
    "tc_use_web_search c = (ws \<noteq> None)" "tc_max_iterations c = iterations_of (tq_max_iterations q)"
  have "1 \<le> tc_max_iterations c" "tc_max_iterations c \<le> 25"
    using assms(2) a(4)
    by (auto simp: iterations_of_def default_max_tool_iterations_def max_tool_iterations_cap_def split: option.splits)
  then show ?thesis using sandbox_step_ok[OF a(1)] web_search_step_ok[OF a(2)] a(3)
    by (auto simp: backend_of_def use_tool_loop_def)
qed

lemma one_backend_per_request_witness: "backend_of sandbox_context = Sandbox_Backend"
  using one_backend_per_request[OF sandbox_context_chosen] by (simp add: sandbox_request_def sandbox_context_def)

text \<open>The gateway takes one entry of each of its two tool types out of the request, the first one, and
  forwards every other entry unchanged and in order.\<close>

theorem tool_extraction:
  assumes "choose_tools A hybrid E q = Step_Ok c" "tq_tools q = Some ts"
  shows "\<exists>mid out. (case tc_sandbox_entry c of
        None \<Rightarrow> mid = ts \<and> (\<forall>t \<in> set ts. is_jobj t \<longrightarrow> \<not> is_code_execution_tool_type (jget ''type'' t))
      | Some t \<Rightarrow> is_code_execution_tool_type (jget ''type'' t) \<and> (\<exists>a b. ts = a @ t # b \<and> mid = a @ b))
    \<and> (if \<not> tc_use_web_search c then out = mid
       else (\<exists>a t b. is_web_search_tool_type (jget ''type'' t) \<and> mid = a @ t # b \<and> out = a @ b))
    \<and> (case tc_remaining_tools c of None \<Rightarrow> out = [] | Some rs \<Rightarrow> rs = out)"
proof (rule choose_tools_ok[OF assms(1)])
  fix sb tools1 ws
  assume a: "extract_first_matching_tool is_code_execution_tool_type (tq_tools q) = (sb, tools1)"
    "extract_first_matching_tool is_web_search_tool_type tools1 = (ws, tc_remaining_tools c)"
    "tc_use_web_search c = (ws \<noteq> None)" "tc_sandbox_entry c = sb"
  have ex: "\<exists>rs. first_match P (case xs of None \<Rightarrow> [] | Some ys \<Rightarrow> ys) = (e, rs) \<and> rs = (case ys of None \<Rightarrow> [] | Some zs \<Rightarrow> zs)"
    if "extract_first_matching_tool P xs = (e, ys)" for P xs e ys
    using that by (auto simp: extract_first_matching_tool_def split: option.splits list.splits prod.splits if_splits)
  obtain mid where m: "first_match is_code_execution_tool_type ts = (sb, mid)" "mid = (case tools1 of None \<Rightarrow> [] | Some zs \<Rightarrow> zs)"
    using ex[OF a(1)] assms(2) by auto
  obtain rs where o: "first_match is_web_search_tool_type mid = (ws, rs)" "rs = (case tc_remaining_tools c of None \<Rightarrow> [] | Some zs \<Rightarrow> zs)"
    using ex[OF a(2)] m(2) by auto
  have A: "case sb of None \<Rightarrow> mid = ts \<and> (\<forall>t \<in> set ts. is_jobj t \<longrightarrow> \<not> is_code_execution_tool_type (jget ''type'' t))
      | Some t \<Rightarrow> is_code_execution_tool_type (jget ''type'' t) \<and> (\<exists>a b. ts = a @ t # b \<and> mid = a @ b)"
    using first_match_spec[OF m(1)] by (cases sb) (simp, auto)
  have B: "if ws = None then rs = mid
      else (\<exists>a t b. is_web_search_tool_type (jget ''type'' t) \<and> mid = a @ t # b \<and> rs = a @ b)"
    using first_match_spec[OF o(1)] by (cases ws) (simp, auto)
  have C: "case tc_remaining_tools c of None \<Rightarrow> rs = [] | Some zs \<Rightarrow> zs = rs"
    by (simp add: o(2) split: option.splits)
  from A B C show ?thesis unfolding a(3,4) by (intro exI[of _ mid] exI[of _ rs]) simp
qed

lemma tool_extraction_witness: "tc_remaining_tools sandbox_context = None \<and> tc_sandbox_entry sandbox_context \<noteq> None"
  using tool_extraction[OF sandbox_context_chosen] by (simp add: sandbox_request_def sandbox_context_def)

end
