(* ===== verification/Web_Search.thy ===== *)
theory Web_Search
  imports Url_Safety
begin

text \<open>
  The web-search backend (\<open>services/web_search_backend.py\<close>): the query it sends, the domain filters
  on the answer, and the fetch of a result page, which follows redirects by hand so that every hop
  passes the URL check and stops reading at a fixed number of bytes.

  The search backend's answer and the pages are parameters, as are Python's rendering of JSON values
  as text and the content extractor. Page content is a list of bytes.
\<close>

section \<open>Configuration\<close>

definition reserved_search_params :: "string set" where
  "reserved_search_params = {''q'', ''format'', ''engines''}"

definition max_results_cap :: int where "max_results_cap = 20"
definition fetch_max_bytes :: nat where "fetch_max_bytes = 5 * 1024 * 1024"
definition fetch_max_redirects :: nat where "fetch_max_redirects = 5"

record web_search_config =
  wc_base_url :: string
  wc_engines :: "string list"
  wc_max_results :: int
  wc_allowed :: "string list"
  wc_blocked :: "string list"
  wc_extract :: bool
  wc_provider_options :: "(string, json) dict"
  wc_auth_token :: "string option"

text \<open>The constructor: clamped result count, lower-case domains.\<close>

definition new_web_search :: "web_search_config \<Rightarrow> web_search_config" where
  "new_web_search c = c\<lparr>wc_base_url := rstrip_char (CHR ''/'') (wc_base_url c),
     wc_max_results := max 1 (min (wc_max_results c) max_results_cap),
     wc_allowed := map py_lower (wc_allowed c), wc_blocked := map py_lower (wc_blocked c)\<rparr>"

section \<open>Searching\<close>

definition forwardable :: "string \<Rightarrow> json \<Rightarrow> json option" where
  "forwardable key v = (if key \<in> reserved_search_params then None
     else (case v of
         JBool b \<Rightarrow> Some (JStr (if b then ''true'' else ''false''))
       | JStr s \<Rightarrow> Some (JStr s) | JInt i \<Rightarrow> Some (JInt i) | JFloat q \<Rightarrow> Some (JFloat q)
       | _ \<Rightarrow> None))"

definition search_params :: "web_search_config \<Rightarrow> string \<Rightarrow> (string, json) dict" where
  "search_params c query = foldl (\<lambda>ps (k, v). case forwardable k v of None \<Rightarrow> ps | Some w \<Rightarrow> AList.update k w ps)
     [(''q'', JStr query), (''format'', JStr ''json''), (''engines'', JStr (join '','' (wc_engines c)))]
     (wc_provider_options c)"

text \<open>What the search backend answers: a transport or HTTP error, a body that is no JSON, or a body.\<close>

datatype search_reply = Search_Http_Error | Search_No_Json | Search_Body json

definition usable_hits :: "json list \<Rightarrow> json list" where
  "usable_hits rs = filter (\<lambda>r. is_jobj r \<and> truthy_opt (jget ''url'' r)) rs"

text \<open>\<open>_search\<close>: the usable hits, a failure \<open>call_tool\<close> maps, or an \<open>AttributeError\<close> for a body without \<open>get\<close>.\<close>

datatype 'a searched = Hits 'a | Search_Failed | Search_Crash

definition search :: "search_reply \<Rightarrow> json list searched" where
  "search r = (case r of
     Search_Http_Error \<Rightarrow> Search_Failed
   | Search_No_Json \<Rightarrow> Search_Failed
   | Search_Body b \<Rightarrow> if \<not> is_jobj b then Search_Crash
       else (case jget ''results'' b of Some (JArr rs) \<Rightarrow> Hits (usable_hits rs) | _ \<Rightarrow> Search_Failed))"

definition host_of :: "net \<Rightarrow> string \<Rightarrow> string" where
  "host_of N url = py_lower (case u_hostname (urlparse N url) of None \<Rightarrow> [] | Some h \<Rightarrow> h)"

definition in_domain :: "string \<Rightarrow> string \<Rightarrow> bool" where
  "in_domain host d \<longleftrightarrow> host = d \<or> ends_with (CHR ''.'' # d) host"

definition keeps :: "web_search_config \<Rightarrow> string \<Rightarrow> bool" where
  "keeps c host \<longleftrightarrow> \<not> (wc_blocked c \<noteq> [] \<and> list_ex (in_domain host) (wc_blocked c))
     \<and> \<not> (wc_allowed c \<noteq> [] \<and> \<not> list_ex (in_domain host) (wc_allowed c))"

text \<open>\<open>text_of\<close> is \<open>str\<close> on JSON values.\<close>

definition url_of_hit :: "(json \<Rightarrow> string) \<Rightarrow> json \<Rightarrow> string" where
  "url_of_hit text_of r = text_of (case jget ''url'' r of Some v \<Rightarrow> v | None \<Rightarrow> JNull)"

definition apply_domain_filters :: "web_search_config \<Rightarrow> net \<Rightarrow> (json \<Rightarrow> string) \<Rightarrow> json list \<Rightarrow> json list" where
  "apply_domain_filters c N text_of rs =
     (if wc_allowed c = [] \<and> wc_blocked c = [] then rs
      else filter (\<lambda>r. keeps c (host_of N (url_of_hit text_of r))) rs)"

section \<open>Fetching a page\<close>

type_synonym bytes = "nat list"

text \<open>One GET without automatic redirects: a transport error, a redirect (with the joined URL, if the
  reply has a location), a status of 400 or more, or the chunks of the body.\<close>

datatype page_reply = Page_Error | Page_Redirect "string option" | Page_Failed | Page_Body "bytes list"

text \<open>The read loop over the chunks.\<close>

fun read_capped :: "nat \<Rightarrow> bytes \<Rightarrow> bytes list \<Rightarrow> bytes" where
  "read_capped cap buf [] = buf"
| "read_capped cap buf (chunk # cs) =
     (if cap \<le> length buf then buf
      else (let remaining = cap - length buf;
                buf' = buf @ (if length chunk \<le> remaining then chunk else take remaining chunk)
            in if cap \<le> length buf' then buf' else read_capped cap buf' cs))"

text \<open>The redirect walk: the URLs requested and the body, if one was read.\<close>

fun fetch_capped :: "net \<Rightarrow> (string \<Rightarrow> page_reply) \<Rightarrow> nat \<Rightarrow> string \<Rightarrow> string list \<times> bytes option" where
  "fetch_capped N page 0 url = ([], None)"
| "fetch_capped N page (Suc n) url =
     (case page url of
        Page_Error \<Rightarrow> ([url], None)
      | Page_Redirect None \<Rightarrow> ([url], None)
      | Page_Redirect (Some l) \<Rightarrow> if l = [] \<or> validate_outbound_fetch_url N l \<noteq> None then ([url], None)
          else (case fetch_capped N page n l of (us, b) \<Rightarrow> (url # us, b))
      | Page_Failed \<Rightarrow> ([url], None)
      | Page_Body cs \<Rightarrow> ([url], Some (read_capped fetch_max_bytes [] cs)))"

text \<open>\<open>extract\<close> is the extractor; an exception of it, or no content, is \<^const>\<open>None\<close>.\<close>

definition fetch_and_extract :: "net \<Rightarrow> (string \<Rightarrow> page_reply) \<Rightarrow> (bytes \<Rightarrow> string option) \<Rightarrow> string
    \<Rightarrow> string list \<times> string option" where
  "fetch_and_extract N page extract url =
     (if validate_outbound_fetch_url N url \<noteq> None then ([], None)
      else (case fetch_capped N page (fetch_max_redirects + 1) url of
          (us, None) \<Rightarrow> (us, None)
        | (us, Some b) \<Rightarrow> (us, case extract b of Some t \<Rightarrow> if t = [] then None else Some t | None \<Rightarrow> None)))"

text \<open>Hits that already carry content are left alone; the URLs requested are collected.\<close>

definition enrich_one :: "net \<Rightarrow> (json \<Rightarrow> string) \<Rightarrow> (string \<Rightarrow> page_reply) \<Rightarrow> (bytes \<Rightarrow> string option) \<Rightarrow> json
    \<Rightarrow> string list \<times> json" where
  "enrich_one N text_of page extract r =
     (if truthy_opt (jget ''extracted_content'' r) then ([], r)
      else (case fetch_and_extract N page extract (url_of_hit text_of r) of (us, c) \<Rightarrow>
        (us, case (c, r) of (Some t, JObj d) \<Rightarrow> JObj (AList.update ''extracted_content'' (JStr t) d) | _ \<Rightarrow> r)))"

fun enrich :: "net \<Rightarrow> (json \<Rightarrow> string) \<Rightarrow> (string \<Rightarrow> page_reply) \<Rightarrow> (bytes \<Rightarrow> string option) \<Rightarrow> json list
    \<Rightarrow> string list \<times> json list" where
  "enrich N text_of page extract [] = ([], [])"
| "enrich N text_of page extract (r # rs) = (case enrich_one N text_of page extract r of (us, r') \<Rightarrow>
     case enrich N text_of page extract rs of (vs, rs') \<Rightarrow> (us @ vs, r' # rs'))"

section \<open>The tool call\<close>

definition web_search_tool_name :: string where "web_search_tool_name = ''web_search''"

text \<open>What a tool call ends in: text, an exception, the \<open>KeyError\<close> for a tool of another backend, a
  cancellation.\<close>

datatype tool_outcome = Tool_Text string | Tool_Raises string | Tool_Not_Owned | Tool_Cancelled

record web_world =
  ww_net :: net
  ww_text :: "json \<Rightarrow> string"
  ww_search :: "(string, json) dict \<Rightarrow> search_reply"
  ww_page :: "string \<Rightarrow> page_reply"
  ww_extract :: "bytes \<Rightarrow> string option"
  ww_format :: "string \<Rightarrow> json list \<Rightarrow> string"

text \<open>The call with a query argument: the pages requested and the outcome. A query that is no text raises
  in \<open>strip\<close>.\<close>

definition search_results :: "web_search_config \<Rightarrow> web_world \<Rightarrow> json list \<Rightarrow> string list \<times> json list" where
  "search_results c W hits =
     (let kept = take (nat (wc_max_results c)) (apply_domain_filters c (ww_net W) (ww_text W) hits)
      in if wc_extract c then enrich (ww_net W) (ww_text W) (ww_page W) (ww_extract W) kept else ([], kept))"

definition web_search_call :: "web_search_config \<Rightarrow> web_world \<Rightarrow> string \<Rightarrow> (string, json) dict \<Rightarrow> string list \<times> tool_outcome" where
  "web_search_call c W name args =
     (if name \<noteq> web_search_tool_name then ([], Tool_Not_Owned)
      else (case map_of args ''query'' of
          Some (JStr q0) \<Rightarrow>
            (let q = py_strip q0 in
             if q = [] then ([], Tool_Text ''[tool error] empty query'')
             else (case search (ww_search W (search_params c q)) of
                 Search_Failed \<Rightarrow> ([], Tool_Raises ''web_search failed'')
               | Search_Crash \<Rightarrow> ([], Tool_Raises ''no attribute get'')
               | Hits hs \<Rightarrow> (case search_results c W hs of (us, rs) \<Rightarrow> (us, Tool_Text (ww_format W q rs)))))
        | Some v \<Rightarrow> if truthy v then ([], Tool_Raises ''no attribute strip'') else ([], Tool_Text ''[tool error] empty query'')
        | None \<Rightarrow> ([], Tool_Text ''[tool error] empty query'')))"

section \<open>Lemmas\<close>

lemma read_capped_take: "length buf < cap \<Longrightarrow> read_capped cap buf cs = take cap (buf @ concat cs)"
proof (induction cs arbitrary: buf)
  case (Cons c cs)
  let ?b = "buf @ (if length c \<le> cap - length buf then c else take (cap - length buf) c)"
  have b: "?b = take cap (buf @ c)" using Cons.prems by simp
  show ?case
  proof (cases "cap \<le> length ?b")
    case True
    then have "cap \<le> length (buf @ c)" unfolding b by simp
    with True Cons.prems b show ?thesis by (simp add: Let_def)
  next
    case False
    then have lt: "length (buf @ c) < cap" unfolding b by simp
    then have "?b = buf @ c" unfolding b by simp
    with False Cons.prems Cons.IH[OF lt] show ?thesis by (simp add: Let_def)
  qed
qed simp

lemma fetch_capped_hops:
  "fetch_capped N page n url = (us, b) \<Longrightarrow> length us \<le> n \<and> (\<forall>u \<in> set (tl us). validate_outbound_fetch_url N u = None)
    \<and> (us \<noteq> [] \<longrightarrow> hd us = url)
    \<and> (\<forall>x. b = Some x \<longrightarrow> us \<noteq> [] \<and> (\<exists>cs. page (last us) = Page_Body cs \<and> x = take fetch_max_bytes (concat cs)))"
proof (induction n arbitrary: url us b)
  case (Suc n)
  show ?case
  proof (cases "page url")
    case (Page_Redirect l)
    show ?thesis
    proof (cases "\<exists>u. l = Some u \<and> u \<noteq> [] \<and> validate_outbound_fetch_url N u = None")
      case True
      then obtain u where u: "l = Some u" "u \<noteq> []" "validate_outbound_fetch_url N u = None" by blast
      obtain vs c where f: "fetch_capped N page n u = (vs, c)" by fastforce
      from Suc.prems Page_Redirect u f have us: "us = url # vs" "b = c" by simp_all
      from Suc.IH[OF f] u(3) us show ?thesis by (cases vs) auto
    qed (use Suc.prems Page_Redirect in \<open>auto split: option.splits if_splits\<close>)
  next
    case (Page_Body cs)
    have "read_capped fetch_max_bytes [] cs = take fetch_max_bytes (concat cs)"
      using read_capped_take[of "[]" fetch_max_bytes cs] by (simp add: fetch_max_bytes_def)
    with Suc.prems Page_Body show ?thesis by auto
  qed (use Suc.prems in auto)
qed simp

lemma fetch_and_extract_hops:
  assumes "fetch_and_extract N page extract url = (us, c)"
  shows "length us \<le> 6 \<and> (\<forall>u \<in> set us. validate_outbound_fetch_url N u = None)"
proof (cases "validate_outbound_fetch_url N url = None")
  case True
  obtain vs b where f: "fetch_capped N page (fetch_max_redirects + 1) url = (vs, b)" by fastforce
  have us: "us = vs" using assms True f by (cases b) (simp_all add: fetch_and_extract_def)
  from fetch_capped_hops[OF f] True have h: "length vs \<le> 6" "\<forall>u \<in> set (tl vs). validate_outbound_fetch_url N u = None"
    "vs \<noteq> [] \<longrightarrow> hd vs = url" by (auto simp: fetch_max_redirects_def)
  with True show ?thesis unfolding us by (cases vs) auto
qed (use assms in \<open>simp add: fetch_and_extract_def\<close>)

lemma enrich_hops:
  "enrich N text_of page extract rs = (us, rs') \<Longrightarrow>
    length us \<le> 6 * length rs \<and> length rs' = length rs \<and> (\<forall>u \<in> set us. validate_outbound_fetch_url N u = None)"
proof (induction rs arbitrary: us rs')
  case (Cons r rs)
  obtain vs r' where o1: "enrich_one N text_of page extract r = (vs, r')" by fastforce
  obtain ws ts where o2: "enrich N text_of page extract rs = (ws, ts)" by fastforce
  have u: "us = vs @ ws" "rs' = r' # ts" using Cons.prems o1 o2 by simp_all
  have "length vs \<le> 6 \<and> (\<forall>u \<in> set vs. validate_outbound_fetch_url N u = None)"
    using o1 fetch_and_extract_hops[of N page "extract" "url_of_hit text_of r"]
    by (auto simp: enrich_one_def split: if_splits prod.splits)
  with Cons.IH[OF o2] show ?case by (auto simp: u)
qed simp

lemma filter_hits_kept:
  "r \<in> set (apply_domain_filters c N t rs) \<Longrightarrow> r \<in> set rs \<and> keeps c (host_of N (url_of_hit t r))"
  by (auto simp: apply_domain_filters_def keeps_def split: if_splits)

lemma search_params_reserved:
  assumes "k \<in> reserved_search_params"
  shows "map_of (foldl (\<lambda>ps (k, v). case forwardable k v of None \<Rightarrow> ps | Some w \<Rightarrow> AList.update k w ps) ps opts) k = map_of ps k"
  by (induction opts arbitrary: ps) (use assms in \<open>auto simp: forwardable_def split: option.splits json.splits if_splits\<close>)

definition sample_web :: web_world where
  "sample_web = \<lparr>ww_net = sample_net, ww_text = (\<lambda>v. case v of JStr s \<Rightarrow> s | _ \<Rightarrow> []),
     ww_search = (\<lambda>_. Search_Body (JObj [(''results'', JArr [JObj [(''url'', JStr ''a'')]])])),
     ww_page = (\<lambda>u. if u = ''a'' then Page_Redirect (Some ''b'') else Page_Body [[1, 2], [3]]),
     ww_extract = (\<lambda>_. Some ''text''), ww_format = (\<lambda>_ _. ''formatted'')\<rparr>"

definition sample_search :: web_search_config where
  "sample_search = \<lparr>wc_base_url = [], wc_engines = [], wc_max_results = 100, wc_allowed = [], wc_blocked = [''Bad.example''],
     wc_extract = True, wc_provider_options = [(''q'', JStr ''x''), (''topic'', JStr ''news'')], wc_auth_token = None\<rparr>"

section \<open>Properties\<close>

text \<open>C15. Every page a search call requests, redirects included, was accepted by the URL check first, and a
  call requests at most six times as many pages as it may return results.\<close>

theorem every_fetch_validated:
  assumes "web_search_call (new_web_search c) W name args = (us, r)"
  shows "(\<forall>u \<in> set us. validate_outbound_fetch_url (ww_net W) u = None) \<and> length us \<le> 6 * 20"
proof -
  have hits: "(\<forall>u \<in> set vs. validate_outbound_fetch_url (ww_net W) u = None) \<and> length vs \<le> 6 * 20"
    if "search_results (new_web_search c) W hs = (vs, rs)" for hs vs rs
  proof -
    let ?kept = "take (nat (wc_max_results (new_web_search c)))
      (apply_domain_filters (new_web_search c) (ww_net W) (ww_text W) hs)"
    have "length ?kept \<le> 20" by (simp add: new_web_search_def max_results_cap_def)
    moreover have "vs = [] \<or> enrich (ww_net W) (ww_text W) (ww_page W) (ww_extract W) ?kept = (vs, rs)"
      using that by (auto simp: search_results_def Let_def split: if_splits)
    ultimately show ?thesis using enrich_hops[of "ww_net W" "ww_text W" "ww_page W" "ww_extract W" ?kept vs rs] by auto
  qed
  from assms hits show ?thesis
    by (auto simp: web_search_call_def Let_def split: if_splits option.splits json.splits searched.splits prod.splits)
qed

lemma every_fetch_validated_witness:
  "length (fst (web_search_call (new_web_search sample_search) sample_web ''web_search'' [(''query'', JStr ''q'')])) \<le> 120"
  using every_fetch_validated[of sample_search sample_web "''web_search''" "[(''query'', JStr ''q'')]"]
  by (cases "web_search_call (new_web_search sample_search) sample_web ''web_search'' [(''query'', JStr ''q'')]") simp

text \<open>A fetched page is the beginning of what the last server of the redirect walk sent, cut at exactly
  five megabytes however the body is chunked.\<close>

theorem page_is_capped_prefix:
  assumes "fetch_capped N page n url = (us, Some body)"
  shows "length body \<le> 5 * 1024 * 1024
    \<and> (\<exists>chunks. page (last us) = Page_Body chunks \<and> body = take (5 * 1024 * 1024) (concat chunks))"
  using fetch_capped_hops[OF assms] by (auto simp: fetch_max_bytes_def)

lemma page_is_capped_prefix_witness:
  "\<exists>us body. fetch_capped sample_net (ww_page sample_web) 6 ''a'' = (us, Some body) \<and> length body \<le> 5 * 1024 * 1024"
proof -
  have ok: "validate_outbound_fetch_url sample_net ''b'' = None" by (rule public_fetch_ok) simp_all
  have f: "fetch_capped sample_net (ww_page sample_web) 6 ''a'' = ([''a'', ''b''], Some (read_capped fetch_max_bytes [] [[1, 2], [3]]))"
    by (simp add: sample_web_def ok numeral_eq_Suc)
  from f page_is_capped_prefix[OF f] show ?thesis by blast
qed

text \<open>A search result the model sees comes from the search answer and respects both domain lists, a
  blocked domain (or a subdomain of one) never passing even if it is also allowed; between 1 and 20
  results may be returned.\<close>

theorem results_respect_domains:
  assumes "r \<in> set (take (nat (wc_max_results (new_web_search c)))
      (apply_domain_filters (new_web_search c) N text_of (usable_hits rs)))"
  shows "r \<in> set rs \<and> (\<forall>d \<in> set (wc_blocked c). \<not> in_domain (host_of N (url_of_hit text_of r)) (py_lower d))
    \<and> (wc_allowed c = [] \<or> (\<exists>d \<in> set (wc_allowed c). in_domain (host_of N (url_of_hit text_of r)) (py_lower d)))
    \<and> 1 \<le> wc_max_results (new_web_search c) \<and> wc_max_results (new_web_search c) \<le> 20"
  using filter_hits_kept[OF in_set_takeD[OF assms]]
  by (auto simp: usable_hits_def keeps_def new_web_search_def max_results_cap_def list_ex_iff)

lemma results_respect_domains_witness:
  "\<not> in_domain (host_of sample_net (url_of_hit (ww_text sample_web) (JObj [(''url'', JStr ''a'')]))) ''bad.example''"
  using results_respect_domains[of "JObj [(''url'', JStr ''a'')]" sample_search sample_net "ww_text sample_web" "[JObj [(''url'', JStr ''a'')]]"]
  by (simp add: sample_search_def new_web_search_def max_results_cap_def apply_domain_filters_def usable_hits_def
      keeps_def host_of_def url_of_hit_def sample_web_def sample_net_simps in_domain_def py_lower_def lower_char_def
      ends_with_def starts_with_def)

text \<open>Provider options cannot change the query, the format or the engines the gateway asks for.\<close>

theorem reserved_params_kept:
  assumes "k \<in> reserved_search_params"
  shows "map_of (search_params c query) k =
    map_of [(''q'', JStr query), (''format'', JStr ''json''), (''engines'', JStr (join '','' (wc_engines c)))] k"
  unfolding search_params_def by (rule search_params_reserved[OF assms])

lemma reserved_params_kept_witness: "map_of (search_params sample_search ''hello'') ''q'' = Some (JStr ''hello'')"
  using reserved_params_kept[of "''q''" sample_search "''hello''"] by (simp add: reserved_search_params_def)

end
