(* ===== verification/Backends.thy ===== *)
theory Backends
  imports Web_Search
begin

text \<open>
  The backends behind gateway-run tools: the pool of MCP sessions (\<open>services/mcp_client.py\<close>), the code
  sandbox (\<open>services/sandbox_backend.py\<close>) and web search, and the interface the tool loops use of
  them (\<open>ToolBackend\<close> of \<open>services/mcp_loop.py\<close>) as the locale \<open>tool_backend\<close>.

  What a server lists and answers is a parameter; the \<open>k\<close>-th call of a request may be answered
  differently from an earlier equal one.
\<close>

section \<open>The interface\<close>

record tool_pool =
  openai_tools :: "json list"
  owns_tool :: "string \<Rightarrow> bool"
  call_tool :: "nat \<Rightarrow> string \<Rightarrow> json \<Rightarrow> tool_outcome"

definition tool_name :: "json \<Rightarrow> string option" where
  "tool_name t = (case jget ''function'' t of
     Some f \<Rightarrow> (case jget ''name'' f of Some (JStr n) \<Rightarrow> Some n | _ \<Rightarrow> None)
   | None \<Rightarrow> None)"

definition function_tool :: "string \<Rightarrow> string \<Rightarrow> json \<Rightarrow> json" where
  "function_tool name desc params = JObj [(''type'', JStr ''function''),
     (''function'', JObj [(''name'', JStr name), (''description'', JStr desc), (''parameters'', params)])]"

lemma tool_name_function_tool [simp]: "tool_name (function_tool n d p) = Some n"
  by (simp add: tool_name_def function_tool_def)

text \<open>What a loop may rely on: the model is offered exactly the tools the backend owns, each once, and a
  call of an owned tool reaches its server.\<close>

locale tool_backend =
  fixes B :: tool_pool
  assumes offered_iff_owned: "owns_tool B n \<longleftrightarrow> Some n \<in> set (map tool_name (openai_tools B))"
    and offered_once: "distinct (map tool_name (openai_tools B))"
    and owned_call: "owns_tool B n \<Longrightarrow> call_tool B k n a \<noteq> Tool_Not_Owned"
begin

lemma offered_call: "t \<in> set (openai_tools B) \<Longrightarrow> tool_name t = Some n \<Longrightarrow> call_tool B k n a \<noteq> Tool_Not_Owned"
  using offered_iff_owned[of n] owned_call by (metis image_eqI list.set_map)

end

section \<open>Web search and the sandbox\<close>

definition json_args :: "json \<Rightarrow> (string, json) dict option" where
  "json_args a = (case a of JObj d \<Rightarrow> Some d | _ \<Rightarrow> None)"

definition web_search_pool :: "web_search_config \<Rightarrow> (nat \<Rightarrow> web_world) \<Rightarrow> tool_pool" where
  "web_search_pool c W = \<lparr>
     openai_tools = [function_tool web_search_tool_name
       (''Search the web for current information. Returns a ranked list ''
          @ ''of results with URLs, titles, and extracted page content.'')
       (JObj [(''type'', JStr ''object''), (''properties'', JObj [(''query'', JObj [(''type'', JStr ''string''),
          (''description'', JStr ''The search query. Use natural language.'')])]), (''required'', JArr [JStr ''query''])])],
     owns_tool = (\<lambda>n. n = web_search_tool_name),
     call_tool = (\<lambda>k n a. case json_args a of
        Some d \<Rightarrow> snd (web_search_call c (W k) n d)
      | None \<Rightarrow> if n \<noteq> web_search_tool_name then Tool_Not_Owned else Tool_Raises ''no attribute get'')\<rparr>"

definition code_execution_tool_name :: string where "code_execution_tool_name = ''code_execution''"

text \<open>The reply to \<open>/exec\<close>: an HTTP error or a body that is no JSON, or a body.\<close>

datatype exec_reply = Exec_Failed | Exec_Body json

text \<open>Python's \<open>v or ''\<close> on an optional JSON value, rendered by \<open>text_of\<close>.\<close>

definition or_empty :: "(json \<Rightarrow> string) \<Rightarrow> json option \<Rightarrow> string" where
  "or_empty text_of v = (case v of Some x \<Rightarrow> if truthy x then text_of x else [] | None \<Rightarrow> [])"

definition nonzero_code :: "json option \<Rightarrow> bool" where
  "nonzero_code v \<longleftrightarrow> v \<notin> {None, Some JNull, Some (JInt 0), Some (JBool False), Some (JFloat 0)}"

definition file_names :: "(json \<Rightarrow> string) \<Rightarrow> json option \<Rightarrow> string list" where
  "file_names text_of v = (case v of
     Some (JArr fs) \<Rightarrow> map (\<lambda>f. case jget ''filename'' f of Some n \<Rightarrow> text_of n | None \<Rightarrow> ''?'') (filter is_jobj fs)
   | _ \<Rightarrow> [])"

definition flatten_result_block :: "(json \<Rightarrow> string) \<Rightarrow> json \<Rightarrow> string" where
  "flatten_result_block text_of block = (case jget ''content'' block of
     Some (JObj c) \<Rightarrow>
       (let out = or_empty text_of (map_of c ''stdout''); err = or_empty text_of (map_of c ''stderr'');
            code = map_of c ''return_code''; files = file_names text_of (map_of c ''content'');
            parts = (if out = [] then [] else [''stdout:'' @ [CHR 0x0A] @ out])
              @ (if err = [] then [] else [''stderr:'' @ [CHR 0x0A] @ err])
              @ (if nonzero_code code then [''return_code: '' @ text_of (the code)] else [])
              @ (if files = [] then [] else [''files: '' @ join '', '' files]);
            flat = join [CHR 0x0A] parts
        in if flat = [] then ''(no output)''
           else if nonzero_code code \<or> (err \<noteq> [] \<and> out = []) then ''[tool error] '' @ flat else flat)
   | _ \<Rightarrow> text_of block)"

definition sandbox_call :: "(json \<Rightarrow> string) \<Rightarrow> ((string, json) dict \<Rightarrow> exec_reply) \<Rightarrow> string \<Rightarrow> json \<Rightarrow> tool_outcome" where
  "sandbox_call text_of exec n a =
     (if n \<noteq> code_execution_tool_name then Tool_Not_Owned
      else (case json_args a of
          None \<Rightarrow> Tool_Raises ''no attribute get''
        | Some d \<Rightarrow>
            (let code = (case map_of d ''code'' of Some v \<Rightarrow> if truthy v then v else JStr [] | None \<Rightarrow> JStr []) in
             case exec [(''tool'', JStr code_execution_tool_name), (''input'', JObj [(''code'', code)]),
                        (''timeout_seconds'', JInt 60)] of
               Exec_Failed \<Rightarrow> Tool_Raises ''sandbox exec failed''
             | Exec_Body b \<Rightarrow> if \<not> is_jobj b then Tool_Raises ''no attribute get''
                 else (case jget ''result_block'' b of
                     Some r \<Rightarrow> if is_jobj r then Tool_Text (flatten_result_block text_of r)
                       else Tool_Raises ''sandbox returned malformed result''
                   | None \<Rightarrow> Tool_Raises ''sandbox returned malformed result''))))"

definition sandbox_pool :: "(json \<Rightarrow> string) \<Rightarrow> (nat \<Rightarrow> (string, json) dict \<Rightarrow> exec_reply) \<Rightarrow> tool_pool" where
  "sandbox_pool text_of exec = \<lparr>
     openai_tools = [function_tool code_execution_tool_name
       (''Execute Python code in a sandboxed REPL. Returns stdout, ''
          @ ''stderr, and any rich result blocks. State persists across calls within the same request.'')
       (JObj [(''type'', JStr ''object''), (''properties'', JObj [(''code'', JObj [(''type'', JStr ''string''),
          (''description'', JStr ''The Python code to execute.'')])]), (''required'', JArr [JStr ''code''])])],
     owns_tool = (\<lambda>n. n = code_execution_tool_name),
     call_tool = (\<lambda>k n a. sandbox_call text_of (exec k) n a)\<rparr>"

section \<open>MCP sessions\<close>

record mcp_tool =
  mt_name :: string
  mt_description :: "string option"
  mt_schema :: "json option"

record mcp_server_config =
  ms_name :: string
  ms_url :: string
  ms_token :: "string option"
  ms_hint :: "string option"
  ms_allowed :: "string list option"

text \<open>A session is known by the position of its configuration.\<close>

record connected_server =
  cs_name :: string
  cs_session :: nat
  cs_tools :: "json list"
  cs_hint :: "string option"

record mcp_pool =
  mp_servers :: "(string, connected_server) dict"
  mp_owner :: "(string, string) dict"

definition mcp_tool_to_openai :: "mcp_tool \<Rightarrow> json" where
  "mcp_tool_to_openai t = function_tool (mt_name t) (case mt_description t of Some d \<Rightarrow> d | None \<Rightarrow> [])
     (case mt_schema t of Some s \<Rightarrow> if truthy s then s else JObj [(''type'', JStr ''object''), (''properties'', JObj [])]
      | None \<Rightarrow> JObj [(''type'', JStr ''object''), (''properties'', JObj [])])"

definition allowed_tool :: "mcp_server_config \<Rightarrow> string \<Rightarrow> bool" where
  "allowed_tool cfg n \<longleftrightarrow> (case ms_allowed cfg of None \<Rightarrow> True | Some [] \<Rightarrow> True | Some ns \<Rightarrow> n \<in> set ns)"

text \<open>The loop over a server's tools: the ones kept and the extended owner table.\<close>

fun take_tools :: "mcp_server_config \<Rightarrow> (string, string) dict \<Rightarrow> mcp_tool list \<Rightarrow> json list \<times> (string, string) dict" where
  "take_tools cfg own [] = ([], own)"
| "take_tools cfg own (t # ts) =
     (if \<not> allowed_tool cfg (mt_name t) \<or> map_of own (mt_name t) \<noteq> None then take_tools cfg own ts
      else (case take_tools cfg (AList.update (mt_name t) (ms_name cfg) own) ts of
          (js, own') \<Rightarrow> (mcp_tool_to_openai t # js, own')))"

definition connect_server :: "nat \<Rightarrow> mcp_server_config \<Rightarrow> mcp_tool list \<Rightarrow> mcp_pool \<Rightarrow> mcp_pool" where
  "connect_server i cfg listed p = (case take_tools cfg (mp_owner p) listed of
     (js, own) \<Rightarrow> p\<lparr>mp_owner := own, mp_servers := AList.update (ms_name cfg)
       \<lparr>cs_name = ms_name cfg, cs_session = i, cs_tools = js, cs_hint = ms_hint cfg\<rparr> (mp_servers p)\<rparr>)"

text \<open>Entering the pool; \<open>listing i\<close> is \<^const>\<open>None\<close> when the \<open>i\<close>-th server cannot be dialled, which ends it.\<close>

fun enter_pool :: "(nat \<Rightarrow> mcp_tool list option) \<Rightarrow> nat \<Rightarrow> mcp_server_config list \<Rightarrow> mcp_pool \<Rightarrow> mcp_pool option" where
  "enter_pool listing i [] p = Some p"
| "enter_pool listing i (cfg # cs) p = (case listing i of
     None \<Rightarrow> None | Some listed \<Rightarrow> enter_pool listing (i + 1) cs (connect_server i cfg listed p))"

definition empty_pool :: mcp_pool where
  "empty_pool = \<lparr>mp_servers = [], mp_owner = []\<rparr>"

datatype content_block = Text_Block string | Image_Block string string | Resource_Block string | Other_Block string

definition render_content_block :: "content_block \<Rightarrow> string" where
  "render_content_block b = (case b of
     Text_Block t \<Rightarrow> t
   | Image_Block mime n \<Rightarrow> ''[image type='' @ mime @ '' bytes_b64='' @ n @ '']''
   | Resource_Block uri \<Rightarrow> ''[resource uri='' @ (if uri = [] then ''?'' else uri) @ '']''
   | Other_Block ty \<Rightarrow> ''[content type='' @ ty @ '']'')"

text \<open>A session's answer to a call, or the exception it raises.\<close>

datatype session_reply = Session_Raises string | Session_Result "content_block list" bool | Session_Cancelled

definition flatten_result :: "session_reply \<Rightarrow> tool_outcome" where
  "flatten_result r = (case r of
     Session_Raises e \<Rightarrow> Tool_Raises e
   | Session_Cancelled \<Rightarrow> Tool_Cancelled
   | Session_Result bs err \<Rightarrow> (let t = join [CHR 0x0A] (filter (\<lambda>p. p \<noteq> []) (map render_content_block bs))
       in Tool_Text (if err then ''[tool error] '' @ t else t)))"

definition mcp_call :: "mcp_pool \<Rightarrow> (nat \<Rightarrow> string \<Rightarrow> json \<Rightarrow> session_reply) \<Rightarrow> string \<Rightarrow> json \<Rightarrow> tool_outcome" where
  "mcp_call p session n a = (case map_of (mp_owner p) n of
     None \<Rightarrow> Tool_Not_Owned
   | Some owner \<Rightarrow> (case map_of (mp_servers p) owner of
       None \<Rightarrow> Tool_Raises ''KeyError''
     | Some s \<Rightarrow> flatten_result (session (cs_session s) n a)))"

definition pool_tools :: "mcp_pool \<Rightarrow> json list" where
  "pool_tools p = concat (map (\<lambda>(_, s). cs_tools s) (mp_servers p))"

definition purpose_hints :: "mcp_pool \<Rightarrow> (string \<times> string) list" where
  "purpose_hints p = concat (map (\<lambda>(_, s). case cs_hint s of Some h \<Rightarrow> if h = [] then [] else [(cs_name s, h)] | None \<Rightarrow> [])
     (mp_servers p))"

definition mcp_tool_pool :: "mcp_pool \<Rightarrow> (nat \<Rightarrow> nat \<Rightarrow> string \<Rightarrow> json \<Rightarrow> session_reply) \<Rightarrow> tool_pool" where
  "mcp_tool_pool p session = \<lparr>openai_tools = pool_tools p, owns_tool = (\<lambda>n. map_of (mp_owner p) n \<noteq> None),
     call_tool = (\<lambda>k n a. mcp_call p (session k) n a)\<rparr>"

section \<open>Lemmas\<close>

lemma take_tools_spec:
  "take_tools cfg own ts = (js, own') \<Longrightarrow>
    distinct (map tool_name js) \<and> (\<forall>j \<in> set js. \<exists>n. tool_name j = Some n \<and> map_of own n = None)
    \<and> (\<forall>n. map_of own' n = (if Some n \<in> set (map tool_name js) then Some (ms_name cfg) else map_of own n))"
proof (induction ts arbitrary: own js)
  case (Cons t ts)
  show ?case
  proof (cases "\<not> allowed_tool cfg (mt_name t) \<or> map_of own (mt_name t) \<noteq> None")
    case True
    with Cons.prems Cons.IH[of own js] show ?thesis by simp
  next
    case False
    let ?own = "AList.update (mt_name t) (ms_name cfg) own"
    obtain js' where tt: "take_tools cfg ?own ts = (js', own')" and js: "js = mcp_tool_to_openai t # js'"
      using Cons.prems False by (auto split: prod.splits)
    have tn: "tool_name (mcp_tool_to_openai t) = Some (mt_name t)" by (simp add: mcp_tool_to_openai_def)
    note ih = Cons.IH[OF tt]
    have new: "map_of own (mt_name t) = None" using False by simp
    have notin: "Some (mt_name t) \<notin> set (map tool_name js')" using ih by force
    have old: "\<exists>n. tool_name j = Some n \<and> map_of own n = None" if "j \<in> set js'" for j
      using ih that by (fastforce split: if_splits)
    show ?thesis using ih notin old new by (auto simp: js tn)
  qed
qed simp

text \<open>The pool's tables agree: every owned tool is listed by its owner's live session, once.\<close>

definition pool_inv :: "mcp_pool \<Rightarrow> bool" where
  "pool_inv p \<longleftrightarrow> distinct (map fst (mp_servers p)) \<and> distinct (map tool_name (pool_tools p))
     \<and> (\<forall>n own. map_of (mp_owner p) n = Some own \<longleftrightarrow>
          (\<exists>s. map_of (mp_servers p) own = Some s \<and> Some n \<in> set (map tool_name (cs_tools s))))"

lemma update_fresh: "map_of d k = None \<Longrightarrow> AList.update k v d = d @ [(k, v)]"
  by (induction d) (auto split: if_splits)

lemma owned_iff_listed:
  assumes "pool_inv p" shows "map_of (mp_owner p) n \<noteq> None \<longleftrightarrow> Some n \<in> set (map tool_name (pool_tools p))"
proof -
  have "map_of (mp_owner p) n \<noteq> None \<longleftrightarrow>
      (\<exists>own s. map_of (mp_servers p) own = Some s \<and> Some n \<in> set (map tool_name (cs_tools s)))"
    using assms unfolding pool_inv_def by (metis option.exhaust option.distinct(1))
  also have "\<dots> \<longleftrightarrow> Some n \<in> set (map tool_name (pool_tools p))"
    using assms unfolding pool_inv_def pool_tools_def by force
  finally show ?thesis .
qed

lemma connect_server_inv:
  assumes "pool_inv p" "map_of (mp_servers p) (ms_name cfg) = None"
  shows "pool_inv (connect_server i cfg listed p)"
proof -
  obtain js own where t: "take_tools cfg (mp_owner p) listed = (js, own)" by fastforce
  note tt = take_tools_spec[OF t]
  let ?s = "\<lparr>cs_name = ms_name cfg, cs_session = i, cs_tools = js, cs_hint = ms_hint cfg\<rparr>"
  have p': "mp_servers (connect_server i cfg listed p) = mp_servers p @ [(ms_name cfg, ?s)]"
    "mp_owner (connect_server i cfg listed p) = own"
    by (simp_all add: connect_server_def t update_fresh[OF assms(2)])
  have fresh: "ms_name cfg \<notin> fst ` set (mp_servers p)" using assms(2) by (simp add: map_of_eq_None_iff)
  have disj: "set (map tool_name js) \<inter> set (map tool_name (pool_tools p)) = {}"
  proof (rule ccontr)
    assume "set (map tool_name js) \<inter> set (map tool_name (pool_tools p)) \<noteq> {}"
    then obtain j where j: "j \<in> set js" "tool_name j \<in> set (map tool_name (pool_tools p))" by auto
    from tt j(1) obtain n where n: "tool_name j = Some n" "map_of (mp_owner p) n = None" by blast
    with j(2) owned_iff_listed[OF assms(1), of n] show False by simp
  qed
  have tools: "pool_tools (connect_server i cfg listed p) = pool_tools p @ js" by (simp add: pool_tools_def p')
  have servers: "map_of (mp_servers p @ [(ms_name cfg, ?s)]) o' =
      (if o' = ms_name cfg then Some ?s else map_of (mp_servers p) o')" for o'
    using assms(2) by (auto simp: map_add_def split: option.splits)
  have own: "map_of own n = Some o' \<longleftrightarrow>
      (\<exists>s. map_of (mp_servers p @ [(ms_name cfg, ?s)]) o' = Some s \<and> Some n \<in> set (map tool_name (cs_tools s)))" for n o'
  proof (cases "Some n \<in> set (map tool_name js)")
    case True
    then have "map_of (mp_owner p) n = None" using tt by force
    then have no: "\<not> (\<exists>s. map_of (mp_servers p) o' = Some s \<and> Some n \<in> set (map tool_name (cs_tools s)))"
      using assms(1) unfolding pool_inv_def by (metis option.distinct(1))
    have "map_of own n = Some (ms_name cfg)" using tt True by simp
    with True no show ?thesis unfolding servers by auto
  next
    case False
    then have o: "map_of own n = map_of (mp_owner p) n" using tt by simp
    have "map_of (mp_owner p) n \<noteq> Some (ms_name cfg)"
      using assms unfolding pool_inv_def by (metis option.distinct(1))
    moreover have "map_of (mp_owner p) n = Some o' \<longleftrightarrow>
        (\<exists>s. map_of (mp_servers p) o' = Some s \<and> Some n \<in> set (map tool_name (cs_tools s)))"
      using assms(1) unfolding pool_inv_def by blast
    ultimately show ?thesis unfolding servers o using False by (cases "o' = ms_name cfg") auto
  qed
  have "distinct (map fst (mp_servers p @ [(ms_name cfg, ?s)]))" using assms(1) fresh by (simp add: pool_inv_def)
  moreover have "distinct (map tool_name (pool_tools p @ js))" using assms(1) tt disj by (auto simp: pool_inv_def)
  ultimately show ?thesis unfolding pool_inv_def tools p' using own by blast
qed

lemma connect_server_names:
  "map_of (mp_servers (connect_server i cfg listed p)) n = None \<longleftrightarrow> n \<noteq> ms_name cfg \<and> map_of (mp_servers p) n = None"
  by (auto simp: connect_server_def split: prod.splits)

lemma enter_pool_inv:
  "enter_pool listing i cfgs p = Some p' \<Longrightarrow> pool_inv p \<Longrightarrow> distinct (map ms_name cfgs) \<Longrightarrow>
    (\<forall>c \<in> set cfgs. map_of (mp_servers p) (ms_name c) = None) \<Longrightarrow> pool_inv p'"
proof (induction cfgs arbitrary: i p)
  case (Cons c cs)
  obtain l where l: "listing i = Some l" using Cons.prems(1) by (auto split: option.splits)
  have inv: "pool_inv (connect_server i c l p)" by (rule connect_server_inv) (use Cons.prems in auto)
  have names: "ms_name d \<noteq> ms_name c" if "d \<in> set cs" for d using Cons.prems(3) that by (metis distinct.simps(2) image_eqI list.set_map list.simps(9))
  show ?case
    by (rule Cons.IH[OF _ inv]) (use Cons.prems l names in \<open>auto simp: connect_server_names\<close>)
qed simp

lemma empty_pool_inv: "pool_inv empty_pool"
  by (simp add: pool_inv_def empty_pool_def pool_tools_def)

lemma flatten_result_owned: "flatten_result r \<noteq> Tool_Not_Owned"
  by (auto simp: flatten_result_def Let_def split: session_reply.splits)

section \<open>The backends meet the interface\<close>

lemma mcp_pool_backend: "pool_inv p \<Longrightarrow> tool_backend (mcp_tool_pool p session)"
proof
  fix n assume p: "pool_inv p"
  show "owns_tool (mcp_tool_pool p session) n = (Some n \<in> set (map tool_name (openai_tools (mcp_tool_pool p session))))"
    using owned_iff_listed[OF p] by (simp add: mcp_tool_pool_def)
  show "distinct (map tool_name (openai_tools (mcp_tool_pool p session)))"
    using p by (simp add: mcp_tool_pool_def pool_inv_def)
  fix k a assume "owns_tool (mcp_tool_pool p session) n"
  then show "call_tool (mcp_tool_pool p session) k n a \<noteq> Tool_Not_Owned"
    by (auto simp: mcp_tool_pool_def mcp_call_def flatten_result_owned split: option.splits)
qed

lemma web_search_call_owned: "snd (web_search_call c W web_search_tool_name d) \<noteq> Tool_Not_Owned"
  by (auto simp: web_search_call_def Let_def split: option.splits json.splits searched.splits prod.splits if_splits)

interpretation web_backend: tool_backend "web_search_pool c W" for c W
  by unfold_locales
    (auto simp: web_search_pool_def web_search_call_owned split: option.splits)

interpretation sandbox_backend: tool_backend "sandbox_pool text_of exec" for text_of exec
  by unfold_locales
    (auto simp: sandbox_pool_def sandbox_call_def Let_def split: option.splits exec_reply.splits if_splits)

text \<open>Servers keep their position and what they listed.\<close>

lemma connect_server_lookup:
  "map_of (mp_servers (connect_server i cfg listed p)) n =
     (if n = ms_name cfg then Some \<lparr>cs_name = ms_name cfg, cs_session = i,
        cs_tools = fst (take_tools cfg (mp_owner p) listed), cs_hint = ms_hint cfg\<rparr>
      else map_of (mp_servers p) n)"
  by (simp add: connect_server_def split: prod.splits)

lemma enter_pool_sessions:
  "enter_pool listing i cfgs p = Some p' \<Longrightarrow> map_of (mp_servers p') n = Some s \<Longrightarrow>
    map_of (mp_servers p) n = Some s \<or> (\<exists>k < length cfgs. cs_session s = i + k \<and> ms_name (cfgs ! k) = n
      \<and> (\<exists>own. cs_tools s = fst (take_tools (cfgs ! k) own (the (listing (i + k))))))"
proof (induction cfgs arbitrary: i p)
  case (Cons c cs)
  obtain l where l: "listing i = Some l" using Cons.prems(1) by (auto split: option.splits)
  have "enter_pool listing (i + 1) cs (connect_server i c l p) = Some p'" using Cons.prems(1) l by simp
  from Cons.IH[OF this Cons.prems(2)] show ?case
  proof
    assume "map_of (mp_servers (connect_server i c l p)) n = Some s"
    then show ?thesis unfolding connect_server_lookup using l by (auto split: if_splits intro!: exI[of _ 0])
  next
    assume "\<exists>k < length cs. cs_session s = i + 1 + k \<and> ms_name (cs ! k) = n
      \<and> (\<exists>own. cs_tools s = fst (take_tools (cs ! k) own (the (listing (i + 1 + k)))))"
    then obtain k where "k < length cs" "cs_session s = i + 1 + k" "ms_name (cs ! k) = n"
      "\<exists>own. cs_tools s = fst (take_tools (cs ! k) own (the (listing (i + 1 + k))))" by blast
    then show ?thesis by (auto intro!: exI[of _ "Suc k"])
  qed
qed simp

lemma take_tools_listed:
  "j \<in> set (fst (take_tools cfg own ts)) \<Longrightarrow> \<exists>t \<in> set ts. j = mcp_tool_to_openai t \<and> allowed_tool cfg (mt_name t)"
  by (induction cfg own ts rule: take_tools.induct) (auto split: if_splits prod.splits)

definition two_servers :: "mcp_server_config list" where
  "two_servers = [\<lparr>ms_name = ''a'', ms_url = ''u'', ms_token = None, ms_hint = None, ms_allowed = None\<rparr>,
     \<lparr>ms_name = ''b'', ms_url = ''v'', ms_token = None, ms_hint = None, ms_allowed = None\<rparr>]"

definition plain_tool :: "string \<Rightarrow> mcp_tool" where
  "plain_tool n = \<lparr>mt_name = n, mt_description = None, mt_schema = None\<rparr>"

definition sample_listing :: "nat \<Rightarrow> mcp_tool list option" where
  "sample_listing i = Some (if i = 0 then [plain_tool ''read''] else [plain_tool ''read'', plain_tool ''write''])"

section \<open>Properties\<close>

text \<open>When the servers of a request have different names, the model is offered each owned tool exactly
  once, and a call of it goes to a server that lists the tool and allows it.\<close>

theorem mcp_calls_reach_listing_server:
  assumes "enter_pool listing 0 cfgs empty_pool = Some p" "distinct (map ms_name cfgs)" "map_of (mp_owner p) n \<noteq> None"
  shows "Some n \<in> set (map tool_name (pool_tools p)) \<and> distinct (map tool_name (pool_tools p))
    \<and> (\<exists>k < length cfgs. (\<forall>session a. mcp_call p session n a = flatten_result (session k n a))
        \<and> allowed_tool (cfgs ! k) n \<and> (\<exists>t \<in> set (the (listing k)). mt_name t = n))"
proof -
  have inv: "pool_inv p" by (rule enter_pool_inv[OF assms(1) empty_pool_inv assms(2)]) (simp add: empty_pool_def)
  obtain own where o: "map_of (mp_owner p) n = Some own" using assms(3) by blast
  then obtain s where s: "map_of (mp_servers p) own = Some s" "Some n \<in> set (map tool_name (cs_tools s))"
    using inv unfolding pool_inv_def by blast
  from enter_pool_sessions[OF assms(1) s(1)] obtain k own0 where
    k: "k < length cfgs" "cs_session s = k" and l: "cs_tools s = fst (take_tools (cfgs ! k) own0 (the (listing k)))"
    by (auto simp: empty_pool_def)
  from s(2) obtain j where j: "j \<in> set (cs_tools s)" "tool_name j = Some n" by auto
  from take_tools_listed[of j "cfgs ! k" own0 "the (listing k)"] j l obtain t
    where t: "t \<in> set (the (listing k))" "j = mcp_tool_to_openai t" "allowed_tool (cfgs ! k) (mt_name t)" by auto
  have "mt_name t = n" using j(2) t(2) by (simp add: mcp_tool_to_openai_def)
  moreover have "mcp_call p session n a = flatten_result (session k n a)" for session a
    by (simp add: mcp_call_def o s(1) k(2))
  ultimately show ?thesis
    using k(1) t owned_iff_listed[OF inv, of n] inv assms(3) unfolding pool_inv_def by blast
qed

lemma mcp_calls_reach_listing_server_witness:
  "\<exists>p. enter_pool sample_listing 0 two_servers empty_pool = Some p \<and> Some ''write'' \<in> set (map tool_name (pool_tools p))"
proof -
  obtain p where p: "enter_pool sample_listing 0 two_servers empty_pool = Some p"
    by (simp add: two_servers_def sample_listing_def)
  then have "map_of (mp_owner p) ''write'' \<noteq> None"
    by (auto simp: two_servers_def sample_listing_def connect_server_def empty_pool_def allowed_tool_def plain_tool_def)
  moreover have "distinct (map ms_name two_servers)" by (simp add: two_servers_def)
  ultimately show ?thesis using mcp_calls_reach_listing_server[OF p] p by blast
qed

text \<open>Two servers configured under the same name break the pool: the tools of the first are no longer
  offered, yet still count as owned, and a call of one is sent to the second server's session.\<close>

theorem same_name_misroutes:
  assumes "ms_name c1 = ms_name c2" "listing 0 = Some [t1]" "listing 1 = Some ts" "mt_name t1 \<notin> mt_name ` set ts"
    "allowed_tool c1 (mt_name t1)"
  shows "\<exists>p. enter_pool listing 0 [c1, c2] empty_pool = Some p \<and> map_of (mp_owner p) (mt_name t1) \<noteq> None
    \<and> Some (mt_name t1) \<notin> set (map tool_name (pool_tools p))
    \<and> (\<forall>session a. mcp_call p session (mt_name t1) a = flatten_result (session 1 (mt_name t1) a))"
proof -
  let ?p1 = "connect_server 0 c1 [t1] empty_pool" and ?n = "mt_name t1"
  let ?p = "connect_server (Suc 0) c2 ts ?p1"
  have p1: "mp_owner ?p1 = [(?n, ms_name c1)]" "mp_servers ?p1 =
      [(ms_name c1, \<lparr>cs_name = ms_name c1, cs_session = 0, cs_tools = [mcp_tool_to_openai t1], cs_hint = ms_hint c1\<rparr>)]"
    using assms(5) by (simp_all add: connect_server_def empty_pool_def)
  obtain js own where t: "take_tools c2 (mp_owner ?p1) ts = (js, own)" by fastforce
  have no: "Some ?n \<notin> set (map tool_name js)"
    using take_tools_listed[of _ c2 "mp_owner ?p1" ts] assms(4) t by (fastforce simp: mcp_tool_to_openai_def)
  have p: "mp_owner ?p = own" "mp_servers ?p =
      [(ms_name c1, \<lparr>cs_name = ms_name c2, cs_session = Suc 0, cs_tools = js, cs_hint = ms_hint c2\<rparr>)]"
    by (simp_all add: connect_server_def[of "Suc 0" c2] t p1(2) assms(1))
  have own: "map_of own ?n = Some (ms_name c1)" using take_tools_spec[OF t] no by (simp add: p1)
  have "enter_pool listing 0 [c1, c2] empty_pool = Some ?p" using assms(2,3) by simp
  moreover have "pool_tools ?p = js" by (simp add: pool_tools_def p)
  moreover have "mcp_call ?p session ?n a = flatten_result (session 1 ?n a)" for session a
    by (simp add: mcp_call_def p own)
  ultimately show ?thesis using no own p(1) by (intro exI[of _ ?p]) simp
qed

lemma same_name_misroutes_witness:
  "\<exists>p. enter_pool (\<lambda>i. Some (if i = 0 then [plain_tool ''read''] else [plain_tool ''write''])) 0
     [two_servers ! 0, two_servers ! 0] empty_pool = Some p \<and> Some ''read'' \<notin> set (map tool_name (pool_tools p))"
  using same_name_misroutes[of "two_servers ! 0" "two_servers ! 0"
      "\<lambda>i. Some (if i = 0 then [plain_tool ''read''] else [plain_tool ''write''])" "plain_tool ''read''" "[plain_tool ''write'']"]
  by (simp add: plain_tool_def two_servers_def allowed_tool_def)

end
