(* ===== verification/Tool_Format.thy ===== *)
theory Tool_Format
  imports Backends
begin

text \<open>
  Tool definitions in the three wire formats and the purpose hints put before a conversation
  (\<open>services/tool_format.py\<close>, \<open>inject_purpose_hints\<close> of \<open>services/mcp_loop.py\<close>).

  A backend lists its tools in the chat-completions shape; the other two routes convert at the boundary.
  \<open>env\<close> is the environment and \<open>py_text\<close> is Python's \<open>str\<close> of a JSON value, which the chat variant
  applies to a system message whatever its content is.
\<close>

section \<open>Converting tools\<close>

definition or_field :: "string \<Rightarrow> string \<Rightarrow> json \<Rightarrow> (string \<times> json) list" where
  "or_field new k f = (case jget k f of Some v \<Rightarrow> [(new, v)] | None \<Rightarrow> [])"

definition function_of :: "json \<Rightarrow> json option" where
  "function_of t = (if jget ''type'' t = Some (JStr ''function'') then
     (case jget ''function'' t of Some (JObj f) \<Rightarrow> Some (JObj f) | _ \<Rightarrow> None) else None)"

definition name_field :: "json \<Rightarrow> json" where
  "name_field f = (case jget ''name'' f of Some v \<Rightarrow> v | None \<Rightarrow> JStr [])"

definition to_anthropic_tool :: "json \<Rightarrow> json" where
  "to_anthropic_tool t = (case function_of t of
     None \<Rightarrow> t
   | Some f \<Rightarrow> JObj ((''name'', name_field f) # or_field ''description'' ''description'' f
       @ [(''input_schema'', case jget ''parameters'' f of Some p \<Rightarrow> p
            | None \<Rightarrow> JObj [(''type'', JStr ''object''), (''properties'', JObj [])])]))"

definition openai_to_anthropic_tools :: "json list \<Rightarrow> json list" where
  "openai_to_anthropic_tools ts = map to_anthropic_tool ts"

definition to_responses_tool :: "json \<Rightarrow> json" where
  "to_responses_tool t = (case function_of t of
     None \<Rightarrow> t
   | Some f \<Rightarrow> JObj ((''type'', JStr ''function'') # (''name'', name_field f)
       # or_field ''description'' ''description'' f @ or_field ''parameters'' ''parameters'' f))"

definition openai_to_responses_tools :: "json list \<Rightarrow> json list" where
  "openai_to_responses_tools ts = map to_responses_tool ts"

section \<open>Purpose hints\<close>

definition purpose_hint_header :: string where
  "purpose_hint_header = ''You have access to the following tools:''"

definition resolve_header :: "(string \<Rightarrow> string option) \<Rightarrow> string option \<Rightarrow> string" where
  "resolve_header env header = (case header of Some (c # cs) \<Rightarrow> c # cs
     | _ \<Rightarrow> (case otari_env env ''TOOLS_HEADER'' of Some (c # cs) \<Rightarrow> c # cs | _ \<Rightarrow> purpose_hint_header))"

definition build_hint_block :: "(string \<Rightarrow> string option) \<Rightarrow> (string \<times> string) list \<Rightarrow> string option \<Rightarrow> string" where
  "build_hint_block env hints header =
     join [CHR 0x0A] (resolve_header env header # map (\<lambda>(n, h). ''- '' @ n @ '': '' @ h) hints)"

definition blank_line :: string where
  "blank_line = [CHR 0x0A, CHR 0x0A]"

text \<open>\<open>{**d, k: v}\<close> of a message.\<close>

definition with_field :: "string \<Rightarrow> json \<Rightarrow> json \<Rightarrow> json" where
  "with_field k v m = (case m of JObj d \<Rightarrow> JObj (AList.update k v d) | _ \<Rightarrow> m)"

definition system_message :: "json \<Rightarrow> json" where
  "system_message content = JObj [(''role'', JStr ''system''), (''content'', content)]"

definition inject_purpose_hints :: "(json \<Rightarrow> string) \<Rightarrow> (string \<Rightarrow> string option) \<Rightarrow> json list
    \<Rightarrow> (string \<times> string) list \<Rightarrow> string option \<Rightarrow> json list" where
  "inject_purpose_hints py_text env messages hints header =
     (if hints = [] then messages
      else (let block = build_hint_block env hints header in
        case messages of
          m # ms \<Rightarrow>
            if jget ''role'' m = Some (JStr ''system'')
            then with_field ''content'' (JStr (if truthy_opt (jget ''content'' m)
                   then py_text (the (jget ''content'' m)) @ blank_line @ block else block)) m # ms
            else system_message (JStr block) # m # ms
        | [] \<Rightarrow> [system_message (JStr block)]))"

definition inject_purpose_hints_anthropic :: "(string \<Rightarrow> string option) \<Rightarrow> (string, json) dict
    \<Rightarrow> (string \<times> string) list \<Rightarrow> string option \<Rightarrow> (string, json) dict" where
  "inject_purpose_hints_anthropic env kwargs hints header =
     (if hints = [] then kwargs
      else (let block = build_hint_block env hints header in
        AList.update ''system'' (case map_of kwargs ''system'' of
          Some (JStr s) \<Rightarrow> JStr (if s = [] then block else block @ blank_line @ s)
        | Some (JArr bs) \<Rightarrow> JArr (JObj [(''type'', JStr ''text''), (''text'', JStr block)] # bs)
        | _ \<Rightarrow> JStr block) kwargs))"

definition inject_purpose_hints_responses :: "(string \<Rightarrow> string option) \<Rightarrow> (string, json) dict
    \<Rightarrow> (string \<times> string) list \<Rightarrow> string option \<Rightarrow> (string, json) dict" where
  "inject_purpose_hints_responses env kwargs hints header =
     (if hints = [] then kwargs
      else (let block = build_hint_block env hints header in
        AList.update ''instructions'' (case map_of kwargs ''instructions'' of
          Some (JStr s) \<Rightarrow> JStr (if s = [] then block else block @ blank_line @ s)
        | _ \<Rightarrow> JStr block) kwargs))"

section \<open>Lemmas\<close>

text \<open>The name a tool is called by in the flat shapes.\<close>

definition flat_name :: "json \<Rightarrow> string option" where
  "flat_name t = (case jget ''name'' t of Some (JStr n) \<Rightarrow> Some n | _ \<Rightarrow> None)"

lemma function_of_function_tool [simp]:
  "function_of (function_tool n d p) = Some (JObj [(''name'', JStr n), (''description'', JStr d), (''parameters'', p)])"
  by (simp add: function_of_def function_tool_def)

lemma flat_name_converted:
  assumes "function_of t = Some f"
  shows "tool_name t \<noteq> None \<Longrightarrow> flat_name (to_anthropic_tool t) = tool_name t"
    and "tool_name t \<noteq> None \<Longrightarrow> flat_name (to_responses_tool t) = tool_name t"
  using assms by (auto simp: function_of_def tool_name_def flat_name_def to_anthropic_tool_def to_responses_tool_def
      name_field_def split: if_splits option.splits json.splits)

lemma names_converted:
  assumes "\<forall>t \<in> set ts. function_of t \<noteq> None \<and> tool_name t \<noteq> None"
  shows "map flat_name (openai_to_anthropic_tools ts) = map tool_name ts"
    "map flat_name (openai_to_responses_tools ts) = map tool_name ts"
  using assms flat_name_converted by (auto simp: openai_to_anthropic_tools_def openai_to_responses_tools_def)

lemma pool_tools_are_functions:
  "\<forall>t \<in> set (openai_tools (web_search_pool c W)). function_of t \<noteq> None \<and> tool_name t \<noteq> None"
  "\<forall>t \<in> set (openai_tools (sandbox_pool text_of exec)). function_of t \<noteq> None \<and> tool_name t \<noteq> None"
  by (simp_all add: web_search_pool_def sandbox_pool_def)

text \<open>A user's system text survives the injection, with the hints after it (chat) or before it (the others).\<close>

lemma system_text_kept:
  assumes "hints \<noteq> []" "s \<noteq> []"
  shows "inject_purpose_hints (\<lambda>j. case j of JStr t \<Rightarrow> t | _ \<Rightarrow> []) env (system_message (JStr s) # ms) hints header
      = system_message (JStr (s @ blank_line @ build_hint_block env hints header)) # ms"
    and "map_of kw ''system'' = Some (JStr s) \<Longrightarrow>
      map_of (inject_purpose_hints_anthropic env kw hints header) ''system''
        = Some (JStr (build_hint_block env hints header @ blank_line @ s))"
    and "map_of kw ''instructions'' = Some (JStr s) \<Longrightarrow>
      map_of (inject_purpose_hints_responses env kw hints header) ''instructions''
        = Some (JStr (build_hint_block env hints header @ blank_line @ s))"
  using assms by (simp_all add: inject_purpose_hints_def inject_purpose_hints_anthropic_def
      inject_purpose_hints_responses_def system_message_def with_field_def truthy_opt_def Let_def)

text \<open>No hint touches anything but the system field, and the conversation after it is kept.\<close>

lemma hints_touch_system_only:
  "k \<noteq> ''system'' \<Longrightarrow> map_of (inject_purpose_hints_anthropic env kw hints header) k = map_of kw k"
  "k \<noteq> ''instructions'' \<Longrightarrow> map_of (inject_purpose_hints_responses env kw hints header) k = map_of kw k"
  by (simp_all add: inject_purpose_hints_anthropic_def inject_purpose_hints_responses_def Let_def)

lemma hints_keep_conversation:
  "\<exists>sys. inject_purpose_hints py_text env messages hints header = sys @ dropWhile (\<lambda>m. jget ''role'' m = Some (JStr ''system'')) (take 1 messages) @ drop 1 messages
     \<and> length sys \<le> 1"
  by (auto simp: inject_purpose_hints_def Let_def split: list.splits intro: exI[of _ "[]"] exI[of _ "[x]" for x])

end
