(* ===== verification/Tool_Loop.thy ===== *)
theory Tool_Loop
  imports Usage Tool_Format
begin

text \<open>
  The non-streaming tool loops (\<open>services/mcp_loop.py\<close>, \<open>mcp_loop_messages.py\<close>,
  \<open>mcp_loop_responses.py\<close>): ask the model, run the tools of the backend it calls, append the results
  and ask again, at most \<open>max_iterations\<close> times.

  The three sources share one skeleton, which is \<open>run_loop\<close>; what a format does with an answer, how it
  adds up usage and how it folds the totals into the answer it returns is its \<open>loop_format\<close>. The model
  is a parameter: the \<open>i\<close>-th call answers the tools and the conversation it is given, or fails.
  \<open>loads\<close> is \<open>json.loads\<close>. What the loops log, and their fallback for SDK objects that cannot be
  assigned to, are left out.
\<close>

section \<open>Running tools\<close>

text \<open>A tool failure becomes text for the model; only a cancellation ends the loop.\<close>

definition tool_text :: "tool_outcome \<Rightarrow> string option" where
  "tool_text r = (case r of
     Tool_Text t \<Rightarrow> Some t
   | Tool_Raises e \<Rightarrow> Some (''[tool error] '' @ e)
   | Tool_Not_Owned \<Rightarrow> Some ''[tool error] does not own tool''
   | Tool_Cancelled \<Rightarrow> None)"

text \<open>Calls in order, starting with the request's \<open>k\<close>-th one; \<^const>\<open>None\<close> when one is cancelled.\<close>

fun execute_calls :: "tool_pool \<Rightarrow> nat \<Rightarrow> (string \<times> json) list \<Rightarrow> string list option" where
  "execute_calls B k [] = Some []"
| "execute_calls B k ((n, a) # cs) = (case tool_text (call_tool B k n a) of
     None \<Rightarrow> None
   | Some t \<Rightarrow> map_option ((#) t) (execute_calls B (k + 1) cs))"

text \<open>\<open>json.loads(arguments or "{}")\<close>, an empty object when it fails.\<close>

definition parsed_args :: "(string \<Rightarrow> json option) \<Rightarrow> string \<Rightarrow> json" where
  "parsed_args loads s = (case loads (if s = [] then ''{}'' else s) of Some v \<Rightarrow> v | None \<Rightarrow> JObj [])"

section \<open>The skeleton\<close>

text \<open>What a format decides after an answer: return this answer, or go on with these messages appended.
  Both say which tools were run first; a cancelled tool call ends the round.\<close>

datatype 'r round =
    Round_Return 'r "(string \<times> json) list"
  | Round_Next "json list" "(string \<times> json) list"
  | Round_Cancelled "(string \<times> json) list"

record ('r, 'u) loop_format =
  lf_round :: "nat \<Rightarrow> 'r \<Rightarrow> 'r round"
  lf_add :: "'u \<Rightarrow> 'r \<Rightarrow> 'u"
  lf_fold :: "'u \<Rightarrow> 'r \<Rightarrow> 'r"

datatype 'r loop_end = Loop_Done 'r | Loop_Exceeded | Loop_Failed string | Loop_Cancelled

record 'r loop_run =
  lr_asked :: "json list list"
  lr_answers :: "'r list"
  lr_calls :: "(string \<times> json) list"
  lr_end :: "'r loop_end"

definition ended :: "json list list \<Rightarrow> 'r list \<Rightarrow> (string \<times> json) list \<Rightarrow> 'r loop_end \<Rightarrow> 'r loop_run" where
  "ended m r c e = \<lparr>lr_asked = m, lr_answers = r, lr_calls = c, lr_end = e\<rparr>"

definition after_round :: "json list \<Rightarrow> 'r \<Rightarrow> (string \<times> json) list \<Rightarrow> 'r loop_run \<Rightarrow> 'r loop_run" where
  "after_round m r c run = run\<lparr>lr_asked := m # lr_asked run, lr_answers := r # lr_answers run,
     lr_calls := c @ lr_calls run\<rparr>"

text \<open>\<open>n\<close> rounds are left, this is the \<open>i\<close>-th, \<open>k\<close> tools have been run, \<open>msgs\<close> is the conversation and \<open>acc\<close>
  the usage so far.\<close>

fun run_loop :: "('r, 'u) loop_format \<Rightarrow> (nat \<Rightarrow> json list \<Rightarrow> (string, 'r) result) \<Rightarrow> nat \<Rightarrow> nat \<Rightarrow> nat
    \<Rightarrow> json list \<Rightarrow> 'u \<Rightarrow> 'r loop_run" where
  "run_loop F ask 0 i k msgs acc = ended [] [] [] Loop_Exceeded"
| "run_loop F ask (Suc n) i k msgs acc =
     (case ask i msgs of
        Inl e \<Rightarrow> ended [msgs] [] [] (Loop_Failed e)
      | Inr r \<Rightarrow> (case lf_round F k r of
          Round_Return r' c \<Rightarrow> ended [msgs] [r] c (Loop_Done (lf_fold F (lf_add F acc r) r'))
        | Round_Cancelled c \<Rightarrow> ended [msgs] [r] c Loop_Cancelled
        | Round_Next ms c \<Rightarrow> after_round msgs r c
            (run_loop F ask n (i + 1) (k + length c) (msgs @ ms) (lf_add F acc r))))"

section \<open>Chat completions\<close>

record sdk_call =
  sc_id :: "string option"
  sc_function :: "(string \<times> string) option"

record choice =
  ch_finish :: "string option"
  ch_calls :: "sdk_call list option"

record completion =
  cp_usage :: "completion_usage option"
  cp_choices :: "choice list"

definition or_nil :: "'a list option \<Rightarrow> 'a list" where
  "or_nil xs = (case xs of Some ys \<Rightarrow> ys | None \<Rightarrow> [])"

text \<open>The calls with a function, as \<open>id\<close>, name and arguments.\<close>

definition function_calls :: "sdk_call list \<Rightarrow> (string option \<times> string \<times> string) list" where
  "function_calls cs = map (\<lambda>c. (sc_id c, the (sc_function c))) (filter (\<lambda>c. sc_function c \<noteq> None) cs)"

definition owned_call_of :: "tool_pool \<Rightarrow> string option \<times> string \<times> string \<Rightarrow> bool" where
  "owned_call_of B c = owns_tool B (fst (snd c))"

definition owned_calls :: "tool_pool \<Rightarrow> (string option \<times> string \<times> string) list \<Rightarrow> (string option \<times> string \<times> string) list" where
  "owned_calls B cs = filter (owned_call_of B) cs"

definition has_foreign :: "tool_pool \<Rightarrow> (string option \<times> string \<times> string) list \<Rightarrow> bool" where
  "has_foreign B cs = list_ex (\<lambda>c. \<not> owned_call_of B c) cs"

definition assistant_message :: "(string option \<times> string \<times> string) list \<Rightarrow> json" where
  "assistant_message cs = JObj [(''role'', JStr ''assistant''), (''tool_calls'', JArr (map (\<lambda>(i, n, a).
     JObj [(''id'', case i of Some s \<Rightarrow> JStr s | None \<Rightarrow> JNull), (''type'', JStr ''function''),
       (''function'', JObj [(''name'', JStr n), (''arguments'', JStr a)])]) cs))]"

definition tool_message :: "string option \<times> string \<times> string \<Rightarrow> string \<Rightarrow> json" where
  "tool_message c t = JObj [(''role'', JStr ''tool''), (''tool_call_id'', JStr (case fst c of Some s \<Rightarrow> s | None \<Rightarrow> [])),
     (''content'', JStr t)]"

definition to_run :: "(string \<Rightarrow> json option) \<Rightarrow> (string option \<times> string \<times> string) list \<Rightarrow> (string \<times> json) list" where
  "to_run loads cs = map (\<lambda>(i, n, a). (n, parsed_args loads a)) cs"

text \<open>The foreign calls of a mixed batch are all the caller is shown.\<close>

definition foreign_sdk_calls :: "tool_pool \<Rightarrow> sdk_call list \<Rightarrow> sdk_call list" where
  "foreign_sdk_calls B cs = filter (\<lambda>c. case sc_function c of Some (n, _) \<Rightarrow> \<not> owns_tool B n | None \<Rightarrow> False) cs"

definition with_calls :: "sdk_call list \<Rightarrow> completion \<Rightarrow> completion" where
  "with_calls cs c = (case cp_choices c of [] \<Rightarrow> c
     | ch # rest \<Rightarrow> c\<lparr>cp_choices := ch\<lparr>ch_calls := (if cs = [] then None else Some cs)\<rparr> # rest\<rparr>)"

definition chat_round :: "tool_pool \<Rightarrow> (string \<Rightarrow> json option) \<Rightarrow> nat \<Rightarrow> completion \<Rightarrow> completion round" where
  "chat_round B loads k c = (case cp_choices c of
     [] \<Rightarrow> Round_Return c []
   | ch # _ \<Rightarrow>
       if ch_finish ch \<noteq> Some ''tool_calls'' then Round_Return c []
       else (let sdk = or_nil (ch_calls ch); calls = function_calls sdk; own = owned_calls B calls;
                 run = to_run loads own
             in if has_foreign B calls
                then (if own = [] then Round_Return c []
                      else (case execute_calls B k run of None \<Rightarrow> Round_Cancelled run
                          | Some _ \<Rightarrow> Round_Return (with_calls (foreign_sdk_calls B sdk) c) run))
                else if own = [] then Round_Return c []
                else (case execute_calls B k run of None \<Rightarrow> Round_Cancelled run
                    | Some ts \<Rightarrow> Round_Next (assistant_message own # map2 tool_message own ts) run)))"

definition chat_add :: "int \<times> int \<times> int \<Rightarrow> completion \<Rightarrow> int \<times> int \<times> int" where
  "chat_add acc c = (case cp_usage c of None \<Rightarrow> acc | Some u \<Rightarrow> (case acc of (p, o', r) \<Rightarrow>
     (p + prompt_tokens u, o' + completion_tokens u,
      r + (case prompt_tokens_details u of Some d \<Rightarrow> opt_or0 d | None \<Rightarrow> 0))))"

definition chat_fold :: "int \<times> int \<times> int \<Rightarrow> completion \<Rightarrow> completion" where
  "chat_fold acc c = (case cp_usage c of None \<Rightarrow> c | Some u \<Rightarrow> (case acc of (p, o', r) \<Rightarrow>
     c\<lparr>cp_usage := Some (u\<lparr>prompt_tokens := p, completion_tokens := o', total_tokens := p + o',
       prompt_tokens_details := (if prompt_tokens_details u \<noteq> None \<or> 0 < r then Some (Some r) else None)\<rparr>)\<rparr>))"

definition chat_format :: "tool_pool \<Rightarrow> (string \<Rightarrow> json option) \<Rightarrow> (completion, int \<times> int \<times> int) loop_format" where
  "chat_format B loads = \<lparr>lf_round = chat_round B loads, lf_add = chat_add, lf_fold = chat_fold\<rparr>"

definition mcp_tool_loop :: "tool_pool \<Rightarrow> (string \<Rightarrow> json option)
    \<Rightarrow> (nat \<Rightarrow> json list \<Rightarrow> json list \<Rightarrow> (string, completion) result)
    \<Rightarrow> nat \<Rightarrow> json list \<Rightarrow> json list \<Rightarrow> completion loop_run" where
  "mcp_tool_loop B loads ask max_iterations user_tools msgs =
     run_loop (chat_format B loads) (\<lambda>i. ask i (user_tools @ openai_tools B)) max_iterations 0 0 msgs (0, 0, 0)"

section \<open>Anthropic messages\<close>

datatype message_block = Tool_Use (tu_id: string) (tu_name: string) (tu_input: json) | Plain_Block json

record message_usage =
  mu_input :: int
  mu_output :: int
  mu_cache_read :: int
  mu_cache_write :: int

record message_response =
  mr_usage :: "message_usage option"
  mr_content :: "message_block list"
  mr_stop :: "string option"

definition tool_uses :: "message_block list \<Rightarrow> message_block list" where
  "tool_uses bs = filter (\<lambda>b. case b of Tool_Use _ _ _ \<Rightarrow> True | _ \<Rightarrow> False) bs"

text \<open>\<open>dict(block.input or {})\<close>.\<close>

definition use_args :: "message_block \<Rightarrow> string \<times> json" where
  "use_args b = (tu_name b, case tu_input b of JObj d \<Rightarrow> JObj d | _ \<Rightarrow> JObj [])"

definition block_json :: "message_block \<Rightarrow> json" where
  "block_json b = (case b of
     Tool_Use i n a \<Rightarrow> JObj [(''type'', JStr ''tool_use''), (''id'', JStr i), (''name'', JStr n), (''input'', a)]
   | Plain_Block j \<Rightarrow> j)"

definition tool_result :: "message_block \<Rightarrow> string \<Rightarrow> json" where
  "tool_result b t = JObj [(''type'', JStr ''tool_result''), (''tool_use_id'', JStr (tu_id b)), (''content'', JStr t)]"

definition drop_owned :: "string set \<Rightarrow> message_block list \<Rightarrow> message_block list" where
  "drop_owned ids bs = filter (\<lambda>b. case b of Tool_Use i _ _ \<Rightarrow> i \<notin> ids | _ \<Rightarrow> True) bs"

definition anthropic_round :: "tool_pool \<Rightarrow> nat \<Rightarrow> message_response \<Rightarrow> message_response round" where
  "anthropic_round B k m =
     (let content = mr_content m; own = filter (\<lambda>b. owns_tool B (tu_name b)) (tool_uses content);
          run = map use_args own
      in if list_ex (\<lambda>b. \<not> owns_tool B (tu_name b)) (tool_uses content)
         then (if own = [] then Round_Return m []
               else (case execute_calls B k run of None \<Rightarrow> Round_Cancelled run
                   | Some _ \<Rightarrow> Round_Return (m\<lparr>mr_content := drop_owned (set (map tu_id own)) content\<rparr>) run))
         else if own = [] \<or> mr_stop m \<noteq> Some ''tool_use'' then Round_Return m []
         else (case execute_calls B k run of None \<Rightarrow> Round_Cancelled run
             | Some ts \<Rightarrow> Round_Next
                 [JObj [(''role'', JStr ''assistant''), (''content'', JArr (map block_json content))],
                  JObj [(''role'', JStr ''user''), (''content'', JArr (map2 tool_result own ts))]] run))"

definition anthropic_add :: "int \<times> int \<Rightarrow> message_response \<Rightarrow> int \<times> int" where
  "anthropic_add acc m = (case mr_usage m of None \<Rightarrow> acc | Some u \<Rightarrow> (fst acc + mu_input u, snd acc + mu_output u))"

definition anthropic_fold :: "int \<times> int \<Rightarrow> message_response \<Rightarrow> message_response" where
  "anthropic_fold acc m = (case mr_usage m of None \<Rightarrow> m
     | Some u \<Rightarrow> m\<lparr>mr_usage := Some (u\<lparr>mu_input := fst acc, mu_output := snd acc\<rparr>)\<rparr>)"

definition anthropic_format :: "tool_pool \<Rightarrow> (message_response, int \<times> int) loop_format" where
  "anthropic_format B = \<lparr>lf_round = anthropic_round B, lf_add = anthropic_add, lf_fold = anthropic_fold\<rparr>"

definition anthropic_tool_loop :: "tool_pool \<Rightarrow> (nat \<Rightarrow> json list \<Rightarrow> json list \<Rightarrow> (string, message_response) result)
    \<Rightarrow> nat \<Rightarrow> json list \<Rightarrow> json list \<Rightarrow> message_response loop_run" where
  "anthropic_tool_loop B ask max_iterations user_tools msgs =
     run_loop (anthropic_format B) (\<lambda>i. ask i (user_tools @ openai_to_anthropic_tools (openai_tools B)))
       max_iterations 0 0 msgs (0, 0)"

section \<open>Responses\<close>

datatype output_item = Function_Call (fc_id: string) (fc_name: string) (fc_args: string) | Plain_Item json

record response_usage =
  ru_input :: int
  ru_output :: int
  ru_total :: int
  ru_cached :: int

record response_object =
  ro_usage :: "response_usage option"
  ro_output :: "output_item list"

definition calls_of_output :: "output_item list \<Rightarrow> output_item list" where
  "calls_of_output os = filter (\<lambda>i. case i of Function_Call _ _ _ \<Rightarrow> True | _ \<Rightarrow> False) os"

definition item_json :: "output_item \<Rightarrow> json" where
  "item_json i = (case i of
     Function_Call c n a \<Rightarrow> JObj [(''type'', JStr ''function_call''), (''call_id'', JStr c), (''name'', JStr n), (''arguments'', JStr a)]
   | Plain_Item j \<Rightarrow> j)"

definition call_output :: "output_item \<Rightarrow> string \<Rightarrow> json" where
  "call_output i t = JObj [(''type'', JStr ''function_call_output''), (''call_id'', JStr (fc_id i)), (''output'', JStr t)]"

definition responses_round :: "tool_pool \<Rightarrow> (string \<Rightarrow> json option) \<Rightarrow> nat \<Rightarrow> response_object \<Rightarrow> response_object round" where
  "responses_round B loads k r =
     (let calls = calls_of_output (ro_output r); own = filter (\<lambda>i. owns_tool B (fc_name i)) calls;
          run = map (\<lambda>i. (fc_name i, parsed_args loads (fc_args i))) own
      in if list_ex (\<lambda>i. \<not> owns_tool B (fc_name i)) calls
         then (if own = [] then Round_Return r []
               else (case execute_calls B k run of None \<Rightarrow> Round_Cancelled run
                   | Some _ \<Rightarrow> Round_Return (r\<lparr>ro_output := filter (\<lambda>i. case i of
                       Function_Call c _ _ \<Rightarrow> c \<notin> set (map fc_id own) | _ \<Rightarrow> True) (ro_output r)\<rparr>) run))
         else if own = [] then Round_Return r []
         else (case execute_calls B k run of None \<Rightarrow> Round_Cancelled run
             | Some ts \<Rightarrow> Round_Next (map item_json own @ map2 call_output own ts) run))"

definition responses_add :: "int \<times> int \<times> int \<Rightarrow> response_object \<Rightarrow> int \<times> int \<times> int" where
  "responses_add acc r = (case ro_usage r of None \<Rightarrow> acc | Some u \<Rightarrow> (case acc of (i, o', t) \<Rightarrow>
     (i + ru_input u, o' + ru_output u, t + ru_total u)))"

definition responses_fold :: "int \<times> int \<times> int \<Rightarrow> response_object \<Rightarrow> response_object" where
  "responses_fold acc r = (case ro_usage r of None \<Rightarrow> r | Some u \<Rightarrow> (case acc of (i, o', t) \<Rightarrow>
     r\<lparr>ro_usage := Some (u\<lparr>ru_input := i, ru_output := o', ru_total := t\<rparr>)\<rparr>))"

definition responses_format :: "tool_pool \<Rightarrow> (string \<Rightarrow> json option) \<Rightarrow> (response_object, int \<times> int \<times> int) loop_format" where
  "responses_format B loads = \<lparr>lf_round = responses_round B loads, lf_add = responses_add, lf_fold = responses_fold\<rparr>"

text \<open>The input as a list of items.\<close>

definition coerce_input :: "json option \<Rightarrow> json list" where
  "coerce_input v = (case v of None \<Rightarrow> [] | Some JNull \<Rightarrow> [] | Some (JArr xs) \<Rightarrow> xs
     | Some (JStr s) \<Rightarrow> [JObj [(''role'', JStr ''user''), (''content'', JStr s)]] | Some j \<Rightarrow> [j])"

definition responses_tool_loop :: "tool_pool \<Rightarrow> (string \<Rightarrow> json option)
    \<Rightarrow> (nat \<Rightarrow> json list \<Rightarrow> json list \<Rightarrow> (string, response_object) result)
    \<Rightarrow> nat \<Rightarrow> json list \<Rightarrow> json option \<Rightarrow> response_object loop_run" where
  "responses_tool_loop B loads ask max_iterations user_tools inp =
     run_loop (responses_format B loads) (\<lambda>i. ask i (user_tools @ openai_to_responses_tools (openai_tools B)))
       max_iterations 0 0 (coerce_input inp) (0, 0, 0)"

end
