(* ===== verification/Tool_Loop_Spec.thy ===== *)
theory Tool_Loop_Spec
  imports Tool_Loop
begin

text \<open>
  What the three tool loops guarantee: lemmas about the common skeleton \<^const>\<open>run_loop\<close> for any format,
  and the properties of the chat, Anthropic and Responses loops that follow from them.
\<close>

section \<open>The skeleton\<close>

text \<open>A run makes at most \<open>n\<close> model calls, and its end says how many were answered.\<close>

definition bounded_run :: "nat \<Rightarrow> 'r loop_run \<Rightarrow> bool" where
  "bounded_run n run \<longleftrightarrow> length (lr_asked run) \<le> n \<and> (case lr_end run of
     Loop_Failed _ \<Rightarrow> length (lr_asked run) = Suc (length (lr_answers run))
   | Loop_Exceeded \<Rightarrow> length (lr_asked run) = n \<and> length (lr_answers run) = n
   | _ \<Rightarrow> lr_answers run \<noteq> [] \<and> length (lr_asked run) = length (lr_answers run))"

lemma ended_simps [simp]:
  "lr_asked (ended m r c e) = m" "lr_answers (ended m r c e) = r" "lr_calls (ended m r c e) = c" "lr_end (ended m r c e) = e"
  by (simp_all add: ended_def)

lemma after_round_simps [simp]:
  "lr_asked (after_round m r c run) = m # lr_asked run" "lr_answers (after_round m r c run) = r # lr_answers run"
  "lr_calls (after_round m r c run) = c @ lr_calls run" "lr_end (after_round m r c run) = lr_end run"
  by (simp_all add: after_round_def)

lemma bounded_after_round: "bounded_run n run \<Longrightarrow> bounded_run (Suc n) (after_round m r c run)"
  by (auto simp: bounded_run_def split: loop_end.splits)

lemma run_loop_bounded: "bounded_run n (run_loop F ask n i k msgs acc)"
proof (induction n arbitrary: i k msgs acc)
  case (Suc n)
  show ?case
  proof (cases "ask i msgs")
    case (Inr r)
    then show ?thesis using bounded_after_round[OF Suc.IH]
      by (cases "lf_round F k r") (simp_all add: bounded_run_def[of "Suc n" "ended _ _ _ _"])
  qed (simp add: bounded_run_def)
qed (simp add: bounded_run_def)

primrec round_calls :: "'r round \<Rightarrow> (string \<times> json) list" where
  "round_calls (Round_Return r c) = c"
| "round_calls (Round_Next ms c) = c"
| "round_calls (Round_Cancelled c) = c"

lemma run_loop_calls:
  assumes "\<And>k r. fst ` set (round_calls (lf_round F k r)) \<subseteq> S"
  shows "fst ` set (lr_calls (run_loop F ask n i k msgs acc)) \<subseteq> S"
proof (induction n arbitrary: i k msgs acc)
  case (Suc n)
  show ?case
  proof (cases "ask i msgs")
    case (Inr r)
    with assms[of k r] Suc.IH show ?thesis by (cases "lf_round F k r") (simp_all add: image_Un)
  qed simp
qed simp

lemma run_loop_done:
  "lr_end (run_loop F ask n i k msgs acc) = Loop_Done r \<Longrightarrow> \<exists>r' k' c.
     lf_round F k' (last (lr_answers (run_loop F ask n i k msgs acc))) = Round_Return r' c
     \<and> lr_answers (run_loop F ask n i k msgs acc) \<noteq> []
     \<and> r = lf_fold F (foldl (lf_add F) acc (lr_answers (run_loop F ask n i k msgs acc))) r'"
proof (induction n arbitrary: i k msgs acc)
  case (Suc n)
  show ?case
  proof (cases "ask i msgs")
    case (Inr a)
    note ask = Inr
    show ?thesis
    proof (cases "lf_round F k a")
      case (Round_Next ms c)
      let ?run = "run_loop F ask n (i + 1) (k + length c) (msgs @ ms) (lf_add F acc a)"
      have "lr_end ?run = Loop_Done r" using Suc.prems ask Round_Next by simp
      from Suc.IH[OF this] show ?thesis using ask Round_Next by auto
    qed (use Suc.prems ask in auto)
  qed (use Suc.prems in simp)
qed simp

text \<open>Each model call after the first one is asked the previous conversation and what that round appended.\<close>

lemma run_loop_step:
  "Suc j < length (lr_asked (run_loop F ask n i k msgs acc)) \<Longrightarrow> \<exists>k' ms c.
     lf_round F k' (lr_answers (run_loop F ask n i k msgs acc) ! j) = Round_Next ms c
     \<and> lr_asked (run_loop F ask n i k msgs acc) ! Suc j = lr_asked (run_loop F ask n i k msgs acc) ! j @ ms"
proof (induction n arbitrary: i k msgs acc j)
  case (Suc n)
  show ?case
  proof (cases "ask i msgs")
    case (Inr a)
    note ask = Inr
    show ?thesis
    proof (cases "lf_round F k a")
      case (Round_Next ms c)
      let ?run = "run_loop F ask n (i + 1) (k + length c) (msgs @ ms) (lf_add F acc a)"
      have first: "lr_asked ?run ! 0 = msgs @ ms" if "lr_asked ?run \<noteq> []"
        using that by (cases n) (auto split: sum.splits round.splits)
      show ?thesis
      proof (cases j)
        case 0
        then show ?thesis using Suc.prems ask Round_Next first by fastforce
      next
        case (Suc j')
        then show ?thesis using Suc.prems Suc.IH[of j' "i + 1"] ask Round_Next by simp
      qed
    qed (use Suc.prems ask in auto)
  qed (use Suc.prems in simp)
qed simp

lemma run_loop_asked: "n > 0 \<Longrightarrow> lr_asked (run_loop F ask n i k msgs acc) ! 0 = msgs"
  by (cases n) (auto split: sum.splits round.splits)

text \<open>A model that is sure to finish at its \<open>j\<close>-th call ends the loop by then.\<close>

lemma run_loop_finishes:
  assumes "\<And>i m. \<exists>r. ask i m = Inr r" "\<And>k r c. lf_round F k r \<noteq> Round_Cancelled c"
    and "\<And>m r k. ask j m = Inr r \<Longrightarrow> \<exists>r' c. lf_round F k r = Round_Return r' c"
  shows "i \<le> j \<Longrightarrow> j < i + n \<Longrightarrow> \<exists>r. lr_end (run_loop F ask n i k msgs acc) = Loop_Done r
    \<and> length (lr_asked (run_loop F ask n i k msgs acc)) \<le> Suc j - i"
proof (induction n arbitrary: i k msgs acc)
  case (Suc n)
  obtain a where a: "ask i msgs = Inr a" using assms(1) by blast
  show ?case
  proof (cases "lf_round F k a")
    case (Round_Next ms c)
    have "i \<noteq> j" using assms(3)[of msgs a k] a Round_Next by auto
    then have le: "i + 1 \<le> j" "j < i + 1 + n" using Suc.prems by simp_all
    from Suc.IH[OF le] show ?thesis using a Round_Next le by (fastforce simp: Suc_diff_le)
  qed (use a assms(2) Suc.prems in auto)
qed simp

section \<open>The formats\<close>

lemma execute_calls_length: "execute_calls B k cs = Some ts \<Longrightarrow> length ts = length cs"
  by (induction B k cs arbitrary: ts rule: execute_calls.induct) (auto split: option.splits)

lemma execute_calls_total:
  "(\<And>k n a. call_tool B k n a \<noteq> Tool_Cancelled) \<Longrightarrow> \<exists>ts. execute_calls B k cs = Some ts"
proof (induction B k cs rule: execute_calls.induct)
  case (2 B k n a cs)
  then show ?case using "2.prems"[of k n a] "2.IH"
    by (cases "call_tool B k n a") (fastforce simp: tool_text_def)+
qed simp

lemma chat_round_owned: "fst ` set (round_calls (chat_round B loads k c)) \<subseteq> {n. owns_tool B n}"
  by (auto simp: chat_round_def Let_def to_run_def owned_calls_def owned_call_of_def split: list.splits option.splits)

lemma anthropic_round_owned: "fst ` set (round_calls (anthropic_round B k m)) \<subseteq> {n. owns_tool B n}"
  by (auto simp: anthropic_round_def Let_def use_args_def split: option.splits)

lemma responses_round_owned: "fst ` set (round_calls (responses_round B loads k r)) \<subseteq> {n. owns_tool B n}"
  by (auto simp: responses_round_def Let_def split: option.splits)

lemmas rounds_owned = chat_round_owned anthropic_round_owned responses_round_owned

lemmas loop_defs = mcp_tool_loop_def anthropic_tool_loop_def responses_tool_loop_def

lemma format_simps [simp]:
  "lf_round (chat_format B loads) = chat_round B loads" "lf_add (chat_format B loads) = chat_add"
  "lf_fold (chat_format B loads) = chat_fold"
  "lf_round (anthropic_format B) = anthropic_round B" "lf_add (anthropic_format B) = anthropic_add"
  "lf_fold (anthropic_format B) = anthropic_fold"
  "lf_round (responses_format B loads) = responses_round B loads" "lf_add (responses_format B loads) = responses_add"
  "lf_fold (responses_format B loads) = responses_fold"
  by (simp_all add: chat_format_def anthropic_format_def responses_format_def)

text \<open>The answer a loop returns reports the usage of the last model call, if any.\<close>

lemma chat_round_return: "chat_round B loads k c = Round_Return c' cs \<Longrightarrow> cp_usage c' = cp_usage c"
  by (auto simp: chat_round_def with_calls_def Let_def split: list.splits if_splits option.splits)

lemma anthropic_round_return: "anthropic_round B k m = Round_Return m' cs \<Longrightarrow> mr_usage m' = mr_usage m"
  by (auto simp: anthropic_round_def Let_def split: if_splits option.splits)

lemma responses_round_return: "responses_round B loads k r = Round_Return r' cs \<Longrightarrow> ro_usage r' = ro_usage r"
  by (auto simp: responses_round_def Let_def split: if_splits option.splits)

definition sum_usage :: "('a \<Rightarrow> 'u option) \<Rightarrow> ('u \<Rightarrow> int) \<Rightarrow> 'a list \<Rightarrow> int" where
  "sum_usage g f as = sum_list (map (\<lambda>a. case g a of Some u \<Rightarrow> f u | None \<Rightarrow> 0) as)"

lemma sum_usage_simps [simp]:
  "sum_usage g f [] = 0" "sum_usage g f (a # as) = (case g a of Some u \<Rightarrow> f u | None \<Rightarrow> 0) + sum_usage g f as"
  by (simp_all add: sum_usage_def)

definition cached_of :: "completion_usage \<Rightarrow> int" where
  "cached_of u = (case prompt_tokens_details u of Some d \<Rightarrow> opt_or0 d | None \<Rightarrow> 0)"

lemma foldl_chat_add:
  "foldl chat_add (p, q, r) as = (p + sum_usage cp_usage prompt_tokens as, q + sum_usage cp_usage completion_tokens as,
     r + sum_usage cp_usage cached_of as)"
  by (induction as arbitrary: p q r) (auto simp: chat_add_def cached_of_def split: option.splits)

lemma foldl_anthropic_add:
  "foldl anthropic_add (p, q) as = (p + sum_usage mr_usage mu_input as, q + sum_usage mr_usage mu_output as)"
  by (induction as arbitrary: p q) (auto simp: anthropic_add_def split: option.splits)

lemma foldl_responses_add:
  "foldl responses_add (p, q, r) as = (p + sum_usage ro_usage ru_input as, q + sum_usage ro_usage ru_output as,
     r + sum_usage ro_usage ru_total as)"
  by (induction as arbitrary: p q r) (auto simp: responses_add_def split: option.splits)

text \<open>What a returned answer's usage must be: nothing if the last answer had none, else the totals.\<close>

definition usage_folded :: "('r \<Rightarrow> 'u option) \<Rightarrow> ('u \<Rightarrow> 'r list \<Rightarrow> bool) \<Rightarrow> 'r loop_run \<Rightarrow> bool" where
  "usage_folded g tot run \<longleftrightarrow> (case lr_end run of
     Loop_Done c \<Rightarrow> (case g c of None \<Rightarrow> g (last (lr_answers run)) = None | Some u \<Rightarrow> tot u (lr_answers run))
   | _ \<Rightarrow> True)"

definition chat_total :: "completion_usage \<Rightarrow> completion list \<Rightarrow> bool" where
  "chat_total u as \<longleftrightarrow> prompt_tokens u = sum_usage cp_usage prompt_tokens as
     \<and> completion_tokens u = sum_usage cp_usage completion_tokens as
     \<and> total_tokens u = prompt_tokens u + completion_tokens u
     \<and> (0 \<le> sum_usage cp_usage cached_of as \<longrightarrow> cached_of u = sum_usage cp_usage cached_of as)"

definition anthropic_total :: "message_usage \<Rightarrow> message_response list \<Rightarrow> bool" where
  "anthropic_total u as \<longleftrightarrow> mu_input u = sum_usage mr_usage mu_input as \<and> mu_output u = sum_usage mr_usage mu_output as"

definition responses_total :: "response_usage \<Rightarrow> response_object list \<Rightarrow> bool" where
  "responses_total u as \<longleftrightarrow> ru_input u = sum_usage ro_usage ru_input as \<and> ru_output u = sum_usage ro_usage ru_output as
     \<and> ru_total u = sum_usage ro_usage ru_total as"

lemma usage_foldedI:
  assumes "\<And>k a a' cs. lf_round F k a = Round_Return a' cs \<Longrightarrow> g a' = g a"
    and "\<And>s a. g (lf_fold F s a) = None \<longleftrightarrow> g a = None"
    and "\<And>as a u. g (lf_fold F (foldl (lf_add F) z as) a) = Some u \<Longrightarrow> tot u as"
  shows "usage_folded g tot (run_loop F ask n i k msgs z)"
proof (cases "lr_end (run_loop F ask n i k msgs z)")
  case (Loop_Done c)
  from run_loop_done[OF this] assms Loop_Done show ?thesis
    by (fastforce simp: usage_folded_def split: option.splits)
qed (simp_all add: usage_folded_def)

lemma chat_folded: "usage_folded cp_usage chat_total (run_loop (chat_format B loads) ask n i k msgs (0, 0, 0))"
  by (rule usage_foldedI)
    (auto simp: chat_round_return foldl_chat_add chat_fold_def chat_total_def cached_of_def opt_or0_def int_or_def
      split: option.splits prod.splits if_splits)

lemma anthropic_folded: "usage_folded mr_usage anthropic_total (run_loop (anthropic_format B) ask n i k msgs (0, 0))"
  by (rule usage_foldedI)
    (auto simp: anthropic_round_return foldl_anthropic_add anthropic_fold_def anthropic_total_def split: option.splits)

lemma responses_folded: "usage_folded ro_usage responses_total (run_loop (responses_format B loads) ask n i k msgs (0, 0, 0))"
  by (rule usage_foldedI)
    (auto simp: responses_round_return foldl_responses_add responses_fold_def responses_total_def
      split: option.splits prod.splits)

text \<open>The calls of an answer, in a round that returns it and in one that goes on.\<close>

lemma chat_loop_done:
  assumes "lr_end (mcp_tool_loop B loads ask N tools msgs) = Loop_Done c"
  shows "\<exists>k c0 c' cs acc. chat_round B loads k c0 = Round_Return c' cs \<and> c = chat_fold acc c'"
  using run_loop_done[OF assms[unfolded mcp_tool_loop_def]] unfolding format_simps by blast

lemma chat_fold_choices: "cp_choices (chat_fold acc c) = cp_choices c"
  by (simp add: chat_fold_def split: option.splits prod.splits)

lemma calls_Cons:
  "function_calls (c # cs) = (case sc_function c of None \<Rightarrow> [] | Some f \<Rightarrow> [(sc_id c, f)]) @ function_calls cs"
  "foreign_sdk_calls B (c # cs) = (case sc_function c of None \<Rightarrow> []
     | Some (n, _) \<Rightarrow> if owns_tool B n then [] else [c]) @ foreign_sdk_calls B cs"
  by (simp_all add: function_calls_def foreign_sdk_calls_def split: option.split)

lemma function_calls_foreign: "function_calls (foreign_sdk_calls B cs) = filter (\<lambda>c. \<not> owned_call_of B c) (function_calls cs)"
  by (induction cs)
    (auto simp: calls_Cons owned_call_of_def function_calls_def[of "[]"] foreign_sdk_calls_def[of _ "[]"] split: option.split)

lemma with_calls_choices: "cp_choices c = ch # chs \<Longrightarrow>
    cp_choices (with_calls cs c) = ch\<lparr>ch_calls := (if cs = [] then None else Some cs)\<rparr> # chs"
  by (simp add: with_calls_def)

lemma or_nil_simps: "or_nil None = []" "or_nil (Some cs) = cs" "function_calls [] = []"
  by (simp_all add: or_nil_def function_calls_def)

lemma chat_round_foreign:
  assumes r: "chat_round B loads k c = Round_Return c' cs" and c: "cp_choices c' = ch # chs" "ch_finish ch = Some ''tool_calls''"
  shows "\<forall>(i, n, a) \<in> set (function_calls (or_nil (ch_calls ch))). \<not> owns_tool B n"
proof (cases "cp_choices c")
  case Nil
  then show ?thesis using r c by (simp add: chat_round_def)
next
  case (Cons x xs)
  show ?thesis
  proof (cases "ch_finish x = Some ''tool_calls''")
    case False
    then show ?thesis using r c Cons by (auto simp: chat_round_def)
  next
    case True
    then show ?thesis using r c Cons with_calls_choices[OF Cons]
      by (auto simp: chat_round_def Let_def owned_calls_def owned_call_of_def has_foreign_def function_calls_foreign or_nil_simps
          list_ex_iff filter_empty_conv split: if_splits option.splits)
  qed
qed

lemma chat_round_next:
  assumes "chat_round B loads k c = Round_Next ms cs"
  shows "\<exists>ch chs calls ts. cp_choices c = ch # chs \<and> calls = function_calls (or_nil (ch_calls ch)) \<and> calls \<noteq> []
    \<and> (\<forall>c \<in> set calls. owned_call_of B c) \<and> length ts = length calls
    \<and> ms = assistant_message calls # map2 tool_message calls ts"
proof -
  obtain ch chs where c: "cp_choices c = ch # chs" using assms by (auto simp: chat_round_def split: list.splits)
  let ?calls = "function_calls (or_nil (ch_calls ch))" and ?own = "owned_calls B (function_calls (or_nil (ch_calls ch)))"
  have r: "\<not> has_foreign B ?calls" "?own \<noteq> []" "ms \<in> {assistant_message ?own # map2 tool_message ?own ts | ts.
      execute_calls B k (to_run loads ?own) = Some ts}"
    using assms c by (auto simp: chat_round_def Let_def split: if_splits option.splits)
  have all: "\<forall>c \<in> set ?calls. owned_call_of B c" using r(1) by (auto simp: has_foreign_def list_ex_iff)
  then have own: "?own = ?calls" by (simp add: owned_calls_def)
  then show ?thesis using r all c execute_calls_length[of B k "to_run loads ?calls"] by (auto simp: to_run_def)
qed

lemma chat_round_uncancelled:
  assumes "\<And>k n a. call_tool B k n a \<noteq> Tool_Cancelled" shows "chat_round B loads k c \<noteq> Round_Cancelled cs"
proof -
  have "execute_calls B k cs = None \<longleftrightarrow> False" for k cs using execute_calls_total[OF assms, of k cs] by auto
  then show ?thesis by (auto simp del: not_None_eq simp: chat_round_def Let_def split: list.splits option.splits)
qed

text \<open>What the law of a backend gives the loops: a call they make is one it answers.\<close>

context tool_backend
begin

lemma loop_calls_answered:
  "(n, a) \<in> set (lr_calls (mcp_tool_loop B loads ask N tools msgs)) \<Longrightarrow> call_tool B k n a \<noteq> Tool_Not_Owned"
  "(n, a) \<in> set (lr_calls (anthropic_tool_loop B ask' N tools msgs)) \<Longrightarrow> call_tool B k n a \<noteq> Tool_Not_Owned"
  "(n, a) \<in> set (lr_calls (responses_tool_loop B loads ask'' N tools inp)) \<Longrightarrow> call_tool B k n a \<noteq> Tool_Not_Owned"
  using run_loop_calls[of "chat_format B loads" "{n. owns_tool B n}"] run_loop_calls[of "anthropic_format B" "{n. owns_tool B n}"]
    run_loop_calls[of "responses_format B loads" "{n. owns_tool B n}"]
  by (fastforce simp: loop_defs rounds_owned intro!: owned_call)+

lemma no_call_refused:
  "Tool_Not_Owned \<notin> (\<lambda>(n, a). call_tool B k n a) ` set (lr_calls (mcp_tool_loop B loads ask N tools msgs))"
proof
  assume "Tool_Not_Owned \<in> (\<lambda>(n, a). call_tool B k n a) ` set (lr_calls (mcp_tool_loop B loads ask N tools msgs))"
  then obtain n a where "(n, a) \<in> set (lr_calls (mcp_tool_loop B loads ask N tools msgs))" "call_tool B k n a = Tool_Not_Owned"
    by (metis (no_types, lifting) imageE prod.case_eq_if prod.collapse)
  with loop_calls_answered(1) show False by blast
qed

end

text \<open>A sample run: the model calls the sandbox once and then answers.\<close>

definition sample_completion :: "string \<Rightarrow> sdk_call list option \<Rightarrow> completion" where
  "sample_completion fin calls = \<lparr>cp_usage = Some \<lparr>prompt_tokens = 10, completion_tokens = 2, total_tokens = 12,
      prompt_tokens_details = None\<rparr>, cp_choices = [\<lparr>ch_finish = Some fin, ch_calls = calls\<rparr>]\<rparr>"

definition sandbox_sdk_call :: sdk_call where
  "sandbox_sdk_call = \<lparr>sc_id = Some ''c1'', sc_function = Some (code_execution_tool_name, ''{}'')\<rparr>"

definition client_sdk_call :: sdk_call where
  "client_sdk_call = \<lparr>sc_id = Some ''c2'', sc_function = Some (''get_weather'', ''{}'')\<rparr>"

definition sample_ask :: "nat \<Rightarrow> json list \<Rightarrow> json list \<Rightarrow> (string, completion) result" where
  "sample_ask i tools msgs = Inr (if i = 0 then sample_completion ''tool_calls'' (Some [sandbox_sdk_call])
     else sample_completion ''stop'' None)"

definition sample_sandbox :: tool_pool where
  "sample_sandbox = sandbox_pool (\<lambda>_. []) (\<lambda>_ _. Exec_Failed)"

definition sample_loads :: "string \<Rightarrow> json option" where
  "sample_loads s = Some (JObj [])"

lemma sample_sandbox_simps [simp]:
  "owns_tool sample_sandbox n \<longleftrightarrow> n = code_execution_tool_name"
  "call_tool sample_sandbox k code_execution_tool_name (JObj d) = Tool_Raises ''sandbox exec failed''"
  "call_tool sample_sandbox k n a \<noteq> Tool_Cancelled"
  by (auto simp: sample_sandbox_def sandbox_pool_def sandbox_call_def json_args_def Let_def split: json.splits)

lemmas sample_defs = sample_completion_def sandbox_sdk_call_def client_sdk_call_def sample_ask_def sample_loads_def
  chat_round_def or_nil_def function_calls_def owned_calls_def owned_call_of_def has_foreign_def to_run_def
  parsed_args_def tool_text_def Let_def

section \<open>Properties\<close>

text \<open>C9. However the model answers, each loop makes at most \<open>max_iterations\<close> model calls; it gives up only
  after exactly that many answers, and otherwise returns the last answer it got.\<close>

theorem loop_ends_within_bound:
  "bounded_run N (mcp_tool_loop B loads ask N tools msgs)
    \<and> bounded_run N (anthropic_tool_loop B ask' N tools msgs)
    \<and> bounded_run N (responses_tool_loop B loads ask'' N tools inp)"
  by (simp add: loop_defs run_loop_bounded)

text \<open>C10. The loops run only tools their backend owns, never one of the caller's; so the sandbox and the
  web-search backend never refuse a call.\<close>

theorem loop_runs_only_owned_tools:
  "fst ` set (lr_calls (mcp_tool_loop B loads ask N tools msgs)) \<subseteq> {n. owns_tool B n}
    \<and> fst ` set (lr_calls (anthropic_tool_loop B ask' N tools msgs)) \<subseteq> {n. owns_tool B n}
    \<and> fst ` set (lr_calls (responses_tool_loop B loads ask'' N tools inp)) \<subseteq> {n. owns_tool B n}
    \<and> Tool_Not_Owned \<notin> (\<lambda>(n, a). call_tool (sandbox_pool text_of exec) k n a)
        ` set (lr_calls (mcp_tool_loop (sandbox_pool text_of exec) loads ask N tools msgs))
    \<and> Tool_Not_Owned \<notin> (\<lambda>(n, a). call_tool (web_search_pool c W) k n a)
        ` set (lr_calls (mcp_tool_loop (web_search_pool c W) loads ask N tools msgs))"
  using sandbox_backend.no_call_refused web_backend.no_call_refused
  unfolding loop_defs by (intro conjI run_loop_calls) (simp_all add: rounds_owned)

text \<open>The usage of the answer a loop returns is the sum over every model call it made, whatever round
  reported it; but when the last answer carries no usage, neither does the one returned, and what the earlier
  rounds used is lost.\<close>

theorem loop_usage_totals:
  "usage_folded cp_usage chat_total (mcp_tool_loop B loads ask N tools msgs)
    \<and> usage_folded mr_usage anthropic_total (anthropic_tool_loop B ask' N tools msgs)
    \<and> usage_folded ro_usage responses_total (responses_tool_loop B loads ask'' N tools inp)"
  by (simp add: loop_defs chat_folded anthropic_folded responses_folded)

text \<open>A chat answer that asks for tool calls never asks the caller for one of the gateway's tools: of a
  mixed batch the gateway has run its own calls and returns only the caller's.\<close>

theorem caller_gets_only_its_calls:
  assumes "lr_end (mcp_tool_loop B loads ask N tools msgs) = Loop_Done c"
    "cp_choices c = ch # chs" "ch_finish ch = Some ''tool_calls''"
  shows "\<forall>(i, n, a) \<in> set (function_calls (or_nil (ch_calls ch))). \<not> owns_tool B n"
proof -
  from chat_loop_done[OF assms(1)] obtain c0 c' k cs acc where
    "chat_round B loads k c0 = Round_Return c' cs" "c = chat_fold acc c'" by blast
  then have "chat_round B loads k c0 = Round_Return c' cs" "cp_choices c' = ch # chs"
    using assms(2) by (auto simp: chat_fold_choices)
  then show ?thesis using chat_round_foreign assms(3) by blast
qed

lemma caller_gets_only_its_calls_witness:
  "lr_end (mcp_tool_loop sample_sandbox sample_loads (\<lambda>_ _ _. Inr (sample_completion ''tool_calls''
      (Some [sandbox_sdk_call, client_sdk_call]))) 10 [] [])
    = Loop_Done (sample_completion ''tool_calls'' (Some [client_sdk_call]))
   \<and> \<not> owns_tool sample_sandbox ''get_weather''"
proof -
  let ?run = "mcp_tool_loop sample_sandbox sample_loads (\<lambda>_ _ _. Inr (sample_completion ''tool_calls''
      (Some [sandbox_sdk_call, client_sdk_call]))) 10 [] []"
  let ?c = "sample_completion ''tool_calls'' (Some [client_sdk_call])"
  have run: "lr_end ?run = Loop_Done ?c"
    by (simp add: mcp_tool_loop_def numeral_eq_Suc sample_defs code_execution_tool_name_def[symmetric] foreign_sdk_calls_def
        with_calls_def chat_fold_def chat_add_def) (simp add: code_execution_tool_name_def)
  have "\<forall>(i, n, a) \<in> set (function_calls (or_nil (ch_calls (hd (cp_choices ?c))))). \<not> owns_tool sample_sandbox n"
    by (rule caller_gets_only_its_calls[OF run, of _ "[]"]) (simp_all add: sample_completion_def)
  with run show ?thesis by (simp add: sample_defs)
qed

text \<open>The model is asked next exactly what it was asked before, its own tool calls, and one result per call
  in the same order; every call of such an answer is one of the gateway's.\<close>

theorem next_conversation:
  fixes run :: "completion loop_run"
  assumes "run = mcp_tool_loop B loads ask N tools msgs" "Suc j < length (lr_asked run)"
  shows "\<exists>ch chs calls ts. cp_choices (lr_answers run ! j) = ch # chs
    \<and> calls = function_calls (or_nil (ch_calls ch)) \<and> calls \<noteq> [] \<and> (\<forall>c \<in> set calls. owned_call_of B c)
    \<and> length ts = length calls
    \<and> lr_asked run ! Suc j = lr_asked run ! j @ assistant_message calls # map2 tool_message calls ts"
proof -
  from run_loop_step[OF assms(2)[unfolded assms(1) mcp_tool_loop_def]] obtain k ms cs where
    r: "chat_round B loads k (lr_answers run ! j) = Round_Next ms cs" and
    n: "lr_asked run ! Suc j = lr_asked run ! j @ ms"
    unfolding assms(1) mcp_tool_loop_def by auto
  from chat_round_next[OF r] n show ?thesis by metis
qed

lemma next_conversation_witness:
  "\<exists>t. lr_asked (mcp_tool_loop sample_sandbox sample_loads sample_ask 10 [] []) ! Suc 0
     = [assistant_message (function_calls [sandbox_sdk_call]), tool_message (hd (function_calls [sandbox_sdk_call])) t]"
proof -
  let ?run = "mcp_tool_loop sample_sandbox sample_loads sample_ask 10 [] []"
  have run: "length (lr_asked ?run) = 2" "lr_asked ?run ! 0 = []"
      "lr_answers ?run ! 0 = sample_completion ''tool_calls'' (Some [sandbox_sdk_call])"
    by (simp_all add: mcp_tool_loop_def numeral_eq_Suc sample_defs)
  with next_conversation[OF refl, of 0 sample_sandbox sample_loads sample_ask 10 "[]" "[]"] obtain ts where
    "length ts = Suc 0" "lr_asked ?run ! Suc 0 = assistant_message (function_calls [sandbox_sdk_call])
       # map2 tool_message (function_calls [sandbox_sdk_call]) ts"
    by (auto simp: sample_defs)
  then show ?thesis by (auto simp: length_Suc_conv sample_defs)
qed



end
