(* ===== verification/Dispatch.thy ===== *)
theory Dispatch
  imports Gateway_Tools Tool_Loop_Spec
begin

text \<open>
  From the tool context of a request to the call that serves it (\<open>dispatch_non_stream\<close> of
  \<open>api/routes/_pipeline.py\<close>, the purpose-hint resolvers and \<open>_build_web_search_backend\<close> of
  \<open>api/routes/_tools.py\<close>): the plain provider call, or the tool loop over the backend the request
  opted into, opened for the duration of the loop.

  What the servers behind the backends do is the parameter \<open>backends\<close>: the sandbox session that is or
  is not created, the tools an MCP server lists (a server that cannot be dialled ends the request with
  the exception \<open>bk_dial\<close>) and what calls answer.
\<close>

section \<open>Opening a backend\<close>

record backends =
  bk_vars :: "string \<Rightarrow> string option"
  bk_text :: "json \<Rightarrow> string"
  bk_int :: "string \<Rightarrow> int option"
  bk_listing :: "nat \<Rightarrow> mcp_tool list option"
  bk_dial :: upstream_exn
  bk_session :: "nat \<Rightarrow> nat \<Rightarrow> string \<Rightarrow> json \<Rightarrow> session_reply"
  bk_sandbox_up :: bool
  bk_exec :: "nat \<Rightarrow> (string, json) dict \<Rightarrow> exec_reply"
  bk_web :: "nat \<Rightarrow> web_world"

definition default_sandbox_hint :: string where
  "default_sandbox_hint = ''Prefer `code_execution` for any computation, data analysis, date ''
     @ ''arithmetic, statistics, or anything that benefits from exact output. ''
     @ ''Python with numpy/pandas/scipy/sympy/matplotlib pre-installed.''"

definition default_web_hint :: string where
  "default_web_hint = ''Prefer `web_search` for current information, news, recent events, ''
     @ ''documentation lookups, or any question whose answer changes over time. ''
     @ ''Returns ranked results with extracted page content where available.''"

text \<open>The entry's hint, else the operator's, else none; an empty text counts as none.\<close>

definition entry_hint :: "(json \<Rightarrow> string) \<Rightarrow> json option \<Rightarrow> string option" where
  "entry_hint text entry = (case entry of
     None \<Rightarrow> None
   | Some e \<Rightarrow> (case jget ''purpose_hint'' e of
       Some v \<Rightarrow> if truthy_opt (Some v) then Some (text v) else None
     | None \<Rightarrow> None))"

definition first_given :: "string option \<Rightarrow> string option \<Rightarrow> string option" where
  "first_given a b = (if nonempty_str a \<noteq> None then a else nonempty_str b)"

definition resolve_sandbox_purpose_hint :: "backends \<Rightarrow> json option \<Rightarrow> string option" where
  "resolve_sandbox_purpose_hint W entry =
     first_given (entry_hint (bk_text W) entry) (otari_env (bk_vars W) ''SANDBOX_PURPOSE_HINT'')"

definition resolve_web_search_purpose_hint :: "backends \<Rightarrow> json option \<Rightarrow> string option" where
  "resolve_web_search_purpose_hint W entry =
     first_given (entry_hint (bk_text W) entry) (otari_env (bk_vars W) ''WEB_SEARCH_PURPOSE_HINT'')"

text \<open>\<open>e.strip() for e in s.split(",") if e.strip()\<close>.\<close>

fun split_all :: "char \<Rightarrow> string \<Rightarrow> string list" where
  "split_all c [] = [[]]"
| "split_all c (x # s) = (if x = c then [] # split_all c s
     else (case split_all c s of p # ps \<Rightarrow> (x # p) # ps | [] \<Rightarrow> [[x]]))"

definition engine_list :: "string \<Rightarrow> string list" where
  "engine_list s = filter (\<lambda>e. e \<noteq> []) (map py_strip (split_all (CHR '','') s))"

definition default_engines :: "string list" where
  "default_engines = [''duckduckgo'', ''mojeek'', ''qwant'', ''wikipedia'']"

definition domains_of :: "(json \<Rightarrow> string) \<Rightarrow> json option \<Rightarrow> string list" where
  "domains_of text v = (case v of Some (JArr ds) \<Rightarrow> map text ds | _ \<Rightarrow> [])"

definition build_web_search_backend :: "backends \<Rightarrow> string \<Rightarrow> json \<Rightarrow> string option \<Rightarrow> web_search_config" where
  "build_web_search_backend W url entry token =
     (let engines = (case otari_env (bk_vars W) ''WEB_SEARCH_ENGINES'' of
            Some s \<Rightarrow> if engine_list s = [] then default_engines else engine_list s
          | None \<Rightarrow> default_engines);
          env_max = (case otari_env (bk_vars W) ''WEB_SEARCH_MAX_RESULTS'' of
            Some s \<Rightarrow> (case bk_int W s of Some n \<Rightarrow> if s \<noteq> [] \<and> 1 \<le> n then n else 5 | None \<Rightarrow> 5)
          | None \<Rightarrow> 5);
          max = (case as_int (jget ''max_results'' entry) of Some n \<Rightarrow> if 0 < n then n else env_max | None \<Rightarrow> env_max);
          extract = (case otari_env (bk_vars W) ''WEB_SEARCH_EXTRACT'' of
            Some s \<Rightarrow> py_lower s \<notin> {''0'', ''false'', ''no'', ''off''}
          | None \<Rightarrow> True)
      in new_web_search \<lparr>wc_base_url = url, wc_engines = engines, wc_max_results = max,
        wc_allowed = domains_of (bk_text W) (jget ''allowed_domains'' entry),
        wc_blocked = domains_of (bk_text W) (jget ''blocked_domains'' entry), wc_extract = extract,
        wc_provider_options = (case jget ''provider_options'' entry of Some (JObj d) \<Rightarrow> d | _ \<Rightarrow> []),
        wc_auth_token = nonempty_str token\<rparr>)"

datatype opened_backend =
    Plain_Call
  | Opened_Pool tool_pool "(string \<times> string) list"
  | Sandbox_Unreachable
  | Dial_Failed upstream_exn

definition or_default :: "string option \<Rightarrow> string \<Rightarrow> string" where
  "or_default h d = (case nonempty_str h of Some s \<Rightarrow> s | None \<Rightarrow> d)"

definition open_backend :: "backends \<Rightarrow> mcp_server_config tool_context \<Rightarrow> opened_backend" where
  "open_backend W tc = (case backend_of tc of
     No_Backend \<Rightarrow> Plain_Call
   | Mcp_Backend \<Rightarrow> (case enter_pool (bk_listing W) 0 (or_nil (tc_mcp_servers tc)) empty_pool of
       None \<Rightarrow> Dial_Failed (bk_dial W)
     | Some p \<Rightarrow> Opened_Pool (mcp_tool_pool p (bk_session W)) (purpose_hints p))
   | Sandbox_Backend \<Rightarrow> if bk_sandbox_up W
       then Opened_Pool (sandbox_pool (bk_text W) (bk_exec W)) [(code_execution_tool_name,
         or_default (resolve_sandbox_purpose_hint W (tc_sandbox_entry tc)) default_sandbox_hint)]
       else Sandbox_Unreachable
   | Web_Search_Backend \<Rightarrow>
       (let entry = (case tc_web_search_entry tc of Some e \<Rightarrow> e | None \<Rightarrow> JNull);
            url = (case tc_web_search_url tc of Some u \<Rightarrow> u | None \<Rightarrow> [])
        in Opened_Pool (web_search_pool (build_web_search_backend W url entry (tc_web_search_token tc)) (bk_web W))
          [(web_search_tool_name, or_default (resolve_web_search_purpose_hint W (Some entry)) default_web_hint)]))"

section \<open>Dispatch\<close>

text \<open>
  A model call, given its keyword arguments, tools and conversation, answers or raises; exceptions are
  named by strings, \<open>exn_of\<close> has their attributes. \<^const>\<open>None\<close> is a cancellation, which no handler catches.
\<close>

definition loop_outcome :: "(string \<Rightarrow> upstream_exn) \<Rightarrow> int \<Rightarrow> ('r \<Rightarrow> usage option) \<Rightarrow> 'r loop_end \<Rightarrow> 'r dispatched option" where
  "loop_outcome exn_of cap usage_of_reply e = (case e of
     Loop_Done r \<Rightarrow> Some (Replied r (usage_of_reply r))
   | Loop_Exceeded \<Rightarrow> Some (Tool_Cap_Hit (''Exceeded max_tool_iterations='' @ str_int cap))
   | Loop_Failed x \<Rightarrow> Some (Call_Failed (exn_of x))
   | Loop_Cancelled \<Rightarrow> None)"

definition dispatch_non_stream :: "backends \<Rightarrow> mcp_server_config tool_context \<Rightarrow> (string \<Rightarrow> upstream_exn)
    \<Rightarrow> ('r \<Rightarrow> usage option) \<Rightarrow> (string, 'r) result
    \<Rightarrow> (tool_pool \<Rightarrow> (string \<times> string) list \<Rightarrow> nat \<Rightarrow> 'r loop_run) \<Rightarrow> 'r dispatched option" where
  "dispatch_non_stream W tc exn_of usage_of_reply plain loop = (case open_backend W tc of
     Plain_Call \<Rightarrow> Some (case plain of Inr r \<Rightarrow> Replied r (usage_of_reply r) | Inl x \<Rightarrow> Call_Failed (exn_of x))
   | Opened_Pool B hints \<Rightarrow>
       loop_outcome exn_of (tc_max_iterations tc) usage_of_reply (lr_end (loop B hints (nat (tc_max_iterations tc))))
   | Sandbox_Unreachable \<Rightarrow> Some Sandbox_Down
   | Dial_Failed x \<Rightarrow> Some (Call_Failed x))"

text \<open>\<open>list(kwargs.get(k) or [])\<close>.\<close>

definition list_kwarg :: "string \<Rightarrow> (string, json) dict \<Rightarrow> json list" where
  "list_kwarg k kw = (case map_of kw k of Some (JArr xs) \<Rightarrow> xs | _ \<Rightarrow> [])"

text \<open>The three formats. \<open>ask\<close> is the provider call of the format.\<close>

definition dispatch_chat :: "backends \<Rightarrow> mcp_server_config tool_context \<Rightarrow> (string \<Rightarrow> upstream_exn)
    \<Rightarrow> (string \<Rightarrow> json option)
    \<Rightarrow> ((string, json) dict \<Rightarrow> nat \<Rightarrow> json list \<Rightarrow> json list \<Rightarrow> (string, completion) result)
    \<Rightarrow> (completion \<Rightarrow> usage option) \<Rightarrow> (string, json) dict \<Rightarrow> completion dispatched option" where
  "dispatch_chat W tc exn_of loads ask usage_of_reply kw =
     dispatch_non_stream W tc exn_of usage_of_reply (ask kw 0 (list_kwarg ''tools'' kw) (list_kwarg ''messages'' kw))
       (\<lambda>B hints n. mcp_tool_loop B loads (ask kw) n (list_kwarg ''tools'' kw)
          (inject_purpose_hints (bk_text W) (bk_vars W) (list_kwarg ''messages'' kw) hints (tc_tools_header tc)))"

definition dispatch_messages :: "backends \<Rightarrow> mcp_server_config tool_context \<Rightarrow> (string \<Rightarrow> upstream_exn)
    \<Rightarrow> ((string, json) dict \<Rightarrow> nat \<Rightarrow> json list \<Rightarrow> json list \<Rightarrow> (string, message_response) result)
    \<Rightarrow> (message_response \<Rightarrow> usage option) \<Rightarrow> (string, json) dict \<Rightarrow> message_response dispatched option" where
  "dispatch_messages W tc exn_of ask usage_of_reply kw =
     dispatch_non_stream W tc exn_of usage_of_reply (ask kw 0 (list_kwarg ''tools'' kw) (list_kwarg ''messages'' kw))
       (\<lambda>B hints n. anthropic_tool_loop B
          (ask (inject_purpose_hints_anthropic (bk_vars W) kw hints (tc_tools_header tc))) n
          (list_kwarg ''tools'' kw) (list_kwarg ''messages'' kw))"

definition dispatch_responses :: "backends \<Rightarrow> mcp_server_config tool_context \<Rightarrow> (string \<Rightarrow> upstream_exn)
    \<Rightarrow> (string \<Rightarrow> json option)
    \<Rightarrow> ((string, json) dict \<Rightarrow> nat \<Rightarrow> json list \<Rightarrow> json list \<Rightarrow> (string, response_object) result)
    \<Rightarrow> (response_object \<Rightarrow> usage option) \<Rightarrow> (string, json) dict \<Rightarrow> response_object dispatched option" where
  "dispatch_responses W tc exn_of loads ask usage_of_reply kw =
     dispatch_non_stream W tc exn_of usage_of_reply
       (ask kw 0 (list_kwarg ''tools'' kw) (coerce_input (map_of kw ''input_data'')))
       (\<lambda>B hints n. responses_tool_loop B loads
          (ask (inject_purpose_hints_responses (bk_vars W) kw hints (tc_tools_header tc))) n
          (list_kwarg ''tools'' kw) (map_of kw ''input_data''))"

section \<open>Lemmas\<close>

lemma chosen_iterations:
  "choose_tools A hybrid E q = Step_Ok c \<Longrightarrow> tc_max_iterations c = iterations_of (tq_max_iterations q)"
  by (auto simp: choose_tools_def step_bind_def split: step.splits prod.splits)

text \<open>With the schema's lower bound of one, a loop gets between 1 and 25 rounds.\<close>

lemma max_iterations_bound:
  assumes "choose_tools A hybrid E q = Step_Ok c" "\<forall>i. tq_max_iterations q = Some i \<longrightarrow> 1 \<le> i"
  shows "1 \<le> tc_max_iterations c \<and> tc_max_iterations c \<le> max_tool_iterations_cap"
  using assms by (auto simp: chosen_iterations iterations_of_def default_max_tool_iterations_def
      max_tool_iterations_cap_def split: option.splits)

lemma dispatch_replied:
  assumes "dispatch_non_stream W tc exn_of f plain loop = Some (Replied r u)"
  shows "u = f r \<and> (plain = Inr r \<and> open_backend W tc = Plain_Call
    \<or> (\<exists>B hints. open_backend W tc = Opened_Pool B hints \<and> lr_end (loop B hints (nat (tc_max_iterations tc))) = Loop_Done r))"
  using assms by (auto simp: dispatch_non_stream_def loop_outcome_def split: opened_backend.splits sum.splits loop_end.splits)

lemma split_all_no_sep: "c \<notin> set p \<Longrightarrow> split_all c p = [p]"
  by (induction p) auto

end
