(* ===== verification/Auth.thy ===== *)
theory Auth
  imports Budget
begin

text \<open>
  Authentication (\<open>auth/models.py\<close>, \<open>api/deps.py\<close>) and the choice of the user who pays
  (\<open>resolve_user_id\<close> of \<open>api/routes/_helpers.py\<close>).

  Request headers are a list of name/value pairs looked up without regard to case. SHA-256 is the
  parameter \<open>hash\<close>; API keys are stored under their hash. \<open>secrets.compare_digest\<close> raises
  \<open>TypeError\<close> on text that is not ASCII, which nothing here catches.
\<close>

datatype auth_error = Auth_Http http_exception | Type_Error

record auth_config =
  master_key :: "string option"
  hash :: "string \<Rightarrow> string"

definition header_get :: "(string, string) dict \<Rightarrow> string \<Rightarrow> string option" where
  "header_get hs name = map_of (map (\<lambda>p. (py_lower (fst p), snd p)) hs) (py_lower name)"

definition unauthorized :: "string \<Rightarrow> auth_error" where
  "unauthorized d = Auth_Http (http_error 401 d)"

section \<open>API key format\<close>

definition key_char :: "char \<Rightarrow> bool" where
  "key_char c = (let n = of_char c :: nat in
     (48 \<le> n \<and> n \<le> 57) \<or> (65 \<le> n \<and> n \<le> 90) \<or> (97 \<le> n \<and> n \<le> 122) \<or> c = CHR ''_'' \<or> c = CHR ''-'')"

text \<open>
  \<open>re.match(r"^gw[-_][A-Za-z0-9_-]+$", s)\<close>: \<open>$\<close> also matches just before a final newline.
\<close>

definition key_body :: "string \<Rightarrow> bool" where
  "key_body b \<longleftrightarrow> b \<noteq> [] \<and> list_all key_char b"

definition key_pattern :: "string \<Rightarrow> bool" where
  "key_pattern s = (case s of
       g # w # d # b \<Rightarrow> g = CHR ''g'' \<and> w = CHR ''w'' \<and> (d = CHR ''-'' \<or> d = CHR ''_'') \<and>
         (key_body b \<or> (b \<noteq> [] \<and> last b = CHR 0x0A \<and> key_body (butlast b)))
     | _ \<Rightarrow> False)"

definition validate_api_key_format :: "string \<Rightarrow> string option" where
  "validate_api_key_format s =
     (if \<not> (starts_with ''gw-'' s \<or> starts_with ''gw_'' s)
      then Some (''API key must start with '' @ quoted ''gw-'' @ '' or '' @ quoted ''gw_'' @ '' prefix'')
      else if length s < 50 then Some (''API key is too short. Expected at least 50 characters, got '' @ str_nat (length s))
      else if \<not> key_pattern s then Some ''API key contains invalid characters. Must match pattern: gw[-_][A-Za-z0-9_-]+''
      else None)"

definition hash_key :: "auth_config \<Rightarrow> string \<Rightarrow> (string, string) result" where
  "hash_key C s = (case validate_api_key_format s of Some e \<Rightarrow> Inl e | None \<Rightarrow> Inr (hash C s))"

text \<open>\<open>generate_api_key\<close>, given the output of \<open>secrets.token_urlsafe(48)\<close>.\<close>

definition generate_api_key :: "string \<Rightarrow> (string, string) result" where
  "generate_api_key token = (case validate_api_key_format (''gw-'' @ token) of
       None \<Rightarrow> Inr (''gw-'' @ token)
     | Some e \<Rightarrow> Inl (''Generated API key failed validation: '' @ e))"

section \<open>Verification\<close>

definition api_key_headers :: "string list" where
  "api_key_headers = [''Otari-Key'', ''AnyLLM-Key'', ''X-AnyLLM-Key'', ''Authorization'']"

text \<open>The first header that is present and not empty.\<close>

fun first_header :: "(string, string) dict \<Rightarrow> string list \<Rightarrow> string option" where
  "first_header hs [] = None"
| "first_header hs (n # ns) = (case header_get hs n of
       None \<Rightarrow> first_header hs ns | Some v \<Rightarrow> if v = [] then first_header hs ns else Some v)"

definition extract_bearer_token :: "(string, string) dict \<Rightarrow> (auth_error, string) result" where
  "extract_bearer_token hs = (case first_header hs api_key_headers of
       None \<Rightarrow> Inl (unauthorized ''Missing Otari-Key or Authorization header'')
     | Some v \<Rightarrow> if starts_with ''Bearer '' v then Inr (drop 7 v)
         else Inl (unauthorized (''Invalid header format. Expected '' @ quoted ''Bearer <token>'')))"

definition last_used_due :: "instant \<Rightarrow> api_key_row \<Rightarrow> bool" where
  "last_used_due now k = (case last_used_at k of None \<Rightarrow> True | Some t \<Rightarrow> now - t \<ge> 300 * 1000000)"

definition verify_and_update_api_key :: "auth_config \<Rightarrow> db \<Rightarrow> string \<Rightarrow> instant
    \<Rightarrow> db \<times> (auth_error, api_key_row) result" where
  "verify_and_update_api_key C d token now = (case hash_key C token of
       Inl e \<Rightarrow> (d, Inl (unauthorized (''Invalid API key format: '' @ e)))
     | Inr h \<Rightarrow> (case map_of (api_keys d) h of
         None \<Rightarrow> (d, Inl (unauthorized ''Invalid API key''))
       | Some k \<Rightarrow>
           if \<not> is_active k then (d, Inl (unauthorized ''API key is inactive''))
           else if (case expires_at k of None \<Rightarrow> False | Some t \<Rightarrow> t < now)
           then (d, Inl (unauthorized ''API key has expired''))
           else if last_used_due now k
           then (fst (commit d (d\<lparr>api_keys := AList.update h (k\<lparr>last_used_at := Some now\<rparr>) (api_keys d)\<rparr>)),
                 Inr (k\<lparr>last_used_at := Some now\<rparr>))
           else (d, Inr k)))"

definition is_ascii :: "string \<Rightarrow> bool" where
  "is_ascii s = list_all (\<lambda>c. (of_char c :: nat) < 128) s"

definition is_valid_master_key :: "auth_config \<Rightarrow> string \<Rightarrow> (auth_error, bool) result" where
  "is_valid_master_key C token = (case master_key C of
       None \<Rightarrow> Inr False
     | Some m \<Rightarrow> if is_ascii token \<and> is_ascii m then Inr (token = m) else Inl Type_Error)"

definition verify_api_key :: "auth_config \<Rightarrow> db \<Rightarrow> (string, string) dict \<Rightarrow> instant
    \<Rightarrow> db \<times> (auth_error, api_key_row) result" where
  "verify_api_key C d hs now = (case extract_bearer_token hs of
       Inl e \<Rightarrow> (d, Inl e) | Inr t \<Rightarrow> verify_and_update_api_key C d t now)"

definition verify_master_key :: "auth_config \<Rightarrow> (string, string) dict \<Rightarrow> (auth_error, unit) result" where
  "verify_master_key C hs =
     (if \<not> given (master_key C)
      then Inl (Auth_Http (http_error 503 ''Master key not configured. Set OTARI_MASTER_KEY environment variable.''))
      else rbind (extract_bearer_token hs) (\<lambda>t. rbind (is_valid_master_key C t)
        (\<lambda>ok. if ok then Inr () else Inl (unauthorized ''Invalid master key''))))"

definition verify_api_key_or_master_key :: "auth_config \<Rightarrow> db \<Rightarrow> (string, string) dict \<Rightarrow> instant
    \<Rightarrow> db \<times> (auth_error, api_key_row option \<times> bool) result" where
  "verify_api_key_or_master_key C d hs now = (case extract_bearer_token hs of
       Inl e \<Rightarrow> (d, Inl e)
     | Inr t \<Rightarrow> (case is_valid_master_key C t of
         Inl e \<Rightarrow> (d, Inl e)
       | Inr True \<Rightarrow> (d, Inr (None, True))
       | Inr False \<Rightarrow> (case verify_and_update_api_key C d t now of
           (d', Inl e) \<Rightarrow> (d', Inl e) | (d', Inr k) \<Rightarrow> (d', Inr (Some k, False)))))"

section \<open>The user who pays\<close>

record user_errors =
  master_key_error :: http_exception
  no_api_key_error :: http_exception
  no_user_error :: http_exception
  forbidden_user_error :: http_exception

definition resolve_user_id :: "user_errors \<Rightarrow> string option \<Rightarrow> api_key_row option \<Rightarrow> bool \<Rightarrow> bool
    \<Rightarrow> (http_exception, string) result" where
  "resolve_user_id X from_request api_key is_master reject_mismatch =
     (if is_master
      then (if given from_request then Inr (the from_request) else Inl (master_key_error X))
      else (case api_key of
         None \<Rightarrow> Inl (no_api_key_error X)
       | Some k \<Rightarrow>
           if \<not> given (key_user_id k) then Inl (no_user_error X)
           else if reject_mismatch \<and> given from_request \<and> from_request \<noteq> key_user_id k
           then Inl (forbidden_user_error X)
           else Inr (the (key_user_id k))))"

section \<open>Lemmas\<close>

lemma update_stored: "map_of al k = Some v \<Longrightarrow> AList.update k v al = al"
  by (induction al) auto

lemma verify_key_money:
  "users (fst (verify_and_update_api_key C d t now)) = users d"
  "budgets (fst (verify_and_update_api_key C d t now)) = budgets d"
  "pricing (fst (verify_and_update_api_key C d t now)) = pricing d"
  by (auto simp: verify_and_update_api_key_def Let_def commit_def
      split: sum.splits option.splits list.splits)

lemma verify_key_faults: "faults d = [] \<Longrightarrow> faults (fst (verify_and_update_api_key C d t now)) = []"
  by (auto simp: verify_and_update_api_key_def split: sum.splits option.splits)

lemma verify_either_frame:
  "users (fst (verify_api_key_or_master_key C d hs now)) = users d"
  "budgets (fst (verify_api_key_or_master_key C d hs now)) = budgets d"
  "pricing (fst (verify_api_key_or_master_key C d hs now)) = pricing d"
  "faults d = [] \<Longrightarrow> faults (fst (verify_api_key_or_master_key C d hs now)) = []"
  using verify_key_money[of C d _ now] verify_key_faults[of d C _ now]
  by (auto simp: verify_api_key_or_master_key_def split: sum.splits bool.splits prod.splits)
    (metis fst_conv)+

lemma bearer_token [simp]: "extract_bearer_token [(''Authorization'', ''Bearer '' @ t)] = Inr t"
  by (simp add: extract_bearer_token_def api_key_headers_def header_get_def py_lower_def lower_char_def
      starts_with_def char_of_def bit_0)

lemma verify_key_Inr:
  "verify_and_update_api_key C d t now = (d', Inr k) \<Longrightarrow>
    validate_api_key_format t = None \<and>
    (\<exists>k0. map_of (api_keys d) (hash C t) = Some k0 \<and> is_active k0 \<and> key_user_id k0 = key_user_id k
      \<and> key_id k0 = key_id k \<and> (\<forall>e. expires_at k0 = Some e \<longrightarrow> now \<le> e))"
  by (auto simp: verify_and_update_api_key_def hash_key_def split: option.splits if_splits)

section \<open>Properties\<close>

text \<open>C7. A caller is let in only with the master key or with a well-formed key that is stored,
  active and not expired, and is charged as follows: a caller without the master key always pays
  from the key's own user, whatever user the request names and however strict the mismatch policy.\<close>

theorem caller_pays_for_own_user:
  assumes "verify_api_key_or_master_key C d hs now = (d', Inr (ko, is_master))"
    and "resolve_user_id X req ko is_master strict = Inr u"
  shows "\<exists>t. extract_bearer_token hs = Inr t \<and>
    (if is_master then ko = None \<and> master_key C = Some t \<and> req = Some u \<and> u \<noteq> []
     else \<exists>k0. map_of (api_keys d) (hash C t) = Some k0 \<and> is_active k0 \<and> (\<forall>e. expires_at k0 = Some e \<longrightarrow> now \<le> e)
       \<and> key_user_id k0 = Some u \<and> u \<noteq> [] \<and> validate_api_key_format t = None
       \<and> (strict \<and> given req \<longrightarrow> req = Some u))"
proof -
  from assms(1) obtain t where t: "extract_bearer_token hs = Inr t"
    by (auto simp: verify_api_key_or_master_key_def split: sum.splits)
  show ?thesis
  proof (cases is_master)
    case True
    with assms t show ?thesis
      by (auto simp: verify_api_key_or_master_key_def is_valid_master_key_def resolve_user_id_def given_def
          split: sum.splits bool.splits option.splits if_splits prod.splits)
  next
    case False
    with assms(1) t obtain k where k: "verify_and_update_api_key C d t now = (d', Inr k)" "ko = Some k"
      by (auto simp: verify_api_key_or_master_key_def split: sum.splits bool.splits prod.splits)
    with False assms(2) t verify_key_Inr[OF k(1)] show ?thesis
      by (auto simp: resolve_user_id_def given_def split: if_splits)
  qed
qed

definition sample_key :: string where
  "sample_key = ''gw-'' @ replicate 47 CHR ''a''"

definition sample_auth :: auth_config where
  "sample_auth = \<lparr>master_key = Some ''root'', hash = (\<lambda>s. s)\<rparr>"

definition sample_row :: api_key_row where
  "sample_row = \<lparr>key_id = ''k1'', key_user_id = Some ''u'', last_used_at = None, expires_at = Some 10,
     is_active = True\<rparr>"

definition sample_db :: db where
  "sample_db = \<lparr>users = Map.empty, budgets = Map.empty, pricing = [], usage_logs = [], reset_logs = [],
     api_keys = [(sample_key, sample_row)], faults = []\<rparr>"

lemma sample_key_valid: "validate_api_key_format sample_key = None"
  by (simp add: validate_api_key_format_def sample_key_def starts_with_def key_pattern_def key_body_def
      key_char_def list_all_iff)

lemma sample_header:
  "extract_bearer_token [(''otari-key'', ''Bearer '' @ sample_key)] = Inr sample_key"
  by (simp add: extract_bearer_token_def api_key_headers_def header_get_def py_lower_def lower_char_def
      starts_with_def char_of_def bit_0)

lemma sample_verified:
  "\<exists>d'. verify_api_key_or_master_key sample_auth sample_db [(''otari-key'', ''Bearer '' @ sample_key)] 5 =
    (d', Inr (Some (sample_row\<lparr>last_used_at := Some 5\<rparr>), False))"
proof -
  have "is_valid_master_key sample_auth sample_key = Inr False"
    by (simp add: is_valid_master_key_def sample_auth_def is_ascii_def sample_key_def list_all_iff)
  then show ?thesis
    unfolding verify_api_key_or_master_key_def sample_header
    by (simp add: verify_and_update_api_key_def hash_key_def sample_key_valid sample_auth_def sample_db_def
        sample_row_def last_used_due_def)
qed

definition sample_errors :: user_errors where
  "sample_errors = \<lparr>master_key_error = http_error 400 [], no_api_key_error = http_error 500 [],
     no_user_error = http_error 500 [], forbidden_user_error = http_error 403 []\<rparr>"

theorem caller_pays_for_own_user_witness:
  "\<exists>d' ko m. verify_api_key_or_master_key sample_auth sample_db [(''otari-key'', ''Bearer '' @ sample_key)] 5 =
     (d', Inr (ko, m)) \<and> resolve_user_id sample_errors None ko m True = Inr ''u'' \<and> map_of (api_keys sample_db) sample_key \<noteq> None"
proof -
  obtain d' where v: "verify_api_key_or_master_key sample_auth sample_db
      [(''otari-key'', ''Bearer '' @ sample_key)] 5 = (d', Inr (Some (sample_row\<lparr>last_used_at := Some 5\<rparr>), False))"
    using sample_verified by blast
  have r: "resolve_user_id sample_errors None (Some (sample_row\<lparr>last_used_at := Some 5\<rparr>)) False True = Inr ''u''"
    by (simp add: resolve_user_id_def sample_row_def given_def)
  from caller_pays_for_own_user[OF v r] obtain t where "extract_bearer_token
      [(''otari-key'', ''Bearer '' @ sample_key)] = Inr t" "map_of (api_keys sample_db) (hash sample_auth t) \<noteq> None"
    by auto
  then have "map_of (api_keys sample_db) sample_key \<noteq> None" unfolding sample_header by (simp add: sample_auth_def)
  with v r show ?thesis by blast
qed

text \<open>Issued keys work: every key \<open>generate_api_key\<close> can produce from a URL-safe token of 47
  characters or more is well formed, and once it is stored, active and unexpired under its hash, a
  request that presents it as a bearer token is authenticated as that key, and only the key's
  last-used stamp changes in the store.\<close>

theorem issued_key_authenticates:
  assumes "list_all key_char token" "47 \<le> length token" "faults d = []"
    and "map_of (api_keys d) (hash C (''gw-'' @ token)) = Some k" "is_active k"
    and "\<forall>t. expires_at k = Some t \<longrightarrow> now \<le> t"
  shows "generate_api_key token = Inr (''gw-'' @ token) \<and>
    (\<exists>k'. verify_api_key C d [(''Authorization'', ''Bearer '' @ ''gw-'' @ token)] now =
        (d\<lparr>api_keys := AList.update (hash C (''gw-'' @ token)) k' (api_keys d)\<rparr>, Inr k')
      \<and> (k' = k \<or> k' = k\<lparr>last_used_at := Some now\<rparr>))"
proof -
  have v: "validate_api_key_format (''gw-'' @ token) = None"
    using assms(1,2) by (cases token) (auto simp: validate_api_key_format_def starts_with_def key_pattern_def key_body_def)
  note b = bearer_token[of "''gw-'' @ token"]
  have d: "d\<lparr>api_keys := m, faults := []\<rparr> = d\<lparr>api_keys := m\<rparr>" for m
    using assms(3) by (cases d) simp
  have e: "(case expires_at k of None \<Rightarrow> False | Some t \<Rightarrow> t < now) = False"
    using assms(6) by (auto split: option.splits)
  have "verify_and_update_api_key C d (''gw-'' @ token) now =
      (if last_used_due now k
       then (d\<lparr>api_keys := AList.update (hash C (''gw-'' @ token)) (k\<lparr>last_used_at := Some now\<rparr>) (api_keys d)\<rparr>,
             Inr (k\<lparr>last_used_at := Some now\<rparr>))
       else (d, Inr k))"
    using assms(3-5) e v by (simp add: verify_and_update_api_key_def hash_key_def d)
  moreover have "d\<lparr>api_keys := AList.update (hash C (''gw-'' @ token)) k (api_keys d)\<rparr> = d"
    using assms(4) by (cases d) (simp add: update_stored)
  ultimately show ?thesis
    using v b by (auto simp: verify_api_key_def generate_api_key_def)
qed

theorem issued_key_authenticates_witness:
  "generate_api_key (replicate 47 CHR ''a'') = Inr sample_key"
  using issued_key_authenticates[of "replicate 47 CHR ''a''" sample_db sample_auth sample_row 5]
  by (simp add: key_char_def list_all_iff sample_db_def sample_auth_def sample_key_def sample_row_def)

text \<open>
  The format check lets one trailing newline through: the pattern is matched by \<open>re.match\<close> with
  \<open>$\<close>, not by \<open>re.fullmatch\<close>.
\<close>

lemma trailing_newline_accepted:
  "validate_api_key_format (sample_key @ [CHR 0x0A]) = None"
  by (simp add: validate_api_key_format_def sample_key_def starts_with_def key_pattern_def key_body_def
      key_char_def list_all_iff butlast_append)

text \<open>A bearer token that is not ASCII makes the master-key comparison raise instead of failing.\<close>

lemma non_ascii_token_raises:
  assumes "master_key C = Some m" "extract_bearer_token hs = Inr t" "\<not> is_ascii t"
  shows "verify_api_key_or_master_key C d hs now = (d, Inl Type_Error)"
  using assms by (simp add: verify_api_key_or_master_key_def is_valid_master_key_def)

end
