(* ===== verification/Rate_Limit.thy ===== *)
theory Rate_Limit
  imports Prelude
begin

text \<open>
  The in-memory sliding-window rate limiter (\<open>rate_limit.py\<close>): its state, \<open>check\<close> and the
  periodic \<open>_cleanup\<close>, a reference limiter that keeps the whole history of accepted requests,
  and the simulation between the two.

  \<open>check\<close> takes the monotonic clock reading \<open>now\<close> and the wall clock reading \<open>wall\<close>. The deques
  are lists, oldest first. A rejected call still prunes the caller's deque, so the state is
  returned with either outcome; reading \<open>timestamps[0]\<close> of an empty deque (possible only when the
  configured limit is below one) is the error \<open>Deque_Empty\<close>.
\<close>

record rate_limit_info =
  limit :: int
  remaining :: int
  reset_at :: real

datatype limit_error = Too_Many_Requests int | Deque_Empty

record rate_limiter =
  rpm :: int
  requests :: "string \<rightharpoonup> real list"
  call_count :: nat

definition window_sec :: real where
  "window_sec = 60"

definition cleanup_interval :: nat where
  "cleanup_interval = 1000"

definition new_limiter :: "int \<Rightarrow> rate_limiter" where
  "new_limiter n = \<lparr>rpm = n, requests = Map.empty, call_count = 0\<rparr>"

definition stale :: "real \<Rightarrow> real list \<Rightarrow> bool" where
  "stale cutoff ts \<longleftrightarrow> ts = [] \<or> last ts \<le> cutoff"

definition cleanup :: "real \<Rightarrow> rate_limiter \<Rightarrow> rate_limiter" where
  "cleanup cutoff l = l\<lparr>requests := (\<lambda>u. case requests l u of
     None \<Rightarrow> None | Some ts \<Rightarrow> if stale cutoff ts then None else Some ts)\<rparr>"

text \<open>The loop \<open>while timestamps and timestamps[0] <= cutoff: popleft()\<close>.\<close>

fun pop_expired :: "real \<Rightarrow> real list \<Rightarrow> real list" where
  "pop_expired cutoff [] = []"
| "pop_expired cutoff (t # ts) = (if t \<le> cutoff then pop_expired cutoff ts else t # ts)"

definition tick_cleanup :: "real \<Rightarrow> rate_limiter \<Rightarrow> rate_limiter" where
  "tick_cleanup cutoff l =
     (let l1 = l\<lparr>call_count := Suc (call_count l)\<rparr>
      in if cleanup_interval \<le> call_count l1
         then (cleanup cutoff l1)\<lparr>call_count := 0\<rparr>
         else l1)"

definition deque_of :: "rate_limiter \<Rightarrow> string \<Rightarrow> real list" where
  "deque_of l u = (case requests l u of None \<Rightarrow> [] | Some ts \<Rightarrow> ts)"

definition check :: "rate_limiter \<Rightarrow> string \<Rightarrow> real \<Rightarrow> real
    \<Rightarrow> rate_limiter \<times> (limit_error, rate_limit_info) result" where
  "check l u now wall =
     (let cutoff = now - window_sec;
          l1 = tick_cleanup cutoff l;
          ts = pop_expired cutoff (deque_of l1 u);
          l2 = l1\<lparr>requests := (requests l1)(u \<mapsto> ts)\<rparr>
      in if rpm l \<le> int (length ts)
         then (l2, Inl (case ts of [] \<Rightarrow> Deque_Empty
                        | oldest # _ \<Rightarrow> Too_Many_Requests \<lceil>oldest - cutoff\<rceil>))
         else (let ts' = ts @ [now]
               in (l2\<lparr>requests := (requests l2)(u \<mapsto> ts')\<rparr>,
                   Inr \<lparr>limit = rpm l, remaining = rpm l - int (length ts'),
                        reset_at = wall + (hd ts' + window_sec - now)\<rparr>)))"

text \<open>\<open>check_rate_limit\<close>: no limiter configured means no limit and no headers.\<close>

definition check_rate_limit :: "rate_limiter option \<Rightarrow> string \<Rightarrow> real \<Rightarrow> real
    \<Rightarrow> rate_limiter option \<times> (limit_error, rate_limit_info option) result" where
  "check_rate_limit rl u now wall =
     (case rl of None \<Rightarrow> (None, Inr None)
      | Some l \<Rightarrow> (case check l u now wall of
          (l', Inl e) \<Rightarrow> (Some l', Inl e) | (l', Inr i) \<Rightarrow> (Some l', Inr (Some i))))"

text \<open>A run of calls \<open>(user, now)\<close>: the limiter afterwards and which calls were accepted.\<close>

fun is_accept :: "(limit_error, rate_limit_info) result \<Rightarrow> bool" where
  "is_accept (Inr _) = True"
| "is_accept (Inl _) = False"

fun run_checks :: "rate_limiter \<Rightarrow> (string \<times> real) list \<Rightarrow> bool list" where
  "run_checks l [] = []"
| "run_checks l ((u, now) # cs) =
     (case check l u now 0 of (l', r) \<Rightarrow> is_accept r # run_checks l' cs)"

section \<open>The reference limiter\<close>

text \<open>
  The contract: a call is accepted exactly when fewer than \<open>n\<close> calls of the same user were
  accepted in the last 60 seconds. The reference keeps every accepted time and never forgets.
\<close>

definition recent :: "real \<Rightarrow> real list \<Rightarrow> real list" where
  "recent now h = filter (\<lambda>x. now - window_sec < x) h"

definition spec_accepts :: "int \<Rightarrow> (string \<Rightarrow> real list) \<Rightarrow> string \<Rightarrow> real \<Rightarrow> bool" where
  "spec_accepts n h u now \<longleftrightarrow> int (length (recent now (h u))) < n"

definition spec_step :: "int \<Rightarrow> (string \<Rightarrow> real list) \<Rightarrow> string \<Rightarrow> real \<Rightarrow> string \<Rightarrow> real list" where
  "spec_step n h u now = (if spec_accepts n h u now then h(u := h u @ [now]) else h)"

fun spec_run :: "int \<Rightarrow> (string \<Rightarrow> real list) \<Rightarrow> (string \<times> real) list \<Rightarrow> bool list" where
  "spec_run n h [] = []"
| "spec_run n h ((u, now) # cs) = spec_accepts n h u now # spec_run n (spec_step n h u now) cs"

text \<open>The calls of a run that were accepted, and the times of one user among them.\<close>

fun accepted_of :: "(string \<times> real) list \<Rightarrow> bool list \<Rightarrow> string \<Rightarrow> real list" where
  "accepted_of (c # cs) (b # bs) u =
     (if b \<and> fst c = u then snd c # accepted_of cs bs u else accepted_of cs bs u)"
| "accepted_of _ _ u = []"

definition clock_ordered :: "(string \<times> real) list \<Rightarrow> bool" where
  "clock_ordered cs \<longleftrightarrow> sorted (map snd cs)"

section \<open>Simulation\<close>

lemma pop_expired_filter: "sorted ts \<Longrightarrow> pop_expired c ts = filter (\<lambda>x. c < x) ts"
proof (induction ts)
  case (Cons t ts)
  show ?case
  proof (cases "t \<le> c")
    case False
    with Cons.prems have "\<forall>y \<in> set ts. c < y" by fastforce
    with False show ?thesis by simp
  qed (use Cons in simp)
qed simp

lemma pop_expired_suffix: "\<exists>p. ts = p @ pop_expired c ts \<and> (\<forall>x \<in> set p. x \<le> c)"
proof (induction ts)
  case (Cons t ts)
  then obtain p where p: "ts = p @ pop_expired c ts" "\<forall>x \<in> set p. x \<le> c" by blast
  show ?case
  proof (cases "t \<le> c")
    case True
    with p show ?thesis by (intro exI[of _ "t # p"]) simp
  next
    case False
    then show ?thesis by (intro exI[of _ "[]"]) simp
  qed
qed simp

lemma rpm_tick_cleanup [simp]: "rpm (tick_cleanup c l) = rpm l"
  by (simp add: tick_cleanup_def cleanup_def Let_def)

lemma deque_tick_cleanup:
  "deque_of (tick_cleanup c l) u = deque_of l u
   \<or> deque_of (tick_cleanup c l) u = [] \<and> stale c (deque_of l u)"
  by (auto simp: tick_cleanup_def cleanup_def deque_of_def Let_def split: option.splits)

text \<open>
  The invariant of one user: the deque is the tail of the sorted history of accepted times, and
  what was dropped in front of it is outside the window for ever.
\<close>

definition tracks :: "rate_limiter \<Rightarrow> string \<Rightarrow> real \<Rightarrow> real list \<Rightarrow> bool" where
  "tracks l u now h \<longleftrightarrow>
     (\<exists>p. h = p @ deque_of l u \<and> (\<forall>x \<in> set p. x \<le> now - window_sec))
     \<and> sorted h \<and> (\<forall>x \<in> set h. x \<le> now)"

lemma tracksE:
  assumes "tracks l u now h"
  obtains p where "h = p @ deque_of l u" "\<forall>x \<in> set p. x \<le> now - window_sec"
    "sorted h" "\<forall>x \<in> set h. x \<le> now" "sorted (deque_of l u)"
  using assms unfolding tracks_def by (auto simp: sorted_append)

lemma tracks_new: "tracks (new_limiter n) u now []"
  by (simp add: tracks_def new_limiter_def deque_of_def)

lemma stale_sorted: "sorted ts \<Longrightarrow> stale c ts \<Longrightarrow> \<forall>x \<in> set ts. x \<le> c"
proof
  fix x assume s: "sorted ts" "stale c ts" and x: "x \<in> set ts"
  from x have ne: "ts \<noteq> []" by auto
  have "x \<le> last ts" using s(1) x ne
    by (metis in_set_conv_nth last_conv_nth length_pos_if_in_set less_Suc_eq_le Suc_diff_1
        diff_less sorted_nth_mono zero_less_one)
  with s(2) ne show "x \<le> c" by (simp add: stale_def)
qed

lemma tracks_tick_cleanup:
  assumes t: "tracks l u now0 h" and le: "now0 \<le> now"
  shows "tracks (tick_cleanup (now - window_sec) l) u now h"
proof -
  from t obtain p where p: "h = p @ deque_of l u" "\<forall>x \<in> set p. x \<le> now0 - window_sec"
    "sorted h" "\<forall>x \<in> set h. x \<le> now0" "sorted (deque_of l u)" by (rule tracksE)
  from deque_tick_cleanup [of "now - window_sec" l u] show ?thesis
  proof
    assume "deque_of (tick_cleanup (now - window_sec) l) u = deque_of l u"
    with p le show ?thesis unfolding tracks_def by (intro conjI exI[of _ p]) force+
  next
    assume d: "deque_of (tick_cleanup (now - window_sec) l) u = []
      \<and> stale (now - window_sec) (deque_of l u)"
    with p(5) have "\<forall>x \<in> set (deque_of l u). x \<le> now - window_sec" by (simp add: stale_sorted)
    with p(2) le have "\<forall>x \<in> set h. x \<le> now - window_sec" unfolding p(1) by force
    with d p le show ?thesis unfolding tracks_def by (intro conjI exI[of _ h]) force+
  qed
qed

lemma pop_expired_recent:
  assumes "tracks l u now h"
  shows "pop_expired (now - window_sec) (deque_of l u) = recent now h"
proof -
  from assms obtain p where p: "h = p @ deque_of l u" "\<forall>x \<in> set p. x \<le> now - window_sec"
    "sorted (deque_of l u)" by (rule tracksE)
  have "filter (\<lambda>x. now - window_sec < x) p = []" using p(2) by (force simp: filter_empty_conv)
  then have "recent now h = filter (\<lambda>x. now - window_sec < x) (deque_of l u)"
    by (simp add: recent_def p(1))
  with p(3) show ?thesis by (simp add: pop_expired_filter)
qed

text \<open>\<open>check\<close> read through the invariant: the deque after the call is the recent history.\<close>

lemma check_cases:
  assumes "tracks l u now0 h" "now0 \<le> now"
  shows "is_accept (snd (check l u now w)) \<longleftrightarrow> int (length (recent now h)) < rpm l"
    and "deque_of (fst (check l u now w)) u =
      (if int (length (recent now h)) < rpm l then recent now h @ [now] else recent now h)"
    and "rpm (fst (check l u now w)) = rpm l"
proof -
  let ?l1 = "tick_cleanup (now - window_sec) l"
  have "pop_expired (now - window_sec) (deque_of ?l1 u) = recent now h"
    using tracks_tick_cleanup [OF assms] by (rule pop_expired_recent)
  then show "is_accept (snd (check l u now w)) \<longleftrightarrow> int (length (recent now h)) < rpm l"
    and "deque_of (fst (check l u now w)) u =
      (if int (length (recent now h)) < rpm l then recent now h @ [now] else recent now h)"
    and "rpm (fst (check l u now w)) = rpm l"
    by (auto simp: check_def Let_def deque_of_def)
qed

lemma check_other_user:
  "v \<noteq> u \<Longrightarrow> deque_of (fst (check l u now w)) v = deque_of (tick_cleanup (now - window_sec) l) v"
  by (simp add: check_def Let_def deque_of_def)

lemma recent_split:
  assumes "sorted h"
  shows "\<exists>p. h = p @ recent now h \<and> (\<forall>x \<in> set p. x \<le> now - window_sec)"
  using pop_expired_suffix [of h "now - window_sec"] pop_expired_filter [OF assms]
  by (simp add: recent_def)

lemma tracks_check:
  assumes t: "\<And>v. tracks l v now0 (h v)" and le: "now0 \<le> now"
  shows "tracks (fst (check l u now w)) v now (spec_step (rpm l) h u now v)"
proof (cases "v = u")
  case False
  then have "spec_step (rpm l) h u now v = h v" by (simp add: spec_step_def)
  with tracks_tick_cleanup [OF t le, of v] check_other_user [OF False, of l now w]
  show ?thesis by (simp add: tracks_def)
next
  case True
  from t [of u] have s: "sorted (h u)" "\<forall>x \<in> set (h u). x \<le> now0" by (auto simp: tracks_def)
  from recent_split [OF s(1), of now] obtain p
    where p: "h u = p @ recent now (h u)" "\<forall>x \<in> set p. x \<le> now - window_sec" by blast
  from s(2) le have b: "\<forall>x \<in> set (h u). x \<le> now" by force
  show ?thesis
  proof (cases "int (length (recent now (h u))) < rpm l")
    case True
    have "tracks (fst (check l u now w)) u now (h u @ [now])"
      unfolding tracks_def check_cases(2) [OF t le] using True p s(1) b
      by (intro conjI exI[of _ p]) (auto simp: sorted_append)
    with True \<open>v = u\<close> show ?thesis by (simp add: spec_step_def spec_accepts_def)
  next
    case False
    have "tracks (fst (check l u now w)) u now (h u)"
      unfolding tracks_def check_cases(2) [OF t le] using False p s(1) b
      by (intro conjI exI[of _ p]) auto
    with False \<open>v = u\<close> show ?thesis by (simp add: spec_step_def spec_accepts_def)
  qed
qed

lemma run_checks_refines:
  assumes "\<And>v. tracks l v now0 (h v)" "clock_ordered cs" "\<forall>c \<in> set cs. now0 \<le> snd c"
  shows "run_checks l cs = spec_run (rpm l) h cs"
  using assms
proof (induction cs arbitrary: l h now0)
  case (Cons c cs)
  obtain u now where c: "c = (u, now)" by (cases c)
  from Cons.prems c have le: "now0 \<le> now" and o: "clock_ordered cs"
    and later: "\<forall>c \<in> set cs. now \<le> snd c" by (auto simp: clock_ordered_def)
  have "tracks (fst (check l u now 0)) v now (spec_step (rpm l) h u now v)" for v
    using Cons.prems(1) le by (rule tracks_check)
  then have "run_checks (fst (check l u now 0)) cs
      = spec_run (rpm (fst (check l u now 0))) (spec_step (rpm l) h u now) cs"
    using o later by (rule Cons.IH)
  then show ?case
    using check_cases [OF Cons.prems(1) le, of u]
    by (simp add: c split_beta spec_accepts_def)
qed simp

section \<open>The window bound of the reference\<close>

definition in_window :: "real \<Rightarrow> real list \<Rightarrow> nat" where
  "in_window t h = length (filter (\<lambda>x. t - window_sec < x \<and> x \<le> t) h)"

definition window_bounded :: "int \<Rightarrow> real list \<Rightarrow> bool" where
  "window_bounded n h \<longleftrightarrow> (\<forall>t. int (in_window t h) \<le> n)"

lemma window_bounded_accept:
  assumes w: "window_bounded n h" and b: "\<forall>x \<in> set h. x \<le> now"
    and acc: "int (length (recent now h)) < n"
  shows "window_bounded n (h @ [now])"
  unfolding window_bounded_def
proof
  fix t
  show "int (in_window t (h @ [now])) \<le> n"
  proof (cases "t < now")
    case True
    then have "in_window t (h @ [now]) = in_window t h" by (simp add: in_window_def)
    with w show ?thesis by (simp add: window_bounded_def)
  next
    case False
    have "length (filter (\<lambda>x. t - window_sec < x \<and> x \<le> t) h) \<le> length (recent now h)"
    proof -
      have "filter (\<lambda>x. t - window_sec < x \<and> x \<le> t) h
          = filter (\<lambda>x. t - window_sec < x \<and> x \<le> t) (recent now h)"
        unfolding recent_def filter_filter using False by (intro filter_cong) auto
      then show ?thesis by simp
    qed
    with acc show ?thesis by (simp add: in_window_def)
  qed
qed

lemma spec_run_window:
  assumes "window_bounded n (h u)" "\<forall>v. \<forall>x \<in> set (h v). x \<le> now0"
    "clock_ordered cs" "\<forall>c \<in> set cs. now0 \<le> snd c"
  shows "window_bounded n (h u @ accepted_of cs (spec_run n h cs) u)"
  using assms
proof (induction cs arbitrary: h now0)
  case (Cons c cs)
  obtain v now where c: "c = (v, now)" by (cases c)
  from Cons.prems c have le: "now0 \<le> now" and o: "clock_ordered cs"
    and later: "\<forall>c \<in> set cs. now \<le> snd c" by (auto simp: clock_ordered_def)
  let ?h = "spec_step n h v now"
  have b: "\<forall>w. \<forall>x \<in> set (h w). x \<le> now" using Cons.prems(2) le by force
  then have b': "\<forall>w. \<forall>x \<in> set (?h w). x \<le> now" by (auto simp: spec_step_def)
  have w': "window_bounded n (?h u)"
    using Cons.prems(1) b window_bounded_accept [of n "h u" now]
    by (auto simp: spec_step_def spec_accepts_def)
  have "h u @ accepted_of (c # cs) (spec_run n h (c # cs)) u
      = ?h u @ accepted_of cs (spec_run n ?h cs) u"
    by (auto simp: c spec_step_def)
  with Cons.IH [OF w' b' o later] show ?case by simp
qed simp

section \<open>Properties\<close>

text \<open>Simulation: on every run of calls with a clock that does not go back, the pruning
  limiter with its periodic cleanup accepts exactly the calls that the reference limiter accepts,
  namely those whose user had fewer than the configured number of accepted calls in the last 60
  seconds.\<close>

theorem limiter_refines_reference:
  assumes "clock_ordered cs"
  shows "run_checks (new_limiter n) cs = spec_run n (\<lambda>_. []) cs"
proof (cases cs)
  case (Cons c cs')
  have "\<forall>d \<in> set cs. snd c \<le> snd d" using assms Cons by (auto simp: clock_ordered_def)
  with run_checks_refines [OF tracks_new assms, of "snd c" n] show ?thesis
    by (simp add: new_limiter_def)
qed simp

theorem limiter_refines_reference_witness:
  "run_checks (new_limiter 2) [(''a'', 0), (''a'', 1), (''a'', 2), (''a'', 61)]
   = spec_run 2 (\<lambda>_. []) [(''a'', 0), (''a'', 1), (''a'', 2), (''a'', 61)]
   \<and> spec_run 2 (\<lambda>_. []) [(''a'', 0), (''a'', 1), (''a'', 2), (''a'', 61)]
     = [True, True, False, True]"
proof
  show "run_checks (new_limiter 2) [(''a'', 0), (''a'', 1), (''a'', 2), (''a'', 61)]
   = spec_run 2 (\<lambda>_. []) [(''a'', 0), (''a'', 1), (''a'', 2), (''a'', 61)]"
    by (rule limiter_refines_reference) (simp add: clock_ordered_def)
  show "spec_run 2 (\<lambda>_. []) [(''a'', 0), (''a'', 1), (''a'', 2), (''a'', 61)]
     = [True, True, False, True]"
    by (simp add: spec_accepts_def spec_step_def recent_def window_sec_def)
qed

text \<open>C8. Safety of the window: whatever the interleaving of users and calls, no half-open window
  of 60 seconds contains more accepted calls of one user than the configured limit.\<close>

theorem limiter_window_bound:
  assumes "clock_ordered cs" and "0 \<le> n"
  shows "int (in_window t (accepted_of cs (run_checks (new_limiter n) cs) u)) \<le> n"
proof (cases cs)
  case Nil
  with assms(2) show ?thesis by (simp add: in_window_def)
next
  case (Cons c cs')
  have later: "\<forall>d \<in> set cs. snd c \<le> snd d" using assms(1) Cons by (auto simp: clock_ordered_def)
  have "window_bounded n ((\<lambda>_. []) u @ accepted_of cs (spec_run n (\<lambda>_. []) cs) u)"
    by (rule spec_run_window [OF _ _ assms(1) later])
      (use assms(2) in \<open>auto simp: window_bounded_def in_window_def\<close>)
  moreover have "run_checks (new_limiter n) cs = spec_run n (\<lambda>_. []) cs"
    using run_checks_refines [OF tracks_new assms(1) later, of n] by (simp add: new_limiter_def)
  ultimately show ?thesis by (simp add: window_bounded_def)
qed

theorem limiter_window_bound_witness:
  "clock_ordered [(''a'', 0), (''a'', 1), (''a'', 2)]
   \<and> int (in_window 2 (accepted_of [(''a'', 0), (''a'', 1), (''a'', 2)]
        (run_checks (new_limiter 2) [(''a'', 0), (''a'', 1), (''a'', 2)]) ''a'')) \<le> 2"
proof
  show o: "clock_ordered [(''a'', 0), (''a'', 1), (''a'', 2)]" by (simp add: clock_ordered_def)
  show "int (in_window 2 (accepted_of [(''a'', 0), (''a'', 1), (''a'', 2)]
        (run_checks (new_limiter 2) [(''a'', 0), (''a'', 1), (''a'', 2)]) ''a'')) \<le> 2"
    by (rule limiter_window_bound [OF o]) simp
qed

text \<open>What holds of every state the limiter reaches: sorted deques, no longer than the limit.\<close>

definition limiter_ok :: "rate_limiter \<Rightarrow> real \<Rightarrow> bool" where
  "limiter_ok l now \<longleftrightarrow> (\<forall>u. sorted (deque_of l u) \<and> (\<forall>x \<in> set (deque_of l u). x \<le> now)
     \<and> int (length (deque_of l u)) \<le> rpm l)"

lemma limiter_ok_new: "0 \<le> n \<Longrightarrow> limiter_ok (new_limiter n) now"
  by (simp add: limiter_ok_def new_limiter_def deque_of_def)

lemma limiter_ok_tracks: "limiter_ok l now \<Longrightarrow> tracks l u now (deque_of l u)"
  by (auto simp: limiter_ok_def tracks_def)

lemma length_recent: "length (recent now h) \<le> length h"
  by (simp add: recent_def)

lemma limiter_ok_check:
  assumes ok: "limiter_ok l now0" and le: "now0 \<le> now"
  shows "limiter_ok (fst (check l u now w)) now"
  unfolding limiter_ok_def
proof
  fix v
  have t: "tracks l v now0 (deque_of l v)" for v using ok by (rule limiter_ok_tracks)
  have len: "int (length (deque_of l v)) \<le> rpm l" for v using ok by (simp add: limiter_ok_def)
  let ?d = "deque_of (fst (check l u now w)) v"
  have "tracks (fst (check l u now w)) v now (spec_step (rpm l) (deque_of l) u now v)"
    using t le by (rule tracks_check)
  then have s: "sorted ?d" "\<forall>x \<in> set ?d. x \<le> now" by (auto simp: tracks_def sorted_append)
  have "int (length ?d) \<le> rpm l"
  proof (cases "v = u")
    case True
    then show ?thesis
      using check_cases(2) [OF t le, of u w] length_recent [of now "deque_of l u"] len [of u]
      by auto
  next
    case False
    then show ?thesis
      using check_other_user [OF False, of l now w] len [of v] len [of u]
        deque_tick_cleanup [of "now - window_sec" l v] by auto
  qed
  with s check_cases(3) [OF t le, of u w]
  show "sorted ?d \<and> (\<forall>x \<in> set ?d. x \<le> now) \<and> int (length ?d) \<le> rpm (fst (check l u now w))"
    by simp
qed

text \<open>Liveness of the \<open>Retry-After\<close> header: in a state the limiter can be in, a rejected
  caller is told to wait between 1 and 60 seconds, and a call made once that time has passed is
  accepted.\<close>

theorem retry_after_suffices:
  assumes ok: "limiter_ok l now0" and le: "now0 \<le> now"
    and rej: "snd (check l u now w) = Inl (Too_Many_Requests r)"
  shows "1 \<le> r \<and> r \<le> 60 \<and> is_accept (snd (check (fst (check l u now w)) u (now + of_int r) w'))"
proof -
  let ?l' = "fst (check l u now w)" and ?h = "deque_of l u"
  have t: "tracks l u now0 ?h" using ok by (rule limiter_ok_tracks)
  have "pop_expired (now - window_sec) (deque_of (tick_cleanup (now - window_sec) l) u)
      = recent now ?h"
    using tracks_tick_cleanup [OF t le] by (rule pop_expired_recent)
  with rej obtain x xs where rec: "recent now ?h = x # xs" and r: "r = \<lceil>x - (now - window_sec)\<rceil>"
    by (auto simp: check_def Let_def split: if_splits list.splits)
  have "x \<in> set (recent now ?h)" by (simp add: rec)
  then have x: "now - window_sec < x" "x \<in> set ?h" by (auto simp: recent_def)
  with ok le have "x \<le> now" by (force simp: limiter_ok_def)
  then have r60: "1 \<le> r" "r \<le> 60" using x(1) unfolding r window_sec_def by linarith+
  have ok': "limiter_ok ?l' now" using ok le by (rule limiter_ok_check)
  have d': "deque_of ?l' u = recent now ?h"
    using rej check_cases(1,2) [OF t le, of w] by auto
  have "length (recent (now + of_int r) (recent now ?h)) < length (recent now ?h)"
    unfolding recent_def [of "now + of_int r"]
    by (rule length_filter_less [of x]) (auto simp: rec r, linarith)
  moreover have "int (length (recent now ?h)) \<le> rpm ?l'"
    using ok' d' by (metis limiter_ok_def)
  ultimately have "is_accept (snd (check ?l' u (now + of_int r) w'))"
    using check_cases(1) [OF limiter_ok_tracks [OF ok'], of "now + of_int r" u w'] r60 d' by simp
  with r60 show ?thesis by blast
qed

theorem retry_after_suffices_witness:
  "1 \<le> (30::int) \<and> (30::int) \<le> 60 \<and>
   is_accept (snd (check (fst (check \<lparr>rpm = 1, requests = [''a'' \<mapsto> [10]], call_count = 0\<rparr> ''a'' 40 0))
     ''a'' (40 + of_int 30) 0))"
proof (rule retry_after_suffices [where ?now0.0 = 10])
  show "limiter_ok \<lparr>rpm = 1, requests = [''a'' \<mapsto> [10]], call_count = 0\<rparr> 10"
    by (simp add: limiter_ok_def deque_of_def)
  show "snd (check \<lparr>rpm = 1, requests = [''a'' \<mapsto> [10]], call_count = 0\<rparr> ''a'' 40 0)
      = Inl (Too_Many_Requests 30)"
    by (simp add: check_def Let_def tick_cleanup_def cleanup_interval_def deque_of_def window_sec_def)
qed simp

end
