(* ===== verification/Admission.thy ===== *)
theory Admission
  imports Settlement Auth Rate_Limit
begin

text \<open>
  Admitting a request (\<open>resolve_request_context\<close> of \<open>api/routes/_pipeline.py\<close>): authentication, the
  user who pays, the rate limit, the price and the estimate, the reservation, the pricing gate, the
  attachment hook with its top-up of the reservation, and the billing of a vision side call.

  The hook \<open>normalize_messages\<close> is a parameter with its possible outcomes; the platform's answer in
  hybrid mode is a parameter too. \<open>now\<close> gives the clock readings in the order they are taken.
\<close>

datatype normalize_error = Norm_Http http_exception | Norm_Other

type_synonym normalize_hook = "string \<Rightarrow> (string option \<times> string option \<times> string)
  \<Rightarrow> (normalize_error, int \<times> usage option) result"

record request =
  req_headers :: "(string, string) dict"
  req_model :: string
  req_user_field :: "string option"
  prompt_chars :: int
  max_output_tokens :: "int option"
  req_now :: "nat \<Rightarrow> instant"
  limiter_now :: real
  wall_clock :: real

record gateway =
  gw_server :: server
  gw_limiter :: "rate_limiter option"

definition bill_vision_side_call :: "pipeline \<Rightarrow> adapter \<Rightarrow> string option \<Rightarrow> string \<Rightarrow> usage \<Rightarrow> instant
    \<Rightarrow> server \<Rightarrow> server \<times> pipe_error option" where
  "bill_vision_side_call P A api_key u vu now s =
     (if \<not> given (vision_model P) then (s, None)
      else (case resolve_provider_selector (pcfg P) (the (vision_model P)) of
          Inl (Vertex_Error e) \<Rightarrow> (s, Some (Pipe_Http e))
        | Inl err \<Rightarrow> (s, None)
        | Inr r \<Rightarrow>
            (case log_usage P \<lparr>lc_api_key = api_key, lc_user = Some u, lc_model = model_name r,
                lc_provider = Some (instance_name r), lc_endpoint = endpoint A\<rparr> (Some vu) None None None now s of
               (s1, cost) \<Rightarrow>
                 (case in_db (\<lambda>d. reconcile_reservation d
                     \<lparr>h_user = u, estimate = 0, is_reserved = False,
                      strategy = (case budget_strategy P of None \<Rightarrow> [] | Some b \<Rightarrow> b)\<rparr>
                     (case cost of None \<Rightarrow> 0 | Some c \<Rightarrow> c)) s1 of
                    (s2, ok) \<Rightarrow> (s2, if ok then None else Some Pipe_Store)))))"

text \<open>The setup phase behind the reservation: what it leaves, the handle as it stands, the error.\<close>

definition setup_request :: "pipeline \<Rightarrow> adapter \<Rightarrow> request \<Rightarrow> normalize_hook \<Rightarrow> string option \<Rightarrow> string
    \<Rightarrow> (string option \<times> string option \<times> string) \<Rightarrow> model_pricing option \<Rightarrow> money \<Rightarrow> reservation_handle
    \<Rightarrow> server \<Rightarrow> server \<times> reservation_handle \<times> pipe_error option" where
  "setup_request P A q hook api_key u gate price est h s = (case hook u gate of
       Inl (Norm_Http e) \<Rightarrow> (s, h, Some (Pipe_Http e))
     | Inl Norm_Other \<Rightarrow> (s, h, Some Pipe_Crash)
     | Inr (post_chars, vu) \<Rightarrow>
         (case in_db (\<lambda>d. increase_reservation (env P) d h
             (estimate_cost price post_chars (max_output_tokens q) (default_output_tokens P) - est)
             (Some (req_model q)) (budget_strategy P) (req_now q 3)) s of
            (s1, Inl (Http e)) \<Rightarrow> (s1, h, Some (Pipe_Http e))
          | (s1, Inl Store_Error) \<Rightarrow> (s1, h, Some Pipe_Store)
          | (s1, Inr h1) \<Rightarrow> (case vu of
              None \<Rightarrow> (s1, h1, None)
            | Some v \<Rightarrow> (case bill_vision_side_call P A api_key u v (req_now q 4) s1 of
                (s2, err) \<Rightarrow> (s2, h1, err)))))"

text \<open>A failed setup refunds the reservation; what is not an \<open>HTTPException\<close> becomes a 500.\<close>

definition setup_failed :: "adapter \<Rightarrow> reservation_handle \<Rightarrow> pipe_error \<Rightarrow> server \<Rightarrow> server \<times> pipe_error" where
  "setup_failed A h err s = (case in_db (\<lambda>d. refund_reservation d h) s of
       (s', ok) \<Rightarrow> (s', if \<not> ok then Pipe_Store
         else (case err of Pipe_Http e \<Rightarrow> Pipe_Http e
               | _ \<Rightarrow> Pipe_Http (mk_error A 500 ''Failed to process request attachments'' Api))))"

definition gate_of :: "pipeline \<Rightarrow> string \<Rightarrow> (http_exception, string option \<times> string option \<times> string) result" where
  "gate_of P m = (case resolve_provider_selector (pcfg P) m of
       Inr r \<Rightarrow> Inr (Some (instance_name r), Some (provider_impl r), model_name r)
     | Inl (Vertex_Error e) \<Rightarrow> Inl e
     | Inl err \<Rightarrow> Inr (None, None, m))"

text \<open>From the billed user on: price, reservation, pricing gate, setup.\<close>

definition reserve_and_setup :: "pipeline \<Rightarrow> adapter \<Rightarrow> request \<Rightarrow> normalize_hook option \<Rightarrow> string option
    \<Rightarrow> string \<Rightarrow> server \<Rightarrow> server \<times> (pipe_error, reservation_handle) result" where
  "reserve_and_setup P A q hook api_key u s = (case gate_of P (req_model q) of
       Inl e \<Rightarrow> (s, Inl (Pipe_Http e))
     | Inr gate \<Rightarrow>
         (let price = find_price (env P) (sdb s) (fst gate) (snd (snd gate)) (req_now q 1);
              est = estimate_cost price (prompt_chars q) (max_output_tokens q) (default_output_tokens P)
          in (case in_db (\<lambda>d. reserve_budget (env P) d u est (Some (req_model q)) (budget_strategy P)
                (req_now q 2)) s of
               (s1, Inl (Http e)) \<Rightarrow> (s1, Inl (Pipe_Http e))
             | (s1, Inl Store_Error) \<Rightarrow> (s1, Inl Pipe_Store)
             | (s1, Inr h) \<Rightarrow>
                 if pricing_required_but_missing price (require_pricing P)
                 then (case in_db (\<lambda>d. refund_reservation d h) s1 of
                     (s2, ok) \<Rightarrow> (s2, Inl (if ok then Pipe_Http (mk_error A 402
                       (''No pricing configured for model '' @ quoted (req_model q)) Invalid_Request) else Pipe_Store)))
                 else (case hook of
                     None \<Rightarrow> (s1, Inr h)
                   | Some f \<Rightarrow> (case setup_request P A q f api_key u gate price est h s1 of
                       (s2, h1, None) \<Rightarrow> (s2, Inr h1)
                     | (s2, h1, Some err) \<Rightarrow>
                         (case setup_failed A h1 err s2 of (s3, e) \<Rightarrow> (s3, Inl e)))))))"

definition user_errors_of :: "adapter \<Rightarrow> string \<Rightarrow> string \<Rightarrow> user_errors" where
  "user_errors_of A master_detail forbidden_detail =
     \<lparr>master_key_error = mk_error A 400 master_detail Invalid_Request,
      no_api_key_error = mk_error A 500 ''API key validation failed'' Api,
      no_user_error = mk_error A 500 ''API key has no associated user'' Api,
      forbidden_user_error = mk_error A 403 forbidden_detail Permission\<rparr>"

definition limit_pipe_error :: "limit_error \<Rightarrow> pipe_error" where
  "limit_pipe_error e = (case e of
       Deque_Empty \<Rightarrow> Pipe_Crash
     | Too_Many_Requests retry \<Rightarrow> Pipe_Http \<lparr>status_code = 429, detail = ''Rate limit exceeded'',
         headers = [(''Retry-After'', str_int retry)], error_type = None\<rparr>)"

definition auth_pipe_error :: "auth_error \<Rightarrow> pipe_error" where
  "auth_pipe_error e = (case e of Auth_Http x \<Rightarrow> Pipe_Http x | Type_Error \<Rightarrow> Pipe_Crash)"

definition resolve_standalone :: "pipeline \<Rightarrow> auth_config \<Rightarrow> adapter \<Rightarrow> string \<Rightarrow> string \<Rightarrow> normalize_hook option
    \<Rightarrow> request \<Rightarrow> gateway \<Rightarrow> gateway \<times> (pipe_error, request_context \<times> rate_limit_info option) result" where
  "resolve_standalone P C A md fd hook q g =
     (case in_db (\<lambda>d. verify_api_key_or_master_key C d (req_headers q) (req_now q 0)) (gw_server g) of
        (s1, Inl e) \<Rightarrow> (g\<lparr>gw_server := s1\<rparr>, Inl (auth_pipe_error e))
      | (s1, Inr (ko, is_master)) \<Rightarrow>
          (case resolve_user_id (user_errors_of A md fd) (req_user_field q) ko is_master (reject_user_mismatch P) of
             Inl e \<Rightarrow> (g\<lparr>gw_server := s1\<rparr>, Inl (Pipe_Http e))
           | Inr u \<Rightarrow>
               (case check_rate_limit (gw_limiter g) u (limiter_now q) (wall_clock q) of
                  (l, Inl e) \<Rightarrow> (\<lparr>gw_server = s1, gw_limiter = l\<rparr>, Inl (limit_pipe_error e))
                | (l, Inr info) \<Rightarrow>
                    (case reserve_and_setup P A q hook (map_option key_id ko) u s1 of
                       (s2, Inl e) \<Rightarrow> (\<lparr>gw_server = s2, gw_limiter = l\<rparr>, Inl e)
                     | (s2, Inr h) \<Rightarrow> (\<lparr>gw_server = s2, gw_limiter = l\<rparr>,
                         Inr (\<lparr>has_db = True, hybrid_mode = False, req_api_key = map_option key_id ko,
                           req_user = Some u, reservation = Some h\<rparr>, info))))))"

text \<open>\<open>platform\<close> is the outcome of the token extraction and the resolve call in hybrid mode.\<close>

definition resolve_request_context :: "pipeline \<Rightarrow> auth_config \<Rightarrow> adapter \<Rightarrow> string \<Rightarrow> string
    \<Rightarrow> (http_exception, string) result option \<Rightarrow> bool \<Rightarrow> normalize_hook option \<Rightarrow> request \<Rightarrow> gateway
    \<Rightarrow> gateway \<times> (pipe_error, request_context \<times> rate_limit_info option) result" where
  "resolve_request_context P C A md fd platform db_open hook q g = (case platform of
       Some (Inl e) \<Rightarrow> (g, Inl (Pipe_Http e))
     | Some (Inr route) \<Rightarrow> (g, Inr (\<lparr>has_db = False, hybrid_mode = True, req_api_key = None, req_user = None,
         reservation = None\<rparr>, None))
     | None \<Rightarrow> if \<not> db_open then (g, Inl (Pipe_Http (mk_error A 500 ''Database session unavailable'' Api)))
         else resolve_standalone P C A md fd hook q g)"

end
