(* ===== verification/Settlement_Spec.thy ===== *)
theory Settlement_Spec
  imports Admission
begin

text \<open>
  Every way a standalone request can end settles its reservation exactly once: what was held for
  the request is given back, and only a served request is charged.

  \<open>holds_extra h d0 d\<close> relates the store \<open>d0\<close> before a request to the store \<open>d\<close> while it holds the
  reservation \<open>h\<close>; the lemmas carry it through the operations of the pipeline. Commits succeed here
  (\<open>faults\<close> is empty); failing commits are covered by the concurrent model, where their holds are
  accounted for as leaked.
\<close>

definition holds_extra :: "reservation_handle \<Rightarrow> db \<Rightarrow> db \<Rightarrow> bool" where
  "holds_extra h d0 d \<longleftrightarrow> (\<forall>v. held_of d v = held_of d0 v + (if v = h_user h then estimate h else 0))
     \<and> (is_reserved h \<or> estimate h = 0) \<and> 0 \<le> estimate h \<and> active d (h_user h)
     \<and> 0 \<le> held_of d0 (h_user h) \<and> faults d = [] \<and> keyed d"

definition same_holds :: "db \<Rightarrow> db \<Rightarrow> bool" where
  "same_holds d0 d \<longleftrightarrow> (\<forall>v. held_of d v = held_of d0 v) \<and> faults d = [] \<and> keyed d"

text \<open>A store in which nothing stands in the way: commits succeed, rows match keys, no negative hold.\<close>

definition healthy :: "db \<Rightarrow> bool" where
  "healthy d \<longleftrightarrow> faults d = [] \<and> keyed d \<and> (\<forall>u. 0 \<le> held_of d u)"

section \<open>The budget operations\<close>

lemma ok_faults:
  "faults d = [] \<Longrightarrow> faults (fst (take_reservation d u e n cap)) = []"
  "faults d = [] \<Longrightarrow> faults (fst (cas_reset_user_budget d r bid b now)) = []"
  "faults d = [] \<Longrightarrow> faults (fst (reconcile_reservation d h c)) = []"
  "faults d = [] \<Longrightarrow> faults (fst (refund_reservation d h)) = []"
  by (auto simp: take_reservation_def cas_reset_user_budget_def reconcile_reservation_def
      refund_reservation_def Let_def split: option.splits prod.splits bool.splits)

lemma reserve_faults:
  assumes "faults d = []" shows "faults (fst (reserve_budget E d u est model strat now)) = []"
proof -
  have "faults (fst dr) = [] \<Longrightarrow> faults (fst (reserve_after_reset E u e model n now b dr)) = []" for e n b dr
    using ok_faults(1)[of "fst dr" u e n "max_budget b"]
    by (cases dr) (auto simp: reserve_after_reset_def split: sum.splits)
  then show ?thesis
    using assms ok_faults(2) by (auto simp: reserve_budget_def Let_def split: option.splits)
qed

lemma increase_faults:
  "faults d = [] \<Longrightarrow> faults (fst (increase_reservation E d h x model strat now)) = []"
  using reserve_faults[of d E "h_user h" x model strat now]
  by (auto simp: increase_reservation_def split: prod.splits sum.splits)

lemma reserve_keyed: "keyed d \<Longrightarrow> keyed (fst (reserve_budget E d u est model strat now))"
  using same_frame_keyed[OF reserve_budget_frame] by blast

lemma reserve_failed_held:
  assumes "reserve_budget E d u est model strat now = (d', Inl err)"
  shows "held_of d' v = held_of d v" and "active d' v = active d v"
proof -
  have x: "reserve_after_reset E u e model n now b dr = (d', Inl err) \<Longrightarrow> held_of d' v = held_of (fst dr) v"
    for e n b dr
    using take_reservation_failed(1)[of "fst dr" u e n "max_budget b" d' err v]
    by (cases dr) (auto simp: reserve_after_reset_def split: sum.splits if_splits)
  show "held_of d' v = held_of d v"
    using assms
    by (auto simp: reserve_budget_def Let_def cas_reset_readings(1) split: option.splits if_splits dest: x)
  show "active d' v = active d v"
    using same_frame_active[OF reserve_budget_frame[of d E u est model strat now], of v] assms by simp
qed

lemma increase_failed_held:
  assumes "increase_reservation E d h x model strat now = (d', Inl err)"
  shows "held_of d' v = held_of d v" and "active d' v = active d v" and "keyed d \<Longrightarrow> keyed d'"
proof -
  have r: "reserve_budget E d (h_user h) x model strat now = (d', Inl err)"
    using assms by (auto simp: increase_reservation_def split: if_splits prod.splits sum.splits)
  from reserve_failed_held[OF r] show "held_of d' v = held_of d v" "active d' v = active d v" by auto
  show "keyed d \<Longrightarrow> keyed d'" using reserve_keyed[of d E "h_user h" x model strat now] r by simp
qed

lemma increase_keyed:
  "keyed d \<Longrightarrow> keyed (fst (increase_reservation E d h x model strat now))"
  using reserve_keyed[of d E "h_user h" x model strat now]
  by (auto simp: increase_reservation_def split: prod.splits sum.splits)

lemma holds_extra_reserve:
  assumes "healthy d" "reserve_budget E d u est model strat now = (d', Inr h)"
  shows "holds_extra h d d'"
proof -
  have k: "keyed d" using assms(1) by (simp add: healthy_def)
  note e = reserve_budget_effect[OF assms(2) k]
  show ?thesis
    using assms e(1,3-6) e(2)[of u] reserve_keyed[OF k, of E u est model strat now]
      reserve_faults[of d E u est model strat now]
    by (auto simp: holds_extra_def healthy_def)
qed

lemma holds_extra_increase:
  assumes "holds_extra h d0 d" "increase_reservation E d h x model strat now = (d', Inr h')"
  shows "holds_extra h' d0 d'"
proof -
  have k: "keyed d" and a: "active d (h_user h)" and r: "is_reserved h \<or> estimate h = 0" "0 \<le> estimate h"
    using assms(1) by (auto simp: holds_extra_def)
  note e = fold_effect[OF assms(2) k a r]
  show ?thesis
    using assms e increase_keyed[OF k, of E h x model strat now] increase_faults[of d E h x model strat now]
    by (auto simp: holds_extra_def)
qed

lemma holds_extra_increase_failed:
  assumes "holds_extra h d0 d" "increase_reservation E d h x model strat now = (d', Inl err)"
  shows "holds_extra h d0 d'"
  using assms increase_failed_held[OF assms(2)] increase_faults[of d E h x model strat now]
  by (auto simp: holds_extra_def)

text \<open>Settling at a cost, and refunding, from a store that holds the reservation.\<close>

lemma holds_extra_reconcile:
  assumes "holds_extra h d0 d"
  shows "snd (reconcile_reservation d h c)"
    and "same_holds d0 (fst (reconcile_reservation d h c))"
    and "spent_of (fst (reconcile_reservation d h c)) v = spent_of d v + (if v = h_user h then max c 0 else 0)"
proof -
  have f: "faults d = []" and a: "active d (h_user h)" and k: "keyed d" using assms by (auto simp: holds_extra_def)
  show ok: "snd (reconcile_reservation d h c)"
    using f by (simp add: reconcile_reservation_def Let_def)
  then obtain d' where r: "reconcile_reservation d h c = (d', True)"
    by (cases "reconcile_reservation d h c") simp
  have "held_of d' w = held_of d0 w \<and> spent_of d' w = spent_of d w + (if w = h_user h then max c 0 else 0)" for w
  proof (cases "is_reserved h")
    case True
    then have "h = held_handle (h_user h) (estimate h) (strategy h)" by (cases h) (simp add: held_handle_def)
    with reconcile_held[OF a, of "estimate h" "strategy h" c d' w] r assms show ?thesis
      by (auto simp: holds_extra_def)
  next
    case False
    then have z: "0 \<le> held_of d (h_user h)" using assms by (auto simp: holds_extra_def)
    from settle_unreserved[OF False z a, of c] r
    consider "d' = d" "max c 0 = 0" | "ledger_settle (strategy h) d (h_user h) 0 c = (d', True)" by auto
    then show ?thesis
    proof cases
      case 2
      with budget_ledger.settle_ok[OF a order_refl z, of "strategy h" c d' w] assms False
      show ?thesis by (auto simp: holds_extra_def)
    qed (use assms False in \<open>auto simp: holds_extra_def\<close>)
  qed
  moreover have "keyed d'" using same_frame_keyed[OF reconcile_frame[of d h c] k] r by simp
  moreover have "faults d' = []" using ok_faults(3)[OF f, of h c] r by simp
  ultimately show "same_holds d0 (fst (reconcile_reservation d h c))"
    "spent_of (fst (reconcile_reservation d h c)) v = spent_of d v + (if v = h_user h then max c 0 else 0)"
    using r by (auto simp: same_holds_def)
qed

lemma holds_extra_refund:
  assumes "holds_extra h d0 d"
  shows "snd (refund_reservation d h)" and "same_holds d0 (fst (refund_reservation d h))"
    and "spent_of (fst (refund_reservation d h)) v = spent_of d v"
  using holds_extra_reconcile[OF assms, of 0] by (simp_all add: refund_is_reconcile)

section \<open>The pipeline's steps\<close>

lemma in_db_fst [simp]: "sdb (fst (in_db f s)) = fst (f (sdb s))" "snd (in_db f s) = snd (f (sdb s))"
  by (simp_all add: in_db_def split: prod.splits)

lemma readings_users:
  assumes "users d' = users d"
  shows "held_of d' = held_of d" "spent_of d' = spent_of d" "active d' = active d" "keyed d' = keyed d"
  using assms by (simp_all add: held_of_def spent_of_def active_def keyed_def get_active_user_def fun_eq_iff)

text \<open>Writing a log row moves no money, whichever writer is installed.\<close>

lemma log_usage_frame:
  assumes "log_sink (log_put P)"
  shows "users (sdb (fst (log_usage P c u r e k now s))) = users (sdb s)"
    and "budgets (sdb (fst (log_usage P c u r e k now s))) = budgets (sdb s)"
    and "pricing (sdb (fst (log_usage P c u r e k now s))) = pricing (sdb s)"
    and "faults (sdb s) = [] \<Longrightarrow> faults (sdb (fst (log_usage P c u r e k now s))) = []"
  using log_sink.put_users[OF assms] log_sink.put_budgets[OF assms] log_sink.put_pricing[OF assms]
    log_sink.put_faults[OF assms]
  by (simp_all add: log_usage_def Let_def)

lemma log_usage_holds [settle_simps]:
  assumes "log_sink (log_put P)" "holds_extra h d0 (sdb s)"
  shows "holds_extra h d0 (sdb (fst (log_usage P c u r e k now s)))"
  using assms(2) readings_users[OF log_usage_frame(1)[OF assms(1)], of c u r e k now s]
    log_usage_frame(4)[OF assms(1), of s c u r e k now] by (simp add: holds_extra_def)

lemma log_usage_spent:
  "log_sink (log_put P) \<Longrightarrow> spent_of (sdb (fst (log_usage P c u r e k now s))) = spent_of (sdb s)"
  using readings_users(2)[OF log_usage_frame(1)] by blast

text \<open>The two helpers every failure path goes through: they return, and leave no hold and no charge.\<close>

definition refunded :: "db \<Rightarrow> db \<Rightarrow> server \<times> bool \<Rightarrow> bool" where
  "refunded d0 d sr \<longleftrightarrow> snd sr \<and> same_holds d0 (sdb (fst sr)) \<and> (\<forall>v. spent_of (sdb (fst sr)) v = spent_of d v)"

lemma release_refunds:
  assumes "reservation ctx = Some h" "has_db ctx" "holds_extra h d0 (sdb s)"
  shows "refunded d0 (sdb s) (release_reservation ctx s)"
  using holds_extra_refund[OF assms(3)] assms(1,2)
  by (simp add: refunded_def release_reservation_def)

lemma log_failure_refunds:
  assumes "log_sink (log_put P)" "reservation ctx = Some h" "has_db ctx" "holds_extra h d0 (sdb s)"
  shows "refunded d0 (sdb s) (log_failure_and_refund P A ctx p m e now s)"
  using release_refunds[OF assms(2,3) log_usage_holds[OF assms(1,4)]] log_usage_spent[OF assms(1)] assms(3)
  by (simp add: log_failure_and_refund_def refunded_def)

lemma settle_with_refunds:
  assumes "reservation ctx = Some h" "holds_extra h d0 (sdb s)"
  shows "same_holds d0 (sdb (fst (settle_with ctx refund_reservation s)))"
    and "spent_of (sdb (fst (settle_with ctx refund_reservation s))) v = spent_of (sdb s) v"
    and "snd (settle_with ctx refund_reservation s) = Returns"
  using holds_extra_refund[OF assms(2)] assms(1)
  by (auto simp: settle_with_def raised_of_def in_db_def split: prod.splits)

lemma settle_with_charges:
  assumes "reservation ctx = Some h" "holds_extra h d0 (sdb s)"
  shows "same_holds d0 (sdb (fst (settle_with ctx (\<lambda>d h. reconcile_reservation d h (c h)) s)))"
    and "spent_of (sdb (fst (settle_with ctx (\<lambda>d h. reconcile_reservation d h (c h)) s))) v =
      spent_of (sdb s) v + (if v = h_user h then max (c h) 0 else 0)"
    and "snd (settle_with ctx (\<lambda>d h. reconcile_reservation d h (c h)) s) = Returns"
  using holds_extra_reconcile[OF assms(2), of "c h"] assms(1)
  by (auto simp: settle_with_def raised_of_def in_db_def split: prod.splits)

text \<open>What the callback of an event charges.\<close>

definition cost_or_0 :: "money option \<Rightarrow> money" where
  "cost_or_0 c = (case c of None \<Rightarrow> 0 | Some x \<Rightarrow> x)"

definition event_cost :: "pipeline \<Rightarrow> adapter \<Rightarrow> stream_settlement \<Rightarrow> server \<Rightarrow> event \<Rightarrow> money" where
  "event_cost P A T s ev = (case ev of
       On_Complete u \<Rightarrow> cost_or_0 (snd (log_usage P (log_call_of A (ss_ctx T) (ss_provider T) (ss_model T))
         (Some u) None None None (ss_now T) s))
     | On_No_Usage \<Rightarrow> if missing_usage_policy P = ''allow_free'' then 0
         else (case reservation (ss_ctx T) of None \<Rightarrow> 0 | Some h \<Rightarrow> estimate h)
     | _ \<Rightarrow> 0)"

lemma on_event_settles:
  assumes "log_sink (log_put P)" "has_db (ss_ctx T)" "ss_has_writer T" "ss_correlation T = None"
    and "reservation (ss_ctx T) = Some h" "holds_extra h d0 (sdb s)"
  shows "same_holds d0 (sdb (fst (on_event P A T ev s)))"
    and "spent_of (sdb (fst (on_event P A T ev s))) v =
      spent_of (sdb s) v + (if v = h_user h then max (event_cost P A T s ev) 0 else 0)"
    and "snd (on_event P A T ev s) = Returns"
proof -
  note lg = log_usage_holds[OF assms(1,6)]
  note sp = log_usage_spent[OF assms(1)]
  have "same_holds d0 (sdb (fst (on_event P A T ev s))) \<and> spent_of (sdb (fst (on_event P A T ev s))) v =
      spent_of (sdb s) v + (if v = h_user h then max (event_cost P A T s ev) 0 else 0) \<and>
      snd (on_event P A T ev s) = Returns"
  proof (cases ev)
    case (On_Complete u)
    obtain s1 c where l: "log_usage P (log_call_of A (ss_ctx T) (ss_provider T) (ss_model T)) (Some u) None None
        None (ss_now T) s = (s1, c)" by fastforce
    have h1: "holds_extra h d0 (sdb s1)" and s1: "spent_of (sdb s1) = spent_of (sdb s)"
      using lg[of "log_call_of A (ss_ctx T) (ss_provider T) (ss_model T)" "Some u" None None None "ss_now T"]
        sp[of "log_call_of A (ss_ctx T) (ss_provider T) (ss_model T)" "Some u" None None None "ss_now T" s] l
      by auto
    show ?thesis
      using settle_with_charges[OF assms(5) h1, where c = "\<lambda>_. cost_or_0 c"] s1 l assms(2-4)
      by (simp add: On_Complete cb_complete_def event_cost_def cost_or_0_def)
  next
    case On_No_Usage
    show ?thesis
      using settle_with_refunds[OF assms(5) lg] settle_with_charges[OF assms(5) lg, where c = estimate]
        assms(2-5) sp by (auto simp: On_No_Usage cb_no_usage_def event_cost_def)
  next
    case (On_Error e)
    show ?thesis
      using settle_with_refunds[OF assms(5) lg] assms(2-5) sp
      by (auto simp: On_Error cb_error_def event_cost_def)
  next
    case On_Incomplete
    show ?thesis
      using settle_with_refunds[OF assms(5,6)] assms(2)
      by (auto simp: On_Incomplete cb_incomplete_def event_cost_def)
  qed
  then show "same_holds d0 (sdb (fst (on_event P A T ev s)))"
    "spent_of (sdb (fst (on_event P A T ev s))) v =
      spent_of (sdb s) v + (if v = h_user h then max (event_cost P A T s ev) 0 else 0)"
    "snd (on_event P A T ev s) = Returns" by auto
qed

section \<open>Admission\<close>

lemma side_charge_keeps_hold:
  assumes "holds_extra h d0 d" "\<not> is_reserved k" "estimate k = 0" "h_user k = h_user h"
  shows "holds_extra h d0 (fst (reconcile_reservation d k c))" and "snd (reconcile_reservation d k c)"
proof -
  have "holds_extra k d d"
    using assms by (auto simp: holds_extra_def)
  from holds_extra_reconcile(1,2)[OF this, of c] assms(1) reconcile_active[of d k c]
  show "holds_extra h d0 (fst (reconcile_reservation d k c))" "snd (reconcile_reservation d k c)"
    by (auto simp: holds_extra_def same_holds_def)
qed

lemma vision_keeps_hold:
  assumes "log_sink (log_put P)" "holds_extra h d0 (sdb s)" "h_user h = u"
  shows "holds_extra h d0 (sdb (fst (bill_vision_side_call P A k u vu now s)))"
proof (cases "resolve_provider_selector (pcfg P) (the (vision_model P))")
  case (Inl e)
  with assms(2) show ?thesis by (cases e) (simp_all add: bill_vision_side_call_def)
next
  case (Inr r)
  let ?c = "\<lparr>lc_api_key = k, lc_user = Some u, lc_model = model_name r, lc_provider = Some (instance_name r),
      lc_endpoint = endpoint A\<rparr>"
  obtain s1 c where l: "log_usage P ?c (Some vu) None None None now s = (s1, c)" by fastforce
  have h1: "holds_extra h d0 (sdb s1)" using log_usage_holds[OF assms(1,2), of ?c "Some vu" None None None now] l by simp
  show ?thesis
    using side_charge_keeps_hold(1)[OF h1, of "\<lparr>h_user = u, estimate = 0, is_reserved = False,
        strategy = (case budget_strategy P of None \<Rightarrow> [] | Some b \<Rightarrow> b)\<rparr>"] assms(2,3) Inr l
    by (simp add: bill_vision_side_call_def case_prod_beta)
qed

lemma setup_keeps_hold:
  assumes "log_sink (log_put P)" "holds_extra h d0 (sdb s)" "h_user h = u"
    and "setup_request P A q hook k u gate price est h s = (s', h', err)"
  shows "holds_extra h' d0 (sdb s') \<and> h_user h' = u"
proof (cases "hook u gate")
  case (Inl e)
  with assms show ?thesis by (cases e) (auto simp: setup_request_def)
next
  case (Inr cv)
  obtain chars vu where cv: "cv = (chars, vu)" by (cases cv)
  define x where "x = estimate_cost price chars (max_output_tokens q) (default_output_tokens P) - est"
  obtain d1 y where i: "increase_reservation (env P) (sdb s) h x (Some (req_model q)) (budget_strategy P)
      (req_now q 3) = (d1, y)" by fastforce
  have i': "in_db (\<lambda>d. increase_reservation (env P) d h x (Some (req_model q)) (budget_strategy P) (req_now q 3)) s
      = (s\<lparr>sdb := d1\<rparr>, y)" by (simp add: in_db_def i)
  show ?thesis
  proof (cases y)
    case (Inl e)
    with holds_extra_increase_failed[OF assms(2), of "env P" x _ "budget_strategy P"] i i' assms(3,4) Inr cv
    show ?thesis by (cases e) (auto simp: setup_request_def x_def)
  next
    case y: (Inr h1)
    have h1: "holds_extra h1 d0 d1" using holds_extra_increase[OF assms(2)] i y by blast
    have u1: "h_user h1 = u"
      using i y assms(3) by (auto simp: increase_reservation_def split: if_splits prod.splits sum.splits)
    show ?thesis
    proof (cases vu)
      case None
      with assms(4) Inr cv i' y h1 u1 show ?thesis by (auto simp: setup_request_def x_def)
    next
      case (Some v)
      obtain s2 er where b: "bill_vision_side_call P A k u v (req_now q 4) (s\<lparr>sdb := d1\<rparr>) = (s2, er)" by fastforce
      have "holds_extra h1 d0 (sdb s2)"
        using vision_keeps_hold[OF assms(1), of h1 d0 "s\<lparr>sdb := d1\<rparr>" u A k v "req_now q 4"] h1 u1 b by simp
      with assms(4) Inr cv i' y u1 Some b show ?thesis by (auto simp: setup_request_def x_def)
    qed
  qed
qed

lemma reserve_and_setup_holds:
  assumes "log_sink (log_put P)" "healthy (sdb s)" "reserve_and_setup P A q hook k u s = (s', r)"
  shows "case r of Inl e \<Rightarrow> same_holds (sdb s) (sdb s') | Inr h \<Rightarrow> holds_extra h (sdb s) (sdb s') \<and> h_user h = u"
proof (cases "gate_of P (req_model q)")
  case (Inl e)
  with assms show ?thesis by (auto simp: reserve_and_setup_def same_holds_def healthy_def)
next
  case (Inr gate)
  define price where "price = find_price (env P) (sdb s) (fst gate) (snd (snd gate)) (req_now q 1)"
  define est where "est = estimate_cost price (prompt_chars q) (max_output_tokens q) (default_output_tokens P)"
  obtain d1 y where i: "reserve_budget (env P) (sdb s) u est (Some (req_model q)) (budget_strategy P) (req_now q 2)
      = (d1, y)" by fastforce
  have i': "in_db (\<lambda>d. reserve_budget (env P) d u est (Some (req_model q)) (budget_strategy P) (req_now q 2)) s
      = (s\<lparr>sdb := d1\<rparr>, y)" by (simp add: in_db_def i)
  have R: "reserve_and_setup P A q hook k u s = (case (s\<lparr>sdb := d1\<rparr>, y) of
         (s1, Inl (Http e)) \<Rightarrow> (s1, Inl (Pipe_Http e))
       | (s1, Inl Store_Error) \<Rightarrow> (s1, Inl Pipe_Store)
       | (s1, Inr h) \<Rightarrow>
           if pricing_required_but_missing price (require_pricing P)
           then (case in_db (\<lambda>d. refund_reservation d h) s1 of
               (s2, ok) \<Rightarrow> (s2, Inl (if ok then Pipe_Http (mk_error A 402
                 (''No pricing configured for model '' @ quoted (req_model q)) Invalid_Request) else Pipe_Store)))
           else (case hook of
               None \<Rightarrow> (s1, Inr h)
             | Some f \<Rightarrow> (case setup_request P A q f k u gate price est h s1 of
                 (s2, h1, None) \<Rightarrow> (s2, Inr h1)
               | (s2, h1, Some err) \<Rightarrow>
                   (case setup_failed A h1 err s2 of (s3, e) \<Rightarrow> (s3, Inl e)))))"
    unfolding reserve_and_setup_def Inr sum.case Let_def price_def[symmetric] est_def[symmetric] i' ..
  show ?thesis
  proof (cases y)
    case (Inl err)
    have "same_holds (sdb s) d1"
      using reserve_failed_held(1)[of "env P" "sdb s" u est _ _ _ d1 err] i Inl assms(2)
        reserve_keyed[of "sdb s" "env P" u est "Some (req_model q)" "budget_strategy P" "req_now q 2"]
        reserve_faults[of "sdb s" "env P" u est "Some (req_model q)" "budget_strategy P" "req_now q 2"]
      by (auto simp: same_holds_def healthy_def)
    with R Inl assms(3) show ?thesis by (cases err) auto
  next
    case y: (Inr h)
    have h: "holds_extra h (sdb s) d1" using holds_extra_reserve[OF assms(2)] i y by blast
    have u: "h_user h = u" using reserve_budget_user i y by blast
    show ?thesis
    proof (cases "pricing_required_but_missing price (require_pricing P)")
      case True
      with R y assms(3) holds_extra_refund(2)[OF h] show ?thesis by (auto simp: in_db_def split: prod.splits)
    next
      case F: False
      show ?thesis
      proof (cases hook)
        case None
        with F R y assms(3) h u show ?thesis by auto
      next
        case (Some f)
        obtain s2 h1 er where sr: "setup_request P A q f k u gate price est h (s\<lparr>sdb := d1\<rparr>) = (s2, h1, er)"
          by (cases "setup_request P A q f k u gate price est h (s\<lparr>sdb := d1\<rparr>)") auto
        have h1: "holds_extra h1 (sdb s) (sdb s2)" "h_user h1 = u"
          using setup_keeps_hold[OF assms(1), of h "sdb s" "s\<lparr>sdb := d1\<rparr>" u A q f k gate price est] h u sr by auto
        show ?thesis
        proof (cases er)
          case None
          with F R y assms(3) Some sr h1 show ?thesis by auto
        next
          case er: (Some e)
          obtain s3 e' where sf: "setup_failed A h1 e s2 = (s3, e')" by fastforce
          then have "sdb s3 = fst (refund_reservation (sdb s2) h1)"
            by (auto simp: setup_failed_def in_db_def split: prod.splits)
          with F R y assms(3) Some sr er sf holds_extra_refund(2)[OF h1(1)] show ?thesis by auto
        qed
      qed
    qed
  qed
qed

text \<open>A rejected request holds nothing; an admitted one holds its reservation, for its user.\<close>

lemma resolve_holds:
  assumes "log_sink (log_put P)" "healthy (sdb (gw_server g))"
    and "resolve_request_context P C A md fd None db_open hook q g = (g', r)"
  shows "case r of Inl e \<Rightarrow> same_holds (sdb (gw_server g)) (sdb (gw_server g'))
    | Inr (ctx, info) \<Rightarrow> \<exists>h. reservation ctx = Some h \<and> has_db ctx \<and> req_user ctx = Some (h_user h)
        \<and> holds_extra h (sdb (gw_server g)) (sdb (gw_server g'))"
proof (cases "db_open")
  case False
  with assms(2,3) show ?thesis by (auto simp: resolve_request_context_def same_holds_def healthy_def)
next
  case True
  obtain s1 v where v: "in_db (\<lambda>d. verify_api_key_or_master_key C d (req_headers q) (req_now q 0)) (gw_server g)
      = (s1, v)" by fastforce
  have fr: "users (sdb s1) = users (sdb (gw_server g))" "faults (sdb s1) = []"
    using verify_either_frame(1,4)[where C = C and d = "sdb (gw_server g)" and hs = "req_headers q"
        and now = "req_now q 0"] v assms(2)
    by (auto simp: in_db_def healthy_def split: prod.splits)
  have he: "healthy (sdb s1)" and sm: "same_holds (sdb (gw_server g)) (sdb s1)"
    using fr readings_users[OF fr(1)] assms(2) by (auto simp: healthy_def same_holds_def)
  have tr: "same_holds (sdb s1) d \<Longrightarrow> same_holds (sdb (gw_server g)) d"
    "holds_extra h (sdb s1) d \<Longrightarrow> holds_extra h (sdb (gw_server g)) d" for d h
    using readings_users(1)[OF fr(1)] by (simp_all add: same_holds_def holds_extra_def)
  show ?thesis
  proof (cases v)
    case (Inl e)
    with True v assms(3) sm show ?thesis by (auto simp: resolve_request_context_def resolve_standalone_def)
  next
    case vr: (Inr km)
    obtain ko m where km: "km = (ko, m)" by (cases km)
    show ?thesis
    proof (cases "resolve_user_id (user_errors_of A md fd) (req_user_field q) ko m (reject_user_mismatch P)")
      case (Inl e)
      with True v vr km assms(3) sm show ?thesis by (auto simp: resolve_request_context_def resolve_standalone_def)
    next
      case ur: (Inr u)
      obtain l li where li: "check_rate_limit (gw_limiter g) u (limiter_now q) (wall_clock q) = (l, li)" by fastforce
      show ?thesis
      proof (cases li)
        case (Inl e)
        with True v vr km ur li assms(3) sm show ?thesis
          by (auto simp: resolve_request_context_def resolve_standalone_def)
      next
        case ir: (Inr info)
        obtain s2 x where rs: "reserve_and_setup P A q hook (map_option key_id ko) u s1 = (s2, x)" by fastforce
        from reserve_and_setup_holds[OF assms(1) he rs] tr True v vr km ur li ir rs assms(3) show ?thesis
          by (cases x) (auto simp: resolve_request_context_def resolve_standalone_def)
      qed
    qed
  qed
qed

end
