(* ===== verification/Chat.thy ===== *)
theory Chat
  imports Settlement_Spec
begin

text \<open>
  The chat completions route in standalone mode (\<open>api/routes/chat.py\<close>): its format adapter and the
  handler \<open>chat_completions\<close> composed from the shared pipeline, for the streaming and the
  non-streaming path. \<open>prepare_gateway_tools\<close> enters with its outcome (the error it raised, having
  released the reservation, or nothing); so do the provider call and the stream.
\<close>

definition chat_error :: "nat \<Rightarrow> string \<Rightarrow> error_kind \<Rightarrow> http_exception" where
  "chat_error c m k = http_error c m"

definition chat_provider_error :: "upstream_exn \<Rightarrow> http_exception" where
  "chat_provider_error x = (case classify_provider_error x of
       Some (c, d) \<Rightarrow> http_error c d | None \<Rightarrow> http_error 502 ''LLM provider error'')"

definition chat_adapter :: adapter where
  "chat_adapter = \<lparr>endpoint = ''/v1/chat/completions'', mk_error = chat_error,
     provider_error = chat_provider_error, log_success_without_usage = True\<rparr>"

text \<open>A chunk's usage becomes the gateway's carrier; the prompt details are kept.\<close>

definition extract_stream_usage :: "usage option \<Rightarrow> usage option" where
  "extract_stream_usage cu = map_option (\<lambda>u. Gateway_Usage (base_usage u)
     (case prompt_tokens_details (base_usage u) of None \<Rightarrow> 0 | Some d \<Rightarrow> opt_or0 d) 0) cu"

definition extract_result_usage :: "usage option \<Rightarrow> usage option" where
  "extract_result_usage ru = map_option (\<lambda>u. from_completion_usage u None None) ru"

definition prepare_stream_kwargs :: "kwargs \<Rightarrow> kwargs" where
  "prepare_stream_kwargs kw = (case map_of kw ''stream_options'' of
       Some v \<Rightarrow> if v = JNull then AList.update ''stream_options'' (JObj [(''include_usage'', JBool True)]) kw else kw
     | None \<Rightarrow> AList.update ''stream_options'' (JObj [(''include_usage'', JBool True)]) kw)"

definition master_key_user_required :: string where
  "master_key_user_required = ''When using master key, '' @ quoted ''user'' @ '' field is required in request body''"

definition user_forbidden :: string where
  "user_forbidden = quoted ''user'' @ '' field does not match the authenticated API key'' @ [CHR 0x27] @ ''s user''"

text \<open>
  The handler up to the dispatch: the model check, admission, the tools, and the resolution of the
  selector, whose exceptions nothing catches.
\<close>

definition chat_prologue :: "pipeline \<Rightarrow> auth_config \<Rightarrow> normalize_hook option \<Rightarrow> http_exception option \<Rightarrow> request
    \<Rightarrow> gateway \<Rightarrow> gateway \<times> (pipe_error, request_context \<times> resolved_provider) result" where
  "chat_prologue P C hook tools q g =
     (if py_strip (req_model q) = [] then (g, Inl (Pipe_Http (http_error 400 ''Invalid request: model is required'')))
      else (case resolve_request_context P C chat_adapter master_key_user_required user_forbidden None True hook q g of
          (g1, Inl e) \<Rightarrow> (g1, Inl e)
        | (g1, Inr (ctx, info)) \<Rightarrow>
            (case tools of
               Some e \<Rightarrow> (case raise_after (release_reservation ctx (gw_server g1)) e of
                   (s, r) \<Rightarrow> (g1\<lparr>gw_server := s\<rparr>, r))
             | None \<Rightarrow> (case resolve_provider_selector (pcfg P) (req_model q) of
                 Inl e \<Rightarrow> (g1, Inl Pipe_Crash)
               | Inr r \<Rightarrow> (g1, Inr (ctx, r))))))"

definition chat_non_stream :: "pipeline \<Rightarrow> auth_config \<Rightarrow> normalize_hook option \<Rightarrow> http_exception option \<Rightarrow> request
    \<Rightarrow> instant \<Rightarrow> 'r dispatched \<Rightarrow> gateway \<Rightarrow> gateway \<times> (pipe_error, 'r) result" where
  "chat_non_stream P C hook tools q now out g = (case chat_prologue P C hook tools q g of
       (g1, Inl e) \<Rightarrow> (g1, Inl e)
     | (g1, Inr (ctx, r)) \<Rightarrow>
         (case run_standalone_non_stream P chat_adapter ctx (Some (instance_name r)) (model_name r) now out
             (gw_server g1) of (s, x) \<Rightarrow> (g1\<lparr>gw_server := s\<rparr>, x)))"

text \<open>The streaming path, the response then being consumed to its end.\<close>

definition chat_stream :: "pipeline \<Rightarrow> auth_config \<Rightarrow> normalize_hook option \<Rightarrow> http_exception option \<Rightarrow> request
    \<Rightarrow> instant \<Rightarrow> 'c gen_args \<Rightarrow> 'c opened \<Rightarrow> resume list \<Rightarrow> gateway \<Rightarrow> gateway \<times> pipe_error option" where
  "chat_stream P C hook tools q now G op rs g = (case chat_prologue P C hook tools q g of
       (g1, Inl e) \<Rightarrow> (g1, Some e)
     | (g1, Inr (ctx, r)) \<Rightarrow>
         (case run_single_attempt_stream P chat_adapter ctx (Some (instance_name r)) (model_name r) None now op
             (gw_server g1) of
            (s, Inl e) \<Rightarrow> (g1\<lparr>gw_server := s\<rparr>, Some e)
          | (s, Inr (T, ps)) \<Rightarrow> (g1\<lparr>gw_server := run_response P chat_adapter T G ps rs s\<rparr>, None)))"

section \<open>Lemmas\<close>

lemma settle_reply_settles:
  assumes "log_sink (log_put P)" "reservation ctx = Some h" "has_db ctx" "holds_extra h d0 (sdb s)"
  shows "snd (settle_reply P A ctx p m u now s)"
    and "same_holds d0 (sdb (fst (settle_reply P A ctx p m u now s)))"
    and "spent_of (sdb (fst (settle_reply P A ctx p m u now s))) v = spent_of (sdb s) v +
      (if v = h_user h then max (cost_or_0 (if u \<noteq> None \<or> log_success_without_usage A
         then snd (log_usage P (log_call_of A ctx p m) u None None None now s) else None)) 0 else 0)"
proof -
  let ?l = "if u \<noteq> None \<or> log_success_without_usage A
      then log_usage P (log_call_of A ctx p m) u None None None now s else (s, None)"
  have h: "holds_extra h d0 (sdb (fst ?l))" using log_usage_holds[OF assms(1,4)] assms(4) by simp
  have sp: "spent_of (sdb (fst ?l)) = spent_of (sdb s)" using log_usage_spent[OF assms(1)] by simp
  have R: "settle_reply P A ctx p m u now s = in_db (\<lambda>d. reconcile_reservation d h (cost_or_0 (snd ?l))) (fst ?l)"
    using assms(2,3) by (simp add: settle_reply_def cost_or_0_def case_prod_beta)
  show "snd (settle_reply P A ctx p m u now s)"
    "same_holds d0 (sdb (fst (settle_reply P A ctx p m u now s)))"
    "spent_of (sdb (fst (settle_reply P A ctx p m u now s))) v = spent_of (sdb s) v +
      (if v = h_user h then max (cost_or_0 (if u \<noteq> None \<or> log_success_without_usage A
         then snd (log_usage P (log_call_of A ctx p m) u None None None now s) else None)) 0 else 0)"
    using holds_extra_reconcile[OF h, of "cost_or_0 (snd ?l)"] sp by (simp_all add: R)
qed

lemma raise_after_refunded:
  assumes "refunded d0 d sr" "raise_after sr e = (s', r)"
  shows "same_holds d0 (sdb s') \<and> (\<forall>v. spent_of (sdb s') v = spent_of d v) \<and> (\<exists>e. r = Inl e)"
  using assms by (auto simp: refunded_def raise_after_def split: prod.splits)

text \<open>The non-streaming runner settles whatever the dispatch did, and charges only a reply.\<close>

lemma non_stream_settles:
  assumes "log_sink (log_put P)" "reservation ctx = Some h" "has_db ctx" "holds_extra h d0 (sdb s)"
    and "run_standalone_non_stream P A ctx p m now out s = (s', r)"
  shows "same_holds d0 (sdb s') \<and> (\<forall>v. v \<noteq> h_user h \<or> (\<exists>e. r = Inl e) \<longrightarrow> spent_of (sdb s') v = spent_of (sdb s) v)
    \<and> (\<forall>x. r = Inr x \<longrightarrow> (\<exists>u. out = Replied x u \<and> spent_of (sdb s') (h_user h) = spent_of (sdb s) (h_user h) +
      max (cost_or_0 (if u \<noteq> None \<or> log_success_without_usage A
         then snd (log_usage P (log_call_of A ctx p m) u None None None now s) else None)) 0))"
proof -
  note rel = raise_after_refunded[OF release_refunds[OF assms(2-4)]]
  note lf = raise_after_refunded[OF log_failure_refunds[OF assms(1-4)]]
  show ?thesis
  proof (cases out)
    case (Replied x u)
    have ok: "snd (settle_reply P A ctx p m u now s)" by (rule settle_reply_settles(1)[OF assms(1-4)])
    then have "s' = fst (settle_reply P A ctx p m u now s)" "r = Inr x"
      using assms(5) Replied by (auto simp: run_standalone_non_stream_def split: prod.splits)
    with Replied settle_reply_settles(2,3)[OF assms(1-4), where p = p and m = m and u = u and now = now and A = A]
    show ?thesis by auto
  qed (use assms(5) rel lf in \<open>fastforce simp: run_standalone_non_stream_def\<close>)+
qed

text \<open>A response consumed to its end makes one settlement, whatever happened on the way.\<close>

lemma response_settles:
  assumes "log_sink (log_put P)" "has_db (ss_ctx T)" "ss_has_writer T" "ss_correlation T = None"
    and "reservation (ss_ctx T) = Some h" "holds_extra h d0 (sdb s)"
  shows "\<exists>ev. events (fst (streaming_generator (stream_args P A T s G) ps rs)) = [ev]
    \<and> same_holds d0 (sdb (run_response P A T G ps rs s))
    \<and> (\<forall>v. spent_of (sdb (run_response P A T G ps rs s)) v =
        spent_of (sdb s) v + (if v = h_user h then max (event_cost P A T s ev) 0 else 0))"
proof -
  note on = on_event_settles[OF assms]
  obtain g x where g: "streaming_generator (stream_args P A T s G) ps rs = (g, x)" by fastforce
  have "has_on_incomplete (stream_args P A T s G)" "has_on_no_usage (stream_args P A T s G)"
    "cb (stream_args P A T s G) 0 On_Incomplete = Returns"
    using on(3) by (simp_all add: stream_args_def)
  with generator_events[OF _ g] obtain ev where ev: "events g = [ev]" by auto
  then have "run_response P A T G ps rs s = fst (on_event P A T ev s)" by (simp add: run_response_def g)
  with on(1,2)[of A ev] ev g show ?thesis by (intro exI[of _ ev]) simp
qed

lemma prologue_cases:
  assumes "log_sink (log_put P)" "healthy (sdb (gw_server g))" "chat_prologue P C hook tools q g = (g1, x)"
    and "resolve_provider_selector (pcfg P) (req_model q) = Inr r0"
  shows "case x of Inl e \<Rightarrow> same_holds (sdb (gw_server g)) (sdb (gw_server g1))
    | Inr (ctx, r) \<Rightarrow> r = r0 \<and> (\<exists>h. reservation ctx = Some h \<and> has_db ctx \<and>
        holds_extra h (sdb (gw_server g)) (sdb (gw_server g1)))"
proof (cases "py_strip (req_model q) = []")
  case True
  with assms(2,3) show ?thesis by (auto simp: chat_prologue_def same_holds_def healthy_def)
next
  case False
  obtain g2 y where rc: "resolve_request_context P C chat_adapter master_key_user_required user_forbidden None
      True hook q g = (g2, y)" by fastforce
  note rh = resolve_holds[OF assms(1,2) rc]
  show ?thesis
  proof (cases y)
    case (Inl e)
    with rh rc assms(3) False show ?thesis by (auto simp: chat_prologue_def)
  next
    case (Inr ci)
    obtain ctx info where ci: "ci = (ctx, info)" by (cases ci)
    from rh Inr ci obtain h where h: "reservation ctx = Some h" "has_db ctx"
      "holds_extra h (sdb (gw_server g)) (sdb (gw_server g2))" by auto
    show ?thesis
    proof (cases tools)
      case None
      with rc assms(3,4) False Inr ci h show ?thesis by (auto simp: chat_prologue_def)
    next
      case (Some e)
      obtain s r where ra: "raise_after (release_reservation ctx (gw_server g2)) e
          = (s, r :: (pipe_error, request_context \<times> resolved_provider) result)" by fastforce
      from raise_after_refunded[OF release_refunds[OF h] ra] rc assms(3) False Inr ci Some ra
      show ?thesis by (auto simp: chat_prologue_def)
    qed
  qed
qed

section \<open>Properties\<close>

text \<open>A non-streaming chat request gives back what it held: for every user the held amount is
  afterwards what it was before, whether the request was rejected at any stage, failed upstream in
  any way, or was served; and a served request is charged exactly the logged cost, to the user the
  reservation was taken for. The model selector is assumed to resolve, and commits to succeed.\<close>

theorem chat_request_leaves_no_hold:
  assumes "log_sink (log_put P)" "healthy (sdb (gw_server g))"
    and "resolve_provider_selector (pcfg P) (req_model q) = Inr r0"
    and "chat_non_stream P C hook tools q now out g = (g', x)"
  shows "held_of (sdb (gw_server g')) v = held_of (sdb (gw_server g)) v \<and>
    (\<forall>y. x = Inr y \<longrightarrow> (\<exists>g1 ctx h u. chat_prologue P C hook tools q g = (g1, Inr (ctx, r0))
      \<and> reservation ctx = Some h \<and> out = Replied y u
      \<and> spent_of (sdb (gw_server g')) (h_user h) = spent_of (sdb (gw_server g1)) (h_user h) +
        max (cost_or_0 (snd (log_usage P (log_call_of chat_adapter ctx (Some (instance_name r0)) (model_name r0))
          u None None None now (gw_server g1)))) 0))"
proof -
  obtain g1 p where p: "chat_prologue P C hook tools q g = (g1, p)" by fastforce
  note pc = prologue_cases[OF assms(1,2) p assms(3)]
  show ?thesis
  proof (cases p)
    case (Inl e)
    with pc p assms(4) show ?thesis by (auto simp: chat_non_stream_def same_holds_def)
  next
    case (Inr cr)
    obtain ctx r where cr: "cr = (ctx, r)" by (cases cr)
    from pc Inr cr obtain h where h: "r = r0" "reservation ctx = Some h" "has_db ctx"
      "holds_extra h (sdb (gw_server g)) (sdb (gw_server g1))" by auto
    obtain s y where rn: "run_standalone_non_stream P chat_adapter ctx (Some (instance_name r)) (model_name r) now
        out (gw_server g1) = (s, y)" by fastforce
    have g': "g' = g1\<lparr>gw_server := s\<rparr>" "x = y"
      using assms(4) p Inr cr rn by (simp_all add: chat_non_stream_def)
    from non_stream_settles[OF assms(1) h(2-4) rn] g' p Inr cr h show ?thesis
      by (auto simp: same_holds_def chat_adapter_def)
  qed
qed

definition providers0 :: providers_config where
  "providers0 = sample_providers\<lparr>any_split := (\<lambda>s. Inl (Value_Error s))\<rparr>"

definition pipeline0 :: pipeline where
  "pipeline0 = \<lparr>env = env0, pcfg = providers0, budget_strategy = Some ''cas'', require_pricing = True,
     reject_user_mismatch = True, default_output_tokens = 1000, missing_usage_policy = ''estimate'',
     vision_model = None, log_put = single_put\<rparr>"

definition price0 :: "string \<Rightarrow> model_pricing" where
  "price0 key = \<lparr>model_key = key, effective_at = 0, input_price_per_million = 1, output_price_per_million = 1\<rparr>"

definition gateway0 :: gateway where
  "gateway0 = \<lparr>gw_server = \<lparr>sdb = store0\<lparr>pricing := [price0 ''local:llama'', price0 ''gpt'']\<rparr>,
     log_queue = [], reports = []\<rparr>, gw_limiter = None\<rparr>"

definition request0 :: "string \<Rightarrow> request" where
  "request0 m = \<lparr>req_headers = [(''Authorization'', ''Bearer root'')], req_model = m, req_user_field = Some ''u'',
     prompt_chars = 4000000, max_output_tokens = Some 0, req_now = (\<lambda>_. 5), limiter_now = 0, wall_clock = 0\<rparr>"

lemma gateway0_healthy: "healthy (sdb (gw_server gateway0))"
  by (auto simp: healthy_def gateway0_def store0_def keyed_def held_of_def get_active_user_def user0_def
      split: option.splits)

lemma local_resolves:
  "resolve_provider_selector (pcfg pipeline0) (req_model (request0 ''local:llama'')) = Inr \<lparr>instance_name = ''local'',
     provider_impl = ''openai'', model_name = ''llama'', call_kwargs = [(''api_key'', JStr ''k'')]\<rparr>"
  by (simp add: resolve_provider_selector_def configured_split_def split_selector_def sample_providers_def
      with_kwargs_def get_provider_kwargs_def provider_instance_type_def declared_type_def alias_of_def
      provider_type_aliases_def dict_remove_def instance_meta_keys_def assign_from_def Let_def pipeline0_def
      providers0_def request0_def)

lemma single_put_sink: "log_sink (log_put pipeline0)"
  using single_sink.log_sink_axioms by (simp add: pipeline0_def)

lemma gateway0_held: "held_of (sdb (gw_server gateway0)) ''u'' = 0"
  by (simp add: gateway0_def store0_def held_of_def get_active_user_def user0_def)

theorem chat_request_leaves_no_hold_witness:
  "held_of (sdb (gw_server (fst (chat_non_stream pipeline0 sample_auth None None (request0 ''local:llama'') 6
     (Replied () (Some (usage_of 10))) gateway0)))) ''u'' = 0"
  using chat_request_leaves_no_hold[OF single_put_sink gateway0_healthy local_resolves, of sample_auth None None 6
      "Replied () (Some (usage_of 10))" _ _ "''u''"] gateway0_held
  by (metis prod.collapse)

text \<open>The same for a streaming chat request: whatever the provider sends or raises, and however
  and whenever the client reads, stops or disconnects, the response settles the reservation exactly
  once and every user's held amount ends as it began.\<close>

theorem chat_stream_leaves_no_hold:
  assumes "log_sink (log_put P)" "healthy (sdb (gw_server g))"
    and "resolve_provider_selector (pcfg P) (req_model q) = Inr r0"
    and "chat_stream P C hook tools q now G op rs g = (g', x)"
  shows "held_of (sdb (gw_server g')) v = held_of (sdb (gw_server g)) v"
proof -
  obtain g1 p where p: "chat_prologue P C hook tools q g = (g1, p)" by fastforce
  note pc = prologue_cases[OF assms(1,2) p assms(3)]
  show ?thesis
  proof (cases p)
    case (Inl e)
    with pc p assms(4) show ?thesis by (auto simp: chat_stream_def same_holds_def)
  next
    case (Inr cr)
    obtain ctx r where cr: "cr = (ctx, r)" by (cases cr)
    from pc Inr cr obtain h where h: "reservation ctx = Some h" "has_db ctx"
      "holds_extra h (sdb (gw_server g)) (sdb (gw_server g1))" by auto
    note rel = raise_after_refunded[OF release_refunds[OF h]]
    note lf = raise_after_refunded[OF log_failure_refunds[OF assms(1) h]]
    show ?thesis
    proof (cases op)
      case (Opened ps)
      with response_settles[OF assms(1), of "\<lparr>ss_ctx = ctx, ss_provider = Some (instance_name r),
          ss_model = model_name r, ss_has_writer = True, ss_correlation = None, ss_now = now\<rparr>" h
          "sdb (gw_server g)" "gw_server g1" chat_adapter G ps rs] h p Inr cr assms(4)
      show ?thesis by (auto simp: chat_stream_def run_single_attempt_stream_def same_holds_def)
    qed (use assms(4) p Inr cr rel lf in \<open>fastforce simp: chat_stream_def run_single_attempt_stream_def
        same_holds_def split: prod.splits sum.splits\<close>)+
  qed
qed

theorem chat_stream_leaves_no_hold_witness:
  "held_of (sdb (gw_server (fst (chat_stream pipeline0 sample_auth None None (request0 ''local:llama'') 6
     (sample_args (\<lambda>_ _. Returns)) (Opened [Chunk CHR ''a'', Upstream (Exc ''boom'')]) [Resume, Close] gateway0)))) ''u'' = 0"
  using chat_stream_leaves_no_hold[OF single_put_sink gateway0_healthy local_resolves, of sample_auth None None 6
      "sample_args (\<lambda>_ _. Returns)" "Opened [Chunk CHR ''a'', Upstream (Exc ''boom'')]" "[Resume, Close]" _ _ "''u''"]
    gateway0_held
  by (metis prod.collapse)

section \<open>A selector that does not resolve\<close>

text \<open>
  \<open>resolve_request_context\<close> tolerates a selector that does not resolve, prices it by its bare name
  and reserves; the handler then resolves it again, outside every refund. The exception ends the
  request with the reservation still held.
\<close>

lemma unresolved_selector_keeps_hold:
  assumes "log_sink (log_put P)" "healthy (sdb (gw_server g))" "py_strip (req_model q) \<noteq> []"
    and "resolve_request_context P C chat_adapter master_key_user_required user_forbidden None True hook q g =
      (g1, Inr (ctx, info))"
    and "resolve_provider_selector (pcfg P) (req_model q) = Inl e"
  shows "chat_non_stream P C hook None q now out g = (g1, Inl Pipe_Crash)"
    and "\<exists>h. reservation ctx = Some h \<and> holds_extra h (sdb (gw_server g)) (sdb (gw_server g1))"
  using assms resolve_holds[OF assms(1,2,4)] by (auto simp: chat_non_stream_def chat_prologue_def)

lemma gpt_auth:
  "verify_api_key_or_master_key sample_auth d (req_headers (request0 m)) now = (d, Inr (None, True))"
proof -
  have "extract_bearer_token (req_headers (request0 m)) = Inr ''root''"
    by (simp add: request0_def extract_bearer_token_def api_key_headers_def header_get_def py_lower_def
        lower_char_def starts_with_def char_of_def bit_0)
  then show ?thesis
    by (simp add: verify_api_key_or_master_key_def is_valid_master_key_def sample_auth_def is_ascii_def)
qed

lemma gpt_unresolved: "resolve_provider_selector (pcfg pipeline0) ''gpt'' = Inl (Value_Error ''gpt'')"
  by (simp add: resolve_provider_selector_def configured_split_def split_selector_def pipeline0_def providers0_def)

lemma cas_normal: "normalize_strategy (Some ''cas'') = ''cas''"
  by (simp add: normalize_strategy_def py_lower_def py_strip_def py_rstrip_def py_lstrip_def
      is_space_def lower_char_def)

lemma gpt_reserved:
  "reserve_and_setup pipeline0 chat_adapter (request0 ''gpt'') None k ''u'' (gw_server gateway0) =
    (gw_server gateway0\<lparr>sdb := sdb (gw_server gateway0)\<lparr>users := [''u'' \<mapsto> user0\<lparr>reserved := 1\<rparr>]\<rparr>\<rparr>,
     Inr (held_handle ''u'' 1 ''cas''))"
proof -
  let ?d = "store0\<lparr>pricing := [price0 ''local:llama'', price0 ''gpt'']\<rparr>"
  have g: "gate_of pipeline0 ''gpt'' = Inr (None, None, ''gpt'')" by (simp add: gate_of_def gpt_unresolved)
  have pr: "find_price env0 ?d None ''gpt'' 5 = Some (price0 ''gpt'')"
    by (simp add: find_price_def find_model_pricing_def pricing_key_def given_def find_by_model_key_def price0_def)
  have est: "estimate_cost (Some (price0 ''gpt'')) 4000000 (Some 0) 1000 = 1"
    by (simp add: estimate_cost_def price0_def Let_def)
  have row: "get_active_user ?d ''u'' = Some user0" by (simp add: get_active_user_def store0_def user0_def)
  have u: "\<not> blocked user0" "\<not> reset_due 5 user0" by (simp_all add: user0_def reset_due_def)
  have b: "budget_of ?d user0 = Some (''b'', budget0)"
    by (simp add: budget_of_def given_def user0_def store0_def)
  have fr: "\<not> model_is_free env0 ?d (Some ''gpt'') 5"
    using pr by (simp add: model_is_free_def is_model_free_def given_def env0_def price0_def)
  have "reserve_budget env0 ?d ''u'' 1 (Some ''gpt'') (Some ''cas'') 5 =
      take_reservation ?d ''u'' 1 ''cas'' (Some 10)"
    using reserve_budget_enforced[OF row u(1) _ b, of "Some ''cas''" env0 1 "Some ''gpt''" 5] u(2) fr
    by (simp add: cas_normal reserve_after_reset_def budget0_def)
  also have "\<dots> = (?d\<lparr>users := [''u'' \<mapsto> user0\<lparr>reserved := 1\<rparr>]\<rparr>, Inr (held_handle ''u'' 1 ''cas''))"
    by (simp add: take_reservation_def update_user_def row fits_def add_reserved_def)
      (simp add: user0_def store0_def)
  finally show ?thesis
    using g pr est by (simp add: reserve_and_setup_def gateway0_def in_db_def pipeline0_def request0_def
        pricing_required_but_missing_def)
qed


end
