(* ===== verification/Direct_Routes.thy ===== *)
theory Direct_Routes
  imports Chat Gateway_Tools
begin

text \<open>
  The routes that call one provider operation each, without tools and without streaming:
  embeddings, rerank, image generation, moderation, transcription and speech (\<open>api/routes/\<close>
  \<open>embeddings.py\<close>, \<open>rerank.py\<close>, \<open>images.py\<close>, \<open>moderations.py\<close>, \<open>audio.py\<close>). They do not go through
  \<open>_pipeline.py\<close>: each authenticates, resolves the user, checks the rate limit, reserves, calls the
  provider and settles in its own handler.

  The steps the handlers have in common, word for word, are one definition each: \<open>admit_direct\<close>,
  \<open>reserve_direct\<close>, \<open>settle_direct\<close> and \<open>finish_direct\<close>. The provider operation (\<open>aembedding\<close>, ...) is
  a parameter of each handler, a function of the arguments it is called with.
\<close>

section \<open>Requests and provider answers\<close>

record direct_request =
  d_headers :: "(string, string) dict"
  d_model :: string
  d_user :: "string option"
  d_now :: "nat \<Rightarrow> instant"
  d_limiter_now :: real
  d_wall_clock :: real

text \<open>What the provider operation does: answer, or raise one of the exceptions the handlers tell apart.\<close>

datatype 'r answer = Answer 'r | Answer_Http http_exception | Not_Implemented string | Answer_Failed string

type_synonym 'r operation = "(string, json) dict \<Rightarrow> 'r answer"

record embedding_request =
  em_input :: "string + string list"
  encoding_format :: "string option"
  dimensions :: "int option"

text \<open>\<open>usage\<close> of an embedding reply: prompt and total tokens.\<close>

record embedding_reply =
  em_usage :: "(int \<times> int) option"

record rerank_request =
  rr_query :: string
  rr_documents :: "string list"
  top_n :: "int option"
  max_tokens_per_doc :: "int option"

text \<open>A rerank reply may carry a usage object whose \<open>total_tokens\<close> may be missing.\<close>

record rerank_reply =
  rr_usage :: "int option option"

text \<open>\<open>data\<close> of an image reply is absent or a list; only its length is read.\<close>

record image_reply =
  im_data :: "nat option"

section \<open>The shared steps\<close>

definition direct_errors :: user_errors where
  "direct_errors =
     \<lparr>master_key_error = http_error 400
        (''When using master key, '' @ quoted ''user'' @ '' field is required in request body''),
      no_api_key_error = http_error 500 ''API key validation failed'',
      no_user_error = http_error 500 ''API key has no associated user'',
      forbidden_user_error = http_error 403
        (quoted ''user'' @ '' field does not match the authenticated API key'' @ [CHR 0x27] @ ''s user'')\<rparr>"

record caller =
  caller_key :: "string option"
  caller_user :: string
  caller_limit :: "rate_limit_info option"

text \<open>The authentication dependency, \<open>resolve_user_id\<close> and \<open>check_rate_limit\<close>.\<close>

definition admit_direct :: "pipeline \<Rightarrow> auth_config \<Rightarrow> direct_request \<Rightarrow> gateway
    \<Rightarrow> gateway \<times> (pipe_error, caller) result" where
  "admit_direct P C q g =
     (case in_db (\<lambda>d. verify_api_key_or_master_key C d (d_headers q) (d_now q 0)) (gw_server g) of
        (s1, Inl e) \<Rightarrow> (g\<lparr>gw_server := s1\<rparr>, Inl (auth_pipe_error e))
      | (s1, Inr (ko, is_master)) \<Rightarrow>
          (case resolve_user_id direct_errors (d_user q) ko is_master (reject_user_mismatch P) of
             Inl e \<Rightarrow> (g\<lparr>gw_server := s1\<rparr>, Inl (Pipe_Http e))
           | Inr u \<Rightarrow>
               (case check_rate_limit (gw_limiter g) u (d_limiter_now q) (d_wall_clock q) of
                  (l, Inl e) \<Rightarrow> (\<lparr>gw_server = s1, gw_limiter = l\<rparr>, Inl (limit_pipe_error e))
                | (l, Inr info) \<Rightarrow> (\<lparr>gw_server = s1, gw_limiter = l\<rparr>,
                    Inr \<lparr>caller_key = map_option key_id ko, caller_user = u, caller_limit = info\<rparr>))))"

text \<open>A selector that does not resolve raises out of the handler.\<close>

definition selector_error :: "provider_error \<Rightarrow> pipe_error" where
  "selector_error e = (case e of Vertex_Error x \<Rightarrow> Pipe_Http x | _ \<Rightarrow> Pipe_Crash)"

definition budget_pipe_error :: "budget_error \<Rightarrow> pipe_error" where
  "budget_pipe_error e = (case e of Http x \<Rightarrow> Pipe_Http x | Store_Error \<Rightarrow> Pipe_Store)"

definition reserve_direct :: "pipeline \<Rightarrow> direct_request \<Rightarrow> string \<Rightarrow> money \<Rightarrow> server
    \<Rightarrow> server \<times> (pipe_error, reservation_handle) result" where
  "reserve_direct P q u est s =
     (case in_db (\<lambda>d. reserve_budget (env P) d u est (Some (d_model q)) (budget_strategy P) (d_now q 2)) s of
        (s1, Inl e) \<Rightarrow> (s1, Inl (budget_pipe_error e))
      | (s1, Inr h) \<Rightarrow> (s1, Inr h))"

text \<open>The missing-pricing rejection, after the reservation so that 403 and 404 come first.\<close>

definition require_price :: "pipeline \<Rightarrow> resolved_provider \<Rightarrow> model_pricing option \<Rightarrow> reservation_handle
    \<Rightarrow> server \<Rightarrow> server \<times> pipe_error option" where
  "require_price P r price h s =
     (if pricing_required_but_missing price (require_pricing P)
      then (case in_db (\<lambda>d. refund_reservation d h) s of
          (s1, ok) \<Rightarrow> (s1, Some (if ok then Pipe_Http (http_error 402
            (''No pricing configured for model '' @ quoted (instance_name r @ '':'' @ model_name r)))
            else Pipe_Store)))
      else (s, None))"

definition provider_failed_detail :: string where
  "provider_failed_detail = ''The request could not be completed by the provider''"

definition direct_row :: "caller \<Rightarrow> resolved_provider \<Rightarrow> string \<Rightarrow> instant \<Rightarrow> int list option \<Rightarrow> money option
    \<Rightarrow> string option \<Rightarrow> usage_log" where
  "direct_row c r path now tokens cost err =
     \<lparr>log_api_key_id = caller_key c, log_user_id = Some (caller_user c), log_timestamp = now,
      log_model = model_name r, log_provider = Some (instance_name r), log_endpoint = path,
      log_status = (if err = None then ''success'' else ''error''), log_error = err,
      log_tokens = tokens, log_cost = cost\<rparr>"

text \<open>The error path: log the failure, refund, raise.\<close>

definition fail_direct :: "pipeline \<Rightarrow> caller \<Rightarrow> resolved_provider \<Rightarrow> string \<Rightarrow> instant \<Rightarrow> reservation_handle
    \<Rightarrow> string \<Rightarrow> http_exception \<Rightarrow> server \<Rightarrow> server \<times> (pipe_error, 'r) result" where
  "fail_direct P c r path now h m e s =
     raise_after (in_db (\<lambda>d. refund_reservation d h)
       (log_put P (direct_row c r path now None None (Some m)) s)) e"

text \<open>
  The \<open>try\<close> block: a served request writes its row and reconciles at its cost. A failing reconcile
  is caught by \<open>except Exception\<close>.
\<close>

definition settle_direct :: "pipeline \<Rightarrow> caller \<Rightarrow> resolved_provider \<Rightarrow> string \<Rightarrow> instant \<Rightarrow> reservation_handle
    \<Rightarrow> ('r \<Rightarrow> int list option) \<Rightarrow> ('r \<Rightarrow> money option) \<Rightarrow> 'r answer \<Rightarrow> server
    \<Rightarrow> server \<times> (pipe_error, 'r) result" where
  "settle_direct P c r path now h tokens charge out s = (case out of
       Answer x \<Rightarrow>
         (case in_db (\<lambda>d. reconcile_reservation d h (case charge x of None \<Rightarrow> 0 | Some k \<Rightarrow> k))
             (log_put P (direct_row c r path now (tokens x) (charge x) None) s) of
            (s1, True) \<Rightarrow> (s1, Inr x)
          | (s1, False) \<Rightarrow> fail_direct P c r path now h (exn_message store_exn)
              (http_error 500 provider_failed_detail) s1)
     | Answer_Http e \<Rightarrow> raise_after (in_db (\<lambda>d. refund_reservation d h) s) e
     | Not_Implemented m \<Rightarrow> fail_direct P c r path now h m (http_error 500 provider_failed_detail) s
     | Answer_Failed m \<Rightarrow> fail_direct P c r path now h m (http_error 500 provider_failed_detail) s)"

definition rate_limit_headers :: "rate_limit_info \<Rightarrow> (string, string) dict" where
  "rate_limit_headers i = [(''X-RateLimit-Limit'', str_int (limit i)),
     (''X-RateLimit-Remaining'', str_int (remaining i)),
     (''X-RateLimit-Reset'', str_int (if reset_at i < 0 then \<lceil>reset_at i\<rceil> else \<lfloor>reset_at i\<rfloor>))]"

definition finish_direct :: "caller \<Rightarrow> gateway \<Rightarrow> server \<times> (pipe_error, 'r) result
    \<Rightarrow> gateway \<times> (pipe_error, 'r \<times> (string, string) dict) result" where
  "finish_direct c g sr = (case sr of (s, x) \<Rightarrow> (g\<lparr>gw_server := s\<rparr>,
     rbind x (\<lambda>r. Inr (r, case caller_limit c of None \<Rightarrow> [] | Some i \<Rightarrow> rate_limit_headers i))))"

section \<open>The routes\<close>

definition opt_kwarg :: "string \<Rightarrow> json option \<Rightarrow> (string, json) dict \<Rightarrow> (string, json) dict" where
  "opt_kwarg k v d = (case v of None \<Rightarrow> d | Some x \<Rightarrow> AList.update k x d)"

definition input_chars :: "string + string list \<Rightarrow> nat" where
  "input_chars i = (case i of Inl s \<Rightarrow> length s | Inr ss \<Rightarrow> sum_list (map length ss))"

definition input_json :: "string + string list \<Rightarrow> json" where
  "input_json i = (case i of Inl s \<Rightarrow> JStr s | Inr ss \<Rightarrow> JArr (map JStr ss))"

definition embedding_kwargs :: "resolved_provider \<Rightarrow> embedding_request \<Rightarrow> (string, json) dict" where
  "embedding_kwargs r b = opt_kwarg ''dimensions'' (map_option JInt (dimensions b))
     (opt_kwarg ''encoding_format'' (map_option JStr (encoding_format b))
       (dict_merge [(''model'', JStr (model_name r)), (''inputs'', input_json (em_input b)),
          (''provider'', JStr (provider_impl r))] (call_kwargs r)))"

definition embedding_tokens :: "embedding_reply \<Rightarrow> int list option" where
  "embedding_tokens x = map_option (\<lambda>(p, t). [p, 0, t]) (em_usage x)"

definition embedding_cost :: "model_pricing option \<Rightarrow> embedding_reply \<Rightarrow> money option" where
  "embedding_cost price x = (case (em_usage x, price) of
       (Some (p, _), Some m) \<Rightarrow> Some (real_of_int p / 1000000 * input_price_per_million m)
     | _ \<Rightarrow> None)"

definition create_embedding :: "pipeline \<Rightarrow> auth_config \<Rightarrow> direct_request \<Rightarrow> embedding_request
    \<Rightarrow> embedding_reply operation \<Rightarrow> instant \<Rightarrow> gateway
    \<Rightarrow> gateway \<times> (pipe_error, embedding_reply \<times> (string, string) dict) result" where
  "create_embedding P C q b op now g = (case admit_direct P C q g of
       (g1, Inl e) \<Rightarrow> (g1, Inl e)
     | (g1, Inr c) \<Rightarrow>
         (case resolve_provider_selector (pcfg P) (d_model q) of
            Inl e \<Rightarrow> (g1, Inl (selector_error e))
          | Inr r \<Rightarrow>
              (let price = find_price (env P) (sdb (gw_server g1)) (Some (instance_name r)) (model_name r) (d_now q 1);
                   est = estimate_cost price (int (input_chars (em_input b))) None 0
               in (case reserve_direct P q (caller_user c) est (gw_server g1) of
                    (s1, Inl e) \<Rightarrow> (g1\<lparr>gw_server := s1\<rparr>, Inl e)
                  | (s1, Inr h) \<Rightarrow>
                      (case require_price P r price h s1 of
                         (s2, Some e) \<Rightarrow> (g1\<lparr>gw_server := s2\<rparr>, Inl e)
                       | (s2, None) \<Rightarrow> finish_direct c g1
                           (settle_direct P c r ''/v1/embeddings'' now h embedding_tokens (embedding_cost price)
                             (op (embedding_kwargs r b)) s2))))))"

definition rerank_kwargs :: "resolved_provider \<Rightarrow> rerank_request \<Rightarrow> (string, json) dict" where
  "rerank_kwargs r b = opt_kwarg ''max_tokens_per_doc'' (map_option JInt (max_tokens_per_doc b))
     (opt_kwarg ''top_n'' (map_option JInt (top_n b))
       (dict_merge [(''model'', JStr (model_name r)), (''query'', JStr (rr_query b)),
          (''documents'', JArr (map JStr (rr_documents b))), (''provider'', JStr (provider_impl r))] (call_kwargs r)))"

definition rerank_total :: "rerank_reply \<Rightarrow> int option" where
  "rerank_total x = (case rr_usage x of None \<Rightarrow> None | Some t \<Rightarrow> t)"

definition rerank_tokens :: "rerank_reply \<Rightarrow> int list option" where
  "rerank_tokens x = map_option (\<lambda>t. [t, 0, t]) (rerank_total x)"

definition rerank_cost :: "model_pricing option \<Rightarrow> rerank_reply \<Rightarrow> money option" where
  "rerank_cost price x = (case (rerank_total x, price) of
       (Some t, Some m) \<Rightarrow> if t = 0 then None else Some (real_of_int t / 1000000 * input_price_per_million m)
     | _ \<Rightarrow> None)"

definition create_rerank :: "pipeline \<Rightarrow> auth_config \<Rightarrow> direct_request \<Rightarrow> rerank_request
    \<Rightarrow> rerank_reply operation \<Rightarrow> instant \<Rightarrow> gateway
    \<Rightarrow> gateway \<times> (pipe_error, rerank_reply \<times> (string, string) dict) result" where
  "create_rerank P C q b op now g = (case admit_direct P C q g of
       (g1, Inl e) \<Rightarrow> (g1, Inl e)
     | (g1, Inr c) \<Rightarrow>
         (case resolve_provider_selector (pcfg P) (d_model q) of
            Inl e \<Rightarrow> (g1, Inl (selector_error e))
          | Inr r \<Rightarrow>
              (let price = find_price (env P) (sdb (gw_server g1)) (Some (instance_name r)) (model_name r) (d_now q 1);
                   chars = length (rr_query b) + sum_list (map length (rr_documents b));
                   est = estimate_cost price (int chars) None 0
               in (case reserve_direct P q (caller_user c) est (gw_server g1) of
                    (s1, Inl e) \<Rightarrow> (g1\<lparr>gw_server := s1\<rparr>, Inl e)
                  | (s1, Inr h) \<Rightarrow>
                      (case require_price P r price h s1 of
                         (s2, Some e) \<Rightarrow> (g1\<lparr>gw_server := s2\<rparr>, Inl e)
                       | (s2, None) \<Rightarrow> finish_direct c g1
                           (settle_direct P c r ''/v1/rerank'' now h rerank_tokens (rerank_cost price)
                             (op (rerank_kwargs r b)) s2))))))"

text \<open>
  Image generation: \<open>n\<close> is the request's field, \<open>fields\<close> its \<open>model_dump(exclude_unset=True)\<close>. The
  input price is read as a price per image.
\<close>

definition requested_images :: "int option \<Rightarrow> int" where
  "requested_images n = (case n of None \<Rightarrow> 1 | Some k \<Rightarrow> k)"

definition image_estimate :: "model_pricing option \<Rightarrow> int option \<Rightarrow> money" where
  "image_estimate price n = (case price of None \<Rightarrow> 0
     | Some m \<Rightarrow> real_of_int (requested_images n) * input_price_per_million m)"

definition forwarded_kwargs :: "resolved_provider \<Rightarrow> (string, json) dict \<Rightarrow> (string, json) dict" where
  "forwarded_kwargs r d =
     dict_merge (dict_merge [(''model'', JStr (model_name r)), (''provider'', JStr (provider_impl r))] (call_kwargs r))
       (dict_remove {''model''} (strip_gateway_fields False None d))"

definition images_made :: "int option \<Rightarrow> image_reply \<Rightarrow> int" where
  "images_made n x = (case im_data x of Some k \<Rightarrow> if k = 0 then requested_images n else int k
     | None \<Rightarrow> requested_images n)"

definition image_cost :: "model_pricing option \<Rightarrow> int option \<Rightarrow> image_reply \<Rightarrow> money option" where
  "image_cost price n x = map_option (\<lambda>m. real_of_int (images_made n x) * input_price_per_million m) price"

definition create_image :: "pipeline \<Rightarrow> auth_config \<Rightarrow> direct_request \<Rightarrow> int option \<Rightarrow> (string, json) dict
    \<Rightarrow> image_reply operation \<Rightarrow> instant \<Rightarrow> gateway
    \<Rightarrow> gateway \<times> (pipe_error, image_reply \<times> (string, string) dict) result" where
  "create_image P C q n body op now g = (case admit_direct P C q g of
       (g1, Inl e) \<Rightarrow> (g1, Inl e)
     | (g1, Inr c) \<Rightarrow>
         (case resolve_provider_selector (pcfg P) (d_model q) of
            Inl e \<Rightarrow> (g1, Inl (selector_error e))
          | Inr r \<Rightarrow>
              (let price = find_price (env P) (sdb (gw_server g1)) (Some (instance_name r)) (model_name r) (d_now q 1)
               in (case reserve_direct P q (caller_user c) (image_estimate price n) (gw_server g1) of
                    (s1, Inl e) \<Rightarrow> (g1\<lparr>gw_server := s1\<rparr>, Inl e)
                  | (s1, Inr h) \<Rightarrow>
                      (case require_price P r price h s1 of
                         (s2, Some e) \<Rightarrow> (g1\<lparr>gw_server := s2\<rparr>, Inl e)
                       | (s2, None) \<Rightarrow> finish_direct c g1
                           (settle_direct P c r ''/v1/images/generations'' now h (\<lambda>_. Some [0, 0, 0])
                             (image_cost price n) (op (forwarded_kwargs r body)) s2))))))"

text \<open>Moderation: a flat rate per request, exempt from the pricing gate.\<close>

definition flat_cost :: "model_pricing option \<Rightarrow> money" where
  "flat_cost price = (case price of None \<Rightarrow> 0 | Some m \<Rightarrow> input_price_per_million m / 1000000)"

definition unsupported_moderation_substring :: string where
  "unsupported_moderation_substring = ''does not support moderation''"

definition moderation_kwargs :: "resolved_provider \<Rightarrow> json \<Rightarrow> bool \<Rightarrow> (string, json) dict" where
  "moderation_kwargs r inp include_raw = dict_merge [(''model'', JStr (model_name r)), (''input'', inp),
     (''provider'', JStr (provider_impl r)), (''include_raw'', JBool include_raw)] (call_kwargs r)"

definition create_moderation :: "pipeline \<Rightarrow> auth_config \<Rightarrow> direct_request \<Rightarrow> json \<Rightarrow> bool
    \<Rightarrow> 'r operation \<Rightarrow> instant \<Rightarrow> gateway \<Rightarrow> gateway \<times> (pipe_error, 'r \<times> (string, string) dict) result" where
  "create_moderation P C q inp include_raw op now g = (case admit_direct P C q g of
       (g1, Inl e) \<Rightarrow> (g1, Inl e)
     | (g1, Inr c) \<Rightarrow>
         (case resolve_provider_selector (pcfg P) (d_model q) of
            Inl e \<Rightarrow> (g1, Inl (selector_error e))
          | Inr r \<Rightarrow>
              (let price = find_price (env P) (sdb (gw_server g1)) (Some (instance_name r)) (model_name r) (d_now q 1);
                   flat = flat_cost price
               in (case reserve_direct P q (caller_user c) flat (gw_server g1) of
                    (s1, Inl e) \<Rightarrow> (g1\<lparr>gw_server := s1\<rparr>, Inl e)
                  | (s1, Inr h) \<Rightarrow> finish_direct c g1
                      (case op (moderation_kwargs r inp include_raw) of
                         Not_Implemented m \<Rightarrow> fail_direct P c r ''/v1/moderations'' now h m
                           (if contains unsupported_moderation_substring m then http_error 400 m
                            else http_error 500 provider_failed_detail) s1
                       | out \<Rightarrow> settle_direct P c r ''/v1/moderations'' now h (\<lambda>_. None) (\<lambda>_. Some flat) out s1)))))"

text \<open>
  The audio routes reserve nothing, before the selector is resolved: the reservation only enforces
  the user's state. The upload is its bytes, as a string.
\<close>

definition max_audio_upload_bytes :: nat where
  "max_audio_upload_bytes = 25 * 1024 * 1024"

definition transcription_kwargs :: "resolved_provider \<Rightarrow> string \<Rightarrow> string option \<Rightarrow> string option \<Rightarrow> string option
    \<Rightarrow> json option \<Rightarrow> (string, json) dict" where
  "transcription_kwargs r upload language prompt response_format temperature =
     opt_kwarg ''temperature'' temperature (opt_kwarg ''response_format'' (map_option JStr response_format)
       (opt_kwarg ''prompt'' (map_option JStr prompt) (opt_kwarg ''language'' (map_option JStr language)
         (dict_merge [(''model'', JStr (model_name r)), (''file'', JStr upload),
            (''provider'', JStr (provider_impl r))] (call_kwargs r)))))"

definition create_transcription :: "pipeline \<Rightarrow> auth_config \<Rightarrow> direct_request \<Rightarrow> string \<Rightarrow> string option
    \<Rightarrow> string option \<Rightarrow> string option \<Rightarrow> json option \<Rightarrow> 'r operation \<Rightarrow> instant \<Rightarrow> gateway
    \<Rightarrow> gateway \<times> (pipe_error, 'r \<times> (string, string) dict) result" where
  "create_transcription P C q upload language prompt response_format temperature op now g =
     (case admit_direct P C q g of
       (g1, Inl e) \<Rightarrow> (g1, Inl e)
     | (g1, Inr c) \<Rightarrow>
         (case reserve_direct P q (caller_user c) 0 (gw_server g1) of
            (s1, Inl e) \<Rightarrow> (g1\<lparr>gw_server := s1\<rparr>, Inl e)
          | (s1, Inr h) \<Rightarrow>
              (case resolve_provider_selector (pcfg P) (d_model q) of
                 Inl e \<Rightarrow> (g1\<lparr>gw_server := s1\<rparr>, Inl (selector_error e))
               | Inr r \<Rightarrow>
                   if max_audio_upload_bytes < length upload
                   then (g1\<lparr>gw_server := s1\<rparr>, Inl (Pipe_Http (http_error 413
                     (''Audio file exceeds maximum upload size of ''
                      @ str_nat (max_audio_upload_bytes div (1024 * 1024)) @ '' MB''))))
                   else finish_direct c g1 (settle_direct P c r ''/v1/audio/transcriptions'' now h
                     (\<lambda>_. Some [0, 0, 0]) (\<lambda>_. None)
                     (op (transcription_kwargs r upload language prompt response_format temperature)) s1))))"

definition speech_content_types :: "(string, string) dict" where
  "speech_content_types = [(''mp3'', ''audio/mpeg''), (''opus'', ''audio/opus''), (''aac'', ''audio/aac''),
     (''flac'', ''audio/flac''), (''wav'', ''audio/wav''), (''pcm'', ''audio/L16'')]"

definition speech_content_type :: "string option \<Rightarrow> string" where
  "speech_content_type f = (case f of None \<Rightarrow> ''audio/mpeg'' | Some k \<Rightarrow>
     (case map_of speech_content_types k of Some t \<Rightarrow> t | None \<Rightarrow> ''audio/mpeg''))"

definition create_speech :: "pipeline \<Rightarrow> auth_config \<Rightarrow> direct_request \<Rightarrow> string option \<Rightarrow> (string, json) dict
    \<Rightarrow> string operation \<Rightarrow> instant \<Rightarrow> gateway
    \<Rightarrow> gateway \<times> (pipe_error, (string \<times> (string, string) dict) \<times> string) result" where
  "create_speech P C q response_format body op now g =
     (case admit_direct P C q g of
       (g1, Inl e) \<Rightarrow> (g1, Inl e)
     | (g1, Inr c) \<Rightarrow>
         (case reserve_direct P q (caller_user c) 0 (gw_server g1) of
            (s1, Inl e) \<Rightarrow> (g1\<lparr>gw_server := s1\<rparr>, Inl e)
          | (s1, Inr h) \<Rightarrow>
              (case resolve_provider_selector (pcfg P) (d_model q) of
                 Inl e \<Rightarrow> (g1\<lparr>gw_server := s1\<rparr>, Inl (selector_error e))
               | Inr r \<Rightarrow>
                   (case finish_direct c g1 (settle_direct P c r ''/v1/audio/speech'' now h (\<lambda>_. Some [0, 0, 0])
                       (\<lambda>_. None) (op (forwarded_kwargs r body)) s1) of
                      (g2, x) \<Rightarrow> (g2, rbind x (\<lambda>y. Inr (y, speech_content_type response_format)))))))"

section \<open>Lemmas\<close>

lemma healthy_same_holds: "healthy d \<Longrightarrow> same_holds d d"
  by (simp add: healthy_def same_holds_def)

lemma admit_direct_healthy:
  assumes "healthy (sdb (gw_server g))" "admit_direct P C q g = (g1, x)"
  shows "healthy (sdb (gw_server g1)) \<and> same_holds (sdb (gw_server g)) (sdb (gw_server g1))
    \<and> spent_of (sdb (gw_server g1)) = spent_of (sdb (gw_server g))"
proof -
  obtain s1 v where v: "in_db (\<lambda>d. verify_api_key_or_master_key C d (d_headers q) (d_now q 0)) (gw_server g)
      = (s1, v)" by fastforce
  have fr: "users (sdb s1) = users (sdb (gw_server g))" "faults (sdb s1) = []"
    using verify_either_frame(1,4)[where C = C and d = "sdb (gw_server g)" and hs = "d_headers q"
        and now = "d_now q 0"] v assms(1)
    by (auto simp: in_db_def healthy_def split: prod.splits)
  have "gw_server g1 = s1"
    using assms(2) v by (auto simp: admit_direct_def split: prod.splits sum.splits)
  with fr readings_users[OF fr(1)] assms(1) show ?thesis by (auto simp: healthy_def same_holds_def)
qed

lemma reserve_direct_holds:
  assumes "healthy (sdb s)" "reserve_direct P q u est s = (s1, x)"
  shows "case x of Inl e \<Rightarrow> same_holds (sdb s) (sdb s1) | Inr h \<Rightarrow> holds_extra h (sdb s) (sdb s1) \<and> h_user h = u"
proof -
  obtain d1 r where r: "reserve_budget (env P) (sdb s) u est (Some (d_model q)) (budget_strategy P) (d_now q 2)
      = (d1, r)" by fastforce
  show ?thesis
  proof (cases r)
    case (Inl e)
    with r reserve_failed_held(1)[of "env P" "sdb s" u est "Some (d_model q)" "budget_strategy P" "d_now q 2" d1]
      reserve_keyed[of "sdb s" "env P" u est "Some (d_model q)" "budget_strategy P" "d_now q 2"]
      reserve_faults[of "sdb s" "env P" u est "Some (d_model q)" "budget_strategy P" "d_now q 2"] assms
    show ?thesis by (auto simp: reserve_direct_def in_db_def same_holds_def healthy_def)
  next
    case (Inr h)
    with r holds_extra_reserve[OF assms(1)] reserve_budget_user assms(2) show ?thesis
      by (auto simp: reserve_direct_def in_db_def)
  qed
qed

lemma require_price_holds:
  assumes "holds_extra h d0 (sdb s)" "require_price P r price h s = (s1, x)"
  shows "case x of Some e \<Rightarrow> same_holds d0 (sdb s1) | None \<Rightarrow> s1 = s"
  using assms(2) holds_extra_refund(2)[OF assms(1)]
  by (auto simp: require_price_def in_db_def split: if_splits prod.splits)

text \<open>A log row written in between changes nothing the reservation depends on.\<close>

lemma put_holds:
  assumes "log_sink put"
  shows "holds_extra h d0 (sdb s) \<Longrightarrow> holds_extra h d0 (sdb (put l s))"
    and "spent_of (sdb (put l s)) = spent_of (sdb s)"
  using readings_users[OF log_sink.put_users[OF assms]] log_sink.put_faults[OF assms, of s l]
  by (auto simp: holds_extra_def)

lemma refund_in_db_refunds:
  assumes "holds_extra h d0 (sdb s)"
  shows "refunded d0 (sdb s) (in_db (\<lambda>d. refund_reservation d h) s)"
  using holds_extra_refund[OF assms] by (simp add: refunded_def)

lemma raise_after_refunds:
  assumes "refunded d0 d sr" "raise_after sr e = (s', r)"
  shows "same_holds d0 (sdb s') \<and> (\<forall>v. spent_of (sdb s') v = spent_of d v) \<and> r = Inl (Pipe_Http e)"
  using assms by (auto simp: refunded_def raise_after_def split: prod.splits)

lemma fail_direct_refunds:
  assumes "log_sink (log_put P)" "holds_extra h d0 (sdb s)" "fail_direct P c r path now h m e s = (s', x)"
  shows "same_holds d0 (sdb s') \<and> (\<forall>v. spent_of (sdb s') v = spent_of (sdb s) v) \<and> x = Inl (Pipe_Http e)"
  using raise_after_refunds[OF refund_in_db_refunds[OF put_holds(1)[OF assms(1,2)]]] assms(3)
    put_holds(2)[OF assms(1)] by (fastforce simp: fail_direct_def)

text \<open>The \<open>try\<close> block settles whatever the provider did, and charges only an answer.\<close>

lemma settle_direct_settles:
  assumes "log_sink (log_put P)" "holds_extra h d0 (sdb s)"
    and "settle_direct P c r path now h tokens charge out s = (s', x)"
  shows "same_holds d0 (sdb s') \<and> (case x of
      Inl e \<Rightarrow> \<forall>v. spent_of (sdb s') v = spent_of (sdb s) v
    | Inr y \<Rightarrow> out = Answer y \<and> (\<forall>v. spent_of (sdb s') v = spent_of (sdb s) v +
        (if v = h_user h then max (cost_or_0 (charge y)) 0 else 0)))"
proof (cases out)
  case (Answer y)
  let ?s = "log_put P (direct_row c r path now (tokens y) (charge y) None) s"
  note h = put_holds(1)[OF assms(1,2), of "direct_row c r path now (tokens y) (charge y) None"]
  note rc = holds_extra_reconcile[OF h, of "cost_or_0 (charge y)"]
  have "x = Inr y \<and> sdb s' = fst (reconcile_reservation (sdb ?s) h (cost_or_0 (charge y)))"
    using assms(3) Answer rc(1)
    by (auto simp: settle_direct_def in_db_def cost_or_0_def split: prod.splits bool.splits)
  with rc(2,3) put_holds(2)[OF assms(1)] Answer show ?thesis by auto
next
  case (Answer_Http e)
  with assms(3) raise_after_refunds[OF refund_in_db_refunds[OF assms(2)]] show ?thesis
    by (fastforce simp: settle_direct_def)
qed (use assms(3) fail_direct_refunds[OF assms(1,2)] in \<open>fastforce simp: settle_direct_def\<close>)+

lemma finish_direct_gateway [simp]:
  "gw_server (fst (finish_direct c g sr)) = fst sr"
  by (simp add: finish_direct_def split: prod.splits)

lemma reserve_zero_estimate:
  assumes "reserve_direct P q u 0 s = (s1, Inr h)" shows "estimate h = 0"
  using assms unfolding reserve_direct_def in_db_def reserve_budget_def reserve_after_reset_def take_reservation_def
  by (auto simp: Let_def no_reservation_def held_handle_def split: option.splits if_splits prod.splits sum.splits
      bool.splits)

text \<open>The two prologues every handler shares, as rules: what is left to show is what follows them.\<close>

definition keeps_holds :: "gateway \<Rightarrow> gateway \<times> 'a \<Rightarrow> bool" where
  "keeps_holds g gx = same_holds (sdb (gw_server g)) (sdb (gw_server (fst gx)))"

lemma admit_then:
  assumes "healthy (sdb (gw_server g))"
    and "\<And>g1 c. healthy (sdb (gw_server g1)) \<Longrightarrow> keeps_holds g1 (K g1 c)"
  shows "keeps_holds g (case admit_direct P C q g of (g1, Inl e) \<Rightarrow> (g1, Inl e) | (g1, Inr c) \<Rightarrow> K g1 c)"
proof -
  obtain g1 x where a: "admit_direct P C q g = (g1, x)" by fastforce
  from admit_direct_healthy[OF assms(1) a] have h: "healthy (sdb (gw_server g1))"
    "same_holds (sdb (gw_server g)) (sdb (gw_server g1))" by auto
  show ?thesis
  proof (cases x)
    case (Inr c)
    with a h(2) assms(2)[OF h(1), of c] show ?thesis by (auto simp: keeps_holds_def same_holds_def)
  qed (use a h in \<open>simp add: keeps_holds_def\<close>)
qed

lemma reserve_then:
  assumes "healthy (sdb (gw_server g))"
    and "\<And>s1 h. reserve_direct P q u est (gw_server g) = (s1, Inr h) \<Longrightarrow>
      holds_extra h (sdb (gw_server g)) (sdb s1) \<Longrightarrow> keeps_holds g (K s1 h)"
  shows "keeps_holds g (case reserve_direct P q u est (gw_server g) of
      (s1, Inl e) \<Rightarrow> (g\<lparr>gw_server := s1\<rparr>, Inl e) | (s1, Inr h) \<Rightarrow> K s1 h)"
proof -
  obtain s1 x where r: "reserve_direct P q u est (gw_server g) = (s1, x)" by fastforce
  with reserve_direct_holds[OF assms(1) r] assms(2)[of s1] show ?thesis
    by (cases x) (auto simp: keeps_holds_def)
qed

lemma settle_then:
  assumes "log_sink (log_put P)" "holds_extra h (sdb (gw_server g)) (sdb s)"
  shows "keeps_holds g (finish_direct c g (settle_direct P c r path now h tokens charge out s))"
  using settle_direct_settles[OF assms, of c r path now tokens charge out]
  by (cases "settle_direct P c r path now h tokens charge out s") (simp add: keeps_holds_def)

lemma fail_then:
  assumes "log_sink (log_put P)" "holds_extra h (sdb (gw_server g)) (sdb s)"
  shows "keeps_holds g (finish_direct c g (fail_direct P c r path now h m e s :: server \<times> (pipe_error, 'r) result))"
proof -
  obtain s' x where "fail_direct P c r path now h m e s = (s', x :: (pipe_error, 'r) result)" by fastforce
  with fail_direct_refunds[OF assms this] show ?thesis by (simp add: keeps_holds_def)
qed

lemma price_then:
  assumes "holds_extra h (sdb (gw_server g)) (sdb s)"
    and "keeps_holds g (K s)"
  shows "keeps_holds g (case require_price P r price h s of
      (s2, Some e) \<Rightarrow> (g\<lparr>gw_server := s2\<rparr>, Inl e) | (s2, None) \<Rightarrow> K s2)"
proof -
  obtain s2 x where p: "require_price P r price h s = (s2, x)" by fastforce
  with require_price_holds[OF assms(1) p] assms(2) show ?thesis
    by (cases x) (auto simp: keeps_holds_def)
qed

lemma zero_hold: "holds_extra h d0 d \<Longrightarrow> estimate h = 0 \<Longrightarrow> same_holds d0 d"
  by (auto simp: holds_extra_def same_holds_def)

lemma crash_keeps: "healthy (sdb (gw_server g)) \<Longrightarrow> keeps_holds g (g, x)"
  by (simp add: keeps_holds_def healthy_same_holds)

lemma priced_route_keeps:
  assumes "log_sink (log_put P)" "healthy (sdb (gw_server g))"
  shows "keeps_holds g (create_embedding P C q b1 op1 now g)"
    and "keeps_holds g (create_rerank P C q b2 op2 now g)"
    and "keeps_holds g (create_image P C q n b3 op3 now g)"
  unfolding create_embedding_def create_rerank_def create_image_def Let_def
  by (rule admit_then[OF assms(2)],
      auto intro!: crash_keeps reserve_then price_then settle_then assms(1) split: sum.split)+

lemma moderation_keeps:
  assumes "log_sink (log_put P)" "healthy (sdb (gw_server g))"
  shows "keeps_holds g (create_moderation P C q inp raw op now g)"
  unfolding create_moderation_def Let_def
  by (rule admit_then[OF assms(2)])
    (auto intro!: crash_keeps reserve_then settle_then fail_then assms(1) split: sum.split answer.split)

lemma audio_route_keeps:
  assumes "log_sink (log_put P)" "healthy (sdb (gw_server g))"
  shows "keeps_holds g (create_transcription P C q upload la pr fo te op5 now g)"
    and "keeps_holds g (create_speech P C q fo b6 op6 now g)"
proof -
  have z: "reserve_direct P q u 0 s = (s1, Inr h) \<Longrightarrow> holds_extra h (sdb s) (sdb s1) \<Longrightarrow> same_holds (sdb s) (sdb s1)"
    for u s s1 h using zero_hold reserve_zero_estimate by blast
  show "keeps_holds g (create_transcription P C q upload la pr fo te op5 now g)"
    unfolding create_transcription_def
    by (rule admit_then[OF assms(2)])
      (auto intro!: reserve_then settle_then assms(1) z simp: keeps_holds_def[of _ "(_, Inl _)"] split: sum.split)
  have map: "keeps_holds g' (case gx of (g2, x) \<Rightarrow> (g2, f x)) = keeps_holds g' gx" for g' gx and f :: "'x \<Rightarrow> 'y"
    by (simp add: keeps_holds_def split: prod.splits)
  show "keeps_holds g (create_speech P C q fo b6 op6 now g)"
    unfolding create_speech_def
    by (rule admit_then[OF assms(2)])
      (auto intro!: reserve_then settle_then assms(1) z simp: map keeps_holds_def[of _ "(_, Inl _)"] split: sum.split)
qed

section \<open>Properties\<close>

text \<open>C21. None of the six routes leaves a hold behind: whatever the request, the configuration and the
  provider's answer, every user's held amount is afterwards what it was before. Commits are assumed
  to succeed.\<close>

theorem direct_routes_leave_no_hold:
  assumes "log_sink (log_put P)" "healthy (sdb (gw_server g))"
  shows "held_of (sdb (gw_server (fst (create_embedding P C q b1 op1 now g)))) v = held_of (sdb (gw_server g)) v
    \<and> held_of (sdb (gw_server (fst (create_rerank P C q b2 op2 now g)))) v = held_of (sdb (gw_server g)) v
    \<and> held_of (sdb (gw_server (fst (create_image P C q n b3 op3 now g)))) v = held_of (sdb (gw_server g)) v
    \<and> held_of (sdb (gw_server (fst (create_moderation P C q inp raw op4 now g)))) v = held_of (sdb (gw_server g)) v
    \<and> held_of (sdb (gw_server (fst (create_transcription P C q upload la pr fo te op5 now g)))) v
      = held_of (sdb (gw_server g)) v
    \<and> held_of (sdb (gw_server (fst (create_speech P C q fo b6 op6 now g)))) v = held_of (sdb (gw_server g)) v"
  using priced_route_keeps(1)[OF assms, of C q b1 op1 now] priced_route_keeps(2)[OF assms, of C q b2 op2 now]
    priced_route_keeps(3)[OF assms, of C q n b3 op3 now] moderation_keeps[OF assms, of C q inp raw op4 now]
    audio_route_keeps(1)[OF assms, where C = C and q = q and upload = upload and la = la and pr = pr and fo = fo and te = te
      and ?op5.0 = op5 and now = now]
    audio_route_keeps(2)[OF assms, where C = C and q = q and fo = fo and ?b6.0 = b6 and ?op6.0 = op6 and now = now]
  by (simp add: keeps_holds_def same_holds_def)

text \<open>Moderation and images are charged exactly what they hold when priced and delivered as asked, so
  they cannot carry a capped user over the cap.\<close>

lemma delivered_images_cost_the_estimate:
  "im_data x = Some k \<Longrightarrow> k \<noteq> 0 \<Longrightarrow> int k \<le> requested_images n \<Longrightarrow> 0 \<le> input_price_per_million m \<Longrightarrow>
    cost_or_0 (image_cost (Some m) n x) \<le> image_estimate (Some m) n"
  by (simp add: image_cost_def image_estimate_def images_made_def cost_or_0_def mult_right_mono)

text \<open>An image reply with an empty list is charged at the number of images asked for.\<close>

lemma no_image_full_price:
  "image_cost (Some m) (Some 4) \<lparr>im_data = Some 0\<rparr> = Some (4 * input_price_per_million m)"
  by (simp add: image_cost_def images_made_def requested_images_def)

text \<open>The client cannot replace the credentials of the forwarded call.\<close>

lemma forwarded_credentials:
  assumes "k \<in> sensitive_param_fields" "k \<noteq> ''provider''"
  shows "map_of (forwarded_kwargs r d) k = map_of (dict_merge [(''model'', JStr (model_name r)),
    (''provider'', JStr (provider_impl r))] (call_kwargs r)) k"
proof -
  have "map_of (strip_gateway_fields False None d) k = None"
    by (rule map_of_strip) (use assms sensitive_not_tools in blast)+
  then have "map_of (dict_remove {''model''} (strip_gateway_fields False None d)) k = None"
    by (auto simp: dict_remove_def map_of_eq_None_iff)
  then show ?thesis by (simp add: forwarded_kwargs_def merge_absent)
qed

text \<open>The witness: an embedding of a priced model by the master key.\<close>

definition direct0 :: direct_request where
  "direct0 = \<lparr>d_headers = [(''Authorization'', ''Bearer root'')], d_model = ''local:llama'', d_user = Some ''u'',
     d_now = (\<lambda>_. 5), d_limiter_now = 0, d_wall_clock = 0\<rparr>"

definition embedding0 :: embedding_request where
  "embedding0 = \<lparr>em_input = Inl ''hi'', encoding_format = None, dimensions = None\<rparr>"

theorem direct_routes_leave_no_hold_witness:
  "held_of (sdb (gw_server (fst (create_embedding pipeline0 sample_auth direct0 embedding0
     (\<lambda>_. Answer \<lparr>em_usage = Some (3, 3)\<rparr>) 6 gateway0)))) ''u'' = 0"
  unfolding direct_routes_leave_no_hold[OF single_put_sink gateway0_healthy, THEN conjunct1]
  by (rule gateway0_held)

end
