(* ===== verification/Serve.thy ===== *)
theory Serve
  imports Dispatch Direct_Routes
begin

text \<open>
  The three completion handlers in standalone mode, without streaming, composed from request to
  response: \<open>chat_completions\<close> (\<open>api/routes/chat.py\<close>), \<open>create_message\<close> (\<open>api/routes/messages.py\<close>) and
  \<open>create_response\<close> (\<open>api/routes/responses.py\<close>). Admission, the choice of gateway tools, the
  resolution of the selector, the call or the tool loop over the opened backend, and the settlement
  of the reservation are the definitions of the earlier theories; what is new here is each format's
  adapter, the keyword arguments it builds, and the order of the steps.

  \<open>body\<close> is the request's \<open>model_dump\<close>, \<open>tq\<close> its gateway fields, \<open>ask\<close> the provider call.
\<close>

section \<open>Adapters\<close>

text \<open>The messages route wraps every message in an error envelope with a type.\<close>

definition anthropic_http_error :: "string \<Rightarrow> string \<Rightarrow> nat \<Rightarrow> http_exception" where
  "anthropic_http_error ty m c = \<lparr>status_code = c, detail = m, headers = [], error_type = Some ty\<rparr>"

definition status_to_anthropic_type :: "nat \<Rightarrow> string" where
  "status_to_anthropic_type c = (case map_of [(400, ''invalid_request_error''), (401, ''authentication_error''),
      (403, ''permission_error''), (404, ''not_found_error''), (429, ''rate_limit_error'')] c of
     Some t \<Rightarrow> t | None \<Rightarrow> ''api_error'')"

definition ensure_anthropic_error :: "http_exception \<Rightarrow> http_exception" where
  "ensure_anthropic_error e = (if error_type e \<noteq> None then e
     else e\<lparr>error_type := Some (status_to_anthropic_type (status_code e))\<rparr>)"

definition error_kind_type :: "error_kind \<Rightarrow> string" where
  "error_kind_type k = (case k of Invalid_Request \<Rightarrow> ''invalid_request_error'' | Api \<Rightarrow> ''api_error''
     | Permission \<Rightarrow> ''permission_error'')"

definition messages_error :: "nat \<Rightarrow> string \<Rightarrow> error_kind \<Rightarrow> http_exception" where
  "messages_error c m k = anthropic_http_error (error_kind_type k) m c"

definition messages_provider_error :: "upstream_exn \<Rightarrow> http_exception" where
  "messages_provider_error x = (case classify_provider_error x of
     Some (c, d) \<Rightarrow> anthropic_http_error (status_to_anthropic_type c) d c
   | None \<Rightarrow> anthropic_http_error ''api_error'' provider_failed_detail 500)"

definition messages_adapter :: adapter where
  "messages_adapter = \<lparr>endpoint = ''/v1/messages'', mk_error = messages_error,
     provider_error = messages_provider_error, log_success_without_usage = False\<rparr>"

definition messages_user_required :: string where
  "messages_user_required = ''When using master key, '' @ quoted ''metadata.user_id'' @ '' is required in request body''"

definition messages_user_forbidden :: string where
  "messages_user_forbidden = quoted ''metadata.user_id'' @ '' does not match the authenticated API key''
     @ [CHR 0x27] @ ''s user''"

definition responses_error :: "nat \<Rightarrow> string \<Rightarrow> error_kind \<Rightarrow> http_exception" where
  "responses_error c m k = http_error c m"

definition responses_provider_error :: "upstream_exn \<Rightarrow> http_exception" where
  "responses_provider_error x = (case classify_provider_error x of
     Some (c, d) \<Rightarrow> http_error c d | None \<Rightarrow> http_error 502 ''LLM provider error'')"

definition responses_adapter :: adapter where
  "responses_adapter = \<lparr>endpoint = ''/v1/responses'', mk_error = responses_error,
     provider_error = responses_provider_error, log_success_without_usage = True\<rparr>"

section \<open>Usage of a reply\<close>

definition chat_reply_usage :: "completion \<Rightarrow> usage option" where
  "chat_reply_usage c = extract_result_usage (map_option Completion_Usage (cp_usage c))"

definition message_reply_usage :: "message_response \<Rightarrow> usage option" where
  "message_reply_usage m = map_option (\<lambda>u. Gateway_Usage
     \<lparr>prompt_tokens = mu_input u, completion_tokens = mu_output u, total_tokens = mu_input u + mu_output u,
      prompt_tokens_details = None\<rparr> (mu_cache_read u) (mu_cache_write u)) (mr_usage m)"

definition response_reply_usage :: "response_object \<Rightarrow> usage option" where
  "response_reply_usage r = map_option (\<lambda>u. Gateway_Usage
     \<lparr>prompt_tokens = ru_input u, completion_tokens = ru_output u, total_tokens = ru_total u,
      prompt_tokens_details = None\<rparr> (ru_cached u) 0) (ro_usage r)"

section \<open>Keyword arguments\<close>

definition chat_kwargs :: "resolved_provider \<Rightarrow> 'm tool_context \<Rightarrow> (string, json) dict \<Rightarrow> (string, json) dict" where
  "chat_kwargs r tc body = standalone_kwargs (call_kwargs r) (dispatch_model r)
     (strip_gateway_fields (tools_extracted tc) (tc_remaining_tools tc) body)"

text \<open>Tools given in the chat shape are converted when there are any.\<close>

definition convert_tools :: "(json list \<Rightarrow> json list) \<Rightarrow> (string, json) dict \<Rightarrow> (string, json) dict" where
  "convert_tools f d = (case map_of d ''tools'' of
     Some (JArr (t # ts)) \<Rightarrow> AList.update ''tools'' (JArr (f (t # ts))) d | _ \<Rightarrow> d)"

definition messages_kwargs :: "resolved_provider \<Rightarrow> 'm tool_context \<Rightarrow> (string, json) dict \<Rightarrow> (string, json) dict" where
  "messages_kwargs r tc body = standalone_kwargs (call_kwargs r) (dispatch_model r)
     (convert_tools openai_to_anthropic_tools (strip_gateway_fields (tools_extracted tc) (tc_remaining_tools tc) body))"

definition opt_json_field :: "string \<Rightarrow> json option \<Rightarrow> (string, json) dict \<Rightarrow> (string, json) dict" where
  "opt_json_field k v d = (case v of None \<Rightarrow> d | Some j \<Rightarrow> AList.update k j d)"

definition responses_kwargs :: "resolved_provider \<Rightarrow> string option \<Rightarrow> 'm tool_context \<Rightarrow> (string, json) dict
    \<Rightarrow> (string, json) dict" where
  "responses_kwargs r user tc body =
     (let d = convert_tools openai_to_responses_tools
            (strip_gateway_fields (tools_extracted tc) (tc_remaining_tools tc) body);
          d' = dict_remove {''input'', ''stream'', ''model'', ''user''} d;
          d'' = (if given user then AList.update ''user'' (JStr (the user)) d' else d')
      in standalone_kwargs (call_kwargs r) (model_name r)
           (opt_json_field ''input_data'' (map_of d ''input'')
             (AList.update ''provider'' (JStr (provider_impl r)) d'')))"

section \<open>The handlers\<close>

definition settle_dispatched :: "pipeline \<Rightarrow> adapter \<Rightarrow> request_context \<Rightarrow> rate_limit_info option \<Rightarrow> resolved_provider
    \<Rightarrow> instant \<Rightarrow> 'r dispatched option \<Rightarrow> gateway \<Rightarrow> gateway \<times> (pipe_error, 'r \<times> (string, string) dict) result" where
  "settle_dispatched P A ctx info r now out g = (case out of
     None \<Rightarrow> (g, Inl Pipe_Crash)
   | Some o' \<Rightarrow> (case run_standalone_non_stream P A ctx (Some (instance_name r)) (model_name r) now o' (gw_server g) of
       (s, x) \<Rightarrow> (g\<lparr>gw_server := s\<rparr>,
         rbind x (\<lambda>y. Inr (y, case info of None \<Rightarrow> [] | Some i \<Rightarrow> rate_limit_headers i)))))"

text \<open>\<open>prepare_gateway_tools\<close> and what follows it.\<close>

definition with_tools :: "adapter \<Rightarrow> request_context \<Rightarrow> 'm tool_env \<Rightarrow> 'm tool_request \<Rightarrow> gateway
    \<Rightarrow> ('m tool_context \<Rightarrow> gateway \<Rightarrow> gateway \<times> (pipe_error, 'r) result) \<Rightarrow> gateway \<times> (pipe_error, 'r) result" where
  "with_tools A ctx E tq g k = (case prepare_gateway_tools A ctx E tq (gw_server g) of
     (s, Inl e) \<Rightarrow> (g\<lparr>gw_server := s\<rparr>, Inl e)
   | (s, Inr tc) \<Rightarrow> k tc (g\<lparr>gw_server := s\<rparr>))"

definition chat_completions :: "pipeline \<Rightarrow> auth_config \<Rightarrow> backends \<Rightarrow> normalize_hook option
    \<Rightarrow> mcp_server_config tool_env \<Rightarrow> request \<Rightarrow> mcp_server_config tool_request \<Rightarrow> (string, json) dict
    \<Rightarrow> (string \<Rightarrow> upstream_exn) \<Rightarrow> (string \<Rightarrow> json option)
    \<Rightarrow> ((string, json) dict \<Rightarrow> nat \<Rightarrow> json list \<Rightarrow> json list \<Rightarrow> (string, completion) result)
    \<Rightarrow> instant \<Rightarrow> gateway \<Rightarrow> gateway \<times> (pipe_error, completion \<times> (string, string) dict) result" where
  "chat_completions P C W hook E q tq body exn_of loads ask now g =
     (if py_strip (req_model q) = [] then (g, Inl (Pipe_Http (http_error 400 ''Invalid request: model is required'')))
      else (case resolve_request_context P C chat_adapter master_key_user_required user_forbidden None True hook q g of
          (g1, Inl e) \<Rightarrow> (g1, Inl e)
        | (g1, Inr (ctx, info)) \<Rightarrow> with_tools chat_adapter ctx E tq g1 (\<lambda>tc g2.
            case resolve_provider_selector (pcfg P) (req_model q) of
              Inl e \<Rightarrow> (g2, Inl Pipe_Crash)
            | Inr r \<Rightarrow> settle_dispatched P chat_adapter ctx info r now
                (dispatch_chat W tc exn_of loads ask chat_reply_usage (chat_kwargs r tc body)) g2)))"

definition enveloped :: "pipe_error \<Rightarrow> pipe_error" where
  "enveloped e = (case e of Pipe_Http x \<Rightarrow> Pipe_Http (ensure_anthropic_error x) | _ \<Rightarrow> e)"

definition create_message :: "pipeline \<Rightarrow> auth_config \<Rightarrow> backends \<Rightarrow> normalize_hook option
    \<Rightarrow> mcp_server_config tool_env \<Rightarrow> request \<Rightarrow> mcp_server_config tool_request \<Rightarrow> (string, json) dict
    \<Rightarrow> (string \<Rightarrow> upstream_exn)
    \<Rightarrow> ((string, json) dict \<Rightarrow> nat \<Rightarrow> json list \<Rightarrow> json list \<Rightarrow> (string, message_response) result)
    \<Rightarrow> instant \<Rightarrow> gateway \<Rightarrow> gateway \<times> (pipe_error, message_response \<times> (string, string) dict) result" where
  "create_message P C W hook E q tq body exn_of ask now g =
     (case resolve_request_context P C messages_adapter messages_user_required messages_user_forbidden None True hook q g of
        (g1, Inl e) \<Rightarrow> (g1, Inl (enveloped e))
      | (g1, Inr (ctx, info)) \<Rightarrow> with_tools messages_adapter ctx E tq g1 (\<lambda>tc g2.
          case resolve_provider_selector (pcfg P) (req_model q) of
            Inl e \<Rightarrow> (g2, Inl Pipe_Crash)
          | Inr r \<Rightarrow> settle_dispatched P messages_adapter ctx info r now
              (dispatch_messages W tc exn_of ask message_reply_usage (messages_kwargs r tc body)) g2))"

text \<open>Only a non-negative integer bounds the output for the estimate.\<close>

definition trusted_max_output :: "json option \<Rightarrow> int option" where
  "trusted_max_output v = (case as_int v of Some i \<Rightarrow> if 0 \<le> i then Some i else None | None \<Rightarrow> None)"

definition responses_unsupported :: "string \<Rightarrow> http_exception" where
  "responses_unsupported p = http_error 400 (''Provider '' @ quoted p @ '' does not support the Responses API'')"

definition create_response :: "pipeline \<Rightarrow> auth_config \<Rightarrow> backends \<Rightarrow> (string \<Rightarrow> bool) \<Rightarrow> normalize_hook option
    \<Rightarrow> mcp_server_config tool_env \<Rightarrow> request \<Rightarrow> json option \<Rightarrow> mcp_server_config tool_request \<Rightarrow> (string, json) dict
    \<Rightarrow> (string \<Rightarrow> upstream_exn) \<Rightarrow> (string \<Rightarrow> json option)
    \<Rightarrow> ((string, json) dict \<Rightarrow> nat \<Rightarrow> json list \<Rightarrow> json list \<Rightarrow> (string, response_object) result)
    \<Rightarrow> instant \<Rightarrow> gateway \<Rightarrow> gateway \<times> (pipe_error, response_object \<times> (string, string) dict) result" where
  "create_response P C W supports hook E q max_output tq body exn_of loads ask now g =
     (case resolve_request_context P C responses_adapter master_key_user_required user_forbidden None True hook
         (q\<lparr>max_output_tokens := trusted_max_output max_output\<rparr>) g of
        (g1, Inl e) \<Rightarrow> (g1, Inl e)
      | (g1, Inr (ctx, info)) \<Rightarrow>
          (case resolve_provider_selector (pcfg P) (req_model q) of
             Inl e \<Rightarrow> (g1, Inl Pipe_Crash)
           | Inr r \<Rightarrow>
               if \<not> supports (provider_impl r)
               then (case raise_after (release_reservation ctx (gw_server g1)) (responses_unsupported (provider_impl r)) of
                 (s, x) \<Rightarrow> (g1\<lparr>gw_server := s\<rparr>, x))
               else with_tools responses_adapter ctx E tq g1 (\<lambda>tc g2.
                 settle_dispatched P responses_adapter ctx info r now
                   (dispatch_responses W tc exn_of loads ask response_reply_usage
                     (responses_kwargs r (req_user ctx) tc body)) g2)))"

section \<open>Counting tokens\<close>

text \<open>
  \<open>count_message_tokens\<close>: the characters of the messages, and of a system text and tools when given;
  the caller is only authenticated.
\<close>

definition estimate_input_tokens :: "nat \<Rightarrow> nat option \<Rightarrow> nat option \<Rightarrow> int" where
  "estimate_input_tokens messages system_chars tools_chars =
     (let chars = messages + (case system_chars of Some n \<Rightarrow> n | None \<Rightarrow> 0)
          + (case tools_chars of Some n \<Rightarrow> n | None \<Rightarrow> 0)
      in max 1 \<lceil>real chars / 4\<rceil>)"

definition count_message_tokens :: "auth_config \<Rightarrow> bool \<Rightarrow> (http_exception, unit) result option
    \<Rightarrow> (string, string) dict \<Rightarrow> instant \<Rightarrow> nat \<Rightarrow> nat option \<Rightarrow> nat option \<Rightarrow> server
    \<Rightarrow> server \<times> (pipe_error, int) result" where
  "count_message_tokens C db_open platform hs now m sy tools s =
     (let answer = estimate_input_tokens m sy tools in
      case platform of
        Some (Inl e) \<Rightarrow> (s, Inl (Pipe_Http (ensure_anthropic_error e)))
      | Some (Inr _) \<Rightarrow> (s, Inr answer)
      | None \<Rightarrow>
          if \<not> db_open then (s, Inl (Pipe_Http (anthropic_http_error ''api_error'' ''Database session unavailable'' 500)))
          else (case in_db (\<lambda>d. verify_api_key_or_master_key C d hs now) s of
              (s', Inl e) \<Rightarrow> (s', Inl (enveloped (auth_pipe_error e)))
            | (s', Inr _) \<Rightarrow> (s', Inr answer)))"

section \<open>Lemmas\<close>

lemma dispatched_holds:
  assumes "log_sink (log_put P)" "reservation ctx = Some h" "has_db ctx" "holds_extra h d0 (sdb (gw_server g))"
    and "settle_dispatched P A ctx info r now out g = (g', x)" "x \<noteq> Inl Pipe_Crash"
  shows "same_holds d0 (sdb (gw_server g'))"
proof (cases out)
  case None
  with assms(5,6) show ?thesis by (simp add: settle_dispatched_def)
next
  case (Some o')
  obtain s y where rn: "run_standalone_non_stream P A ctx (Some (instance_name r)) (model_name r) now o' (gw_server g)
      = (s, y)" by fastforce
  with assms(5) Some have "gw_server g' = s" by (auto simp: settle_dispatched_def)
  with non_stream_settles[OF assms(1-4) rn] show ?thesis by simp
qed

lemma prepare_outcome:
  "prepare_gateway_tools A ctx E tq s = (s', x) \<Longrightarrow>
    (case x of Inr tc \<Rightarrow> s' = s \<and> choose_tools A (hybrid_mode ctx) E tq = Step_Ok tc
     | Inl e \<Rightarrow> e = Pipe_Crash \<and> s' = s \<or> (\<exists>h. choose_tools A (hybrid_mode ctx) E tq = Step_Http h \<and>
         s' = fst (release_reservation ctx s) \<and>
         e = (if snd (release_reservation ctx s) then Pipe_Http h else Pipe_Store)))"
  by (auto simp: prepare_gateway_tools_def split: step.splits prod.splits)

lemma with_tools_holds:
  assumes "reservation ctx = Some h" "has_db ctx" "holds_extra h d0 (sdb (gw_server g))"
    and "with_tools A ctx E tq g k = (g', x)" "x \<noteq> Inl Pipe_Crash"
    and "\<And>tc. k tc g = (g', x) \<Longrightarrow> same_holds d0 (sdb (gw_server g'))"
  shows "same_holds d0 (sdb (gw_server g'))"
proof -
  obtain s y where p: "prepare_gateway_tools A ctx E tq (gw_server g) = (s, y)" by fastforce
  from release_refunds[OF assms(1-3)] have rel: "same_holds d0 (sdb (fst (release_reservation ctx (gw_server g))))"
    by (simp add: refunded_def)
  show ?thesis
  proof (cases y)
    case (Inl e)
    with prepare_outcome[OF p] assms(4,5) p rel show ?thesis by (auto simp: with_tools_def split: if_splits)
  next
    case (Inr tc)
    with prepare_outcome[OF p] have "s = gw_server g" by simp
    with assms(4,6) p Inr show ?thesis by (simp add: with_tools_def)
  qed
qed

lemma selected_holds:
  assumes "log_sink (log_put P)" "reservation ctx = Some h" "has_db ctx" "holds_extra h d0 (sdb (gw_server g))"
    and "(case resolve_provider_selector C m of Inl e \<Rightarrow> (g, Inl Pipe_Crash)
      | Inr r \<Rightarrow> settle_dispatched P A ctx info r now (out r) g) = (g', x)" "x \<noteq> Inl Pipe_Crash"
  shows "same_holds d0 (sdb (gw_server g'))"
  using assms(5,6) dispatched_holds[OF assms(1-4)] by (auto split: sum.splits)

lemma admitted_holds:
  assumes "log_sink (log_put P)" "healthy (sdb (gw_server g))"
    and "resolve_request_context P C A md fd None True hook q g = (g1, Inr (ctx, info))"
  obtains h where "reservation ctx = Some h" "has_db ctx" "req_user ctx = Some (h_user h)"
    "holds_extra h (sdb (gw_server g)) (sdb (gw_server g1))"
  using resolve_holds[OF assms] by auto

lemma rejected_holds:
  assumes "log_sink (log_put P)" "healthy (sdb (gw_server g))"
    and "resolve_request_context P C A md fd None True hook q g = (g1, Inl e)"
  shows "same_holds (sdb (gw_server g)) (sdb (gw_server g1))"
  using resolve_holds[OF assms] by simp

text \<open>What a model call costs, and all calls a chat request made.\<close>

definition chat_answers :: "backends \<Rightarrow> mcp_server_config tool_context \<Rightarrow> (string \<Rightarrow> json option)
    \<Rightarrow> ((string, json) dict \<Rightarrow> nat \<Rightarrow> json list \<Rightarrow> json list \<Rightarrow> (string, completion) result)
    \<Rightarrow> (string, json) dict \<Rightarrow> completion list" where
  "chat_answers W tc loads ask kw = (case open_backend W tc of
     Plain_Call \<Rightarrow> (case ask kw 0 (list_kwarg ''tools'' kw) (list_kwarg ''messages'' kw) of Inr r \<Rightarrow> [r] | Inl x \<Rightarrow> [])
   | Opened_Pool B hints \<Rightarrow> lr_answers (mcp_tool_loop B loads (ask kw) (nat (tc_max_iterations tc)) (list_kwarg ''tools'' kw)
       (inject_purpose_hints (bk_text W) (bk_vars W) (list_kwarg ''messages'' kw) hints (tc_tools_header tc)))
   | _ \<Rightarrow> [])"

definition token_cost :: "model_pricing \<Rightarrow> int \<Rightarrow> int \<Rightarrow> money" where
  "token_cost p i out = real_of_int i / 1000000 * input_price_per_million p
     + real_of_int out / 1000000 * output_price_per_million p"

lemma chat_dispatch_usage:
  assumes "dispatch_chat W tc exn_of loads ask chat_reply_usage kw = Some (Replied c u)"
  shows "u = chat_reply_usage c \<and> (\<forall>w. cp_usage c = Some w \<longrightarrow>
    prompt_tokens w = sum_usage cp_usage prompt_tokens (chat_answers W tc loads ask kw)
    \<and> completion_tokens w = sum_usage cp_usage completion_tokens (chat_answers W tc loads ask kw))"
proof -
  note d = dispatch_replied[OF assms[unfolded dispatch_chat_def]]
  then consider (plain) "open_backend W tc = Plain_Call"
      "ask kw 0 (list_kwarg ''tools'' kw) (list_kwarg ''messages'' kw) = Inr c"
    | (loop) B hints where "open_backend W tc = Opened_Pool B hints"
      "lr_end (mcp_tool_loop B loads (ask kw) (nat (tc_max_iterations tc)) (list_kwarg ''tools'' kw)
        (inject_purpose_hints (bk_text W) (bk_vars W) (list_kwarg ''messages'' kw) hints (tc_tools_header tc))) = Loop_Done c"
    by blast
  then show ?thesis
  proof cases
    case plain
    with d show ?thesis by (simp add: chat_answers_def sum_usage_def)
  next
    case loop
    from chat_folded[of B loads "\<lambda>i. ask kw i (list_kwarg ''tools'' kw @ openai_tools B)" "nat (tc_max_iterations tc)" 0 0]
    have "usage_folded cp_usage chat_total (mcp_tool_loop B loads (ask kw) (nat (tc_max_iterations tc)) (list_kwarg ''tools'' kw)
        (inject_purpose_hints (bk_text W) (bk_vars W) (list_kwarg ''messages'' kw) hints (tc_tools_header tc)))"
      by (simp add: mcp_tool_loop_def)
    with loop d show ?thesis by (auto simp: usage_folded_def chat_answers_def chat_total_def)
  qed
qed

lemma chat_reply_tokens:
  "chat_reply_usage c = Some u \<longleftrightarrow> (\<exists>w. cp_usage c = Some w \<and> u = from_completion_usage (Completion_Usage w) None None)"
  by (auto simp: chat_reply_usage_def extract_result_usage_def)

lemma carrier_base [simp]: "base_usage (from_completion_usage u r w) = base_usage u"
  by (simp add: from_completion_usage_def)

lemma logged_cost:
  "snd (log_usage P c u None None None now s) = (case u of None \<Rightarrow> None
     | Some u \<Rightarrow> map_option (\<lambda>p. usage_cost p u) (find_price (env P) (sdb s) (lc_provider c) (lc_model c) now))"
  by (simp add: log_usage_def Let_def split: option.splits)

definition gives_back :: "gateway \<Rightarrow> gateway \<times> (pipe_error, 'r) result \<Rightarrow> bool" where
  "gives_back g gx \<longleftrightarrow> snd gx = Inl Pipe_Crash
     \<or> (\<forall>v. held_of (sdb (gw_server (fst gx))) v = held_of (sdb (gw_server g)) v)"

lemma gives_backI:
  "(\<And>g' x. gx = (g', x) \<Longrightarrow> x \<noteq> Inl Pipe_Crash \<Longrightarrow> same_holds (sdb (gw_server g)) (sdb (gw_server g'))) \<Longrightarrow> gives_back g gx"
  by (cases gx) (auto simp: gives_back_def same_holds_def)

lemma admit_then_serve:
  assumes "log_sink (log_put P)" "healthy (sdb (gw_server g))"
    and "\<And>g1 ctx info h g' x. reservation ctx = Some h \<Longrightarrow> has_db ctx \<Longrightarrow>
      holds_extra h (sdb (gw_server g)) (sdb (gw_server g1)) \<Longrightarrow> K g1 ctx info = (g', x) \<Longrightarrow> x \<noteq> Inl Pipe_Crash \<Longrightarrow>
      same_holds (sdb (gw_server g)) (sdb (gw_server g'))"
  shows "gives_back g (case resolve_request_context P C A md fd None True hook q g of
      (g1, Inl e) \<Rightarrow> (g1, Inl (f e)) | (g1, Inr (ctx, info)) \<Rightarrow> K g1 ctx info)"
proof (rule gives_backI)
  fix g' x
  assume r: "(case resolve_request_context P C A md fd None True hook q g of
      (g1, Inl e) \<Rightarrow> (g1, Inl (f e)) | (g1, Inr (ctx, info)) \<Rightarrow> K g1 ctx info) = (g', x)" and c: "x \<noteq> Inl Pipe_Crash"
  obtain g1 y where y: "resolve_request_context P C A md fd None True hook q g = (g1, y)" by fastforce
  show "same_holds (sdb (gw_server g)) (sdb (gw_server g'))"
  proof (cases y)
    case (Inl e)
    with rejected_holds[OF assms(1,2)] y r show ?thesis by auto
  next
    case (Inr ci)
    then obtain ctx info where ci: "ci = (ctx, info)" by (cases ci)
    from y Inr ci obtain h where "reservation ctx = Some h" "has_db ctx"
      "holds_extra h (sdb (gw_server g)) (sdb (gw_server g1))"
      using admitted_holds[OF assms(1,2)] by metis
    from assms(3)[OF this _ c] r y Inr ci show ?thesis by simp
  qed
qed

lemma chat_gives_back:
  assumes "log_sink (log_put P)" "healthy (sdb (gw_server g))"
  shows "gives_back g (chat_completions P C W hook E q tq body exn_of loads ask now g)"
proof (cases "py_strip (req_model q) = []")
  case True
  then show ?thesis by (simp add: chat_completions_def gives_back_def)
next
  case False
  show ?thesis unfolding chat_completions_def if_not_P[OF False]
    by (rule admit_then_serve[OF assms, where f = "\<lambda>e. e"], rule with_tools_holds, assumption+)
      (erule (1) selected_holds[OF assms(1)]; assumption)
qed

lemma message_gives_back:
  assumes "log_sink (log_put P)" "healthy (sdb (gw_server g))"
  shows "gives_back g (create_message P C W hook E q tq body exn_of ask now g)"
  unfolding create_message_def
  by (rule admit_then_serve[OF assms], rule with_tools_holds, assumption+)
    (erule (1) selected_holds[OF assms(1)]; assumption)

lemma response_gives_back:
  assumes "log_sink (log_put P)" "healthy (sdb (gw_server g))"
  shows "gives_back g (create_response P C W supports hook E q mo tq body exn_of loads ask now g)"
  unfolding create_response_def
proof (rule admit_then_serve[OF assms, where f = "\<lambda>e. e"], goal_cases)
  case (1 g1 ctx info h g' x)
  show ?case
  proof (cases "resolve_provider_selector (pcfg P) (req_model q)")
    case (Inl e)
    with 1(4,5) show ?thesis by simp
  next
    case (Inr r)
    show ?thesis
    proof (cases "supports (provider_impl r)")
      case True
      with 1(4) Inr have "with_tools responses_adapter ctx E tq g1 (\<lambda>tc g2.
          settle_dispatched P responses_adapter ctx info r now (dispatch_responses W tc exn_of loads ask
            response_reply_usage (responses_kwargs r (req_user ctx) tc body)) g2) = (g', x)" by simp
      from with_tools_holds[OF 1(1-3) this 1(5)] dispatched_holds[OF assms(1) 1(1-3) _ 1(5)]
      show ?thesis by blast
    next
      case False
      with 1(4) Inr release_refunds[OF 1(1-3)] show ?thesis
        by (auto simp: refunded_def raise_after_def split: prod.splits)
    qed
  qed
qed

text \<open>A chat request that is served ran a dispatch that replied, and was charged its logged cost.\<close>

lemma dispatched_served:
  assumes "log_sink (log_put P)" "reservation ctx = Some h" "has_db ctx" "holds_extra h d0 (sdb (gw_server g))"
    and "settle_dispatched P A ctx info r now out g = (g', Inr (y, hs))"
  shows "\<exists>u. out = Some (Replied y u) \<and> (\<forall>v. spent_of (sdb (gw_server g')) v = spent_of (sdb (gw_server g)) v +
      (if v = h_user h then max (cost_or_0 (if u \<noteq> None \<or> log_success_without_usage A
         then snd (log_usage P (log_call_of A ctx (Some (instance_name r)) (model_name r)) u None None None now (gw_server g))
         else None)) 0 else 0))"
proof -
  from assms(5) obtain o' where o': "out = Some o'" by (cases out) (auto simp: settle_dispatched_def)
  obtain s x where rn: "run_standalone_non_stream P A ctx (Some (instance_name r)) (model_name r) now o' (gw_server g)
      = (s, x)" by fastforce
  with assms(5) o' have "gw_server g' = s" "x = Inr y" by (auto simp: settle_dispatched_def rbind_eq_Inr)
  with non_stream_settles[OF assms(1-4) rn] o' show ?thesis by auto
qed

lemma chat_served:
  assumes "log_sink (log_put P)" "healthy (sdb (gw_server g))"
    and "chat_completions P C W hook E q tq body exn_of loads ask now g = (g', Inr (c, hs))"
  obtains g1 ctx info h tc r u where
    "resolve_request_context P C chat_adapter master_key_user_required user_forbidden None True hook q g = (g1, Inr (ctx, info))"
    "reservation ctx = Some h" "choose_tools chat_adapter (hybrid_mode ctx) E tq = Step_Ok tc"
    "resolve_provider_selector (pcfg P) (req_model q) = Inr r"
    "dispatch_chat W tc exn_of loads ask chat_reply_usage (chat_kwargs r tc body) = Some (Replied c u)"
    "\<And>v. spent_of (sdb (gw_server g')) v = spent_of (sdb (gw_server g1)) v +
      (if v = h_user h then max (cost_or_0 (snd (log_usage P (log_call_of chat_adapter ctx (Some (instance_name r))
         (model_name r)) u None None None now (gw_server g1)))) 0 else 0)"
proof -
  obtain g1 y where y: "resolve_request_context P C chat_adapter master_key_user_required user_forbidden None True hook q g
      = (g1, y)" by fastforce
  with assms(3) obtain ctx info where y': "y = Inr (ctx, info)"
    by (cases y) (auto simp: chat_completions_def split: if_splits)
  with y obtain h where h: "reservation ctx = Some h" "has_db ctx"
    "holds_extra h (sdb (gw_server g)) (sdb (gw_server g1))"
    using admitted_holds[OF assms(1,2)] by metis
  obtain s z where p: "prepare_gateway_tools chat_adapter ctx E tq (gw_server g1) = (s, z)" by fastforce
  with assms(3) y y' obtain tc where z: "z = Inr tc"
    by (cases z) (auto simp: chat_completions_def with_tools_def split: if_splits)
  from prepare_outcome[OF p] z have t: "s = gw_server g1" "choose_tools chat_adapter (hybrid_mode ctx) E tq = Step_Ok tc"
    by auto
  from assms(3) y y' p z t obtain r where r: "resolve_provider_selector (pcfg P) (req_model q) = Inr r"
    "settle_dispatched P chat_adapter ctx info r now
       (dispatch_chat W tc exn_of loads ask chat_reply_usage (chat_kwargs r tc body)) g1 = (g', Inr (c, hs))"
    by (auto simp: chat_completions_def with_tools_def split: if_splits sum.splits)
  from dispatched_served[OF assms(1) h r(2)] obtain u where
    "dispatch_chat W tc exn_of loads ask chat_reply_usage (chat_kwargs r tc body) = Some (Replied c u)"
    "\<And>v. spent_of (sdb (gw_server g')) v = spent_of (sdb (gw_server g1)) v +
      (if v = h_user h then max (cost_or_0 (snd (log_usage P (log_call_of chat_adapter ctx (Some (instance_name r))
         (model_name r)) u None None None now (gw_server g1)))) 0 else 0)"
    by (auto simp: chat_adapter_def)
  with that y y' h(1) t(2) r(1) show ?thesis by blast
qed

text \<open>Where the HTTP errors behind admission come from: the adapter, when no guardrail rejects.\<close>

definition adapter_error :: "adapter \<Rightarrow> http_exception \<Rightarrow> bool" where
  "adapter_error A e \<longleftrightarrow> (\<exists>c m k. e = mk_error A c m k) \<or> (\<exists>x. e = provider_error A x)"

lemma adapter_errorI [simp]: "adapter_error A (mk_error A c m k)" "adapter_error A (provider_error A x)"
  by (auto simp: adapter_error_def)

lemma resolve_mcp_error: "resolve_mcp_step A False E q = Step_Http e \<Longrightarrow> adapter_error A e"
  by (auto simp: resolve_mcp_step_def split: if_splits)

lemma sandbox_error: "sandbox_step A False E mcp sb = Step_Http e \<Longrightarrow> adapter_error A e"
  by (auto simp: sandbox_step_def split: if_splits option.splits)

lemma web_search_error: "web_search_step A False E mcp use_sb ws = Step_Http e \<Longrightarrow> adapter_error A e"
  by (auto simp: web_search_step_def split: if_splits option.splits)

lemma step_bind_http: "step_bind r f = Step_Http e \<longleftrightarrow> r = Step_Http e \<or> (\<exists>a. r = Step_Ok a \<and> f a = Step_Http e)"
  by (cases r) auto

lemma chosen_error:
  assumes "te_guardrails E = Step_Ok ()" "choose_tools A False E q = Step_Http e"
  shows "adapter_error A e"
proof -
  obtain sb t1 where x1: "extract_first_matching_tool is_code_execution_tool_type (tq_tools q) = (sb, t1)" by fastforce
  obtain ws t2 where x2: "extract_first_matching_tool is_web_search_tool_type t1 = (ws, t2)" by fastforce
  from assms(2) show ?thesis
    by (auto simp: choose_tools_def assms(1) x1 x2 step_bind_http dest: resolve_mcp_error sandbox_error web_search_error)
qed

lemma raise_after_Http: "raise_after sr e = (s', Inl (Pipe_Http h)) \<Longrightarrow> h = e"
  by (auto simp: raise_after_def split: prod.splits if_splits)

lemma dispatched_error:
  assumes "settle_dispatched P A ctx info r now out g = (g', Inl (Pipe_Http e))" "\<And>h. out \<noteq> Some (Dispatch_Http h)"
  shows "adapter_error A e"
proof -
  from assms(1) obtain o' where o': "out = Some o'" by (cases out) (auto simp: settle_dispatched_def)
  obtain s x where rn: "run_standalone_non_stream P A ctx (Some (instance_name r)) (model_name r) now o' (gw_server g)
      = (s, x)" by fastforce
  with assms(1) o' have x: "x = Inl (Pipe_Http e)" by (cases x) (auto simp: settle_dispatched_def)
  show ?thesis
    using rn x assms(2) o'
    by (cases o') (auto simp: run_standalone_non_stream_def dest!: raise_after_Http split: prod.splits bool.splits)
qed

lemma dispatch_no_http: "dispatch_non_stream W tc exn_of f plain loop \<noteq> Some (Dispatch_Http h)"
  by (auto simp: dispatch_non_stream_def loop_outcome_def split: opened_backend.splits sum.splits loop_end.splits)

lemma standalone_context:
  "resolve_request_context P C A md fd None True hook q g = (g1, Inr (ctx, info)) \<Longrightarrow> \<not> hybrid_mode ctx"
  by (auto simp: resolve_request_context_def resolve_standalone_def split: prod.splits sum.splits)

lemma messages_adapter_typed: "adapter_error messages_adapter e \<Longrightarrow> error_type e \<noteq> None"
  by (auto simp: adapter_error_def messages_adapter_def messages_error_def messages_provider_error_def
      anthropic_http_error_def split: option.splits prod.splits)

lemma ensured_typed [simp]: "error_type (ensure_anthropic_error e) \<noteq> None"
  by (simp add: ensure_anthropic_error_def)

section \<open>A request of two rounds\<close>

text \<open>The model calls the sandbox once and then answers; user \<open>u\<close> pays with the master key.\<close>

definition tool_env0 :: "mcp_server_config tool_env" where
  "tool_env0 = \<lparr>te_urlparse = sample_url, te_sandbox_url = Some ''h'', te_web_search_url = None,
     te_platform_url = None, te_platform_token = None, te_user_token = None, te_guardrails = Step_Ok (),
     te_resolve_mcp = (\<lambda>_. Step_Crash), te_resolve_web = Step_Crash\<rparr>"

definition tool_request0 :: "mcp_server_config tool_request" where
  "tool_request0 = \<lparr>tq_tools = Some [JObj [(''type'', JStr ''otari_code_execution'')]], tq_mcp_servers = None,
     tq_mcp_server_ids = None, tq_max_iterations = None, tq_tools_header = None\<rparr>"

definition backends0 :: backends where
  "backends0 = \<lparr>bk_vars = (\<lambda>_. None), bk_text = (\<lambda>_. []), bk_int = (\<lambda>_. None), bk_listing = (\<lambda>_. None), bk_dial = store_exn,
     bk_session = (\<lambda>_ _ _ _. Session_Cancelled), bk_sandbox_up = True, bk_exec = (\<lambda>_ _. Exec_Failed), bk_web = (\<lambda>_. sample_web)\<rparr>"

definition llama :: resolved_provider where
  "llama = \<lparr>instance_name = ''local'', provider_impl = ''openai'', model_name = ''llama'', call_kwargs = [(''api_key'', JStr ''k'')]\<rparr>"

definition context0 :: request_context where
  "context0 = \<lparr>has_db = True, hybrid_mode = False, req_api_key = None, req_user = Some ''u'',
     reservation = Some (held_handle ''u'' 1 ''cas'')\<rparr>"

definition admitted0 :: gateway where
  "admitted0 = gateway0\<lparr>gw_server := gw_server gateway0\<lparr>sdb := sdb (gw_server gateway0)\<lparr>users :=
     [''u'' \<mapsto> user0\<lparr>reserved := 1\<rparr>]\<rparr>\<rparr>\<rparr>"

lemma llama_price: "find_price env0 (store0\<lparr>pricing := [price0 ''local:llama'', price0 ''gpt''], users := us\<rparr>) (Some ''local'') ''llama'' t
    = (if 0 \<le> t then Some (price0 ''local:llama'') else None)"
  by (simp add: find_price_def find_model_pricing_def pricing_key_def given_def find_by_model_key_def price0_def
      env0_def store0_def)

lemma llama_reserved:
  "reserve_and_setup pipeline0 chat_adapter (request0 ''local:llama'') None k ''u'' (gw_server gateway0) =
    (gw_server admitted0, Inr (held_handle ''u'' 1 ''cas''))"
proof -
  let ?d = "store0\<lparr>pricing := [price0 ''local:llama'', price0 ''gpt'']\<rparr>"
  have g: "gate_of pipeline0 ''local:llama'' = Inr (Some ''local'', Some ''openai'', ''llama'')"
    using local_resolves by (simp add: gate_of_def request0_def)
  have pr: "find_price env0 ?d (Some ''local'') ''llama'' 5 = Some (price0 ''local:llama'')"
    using llama_price[of "users store0" 5] by (simp add: store0_def)
  have est: "estimate_cost (Some (price0 ''local:llama'')) 4000000 (Some 0) 1000 = 1"
    by (simp add: estimate_cost_def price0_def Let_def)
  have row: "get_active_user ?d ''u'' = Some user0" by (simp add: get_active_user_def store0_def user0_def)
  have u: "\<not> blocked user0" "\<not> reset_due 5 user0" by (simp_all add: user0_def reset_due_def)
  have b: "budget_of ?d user0 = Some (''b'', budget0)"
    by (simp add: budget_of_def given_def user0_def store0_def)
  have fr: "\<not> model_is_free env0 ?d (Some ''local:llama'') 5"
    by (simp add: model_is_free_def is_model_free_def given_def env0_def price0_def find_price_def find_model_pricing_def
        pricing_key_def find_by_model_key_def store0_def)
  have "reserve_budget env0 ?d ''u'' 1 (Some ''local:llama'') (Some ''cas'') 5 = take_reservation ?d ''u'' 1 ''cas'' (Some 10)"
    using reserve_budget_enforced[OF row u(1) _ b, of "Some ''cas''" env0 1 "Some ''local:llama''" 5] u(2) fr
    by (simp add: cas_normal reserve_after_reset_def budget0_def)
  also have "\<dots> = (?d\<lparr>users := [''u'' \<mapsto> user0\<lparr>reserved := 1\<rparr>]\<rparr>, Inr (held_handle ''u'' 1 ''cas''))"
    by (simp add: take_reservation_def update_user_def row fits_def add_reserved_def)
      (simp add: user0_def store0_def)
  finally show ?thesis
    using g pr est by (simp add: reserve_and_setup_def gateway0_def in_db_def pipeline0_def request0_def admitted0_def
        pricing_required_but_missing_def)
qed

lemma llama_admitted:
  "resolve_request_context pipeline0 sample_auth chat_adapter master_key_user_required user_forbidden None True None
    (request0 ''local:llama'') gateway0 = (admitted0, Inr (context0, None))"
proof -
  have id: "in_db (\<lambda>d. verify_api_key_or_master_key sample_auth d (req_headers (request0 ''local:llama''))
      (req_now (request0 ''local:llama'') 0)) (gw_server gateway0) = (gw_server gateway0, Inr (None, True))"
    by (simp add: in_db_def gpt_auth)
  have us: "resolve_user_id X (req_user_field (request0 ''local:llama'')) None True b = Inr ''u''" for X b
    by (simp add: resolve_user_id_def request0_def given_def)
  have li: "check_rate_limit (gw_limiter gateway0) w t1 t2 = (gw_limiter gateway0, Inr None)" for w t1 t2
    by (simp add: check_rate_limit_def gateway0_def)
  show ?thesis
    by (simp add: resolve_request_context_def resolve_standalone_def id us li llama_reserved context0_def)
      (simp add: admitted0_def gateway0_def)
qed

lemma llama_selected: "resolve_provider_selector (pcfg pipeline0) (req_model (request0 ''local:llama'')) = Inr llama"
  using local_resolves by (simp add: llama_def)

definition tool_context0 :: "mcp_server_config tool_context" where
  "tool_context0 = \<lparr>tc_mcp_servers = None, tc_use_sandbox = True,
     tc_sandbox_entry = Some (JObj [(''type'', JStr ''otari_code_execution'')]), tc_sandbox_url = Some ''h'',
     tc_sandbox_token = None, tc_use_web_search = False, tc_web_search_entry = None,
     tc_web_search_url = None, tc_web_search_token = None, tc_remaining_tools = None,
     tc_max_iterations = 10, tc_tools_header = None\<rparr>"

lemma tools_chosen: "choose_tools chat_adapter False tool_env0 tool_request0 = Step_Ok tool_context0"
  by (simp add: choose_tools_def resolve_mcp_step_def sandbox_step_def web_search_step_def tool_env0_def
      tool_request0_def tool_context0_def extract_first_matching_tool_def is_code_execution_tool_type_def
      nonempty_def nonempty_str_def iterations_of_def default_max_tool_iterations_def max_tool_iterations_cap_def Let_def)

lemma sandbox_opened: "\<exists>hints. open_backend backends0 tool_context0 = Opened_Pool sample_sandbox hints"
  by (simp add: open_backend_def backend_of_def use_tool_loop_def tool_context0_def nonempty_def backends0_def
      sample_sandbox_def)

definition answer0 :: completion where
  "answer0 = chat_fold (20, 4, 0) (sample_completion ''stop'' None)"

lemma two_rounds:
  "lr_end (mcp_tool_loop sample_sandbox sample_loads sample_ask 10 tools msgs) = Loop_Done answer0"
  "map cp_usage (lr_answers (mcp_tool_loop sample_sandbox sample_loads sample_ask 10 tools msgs))
    = [cp_usage (sample_completion ''stop'' None), cp_usage (sample_completion ''stop'' None)]"
  by (simp_all add: mcp_tool_loop_def numeral_eq_Suc sample_defs chat_fold_def chat_add_def answer0_def
      chat_format_def after_round_def ended_def)

lemma sandbox_dispatched:
  "dispatch_chat backends0 tool_context0 (\<lambda>_. store_exn) sample_loads (\<lambda>_. sample_ask) f kw = Some (Replied answer0 (f answer0))"
  using sandbox_opened two_rounds(1)
  by (auto simp: dispatch_chat_def dispatch_non_stream_def loop_outcome_def tool_context0_def)

lemma admitted0_holds: "holds_extra (held_handle ''u'' 1 ''cas'') (sdb (gw_server gateway0)) (sdb (gw_server admitted0))"
  using resolve_holds[OF single_put_sink gateway0_healthy llama_admitted]
  by (auto simp: context0_def)

lemma two_round_served:
  "\<exists>g' hs. chat_completions pipeline0 sample_auth backends0 None tool_env0 (request0 ''local:llama'') tool_request0 []
    (\<lambda>_. store_exn) sample_loads (\<lambda>_. sample_ask) 6 gateway0 = (g', Inr (answer0, hs))"
proof -
  have st: "py_strip (req_model (request0 ''local:llama'')) \<noteq> []"
    by (simp add: request0_def py_strip_def py_lstrip_def py_rstrip_def is_space_def)
  have rs: "reservation context0 = Some (held_handle ''u'' 1 ''cas'')" "has_db context0" by (simp_all add: context0_def)
  have "snd (settle_reply pipeline0 chat_adapter context0 (Some ''local'') ''llama'' (chat_reply_usage answer0) 6
      (gw_server admitted0))"
    by (rule settle_reply_settles(1)[OF single_put_sink rs admitted0_holds])
  then obtain s where s: "settle_reply pipeline0 chat_adapter context0 (Some ''local'') ''llama'' (chat_reply_usage answer0) 6
      (gw_server admitted0) = (s, True)"
    by (cases "settle_reply pipeline0 chat_adapter context0 (Some ''local'') ''llama'' (chat_reply_usage answer0) 6
      (gw_server admitted0)") simp
  have pr: "prepare_gateway_tools chat_adapter context0 tool_env0 tool_request0 (gw_server admitted0)
      = (gw_server admitted0, Inr tool_context0)"
    using tools_chosen by (simp add: prepare_gateway_tools_def context0_def)
  have up: "admitted0\<lparr>gw_server := gw_server admitted0\<rparr> = admitted0" by (cases admitted0) simp
  have n: "instance_name llama = ''local''" "model_name llama = ''llama''" by (simp_all add: llama_def)
  show ?thesis
    by (simp add: chat_completions_def st llama_admitted with_tools_def pr up llama_selected settle_dispatched_def
        sandbox_dispatched run_standalone_non_stream_def n s)
qed

section \<open>Properties\<close>

text \<open>C18. The three completion routes give back what they held: unless the request dies of an exception no
  handler catches, every user's held amount is afterwards what it was before, whatever tools were
  asked for, whatever the guardrails, backends and model did, and however the loop ended.\<close>

theorem served_requests_give_back:
  assumes "log_sink (log_put P)" "healthy (sdb (gw_server g))"
  shows "gives_back g (chat_completions P C W hook E q tq body exn_of loads ask now g)
    \<and> gives_back g (create_message P C W hook E q tq body exn_of ask' now g)
    \<and> gives_back g (create_response P C W supports hook E q mo tq body exn_of loads ask'' now g)"
  using chat_gives_back[OF assms] message_gives_back[OF assms] response_gives_back[OF assms] by simp

theorem served_requests_give_back_witness:
  "gives_back gateway0 (chat_completions pipeline0 sample_auth backends0 None tool_env0 (request0 ''local:llama'')
     tool_request0 [] (\<lambda>_. store_exn) sample_loads (\<lambda>_. sample_ask) 6 gateway0)"
  using served_requests_give_back[OF single_put_sink gateway0_healthy] by blast




text \<open>A guardrail that rejects a message request is answered without the envelope.\<close>

lemma guardrail_error_plain:
  assumes "te_guardrails E = Step_Http (http_error 403 d)" "reservation ctx = None"
  shows "with_tools messages_adapter ctx E tq g k = (g, Inl (Pipe_Http (http_error 403 d)))"
  using assms by (simp add: with_tools_def prepare_gateway_tools_def choose_tools_def release_reservation_def)

text \<open>The local token count never falls below a quarter of the characters and never exceeds it by a whole
  token, but for the minimum of one.\<close>

theorem token_count_bounds:
  "int (m + (case sy of Some k \<Rightarrow> k | None \<Rightarrow> 0) + (case tools of Some k \<Rightarrow> k | None \<Rightarrow> 0))
      \<le> 4 * estimate_input_tokens m sy tools
    \<and> 4 * estimate_input_tokens m sy tools <
      max 5 (int (m + (case sy of Some k \<Rightarrow> k | None \<Rightarrow> 0) + (case tools of Some k \<Rightarrow> k | None \<Rightarrow> 0)) + 4)"
proof -
  define n where "n = m + (case sy of Some k \<Rightarrow> k | None \<Rightarrow> 0) + (case tools of Some k \<Rightarrow> k | None \<Rightarrow> 0)"
  have "real n / 4 \<le> of_int \<lceil>real n / 4\<rceil>" "of_int \<lceil>real n / 4\<rceil> < real n / 4 + 1" by linarith+
  then have "int n \<le> 4 * \<lceil>real n / 4\<rceil>" "4 * \<lceil>real n / 4\<rceil> < int n + 4" by linarith+
  then show ?thesis unfolding estimate_input_tokens_def Let_def n_def[symmetric] by auto
qed

text \<open>Tokens an Anthropic provider serves from its cache or writes to it are logged but not charged.\<close>

lemma cached_tokens_uncharged:
  "mr_usage m = Some u \<Longrightarrow> mr_usage m' = Some (u\<lparr>mu_cache_read := x, mu_cache_write := y\<rparr>) \<Longrightarrow>
    map_option (usage_cost p) (message_reply_usage m') = map_option (usage_cost p) (message_reply_usage m)"
  by (simp add: message_reply_usage_def usage_cost_def)

text \<open>A reply without usage is charged nothing; the messages route does not even log it.\<close>

lemma message_without_usage_unlogged:
  assumes "has_db ctx" "reservation ctx = Some h" "mr_usage m = None"
  shows "settle_reply P messages_adapter ctx p mo (message_reply_usage m) now s
    = in_db (\<lambda>d. reconcile_reservation d h 0) s"
  using assms by (simp add: settle_reply_def message_reply_usage_def messages_adapter_def)


end
