(* ===== verification/Accounts.thy ===== *)
theory Accounts
  imports Settlement_Spec
begin

text \<open>
  The management routes for users, API keys and budgets (\<open>api/routes/users.py\<close>, \<open>keys.py\<close>,
  \<open>budgets.py\<close>): every operation that changes a row, and the single-row reads, behind the master key.
  A route returns the store it leaves and the row it answers with or the error it raises.

  Constraints the tables declare (primary keys, the unique key hash, foreign keys) make a commit fail,
  which the routes answer with a 500. Aliases, names and metadata are not stored in the model. How the
  ORM treats the rows that refer to a deleted budget is the parameter \<open>orm_delete\<close>.
\<close>

section \<open>Shared steps\<close>

definition as_admin :: "auth_config \<Rightarrow> (string, string) dict \<Rightarrow> db \<Rightarrow> (db \<Rightarrow> db \<times> (pipe_error, 'a) result)
    \<Rightarrow> db \<times> (pipe_error, 'a) result" where
  "as_admin C hs d f = (case verify_master_key C hs of
     Inl e \<Rightarrow> (d, Inl (auth_pipe_error e)) | Inr _ \<Rightarrow> f d)"

definition db_error :: pipe_error where
  "db_error = Pipe_Http (http_error 500 ''Database error'')"

definition not_found :: "string \<Rightarrow> string \<Rightarrow> pipe_error" where
  "not_found kind i = Pipe_Http (http_error 404 (kind @ '' with id '' @ quoted i @ '' not found''))"

text \<open>Commit what is pending unless a constraint forbids it; a failure rolls back.\<close>

definition commit_row :: "bool \<Rightarrow> db \<Rightarrow> db \<Rightarrow> 'a \<Rightarrow> db \<times> (pipe_error, 'a) result" where
  "commit_row allowed d d' x =
     (if \<not> allowed then (d\<lparr>faults := drop 1 (faults d)\<rparr>, Inl db_error)
      else (case commit d d' of (d2, True) \<Rightarrow> (d2, Inr x) | (d2, False) \<Rightarrow> (d2, Inl db_error)))"

definition budget_exists :: "db \<Rightarrow> string option \<Rightarrow> bool" where
  "budget_exists d b \<longleftrightarrow> (case b of None \<Rightarrow> True | Some i \<Rightarrow> budgets d i \<noteq> None)"

section \<open>Users\<close>

record create_user_request =
  cu_user_id :: string
  cu_budget_id :: "string option"
  cu_blocked :: bool

definition new_user :: "string \<Rightarrow> user_row" where
  "new_user u = \<lparr>user_id = u, spend = 0, reserved = 0, budget_id = None, budget_started_at = None,
     next_budget_reset_at = None, blocked = False, deleted_at = None\<rparr>"

text \<open>A user that was deleted is revived in its old row.\<close>

definition revive_user :: "create_user_request \<Rightarrow> user_row \<Rightarrow> user_row" where
  "revive_user q r = r\<lparr>deleted_at := None, spend := 0, budget_id := cu_budget_id q, blocked := cu_blocked q,
     budget_started_at := None, next_budget_reset_at := None\<rparr>"

definition start_budget :: "budget_row \<Rightarrow> instant \<Rightarrow> user_row \<Rightarrow> user_row" where
  "start_budget b now r = r\<lparr>budget_started_at := Some now, next_budget_reset_at := next_reset_of b now\<rparr>"

definition named_budget :: "db \<Rightarrow> create_user_request \<Rightarrow> budget_row option" where
  "named_budget d q = (if given (cu_budget_id q) then budgets d (the (cu_budget_id q)) else None)"

definition created_row :: "db \<Rightarrow> create_user_request \<Rightarrow> instant \<Rightarrow> user_row" where
  "created_row d q now =
     (let row = (case users d (cu_user_id q) of
          Some r \<Rightarrow> revive_user q r
        | None \<Rightarrow> (new_user (cu_user_id q))\<lparr>budget_id := cu_budget_id q, blocked := cu_blocked q\<rparr>)
      in case named_budget d q of Some b \<Rightarrow> start_budget b now row | None \<Rightarrow> row)"

definition create_user :: "auth_config \<Rightarrow> (string, string) dict \<Rightarrow> create_user_request \<Rightarrow> instant \<Rightarrow> db
    \<Rightarrow> db \<times> (pipe_error, user_row) result" where
  "create_user C hs q now d0 = as_admin C hs d0 (\<lambda>d.
     if get_active_user d (cu_user_id q) \<noteq> None
     then (d, Inl (Pipe_Http (http_error 409 (''User with id '' @ quoted (cu_user_id q) @ '' already exists''))))
     else if given (cu_budget_id q) \<and> named_budget d q = None
     then (d, Inl (not_found ''Budget'' (the (cu_budget_id q))))
     else commit_row (budget_exists d (cu_budget_id q)) d
       (d\<lparr>users := (users d)(cu_user_id q \<mapsto> created_row d q now)\<rparr>) (created_row d q now))"

definition get_user :: "auth_config \<Rightarrow> (string, string) dict \<Rightarrow> string \<Rightarrow> db \<Rightarrow> db \<times> (pipe_error, user_row) result" where
  "get_user C hs u d0 = as_admin C hs d0 (\<lambda>d. case get_active_user d u of
     None \<Rightarrow> (d, Inl (not_found ''User'' u)) | Some r \<Rightarrow> (d, Inr r))"

record update_user_request =
  uu_budget_id :: "string option"
  uu_blocked :: "bool option"

definition set_blocked :: "bool option \<Rightarrow> user_row \<Rightarrow> user_row" where
  "set_blocked b r = (case b of None \<Rightarrow> r | Some x \<Rightarrow> r\<lparr>blocked := x\<rparr>)"

definition update_user_route :: "auth_config \<Rightarrow> (string, string) dict \<Rightarrow> string \<Rightarrow> update_user_request \<Rightarrow> instant \<Rightarrow> db
    \<Rightarrow> db \<times> (pipe_error, user_row) result" where
  "update_user_route C hs u q now d0 = as_admin C hs d0 (\<lambda>d. case get_active_user d u of
     None \<Rightarrow> (d, Inl (not_found ''User'' u))
   | Some r \<Rightarrow> (case uu_budget_id q of
       None \<Rightarrow> (let r' = set_blocked (uu_blocked q) r in
         commit_row True d (d\<lparr>users := (users d)(u \<mapsto> r')\<rparr>) r')
     | Some bid \<Rightarrow> (case budgets d bid of
         None \<Rightarrow> (d, Inl (not_found ''Budget'' bid))
       | Some b \<Rightarrow> (let r' = set_blocked (uu_blocked q) (start_budget b now (r\<lparr>budget_id := Some bid\<rparr>)) in
           commit_row True d (d\<lparr>users := (users d)(u \<mapsto> r')\<rparr>) r'))))"

definition deactivate_keys :: "string \<Rightarrow> (string, api_key_row) dict \<Rightarrow> (string, api_key_row) dict" where
  "deactivate_keys u ks = map (\<lambda>(h, k). (h, if key_user_id k = Some u then k\<lparr>is_active := False\<rparr> else k)) ks"

definition delete_user :: "auth_config \<Rightarrow> (string, string) dict \<Rightarrow> string \<Rightarrow> instant \<Rightarrow> db
    \<Rightarrow> db \<times> (pipe_error, unit) result" where
  "delete_user C hs u now d0 = as_admin C hs d0 (\<lambda>d. case get_active_user d u of
     None \<Rightarrow> (d, Inl (not_found ''User'' u))
   | Some r \<Rightarrow> commit_row True d
       (d\<lparr>api_keys := deactivate_keys u (api_keys d), users := (users d)(u \<mapsto> r\<lparr>deleted_at := Some now\<rparr>)\<rparr>) ())"

section \<open>API keys\<close>

record create_key_request =
  ck_user_id :: "string option"
  ck_expires_at :: "instant option"

definition key_owner :: "create_key_request \<Rightarrow> string \<Rightarrow> string" where
  "key_owner q kid = (if given (ck_user_id q) then the (ck_user_id q) else ''apikey-'' @ kid)"

definition new_key :: "create_key_request \<Rightarrow> string \<Rightarrow> api_key_row" where
  "new_key q kid = \<lparr>key_id = kid, key_user_id = Some (key_owner q kid), last_used_at = None,
     expires_at = ck_expires_at q, is_active = True\<rparr>"

text \<open>The unique columns of the key table.\<close>

definition key_is_fresh :: "db \<Rightarrow> string \<Rightarrow> string \<Rightarrow> bool" where
  "key_is_fresh d h kid \<longleftrightarrow> map_of (api_keys d) h = None \<and> kid \<notin> key_id ` snd ` set (api_keys d)"

text \<open>The rows a request adds: the key, and its user unless it is there already.\<close>

definition add_key :: "create_key_request \<Rightarrow> string \<Rightarrow> string \<Rightarrow> db \<Rightarrow> db" where
  "add_key q h kid d = d\<lparr>api_keys := api_keys d @ [(h, new_key q kid)],
     users := (users d)(key_owner q kid \<mapsto> (case users d (key_owner q kid) of
       None \<Rightarrow> new_user (key_owner q kid) | Some r \<Rightarrow> r))\<rparr>"

text \<open>\<open>token\<close> and \<open>kid\<close> are what \<open>secrets\<close> and \<open>uuid4\<close> give. The answer shows the key itself, once.\<close>

definition create_key :: "auth_config \<Rightarrow> (string, string) dict \<Rightarrow> create_key_request \<Rightarrow> string \<Rightarrow> string \<Rightarrow> db
    \<Rightarrow> db \<times> (pipe_error, string \<times> api_key_row) result" where
  "create_key C hs q token kid d0 = as_admin C hs d0 (\<lambda>d.
     case rbind (generate_api_key token) (\<lambda>k. rbind (hash_key C k) (\<lambda>h. Inr (k, h))) of
       Inl e \<Rightarrow> (d, Inl Pipe_Crash)
     | Inr (key, h) \<Rightarrow> (case users d (key_owner q kid) of
           None \<Rightarrow> commit_row (key_is_fresh d h kid) d (add_key q h kid d) (key, new_key q kid)
         | Some r \<Rightarrow>
             if \<not> given (ck_user_id q) then commit_row False d (add_key q h kid d) (key, new_key q kid)
             else if deleted_at r \<noteq> None
             then (d, Inl (Pipe_Http (http_error 404 (''User '' @ quoted (key_owner q kid)
               @ '' has been deleted. Recreate via POST /v1/users first.''))))
             else commit_row (key_is_fresh d h kid) d (add_key q h kid d) (key, new_key q kid)))"

definition list_keys :: "auth_config \<Rightarrow> (string, string) dict \<Rightarrow> nat \<Rightarrow> nat \<Rightarrow> db \<Rightarrow> db \<times> (pipe_error, api_key_row list) result" where
  "list_keys C hs skip page d0 = as_admin C hs d0 (\<lambda>d. (d, Inr (take page (drop skip (map snd (api_keys d))))))"

definition key_entry :: "db \<Rightarrow> string \<Rightarrow> (string \<times> api_key_row) option" where
  "key_entry d kid = find (\<lambda>(h, k). key_id k = kid) (api_keys d)"

definition get_key :: "auth_config \<Rightarrow> (string, string) dict \<Rightarrow> string \<Rightarrow> db \<Rightarrow> db \<times> (pipe_error, api_key_row) result" where
  "get_key C hs kid d0 = as_admin C hs d0 (\<lambda>d. case key_entry d kid of
     None \<Rightarrow> (d, Inl (not_found ''API key'' kid)) | Some (h, k) \<Rightarrow> (d, Inr k))"

record update_key_request =
  uk_is_active :: "bool option"
  uk_expires_at :: "instant option"

definition apply_key_update :: "update_key_request \<Rightarrow> api_key_row \<Rightarrow> api_key_row" where
  "apply_key_update q k = k\<lparr>is_active := (case uk_is_active q of Some b \<Rightarrow> b | None \<Rightarrow> is_active k),
     expires_at := (case uk_expires_at q of Some t \<Rightarrow> Some t | None \<Rightarrow> expires_at k)\<rparr>"

definition update_key :: "auth_config \<Rightarrow> (string, string) dict \<Rightarrow> string \<Rightarrow> update_key_request \<Rightarrow> db
    \<Rightarrow> db \<times> (pipe_error, api_key_row) result" where
  "update_key C hs kid q d0 = as_admin C hs d0 (\<lambda>d. case key_entry d kid of
     None \<Rightarrow> (d, Inl (not_found ''API key'' kid))
   | Some (h, k) \<Rightarrow> commit_row True d (d\<lparr>api_keys := AList.update h (apply_key_update q k) (api_keys d)\<rparr>)
       (apply_key_update q k))"

text \<open>Usage rows outlive their key: the foreign key is declared \<open>ON DELETE SET NULL\<close>.\<close>

definition unlink_key :: "string \<Rightarrow> usage_log \<Rightarrow> usage_log" where
  "unlink_key kid l = (if log_api_key_id l = Some kid then l\<lparr>log_api_key_id := None\<rparr> else l)"

definition delete_key :: "auth_config \<Rightarrow> (string, string) dict \<Rightarrow> string \<Rightarrow> db \<Rightarrow> db \<times> (pipe_error, unit) result" where
  "delete_key C hs kid d0 = as_admin C hs d0 (\<lambda>d. case key_entry d kid of
     None \<Rightarrow> (d, Inl (not_found ''API key'' kid))
   | Some (h, k) \<Rightarrow> commit_row True d (d\<lparr>api_keys := AList.delete h (api_keys d),
       usage_logs := map (unlink_key kid) (usage_logs d)\<rparr>) ())"

section \<open>Budgets\<close>

text \<open>\<open>bid\<close> is the id \<open>uuid4\<close> gives.\<close>

definition create_budget :: "auth_config \<Rightarrow> (string, string) dict \<Rightarrow> budget_row \<Rightarrow> string \<Rightarrow> db
    \<Rightarrow> db \<times> (pipe_error, budget_row) result" where
  "create_budget C hs b bid d0 = as_admin C hs d0 (\<lambda>d.
     commit_row (budgets d bid = None) d (d\<lparr>budgets := (budgets d)(bid \<mapsto> b)\<rparr>) b)"

definition get_budget :: "auth_config \<Rightarrow> (string, string) dict \<Rightarrow> string \<Rightarrow> db \<Rightarrow> db \<times> (pipe_error, budget_row) result" where
  "get_budget C hs bid d0 = as_admin C hs d0 (\<lambda>d. case budgets d bid of
     None \<Rightarrow> (d, Inl (not_found ''Budget'' bid)) | Some b \<Rightarrow> (d, Inr b))"

text \<open>A field that is not given is kept: a cap or a period cannot be removed, only changed.\<close>

definition apply_budget_update :: "budget_row \<Rightarrow> budget_row \<Rightarrow> budget_row" where
  "apply_budget_update q b = b\<lparr>max_budget := (case max_budget q of Some m \<Rightarrow> Some m | None \<Rightarrow> max_budget b),
     budget_duration_sec := (case budget_duration_sec q of Some s \<Rightarrow> Some s | None \<Rightarrow> budget_duration_sec b)\<rparr>"

definition update_budget :: "auth_config \<Rightarrow> (string, string) dict \<Rightarrow> string \<Rightarrow> budget_row \<Rightarrow> db
    \<Rightarrow> db \<times> (pipe_error, budget_row) result" where
  "update_budget C hs bid q d0 = as_admin C hs d0 (\<lambda>d. case budgets d bid of
     None \<Rightarrow> (d, Inl (not_found ''Budget'' bid))
   | Some b \<Rightarrow> commit_row True d (d\<lparr>budgets := (budgets d)(bid \<mapsto> apply_budget_update q b)\<rparr>) (apply_budget_update q b))"

text \<open>\<open>orm_delete bid d\<close> is the state the ORM's flush of the deletion reaches, or \<^const>\<open>None\<close> when a
  constraint makes it fail.\<close>

definition delete_budget :: "(string \<Rightarrow> db \<Rightarrow> db option) \<Rightarrow> auth_config \<Rightarrow> (string, string) dict \<Rightarrow> string \<Rightarrow> db
    \<Rightarrow> db \<times> (pipe_error, unit) result" where
  "delete_budget orm_delete C hs bid d0 = as_admin C hs d0 (\<lambda>d. case budgets d bid of
     None \<Rightarrow> (d, Inl (not_found ''Budget'' bid))
   | Some b \<Rightarrow> (case orm_delete bid d of
       None \<Rightarrow> commit_row False d d () | Some d' \<Rightarrow> commit_row True d d' ()))"

section \<open>Lemmas\<close>

lemma budget_exists_iff: "budget_exists d b \<longleftrightarrow> (\<forall>i. b = Some i \<longrightarrow> budgets d i \<noteq> None)"
  by (auto simp: budget_exists_def split: option.splits)

lemma as_admin_Inr:
  "as_admin C hs d f = (d', Inr x) \<longleftrightarrow> verify_master_key C hs = Inr () \<and> f d = (d', Inr x)"
  by (cases "verify_master_key C hs") (simp_all add: as_admin_def)

lemma commit_row_Inr:
  "commit_row ok d d' x = (d2, Inr y) \<longleftrightarrow> ok \<and> x = y \<and> commit d d' = (d2, True)"
  by (auto simp: commit_row_def split: prod.splits bool.splits)

lemma commit_True: "commit d d' = (d2, True) \<Longrightarrow> \<exists>fs. d2 = d'\<lparr>faults := fs\<rparr>"
  by (auto simp: commit_def split: list.splits if_splits)

text \<open>What a successful operation of the management routes leaves in the store.\<close>

lemma created_row_simps [simp]:
  "deleted_at (created_row d q now) = None" "spend (created_row d q now) = 0"
  "blocked (created_row d q now) = cu_blocked q" "budget_id (created_row d q now) = cu_budget_id q"
  "reserved (created_row d q now) = (case users d (cu_user_id q) of None \<Rightarrow> 0 | Some r \<Rightarrow> reserved r)"
  "user_id (created_row d q now) = (case users d (cu_user_id q) of None \<Rightarrow> cu_user_id q | Some r \<Rightarrow> user_id r)"
  by (auto simp: created_row_def Let_def start_budget_def revive_user_def new_user_def split: option.splits)

lemma create_user_Inr:
  assumes "create_user C hs q now d = (d', Inr r)"
  obtains fs where "d' = d\<lparr>users := (users d)(cu_user_id q \<mapsto> created_row d q now), faults := fs\<rparr>"
    and "r = created_row d q now" "budget_exists d (cu_budget_id q)"
  using assms commit_True unfolding create_user_def as_admin_Inr
  by (fastforce simp: commit_row_Inr split: if_splits)

lemma delete_user_Inr:
  assumes "delete_user C hs u now d = (d', Inr ())"
  obtains r fs where "get_active_user d u = Some r"
    and "d' = d\<lparr>api_keys := deactivate_keys u (api_keys d), users := (users d)(u \<mapsto> r\<lparr>deleted_at := Some now\<rparr>), faults := fs\<rparr>"
proof -
  obtain r where r: "get_active_user d u = Some r"
    using assms by (cases "get_active_user d u") (simp_all add: delete_user_def as_admin_Inr)
  have "commit d (d\<lparr>api_keys := deactivate_keys u (api_keys d), users := (users d)(u \<mapsto> r\<lparr>deleted_at := Some now\<rparr>)\<rparr>)
      = (d', True)"
    using assms unfolding delete_user_def as_admin_Inr r by (simp add: commit_row_Inr)
  from commit_True[OF this] r that show ?thesis by auto
qed

lemma create_key_Inr:
  assumes "create_key C hs q token kid d = (d', Inr (key, row))"
  obtains fs where "d' = (add_key q (hash C key) kid d)\<lparr>faults := fs\<rparr>" "row = new_key q kid"
    and "validate_api_key_format key = None" "key = ''gw-'' @ token" "key_is_fresh d (hash C key) kid"
    and "\<forall>r. users d (key_owner q kid) = Some r \<longrightarrow> deleted_at r = None"
proof -
  define k where "k = ''gw-'' @ token"
  have c: "(case rbind (generate_api_key token) (\<lambda>k. rbind (hash_key C k) (\<lambda>h. Inr (k, h))) of
      Inl e \<Rightarrow> (e1, Inl e2) | Inr (x, h) \<Rightarrow> f x h) =
      (if validate_api_key_format k = None then f k (hash C k) else (e1, Inl e2))" for f e1 e2
    by (simp add: generate_api_key_def hash_key_def k_def split: option.splits)
  have "key = k \<and> row = new_key q kid \<and> validate_api_key_format k = None \<and> key_is_fresh d (hash C k) kid
     \<and> (\<forall>r. users d (key_owner q kid) = Some r \<longrightarrow> deleted_at r = None)
     \<and> commit d (add_key q (hash C k) kid d) = (d', True)"
    using assms unfolding create_key_def as_admin_Inr c
    by (auto simp: commit_row_Inr split: option.splits if_splits)
  then show ?thesis using that commit_True unfolding k_def by blast
qed

section \<open>The tables' constraints\<close>

text \<open>Key hashes and key ids are unique, keys belong to users there are, rows are stored under their
  primary key, and a user's budget is there.\<close>

definition tables_ok :: "db \<Rightarrow> bool" where
  "tables_ok d \<longleftrightarrow> distinct (map fst (api_keys d)) \<and> distinct (map (key_id \<circ> snd) (api_keys d))
     \<and> (\<forall>u. Some u \<in> set (map (key_user_id \<circ> snd) (api_keys d)) \<longrightarrow> users d u \<noteq> None)
     \<and> (\<forall>u r. users d u = Some r \<longrightarrow> user_id r = u \<and> budget_exists d (budget_id r))"

text \<open>What happens to the tables: the management routes, authentication, and the three operations of
  a reservation, each whatever its outcome.\<close>

inductive table_step :: "auth_config \<Rightarrow> db \<Rightarrow> db \<Rightarrow> bool" for C where
  "table_step C d (fst (create_user C hs q now d))"
| "table_step C d (fst (update_user_route C hs u uq now d))"
| "table_step C d (fst (delete_user C hs u now d))"
| "table_step C d (fst (create_key C hs kq token kid d))"
| "table_step C d (fst (update_key C hs kid uk d))"
| "table_step C d (fst (delete_key C hs kid d))"
| "table_step C d (fst (create_budget C hs b bid d))"
| "table_step C d (fst (update_budget C hs bid b d))"
| "table_step C d (fst (verify_api_key C d hs now))"
| "table_step C d (fst (reserve_budget E d u est model strat now))"
| "table_step C d (fst (reconcile_reservation d h c))"
| "table_step C d (fst (refund_reservation d h))"

lemma tables_ok_faults [simp]: "tables_ok (d\<lparr>faults := fs\<rparr>) = tables_ok d"
  "tables_ok (add_reset_log l d) = tables_ok d"
  by (simp_all add: tables_ok_def budget_exists_iff add_reset_log_def)

lemma ok_commit: "tables_ok d \<Longrightarrow> tables_ok d' \<Longrightarrow> tables_ok (fst (commit d d'))"
  by (rule commitE[of d d']) auto

lemma ok_commit_row: "tables_ok d \<Longrightarrow> (ok \<Longrightarrow> tables_ok d') \<Longrightarrow> tables_ok (fst (commit_row ok d d' x))"
  using ok_commit[of d d'] by (auto simp: commit_row_def split: prod.splits bool.splits)

lemma ok_as_admin: "tables_ok d \<Longrightarrow> tables_ok (fst (f d)) \<Longrightarrow> tables_ok (fst (as_admin C hs d f))"
  by (simp add: as_admin_def split: sum.splits)

lemma ok_put_user:
  assumes "tables_ok d" "user_id r = u" "budget_exists d (budget_id r)"
  shows "tables_ok (d\<lparr>users := (users d)(u \<mapsto> r)\<rparr>)"
  using assms by (auto simp: tables_ok_def budget_exists_iff split: option.splits)

lemma ok_row: "tables_ok d \<Longrightarrow> users d u = Some r \<Longrightarrow> user_id r = u \<and> budget_exists d (budget_id r)"
  by (simp add: tables_ok_def)

lemma ok_update_user:
  assumes "tables_ok d" "\<And>r. user_id (f r) = user_id r \<and> budget_id (f r) = budget_id r"
  shows "tables_ok (fst (update_user d u P f))"
  using assms ok_row[OF assms(1), of u]
  by (auto simp: update_user_def store_simps intro!: ok_put_user split: option.splits)

lemma ok_put_keys:
  assumes "tables_ok d" "map fst ks = map fst (api_keys d)"
    "map (key_id \<circ> snd) ks = map (key_id \<circ> snd) (api_keys d)"
    "map (key_user_id \<circ> snd) ks = map (key_user_id \<circ> snd) (api_keys d)"
  shows "tables_ok (d\<lparr>api_keys := ks\<rparr>)"
  using assms unfolding tables_ok_def budget_exists_iff by simp

lemma update_image:
  "map_of al h = Some k \<Longrightarrow> f k' = f k \<Longrightarrow> map (f \<circ> snd) (AList.update h k' al) = map (f \<circ> snd) al"
  "map_of al h = Some k \<Longrightarrow> map fst (AList.update h k' al) = map fst al"
  by (induction al) (auto split: if_splits)

lemma ok_put_key:
  assumes "tables_ok d" "map_of (api_keys d) h = Some k" "key_id k' = key_id k" "key_user_id k' = key_user_id k"
  shows "tables_ok (d\<lparr>api_keys := AList.update h k' (api_keys d)\<rparr>)"
  using ok_put_keys[OF assms(1) update_image(2)[OF assms(2)] update_image(1)[OF assms(2), of key_id]
    update_image(1)[OF assms(2), of key_user_id]] assms(3,4) by simp

lemma key_entry_Some:
  assumes "tables_ok d" "key_entry d kid = Some (h, k)"
  shows "map_of (api_keys d) h = Some k \<and> key_id k = kid"
proof -
  have "(h, k) \<in> set (api_keys d)" "key_id k = kid"
    using assms(2) by (auto simp: key_entry_def find_Some_iff in_set_conv_nth)
  with assms(1) show ?thesis by (simp add: tables_ok_def)
qed

lemma deactivate_image:
  "map fst (deactivate_keys u ks) = map fst ks"
  "map (key_id \<circ> snd) (deactivate_keys u ks) = map (key_id \<circ> snd) ks"
  "map (key_user_id \<circ> snd) (deactivate_keys u ks) = map (key_user_id \<circ> snd) ks"
  by (auto simp: deactivate_keys_def)

lemma start_budget_simps [simp]:
  "user_id (start_budget b now r) = user_id r" "budget_id (start_budget b now r) = budget_id r"
  "user_id (set_blocked x r) = user_id r" "budget_id (set_blocked x r) = budget_id r"
  by (auto simp: start_budget_def set_blocked_def split: option.splits)

lemma ok_create_user:
  assumes "tables_ok d" shows "tables_ok (fst (create_user C hs q now d))"
  using assms ok_row[OF assms, of "cu_user_id q"] unfolding create_user_def
  by (auto intro!: ok_as_admin ok_commit_row ok_put_user split: option.splits)

lemma ok_update_route:
  assumes "tables_ok d" shows "tables_ok (fst (update_user_route C hs u q now d))"
  using assms ok_row[OF assms, of u] unfolding update_user_route_def
  by (auto simp: Let_def store_simps budget_exists_iff intro!: ok_as_admin ok_commit_row ok_put_user split: option.splits)

lemma ok_delete_user:
  assumes "tables_ok d" shows "tables_ok (fst (delete_user C hs u now d))"
proof -
  have "tables_ok (d\<lparr>api_keys := deactivate_keys u (api_keys d)\<rparr>)"
    using ok_put_keys[OF assms deactivate_image] .
  then have "get_active_user d u = Some r \<Longrightarrow> tables_ok (d\<lparr>api_keys := deactivate_keys u (api_keys d),
      users := (users d)(u \<mapsto> r\<lparr>deleted_at := Some now\<rparr>)\<rparr>)" for r
    using ok_put_user[of "d\<lparr>api_keys := deactivate_keys u (api_keys d)\<rparr>" "r\<lparr>deleted_at := Some now\<rparr>" u]
      ok_row[OF assms, of u r] by (simp add: budget_exists_iff store_simps)
  with assms show ?thesis unfolding delete_user_def
    by (auto intro!: ok_as_admin ok_commit_row split: option.splits)
qed

lemma ok_add_key: "tables_ok d \<Longrightarrow> key_is_fresh d h kid \<Longrightarrow> tables_ok (add_key q h kid d)"
  by (auto simp: tables_ok_def add_key_def key_is_fresh_def new_key_def new_user_def budget_exists_iff map_of_eq_None_iff
      split: option.splits)

lemma ok_create_key:
  assumes "tables_ok d" shows "tables_ok (fst (create_key C hs q token kid d))"
  using assms ok_add_key[OF assms] unfolding create_key_def
  by (auto intro!: ok_as_admin ok_commit_row split: sum.splits option.splits)

lemma ok_update_key:
  assumes "tables_ok d" shows "tables_ok (fst (update_key C hs kid q d))"
  using assms key_entry_Some[OF assms, of kid] unfolding update_key_def
  by (auto simp: apply_key_update_def intro!: ok_as_admin ok_commit_row ok_put_key split: option.splits)

lemma ok_drop_key: "tables_ok d \<Longrightarrow> tables_ok (d\<lparr>api_keys := AList.delete h (api_keys d), usage_logs := ul\<rparr>)"
  unfolding tables_ok_def AList.delete_eq budget_exists_iff by (auto simp: distinct_map_filter)

lemma ok_delete_key:
  assumes "tables_ok d" shows "tables_ok (fst (delete_key C hs kid d))"
  using assms ok_drop_key[OF assms] unfolding delete_key_def
  by (auto intro!: ok_as_admin ok_commit_row split: option.splits)

lemma ok_put_budget: "tables_ok d \<Longrightarrow> tables_ok (d\<lparr>budgets := (budgets d)(bid \<mapsto> b)\<rparr>)"
  by (auto simp: tables_ok_def budget_exists_iff split: option.splits)

lemma ok_budgets:
  assumes "tables_ok d"
  shows "tables_ok (fst (create_budget C hs b bid d))" "tables_ok (fst (update_budget C hs bid b d))"
  using assms unfolding create_budget_def update_budget_def
  by (auto intro!: ok_as_admin ok_commit_row ok_put_budget split: option.splits)

lemma ok_verify:
  assumes "tables_ok d" shows "tables_ok (fst (verify_api_key C d hs now))"
  using assms
  by (auto simp: verify_api_key_def verify_and_update_api_key_def intro!: ok_commit ok_put_key
      split: sum.splits option.splits)

lemma ok_cas_reset:
  assumes "tables_ok d" shows "tables_ok (fst (cas_reset_user_budget d r bid b now))"
  using assms ok_commit[OF assms, of "add_reset_log (reset_log_of bid b now r) (fst (update_user d (user_id r) (reset_due now) (reset_row b now)))"]
    ok_update_user[OF assms, of "reset_row b now" "user_id r" "reset_due now"]
  by (auto simp: cas_reset_user_budget_def reset_row_def split: prod.splits bool.splits)

lemma ok_take:
  assumes "tables_ok d" shows "tables_ok (fst (take_reservation d u e n cap))"
  using ok_commit[OF assms] ok_update_user[OF assms, of "add_reserved e" u]
  by (auto simp: take_reservation_def split: option.splits prod.splits bool.splits) (metis fst_conv)+

lemma ok_reserve:
  assumes "tables_ok d" shows "tables_ok (fst (reserve_budget E d u est model strat now))"
proof -
  have "tables_ok (fst dr) \<Longrightarrow> tables_ok (fst (reserve_after_reset E u e model n now b dr))" for e n b dr
    using ok_take[of "fst dr"] by (cases dr) (auto simp: reserve_after_reset_def split: sum.splits)
  with assms ok_cas_reset[OF assms] show ?thesis
    by (auto simp: reserve_budget_def Let_def split: option.splits)
qed

lemma ok_settle:
  assumes "tables_ok d"
  shows "tables_ok (fst (reconcile_reservation d h c))" "tables_ok (fst (refund_reservation d h))"
  using assms by (auto simp: reconcile_reservation_def refund_reservation_def Let_def settle_row_def refund_row_def
      intro!: ok_commit ok_update_user)

lemma table_step_ok: "table_step C d d' \<Longrightarrow> tables_ok d \<Longrightarrow> tables_ok d'"
  by (erule table_step.cases) (simp_all only: ok_create_user ok_update_route ok_delete_user ok_create_key
      ok_update_key ok_delete_key ok_budgets ok_verify ok_reserve ok_settle)

lemma verify_api_key_Inr:
  assumes "verify_api_key C d hs now = (d', Inr k)"
  obtains t k0 where "extract_bearer_token hs = Inr t" "map_of (api_keys d) (hash C t) = Some k0" "is_active k0"
    "key_user_id k0 = key_user_id k" "key_id k0 = key_id k"
  using assms verify_key_Inr[of C d _ now d' k] that by (fastforce simp: verify_api_key_def split: sum.splits)

lemma deactivated:
  "(h, k) \<in> set (deactivate_keys u ks) \<Longrightarrow> key_user_id k = Some u \<Longrightarrow> \<not> is_active k"
  by (auto simp: deactivate_keys_def split: if_splits)

lemma locked_out:
  assumes "\<And>h k. (h, k) \<in> set (api_keys d) \<Longrightarrow> key_user_id k = Some u \<Longrightarrow> \<not> is_active k"
    "verify_api_key C d hs now = (d', Inr k)"
  shows "key_user_id k \<noteq> Some u"
  using verify_api_key_Inr[OF assms(2)] assms(1) map_of_SomeD by metis

section \<open>A sample store\<close>

definition admin_headers :: "(string, string) dict" where
  "admin_headers = [(''Authorization'', ''Bearer '' @ ''root'')]"

lemma admin_ok: "verify_master_key sample_auth admin_headers = Inr ()"
  unfolding verify_master_key_def admin_headers_def bearer_token
  by (simp add: sample_auth_def given_def is_valid_master_key_def is_ascii_def)

lemma store0_healthy: "healthy store0"
proof -
  have "get_active_user store0 v = (if v = ''u'' then Some user0 else None)" for v
    using store0_other by simp
  then show ?thesis by (simp add: healthy_def keyed_def held_of_def) (simp add: user0_def)
qed

lemma store0_tables: "tables_ok store0"
  by (simp add: tables_ok_def budget_exists_iff store0_def user0_def)

text \<open>What the operations do to a store in which commits succeed.\<close>

lemma commit_row_ok: "faults d = [] \<Longrightarrow> commit_row True d d' x = (d'\<lparr>faults := []\<rparr>, Inr x)"
  by (simp add: commit_row_def)

lemma delete_user_ok:
  assumes "faults d = []" "get_active_user d u = Some r"
  shows "delete_user sample_auth admin_headers u now d =
    (d\<lparr>api_keys := deactivate_keys u (api_keys d), users := (users d)(u \<mapsto> r\<lparr>deleted_at := Some now\<rparr>), faults := []\<rparr>, Inr ())"
  using assms by (simp add: delete_user_def as_admin_def admin_ok commit_row_ok)

definition key_for_u :: create_key_request where
  "key_for_u = \<lparr>ck_user_id = Some ''u'', ck_expires_at = None\<rparr>"

definition new_u :: create_user_request where
  "new_u = \<lparr>cu_user_id = ''u'', cu_budget_id = None, cu_blocked = False\<rparr>"

lemma create_key_store0:
  "create_key sample_auth admin_headers key_for_u (replicate 47 CHR ''a'') ''k1'' store0 =
    (add_key key_for_u sample_key ''k1'' store0, Inr (sample_key, new_key key_for_u ''k1''))"
proof -
  have g: "generate_api_key (replicate 47 CHR ''a'') = Inr sample_key"
    using sample_key_valid unfolding generate_api_key_def sample_key_def by simp
  have h: "hash_key sample_auth sample_key = Inr sample_key"
    by (simp add: hash_key_def sample_key_valid) (simp add: sample_auth_def)
  have u: "key_owner key_for_u ''k1'' = ''u''" "given (ck_user_id key_for_u)"
    by (simp_all add: key_owner_def key_for_u_def given_def)
  have "users store0 ''u'' = Some user0" "deleted_at user0 = None" by (simp_all add: store0_def user0_def)
  moreover have "key_is_fresh store0 sample_key ''k1''" by (simp add: key_is_fresh_def store0_def)
  moreover have "(add_key key_for_u sample_key ''k1'' store0)\<lparr>faults := []\<rparr> = add_key key_for_u sample_key ''k1'' store0"
    by (simp add: add_key_def store0_def)
  ultimately show ?thesis
    by (simp add: create_key_def as_admin_def admin_ok g h u commit_row_ok)
qed

section \<open>Properties\<close>



text \<open>A created key works at once: a request that presents it is authenticated as that key until it
  expires, and is charged to the user the key was created for, who exists and is not deleted.\<close>

theorem created_key_authenticates:
  assumes "create_key C hs q token kid d = (d', Inr (key, row))"
    and "\<forall>t. ck_expires_at q = Some t \<longrightarrow> now \<le> t"
  shows "\<exists>d2 k. verify_api_key C d' [(''Authorization'', ''Bearer '' @ key)] now = (d2, Inr k) \<and> key_id k = kid
    \<and> resolve_user_id X None (Some k) False strict = Inr (key_owner q kid) \<and> active d' (key_owner q kid)"
proof -
  from create_key_Inr[OF assms(1)] obtain fs where
    d': "d' = (add_key q (hash C key) kid d)\<lparr>faults := fs\<rparr>" and v: "validate_api_key_format key = None"
    and fr: "key_is_fresh d (hash C key) kid"
    and u: "\<forall>r. users d (key_owner q kid) = Some r \<longrightarrow> deleted_at r = None" by blast
  have m: "map_of (api_keys d') (hash C key) = Some (new_key q kid)"
    using fr by (simp add: d' add_key_def key_is_fresh_def map_add_def)
  have e: "(case ck_expires_at q of None \<Rightarrow> False | Some t \<Rightarrow> t < now) = False"
    using assms(2) by (auto split: option.splits)
  have "\<exists>d2 k. verify_api_key C d' [(''Authorization'', ''Bearer '' @ key)] now = (d2, Inr k)
      \<and> key_id k = kid \<and> key_user_id k = Some (key_owner q kid)"
    unfolding verify_api_key_def bearer_token sum.case
    using m v e by (simp add: verify_and_update_api_key_def hash_key_def new_key_def)
  moreover have "given (Some (key_owner q kid))" by (auto simp: given_def key_owner_def)
  moreover have "active d' (key_owner q kid)"
    using u by (auto simp: d' add_key_def active_def get_active_user_def new_user_def split: option.splits)
  moreover have "key_user_id k = Some (key_owner q kid) \<Longrightarrow> given (Some (key_owner q kid)) \<Longrightarrow>
      resolve_user_id X None (Some k) False strict = Inr (key_owner q kid)" for k
    by (simp add: resolve_user_id_def) (simp add: given_def)
  ultimately show ?thesis by blast
qed

lemma created_key_authenticates_witness:
  "\<exists>d2 k. verify_api_key sample_auth (add_key key_for_u sample_key ''k1'' store0) [(''Authorization'', ''Bearer '' @ sample_key)] 5 =
     (d2, Inr k) \<and> resolve_user_id sample_errors None (Some k) False True = Inr (key_owner key_for_u ''k1'')"
proof -
  have "\<forall>t. ck_expires_at key_for_u = Some t \<longrightarrow> 5 \<le> t" by (simp add: key_for_u_def)
  from created_key_authenticates[OF create_key_store0 this] show ?thesis by blast
qed



text \<open>A deleted key is gone for good: no request is authenticated by it again, and no usage row refers to it.\<close>

theorem deleted_key_gone:
  assumes "tables_ok d" "delete_key C hs kid d = (d1, Inr ())"
  shows "(verify_api_key C1 d1 hs1 t1 = (d2, Inr k) \<longrightarrow> key_id k \<noteq> kid)
    \<and> (\<forall>l \<in> set (usage_logs d1). log_api_key_id l \<noteq> Some kid)"
proof -
  obtain h k0 where e: "key_entry d kid = Some (h, k0)"
    using assms(2) by (cases "key_entry d kid") (auto simp: delete_key_def as_admin_Inr)
  then have "commit d (d\<lparr>api_keys := AList.delete h (api_keys d), usage_logs := map (unlink_key kid) (usage_logs d)\<rparr>)
      = (d1, True)"
    using assms(2) by (simp add: delete_key_def as_admin_Inr commit_row_Inr)
  from commit_True[OF this] obtain fs where d1: "d1 = d\<lparr>api_keys := AList.delete h (api_keys d),
      usage_logs := map (unlink_key kid) (usage_logs d), faults := fs\<rparr>" by auto
  have h: "(h, k0) \<in> set (api_keys d)" "key_id k0 = kid"
    using key_entry_Some[OF assms(1) e] map_of_SomeD by auto
  have "key_id k \<noteq> kid" if v: "verify_api_key C1 d1 hs1 t1 = (d2, Inr k)"
  proof -
    from verify_api_key_Inr[OF v] obtain h' k1 where k1: "map_of (api_keys d1) h' = Some k1" "key_id k1 = key_id k"
      by metis
    then have "(h', k1) \<in> set (api_keys d)" "h' \<noteq> h"
      by (auto simp: d1 AList.delete_conv' map_of_SomeD split: if_splits)
    moreover have "inj_on (key_id \<circ> snd) (set (api_keys d))"
      using assms(1) by (simp add: tables_ok_def distinct_map)
    ultimately show ?thesis using h k1(2) inj_onD[of "key_id \<circ> snd" "set (api_keys d)" "(h', k1)" "(h, k0)"] by auto
  qed
  then show ?thesis by (auto simp: d1 unlink_key_def)
qed

lemma deleted_key_gone_witness:
  "tables_ok (add_key key_for_u sample_key ''k1'' store0) \<and>
   (\<exists>d1. delete_key sample_auth admin_headers ''k1'' (add_key key_for_u sample_key ''k1'' store0) = (d1, Inr ())
     \<and> (\<forall>l \<in> set (usage_logs d1). log_api_key_id l \<noteq> Some ''k1''))"
proof -
  have t: "tables_ok (add_key key_for_u sample_key ''k1'' store0)"
    by (rule ok_add_key[OF store0_tables]) (simp add: key_is_fresh_def store0_def)
  have "\<exists>d1. delete_key sample_auth admin_headers ''k1'' (add_key key_for_u sample_key ''k1'' store0) = (d1, Inr ())"
    by (simp add: delete_key_def as_admin_def admin_ok key_entry_def add_key_def store0_def new_key_def commit_row_ok)
  with t deleted_key_gone[OF t] show ?thesis by blast
qed

text \<open>A hold outlives its user. When a user is deleted while a request is in flight and created again
  after the request has settled, the new row starts with no spend but still carries the request's
  reservation, although nothing is in flight: that part of the budget stays blocked.\<close>

theorem recreated_user_keeps_stale_hold:
  assumes "reserve_budget E d u est model strat t0 = (d1, Inr h)" "healthy d" "is_reserved h"
    and "delete_user C hs u t1 d1 = (d2, Inr ())"
    and "reconcile_reservation d2 h c = (d3, True)"
    and "create_user C hs q t2 d3 = (d4, Inr r)" "cu_user_id q = u"
  shows "held_of d4 u = held_of d u + estimate h \<and> spent_of d4 u = 0"
proof -
  have hu: "h_user h = u" using reserve_budget_user[OF assms(1)] .
  have k: "keyed d" using assms(2) by (simp add: healthy_def)
  have held: "held_of d1 u = held_of d u + estimate h"
    using holds_extra_reserve[OF assms(2,1)] by (simp add: holds_extra_def hu)
  from delete_user_Inr[OF assms(4)] obtain r1 fs where r1: "get_active_user d1 u = Some r1"
    and d2: "d2 = d1\<lparr>api_keys := deactivate_keys u (api_keys d1), users := (users d1)(u \<mapsto> r1\<lparr>deleted_at := Some t1\<rparr>), faults := fs\<rparr>"
    by blast
  have "get_active_user d2 u = None" by (simp add: d2 get_active_user_def)
  then have "fst (update_user d2 (h_user h) P f) = d2" for P f by (simp add: hu update_user_def)
  then have "d3 = d2 \<or> commit d2 d2 = (d3, True)"
    using assms(5) by (auto simp: reconcile_reservation_def Let_def split: if_splits)
  then have "users d3 = users d2" using commit_True[of d2 d2 d3] by auto
  then have "users d3 u = Some (r1\<lparr>deleted_at := Some t1\<rparr>)" by (simp add: d2)
  moreover from create_user_Inr[OF assms(6)] assms(7) obtain fs2 where
    "d4 = d3\<lparr>users := (users d3)(u \<mapsto> created_row d3 q t2), faults := fs2\<rparr>" by metis
  ultimately have "get_active_user d4 u = Some (created_row d3 q t2)" "reserved (created_row d3 q t2) = reserved r1"
    using assms(7) by (simp_all add: get_active_user_def)
  with held r1 show ?thesis by simp
qed

lemma recreated_user_keeps_stale_hold_witness:
  "\<exists>d4 r. create_user sample_auth admin_headers new_u 7
      (fst (reconcile_reservation (fst (delete_user sample_auth admin_headers ''u'' 5
        (fst (reserve_budget env0 store0 ''u'' 4 None None 0)))) (held_handle ''u'' 4 ''for_update'') 3)) = (d4, Inr r)
    \<and> held_of d4 ''u'' = 4 \<and> spent_of d4 ''u'' = 0"
proof -
  define d1 where "d1 = store0\<lparr>users := [''u'' \<mapsto> user0\<lparr>reserved := 4\<rparr>]\<rparr>"
  have e1: "reserve_budget env0 store0 ''u'' 4 None None 0 = (d1, Inr (held_handle ''u'' 4 ''for_update''))"
    by (simp add: reserve_store0 d1_def)
  have a: "get_active_user d1 ''u'' = Some (user0\<lparr>reserved := 4\<rparr>)" "faults d1 = []"
    by (simp_all add: d1_def get_active_user_def) (simp add: user0_def)
  define d2 where "d2 = fst (delete_user sample_auth admin_headers ''u'' 5 d1)"
  have e2: "delete_user sample_auth admin_headers ''u'' 5 d1 = (d2, Inr ())" by (simp add: d2_def delete_user_ok a)
  have b: "get_active_user d2 ''u'' = None" "faults d2 = []" 
    unfolding d2_def delete_user_ok[OF a(2,1)] by (simp_all add: get_active_user_def)
  then have e3: "reconcile_reservation d2 (held_handle ''u'' 4 ''for_update'') 3 = (d2\<lparr>faults := []\<rparr>, True)"
    by (simp add: reconcile_reservation_def Let_def update_user_def)
  have g: "\<not> given (cu_budget_id new_u)" "budget_exists d (cu_budget_id new_u)" "cu_user_id new_u = ''u''" for d
    by (simp_all add: new_u_def given_def budget_exists_def)
  obtain d4 r where e4: "create_user sample_auth admin_headers new_u 7 (d2\<lparr>faults := []\<rparr>) = (d4, Inr r)"
    using b g by (simp add: create_user_def as_admin_def admin_ok commit_row_ok)
  have "held_of d4 ''u'' = held_of store0 ''u'' + 4 \<and> spent_of d4 ''u'' = 0"
    using recreated_user_keeps_stale_hold[OF e1 store0_healthy _ e2 e3 e4 g(3)] by simp
  moreover have "held_of store0 ''u'' = 0" by (simp add: user0_def)
  ultimately show ?thesis using e4 by (simp add: e1 e2 e3 del: of_faults)
qed

end
