(* ===== verification/Price_Admin.thy ===== *)
theory Price_Admin
  imports Accounts Providers
begin

text \<open>
  Prices and usage as the operator sees them: the pricing routes (\<open>api/routes/pricing.py\<close>), the usage
  routes (\<open>api/routes/usage.py\<close> and \<open>get_user_usage\<close> of \<open>users.py\<close>), and the two start-up steps that
  write rows, \<open>initialize_pricing_from_config\<close> and \<open>bootstrap_first_api_key\<close> (\<open>services/\<close>).

  The table's primary key is the pair of model key and effective instant. Requests are those that pass
  the schema's check that prices are not negative.
\<close>

section \<open>Lookups\<close>

definition as_caller :: "auth_config \<Rightarrow> (string, string) dict \<Rightarrow> instant \<Rightarrow> db \<Rightarrow> (db \<Rightarrow> db \<times> (pipe_error, 'a) result)
    \<Rightarrow> db \<times> (pipe_error, 'a) result" where
  "as_caller C hs now d f = (case verify_api_key_or_master_key C d hs now of
     (d1, Inl e) \<Rightarrow> (d1, Inl (auth_pipe_error e)) | (d1, Inr _) \<Rightarrow> f d1)"

definition normalize_effective_at :: "instant option \<Rightarrow> instant \<Rightarrow> instant" where
  "normalize_effective_at v now = (case v of None \<Rightarrow> now | Some t \<Rightarrow> t)"

definition add_new :: "'a \<Rightarrow> 'a list \<Rightarrow> 'a list" where
  "add_new x xs = (if x \<in> set xs then xs else xs @ [x])"

definition colon_form :: "string \<Rightarrow> string list" where
  "colon_form raw = (case split_selector raw of None \<Rightarrow> [] | Some (a, b) \<Rightarrow> [a @ '':'' @ b])"

text \<open>An empty provider name adds nothing, and neither does a selector any-llm cannot split.\<close>

definition candidate_model_keys :: "providers_config \<Rightarrow> string \<Rightarrow> string list" where
  "candidate_model_keys P raw =
     (let cs = fold add_new (colon_form raw) [raw] in
      case any_split P raw of
        Inl _ \<Rightarrow> cs
      | Inr (p, m) \<Rightarrow> if p = [] then cs else fold add_new [p @ '':'' @ m, p @ ''/'' @ m] cs)"

fun get_effective_pricing :: "db \<Rightarrow> string list \<Rightarrow> instant \<Rightarrow> model_pricing option" where
  "get_effective_pricing d [] as_of = None"
| "get_effective_pricing d (k # ks) as_of = (case find_by_model_key d k as_of of
     Some r \<Rightarrow> Some r | None \<Rightarrow> get_effective_pricing d ks as_of)"

fun pricing_history :: "db \<Rightarrow> string list \<Rightarrow> model_pricing list" where
  "pricing_history d [] = []"
| "pricing_history d (k # ks) =
     (let rows = sort_key (\<lambda>r. - effective_at r) (filter (\<lambda>r. model_key r = k) (pricing d))
      in if rows = [] then pricing_history d ks else rows)"

definition no_pricing :: "string \<Rightarrow> pipe_error" where
  "no_pricing raw = Pipe_Http (http_error 404 (''Pricing for model '' @ quoted raw @ '' not found''))"

section \<open>The pricing routes\<close>

record set_pricing_request =
  sp_model_key :: string
  sp_input :: money
  sp_output :: money
  sp_effective_at :: "instant option"

definition same_price :: "model_pricing \<Rightarrow> model_pricing \<Rightarrow> bool" where
  "same_price a b \<longleftrightarrow> model_key a = model_key b \<and> effective_at a = effective_at b"

text \<open>Overwrite the row with the same primary key, or add one.\<close>

definition put_price :: "model_pricing \<Rightarrow> db \<Rightarrow> db" where
  "put_price r d = d\<lparr>pricing := (if \<exists>x \<in> set (pricing d). same_price x r
     then map (\<lambda>x. if same_price x r then r else x) (pricing d) else pricing d @ [r])\<rparr>"

definition price_of_request :: "string \<Rightarrow> set_pricing_request \<Rightarrow> instant \<Rightarrow> model_pricing" where
  "price_of_request key q now = \<lparr>model_key = key, effective_at = normalize_effective_at (sp_effective_at q) now,
     input_price_per_million = sp_input q, output_price_per_million = sp_output q\<rparr>"

definition set_pricing :: "providers_config \<Rightarrow> auth_config \<Rightarrow> (string, string) dict \<Rightarrow> set_pricing_request \<Rightarrow> instant
    \<Rightarrow> db \<Rightarrow> db \<times> (pipe_error, model_pricing) result" where
  "set_pricing P C hs q now d0 = as_admin C hs d0 (\<lambda>d. case normalize_pricing_key P (sp_model_key q) of
     Inl e \<Rightarrow> (d, Inl Pipe_Crash)
   | Inr key \<Rightarrow> commit_row True d (put_price (price_of_request key q now) d) (price_of_request key q now))"

definition get_pricing_history :: "providers_config \<Rightarrow> auth_config \<Rightarrow> (string, string) dict \<Rightarrow> string \<Rightarrow> instant
    \<Rightarrow> db \<Rightarrow> db \<times> (pipe_error, model_pricing list) result" where
  "get_pricing_history P C hs raw now d0 = as_caller C hs now d0 (\<lambda>d.
     case pricing_history d (candidate_model_keys P raw) of
       [] \<Rightarrow> (d, Inl (no_pricing raw)) | r # rs \<Rightarrow> (d, Inr (r # rs)))"

definition get_pricing :: "providers_config \<Rightarrow> auth_config \<Rightarrow> (string, string) dict \<Rightarrow> string \<Rightarrow> instant option \<Rightarrow> instant
    \<Rightarrow> db \<Rightarrow> db \<times> (pipe_error, model_pricing) result" where
  "get_pricing P C hs raw as_of now d0 = as_caller C hs now d0 (\<lambda>d.
     case get_effective_pricing d (candidate_model_keys P raw) (normalize_effective_at as_of now) of
       None \<Rightarrow> (d, Inl (no_pricing raw)) | Some r \<Rightarrow> (d, Inr r))"

fun price_at :: "db \<Rightarrow> string list \<Rightarrow> instant \<Rightarrow> model_pricing option" where
  "price_at d [] t = None"
| "price_at d (k # ks) t = (case find (\<lambda>r. model_key r = k \<and> effective_at r = t) (pricing d) of
     Some r \<Rightarrow> Some r | None \<Rightarrow> price_at d ks t)"

definition delete_targets :: "db \<Rightarrow> string list \<Rightarrow> instant option \<Rightarrow> model_pricing list" where
  "delete_targets d ks t = (case t of
     None \<Rightarrow> pricing_history d ks
   | Some t \<Rightarrow> (case price_at d ks t of None \<Rightarrow> [] | Some r \<Rightarrow> [r]))"

text \<open>\<open>iso_of\<close> is \<open>datetime.isoformat\<close>.\<close>

definition delete_pricing :: "providers_config \<Rightarrow> auth_config \<Rightarrow> (instant \<Rightarrow> string) \<Rightarrow> (string, string) dict \<Rightarrow> string
    \<Rightarrow> instant option \<Rightarrow> db \<Rightarrow> db \<times> (pipe_error, unit) result" where
  "delete_pricing P C iso_of hs raw t d0 = as_admin C hs d0 (\<lambda>d.
     case delete_targets d (candidate_model_keys P raw) t of
       [] \<Rightarrow> (d, Inl (case t of None \<Rightarrow> no_pricing raw | Some s \<Rightarrow> Pipe_Http (http_error 404
          (''Pricing for model '' @ quoted raw @ '' with effective_at '' @ iso_of s @ '' not found''))))
     | r # rs \<Rightarrow> commit_row True d (d\<lparr>pricing := filter (\<lambda>x. \<not> (\<exists>y \<in> set (r # rs). same_price x y)) (pricing d)\<rparr>) ())"

section \<open>The usage routes\<close>

record usage_query =
  uq_start :: "instant option"
  uq_end :: "instant option"
  uq_user :: "string option"

definition usage_matches :: "usage_query \<Rightarrow> usage_log \<Rightarrow> bool" where
  "usage_matches q l \<longleftrightarrow> (case uq_start q of None \<Rightarrow> True | Some t \<Rightarrow> t \<le> log_timestamp l)
     \<and> (case uq_end q of None \<Rightarrow> True | Some t \<Rightarrow> log_timestamp l < t)
     \<and> (case uq_user q of None \<Rightarrow> True | Some u \<Rightarrow> log_user_id l = Some u)"

text \<open>Newest first; rows with the same instant come in any order, in the model in that of the table.\<close>

definition newest_first :: "usage_log list \<Rightarrow> usage_log list" where
  "newest_first ls = sort_key (\<lambda>l. - log_timestamp l) ls"

definition list_usage :: "auth_config \<Rightarrow> (string, string) dict \<Rightarrow> usage_query \<Rightarrow> nat \<Rightarrow> nat \<Rightarrow> db
    \<Rightarrow> db \<times> (pipe_error, usage_log list) result" where
  "list_usage C hs q skip page d0 = as_admin C hs d0 (\<lambda>d.
     (d, Inr (take page (drop skip (newest_first (filter (usage_matches q) (usage_logs d)))))))"

text \<open>The usage of one user, deleted or not.\<close>

definition get_user_usage :: "auth_config \<Rightarrow> (string, string) dict \<Rightarrow> string \<Rightarrow> nat \<Rightarrow> nat \<Rightarrow> db
    \<Rightarrow> db \<times> (pipe_error, usage_log list) result" where
  "get_user_usage C hs u skip page d0 = as_admin C hs d0 (\<lambda>d. case users d u of
     None \<Rightarrow> (d, Inl (not_found ''User'' u))
   | Some _ \<Rightarrow> (d, Inr (take page (drop skip
       (newest_first (filter (\<lambda>l. log_user_id l = Some u) (usage_logs d)))))))"

section \<open>Start-up\<close>

record pricing_config =
  pc_input :: money
  pc_output :: money
  pc_effective_at :: "instant option"

definition config_instance :: "string \<Rightarrow> string" where
  "config_instance key = (case split_once CHR '':'' key of None \<Rightarrow> key | Some (a, _) \<Rightarrow> a)"

definition config_row :: "string \<Rightarrow> pricing_config \<Rightarrow> instant \<Rightarrow> model_pricing" where
  "config_row key pc now = \<lparr>model_key = key, effective_at = normalize_effective_at (pc_effective_at pc) now,
     input_price_per_million = pc_input pc, output_price_per_million = pc_output pc\<rparr>"

text \<open>One entry of the configuration: skipped when its instance is not configured or its row is there.
  \<^const>\<open>None\<close> is an exception of the key's normalisation, which ends the start-up.\<close>

definition load_price :: "providers_config \<Rightarrow> instant \<Rightarrow> string \<Rightarrow> pricing_config \<Rightarrow> model_pricing list
    \<Rightarrow> model_pricing list option" where
  "load_price P now raw pc rows = (case normalize_pricing_key P raw of
     Inl e \<Rightarrow> None
   | Inr key \<Rightarrow>
       if map_of (providers P) (config_instance key) = None then Some rows
       else if \<exists>x \<in> set rows. same_price x (config_row key pc now) then Some rows
       else Some (rows @ [config_row key pc now]))"

fun load_prices :: "providers_config \<Rightarrow> (nat \<Rightarrow> instant) \<Rightarrow> (string \<times> pricing_config) list \<Rightarrow> model_pricing list
    \<Rightarrow> model_pricing list option" where
  "load_prices P clock [] rows = Some rows"
| "load_prices P clock ((raw, pc) # rest) rows = (case load_price P (clock 0) raw pc rows of
     None \<Rightarrow> None | Some rows' \<Rightarrow> load_prices P (\<lambda>i. clock (Suc i)) rest rows')"

text \<open>The second component says whether the step returned.\<close>

definition initialize_pricing :: "providers_config \<Rightarrow> (nat \<Rightarrow> instant) \<Rightarrow> (string, pricing_config) dict \<Rightarrow> db \<Rightarrow> db \<times> bool" where
  "initialize_pricing P clock cfg d = (if cfg = [] then (d, True)
     else (case load_prices P clock cfg (pricing d) of
       None \<Rightarrow> (d, False) | Some rows \<Rightarrow> commit d (d\<lparr>pricing := rows\<rparr>)))"

text \<open>The first key of an installation, for a user of its own. It is only shown in the log.\<close>

definition bootstrap_request :: create_key_request where
  "bootstrap_request = \<lparr>ck_user_id = None, ck_expires_at = None\<rparr>"

definition bootstrap_first_api_key :: "auth_config \<Rightarrow> bool \<Rightarrow> string \<Rightarrow> string \<Rightarrow> db \<Rightarrow> db \<times> (string option) option" where
  "bootstrap_first_api_key C enabled token kid d =
     (if \<not> enabled \<or> api_keys d \<noteq> [] then (d, Some None)
      else (case rbind (generate_api_key token) (\<lambda>k. rbind (hash_key C k) (\<lambda>h. Inr (k, h))) of
          Inl e \<Rightarrow> (d, None)
        | Inr (key, h) \<Rightarrow>
            if users d (''apikey-'' @ kid) \<noteq> None then (d\<lparr>faults := drop 1 (faults d)\<rparr>, None)
            else (case commit d (add_key bootstrap_request h kid d) of
                (d2, True) \<Rightarrow> (d2, Some (Some key)) | (d2, False) \<Rightarrow> (d2, None))))"

section \<open>Lemmas\<close>

definition price_keys_unique :: "db \<Rightarrow> bool" where
  "price_keys_unique d \<longleftrightarrow> distinct (map (\<lambda>r. (model_key r, effective_at r)) (pricing d))"

lemma unique_rows: "price_keys_unique d \<Longrightarrow> a \<in> set (pricing d) \<Longrightarrow> b \<in> set (pricing d) \<Longrightarrow> same_price a b \<Longrightarrow> a = b"
  unfolding price_keys_unique_def same_price_def by (auto dest!: inj_onD simp: distinct_map)

lemma put_price_rows:
  assumes "x \<in> set (pricing (put_price r d))"
  shows "x = r \<or> x \<in> set (pricing d) \<and> \<not> same_price x r"
  using assms by (auto simp: put_price_def split: if_splits)

lemma put_price_there: "r \<in> set (pricing (put_price r d))"
  by (auto simp: put_price_def)

text \<open>The lookup finds the newest row of the key in force, when there is one.\<close>

lemma find_by_model_key_newest:
  assumes "r \<in> set (pricing d)" "model_key r = k" "effective_at r \<le> t"
    and "\<And>x. x \<in> set (pricing d) \<Longrightarrow> model_key x = k \<Longrightarrow> effective_at x \<le> t \<Longrightarrow>
      x = r \<or> effective_at x < effective_at r"
  shows "find_by_model_key d k t = Some r"
proof (cases "find_by_model_key d k t")
  case None
  with assms(1-3) show ?thesis by (auto simp: find_by_model_key_None)
next
  case (Some r')
  with find_by_model_key_Some[OF Some] assms have "r' = r" by (metis linorder_not_le)
  with Some show ?thesis by simp
qed

lemma put_price_found:
  assumes "effective_at r \<le> t"
    and "\<And>x. x \<in> set (pricing d) \<Longrightarrow> model_key x = model_key r \<Longrightarrow> effective_at x \<le> t \<Longrightarrow>
      effective_at x \<le> effective_at r"
  shows "find_by_model_key (put_price r d) (model_key r) t = Some r"
proof (rule find_by_model_key_newest)
  fix x assume x: "x \<in> set (pricing (put_price r d))" "model_key x = model_key r" "effective_at x \<le> t"
  from put_price_rows[OF x(1)] show "x = r \<or> effective_at x < effective_at r"
    using assms(2)[of x] x by (auto simp: same_price_def)
qed (use assms(1) put_price_there in auto)

lemma find_by_model_key_faults [simp]: "find_by_model_key (d\<lparr>faults := fs\<rparr>) k t = find_by_model_key d k t"
  by (simp add: find_by_model_key_def)

lemma history_keys:
  "pricing_history d ks = [] \<or> (\<exists>k \<in> set ks. pricing_history d ks = sort_key (\<lambda>r. - effective_at r) (filter (\<lambda>r. model_key r = k) (pricing d)))"
  by (induction ks) (auto simp: Let_def)

lemma config_instance_key:
  "CHR '':'' \<notin> set inst \<Longrightarrow> config_instance (inst @ '':'' @ m) = inst"
  by (simp add: config_instance_def split_once_append)

lemma add_new_hd [simp]: "add_new x xs \<noteq> []" "xs \<noteq> [] \<Longrightarrow> hd (add_new x xs) = hd xs"
  by (auto simp: add_new_def)

lemma fold_add_new_hd [simp]: "xs \<noteq> [] \<Longrightarrow> fold add_new ys xs \<noteq> [] \<and> hd (fold add_new ys xs) = hd xs"
  by (induction ys arbitrary: xs) auto

lemma load_price_cases:
  "load_price P now raw pc rows = Some rows' \<longleftrightarrow> (\<exists>key. normalize_pricing_key P raw = Inr key
     \<and> (if map_of (providers P) (config_instance key) = None \<or> (\<exists>x \<in> set rows. same_price x (config_row key pc now))
        then rows' = rows else rows' = rows @ [config_row key pc now]))"
  by (auto simp: load_price_def split: sum.splits)

lemma load_prices_Cons:
  "load_prices P clock ((raw, pc) # rest) rows = Some rows' \<longleftrightarrow>
     (\<exists>rows1. load_price P (clock 0) raw pc rows = Some rows1 \<and> load_prices P (\<lambda>i. clock (Suc i)) rest rows1 = Some rows')"
  by (auto split: option.splits)

lemma load_keeps: "load_prices P clock cfg rows = Some rows' \<Longrightarrow> set rows \<subseteq> set rows'"
proof (induction cfg arbitrary: rows clock)
  case (Cons e cfg)
  obtain raw pc where e: "e = (raw, pc)" by (cases e)
  from Cons.prems obtain rows1 where r1: "load_price P (clock 0) raw pc rows = Some rows1"
    "load_prices P (\<lambda>i. clock (Suc i)) cfg rows1 = Some rows'"
    unfolding e load_prices_Cons by blast
  from r1(1) have "set rows \<subseteq> set rows1" by (auto simp: load_price_cases split: if_splits)
  with Cons.IH[OF r1(2)] show ?case by blast
qed simp

text \<open>A dated entry is settled by any table that extends the one it left.\<close>

lemma load_price_again:
  assumes "load_price P now raw pc rows = Some rows1" "pc_effective_at pc = Some t" "set rows1 \<subseteq> set rows2"
  shows "load_price P now' raw pc rows2 = Some rows2"
proof -
  have "config_row key pc now' = config_row key pc now" for key
    by (simp add: config_row_def normalize_effective_at_def assms(2))
  with assms(1,3) show ?thesis by (fastforce simp: load_price_cases same_price_def split: if_splits)
qed

lemma load_prices_again:
  "load_prices P clock cfg rows = Some rows' \<Longrightarrow> \<forall>(raw, pc) \<in> set cfg. pc_effective_at pc \<noteq> None \<Longrightarrow>
    set rows' \<subseteq> set rows2 \<Longrightarrow> load_prices P clock2 cfg rows2 = Some rows2"
proof (induction cfg arbitrary: rows clock clock2)
  case (Cons e cfg)
  obtain raw pc where e: "e = (raw, pc)" by (cases e)
  from Cons.prems(1) obtain rows1 where r1: "load_price P (clock 0) raw pc rows = Some rows1"
    "load_prices P (\<lambda>i. clock (Suc i)) cfg rows1 = Some rows'"
    unfolding e load_prices_Cons by blast
  from Cons.prems(2) e obtain t where t: "pc_effective_at pc = Some t" by auto
  have "set rows1 \<subseteq> set rows2" using load_keeps[OF r1(2)] Cons.prems(3) by blast
  from load_price_again[OF r1(1) t this] have "load_price P (clock2 0) raw pc rows2 = Some rows2" .
  moreover have "load_prices P (\<lambda>i. clock2 (Suc i)) cfg rows2 = Some rows2"
    by (rule Cons.IH[OF r1(2)]) (use Cons.prems e in auto)
  ultimately show ?case by (simp add: e)
qed simp

section \<open>Properties\<close>

text \<open>A price that is set is charged: once the route has stored a price under a selector, a request whose
  selector is the same is priced by that row from its effective instant on, unless a newer row is in
  force; no other model's price changes.\<close>

theorem set_price_is_charged:
  assumes "set_pricing P C hs q now d = (d', Inr row)"
    and "resolve_provider_selector P (sp_model_key q) = Inr r" "instance_name r \<noteq> []"
    and "effective_at row \<le> t"
    and "\<forall>x \<in> set (pricing d). model_key x = model_key row \<and> effective_at x \<le> t \<longrightarrow> effective_at x \<le> effective_at row"
  shows "find_model_pricing enabled calc d' (Some (instance_name r)) (model_name r) t = Some row
    \<and> input_price_per_million row = sp_input q \<and> output_price_per_million row = sp_output q
    \<and> (\<forall>k. k \<noteq> model_key row \<longrightarrow> find_by_model_key d' k t = find_by_model_key d k t)"
proof -
  have k: "normalize_pricing_key P (sp_model_key q) = Inr (pricing_key (Some (instance_name r)) (model_name r))"
  proof -
    have w: "with_kwargs P i p m = Inr r \<Longrightarrow> instance_name r = i \<and> model_name r = m" for i p m
      by (auto simp: with_kwargs_def split: sum.splits)
    show ?thesis
      using assms(2,3) w
      by (cases "configured_split P (sp_model_key q)")
        (auto simp: resolve_provider_selector_def normalize_pricing_key_def pricing_key_def given_def rbind_eq_Inr
          split: if_splits)
  qed
  then have row: "row = price_of_request (pricing_key (Some (instance_name r)) (model_name r)) q now"
    and c: "commit d (put_price row d) = (d', True)"
    using assms(1) by (auto simp: set_pricing_def as_admin_Inr commit_row_Inr)
  from commit_True[OF c] obtain fs where d': "d' = (put_price row d)\<lparr>faults := fs\<rparr>" by blast
  have key: "model_key row = pricing_key (Some (instance_name r)) (model_name r)" by (simp add: row price_of_request_def)
  have "find_by_model_key d' (model_key row) t = Some row"
    unfolding d' by simp (rule put_price_found, use assms(4,5) in auto)
  moreover have "find_by_model_key d' k t = find_by_model_key d k t" if "k \<noteq> model_key row" for k
  proof -
    have "filter (\<lambda>x. model_key x = k \<and> effective_at x \<le> t) (map (\<lambda>x. if same_price x row then row else x) xs) =
        filter (\<lambda>x. model_key x = k \<and> effective_at x \<le> t) xs" for xs
      using that by (induction xs) (auto simp: same_price_def)
    with that show ?thesis by (simp add: d' find_by_model_key_def put_price_def)
  qed
  ultimately show ?thesis by (simp add: find_model_pricing_def key row price_of_request_def)
qed

definition price_request :: set_pricing_request where
  "price_request = \<lparr>sp_model_key = ''local/llama'', sp_input = 2, sp_output = 6, sp_effective_at = None\<rparr>"

lemma set_price_is_charged_witness:
  "\<exists>d' row. set_pricing sample_providers sample_auth admin_headers price_request 5 store0 = (d', Inr row)
    \<and> find_model_pricing False (\<lambda>_ _ _. Price_Failed) d' (Some ''local'') ''llama'' 9 = Some row
    \<and> input_price_per_million row = 2"
proof -
  have k: "normalize_pricing_key sample_providers (sp_model_key price_request) = Inr ''local:llama''"
    by (simp add: price_request_def normalize_pricing_key_def configured_split_def split_selector_def sample_providers_def)
  have r: "resolve_provider_selector sample_providers (sp_model_key price_request) = Inr \<lparr>instance_name = ''local'',
     provider_impl = ''openai'', model_name = ''llama'', call_kwargs = [(''api_key'', JStr ''k'')]\<rparr>"
    using sample_local by (simp add: price_request_def)
  define row where "row = price_of_request ''local:llama'' price_request 5"
  define d' where "d' = (put_price row store0)\<lparr>faults := []\<rparr>"
  have s: "set_pricing sample_providers sample_auth admin_headers price_request 5 store0 = (d', Inr row)"
    by (simp add: set_pricing_def as_admin_def admin_ok k commit_row_ok d'_def row_def)
  have e: "effective_at row \<le> 9" "pricing store0 = []" "input_price_per_million row = 2"
    by (simp_all add: row_def price_of_request_def normalize_effective_at_def price_request_def store0_def)
  show ?thesis
    using set_price_is_charged[OF s r, of 9 False "\<lambda>_ _ _. Price_Failed"] s e by simp
qed

text \<open>Deleting without an instant removes the whole history of one stored key, the first of the
  selector's candidates that has any, and no row of another key.\<close>

lemma delete_removes_one_history:
  assumes "delete_pricing P C iso_of hs raw None d = (d', Inr ())" "price_keys_unique d"
  shows "\<exists>k \<in> set (candidate_model_keys P raw). pricing d' = filter (\<lambda>r. model_key r \<noteq> k) (pricing d)"
proof -
  let ?h = "pricing_history d (candidate_model_keys P raw)"
  have ne: "?h \<noteq> []" and c: "commit d (d\<lparr>pricing := filter (\<lambda>x. \<not> (\<exists>y \<in> set ?h. same_price x y)) (pricing d)\<rparr>) = (d', True)"
    using assms(1) by (auto simp: delete_pricing_def as_admin_Inr commit_row_Inr delete_targets_def split: list.splits)
  from history_keys[of d "candidate_model_keys P raw"] ne obtain k where k: "k \<in> set (candidate_model_keys P raw)"
    "set ?h = {x \<in> set (pricing d). model_key x = k}" by auto
  have "(\<exists>y \<in> set ?h. same_price x y) \<longleftrightarrow> model_key x = k" if "x \<in> set (pricing d)" for x
    using k(2) that by (auto simp: same_price_def)
  then have "filter (\<lambda>x. \<not> (\<exists>y \<in> set ?h. same_price x y)) (pricing d) = filter (\<lambda>r. model_key r \<noteq> k) (pricing d)"
    by (auto intro: filter_cong)
  with commit_True[OF c] k(1) show ?thesis by auto
qed

text \<open>Start-up adds dated prices once: loading the same configuration again changes nothing.\<close>

theorem dated_prices_load_once:
  assumes "initialize_pricing P clock cfg d = (d', True)" "\<forall>(raw, pc) \<in> set cfg. pc_effective_at pc \<noteq> None"
  shows "pricing (fst (initialize_pricing P clock2 cfg d')) = pricing d'"
proof (cases "cfg = []")
  case False
  with assms(1) obtain rows where l: "load_prices P clock cfg (pricing d) = Some rows"
    and c: "commit d (d\<lparr>pricing := rows\<rparr>) = (d', True)"
    by (auto simp: initialize_pricing_def split: option.splits)
  from commit_True[OF c] have p: "pricing d' = rows" by auto
  have "load_prices P clock2 cfg rows = Some rows" by (rule load_prices_again[OF l assms(2)]) simp
  with False p show ?thesis
    using commit_cases[of d' "d'\<lparr>pricing := rows\<rparr>"] by (auto simp: initialize_pricing_def)
qed (simp add: initialize_pricing_def)

definition dated_price :: pricing_config where
  "dated_price = \<lparr>pc_input = 1, pc_output = 2, pc_effective_at = Some 3\<rparr>"

lemma sample_raw: "normalize_pricing_key sample_providers ''local/llama'' = Inr ''local:llama''"
  "map_of (providers sample_providers) (config_instance ''local:llama'') \<noteq> None"
  by (simp_all add: normalize_pricing_key_def configured_split_def split_selector_def sample_providers_def config_instance_def)

lemma start_store0:
  "initialize_pricing sample_providers clock [(''local/llama'', pc)] store0 =
    (store0\<lparr>pricing := [config_row ''local:llama'' pc (clock 0)], faults := []\<rparr>, True)"
  using sample_raw by (auto simp: initialize_pricing_def load_price_def store0_def)

lemma dated_prices_load_once_witness:
  "pricing (fst (initialize_pricing sample_providers (\<lambda>_. 9) [(''local/llama'', dated_price)]
      (store0\<lparr>pricing := [config_row ''local:llama'' dated_price 5], faults := []\<rparr>))) = [config_row ''local:llama'' dated_price 5]"
  using dated_prices_load_once[OF start_store0[of "\<lambda>_. 5" dated_price], of "\<lambda>_. 9"] by (simp add: dated_price_def)

text \<open>An undated price in the configuration comes back at every start: it is stored as effective from the
  start, so it takes the place of whatever price was set for the model before.\<close>

theorem restart_overrides_stored_price:
  assumes "pc_effective_at pc = None" "normalize_pricing_key P raw = Inr key"
    and "map_of (providers P) (config_instance key) \<noteq> None"
    and "initialize_pricing P clock [(raw, pc)] d = (d', True)"
    and "\<forall>x \<in> set (pricing d). model_key x = key \<longrightarrow> effective_at x < clock 0" "clock 0 \<le> t"
  shows "\<exists>r. find_by_model_key d' key t = Some r \<and> input_price_per_million r = pc_input pc
    \<and> output_price_per_million r = pc_output pc \<and> effective_at r = clock 0"
proof -
  let ?r = "config_row key pc (clock 0)"
  have e: "model_key ?r = key" "effective_at ?r = clock 0"
    by (simp_all add: config_row_def normalize_effective_at_def assms(1))
  have "\<not> (\<exists>x \<in> set (pricing d). same_price x ?r)" using assms(5) e by (auto simp: same_price_def)
  then have "commit d (d\<lparr>pricing := pricing d @ [?r]\<rparr>) = (d', True)"
    using assms(2-4) by (auto simp: initialize_pricing_def load_price_def split: if_splits option.splits)
  from commit_True[OF this] have p: "pricing d' = pricing d @ [?r]" by auto
  have "find_by_model_key d' key t = Some ?r"
    by (rule find_by_model_key_newest) (use assms(5,6) e p in auto)
  then show ?thesis using e by (simp add: config_row_def)
qed

lemma restart_overrides_stored_price_witness:
  "\<exists>r. find_by_model_key (store0\<lparr>pricing := [config_row ''local:llama'' \<lparr>pc_input = 1, pc_output = 2, pc_effective_at = None\<rparr> 5],
      faults := []\<rparr>) ''local:llama'' 9 = Some r \<and> input_price_per_million r = 1"
proof -
  have p: "pc_effective_at \<lparr>pc_input = 1, pc_output = 2, pc_effective_at = None\<rparr> = None" by simp
  have n: "\<forall>x \<in> set (pricing store0). model_key x = ''local:llama'' \<longrightarrow> effective_at x < (\<lambda>_::nat. 5) 0"
    by (simp add: store0_def)
  from restart_overrides_stored_price[OF p sample_raw start_store0 n, of 9] show ?thesis by auto
qed

text \<open>Reading and charging can disagree: for a selector with a slash, the pricing route shows the legacy
  row stored under the selector as it is, while a request is charged by the row under the colon form.\<close>

lemma slash_selector_shows_legacy_price:
  assumes "configured_split P s = Some (i, m)" "i \<noteq> []" "find_by_model_key d s t = Some legacy"
    and "find_by_model_key d (i @ '':'' @ m) t = Some row"
  shows "get_effective_pricing d (candidate_model_keys P s) t = Some legacy
    \<and> find_model_pricing enabled calc d (Some i) m t = Some row"
proof -
  have "candidate_model_keys P s \<noteq> [] \<and> hd (candidate_model_keys P s) = s"
    by (auto simp: candidate_model_keys_def Let_def split: sum.splits prod.splits)
  then obtain ks where "candidate_model_keys P s = s # ks" by (metis list.collapse)
  then show ?thesis using assms by (simp add: find_model_pricing_def pricing_key_def given_def)
qed

text \<open>The usage listing returns rows that match, newest first, and at most a page of them.\<close>

lemma usage_listed:
  assumes "list_usage C hs q skip page d = (d', Inr ls)"
  shows "d' = d \<and> length ls \<le> page \<and> sorted (rev (map log_timestamp ls))
    \<and> (\<forall>l \<in> set ls. l \<in> set (usage_logs d) \<and> usage_matches q l)"
proof -
  let ?all = "newest_first (filter (usage_matches q) (usage_logs d))"
  have ls: "d' = d" "ls = take page (drop skip ?all)" using assms by (auto simp: list_usage_def as_admin_Inr)
  have "sorted (map (\<lambda>l. - log_timestamp l) ls)"
    unfolding ls(2) by (simp add: newest_first_def take_map[symmetric] drop_map[symmetric])
  then have "sorted (rev (map log_timestamp ls))"
    by (simp add: sorted_wrt_rev sorted_wrt_map)
  moreover have "set ls \<subseteq> set ?all" unfolding ls(2) by (meson order_trans set_drop_subset set_take_subset)
  ultimately show ?thesis using ls by (auto simp: newest_first_def)
qed

text \<open>The bootstrap key authenticates: it is stored under its hash, active and without expiry.\<close>

lemma bootstrap_key_stored:
  assumes "bootstrap_first_api_key C enabled token kid d = (d', Some (Some key))"
  shows "map_of (api_keys d') (hash C key) = Some (new_key bootstrap_request kid) \<and> validate_api_key_format key = None"
  using assms commit_True
  by (fastforce simp: bootstrap_first_api_key_def generate_api_key_def hash_key_def add_key_def
      split: option.splits if_splits prod.splits bool.splits)

end
