(* ===== verification/Models.thy ===== *)
theory Models
  imports Price_Admin "HOL-Library.Char_ord" "HOL-Library.List_Lexorder"
begin

text \<open>
  Model discovery (\<open>services/model_discovery_service.py\<close>) and the model routes (\<open>api/routes/models.py\<close>).

  The catalogue call of any-llm is a parameter of a clock reading, the implementation and the keyword
  arguments; so is the metadata flag that says whether an implementation can list. The clock is read once per
  stretch of code without an \<open>await\<close>. Other requests run while one waits for the lock and while it fetches; in
  \<open>discover_all_models\<close> they are the functions \<open>others\<close>, and \<open>herd_step\<close> interleaves them.

  Declared \<open>models\<close> are lists of strings, as the start-up validation demands. Database equality under
  \<open>LIKE\<close> is a parameter, as SQLite ignores case there. The creation stamp of a price row, which the store leaves
  out, is the parameter \<open>created_of\<close>.
\<close>

section \<open>The cache\<close>

record found_model =
  fm_id :: string
  fm_created :: int

record cache_entry =
  ce_models :: "found_model list"
  cached_at :: real

type_synonym model_cache = "(string, cache_entry) dict"

definition cache_get :: "real \<Rightarrow> int \<Rightarrow> model_cache \<Rightarrow> string \<Rightarrow> found_model list option" where
  "cache_get now ttl c p = (case map_of c p of
       None \<Rightarrow> None
     | Some e \<Rightarrow> if ttl \<le> 0 \<or> real_of_int ttl \<le> now - cached_at e then None else Some (ce_models e))"

definition cache_set :: "real \<Rightarrow> string \<Rightarrow> found_model list \<Rightarrow> model_cache \<Rightarrow> model_cache" where
  "cache_set now p ms c = AList.update p \<lparr>ce_models = ms, cached_at = now\<rparr> c"

definition get_all_cached :: "real \<Rightarrow> int option \<Rightarrow> model_cache \<Rightarrow> (string, found_model list) dict" where
  "get_all_cached now ttl c = map (\<lambda>(p, e). (p, ce_models e))
     (filter (\<lambda>(p, e). case ttl of None \<Rightarrow> True | Some t \<Rightarrow> 0 < t \<and> now - cached_at e < real_of_int t) c)"

definition cache_clear :: "string option \<Rightarrow> model_cache \<Rightarrow> model_cache" where
  "cache_clear p c = (case p of None \<Rightarrow> [] | Some q \<Rightarrow> dict_remove {q} c)"

section \<open>Discovery\<close>

record discovery =
  dc_providers :: providers_config
  dc_ttl :: int
  lists_models :: "string \<Rightarrow> bool option"
  alist_models :: "real \<Rightarrow> string \<Rightarrow> kwargs \<Rightarrow> (string, found_model list) result"

definition supports_list_models :: "discovery \<Rightarrow> string \<Rightarrow> bool" where
  "supports_list_models D impl = (lists_models D impl = Some True)"

fun str_models :: "json list \<Rightarrow> found_model list" where
  "str_models [] = []"
| "str_models (JStr m # xs) = \<lparr>fm_id = m, fm_created = 0\<rparr> # str_models xs"
| "str_models (_ # xs) = str_models xs"

definition declared_models :: "discovery \<Rightarrow> string \<Rightarrow> found_model list" where
  "declared_models D inst = (case map_of (providers (dc_providers D)) inst of
       None \<Rightarrow> []
     | Some entry \<Rightarrow> (case map_of entry ''models'' of Some (JArr xs) \<Rightarrow> str_models xs | _ \<Rightarrow> []))"

text \<open>The three credentials are passed by name, \<open>None\<close> when absent.\<close>

definition listing_kwargs :: "kwargs \<Rightarrow> kwargs" where
  "listing_kwargs kw = map (\<lambda>k. (k, case map_of kw k of None \<Rightarrow> JNull | Some v \<Rightarrow> v)) [''api_key'', ''api_base'', ''client_args'']
     @ dict_remove {''api_key'', ''api_base'', ''client_args''} kw"

definition discover_for_provider :: "discovery \<Rightarrow> real \<Rightarrow> string \<Rightarrow> (string, found_model list) result" where
  "discover_for_provider D now p =
     (let impl = provider_instance_type (dc_providers D) p in
      if \<not> known (dc_providers D) impl then Inl impl
      else (case get_provider_kwargs (dc_providers D) impl (Some p) of
          Inl e \<Rightarrow> Inl (detail e)
        | Inr kw \<Rightarrow> (case alist_models D now impl (listing_kwargs kw) of
            Inr ms \<Rightarrow> Inr ms
          | Inl e \<Rightarrow> if declared_models D p \<noteq> [] then Inr (declared_models D p) else Inl e)))"

definition providers_to_query :: "discovery \<Rightarrow> string option \<Rightarrow> string list" where
  "providers_to_query D f = (if given f
     then (if map_of (providers (dc_providers D)) (the f) \<noteq> None then [the f] else [])
     else map fst (providers (dc_providers D)))"

definition tagged :: "string \<Rightarrow> found_model list \<Rightarrow> (string \<times> found_model) list" where
  "tagged p ms = map (\<lambda>m. (p, m)) ms"

text \<open>Cached and declared models, and the providers that must be asked.\<close>

fun lookup_phase :: "discovery \<Rightarrow> real \<Rightarrow> string list \<Rightarrow> model_cache
    \<Rightarrow> model_cache \<times> (string \<times> found_model) list \<times> string list" where
  "lookup_phase D now [] c = (c, [], [])"
| "lookup_phase D now (p # ps) c = (case cache_get now (dc_ttl D) c p of
       Some ms \<Rightarrow> (case lookup_phase D now ps c of (c1, rs, need) \<Rightarrow> (c1, tagged p ms @ rs, need))
     | None \<Rightarrow>
         if supports_list_models D (provider_instance_type (dc_providers D) p)
         then (case lookup_phase D now ps c of (c1, rs, need) \<Rightarrow> (c1, rs, p # need))
         else if declared_models D p \<noteq> []
         then (case lookup_phase D now ps (cache_set now p (declared_models D p) c) of
             (c1, rs, need) \<Rightarrow> (c1, tagged p (declared_models D p) @ rs, need))
         else lookup_phase D now ps c)"

text \<open>Under the lock: what is cached by now, and what is still needed.\<close>

fun recheck :: "discovery \<Rightarrow> real \<Rightarrow> model_cache \<Rightarrow> string list \<Rightarrow> (string \<times> found_model) list \<times> string list" where
  "recheck D now c [] = ([], [])"
| "recheck D now c (p # ps) = (case recheck D now c ps of (rs, still) \<Rightarrow>
     (case cache_get now (dc_ttl D) c p of Some ms \<Rightarrow> (tagged p ms @ rs, still) | None \<Rightarrow> (rs, p # still)))"

text \<open>Failures of single providers are dropped.\<close>

fun store_results :: "real \<Rightarrow> (string \<times> (string, found_model list) result) list \<Rightarrow> model_cache
    \<Rightarrow> model_cache \<times> (string \<times> found_model) list" where
  "store_results now [] c = (c, [])"
| "store_results now ((p, Inl _) # xs) c = store_results now xs c"
| "store_results now ((p, Inr ms) # xs) c = (case store_results now xs (cache_set now p ms c) of
     (c1, rs) \<Rightarrow> (c1, tagged p ms @ rs))"

definition fetch_all :: "discovery \<Rightarrow> real \<Rightarrow> string list \<Rightarrow> (string \<times> (string, found_model list) result) list" where
  "fetch_all D now ps = map (\<lambda>p. (p, discover_for_provider D now p)) ps"

definition discover_all_models :: "discovery \<Rightarrow> real \<Rightarrow> real \<Rightarrow> real \<Rightarrow> (nat \<Rightarrow> model_cache \<Rightarrow> model_cache) \<Rightarrow> string option
    \<Rightarrow> model_cache \<Rightarrow> model_cache \<times> (string \<times> found_model) list" where
  "discover_all_models D t1 t2 t3 others f c0 =
     (case lookup_phase D t1 (providers_to_query D f) c0 of
        (c1, rs, need) \<Rightarrow>
          if need = [] then (c1, rs)
          else (let c2 = others 0 c1 in case recheck D t2 c2 need of
              (rs2, still) \<Rightarrow>
                if still = [] then (c2, rs @ rs2)
                else (case store_results t3 (fetch_all D t2 still) (others 1 c2) of
                    (c3, rs3) \<Rightarrow> (c3, rs @ rs2 @ rs3))))"

section \<open>The routes\<close>

record listed_model =
  lm_id :: string
  lm_created :: int
  lm_owner :: string
  lm_pricing :: "(money \<times> money) option"

record model_route =
  mr_discovery :: discovery
  model_discovery :: bool
  like_eq :: "char \<Rightarrow> char \<Rightarrow> bool"
  created_of :: "model_pricing \<Rightarrow> int"

definition price_info :: "model_pricing \<Rightarrow> money \<times> money" where
  "price_info r = (input_price_per_million r, output_price_per_million r)"

definition model_from_pricing :: "model_route \<Rightarrow> model_pricing \<Rightarrow> listed_model" where
  "model_from_pricing R r = \<lparr>lm_id = model_key r, lm_created = created_of R r,
     lm_owner = (case split_once (CHR '':'') (model_key r) of None \<Rightarrow> ''unknown'' | Some (a, _) \<Rightarrow> a),
     lm_pricing = Some (price_info r)\<rparr>"

text \<open>SQL \<open>LIKE\<close>: \<open>startswith\<close> escapes neither the percent sign nor the underscore.\<close>

fun like :: "(char \<Rightarrow> char \<Rightarrow> bool) \<Rightarrow> string \<Rightarrow> string \<Rightarrow> bool" where
  "like eq [] s = (s = [])"
| "like eq (x # pat) [] = (x = CHR ''%'' \<and> like eq pat [])"
| "like eq (x # pat) (c # s) =
     (if x = CHR ''%'' then like eq pat (c # s) \<or> like eq (x # pat) s
      else (x = CHR ''_'' \<or> eq x c) \<and> like eq pat s)"

text \<open>The latest row of each key, whether or not it is in force yet.\<close>

definition latest_price :: "db \<Rightarrow> string \<Rightarrow> model_pricing option" where
  "latest_price d k = latest (filter (\<lambda>r. model_key r = k) (pricing d))"

definition priced_keys :: "model_route \<Rightarrow> db \<Rightarrow> string option \<Rightarrow> string list" where
  "priced_keys R d f = sort (remdups (filter (\<lambda>k. given f \<longrightarrow> like (like_eq R) (the f @ '':%'') k) (map model_key (pricing d))))"

definition get_pricing_map :: "model_route \<Rightarrow> db \<Rightarrow> string option \<Rightarrow> (string, model_pricing) dict" where
  "get_pricing_map R d f = List.map_filter (\<lambda>k. map_option (\<lambda>r. (k, r)) (latest_price d k)) (priced_keys R d f)"

text \<open>The first phase takes the price of each discovered model out of the map.\<close>

fun merge_discovered :: "(string \<times> found_model) list \<Rightarrow> (string, model_pricing) dict \<Rightarrow> (string, listed_model) dict
    \<Rightarrow> (string, listed_model) dict \<times> (string, model_pricing) dict" where
  "merge_discovered [] pm merged = (merged, pm)"
| "merge_discovered ((p, m) # xs) pm merged = (let k = p @ '':'' @ fm_id m in
     merge_discovered xs (dict_remove {k} pm) (AList.update k \<lparr>lm_id = k, lm_created = fm_created m, lm_owner = p,
       lm_pricing = map_option price_info (map_of pm k)\<rparr> merged))"

fun merge_priced :: "model_route \<Rightarrow> (string, model_pricing) dict \<Rightarrow> (string, listed_model) dict \<Rightarrow> (string, listed_model) dict" where
  "merge_priced R [] merged = merged"
| "merge_priced R ((k, r) # pm) merged =
     merge_priced R pm (if map_of merged k = None then AList.update k (model_from_pricing R r) merged else merged)"

definition merge_models :: "model_route \<Rightarrow> (string \<times> found_model) list \<Rightarrow> (string, model_pricing) dict \<Rightarrow> listed_model list" where
  "merge_models R found pm = (case merge_discovered found pm [] of
     (merged, rest) \<Rightarrow> sort_key lm_id (map snd (merge_priced R rest merged)))"

definition list_models :: "model_route \<Rightarrow> auth_config \<Rightarrow> real \<Rightarrow> real \<Rightarrow> real \<Rightarrow> (nat \<Rightarrow> model_cache \<Rightarrow> model_cache)
    \<Rightarrow> (string, string) dict \<Rightarrow> string option \<Rightarrow> instant \<Rightarrow> db \<times> model_cache
    \<Rightarrow> (db \<times> model_cache) \<times> (pipe_error, listed_model list) result" where
  "list_models R C t1 t2 t3 others hs f now dc =
     (case verify_api_key_or_master_key C (fst dc) hs now of
        (d, Inl e) \<Rightarrow> ((d, snd dc), Inl (auth_pipe_error e))
      | (d, Inr _) \<Rightarrow>
          (case (if model_discovery R then discover_all_models (mr_discovery R) t1 t2 t3 others f (snd dc) else (snd dc, [])) of
             (c, found) \<Rightarrow> ((d, c), Inr (merge_models R found (get_pricing_map R d f)))))"

definition cached_model :: "model_route \<Rightarrow> real \<Rightarrow> model_cache \<Rightarrow> string \<Rightarrow> (string \<times> found_model) option" where
  "cached_model R t c i =
     (case (if model_discovery R then split_once (CHR '':'') i else None) of
        None \<Rightarrow> None
      | Some (p, m) \<Rightarrow> (case cache_get t (dc_ttl (mr_discovery R)) c p of
          None \<Rightarrow> None | Some ms \<Rightarrow> map_option (\<lambda>x. (p, x)) (find (\<lambda>x. fm_id x = m) ms)))"

definition get_model :: "model_route \<Rightarrow> auth_config \<Rightarrow> real \<Rightarrow> (string, string) dict \<Rightarrow> string \<Rightarrow> instant \<Rightarrow> db \<times> model_cache
    \<Rightarrow> (db \<times> model_cache) \<times> (pipe_error, listed_model) result" where
  "get_model R C t hs i now dc =
     (case verify_api_key_or_master_key C (fst dc) hs now of
        (d, Inl e) \<Rightarrow> ((d, snd dc), Inl (auth_pipe_error e))
      | (d, Inr _) \<Rightarrow> ((d, snd dc),
          (case (cached_model R t (snd dc) i, latest_price d i) of
             (Some (p, m), price) \<Rightarrow> Inr \<lparr>lm_id = p @ '':'' @ fm_id m, lm_created = fm_created m, lm_owner = p,
               lm_pricing = map_option price_info price\<rparr>
           | (None, Some r) \<Rightarrow> Inr (model_from_pricing R r)
           | (None, None) \<Rightarrow> Inl (Pipe_Http (http_error 404 (''Model '' @ quoted i @ '' not found''))))))"

section \<open>Many requests at once\<close>

text \<open>
  The cache, the clock, the requests that wait for the lock with the providers they miss, the one that
  fetches under the lock since an instant, and the catalogue calls that succeeded with their start and end.
\<close>

record herd =
  h_cache :: model_cache
  h_now :: real
  h_waiting :: "string list list"
  h_busy :: "(real \<times> string list) option"
  h_calls :: "(string \<times> real \<times> real) list"

definition succeeded :: "discovery \<Rightarrow> real \<Rightarrow> string list \<Rightarrow> string list" where
  "succeeded D t ps = filter (\<lambda>p. \<not> isl (discover_for_provider D t p)) ps"

inductive herd_step :: "discovery \<Rightarrow> herd \<Rightarrow> herd \<Rightarrow> bool" for D where
  herd_tick: "0 \<le> dt \<Longrightarrow> herd_step D s (s\<lparr>h_now := h_now s + dt\<rparr>)"
| herd_look: "lookup_phase D (h_now s) (providers_to_query D f) (h_cache s) = (c, rs, need) \<Longrightarrow>
    herd_step D s (s\<lparr>h_cache := c, h_waiting := (if need = [] then h_waiting s else h_waiting s @ [need])\<rparr>)"
| herd_lock: "h_busy s = None \<Longrightarrow> h_waiting s = ws1 @ need # ws2 \<Longrightarrow> recheck D (h_now s) (h_cache s) need = (rs, still) \<Longrightarrow>
    herd_step D s (s\<lparr>h_waiting := ws1 @ ws2, h_busy := (if still = [] then None else Some (h_now s, still))\<rparr>)"
| herd_store: "h_busy s = Some (t, still) \<Longrightarrow> store_results (h_now s) (fetch_all D t still) (h_cache s) = (c, rs) \<Longrightarrow>
    herd_step D s (s\<lparr>h_cache := c, h_busy := None, h_calls := h_calls s @ map (\<lambda>p. (p, t, h_now s)) (succeeded D t still)\<rparr>)"

definition herd0 :: "real \<Rightarrow> herd" where
  "herd0 t = \<lparr>h_cache = [], h_now = t, h_waiting = [], h_busy = None, h_calls = []\<rparr>"

text \<open>Entries only get younger, and are never from the future.\<close>

definition grows :: "model_cache \<Rightarrow> model_cache \<Rightarrow> bool" where
  "grows c c' \<longleftrightarrow> (\<forall>p e. map_of c p = Some e \<longrightarrow> (\<exists>e'. map_of c' p = Some e' \<and> cached_at e \<le> cached_at e'))"

definition bounded :: "real \<Rightarrow> model_cache \<Rightarrow> bool" where
  "bounded now c \<longleftrightarrow> (\<forall>p e. map_of c p = Some e \<longrightarrow> cached_at e \<le> now)"

lemma grows_refl [simp]: "grows c c"
  by (simp add: grows_def)

lemma grows_trans: "grows a b \<Longrightarrow> grows b c \<Longrightarrow> grows a c"
  unfolding grows_def by (meson order_trans)

lemma cache_set_grows: "bounded now c \<Longrightarrow> grows c (cache_set now p ms c) \<and> bounded now (cache_set now p ms c)"
  by (auto simp: grows_def bounded_def cache_set_def)

lemma lookup_phase_grows:
  "lookup_phase D now ps c = (c', rs, need) \<Longrightarrow> bounded now c \<Longrightarrow>
    grows c c' \<and> bounded now c' \<and> set need \<subseteq> set ps \<and> (distinct ps \<longrightarrow> distinct need)"
proof (induction ps arbitrary: c c' rs need)
  case (Cons p ps)
  show ?case
  proof (cases "cache_get now (dc_ttl D) c p")
    case (Some ms)
    with Cons.prems obtain rs' where "lookup_phase D now ps c = (c', rs', need)" by (auto split: prod.splits)
    from Cons.IH[OF this Cons.prems(2)] show ?thesis by auto
  next
    case miss: None
    consider (ask) rs' need' where "lookup_phase D now ps c = (c', rs', need')" "need = p # need'"
      | (declared) rs' where "lookup_phase D now ps (cache_set now p (declared_models D p) c) = (c', rs', need)"
      | (skip) rs' where "lookup_phase D now ps c = (c', rs', need)"
      using Cons.prems(1) miss by (auto split: prod.splits if_splits)
    then show ?thesis
    proof cases
      case ask
      from Cons.IH[OF this(1) Cons.prems(2)] ask(2) show ?thesis by auto
    next
      case declared
      note set = cache_set_grows[OF Cons.prems(2), of p "declared_models D p"]
      from Cons.IH[OF declared set[THEN conjunct2]] grows_trans[OF set[THEN conjunct1]] show ?thesis by auto
    next
      case skip
      from Cons.IH[OF this Cons.prems(2)] show ?thesis by auto
    qed
  qed
qed simp

lemma recheck_filter: "snd (recheck D now c ps) = filter (\<lambda>p. cache_get now (dc_ttl D) c p = None) ps"
proof (induction ps)
  case (Cons p ps)
  then show ?case by (cases "recheck D now c ps") (simp split: option.split)
qed simp

lemma recheck_still:
  assumes "recheck D now c ps = (rs, still)"
  shows "set still = {p \<in> set ps. cache_get now (dc_ttl D) c p = None} \<and> (distinct ps \<longrightarrow> distinct still)"
  using recheck_filter[of D now c ps] unfolding assms by simp

lemma distinct_sorted_wrt: "distinct xs \<Longrightarrow> sorted_wrt (\<noteq>) xs"
  by (induction xs) auto

lemma store_results_grows:
  "store_results now xs c = (c', rs) \<Longrightarrow> bounded now c \<Longrightarrow> grows c c' \<and> bounded now c'
    \<and> (\<forall>p ms. (p, Inr ms) \<in> set xs \<longrightarrow> (\<exists>e. map_of c' p = Some e \<and> now \<le> cached_at e))"
proof (induction now xs c arbitrary: c' rs rule: store_results.induct)
  case (3 now p ms xs c)
  then obtain rs' where r: "store_results now xs (cache_set now p ms c) = (c', rs')" by (auto split: prod.splits)
  note set = cache_set_grows[OF 3(3), of p ms]
  note IH = 3(1)[OF r set[THEN conjunct2]]
  have "map_of (cache_set now p ms c) p = Some \<lparr>ce_models = ms, cached_at = now\<rparr>" by (simp add: cache_set_def)
  with IH[THEN conjunct1] have "\<exists>e. map_of c' p = Some e \<and> now \<le> cached_at e"
    unfolding grows_def by fastforce
  with IH grows_trans[OF set[THEN conjunct1]] show ?case by auto
qed auto

text \<open>The invariant.\<close>

definition herd_ok :: "discovery \<Rightarrow> herd \<Rightarrow> bool" where
  "herd_ok D s \<longleftrightarrow> bounded (h_now s) (h_cache s)
     \<and> (\<forall>ps \<in> set (h_waiting s). distinct ps)
     \<and> (\<forall>(p, t, e) \<in> set (h_calls s). e \<le> h_now s \<and> (\<exists>x. map_of (h_cache s) p = Some x \<and> e \<le> cached_at x))
     \<and> (case h_busy s of None \<Rightarrow> True | Some (t, still) \<Rightarrow> t \<le> h_now s \<and> distinct still
         \<and> (\<forall>(p, t', e) \<in> set (h_calls s). p \<in> set still \<longrightarrow> e + real_of_int (dc_ttl D) \<le> t))
     \<and> sorted_wrt (\<lambda>(p, t, e) (p', t', e'). p = p' \<longrightarrow> e + real_of_int (dc_ttl D) \<le> t') (h_calls s)"

lemma herd_ok_step:
  assumes "herd_step D s s'" and "herd_ok D s" and "distinct (map fst (providers (dc_providers D)))"
  shows "herd_ok D s'"
  using assms(1)
proof cases
  case (herd_tick dt)
  with assms(2) show ?thesis by (fastforce simp: herd_ok_def bounded_def split: option.splits)
next
  case (herd_look f c rs need)
  have "distinct (providers_to_query D f)" using assms(3) by (simp add: providers_to_query_def)
  with lookup_phase_grows[OF herd_look(2)] assms(2)
  have g: "grows (h_cache s) c" "bounded (h_now s) c" "distinct need" by (auto simp: herd_ok_def)
  have "\<exists>x. map_of c p = Some x \<and> e \<le> cached_at x" if "(p, t, e) \<in> set (h_calls s)" for p t e
    using that assms(2) g(1) unfolding herd_ok_def grows_def by (fastforce intro: order_trans)
  with assms(2) g show ?thesis unfolding herd_look(1) by (auto simp: herd_ok_def split: option.splits)
next
  case (herd_lock ws1 need ws2 rs still)
  note still = recheck_still[OF herd_lock(4)]
  have "e + real_of_int (dc_ttl D) \<le> h_now s" if "(p, t', e) \<in> set (h_calls s)" "p \<in> set still" for p t' e
  proof -
    from that(1) assms(2) obtain x where "map_of (h_cache s) p = Some x" "e \<le> cached_at x" "e \<le> h_now s"
      unfolding herd_ok_def by blast
    moreover have "cache_get (h_now s) (dc_ttl D) (h_cache s) p = None" using that(2) still by auto
    ultimately show ?thesis by (auto simp: cache_get_def split: if_splits)
  qed
  with assms(2) still herd_lock(3) show ?thesis unfolding herd_lock(1) by (auto simp: herd_ok_def)
next
  case (herd_store t still c rs)
  from assms(2) herd_store(2) have b: "bounded (h_now s) (h_cache s)" "t \<le> h_now s" "distinct still"
    "\<And>p t' e. (p, t', e) \<in> set (h_calls s) \<Longrightarrow> p \<in> set still \<Longrightarrow> e + real_of_int (dc_ttl D) \<le> t"
    by (auto simp: herd_ok_def)
  note g = store_results_grows[OF herd_store(3) b(1)]
  have new: "\<exists>x. map_of c p = Some x \<and> h_now s \<le> cached_at x" if "p \<in> set (succeeded D t still)" for p
  proof -
    from that obtain ms where "discover_for_provider D t p = Inr ms" "p \<in> set still"
      by (auto simp: succeeded_def isl_def) (metis obj_sumE)
    then have "(p, Inr ms) \<in> set (fetch_all D t still)" by (force simp: fetch_all_def)
    with g show ?thesis by blast
  qed
  have old: "\<exists>x. map_of c p = Some x \<and> e \<le> cached_at x" if "(p, t', e) \<in> set (h_calls s)" for p t' e
    using that assms(2) g unfolding herd_ok_def grows_def by (fastforce intro: order_trans)
  have "sorted_wrt (\<lambda>(p, t, e) (p', t', e'). p = p' \<longrightarrow> e + real_of_int (dc_ttl D) \<le> t')
      (map (\<lambda>p. (p, t, h_now s)) (succeeded D t still))"
    using distinct_sorted_wrt[OF distinct_filter[OF b(3), of "\<lambda>p. \<not> isl (discover_for_provider D t p)"]]
    unfolding succeeded_def sorted_wrt_map by (rule sorted_wrt_mono_rel[rotated]) auto
  then show ?thesis
    using assms(2) g new old b unfolding herd_store(1) by (auto simp: herd_ok_def sorted_wrt_append succeeded_def)
qed

lemma herd_reachable: "(herd_step D)\<^sup>*\<^sup>* (herd0 t0) s \<Longrightarrow> distinct (map fst (providers (dc_providers D))) \<Longrightarrow> herd_ok D s"
proof (induction rule: rtranclp_induct)
  case base
  show ?case by (simp add: herd_ok_def herd0_def bounded_def)
qed (use herd_ok_step in blast)

section \<open>The listing\<close>

definition found_key :: "string \<times> found_model \<Rightarrow> string" where
  "found_key x = fst x @ '':'' @ fm_id (snd x)"

definition found_entry :: "(string, model_pricing) dict \<Rightarrow> string \<times> found_model \<Rightarrow> listed_model" where
  "found_entry pm x = \<lparr>lm_id = found_key x, lm_created = fm_created (snd x), lm_owner = fst x,
     lm_pricing = map_option price_info (map_of pm (found_key x))\<rparr>"

lemma merge_step: "merge_discovered (x # xs) pm merged =
    merge_discovered xs (dict_remove {found_key x} pm) (AList.update (found_key x) (found_entry pm x) merged)"
  by (cases x) (simp add: Let_def found_key_def found_entry_def)

lemmas merge_simps = merge_discovered.simps(1) merge_step

declare merge_discovered.simps(2) [simp del]

lemma merge_discovered_keys:
  "dom (map_of (fst (merge_discovered found pm merged))) = found_key ` set found \<union> dom (map_of merged)"
proof (induction found arbitrary: pm merged)
  case (Cons x found)
  show ?case unfolding merge_step Cons.IH by auto
qed simp

lemma merge_discovered_rest:
  "map_of (snd (merge_discovered found pm merged)) k = (if k \<in> found_key ` set found then None else map_of pm k)"
proof (induction found arbitrary: pm merged)
  case (Cons x found)
  show ?case unfolding merge_step Cons.IH by auto
qed simp

lemma merge_discovered_other:
  "k \<notin> found_key ` set found \<Longrightarrow> map_of (fst (merge_discovered found pm merged)) k = map_of merged k"
proof (induction found arbitrary: pm merged)
  case (Cons x found)
  then show ?case unfolding merge_step by simp
qed simp

lemma merge_discovered_price:
  "distinct (map found_key found) \<Longrightarrow> k \<in> found_key ` set found \<Longrightarrow>
    \<exists>x. map_of (fst (merge_discovered found pm merged)) k = Some x
      \<and> lm_pricing x = map_option price_info (map_of pm k)"
proof (induction found arbitrary: pm merged)
  case (Cons y found)
  show ?case
  proof (cases "k = found_key y")
    case True
    with Cons.prems have "k \<notin> found_key ` set found" by auto
    from merge_discovered_other[OF this] True show ?thesis unfolding merge_step by (simp add: found_entry_def)
  next
    case False
    with Cons.prems have k: "k \<in> found_key ` set found" "distinct (map found_key found)" by auto
    have "map_of (dict_remove {found_key y} pm) k = map_of pm k" using False by simp
    with Cons.IH[OF k(2,1), of "dict_remove {found_key y} pm"] show ?thesis unfolding merge_step by simp
  qed
qed simp

text \<open>Entries sit under their own ids.\<close>

definition keyed_models :: "(string, listed_model) dict \<Rightarrow> bool" where
  "keyed_models m \<longleftrightarrow> distinct (map fst m) \<and> (\<forall>k x. map_of m k = Some x \<longrightarrow> lm_id x = k)"

lemma keyed_update: "keyed_models m \<Longrightarrow> lm_id x = k \<Longrightarrow> keyed_models (AList.update k x m)"
  by (auto simp: keyed_models_def distinct_update)

lemma merge_discovered_keyed: "keyed_models merged \<Longrightarrow> keyed_models (fst (merge_discovered found pm merged))"
proof (induction found arbitrary: pm merged)
  case (Cons y found)
  from Cons.IH[OF keyed_update[OF Cons.prems]] show ?case unfolding merge_step by (simp add: found_entry_def)
qed simp

lemma merge_priced_spec:
  "map_of (merge_priced R pm merged) k = (case map_of merged k of Some x \<Rightarrow> Some x
    | None \<Rightarrow> map_option (model_from_pricing R) (map_of pm k))"
  by (induction pm arbitrary: merged) (auto split: option.splits)

lemma merge_priced_keyed:
  "keyed_models merged \<Longrightarrow> \<forall>(k, r) \<in> set pm. model_key r = k \<Longrightarrow> keyed_models (merge_priced R pm merged)"
proof (induction pm arbitrary: merged)
  case (Cons x pm)
  obtain k r where x: "x = (k, r)" by (cases x)
  with Cons.prems have "keyed_models (AList.update k (model_from_pricing R r) merged)"
    by (auto intro!: keyed_update simp: model_from_pricing_def)
  with Cons show ?case unfolding x by auto
qed simp

lemma map_of_pricing_map:
  "map_of (get_pricing_map R d f) k = (if given f \<and> \<not> like (like_eq R) (the f @ '':%'') k then None else latest_price d k)"
proof -
  have m: "map_of (List.map_filter (\<lambda>k. map_option (\<lambda>r. (k, r)) (g k)) ks) k = (if k \<in> set ks then g k else None)"
    for g :: "string \<Rightarrow> model_pricing option" and ks
    by (induction ks) (auto simp: List.map_filter_def split: option.splits)
  have "latest_price d k = None" if "k \<notin> model_key ` set (pricing d)"
    using that by (auto simp: latest_price_def filter_empty_conv)
  then show ?thesis unfolding get_pricing_map_def m by (auto simp: priced_keys_def)
qed

lemma latest_price_key: "latest_price d k = Some r \<Longrightarrow> model_key r = k"
  by (auto simp: latest_price_def dest: latest_in)

lemma pricing_map_keys: "(k, r) \<in> set (get_pricing_map R d f) \<Longrightarrow> model_key r = k"
  by (auto simp: get_pricing_map_def List.map_filter_def dest: latest_price_key split: option.splits)

lemma keyed_values: "keyed_models m \<Longrightarrow> map lm_id (map snd m) = map fst m"
  by (auto simp: keyed_models_def map_of_eq_Some_iff)

section \<open>Properties\<close>

text \<open>No thundering herd. However many requests list models at the same time, two successful calls to one
  provider's catalogue are apart: the later one starts no earlier than the cache's time to live after the
  end of the earlier one.\<close>

theorem catalogue_calls_spaced:
  assumes "(herd_step D)\<^sup>*\<^sup>* (herd0 t0) s" and "distinct (map fst (providers (dc_providers D)))"
    and "i < j" and "j < length (h_calls s)" and "h_calls s ! i = (p, t, e)" and "h_calls s ! j = (p, t', e')"
  shows "e + real_of_int (dc_ttl D) \<le> t'"
proof -
  have "sorted_wrt (\<lambda>(p, t, e) (p', t', e'). p = p' \<longrightarrow> e + real_of_int (dc_ttl D) \<le> t') (h_calls s)"
    using herd_reachable[OF assms(1,2)] by (simp add: herd_ok_def)
  from sorted_wrt_nth_less[OF this assms(3,4)] assms(5,6) show ?thesis by simp
qed

definition discovery0 :: discovery where
  "discovery0 = \<lparr>dc_providers = sample_providers, dc_ttl = 10, lists_models = (\<lambda>_. Some True),
     alist_models = (\<lambda>_ _ _. Inr [\<lparr>fm_id = ''llama'', fm_created = 1\<rparr>])\<rparr>"

definition cache0 :: "real \<Rightarrow> model_cache" where
  "cache0 t = [(''local'', \<lparr>ce_models = [\<lparr>fm_id = ''llama'', fm_created = 1\<rparr>], cached_at = t\<rparr>)]"

definition herd1 :: "real \<Rightarrow> model_cache \<Rightarrow> (string \<times> real \<times> real) list \<Rightarrow> herd" where
  "herd1 t c calls = \<lparr>h_cache = c, h_now = t, h_waiting = [], h_busy = None, h_calls = calls\<rparr>"

lemma local_found: "discover_for_provider discovery0 t ''local'' = Inr [\<lparr>fm_id = ''llama'', fm_created = 1\<rparr>]"
  by (simp add: discover_for_provider_def discovery0_def sample_providers_def provider_instance_type_def declared_type_def
      alias_of_def provider_type_aliases_def get_provider_kwargs_def Let_def)

text \<open>One request that finds nothing in the cache: it misses, takes the lock, fetches and stores.\<close>

lemma herd_round:
  assumes "cache_get t 10 c ''local'' = None"
  shows "(herd_step discovery0)\<^sup>*\<^sup>* (herd1 t c calls)
    (herd1 t (cache_set t ''local'' [\<lparr>fm_id = ''llama'', fm_created = 1\<rparr>] c) (calls @ [(''local'', t, t)]))"
proof -
  have ttl: "dc_ttl discovery0 = 10" by (simp add: discovery0_def)
  have q: "providers_to_query discovery0 None = [''local'']"
    by (simp add: providers_to_query_def given_def discovery0_def sample_providers_def)
  have sup: "supports_list_models discovery0 i" for i by (simp add: supports_list_models_def discovery0_def)
  have "herd_step discovery0 (herd1 t c calls) ((herd1 t c calls)\<lparr>h_cache := c, h_waiting :=
      (if [''local''] = [] then h_waiting (herd1 t c calls) else h_waiting (herd1 t c calls) @ [[''local'']])\<rparr>)"
    by (rule herd_look[where f = None and rs = "[]"]) (simp add: q herd1_def assms ttl sup)
  then have 1: "herd_step discovery0 (herd1 t c calls) ((herd1 t c calls)\<lparr>h_waiting := [[''local'']]\<rparr>)"
    by (simp add: herd1_def)
  have "herd_step discovery0 ((herd1 t c calls)\<lparr>h_waiting := [[''local'']]\<rparr>)
      ((herd1 t c calls)\<lparr>h_waiting := [[''local'']]\<rparr>\<lparr>h_waiting := [] @ [], h_busy :=
        (if [''local''] = [] then None else Some (h_now ((herd1 t c calls)\<lparr>h_waiting := [[''local'']]\<rparr>), [''local'']))\<rparr>)"
    by (rule herd_lock[where need = "[''local'']" and rs = "[]"]) (simp_all add: herd1_def assms ttl)
  then have 2: "herd_step discovery0 ((herd1 t c calls)\<lparr>h_waiting := [[''local'']]\<rparr>)
      ((herd1 t c calls)\<lparr>h_busy := Some (t, [''local''])\<rparr>)"
    by (simp add: herd1_def)
  let ?ms = "[\<lparr>fm_id = ''llama'', fm_created = 1\<rparr>]"
  have "herd_step discovery0 ((herd1 t c calls)\<lparr>h_busy := Some (t, [''local''])\<rparr>)
      ((herd1 t c calls)\<lparr>h_busy := Some (t, [''local''])\<rparr>\<lparr>h_cache := cache_set t ''local'' ?ms c, h_busy := None,
        h_calls := h_calls ((herd1 t c calls)\<lparr>h_busy := Some (t, [''local''])\<rparr>) @ map (\<lambda>p. (p, t,
          h_now ((herd1 t c calls)\<lparr>h_busy := Some (t, [''local''])\<rparr>))) (succeeded discovery0 t [''local''])\<rparr>)"
    by (rule herd_store[where rs = "tagged ''local'' ?ms"]) (simp_all add: herd1_def fetch_all_def local_found)
  then have 3: "herd_step discovery0 ((herd1 t c calls)\<lparr>h_busy := Some (t, [''local''])\<rparr>)
      (herd1 t (cache_set t ''local'' ?ms c) (calls @ [(''local'', t, t)]))"
    by (simp add: herd1_def succeeded_def local_found)
  show ?thesis
    by (rule converse_rtranclp_into_rtranclp, rule 1, rule converse_rtranclp_into_rtranclp, rule 2, rule r_into_rtranclp, rule 3)
qed

lemma catalogue_calls_spaced_witness:
  "\<exists>s. (herd_step discovery0)\<^sup>*\<^sup>* (herd0 0) s \<and> h_calls s = [(''local'', 0, 0), (''local'', 10, 10)]
    \<and> 0 + real_of_int (dc_ttl discovery0) \<le> 10"
proof -
  let ?ms = "[\<lparr>fm_id = ''llama'', fm_created = 1\<rparr>]"
  let ?c = "cache_set 0 ''local'' ?ms []"
  have h0: "herd0 0 = herd1 0 [] []" by (simp add: herd0_def herd1_def)
  have a: "(herd_step discovery0)\<^sup>*\<^sup>* (herd1 0 [] []) (herd1 0 ?c ([] @ [(''local'', 0, 0)]))"
    by (rule herd_round) (simp add: cache_get_def)
  have "herd_step discovery0 (herd1 0 ?c [(''local'', 0, 0)]) ((herd1 0 ?c [(''local'', 0, 0)])\<lparr>h_now := h_now (herd1 0 ?c [(''local'', 0, 0)]) + 10\<rparr>)"
    by (rule herd_tick) simp
  then have b: "herd_step discovery0 (herd1 0 ?c [(''local'', 0, 0)]) (herd1 10 ?c [(''local'', 0, 0)])" by (simp add: herd1_def)
  have c: "(herd_step discovery0)\<^sup>*\<^sup>* (herd1 10 ?c [(''local'', 0, 0)])
      (herd1 10 (cache_set 10 ''local'' ?ms ?c) ([(''local'', 0, 0)] @ [(''local'', 10, 10)]))"
    by (rule herd_round) (simp add: cache_get_def cache_set_def)
  let ?s = "herd1 10 (cache_set 10 ''local'' ?ms ?c) ([(''local'', 0, 0)] @ [(''local'', 10, 10)])"
  have r: "(herd_step discovery0)\<^sup>*\<^sup>* (herd0 0) ?s"
    unfolding h0 by (rule rtranclp_trans[OF a[unfolded append_Nil] converse_rtranclp_into_rtranclp[OF b c]])
  have d: "distinct (map fst (providers (dc_providers discovery0)))" by (simp add: discovery0_def sample_providers_def)
  have calls: "h_calls ?s = [(''local'', 0, 0), (''local'', 10, 10)]" by (simp add: herd1_def)
  have "0 + real_of_int (dc_ttl discovery0) \<le> 10"
    by (rule catalogue_calls_spaced[OF r d, of 0 1 "''local''" 0 0 10 10]) (simp_all add: herd1_def)
  with r calls show ?thesis by blast
qed

text \<open>The listing of an authenticated caller holds each model once, in the order of the ids: exactly the discovered
  models and the priced ones the filter lets through, each with its latest price. The catalogues must not
  repeat a model.\<close>

theorem listing_complete:
  assumes "distinct (map found_key found)"
  shows "let ms = merge_models R found (get_pricing_map R d f);
      price = (\<lambda>k. if given f \<and> \<not> like (like_eq R) (the f @ '':%'') k then None else latest_price d k)
    in sorted (map lm_id ms) \<and> distinct (map lm_id ms)
      \<and> set (map lm_id ms) = found_key ` set found \<union> {k. price k \<noteq> None}
      \<and> (\<forall>x \<in> set ms. lm_pricing x = map_option price_info (price (lm_id x)))"
proof -
  let ?pm = "get_pricing_map R d f"
  let ?price = "\<lambda>k. if given f \<and> \<not> like (like_eq R) (the f @ '':%'') k then None else latest_price d k"
  obtain merged rest where m: "merge_discovered found ?pm [] = (merged, rest)" by fastforce
  then have mf: "fst (merge_discovered found ?pm []) = merged" "snd (merge_discovered found ?pm []) = rest" by auto
  let ?all = "merge_priced R rest merged"
  have k0: "keyed_models merged" using merge_discovered_keyed[of "[]" found ?pm] mf by (simp add: keyed_models_def)
  have rest: "map_of rest k = (if k \<in> found_key ` set found then None else ?price k)" for k
    using merge_discovered_rest[of found ?pm "[]" k] mf by (simp add: map_of_pricing_map)
  have "set rest \<subseteq> set ?pm"
  proof -
    have "set (snd (merge_discovered fs pm mg)) \<subseteq> set pm" for fs pm mg
    proof (induction fs arbitrary: pm mg)
      case (Cons y fs)
      then show ?case unfolding merge_step by (fastforce simp: dict_remove_def)
    qed simp
    then show ?thesis using mf by blast
  qed
  then have k: "keyed_models ?all"
    using pricing_map_keys by (intro merge_priced_keyed[OF k0]) fast
  have dom: "dom (map_of ?all) = found_key ` set found \<union> {k. ?price k \<noteq> None}"
  proof -
    have "dom (map_of merged) = found_key ` set found"
      using merge_discovered_keys[of found ?pm "[]"] mf by simp
    then show ?thesis by (auto simp: merge_priced_spec rest dom_def split: option.splits)
  qed
  have price: "lm_pricing x = map_option price_info (?price i)" if "map_of ?all i = Some x" for i x
  proof (cases "i \<in> found_key ` set found")
    case True
    from merge_discovered_price[OF assms True, of ?pm "[]"] mf that show ?thesis
      by (auto simp: merge_priced_spec map_of_pricing_map)
  next
    case False
    with merge_discovered_other[OF False, of ?pm "[]"] mf that rest show ?thesis
      by (auto simp: merge_priced_spec model_from_pricing_def)
  qed
  have ids: "map lm_id (map snd ?all) = map fst ?all" using keyed_values[OF k] .
  have ms: "merge_models R found ?pm = sort_key lm_id (map snd ?all)" by (simp add: merge_models_def m)
  have set: "lm_id ` snd ` set ?all = dom (map_of ?all)"
    using arg_cong[OF ids, of set] by (simp add: dom_map_of_conv_image_fst image_image)
  have perm: "mset (map lm_id (sort_key lm_id (map snd ?all))) = mset (map lm_id (map snd ?all))"
    by (simp only: mset_map mset_sort)
  have "distinct (map lm_id (map snd ?all))" using k unfolding ids by (simp add: keyed_models_def)
  then have "distinct (map lm_id (sort_key lm_id (map snd ?all)))" unfolding mset_eq_imp_distinct_iff[OF perm] .
  moreover have "lm_pricing x = map_option price_info (?price (lm_id x))" if "x \<in> snd ` set ?all" for x
    using that k price by (auto simp: keyed_models_def)
  ultimately show ?thesis unfolding Let_def ms using set dom by auto
qed

definition models0 :: model_route where
  "models0 = \<lparr>mr_discovery = discovery0, model_discovery = True, like_eq = (=), created_of = (\<lambda>_. 0)\<rparr>"

lemma listing_complete_witness:
  "set (map lm_id (merge_models models0 [(''local'', \<lparr>fm_id = ''llama'', fm_created = 1\<rparr>)]
      (get_pricing_map models0 (store0\<lparr>pricing := [Pricing.sample_row 0 1]\<rparr>) None))) = {''local:llama'', ''openai:gpt''}"
proof -
  have d: "distinct (map found_key [(''local'', \<lparr>fm_id = ''llama'', fm_created = 1\<rparr>)])" by simp
  have "{k. latest_price (store0\<lparr>pricing := [Pricing.sample_row 0 1]\<rparr>) k \<noteq> None} = {''openai:gpt''}"
    by (auto simp: latest_price_def Pricing.sample_row_def)
  with listing_complete[OF d, of models0 "store0\<lparr>pricing := [Pricing.sample_row 0 1]\<rparr>" None] show ?thesis
    by (auto simp: Let_def given_def found_key_def)
qed

text \<open>The listed price is the latest row, also one that is not in force yet: requests are charged by another.\<close>

lemma listing_shows_future_price:
  assumes "latest_price d (p @ '':'' @ m) = Some r" and "now < effective_at r" and "p \<noteq> []"
    and "find_model_pricing enabled calc d (Some p) m now = Some r'"
  shows "r' \<noteq> r \<or> effective_at r' \<noteq> effective_at r"
proof -
  have "effective_at r' \<le> now"
    using assms(4) find_by_model_key_Some[of d _ now r'] try_prices_key[of calc _ now _ r']
    by (auto simp: find_model_pricing_def default_model_pricing_def split: option.splits if_splits)
  with assms(2) show ?thesis by auto
qed

text \<open>An underscore in the filter matches any character, so another provider's prices are listed.\<close>

lemma filter_wildcard: "like (=) (''my_lab'' @ '':%'') ''myXlab:m''"
  by simp

text \<open>A model that a catalogue repeats is listed without its price.\<close>

lemma repeated_model_unpriced:
  "merge_models R [(''p'', m), (''p'', m)] [(''p:'' @ fm_id m, r)] =
    [\<lparr>lm_id = ''p:'' @ fm_id m, lm_created = fm_created m, lm_owner = ''p'', lm_pricing = None\<rparr>]"
  by (simp add: merge_models_def merge_step found_key_def found_entry_def dict_remove_def)

end
