(* ===== verification/Batches.thy ===== *)
theory Batches
  imports Direct_Routes
begin

text \<open>
  The batch routes (\<open>api/routes/batches.py\<close>): create, retrieve, cancel, list and results. They
  authenticate and log, but take no reservation, check no rate limit and price nothing.

  any-llm is a parameter: \<open>from_string\<close> parses a provider name (the message of
  \<open>UnsupportedProviderError\<close> when it does not), \<open>supports\<close> is the class attribute \<open>SUPPORTS_BATCH\<close>, and
  each batch operation is a function of the implementation and the keyword arguments. The temporary
  file is the list of its lines.
\<close>

datatype 'r batch_answer = Batch_Ok 'r | Batch_Http http_exception | Batch_Not_Complete string | Batch_Failed string

record batch_item =
  custom_id :: string
  item_body :: "(string, json) dict"

record batch_request =
  b_model :: string
  b_items :: "batch_item list"
  completion_window :: string
  b_metadata :: "json option"

record batch_result =
  r_custom_id :: string
  r_result :: "(string \<times> json) option"
  r_error :: "(json \<times> json) option"

section \<open>Helpers\<close>

definition log_batch_usage :: "pipeline \<Rightarrow> api_key_row option \<Rightarrow> string \<Rightarrow> string \<Rightarrow> string \<Rightarrow> string option
    \<Rightarrow> instant \<Rightarrow> server \<Rightarrow> server" where
  "log_batch_usage P ko model provider path err now s = log_put P
     \<lparr>log_api_key_id = map_option key_id ko, log_user_id = (case ko of None \<Rightarrow> None | Some k \<Rightarrow> key_user_id k),
      log_timestamp = now, log_model = model, log_provider = Some provider, log_endpoint = path,
      log_status = (if err = None then ''success'' else ''error''), log_error = err,
      log_tokens = None, log_cost = None\<rparr> s"

text \<open>A configured name resolves to its implementation with its credentials; any other name must be a provider.\<close>

definition resolve_batch_provider :: "providers_config \<Rightarrow> (string \<Rightarrow> (string, string) result) \<Rightarrow> string
    \<Rightarrow> (pipe_error, string \<times> kwargs) result" where
  "resolve_batch_provider C from_string provider =
     (if map_of (providers C) provider \<noteq> None
      then (let impl = provider_instance_type C provider in
        if known C impl
        then (case get_provider_kwargs C impl (Some provider) of
            Inl e \<Rightarrow> Inl (Pipe_Http e) | Inr kw \<Rightarrow> Inr (impl, kw))
        else Inl Pipe_Crash)
      else (case from_string provider of
          Inl m \<Rightarrow> Inl (Pipe_Http (http_error 400 m))
        | Inr impl \<Rightarrow> (case get_provider_kwargs C impl None of
            Inl e \<Rightarrow> Inl (Pipe_Http e) | Inr kw \<Rightarrow> Inr (impl, kw))))"

definition with_caller :: "auth_config \<Rightarrow> (string, string) dict \<Rightarrow> instant \<Rightarrow> server
    \<Rightarrow> (api_key_row option \<Rightarrow> server \<Rightarrow> server \<times> (pipe_error, 'r) result) \<Rightarrow> server \<times> (pipe_error, 'r) result" where
  "with_caller C hs now s k = (case in_db (\<lambda>d. verify_api_key_or_master_key C d hs now) s of
     (s1, Inl e) \<Rightarrow> (s1, Inl (auth_pipe_error e)) | (s1, Inr (ko, _)) \<Rightarrow> k ko s1)"

definition provider_502 :: pipe_error where
  "provider_502 = Pipe_Http (http_error 502 ''LLM provider error'')"

definition batch_outcome :: "'r batch_answer \<Rightarrow> (pipe_error, 'r) result" where
  "batch_outcome out = (case out of Batch_Ok r \<Rightarrow> Inr r | Batch_Http e \<Rightarrow> Inl (Pipe_Http e) | _ \<Rightarrow> Inl provider_502)"

section \<open>The routes\<close>

definition batch_line :: "string \<Rightarrow> batch_item \<Rightarrow> json" where
  "batch_line model i = JObj [(''custom_id'', JStr (custom_id i)), (''method'', JStr ''POST''),
     (''url'', JStr ''/v1/chat/completions''), (''body'', JObj (AList.update ''model'' (JStr model) (item_body i)))]"

definition batch_kwargs :: "resolved_provider \<Rightarrow> batch_request \<Rightarrow> kwargs" where
  "batch_kwargs r b = dict_merge [(''endpoint'', JStr ''/v1/chat/completions''),
     (''completion_window'', JStr (completion_window b)),
     (''metadata'', case b_metadata b of None \<Rightarrow> JNull | Some m \<Rightarrow> m)] (call_kwargs r)"

definition unsupported_batch :: "string \<Rightarrow> http_exception" where
  "unsupported_batch p = http_error 422 (''Provider '' @ quoted p @ '' does not support batch operations'')"

text \<open>Only a \<open>ValueError\<close> of the selector is answered with a 400.\<close>

definition batch_selector_error :: "provider_error \<Rightarrow> pipe_error" where
  "batch_selector_error e = (case e of
     Value_Error m \<Rightarrow> Pipe_Http (http_error 400 (''Invalid request: '' @ m)) | _ \<Rightarrow> selector_error e)"

definition create_batch :: "pipeline \<Rightarrow> auth_config \<Rightarrow> (string \<Rightarrow> bool)
    \<Rightarrow> (string \<Rightarrow> json list \<Rightarrow> kwargs \<Rightarrow> kwargs batch_answer) \<Rightarrow> (string, string) dict \<Rightarrow> instant
    \<Rightarrow> batch_request \<Rightarrow> server \<Rightarrow> server \<times> (pipe_error, kwargs) result" where
  "create_batch P C supports op hs now b s0 = with_caller C hs now s0 (\<lambda>ko s.
     case resolve_provider_selector (pcfg P) (b_model b) of
       Inl e \<Rightarrow> (s, Inl (batch_selector_error e))
     | Inr r \<Rightarrow>
         if \<not> supports (provider_impl r) then (s, Inl (Pipe_Http (unsupported_batch (provider_impl r))))
         else (let answer = (case op (provider_impl r) (map (batch_line (model_name r)) (b_items b)) (batch_kwargs r b) of
                  Batch_Not_Complete m \<Rightarrow> Batch_Failed m | out \<Rightarrow> out)
           in case answer of
             Batch_Ok d \<Rightarrow> (log_batch_usage P ko (model_name r) (instance_name r) ''/v1/batches'' None now s,
               Inr (AList.update ''provider'' (JStr (instance_name r)) d))
           | Batch_Failed m \<Rightarrow>
               (log_batch_usage P ko (model_name r) (instance_name r) ''/v1/batches'' (Some m) now s, Inl provider_502)
           | out \<Rightarrow> (s, batch_outcome out)))"

text \<open>Retrieving and cancelling differ in the operation only.\<close>

definition forward_batch :: "pipeline \<Rightarrow> auth_config \<Rightarrow> (string \<Rightarrow> (string, string) result)
    \<Rightarrow> (string \<Rightarrow> string \<Rightarrow> kwargs \<Rightarrow> kwargs batch_answer) \<Rightarrow> (string, string) dict \<Rightarrow> instant
    \<Rightarrow> string \<Rightarrow> string \<Rightarrow> server \<Rightarrow> server \<times> (pipe_error, kwargs) result" where
  "forward_batch P C from_string op hs now bid provider s0 = with_caller C hs now s0 (\<lambda>_ s.
     (s, rbind (resolve_batch_provider (pcfg P) from_string provider) (\<lambda>(impl, kw).
       rbind (batch_outcome (op impl bid kw)) (\<lambda>d. Inr (AList.update ''provider'' (JStr provider) d)))))"

definition retrieve_batch :: "pipeline \<Rightarrow> auth_config \<Rightarrow> (string \<Rightarrow> (string, string) result)
    \<Rightarrow> (string \<Rightarrow> string \<Rightarrow> kwargs \<Rightarrow> kwargs batch_answer) \<Rightarrow> (string, string) dict \<Rightarrow> instant
    \<Rightarrow> string \<Rightarrow> string \<Rightarrow> server \<Rightarrow> server \<times> (pipe_error, kwargs) result" where
  "retrieve_batch = forward_batch"

definition cancel_batch :: "pipeline \<Rightarrow> auth_config \<Rightarrow> (string \<Rightarrow> (string, string) result)
    \<Rightarrow> (string \<Rightarrow> string \<Rightarrow> kwargs \<Rightarrow> kwargs batch_answer) \<Rightarrow> (string, string) dict \<Rightarrow> instant
    \<Rightarrow> string \<Rightarrow> string \<Rightarrow> server \<Rightarrow> server \<times> (pipe_error, kwargs) result" where
  "cancel_batch = forward_batch"

definition list_batches :: "pipeline \<Rightarrow> auth_config \<Rightarrow> (string \<Rightarrow> (string, string) result)
    \<Rightarrow> (string \<Rightarrow> kwargs \<Rightarrow> kwargs list batch_answer) \<Rightarrow> (string, string) dict \<Rightarrow> instant
    \<Rightarrow> string \<Rightarrow> string option \<Rightarrow> int option \<Rightarrow> server \<Rightarrow> server \<times> (pipe_error, kwargs list) result" where
  "list_batches P C from_string op hs now provider after page s0 = with_caller C hs now s0 (\<lambda>_ s.
     (s, rbind (resolve_batch_provider (pcfg P) from_string provider) (\<lambda>(impl, kw).
       rbind (batch_outcome (op impl (opt_kwarg ''limit'' (map_option JInt page)
           (opt_kwarg ''after'' (map_option JStr after) kw))))
         (\<lambda>ds. Inr (map (AList.update ''provider'' (JStr provider)) ds)))))"

definition not_complete :: "string \<Rightarrow> string \<Rightarrow> string \<Rightarrow> http_exception" where
  "not_complete bid provider st = http_error 409 (''Batch '' @ quoted bid @ '' is not yet complete (status: '' @ st
     @ ''). Call GET /v1/batches/'' @ bid @ ''?provider='' @ provider @ '' to check the current status.'')"

text \<open>The model of the first result, for the log.\<close>

definition batch_model :: "batch_result list \<Rightarrow> string" where
  "batch_model rs = (case List.map_filter r_result rs of [] \<Rightarrow> ''batch'' | (m, _) # _ \<Rightarrow> m)"

definition result_json :: "batch_result \<Rightarrow> json" where
  "result_json r = JObj [(''custom_id'', JStr (r_custom_id r)),
     (''result'', case r_result r of None \<Rightarrow> JNull | Some (_, j) \<Rightarrow> j),
     (''error'', case r_error r of None \<Rightarrow> JNull | Some (c, m) \<Rightarrow> JObj [(''code'', c), (''message'', m)])]"

definition retrieve_batch_results :: "pipeline \<Rightarrow> auth_config \<Rightarrow> (string \<Rightarrow> (string, string) result)
    \<Rightarrow> (string \<Rightarrow> string \<Rightarrow> kwargs \<Rightarrow> batch_result list batch_answer) \<Rightarrow> (string, string) dict \<Rightarrow> instant
    \<Rightarrow> string \<Rightarrow> string \<Rightarrow> server \<Rightarrow> server \<times> (pipe_error, json list) result" where
  "retrieve_batch_results P C from_string op hs now bid provider s0 = with_caller C hs now s0 (\<lambda>ko s.
     case resolve_batch_provider (pcfg P) from_string provider of
       Inl e \<Rightarrow> (s, Inl e)
     | Inr (impl, kw) \<Rightarrow> (case op impl bid kw of
         Batch_Ok rs \<Rightarrow> (log_batch_usage P ko (batch_model rs) provider ''/v1/batches/results'' None now s,
           Inr (map result_json rs))
       | Batch_Not_Complete st \<Rightarrow> (s, Inl (Pipe_Http (not_complete bid provider st)))
       | Batch_Http e \<Rightarrow> (s, Inl (Pipe_Http e))
       | Batch_Failed m \<Rightarrow> (s, Inl provider_502)))"

section \<open>Lemmas\<close>

text \<open>The same server with other users, budgets and prices.\<close>

definition with_money :: "(string \<rightharpoonup> user_row) \<Rightarrow> (string \<rightharpoonup> budget_row) \<Rightarrow> model_pricing list \<Rightarrow> server \<Rightarrow> server" where
  "with_money us bs ps s = s\<lparr>sdb := (sdb s)\<lparr>users := us, budgets := bs, pricing := ps\<rparr>\<rparr>"

lemma verify_ignores_money:
  "snd (verify_api_key_or_master_key C (d\<lparr>users := us, budgets := bs, pricing := ps\<rparr>) hs now) =
   snd (verify_api_key_or_master_key C d hs now)"
  by (auto simp: verify_api_key_or_master_key_def verify_and_update_api_key_def split: sum.splits bool.splits option.splits)

text \<open>What follows the authentication answers the same on every server that agrees on the caller.\<close>

lemma with_caller_ignores_money:
  assumes "\<And>ko s s'. snd (k ko s) = snd (k ko s')"
  shows "snd (with_caller C hs now (with_money us bs ps s) k) = snd (with_caller C hs now s k)"
  using verify_ignores_money[where C = C and d = "sdb s" and us = us and bs = bs and ps = ps and hs = hs and now = now] assms
  by (auto simp: with_caller_def in_db_def with_money_def split: prod.splits sum.splits)

lemma with_caller_users:
  assumes "\<And>ko s. users (sdb (fst (k ko s))) = users (sdb s)"
  shows "users (sdb (fst (with_caller C hs now s k))) = users (sdb s)"
  using verify_either_frame(1)[of C "sdb s" hs now] assms
  by (auto simp: with_caller_def in_db_def split: prod.splits sum.splits)

lemma log_batch_users:
  "log_sink (log_put P) \<Longrightarrow> users (sdb (log_batch_usage P ko m p path e now s)) = users (sdb s)"
  by (simp add: log_batch_usage_def log_sink.put_users)

definition admin_request :: "(string, string) dict" where
  "admin_request = [(''Authorization'', ''Bearer '' @ ''root'')]"

section \<open>Properties\<close>

text \<open>Batches pass every budget by. Whether a batch is created, and whether its results are handed out,
  does not depend on the users, budgets and prices in the store: a blocked, deleted or exhausted user
  with a valid key is served like any other, for a model without a price too, and nobody is charged.\<close>

theorem batches_bypass_budgets:
  assumes "log_sink (log_put P)"
  shows "snd (create_batch P C supports op hs now b (with_money us bs ps s)) = snd (create_batch P C supports op hs now b s)
    \<and> users (sdb (fst (create_batch P C supports op hs now b s))) = users (sdb s)
    \<and> snd (retrieve_batch_results P C from_string op2 hs now bid provider (with_money us bs ps s)) =
      snd (retrieve_batch_results P C from_string op2 hs now bid provider s)
    \<and> users (sdb (fst (retrieve_batch_results P C from_string op2 hs now bid provider s))) = users (sdb s)"
  unfolding create_batch_def retrieve_batch_results_def
  by (intro conjI with_caller_ignores_money with_caller_users)
    (auto simp: Let_def log_batch_users[OF assms] split: sum.split batch_answer.split)

definition batch0 :: batch_request where
  "batch0 = \<lparr>b_model = ''local:llama'', b_items = [\<lparr>custom_id = ''1'', item_body = []\<rparr>],
     completion_window = ''24h'', b_metadata = None\<rparr>"

lemma batches_bypass_budgets_witness:
  "snd (create_batch pipeline0 sample_auth (\<lambda>_. True) (\<lambda>_ _ _. Batch_Ok []) admin_request 5 batch0
     (with_money Map.empty Map.empty [] (gw_server gateway0))) = Inr [(''provider'', JStr ''local'')]"
proof -
  have v: "verify_api_key_or_master_key sample_auth d admin_request 5 = (d, Inr (None, True))" for d
    unfolding verify_api_key_or_master_key_def admin_request_def bearer_token
    by (simp add: sample_auth_def is_valid_master_key_def is_ascii_def)
  have r: "resolve_provider_selector (pcfg pipeline0) (b_model batch0) = Inr \<lparr>instance_name = ''local'',
     provider_impl = ''openai'', model_name = ''llama'', call_kwargs = [(''api_key'', JStr ''k'')]\<rparr>"
    using local_resolves by (simp add: batch0_def request0_def)
  have "snd (create_batch pipeline0 sample_auth (\<lambda>_. True) (\<lambda>_ _ _. Batch_Ok []) admin_request 5 batch0
     (gw_server gateway0)) = Inr [(''provider'', JStr ''local'')]"
    by (simp add: create_batch_def with_caller_def in_db_def v r Let_def)
  with batches_bypass_budgets[OF single_put_sink, of sample_auth "\<lambda>_. True" "\<lambda>_ _ _. Batch_Ok []" admin_request 5 batch0
      Map.empty Map.empty "[]" "gw_server gateway0"] show ?thesis by simp
qed

text \<open>The provider named in the answer of a creation finds the batch again: it resolves to the
  implementation and the credentials the batch was created with. Left out is a selector that any-llm
  itself splits into a name under which another implementation is configured.\<close>

theorem batch_provider_found_again:
  assumes "resolve_provider_selector C sel = Inr r"
    and "configured_split C sel \<noteq> None \<or> provider_instance_type C (instance_name r) = instance_name r"
    and "configured_split C sel = None \<longrightarrow> known C (instance_name r) \<and> from_string (instance_name r) = Inr (instance_name r)"
  shows "resolve_batch_provider C from_string (instance_name r) = Inr (provider_impl r, call_kwargs r)"
proof (cases "configured_split C sel")
  case (Some im)
  then obtain i m where im: "configured_split C sel = Some (i, m)" by (cases im) auto
  then have "map_of (providers C) i \<noteq> None"
    by (auto simp: configured_split_def split: option.splits if_splits)
  moreover have "known C (provider_instance_type C i)" "with_kwargs C i (provider_instance_type C i) m = Inr r"
    using assms(1) im by (auto simp: resolve_provider_selector_def split: if_splits)
  ultimately show ?thesis
    by (auto simp: resolve_batch_provider_def with_kwargs_def Let_def split: sum.splits)
next
  case None
  with assms(1) obtain p m where "with_kwargs C p p m = Inr r"
    by (auto simp: resolve_provider_selector_def rbind_eq_Inr)
  then have r: "get_provider_kwargs C p (Some p) = Inr (call_kwargs r)" "instance_name r = p" "provider_impl r = p"
    by (auto simp: with_kwargs_def split: sum.splits)
  moreover have "get_provider_kwargs C p None = get_provider_kwargs C p (Some p)" by (simp add: get_provider_kwargs_def)
  ultimately show ?thesis
    using assms(2,3) None by (simp add: resolve_batch_provider_def Let_def)
qed

lemma batch_provider_found_again_witness:
  "resolve_batch_provider sample_providers (\<lambda>p. Inl p) ''local'' = Inr (''openai'', [(''api_key'', JStr ''k'')])"
proof -
  have c: "configured_split sample_providers ''local/llama'' \<noteq> None"
    by (simp add: configured_split_def split_selector_def sample_providers_def)
  from batch_provider_found_again[OF sample_local, of "\<lambda>p. Inl p"] c show ?thesis by simp
qed

text \<open>Results come back one for one and in order, whether or not they succeeded.\<close>

lemma results_in_order:
  assumes "snd (retrieve_batch_results P C from_string (\<lambda>_ _ _. Batch_Ok rs) hs now bid provider s) = Inr js"
  shows "js = map result_json rs"
  using assms by (auto simp: retrieve_batch_results_def with_caller_def split: prod.splits sum.splits)

end
