(* ===== verification/Encoding.thy ===== *)
theory Encoding
  imports Prelude
begin

text \<open>
  The standard-library encodings the attachment code uses: base64 (\<open>base64.b64encode\<close>, and
  \<open>base64.b64decode\<close> in its default mode, which skips what is not in the alphabet), percent-encoding
  (\<open>urllib.parse.quote\<close> with no safe characters) and ASCII filtering, with the two formats
  built on them: data URLs (\<open>services/content_normalizer.py\<close>) and the \<open>Content-Disposition\<close> header
  (\<open>api/routes/files.py\<close>).

  A character is a byte. Text stands for its UTF-8 encoding, so encoding and decoding UTF-8 is the identity.
\<close>

type_synonym bytes = string

abbreviation ord :: "char \<Rightarrow> nat" where
  "ord c \<equiv> of_char c"

section \<open>Base64\<close>

definition b64_char :: "nat \<Rightarrow> char" where
  "b64_char n = char_of (if n < 26 then n + 65 else if n < 52 then n + 71 else if n < 62 then n - 4
     else if n = 62 then 43 else (47::nat))"

definition b64_value :: "char \<Rightarrow> nat option" where
  "b64_value c = (let n = ord c in
     if 65 \<le> n \<and> n \<le> 90 then Some (n - 65) else if 97 \<le> n \<and> n \<le> 122 then Some (n - 71)
     else if 48 \<le> n \<and> n \<le> 57 then Some (n + 4) else if n = 43 then Some 62
     else if n = 47 then Some 63 else None)"

fun b64encode :: "bytes \<Rightarrow> string" where
  "b64encode [] = []"
| "b64encode [a] = [b64_char (ord a div 4), b64_char (ord a mod 4 * 16), CHR ''='', CHR ''='']"
| "b64encode [a, b] = [b64_char (ord a div 4), b64_char (ord a mod 4 * 16 + ord b div 16),
     b64_char (ord b mod 16 * 4), CHR ''='']"
| "b64encode (a # b # c # s) = b64_char (ord a div 4) # b64_char (ord a mod 4 * 16 + ord b div 16)
     # b64_char (ord b mod 16 * 4 + ord c div 64) # b64_char (ord c mod 64) # b64encode s"

text \<open>
  The decoder keeps the position in the group of four, the padding seen and the bits left over. Padding
  that completes a group ends the input; an incomplete group raises.
\<close>

fun a2b_base64 :: "nat \<Rightarrow> nat \<Rightarrow> nat \<Rightarrow> string \<Rightarrow> bytes option" where
  "a2b_base64 q pads left [] = (if q = 0 then Some [] else None)"
| "a2b_base64 q pads left (c # s) =
     (if c = CHR ''='' then (if q < 2 then a2b_base64 q pads left s
        else if 4 \<le> q + Suc pads then Some [] else a2b_base64 q (Suc pads) left s)
      else (case b64_value c of
          None \<Rightarrow> a2b_base64 q pads left s
        | Some v \<Rightarrow>
            if q = 0 then a2b_base64 1 0 v s
            else if q = 1 then map_option (\<lambda>d. char_of (left * 4 + v div 16) # d) (a2b_base64 2 0 (v mod 16) s)
            else if q = 2 then map_option (\<lambda>d. char_of (left * 16 + v div 4) # d) (a2b_base64 3 0 (v mod 4) s)
            else map_option (\<lambda>d. char_of (left * 64 + v) # d) (a2b_base64 0 0 0 s)))"

definition ascii :: "string \<Rightarrow> bool" where
  "ascii s \<longleftrightarrow> list_all (\<lambda>c. ord c < 128) s"

text \<open>Decoding a text first encodes it as ASCII.\<close>

definition b64decode :: "string \<Rightarrow> bytes option" where
  "b64decode s = (if ascii s then a2b_base64 0 0 0 s else None)"

lemma ord_less: "ord c < 256"
  by simp

lemma b64_value_char: "n < 64 \<Longrightarrow> b64_value (b64_char n) = Some n"
  by (auto simp: b64_value_def b64_char_def Let_def)

lemma b64_char_pad: "n < 64 \<Longrightarrow> b64_char n \<noteq> CHR ''=''"
proof
  assume n: "n < 64" and "b64_char n = CHR ''=''"
  with b64_value_char[OF n] have "b64_value (CHR ''='') = Some n" by simp
  then show False by (simp add: b64_value_def)
qed

lemma b64_char_ord: "n < 64 \<Longrightarrow> ord (b64_char n) < 128"
  by (auto simp: b64_char_def)

text \<open>One character of a group, and the padding.\<close>

lemma a2b_step:
  assumes "v < 64"
  shows "a2b_base64 0 p l (b64_char v # s) = a2b_base64 (Suc 0) 0 v s"
    and "a2b_base64 (Suc 0) p l (b64_char v # s) = map_option (\<lambda>d. char_of (l * 4 + v div 16) # d) (a2b_base64 2 0 (v mod 16) s)"
    and "a2b_base64 2 p l (b64_char v # s) = map_option (\<lambda>d. char_of (l * 16 + v div 4) # d) (a2b_base64 3 0 (v mod 4) s)"
    and "a2b_base64 3 p l (b64_char v # s) = map_option (\<lambda>d. char_of (l * 64 + v) # d) (a2b_base64 0 0 0 s)"
  using b64_value_char[OF assms] b64_char_pad[OF assms] by simp_all

lemma a2b_pad: "a2b_base64 2 0 l ''=='' = Some []" "a2b_base64 3 0 l ''='' = Some []"
  by simp_all

lemma small_div:
  fixes a :: nat
  assumes "a < 256"
  shows "a div 4 < 64" "a div 16 < 16" "a div 64 < 4"
  using assms by (simp_all add: less_mult_imp_div_less)

lemma sextets:
  fixes a b c :: nat
  assumes "a < 256" "b < 256" "c < 256"
  shows "a div 4 < 64" "a mod 4 * 16 < 64" "a mod 4 * 16 + b div 16 < 64"
    "b mod 16 * 4 < 64" "b mod 16 * 4 + c div 64 < 64" "c mod 64 < 64"
proof -
  have "a mod 4 < 4" "b mod 16 < 16" "c mod 64 < 64" by simp_all
  with small_div[OF assms(1)] small_div[OF assms(2)] small_div[OF assms(3)]
  show "a div 4 < 64" "a mod 4 * 16 < 64" "a mod 4 * 16 + b div 16 < 64"
    "b mod 16 * 4 < 64" "b mod 16 * 4 + c div 64 < 64" "c mod 64 < 64" by linarith+
qed

lemma regroup:
  fixes a b c :: nat
  assumes "b < 256" "c < 256"
  shows "a div 4 * 4 + (a mod 4 * 16 + b div 16) div 16 = a"
    "a div 4 * 4 + (a mod 4 * 16) div 16 = a"
    "(a mod 4 * 16 + b div 16) mod 16 * 16 + (b mod 16 * 4 + c div 64) div 4 = b"
    "(a mod 4 * 16 + b div 16) mod 16 * 16 + (b mod 16 * 4) div 4 = b"
    "(b mod 16 * 4 + c div 64) mod 4 * 64 + c mod 64 = c"
proof -
  note b = small_div[OF assms(1)] and c = small_div[OF assms(2)]
  have "(a mod 4 * 16 + b div 16) div 16 = a mod 4" "(a mod 4 * 16 + b div 16) mod 16 = b div 16"
    "(b mod 16 * 4 + c div 64) div 4 = b mod 16" "(b mod 16 * 4 + c div 64) mod 4 = c div 64"
    using b(2) c(3) by simp_all
  then show "a div 4 * 4 + (a mod 4 * 16 + b div 16) div 16 = a"
    "a div 4 * 4 + (a mod 4 * 16) div 16 = a"
    "(a mod 4 * 16 + b div 16) mod 16 * 16 + (b mod 16 * 4 + c div 64) div 4 = b"
    "(a mod 4 * 16 + b div 16) mod 16 * 16 + (b mod 16 * 4) div 4 = b"
    "(b mod 16 * 4 + c div 64) mod 4 * 64 + c mod 64 = c"
    by (simp_all only: nonzero_mult_div_cancel_right div_mult_mod_eq)
qed

lemmas sextet_simps = sextets[OF ord_less ord_less ord_less] regroup[OF ord_less ord_less]

lemma a2b_encode: "a2b_base64 0 0 0 (b64encode d) = Some d"
proof (induction d rule: b64encode.induct)
  case (2 a)
  show ?case by (simp only: b64encode.simps a2b_step a2b_pad sextet_simps) (simp add: sextet_simps)
next
  case (3 a b)
  show ?case by (simp only: b64encode.simps a2b_step a2b_pad sextet_simps) (simp add: sextet_simps)
next
  case (4 a b c s)
  then show ?case by (simp only: b64encode.simps a2b_step a2b_pad sextet_simps) (simp add: sextet_simps)
qed simp

lemma ascii_encode: "ascii (b64encode d)"
  by (induction d rule: b64encode.induct) (simp_all add: ascii_def b64_char_ord sextet_simps)

lemma b64decode_encode [simp]: "b64decode (b64encode d) = Some d"
  by (simp add: b64decode_def ascii_encode a2b_encode)

section \<open>Percent-encoding\<close>

definition hex_digit :: "nat \<Rightarrow> char" where
  "hex_digit n = char_of (if n < 10 then n + 48 else n + 55)"

definition hex_value :: "char \<Rightarrow> nat option" where
  "hex_value c = (let n = ord c in
     if 48 \<le> n \<and> n \<le> 57 then Some (n - 48) else if 65 \<le> n \<and> n \<le> 70 then Some (n - 55)
     else if 97 \<le> n \<and> n \<le> 102 then Some (n - 87) else None)"

definition unreserved :: "char \<Rightarrow> bool" where
  "unreserved c = (let n = ord c in (65 \<le> n \<and> n \<le> 90) \<or> (97 \<le> n \<and> n \<le> 122) \<or> (48 \<le> n \<and> n \<le> 57)
     \<or> n = 95 \<or> n = 46 \<or> n = 45 \<or> n = 126)"

fun quote :: "bytes \<Rightarrow> string" where
  "quote [] = []"
| "quote (c # s) = (if unreserved c then c # quote s
     else CHR ''%'' # hex_digit (ord c div 16) # hex_digit (ord c mod 16) # quote s)"

text \<open>What a reader of the header does (RFC 5987): the reference the encoding is checked against.\<close>

fun unquote :: "string \<Rightarrow> bytes option" where
  "unquote [] = Some []"
| "unquote (c # s) =
     (if c \<noteq> CHR ''%'' then map_option (Cons c) (unquote s)
      else (case s of
          x # y # rest \<Rightarrow> (case (hex_value x, hex_value y) of
              (Some h, Some l) \<Rightarrow> map_option (Cons (char_of (h * 16 + l))) (unquote rest)
            | _ \<Rightarrow> None)
        | _ \<Rightarrow> None))"

definition header_char :: "char \<Rightarrow> bool" where
  "header_char c \<longleftrightarrow> 32 \<le> ord c \<and> ord c < 127"

lemma hex_value_digit: "n < 16 \<Longrightarrow> hex_value (hex_digit n) = Some n"
  by (auto simp: hex_value_def hex_digit_def Let_def)

lemma hex_digit_token: "n < 16 \<Longrightarrow> unreserved (hex_digit n)"
  by (auto simp: unreserved_def hex_digit_def Let_def)

lemma unreserved_percent [simp]: "\<not> unreserved (CHR ''%'')" "\<not> unreserved (CHR 0x22)"
  by (simp_all add: unreserved_def)

lemma ord_halves: "ord c div 16 < 16" "ord c mod 16 < 16"
  using ord_less[of c] by (simp_all add: less_mult_imp_div_less)

lemma unquote_quote: "unquote (quote s) = Some s"
  by (induction s) (auto simp: hex_value_digit ord_halves)

lemma quote_chars: "c \<in> set (quote s) \<Longrightarrow> unreserved c \<or> c = CHR ''%''"
  by (induction s) (auto simp: hex_digit_token ord_halves split: if_splits)

lemma unreserved_header: "unreserved c \<Longrightarrow> header_char c"
  by (auto simp: unreserved_def header_char_def Let_def)

section \<open>Content-Disposition\<close>

text \<open>
  The ASCII name drops every byte that is not printable ASCII (\<open>isprintable\<close>, then
  \<open>encode("ascii", "ignore")\<close>), quotes and backslashes.
\<close>

definition ascii_name :: "string \<Rightarrow> string" where
  "ascii_name f = (let a = py_strip (filter (\<lambda>c. header_char c \<and> c \<notin> {CHR 0x22, CHR 0x5C}) f)
     in if a = [] then ''download'' else a)"

definition content_disposition :: "string \<Rightarrow> string" where
  "content_disposition f = ''attachment; filename='' @ CHR 0x22 # ascii_name f @ CHR 0x22 # ''; filename*=UTF-8''
     @ CHR 0x27 # CHR 0x27 # quote f"

lemma py_strip_subset: "set (py_strip s) \<subseteq> set s"
  by (auto simp: py_strip_def py_rstrip_def py_lstrip_def dest!: set_dropWhileD)

lemma ascii_name_chars:
  "c \<in> set (ascii_name f) \<Longrightarrow> header_char c \<and> c \<noteq> CHR 0x22 \<and> c \<noteq> CHR 0x5C"
  using py_strip_subset[of "filter (\<lambda>c. header_char c \<and> c \<notin> {CHR 0x22, CHR 0x5C}) f"]
  by (auto simp: ascii_name_def Let_def header_char_def split: if_splits)

section \<open>Data URLs\<close>

text \<open>\<open>url[5:].partition(",")\<close>, and the media type before the first semicolon.\<close>

definition partition_at :: "char \<Rightarrow> string \<Rightarrow> string \<times> string" where
  "partition_at c s = (case split_once c s of None \<Rightarrow> (s, []) | Some ab \<Rightarrow> ab)"

definition before_first :: "char \<Rightarrow> string \<Rightarrow> string" where
  "before_first c s = fst (partition_at c s)"

definition decode_data_url :: "string \<Rightarrow> bytes option \<times> string" where
  "decode_data_url url =
     (if \<not> starts_with ''data:'' url then (None, [])
      else (case partition_at (CHR '','') (drop 5 url) of (header, payload) \<Rightarrow>
        (let m = before_first (CHR '';'') header;
             mime = (if m = [] then ''application/octet-stream'' else m)
         in if \<not> contains ''base64'' header then (Some payload, mime)
            else (b64decode payload, mime))))"

definition to_data_url :: "bytes \<Rightarrow> string \<Rightarrow> string" where
  "to_data_url d mime = ''data:'' @ mime @ '';base64,'' @ b64encode d"

lemma partition_at_append: "c \<notin> set a \<Longrightarrow> partition_at c (a @ c # b) = (a, b)"
  by (simp add: partition_at_def split_once_append)

text \<open>A media type without commas, whatever its parameters, leaves the bytes readable.\<close>

lemma decode_data_url_base64:
  assumes "CHR '','' \<notin> set mime"
  shows "decode_data_url (''data:'' @ mime @ '';base64,'' @ payload) = (b64decode payload,
    if before_first (CHR '';'') mime = [] then ''application/octet-stream'' else before_first (CHR '';'') mime)"
proof -
  let ?h = "mime @ '';base64''"
  have p: "partition_at (CHR '','') (?h @ CHR '','' # payload) = (?h, payload)"
    by (rule partition_at_append) (use assms in auto)
  have b: "before_first (CHR '';'') ?h = before_first (CHR '';'') mime"
  proof (cases "split_once (CHR '';'') mime")
    case None
    then have "CHR '';'' \<notin> set mime" by (simp add: split_once_None)
    from partition_at_append[OF this, of "''base64''"] None show ?thesis
      by (simp add: before_first_def partition_at_def)
  next
    case (Some ab)
    then obtain a b where ab: "mime = a @ CHR '';'' # b" "CHR '';'' \<notin> set a"
      by (cases ab) (auto dest: split_once_SomeD)
    then show ?thesis using partition_at_append[OF ab(2)] by (simp add: before_first_def)
  qed
  have "contains ''base64'' ?h"
    unfolding contains_iff by (rule exI[of _ "mime @ '';''"], rule exI[of _ "[]"]) simp
  with p b show ?thesis by (simp add: decode_data_url_def starts_with_def Let_def)
qed

lemma decode_data_url_roundtrip:
  assumes "CHR '','' \<notin> set mime"
  shows "fst (decode_data_url (to_data_url d mime)) = Some d"
  using decode_data_url_base64[OF assms, of "b64encode d"] by (simp add: to_data_url_def)

section \<open>Properties\<close>

text \<open>The download header cannot be injected into. Whatever name a file was uploaded with, the header value is
  printable ASCII (no line break ends it) in which the quoted name holds no quote and no backslash, so
  nothing follows it but the extended name, which decodes to exactly the uploaded name.\<close>

theorem download_header_is_safe:
  "\<exists>a e. content_disposition f = ''attachment; filename='' @ CHR 0x22 # a @ CHR 0x22 # ''; filename*=UTF-8''
       @ CHR 0x27 # CHR 0x27 # e
     \<and> a \<noteq> [] \<and> CHR 0x22 \<notin> set a \<and> CHR 0x5C \<notin> set a \<and> CHR 0x22 \<notin> set e \<and> unquote e = Some f
     \<and> list_all header_char (content_disposition f)"
proof (intro exI conjI)
  show "content_disposition f = ''attachment; filename='' @ CHR 0x22 # ascii_name f @ CHR 0x22
       # ''; filename*=UTF-8'' @ CHR 0x27 # CHR 0x27 # quote f"
    by (simp add: content_disposition_def)
  show "ascii_name f \<noteq> []" by (simp add: ascii_name_def Let_def)
  show "CHR 0x22 \<notin> set (ascii_name f)" "CHR 0x5C \<notin> set (ascii_name f)" using ascii_name_chars by blast+
  show "CHR 0x22 \<notin> set (quote f)" using quote_chars[of "CHR 0x22" f] by auto
  show "unquote (quote f) = Some f" by (rule unquote_quote)
  have "header_char (CHR ''%'')" by (simp add: header_char_def)
  then have q: "list_all header_char (quote f)"
    using quote_chars[of _ f] unreserved_header unfolding list_all_iff by blast
  have a: "list_all header_char (ascii_name f)" using ascii_name_chars by (auto simp: list_all_iff)
  show "list_all header_char (content_disposition f)"
    by (simp add: content_disposition_def a q) (simp add: header_char_def)
qed

end
