(* ===== verification/Files.thy ===== *)
theory Files
  imports Direct_Routes Dispatch Encoding
begin

text \<open>
  Uploaded files: the blob backend (\<open>services/file_store.py\<close>), the shared lookup
  (\<open>services/file_service.py\<close>) and the \<open>/v1/files\<close> routes (\<open>api/routes/files.py\<close>).

  The \<open>FileStore\<close> protocol is a record of operations on a backend state; the locale \<open>blob_store\<close> states
  what the routes rely on and is interpreted on \<open>LocalDirFileStore\<close>. The file system is a map from
  absolute normalised paths to contents, without symbolic links, in which an operation may fail with an
  \<open>OSError\<close> that changes nothing (\<open>io_faults\<close>). A fresh \<open>uuid4\<close> is an argument, and \<open>mimetypes\<close> is the
  parameter \<open>guess_type\<close>.
\<close>

section \<open>The blob backend\<close>

datatype io_error = Escapes_Root string | File_Not_Found | OS_Error

record 'd file_store =
  store_put :: "string \<Rightarrow> bytes \<Rightarrow> 'd \<Rightarrow> 'd \<times> (io_error, string) result"
  store_get :: "string \<Rightarrow> 'd \<Rightarrow> 'd \<times> (io_error, bytes) result"
  store_delete :: "string \<Rightarrow> 'd \<Rightarrow> 'd \<times> (io_error, unit) result"

record disk =
  blobs :: "string list \<rightharpoonup> bytes"
  io_faults :: "bool list"

definition disk_op :: "disk \<Rightarrow> (disk \<Rightarrow> disk \<times> (io_error, 'a) result) \<Rightarrow> disk \<times> (io_error, 'a) result" where
  "disk_op d f = (case io_faults d of
       True # fs \<Rightarrow> (d\<lparr>io_faults := fs\<rparr>, Inl OS_Error) | _ \<Rightarrow> f (d\<lparr>io_faults := drop 1 (io_faults d)\<rparr>))"

text \<open>\<open>_shard\<close>: the first two characters after the first dash name the directory.\<close>

definition shard :: "string \<Rightarrow> string" where
  "shard i = (let token = (case split_once (CHR ''-'') i of None \<Rightarrow> i | Some (_, b) \<Rightarrow> if b = [] then i else b);
       prefix = py_lower (if take 2 token = [] then ''00'' else take 2 token)
     in prefix @ ''/'' @ i)"

text \<open>\<open>Path.resolve\<close> on the segments of a path; the first argument is the directory so far, innermost first.\<close>

fun normal_path :: "string list \<Rightarrow> string list \<Rightarrow> string list" where
  "normal_path up [] = rev up"
| "normal_path up (p # ps) = normal_path (if p = [] \<or> p = ''.'' then up else if p = ''..'' then tl up else p # up) ps"

text \<open>An absolute reference replaces the root, as \<open>root / ref\<close> does.\<close>

definition resolve_ref :: "string list \<Rightarrow> string \<Rightarrow> (io_error, string list) result" where
  "resolve_ref base ref = (let p = normal_path (if starts_with ''/'' ref then [] else rev base) (split_all (CHR ''/'') ref)
     in if take (length base) p = base then Inr p else Inl (Escapes_Root ref))"

definition local_put :: "string list \<Rightarrow> string \<Rightarrow> bytes \<Rightarrow> disk \<Rightarrow> disk \<times> (io_error, string) result" where
  "local_put base i x d = (case resolve_ref base (shard i) of
       Inl e \<Rightarrow> (d, Inl e)
     | Inr p \<Rightarrow> disk_op d (\<lambda>d. (d\<lparr>blobs := (blobs d)(p \<mapsto> x)\<rparr>, Inr (shard i))))"

definition local_get :: "string list \<Rightarrow> string \<Rightarrow> disk \<Rightarrow> disk \<times> (io_error, bytes) result" where
  "local_get base ref d = (case resolve_ref base ref of
       Inl e \<Rightarrow> (d, Inl e)
     | Inr p \<Rightarrow> disk_op d (\<lambda>d. (d, case blobs d p of None \<Rightarrow> Inl File_Not_Found | Some x \<Rightarrow> Inr x)))"

definition local_delete :: "string list \<Rightarrow> string \<Rightarrow> disk \<Rightarrow> disk \<times> (io_error, unit) result" where
  "local_delete base ref d = (case resolve_ref base ref of
       Inl e \<Rightarrow> (d, Inl e)
     | Inr p \<Rightarrow> disk_op d (\<lambda>d. (d\<lparr>blobs := (blobs d)(p := None)\<rparr>, Inr ())))"

definition local_dir_store :: "string list \<Rightarrow> disk file_store" where
  "local_dir_store base = \<lparr>store_put = local_put base, store_get = local_get base, store_delete = local_delete base\<rparr>"

definition build_file_store :: "string \<Rightarrow> string list \<Rightarrow> (string, disk file_store) result" where
  "build_file_store backend base = (if py_lower (py_strip backend) = ''local'' then Inr (local_dir_store base)
     else Inl (''Unsupported files_backend: '' @ quoted backend @ '' (supported: '' @ quoted ''local'' @ '')''))"

section \<open>Rows and lookup\<close>

record file_row =
  file_id :: string
  file_user :: string
  file_name :: string
  mime_type :: string
  byte_count :: nat
  file_purpose :: string
  storage_ref :: string
  file_created :: instant
  file_expires :: "instant option"
  file_deleted :: "instant option"

record 'd file_server =
  file_db :: db
  file_rows :: "file_row list"
  file_disk :: 'd

definition is_expired :: "file_row \<Rightarrow> instant \<Rightarrow> bool" where
  "is_expired r now = (case file_expires r of None \<Rightarrow> False | Some e \<Rightarrow> e < now)"

definition fetch_file :: "file_row list \<Rightarrow> string \<Rightarrow> string option \<Rightarrow> instant \<Rightarrow> file_row option" where
  "fetch_file rs i u now =
     (case find (\<lambda>r. file_id r = i \<and> Some (file_user r) = u \<and> file_deleted r = None) rs of
        None \<Rightarrow> None | Some r \<Rightarrow> if is_expired r now then None else Some r)"

section \<open>The routes\<close>

record file_config =
  files_enabled :: bool
  files_max_bytes :: nat
  files_retention_hours :: "int option"
  guess_type :: "string \<Rightarrow> string option"

record upload =
  up_name :: "string option"
  up_type :: "string option"
  up_data :: bytes

definition file_errors :: user_errors where
  "file_errors =
     \<lparr>master_key_error = http_error 400 (''When using master key, '' @ quoted ''user'' @ '' field is required''),
      no_api_key_error = http_error 500 ''API key validation failed'',
      no_user_error = http_error 500 ''API key has no associated user'',
      forbidden_user_error = http_error 403
        (quoted ''user'' @ '' field does not match the authenticated API key'' @ [CHR 0x27] @ ''s user'')\<rparr>"

text \<open>The dependency, the feature switch and \<open>_resolve_user\<close>, which every route starts with.\<close>

definition file_caller :: "file_config \<Rightarrow> auth_config \<Rightarrow> (string, string) dict \<Rightarrow> string option \<Rightarrow> instant \<Rightarrow> db
    \<Rightarrow> db \<times> (pipe_error, string) result" where
  "file_caller F C hs user now d = (case verify_api_key_or_master_key C d hs now of
       (d1, Inl e) \<Rightarrow> (d1, Inl (auth_pipe_error e))
     | (d1, Inr (ko, is_master)) \<Rightarrow>
         (d1, if \<not> files_enabled F then Inl (Pipe_Http (http_error 404 ''File uploads are disabled''))
          else (case resolve_user_id file_errors user ko is_master True of
              Inl e \<Rightarrow> Inl (Pipe_Http e) | Inr u \<Rightarrow> Inr u)))"

definition with_file_user :: "file_config \<Rightarrow> auth_config \<Rightarrow> (string, string) dict \<Rightarrow> string option \<Rightarrow> instant
    \<Rightarrow> 'd file_server \<Rightarrow> (string \<Rightarrow> 'd file_server \<Rightarrow> 'd file_server \<times> (pipe_error, 'a) result)
    \<Rightarrow> 'd file_server \<times> (pipe_error, 'a) result" where
  "with_file_user F C hs user now st k = (case file_caller F C hs user now (file_db st) of
       (d, Inl e) \<Rightarrow> (st\<lparr>file_db := d\<rparr>, Inl e) | (d, Inr u) \<Rightarrow> k u (st\<lparr>file_db := d\<rparr>))"

definition read_chunk_bytes :: nat where
  "read_chunk_bytes = 1024 * 1024"

text \<open>
  \<open>_read_capped\<close>: reads of at most \<open>n\<close> bytes until one is empty or the sum passes the limit. The first
  component counts the bytes taken from the upload.
\<close>

function read_chunks :: "nat \<Rightarrow> nat \<Rightarrow> nat \<Rightarrow> bytes \<Rightarrow> nat \<times> bytes option" where
  "read_chunks n cap seen rest = (let c = take n rest; seen' = seen + length c in
     if c = [] then (seen, Some []) else if cap < seen' then (seen', None)
     else (case read_chunks n cap seen' (drop n rest) of (r, x) \<Rightarrow> (r, map_option (append c) x)))"
  by pat_completeness auto
termination by (relation "measure (\<lambda>(n, cap, seen, rest). length rest)") auto

declare read_chunks.simps [simp del]

definition read_upload :: "nat \<Rightarrow> bytes \<Rightarrow> (http_exception, bytes) result" where
  "read_upload cap x = (case snd (read_chunks read_chunk_bytes cap 0 x) of
       None \<Rightarrow> Inl (http_error 413 (''File exceeds maximum upload size of '' @ str_nat (cap div (1024 * 1024)) @ '' MB''))
     | Some d \<Rightarrow> Inr d)"

definition octet_stream :: string where
  "octet_stream = ''application/octet-stream''"

definition guess_mime :: "file_config \<Rightarrow> string option \<Rightarrow> string option \<Rightarrow> string" where
  "guess_mime F name declared =
     (if given declared \<and> declared \<noteq> Some octet_stream then the declared
      else (case (if given name then guess_type F (the name) else None) of
          Some t \<Rightarrow> if t = [] then octet_stream else t
        | None \<Rightarrow> if given declared then the declared else octet_stream))"

definition default_purpose :: string where
  "default_purpose = ''user_data''"

definition microseconds_per_hour :: int where
  "microseconds_per_hour = 3600 * 1000000"

definition new_file :: "file_config \<Rightarrow> string \<Rightarrow> upload \<Rightarrow> string \<Rightarrow> bytes \<Rightarrow> string \<Rightarrow> string \<Rightarrow> instant \<Rightarrow> instant \<Rightarrow> file_row" where
  "new_file F u up purpose x i ref t1 t2 =
     \<lparr>file_id = i, file_user = u, file_name = (if given (up_name up) then the (up_name up) else i),
      mime_type = guess_mime F (up_name up) (up_type up), byte_count = length x,
      file_purpose = (if purpose = [] then default_purpose else purpose), storage_ref = ref, file_created = t2,
      file_expires = map_option (\<lambda>h. t1 + h * microseconds_per_hour) (files_retention_hours F), file_deleted = None\<rparr>"

text \<open>The insert violates the primary key or the foreign key to the user, or the commit fails.\<close>

definition commit_rows :: "bool \<Rightarrow> file_row list \<Rightarrow> 'd file_server \<Rightarrow> 'd file_server \<times> bool" where
  "commit_rows allowed rs st =
     (if \<not> allowed then (st\<lparr>file_db := (file_db st)\<lparr>faults := drop 1 (faults (file_db st))\<rparr>\<rparr>, False)
      else (case commit (file_db st) (file_db st) of
          (d, ok) \<Rightarrow> (st\<lparr>file_db := d, file_rows := (if ok then rs else file_rows st)\<rparr>, ok)))"

definition insert_allowed :: "'d file_server \<Rightarrow> file_row \<Rightarrow> bool" where
  "insert_allowed st r \<longleftrightarrow> users (file_db st) (file_user r) \<noteq> None \<and> file_id r \<notin> file_id ` set (file_rows st)"

definition store_upload :: "'d file_store \<Rightarrow> file_config \<Rightarrow> string \<Rightarrow> upload \<Rightarrow> string \<Rightarrow> (nat \<Rightarrow> instant) \<Rightarrow> string \<Rightarrow> bytes
    \<Rightarrow> 'd file_server \<Rightarrow> 'd file_server \<times> (pipe_error, file_row) result" where
  "store_upload S F u up purpose now i x st = (case store_put S i x (file_disk st) of
       (k, Inl e) \<Rightarrow> (st\<lparr>file_disk := k\<rparr>, Inl Pipe_Crash)
     | (k, Inr ref) \<Rightarrow>
         (let st1 = st\<lparr>file_disk := k\<rparr>; r = new_file F u up purpose x i ref (now 1) (now 2)
          in case commit_rows (insert_allowed st1 r) (file_rows st1 @ [r]) st1 of
              (st2, True) \<Rightarrow> (st2, Inr r)
            | (st2, False) \<Rightarrow> (case store_delete S ref (file_disk st2) of
                (k2, Inl e) \<Rightarrow> (st2\<lparr>file_disk := k2\<rparr>, Inl Pipe_Crash)
              | (k2, Inr _) \<Rightarrow> (st2\<lparr>file_disk := k2\<rparr>, Inl (Pipe_Http (http_error 500 ''Failed to store file''))))))"

definition create_file :: "'d file_store \<Rightarrow> file_config \<Rightarrow> auth_config \<Rightarrow> (string, string) dict \<Rightarrow> string option \<Rightarrow> upload
    \<Rightarrow> string \<Rightarrow> (nat \<Rightarrow> instant) \<Rightarrow> string \<Rightarrow> 'd file_server \<Rightarrow> 'd file_server \<times> (pipe_error, file_row) result" where
  "create_file S F C hs user up purpose now i st0 = with_file_user F C hs user (now 0) st0 (\<lambda>u st.
     case read_upload (files_max_bytes F) (up_data up) of
       Inl e \<Rightarrow> (st, Inl (Pipe_Http e))
     | Inr x \<Rightarrow> if x = [] then (st, Inl (Pipe_Http (http_error 400 ''Uploaded file is empty'')))
         else store_upload S F u up purpose now i x st)"

definition list_files :: "file_config \<Rightarrow> auth_config \<Rightarrow> (string, string) dict \<Rightarrow> string option \<Rightarrow> string option
    \<Rightarrow> (nat \<Rightarrow> instant) \<Rightarrow> 'd file_server \<Rightarrow> 'd file_server \<times> (pipe_error, file_row list) result" where
  "list_files F C hs user purpose now st0 = with_file_user F C hs user (now 0) st0 (\<lambda>u st.
     (st, Inr (sort_key (\<lambda>r. - file_created r)
       (filter (\<lambda>r. file_user r = u \<and> file_deleted r = None \<and> (purpose = None \<or> purpose = Some (file_purpose r)))
         (file_rows st)))))"

definition no_file :: pipe_error where
  "no_file = Pipe_Http (http_error 404 ''File not found'')"

definition get_file :: "file_config \<Rightarrow> auth_config \<Rightarrow> (string, string) dict \<Rightarrow> string option \<Rightarrow> (nat \<Rightarrow> instant)
    \<Rightarrow> string \<Rightarrow> 'd file_server \<Rightarrow> 'd file_server \<times> (pipe_error, file_row) result" where
  "get_file F C hs user now i st0 = with_file_user F C hs user (now 0) st0 (\<lambda>u st.
     (st, case fetch_file (file_rows st) i (Some u) (now 1) of None \<Rightarrow> Inl no_file | Some r \<Rightarrow> Inr r))"

text \<open>The bytes, the media type and the \<open>Content-Disposition\<close> header.\<close>

definition get_file_content :: "'d file_store \<Rightarrow> file_config \<Rightarrow> auth_config \<Rightarrow> (string, string) dict \<Rightarrow> string option
    \<Rightarrow> (nat \<Rightarrow> instant) \<Rightarrow> string \<Rightarrow> 'd file_server
    \<Rightarrow> 'd file_server \<times> (pipe_error, bytes \<times> string \<times> string) result" where
  "get_file_content S F C hs user now i st0 = with_file_user F C hs user (now 0) st0 (\<lambda>u st.
     case fetch_file (file_rows st) i (Some u) (now 1) of
       None \<Rightarrow> (st, Inl no_file)
     | Some r \<Rightarrow> (case store_get S (storage_ref r) (file_disk st) of
           (k, Inl e) \<Rightarrow> (st\<lparr>file_disk := k\<rparr>, Inl Pipe_Crash)
         | (k, Inr x) \<Rightarrow> (st\<lparr>file_disk := k\<rparr>, Inr (x, mime_type r, content_disposition (file_name r)))))"

definition mark_deleted :: "string \<Rightarrow> instant \<Rightarrow> file_row list \<Rightarrow> file_row list" where
  "mark_deleted i now = map (\<lambda>r. if file_id r = i then r\<lparr>file_deleted := Some now\<rparr> else r)"

definition is_os_error :: "io_error \<Rightarrow> bool" where
  "is_os_error e = (case e of Escapes_Root _ \<Rightarrow> False | _ \<Rightarrow> True)"

definition delete_file :: "'d file_store \<Rightarrow> file_config \<Rightarrow> auth_config \<Rightarrow> (string, string) dict \<Rightarrow> string option
    \<Rightarrow> (nat \<Rightarrow> instant) \<Rightarrow> string \<Rightarrow> 'd file_server \<Rightarrow> 'd file_server \<times> (pipe_error, unit) result" where
  "delete_file S F C hs user now i st0 = with_file_user F C hs user (now 0) st0 (\<lambda>u st.
     case fetch_file (file_rows st) i (Some u) (now 1) of
       None \<Rightarrow> (st, Inl no_file)
     | Some r \<Rightarrow> (case commit_rows True (mark_deleted i (now 2) (file_rows st)) st of
           (st1, False) \<Rightarrow> (st1, Inl (Pipe_Http (http_error 500 ''Failed to delete file'')))
         | (st1, True) \<Rightarrow> (case store_delete S (storage_ref r) (file_disk st1) of
               (k, Inl e) \<Rightarrow> (st1\<lparr>file_disk := k\<rparr>, if is_os_error e then Inr () else Inl Pipe_Crash)
             | (k, Inr _) \<Rightarrow> (st1\<lparr>file_disk := k\<rparr>, Inr ()))))"

section \<open>What the routes need of a backend\<close>

text \<open>
  \<open>held d i\<close> is what the backend holds for the file \<open>i\<close>, \<open>good\<close> the ids the routes generate, \<open>ref_of\<close> the
  reference the backend hands out for an id.
\<close>

locale blob_store =
  fixes S :: "'d file_store" and held :: "'d \<Rightarrow> string \<Rightarrow> bytes option"
    and good :: "string \<Rightarrow> bool" and ref_of :: "string \<Rightarrow> string"
  assumes put_held: "good i \<Longrightarrow> good j \<Longrightarrow> held (fst (store_put S i x d)) j =
      (if isl (snd (store_put S i x d)) \<or> j \<noteq> i then held d j else Some x)"
    and put_ref: "good i \<Longrightarrow> store_put S i x d = (d', Inr r) \<Longrightarrow> r = ref_of i"
    and get_held: "good i \<Longrightarrow> store_get S (ref_of i) d = (d', Inr x) \<Longrightarrow> held d i = Some x"
    and get_keeps: "good i \<Longrightarrow> good j \<Longrightarrow> held (fst (store_get S (ref_of i) d)) j = held d j"
    and delete_held: "good i \<Longrightarrow> good j \<Longrightarrow> held (fst (store_delete S (ref_of i) d)) j =
      (if isl (snd (store_delete S (ref_of i) d)) \<or> j \<noteq> i then held d j else None)"
    and delete_error: "good i \<Longrightarrow> store_delete S (ref_of i) d = (d', Inl e) \<Longrightarrow> is_os_error e"

text \<open>Every row has an id of its own and its reference, and a live row has its bytes.\<close>

definition files_ok :: "('d \<Rightarrow> string \<Rightarrow> bytes option) \<Rightarrow> (string \<Rightarrow> bool) \<Rightarrow> (string \<Rightarrow> string) \<Rightarrow> 'd file_server \<Rightarrow> bool" where
  "files_ok held good ref_of st \<longleftrightarrow> distinct (map file_id (file_rows st)) \<and>
     (\<forall>r \<in> set (file_rows st). good (file_id r) \<and> storage_ref r = ref_of (file_id r)
       \<and> (file_deleted r = None \<longrightarrow> held (file_disk st) (file_id r) \<noteq> None))"

text \<open>The abstract state: the live files with owner, expiry and bytes.\<close>

definition file_view :: "('d \<Rightarrow> string \<Rightarrow> bytes option) \<Rightarrow> 'd file_server \<Rightarrow> string \<rightharpoonup> string \<times> instant option \<times> bytes" where
  "file_view held st i = (case find (\<lambda>r. file_id r = i \<and> file_deleted r = None) (file_rows st) of
       None \<Rightarrow> None | Some r \<Rightarrow> map_option (\<lambda>x. (file_user r, file_expires r, x)) (held (file_disk st) i))"

lemma find_by_id:
  "distinct (map file_id rs) \<Longrightarrow>
    find (\<lambda>r. file_id r = i \<and> P r) rs = Some r \<longleftrightarrow> r \<in> set rs \<and> file_id r = i \<and> P r"
  by (induction rs) (auto simp: image_iff)

lemma fetch_file_Some: "fetch_file rs i u now = Some r \<longleftrightarrow>
    find (\<lambda>r. file_id r = i \<and> Some (file_user r) = u \<and> file_deleted r = None) rs = Some r \<and> \<not> is_expired r now"
  by (auto simp: fetch_file_def split: option.splits)

lemma fetch_file_iff:
  "distinct (map file_id rs) \<Longrightarrow> fetch_file rs i (Some u) now = Some r \<longleftrightarrow>
    r \<in> set rs \<and> file_id r = i \<and> file_user r = u \<and> file_deleted r = None \<and> \<not> is_expired r now"
  unfolding fetch_file_Some by (subst find_by_id) auto

lemma file_view_Some: "file_view held st i = Some (u, e, x) \<longleftrightarrow>
    (\<exists>r. find (\<lambda>r. file_id r = i \<and> file_deleted r = None) (file_rows st) = Some r \<and> file_user r = u \<and> file_expires r = e
      \<and> held (file_disk st) i = Some x)"
  by (auto simp: file_view_def split: option.splits)

lemma file_view_iff:
  "distinct (map file_id (file_rows st)) \<Longrightarrow> file_view held st i = Some (u, e, x) \<longleftrightarrow>
    (\<exists>r \<in> set (file_rows st). file_id r = i \<and> file_deleted r = None \<and> file_user r = u \<and> file_expires r = e
      \<and> held (file_disk st) i = Some x)"
  unfolding file_view_Some by (subst find_by_id) auto

lemma find_id_in: "find (\<lambda>r. file_id r = i \<and> P r) rs = Some r \<Longrightarrow> i \<in> file_id ` set rs"
  by (auto simp: find_Some_iff)

lemma file_view_cong:
  assumes "file_rows st' = file_rows st"
    and "\<And>j. j \<in> file_id ` set (file_rows st) \<Longrightarrow> held (file_disk st') j = held (file_disk st) j"
  shows "file_view held st' = file_view held st"
  using assms find_id_in[of _ "\<lambda>r. file_deleted r = None" "file_rows st"]
  by (intro ext) (auto simp: file_view_def split: option.splits)

lemma files_ok_cong:
  "file_rows st' = file_rows st \<Longrightarrow> (\<And>j. j \<in> file_id ` set (file_rows st) \<Longrightarrow> held (file_disk st') j = held (file_disk st) j)
    \<Longrightarrow> files_ok held good ref_of st' = files_ok held good ref_of st"
  by (auto simp: files_ok_def)

lemma with_file_userE:
  assumes "with_file_user F C hs user now st k = (st', x)"
  obtains (denied) d e where "file_caller F C hs user now (file_db st) = (d, Inl e)" "st' = st\<lparr>file_db := d\<rparr>" "x = Inl e"
  | (user) d u where "file_caller F C hs user now (file_db st) = (d, Inr u)" "k u (st\<lparr>file_db := d\<rparr>) = (st', x)"
  using assms by (auto simp: with_file_user_def split: prod.splits sum.splits)

lemma commit_rows_eff:
  "commit_rows allowed rs st = (st', ok) \<Longrightarrow> file_disk st' = file_disk st
    \<and> file_rows st' = (if ok then rs else file_rows st) \<and> (ok \<longrightarrow> allowed)"
  by (auto simp: commit_rows_def commit_def split: if_splits prod.splits list.splits)

lemma read_chunks_sound:
  "0 < n \<Longrightarrow> snd (read_chunks n cap seen x) = (if seen + length x \<le> cap \<or> x = [] then Some x else None)"
proof (induction n cap seen x rule: read_chunks.induct)
  case (1 n cap seen x)
  show ?case
  proof (cases "x = []")
    case False
    with 1(2) have c: "take n x \<noteq> []" by simp
    have "snd (read_chunks n cap seen x) = (if cap < seen + length (take n x) then None
        else map_option (append (take n x)) (snd (read_chunks n cap (seen + length (take n x)) (drop n x))))"
      using c by (subst read_chunks.simps) (simp add: Let_def split: prod.splits)
    also have "\<dots> = (if seen + length x \<le> cap then Some x else None)"
    proof (cases "cap < seen + length (take n x)")
      case True
      then show ?thesis by auto
    next
      case room: False
      from 1(1)[OF refl refl c this 1(2)]
      have "snd (read_chunks n cap (seen + length (take n x)) (drop n x)) =
        (if seen + length (take n x) + length (drop n x) \<le> cap \<or> drop n x = [] then Some (drop n x) else None)" .
      moreover have "seen + length (take n x) + length (drop n x) = seen + length x" by (cases "n \<le> length x") auto
      ultimately show ?thesis using room by auto
    qed
    finally show ?thesis using False by simp
  qed (simp add: read_chunks.simps)
qed

lemma read_chunks_bound: "seen \<le> cap \<Longrightarrow> fst (read_chunks n cap seen x) \<le> cap + n"
proof (induction n cap seen x rule: read_chunks.induct)
  case (1 n cap seen x)
  have step: "fst (read_chunks n cap seen x) = (if take n x = [] then seen
      else if cap < seen + length (take n x) then seen + length (take n x)
      else fst (read_chunks n cap (seen + length (take n x)) (drop n x)))"
    by (subst read_chunks.simps) (simp add: Let_def split: prod.split)
  show ?case
  proof (cases "take n x = [] \<or> cap < seen + length (take n x)")
    case True
    with 1(2) show ?thesis unfolding step by auto
  next
    case False
    then have "fst (read_chunks n cap (seen + length (take n x)) (drop n x)) \<le> cap + n"
      by (intro 1(1)[OF refl refl]) auto
    with False show ?thesis unfolding step by simp
  qed
qed

lemma read_upload_Inr: "read_upload cap x = Inr d \<Longrightarrow> d = x \<and> (x = [] \<or> length x \<le> cap)"
  by (auto simp: read_upload_def read_chunks_sound read_chunk_bytes_def split: option.splits if_splits)

section \<open>The routes over any backend\<close>

context blob_store begin

lemma store_upload_eff:
  assumes "store_upload S F u up purpose now i x st = (st', res)" "good i"
  obtains (stored) r where "res = Inr r" "r = new_file F u up purpose x i (ref_of i) (now 1) (now 2)"
      "file_rows st' = file_rows st @ [r]" "\<And>j. good j \<Longrightarrow> held (file_disk st') j = (if j = i then Some x else held (file_disk st) j)"
      "i \<notin> file_id ` set (file_rows st)"
  | (failed) e where "res = Inl e" "file_rows st' = file_rows st"
      "\<And>j. good j \<Longrightarrow> j \<noteq> i \<Longrightarrow> held (file_disk st') j = held (file_disk st) j"
proof -
  obtain k w where k: "store_put S i x (file_disk st) = (k, w)" by fastforce
  note put = put_held[OF assms(2), where x = x and d = "file_disk st", unfolded k fst_conv snd_conv]
  show thesis
  proof (cases w)
    case (Inl e)
    with assms(1) k put show thesis by (intro failed[of Pipe_Crash]) (auto simp: store_upload_def)
  next
    case (Inr ref)
    with put_ref[OF assms(2)] k have ref: "ref = ref_of i" by blast
    let ?st1 = "st\<lparr>file_disk := k\<rparr>"
    let ?r = "new_file F u up purpose x i (ref_of i) (now 1) (now 2)"
    obtain st2 ok where st2: "commit_rows (insert_allowed ?st1 ?r) (file_rows ?st1 @ [?r]) ?st1 = (st2, ok)" by fastforce
    note eff = commit_rows_eff[OF st2]
    show thesis
    proof (cases ok)
      case True
      with assms(1) k Inr ref st2 have "st' = st2" "res = Inr ?r" by (simp_all add: store_upload_def Let_def)
      with eff True put Inr show thesis
        by (intro stored[of ?r]) (auto simp: insert_allowed_def new_file_def)
    next
      case False
      obtain k2 w2 where k2: "store_delete S (ref_of i) k = (k2, w2)" by fastforce
      from assms(1) k Inr ref st2 False eff k2 obtain e where "st' = st2\<lparr>file_disk := k2\<rparr>" "res = Inl e"
        by (auto simp: store_upload_def Let_def split: sum.splits)
      with eff False put Inr delete_held[OF assms(2), where d = k] k2 show thesis
        by (intro failed[of e]) auto
    qed
  qed
qed

lemma create_eff:
  assumes "create_file S F C hs user up purpose now i st = (st', res)" "good i"
  obtains (created) u r where "snd (file_caller F C hs user (now 0) (file_db st)) = Inr u" "res = Inr r"
      "r = new_file F u up purpose (up_data up) i (ref_of i) (now 1) (now 2)"
      "file_rows st' = file_rows st @ [r]" "i \<notin> file_id ` set (file_rows st)"
      "\<And>j. good j \<Longrightarrow> held (file_disk st') j = (if j = i then Some (up_data up) else held (file_disk st) j)"
  | (refused) e where "res = Inl e" "file_rows st' = file_rows st"
      "\<And>j. good j \<Longrightarrow> j \<noteq> i \<Longrightarrow> held (file_disk st') j = held (file_disk st) j"
proof -
  from assms(1) show thesis
    unfolding create_file_def
  proof (cases rule: with_file_userE)
    case (denied d e)
    then show thesis by (intro refused[of e]) auto
  next
    case (user d u)
    show thesis
    proof (cases "read_upload (files_max_bytes F) (up_data up)")
      case (Inl e)
      with user show thesis by (intro refused) auto
    next
      case (Inr x)
      show thesis
      proof (cases "x = []")
        case True
        with user Inr show thesis by (intro refused) auto
      next
        case False
        with user Inr have u: "store_upload S F u up purpose now i x (st\<lparr>file_db := d\<rparr>) = (st', res)" by simp
        from read_upload_Inr[OF Inr] have x: "x = up_data up" by simp
        from u assms(2) show thesis
        proof (cases rule: store_upload_eff)
          case (stored r)
          with user(1) x show thesis by (intro created[of u r]) auto
        next
          case (failed e)
          then show thesis by (intro refused[of e]) auto
        qed
      qed
    qed
  qed
qed

lemma content_eff:
  assumes "get_file_content S F C hs user now i st = (st', res)" "files_ok held good ref_of st"
  shows "file_rows st' = file_rows st" and "good j \<Longrightarrow> held (file_disk st') j = held (file_disk st) j"
    and "res = Inr (x, m, h) \<Longrightarrow> \<exists>u r. snd (file_caller F C hs user (now 0) (file_db st)) = Inr u
      \<and> fetch_file (file_rows st) i (Some u) (now 1) = Some r \<and> held (file_disk st) i = Some x
      \<and> m = mime_type r \<and> h = content_disposition (file_name r)"
proof -
  have row: "storage_ref r = ref_of i \<and> good i" if "fetch_file (file_rows st) i (Some u) t = Some r" for u t r
    using that assms(2) by (auto simp: files_ok_def fetch_file_iff)
  note eq = assms(1)[unfolded get_file_content_def]
  show "file_rows st' = file_rows st"
    using eq by (cases rule: with_file_userE) (auto split: option.splits prod.splits sum.splits)
  show "good j \<Longrightarrow> held (file_disk st') j = held (file_disk st) j"
    using eq by (cases rule: with_file_userE)
      (auto split: option.splits prod.splits sum.splits dest!: row, (metis fst_conv get_keeps)+)
  show "\<exists>u r. snd (file_caller F C hs user (now 0) (file_db st)) = Inr u
      \<and> fetch_file (file_rows st) i (Some u) (now 1) = Some r \<and> held (file_disk st) i = Some x
      \<and> m = mime_type r \<and> h = content_disposition (file_name r)" if "res = Inr (x, m, h)"
    using eq
  proof (cases rule: with_file_userE)
    case (user d u)
    with that obtain r k where r: "fetch_file (file_rows st) i (Some u) (now 1) = Some r"
      and k: "store_get S (storage_ref r) (file_disk st) = (k, Inr x)" "m = mime_type r" "h = content_disposition (file_name r)"
      by (auto split: option.splits prod.splits sum.splits)
    from row[OF r] k(1) have "held (file_disk st) i = Some x" using get_held by metis
    with user r k show ?thesis by auto
  qed (use that in simp)
qed

lemma delete_eff:
  assumes "delete_file S F C hs user now i st = (st', res)" "files_ok held good ref_of st"
  obtains (deleted) u r where "snd (file_caller F C hs user (now 0) (file_db st)) = Inr u" "res = Inr ()"
      "fetch_file (file_rows st) i (Some u) (now 1) = Some r"
      "file_rows st' = mark_deleted i (now 2) (file_rows st)"
      "\<And>j. good j \<Longrightarrow> j \<noteq> i \<Longrightarrow> held (file_disk st') j = held (file_disk st) j"
  | (kept) e where "res = Inl e" "file_rows st' = file_rows st" "file_disk st' = file_disk st"
proof -
  from assms(1) show thesis
    unfolding delete_file_def
  proof (cases rule: with_file_userE)
    case (denied d e)
    then show thesis by (intro kept[of e]) auto
  next
    case (user d u)
    let ?st = "st\<lparr>file_db := d\<rparr>"
    show thesis
    proof (cases "fetch_file (file_rows st) i (Some u) (now 1)")
      case None
      with user show thesis by (intro kept) auto
    next
      case (Some r)
      with assms(2) have r: "storage_ref r = ref_of i" "good i" by (auto simp: files_ok_def fetch_file_iff)
      obtain st1 ok where st1: "commit_rows True (mark_deleted i (now 2) (file_rows ?st)) ?st = (st1, ok)" by fastforce
      note eff = commit_rows_eff[OF st1]
      obtain k w where k: "store_delete S (ref_of i) (file_disk st) = (k, w)" by fastforce
      show thesis
      proof (cases ok)
        case True
        have "st' = st1\<lparr>file_disk := k\<rparr> \<and> res = Inr ()"
          using user Some st1 True eff k r delete_error[OF r(2), of "file_disk st"]
          by (cases w) (auto split: prod.splits)
        with user Some eff True k delete_held[OF r(2), where d = "file_disk st"] show thesis
          by (intro deleted[of u r]) auto
      next
        case False
        with user Some st1 eff show thesis by (intro kept) auto
      qed
    qed
  qed
qed

end

section \<open>The local backend\<close>

definition hex_char :: "char \<Rightarrow> bool" where
  "hex_char c = (let n = ord c in (48 \<le> n \<and> n \<le> 57) \<or> (97 \<le> n \<and> n \<le> 102))"

text \<open>\<open>f"file-{uuid4().hex}"\<close>.\<close>

definition file_id_ok :: "string \<Rightarrow> bool" where
  "file_id_ok i \<longleftrightarrow> starts_with ''file-'' i \<and> length i = 37 \<and> list_all hex_char (drop 5 i)"

definition local_path :: "string list \<Rightarrow> string \<Rightarrow> string list" where
  "local_path base i = base @ [take 2 (drop 5 i), i]"

definition local_held :: "string list \<Rightarrow> disk \<Rightarrow> string \<Rightarrow> bytes option" where
  "local_held base d i = blobs d (local_path base i)"

lemma split_all_append: "c \<notin> set p \<Longrightarrow> split_all c (p @ c # s) = p # split_all c s"
  by (induction p) auto

lemma hex_char_facts: "hex_char c \<Longrightarrow> lower_char c = c \<and> c \<noteq> CHR ''/'' \<and> c \<noteq> CHR ''.''"
  by (auto simp: hex_char_def lower_char_def Let_def)

lemma generated_ref:
  assumes "file_id_ok i"
  shows "resolve_ref base (shard i) = Inr (local_path base i)"
proof -
  from assms obtain h where i: "i = ''file-'' @ h" and h: "length h = 32" "list_all hex_char h"
    by (auto simp: file_id_ok_def starts_with_iff)
  from h(1) obtain a b r where abr: "h = a # b # r" by (cases h; cases "tl h") auto
  have facts: "\<forall>c \<in> set h. lower_char c = c \<and> c \<noteq> CHR ''/'' \<and> c \<noteq> CHR ''.''"
    using h(2) hex_char_facts by (auto simp: list_all_iff)
  have s: "shard i = [a, b] @ CHR ''/'' # i"
    using facts by (simp add: shard_def i abr py_lower_def)
  have "split_all (CHR ''/'') (shard i) = [[a, b], i]"
    unfolding s using facts split_all_append[of "CHR ''/''" "[a, b]" i] split_all_no_sep[of "CHR ''/''" i]
    by (auto simp: i abr)
  moreover have "\<not> starts_with ''/'' (shard i)" using facts by (simp add: s abr starts_with_def)
  ultimately show ?thesis
    using facts by (simp add: resolve_ref_def Let_def local_path_def i abr)
qed

lemma local_path_inj: "local_path base i = local_path base j \<longleftrightarrow> i = j"
  by (auto simp: local_path_def)

text \<open>No reference, wherever it comes from, reads, writes or removes anything outside the root.\<close>

lemma local_ops_under_root:
  "\<nexists>q. p = base @ q \<Longrightarrow> blobs (fst (local_put base i x d)) p = blobs d p"
  "\<nexists>q. p = base @ q \<Longrightarrow> blobs (fst (local_delete base ref d)) p = blobs d p"
  "blobs (fst (local_get base ref d)) = blobs d"
  by (auto simp: local_put_def local_delete_def local_get_def disk_op_def resolve_ref_def Let_def
      split: sum.splits list.splits bool.splits if_splits option.splits) (metis append_take_drop_id)+

interpretation local_blobs: blob_store "local_dir_store base" "local_held base" file_id_ok shard for base
  by unfold_locales
    (auto simp: local_dir_store_def local_put_def local_get_def local_delete_def generated_ref disk_op_def local_held_def
      local_path_inj is_os_error_def split: list.splits bool.splits option.splits)

section \<open>Consistency and refinement\<close>

text \<open>
  Any sequence of uploads, downloads and deletions, by any callers, in which the user \<open>u\<close> does not delete the file \<open>i\<close>.
  The remaining routes change no file. An uploaded file gets an id no row has.
\<close>

inductive file_run :: "'d file_store \<Rightarrow> file_config \<Rightarrow> auth_config \<Rightarrow> (string \<Rightarrow> bool) \<Rightarrow> string \<Rightarrow> string
    \<Rightarrow> 'd file_server \<Rightarrow> 'd file_server \<Rightarrow> bool" for S F C good i u st where
  run_start: "file_run S F C good i u st st"
| run_create: "file_run S F C good i u st s \<Longrightarrow> good j \<Longrightarrow> j \<notin> file_id ` set (file_rows s) \<Longrightarrow>
    file_run S F C good i u st (fst (create_file S F C hs user up purpose now j s))"
| run_content: "file_run S F C good i u st s \<Longrightarrow> file_run S F C good i u st (fst (get_file_content S F C hs user now j s))"
| run_delete: "file_run S F C good i u st s \<Longrightarrow> j \<noteq> i \<or> snd (file_caller F C hs user (now 0) (file_db s)) \<noteq> Inr u \<Longrightarrow>
    file_run S F C good i u st (fst (delete_file S F C hs user now j s))"

lemma mark_deleted_ids [simp]: "map file_id (mark_deleted i now rs) = map file_id rs"
  by (simp add: mark_deleted_def comp_def if_distrib cong: if_cong)

lemma mark_deleted_mem: "r \<in> set (mark_deleted i now rs) \<Longrightarrow>
    \<exists>r0 \<in> set rs. r = (if file_id r0 = i then r0\<lparr>file_deleted := Some now\<rparr> else r0)"
  by (auto simp: mark_deleted_def)

lemma mark_deleted_other: "r \<in> set rs \<Longrightarrow> file_id r \<noteq> i \<Longrightarrow> r \<in> set (mark_deleted i now rs)"
  by (auto simp: mark_deleted_def)

lemma find_mark_deleted:
  "find (\<lambda>r. file_id r = j \<and> file_deleted r = None) (mark_deleted i now rs) =
    (if j = i then None else find (\<lambda>r. file_id r = j \<and> file_deleted r = None) rs)"
  by (induction rs) (auto simp: mark_deleted_def)

lemma find_snoc: "find P (xs @ [x]) = (case find P xs of None \<Rightarrow> if P x then Some x else None | Some y \<Rightarrow> Some y)"
  by (induction xs) auto

context blob_store begin

lemma ids_good: "files_ok held good ref_of st \<Longrightarrow> j \<in> file_id ` set (file_rows st) \<Longrightarrow> good j"
  by (auto simp: files_ok_def)

lemma create_ok:
  assumes "create_file S F C hs user up purpose now i st = (st', res)" "good i"
    and "i \<notin> file_id ` set (file_rows st)" "files_ok held good ref_of st"
  shows "files_ok held good ref_of st'"
  using assms(1,2)
proof (cases rule: create_eff)
  case (created u r)
  with assms(2-4) show ?thesis by (auto simp: files_ok_def new_file_def)
next
  case (refused e)
  then show ?thesis using assms(3,4) ids_good[OF assms(4)] by (subst files_ok_cong[of st' st]) auto
qed

lemma create_view:
  assumes "create_file S F C hs user up purpose now i st = (st', res)" "good i"
    and "i \<notin> file_id ` set (file_rows st)" "files_ok held good ref_of st"
  shows "file_view held st' = (case res of Inl _ \<Rightarrow> file_view held st
    | Inr r \<Rightarrow> (file_view held st)(i \<mapsto> (file_user r, file_expires r, up_data up)))"
  using assms(1,2)
proof (cases rule: create_eff)
  case (created u r)
  have "file_view held st' j = (if j = i then Some (file_user r, file_expires r, up_data up) else file_view held st j)" for j
  proof (cases "j = i")
    case True
    have "find (\<lambda>r. file_id r = i \<and> file_deleted r = None) (file_rows st) = None"
      using assms(3) by (auto simp: find_None_iff)
    then show ?thesis using created True assms(2)
      by (auto simp: file_view_def new_file_def find_snoc split: option.splits)
  next
    case False
    have "held (file_disk st') j = held (file_disk st) j" if "j \<in> file_id ` set (file_rows st)"
      using created(6) ids_good[OF assms(4) that] False by simp
    then show ?thesis using created False find_id_in[of j "\<lambda>r. file_deleted r = None" "file_rows st"]
      by (auto simp: file_view_def new_file_def find_snoc split: option.splits)
  qed
  with created show ?thesis by auto
next
  case (refused e)
  then show ?thesis using assms(3) ids_good[OF assms(4)] by (auto intro!: file_view_cong)
qed

lemma content_ok:
  assumes "get_file_content S F C hs user now i st = (st', res)" "files_ok held good ref_of st"
  shows "files_ok held good ref_of st' \<and> file_view held st' = file_view held st"
  using content_eff[OF assms] assms(2) ids_good[OF assms(2)] files_ok_cong[of st' st] file_view_cong[of st' st] by auto

lemma delete_ok:
  assumes "delete_file S F C hs user now i st = (st', res)" "files_ok held good ref_of st"
  shows "files_ok held good ref_of st'"
  using assms
proof (cases rule: delete_eff)
  case (deleted u r)
  with assms(2) show ?thesis by (auto simp: files_ok_def dest!: mark_deleted_mem split: if_splits)
next
  case (kept e)
  with assms(2) show ?thesis by (auto simp: files_ok_def)
qed

lemma delete_view:
  assumes "delete_file S F C hs user now i st = (st', res)" "files_ok held good ref_of st"
  shows "file_view held st' = (if isl res then file_view held st else (file_view held st)(i := None))"
  using assms
proof (cases rule: delete_eff)
  case (deleted u r)
  have "file_view held st' j = (if j = i then None else file_view held st j)" for j
  proof -
    have "held (file_disk st') j = held (file_disk st) j" if "j \<noteq> i" "j \<in> file_id ` set (file_rows st)"
      using deleted(5) ids_good[OF assms(2) that(2)] that(1) by simp
    then show ?thesis using find_id_in[of j "\<lambda>r. file_deleted r = None" "file_rows st"]
      by (auto simp: file_view_def deleted(4) find_mark_deleted split: option.split)
  qed
  then have "file_view held st' = (file_view held st)(i := None)" by auto
  with deleted show ?thesis by simp
next
  case (kept e)
  then show ?thesis by (auto intro!: file_view_cong)
qed

lemma run_keeps:
  assumes "file_run S F C good i u st st'" "files_ok held good ref_of st"
    and "r \<in> set (file_rows st)" "file_id r = i" "file_user r = u" "file_deleted r = None"
    and "held (file_disk st) i = Some x"
  shows "files_ok held good ref_of st' \<and> r \<in> set (file_rows st') \<and> held (file_disk st') i = Some x"
  using assms(1)
proof (induction rule: file_run.induct)
  case run_start
  show ?case using assms by simp
next
  case (run_create s j hs user up purpose now)
  obtain s' res where c: "create_file S F C hs user up purpose now j s = (s', res)" by fastforce
  have ij: "j \<noteq> i" "good i" using run_create assms(4) by (auto simp: files_ok_def)
  from c run_create(2) show ?case
    by (cases rule: create_eff) (use run_create ij c create_ok[OF c] in auto)
next
  case (run_content s hs user now j)
  obtain s' res where c: "get_file_content S F C hs user now j s = (s', res)" by fastforce
  from run_content content_ok[OF c] content_eff(1,2)[OF c] ids_good[of s i] assms(4) show ?case
    by (auto simp: c)
next
  case (run_delete s j hs user now)
  obtain s' res where c: "delete_file S F C hs user now j s = (s', res)" by fastforce
  have g: "good i" "distinct (map file_id (file_rows s))"
    using run_delete.IH assms(4) by (auto simp: files_ok_def)
  from c run_delete.IH[THEN conjunct1] show ?case
  proof (cases rule: delete_eff)
    case (deleted v r')
    have "j \<noteq> i"
    proof
      assume "j = i"
      with deleted(3) g(2) have "r' \<in> set (file_rows s)" "file_id r' = i" "file_user r' = v"
        by (auto simp: fetch_file_iff)
      with run_delete.IH assms(4) g(2) have "r' = r" by (auto simp: distinct_map inj_on_def)
      with run_delete(2) deleted(1) \<open>j = i\<close> \<open>file_user r' = v\<close> assms(5) show False by auto
    qed
    with deleted(4,5) delete_ok[OF c] run_delete.IH g(1) assms(4) show ?thesis
      by (auto simp: c intro: mark_deleted_other)
  next
    case (kept e)
    with delete_ok[OF c] run_delete.IH show ?thesis by (auto simp: c)
  qed
qed

end

section \<open>Properties\<close>

abbreviation local_ok :: "string list \<Rightarrow> disk file_server \<Rightarrow> bool" where
  "local_ok base \<equiv> files_ok (local_held base) file_id_ok shard"

abbreviation local_view :: "string list \<Rightarrow> disk file_server \<Rightarrow> string \<rightharpoonup> string \<times> instant option \<times> bytes" where
  "local_view base \<equiv> file_view (local_held base)"

definition unexpired :: "instant option \<Rightarrow> instant \<Rightarrow> bool" where
  "unexpired e t \<longleftrightarrow> (case e of None \<Rightarrow> True | Some x \<Rightarrow> t \<le> x)"

text \<open>C27. The file routes over the local directory implement a map from ids to an owner, an expiry and bytes. From a
  consistent state, whatever fails on the way: an upload that succeeds adds its entry for the caller and one
  that fails adds nothing; a deletion that succeeds removes an entry of the caller's own and one that fails
  removes nothing; a download changes nothing, and yields only the bytes of an unexpired entry of the caller's own.\<close>

theorem files_refine_view:
  assumes "local_ok base st" and "file_id_ok i" and "i \<notin> file_id ` set (file_rows st)"
  shows "(case create_file (local_dir_store base) F C hs user up purpose now i st of (st', res) \<Rightarrow>
      local_ok base st' \<and> local_view base st' = (case res of Inl _ \<Rightarrow> local_view base st
        | Inr r \<Rightarrow> (local_view base st)(i \<mapsto> (file_user r, file_expires r, up_data up)))
      \<and> (\<forall>r. res = Inr r \<longrightarrow> snd (file_caller F C hs user (now 0) (file_db st)) = Inr (file_user r)))
    \<and> (case delete_file (local_dir_store base) F C hs user now j st of (st', res) \<Rightarrow>
      local_ok base st' \<and> local_view base st' = (if isl res then local_view base st else (local_view base st)(j := None))
      \<and> (\<not> isl res \<longrightarrow> (\<exists>u e x. snd (file_caller F C hs user (now 0) (file_db st)) = Inr u
          \<and> local_view base st j = Some (u, e, x))))
    \<and> (case get_file_content (local_dir_store base) F C hs user now j st of (st', res) \<Rightarrow>
      local_ok base st' \<and> local_view base st' = local_view base st
      \<and> (\<forall>x m h. res = Inr (x, m, h) \<longrightarrow> (\<exists>u e. snd (file_caller F C hs user (now 0) (file_db st)) = Inr u
          \<and> local_view base st j = Some (u, e, x) \<and> unexpired e (now 1))))"
proof (intro conjI)
  have d: "distinct (map file_id (file_rows st))" using assms(1) by (simp add: files_ok_def)
  let ?S = "local_dir_store base"
  obtain st1 r1 where c1: "create_file ?S F C hs user up purpose now i st = (st1, r1)" by fastforce
  have "snd (file_caller F C hs user (now 0) (file_db st)) = Inr (file_user r)" if "r1 = Inr r" for r
    using c1 assms(2) that by (cases rule: local_blobs.create_eff) (auto simp: new_file_def)
  with local_blobs.create_ok[OF c1 assms(2,3,1)] local_blobs.create_view[OF c1 assms(2,3,1)] c1
  show "case create_file ?S F C hs user up purpose now i st of (st', res) \<Rightarrow>
      local_ok base st' \<and> local_view base st' = (case res of Inl _ \<Rightarrow> local_view base st
        | Inr r \<Rightarrow> (local_view base st)(i \<mapsto> (file_user r, file_expires r, up_data up)))
      \<and> (\<forall>r. res = Inr r \<longrightarrow> snd (file_caller F C hs user (now 0) (file_db st)) = Inr (file_user r))" by simp
  obtain st2 r2 where c2: "delete_file ?S F C hs user now j st = (st2, r2)" by fastforce
  have "\<exists>u e x. snd (file_caller F C hs user (now 0) (file_db st)) = Inr u \<and> local_view base st j = Some (u, e, x)"
    if "\<not> isl r2"
    using c2 assms(1)
  proof (cases rule: local_blobs.delete_eff)
    case (deleted u r)
    then have r: "r \<in> set (file_rows st)" "file_id r = j" "file_user r = u" "file_deleted r = None"
      using fetch_file_iff[OF d] by auto
    with assms(1) obtain x where "local_held base (file_disk st) j = Some x" by (auto simp: files_ok_def)
    with r have "local_view base st j = Some (u, file_expires r, x)" unfolding file_view_iff[OF d] by auto
    with deleted(1) show ?thesis by blast
  qed (use that in auto)
  with local_blobs.delete_ok[OF c2 assms(1)] local_blobs.delete_view[OF c2 assms(1)] c2
  show "case delete_file ?S F C hs user now j st of (st', res) \<Rightarrow>
      local_ok base st' \<and> local_view base st' = (if isl res then local_view base st else (local_view base st)(j := None))
      \<and> (\<not> isl res \<longrightarrow> (\<exists>u e x. snd (file_caller F C hs user (now 0) (file_db st)) = Inr u
          \<and> local_view base st j = Some (u, e, x)))" by simp
  obtain st3 r3 where c3: "get_file_content ?S F C hs user now j st = (st3, r3)" by fastforce
  have "\<exists>u e. snd (file_caller F C hs user (now 0) (file_db st)) = Inr u
      \<and> local_view base st j = Some (u, e, x) \<and> unexpired e (now 1)" if "r3 = Inr (x, m, h)" for x m h
    using local_blobs.content_eff(3)[OF c3 assms(1) that] fetch_file_iff[OF d]
    by (fastforce simp: file_view_iff[OF d] is_expired_def unexpired_def split: option.splits)
  with local_blobs.content_ok[OF c3 assms(1)] c3
  show "case get_file_content ?S F C hs user now j st of (st', res) \<Rightarrow>
      local_ok base st' \<and> local_view base st' = local_view base st
      \<and> (\<forall>x m h. res = Inr (x, m, h) \<longrightarrow> (\<exists>u e. snd (file_caller F C hs user (now 0) (file_db st)) = Inr u
          \<and> local_view base st j = Some (u, e, x) \<and> unexpired e (now 1)))"
    unfolding c3 prod.case by blast
qed

definition file_headers :: "(string, string) dict" where
  "file_headers = [(''Authorization'', ''Bearer '' @ ''root'')]"

definition files0 :: file_config where
  "files0 = \<lparr>files_enabled = True, files_max_bytes = 10, files_retention_hours = None, guess_type = (\<lambda>_. None)\<rparr>"

definition upload0 :: upload where
  "upload0 = \<lparr>up_name = Some ''a.txt'', up_type = Some ''text/plain'', up_data = ''hello''\<rparr>"

definition file_id0 :: string where
  "file_id0 = ''file-0123456789abcdef0123456789abcdef''"

definition file_server0 :: "disk file_server" where
  "file_server0 = \<lparr>file_db = store0, file_rows = [], file_disk = \<lparr>blobs = Map.empty, io_faults = []\<rparr>\<rparr>"

definition file_row0 :: file_row where
  "file_row0 = new_file files0 ''u'' upload0 [] ''hello'' file_id0 (shard file_id0) 5 5"

definition stored0 :: "disk file_server" where
  "stored0 = file_server0\<lparr>file_rows := [file_row0],
     file_disk := \<lparr>blobs = [local_path [''data''] file_id0 \<mapsto> ''hello''], io_faults = []\<rparr>\<rparr>"

lemma id0_ok: "file_id_ok file_id0"
  by (simp add: file_id_ok_def file_id0_def starts_with_def hex_char_def)

lemma caller0: "file_caller files0 sample_auth file_headers (Some ''u'') t d = (d, Inr ''u'')"
proof -
  have "verify_api_key_or_master_key sample_auth d file_headers t = (d, Inr (None, True))"
    unfolding verify_api_key_or_master_key_def file_headers_def bearer_token
    by (simp add: sample_auth_def is_valid_master_key_def is_ascii_def)
  then show ?thesis by (simp add: file_caller_def files0_def resolve_user_id_def given_def)
qed

lemma server0_ok: "local_ok [''data''] file_server0"
  by (simp add: files_ok_def file_server0_def)

lemma upload0_stored:
  "create_file (local_dir_store [''data'']) files0 sample_auth file_headers (Some ''u'') upload0 [] (\<lambda>_. 5) file_id0 file_server0
    = (stored0, Inr file_row0)"
proof -
  have "read_upload (files_max_bytes files0) (up_data upload0) = Inr ''hello''"
    by (simp add: read_upload_def read_chunks_sound read_chunk_bytes_def files0_def upload0_def)
  moreover have "users (file_db file_server0) ''u'' \<noteq> None" "faults (file_db file_server0) = []"
    by (simp_all add: file_server0_def store0_def)
  ultimately show ?thesis
    using id0_ok by (simp add: create_file_def with_file_user_def caller0 store_upload_def local_dir_store_def local_put_def
        generated_ref disk_op_def Let_def commit_rows_def commit_def insert_allowed_def stored0_def file_server0_def
        file_row0_def[symmetric]) (simp add: file_row0_def new_file_def store0_def)
qed

lemma files_refine_view_witness:
  "case create_file (local_dir_store [''data'']) files0 sample_auth file_headers (Some ''u'') upload0 [] (\<lambda>_. 5) file_id0
      file_server0 of (st', res) \<Rightarrow> local_view [''data''] st' = [file_id0 \<mapsto> (''u'', None, ''hello'')]"
proof -
  have "file_id0 \<notin> file_id ` set (file_rows file_server0)" by (simp add: file_server0_def)
  from files_refine_view[OF server0_ok id0_ok this, where F = files0 and C = sample_auth and hs = file_headers
      and user = "Some ''u''" and up = upload0 and purpose = "[]" and now = "\<lambda>_. 5" and j = file_id0]
  have "local_view [''data''] stored0 = (local_view [''data''] file_server0)(file_id0 \<mapsto> (''u'', None, ''hello''))"
    by (simp add: upload0_stored) (simp add: file_row0_def new_file_def files0_def upload0_def)
  moreover have "local_view [''data''] file_server0 = Map.empty"
    by (rule ext) (simp add: file_view_def file_server0_def)
  ultimately show ?thesis by (simp add: upload0_stored)
qed

text \<open>What is uploaded can be downloaded. After an upload, and after any further uploads, downloads and deletions in
  which the owner does not delete the file, the owner's download before the expiry yields the uploaded
  bytes, the stored media type and a header for the uploaded name, unless the disk fails.\<close>

theorem uploaded_file_downloads:
  assumes "local_ok base st" and "file_id_ok i" and "i \<notin> file_id ` set (file_rows st)"
    and "create_file (local_dir_store base) F C hs user up purpose now i st = (st1, Inr r)"
    and "file_run (local_dir_store base) F C file_id_ok i (file_user r) st1 st2"
    and "snd (file_caller F C hs2 user2 (now2 0) (file_db st2)) = Inr (file_user r)"
    and "unexpired (file_expires r) (now2 1)" and "io_faults (file_disk st2) = []"
  shows "snd (get_file_content (local_dir_store base) F C hs2 user2 now2 i st2) =
    Inr (up_data up, mime_type r, content_disposition (file_name r))"
proof -
  let ?S = "local_dir_store base"
  have r: "file_id r = i" "file_deleted r = None" "r \<in> set (file_rows st1)" "local_held base (file_disk st1) i = Some (up_data up)"
    using assms(4,2) by (cases rule: local_blobs.create_eff; simp add: new_file_def assms(2))+
  have "local_ok base st1" by (rule local_blobs.create_ok[OF assms(4,2,3,1)])
  from local_blobs.run_keeps[OF assms(5) this r(3) r(1) refl r(2,4)]
  have ok: "local_ok base st2" "r \<in> set (file_rows st2)" "local_held base (file_disk st2) i = Some (up_data up)" by auto
  have "fetch_file (file_rows st2) i (Some (file_user r)) (now2 1) = Some r"
    using ok r assms(7) by (subst fetch_file_iff) (auto simp: files_ok_def is_expired_def unexpired_def split: option.splits)
  moreover have "storage_ref r = shard i" using ok r(1) by (auto simp: files_ok_def)
  moreover have "snd (local_get base (shard i) (file_disk st2)) = Inr (up_data up)"
    using ok(3) assms(2,8) by (simp add: local_get_def generated_ref disk_op_def local_held_def)
  moreover obtain d where "file_caller F C hs2 user2 (now2 0) (file_db st2) = (d, Inr (file_user r))"
    using assms(6) by (metis prod.collapse)
  ultimately show ?thesis
    by (auto simp: get_file_content_def with_file_user_def local_dir_store_def split: prod.splits sum.splits)
qed

lemma uploaded_file_downloads_witness:
  "snd (get_file_content (local_dir_store [''data'']) files0 sample_auth file_headers (Some ''u'') (\<lambda>_. 9) file_id0 stored0)
    = Inr (''hello'', ''text/plain'', content_disposition ''a.txt'')"
proof -
  have r: "mime_type file_row0 = ''text/plain''" "file_name file_row0 = ''a.txt''" "file_user file_row0 = ''u''"
    "file_expires file_row0 = None" "up_data upload0 = ''hello''"
    by (simp_all add: file_row0_def new_file_def files0_def upload0_def guess_mime_def octet_stream_def given_def)
  have "file_id0 \<notin> file_id ` set (file_rows file_server0)" by (simp add: file_server0_def)
  from uploaded_file_downloads[OF server0_ok id0_ok this upload0_stored run_start, where ?hs2.0 = file_headers
      and ?user2.0 = "Some ''u''" and ?now2.0 = "\<lambda>_. 9"]
  show ?thesis by (simp add: caller0 r unexpired_def) (simp add: stored0_def)
qed

text \<open>An upload never takes more than one read past the limit, and is accepted exactly when it fits.\<close>

lemma upload_reads_bounded:
  "fst (read_chunks read_chunk_bytes cap 0 x) \<le> cap + read_chunk_bytes
    \<and> (isl (read_upload cap x) \<longleftrightarrow> cap < length x)"
  using read_chunks_bound[of 0 cap read_chunk_bytes x]
  by (auto simp: read_upload_def read_chunks_sound read_chunk_bytes_def split: option.splits if_splits)

text \<open>A listing shows expired files, which the other routes answer with 404.\<close>

lemma listing_shows_expired:
  "snd (list_files files0 sample_auth file_headers (Some ''u'') None now (file_server0\<lparr>file_rows := [file_row0\<lparr>file_expires := Some 7\<rparr>]\<rparr>))
     = Inr [file_row0\<lparr>file_expires := Some 7\<rparr>] \<and>
   snd (get_file files0 sample_auth file_headers (Some ''u'') (\<lambda>_. 8) file_id0 (file_server0\<lparr>file_rows := [file_row0\<lparr>file_expires := Some 7\<rparr>]\<rparr>))
     = Inl no_file"
  by (simp add: list_files_def get_file_def with_file_user_def caller0 fetch_file_def file_row0_def new_file_def is_expired_def)

end
