(* ===== verification/Attachments.thy ===== *)
theory Attachments
  imports Files
begin

text \<open>
  Attachments in requests: the content normalizer (\<open>services/content_normalizer.py\<close>), text extraction
  (\<open>services/file_extractors.py\<close>), the vision side call (\<open>services/vision.py\<close>), model capabilities
  (\<open>services/model_capabilities.py\<close>) and the routes' entry point (\<open>api/routes/_normalize.py\<close>).

  Parameters, in the record \<open>media\<close>: markitdown, pypdfium2 and RapidOCR, the any-llm completion of the side
  call and its provider metadata, \<open>mimetypes.guess_extension\<close>, and \<open>str\<close> of a JSON value that is not a string.
  The request's user, the clock reading and the rows its lookups see are part of the record. Log lines, and
  \<open>details\<close> and \<open>data_url\<close>, which nothing reads, are left out.
\<close>

datatype wire_format = Openai | Anthropic | Responses

datatype kind = Image_Block | Document_Block

text \<open>An exception inside a block: the code catches them all alike.\<close>

datatype block_error = Block_Failed

record stats =
  files_extracted :: nat
  images_described :: nat
  dropped :: nat
  chars_added :: nat
  vision_prompt_tokens :: int
  vision_completion_tokens :: int

definition no_stats :: stats where
  "no_stats = \<lparr>files_extracted = 0, images_described = 0, dropped = 0, chars_added = 0,
     vision_prompt_tokens = 0, vision_completion_tokens = 0\<rparr>"

definition vision_usage :: "stats \<Rightarrow> usage option" where
  "vision_usage t = (if vision_prompt_tokens t = 0 \<and> vision_completion_tokens t = 0 then None
     else Some (Completion_Usage \<lparr>prompt_tokens = vision_prompt_tokens t, completion_tokens = vision_completion_tokens t,
       total_tokens = vision_prompt_tokens t + vision_completion_tokens t, prompt_tokens_details = None\<rparr>))"

record source =
  src_kind :: kind
  src_data :: "bytes option"
  src_mime :: json
  src_name :: json
  needs_inline :: bool

datatype converted = Not_Installed | Convert_Error | Converted "string option"
datatype rendered = No_Renderer | Render_Error | Rendered "bytes option list"
datatype ocr_outcome = No_Ocr | Ocr_Error | Ocr_Lines "string list"
datatype described = Describe_Failed | Described "completion_usage option" "json option"

record 'd media =
  understanding_enabled :: bool
  vision_strategy :: string
  describe_model :: "string option"
  describe_max_tokens :: int
  media_providers :: providers_config
  model_capabilities :: "(string, bool \<times> bool) dict"
  provider_metadata :: "string \<Rightarrow> (bool \<times> bool) option"
  guess_extension :: "string \<Rightarrow> string option"
  markitdown :: "bytes \<Rightarrow> string \<Rightarrow> converted"
  render_pdf :: "bytes \<Rightarrow> rendered"
  run_ocr :: "bytes \<Rightarrow> ocr_outcome"
  complete_vision :: "kwargs \<Rightarrow> described"
  py_text :: "json \<Rightarrow> string"
  media_store :: "'d file_store option"
  media_rows :: "file_row list"
  media_user :: "string option"
  media_now :: instant

section \<open>Python values\<close>

definition text_of :: "'d media \<Rightarrow> json \<Rightarrow> string" where
  "text_of M v = (case v of JStr s \<Rightarrow> s | _ \<Rightarrow> py_text M v)"

text \<open>\<open>v.get(k)\<close> and \<open>v.get(k, default)\<close>: only a dictionary has the method.\<close>

definition attr :: "string \<Rightarrow> json \<Rightarrow> (block_error, json option) result" where
  "attr k v = (case v of JObj d \<Rightarrow> Inr (map_of d k) | _ \<Rightarrow> Inl Block_Failed)"

definition or_else :: "json \<Rightarrow> json option \<Rightarrow> json" where
  "or_else x v = (case v of None \<Rightarrow> x | Some y \<Rightarrow> y)"

definition first_truthy :: "json option \<Rightarrow> json option \<Rightarrow> json option" where
  "first_truthy a b = (if truthy_opt a then a else b)"

text \<open>\<open>len\<close> of a text: the bytes that start a character.\<close>

definition py_len :: "string \<Rightarrow> nat" where
  "py_len s = length (filter (\<lambda>c. ord c div 64 \<noteq> 2) s)"

section \<open>Resolving a block\<close>

definition text_block :: "wire_format \<Rightarrow> string \<Rightarrow> json" where
  "text_block wire s = JObj [(''type'', JStr (if wire = Responses then ''input_text'' else ''text'')), (''text'', JStr s)]"

text \<open>A stored file the user may read: its bytes, media type and name.\<close>

definition load_file :: "'d media \<Rightarrow> 'd file_store \<Rightarrow> string \<Rightarrow> 'd \<Rightarrow> 'd \<times> (block_error, (bytes \<times> string \<times> string) option) result" where
  "load_file M S i k = (case fetch_file (media_rows M) i (media_user M) (media_now M) of
       None \<Rightarrow> (k, Inr None)
     | Some r \<Rightarrow> (case store_get S (storage_ref r) k of
         (k', Inl e) \<Rightarrow> (k', Inl Block_Failed) | (k', Inr x) \<Rightarrow> (k', Inr (Some (x, mime_type r, file_name r)))))"

definition inline_ref :: "json option \<Rightarrow> json \<Rightarrow> (bytes \<times> json \<times> json \<times> bool) option" where
  "inline_ref url name = (case url of
       Some (JStr u) \<Rightarrow> if starts_with ''data:'' u
         then (case decode_data_url u of (None, _) \<Rightarrow> None | (Some x, mime) \<Rightarrow> Some (x, JStr mime, name, False))
         else None
     | _ \<Rightarrow> None)"

definition resolve_from_ref :: "'d media \<Rightarrow> json \<Rightarrow> 'd
    \<Rightarrow> 'd \<times> (block_error, (bytes \<times> json \<times> json \<times> bool) option) result" where
  "resolve_from_ref M ref k = (case ref of
       JObj d \<Rightarrow>
         (case (if truthy_opt (map_of d ''file_id'') then media_store M else None) of
            Some S \<Rightarrow> (case load_file M S (text_of M (the (map_of d ''file_id''))) k of
                (k', Inl e) \<Rightarrow> (k', Inl e)
              | (k', Inr None) \<Rightarrow> (k', Inr None)
              | (k', Inr (Some (x, mime, name))) \<Rightarrow> (k', Inr (Some (x, JStr mime, JStr name, True))))
          | None \<Rightarrow> (k, Inr (inline_ref (first_truthy (map_of d ''file_data'') (map_of d ''url''))
                (or_else JNull (map_of d ''filename'')))))
     | _ \<Rightarrow> (k, Inl Block_Failed))"

definition resolved_source :: "kind \<Rightarrow> bytes \<times> json \<times> json \<times> bool \<Rightarrow> source" where
  "resolved_source kd p = (case p of (x, mime, name, stored) \<Rightarrow>
     \<lparr>src_kind = kd, src_data = Some x, src_mime = mime, src_name = name, needs_inline = stored\<rparr>)"

definition plain_source :: "kind \<Rightarrow> bytes option \<Rightarrow> json \<Rightarrow> source" where
  "plain_source kd x mime = \<lparr>src_kind = kd, src_data = x, src_mime = mime, src_name = JNull, needs_inline = False\<rparr>"

text \<open>The two Anthropic branches differ in the kind, its default media type and the \<open>text\<close> source of documents.\<close>

definition classify_anthropic :: "'d media \<Rightarrow> kind \<Rightarrow> (string, json) dict \<Rightarrow> 'd \<Rightarrow> 'd \<times> (block_error, source option) result" where
  "classify_anthropic M kd b k =
     (let default = JStr (if kd = Image_Block then ''image/png'' else ''application/pdf'')
      in case or_else (JObj []) (map_of b ''source'') of
        JObj s \<Rightarrow>
          (let ty = map_of s ''type'' in
           if kd = Document_Block \<and> ty = Some (JStr ''text'')
           then (k, Inr (Some (plain_source kd (Some (text_of M (or_else (JStr []) (map_of s ''data'')))) (JStr ''text/plain''))))
           else if ty = Some (JStr ''base64'')
           then (k, Inr (Some (plain_source kd (fst (decode_data_url (''data:'' @ text_of M (or_else (JStr []) (map_of s ''media_type''))
                @ '';base64,'' @ text_of M (or_else (JStr []) (map_of s ''data''))))) (or_else default (map_of s ''media_type'')))))
           else if ty = Some (JStr ''file'')
           then (case resolve_from_ref M (JObj s) k of
               (k', Inl e) \<Rightarrow> (k', Inl e)
             | (k', Inr (Some p)) \<Rightarrow> (k', Inr (Some (resolved_source kd p)))
             | (k', Inr None) \<Rightarrow> (k', Inr (Some (plain_source kd None default))))
           else (k, Inr (Some (plain_source kd None default))))
      | _ \<Rightarrow> (k, Inl Block_Failed))"

definition image_url_of :: "json option \<Rightarrow> json option" where
  "image_url_of v = (case v of Some (JObj d) \<Rightarrow> map_of d ''url'' | _ \<Rightarrow> v)"

definition url_source :: "json option \<Rightarrow> source option" where
  "url_source url = (case url of
       Some (JStr u) \<Rightarrow> (case decode_data_url u of (x, mime) \<Rightarrow>
         Some (plain_source Image_Block x (JStr (if mime = [] then ''image/png'' else mime))))
     | _ \<Rightarrow> None)"

definition classify_image :: "'d media \<Rightarrow> (string, json) dict \<Rightarrow> 'd \<Rightarrow> 'd \<times> (block_error, source option) result" where
  "classify_image M b k =
     (let url = image_url_of (map_of b ''image_url'')
      in if truthy_opt (map_of b ''file_id'')
         then (case resolve_from_ref M (JObj b) k of
             (k', Inl e) \<Rightarrow> (k', Inl e)
           | (k', Inr (Some p)) \<Rightarrow> (k', Inr (Some (resolved_source Image_Block p)))
           | (k', Inr None) \<Rightarrow> (k', Inr (url_source url)))
         else (k, Inr (url_source url)))"

definition classify_file :: "'d media \<Rightarrow> json \<Rightarrow> 'd \<Rightarrow> 'd \<times> (block_error, source option) result" where
  "classify_file M ref k = (case resolve_from_ref M ref k of
       (k', Inl e) \<Rightarrow> (k', Inl e) | (k', Inr v) \<Rightarrow> (k', Inr (map_option (resolved_source Document_Block) v)))"

definition classify :: "'d media \<Rightarrow> wire_format \<Rightarrow> (string, json) dict \<Rightarrow> 'd \<Rightarrow> 'd \<times> (block_error, source option) result" where
  "classify M wire b k =
     (let ty = map_of b ''type'' in
      if wire \<noteq> Anthropic \<and> (ty = Some (JStr ''image_url'') \<or> ty = Some (JStr ''input_image'')) then classify_image M b k
      else if wire = Anthropic \<and> ty = Some (JStr ''image'') then classify_anthropic M Image_Block b k
      else if wire \<noteq> Anthropic \<and> ty = Some (JStr ''file'') then classify_file M (or_else (JObj b) (map_of b ''file'')) k
      else if wire \<noteq> Anthropic \<and> ty = Some (JStr ''input_file'') then classify_file M (JObj b) k
      else if wire = Anthropic \<and> ty = Some (JStr ''document'') then classify_anthropic M Document_Block b k
      else (k, Inr None))"

text \<open>The block rewritten to carry the bytes.\<close>

definition filename_field :: "source \<Rightarrow> (string, json) dict" where
  "filename_field s = (if truthy (src_name s) then [(''filename'', src_name s)] else [])"

definition inline_passthrough :: "'d media \<Rightarrow> (string, json) dict \<Rightarrow> wire_format \<Rightarrow> source \<Rightarrow> json" where
  "inline_passthrough M b wire s = (case src_data s of
       None \<Rightarrow> JObj b
     | Some x \<Rightarrow>
         (let url = JStr (to_data_url x (text_of M (src_mime s))) in
          if wire = Anthropic then JObj [(''type'', JStr (if src_kind s = Image_Block then ''image'' else ''document'')),
            (''source'', JObj [(''type'', JStr ''base64''), (''media_type'', src_mime s), (''data'', JStr (b64encode x))])]
          else if src_kind s = Image_Block
          then (if wire = Responses then JObj [(''type'', JStr ''input_image''), (''image_url'', url)]
            else JObj [(''type'', JStr ''image_url''), (''image_url'', JObj [(''url'', url)])])
          else if wire = Responses then JObj ([(''type'', JStr ''input_file''), (''file_data'', url)] @ filename_field s)
          else JObj [(''type'', JStr ''file''), (''file'', JObj ((''file_data'', url) # filename_field s))]))"

section \<open>Text extraction\<close>

definition mime_to_ext :: "(string, string) dict" where
  "mime_to_ext = [(''application/pdf'', ''.pdf''),
     (''application/vnd.openxmlformats-officedocument.wordprocessingml.document'', ''.docx''),
     (''application/vnd.openxmlformats-officedocument.presentationml.presentation'', ''.pptx''),
     (''application/vnd.openxmlformats-officedocument.spreadsheetml.sheet'', ''.xlsx''),
     (''application/msword'', ''.doc''), (''text/csv'', ''.csv''), (''text/markdown'', ''.md''), (''text/plain'', ''.txt''),
     (''text/html'', ''.html''), (''application/json'', ''.json''), (''application/xml'', ''.xml''), (''text/xml'', ''.xml'')]"

text \<open>\<open>Path(name).suffix\<close>: from the last dot of the last component, unless it starts or ends it.\<close>

definition path_suffix :: "string \<Rightarrow> string" where
  "path_suffix f =
     (let parts = filter (\<lambda>p. p \<noteq> [] \<and> p \<noteq> ''.'') (split_all (CHR ''/'') f);
          name = (if parts = [] then [] else List.last parts)
      in case split_once (CHR ''.'') (rev name) of
           None \<Rightarrow> []
         | Some (ext, stem) \<Rightarrow> if ext = [] \<or> stem = [] then [] else CHR ''.'' # rev ext)"

definition resolve_extension :: "'d media \<Rightarrow> json \<Rightarrow> json \<Rightarrow> (block_error, string) result" where
  "resolve_extension M mime name =
     (let by_mime = (case (if truthy mime then mime else JStr []) of
            JStr m \<Rightarrow> (let t = py_lower (py_strip (before_first (CHR '';'') m)) in
              Inr (case map_of mime_to_ext t of Some e \<Rightarrow> e
                | None \<Rightarrow> (case guess_extension M t of Some e \<Rightarrow> if e = [] then ''.bin'' else e | None \<Rightarrow> ''.bin'')))
          | _ \<Rightarrow> Inl Block_Failed)
      in if \<not> truthy name then by_mime
         else (case name of JStr f \<Rightarrow> if path_suffix f \<noteq> [] then Inr (py_lower (path_suffix f)) else by_mime | _ \<Rightarrow> Inl Block_Failed))"

text \<open>The text, when there is any; the code's \<open>ok\<close> flag is its presence.\<close>

definition extract_sync :: "'d media \<Rightarrow> bytes \<Rightarrow> string \<Rightarrow> string option" where
  "extract_sync M x ext = (case markitdown M x ext of
       Converted (Some t) \<Rightarrow> if py_strip t = [] then None else Some (py_strip t) | _ \<Rightarrow> None)"

definition extract_text_from_file :: "'d media \<Rightarrow> bytes \<Rightarrow> json \<Rightarrow> json \<Rightarrow> (block_error, string option) result" where
  "extract_text_from_file M x mime name = rbind (resolve_extension M mime name) (\<lambda>ext. Inr (extract_sync M x ext))"

definition max_pages :: nat where
  "max_pages = 10"

definition rasterize_pdf :: "'d media \<Rightarrow> bytes \<Rightarrow> (block_error, bytes list) result" where
  "rasterize_pdf M x = (case render_pdf M x of
       No_Renderer \<Rightarrow> Inr [] | Render_Error \<Rightarrow> Inl Block_Failed
     | Rendered ps \<Rightarrow> if None \<in> set (take max_pages ps) then Inl Block_Failed else Inr (map the (take max_pages ps)))"

definition ocr_image :: "'d media \<Rightarrow> bytes \<Rightarrow> (block_error, string) result" where
  "ocr_image M x = (case run_ocr M x of
       No_Ocr \<Rightarrow> Inr [] | Ocr_Error \<Rightarrow> Inl Block_Failed | Ocr_Lines ls \<Rightarrow> Inr (py_strip (join newline ls)))"

section \<open>The vision side call\<close>

definition describe_prompt :: string where
  "describe_prompt = ''You are assisting a text-only language model that cannot see images. Describe the following image ''
     @ ''thoroughly and objectively so the model can reason about it: transcribe any visible text verbatim, and describe ''
     @ ''layout, charts, diagrams, tables, and notable visual details. Reply with the description only.''"

definition describe_request :: "'d media \<Rightarrow> resolved_provider \<Rightarrow> string \<Rightarrow> kwargs" where
  "describe_request M r url = [(''model'', JStr (model_name r)), (''provider'', JStr (provider_impl r)),
     (''messages'', JArr [JObj [(''role'', JStr ''user''), (''content'', JArr
        [JObj [(''type'', JStr ''text''), (''text'', JStr describe_prompt)],
         JObj [(''type'', JStr ''image_url''), (''image_url'', JObj [(''url'', JStr url)])]])]]),
     (''max_tokens'', JInt (describe_max_tokens M))] @ call_kwargs r"

definition describe_image :: "'d media \<Rightarrow> string \<Rightarrow> (block_error, string option \<times> completion_usage option) result" where
  "describe_image M url =
     (if \<not> given (describe_model M) then Inr (None, None)
      else (case resolve_provider_selector (media_providers M) (the (describe_model M)) of
          Inl _ \<Rightarrow> Inl Block_Failed
        | Inr r \<Rightarrow> (case complete_vision M (describe_request M r url) of
            Describe_Failed \<Rightarrow> Inr (None, None)
          | Described u (Some (JStr t)) \<Rightarrow> Inr (if py_strip t = [] then None else Some (py_strip t), u)
          | Described u _ \<Rightarrow> Inr (None, u))))"

definition add_vision :: "completion_usage option \<Rightarrow> stats \<Rightarrow> stats" where
  "add_vision u t = (case u of None \<Rightarrow> t
     | Some c \<Rightarrow> t\<lparr>vision_prompt_tokens := vision_prompt_tokens t + prompt_tokens c,
         vision_completion_tokens := vision_completion_tokens t + completion_tokens c\<rparr>)"

definition em_dash :: string where
  "em_dash = [CHR 0xE2, CHR 0x80, CHR 0x94]"

text \<open>The rendering of an image: its description, else the text in it, else nothing.\<close>

definition ocr_rendering :: "'d media \<Rightarrow> bytes \<Rightarrow> (block_error, string option) result" where
  "ocr_rendering M x =
     (if vision_strategy M = ''describe'' \<or> vision_strategy M = ''ocr''
      then rbind (ocr_image M x) (\<lambda>t. Inr (if t = [] then None
        else Some (''[Attached image '' @ em_dash @ '' extracted text]'' @ newline @ t)))
      else Inr None)"

definition render_image :: "'d media \<Rightarrow> bytes \<Rightarrow> json \<Rightarrow> stats \<Rightarrow> stats \<times> (block_error, string option) result" where
  "render_image M x mime t =
     (if vision_strategy M = ''describe''
      then (case describe_image M (to_data_url x (text_of M mime)) of
          Inl e \<Rightarrow> (t, Inl e)
        | Inr (Some d, u) \<Rightarrow> (add_vision u t, Inr (Some (''[Attached image description]'' @ newline @ d)))
        | Inr (None, u) \<Rightarrow> (add_vision u t, ocr_rendering M x))
      else (t, ocr_rendering M x))"

fun describe_pages :: "'d media \<Rightarrow> nat \<Rightarrow> bytes list \<Rightarrow> stats \<Rightarrow> stats \<times> (block_error, string list) result" where
  "describe_pages M i [] t = (t, Inr [])"
| "describe_pages M i (p # ps) t = (case render_image M p (JStr ''image/png'') t of
       (t1, Inl e) \<Rightarrow> (t1, Inl e)
     | (t1, Inr v) \<Rightarrow> (case describe_pages M (Suc i) ps t1 of
         (t2, Inl e) \<Rightarrow> (t2, Inl e)
       | (t2, Inr ds) \<Rightarrow> (t2, Inr (case v of None \<Rightarrow> ds
           | Some d \<Rightarrow> (''-- Page '' @ str_nat i @ '' --'' @ newline @ d) # ds))))"

definition or_label :: "'d media \<Rightarrow> json \<Rightarrow> string \<Rightarrow> string" where
  "or_label M name d = (if truthy name then text_of M name else d)"

definition describe_pdf_pages :: "'d media \<Rightarrow> bytes \<Rightarrow> json \<Rightarrow> stats \<Rightarrow> stats \<times> (block_error, string option) result" where
  "describe_pdf_pages M x name t = (case rasterize_pdf M x of
       Inl e \<Rightarrow> (t, Inl e)
     | Inr ps \<Rightarrow> (case describe_pages M 1 ps t of
         (t1, Inl e) \<Rightarrow> (t1, Inl e)
       | (t1, Inr ds) \<Rightarrow> (t1, Inr (if ds = [] then None
           else (let l = or_label M name ''document.pdf'' in
             Some (''[Attached scanned file: '' @ l @ '']'' @ newline @ join newline ds @ newline @ ''[End of '' @ l @ '']''))))))"

section \<open>Normalizing\<close>

definition extract_to_text :: "'d media \<Rightarrow> source \<Rightarrow> stats \<Rightarrow> stats \<times> (block_error, string option) result" where
  "extract_to_text M s t = (case src_data s of
       None \<Rightarrow> (t, Inr None)
     | Some x \<Rightarrow>
         if src_kind s = Document_Block
         then (case extract_text_from_file M x (src_mime s) (src_name s) of
             Inl e \<Rightarrow> (t, Inl e)
           | Inr (Some txt) \<Rightarrow> (let l = or_label M (src_name s) ''document'' in
               (t, Inr (Some (''[Attached file: '' @ l @ '']'' @ newline @ txt @ newline @ ''[End of '' @ l @ '']''))))
           | Inr None \<Rightarrow> (case src_mime s of
               JStr m \<Rightarrow> if before_first (CHR '';'') m = ''application/pdf'' then describe_pdf_pages M x (src_name s) t
                 else (t, Inr None)
             | _ \<Rightarrow> (t, Inl Block_Failed)))
         else render_image M x (src_mime s) t)"

record capabilities =
  cap_image :: bool
  cap_pdf :: bool

definition local_providers :: "string set" where
  "local_providers = {''ollama'', ''vllm'', ''llamacpp'', ''lmstudio''}"

fun first_override :: "'d media \<Rightarrow> string list \<Rightarrow> (bool \<times> bool) option" where
  "first_override M [] = None"
| "first_override M (k # ks) = (case map_of (model_capabilities M) k of Some v \<Rightarrow> Some v | None \<Rightarrow> first_override M ks)"

definition resolve_capabilities :: "'d media \<Rightarrow> string \<Rightarrow> string \<Rightarrow> string option \<Rightarrow> capabilities" where
  "resolve_capabilities M provider m inst =
     (let keys = (case inst of Some i \<Rightarrow> if i \<noteq> provider then [i @ '':'' @ m, i @ ''/'' @ m] else [] | None \<Rightarrow> [])
          @ [provider @ '':'' @ m, provider @ ''/'' @ m, m]
      in case first_override M keys of
           Some (im, pdf) \<Rightarrow> \<lparr>cap_image = im, cap_pdf = pdf\<rparr>
         | None \<Rightarrow> (case (if provider \<notin> local_providers then provider_metadata M provider else None) of
             Some (im, pdf) \<Rightarrow> \<lparr>cap_image = im, cap_pdf = pdf\<rparr>
           | None \<Rightarrow> \<lparr>cap_image = False, cap_pdf = False\<rparr>))"

definition kind_name :: "kind \<Rightarrow> string" where
  "kind_name kd = (case kd of Image_Block \<Rightarrow> ''image'' | Document_Block \<Rightarrow> ''document'')"

definition omitted_marker :: "kind \<Rightarrow> string" where
  "omitted_marker kd = ''[Unprocessable '' @ kind_name kd @ '' attachment omitted]''"

definition count_rendered :: "kind \<Rightarrow> string \<Rightarrow> stats \<Rightarrow> stats" where
  "count_rendered kd txt t =
     (let t1 = (if kd = Image_Block then t\<lparr>images_described := images_described t + 1\<rparr>
            else t\<lparr>files_extracted := files_extracted t + 1\<rparr>)
      in t1\<lparr>chars_added := chars_added t1 + py_len txt\<rparr>)"

definition native :: "capabilities \<Rightarrow> kind \<Rightarrow> bool" where
  "native c kd = (if kd = Image_Block then cap_image c else cap_pdf c)"

definition normalize_dict :: "'d media \<Rightarrow> wire_format \<Rightarrow> capabilities \<Rightarrow> (string, json) dict \<Rightarrow> 'd \<times> stats \<Rightarrow> ('d \<times> stats) \<times> json" where
  "normalize_dict M wire c b kt = (case classify M wire b (fst kt) of
       (k, Inl _) \<Rightarrow> ((k, snd kt), JObj b)
     | (k, Inr None) \<Rightarrow> ((k, snd kt), JObj b)
     | (k, Inr (Some s)) \<Rightarrow>
         if native c (src_kind s)
         then ((k, snd kt), if needs_inline s then inline_passthrough M b wire s else JObj b)
         else (case extract_to_text M s (snd kt) of
             (t, Inl _) \<Rightarrow> ((k, t), JObj b)
           | (t, Inr None) \<Rightarrow> ((k, t\<lparr>dropped := dropped t + 1\<rparr>), text_block wire (omitted_marker (src_kind s)))
           | (t, Inr (Some txt)) \<Rightarrow> ((k, count_rendered (src_kind s) txt t), text_block wire txt)))"

definition normalize_block :: "'d media \<Rightarrow> wire_format \<Rightarrow> capabilities \<Rightarrow> json \<Rightarrow> 'd \<times> stats \<Rightarrow> ('d \<times> stats) \<times> json" where
  "normalize_block M wire c b kt = (case b of JObj d \<Rightarrow> normalize_dict M wire c d kt | _ \<Rightarrow> (kt, b))"

fun thread :: "('a \<Rightarrow> 's \<Rightarrow> 's \<times> 'b) \<Rightarrow> 'a list \<Rightarrow> 's \<Rightarrow> 's \<times> 'b list" where
  "thread f [] s = (s, [])"
| "thread f (x # xs) s = (case f x s of (s1, y) \<Rightarrow> (case thread f xs s1 of (s2, ys) \<Rightarrow> (s2, y # ys)))"

definition normalize_message :: "'d media \<Rightarrow> wire_format \<Rightarrow> capabilities \<Rightarrow> json \<Rightarrow> 'd \<times> stats \<Rightarrow> ('d \<times> stats) \<times> json" where
  "normalize_message M wire c m kt = (case jget ''content'' m of
       Some (JArr bs) \<Rightarrow> (case thread (normalize_block M wire c) bs kt of
         (kt1, bs1) \<Rightarrow> (kt1, case m of JObj d \<Rightarrow> JObj (AList.update ''content'' (JArr bs1) d) | _ \<Rightarrow> m))
     | _ \<Rightarrow> (kt, m))"

definition normalize_messages :: "'d media \<Rightarrow> wire_format \<Rightarrow> capabilities \<Rightarrow> json \<Rightarrow> 'd \<Rightarrow> ('d \<times> stats) \<times> json" where
  "normalize_messages M wire c ms k =
     (if \<not> understanding_enabled M then ((k, no_stats), ms)
      else (case ms of
          JArr xs \<Rightarrow> (case thread (normalize_message M wire c) xs (k, no_stats) of (kt, ys) \<Rightarrow> (kt, JArr ys))
        | _ \<Rightarrow> ((k, no_stats), ms)))"

definition normalize_request_messages :: "'d media \<Rightarrow> wire_format \<Rightarrow> string option \<Rightarrow> string \<Rightarrow> string option \<Rightarrow> json \<Rightarrow> 'd
    \<Rightarrow> ('d \<times> stats) \<times> json" where
  "normalize_request_messages M wire provider m inst ms k = (case provider of
       None \<Rightarrow> ((k, no_stats), ms)
     | Some p \<Rightarrow> if \<not> understanding_enabled M then ((k, no_stats), ms)
         else normalize_messages M wire (resolve_capabilities M p m inst) ms k)"

section \<open>The handlers' hooks\<close>

text \<open>\<open>chars\<close> is \<open>len(str(...))\<close>. The hook gets the billed user and the instance, implementation and model of the gate.\<close>

definition normalize_hook_for :: "'d media \<Rightarrow> (json \<Rightarrow> int) \<Rightarrow> wire_format \<Rightarrow> int \<Rightarrow> json \<Rightarrow> 'd \<Rightarrow> normalize_hook" where
  "normalize_hook_for M chars wire extra ms k u gate = (case gate of (inst, impl, m) \<Rightarrow>
     (case normalize_request_messages (M\<lparr>media_user := Some u\<rparr>) wire impl m inst ms k of
        ((_, t), ms1) \<Rightarrow> Inr (chars ms1 + extra, vision_usage t)))"

definition chat_hook :: "'d media \<Rightarrow> (json \<Rightarrow> int) \<Rightarrow> json \<Rightarrow> 'd \<Rightarrow> normalize_hook" where
  "chat_hook M chars ms = normalize_hook_for M chars Openai 0 ms"

text \<open>\<open>system or ""\<close> and \<open>instructions or ""\<close>.\<close>

definition messages_hook :: "'d media \<Rightarrow> (json \<Rightarrow> int) \<Rightarrow> json option \<Rightarrow> json \<Rightarrow> 'd \<Rightarrow> normalize_hook" where
  "messages_hook M chars system ms = normalize_hook_for M chars Anthropic
     (chars (if truthy_opt system then the system else JStr [])) ms"

definition responses_hook :: "'d media \<Rightarrow> (json \<Rightarrow> int) \<Rightarrow> json option \<Rightarrow> json \<Rightarrow> 'd \<Rightarrow> normalize_hook" where
  "responses_hook M chars instructions ms = normalize_hook_for M chars Responses
     (chars (if truthy_opt instructions then the instructions else JStr [])) ms"

section \<open>Lemmas\<close>

lemma thread_both:
  assumes "\<And>x t. \<exists>t' y. f x (d1, t) = ((d1, t'), y) \<and> g x (d2, t) = ((d2, t'), y)"
  shows "\<exists>t' ys. thread f xs (d1, t) = ((d1, t'), ys) \<and> thread g xs (d2, t) = ((d2, t'), ys)"
proof (induction xs arbitrary: t)
  case (Cons x xs)
  from assms[of x t] obtain t1 y where "f x (d1, t) = ((d1, t1), y)" "g x (d2, t) = ((d2, t1), y)" by blast
  with Cons[of t1] show ?case by auto
qed simp

lemma thread_outputs: "list_all2 (\<lambda>x y. \<exists>s. y = snd (f x s)) xs (snd (thread f xs s))"
proof (induction xs arbitrary: s)
  case (Cons x xs)
  obtain s1 y where y: "f x s = (s1, y)" by fastforce
  then have "\<exists>s. y = snd (f x s)" by (metis snd_conv)
  with Cons[of s1] y show ?case by (auto split: prod.split)
qed simp

text \<open>What does not look at the rows of the store does not depend on them.\<close>

lemma rows_irrelevant_text [simp]:
  "text_of (M\<lparr>media_rows := R\<rparr>) = text_of M" "or_label (M\<lparr>media_rows := R\<rparr>) = or_label M"
  by (auto simp: fun_eq_iff text_of_def or_label_def split: json.split)

lemma rows_irrelevant_calls [simp]:
  "describe_request (M\<lparr>media_rows := R\<rparr>) = describe_request M" "extract_sync (M\<lparr>media_rows := R\<rparr>) = extract_sync M"
  "ocr_image (M\<lparr>media_rows := R\<rparr>) = ocr_image M" "rasterize_pdf (M\<lparr>media_rows := R\<rparr>) = rasterize_pdf M"
  "resolve_extension (M\<lparr>media_rows := R\<rparr>) = resolve_extension M"
  unfolding fun_eq_iff describe_request_def extract_sync_def ocr_image_def rasterize_pdf_def resolve_extension_def Let_def
  by (simp_all cong: json.case_cong option.case_cong if_cong)

lemma rows_irrelevant_steps [simp]:
  "ocr_rendering (M\<lparr>media_rows := R\<rparr>) = ocr_rendering M" "describe_image (M\<lparr>media_rows := R\<rparr>) = describe_image M"
  unfolding fun_eq_iff ocr_rendering_def describe_image_def by (simp_all cong: sum.case_cong if_cong)

lemma rows_irrelevant [simp]:
  "extract_text_from_file (M\<lparr>media_rows := R\<rparr>) = extract_text_from_file M"
  "render_image (M\<lparr>media_rows := R\<rparr>) = render_image M"
  unfolding fun_eq_iff extract_text_from_file_def render_image_def
  by (simp_all cong: sum.case_cong option.case_cong prod.case_cong if_cong)

lemma describe_pages_rows [simp]: "describe_pages (M\<lparr>media_rows := R\<rparr>) i ps t = describe_pages M i ps t"
  by (induction ps arbitrary: i t) auto

lemma extract_rows [simp]: "extract_to_text (M\<lparr>media_rows := R\<rparr>) = extract_to_text M"
  by (rule ext)+ (simp add: extract_to_text_def describe_pdf_pages_def cong: option.case_cong sum.case_cong json.case_cong if_cong)

lemma inline_rows [simp]: "inline_passthrough (M\<lparr>media_rows := R\<rparr>) = inline_passthrough M"
  by (rule ext)+ (simp add: inline_passthrough_def cong: option.case_cong if_cong)

section \<open>What a request can see\<close>

text \<open>The live files of one user, with their bytes.\<close>

definition own_files :: "string list \<Rightarrow> string \<Rightarrow> disk file_server \<Rightarrow> (file_row \<times> bytes option) set" where
  "own_files base u st = {(r, local_held base (file_disk st) (file_id r)) | r.
     r \<in> set (file_rows st) \<and> file_user r = u \<and> file_deleted r = None}"

text \<open>Two stores that hold the same for the user: consistent, and with a disk that works.\<close>

definition same_for :: "string list \<Rightarrow> string \<Rightarrow> disk file_server \<Rightarrow> disk file_server \<Rightarrow> bool" where
  "same_for base u st1 st2 \<longleftrightarrow> local_ok base st1 \<and> local_ok base st2 \<and> io_faults (file_disk st1) = []
     \<and> io_faults (file_disk st2) = [] \<and> own_files base u st1 = own_files base u st2"

text \<open>Both runs return the same and leave their disks as they were.\<close>

definition agree :: "'d \<Rightarrow> 'd \<Rightarrow> 'd \<times> 'a \<Rightarrow> 'd \<times> 'a \<Rightarrow> bool" where
  "agree d1 d2 p1 p2 \<longleftrightarrow> (\<exists>x. p1 = (d1, x) \<and> p2 = (d2, x))"

lemma agree_same [intro]: "agree d1 d2 (d1, x) (d2, x)"
  by (simp add: agree_def)

lemma same_fetch:
  assumes "same_for base u st1 st2"
  shows "fetch_file (file_rows st1) i (Some u) t = fetch_file (file_rows st2) i (Some u) t"
proof -
  have d: "distinct (map file_id (file_rows st1))" "distinct (map file_id (file_rows st2))"
    using assms by (auto simp: same_for_def files_ok_def)
  have own: "r \<in> set (file_rows st) \<and> file_user r = u \<and> file_deleted r = None \<longleftrightarrow> r \<in> fst ` own_files base u st" for r st
    by (force simp: own_files_def)
  have "fetch_file (file_rows st1) i (Some u) t = Some r \<longleftrightarrow> fetch_file (file_rows st2) i (Some u) t = Some r" for r
    using own[of r st1] own[of r st2] assms unfolding fetch_file_iff[OF d(1)] fetch_file_iff[OF d(2)]
    by (auto simp: same_for_def)
  then show ?thesis by (metis option.exhaust)
qed

lemma same_held:
  assumes "same_for base u st1 st2" and "fetch_file (file_rows st1) i (Some u) t = Some r"
  shows "storage_ref r = shard i \<and> file_id_ok i \<and> local_held base (file_disk st1) i = local_held base (file_disk st2) i"
proof -
  have d: "distinct (map file_id (file_rows st1))" using assms by (auto simp: same_for_def files_ok_def)
  with assms(2) have r: "r \<in> set (file_rows st1)" "file_id r = i" "file_user r = u" "file_deleted r = None"
    by (auto simp: fetch_file_iff)
  then have "(r, local_held base (file_disk st1) i) \<in> own_files base u st2"
    using assms(1) by (auto simp: same_for_def own_files_def)
  with r assms(1) show ?thesis by (auto simp: same_for_def own_files_def files_ok_def)
qed

lemma same_load:
  assumes "same_for base u st1 st2" and "media_user M = Some u"
  shows "agree (file_disk st1) (file_disk st2)
    (load_file (M\<lparr>media_rows := file_rows st1\<rparr>) (local_dir_store base) i (file_disk st1))
    (load_file (M\<lparr>media_rows := file_rows st2\<rparr>) (local_dir_store base) i (file_disk st2))"
proof (cases "fetch_file (file_rows st1) i (Some u) (media_now M)")
  case None
  with same_fetch[OF assms(1), of i "media_now M"] show ?thesis by (simp add: load_file_def assms(2) agree_def)
next
  case (Some r)
  note held = same_held[OF assms(1) Some]
  have get: "local_get base (shard i) d = (d, case local_held base d i of None \<Rightarrow> Inl File_Not_Found | Some x \<Rightarrow> Inr x)"
    if "io_faults d = []" for d
    using held that by (simp add: local_get_def generated_ref disk_op_def local_held_def)
  have "io_faults (file_disk st1) = []" "io_faults (file_disk st2) = []" using assms(1) by (auto simp: same_for_def)
  with Some same_fetch[OF assms(1), of i "media_now M"] held show ?thesis
    by (auto simp: load_file_def assms(2) agree_def local_dir_store_def get split: option.split)
qed

lemma agree_case:
  assumes "agree d1 d2 p1 p2" and "\<And>x. agree d1 d2 (f d1 x) (f d2 x)"
  shows "agree d1 d2 (case p1 of (k, x) \<Rightarrow> f k x) (case p2 of (k, x) \<Rightarrow> f k x)"
  using assms by (auto simp: agree_def)

lemma same_resolve:
  assumes "same_for base u st1 st2" and "media_user M = Some u" and "media_store M = Some (local_dir_store base)"
  shows "agree (file_disk st1) (file_disk st2)
    (resolve_from_ref (M\<lparr>media_rows := file_rows st1\<rparr>) ref (file_disk st1))
    (resolve_from_ref (M\<lparr>media_rows := file_rows st2\<rparr>) ref (file_disk st2))"
proof (cases ref)
  case (JObj d)
  show ?thesis
  proof (cases "truthy_opt (map_of d ''file_id'')")
    case True
    from same_load[OF assms(1,2), of "text_of M (the (map_of d ''file_id''))"] show ?thesis
      unfolding JObj resolve_from_ref_def agree_def using True assms(3)
      by (auto split: sum.split option.split)
  qed (auto simp: resolve_from_ref_def JObj agree_def)
qed (auto simp: resolve_from_ref_def agree_def)

lemma same_classify:
  assumes "same_for base u st1 st2" and "media_user M = Some u" and "media_store M = Some (local_dir_store base)"
  shows "agree (file_disk st1) (file_disk st2)
    (classify (M\<lparr>media_rows := file_rows st1\<rparr>) wire b (file_disk st1))
    (classify (M\<lparr>media_rows := file_rows st2\<rparr>) wire b (file_disk st2))"
proof -
  have r: "\<exists>x. resolve_from_ref (M\<lparr>media_rows := file_rows st1\<rparr>) ref (file_disk st1) = (file_disk st1, x)
      \<and> resolve_from_ref (M\<lparr>media_rows := file_rows st2\<rparr>) ref (file_disk st2) = (file_disk st2, x)" for ref
    using same_resolve[OF assms, of ref] by (simp add: agree_def)
  have "agree (file_disk st1) (file_disk st2) (classify_file (M\<lparr>media_rows := file_rows st1\<rparr>) ref (file_disk st1))
    (classify_file (M\<lparr>media_rows := file_rows st2\<rparr>) ref (file_disk st2))" for ref
    using r[of ref] by (auto simp: classify_file_def agree_def split: sum.split)
  moreover have "agree (file_disk st1) (file_disk st2) (classify_image (M\<lparr>media_rows := file_rows st1\<rparr>) b (file_disk st1))
    (classify_image (M\<lparr>media_rows := file_rows st2\<rparr>) b (file_disk st2))"
    using r[of "JObj b"] by (auto simp: classify_image_def agree_def Let_def split: sum.split option.split)
  moreover have "agree (file_disk st1) (file_disk st2) (classify_anthropic (M\<lparr>media_rows := file_rows st1\<rparr>) kd b (file_disk st1))
    (classify_anthropic (M\<lparr>media_rows := file_rows st2\<rparr>) kd b (file_disk st2))" for kd
  proof (cases "or_else (JObj []) (map_of b ''source'')")
    case (JObj s)
    with r[of "JObj s"] show ?thesis
      by (auto simp: classify_anthropic_def agree_def Let_def split: sum.split option.split)
  qed (auto simp: classify_anthropic_def agree_def Let_def)
  ultimately show ?thesis by (auto simp: classify_def Let_def agree_def)
qed

lemma same_block:
  assumes "same_for base u st1 st2" and "media_user M = Some u" and "media_store M = Some (local_dir_store base)"
  shows "\<exists>t' y. normalize_block (M\<lparr>media_rows := file_rows st1\<rparr>) wire c b (file_disk st1, t) = ((file_disk st1, t'), y)
    \<and> normalize_block (M\<lparr>media_rows := file_rows st2\<rparr>) wire c b (file_disk st2, t) = ((file_disk st2, t'), y)"
proof (cases b)
  case (JObj d)
  from same_classify[OF assms(1-3), of wire d] obtain x where
    "classify (M\<lparr>media_rows := file_rows st1\<rparr>) wire d (file_disk st1) = (file_disk st1, x)"
    "classify (M\<lparr>media_rows := file_rows st2\<rparr>) wire d (file_disk st2) = (file_disk st2, x)"
    by (auto simp: agree_def)
  then show ?thesis unfolding normalize_block_def JObj normalize_dict_def
    by (auto split: sum.split option.split prod.split)
qed (auto simp: normalize_block_def)

lemma same_message:
  assumes "same_for base u st1 st2" and "media_user M = Some u" and "media_store M = Some (local_dir_store base)"
  shows "\<exists>t' y. normalize_message (M\<lparr>media_rows := file_rows st1\<rparr>) wire c m (file_disk st1, t) = ((file_disk st1, t'), y)
    \<and> normalize_message (M\<lparr>media_rows := file_rows st2\<rparr>) wire c m (file_disk st2, t) = ((file_disk st2, t'), y)"
proof (cases "jget ''content'' m")
  case (Some v)
  show ?thesis
  proof (cases v)
    case (JArr bs)
    from thread_both[where f = "normalize_block (M\<lparr>media_rows := file_rows st1\<rparr>) wire c"
        and g = "normalize_block (M\<lparr>media_rows := file_rows st2\<rparr>) wire c", OF same_block[OF assms], of bs t]
    show ?thesis unfolding normalize_message_def Some JArr by auto
  qed (auto simp: normalize_message_def Some)
qed (auto simp: normalize_message_def)

lemma resolve_capabilities_rows [simp]: "resolve_capabilities (M\<lparr>media_rows := R\<rparr>) = resolve_capabilities M"
proof -
  have "first_override (M\<lparr>media_rows := R\<rparr>) ks = first_override M ks" for ks
    by (induction ks) (auto split: option.split)
  then show ?thesis by (simp add: fun_eq_iff resolve_capabilities_def Let_def cong: option.case_cong if_cong)
qed

section \<open>Stored bytes\<close>

text \<open>A block is rewritten only with the bytes of a live file of the user.\<close>

definition stored_as :: "'d media \<Rightarrow> 'd \<Rightarrow> file_row \<Rightarrow> bytes \<Rightarrow> bool" where
  "stored_as M k r x \<longleftrightarrow> r \<in> set (media_rows M) \<and> Some (file_user r) = media_user M \<and> file_deleted r = None
     \<and> \<not> is_expired r (media_now M) \<and> (\<exists>S. media_store M = Some S \<and> snd (store_get S (storage_ref r) k) = Inr x)"

lemma resolved_stored:
  assumes "resolve_from_ref M ref k = (k', Inr (Some (x, mime, name, True)))"
  shows "\<exists>r. stored_as M k r x \<and> mime = JStr (mime_type r) \<and> name = JStr (file_name r)"
  using assms
  by (auto simp: resolve_from_ref_def load_file_def fetch_file_Some find_Some_iff stored_as_def inline_ref_def
      split: json.splits option.splits if_splits prod.splits sum.splits) (metis nth_mem snd_conv)+

lemma resolved_source_inline:
  assumes "resolve_from_ref M ref k = (k', Inr (Some p))" and "needs_inline (resolved_source kd p)"
  shows "\<exists>r x. stored_as M k r x \<and> src_data (resolved_source kd p) = Some x
    \<and> src_mime (resolved_source kd p) = JStr (mime_type r) \<and> src_name (resolved_source kd p) = JStr (file_name r)"
proof -
  obtain x mime name f where p: "p = (x, mime, name, f)" by (cases p)
  with assms(2) have "f = True" by (simp add: resolved_source_def)
  with resolved_stored[of M ref k k' x mime name] assms(1) p show ?thesis by (auto simp: resolved_source_def)
qed

lemma plain_not_inline [simp]: "\<not> needs_inline (plain_source kd x mime)" "url_source url = Some s \<Longrightarrow> \<not> needs_inline s"
  by (auto simp: plain_source_def url_source_def split: option.splits json.splits prod.splits)

lemma classified_inline:
  assumes "classify M wire b k = (k', Inr (Some s))" and "needs_inline s"
  shows "\<exists>r x. stored_as M k r x \<and> src_data s = Some x \<and> src_mime s = JStr (mime_type r) \<and> src_name s = JStr (file_name r)"
  using assms
  by (auto simp: classify_def classify_image_def classify_file_def classify_anthropic_def Let_def
      split: if_splits prod.splits sum.splits option.splits json.splits
      dest: resolved_source_inline plain_not_inline(2))

text \<open>A reader of the rewritten block decodes the same bytes, with no file store at hand.\<close>

lemma inline_decodes:
  assumes "src_data s = Some x" and "src_mime s = JStr mime" and "CHR '','' \<notin> set mime"
  shows "\<exists>d. inline_passthrough M b wire s = JObj d \<and> (\<forall>(N :: 'e media) k. \<exists>s'. classify N wire d k = (k, Inr (Some s'))
    \<and> src_data s' = Some x \<and> src_kind s' = src_kind s \<and> \<not> needs_inline s')"
proof -
  obtain u where u: "to_data_url x mime = u" "fst (decode_data_url u) = Some x" "starts_with ''data:'' u" "u \<noteq> []"
    using decode_data_url_roundtrip[OF assms(3)] by (auto simp: to_data_url_def starts_with_def)
  obtain m where m: "decode_data_url u = (Some x, m)" using u(2) by (cases "decode_data_url u") auto
  have a: "decode_data_url (''data:'' @ mime @ '';base64,'' @ b64encode x) = (Some x, m)"
    using m u(1) by (simp add: to_data_url_def)
  then show ?thesis
    using assms m u(1,3,4)
    by (cases wire; cases "src_kind s"; cases "truthy (src_name s)")
      (auto simp: inline_passthrough_def text_of_def classify_def classify_anthropic_def classify_image_def classify_file_def
        resolve_from_ref_def inline_ref_def first_truthy_def or_else_def image_url_of_def url_source_def plain_source_def
        resolved_source_def filename_field_def truthy_opt_def Let_def)
qed

section \<open>Sample data\<close>

definition media0 :: "disk media" where
  "media0 = \<lparr>understanding_enabled = True, vision_strategy = ''describe'', describe_model = Some ''local:llama'',
     describe_max_tokens = 10, media_providers = providers0, model_capabilities = [], provider_metadata = (\<lambda>_. None),
     guess_extension = (\<lambda>_. None), markitdown = (\<lambda>_ _. Not_Installed), render_pdf = (\<lambda>_. No_Renderer),
     run_ocr = (\<lambda>_. No_Ocr), complete_vision = (\<lambda>_. Described (Some \<lparr>prompt_tokens = 7, completion_tokens = 3,
       total_tokens = 10, prompt_tokens_details = None\<rparr>) (Some (JStr ''cat''))), py_text = (\<lambda>_. []),
     media_store = Some (local_dir_store [''data'']), media_rows = [], media_user = Some ''u'', media_now = 6\<rparr>"

definition user_message :: "json \<Rightarrow> json" where
  "user_message content = JObj [(''role'', JStr ''user''), (''content'', content)]"

definition file_block :: "(string, json) dict" where
  "file_block = [(''type'', JStr ''file''), (''file'', JObj [(''file_id'', JStr file_id0)])]"

definition image_block :: "(string, json) dict" where
  "image_block = [(''type'', JStr ''image_url''), (''image_url'', JObj [(''url'', JStr (to_data_url ''hi'' ''image/png''))])]"

lemma stored0_ok: "local_ok [''data''] stored0"
  by (rule local_blobs.create_ok[OF upload0_stored id0_ok _ server0_ok]) (simp add: file_server0_def)

lemma private0: "same_for [''data''] ''v'' file_server0 stored0"
  using server0_ok stored0_ok
  by (auto simp: same_for_def own_files_def file_server0_def stored0_def file_row0_def new_file_def)

lemma image0_described:
  "normalize_block media0 Openai \<lparr>cap_image = False, cap_pdf = False\<rparr> (JObj image_block) (k, no_stats) =
    ((k, no_stats\<lparr>vision_prompt_tokens := 7, vision_completion_tokens := 3, images_described := 1, chars_added := 32\<rparr>),
     text_block Openai (''[Attached image description]'' @ newline @ ''cat''))"
proof -
  have d: "decode_data_url (to_data_url ''hi'' ''image/png'') = (Some ''hi'', ''image/png'')"
    using decode_data_url_base64[of "''image/png''" "b64encode ''hi''"]
    by (simp add: to_data_url_def before_first_def partition_at_def del: b64encode.simps)
  have r: "resolve_provider_selector providers0 ''local:llama'' = Inr \<lparr>instance_name = ''local'',
     provider_impl = ''openai'', model_name = ''llama'', call_kwargs = [(''api_key'', JStr ''k'')]\<rparr>"
    using local_resolves by (simp add: pipeline0_def request0_def)
  have c: "py_strip ''cat'' = ''cat''" by (simp add: py_strip_def py_lstrip_def py_rstrip_def is_space_def)
  have cl: "classify media0 Openai image_block k = (k, Inr (Some (plain_source Image_Block (Some ''hi'') (JStr ''image/png''))))"
    by (simp add: classify_def classify_image_def image_block_def image_url_of_def url_source_def d Let_def)
  have di: "describe_image media0 url = Inr (Some ''cat'', Some \<lparr>prompt_tokens = 7, completion_tokens = 3,
       total_tokens = 10, prompt_tokens_details = None\<rparr>)" for url
    by (simp add: describe_image_def media0_def given_def r c)
  have n: "py_len (''[Attached image description]'' @ newline @ ''cat'') = 32"
    by (simp add: py_len_def)
  show ?thesis
    using n by (simp add: normalize_block_def normalize_dict_def cl native_def plain_source_def extract_to_text_def render_image_def
        di add_vision_def count_rendered_def no_stats_def Let_def) (simp add: media0_def)
qed

section \<open>Properties\<close>

text \<open>C26. Attachments do not cross users. For two stores that hold the same live files for the requesting user, whatever
  files and bytes other users have in them, the normalized request, the tallies that are billed and the
  disk are the same: nothing of another user's files reaches the request, not even their existence.\<close>

theorem attachments_stay_private:
  assumes "same_for base u st1 st2" and "media_user M = Some u" and "media_store M = Some (local_dir_store base)"
  shows "\<exists>t ms'. normalize_request_messages (M\<lparr>media_rows := file_rows st1\<rparr>) wire provider m inst ms (file_disk st1)
      = ((file_disk st1, t), ms')
    \<and> normalize_request_messages (M\<lparr>media_rows := file_rows st2\<rparr>) wire provider m inst ms (file_disk st2)
      = ((file_disk st2, t), ms')"
proof -
  note walk = thread_both[where f = "normalize_message (M\<lparr>media_rows := file_rows st1\<rparr>) wire c"
      and g = "normalize_message (M\<lparr>media_rows := file_rows st2\<rparr>) wire c" for c, OF same_message[OF assms]]
  have "\<exists>t ms'. normalize_messages (M\<lparr>media_rows := file_rows st1\<rparr>) wire c ms (file_disk st1) = ((file_disk st1, t), ms')
    \<and> normalize_messages (M\<lparr>media_rows := file_rows st2\<rparr>) wire c ms (file_disk st2) = ((file_disk st2, t), ms')" for c
  proof (cases ms)
    case (JArr xs)
    from walk[of c xs no_stats] show ?thesis unfolding normalize_messages_def JArr by auto
  qed (auto simp: normalize_messages_def)
  then show ?thesis by (auto simp: normalize_request_messages_def split: option.split)
qed

lemma attachments_stay_private_witness:
  "snd (normalize_request_messages (media0\<lparr>media_user := Some ''v'', media_rows := file_rows stored0\<rparr>) Openai (Some ''openai'')
      ''llama'' None (JArr [user_message (JArr [JObj file_block])]) (file_disk stored0)) =
    snd (normalize_request_messages (media0\<lparr>media_user := Some ''v'', media_rows := file_rows file_server0\<rparr>) Openai (Some ''openai'')
      ''llama'' None (JArr [user_message (JArr [JObj file_block])]) (file_disk file_server0))"
proof -
  from attachments_stay_private[OF private0, of "media0\<lparr>media_user := Some ''v''\<rparr>" Openai "Some ''openai''" "''llama''" None
      "JArr [user_message (JArr [JObj file_block])]"]
  show ?thesis by (auto simp: media0_def)
qed


definition unhandled :: "'d media \<Rightarrow> wire_format \<Rightarrow> json \<Rightarrow> bool" where
  "unhandled M wire b \<longleftrightarrow> (case b of
       JObj d \<Rightarrow> (\<exists>k. (case snd (classify M wire d k) of
           Inl _ \<Rightarrow> True | Inr None \<Rightarrow> True | Inr (Some s) \<Rightarrow> (\<exists>t. isl (snd (extract_to_text M s t)))))
     | _ \<Rightarrow> True)"

definition as_text :: "'d media \<Rightarrow> wire_format \<Rightarrow> json \<Rightarrow> json \<Rightarrow> bool" where
  "as_text M wire b b' \<longleftrightarrow> (\<exists>txt. b' = text_block wire txt) \<or> b' = b \<and> unhandled M wire b"

lemma normalize_block_text:
  assumes "\<not> cap_image c" and "\<not> cap_pdf c"
  shows "as_text M wire b (snd (normalize_block M wire c b kt))"
proof (cases b)
  case (JObj d)
  have n: "\<not> native c kd" for kd using assms by (simp add: native_def)
  obtain k x where x: "classify M wire d (fst kt) = (k, x)" by fastforce
  then have e: "snd (classify M wire d (fst kt)) = x" by simp
  show ?thesis
  proof (cases "unhandled M wire b")
    case True
    then show ?thesis using x n JObj
      by (auto simp: as_text_def normalize_block_def normalize_dict_def split: sum.split option.split prod.split)
  next
    case False
    then have "\<forall>k. \<not> (case snd (classify M wire d k) of
        Inl _ \<Rightarrow> True | Inr None \<Rightarrow> True | Inr (Some s) \<Rightarrow> (\<exists>t. isl (snd (extract_to_text M s t))))"
      by (simp add: unhandled_def JObj)
    from spec[OF this, of "fst kt"] e obtain s where s: "x = Inr (Some s)" "\<forall>t. \<not> isl (snd (extract_to_text M s t))"
      by (auto split: sum.splits option.splits)
    obtain t y where t: "extract_to_text M s (snd kt) = (t, y)" by fastforce
    with s(2) have "\<not> isl y" by (metis snd_conv)
    then show ?thesis using x n JObj s(1) t
      by (auto simp: as_text_def normalize_block_def normalize_dict_def split: sum.split option.split prod.split)
  qed
qed (simp_all add: normalize_block_def as_text_def unhandled_def)

lemma normalize_message_text:
  assumes "\<not> cap_image c" and "\<not> cap_pdf c"
  shows "case jget ''content'' m of
      Some (JArr bs) \<Rightarrow> \<exists>d bs'. m = JObj d \<and> snd (normalize_message M wire c m kt) = JObj (AList.update ''content'' (JArr bs') d)
        \<and> list_all2 (as_text M wire) bs bs'
    | _ \<Rightarrow> snd (normalize_message M wire c m kt) = m"
proof (cases "jget ''content'' m")
  case (Some v)
  then obtain d where m: "m = JObj d" by (cases m) auto
  show ?thesis
  proof (cases v)
    case (JArr bs)
    have "list_all2 (as_text M wire) bs (snd (thread (normalize_block M wire c) bs kt))"
      by (rule list_all2_mono[OF thread_outputs]) (auto intro: normalize_block_text[OF assms])
    then show ?thesis unfolding Some JArr using Some JArr m
      by (auto simp: normalize_message_def split: prod.split)
  qed (use Some in \<open>simp_all add: normalize_message_def\<close>)
qed (simp add: normalize_message_def)


text \<open>What a text-only model is sent. Every message keeps its place, role and other fields, plain-text messages are
  untouched, and of a message with content blocks every block is at its place either a text block or the
  original one, which then is no attachment the normalizer recognises or one whose processing raised.\<close>

theorem text_only_requests:
  assumes "\<not> cap_image c" and "\<not> cap_pdf c" and "understanding_enabled M"
  shows "\<exists>ms'. snd (normalize_messages M wire c (JArr ms) k) = JArr ms' \<and> list_all2 (\<lambda>m m'. case jget ''content'' m of
      Some (JArr bs) \<Rightarrow> \<exists>d bs'. m = JObj d \<and> m' = JObj (AList.update ''content'' (JArr bs') d)
        \<and> list_all2 (as_text M wire) bs bs'
    | _ \<Rightarrow> m' = m) ms ms'"
proof (intro exI conjI)
  show "snd (normalize_messages M wire c (JArr ms) k) = JArr (snd (thread (normalize_message M wire c) ms (k, no_stats)))"
    using assms(3) by (simp add: normalize_messages_def split: prod.split)
  show "list_all2 (\<lambda>m m'. case jget ''content'' m of
      Some (JArr bs) \<Rightarrow> \<exists>d bs'. m = JObj d \<and> m' = JObj (AList.update ''content'' (JArr bs') d)
        \<and> list_all2 (as_text M wire) bs bs'
    | _ \<Rightarrow> m' = m) ms (snd (thread (normalize_message M wire c) ms (k, no_stats)))"
  proof (rule list_all2_mono[OF thread_outputs])
    fix m m' assume "\<exists>s. m' = snd (normalize_message M wire c m s)"
    then obtain s where "m' = snd (normalize_message M wire c m s)" ..
    with normalize_message_text[OF assms(1,2), where m = m and M = M and wire = wire and kt = s]
    show "case jget ''content'' m of
        Some (JArr bs) \<Rightarrow> \<exists>d bs'. m = JObj d \<and> m' = JObj (AList.update ''content'' (JArr bs') d)
          \<and> list_all2 (as_text M wire) bs bs'
      | _ \<Rightarrow> m' = m" by (simp only:)
  qed
qed

definition without_vision :: "normalize_hook \<Rightarrow> normalize_hook" where
  "without_vision hook u gate = (case hook u gate of Inl e \<Rightarrow> Inl e | Inr (n, _) \<Rightarrow> Inr (n, None))"

lemma text_only_requests_witness:
  "snd (normalize_messages media0 Openai \<lparr>cap_image = False, cap_pdf = False\<rparr> (JArr [user_message (JStr ''hi'')]) (file_disk stored0)) =
    JArr [user_message (JStr ''hi'')]"
proof -
  have "understanding_enabled media0" by (simp add: media0_def)
  from text_only_requests[of "\<lparr>cap_image = False, cap_pdf = False\<rparr>", OF _ _ this, of Openai "[user_message (JStr ''hi'')]" "file_disk stored0"]
  show ?thesis by (auto simp: user_message_def list_all2_Cons1)
qed

text \<open>A side call nobody pays for. When the reservation cannot be raised to the size of the normalized request, the
  request is rejected before its vision calls are billed: what the rejection leaves and answers is the
  same as if they had not been made, no usage row and no spend.\<close>

theorem rejected_side_call_unbilled:
  assumes "snd (snd (setup_request P A q (without_vision (normalize_hook_for M chars wire extra ms k)) api_key u gate price est h s))
      = Some err"
  shows "setup_request P A q (normalize_hook_for M chars wire extra ms k) api_key u gate price est h s =
    setup_request P A q (without_vision (normalize_hook_for M chars wire extra ms k)) api_key u gate price est h s"
  using assms unfolding setup_request_def without_vision_def
  by (auto split: sum.splits prod.splits option.splits normalize_error.splits budget_error.splits)

lemma hook0:
  "normalize_hook_for media0 (\<lambda>_. 44000000) Openai 0 (JArr [user_message (JArr [JObj image_block])]) k ''u''
    (Some ''local'', Some ''openai'', ''llama'') = Inr (44000000, Some (Completion_Usage \<lparr>prompt_tokens = 7,
      completion_tokens = 3, total_tokens = 10, prompt_tokens_details = None\<rparr>))"
proof -
  have m: "media0\<lparr>media_user := Some ''u''\<rparr> = media0" by (simp add: media0_def)
  have c: "resolve_capabilities media0 ''openai'' ''llama'' (Some ''local'') = \<lparr>cap_image = False, cap_pdf = False\<rparr>"
    by (simp add: resolve_capabilities_def media0_def Let_def)
  have e: "understanding_enabled media0" by (simp add: media0_def)
  show ?thesis
    by (simp add: normalize_hook_for_def m normalize_request_messages_def e normalize_messages_def c normalize_message_def
        user_message_def image0_described vision_usage_def)
qed

lemma topup_rejected:
  "increase_reservation env0 (sdb (gw_server gateway0)) (no_reservation ''u'' ''cas'') 11 (Some ''local:llama'') (Some ''cas'') 5
    = (sdb (gw_server gateway0), Inl (exceeded_error ''u''))"
proof -
  let ?d = "store0\<lparr>pricing := [price0 ''local:llama'', price0 ''gpt'']\<rparr>"
  have row: "get_active_user ?d ''u'' = Some user0" by (simp add: get_active_user_def store0_def user0_def)
  have u: "\<not> blocked user0" "\<not> reset_due 5 user0" by (simp_all add: user0_def reset_due_def)
  have b: "budget_of ?d user0 = Some (''b'', budget0)" by (simp add: budget_of_def given_def user0_def store0_def)
  have "find_price env0 ?d None ''local:llama'' 5 = Some (price0 ''local:llama'')"
    by (simp add: find_price_def find_model_pricing_def pricing_key_def given_def find_by_model_key_def price0_def)
  then have fr: "\<not> model_is_free env0 ?d (Some ''local:llama'') 5"
    by (simp add: model_is_free_def is_model_free_def given_def env0_def price0_def)
  have "reserve_budget env0 ?d ''u'' 11 (Some ''local:llama'') (Some ''cas'') 5 = take_reservation ?d ''u'' 11 ''cas'' (Some 10)"
    using reserve_budget_enforced[OF row u(1) _ b, of "Some ''cas''" env0 11 "Some ''local:llama''" 5] u(2) fr
    by (simp add: cas_normal reserve_after_reset_def budget0_def)
  also have "\<dots> = (?d, Inl (exceeded_error ''u''))"
    by (simp add: take_reservation_def update_user_def row fits_def) (simp add: user0_def store0_def commit_def)
  finally show ?thesis by (simp add: increase_reservation_def no_reservation_def gateway0_def)
qed

lemma rejected_side_call_unbilled_witness:
  "setup_request pipeline0 chat_adapter (request0 ''local:llama'')
      (normalize_hook_for media0 (\<lambda>_. 44000000) Openai 0 (JArr [user_message (JArr [JObj image_block])]) (file_disk stored0))
      None ''u'' (Some ''local'', Some ''openai'', ''llama'') (Some (price0 ''local:llama'')) 0 (no_reservation ''u'' ''cas'')
      (gw_server gateway0)
    = (gw_server gateway0, no_reservation ''u'' ''cas'',
       Some (Pipe_Http (http_error 403 (''User '' @ quoted ''u'' @ '' has exceeded budget limit''))))"
proof -
  have est: "estimate_cost (Some (price0 ''local:llama'')) 44000000 (Some 0) 1000 = 11"
    by (simp add: estimate_cost_def price0_def Let_def)
  let ?hook = "normalize_hook_for media0 (\<lambda>_. 44000000) Openai 0 (JArr [user_message (JArr [JObj image_block])]) (file_disk stored0)"
  have w: "without_vision ?hook ''u'' (Some ''local'', Some ''openai'', ''llama'') = Inr (44000000, None)"
    by (simp add: without_vision_def hook0)
  have s: "setup_request pipeline0 chat_adapter (request0 ''local:llama'') (without_vision ?hook)
      None ''u'' (Some ''local'', Some ''openai'', ''llama'') (Some (price0 ''local:llama'')) 0 (no_reservation ''u'' ''cas'')
      (gw_server gateway0) = (gw_server gateway0, no_reservation ''u'' ''cas'',
       Some (Pipe_Http (http_error 403 (''User '' @ quoted ''u'' @ '' has exceeded budget limit''))))"
    unfolding setup_request_def w using est topup_rejected
    by (simp add: in_db_def pipeline0_def request0_def exceeded_error_def)
  have "snd (snd (setup_request pipeline0 chat_adapter (request0 ''local:llama'') (without_vision ?hook)
      None ''u'' (Some ''local'', Some ''openai'', ''llama'') (Some (price0 ''local:llama'')) 0 (no_reservation ''u'' ''cas'')
      (gw_server gateway0))) = Some (Pipe_Http (http_error 403 (''User '' @ quoted ''u'' @ '' has exceeded budget limit'')))"
    unfolding s by simp
  from rejected_side_call_unbilled[OF this] s show ?thesis by simp
qed

text \<open>An upload id that is not the caller's leaves an OpenAI file block as it is, for a text-only model too, while
  the Anthropic format drops such a block with a marker.\<close>

lemma unknown_file_forwarded:
  assumes "media_store M = Some S" and "fetch_file (media_rows M) i (media_user M) (media_now M) = None" and "i \<noteq> []"
  shows "normalize_dict M Openai c [(''type'', JStr ''file''), (''file'', JObj [(''file_id'', JStr i)])] kt =
      (kt, JObj [(''type'', JStr ''file''), (''file'', JObj [(''file_id'', JStr i)])])"
    and "\<not> cap_pdf c \<Longrightarrow> snd (normalize_dict M Anthropic c [(''type'', JStr ''document''),
      (''source'', JObj [(''type'', JStr ''file''), (''file_id'', JStr i)])] kt) = text_block Anthropic (omitted_marker Document_Block)"
  using assms by (simp_all add: normalize_dict_def classify_def classify_file_def classify_anthropic_def or_else_def
      resolve_from_ref_def load_file_def text_of_def plain_source_def native_def extract_to_text_def Let_def)

text \<open>Rewriting an Anthropic block keeps none of its other fields, a cache breakpoint included.\<close>

lemma rewriting_drops_fields:
  "src_data s = Some x \<Longrightarrow> jget ''cache_control'' (inline_passthrough M b Anthropic s) = None"
  by (simp add: inline_passthrough_def Let_def)

end
