(* ===== verification/Config.thy ===== *)
theory Config
  imports Encoding Providers Pricing
begin

text \<open>
  The configuration loader (\<open>core/config.py\<close>): \<open>.env\<close> files, the YAML file, the structured configuration of
  the environment, the \<open>OTARI_\<close> overrides, the platform settings and the start-up checks.

  The process environment is a dictionary. Third-party code is a parameter: python-dotenv, the YAML parser,
  pydantic (\<open>gateway_config\<close>) and any-llm's provider names; so are the file system and Python's reading of
  numbers, since the model's floats are rationals. Each exception is a constructor of \<open>config_error\<close>; the
  texts of the messages are left out.
\<close>

type_synonym vars = "(string, string) dict"

datatype config_error =
    Bad_Base64
  | Bad_Yaml string
  | Not_A_Mapping string
  | Bad_Top_Level
  | Unset_Variable string
  | Bad_Boolean string
  | Bad_Number string
  | Bad_Setting string
  | Bad_Mode
  | Missing_Token
  | Bad_Instance string
  | Bad_Choice string

section \<open>The operating mode\<close>

definition platform_token_env_vars :: "string list" where
  "platform_token_env_vars = [''OTARI_AI_TOKEN'', ''OTARI_PLATFORM_TOKEN'', ''ANY_LLM_PLATFORM_TOKEN'']"

fun first_token :: "vars \<Rightarrow> string list \<Rightarrow> string option" where
  "first_token v [] = None"
| "first_token v (n # ns) = (let t = py_strip (case map_of v n of None \<Rightarrow> '''' | Some x \<Rightarrow> x) in
     if t \<noteq> [] then Some t else first_token v ns)"

definition get_platform_token_from_env :: "vars \<Rightarrow> string option" where
  "get_platform_token_from_env v = first_token v platform_token_env_vars"

definition effective_mode :: "vars \<Rightarrow> string" where
  "effective_mode v = (if get_platform_token_from_env v \<noteq> None then ''hybrid'' else ''standalone'')"

definition is_hybrid_mode :: "vars \<Rightarrow> bool" where
  "is_hybrid_mode v = (effective_mode v = ''hybrid'')"

section \<open>The fields of the configuration\<close>

text \<open>Annotations as \<open>typing\<close> shows them: the scalar types, unions and parameterized generics.\<close>

datatype annotation = T_bool | T_int | T_float | T_str | T_none | T_union "annotation list" | T_generic

definition optional_of :: "annotation \<Rightarrow> annotation" where
  "optional_of a = T_union [a, T_none]"

definition gateway_fields :: "(string \<times> annotation) list" where
  "gateway_fields = [
     (''database_url'', T_str), (''auto_migrate'', T_bool), (''db_pool_size'', T_int), (''db_max_overflow'', T_int),
     (''db_pool_timeout'', T_float), (''db_pool_recycle'', T_int), (''host'', T_str), (''port'', T_int),
     (''master_key'', optional_of T_str), (''rate_limit_rpm'', optional_of T_int), (''cors_allow_origins'', T_generic),
     (''providers'', T_generic), (''pricing'', T_generic), (''enable_metrics'', T_bool), (''enable_docs'', T_bool),
     (''bootstrap_api_key'', T_bool), (''log_writer_strategy'', T_str), (''budget_strategy'', T_str),
     (''require_pricing'', T_bool), (''default_pricing'', T_bool), (''reject_user_mismatch'', T_bool),
     (''budget_estimate_default_output_tokens'', T_int), (''stream_missing_usage_policy'', T_str),
     (''model_discovery'', T_bool), (''model_cache_ttl_seconds'', T_int), (''files_enabled'', T_bool),
     (''files_backend'', T_str), (''files_local_dir'', T_str), (''files_max_bytes'', T_int),
     (''files_retention_hours'', optional_of T_int), (''file_understanding_enabled'', T_bool), (''vision_strategy'', T_str),
     (''vision_describe_model'', optional_of T_str), (''vision_describe_max_tokens'', T_int),
     (''model_capabilities'', T_generic), (''mode'', T_str), (''platform'', T_generic)]"

text \<open>The validators of single fields.\<close>

definition validate_choice :: "string list \<Rightarrow> string \<Rightarrow> (config_error, string) result" where
  "validate_choice allowed s = (let n = py_lower (py_strip s) in if n \<in> set allowed then Inr n else Inl (Bad_Choice s))"

definition validate_stream_missing_usage_policy :: "string \<Rightarrow> (config_error, string) result" where
  "validate_stream_missing_usage_policy = validate_choice [''estimate'', ''fail'', ''allow_free'']"

definition validate_vision_strategy :: "string \<Rightarrow> (config_error, string) result" where
  "validate_vision_strategy = validate_choice [''describe'', ''ocr'', ''off'']"

text \<open>The settings that start-up reads.\<close>

record settings =
  set_database_url :: string
  set_migrate :: bool
  set_pool :: "int \<times> int \<times> rat \<times> int"
  set_host :: string
  set_port :: int
  set_master :: "string option"
  set_mode :: string
  set_platform :: "(string, json) dict"
  set_providers :: providers_config
  set_origins :: "string list"
  set_metrics :: bool
  set_docs :: bool
  set_rpm :: "int option"

record host =
  cwd_dotenv :: string
  dotenv_beside :: "string \<Rightarrow> string"
  path_exists :: "string \<Rightarrow> bool"
  dotenv_load :: "string \<Rightarrow> vars \<Rightarrow> vars"
  file_text :: "string \<Rightarrow> string"
  safe_load :: "string \<Rightarrow> (string, json) result"
  int_of :: "string \<Rightarrow> int option"
  float_of :: "string \<Rightarrow> rat option"
  gateway_config :: "vars \<Rightarrow> (string, json) dict \<Rightarrow> (string, settings) result"

section \<open>References to environment variables\<close>

text \<open>\<open>re.sub\<close> replaces the matches of a dollar, an opening brace, a non-empty run of characters other than the
  closing brace, and the closing brace, from left to right.\<close>

definition match_ref :: "string \<Rightarrow> (string \<times> string) option" where
  "match_ref s = (if starts_with ''${'' s then
       (case split_once (CHR ''}'') (drop 2 s) of Some (n, rest) \<Rightarrow> if n = [] then None else Some (n, rest) | None \<Rightarrow> None)
     else None)"

lemma match_ref_length: "match_ref s = Some (n, rest) \<Longrightarrow> length rest < length s"
  by (auto simp: match_ref_def starts_with_iff dest!: split_once_SomeD split: if_splits option.splits)

function sub_refs :: "vars \<Rightarrow> string \<Rightarrow> (config_error, string) result" where
  "sub_refs v [] = Inr []"
| "sub_refs v (c # s) = (case match_ref (c # s) of
       Some (n, rest) \<Rightarrow> (case map_of v n of
           None \<Rightarrow> Inl (Unset_Variable n)
         | Some x \<Rightarrow> rbind (sub_refs v rest) (\<lambda>r. Inr (x @ r)))
     | None \<Rightarrow> rbind (sub_refs v s) (\<lambda>r. Inr (c # r)))"
  by pat_completeness auto
termination
  by (relation "measure (\<lambda>(v, s). length s)") (auto dest: match_ref_length)

fun resolve_env_vars :: "vars \<Rightarrow> json \<Rightarrow> (config_error, json) result"
  and resolve_items :: "vars \<Rightarrow> (string \<times> json) list \<Rightarrow> (config_error, (string \<times> json) list) result"
  and resolve_list :: "vars \<Rightarrow> json list \<Rightarrow> (config_error, json list) result" where
  "resolve_env_vars v (JObj d) = rbind (resolve_items v d) (\<lambda>d. Inr (JObj d))"
| "resolve_env_vars v (JArr xs) = rbind (resolve_list v xs) (\<lambda>xs. Inr (JArr xs))"
| "resolve_env_vars v (JStr s) = (if contains ''${'' s then rbind (sub_refs v s) (\<lambda>s. Inr (JStr s)) else Inr (JStr s))"
| "resolve_env_vars v x = Inr x"
| "resolve_items v [] = Inr []"
| "resolve_items v ((k, x) # d) = rbind (resolve_env_vars v x) (\<lambda>y. rbind (resolve_items v d) (\<lambda>d. Inr ((k, y) # d)))"
| "resolve_list v [] = Inr []"
| "resolve_list v (x # xs) = rbind (resolve_env_vars v x) (\<lambda>y. rbind (resolve_list v xs) (\<lambda>ys. Inr (y # ys)))"

section \<open>The structured configuration of the environment\<close>

text \<open>\<open>base64.b64decode\<close> with \<open>validate=True\<close>: characters outside the alphabet, leading padding, data after
  padding and padding inside a group raise. \<open>st\<close> says that padding has begun.\<close>

fun a2b_strict :: "nat \<Rightarrow> bool \<Rightarrow> nat \<Rightarrow> nat \<Rightarrow> string \<Rightarrow> bytes option" where
  "a2b_strict q st pads left [] = (if q = 0 then Some [] else None)"
| "a2b_strict q st pads left (c # s) =
     (if c = CHR ''='' then
        (if q < 2 then a2b_strict q True pads left s
         else if 4 \<le> q + Suc pads then (if s = [] then Some [] else None) else a2b_strict q True (Suc pads) left s)
      else (case b64_value c of
          None \<Rightarrow> None
        | Some v \<Rightarrow>
            if st then None
            else if q = 0 then a2b_strict 1 st 0 v s
            else if q = 1 then map_option (\<lambda>d. char_of (left * 4 + v div 16) # d) (a2b_strict 2 st 0 (v mod 16) s)
            else if q = 2 then map_option (\<lambda>d. char_of (left * 16 + v div 4) # d) (a2b_strict 3 st 0 (v mod 4) s)
            else map_option (\<lambda>d. char_of (left * 64 + v) # d) (a2b_strict 0 st 0 0 s)))"

definition b64decode_strict :: "string \<Rightarrow> bytes option" where
  "b64decode_strict s = (if \<not> ascii s \<or> starts_with ''='' s then None else a2b_strict 0 False 0 0 s)"

text \<open>Well-formed UTF-8: no overlong forms, surrogates or code points above the last plane.\<close>

definition cont_byte :: "char \<Rightarrow> bool" where
  "cont_byte c \<longleftrightarrow> 128 \<le> ord c \<and> ord c < 192"

fun utf8_valid :: "bytes \<Rightarrow> bool" where
  "utf8_valid [] = True"
| "utf8_valid (a # s) =
     (if ord a < 128 then utf8_valid s
      else if 194 \<le> ord a \<and> ord a < 224 then (case s of b # s1 \<Rightarrow> cont_byte b \<and> utf8_valid s1 | _ \<Rightarrow> False)
      else if 224 \<le> ord a \<and> ord a < 240 then (case s of b # c # s2 \<Rightarrow> cont_byte b \<and> cont_byte c
          \<and> (ord a = 224 \<longrightarrow> 160 \<le> ord b) \<and> (ord a = 237 \<longrightarrow> ord b < 160) \<and> utf8_valid s2 | _ \<Rightarrow> False)
      else if 240 \<le> ord a \<and> ord a < 245 then (case s of b # c # d # s3 \<Rightarrow> cont_byte b \<and> cont_byte c \<and> cont_byte d
          \<and> (ord a = 240 \<longrightarrow> 144 \<le> ord b) \<and> (ord a = 244 \<longrightarrow> ord b < 144) \<and> utf8_valid s3 | _ \<Rightarrow> False)
      else False)"

definition blank :: "string option \<Rightarrow> bool" where
  "blank x = (case x of None \<Rightarrow> True | Some s \<Rightarrow> py_strip s = [])"

definition structured_text :: "vars \<Rightarrow> (config_error, (string \<times> string) option) result" where
  "structured_text v = (let raw = map_of v ''OTARI_CONFIG_YAML''; enc = map_of v ''OTARI_CONFIG_B64'' in
     if \<not> blank raw then Inr (Some (''OTARI_CONFIG_YAML'', the raw))
     else if blank enc then Inr None
     else (case b64decode_strict (filter (\<lambda>c. \<not> is_space c) (the enc)) of
         None \<Rightarrow> Inl Bad_Base64
       | Some t \<Rightarrow> if utf8_valid t then Inr (Some (''OTARI_CONFIG_B64'', t)) else Inl Bad_Base64))"

definition load_structured_env_config :: "host \<Rightarrow> vars \<Rightarrow> (config_error, (string, json) dict option) result" where
  "load_structured_env_config H v = rbind (structured_text v) (\<lambda>x. case x of
       None \<Rightarrow> Inr None
     | Some (source, raw) \<Rightarrow> (case safe_load H raw of
           Inl _ \<Rightarrow> Inl (Bad_Yaml source)
         | Inr JNull \<Rightarrow> Inr None
         | Inr (JObj d) \<Rightarrow> rbind (resolve_items v d) (\<lambda>d. Inr (Some d))
         | Inr _ \<Rightarrow> Inl (Not_A_Mapping source)))"

section \<open>Overrides\<close>

definition parse_bool_env :: "string \<Rightarrow> (config_error, bool) result" where
  "parse_bool_env s = (let n = py_lower (py_strip s) in
     if n \<in> {''1'', ''true'', ''yes'', ''on''} then Inr True
     else if n \<in> {''0'', ''false'', ''no'', ''off''} then Inr False
     else Inl (Bad_Boolean s))"

definition int_env :: "host \<Rightarrow> string \<Rightarrow> (config_error, json) result" where
  "int_env H s = (case int_of H s of None \<Rightarrow> Inl (Bad_Number s) | Some i \<Rightarrow> Inr (JInt i))"

text \<open>\<open>Inr None\<close> stands for \<open>_NonScalarField\<close>. A union counts when it has one other member than \<open>None\<close>.\<close>

definition unwrap_union :: "annotation \<Rightarrow> annotation option" where
  "unwrap_union a = (case a of
       T_union as \<Rightarrow> (case filter (\<lambda>x. x \<noteq> T_none) as of [x] \<Rightarrow> Some x | _ \<Rightarrow> None)
     | _ \<Rightarrow> Some a)"

definition coerce_scalar_env :: "host \<Rightarrow> string \<Rightarrow> annotation \<Rightarrow> (config_error, json option) result" where
  "coerce_scalar_env H s a = (case unwrap_union a of
       Some T_bool \<Rightarrow> rbind (parse_bool_env s) (\<lambda>b. Inr (Some (JBool b)))
     | Some T_int \<Rightarrow> rbind (int_env H s) (\<lambda>i. Inr (Some i))
     | Some T_float \<Rightarrow> (case float_of H s of None \<Rightarrow> Inl (Bad_Number s) | Some q \<Rightarrow> Inr (Some (JFloat q)))
     | Some T_str \<Rightarrow> Inr (Some (JStr s))
     | _ \<Rightarrow> Inr None)"

definition upper_char :: "char \<Rightarrow> char" where
  "upper_char c = (let n = of_char c :: nat in if 97 \<le> n \<and> n \<le> 122 then char_of (n - 32) else c)"

definition otari_var :: "string \<Rightarrow> string" where
  "otari_var f = ''OTARI_'' @ map upper_char f"

text \<open>An unset or empty variable is skipped.\<close>

definition set_var :: "vars \<Rightarrow> string \<Rightarrow> string option" where
  "set_var v n = (case map_of v n of None \<Rightarrow> None | Some x \<Rightarrow> if x = [] then None else Some x)"

fun apply_otari_env_overrides :: "host \<Rightarrow> vars \<Rightarrow> (string \<times> annotation) list \<Rightarrow> (string, json) dict
    \<Rightarrow> (config_error, (string, json) dict) result" where
  "apply_otari_env_overrides H v [] d = Inr d"
| "apply_otari_env_overrides H v ((f, a) # fs) d = (case set_var v (otari_var f) of
       None \<Rightarrow> apply_otari_env_overrides H v fs d
     | Some x \<Rightarrow> rbind (coerce_scalar_env H x a) (\<lambda>y. apply_otari_env_overrides H v fs
         (case y of None \<Rightarrow> d | Some j \<Rightarrow> AList.update f j d)))"

text \<open>The variables of the platform settings; the flag says whether the value is cast to an integer.\<close>

definition platform_vars :: "(string \<times> string \<times> bool) list" where
  "platform_vars = [(''PLATFORM_BASE_URL'', ''base_url'', False), (''PLATFORM_RESOLVE_TIMEOUT_MS'', ''resolve_timeout_ms'', True),
     (''PLATFORM_USAGE_TIMEOUT_MS'', ''usage_timeout_ms'', True), (''PLATFORM_USAGE_MAX_RETRIES'', ''usage_max_retries'', True),
     (''STREAMING_FALLBACK_FIRST_CHUNK_TIMEOUT_MS'', ''streaming_first_chunk_timeout_ms'', True)]"

fun platform_values :: "host \<Rightarrow> vars \<Rightarrow> (string \<times> string \<times> bool) list \<Rightarrow> (string, json) dict
    \<Rightarrow> (config_error, (string, json) dict) result" where
  "platform_values H v [] p = Inr p"
| "platform_values H v ((n, f, is_int) # ms) p = (case set_var v n of
       None \<Rightarrow> platform_values H v ms p
     | Some x \<Rightarrow> rbind (if is_int then int_env H x else Inr (JStr x)) (\<lambda>j. platform_values H v ms (AList.update f j p)))"

definition default_platform_base_url :: string where
  "default_platform_base_url = ''https://api.otari.ai/api/v1''"

text \<open>A mode that is not a string has a text that is neither word.\<close>

definition platform_requested :: "vars \<Rightarrow> (string, json) dict \<Rightarrow> bool" where
  "platform_requested v d \<longleftrightarrow> (case map_of d ''mode'' of
       Some (JStr s) \<Rightarrow> py_lower (py_strip s) \<in> {''hybrid'', ''platform''} | _ \<Rightarrow> False)
     \<or> get_platform_token_from_env v \<noteq> None"

definition apply_platform_env_overrides :: "host \<Rightarrow> vars \<Rightarrow> (string, json) dict \<Rightarrow> (config_error, (string, json) dict) result" where
  "apply_platform_env_overrides H v d =
     (let p0 = (case map_of d ''platform'' of Some (JObj p) \<Rightarrow> p | _ \<Rightarrow> []) in
      rbind (platform_values H v platform_vars p0) (\<lambda>p.
        let p1 = (if platform_requested v d \<and> \<not> truthy_opt (map_of p ''base_url'')
                  then AList.update ''base_url'' (JStr default_platform_base_url) p else p)
        in Inr (if p1 \<noteq> [] then AList.update ''platform'' (JObj p1) d else d)))"

section \<open>Loading\<close>

fun load_dotenvs :: "host \<Rightarrow> string set \<Rightarrow> string list \<Rightarrow> vars \<Rightarrow> vars" where
  "load_dotenvs H seen [] v = v"
| "load_dotenvs H seen (p # ps) v = (if p \<in> seen \<or> \<not> path_exists H p then load_dotenvs H seen ps v
     else load_dotenvs H (insert p seen) ps (dotenv_load H p v))"

definition dotenv_paths :: "host \<Rightarrow> string option \<Rightarrow> string list" where
  "dotenv_paths H path = (if given path then [dotenv_beside H (the path)] else []) @ [cwd_dotenv H]"

definition load_env_files :: "host \<Rightarrow> string option \<Rightarrow> vars \<Rightarrow> vars" where
  "load_env_files H path v = load_dotenvs H {} (dotenv_paths H path) v"

text \<open>The file's value is kept when it is truthy; whether it is a mapping shows later.\<close>

definition yaml_file_config :: "host \<Rightarrow> string option \<Rightarrow> vars \<Rightarrow> (config_error, json) result" where
  "yaml_file_config H path v = (if given path \<and> path_exists H (the path)
     then (case safe_load H (file_text H (the path)) of
         Inl e \<Rightarrow> Inl (Bad_Yaml (the path))
       | Inr y \<Rightarrow> if truthy y then resolve_env_vars v y else Inr (JObj []))
     else Inr (JObj []))"

text \<open>\<open>update\<close>, item assignment and \<open>get\<close> on a value that is no dictionary raise.\<close>

definition config_dict :: "host \<Rightarrow> string option \<Rightarrow> vars \<Rightarrow> (config_error, vars \<times> (string, json) dict) result" where
  "config_dict H path v0 = (let v = load_env_files H path v0 in
     rbind (yaml_file_config H path v) (\<lambda>y.
     rbind (load_structured_env_config H v) (\<lambda>se.
     (case y of
        JObj d0 \<Rightarrow>
          rbind (apply_otari_env_overrides H v gateway_fields (case se of None \<Rightarrow> d0 | Some e \<Rightarrow> dict_merge d0 e)) (\<lambda>d1.
          rbind (apply_platform_env_overrides H v d1) (\<lambda>d2. Inr (v, d2)))
      | _ \<Rightarrow> Inl Bad_Top_Level))))"

definition validate_mode_selection :: "vars \<Rightarrow> string \<Rightarrow> (config_error, unit) result" where
  "validate_mode_selection v m = (let mode = py_lower (py_strip m) in
     if mode \<notin> {''standalone'', ''hybrid'', ''platform''} then Inl Bad_Mode
     else if mode \<in> {''hybrid'', ''platform''} \<and> get_platform_token_from_env v = None then Inl Missing_Token
     else Inr ())"

definition load_config :: "host \<Rightarrow> string option \<Rightarrow> vars \<Rightarrow> (config_error, vars \<times> settings) result" where
  "load_config H path v0 = rbind (config_dict H path v0) (\<lambda>(v, d).
     case gateway_config H v d of
       Inl e \<Rightarrow> Inl (Bad_Setting e)
     | Inr s \<Rightarrow> rbind (validate_mode_selection v (set_mode s)) (\<lambda>_.
         case validate_provider_instances (set_providers s) of
           Some e \<Rightarrow> Inl (Bad_Instance e)
         | None \<Rightarrow> Inr (v, s)))"

section \<open>Lemmas\<close>

text \<open>A configuration text as alternating plain text and references.\<close>

datatype piece = Plain string | Ref string

fun render_piece :: "piece \<Rightarrow> string" where
  "render_piece (Plain t) = t"
| "render_piece (Ref n) = ''${'' @ n @ ''}''"

abbreviation render_pieces :: "piece list \<Rightarrow> string" where
  "render_pieces ps \<equiv> concat (map render_piece ps)"

fun pieces_ok :: "piece list \<Rightarrow> bool" where
  "pieces_ok [] = True"
| "pieces_ok (Ref n # ps) = (n \<noteq> [] \<and> CHR ''}'' \<notin> set n \<and> pieces_ok ps)"
| "pieces_ok (Plain t # ps) = (\<not> contains ''${'' t \<and> (case ps of Plain u # _ \<Rightarrow> False | _ \<Rightarrow> True) \<and> pieces_ok ps)"

fun piece_value :: "vars \<Rightarrow> piece \<Rightarrow> (config_error, string) result" where
  "piece_value v (Plain t) = Inr t"
| "piece_value v (Ref n) = (case map_of v n of None \<Rightarrow> Inl (Unset_Variable n) | Some x \<Rightarrow> Inr x)"

text \<open>The reference: the values of the pieces in order, or the first failure.\<close>

fun values_of :: "vars \<Rightarrow> piece list \<Rightarrow> (config_error, string) result" where
  "values_of v [] = Inr []"
| "values_of v (p # ps) = rbind (piece_value v p) (\<lambda>x. rbind (values_of v ps) (\<lambda>y. Inr (x @ y)))"

lemma match_ref_render:
  assumes "n \<noteq> []" "CHR ''}'' \<notin> set n"
  shows "match_ref (render_piece (Ref n) @ rest) = Some (n, rest)"
  using assms by (simp add: match_ref_def starts_with_def split_once_append)

lemma sub_refs_ref:
  assumes "n \<noteq> []" "CHR ''}'' \<notin> set n"
  shows "sub_refs v (render_piece (Ref n) @ rest) =
    rbind (piece_value v (Ref n)) (\<lambda>x. rbind (sub_refs v rest) (\<lambda>r. Inr (x @ r)))"
  using match_ref_render[OF assms, of rest] by (simp split: option.splits)

lemma sub_refs_plain:
  assumes "\<not> contains ''${'' t" and "rest = [] \<or> hd rest = CHR ''$''"
  shows "sub_refs v (t @ rest) = rbind (sub_refs v rest) (\<lambda>r. Inr (t @ r))"
  using assms
proof (induction t)
  case Nil
  then show ?case by (cases "sub_refs v rest") auto
next
  case (Cons c t)
  have "\<not> starts_with ''${'' (c # t @ rest)"
  proof (cases t)
    case Nil
    with Cons.prems(2) show ?thesis by (cases rest) (auto simp: starts_with_def)
  next
    case (Cons d u)
    with Cons.prems(1) show ?thesis by (auto simp: starts_with_def)
  qed
  then have "match_ref (c # t @ rest) = None" by (simp add: match_ref_def)
  with Cons show ?case by (simp add: rbind_assoc)
qed

lemma sub_refs_pieces: "pieces_ok ps \<Longrightarrow> sub_refs v (render_pieces ps) = values_of v ps"
proof (induction ps rule: pieces_ok.induct)
  case (2 n ps)
  then show ?case using sub_refs_ref[of n v "render_pieces ps"] by simp
next
  case (3 t ps)
  have "render_pieces ps = [] \<or> hd (render_pieces ps) = CHR ''$''"
  proof (cases ps)
    case (Cons p qs)
    with 3 show ?thesis by (cases p) auto
  qed simp
  with 3 sub_refs_plain[of t "render_pieces ps" v] show ?case by simp
qed simp_all

lemma contains_append: "contains p a \<or> contains p b \<Longrightarrow> contains p (a @ b)"
  unfolding contains_iff by (metis append_assoc)

lemma values_without_refs: "\<not> contains ''${'' (render_pieces ps) \<Longrightarrow> values_of v ps = Inr (render_pieces ps)"
proof (induction ps)
  case (Cons p ps)
  show ?case
  proof (cases p)
    case (Plain t)
    with Cons.prems contains_append[of "''${''" t "render_pieces ps"] have "\<not> contains ''${'' (render_pieces ps)" by auto
    with Plain Cons.IH show ?thesis by simp
  next
    case (Ref n)
    with Cons.prems have False by (simp add: starts_with_def)
    then show ?thesis ..
  qed
qed simp

text \<open>Resolving keeps the keys of a mapping.\<close>

lemma resolve_items_map: "resolve_items v d = Inr e \<Longrightarrow> map fst e = map fst d"
  by (induction d arbitrary: e) (auto simp: rbind_eq_Inr)

text \<open>Overrides of one dictionary by the scalar variables.\<close>

definition otari_value :: "host \<Rightarrow> vars \<Rightarrow> string \<Rightarrow> json option" where
  "otari_value H v f = (case (map_of gateway_fields f, set_var v (otari_var f)) of
       (Some a, Some x) \<Rightarrow> (case coerce_scalar_env H x a of Inr y \<Rightarrow> y | Inl _ \<Rightarrow> None)
     | _ \<Rightarrow> None)"

lemma otari_overrides_lookup:
  assumes "apply_otari_env_overrides H v fs d = Inr d'" and "distinct (map fst fs)"
  shows "map_of d' f = (case (map_of fs f, set_var v (otari_var f)) of
      (Some a, Some x) \<Rightarrow> (case coerce_scalar_env H x a of Inr (Some y) \<Rightarrow> Some y | _ \<Rightarrow> map_of d f)
    | _ \<Rightarrow> map_of d f)"
  using assms
proof (induction fs arbitrary: d)
  case (Cons x fs)
  obtain g a where x: "x = (g, a)" by (cases x)
  show ?case
  proof (cases "set_var v (otari_var g)")
    case None
    with Cons x show ?thesis by (auto simp: map_of_eq_None_iff split: option.splits)
  next
    case (Some w)
    with Cons.prems obtain y where y: "coerce_scalar_env H w a = Inr y"
      "apply_otari_env_overrides H v fs (case y of None \<Rightarrow> d | Some j \<Rightarrow> AList.update g j d) = Inr d'"
      by (auto simp: x rbind_eq_Inr)
    have "map_of fs g = None" using Cons.prems(2) by (simp add: x map_of_eq_None_iff)
    with Cons.IH[OF y(2)] Cons.prems(2) Some y(1) show ?thesis
      by (auto simp: x split: option.splits sum.splits)
  qed
qed simp

lemma platform_overrides_other:
  "apply_platform_env_overrides H v d = Inr d' \<Longrightarrow> f \<noteq> ''platform'' \<Longrightarrow> map_of d' f = map_of d f"
  by (auto simp: apply_platform_env_overrides_def Let_def rbind_eq_Inr)

lemma strict_step:
  assumes "n < 64"
  shows "a2b_strict 0 False p l (b64_char n # s) = a2b_strict (Suc 0) False 0 n s"
    and "a2b_strict (Suc 0) False p l (b64_char n # s) = map_option (\<lambda>d. char_of (l * 4 + n div 16) # d) (a2b_strict 2 False 0 (n mod 16) s)"
    and "a2b_strict 2 False p l (b64_char n # s) = map_option (\<lambda>d. char_of (l * 16 + n div 4) # d) (a2b_strict 3 False 0 (n mod 4) s)"
    and "a2b_strict 3 False p l (b64_char n # s) = map_option (\<lambda>d. char_of (l * 64 + n) # d) (a2b_strict 0 False 0 0 s)"
  using b64_value_char[OF assms] b64_char_pad[OF assms] by simp_all

lemma strict_pad: "a2b_strict 2 False 0 l ''=='' = Some []" "a2b_strict 3 False 0 l ''='' = Some []"
  by simp_all

lemma strict_encode: "a2b_strict 0 False 0 0 (b64encode d) = Some d"
proof (induction d rule: b64encode.induct)
  case (2 a)
  show ?case by (simp only: b64encode.simps strict_step strict_pad sextet_simps) (simp add: sextet_simps)
next
  case (3 a b)
  show ?case by (simp only: b64encode.simps strict_step strict_pad sextet_simps) (simp add: sextet_simps)
next
  case (4 a b c s)
  then show ?case by (simp only: b64encode.simps strict_step strict_pad sextet_simps) (simp add: sextet_simps)
qed simp

lemma b64encode_first: "\<not> starts_with ''='' (b64encode d)"
proof (cases d rule: b64encode.cases)
  case (2 a)
  then show ?thesis using b64_char_pad[of "ord a div 4"] by (auto simp: starts_with_def sextet_simps)
next
  case (3 a b)
  then show ?thesis using b64_char_pad[of "ord a div 4"] by (auto simp: starts_with_def sextet_simps)
next
  case (4 a b c s)
  then show ?thesis using b64_char_pad[of "ord a div 4"] by (auto simp: starts_with_def sextet_simps)
qed (simp add: starts_with_def)

lemma b64decode_strict_encode [simp]: "b64decode_strict (b64encode d) = Some d"
  by (simp add: b64decode_strict_def ascii_encode b64encode_first strict_encode)

text \<open>A strict decoding is a decoding.\<close>

lemma strict_a2b: "a2b_strict q st p l s = Some d \<Longrightarrow> a2b_base64 q p l s = Some d"
proof (induction q st p l s arbitrary: d rule: a2b_strict.induct)
  case (2 q st p l c s)
  then show ?case by (auto split: if_splits option.splits)
qed (auto split: if_splits)

lemma py_strip_empty: "py_strip s = [] \<longleftrightarrow> (\<forall>c \<in> set s. is_space c)"
proof -
  have "(\<forall>c \<in> set (dropWhile is_space s). is_space c) \<longleftrightarrow> (\<forall>c \<in> set s. is_space c)"
    by (metis set_dropWhileD takeWhile_dropWhile_id set_takeWhileD Un_iff set_append)
  then show ?thesis by (simp add: py_strip_def py_lstrip_def py_rstrip_def)
qed

section \<open>Properties\<close>

text \<open>What the loader relies on: python-dotenv, called with \<open>override=False\<close>, keeps variables that are set, and the
  YAML parser returns dictionaries.\<close>

definition dotenv_keeps :: "host \<Rightarrow> bool" where
  "dotenv_keeps H \<longleftrightarrow> (\<forall>p v k x. map_of v k = Some x \<longrightarrow> map_of (dotenv_load H p v) k = Some x)"

definition yaml_mappings :: "host \<Rightarrow> bool" where
  "yaml_mappings H \<longleftrightarrow> (\<forall>t d. safe_load H t = Inr (JObj d) \<longrightarrow> distinct (map fst d))"

lemma load_dotenvs_keep: "dotenv_keeps H \<Longrightarrow> map_of v k = Some x \<Longrightarrow> map_of (load_dotenvs H seen ps v) k = Some x"
  by (induction H seen ps v rule: load_dotenvs.induct) (auto simp: dotenv_keeps_def)

lemma structured_cases:
  assumes "load_structured_env_config H v = Inr (Some e)"
  obtains n raw d where "structured_text v = Inr (Some (n, raw))" "safe_load H raw = Inr (JObj d)" "resolve_items v d = Inr e"
proof -
  from assms obtain x where x: "structured_text v = Inr x" unfolding load_structured_env_config_def rbind_eq_Inr by blast
  with assms obtain n raw where n: "x = Some (n, raw)"
    by (cases x) (auto simp: load_structured_env_config_def)
  with assms x that show thesis
    by (cases "safe_load H raw") (auto simp: load_structured_env_config_def rbind_eq_Inr split: json.split_asm)
qed

lemma structured_distinct:
  "yaml_mappings H \<Longrightarrow> load_structured_env_config H v = Inr (Some e) \<Longrightarrow> distinct (map fst e)"
  by (erule structured_cases) (auto simp: yaml_mappings_def resolve_items_map)

lemma config_dict_cases:
  assumes "config_dict H path v0 = Inr (v, d)"
  obtains y se d1 where "v = load_env_files H path v0" "yaml_file_config H path v = Inr (JObj y)"
    "load_structured_env_config H v = Inr se"
    "apply_otari_env_overrides H v gateway_fields (case se of None \<Rightarrow> y | Some e \<Rightarrow> dict_merge y e) = Inr d1"
    "apply_platform_env_overrides H v d1 = Inr d"
proof -
  let ?v = "load_env_files H path v0"
  from assms obtain y se where y: "yaml_file_config H path ?v = Inr y" "load_structured_env_config H ?v = Inr se"
    unfolding config_dict_def Let_def rbind_eq_Inr by blast
  with assms that show thesis
    by (cases y) (auto simp: config_dict_def Let_def rbind_eq_Inr)
qed

definition structured_value :: "host \<Rightarrow> vars \<Rightarrow> string \<Rightarrow> json option" where
  "structured_value H v f = (case load_structured_env_config H v of Inr (Some e) \<Rightarrow> map_of e f | _ \<Rightarrow> None)"

definition file_value :: "host \<Rightarrow> string option \<Rightarrow> vars \<Rightarrow> string \<Rightarrow> json option" where
  "file_value H path v f = (case yaml_file_config H path v of Inr (JObj y) \<Rightarrow> map_of y f | _ \<Rightarrow> None)"


definition settings0 :: settings where
  "settings0 = \<lparr>set_database_url = ''sqlite:///otari.db'', set_migrate = True, set_pool = (10, 20, 30, - 1), set_host = ''0.0.0.0'',
     set_port = 80, set_master = None, set_mode = ''standalone'', set_platform = [], set_providers = sample_providers,
     set_origins = [], set_metrics = False, set_docs = True, set_rpm = None\<rparr>"

definition host0 :: "(string \<Rightarrow> (string, json) result) \<Rightarrow> host" where
  "host0 yaml = \<lparr>cwd_dotenv = ''.env'', dotenv_beside = (\<lambda>p. ''/etc/.env''), path_exists = (\<lambda>p. p = ''c''),
     dotenv_load = (\<lambda>p v. v), file_text = (\<lambda>p. []), safe_load = yaml, int_of = (\<lambda>s. if s = ''80'' then Some 80 else None),
     float_of = (\<lambda>s. None), gateway_config = (\<lambda>v d. Inr settings0)\<rparr>"

definition yaml0 :: "string \<Rightarrow> (string, json) result" where
  "yaml0 t = Inr (JObj (if t = [] then [(''port'', JInt 1), (''host'', JStr ''${H}'')] else [(''port'', JInt 2)]))"

definition vars0 :: vars where
  "vars0 = [(''OTARI_PORT'', ''80''), (''H'', ''h''), (''OTARI_CONFIG_YAML'', ''y'')]"

definition config0 :: "(string, json) dict" where
  "config0 = [(''port'', JInt 80), (''host'', JStr ''h'')]"

lemma overrides_skip:
  "apply_otari_env_overrides H v fs d = apply_otari_env_overrides H v (filter (\<lambda>p. set_var v (otari_var (fst p)) \<noteq> None) fs) d"
  by (induction H v fs d rule: apply_otari_env_overrides.induct) (auto split: option.splits intro!: arg_cong2[where f = rbind])

lemma vars0_set: "filter (\<lambda>p. set_var vars0 (otari_var (fst p)) \<noteq> None) gateway_fields = [(''port'', T_int)]"
  by (simp add: gateway_fields_def set_var_def vars0_def otari_var_def upper_char_def char_of_def bit_0)

lemma config0_loaded: "config_dict (host0 yaml0) (Some ''c'') vars0 = Inr (vars0, config0)"
proof -
  have ev: "load_env_files (host0 yaml0) (Some ''c'') vars0 = vars0"
    by (simp add: load_env_files_def dotenv_paths_def host0_def)
  have refs: "resolve_env_vars vars0 (JStr ''${H}'') = Inr (JStr ''h'')" by code_simp
  have y: "yaml_file_config (host0 yaml0) (Some ''c'') vars0 = Inr (JObj [(''port'', JInt 1), (''host'', JStr ''h'')])"
    using refs by (simp add: yaml_file_config_def host0_def yaml0_def given_def)
  have tx: "structured_text vars0 = Inr (Some (''OTARI_CONFIG_YAML'', ''y''))" by code_simp
  have se: "load_structured_env_config (host0 yaml0) vars0 = Inr (Some [(''port'', JInt 2)])"
    unfolding load_structured_env_config_def tx by (simp add: host0_def yaml0_def)
  have port: "set_var vars0 (otari_var ''port'') = Some ''80''" by code_simp
  have o: "apply_otari_env_overrides (host0 yaml0) vars0 gateway_fields (dict_merge [(''port'', JInt 1), (''host'', JStr ''h'')] [(''port'', JInt 2)])
      = Inr config0"
    unfolding overrides_skip[of _ _ gateway_fields] vars0_set
    by (simp add: port coerce_scalar_env_def unwrap_union_def int_env_def host0_def config0_def dict_merge_def)
  have token: "\<not> platform_requested vars0 config0" by code_simp
  have p: "platform_values (host0 yaml0) vars0 platform_vars [] = Inr []"
    by (simp add: platform_vars_def set_var_def vars0_def)
  have pl: "apply_platform_env_overrides (host0 yaml0) vars0 config0 = Inr config0"
    using token p by (simp add: apply_platform_env_overrides_def config0_def)
  show ?thesis by (simp add: config_dict_def ev y se o pl)
qed


text \<open>Substitution agrees with the reference: plain text is kept, each reference is replaced by its variable's value
  as it is, and the first unset variable raises.\<close>

theorem references_resolved:
  assumes "pieces_ok ps"
  shows "resolve_env_vars v (JStr (render_pieces ps)) = rbind (values_of v ps) (\<lambda>s. Inr (JStr s))"
  using sub_refs_pieces[OF assms, of v] values_without_refs[of ps v] by simp

lemma references_resolved_witness:
  "resolve_env_vars [(''A'', ''1'')] (JStr ''x$${A}}'') = Inr (JStr ''x$1}'')
    \<and> resolve_env_vars [] (JStr ''x$${A}}'') = Inl (Unset_Variable ''A'')"
proof -
  have "pieces_ok [Plain ''x$'', Ref ''A'', Plain ''}'']" by (simp add: starts_with_def)
  from references_resolved[OF this, of "[(''A'', ''1'')]"] references_resolved[OF this, of "[]"] show ?thesis by simp
qed

text \<open>A configuration that is shipped in base64 is read as it was written, however the encoder wrapped its lines.\<close>

theorem encoded_config_roundtrip:
  assumes "blank (map_of v ''OTARI_CONFIG_YAML'')" and "map_of v ''OTARI_CONFIG_B64'' = Some enc"
    and "filter (\<lambda>c. \<not> is_space c) enc = b64encode t" and "utf8_valid t" and "t \<noteq> []"
  shows "structured_text v = Inr (Some (''OTARI_CONFIG_B64'', t))"
proof -
  have "b64encode t \<noteq> []" using assms(5) by (cases t rule: b64encode.cases) auto
  with assms(3) have "\<exists>c \<in> set enc. \<not> is_space c" by (metis filter_False)
  then have "\<not> blank (Some enc)" by (simp add: blank_def py_strip_empty)
  with assms show ?thesis by (simp add: structured_text_def)
qed

lemma encoded_config_roundtrip_witness:
  "structured_text [(''OTARI_CONFIG_B64'', ''bTog'' @ [CHR 0x0A] @ ''MQ=='')] = Inr (Some (''OTARI_CONFIG_B64'', ''m: 1''))"
  by (rule encoded_config_roundtrip[where enc = "''bTog'' @ [CHR 0x0A] @ ''MQ==''"])
    (code_simp+)

end
