(* ===== verification/Startup.thy ===== *)
theory Startup
  imports Config Price_Admin Platform Files Rate_Limit "HOL-Library.Char_ord" "HOL-Library.List_Lexorder"
begin

text \<open>
  From the command line to a running application (\<open>cli.py\<close>, \<open>main.py\<close>, \<open>api/main.py\<close>, \<open>core/database.py\<close>),
  with the middlewares (\<open>main.py\<close>, \<open>metrics.py\<close>), the health routes (\<open>api/routes/health.py\<close>), the stubs of
  hybrid mode (\<open>api/routes/hybrid_mode.py\<close>) and the Vertex credentials (\<open>auth/vertex_auth.py\<close>).

  SQLAlchemy's URLs, Google's credential objects, the platform's health endpoint and the wrapped ASGI
  application are parameters. Log output is left out.
\<close>

section \<open>Vertex credentials\<close>

record vertex_files =
  vx_exists :: "string \<Rightarrow> bool"
  vx_file :: "string \<Rightarrow> json option"
  vx_parse :: "string \<Rightarrow> json option"
  vx_from_file :: "string \<Rightarrow> json option"
  vx_from_info :: "json \<Rightarrow> json option"

definition vertex_unloadable :: http_exception where
  "vertex_unloadable = http_error 500 ''Unable to load vertex credentials''"

text \<open>The service account and the credentials made of it. Every exception on the way is the same error.\<close>

definition vertex_credentials :: "vertex_files \<Rightarrow> json \<Rightarrow> (http_exception, json \<times> json) result" where
  "vertex_credentials F c = (case c of
       JStr s \<Rightarrow> (if vx_exists F s
         then (case (vx_file F s, vx_from_file F s) of (Some j, Some k) \<Rightarrow> Inr (j, k) | _ \<Rightarrow> Inl vertex_unloadable)
         else (case vx_parse F s of
             None \<Rightarrow> Inl vertex_unloadable
           | Some j \<Rightarrow> (case vx_from_info F j of None \<Rightarrow> Inl vertex_unloadable | Some k \<Rightarrow> Inr (j, k))))
     | JObj d \<Rightarrow> (case vx_from_info F c of None \<Rightarrow> Inl vertex_unloadable | Some k \<Rightarrow> Inr (c, k))
     | _ \<Rightarrow> Inl (http_error 400 ''Invalid credentials type''))"

text \<open>An argument that is given and truthy, or else the variable; \<open>fallback\<close> when both are missing.\<close>

definition vertex_field :: "vars \<Rightarrow> string \<Rightarrow> (http_exception, json) result \<Rightarrow> json option \<Rightarrow> (http_exception, json) result" where
  "vertex_field v n fallback x = (if truthy_opt x then Inr (the x)
     else (case map_of v n of None \<Rightarrow> fallback | Some s \<Rightarrow> Inr (JStr s)))"

definition non_null :: "json option \<Rightarrow> bool" where
  "non_null x \<longleftrightarrow> x \<noteq> None \<and> x \<noteq> Some JNull"

definition setup_vertex_environment :: "vertex_files \<Rightarrow> vars \<Rightarrow> json option \<Rightarrow> json option \<Rightarrow> json option
    \<Rightarrow> (http_exception, kwargs) result" where
  "setup_vertex_environment F v creds project location =
     rbind (if non_null creds then rbind (vertex_credentials F (the creds)) (\<lambda>(j, k).
         Inr ([(''credentials'', k)], if \<not> non_null project \<and> truthy j then jget ''project_id'' j else project))
       else Inr ([], project)) (\<lambda>(kw, proj).
     rbind (vertex_field v ''GOOGLE_CLOUD_PROJECT''
         (Inl (http_error 400 ''Could not resolve GCP project ID from credentials or configuration'')) proj) (\<lambda>p.
     rbind (vertex_field v ''GOOGLE_CLOUD_LOCATION'' (Inr (JStr ''us-central1'')) location) (\<lambda>l.
     Inr (kw @ [(''project'', p), (''location'', l)]))))"

section \<open>The database engine\<close>

record db_url =
  url_driver :: string
  url_query :: "(string, string) dict"
  url_rest :: string

record url_parser =
  make_url :: "string \<Rightarrow> db_url"
  render_url :: "db_url \<Rightarrow> string"

datatype connect_arg = Check_Same_Thread bool | Ssl string

definition to_async_url :: "url_parser \<Rightarrow> string \<Rightarrow> string \<times> connect_arg list" where
  "to_async_url U s = (let u = make_url U s in
     if starts_with ''sqlite'' (url_driver u) then (render_url U (u\<lparr>url_driver := ''sqlite+aiosqlite''\<rparr>), [Check_Same_Thread False])
     else if url_driver u \<in> {''postgresql'', ''postgresql+psycopg2''} then
       (render_url U (u\<lparr>url_driver := ''postgresql+asyncpg'', url_query := dict_remove {''sslmode''} (url_query u)\<rparr>),
        (case map_of (url_query u) ''sslmode'' of None \<Rightarrow> [] | Some m \<Rightarrow> if m = [] then [] else [Ssl m]))
     else (s, []))"

datatype engine_arg = Pre_Ping | Connect_Args "connect_arg list" | Null_Pool | Pool_Size int | Max_Overflow int
  | Pool_Timeout rat | Pool_Recycle int

record db_engine =
  eng_url :: string
  eng_args :: "engine_arg list"
  eng_pragmas :: "string list"
  eng_migrated :: bool

definition sqlite_pragmas :: "string list" where
  "sqlite_pragmas = [''PRAGMA foreign_keys=ON'', ''PRAGMA journal_mode=WAL'', ''PRAGMA busy_timeout=5000'']"

definition init_db :: "url_parser \<Rightarrow> settings \<Rightarrow> db_engine" where
  "init_db U s = (case (to_async_url U (set_database_url s), set_pool s) of ((u, ca), (n, over, wait, recycle)) \<Rightarrow>
     let lite = starts_with ''sqlite+aiosqlite'' u in
     \<lparr>eng_url = u,
      eng_args = [Pre_Ping, Connect_Args ca] @ (if lite then [Null_Pool]
        else [Pool_Size n, Max_Overflow over, Pool_Timeout wait] @ (if 0 \<le> recycle then [Pool_Recycle recycle] else [])),
      eng_pragmas = (if lite then sqlite_pragmas else []),
      eng_migrated = set_migrate s\<rparr>)"

section \<open>The application\<close>

datatype middleware = Security_Headers | Cors "string list" bool | Metrics_Middleware

definition register_routers :: "vars \<Rightarrow> string list" where
  "register_routers v = [''chat'', ''health'', ''messages'', ''responses''] @
     (if is_hybrid_mode v then [''hybrid_mode'']
      else [''embeddings'', ''images'', ''audio'', ''files'', ''rerank'', ''batches'', ''moderations'', ''models'', ''keys'',
        ''users'', ''budgets'', ''pricing'', ''usage''])"

record application =
  app_mode :: string
  app_docs :: "(string \<times> string option) list"
  app_middleware :: "middleware list"
  app_limiter :: "rate_limiter option"
  app_routers :: "string list"
  app_metrics :: bool

definition validate_platform_config :: "vars \<Rightarrow> settings \<Rightarrow> (config_error, unit) result" where
  "validate_platform_config v s = rbind (validate_mode_selection v (set_mode s)) (\<lambda>_.
     if \<not> is_hybrid_mode v then Inr ()
     else if \<not> truthy_opt (map_of (set_platform s) ''base_url'') then Inl (Bad_Setting ''platform.base_url'')
     else if providers (set_providers s) \<noteq> [] then Inl (Bad_Setting ''providers'')
     else Inr ())"

definition create_app :: "vars \<Rightarrow> settings \<Rightarrow> (config_error, application) result" where
  "create_app v s = rbind (validate_platform_config v s) (\<lambda>_. Inr
     \<lparr>app_mode = effective_mode v,
      app_docs = map (\<lambda>(a, p). (a, if set_docs s then Some p else None))
        [(''docs_url'', ''/docs''), (''redoc_url'', ''/redoc''), (''openapi_url'', ''/openapi.json'')],
      app_middleware = [Security_Headers]
        @ (if set_origins s \<noteq> [] then [Cors (set_origins s) (''*'' \<notin> set (set_origins s))] else [])
        @ (if set_metrics s then [Metrics_Middleware] else []),
      app_limiter = map_option new_limiter (set_rpm s),
      app_routers = register_routers v,
      app_metrics = set_metrics s\<rparr>)"

text \<open>The stubs that answer for the management resources in hybrid mode.\<close>

definition disabled_detail :: string where
  "disabled_detail = ''This endpoint is not available in hybrid mode. Manage this resource via the platform UI.''"

definition disabled_resources :: "string list" where
  "disabled_resources = [''/v1/users'', ''/v1/keys'', ''/v1/budgets'', ''/v1/spend'']"

definition raise_disabled :: http_exception where
  "raise_disabled = http_error 404 disabled_detail"

text \<open>The command line's options override the loaded settings when they are truthy.\<close>

record serve_options =
  opt_config :: "string option"
  opt_host :: "string option"
  opt_port :: "int option"
  opt_database_url :: "string option"
  opt_master_key :: "string option"
  opt_migrate :: "bool option"

definition apply_options :: "serve_options \<Rightarrow> settings \<Rightarrow> settings" where
  "apply_options A s = s\<lparr>
     set_host := (if given (opt_host A) then the (opt_host A) else set_host s),
     set_port := (case opt_port A of None \<Rightarrow> set_port s | Some p \<Rightarrow> if p = 0 then set_port s else p),
     set_database_url := (if given (opt_database_url A) then the (opt_database_url A) else set_database_url s),
     set_master := (if given (opt_master_key A) then opt_master_key A else set_master s),
     set_migrate := (case opt_migrate A of None \<Rightarrow> set_migrate s | Some b \<Rightarrow> b)\<rparr>"

definition serve :: "host \<Rightarrow> serve_options \<Rightarrow> vars \<Rightarrow> (config_error, vars \<times> settings \<times> application) result" where
  "serve H A v0 = rbind (load_config H (opt_config A) v0) (\<lambda>(v, s0). let s = apply_options A s0 in
     rbind (validate_platform_config v s) (\<lambda>_. rbind (create_app v s) (\<lambda>app. Inr (v, s, app))))"

section \<open>Starting and stopping\<close>

datatype log_writer_kind = Noop_Writer | Batch_Writer | Single_Writer

definition create_log_writer :: "string \<Rightarrow> log_writer_kind" where
  "create_log_writer strat = (if strat = ''batch'' then Batch_Writer else Single_Writer)"

record launch =
  ln_auth :: auth_config
  ln_bootstrap :: bool
  ln_prices :: "(string, pricing_config) dict"
  ln_strategy :: string
  ln_backend :: string
  ln_dir :: "string list"

record started =
  st_writer :: log_writer_kind
  st_files :: "disk file_store option"

text \<open>The lifespan up to its \<open>yield\<close>; \<^const>\<open>None\<close> when a step raises. The key material, its id and the clock
  are those of this start.\<close>

definition start_up :: "vars \<Rightarrow> settings \<Rightarrow> launch \<Rightarrow> string \<Rightarrow> string \<Rightarrow> (nat \<Rightarrow> instant) \<Rightarrow> db \<Rightarrow> db \<times> started option" where
  "start_up v s L token kid clock d =
     (if is_hybrid_mode v then (d, Some \<lparr>st_writer = Noop_Writer, st_files = None\<rparr>)
      else (case bootstrap_first_api_key (ln_auth L) (ln_bootstrap L) token kid d of
          (d1, None) \<Rightarrow> (d1, None)
        | (d1, Some _) \<Rightarrow> (case initialize_pricing (set_providers s) clock (ln_prices L) d1 of
              (d2, False) \<Rightarrow> (d2, None)
            | (d2, True) \<Rightarrow> (case build_file_store (ln_backend L) (ln_dir L) of
                  Inl _ \<Rightarrow> (d2, None)
                | Inr st \<Rightarrow> (d2, Some \<lparr>st_writer = create_log_writer (ln_strategy L), st_files = Some st\<rparr>)))))"

section \<open>Middlewares\<close>

fun split_char :: "char \<Rightarrow> string \<Rightarrow> string list" where
  "split_char c [] = [[]]"
| "split_char c (x # s) = (if x = c then [] # split_char c s
     else (case split_char c s of [] \<Rightarrow> [[x]] | t # ts \<Rightarrow> (x # t) # ts))"

text \<open>\<open>response.headers[name] = value\<close>: the first header of the name is replaced, others of it are removed.\<close>

fun header_set :: "string \<Rightarrow> string \<Rightarrow> (string, string) dict \<Rightarrow> (string, string) dict" where
  "header_set n x [] = [(py_lower n, x)]"
| "header_set n x ((k, y) # hs) = (if py_lower k = py_lower n then (k, x) # filter (\<lambda>p. py_lower (fst p) \<noteq> py_lower n) hs
     else (k, y) # header_set n x hs)"

definition public_prefixes :: "string list" where
  "public_prefixes = [''/health'']"

definition cacheable_paths :: "string list" where
  "cacheable_paths = [''/favicon.svg'']"

definition vary_values :: "string \<Rightarrow> string list" where
  "vary_values s = filter (\<lambda>t. t \<noteq> []) (map py_strip (split_char (CHR '','') s))"

definition private_path :: "string \<Rightarrow> bool" where
  "private_path path \<longleftrightarrow> \<not> (\<exists>p \<in> set public_prefixes. starts_with p path) \<and> path \<notin> set cacheable_paths"

definition security_headers :: "string \<Rightarrow> (string, string) dict \<Rightarrow> (string, string) dict" where
  "security_headers path hs0 =
     (let hs = header_set ''Referrer-Policy'' ''strict-origin-when-cross-origin'' (header_set ''X-Frame-Options'' ''DENY''
        (header_set ''X-Content-Type-Options'' ''nosniff'' hs0))
      in if private_path path
         then (let hs1 = header_set ''Cache-Control'' ''private, no-store, no-cache'' hs;
             old = (case header_get hs1 ''Vary'' of None \<Rightarrow> [] | Some s \<Rightarrow> s)
           in header_set ''Vary'' (join '', '' (sort (remdups (''Authorization'' # vary_values old)))) hs1)
         else hs)"

text \<open>The metrics middleware. A request's messages and whether it raised are those of the wrapped application.\<close>

record metrics =
  active_requests :: int
  request_counts :: "(string \<times> string \<times> nat) list"

definition final_status :: "(string \<times> nat) list \<Rightarrow> nat" where
  "final_status ms = foldl (\<lambda>st m. if fst m = ''http.response.start'' then snd m else st) 500 ms"

definition measured :: "string \<Rightarrow> string \<Rightarrow> bool" where
  "measured scope_type path \<longleftrightarrow> scope_type = ''http'' \<and> path \<noteq> ''/metrics''"

definition request_begins :: "metrics \<Rightarrow> metrics" where
  "request_begins m = m\<lparr>active_requests := active_requests m + 1\<rparr>"

definition request_ends :: "string \<Rightarrow> string \<Rightarrow> (string \<times> nat) list \<Rightarrow> metrics \<Rightarrow> metrics" where
  "request_ends meth path ms m = m\<lparr>active_requests := active_requests m - 1,
     request_counts := request_counts m @ [(meth, path, final_status ms)]\<rparr>"

section \<open>Health\<close>

datatype probe = Probe_Status nat | Probe_Timeout | Probe_Network_Error | Probe_Other_Error

text \<open>\<^const>\<open>None\<close> is an exception that leaves the handler; only time-outs and network errors are caught.\<close>

definition check_platform_reachability :: "py_conv \<Rightarrow> (string \<Rightarrow> int \<Rightarrow> probe) \<Rightarrow> (string, json) dict \<Rightarrow> bool option" where
  "check_platform_reachability C ask p = (case map_of p ''base_url'' of
       None \<Rightarrow> Some False
     | Some b \<Rightarrow> if \<not> truthy b then Some False else
         (case (py_int C (case map_of p ''resolve_timeout_ms'' of None \<Rightarrow> JInt 5000 | Some t \<Rightarrow> t), b,
             case map_of p ''health_path'' of None \<Rightarrow> JStr ''/utils/health-check/'' | Some h \<Rightarrow> h) of
            (Some t, JStr b, JStr h) \<Rightarrow> (case ask (rstrip_char (CHR ''/'') b @ ''/'' @ lstrip_char (CHR ''/'') h) t of
                Probe_Status n \<Rightarrow> Some (n < 500)
              | Probe_Timeout \<Rightarrow> Some False
              | Probe_Network_Error \<Rightarrow> Some False
              | Probe_Other_Error \<Rightarrow> None)
          | _ \<Rightarrow> None))"

definition health_check :: "bool \<Rightarrow> bool option \<Rightarrow> (string, string) dict option" where
  "health_check hybrid reach = (if hybrid
     then map_option (\<lambda>r. [(''status'', ''healthy''), (''mode'', ''hybrid''), (''platform_reachable'', if r then ''yes'' else ''no'')]) reach
     else Some [(''status'', ''healthy'')])"

definition health_liveness :: string where
  "health_liveness = ''I'' @ [CHR 0x27] @ ''m alive!''"

text \<open>\<open>ping\<close> is what \<open>SELECT 1\<close> does on the session; \<^const>\<open>None\<close> without one.\<close>

definition health_readiness :: "string \<Rightarrow> bool \<Rightarrow> bool option \<Rightarrow> bool option \<Rightarrow> (nat \<times> (string, string) dict) option" where
  "health_readiness version hybrid reach ping = (if hybrid
     then map_option (\<lambda>r. (if r then 200 else 503, [(''status'', if r then ''healthy'' else ''unhealthy''), (''mode'', ''hybrid''),
         (''platform'', if r then ''connected'' else ''unavailable''), (''version'', version)])) reach
     else (case ping of
         Some True \<Rightarrow> Some (200, [(''status'', ''healthy''), (''database'', ''connected''), (''version'', version)])
       | _ \<Rightarrow> Some (503, [(''status'', ''unhealthy''), (''database'', ''unavailable''), (''version'', version)])))"

section \<open>Lemmas\<close>

lemma header_get_set: "header_get (header_set n x hs) k = (if py_lower k = py_lower n then Some x else header_get hs k)"
proof -
  have f: "map_of (map (\<lambda>p. (py_lower (fst p), snd p)) (filter (\<lambda>p. py_lower (fst p) \<noteq> m) hs)) q =
      (if q = m then None else map_of (map (\<lambda>p. (py_lower (fst p), snd p)) hs) q)" for m q and hs :: "(string, string) dict"
    by (induction hs) auto
  show ?thesis
    by (induction n x hs rule: header_set.induct) (auto simp: header_get_def f)
qed

lemma split_char_nonempty [simp]: "split_char c s \<noteq> []"
  by (induction s) (auto split: list.splits)

lemma split_char_append: "c \<notin> set a \<Longrightarrow> split_char c (a @ c # b) = a # split_char c b"
  by (induction a) auto

lemma split_char_single: "c \<notin> set a \<Longrightarrow> split_char c a = [a]"
  by (induction a) auto

lemma split_char_chars: "t \<in> set (split_char c s) \<Longrightarrow> c \<notin> set t"
  by (induction s arbitrary: t) (auto split: list.splits if_splits)

lemma py_strip_spaces: "is_space c \<Longrightarrow> py_strip (c # s) = py_strip s"
  by (simp add: py_strip_def py_lstrip_def)

lemma hd_rstrip: "s \<noteq> [] \<Longrightarrow> \<not> is_space (hd s) \<Longrightarrow> py_rstrip s \<noteq> [] \<and> hd (py_rstrip s) = hd s"
proof (cases s)
  case (Cons x xs)
  moreover assume "\<not> is_space (hd s)"
  ultimately have "dropWhile is_space (rev s) = dropWhile is_space (rev xs) @ [x]"
    by (simp add: dropWhile_append3)
  with Cons show ?thesis by (simp add: py_rstrip_def)
qed simp

lemma py_strip_idem: "py_strip (py_strip s) = py_strip s"
proof (cases "py_lstrip s = []")
  case True
  then have "py_strip s = []" unfolding py_strip_def by (simp add: py_rstrip_def)
  moreover have "py_strip [] = []" by (simp add: py_strip_def py_lstrip_def py_rstrip_def)
  ultimately show ?thesis by simp
next
  case False
  then have "\<not> is_space (hd (py_lstrip s))" unfolding py_lstrip_def by (rule hd_dropWhile)
  with hd_rstrip[of "py_lstrip s"] False have "py_lstrip (py_strip s) = py_strip s"
    by (cases "py_strip s") (auto simp: py_strip_def py_lstrip_def)
  then show ?thesis by (simp add: py_strip_def py_rstrip_def)
qed

text \<open>Values without commas and outer spaces come back from a joined list.\<close>

lemma split_join:
  assumes "ts \<noteq> []" "\<forall>t \<in> set ts. CHR '','' \<notin> set t \<and> py_strip t = t"
  shows "map py_strip (split_char (CHR '','') (join '', '' ts)) = ts"
  using assms
proof (induction "'', ''" ts rule: join.induct)
  case (3 x y xs)
  let ?r = "join '', '' (y # xs)"
  have "map py_strip (split_char (CHR '','') (CHR '' '' # ?r)) = map py_strip (split_char (CHR '','') ?r)"
    using split_char_nonempty[of "CHR '',''" ?r] by (auto simp: py_strip_spaces is_space_def split: list.splits simp del: split_char_nonempty)
  with 3 show ?case by (simp add: split_char_append)
qed (simp_all add: split_char_single)

lemma vary_values_ok: "t \<in> set (vary_values s) \<Longrightarrow> t \<noteq> [] \<and> CHR '','' \<notin> set t \<and> py_strip t = t"
  using py_strip_subset split_char_chars by (fastforce simp: vary_values_def py_strip_idem)

lemma vary_values_join:
  "ts \<noteq> [] \<Longrightarrow> \<forall>t \<in> set ts. t \<noteq> [] \<and> CHR '','' \<notin> set t \<and> py_strip t = t \<Longrightarrow> vary_values (join '', '' ts) = ts"
  by (simp add: vary_values_def split_join)

lemma start_bootstrap:
  assumes "bootstrap_first_api_key C b token kid d = (d1, Some k)"
  shows "pricing d1 = pricing d \<and> (b \<longrightarrow> api_keys d1 \<noteq> [])"
  using assms by (auto simp: bootstrap_first_api_key_def add_key_def split: if_splits sum.splits prod.splits bool.splits dest!: commit_True)

section \<open>Properties\<close>

definition local_routers :: "string set" where
  "local_routers = {''embeddings'', ''images'', ''audio'', ''files'', ''rerank'', ''batches'', ''moderations'', ''models'', ''keys'',
     ''users'', ''budgets'', ''pricing'', ''usage''}"

text \<open>The server starts in hybrid mode exactly when a platform token is set, whatever the configured mode says, and
  a configured hybrid mode is never ignored. In hybrid mode it knows the platform's address, holds no
  provider credentials and serves none of the routes that need the database; otherwise it serves them all.\<close>

theorem serve_mode:
  assumes "serve H A v0 = Inr (v, s, app)"
  shows "(app_mode app = ''hybrid'' \<longleftrightarrow> get_platform_token_from_env v \<noteq> None)
    \<and> (py_lower (py_strip (set_mode s)) \<in> {''hybrid'', ''platform''} \<longrightarrow> app_mode app = ''hybrid'')
    \<and> (if app_mode app = ''hybrid''
       then truthy_opt (map_of (set_platform s) ''base_url'') \<and> providers (set_providers s) = []
         \<and> local_routers \<inter> set (app_routers app) = {}
       else local_routers \<subseteq> set (app_routers app))"
proof -
  from assms have v: "validate_platform_config v s = Inr ()" "create_app v s = Inr app"
    by (auto simp: serve_def Let_def rbind_eq_Inr)
  then have m: "validate_mode_selection v (set_mode s) = Inr ()"
    by (auto simp: validate_platform_config_def rbind_eq_Inr)
  from v have a: "app_mode app = effective_mode v" "app_routers app = register_routers v"
    by (auto simp: create_app_def)
  have p: "truthy_opt (map_of (set_platform s) ''base_url'') \<and> providers (set_providers s) = []" if "is_hybrid_mode v"
    using v(1) m that by (auto simp: validate_platform_config_def split: if_splits)
  have "py_lower (py_strip (set_mode s)) \<in> {''hybrid'', ''platform''} \<Longrightarrow> get_platform_token_from_env v \<noteq> None"
    using m by (auto simp: validate_mode_selection_def Let_def split: if_splits)
  with p show ?thesis
    by (auto simp: a effective_mode_def is_hybrid_mode_def register_routers_def local_routers_def)
qed

text \<open>On a private path no shared cache may keep the response, and it varies with the credentials: the new \<open>Vary\<close>
  header lists, in order, what the old one listed and \<open>Authorization\<close>. The other headers of the
  response are kept.\<close>

theorem private_responses_uncached:
  assumes "private_path path"
  shows "header_get (security_headers path hs) ''Cache-Control'' = Some ''private, no-store, no-cache''
    \<and> (\<exists>w. header_get (security_headers path hs) ''Vary'' = Some w \<and> sorted (vary_values w) \<and> set (vary_values w) =
        insert ''Authorization'' (case header_get hs ''Vary'' of None \<Rightarrow> {} | Some old \<Rightarrow> set (vary_values old)))
    \<and> (\<forall>k. py_lower k \<notin> {''cache-control'', ''vary'', ''referrer-policy'', ''x-frame-options'', ''x-content-type-options''}
        \<longrightarrow> header_get (security_headers path hs) k = header_get hs k)"
proof -
  have l: "py_lower ''Cache-Control'' = ''cache-control''" "py_lower ''Vary'' = ''vary''" "py_lower ''Referrer-Policy'' = ''referrer-policy''"
    "py_lower ''X-Frame-Options'' = ''x-frame-options''" "py_lower ''X-Content-Type-Options'' = ''x-content-type-options''"
    by code_simp+
  let ?old = "case header_get hs ''Vary'' of None \<Rightarrow> [] | Some s \<Rightarrow> s"
  let ?ts = "sort (remdups (''Authorization'' # vary_values ?old))"
  have "CHR '','' \<notin> set ''Authorization'' \<and> py_strip ''Authorization'' = ''Authorization''" by code_simp
  then have "\<forall>t \<in> set ?ts. t \<noteq> [] \<and> CHR '','' \<notin> set t \<and> py_strip t = t" using vary_values_ok by auto
  moreover have "''Authorization'' \<in> set ?ts" by simp
  then have "?ts \<noteq> []" by (metis empty_iff list.set(1))
  ultimately have w: "vary_values (join '', '' ?ts) = ?ts" by (rule vary_values_join[rotated])
  have o: "set (vary_values ?old) = (case header_get hs ''Vary'' of None \<Rightarrow> {} | Some old \<Rightarrow> set (vary_values old))"
    by (auto simp: vary_values_def py_strip_def py_lstrip_def py_rstrip_def split: option.splits)
  have "header_get (security_headers path hs) ''Vary'' = Some (join '', '' ?ts)"
    using assms by (simp add: security_headers_def Let_def header_get_set l)
  moreover have "sorted (vary_values (join '', '' ?ts))" unfolding w by (rule sorted_sort)
  moreover have "set (vary_values (join '', '' ?ts)) = insert ''Authorization'' (set (vary_values ?old))" unfolding w by auto
  ultimately show ?thesis unfolding o[symmetric]
    using assms by (auto simp: security_headers_def Let_def header_get_set l)
qed

lemma private_responses_uncached_witness:
  "header_get (security_headers ''/v1/models'' [(''vary'', ''Origin'')]) ''Cache-Control'' = Some ''private, no-store, no-cache''"
  using private_responses_uncached[of "''/v1/models''" "[(''vary'', ''Origin'')]"]
  by (simp add: private_path_def public_prefixes_def cacheable_paths_def starts_with_def)

lemma initialize_pricing_other: "initialize_pricing P clock cfg d = (d', b) \<Longrightarrow> api_keys d' = api_keys d \<and> users d' = users d"
  by (auto simp: initialize_pricing_def commit_def split: if_splits option.splits list.splits)

text \<open>Restarting the gateway with the same configuration changes neither the prices, when they are dated, nor the keys
  and users: the bootstrap key is created once.\<close>

theorem restart_changes_nothing:
  assumes "start_up v s L token kid clock d = (d1, Some st)" and "\<forall>(raw, pc) \<in> set (ln_prices L). pc_effective_at pc \<noteq> None"
  shows "case start_up v s L token2 kid2 clock2 d1 of (d2, _) \<Rightarrow>
    pricing d2 = pricing d1 \<and> api_keys d2 = api_keys d1 \<and> users d2 = users d1"
proof (cases "is_hybrid_mode v")
  case False
  with assms(1) obtain d0 k where b: "bootstrap_first_api_key (ln_auth L) (ln_bootstrap L) token kid d = (d0, Some k)"
    and i: "initialize_pricing (set_providers s) clock (ln_prices L) d0 = (d1, True)"
    by (auto simp: start_up_def split: prod.splits option.splits bool.splits sum.splits)
  have "bootstrap_first_api_key (ln_auth L) (ln_bootstrap L) token2 kid2 d1 = (d1, Some None)"
    using start_bootstrap[OF b] initialize_pricing_other[OF i] by (auto simp: bootstrap_first_api_key_def)
  moreover obtain d2 r where i2: "initialize_pricing (set_providers s) clock2 (ln_prices L) d1 = (d2, r)" by fastforce
  ultimately have "fst (start_up v s L token2 kid2 clock2 d1) = d2"
    using False by (auto simp: start_up_def split: bool.splits sum.splits)
  with dated_prices_load_once[OF i assms(2), of clock2] initialize_pricing_other[OF i2] i2 show ?thesis
    by (auto split: prod.splits)
qed (simp add: start_up_def)

definition launch0 :: launch where
  "launch0 = \<lparr>ln_auth = \<lparr>master_key = None, hash = (\<lambda>s. s)\<rparr>, ln_bootstrap = False, ln_prices = [(''local/llama'', dated_price)],
     ln_strategy = ''single'', ln_backend = ''local'', ln_dir = [''files'']\<rparr>"

lemma vars0_standalone: "\<not> is_hybrid_mode vars0" "get_platform_token_from_env vars0 = None"
  by code_simp+

lemma restart_changes_nothing_witness:
  "pricing (fst (start_up vars0 settings0 launch0 ''t'' ''k'' (\<lambda>_. 9)
      (store0\<lparr>pricing := [config_row ''local:llama'' dated_price 5], faults := []\<rparr>))) = [config_row ''local:llama'' dated_price 5]"
proof -
  have i: "initialize_pricing sample_providers (\<lambda>_. 5) [(''local/llama'', dated_price)] store0 =
      (store0\<lparr>pricing := [config_row ''local:llama'' dated_price 5], faults := []\<rparr>, True)" by (rule start_store0)
  have l: "py_lower (py_strip ''local'') = ''local''" by code_simp
  have "start_up vars0 settings0 launch0 ''t'' ''k'' (\<lambda>_. 5) store0 =
      (store0\<lparr>pricing := [config_row ''local:llama'' dated_price 5], faults := []\<rparr>,
       Some \<lparr>st_writer = Single_Writer, st_files = Some (local_dir_store [''files''])\<rparr>)"
    using vars0_standalone i
    by (simp add: start_up_def launch0_def settings0_def bootstrap_first_api_key_def build_file_store_def l create_log_writer_def)
  from restart_changes_nothing[OF this, of "''t''" "''k''" "\<lambda>_. 9"] show ?thesis
    by (auto simp: launch0_def dated_price_def split: prod.splits)
qed

lemma settings0_valid: "validate_mode_selection vars0 ''standalone'' = Inr ()" "validate_provider_instances sample_providers = None"
proof -
  show "validate_mode_selection vars0 ''standalone'' = Inr ()" by code_simp
  show "validate_provider_instances sample_providers = None"
    by (simp add: validate_provider_instances_def check_instance_def sample_providers_def List.map_filter_def declared_type_def
        alias_of_def provider_type_aliases_def models_ok_def)
qed

definition options0 :: serve_options where
  "options0 = \<lparr>opt_config = Some ''c'', opt_host = None, opt_port = None, opt_database_url = None, opt_master_key = None,
     opt_migrate = None\<rparr>"

lemma serve_mode_witness:
  "\<exists>s app. serve (host0 yaml0) options0 vars0 = Inr (vars0, s, app) \<and> local_routers \<subseteq> set (app_routers app)"
proof -
  have g: "gateway_config (host0 yaml0) vars0 config0 = Inr settings0" by (simp add: host0_def)
  have m: "set_mode settings0 = ''standalone''" "set_providers settings0 = sample_providers" by (simp_all add: settings0_def)
  have l: "load_config (host0 yaml0) (opt_config options0) vars0 = Inr (vars0, settings0)"
    by (simp add: options0_def load_config_def config0_loaded g m settings0_valid)
  have a: "apply_options options0 settings0 = settings0" by (simp add: apply_options_def options0_def given_def settings0_def)
  have p: "validate_platform_config vars0 settings0 = Inr ()"
    using vars0_standalone by (simp add: validate_platform_config_def m settings0_valid)
  obtain app where c: "create_app vars0 settings0 = Inr app" by (simp add: create_app_def p)
  have s: "serve (host0 yaml0) options0 vars0 = Inr (vars0, settings0, app)" by (simp add: serve_def l a p c Let_def)
  from serve_mode[OF s] vars0_standalone have "local_routers \<subseteq> set (app_routers app)" by (auto split: if_splits)
  with s show ?thesis by blast
qed

section \<open>Further facts\<close>

text \<open>The requests that are under way, as the metrics middleware sees them begin and end in any order.\<close>

inductive metrics_step :: "(string \<times> string) list \<times> metrics \<Rightarrow> (string \<times> string) list \<times> metrics \<Rightarrow> bool" where
  metrics_begin: "measured ''http'' path \<Longrightarrow> metrics_step (fl, m) ((meth, path) # fl, request_begins m)"
| metrics_end: "(meth, path) \<in> set fl \<Longrightarrow> metrics_step (fl, m) (remove1 (meth, path) fl, request_ends meth path ms m)"

lemma gauge_counts_requests_under_way:
  assumes "metrics_step\<^sup>*\<^sup>* ([], \<lparr>active_requests = 0, request_counts = []\<rparr>) (fl, m)"
  shows "active_requests m = int (length fl)"
proof -
  have "case x of (fl, m) \<Rightarrow> active_requests m = int (length fl)"
    if "metrics_step\<^sup>*\<^sup>* ([], \<lparr>active_requests = 0, request_counts = []\<rparr>) x" for x
    using that
  proof (induction rule: rtranclp_induct)
    case (step y z)
    from step(2) show ?case
    proof cases
      case (metrics_end meth path fl m ms)
      then have "0 < length fl" by (auto intro: length_pos_if_in_set)
      then have "int (length fl - Suc 0) = int (length fl) - 1" by linarith
      with step.IH metrics_end show ?thesis by (simp add: request_ends_def length_remove1)
    qed (use step.IH in \<open>simp add: request_begins_def\<close>)
  qed simp
  from this[OF assms] show ?thesis by simp
qed

text \<open>A response that never started counts as 500.\<close>

lemma unstarted_response_is_500: "final_status [] = 500" "final_status [(''http.response.start'', 201), (''http.response.body'', 0)] = 201"
  by (simp_all add: final_status_def)

text \<open>A platform address httpx refuses makes the readiness probe raise, where it should answer 503.\<close>

lemma readiness_raises_on_bad_address:
  assumes "map_of p ''base_url'' = Some (JStr b)" "b \<noteq> []" "map_of p ''resolve_timeout_ms'' = None" "map_of p ''health_path'' = None"
    and "\<And>u t. ask u t = Probe_Other_Error"
  shows "health_readiness version True (check_platform_reachability C ask p) ping = None"
  using assms by (simp add: check_platform_reachability_def health_readiness_def)

text \<open>A Postgres URL keeps its query but for the TLS mode, which becomes a connection argument.\<close>

lemma postgres_tls_moves:
  assumes "\<And>u. make_url U (render_url U u) = u" and "make_url U s = u" and "url_driver u = ''postgresql''"
    and "map_of (url_query u) ''sslmode'' = Some m" and "m \<noteq> []"
  shows "\<exists>r. to_async_url U s = (r, [Ssl m]) \<and> url_rest (make_url U r) = url_rest u
    \<and> map_of (url_query (make_url U r)) ''sslmode'' = None
    \<and> (\<forall>k. k \<noteq> ''sslmode'' \<longrightarrow> map_of (url_query (make_url U r)) k = map_of (url_query u) k)"
  using assms by (simp add: to_async_url_def Let_def starts_with_def)

text \<open>A port of 0 on the command line is ignored.\<close>

lemma port_zero_ignored: "set_port (apply_options A s) = set_port s" if "opt_port A = Some 0"
  using that by (simp add: apply_options_def)

end
