(* ===== verification/Tool_Stream.thy ===== *)
theory Tool_Stream
  imports Streaming Tool_Loop_Spec "HOL-Library.Sublist"
begin

text \<open>
  The streaming chat tool loop (\<open>mcp_tool_loop_stream\<close> of \<open>services/mcp_loop.py\<close>).

  The generator is the list of pulls it hands to \<open>streaming_generator\<close>, whose consumer may stop
  anywhere in it. A chunk carries the tool-call fragments and the finish reason of its first choice and, or
  instead, the usage. The \<open>i\<close>-th model call gives a stream of chunks, or raises.
\<close>

section \<open>Reassembling tool calls\<close>

record tool_delta =
  td_index :: int
  td_id :: "string option"
  td_type :: "string option"
  td_function :: "(string option \<times> string option) option"

record slot =
  sl_id :: "string option"
  sl_type :: string
  sl_name :: string
  sl_args :: string

definition empty_slot :: slot where
  "empty_slot = \<lparr>sl_id = None, sl_type = ''function'', sl_name = [], sl_args = []\<rparr>"

text \<open>An attribute that is absent, \<open>None\<close> or empty is skipped.\<close>

definition nonempty_opt :: "string option \<Rightarrow> string option" where
  "nonempty_opt v = (case v of Some (c # cs) \<Rightarrow> Some (c # cs) | _ \<Rightarrow> None)"

definition add_delta :: "tool_delta \<Rightarrow> slot \<Rightarrow> slot" where
  "add_delta d s = s\<lparr>sl_id := (case nonempty_opt (td_id d) of Some i \<Rightarrow> Some i | None \<Rightarrow> sl_id s),
     sl_type := (case nonempty_opt (td_type d) of Some t \<Rightarrow> t | None \<Rightarrow> sl_type s),
     sl_name := sl_name s @ (case td_function d of Some (Some n, _) \<Rightarrow> n | _ \<Rightarrow> []),
     sl_args := sl_args s @ (case td_function d of Some (_, Some a) \<Rightarrow> a | _ \<Rightarrow> [])\<rparr>"

fun accumulate_tool_call_deltas :: "(int, slot) dict \<Rightarrow> tool_delta list \<Rightarrow> (int, slot) dict" where
  "accumulate_tool_call_deltas slots [] = slots"
| "accumulate_tool_call_deltas slots (d # ds) = accumulate_tool_call_deltas
     (AList.update (td_index d) (add_delta d (case map_of slots (td_index d) of Some s \<Rightarrow> s | None \<Rightarrow> empty_slot)) slots) ds"

definition finalize_tool_calls :: "(int, slot) dict \<Rightarrow> slot list" where
  "finalize_tool_calls slots = map snd (sort_key fst slots)"

section \<open>One round\<close>

record stream_choice =
  sh_deltas :: "tool_delta list"
  sh_finish :: "string option"

record chat_chunk =
  cc_choice :: "stream_choice option"
  cc_usage :: "completion_usage option"
  cc_body :: string

record round_state =
  rs_slots :: "(int, slot) dict"
  rs_finish :: "string option"
  rs_pending :: "chat_chunk option"

definition new_round :: round_state where
  "new_round = \<lparr>rs_slots = [], rs_finish = None, rs_pending = None\<rparr>"

definition is_terminal :: "chat_chunk \<Rightarrow> bool" where
  "is_terminal c \<longleftrightarrow> (case cc_choice c of Some ch \<Rightarrow> nonempty_opt (sh_finish ch) \<noteq> None | None \<Rightarrow> False)"

definition note_chunk :: "chat_chunk \<Rightarrow> round_state \<Rightarrow> round_state" where
  "note_chunk c st = (case cc_choice c of None \<Rightarrow> st | Some ch \<Rightarrow>
     (let st1 = st\<lparr>rs_slots := accumulate_tool_call_deltas (rs_slots st) (sh_deltas ch)\<rparr> in
      case nonempty_opt (sh_finish ch) of None \<Rightarrow> st1
      | Some f \<Rightarrow> (if rs_finish st = Some ''tool_calls'' \<and> f \<noteq> ''tool_calls'' then st1
          else st1\<lparr>rs_finish := Some f\<rparr>)\<lparr>rs_pending := Some c\<rparr>))"

fun scan_round :: "chat_chunk pull list \<Rightarrow> round_state \<Rightarrow> chat_chunk list \<times> round_state \<times> exn option" where
  "scan_round [] st = ([], st, None)"
| "scan_round (Upstream x # ps) st = ([], st, Some x)"
| "scan_round (Chunk c # ps) st = (case scan_round ps (note_chunk c st) of
     (out, st', x) \<Rightarrow> (if is_terminal c then out else c # out, st', x))"

section \<open>The loop\<close>

definition slot_triple :: "slot \<Rightarrow> string option \<times> string \<times> string" where
  "slot_triple s = (sl_id s, sl_name s, sl_args s)"

definition slot_json :: "slot \<Rightarrow> json" where
  "slot_json s = JObj [(''id'', case sl_id s of Some i \<Rightarrow> JStr i | None \<Rightarrow> JNull), (''type'', JStr (sl_type s)),
     (''function'', JObj [(''name'', JStr (sl_name s)), (''arguments'', JStr (sl_args s))])]"

record stream_run =
  sr_asked :: "json list list"
  sr_out :: "chat_chunk pull list"
  sr_calls :: "(string \<times> json) list"

definition stream_ended :: "json list \<Rightarrow> chat_chunk pull list \<Rightarrow> (string \<times> json) list \<Rightarrow> stream_run" where
  "stream_ended m out c = \<lparr>sr_asked = [m], sr_out = out, sr_calls = c\<rparr>"

definition stream_next :: "json list \<Rightarrow> chat_chunk pull list \<Rightarrow> (string \<times> json) list \<Rightarrow> stream_run \<Rightarrow> stream_run" where
  "stream_next m out c rest = rest\<lparr>sr_asked := m # sr_asked rest, sr_out := out @ sr_out rest, sr_calls := c @ sr_calls rest\<rparr>"

definition pending_chunk :: "round_state \<Rightarrow> chat_chunk pull list" where
  "pending_chunk st = (case rs_pending st of Some c \<Rightarrow> [Chunk c] | None \<Rightarrow> [])"

fun stream_rounds :: "tool_pool \<Rightarrow> (string \<Rightarrow> json option) \<Rightarrow> (nat \<Rightarrow> json list \<Rightarrow> (string, chat_chunk pull list) result)
    \<Rightarrow> nat \<Rightarrow> nat \<Rightarrow> nat \<Rightarrow> json list \<Rightarrow> stream_run" where
  "stream_rounds B loads ask 0 i k msgs =
     \<lparr>sr_asked = [], sr_out = [Upstream (Exc ''Exceeded max_tool_iterations'')], sr_calls = []\<rparr>"
| "stream_rounds B loads ask (Suc n) i k msgs = (case ask i msgs of
     Inl e \<Rightarrow> stream_ended msgs [Upstream (Exc e)] []
   | Inr ps \<Rightarrow> (case scan_round ps new_round of
       (out, st, Some x) \<Rightarrow> stream_ended msgs (map Chunk out @ [Upstream x]) []
     | (out, st, None) \<Rightarrow>
         (let calls = finalize_tool_calls (rs_slots st);
              own = filter (\<lambda>s. owns_tool B (sl_name s)) calls;
              run = map (\<lambda>s. (sl_name s, parsed_args loads (sl_args s))) own
          in if rs_finish st \<noteq> Some ''tool_calls'' \<or> list_ex (\<lambda>s. \<not> owns_tool B (sl_name s)) calls \<or> own = []
             then stream_ended msgs (map Chunk out @ pending_chunk st) []
             else (case execute_calls B k run of
                 None \<Rightarrow> stream_ended msgs (map Chunk out @ [Upstream Cancelled_Error]) run
               | Some ts \<Rightarrow>
                   stream_next msgs (map Chunk out) run (stream_rounds B loads ask n (i + 1) (k + length run)
                     (msgs @ JObj [(''role'', JStr ''assistant''), (''tool_calls'', JArr (map slot_json own))]
                        # map2 tool_message (map slot_triple own) ts))))))"

definition mcp_tool_loop_stream :: "tool_pool \<Rightarrow> (string \<Rightarrow> json option)
    \<Rightarrow> (nat \<Rightarrow> json list \<Rightarrow> json list \<Rightarrow> (string, chat_chunk pull list) result)
    \<Rightarrow> nat \<Rightarrow> json list \<Rightarrow> json list \<Rightarrow> stream_run" where
  "mcp_tool_loop_stream B loads ask max_iterations user_tools msgs =
     stream_rounds B loads (\<lambda>i. ask i (user_tools @ openai_tools B)) max_iterations 0 0 msgs"

text \<open>\<open>extract_stream_usage\<close> of the chat route.\<close>

definition chat_stream_usage :: "chat_chunk \<Rightarrow> usage option" where
  "chat_stream_usage c = (case cc_usage c of None \<Rightarrow> None | Some u \<Rightarrow> Some (Gateway_Usage u
     (case prompt_tokens_details u of Some d \<Rightarrow> opt_or0 d | None \<Rightarrow> 0) 0))"

section \<open>Lemmas\<close>

lemma stream_run_simps [simp]:
  "sr_asked (stream_next m out c rest) = m # sr_asked rest" "sr_out (stream_next m out c rest) = out @ sr_out rest"
  "sr_calls (stream_next m out c rest) = c @ sr_calls rest"
  "sr_asked (stream_ended m out c) = [m]" "sr_out (stream_ended m out c) = out" "sr_calls (stream_ended m out c) = c"
  by (simp_all add: stream_next_def stream_ended_def)

text \<open>What the fragments with one index add up to.\<close>

definition delta_name :: "tool_delta \<Rightarrow> string" where
  "delta_name d = (case td_function d of Some (Some n, _) \<Rightarrow> n | _ \<Rightarrow> [])"

definition delta_args :: "tool_delta \<Rightarrow> string" where
  "delta_args d = (case td_function d of Some (_, Some a) \<Rightarrow> a | _ \<Rightarrow> [])"

lemma add_delta_simps [simp]:
  "sl_name (add_delta d s) = sl_name s @ delta_name d" "sl_args (add_delta d s) = sl_args s @ delta_args d"
  by (simp_all add: add_delta_def delta_name_def delta_args_def)

lemma accumulate_lookup:
  "map_of (accumulate_tool_call_deltas slots ds) j =
     (let mine = filter (\<lambda>d. td_index d = j) ds in
      if mine = [] then map_of slots j
      else Some (fold add_delta mine (case map_of slots j of Some s \<Rightarrow> s | None \<Rightarrow> empty_slot)))"
  by (induction slots ds rule: accumulate_tool_call_deltas.induct) (auto simp: Let_def)

lemma accumulate_keys:
  "distinct (map fst slots) \<Longrightarrow> distinct (map fst (accumulate_tool_call_deltas slots ds))"
  by (induction slots ds rule: accumulate_tool_call_deltas.induct) (simp_all add: distinct_update)

lemma accumulate_dom:
  "fst ` set (accumulate_tool_call_deltas slots ds) = fst ` set slots \<union> td_index ` set ds"
  by (induction slots ds rule: accumulate_tool_call_deltas.induct) (auto simp: dom_update)

lemma accumulate_append:
  "accumulate_tool_call_deltas slots (ds @ es) = accumulate_tool_call_deltas (accumulate_tool_call_deltas slots ds) es"
  by (induction slots ds rule: accumulate_tool_call_deltas.induct) simp_all

lemma fold_add_delta:
  "sl_name (fold add_delta ds s) = sl_name s @ concat (map delta_name ds)"
  "sl_args (fold add_delta ds s) = sl_args s @ concat (map delta_args ds)"
  by (induction ds arbitrary: s) simp_all

lemma sort_key_sorted: "sorted (map f xs) \<Longrightarrow> sort_key f xs = xs"
  by (induction xs) (auto simp: insort_is_Cons)

lemma finalize_indexed:
  fixes slots :: "(int, slot) dict"
  assumes "distinct (map fst slots)" "fst ` set slots = int ` {..<n}"
  shows "finalize_tool_calls slots = map (\<lambda>j. the (map_of slots (int j))) [0..<n]"
proof -
  let ?ks = "map int [0..<n]" and ?ss = "sort_key fst slots"
  have "sorted (map fst ?ss)" "distinct (map fst ?ss)" "set (map fst ?ss) = set ?ks"
    using assms by (auto simp: distinct_map)
  moreover have "sorted ?ks" "distinct ?ks" by (simp_all add: sorted_iff_nth_mono distinct_map)
  ultimately have ks: "map fst ?ss = ?ks" using sorted_distinct_set_unique by blast
  have m: "map_of ?ss = map_of slots"
    by (rule map_of_inject_set[THEN iffD2]) (use assms(1) in \<open>auto simp: distinct_map\<close>)
  have "the (map_of ?ss (fst x)) = snd x" if "x \<in> set ?ss" for x
    using map_of_is_SomeI[OF \<open>distinct (map fst ?ss)\<close>, of "fst x" "snd x"] that by simp
  then have "map snd ?ss = map (\<lambda>k. the (map_of ?ss k)) (map fst ?ss)" by simp
  then show ?thesis by (simp add: finalize_tool_calls_def ks m)
qed

text \<open>Terminal chunks are held back: what a round passes on carries no finish reason.\<close>

lemma scan_round_out: "scan_round ps st = (out, st', x) \<Longrightarrow> c \<in> set out \<Longrightarrow> \<not> is_terminal c"
  by (induction ps st arbitrary: out st' x rule: scan_round.induct) (auto split: prod.splits if_splits)

definition terminal_only_last :: "chat_chunk pull list \<Rightarrow> bool" where
  "terminal_only_last ps \<longleftrightarrow> (\<forall>c. Chunk c \<in> set (butlast ps) \<longrightarrow> \<not> is_terminal c)"

lemma terminal_only_last_append:
  "(\<And>c. c \<in> set out \<Longrightarrow> \<not> is_terminal c) \<Longrightarrow> terminal_only_last ps \<Longrightarrow> terminal_only_last (map Chunk out @ ps)"
  by (auto simp: terminal_only_last_def butlast_append dest!: in_set_butlastD)

lemma terminal_only_last_single [simp]: "terminal_only_last [p]"
  "terminal_only_last (pending_chunk st)"
  by (simp_all add: terminal_only_last_def pending_chunk_def split: option.split)

lemma stream_rounds_out:
  "terminal_only_last (sr_out (stream_rounds B loads ask n i k msgs))
    \<and> length (sr_asked (stream_rounds B loads ask n i k msgs)) \<le> n
    \<and> fst ` set (sr_calls (stream_rounds B loads ask n i k msgs)) \<subseteq> {n. owns_tool B n}"
proof (induction n arbitrary: i k msgs)
  case (Suc n)
  show ?case
  proof (cases "ask i msgs")
    case (Inl e)
    then show ?thesis by simp
  next
    case (Inr ps)
    obtain out st x where sc: "scan_round ps new_round = (out, st, x)" by (cases "scan_round ps new_round")
    note * = terminal_only_last_append[OF scan_round_out[OF sc]]
    show ?thesis
    proof (cases x)
      case (Some e)
      then show ?thesis using Inr sc * by simp
    next
      case None
      let ?calls = "finalize_tool_calls (rs_slots st)"
      let ?own = "filter (\<lambda>s. owns_tool B (sl_name s)) ?calls"
      let ?run = "map (\<lambda>s. (sl_name s, parsed_args loads (sl_args s))) ?own"
      have own: "fst ` set ?run \<subseteq> {n. owns_tool B n}" by auto
      show ?thesis
      proof (cases "rs_finish st \<noteq> Some ''tool_calls'' \<or> list_ex (\<lambda>s. \<not> owns_tool B (sl_name s)) ?calls \<or> ?own = []")
        case True
        then show ?thesis using Inr sc None * by simp
      next
        case False
        note go = False
        show ?thesis
        proof (cases "execute_calls B k ?run")
          case None
          with go Inr sc \<open>x = None\<close> own * show ?thesis by simp
        next
          case (Some ts)
          with go Inr sc \<open>x = None\<close> show ?thesis by (simp add: Let_def own[simplified] image_Un * Suc.IH)
        qed
      qed
    qed
  qed
qed simp

section \<open>A streamed answer\<close>

text \<open>The stream of an answer: one fragment per tool call, the finish reason, the usage.\<close>

definition plain_chunk :: "stream_choice option \<Rightarrow> completion_usage option \<Rightarrow> chat_chunk" where
  "plain_chunk ch u = \<lparr>cc_choice = ch, cc_usage = u, cc_body = []\<rparr>"

definition call_chunk :: "nat \<times> string option \<times> string \<times> string \<Rightarrow> chat_chunk" where
  "call_chunk jc = (case jc of (j, i, n, a) \<Rightarrow> plain_chunk (Some \<lparr>sh_deltas = [\<lparr>td_index = int j, td_id = i,
     td_type = Some ''function'', td_function = Some (Some n, Some a)\<rparr>], sh_finish = None\<rparr>) None)"

definition completion_stream :: "completion \<Rightarrow> chat_chunk pull list" where
  "completion_stream c =
     (case cp_choices c of [] \<Rightarrow> []
      | ch # _ \<Rightarrow> map (Chunk \<circ> call_chunk) (enumerate 0 (function_calls (or_nil (ch_calls ch))))
          @ [Chunk (plain_chunk (Some \<lparr>sh_deltas = [], sh_finish = ch_finish ch\<rparr>) None)])
     @ (case cp_usage c of None \<Rightarrow> [] | Some u \<Rightarrow> [Chunk (plain_chunk None (Some u))])"

definition slot_of :: "string option \<times> string \<times> string \<Rightarrow> slot" where
  "slot_of c = (case c of (i, n, a) \<Rightarrow> \<lparr>sl_id = nonempty_opt i, sl_type = ''function'', sl_name = n, sl_args = a\<rparr>)"

lemma add_call_delta:
  "add_delta \<lparr>td_index = j, td_id = i, td_type = Some ''function'', td_function = Some (Some n, Some a)\<rparr> empty_slot
    = slot_of (i, n, a)"
  by (simp add: add_delta_def empty_slot_def slot_of_def nonempty_opt_def split: option.split list.split)

lemma scan_calls:
  "(\<And>j. m \<le> j \<Longrightarrow> map_of (rs_slots st) (int j) = None) \<Longrightarrow>
    scan_round (map (Chunk \<circ> call_chunk) (enumerate m calls) @ ps) st =
      (case scan_round ps (st\<lparr>rs_slots := rs_slots st @ map (\<lambda>(j, c). (int j, slot_of c)) (enumerate m calls)\<rparr>) of
        (out, st', x) \<Rightarrow> (map call_chunk (enumerate m calls) @ out, st', x))"
proof (induction calls arbitrary: m st)
  case (Cons c calls)
  obtain i n a where c: "c = (i, n, a)" by (cases c)
  let ?st = "st\<lparr>rs_slots := rs_slots st @ [(int m, slot_of c)]\<rparr>"
  have nc: "note_chunk (call_chunk (m, c)) st = ?st" "\<not> is_terminal (call_chunk (m, c))"
    using Cons.prems[of m] update_fresh[of "rs_slots st" "int m"]
    by (simp_all add: c note_chunk_def call_chunk_def plain_chunk_def is_terminal_def nonempty_opt_def add_call_delta)
  have "map_of (rs_slots ?st) (int j) = None" if "Suc m \<le> j" for j
    using that Cons.prems[of j] by (simp add: map_of_append)
  from Cons.IH[OF this] show ?case using nc by (simp split: prod.splits)
qed simp

lemma scan_tail:
  "scan_round (Chunk (plain_chunk (Some \<lparr>sh_deltas = [], sh_finish = f\<rparr>) None)
      # (case u of None \<Rightarrow> [] | Some v \<Rightarrow> [Chunk (plain_chunk None (Some v))])) st =
    (let c = plain_chunk (Some \<lparr>sh_deltas = [], sh_finish = f\<rparr>) None in
     ((if nonempty_opt f = None then [c] else []) @ (case u of None \<Rightarrow> [] | Some v \<Rightarrow> [plain_chunk None (Some v)]),
      note_chunk c st, None))"
  by (cases u) (auto simp: is_terminal_def plain_chunk_def note_chunk_def Let_def)

lemma finalize_enumerate: "finalize_tool_calls (map (\<lambda>(j, c). (int j, slot_of c)) (enumerate m cs)) = map slot_of cs"
proof -
  let ?xs = "map (\<lambda>(j, c). (int j, slot_of c)) (enumerate m cs)"
  have "map fst ?xs = map int [m..<m + length cs]" by (induction cs arbitrary: m) (simp_all add: upt_conv_Cons del: upt_Suc)
  then have "sorted (map fst ?xs)" by (simp add: sorted_iff_nth_mono)
  then have "finalize_tool_calls ?xs = map snd ?xs" by (simp add: finalize_tool_calls_def sort_key_sorted)
  also have "\<dots> = map slot_of cs" by (induction cs arbitrary: m) simp_all
  finally show ?thesis .
qed

text \<open>Scanning the stream of an answer gives back its calls and its finish reason, and passes its usage on.\<close>

lemma scan_completion:
  assumes "cp_choices c = ch # chs"
  shows "\<exists>out st. scan_round (completion_stream c) new_round = (out, st, None)
    \<and> finalize_tool_calls (rs_slots st) = map slot_of (function_calls (or_nil (ch_calls ch)))
    \<and> rs_finish st = nonempty_opt (ch_finish ch)
    \<and> List.map_filter cc_usage out = (case cp_usage c of None \<Rightarrow> [] | Some u \<Rightarrow> [u])
    \<and> (\<forall>t. rs_pending st = Some t \<longrightarrow> cc_usage t = None)"
proof -
  let ?calls = "function_calls (or_nil (ch_calls ch))"
  let ?slots = "map (\<lambda>(j, c). (int j, slot_of c)) (enumerate 0 ?calls)"
  have usage: "List.map_filter cc_usage (map call_chunk (enumerate m cs)) = []" for m cs
    by (induction cs arbitrary: m) (simp_all add: call_chunk_def plain_chunk_def split: prod.split)
  have app: "List.map_filter f (xs @ ys) = List.map_filter f xs @ List.map_filter f ys" for f :: "chat_chunk \<Rightarrow> completion_usage option" and xs ys
    by (simp add: List.map_filter_def)
  show ?thesis
    using scan_calls[of 0 new_round ?calls] finalize_enumerate[of 0 ?calls]
    by (auto simp: assms completion_stream_def scan_tail Let_def new_round_def note_chunk_def plain_chunk_def is_terminal_def app usage
        split: option.splits)
qed

section \<open>The streamed and the plain loop\<close>

definition proper_ids :: "completion \<Rightarrow> bool" where
  "proper_ids c \<longleftrightarrow> (\<forall>ch \<in> set (cp_choices c). \<forall>x \<in> set (function_calls (or_nil (ch_calls ch))). fst x \<noteq> Some [])"

lemma slot_of_simps [simp]: "sl_name (slot_of x) = fst (snd x)" "sl_args (slot_of x) = snd (snd x)"
  by (simp_all add: slot_of_def split: prod.split)

lemma slot_of_owned:
  "filter (\<lambda>s. owns_tool B (sl_name s)) (map slot_of cs) = map slot_of (owned_calls B cs)"
  "list_ex (\<lambda>s. \<not> owns_tool B (sl_name s)) (map slot_of cs) \<longleftrightarrow> has_foreign B cs"
  by (simp_all add: owned_calls_def owned_call_of_def[abs_def] has_foreign_def filter_map comp_def list_ex_iff)

lemma slot_of_run: "map (\<lambda>s. (sl_name s, parsed_args loads (sl_args s))) (map slot_of cs) = to_run loads cs"
  by (auto simp: to_run_def)

lemma slot_of_json:
  assumes "\<forall>x \<in> set cs. fst x \<noteq> Some []"
  shows "map slot_triple (map slot_of cs) = cs"
    "JObj [(''role'', JStr ''assistant''), (''tool_calls'', JArr (map slot_json (map slot_of cs)))] = assistant_message cs"
  using assms by (auto simp: slot_triple_def slot_json_def slot_of_def nonempty_opt_def assistant_message_def
      intro!: map_idI split: option.splits list.splits prod.splits)

definition pulled_usage :: "chat_chunk pull list \<Rightarrow> completion_usage list" where
  "pulled_usage ps = List.map_filter (\<lambda>p. case p of Chunk c \<Rightarrow> cc_usage c | Upstream _ \<Rightarrow> None) ps"

lemma pulled_usage_simps [simp]:
  "pulled_usage (ps @ qs) = pulled_usage ps @ pulled_usage qs" "pulled_usage [Upstream x] = []"
  "pulled_usage (map Chunk out) = List.map_filter cc_usage out"
  by (simp_all add: pulled_usage_def List.map_filter_def filter_map comp_def)

definition map_answer :: "('a \<Rightarrow> 'b) \<Rightarrow> ('e, 'a) result \<Rightarrow> ('e, 'b) result" where
  "map_answer f r = (case r of Inl e \<Rightarrow> Inl e | Inr a \<Rightarrow> Inr (f a))"

lemma stream_rounds_agree:
  assumes ids: "\<And>i m c. ask i m = Inr c \<Longrightarrow> proper_ids c"
  defines "ask' \<equiv> \<lambda>i m. map_answer completion_stream (ask i m)"
  shows "sr_asked (stream_rounds B loads ask' n i k msgs) = lr_asked (run_loop (chat_format B loads) ask n i k msgs acc)
    \<and> prefix (sr_calls (stream_rounds B loads ask' n i k msgs)) (lr_calls (run_loop (chat_format B loads) ask n i k msgs acc))
    \<and> pulled_usage (sr_out (stream_rounds B loads ask' n i k msgs))
        = List.map_filter cp_usage (lr_answers (run_loop (chat_format B loads) ask n i k msgs acc))"
proof (induction n arbitrary: i k msgs acc)
  case (Suc n)
  show ?case
  proof (cases "ask i msgs")
    case (Inl e)
    then show ?thesis by (simp add: ask'_def map_answer_def)
  next
    case (Inr c)
    note ask = Inr
    have ask': "ask' i msgs = Inr (completion_stream c)" using ask by (simp add: ask'_def map_answer_def)
    show ?thesis
    proof (cases "cp_choices c")
      case Nil
      then show ?thesis using ask ask'
        by (simp add: completion_stream_def new_round_def note_chunk_def plain_chunk_def is_terminal_def chat_round_def
            pending_chunk_def pulled_usage_def split: option.split)
    next
      case (Cons ch chs)
      let ?calls = "function_calls (or_nil (ch_calls ch))"
      let ?own = "owned_calls B ?calls"
      have ok: "\<forall>x \<in> set ?own. fst x \<noteq> Some []"
        using ids[OF ask] Cons by (auto simp: proper_ids_def owned_calls_def)
      obtain out st where sc: "scan_round (completion_stream c) new_round = (out, st, None)"
        and fin: "finalize_tool_calls (rs_slots st) = map slot_of ?calls" "rs_finish st = nonempty_opt (ch_finish ch)"
        and us: "List.map_filter cc_usage out = (case cp_usage c of None \<Rightarrow> [] | Some u \<Rightarrow> [u])"
          "pulled_usage (pending_chunk st) = []"
        using scan_completion[OF Cons] by (force simp: pulled_usage_def pending_chunk_def split: option.split)
      have tc: "nonempty_opt (ch_finish ch) = Some ''tool_calls'' \<longleftrightarrow> ch_finish ch = Some ''tool_calls''"
        by (auto simp: nonempty_opt_def split: option.splits list.splits)
      note slots = slot_of_owned slot_of_run slot_of_json[OF ok]
      show ?thesis
      proof (cases "ch_finish ch \<noteq> Some ''tool_calls'' \<or> has_foreign B ?calls \<or> ?own = []")
        case True
        then show ?thesis using ask ask' sc fin us tc Cons
          by (auto simp: slot_of_owned chat_round_def Let_def split: option.split)
      next
        case False
        then show ?thesis using ask ask' sc fin us tc Cons Suc.IH
          by (auto simp: slots chat_round_def Let_def simp del: map_map split: option.split)
      qed
    qed
  qed
qed (simp add: pulled_usage_def)

text \<open>The chat route's generator over the loop's chunks.\<close>

definition chat_args :: "(nat \<Rightarrow> event \<Rightarrow> callback_result) \<Rightarrow> chat_chunk gen_args" where
  "chat_args cb0 = \<lparr>format_chunk = (\<lambda>c. Inr (cc_body c)), extract_usage = (\<lambda>c. Inr (chat_stream_usage c)),
     fmt = openai_stream_format, has_on_no_usage = True, has_on_incomplete = True, cb = cb0\<rparr>"

lemma readable_chat [simp]: "readable (chat_args cb0) cs"
  by (simp add: readable_def chat_args_def)

lemma usages_chat: "usages (chat_args cb0) cs = map (\<lambda>u. Gateway_Usage u (cached_of u) 0) (pulled_usage (map Chunk cs))"
  by (induction cs) (simp_all add: chat_args_def chat_stream_usage_def pulled_usage_def cached_of_def split: option.split)

lemma sum_usage_filter: "sum_usage g f as = sum_list (map f (List.map_filter g as))"
  by (induction as) (simp_all split: option.split)

text \<open>A sample: two model calls of which the first calls the sandbox, as completions and as streams.\<close>

definition sample_stream_ask :: "nat \<Rightarrow> json list \<Rightarrow> json list \<Rightarrow> (string, chat_chunk pull list) result" where
  "sample_stream_ask i tools msgs = map_answer completion_stream (sample_ask i tools msgs)"

lemmas stream_defs = map_answer_def completion_stream_def note_chunk_def call_chunk_def plain_chunk_def is_terminal_def
  new_round_def nonempty_opt_def add_delta_def empty_slot_def finalize_tool_calls_def pending_chunk_def

lemma sample_proper: "sample_ask i tools msgs = Inr c \<Longrightarrow> proper_ids c"
  by (auto simp: sample_ask_def sample_completion_def proper_ids_def or_nil_def function_calls_def sandbox_sdk_call_def
      split: if_splits)

section \<open>Properties\<close>

text \<open>However a model's tool calls are cut into fragments and however the fragments of different calls
  interleave, what is reassembled is the calls themselves, in index order.\<close>

theorem fragments_reassemble:
  assumes "\<forall>d \<in> set ds. \<exists>j < length calls. td_index d = int j"
    and "\<forall>j < length calls. \<exists>d \<in> set ds. td_index d = int j"
    and "\<forall>j < length calls. (concat (map delta_name (filter (\<lambda>d. td_index d = int j) ds)),
      concat (map delta_args (filter (\<lambda>d. td_index d = int j) ds))) = calls ! j"
  shows "map (\<lambda>s. (sl_name s, sl_args s)) (finalize_tool_calls (accumulate_tool_call_deltas [] ds)) = calls"
proof -
  let ?slots = "accumulate_tool_call_deltas [] ds"
  have dom: "fst ` set ?slots = int ` {..<length calls}"
    using assms(1,2) by (auto simp: accumulate_dom image_iff) metis+
  have "finalize_tool_calls ?slots = map (\<lambda>j. the (map_of ?slots (int j))) [0..<length calls]"
    by (rule finalize_indexed[OF _ dom]) (simp add: accumulate_keys)
  moreover have "(sl_name (the (map_of ?slots (int j))), sl_args (the (map_of ?slots (int j)))) = calls ! j"
    if "j < length calls" for j
  proof -
    have "filter (\<lambda>d. td_index d = int j) ds \<noteq> []" using assms(2) that by (auto simp: filter_empty_conv)
    then show ?thesis using assms(3) that by (simp add: accumulate_lookup fold_add_delta empty_slot_def)
  qed
  ultimately show ?thesis by (intro nth_equalityI) auto
qed

lemma fragments_reassemble_witness:
  "map (\<lambda>s. (sl_name s, sl_args s)) (finalize_tool_calls (accumulate_tool_call_deltas []
     [\<lparr>td_index = 0, td_id = Some ''a'', td_type = None, td_function = Some (Some ''f'', Some ''{'')\<rparr>,
      \<lparr>td_index = 1, td_id = Some ''b'', td_type = None, td_function = Some (Some ''g'', None)\<rparr>,
      \<lparr>td_index = 0, td_id = None, td_type = None, td_function = Some (None, Some ''}'')\<rparr>]))
   = [(''f'', ''{}''), (''g'', [])]"
  by (rule fragments_reassemble) (auto simp: delta_name_def delta_args_def less_Suc_eq)

text \<open>The streamed loop makes at most \<open>max_iterations\<close> model calls, runs only tools of its backend, and
  sends the client a chunk with a finish reason at most once, as the very last one.\<close>

theorem streamed_loop_contract:
  "terminal_only_last (sr_out (mcp_tool_loop_stream B loads ask N tools msgs))
    \<and> length (sr_asked (mcp_tool_loop_stream B loads ask N tools msgs)) \<le> N
    \<and> fst ` set (sr_calls (mcp_tool_loop_stream B loads ask N tools msgs)) \<subseteq> {n. owns_tool B n}"
  using stream_rounds_out by (simp add: mcp_tool_loop_stream_def)



text \<open>A streamed request that runs tools is billed for one model call only: of every count the generator
  keeps the last non-zero value, while the plain loop reports the sum over the very same answers.\<close>

theorem streamed_tool_rounds_underbilled:
  assumes "\<And>i m c. ask i (tools @ openai_tools B) m = Inr c \<Longrightarrow> proper_ids c"
    and srun: "srun = mcp_tool_loop_stream B loads (\<lambda>i t m. map_answer completion_stream (ask i t m)) N tools msgs"
    and run: "run = mcp_tool_loop B loads ask N tools msgs"
    and billed: "On_Complete u \<in> set (events (fst (streaming_generator (chat_args cb0) (sr_out srun) rs)))"
  shows "prompt_tokens (base_usage u) = last_nonzero (map prompt_tokens (List.map_filter cp_usage (lr_answers run)))
    \<and> (\<forall>c v. lr_end run = Loop_Done c \<longrightarrow> cp_usage c = Some v \<longrightarrow>
        prompt_tokens v = sum_list (map prompt_tokens (List.map_filter cp_usage (lr_answers run))))"
proof -
  have us: "pulled_usage (sr_out srun) = List.map_filter cp_usage (lr_answers run)"
    using stream_rounds_agree[of "\<lambda>i. ask i (tools @ openai_tools B)"] assms(1)
    by (simp add: srun run mcp_tool_loop_stream_def mcp_tool_loop_def)
  obtain cs where cs: "sr_out srun = map Chunk cs" "u = foldl merge_usage zero_usage (usages (chat_args cb0) cs)"
    using generator_complete_only[of "chat_args cb0" "sr_out srun" rs _ _ u] billed
    by (fastforce simp: prod_eq_iff split: if_splits)
  have "prompt_tokens (base_usage u) = usage_counts u ! 0" by (simp add: usage_counts_def)
  also have "\<dots> = last_nonzero (map (\<lambda>v. usage_counts v ! 0) (usages (chat_args cb0) cs))"
    unfolding cs(2) by (rule foldl_merge_counts) simp
  also have "\<dots> = last_nonzero (map prompt_tokens (pulled_usage (sr_out srun)))"
    by (simp add: cs(1) usages_chat comp_def usage_counts_def)
  finally have "prompt_tokens (base_usage u) = last_nonzero (map prompt_tokens (List.map_filter cp_usage (lr_answers run)))"
    by (simp add: us)
  moreover have "prompt_tokens v = sum_list (map prompt_tokens (List.map_filter cp_usage (lr_answers run)))"
    if "lr_end run = Loop_Done c" "cp_usage c = Some v" for c v
    using chat_folded[of B loads "\<lambda>i. ask i (tools @ openai_tools B)" N 0 0 msgs] that
    by (simp add: run mcp_tool_loop_def usage_folded_def chat_total_def sum_usage_filter)
  ultimately show ?thesis by blast
qed

lemma streamed_tool_rounds_underbilled_witness:
  "\<exists>u. On_Complete u \<in> set (events (fst (streaming_generator (chat_args (\<lambda>_ _. Returns))
       (sr_out (mcp_tool_loop_stream sample_sandbox sample_loads sample_stream_ask 10 [] [])) [])))
     \<and> prompt_tokens (base_usage u) = 10"
proof -
  let ?run = "mcp_tool_loop sample_sandbox sample_loads sample_ask 10 [] []"
  let ?srun = "mcp_tool_loop_stream sample_sandbox sample_loads (\<lambda>i t m. map_answer completion_stream (sample_ask i t m)) 10 [] []"
  have answers: "lr_answers ?run = [sample_completion ''tool_calls'' (Some [sandbox_sdk_call]), sample_completion ''stop'' None]"
    by (simp add: mcp_tool_loop_def numeral_eq_Suc sample_defs)
  have "\<exists>cs. sr_out ?srun = map Chunk cs \<and> usages (chat_args (\<lambda>_ _. Returns)) cs \<noteq> []"
    by (simp add: mcp_tool_loop_stream_def numeral_eq_Suc sample_defs stream_defs)
      (auto simp: Cons_eq_map_conv usages_chat pulled_usage_def)
  then obtain cs where cs: "sr_out ?srun = map Chunk cs" "usages (chat_args (\<lambda>_ _. Returns)) cs \<noteq> []" by blast
  from generator_patient(2)[of "chat_args (\<lambda>_ _. Returns)" cs] cs obtain u where
    "On_Complete u \<in> set (events (fst (streaming_generator (chat_args (\<lambda>_ _. Returns)) (sr_out ?srun) [])))"
    by (auto simp: readable_chat)
  with streamed_tool_rounds_underbilled[OF sample_proper refl refl this] show ?thesis
    by (auto simp: answers sample_stream_ask_def[abs_def] sample_completion_def last_nonzero_def)
qed

end
