(* ===== verification/Format_Streams.thy ===== *)
theory Format_Streams
  imports Tool_Stream
begin

text \<open>
  The streaming tool loops of the other two formats (\<open>anthropic_tool_loop_stream\<close> of
  \<open>services/mcp_loop_messages.py\<close>, \<open>responses_tool_loop_stream\<close> of \<open>services/mcp_loop_responses.py\<close>), and what
  their routes read off the events (\<open>extract_stream_usage\<close>).

  Both loops share a skeleton, \<open>event_rounds\<close>: pass the events of a model call on, hold the terminal ones back,
  run the tools if every called tool is the gateway's, and ask again, or else send the terminal events with the
  output tokens of the rounds before added in. What a format collects from its events is its \<open>event_format\<close>.
  Content blocks are dictionaries, as the code keeps them; a block whose name, id or text is no string counts as
  having an empty one.
\<close>

section \<open>The skeleton\<close>

record ('e, 'st) event_format =
  ef_scan :: "'e pull list \<Rightarrow> 'e list \<times> 'st \<times> exn option"
  ef_run :: "'st \<Rightarrow> (string \<times> json) list option"
  ef_append :: "'st \<Rightarrow> string list \<Rightarrow> json list"
  ef_terminal :: "'st \<Rightarrow> 'e list"
  ef_output :: "'e \<Rightarrow> int"
  ef_fold :: "int \<Rightarrow> 'e \<Rightarrow> 'e"

record 'e event_run =
  er_asked :: "json list list"
  er_out :: "'e pull list"
  er_calls :: "(string \<times> json) list"

definition events_ended :: "json list \<Rightarrow> 'e pull list \<Rightarrow> (string \<times> json) list \<Rightarrow> 'e event_run" where
  "events_ended m out c = \<lparr>er_asked = [m], er_out = out, er_calls = c\<rparr>"

definition events_next :: "json list \<Rightarrow> 'e pull list \<Rightarrow> (string \<times> json) list \<Rightarrow> 'e event_run \<Rightarrow> 'e event_run" where
  "events_next m out c rest = \<lparr>er_asked = m # er_asked rest, er_out = out @ er_out rest, er_calls = c @ er_calls rest\<rparr>"

text \<open>\<open>n\<close> rounds are left, this is the \<open>i\<close>-th, \<open>k\<close> tools have been run, \<open>acc\<close> output tokens were held back.\<close>

fun event_rounds :: "('e, 'st) event_format \<Rightarrow> tool_pool \<Rightarrow> (nat \<Rightarrow> json list \<Rightarrow> (string, 'e pull list) result)
    \<Rightarrow> nat \<Rightarrow> nat \<Rightarrow> nat \<Rightarrow> json list \<Rightarrow> int \<Rightarrow> 'e event_run" where
  "event_rounds F B ask 0 i k msgs acc =
     \<lparr>er_asked = [], er_out = [Upstream (Exc ''Exceeded max_tool_iterations'')], er_calls = []\<rparr>"
| "event_rounds F B ask (Suc n) i k msgs acc = (case ask i msgs of
     Inl e \<Rightarrow> events_ended msgs [Upstream (Exc e)] []
   | Inr ps \<Rightarrow> (case ef_scan F ps of
       (out, st, Some x) \<Rightarrow> events_ended msgs (map Chunk out @ [Upstream x]) []
     | (out, st, None) \<Rightarrow> (case ef_run F st of
         None \<Rightarrow> events_ended msgs (map Chunk (out @ map (ef_fold F acc) (ef_terminal F st))) []
       | Some run \<Rightarrow> (case execute_calls B k run of
           None \<Rightarrow> events_ended msgs (map Chunk out @ [Upstream Cancelled_Error]) run
         | Some ts \<Rightarrow> events_next msgs (map Chunk out) run
             (event_rounds F B ask n (i + 1) (k + length run) (msgs @ ef_append F st ts)
               (acc + sum_list (map (ef_output F) (ef_terminal F st))))))))"

section \<open>Anthropic events\<close>

datatype block_delta = Input_Json string | Text_Delta string | Thinking_Delta string | Signature_Delta string | Other_Delta

datatype message_event =
    Message_Start message_usage
  | Block_Start int "(string, json) dict"
  | Block_Delta int block_delta
  | Message_Delta "string option" "message_usage option"
  | Message_Stop
  | Other_Event json

record block_state =
  bs_blocks :: "(int, (string, json) dict) dict"
  bs_bufs :: "(int, string) dict"
  bs_stop :: "string option"
  bs_terminal :: "message_event list"

definition new_blocks :: block_state where
  "new_blocks = \<lparr>bs_blocks = [], bs_bufs = [], bs_stop = None, bs_terminal = []\<rparr>"

definition text_field :: "string \<Rightarrow> (string, json) dict \<Rightarrow> string" where
  "text_field k b = (case map_of b k of Some (JStr s) \<Rightarrow> s | _ \<Rightarrow> [])"

definition is_tool_use :: "(string, json) dict \<Rightarrow> bool" where
  "is_tool_use b \<longleftrightarrow> map_of b ''type'' = Some (JStr ''tool_use'')"

text \<open>\<open>block["text"] = (block.get("text") or "") + delta\<close>\<close>

definition grow_field :: "string \<Rightarrow> string \<Rightarrow> (string, json) dict \<Rightarrow> (string, json) dict" where
  "grow_field k s b = AList.update k (JStr (text_field k b @ s)) b"

definition note_delta :: "int \<Rightarrow> block_delta \<Rightarrow> block_state \<Rightarrow> block_state" where
  "note_delta i d st = (case map_of (bs_blocks st) i of None \<Rightarrow> st | Some b \<Rightarrow>
     (case d of
        Input_Json s \<Rightarrow> (case map_of (bs_bufs st) i of
            None \<Rightarrow> st | Some buf \<Rightarrow> st\<lparr>bs_bufs := AList.update i (buf @ s) (bs_bufs st)\<rparr>)
      | Text_Delta s \<Rightarrow> st\<lparr>bs_blocks := AList.update i (grow_field ''text'' s b) (bs_blocks st)\<rparr>
      | Thinking_Delta s \<Rightarrow> st\<lparr>bs_blocks := AList.update i (grow_field ''thinking'' s b) (bs_blocks st)\<rparr>
      | Signature_Delta s \<Rightarrow> st\<lparr>bs_blocks := AList.update i (grow_field ''signature'' s b) (bs_blocks st)\<rparr>
      | Other_Delta \<Rightarrow> st))"

text \<open>Only \<open>message_delta\<close> and \<open>message_stop\<close> are held back; the latter ends the round.\<close>

fun scan_message :: "message_event pull list \<Rightarrow> block_state \<Rightarrow> message_event list \<times> block_state \<times> exn option" where
  "scan_message [] st = ([], st, None)"
| "scan_message (Upstream x # ps) st = ([], st, Some x)"
| "scan_message (Chunk e # ps) st = (case e of
     Message_Stop \<Rightarrow> ([], st\<lparr>bs_terminal := bs_terminal st @ [e]\<rparr>, None)
   | Message_Delta sr u \<Rightarrow> scan_message ps (st\<lparr>bs_stop := (case nonempty_opt sr of Some s \<Rightarrow> Some s | None \<Rightarrow> bs_stop st),
       bs_terminal := bs_terminal st @ [e]\<rparr>)
   | Block_Start i b \<Rightarrow> (case scan_message ps (st\<lparr>bs_blocks := AList.update i b (bs_blocks st),
         bs_bufs := (if is_tool_use b then AList.update i [] (bs_bufs st) else bs_bufs st)\<rparr>) of
       (out, r) \<Rightarrow> (e # out, r))
   | Block_Delta i d \<Rightarrow> (case scan_message ps (note_delta i d st) of (out, r) \<Rightarrow> (e # out, r))
   | _ \<Rightarrow> (case scan_message ps st of (out, r) \<Rightarrow> (e # out, r)))"

text \<open>The blocks in the order of their indices, the tool calls with their parsed input.\<close>

definition sorted_blocks :: "block_state \<Rightarrow> (int \<times> (string, json) dict) list" where
  "sorted_blocks st = sort_key fst (bs_blocks st)"

definition buffered_input :: "(string \<Rightarrow> json option) \<Rightarrow> block_state \<Rightarrow> int \<Rightarrow> json" where
  "buffered_input loads st i = parsed_args loads (case map_of (bs_bufs st) i of Some s \<Rightarrow> s | None \<Rightarrow> [])"

definition stream_tool_uses :: "block_state \<Rightarrow> (int \<times> (string, json) dict) list" where
  "stream_tool_uses st = filter (\<lambda>p. is_tool_use (snd p)) (sorted_blocks st)"

definition message_run :: "tool_pool \<Rightarrow> (string \<Rightarrow> json option) \<Rightarrow> block_state \<Rightarrow> (string \<times> json) list option" where
  "message_run B loads st =
     (let uses = stream_tool_uses st; own = filter (\<lambda>p. owns_tool B (text_field ''name'' (snd p))) uses in
      if own = [] \<or> list_ex (\<lambda>p. \<not> owns_tool B (text_field ''name'' (snd p))) uses \<or> bs_stop st \<noteq> Some ''tool_use'' then None
      else Some (map (\<lambda>(i, b). (text_field ''name'' b, buffered_input loads st i)) own))"

definition assistant_block :: "(string \<Rightarrow> json option) \<Rightarrow> block_state \<Rightarrow> int \<times> (string, json) dict \<Rightarrow> json" where
  "assistant_block loads st p = (case p of (i, b) \<Rightarrow>
     JObj (if is_tool_use b then AList.update ''input'' (buffered_input loads st i) b else b))"

definition stream_tool_result :: "int \<times> (string, json) dict \<Rightarrow> string \<Rightarrow> json" where
  "stream_tool_result p t = JObj [(''type'', JStr ''tool_result''), (''tool_use_id'', JStr (text_field ''id'' (snd p))), (''content'', JStr t)]"

definition message_append :: "(string \<Rightarrow> json option) \<Rightarrow> block_state \<Rightarrow> string list \<Rightarrow> json list" where
  "message_append loads st ts =
     [JObj [(''role'', JStr ''assistant''), (''content'', JArr (map (assistant_block loads st) (sorted_blocks st)))],
      JObj [(''role'', JStr ''user''), (''content'', JArr (map2 stream_tool_result (stream_tool_uses st) ts))]]"

definition delta_output :: "message_event \<Rightarrow> int" where
  "delta_output e = (case e of Message_Delta _ (Some u) \<Rightarrow> mu_output u | _ \<Rightarrow> 0)"

definition maybe_fold_message_delta_usage :: "int \<Rightarrow> message_event \<Rightarrow> message_event" where
  "maybe_fold_message_delta_usage acc e = (if acc \<le> 0 then e else (case e of
     Message_Delta sr (Some u) \<Rightarrow> Message_Delta sr (Some (u\<lparr>mu_output := mu_output u + acc\<rparr>)) | _ \<Rightarrow> e))"

definition message_events :: "tool_pool \<Rightarrow> (string \<Rightarrow> json option) \<Rightarrow> (message_event, block_state) event_format" where
  "message_events B loads = \<lparr>ef_scan = (\<lambda>ps. scan_message ps new_blocks), ef_run = message_run B loads,
     ef_append = message_append loads, ef_terminal = bs_terminal, ef_output = delta_output,
     ef_fold = maybe_fold_message_delta_usage\<rparr>"

definition anthropic_tool_loop_stream :: "tool_pool \<Rightarrow> (string \<Rightarrow> json option)
    \<Rightarrow> (nat \<Rightarrow> json list \<Rightarrow> json list \<Rightarrow> (string, message_event pull list) result)
    \<Rightarrow> nat \<Rightarrow> json list \<Rightarrow> json list \<Rightarrow> message_event event_run" where
  "anthropic_tool_loop_stream B loads ask max_iterations user_tools msgs =
     event_rounds (message_events B loads) B (\<lambda>i. ask i (user_tools @ openai_to_anthropic_tools (openai_tools B)))
       max_iterations 0 0 msgs 0"

text \<open>\<open>_messages_stream_usage\<close>; an event that should carry usage and does not makes it raise.\<close>

definition message_usage_of :: "int \<Rightarrow> int \<Rightarrow> message_usage \<Rightarrow> usage" where
  "message_usage_of p c u = Gateway_Usage \<lparr>prompt_tokens = p, completion_tokens = c, total_tokens = p + c,
     prompt_tokens_details = None\<rparr> (mu_cache_read u) (mu_cache_write u)"

definition messages_stream_usage :: "message_event \<Rightarrow> (string, usage option) result" where
  "messages_stream_usage e = (case e of
     Message_Delta _ None \<Rightarrow> Inl ''no usage''
   | Message_Delta _ (Some u) \<Rightarrow> Inr (Some (message_usage_of (mu_input u) (mu_output u) u))
   | Message_Start u \<Rightarrow> Inr (if mu_input u \<noteq> 0 \<or> mu_cache_read u \<noteq> 0 \<or> mu_cache_write u \<noteq> 0
       then Some (message_usage_of (mu_input u) 0 u) else None)
   | _ \<Rightarrow> Inr None)"

section \<open>Responses events\<close>

text \<open>An item that is added is a function call, with its id, name and first arguments, or something else. A
  completed response comes with its usage; other events may also carry a response with usage.\<close>

datatype response_event =
    Item_Added "int option" "(string \<times> string \<times> string option) option"
  | Args_Delta "int option" "string option"
  | Args_Done "int option" "string option" "string option"
  | Completed "response_usage option"
  | Other_Response string "response_usage option"

record call_spec =
  cs_id :: string
  cs_name :: string
  cs_args :: string

record calls_state =
  fs_calls :: "(int, call_spec) dict"
  fs_completed :: "response_event option"

definition new_calls :: calls_state where
  "new_calls = \<lparr>fs_calls = [], fs_completed = None\<rparr>"

definition text_or_empty :: "string option \<Rightarrow> string" where
  "text_or_empty s = (case s of None \<Rightarrow> [] | Some t \<Rightarrow> t)"

definition note_response :: "response_event \<Rightarrow> calls_state \<Rightarrow> calls_state" where
  "note_response e st = (case e of
     Item_Added (Some i) (Some (c, n, a)) \<Rightarrow>
       st\<lparr>fs_calls := AList.update i \<lparr>cs_id = c, cs_name = n, cs_args = text_or_empty a\<rparr> (fs_calls st)\<rparr>
   | Args_Delta (Some i) d \<Rightarrow> (case map_of (fs_calls st) i of None \<Rightarrow> st
       | Some s \<Rightarrow> st\<lparr>fs_calls := AList.update i (s\<lparr>cs_args := cs_args s @ text_or_empty d\<rparr>) (fs_calls st)\<rparr>)
   | Args_Done (Some i) a n \<Rightarrow> (case map_of (fs_calls st) i of None \<Rightarrow> st
       | Some s \<Rightarrow> st\<lparr>fs_calls := AList.update i (s\<lparr>
           cs_args := (case nonempty_opt a of Some x \<Rightarrow> x | None \<Rightarrow> cs_args s),
           cs_name := (case nonempty_opt n of Some x \<Rightarrow> x | None \<Rightarrow> cs_name s)\<rparr>) (fs_calls st)\<rparr>)
   | _ \<Rightarrow> st)"

fun read_response :: "response_event pull list \<Rightarrow> calls_state \<Rightarrow> response_event list \<times> calls_state \<times> exn option" where
  "read_response [] st = ([], st, None)"
| "read_response (Upstream x # ps) st = ([], st, Some x)"
| "read_response (Chunk e # ps) st = (case e of
     Completed u \<Rightarrow> ([], st\<lparr>fs_completed := Some e\<rparr>, None)
   | _ \<Rightarrow> (case read_response ps (note_response e st) of (out, r) \<Rightarrow> (e # out, r)))"

definition sorted_calls :: "calls_state \<Rightarrow> call_spec list" where
  "sorted_calls st = map snd (sort_key fst (fs_calls st))"

definition response_run :: "tool_pool \<Rightarrow> (string \<Rightarrow> json option) \<Rightarrow> calls_state \<Rightarrow> (string \<times> json) list option" where
  "response_run B loads st =
     (let own = filter (\<lambda>s. owns_tool B (cs_name s)) (sorted_calls st) in
      if list_ex (\<lambda>s. \<not> owns_tool B (cs_name s)) (sorted_calls st) \<or> own = [] then None
      else Some (map (\<lambda>s. (cs_name s, parsed_args loads (cs_args s))) own))"

definition spec_json :: "call_spec \<Rightarrow> json" where
  "spec_json s = JObj [(''type'', JStr ''function_call''), (''call_id'', JStr (cs_id s)), (''name'', JStr (cs_name s)),
     (''arguments'', JStr (if cs_args s = [] then ''{}'' else cs_args s))]"

definition spec_output :: "call_spec \<Rightarrow> string \<Rightarrow> json" where
  "spec_output s t = JObj [(''type'', JStr ''function_call_output''), (''call_id'', JStr (cs_id s)), (''output'', JStr t)]"

definition response_append :: "calls_state \<Rightarrow> string list \<Rightarrow> json list" where
  "response_append st ts = map spec_json (sorted_calls st) @ map2 spec_output (sorted_calls st) ts"

definition completed_output :: "response_event \<Rightarrow> int" where
  "completed_output e = (case e of Completed (Some u) \<Rightarrow> ru_output u | _ \<Rightarrow> 0)"

definition maybe_fold_response_completed_usage :: "int \<Rightarrow> response_event \<Rightarrow> response_event" where
  "maybe_fold_response_completed_usage acc e = (if acc \<le> 0 then e else (case e of
     Completed (Some u) \<Rightarrow> Completed (Some (u\<lparr>ru_output := ru_output u + acc, ru_total := ru_total u + acc\<rparr>)) | _ \<Rightarrow> e))"

definition response_events :: "tool_pool \<Rightarrow> (string \<Rightarrow> json option) \<Rightarrow> (response_event, calls_state) event_format" where
  "response_events B loads = \<lparr>ef_scan = (\<lambda>ps. read_response ps new_calls), ef_run = response_run B loads,
     ef_append = response_append, ef_terminal = (\<lambda>st. case fs_completed st of None \<Rightarrow> [] | Some e \<Rightarrow> [e]),
     ef_output = completed_output, ef_fold = maybe_fold_response_completed_usage\<rparr>"

definition responses_tool_loop_stream :: "tool_pool \<Rightarrow> (string \<Rightarrow> json option)
    \<Rightarrow> (nat \<Rightarrow> json list \<Rightarrow> json list \<Rightarrow> (string, response_event pull list) result)
    \<Rightarrow> nat \<Rightarrow> json list \<Rightarrow> json option \<Rightarrow> response_event event_run" where
  "responses_tool_loop_stream B loads ask max_iterations user_tools inp =
     event_rounds (response_events B loads) B (\<lambda>i. ask i (user_tools @ openai_to_responses_tools (openai_tools B)))
       max_iterations 0 0 (coerce_input inp) 0"

text \<open>\<open>_usage_to_completion_usage\<close> and \<open>extract_stream_usage\<close> of the Responses route.\<close>

definition response_usage_of :: "response_usage \<Rightarrow> usage" where
  "response_usage_of u = Gateway_Usage \<lparr>prompt_tokens = ru_input u, completion_tokens = ru_output u,
     total_tokens = ru_total u, prompt_tokens_details = None\<rparr> (ru_cached u) 0"

definition responses_stream_usage :: "response_event \<Rightarrow> (string, usage option) result" where
  "responses_stream_usage e = Inr (map_option response_usage_of (case e of
     Completed u \<Rightarrow> u | Other_Response _ u \<Rightarrow> u | _ \<Rightarrow> None))"

section \<open>Lemmas\<close>

lemma event_run_simps [simp]:
  "er_asked (events_next m out c rest) = m # er_asked rest" "er_out (events_next m out c rest) = out @ er_out rest"
  "er_calls (events_next m out c rest) = c @ er_calls rest"
  "er_asked (events_ended m out c) = [m]" "er_out (events_ended m out c) = out" "er_calls (events_ended m out c) = c"
  by (simp_all add: events_next_def events_ended_def)

text \<open>What holds of every event format: the bound on model calls and the tools that are run.\<close>

definition runs_owned :: "('e, 'st) event_format \<Rightarrow> tool_pool \<Rightarrow> bool" where
  "runs_owned F B \<longleftrightarrow> (\<forall>st run. ef_run F st = Some run \<longrightarrow> fst ` set run \<subseteq> {n. owns_tool B n})"

lemma event_rounds_bounds:
  assumes "runs_owned F B"
  shows "length (er_asked (event_rounds F B ask n i k msgs acc)) \<le> n
    \<and> fst ` set (er_calls (event_rounds F B ask n i k msgs acc)) \<subseteq> {n. owns_tool B n}"
proof (induction n arbitrary: i k msgs acc)
  case (Suc n)
  have own: "ef_run F st = Some run \<Longrightarrow> fst ` set run \<subseteq> {n. owns_tool B n}" for st run
    using assms unfolding runs_owned_def by blast
  show ?case
    using Suc.IH own by (simp split: sum.split prod.split option.split) blast
qed simp

lemma message_runs_owned: "runs_owned (message_events B loads) B"
  by (auto simp: runs_owned_def message_events_def message_run_def Let_def split: if_splits)

lemma response_runs_owned: "runs_owned (response_events B loads) B"
  by (auto simp: runs_owned_def response_events_def response_run_def Let_def split: if_splits)

text \<open>Terminal events are sent only by the last round.\<close>

definition ends_once :: "('e \<Rightarrow> bool) \<Rightarrow> 'e pull list \<Rightarrow> bool" where
  "ends_once terminal ps \<longleftrightarrow> (\<exists>outs ends. ps = map Chunk outs @ ends \<and> (\<forall>e \<in> set outs. \<not> terminal e)
     \<and> ((\<exists>x. ends = [Upstream x]) \<or> (\<exists>es. ends = map Chunk es \<and> list_all terminal es)))"

definition quiet_scan :: "('e, 'st) event_format \<Rightarrow> ('e \<Rightarrow> bool) \<Rightarrow> bool" where
  "quiet_scan F terminal \<longleftrightarrow> (\<forall>ps out st x a. ef_scan F ps = (out, st, x) \<longrightarrow>
     (\<forall>e \<in> set out. \<not> terminal e) \<and> list_all terminal (map (ef_fold F a) (ef_terminal F st)))"

lemma event_rounds_terminal:
  assumes "quiet_scan F terminal"
  shows "ends_once terminal (er_out (event_rounds F B ask n i k msgs acc))"
  unfolding ends_once_def
proof (induction n arbitrary: i k msgs acc)
  case 0
  show ?case by (rule exI[of _ "[]"]) simp
next
  case (Suc n)
  have quiet: "ef_scan F ps = (out, st, x) \<Longrightarrow> \<forall>e \<in> set out. \<not> terminal e"
      "ef_scan F ps = (out, st, x) \<Longrightarrow> list_all terminal (map (ef_fold F a) (ef_terminal F st))" for ps out st x a
    using assms unfolding quiet_scan_def by blast+
  show ?case
  proof (cases "ask i msgs")
    case (Inl e)
    then show ?thesis by (intro exI[of _ "[]"] exI[of _ "[Upstream (Exc e)]"]) simp
  next
    case (Inr ps)
    obtain out st x where sc: "ef_scan F ps = (out, st, x)" by (cases "ef_scan F ps")
    note q = quiet[OF sc]
    show ?thesis
    proof (cases x)
      case (Some y)
      with Inr sc q show ?thesis by (intro exI[of _ out] exI[of _ "[Upstream y]"]) simp
    next
      case None
      note x = None
      show ?thesis
      proof (cases "ef_run F st")
        case None
        have "\<exists>es. map Chunk (map (ef_fold F acc) (ef_terminal F st)) = map Chunk es \<and> list_all terminal es"
          by (rule exI[of _ "map (ef_fold F acc) (ef_terminal F st)"]) (use q(2) in simp)
        with None Inr sc q(1) x show ?thesis
          by (intro exI[of _ out] exI[of _ "map Chunk (map (ef_fold F acc) (ef_terminal F st))"]) (simp del: map_map)
      next
        case (Some run)
        note run = Some
        show ?thesis
        proof (cases "execute_calls B k run")
          case None
          with Inr sc q x run show ?thesis by (intro exI[of _ out] exI[of _ "[Upstream Cancelled_Error]"]) simp
        next
          case (Some ts)
          let ?rest = "event_rounds F B ask n (i + 1) (k + length run) (msgs @ ef_append F st ts)
            (acc + sum_list (map (ef_output F) (ef_terminal F st)))"
          have e: "er_out (event_rounds F B ask (Suc n) i k msgs acc) = map Chunk out @ er_out ?rest"
            using Inr sc x run Some by simp
          from Suc.IH[of "i + 1" "k + length run" "msgs @ ef_append F st ts"
              "acc + sum_list (map (ef_output F) (ef_terminal F st))"]
          show ?thesis
          proof (elim exE conjE)
            fix outs ends
            assume r: "er_out ?rest = map Chunk outs @ ends" "\<forall>e \<in> set outs. \<not> terminal e"
              "(\<exists>x. ends = [Upstream x]) \<or> (\<exists>es. ends = map Chunk es \<and> list_all terminal es)"
            show ?thesis
              by (rule exI[of _ "out @ outs"], rule exI[of _ ends]) (use e r q in \<open>auto simp del: event_rounds.simps\<close>)
          qed
        qed
      qed
    qed
  qed
qed

section \<open>Streamed and whole answers\<close>

text \<open>
  An interface between a format's streamed and its plain loop: \<open>stream\<close> cuts an answer into events, scanning
  them shows \<open>shown\<close> to the client and ends in \<open>state\<close>, and what the streamed round does there is what the plain
  round does with the answer.
\<close>

locale streamed_format =
  fixes F :: "('e, 'st) event_format" and L :: "('r, 'u) loop_format" and B :: tool_pool
    and stream :: "'r \<Rightarrow> 'e pull list" and shown :: "'r \<Rightarrow> 'e list" and state :: "'r \<Rightarrow> 'st" and ok :: "'r \<Rightarrow> bool"
  assumes scans: "ok r \<Longrightarrow> ef_scan F (stream r) = (shown r, state r, None)"
    and goes_on: "ok r \<Longrightarrow> ef_run F (state r) = Some run \<Longrightarrow> lf_round L k r = (case execute_calls B k run of
        None \<Rightarrow> Round_Cancelled run | Some ts \<Rightarrow> Round_Next (ef_append F (state r) ts) run)"
    and stops: "ok r \<Longrightarrow> ef_run F (state r) = None \<Longrightarrow> (\<exists>r' c. lf_round L k r = Round_Return r' c) \<or> (\<exists>c. lf_round L k r = Round_Cancelled c)"
begin

definition held_back :: "'r \<Rightarrow> int" where
  "held_back r = sum_list (map (ef_output F) (ef_terminal F (state r)))"

lemma rounds_agree:
  assumes "\<And>i m r. ask i m = Inr r \<Longrightarrow> ok r"
  defines "ask' \<equiv> \<lambda>i m. map_answer stream (ask i m)"
  shows "er_asked (event_rounds F B ask' n i k msgs acc) = lr_asked (run_loop L ask n i k msgs u)
    \<and> prefix (er_calls (event_rounds F B ask' n i k msgs acc)) (lr_calls (run_loop L ask n i k msgs u))
    \<and> (\<forall>c. lr_end (run_loop L ask n i k msgs u) = Loop_Done c \<longrightarrow>
        lr_answers (run_loop L ask n i k msgs u) \<noteq> [] \<and>
        er_out (event_rounds F B ask' n i k msgs acc) =
          map Chunk (concat (map shown (lr_answers (run_loop L ask n i k msgs u)))
            @ map (ef_fold F (acc + sum_list (map held_back (butlast (lr_answers (run_loop L ask n i k msgs u))))))
                (ef_terminal F (state (last (lr_answers (run_loop L ask n i k msgs u)))))))"
proof (induction n arbitrary: i k msgs acc u)
  case (Suc n)
  show ?case
  proof (cases "ask i msgs")
    case (Inl e)
    then show ?thesis by (simp add: ask'_def map_answer_def ended_def)
  next
    case (Inr r)
    note ask = Inr
    have ok: "ok r" by (rule assms(1)[OF ask])
    have ask': "ask' i msgs = Inr (stream r)" using ask by (simp add: ask'_def map_answer_def)
    show ?thesis
    proof (cases "ef_run F (state r)")
      case None
      with stops[OF ok None, of k] ask ask' scans[OF ok] show ?thesis by (auto simp: ended_def)
    next
      case (Some run)
      note run = goes_on[OF ok Some, of k]
      show ?thesis
      proof (cases "execute_calls B k run")
        case None
        with run ask ask' scans[OF ok] Some show ?thesis by (simp add: ended_def)
      next
        case (Some ts)
        let ?acc = "acc + sum_list (map (ef_output F) (ef_terminal F (state r)))"
        note IH = Suc.IH[of "i + 1" "k + length run" "msgs @ ef_append F (state r) ts" ?acc "lf_add L u r"]
        show ?thesis
          using IH run ask ask' scans[OF ok] Some \<open>ef_run F (state r) = Some run\<close>
          by (auto simp: after_round_def held_back_def add.assoc)
      qed
    qed
  qed
qed (simp add: ended_def)

end

lemma run_loop_answers:
  assumes "\<And>i m r. ask i m = Inr r \<Longrightarrow> P r"
  shows "\<forall>r \<in> set (lr_answers (run_loop L ask n i k msgs acc)). P r"
proof (induction n arbitrary: i k msgs acc)
  case (Suc n)
  show ?case
    using Suc.IH by (auto simp: ended_def after_round_def assms split: sum.split round.split)
qed (simp add: ended_def)

lemma sum_usage_nonneg: "\<forall>r \<in> set rs. \<forall>u. g r = Some u \<longrightarrow> 0 \<le> f u \<Longrightarrow> 0 \<le> sum_usage g f rs"
  by (induction rs) (auto split: option.split)

lemma sum_usage_butlast: "rs \<noteq> [] \<Longrightarrow> g (last rs) = Some u \<Longrightarrow> sum_usage g f rs = sum_usage g f (butlast rs) + f u"
  by (induction rs) auto

text \<open>When the answers also report their output tokens, the terminal events carry those of all rounds.\<close>

locale counted_format = streamed_format F L B stream shown state ok
  for F :: "('e, 'st) event_format" and L :: "('r, 'u) loop_format" and B stream shown state ok +
  fixes used :: "'r \<Rightarrow> 'v option" and out_of :: "'v \<Rightarrow> int" and z :: 'u
  assumes held: "sum_list (map (ef_output F) (ef_terminal F (state r))) = (case used r of None \<Rightarrow> 0 | Some u \<Rightarrow> out_of u)"
    and returned: "lf_round L k r = Round_Return r' c \<Longrightarrow> used r' = used r"
    and folded: "used (lf_fold L acc r) = None \<longleftrightarrow> used r = None"
    and summed: "used (lf_fold L (foldl (lf_add L) z rs) r) = Some u \<Longrightarrow> out_of u = sum_usage used out_of rs"
begin

lemma held_total: "sum_list (map held_back rs) = sum_usage used out_of rs"
  by (induction rs) (simp_all add: held_back_def held)

lemma final_usage:
  assumes "\<And>i m r. ask i m = Inr r \<Longrightarrow> ok r \<and> (\<forall>u. used r = Some u \<longrightarrow> 0 \<le> out_of u)"
    and run: "run = run_loop L ask n i k msgs z" and d: "lr_end run = Loop_Done c" "used c = Some u"
  shows "\<exists>s w. 0 \<le> s \<and> used (last (lr_answers run)) = Some w \<and> out_of u = s + out_of w
    \<and> er_out (event_rounds F B (\<lambda>i m. map_answer stream (ask i m)) n i k msgs 0)
      = map Chunk (concat (map shown (lr_answers run)) @ map (ef_fold F s) (ef_terminal F (state (last (lr_answers run)))))"
proof -
  have ok: "ask i m = Inr r \<Longrightarrow> ok r" for i m r using assms(1) by blast
  let ?rs = "lr_answers run"
  obtain r' k' cs where r: "lf_round L k' (last ?rs) = Round_Return r' cs" "?rs \<noteq> []" "c = lf_fold L (foldl (lf_add L) z ?rs) r'"
    using run_loop_done[OF d(1)[unfolded run]] unfolding run by blast
  with d(2) folded returned obtain w where w: "used (last ?rs) = Some w" by (metis not_Some_eq)
  have "\<forall>r \<in> set ?rs. \<forall>u. used r = Some u \<longrightarrow> 0 \<le> out_of u"
    unfolding run by (rule run_loop_answers) (use assms(1) in blast)
  then have "0 \<le> sum_usage used out_of (butlast ?rs)" by (intro sum_usage_nonneg) (auto dest: in_set_butlastD)
  moreover have "out_of u = sum_usage used out_of (butlast ?rs) + out_of w"
    using summed[of ?rs r' u] d(2) r(3) sum_usage_butlast[of ?rs used w out_of, OF r(2) w] by simp
  ultimately show ?thesis
    using w rounds_agree[of ask n i k msgs 0 z, OF ok] d(1) unfolding run held_total by auto
qed

end

section \<open>Anthropic answers as events\<close>

definition stored_block :: "message_block \<Rightarrow> (string, json) dict" where
  "stored_block b = (case b of
     Tool_Use i n a \<Rightarrow> [(''type'', JStr ''tool_use''), (''id'', JStr i), (''name'', JStr n), (''input'', JObj [])]
   | Plain_Block (JObj d) \<Rightarrow> d
   | Plain_Block _ \<Rightarrow> [])"

text \<open>A block is started, its text or its arguments follow in fragments, and it is stopped.\<close>

definition block_chunks :: "(string \<Rightarrow> string list) \<Rightarrow> (json \<Rightarrow> string) \<Rightarrow> int \<Rightarrow> message_block \<Rightarrow> message_event list" where
  "block_chunks frag dumps i b = (case b of
     Tool_Use t n a \<Rightarrow> Block_Start i (stored_block b) # map (Block_Delta i \<circ> Input_Json) (frag (dumps a))
   | Plain_Block j \<Rightarrow> (case map_of (stored_block b) ''text'' of
       Some (JStr t) \<Rightarrow> Block_Start i (AList.update ''text'' (JStr []) (stored_block b)) # map (Block_Delta i \<circ> Text_Delta) (frag t)
     | _ \<Rightarrow> [Block_Start i (stored_block b)])) @ [Other_Event (JStr ''content_block_stop'')]"

definition message_shown :: "(string \<Rightarrow> string list) \<Rightarrow> (json \<Rightarrow> string) \<Rightarrow> message_response \<Rightarrow> message_event list" where
  "message_shown frag dumps m = (case mr_usage m of None \<Rightarrow> Other_Event JNull | Some u \<Rightarrow> Message_Start u)
     # concat (map (\<lambda>(j, b). block_chunks frag dumps (int j) b) (enumerate 0 (mr_content m)))"

definition message_ends :: "message_response \<Rightarrow> message_event list" where
  "message_ends m = [Message_Delta (mr_stop m) (mr_usage m), Message_Stop]"

definition message_stream :: "(string \<Rightarrow> string list) \<Rightarrow> (json \<Rightarrow> string) \<Rightarrow> message_response \<Rightarrow> message_event pull list" where
  "message_stream frag dumps m = map Chunk (message_shown frag dumps m @ message_ends m)"

definition proper_block :: "(string \<Rightarrow> json option) \<Rightarrow> (string \<Rightarrow> string list) \<Rightarrow> (json \<Rightarrow> string) \<Rightarrow> message_block \<Rightarrow> bool" where
  "proper_block loads frag dumps b \<longleftrightarrow> (case b of
     Tool_Use t n a \<Rightarrow> is_jobj a \<and> parsed_args loads (concat (frag (dumps a))) = a
   | Plain_Block j \<Rightarrow> is_jobj j \<and> \<not> is_tool_use (stored_block b)
       \<and> (\<forall>t. map_of (stored_block b) ''text'' = Some (JStr t) \<longrightarrow> concat (frag t) = t))"

definition proper_message :: "(string \<Rightarrow> json option) \<Rightarrow> (string \<Rightarrow> string list) \<Rightarrow> (json \<Rightarrow> string) \<Rightarrow> message_response \<Rightarrow> bool" where
  "proper_message loads frag dumps m \<longleftrightarrow> (\<forall>b \<in> set (mr_content m). proper_block loads frag dumps b)"

definition stored_bufs :: "(string \<Rightarrow> string list) \<Rightarrow> (json \<Rightarrow> string) \<Rightarrow> (nat \<times> message_block) list \<Rightarrow> (int, string) dict" where
  "stored_bufs frag dumps jbs = List.map_filter (\<lambda>(j, b). case b of
     Tool_Use t n a \<Rightarrow> Some (int j, concat (frag (dumps a))) | _ \<Rightarrow> None) jbs"

definition message_state :: "(string \<Rightarrow> string list) \<Rightarrow> (json \<Rightarrow> string) \<Rightarrow> message_response \<Rightarrow> block_state" where
  "message_state frag dumps m = \<lparr>bs_blocks = map (\<lambda>(j, b). (int j, stored_block b)) (enumerate 0 (mr_content m)),
     bs_bufs = stored_bufs frag dumps (enumerate 0 (mr_content m)), bs_stop = nonempty_opt (mr_stop m),
     bs_terminal = message_ends m\<rparr>"

lemma update_known: "map_of d k = Some v \<Longrightarrow> AList.update k v d = d"
  by (induction d) (auto split: if_splits)

lemma update_twice: "AList.update k v (AList.update k w d) = AList.update k v d"
  by (induction d) auto

lemma update_at_end: "map_of xs k = None \<Longrightarrow> AList.update k v (xs @ [(k, w)]) = xs @ [(k, v)]"
  by (induction xs) (auto split: if_splits)

lemma update_new: "map_of xs k = None \<Longrightarrow> AList.update k v xs = xs @ [(k, v)]"
  by (induction xs) (auto split: if_splits)

lemma scan_inputs:
  "map_of (bs_blocks st) i \<noteq> None \<Longrightarrow> bs_bufs st = xs @ [(i, buf)] \<Longrightarrow> map_of xs i = None \<Longrightarrow>
    scan_message (map Chunk (map (Block_Delta i \<circ> Input_Json) ss) @ ps) st =
      (case scan_message ps (st\<lparr>bs_bufs := xs @ [(i, buf @ concat ss)]\<rparr>) of
        (out, r) \<Rightarrow> (map (Block_Delta i \<circ> Input_Json) ss @ out, r))"
proof (induction ss arbitrary: st buf)
  case Nil
  have "st\<lparr>bs_bufs := xs @ [(i, buf)]\<rparr> = st" using Nil.prems(2)[symmetric] by simp
  then show ?case by (simp split: prod.split)
next
  case (Cons s ss)
  let ?st = "st\<lparr>bs_bufs := xs @ [(i, buf @ s)]\<rparr>"
  have "note_delta i (Input_Json s) st = ?st"
    using Cons.prems by (auto simp: note_delta_def map_add_def update_at_end)
  with Cons.IH[of ?st "buf @ s"] Cons.prems show ?case by (simp split: prod.splits)
qed

lemma scan_texts:
  "bs_blocks st = xs @ [(i, AList.update ''text'' (JStr t) d)] \<Longrightarrow> map_of xs i = None \<Longrightarrow>
    scan_message (map Chunk (map (Block_Delta i \<circ> Text_Delta) ss) @ ps) st =
      (case scan_message ps (st\<lparr>bs_blocks := xs @ [(i, AList.update ''text'' (JStr (t @ concat ss)) d)]\<rparr>) of
        (out, r) \<Rightarrow> (map (Block_Delta i \<circ> Text_Delta) ss @ out, r))"
proof (induction ss arbitrary: st t)
  case Nil
  have "st\<lparr>bs_blocks := xs @ [(i, AList.update ''text'' (JStr t) d)]\<rparr> = st" using Nil.prems(1)[symmetric] by simp
  then show ?case by (simp split: prod.split)
next
  case (Cons s ss)
  let ?st = "st\<lparr>bs_blocks := xs @ [(i, AList.update ''text'' (JStr (t @ s)) d)]\<rparr>"
  have "note_delta i (Text_Delta s) st = ?st"
    using Cons.prems by (auto simp: note_delta_def map_add_def update_at_end grow_field_def text_field_def update_twice)
  with Cons.IH[of ?st "t @ s"] Cons.prems show ?case by (simp split: prod.splits)
qed

lemma scan_block:
  assumes "proper_block loads frag dumps b" and "map_of (bs_blocks st) (int j) = None" and "map_of (bs_bufs st) (int j) = None"
  shows "scan_message (map Chunk (block_chunks frag dumps (int j) b) @ ps) st =
      (case scan_message ps (st\<lparr>bs_blocks := bs_blocks st @ [(int j, stored_block b)],
          bs_bufs := bs_bufs st @ stored_bufs frag dumps [(j, b)]\<rparr>) of
        (out, r) \<Rightarrow> (block_chunks frag dumps (int j) b @ out, r))"
proof (cases b)
  case (Tool_Use t n a)
  let ?st = "st\<lparr>bs_blocks := bs_blocks st @ [(int j, stored_block b)], bs_bufs := bs_bufs st @ [(int j, [])]\<rparr>"
  have u: "is_tool_use (stored_block b)" by (simp add: Tool_Use is_tool_use_def stored_block_def)
  have "map_of (bs_blocks ?st) (int j) \<noteq> None" by (simp add: map_add_def split: option.split)
  from scan_inputs[OF this, of "bs_bufs st" "[]" "frag (dumps a)"] assms(2,3) u show ?thesis
    by (simp add: Tool_Use block_chunks_def stored_bufs_def List.map_filter_def update_new del: map_map split: prod.splits)
next
  case (Plain_Block x)
  have u: "\<not> is_tool_use (stored_block b)" "stored_bufs frag dumps [(j, b)] = []"
    using assms(1) by (simp_all add: proper_block_def Plain_Block stored_bufs_def List.map_filter_def)
  show ?thesis
  proof (cases "\<exists>t. map_of (stored_block b) ''text'' = Some (JStr t)")
    case True
    then obtain t where t: "map_of (stored_block b) ''text'' = Some (JStr t)" by blast
    then have f: "concat (frag t) = t" using assms(1) by (simp add: proper_block_def Plain_Block)
    let ?d = "AList.update ''text'' (JStr []) (stored_block b)"
    have v: "\<not> is_tool_use ?d" using u(1) by (simp add: is_tool_use_def)
    let ?st = "st\<lparr>bs_blocks := bs_blocks st @ [(int j, ?d)]\<rparr>"
    have "bs_blocks ?st = bs_blocks st @ [(int j, ?d)]" by simp
    from scan_texts[OF this, of "frag t"] assms(2) t u v show ?thesis
      by (simp add: Plain_Block block_chunks_def update_new f update_known del: map_map split: prod.splits)
  next
    case False
    then show ?thesis using assms(2) u
      by (auto simp: Plain_Block block_chunks_def update_new split: prod.splits option.splits json.splits)
  qed
qed

lemma scan_blocks:
  assumes "\<forall>b \<in> set bs. proper_block loads frag dumps b"
    and "\<And>j. m \<le> j \<Longrightarrow> map_of (bs_blocks st) (int j) = None" and "\<And>j. m \<le> j \<Longrightarrow> map_of (bs_bufs st) (int j) = None"
  shows "scan_message (map Chunk (concat (map (\<lambda>(j, b). block_chunks frag dumps (int j) b) (enumerate m bs))) @ ps) st =
      (case scan_message ps (st\<lparr>bs_blocks := bs_blocks st @ map (\<lambda>(j, b). (int j, stored_block b)) (enumerate m bs),
          bs_bufs := bs_bufs st @ stored_bufs frag dumps (enumerate m bs)\<rparr>) of
        (out, r) \<Rightarrow> (concat (map (\<lambda>(j, b). block_chunks frag dumps (int j) b) (enumerate m bs)) @ out, r))"
  using assms
proof (induction bs arbitrary: m st)
  case (Cons b bs)
  let ?st = "st\<lparr>bs_blocks := bs_blocks st @ [(int m, stored_block b)], bs_bufs := bs_bufs st @ stored_bufs frag dumps [(m, b)]\<rparr>"
  have s: "stored_bufs frag dumps ((m, b) # xs) = stored_bufs frag dumps [(m, b)] @ stored_bufs frag dumps xs" for xs
    by (simp add: stored_bufs_def List.map_filter_def)
  have n: "map_of (stored_bufs frag dumps [(m, b)]) (int j) = None" if "Suc m \<le> j" for j
    using that by (auto simp: stored_bufs_def List.map_filter_def split: message_block.split)
  have "map_of (bs_blocks ?st) (int j) = None" "map_of (bs_bufs ?st) (int j) = None" if "Suc m \<le> j" for j
    using that Cons.prems(2,3)[of j] n[of j] by (auto simp: map_add_def)
  note IH = Cons.IH[of "Suc m" ?st, OF _ this]
  have b: "proper_block loads frag dumps b" "\<forall>b \<in> set bs. proper_block loads frag dumps b" using Cons.prems(1) by simp_all
  show ?case
    using scan_block[OF b(1) Cons.prems(2,3)[of m, OF order_refl],
        of "map Chunk (concat (map (\<lambda>(j, b). block_chunks frag dumps (int j) b) (enumerate (Suc m) bs))) @ ps"] IH[OF b(2)]
    by (simp add: s[of "enumerate (Suc m) bs"] del: scan_message.simps split: prod.splits)
qed (simp add: stored_bufs_def List.map_filter_def split: prod.split)

lemma message_scans:
  assumes "proper_message loads frag dumps m"
  shows "scan_message (message_stream frag dumps m) new_blocks = (message_shown frag dumps m, message_state frag dumps m, None)"
proof -
  have b: "\<forall>b \<in> set (mr_content m). proper_block loads frag dumps b" using assms by (simp add: proper_message_def)
  have n: "map_of (bs_blocks new_blocks) (int j) = None" "map_of (bs_bufs new_blocks) (int j) = None" for j
    by (simp_all add: new_blocks_def)
  from scan_blocks[OF b n, of 0 "map Chunk (message_ends m)"] show ?thesis
    by (auto simp: message_stream_def message_shown_def message_ends_def message_state_def new_blocks_def split: option.splits)
qed

lemma stored_tool [simp]:
  "is_tool_use (stored_block (Tool_Use t n a))" "text_field ''name'' (stored_block (Tool_Use t n a)) = n"
  "text_field ''id'' (stored_block (Tool_Use t n a)) = t"
  by (simp_all add: is_tool_use_def text_field_def stored_block_def)

lemma sorted_indices: "sort_key fst (map (\<lambda>(j, b). (int j, f b)) (enumerate m bs)) = map (\<lambda>(j, b). (int j, f b)) (enumerate m bs)"
proof -
  have "map fst (map (\<lambda>(j, b). (int j, f b)) (enumerate m bs)) = map int [m..<m + length bs]"
    by (induction bs arbitrary: m) (simp_all add: upt_conv_Cons del: upt_Suc)
  then show ?thesis by (intro sort_key_sorted) (simp add: sorted_iff_nth_mono)
qed

lemma sorted_message: "sorted_blocks (message_state frag dumps m) = map (\<lambda>(j, b). (int j, stored_block b)) (enumerate 0 (mr_content m))"
  by (simp add: sorted_blocks_def message_state_def sorted_indices)

text \<open>The tool calls of the stored blocks are those of the content.\<close>

lemma stored_uses:
  assumes "\<forall>b \<in> set bs. proper_block loads frag dumps b"
  shows "map (\<lambda>p. text_field k (snd p)) (filter (\<lambda>p. is_tool_use (snd p)) (map (\<lambda>(j, b). (int j, stored_block b)) (enumerate m bs)))
    = map (\<lambda>b. text_field k (stored_block b)) (tool_uses bs)"
  using assms
proof (induction bs arbitrary: m)
  case (Cons b bs)
  then show ?case by (cases b) (auto simp: tool_uses_def proper_block_def)
qed (simp add: tool_uses_def)

lemma buffered_stored:
  assumes "\<forall>b \<in> set bs. proper_block loads frag dumps b" "(j, Tool_Use t n a) \<in> set (enumerate m bs)"
  shows "map_of (stored_bufs frag dumps (enumerate m bs)) (int j) = Some (concat (frag (dumps a)))"
  using assms
proof (induction bs arbitrary: m)
  case (Cons b bs)
  show ?case
  proof (cases "j = m")
    case True
    with Cons.prems(2) have "b = Tool_Use t n a" by (auto simp: in_set_enumerate_eq)
    with True show ?thesis by (simp add: stored_bufs_def List.map_filter_def)
  next
    case False
    with Cons have "map_of (stored_bufs frag dumps (enumerate (Suc m) bs)) (int j) = Some (concat (frag (dumps a)))" by auto
    with False show ?thesis by (cases b) (auto simp: stored_bufs_def List.map_filter_def)
  qed
qed simp

lemma buffered_message:
  assumes "proper_message loads frag dumps m" "(j, Tool_Use t n a) \<in> set (enumerate 0 (mr_content m))"
  shows "buffered_input loads (message_state frag dumps m) (int j) = a"
proof -
  have "Tool_Use t n a \<in> set (mr_content m)" using assms(2) by (auto simp: in_set_enumerate_eq) (metis nth_mem)
  with assms(1) have "parsed_args loads (concat (frag (dumps a))) = a" by (auto simp: proper_message_def proper_block_def)
  then show ?thesis using buffered_stored[of "mr_content m"] assms
    by (simp add: buffered_input_def message_state_def proper_message_def)
qed

lemma message_run_stored:
  assumes "\<forall>b \<in> set bs. proper_block loads frag dumps b"
    and "\<And>j t n a. (j, Tool_Use t n a) \<in> set (enumerate m bs) \<Longrightarrow> g (int j) = a"
  shows "map (\<lambda>(i, b). (text_field ''name'' b, g i)) (filter (\<lambda>p. P (text_field ''name'' (snd p)))
      (filter (\<lambda>p. is_tool_use (snd p)) (map (\<lambda>(j, b). (int j, stored_block b)) (enumerate m bs))))
    = map use_args (filter (\<lambda>b. P (tu_name b)) (tool_uses bs))"
  using assms
proof (induction bs arbitrary: m)
  case (Cons b bs)
  have IH: "map (\<lambda>(i, b). (text_field ''name'' b, g i)) (filter (\<lambda>p. P (text_field ''name'' (snd p)))
      (filter (\<lambda>p. is_tool_use (snd p)) (map (\<lambda>(j, b). (int j, stored_block b)) (enumerate (Suc m) bs))))
    = map use_args (filter (\<lambda>b. P (tu_name b)) (tool_uses bs))"
    by (rule Cons.IH) (use Cons.prems in auto)
  show ?case
  proof (cases b)
    case (Tool_Use t n a)
    then have "g (int m) = a" using Cons.prems(2)[of m t n a] by simp
    moreover have "is_jobj a" using Cons.prems(1) by (simp add: Tool_Use proper_block_def)
    ultimately show ?thesis using IH by (cases a) (simp_all add: Tool_Use tool_uses_def use_args_def)
  next
    case (Plain_Block x)
    then show ?thesis using IH Cons.prems(1) by (simp add: tool_uses_def proper_block_def)
  qed
qed (simp add: tool_uses_def)

lemma assistant_stored:
  assumes "\<forall>b \<in> set bs. proper_block loads frag dumps b"
    and "\<And>j t n a. (j, Tool_Use t n a) \<in> set (enumerate m bs) \<Longrightarrow> buffered_input loads st (int j) = a"
  shows "map (assistant_block loads st) (map (\<lambda>(j, b). (int j, stored_block b)) (enumerate m bs)) = map block_json bs"
  using assms
proof (induction bs arbitrary: m)
  case (Cons b bs)
  have IH: "map (assistant_block loads st) (map (\<lambda>(j, b). (int j, stored_block b)) (enumerate (Suc m) bs)) = map block_json bs"
    by (rule Cons.IH) (use Cons.prems in auto)
  show ?case
  proof (cases b)
    case (Tool_Use t n a)
    then have "buffered_input loads st (int m) = a" using Cons.prems(2)[of m t n a] by simp
    then have "assistant_block loads st (int m, stored_block b) = block_json b"
      unfolding Tool_Use assistant_block_def block_json_def by simp (simp add: stored_block_def)
    with IH show ?thesis by simp
  next
    case (Plain_Block x)
    then have "assistant_block loads st (int m, stored_block b) = block_json b"
      using Cons.prems(1) by (cases x) (simp_all add: proper_block_def assistant_block_def block_json_def stored_block_def)
    with IH show ?thesis by simp
  qed
qed simp

lemma uses_fields:
  assumes "b \<in> set (tool_uses bs)"
  shows "text_field ''name'' (stored_block b) = tu_name b" "text_field ''id'' (stored_block b) = tu_id b"
  using assms by (auto simp: tool_uses_def split: message_block.splits)

lemma message_uses:
  assumes "proper_message loads frag dumps m"
  shows "map (\<lambda>p. text_field ''name'' (snd p)) (stream_tool_uses (message_state frag dumps m)) = map tu_name (tool_uses (mr_content m))"
    and "map (\<lambda>p. text_field ''id'' (snd p)) (stream_tool_uses (message_state frag dumps m)) = map tu_id (tool_uses (mr_content m))"
proof -
  have b: "\<forall>b \<in> set (mr_content m). proper_block loads frag dumps b" using assms by (simp add: proper_message_def)
  show "map (\<lambda>p. text_field ''name'' (snd p)) (stream_tool_uses (message_state frag dumps m)) = map tu_name (tool_uses (mr_content m))"
    "map (\<lambda>p. text_field ''id'' (snd p)) (stream_tool_uses (message_state frag dumps m)) = map tu_id (tool_uses (mr_content m))"
    unfolding stream_tool_uses_def sorted_message stored_uses[OF b] by (auto simp: uses_fields)
qed

lemma list_ex_map: "list_ex P (map f xs) \<longleftrightarrow> list_ex (\<lambda>x. P (f x)) xs"
  by (simp add: list_ex_iff)

lemma message_run_state:
  assumes "proper_message loads frag dumps m"
  shows "message_run B loads (message_state frag dumps m) =
    (let own = filter (\<lambda>b. owns_tool B (tu_name b)) (tool_uses (mr_content m)) in
     if own = [] \<or> list_ex (\<lambda>b. \<not> owns_tool B (tu_name b)) (tool_uses (mr_content m)) \<or> mr_stop m \<noteq> Some ''tool_use'' then None
     else Some (map use_args own))"
proof -
  let ?st = "message_state frag dumps m"
  let ?own = "filter (\<lambda>p. owns_tool B (text_field ''name'' (snd p))) (stream_tool_uses ?st)"
  have b: "\<forall>b \<in> set (mr_content m). proper_block loads frag dumps b" using assms by (simp add: proper_message_def)
  have run: "map (\<lambda>(i, b). (text_field ''name'' b, buffered_input loads ?st i)) ?own
      = map use_args (filter (\<lambda>b. owns_tool B (tu_name b)) (tool_uses (mr_content m)))"
    unfolding stream_tool_uses_def sorted_message
    by (rule message_run_stored[OF b, of 0]) (rule buffered_message[OF assms])
  then have nil: "?own = [] \<longleftrightarrow> filter (\<lambda>b. owns_tool B (tu_name b)) (tool_uses (mr_content m)) = []"
    by (metis map_is_Nil_conv)
  have ex: "list_ex (\<lambda>p. \<not> owns_tool B (text_field ''name'' (snd p))) (stream_tool_uses ?st)
      \<longleftrightarrow> list_ex (\<lambda>b. \<not> owns_tool B (tu_name b)) (tool_uses (mr_content m))"
    using arg_cong[OF message_uses(1)[OF assms], of "list_ex (\<lambda>n. \<not> owns_tool B n)"] by (simp add: list_ex_map)
  have stop: "bs_stop ?st \<noteq> Some ''tool_use'' \<longleftrightarrow> mr_stop m \<noteq> Some ''tool_use''"
    by (auto simp: message_state_def nonempty_opt_def split: option.splits list.splits)
  show ?thesis unfolding message_run_def Let_def run nil ex stop ..
qed

lemma map2_via: "map2 (\<lambda>x t. R (f x) t) xs ts = map2 R (map f xs) ts"
  by (simp add: zip_map1 comp_def case_prod_unfold)

lemma message_append_state:
  assumes "proper_message loads frag dumps m"
  shows "message_append loads (message_state frag dumps m) ts =
    [JObj [(''role'', JStr ''assistant''), (''content'', JArr (map block_json (mr_content m)))],
     JObj [(''role'', JStr ''user''), (''content'', JArr (map2 tool_result (tool_uses (mr_content m)) ts))]]"
proof -
  have b: "\<forall>b \<in> set (mr_content m). proper_block loads frag dumps b" using assms by (simp add: proper_message_def)
  let ?R = "\<lambda>i t. JObj [(''type'', JStr ''tool_result''), (''tool_use_id'', JStr i), (''content'', JStr t)]"
  have "map2 stream_tool_result (stream_tool_uses (message_state frag dumps m)) ts
      = map2 ?R (map (\<lambda>p. text_field ''id'' (snd p)) (stream_tool_uses (message_state frag dumps m))) ts"
    unfolding stream_tool_result_def by (rule map2_via)
  also have "\<dots> = map2 tool_result (tool_uses (mr_content m)) ts"
    unfolding message_uses(2)[OF assms] tool_result_def by (rule map2_via[symmetric])
  finally have u: "map2 stream_tool_result (stream_tool_uses (message_state frag dumps m)) ts
    = map2 tool_result (tool_uses (mr_content m)) ts" .
  have a: "map (assistant_block loads (message_state frag dumps m)) (sorted_blocks (message_state frag dumps m))
    = map block_json (mr_content m)"
    unfolding sorted_message by (rule assistant_stored[OF b buffered_message[OF assms]])
  show ?thesis by (simp add: message_append_def a u del: map_map)
qed

interpretation am: streamed_format "message_events B loads" "anthropic_format B" B "message_stream frag dumps"
    "message_shown frag dumps" "message_state frag dumps" "proper_message loads frag dumps" for B loads frag dumps
proof
  fix r assume ok: "proper_message loads frag dumps r"
  show "ef_scan (message_events B loads) (message_stream frag dumps r) = (message_shown frag dumps r, message_state frag dumps r, None)"
    using message_scans[OF ok] by (simp add: message_events_def)
  fix k
  let ?uses = "tool_uses (mr_content r)"
  note run_state = message_run_state[OF ok, of B]
  show "(\<exists>r' c. lf_round (anthropic_format B) k r = Round_Return r' c) \<or> (\<exists>c. lf_round (anthropic_format B) k r = Round_Cancelled c)"
    if "ef_run (message_events B loads) (message_state frag dumps r) = None"
    using that run_state by (auto simp: message_events_def anthropic_format_def anthropic_round_def Let_def split: if_splits option.splits)
  fix run
  assume run: "ef_run (message_events B loads) (message_state frag dumps r) = Some run"
  then have own: "\<not> list_ex (\<lambda>b. \<not> owns_tool B (tu_name b)) ?uses" "?uses \<noteq> []" "mr_stop r = Some ''tool_use''"
      "run = map use_args (filter (\<lambda>b. owns_tool B (tu_name b)) ?uses)"
    using run_state by (auto simp: message_events_def Let_def split: if_splits)
  from own(1) have all: "filter (\<lambda>b. owns_tool B (tu_name b)) ?uses = ?uses" by (simp add: list_ex_iff filter_id_conv)
  show "lf_round (anthropic_format B) k r = (case execute_calls B k run of None \<Rightarrow> Round_Cancelled run
      | Some ts \<Rightarrow> Round_Next (ef_append (message_events B loads) (message_state frag dumps r) ts) run)"
    using own all message_append_state[OF ok]
    by (simp add: message_events_def anthropic_format_def anthropic_round_def Let_def split: option.split)
qed

section \<open>Responses as events\<close>

definition item_chunks :: "(string \<Rightarrow> string list) \<Rightarrow> int \<Rightarrow> output_item \<Rightarrow> response_event list" where
  "item_chunks frag i o' = (case o' of
     Function_Call c n a \<Rightarrow> Item_Added (Some i) (Some (c, n, None)) # map (\<lambda>s. Args_Delta (Some i) (Some s)) (frag a)
       @ [Args_Done (Some i) (Some a) (Some n)]
   | Plain_Item j \<Rightarrow> [Item_Added (Some i) None]) @ [Other_Response ''response.output_item.done'' None]"

definition response_shown :: "(string \<Rightarrow> string list) \<Rightarrow> response_object \<Rightarrow> response_event list" where
  "response_shown frag r = Other_Response ''response.created'' None
     # concat (map (\<lambda>(j, o'). item_chunks frag (int j) o') (enumerate 0 (ro_output r)))"

definition response_stream :: "(string \<Rightarrow> string list) \<Rightarrow> response_object \<Rightarrow> response_event pull list" where
  "response_stream frag r = map Chunk (response_shown frag r @ [Completed (ro_usage r)])"

text \<open>Calls carry arguments.\<close>

definition proper_response :: "response_object \<Rightarrow> bool" where
  "proper_response r \<longleftrightarrow> (\<forall>o' \<in> set (ro_output r). case o' of Function_Call c n a \<Rightarrow> a \<noteq> [] \<and> n \<noteq> [] | _ \<Rightarrow> True)"

definition stored_calls :: "(nat \<times> output_item) list \<Rightarrow> (int, call_spec) dict" where
  "stored_calls jos = List.map_filter (\<lambda>(j, o'). case o' of
     Function_Call c n a \<Rightarrow> Some (int j, \<lparr>cs_id = c, cs_name = n, cs_args = a\<rparr>) | _ \<Rightarrow> None) jos"

definition response_state :: "response_object \<Rightarrow> calls_state" where
  "response_state r = \<lparr>fs_calls = stored_calls (enumerate 0 (ro_output r)), fs_completed = Some (Completed (ro_usage r))\<rparr>"

lemma scan_arg_deltas:
  "fs_calls st = xs @ [(i, s)] \<Longrightarrow> map_of xs i = None \<Longrightarrow>
    read_response (map Chunk (map (\<lambda>d. Args_Delta (Some i) (Some d)) ds) @ ps) st =
      (case read_response ps (st\<lparr>fs_calls := xs @ [(i, s\<lparr>cs_args := cs_args s @ concat ds\<rparr>)]\<rparr>) of
        (out, r) \<Rightarrow> (map (\<lambda>d. Args_Delta (Some i) (Some d)) ds @ out, r))"
proof (induction ds arbitrary: st s)
  case Nil
  have "st\<lparr>fs_calls := xs @ [(i, s)]\<rparr> = st" using Nil.prems(1)[symmetric] by simp
  then show ?case by (simp split: prod.split)
next
  case (Cons d ds)
  let ?st = "st\<lparr>fs_calls := xs @ [(i, s\<lparr>cs_args := cs_args s @ d\<rparr>)]\<rparr>"
  have "note_response (Args_Delta (Some i) (Some d)) st = ?st"
    using Cons.prems by (auto simp: note_response_def map_add_def update_at_end text_or_empty_def)
  with Cons.IH[of ?st "s\<lparr>cs_args := cs_args s @ d\<rparr>"] Cons.prems show ?case by (simp split: prod.splits)
qed

lemma scan_item:
  assumes "case o' of Function_Call c n a \<Rightarrow> a \<noteq> [] \<and> n \<noteq> [] | _ \<Rightarrow> True" and "map_of (fs_calls st) (int j) = None"
  shows "read_response (map Chunk (item_chunks frag (int j) o') @ ps) st =
      (case read_response ps (st\<lparr>fs_calls := fs_calls st @ stored_calls [(j, o')]\<rparr>) of
        (out, r) \<Rightarrow> (item_chunks frag (int j) o' @ out, r))"
proof (cases o')
  case (Function_Call c n a)
  let ?s = "\<lparr>cs_id = c, cs_name = n, cs_args = []\<rparr>"
  let ?st = "st\<lparr>fs_calls := fs_calls st @ [(int j, ?s)]\<rparr>"
  have "fs_calls ?st = fs_calls st @ [(int j, ?s)]" by simp
  from scan_arg_deltas[OF this, of "frag a"] assms show ?thesis
    by (simp add: Function_Call item_chunks_def stored_calls_def List.map_filter_def note_response_def update_new
        update_at_end text_or_empty_def nonempty_opt_def map_add_def del: map_map split: prod.splits list.splits)
next
  case (Plain_Item x)
  then show ?thesis by (simp add: item_chunks_def stored_calls_def List.map_filter_def note_response_def split: prod.splits)
qed

lemma scan_items:
  assumes "\<forall>o' \<in> set os. case o' of Function_Call c n a \<Rightarrow> a \<noteq> [] \<and> n \<noteq> [] | _ \<Rightarrow> True"
    and "\<And>j. m \<le> j \<Longrightarrow> map_of (fs_calls st) (int j) = None"
  shows "read_response (map Chunk (concat (map (\<lambda>(j, o'). item_chunks frag (int j) o') (enumerate m os))) @ ps) st =
      (case read_response ps (st\<lparr>fs_calls := fs_calls st @ stored_calls (enumerate m os)\<rparr>) of
        (out, r) \<Rightarrow> (concat (map (\<lambda>(j, o'). item_chunks frag (int j) o') (enumerate m os)) @ out, r))"
  using assms
proof (induction os arbitrary: m st)
  case (Cons o' os)
  let ?st = "st\<lparr>fs_calls := fs_calls st @ stored_calls [(m, o')]\<rparr>"
  have s: "stored_calls ((m, o') # xs) = stored_calls [(m, o')] @ stored_calls xs" for xs
    by (simp add: stored_calls_def List.map_filter_def)
  have n: "map_of (stored_calls [(m, o')]) (int j) = None" if "Suc m \<le> j" for j
    using that by (auto simp: stored_calls_def List.map_filter_def split: output_item.split)
  have "map_of (fs_calls ?st) (int j) = None" if "Suc m \<le> j" for j
    using that Cons.prems(2)[of j] n[of j] by (auto simp: map_add_def)
  note IH = Cons.IH[of "Suc m" ?st, OF _ this]
  have b: "case o' of Function_Call c n a \<Rightarrow> a \<noteq> [] \<and> n \<noteq> [] | _ \<Rightarrow> True"
      "\<forall>o' \<in> set os. case o' of Function_Call c n a \<Rightarrow> a \<noteq> [] \<and> n \<noteq> [] | _ \<Rightarrow> True" using Cons.prems(1) by simp_all
  show ?case
    using scan_item[OF b(1) Cons.prems(2)[of m, OF order_refl],
        of frag "map Chunk (concat (map (\<lambda>(j, o'). item_chunks frag (int j) o') (enumerate (Suc m) os))) @ ps"] IH[OF b(2)]
    by (simp add: s[of "enumerate (Suc m) os"] del: read_response.simps split: prod.splits)
qed (simp add: stored_calls_def List.map_filter_def split: prod.split)

lemma response_scans:
  assumes "proper_response r"
  shows "read_response (response_stream frag r) new_calls = (response_shown frag r, response_state r, None)"
proof -
  have n: "map_of (fs_calls new_calls) (int j) = None" for j by (simp add: new_calls_def)
  from scan_items[OF assms[unfolded proper_response_def] n, where m = 0 and frag = frag and ps = "[Chunk (Completed (ro_usage r))]"]
  show ?thesis
    by (simp add: response_stream_def response_shown_def response_state_def new_calls_def note_response_def del: map_map)
qed

definition item_spec :: "output_item \<Rightarrow> call_spec" where
  "item_spec o' = \<lparr>cs_id = fc_id o', cs_name = fc_name o', cs_args = fc_args o'\<rparr>"

lemma item_spec_simps [simp]:
  "cs_id (item_spec o') = fc_id o'" "cs_name (item_spec o') = fc_name o'" "cs_args (item_spec o') = fc_args o'"
  by (simp_all add: item_spec_def)

lemma stored_calls_simps [simp]:
  "stored_calls [] = []"
  "stored_calls ((j, Function_Call c n a) # xs) = (int j, \<lparr>cs_id = c, cs_name = n, cs_args = a\<rparr>) # stored_calls xs"
  "stored_calls ((j, Plain_Item x) # xs) = stored_calls xs"
  by (simp_all add: stored_calls_def List.map_filter_def)

lemma stored_calls_keys: "p \<in> set (stored_calls (enumerate m os)) \<Longrightarrow> int m \<le> fst p"
proof (induction os arbitrary: m)
  case (Cons o' os)
  then show ?case by (cases o') fastforce+
qed simp

lemma stored_calls_sorted: "sorted (map fst (stored_calls (enumerate m os)))"
proof (induction os arbitrary: m)
  case (Cons o' os)
  with Cons[of "Suc m"] stored_calls_keys[of _ "Suc m" os] show ?case by (cases o') force+
qed simp

lemma stored_calls_specs: "map snd (stored_calls (enumerate m os)) = map item_spec (calls_of_output os)"
proof (induction os arbitrary: m)
  case (Cons o' os)
  then show ?case by (cases o') (simp_all add: calls_of_output_def item_spec_def)
qed (simp add: calls_of_output_def)

lemma sorted_response: "sorted_calls (response_state r) = map item_spec (calls_of_output (ro_output r))"
  unfolding sorted_calls_def response_state_def
  by (simp add: sort_key_sorted stored_calls_sorted stored_calls_specs)

lemma filter_item_spec: "filter (\<lambda>s. P (cs_name s)) (map item_spec cs) = map item_spec (filter (\<lambda>i. P (fc_name i)) cs)"
  by (simp add: filter_map comp_def)

lemma response_run_state:
  "response_run B loads (response_state r) =
    (let calls = calls_of_output (ro_output r); own = filter (\<lambda>i. owns_tool B (fc_name i)) calls in
     if list_ex (\<lambda>i. \<not> owns_tool B (fc_name i)) calls \<or> own = [] then None
     else Some (map (\<lambda>i. (fc_name i, parsed_args loads (fc_args i))) own))"
  by (simp add: response_run_def Let_def sorted_response filter_item_spec list_ex_map comp_def)

lemma spec_json_item: "fc_args o' \<noteq> [] \<Longrightarrow> o' \<in> set (calls_of_output os) \<Longrightarrow> spec_json (item_spec o') = item_json o'"
  by (auto simp: spec_json_def item_json_def calls_of_output_def split: output_item.splits)

lemma response_append_state:
  assumes "proper_response r"
  shows "response_append (response_state r) ts =
    map item_json (calls_of_output (ro_output r)) @ map2 call_output (calls_of_output (ro_output r)) ts"
proof -
  have "spec_json (item_spec o') = item_json o'" if "o' \<in> set (calls_of_output (ro_output r))" for o'
    using that assms by (intro spec_json_item[OF _ that]) (auto simp: proper_response_def calls_of_output_def split: output_item.splits)
  moreover have "spec_output (item_spec o') t = call_output o' t" for o' t
    by (simp add: spec_output_def call_output_def)
  ultimately show ?thesis by (simp add: response_append_def sorted_response zip_map1 comp_def case_prod_unfold)
qed

interpretation rs: streamed_format "response_events B loads" "responses_format B loads" B "response_stream frag"
    "response_shown frag" response_state proper_response for B loads frag
proof
  fix r assume ok: "proper_response r"
  show "ef_scan (response_events B loads) (response_stream frag r) = (response_shown frag r, response_state r, None)"
    using response_scans[OF ok] by (simp add: response_events_def)
  fix k
  let ?calls = "calls_of_output (ro_output r)"
  show "(\<exists>r' c. lf_round (responses_format B loads) k r = Round_Return r' c) \<or> (\<exists>c. lf_round (responses_format B loads) k r = Round_Cancelled c)"
    if "ef_run (response_events B loads) (response_state r) = None"
    using that by (auto simp: response_events_def response_run_state responses_format_def responses_round_def Let_def
        split: if_splits option.splits)
  fix run
  assume run: "ef_run (response_events B loads) (response_state r) = Some run"
  then have own: "\<not> list_ex (\<lambda>i. \<not> owns_tool B (fc_name i)) ?calls" "?calls \<noteq> []"
      "run = map (\<lambda>i. (fc_name i, parsed_args loads (fc_args i))) (filter (\<lambda>i. owns_tool B (fc_name i)) ?calls)"
    by (auto simp: response_events_def response_run_state Let_def split: if_splits)
  from own(1) have all: "filter (\<lambda>i. owns_tool B (fc_name i)) ?calls = ?calls" by (simp add: list_ex_iff filter_id_conv)
  show "lf_round (responses_format B loads) k r = (case execute_calls B k run of None \<Rightarrow> Round_Cancelled run
      | Some ts \<Rightarrow> Round_Next (ef_append (response_events B loads) (response_state r) ts) run)"
    using own all response_append_state[OF ok]
    by (simp add: response_events_def responses_format_def responses_round_def Let_def split: option.split)
qed

interpretation ac: counted_format "message_events B loads" "anthropic_format B" B "message_stream frag dumps"
    "message_shown frag dumps" "message_state frag dumps" "proper_message loads frag dumps" mr_usage mu_output "(0, 0)"
  for B loads frag dumps
proof
  fix r
  show "sum_list (map (ef_output (message_events B loads)) (ef_terminal (message_events B loads) (message_state frag dumps r)))
      = (case mr_usage r of None \<Rightarrow> 0 | Some u \<Rightarrow> mu_output u)"
    by (simp add: message_events_def message_state_def message_ends_def delta_output_def split: option.split)
qed (auto simp: anthropic_round_return foldl_anthropic_add anthropic_fold_def split: option.splits)

interpretation rc: counted_format "response_events B loads" "responses_format B loads" B "response_stream frag"
    "response_shown frag" response_state proper_response ro_usage ru_output "(0, 0, 0)" for B loads frag
proof
  fix r
  show "sum_list (map (ef_output (response_events B loads)) (ef_terminal (response_events B loads) (response_state r)))
      = (case ro_usage r of None \<Rightarrow> 0 | Some u \<Rightarrow> ru_output u)"
    by (simp add: response_events_def response_state_def completed_output_def split: option.split)
qed (auto simp: responses_round_return foldl_responses_add responses_fold_def split: option.splits prod.splits)

section \<open>Properties\<close>

lemma fold_delta: "0 \<le> acc \<Longrightarrow> maybe_fold_message_delta_usage acc (Message_Delta s (Some u))
    = Message_Delta s (Some (u\<lparr>mu_output := mu_output u + acc\<rparr>))"
  "maybe_fold_message_delta_usage acc Message_Stop = Message_Stop"
  by (auto simp: maybe_fold_message_delta_usage_def)

lemma fold_completed: "0 \<le> acc \<Longrightarrow> maybe_fold_response_completed_usage acc (Completed (Some u))
    = Completed (Some (u\<lparr>ru_output := ru_output u + acc, ru_total := ru_total u + acc\<rparr>))"
  by (auto simp: maybe_fold_response_completed_usage_def)

text \<open>C24. Against a model that streams its answers, in fragments of any lengths, the streamed Messages loop holds
  the conversation the plain loop holds and runs its tools (but not those of a last, mixed batch), and the one
  \<open>message_delta\<close> it sends carries the output tokens of all rounds, but the input tokens of the last round only.\<close>

theorem streamed_messages_agree:
  assumes ask: "\<And>i m r. ask i (tools @ openai_to_anthropic_tools (openai_tools B)) m = Inr r \<Longrightarrow>
      proper_message loads frag dumps r \<and> (\<forall>u. mr_usage r = Some u \<longrightarrow> 0 \<le> mu_output u)"
    and srun: "srun = anthropic_tool_loop_stream B loads (\<lambda>i t m. map_answer (message_stream frag dumps) (ask i t m)) N tools msgs"
    and run: "run = anthropic_tool_loop B ask N tools msgs"
  shows "er_asked srun = lr_asked run \<and> prefix (er_calls srun) (lr_calls run)
    \<and> (\<forall>c u. lr_end run = Loop_Done c \<and> mr_usage c = Some u \<longrightarrow> (\<exists>v w. mr_usage (last (lr_answers run)) = Some w
        \<and> er_out srun = map Chunk (concat (map (message_shown frag dumps) (lr_answers run))
            @ [Message_Delta (mr_stop (last (lr_answers run))) (Some v), Message_Stop])
        \<and> mu_output v = mu_output u \<and> mu_input v = mu_input w))"
proof -
  have ok: "ask i (tools @ openai_to_anthropic_tools (openai_tools B)) m = Inr r \<Longrightarrow> proper_message loads frag dumps r" for i m r
    using ask by blast
  note defs = srun run anthropic_tool_loop_stream_def anthropic_tool_loop_def
  have run': "run = run_loop (anthropic_format B) (\<lambda>i. ask i (tools @ openai_to_anthropic_tools (openai_tools B))) N 0 0 msgs (0, 0)"
    by (simp add: run anthropic_tool_loop_def)
  have "\<exists>v w. mr_usage (last (lr_answers run)) = Some w
        \<and> er_out srun = map Chunk (concat (map (message_shown frag dumps) (lr_answers run))
            @ [Message_Delta (mr_stop (last (lr_answers run))) (Some v), Message_Stop])
        \<and> mu_output v = mu_output u \<and> mu_input v = mu_input w" if c: "lr_end run = Loop_Done c" "mr_usage c = Some u" for c u
  proof -
    have ask': "proper_message loads frag dumps r \<and> (\<forall>u. mr_usage r = Some u \<longrightarrow> 0 \<le> mu_output u)"
      if "ask i (tools @ openai_to_anthropic_tools (openai_tools B)) m = Inr r" for i m r using ask[OF that] by blast
    from ac.final_usage[where ask = "\<lambda>i. ask i (tools @ openai_to_anthropic_tools (openai_tools B))", OF _ run' c] ask'
    obtain s w where sw: "0 \<le> s" "mr_usage (last (lr_answers run)) = Some w"
        "mu_output u = s + mu_output w" and out: "er_out srun = map Chunk (concat (map (message_shown frag dumps) (lr_answers run))
          @ map (ef_fold (message_events B loads) s) (ef_terminal (message_events B loads) (message_state frag dumps (last (lr_answers run)))))"
      unfolding srun anthropic_tool_loop_stream_def by blast
    show ?thesis
      by (intro exI[of _ "w\<lparr>mu_output := mu_output w + s\<rparr>"] exI[of _ w])
        (simp add: sw out message_events_def message_state_def message_ends_def fold_delta)
  qed
  moreover have "er_asked srun = lr_asked run \<and> prefix (er_calls srun) (lr_calls run)"
    unfolding defs using am.rounds_agree[where ask = "\<lambda>i. ask i (tools @ openai_to_anthropic_tools (openai_tools B))"] ok by blast
  ultimately show ?thesis by blast
qed

text \<open>A model that uses the sandbox first, its arguments in two fragments, and then answers.\<close>

definition sample_message :: "message_block list \<Rightarrow> string \<Rightarrow> message_response" where
  "sample_message bs stop = \<lparr>mr_usage = Some \<lparr>mu_input = 10, mu_output = 4, mu_cache_read = 0, mu_cache_write = 0\<rparr>,
     mr_content = bs, mr_stop = Some stop\<rparr>"

definition sample_message_ask :: "nat \<Rightarrow> json list \<Rightarrow> json list \<Rightarrow> (string, message_response) result" where
  "sample_message_ask i tools msgs = Inr (if i = 0
     then sample_message [Tool_Use ''t1'' code_execution_tool_name (JObj [])] ''tool_use''
     else sample_message [Plain_Block (JObj [(''type'', JStr ''text''), (''text'', JStr ''hi'')])] ''end_turn'')"

definition halves :: "string \<Rightarrow> string list" where
  "halves s = [take (length s div 2) s, drop (length s div 2) s]"

lemma halves_concat [simp]: "concat (halves s) = s"
  by (simp add: halves_def)

lemma sample_messages_proper:
  "sample_message_ask i tools msgs = Inr r \<Longrightarrow> proper_message sample_loads halves (\<lambda>_. ''{}'') r
    \<and> (\<forall>u. mr_usage r = Some u \<longrightarrow> 0 \<le> mu_output u)"
  by (auto simp: sample_message_ask_def sample_message_def proper_message_def proper_block_def stored_block_def is_tool_use_def
      parsed_args_def sample_loads_def split: if_splits)

lemma streamed_messages_agree_witness:
  "\<exists>out v. er_out (anthropic_tool_loop_stream sample_sandbox sample_loads
      (\<lambda>i t m. map_answer (message_stream halves (\<lambda>_. ''{}'')) (sample_message_ask i t m)) 10 [] [])
        = map Chunk (out @ [Message_Delta (Some ''end_turn'') (Some v), Message_Stop]) \<and> mu_output v = 8 \<and> mu_input v = 10"
proof -
  let ?run = "anthropic_tool_loop sample_sandbox sample_message_ask 10 [] []"
  have run: "lr_answers ?run = [sample_message [Tool_Use ''t1'' code_execution_tool_name (JObj [])] ''tool_use'',
      sample_message [Plain_Block (JObj [(''type'', JStr ''text''), (''text'', JStr ''hi'')])] ''end_turn'']"
    "\<exists>c u. lr_end ?run = Loop_Done c \<and> mr_usage c = Some u \<and> mu_output u = 8"
    by (simp_all add: anthropic_tool_loop_def anthropic_round_def numeral_eq_Suc sample_message_ask_def sample_message_def sample_defs
        tool_uses_def use_args_def anthropic_fold_def anthropic_add_def)
  from run(2) obtain c u where cu: "lr_end ?run = Loop_Done c \<and> mr_usage c = Some u" "mu_output u = 8" by blast
  let ?srun = "anthropic_tool_loop_stream sample_sandbox sample_loads
      (\<lambda>i t m. map_answer (message_stream halves (\<lambda>_. ''{}'')) (sample_message_ask i t m)) 10 [] []"
  have "er_asked ?srun = lr_asked ?run \<and> prefix (er_calls ?srun) (lr_calls ?run)
    \<and> (\<forall>c u. lr_end ?run = Loop_Done c \<and> mr_usage c = Some u \<longrightarrow> (\<exists>v w. mr_usage (last (lr_answers ?run)) = Some w
        \<and> er_out ?srun = map Chunk (concat (map (message_shown halves (\<lambda>_. ''{}'')) (lr_answers ?run))
            @ [Message_Delta (mr_stop (last (lr_answers ?run))) (Some v), Message_Stop])
        \<and> mu_output v = mu_output u \<and> mu_input v = mu_input w))"
    by (rule streamed_messages_agree[OF _ refl refl]) (rule sample_messages_proper)
  from this[THEN conjunct2, THEN conjunct2, rule_format, OF cu(1)]
  obtain v w where "mr_usage (last (lr_answers ?run)) = Some w" "mu_output v = 8" "mu_input v = mu_input w"
      "er_out ?srun = map Chunk (concat (map (message_shown halves (\<lambda>_. ''{}'')) (lr_answers ?run))
        @ [Message_Delta (mr_stop (last (lr_answers ?run))) (Some v), Message_Stop])"
    using cu(2) by (elim exE conjE) simp
  then show ?thesis unfolding run(1)
    by (intro exI[of _ "concat (map (message_shown halves (\<lambda>_. ''{}'')) (lr_answers ?run))"] exI[of _ v])
      (auto simp: run(1) sample_message_def)
qed

text \<open>The same for the Responses loop: one \<open>response.completed\<close> is sent, the last event, with the output
  tokens of all rounds; its input tokens are those of the last round, and so is its total but for the output
  tokens added to it.\<close>

theorem streamed_responses_agree:
  assumes ask: "\<And>i m r. ask i (tools @ openai_to_responses_tools (openai_tools B)) m = Inr r \<Longrightarrow>
      proper_response r \<and> (\<forall>u. ro_usage r = Some u \<longrightarrow> 0 \<le> ru_output u)"
    and srun: "srun = responses_tool_loop_stream B loads (\<lambda>i t m. map_answer (response_stream frag) (ask i t m)) N tools inp"
    and run: "run = responses_tool_loop B loads ask N tools inp"
  shows "er_asked srun = lr_asked run \<and> prefix (er_calls srun) (lr_calls run)
    \<and> (\<forall>c u. lr_end run = Loop_Done c \<and> ro_usage c = Some u \<longrightarrow> (\<exists>v w. ro_usage (last (lr_answers run)) = Some w
        \<and> er_out srun = map Chunk (concat (map (response_shown frag) (lr_answers run)) @ [Completed (Some v)])
        \<and> ru_output v = ru_output u \<and> ru_input v = ru_input w \<and> ru_total v - ru_output v = ru_total w - ru_output w))"
proof -
  have ok: "ask i (tools @ openai_to_responses_tools (openai_tools B)) m = Inr r \<Longrightarrow> proper_response r" for i m r
    using ask by blast
  note defs = srun run responses_tool_loop_stream_def responses_tool_loop_def
  have run': "run = run_loop (responses_format B loads) (\<lambda>i. ask i (tools @ openai_to_responses_tools (openai_tools B))) N 0 0
      (coerce_input inp) (0, 0, 0)"
    by (simp add: run responses_tool_loop_def)
  have "\<exists>v w. ro_usage (last (lr_answers run)) = Some w
        \<and> er_out srun = map Chunk (concat (map (response_shown frag) (lr_answers run)) @ [Completed (Some v)])
        \<and> ru_output v = ru_output u \<and> ru_input v = ru_input w \<and> ru_total v - ru_output v = ru_total w - ru_output w"
    if c: "lr_end run = Loop_Done c" "ro_usage c = Some u" for c u
  proof -
    have ask': "proper_response r \<and> (\<forall>u. ro_usage r = Some u \<longrightarrow> 0 \<le> ru_output u)"
      if "ask i (tools @ openai_to_responses_tools (openai_tools B)) m = Inr r" for i m r using ask[OF that] by blast
    from rc.final_usage[where ask = "\<lambda>i. ask i (tools @ openai_to_responses_tools (openai_tools B))", OF _ run' c] ask'
    obtain s w where sw: "0 \<le> s" "ro_usage (last (lr_answers run)) = Some w"
        "ru_output u = s + ru_output w" and out: "er_out srun = map Chunk (concat (map (response_shown frag) (lr_answers run))
          @ map (ef_fold (response_events B loads) s) (ef_terminal (response_events B loads) (response_state (last (lr_answers run)))))"
      unfolding srun responses_tool_loop_stream_def by blast
    show ?thesis
      by (intro exI[of _ "w\<lparr>ru_output := ru_output w + s, ru_total := ru_total w + s\<rparr>"] exI[of _ w])
        (simp add: sw out response_events_def response_state_def fold_completed)
  qed
  moreover have "er_asked srun = lr_asked run \<and> prefix (er_calls srun) (lr_calls run)"
    unfolding defs using rs.rounds_agree[where ask = "\<lambda>i. ask i (tools @ openai_to_responses_tools (openai_tools B))"] ok by blast
  ultimately show ?thesis by blast
qed

definition sample_response :: "output_item list \<Rightarrow> response_object" where
  "sample_response os = \<lparr>ro_usage = Some \<lparr>ru_input = 10, ru_output = 4, ru_total = 14, ru_cached = 0\<rparr>, ro_output = os\<rparr>"

definition sample_response_ask :: "nat \<Rightarrow> json list \<Rightarrow> json list \<Rightarrow> (string, response_object) result" where
  "sample_response_ask i tools msgs = Inr (sample_response
     (if i = 0 then [Function_Call ''c1'' code_execution_tool_name ''{}''] else [Plain_Item JNull]))"

lemma sample_responses_proper:
  "sample_response_ask i tools msgs = Inr r \<Longrightarrow> proper_response r \<and> (\<forall>u. ro_usage r = Some u \<longrightarrow> 0 \<le> ru_output u)"
  by (auto simp: sample_response_ask_def sample_response_def proper_response_def code_execution_tool_name_def split: if_splits)

lemma sample_response_run:
  "lr_answers (responses_tool_loop sample_sandbox sample_loads sample_response_ask 10 [] None)
    = [sample_response [Function_Call ''c1'' code_execution_tool_name ''{}''], sample_response [Plain_Item JNull]]"
  "\<exists>c u. lr_end (responses_tool_loop sample_sandbox sample_loads sample_response_ask 10 [] None) = Loop_Done c
    \<and> ro_usage c = Some u \<and> ru_output u = 8 \<and> ru_total u = 28"
  by (simp_all add: responses_tool_loop_def responses_round_def numeral_eq_Suc sample_response_ask_def
      sample_response_def sample_defs calls_of_output_def responses_fold_def responses_add_def)

lemma streamed_responses_agree_witness:
  "\<exists>out v. er_out (responses_tool_loop_stream sample_sandbox sample_loads
      (\<lambda>i t m. map_answer (response_stream halves) (sample_response_ask i t m)) 10 [] None)
        = map Chunk (out @ [Completed (Some v)]) \<and> ru_output v = 8 \<and> ru_total v = 18"
  using streamed_responses_agree[OF sample_responses_proper refl refl, where B = sample_sandbox and N = 10 and tools = "[]"
      and inp = None and loads = sample_loads and frag = halves] sample_response_run
  by (fastforce simp: sample_response_def)

definition message_terminal :: "message_event \<Rightarrow> bool" where
  "message_terminal e \<longleftrightarrow> (case e of Message_Delta _ _ \<Rightarrow> True | Message_Stop \<Rightarrow> True | _ \<Rightarrow> False)"

definition response_terminal :: "response_event \<Rightarrow> bool" where
  "response_terminal e \<longleftrightarrow> (case e of Completed _ \<Rightarrow> True | _ \<Rightarrow> False)"

lemma scan_message_quiet:
  "scan_message ps st = (out, st', x) \<Longrightarrow> list_all message_terminal (bs_terminal st) \<Longrightarrow>
    (\<forall>e \<in> set out. \<not> message_terminal e) \<and> list_all message_terminal (bs_terminal st')"
proof (induction ps arbitrary: st out)
  case (Cons p ps)
  have d: "bs_terminal (note_delta i d s) = bs_terminal s" for i d s
    by (simp add: note_delta_def split: option.split block_delta.split)
  show ?case
  proof (cases p)
    case (Chunk e)
    with Cons show ?thesis
      by (cases e) (auto simp: message_terminal_def d split: prod.splits dest!: Cons.IH)
  qed (use Cons.prems in simp)
qed simp

lemma read_response_quiet:
  "read_response ps st = (out, st', x) \<Longrightarrow> (\<forall>c. fs_completed st = Some c \<longrightarrow> response_terminal c) \<Longrightarrow>
    (\<forall>e \<in> set out. \<not> response_terminal e) \<and> (\<forall>c. fs_completed st' = Some c \<longrightarrow> response_terminal c)"
proof (induction ps arbitrary: st out)
  case (Cons p ps)
  have d: "fs_completed (note_response e s) = fs_completed s" for e s
    by (simp add: note_response_def split: option.split response_event.split prod.split)
  show ?case
  proof (cases p)
    case (Chunk e)
    show ?thesis
    proof (cases "response_terminal e")
      case True
      with Chunk Cons.prems show ?thesis by (cases e) (auto simp: response_terminal_def)
    next
      case False
      then have "read_response (p # ps) st = (case read_response ps (note_response e st) of (o2, r) \<Rightarrow> (e # o2, r))"
        by (cases e) (simp_all add: Chunk response_terminal_def)
      with Cons.prems obtain o2 where o: "read_response ps (note_response e st) = (o2, st', x)" "out = e # o2"
        by (auto split: prod.splits)
      from Cons.IH[OF o(1)] Cons.prems(2) False o(2) show ?thesis by (simp add: d)
    qed
  qed (use Cons.prems in simp)
qed simp

lemma quiet_scans:
  "quiet_scan (message_events B loads) message_terminal" "quiet_scan (response_events B loads) response_terminal"
proof -
  have fold: "list_all message_terminal (map (maybe_fold_message_delta_usage a) es) = list_all message_terminal es" for a es
    by (induction es) (auto simp: maybe_fold_message_delta_usage_def message_terminal_def split: message_event.split option.split)
  have "(\<forall>e \<in> set out. \<not> message_terminal e) \<and> list_all message_terminal (bs_terminal st)"
    if "scan_message ps new_blocks = (out, st, x)" for ps out st x
    by (rule scan_message_quiet[OF that]) (simp add: new_blocks_def)
  then show "quiet_scan (message_events B loads) message_terminal"
    unfolding quiet_scan_def message_events_def by (simp add: fold del: list.map)
  have fold': "response_terminal (maybe_fold_response_completed_usage a e) = response_terminal e" for a e
    by (auto simp: maybe_fold_response_completed_usage_def response_terminal_def split: response_event.split option.split)
  have "(\<forall>e \<in> set out. \<not> response_terminal e) \<and> (\<forall>c. fs_completed st = Some c \<longrightarrow> response_terminal c)"
    if "read_response ps new_calls = (out, st, x)" for ps out st x
    by (rule read_response_quiet[OF that]) (simp add: new_calls_def)
  then show "quiet_scan (response_events B loads) response_terminal"
    unfolding quiet_scan_def response_events_def by (fastforce simp: fold' split: option.split)
qed

text \<open>Whatever the model streams, both loops make at most \<open>max_iterations\<close> model calls and run only tools of
  their backend, and a client sees the end of a message (\<open>message_delta\<close>, \<open>message_stop\<close>,
  \<open>response.completed\<close>) only in the last events of the last round: never between two rounds.\<close>

theorem streamed_format_contract:
  "ends_once message_terminal (er_out (anthropic_tool_loop_stream B loads ask N tools msgs))
    \<and> ends_once response_terminal (er_out (responses_tool_loop_stream B loads ask' N tools inp))
    \<and> length (er_asked (anthropic_tool_loop_stream B loads ask N tools msgs)) \<le> N
    \<and> length (er_asked (responses_tool_loop_stream B loads ask' N tools inp)) \<le> N
    \<and> fst ` set (er_calls (anthropic_tool_loop_stream B loads ask N tools msgs)) \<subseteq> {n. owns_tool B n}
    \<and> fst ` set (er_calls (responses_tool_loop_stream B loads ask' N tools inp)) \<subseteq> {n. owns_tool B n}"
  unfolding anthropic_tool_loop_stream_def responses_tool_loop_stream_def
  by (intro conjI event_rounds_terminal[OF quiet_scans(1)] event_rounds_terminal[OF quiet_scans(2)]
      event_rounds_bounds[OF message_runs_owned, THEN conjunct1] event_rounds_bounds[OF response_runs_owned, THEN conjunct1]
      event_rounds_bounds[OF message_runs_owned, THEN conjunct2] event_rounds_bounds[OF response_runs_owned, THEN conjunct2])

text \<open>
  Two consequences of how the loops decide to stop. The Messages loop needs the stop reason \<open>tool_use\<close>; the
  Responses loop has no such test, so a response that breaks off (\<open>response.failed\<close>, \<open>response.incomplete\<close>, no
  \<open>response.completed\<close>) still has the calls it announced run, with no arguments where these were cut off, and the
  model is asked again.
\<close>

theorem cut_off_call_still_runs:
  "ef_scan (response_events B loads) [Chunk (Item_Added (Some 0) (Some (c, n, None))), Chunk (Args_Delta (Some 0) (Some a)),
      Chunk (Other_Response ''response.failed'' None)]
    = ([Item_Added (Some 0) (Some (c, n, None)), Args_Delta (Some 0) (Some a), Other_Response ''response.failed'' None],
       \<lparr>fs_calls = [(0, \<lparr>cs_id = c, cs_name = n, cs_args = a\<rparr>)], fs_completed = None\<rparr>, None)
    \<and> (owns_tool B n \<longrightarrow> response_run B loads \<lparr>fs_calls = [(0, \<lparr>cs_id = c, cs_name = n, cs_args = a\<rparr>)], fs_completed = None\<rparr>
        = Some [(n, parsed_args loads a)])"
  by (simp add: response_events_def new_calls_def note_response_def text_or_empty_def response_run_def sorted_calls_def)

end
