(* ===== verification/Hybrid_Stream.thy ===== *)
theory Hybrid_Stream
  imports Platform Streaming
begin

text \<open>
  Hybrid-mode streaming: the attempts before the first byte (\<open>run_streaming_with_fallback\<close> and
  \<open>_flush_pending_usage_reports\<close> of \<open>api/routes/_pipeline.py\<close>), the settlement of the committed
  stream by reports to the platform (the \<open>platform_active\<close> branches of \<open>build_streaming_response\<close>) and
  the error the chat route answers with when no attempt yields (\<open>api/routes/chat.py\<close>).

  \<open>view\<close> is what the error classifier probes of a raised exception. Reports queued as background tasks
  are sent once the response has been streamed, flushed ones before the error response. A flush is cut off
  after \<open>usage_timeout_ms\<close>; the model is what it attempts.
\<close>

section \<open>Before the first chunk\<close>

record 'c hybrid_stream =
  hs_outcome :: "(failure_exn, resolved_attempt \<times> 'c pull list) result"
  hs_queued :: "report list"
  hs_flushed :: "report list"
  hs_backend_closed :: bool

definition attempt_report :: "resolved_attempt \<times> stream_failure \<Rightarrow> report" where
  "attempt_report af = Report (fst af) False None (Some (error_class (snd af)))"

text \<open>The tool backend of the request is entered first, once for all attempts; \<open>enter\<close> is what it raises.\<close>

definition run_streaming_with_fallback :: "(exn \<Rightarrow> platform_exn) \<Rightarrow> exn option \<Rightarrow> (resolved_attempt \<Rightarrow> 'c attempt_run)
    \<Rightarrow> resolved_attempt list \<Rightarrow> 'c hybrid_stream" where
  "run_streaming_with_fallback view enter run as = (case enter of
     Some x \<Rightarrow> \<lparr>hs_outcome = Inl (Raised x), hs_queued = [], hs_flushed = [], hs_backend_closed = True\<rparr>
   | None \<Rightarrow>
       (let t = try_streams run (classify_upstream_error \<circ> view) (\<lambda>_ _. None) as;
            pending = map attempt_report (failures t)
        in case result t of
             Inr ok \<Rightarrow> \<lparr>hs_outcome = Inr ok, hs_queued = pending, hs_flushed = [], hs_backend_closed = False\<rparr>
           | Inl x \<Rightarrow> \<lparr>hs_outcome = Inl x, hs_queued = [],
               hs_flushed = (if x = Raised Cancelled_Error then [] else pending), hs_backend_closed = True\<rparr>))"

section \<open>The committed stream\<close>

text \<open>The settlement callbacks in hybrid mode, where there is no local database: only a completed stream with
  usage and a failed one are reported.\<close>

definition platform_event :: "resolved_attempt \<Rightarrow> event \<Rightarrow> report list" where
  "platform_event a ev = (case ev of
     On_Complete u \<Rightarrow> [Report a True (Some u) None]
   | On_No_Usage \<Rightarrow> []
   | On_Error e \<Rightarrow> [Report a False None None]
   | On_Incomplete \<Rightarrow> [])"

text \<open>The callbacks start a task and await nothing, so they always return.\<close>

definition platform_args :: "('c \<Rightarrow> (string, string) result) \<Rightarrow> ('c \<Rightarrow> (string, usage option) result) \<Rightarrow> stream_format
    \<Rightarrow> 'c gen_args" where
  "platform_args f u sf = \<lparr>format_chunk = f, extract_usage = u, fmt = sf, has_on_no_usage = True, has_on_incomplete = True,
     cb = (\<lambda>_ _. Returns)\<rparr>"

text \<open>All reports of a streamed request: the queued ones and those of the committed stream.\<close>

definition streamed_reports :: "'c gen_args \<Rightarrow> 'c hybrid_stream \<Rightarrow> resume list \<Rightarrow> report list" where
  "streamed_reports A h rs = (case hs_outcome h of
     Inl x \<Rightarrow> hs_flushed h
   | Inr (a, ps) \<Rightarrow> concat (map (platform_event a) (events (fst (streaming_generator A ps rs)))) @ hs_queued h)"

section \<open>The error answer\<close>

definition failure_view :: "(exn \<Rightarrow> platform_exn) \<Rightarrow> failure_exn \<Rightarrow> platform_exn" where
  "failure_view view x = (case x of
     Raised e \<Rightarrow> view e
   | Timeout_Error \<Rightarrow> timeout_exn
   | No_Attempts \<Rightarrow> \<lparr>exn_message = ''iterate_streaming_attempts: no attempts provided'', exn_is_timeout = False, exn_status = None,
       exn_response_status = None, exn_is_network = False, exn_is_cancelled = False\<rparr>)"

text \<open>The chat route's answer when every one of \<open>n\<close> attempts failed.\<close>

definition streaming_failure_answer :: "adapter \<Rightarrow> nat \<Rightarrow> platform_exn \<Rightarrow> http_exception" where
  "streaming_failure_answer A n x =
     (if (\<exists>d. classify_provider_error (upstream x) = Some (400, d)) \<or> n \<le> 1 then provider_error A (upstream x)
      else if exn_is_timeout x then http_error 504 ''All upstream providers timed out''
      else http_error 502 ''All upstream providers failed'')"

section \<open>Lemmas\<close>

lemma iterate_prefix:
  "case result (iterate_streaming_attempts run classify (\<lambda>_ _. None) x0 as) of
     Inr (a, ps) \<Rightarrow> \<exists>post. as = map fst (failures (iterate_streaming_attempts run classify (\<lambda>_ _. None) x0 as)) @ a # post
   | Inl x \<Rightarrow> \<exists>post. as = map fst (failures (iterate_streaming_attempts run classify (\<lambda>_ _. None) x0 as)) @ post"
proof (induction as arbitrary: x0)
  case (Cons a as)
  show ?case
  proof (cases "failure_of classify (run a)")
    case None
    then show ?thesis by (simp add: iterate_step del: iterate_streaming_attempts.simps)
  next
    case (Some f)
    then show ?thesis using Cons.IH[of "failure_exception f"]
      by (auto simp: iterate_step after_failure_def record_failure_def stop_with_def simp del: iterate_streaming_attempts.simps
          split: sum.splits prod.splits)
  qed
qed simp

lemma attempt_report_simps [simp]: "rep_attempt (attempt_report af) = fst af" "\<not> rep_success (attempt_report af)"
  by (simp_all add: attempt_report_def)

lemma platform_settles:
  "\<exists>ev. events (fst (streaming_generator (platform_args f u sf) ps rs)) = [ev]"
  using generator_events[of "platform_args f u sf" ps rs "fst (streaming_generator (platform_args f u sf) ps rs)"
      "snd (streaming_generator (platform_args f u sf) ps rs)"]
  by (auto simp: platform_args_def)

lemma platform_patient:
  assumes "readable (platform_args f u sf) cs"
  shows "events (fst (streaming_generator (platform_args f u sf) (map Chunk cs) [])) =
    [if usages (platform_args f u sf) cs = [] then On_No_Usage
     else On_Complete (foldl merge_usage zero_usage (usages (platform_args f u sf) cs))]"
  using generator_patient(2)[OF assms] by (simp add: platform_args_def)

section \<open>Properties\<close>

text \<open>The attempts of a streamed hybrid request are tried in order: if one commits, exactly the attempts
  before it failed and one error report per failure is queued; if none does, the reports of the attempts that
  were tried are flushed instead, unless the request was cancelled, and the tool backend is closed.\<close>

theorem streaming_fallback_reports:
  assumes "h = run_streaming_with_fallback view enter run as"
  shows "case hs_outcome h of
      Inr (a, ps) \<Rightarrow> (\<exists>post. as = map rep_attempt (hs_queued h) @ a # post) \<and> hs_flushed h = [] \<and> \<not> hs_backend_closed h
    | Inl x \<Rightarrow> (\<exists>post. as = map rep_attempt (hs_flushed h) @ post) \<and> hs_queued h = [] \<and> hs_backend_closed h"
  using iterate_prefix[where run = run and classify = "classify_upstream_error \<circ> view" and ?x0.0 = No_Attempts and as = as]
  by (auto simp: assms run_streaming_with_fallback_def Let_def try_streams_def comp_def[of rep_attempt]
      split: option.splits sum.splits)

definition two_attempts :: "resolved_attempt \<Rightarrow> int attempt_run" where
  "two_attempts a = (if attempt_id a = ''a'' then First_Timeout else Yields 7 [])"

lemma streaming_fallback_reports_witness:
  "map rep_attempt (hs_queued (run_streaming_with_fallback (\<lambda>_. cancelled_exn) None two_attempts
     [sample_attempt ''a'' 0, sample_attempt ''b'' 1])) = [sample_attempt ''a'' 0]"
  using streaming_fallback_reports[OF refl, where view = "\<lambda>_. cancelled_exn" and enter = None and run = two_attempts
      and as = "[sample_attempt ''a'' 0, sample_attempt ''b'' 1]"]
  by (auto simp: run_streaming_with_fallback_def try_streams_def two_attempts_def sample_attempt_def record_failure_def
      after_failure_def Let_def)

text \<open>However provider and client behave, the committed attempt of a hybrid stream is reported to the
  platform at most once, besides the failures before it. Read to its end it is reported as a success with the
  merged usage, except when the provider sent no usage: then no report is made at all.\<close>

theorem committed_attempt_reported:
  assumes "hs_outcome h = Inr (a, ps)"
  shows "(\<exists>rep. streamed_reports (platform_args f u sf) h rs = rep @ hs_queued h \<and> length rep \<le> 1
      \<and> (\<forall>r \<in> set rep. rep_attempt r = a))
    \<and> (ps = map Chunk cs \<longrightarrow> readable (platform_args f u sf) cs \<longrightarrow>
        streamed_reports (platform_args f u sf) h [] =
          (if usages (platform_args f u sf) cs = [] then []
           else [Report a True (Some (foldl merge_usage zero_usage (usages (platform_args f u sf) cs))) None]) @ hs_queued h)"
proof -
  obtain ev where "events (fst (streaming_generator (platform_args f u sf) ps rs)) = [ev]" using platform_settles by blast
  then have "streamed_reports (platform_args f u sf) h rs = platform_event a ev @ hs_queued h"
    using assms by (simp add: streamed_reports_def)
  then show ?thesis using assms platform_patient[of f u sf cs]
    by (auto simp: streamed_reports_def platform_event_def split: event.splits)
qed

lemma committed_attempt_reported_witness:
  "streamed_reports (platform_args (\<lambda>_. Inr ''x'') (\<lambda>_. Inr None) openai_stream_format)
     (run_streaming_with_fallback (\<lambda>_. cancelled_exn) None (\<lambda>_. Yields (7::int) []) [sample_attempt ''a'' 0]) [] = []"
proof -
  let ?h = "run_streaming_with_fallback (\<lambda>_. cancelled_exn) None (\<lambda>_. Yields (7::int) []) [sample_attempt ''a'' 0]"
  have h: "hs_outcome ?h = Inr (sample_attempt ''a'' 0, map Chunk [7])" "hs_queued ?h = []"
    by (simp_all add: run_streaming_with_fallback_def try_streams_def stitched_def)
  show ?thesis
    using committed_attempt_reported[OF h(1), of "\<lambda>_. Inr ''x''" "\<lambda>_. Inr None" openai_stream_format "[]" "[7]"]
    by (simp add: h(2) platform_args_def)
qed

end
