(* ===== verification/Serve_Stream.thy ===== *)
theory Serve_Stream
  imports Serve Format_Streams Hybrid_Stream
begin

text \<open>
  The rest of the three completion handlers: streaming in standalone mode (\<open>open_stream\<close> and
  \<open>run_single_attempt_stream\<close> of \<open>api/routes/_pipeline.py\<close>) and both paths in hybrid mode
  (\<open>run_streaming_with_fallback\<close>, \<open>run_platform_non_stream\<close> and the handlers' error mapping in \<open>chat.py\<close>,
  \<open>messages.py\<close>, \<open>responses.py\<close>). Tool choice, backends, loops, attempts and settlement are those of the
  earlier theories.

  \<open>ask\<close> is now a call with \<open>stream\<close> set: it raises, or gives the pulls of its stream. \<open>view\<close> has the attributes of
  an exception by its message, \<open>slow\<close> says which attempts exceed the first-chunk timeout.
\<close>

section \<open>Opening a stream\<close>

text \<open>The MCP pool is dialled inside the stream, the other backends before it.\<close>

definition open_stream :: "backends \<Rightarrow> mcp_server_config tool_context \<Rightarrow> (string \<Rightarrow> upstream_exn)
    \<Rightarrow> (string, 'c pull list) result \<Rightarrow> (tool_pool \<Rightarrow> (string \<times> string) list \<Rightarrow> 'c pull list) \<Rightarrow> 'c opened" where
  "open_stream W tc exn_of plain loop = (case open_backend W tc of
     Plain_Call \<Rightarrow> (case plain of Inr ps \<Rightarrow> Opened ps | Inl x \<Rightarrow> Open_Failed (exn_of x))
   | Opened_Pool B hints \<Rightarrow> Opened (loop B hints)
   | Sandbox_Unreachable \<Rightarrow> Open_Sandbox_Down
   | Dial_Failed x \<Rightarrow> Opened [Upstream (Exc (exn_message x))])"

text \<open>A format's streams: the plain call and the tool loop, given the keyword arguments.\<close>

record 'c format_streams =
  fs_plain :: "(string, json) dict \<Rightarrow> (string, 'c pull list) result"
  fs_loop :: "(string, json) dict \<Rightarrow> tool_pool \<Rightarrow> (string \<times> string) list \<Rightarrow> 'c pull list"

definition with_stream :: "(string, json) dict \<Rightarrow> (string, json) dict" where
  "with_stream kw = AList.update ''stream'' (JBool True) kw"

definition chat_streams :: "backends \<Rightarrow> mcp_server_config tool_context \<Rightarrow> (string \<Rightarrow> json option)
    \<Rightarrow> ((string, json) dict \<Rightarrow> nat \<Rightarrow> json list \<Rightarrow> json list \<Rightarrow> (string, chat_chunk pull list) result)
    \<Rightarrow> chat_chunk format_streams" where
  "chat_streams W tc loads ask = \<lparr>
     fs_plain = (\<lambda>kw. let kw' = prepare_stream_kwargs kw in
       ask kw' 0 (list_kwarg ''tools'' kw') (list_kwarg ''messages'' kw')),
     fs_loop = (\<lambda>kw B hints. let kw' = prepare_stream_kwargs kw in
       sr_out (mcp_tool_loop_stream B loads (ask kw') (nat (tc_max_iterations tc)) (list_kwarg ''tools'' kw')
         (inject_purpose_hints (bk_text W) (bk_vars W) (list_kwarg ''messages'' kw') hints (tc_tools_header tc))))\<rparr>"

definition message_streams :: "backends \<Rightarrow> mcp_server_config tool_context \<Rightarrow> (string \<Rightarrow> json option)
    \<Rightarrow> ((string, json) dict \<Rightarrow> nat \<Rightarrow> json list \<Rightarrow> json list \<Rightarrow> (string, message_event pull list) result)
    \<Rightarrow> message_event format_streams" where
  "message_streams W tc loads ask = \<lparr>
     fs_plain = (\<lambda>kw. ask (with_stream kw) 0 (list_kwarg ''tools'' kw) (list_kwarg ''messages'' kw)),
     fs_loop = (\<lambda>kw B hints. er_out (anthropic_tool_loop_stream B loads
       (ask (inject_purpose_hints_anthropic (bk_vars W) (with_stream kw) hints (tc_tools_header tc)))
       (nat (tc_max_iterations tc)) (list_kwarg ''tools'' kw) (list_kwarg ''messages'' kw)))\<rparr>"

definition response_streams :: "backends \<Rightarrow> mcp_server_config tool_context \<Rightarrow> (string \<Rightarrow> json option)
    \<Rightarrow> ((string, json) dict \<Rightarrow> nat \<Rightarrow> json list \<Rightarrow> json list \<Rightarrow> (string, response_event pull list) result)
    \<Rightarrow> response_event format_streams" where
  "response_streams W tc loads ask = \<lparr>
     fs_plain = (\<lambda>kw. ask (with_stream kw) 0 (list_kwarg ''tools'' kw) (coerce_input (map_of kw ''input_data''))),
     fs_loop = (\<lambda>kw B hints. er_out (responses_tool_loop_stream B loads
       (ask (inject_purpose_hints_responses (bk_vars W) (with_stream kw) hints (tc_tools_header tc)))
       (nat (tc_max_iterations tc)) (list_kwarg ''tools'' kw) (map_of kw ''input_data'')))\<rparr>"

definition open_format_stream :: "backends \<Rightarrow> mcp_server_config tool_context \<Rightarrow> (string \<Rightarrow> upstream_exn)
    \<Rightarrow> 'c format_streams \<Rightarrow> (string, json) dict \<Rightarrow> 'c opened" where
  "open_format_stream W tc exn_of S kw = open_stream W tc exn_of (fs_plain S kw) (fs_loop S kw)"

section \<open>The response\<close>

definition streaming_headers :: "rate_limit_info option \<Rightarrow> string option \<Rightarrow> string option \<Rightarrow> (string, string) dict" where
  "streaming_headers info cid rid = (case info of None \<Rightarrow> [] | Some i \<Rightarrow> rate_limit_headers i)
     @ (case nonempty_str cid of Some c \<Rightarrow> [(''X-Correlation-ID'', c)] | None \<Rightarrow> [])
     @ (case nonempty_str rid of Some r \<Rightarrow> [(''X-Otari-Request-ID'', r)] | None \<Rightarrow> [])"

text \<open>One attempt, its response consumed as \<open>rs\<close> says.\<close>

definition serve_stream :: "pipeline \<Rightarrow> adapter \<Rightarrow> request_context \<Rightarrow> rate_limit_info option \<Rightarrow> string option \<Rightarrow> string
    \<Rightarrow> string option \<Rightarrow> string option \<Rightarrow> instant \<Rightarrow> 'c gen_args \<Rightarrow> resume list \<Rightarrow> 'c opened \<Rightarrow> gateway
    \<Rightarrow> gateway \<times> (pipe_error, (string, string) dict) result" where
  "serve_stream P A ctx info provider model cid rid now G rs op g =
     (case run_single_attempt_stream P A ctx provider model cid now op (gw_server g) of
        (s, Inl e) \<Rightarrow> (g\<lparr>gw_server := s\<rparr>, Inl e)
      | (s, Inr (T, ps)) \<Rightarrow> (g\<lparr>gw_server := run_response P A T G ps rs s\<rparr>, Inr (streaming_headers info cid rid)))"

text \<open>What the routes' generators know of a chunk; the rendering \<open>f\<close> of chunks is a parameter.\<close>

definition message_args :: "(message_event \<Rightarrow> (string, string) result) \<Rightarrow> message_event gen_args" where
  "message_args f = \<lparr>format_chunk = f, extract_usage = messages_stream_usage, fmt = anthropic_stream_format,
     has_on_no_usage = True, has_on_incomplete = True, cb = (\<lambda>_ _. Returns)\<rparr>"

definition response_args :: "(response_event \<Rightarrow> (string, string) result) \<Rightarrow> response_event gen_args" where
  "response_args f = \<lparr>format_chunk = f, extract_usage = responses_stream_usage, fmt = responses_stream_format,
     has_on_no_usage = True, has_on_incomplete = True, cb = (\<lambda>_ _. Returns)\<rparr>"

section \<open>Standalone streaming\<close>

definition stream_chat :: "pipeline \<Rightarrow> auth_config \<Rightarrow> backends \<Rightarrow> normalize_hook option
    \<Rightarrow> mcp_server_config tool_env \<Rightarrow> request \<Rightarrow> mcp_server_config tool_request \<Rightarrow> (string, json) dict
    \<Rightarrow> (string \<Rightarrow> upstream_exn) \<Rightarrow> (string \<Rightarrow> json option)
    \<Rightarrow> ((string, json) dict \<Rightarrow> nat \<Rightarrow> json list \<Rightarrow> json list \<Rightarrow> (string, chat_chunk pull list) result)
    \<Rightarrow> resume list \<Rightarrow> instant \<Rightarrow> gateway \<Rightarrow> gateway \<times> (pipe_error, (string, string) dict) result" where
  "stream_chat P C W hook E q tq body exn_of loads ask rs now g =
     (if py_strip (req_model q) = [] then (g, Inl (Pipe_Http (http_error 400 ''Invalid request: model is required'')))
      else (case resolve_request_context P C chat_adapter master_key_user_required user_forbidden None True hook q g of
          (g1, Inl e) \<Rightarrow> (g1, Inl e)
        | (g1, Inr (ctx, info)) \<Rightarrow> with_tools chat_adapter ctx E tq g1 (\<lambda>tc g2.
            case resolve_provider_selector (pcfg P) (req_model q) of
              Inl e \<Rightarrow> (g2, Inl Pipe_Crash)
            | Inr r \<Rightarrow> serve_stream P chat_adapter ctx info (Some (instance_name r)) (model_name r) None None now
                (chat_args (\<lambda>_ _. Returns)) rs
                (open_format_stream W tc exn_of (chat_streams W tc loads ask) (chat_kwargs r tc body)) g2)))"

definition stream_message :: "pipeline \<Rightarrow> auth_config \<Rightarrow> backends \<Rightarrow> normalize_hook option
    \<Rightarrow> mcp_server_config tool_env \<Rightarrow> request \<Rightarrow> mcp_server_config tool_request \<Rightarrow> (string, json) dict
    \<Rightarrow> (string \<Rightarrow> upstream_exn) \<Rightarrow> (string \<Rightarrow> json option)
    \<Rightarrow> ((string, json) dict \<Rightarrow> nat \<Rightarrow> json list \<Rightarrow> json list \<Rightarrow> (string, message_event pull list) result)
    \<Rightarrow> (message_event \<Rightarrow> (string, string) result) \<Rightarrow> resume list \<Rightarrow> instant
    \<Rightarrow> gateway \<Rightarrow> gateway \<times> (pipe_error, (string, string) dict) result" where
  "stream_message P C W hook E q tq body exn_of loads ask f rs now g =
     (case resolve_request_context P C messages_adapter messages_user_required messages_user_forbidden None True hook q g of
        (g1, Inl e) \<Rightarrow> (g1, Inl (enveloped e))
      | (g1, Inr (ctx, info)) \<Rightarrow> with_tools messages_adapter ctx E tq g1 (\<lambda>tc g2.
          case resolve_provider_selector (pcfg P) (req_model q) of
            Inl e \<Rightarrow> (g2, Inl Pipe_Crash)
          | Inr r \<Rightarrow> serve_stream P messages_adapter ctx info (Some (instance_name r)) (model_name r) None None now
              (message_args f) rs
              (open_format_stream W tc exn_of (message_streams W tc loads ask) (messages_kwargs r tc body)) g2))"

definition stream_response :: "pipeline \<Rightarrow> auth_config \<Rightarrow> backends \<Rightarrow> (string \<Rightarrow> bool) \<Rightarrow> normalize_hook option
    \<Rightarrow> mcp_server_config tool_env \<Rightarrow> request \<Rightarrow> json option \<Rightarrow> mcp_server_config tool_request \<Rightarrow> (string, json) dict
    \<Rightarrow> (string \<Rightarrow> upstream_exn) \<Rightarrow> (string \<Rightarrow> json option)
    \<Rightarrow> ((string, json) dict \<Rightarrow> nat \<Rightarrow> json list \<Rightarrow> json list \<Rightarrow> (string, response_event pull list) result)
    \<Rightarrow> (response_event \<Rightarrow> (string, string) result) \<Rightarrow> resume list \<Rightarrow> instant
    \<Rightarrow> gateway \<Rightarrow> gateway \<times> (pipe_error, (string, string) dict) result" where
  "stream_response P C W supports hook E q max_output tq body exn_of loads ask f rs now g =
     (case resolve_request_context P C responses_adapter master_key_user_required user_forbidden None True hook
         (q\<lparr>max_output_tokens := trusted_max_output max_output\<rparr>) g of
        (g1, Inl e) \<Rightarrow> (g1, Inl e)
      | (g1, Inr (ctx, info)) \<Rightarrow>
          (case resolve_provider_selector (pcfg P) (req_model q) of
             Inl e \<Rightarrow> (g1, Inl Pipe_Crash)
           | Inr r \<Rightarrow>
               if \<not> supports (provider_impl r)
               then (case raise_after (release_reservation ctx (gw_server g1)) (responses_unsupported (provider_impl r)) of
                 (s, x) \<Rightarrow> (g1\<lparr>gw_server := s\<rparr>, x))
               else with_tools responses_adapter ctx E tq g1 (\<lambda>tc g2.
                 serve_stream P responses_adapter ctx info (Some (instance_name r)) (model_name r) None None now
                   (response_args f) rs
                   (open_format_stream W tc exn_of (response_streams W tc loads ask)
                     (responses_kwargs r (req_user ctx) tc body)) g2)))"

section \<open>Hybrid mode: the stream with fallback\<close>

definition first_pull :: "bool \<Rightarrow> 'c pull list \<Rightarrow> 'c attempt_run" where
  "first_pull too_slow ps = (if too_slow then First_Timeout else (case ps of
     [] \<Rightarrow> Ends_Empty | Upstream x # _ \<Rightarrow> First_Raises x | Chunk c # ps' \<Rightarrow> Yields c ps'))"

text \<open>\<open>LLMProvider(v)\<close> is \<open>llm v\<close>; \<open>pool\<close> is the tool backend all attempts share.\<close>

definition attempt_stream :: "(string \<Rightarrow> string option) \<Rightarrow> (resolved_attempt \<Rightarrow> string \<Rightarrow> (string, json) dict)
    \<Rightarrow> (resolved_attempt \<Rightarrow> bool) \<Rightarrow> (resolved_attempt \<Rightarrow> 'c format_streams)
    \<Rightarrow> (tool_pool \<times> (string \<times> string) list) option \<Rightarrow> resolved_attempt \<Rightarrow> 'c attempt_run" where
  "attempt_stream llm kwargs_of slow S pool a = (case llm (att_provider a) of
     None \<Rightarrow> Build_Raises (Exc (quoted (att_provider a) @ '' is not a valid LLMProvider''))
   | Some p \<Rightarrow> (case pool of
       None \<Rightarrow> (case fs_plain (S a) (kwargs_of a p) of
           Inl x \<Rightarrow> Build_Raises (Exc x) | Inr ps \<Rightarrow> first_pull (slow a) ps)
     | Some (B, hints) \<Rightarrow> first_pull (slow a) (fs_loop (S a) (kwargs_of a p) B hints)))"

text \<open>The answer when no attempt yields a chunk; \<open>err\<close> builds the format's aggregate error.\<close>

definition fallback_failure :: "(nat \<Rightarrow> string \<Rightarrow> http_exception) \<Rightarrow> adapter \<Rightarrow> nat \<Rightarrow> platform_exn \<Rightarrow> http_exception" where
  "fallback_failure err A n x =
     (if (\<exists>d. classify_provider_error (upstream x) = Some (400, d)) \<or> n \<le> 1 then provider_error A (upstream x)
      else if exn_is_timeout x then err 504 ''All upstream providers timed out''
      else err 502 ''All upstream providers failed'')"

definition as_platform_exn :: "upstream_exn \<Rightarrow> platform_exn" where
  "as_platform_exn x = upstream_exn.extend x \<lparr>exn_is_network = False, exn_is_cancelled = False\<rparr>"

text \<open>What reaches the platform of a report: the attempt and its outcome.\<close>

definition deliver :: "report list \<Rightarrow> gateway \<Rightarrow> gateway" where
  "deliver rs g = g\<lparr>gw_server := (gw_server g)\<lparr>reports := reports (gw_server g)
     @ map (\<lambda>r. (attempt_id (rep_attempt r), if rep_success r then ''success'' else ''error'')) rs\<rparr>\<rparr>"

definition committed_or_failed :: "adapter \<Rightarrow> (nat \<Rightarrow> string \<Rightarrow> http_exception) \<Rightarrow> (exn \<Rightarrow> platform_exn)
    \<Rightarrow> rate_limit_info option \<Rightarrow> resolved_route \<Rightarrow> 'c hybrid_stream \<Rightarrow> (pipe_error, (string, string) dict) result" where
  "committed_or_failed A err view info route h = (case hs_outcome h of
     Inl x \<Rightarrow> Inl (if x = Raised Cancelled_Error then Pipe_Crash
       else Pipe_Http (fallback_failure err A (length (attempts route)) (failure_view view x)))
   | Inr (a, ps) \<Rightarrow> Inr (streaming_headers info (Some (attempt_id a)) (Some (request_id route))))"

definition stream_with_fallback :: "backends \<Rightarrow> mcp_server_config tool_context \<Rightarrow> adapter
    \<Rightarrow> (nat \<Rightarrow> string \<Rightarrow> http_exception) \<Rightarrow> (exn \<Rightarrow> platform_exn)
    \<Rightarrow> ((tool_pool \<times> (string \<times> string) list) option \<Rightarrow> resolved_attempt \<Rightarrow> 'c attempt_run)
    \<Rightarrow> 'c gen_args \<Rightarrow> resume list \<Rightarrow> rate_limit_info option \<Rightarrow> resolved_route \<Rightarrow> gateway
    \<Rightarrow> gateway \<times> (pipe_error, (string, string) dict) result" where
  "stream_with_fallback W tc A err view run G rs info route g =
     (if attempts route = [] then (g, Inl (Pipe_Http (mk_error A 502 no_resolvable_provider_detail Api)))
      else let commit = (\<lambda>pool. let h = run_streaming_with_fallback view None (run pool) (attempts route)
               in (deliver (streamed_reports G h rs) g, committed_or_failed A err view info route h))
        in (case open_backend W tc of
          Plain_Call \<Rightarrow> commit None
        | Opened_Pool B hints \<Rightarrow> commit (Some (B, hints))
        | Sandbox_Unreachable \<Rightarrow> (g, Inl (Pipe_Http (err 502 sandbox_unreachable_detail)))
        | Dial_Failed x \<Rightarrow> (g, Inl (Pipe_Http (fallback_failure err A (length (attempts route)) (as_platform_exn x))))))"

section \<open>Hybrid mode: keyword arguments\<close>

definition chat_fields :: "'m tool_context \<Rightarrow> (string, json) dict \<Rightarrow> (string, json) dict" where
  "chat_fields tc body = strip_gateway_fields (tools_extracted tc) (tc_remaining_tools tc) body"

definition message_fields :: "'m tool_context \<Rightarrow> (string, json) dict \<Rightarrow> (string, json) dict" where
  "message_fields tc body = convert_tools openai_to_anthropic_tools (chat_fields tc body)"

text \<open>In hybrid mode neither the user nor the provider is among the fields.\<close>

definition response_fields :: "'m tool_context \<Rightarrow> (string, json) dict \<Rightarrow> (string, json) dict" where
  "response_fields tc body = (let d = convert_tools openai_to_responses_tools (chat_fields tc body) in
     opt_json_field ''input_data'' (map_of d ''input'') (dict_remove {''input'', ''stream'', ''model'', ''user''} d))"

definition response_attempt_kwargs :: "resolved_attempt \<Rightarrow> string \<Rightarrow> (string, json) dict \<Rightarrow> (string, json) dict" where
  "response_attempt_kwargs a p base = AList.update ''provider'' (JStr p) (AList.update ''model'' (JStr (att_model a))
     (dict_merge (attempt_credentials a) (dict_remove {''provider''} base)))"

text \<open>\<open>prepare_platform_call_kwargs\<close> of the Responses adapter.\<close>

definition split_model_kwarg :: "(string, json) dict \<Rightarrow> (string, json) dict" where
  "split_model_kwarg kw = (case map_of kw ''model'' of
     Some (JStr m) \<Rightarrow> (case split_once (CHR '':'') m of
       Some (p, n) \<Rightarrow> AList.update ''provider'' (JStr p) (AList.update ''model'' (JStr n) (dict_remove {''model''} kw))
     | None \<Rightarrow> kw) | _ \<Rightarrow> kw)"

section \<open>Hybrid mode: the plain call\<close>

text \<open>One attempt of the walk: whether the tool loop got its first answer, and how the attempt ended. Whatever
  the backend raises, also when it is opened, is raised by the attempt.\<close>

definition attempt_dispatch :: "backends \<Rightarrow> mcp_server_config tool_context \<Rightarrow> (string \<Rightarrow> platform_exn)
    \<Rightarrow> (string, 'r) result \<Rightarrow> (tool_pool \<Rightarrow> (string \<times> string) list \<Rightarrow> 'r loop_run) \<Rightarrow> bool \<times> (attempt_exn, 'r) result" where
  "attempt_dispatch W tc view plain loop = (case open_backend W tc of
     Plain_Call \<Rightarrow> (False, (case plain of Inr r \<Rightarrow> Inr r | Inl x \<Rightarrow> Inl (Raised_Other (view x))))
   | Opened_Pool B hints \<Rightarrow> (lr_answers (loop B hints) \<noteq> [], (case lr_end (loop B hints) of
       Loop_Done r \<Rightarrow> Inr r
     | Loop_Exceeded \<Rightarrow> Inl (Raised_Max_Iterations (''Exceeded max_tool_iterations='' @ str_int (tc_max_iterations tc)))
     | Loop_Failed x \<Rightarrow> Inl (Raised_Other (view x))
     | Loop_Cancelled \<Rightarrow> Inl (Raised_Other cancelled_exn)))
   | Sandbox_Unreachable \<Rightarrow> (False, Inl (Raised_Other (view ''SandboxNotReachableError'')))
   | Dial_Failed x \<Rightarrow> (False, Inl (Raised_Other (as_platform_exn x))))"

definition walk_answer :: "(http_exception \<Rightarrow> http_exception) \<Rightarrow> rate_limit_info option \<Rightarrow> 'r platform_reply_of
    \<Rightarrow> gateway \<Rightarrow> gateway \<times> (pipe_error, 'r \<times> (string, string) dict) result" where
  "walk_answer env_of info w g = (deliver (pr_sent w) g, (case pr_result w of
     Inr r \<Rightarrow> Inr (r, (case pr_correlation w of Some c \<Rightarrow> [(''X-Correlation-ID'', c)] | None \<Rightarrow> [])
       @ (case info of None \<Rightarrow> [] | Some i \<Rightarrow> rate_limit_headers i))
   | Inl (Walk_Http e) \<Rightarrow> Inl (Pipe_Http (env_of e))
   | Inl (Walk_Crash m) \<Rightarrow> Inl Pipe_Crash))"

section \<open>Hybrid mode: the handlers\<close>

text \<open>Preamble and tool choice, the route being resolved by the platform.\<close>

definition hybrid_request :: "pipeline \<Rightarrow> auth_config \<Rightarrow> adapter \<Rightarrow> string \<Rightarrow> string \<Rightarrow> (http_exception, resolved_route) result
    \<Rightarrow> request \<Rightarrow> (pipe_error \<Rightarrow> pipe_error)
    \<Rightarrow> (request_context \<Rightarrow> rate_limit_info option \<Rightarrow> resolved_route \<Rightarrow> gateway \<Rightarrow> gateway \<times> (pipe_error, 'r) result)
    \<Rightarrow> gateway \<Rightarrow> gateway \<times> (pipe_error, 'r) result" where
  "hybrid_request P C A md fd plat q f k g =
     (case resolve_request_context P C A md fd (Some (map_sum id request_id plat)) True None q g of
        (g1, Inl e) \<Rightarrow> (g1, Inl (f e))
      | (g1, Inr (ctx, info)) \<Rightarrow> (case plat of
          Inl e \<Rightarrow> (g1, Inl (Pipe_Http e)) | Inr route \<Rightarrow> k ctx info route g1))"

text \<open>Streaming a tool loop in the Messages and Responses formats: the first attempt only.\<close>

definition stream_first_attempt :: "pipeline \<Rightarrow> adapter \<Rightarrow> request_context \<Rightarrow> rate_limit_info option
    \<Rightarrow> (string \<Rightarrow> string option) \<Rightarrow> (resolved_attempt \<Rightarrow> string \<Rightarrow> 'c opened) \<Rightarrow> instant \<Rightarrow> 'c gen_args \<Rightarrow> resume list
    \<Rightarrow> resolved_route \<Rightarrow> gateway \<Rightarrow> gateway \<times> (pipe_error, (string, string) dict) result" where
  "stream_first_attempt P A ctx info llm op now G rs route g = (case attempts route of
     [] \<Rightarrow> (g, Inl (Pipe_Http (mk_error A 502 no_resolvable_provider_detail Api)))
   | a # _ \<Rightarrow> (case llm (att_provider a) of
       None \<Rightarrow> (g, Inl Pipe_Crash)
     | Some p \<Rightarrow> serve_stream P A ctx info (Some p) (att_model a) (Some (attempt_id a)) (Some (request_id route)) now G rs
         (op a p) g))"

record hybrid_env =
  he_pipeline :: pipeline
  he_auth :: auth_config
  he_backends :: backends
  he_tools :: "mcp_server_config tool_env"
  he_llm :: "string \<Rightarrow> string option"
  he_view :: "string \<Rightarrow> platform_exn"
  he_slow :: "resolved_attempt \<Rightarrow> bool"
  he_loads :: "string \<Rightarrow> json option"

definition view_of :: "hybrid_env \<Rightarrow> exn \<Rightarrow> platform_exn" where
  "view_of H x = (case x of Exc m \<Rightarrow> he_view H m | Cancelled_Error \<Rightarrow> cancelled_exn)"

definition hybrid_stream_chat :: "hybrid_env \<Rightarrow> (http_exception, resolved_route) result \<Rightarrow> request
    \<Rightarrow> mcp_server_config tool_request \<Rightarrow> (string, json) dict
    \<Rightarrow> (resolved_attempt \<Rightarrow> (string, json) dict \<Rightarrow> nat \<Rightarrow> json list \<Rightarrow> json list \<Rightarrow> (string, chat_chunk pull list) result)
    \<Rightarrow> resume list \<Rightarrow> gateway \<Rightarrow> gateway \<times> (pipe_error, (string, string) dict) result" where
  "hybrid_stream_chat H plat q tq body ask rs g =
     (if py_strip (req_model q) = [] then (g, Inl (Pipe_Http (http_error 400 ''Invalid request: model is required'')))
      else hybrid_request (he_pipeline H) (he_auth H) chat_adapter master_key_user_required user_forbidden plat q (\<lambda>e. e)
        (\<lambda>ctx info route g1. with_tools chat_adapter ctx (he_tools H) tq g1 (\<lambda>tc g2.
          stream_with_fallback (he_backends H) tc chat_adapter http_error (view_of H)
            (attempt_stream (he_llm H) (\<lambda>a p. default_attempt_kwargs a p (chat_fields tc body)) (he_slow H)
              (\<lambda>a. chat_streams (he_backends H) tc (he_loads H) (ask a)))
            (chat_args (\<lambda>_ _. Returns)) rs info route g2)) g)"

definition hybrid_stream_message :: "hybrid_env \<Rightarrow> (http_exception, resolved_route) result \<Rightarrow> request
    \<Rightarrow> mcp_server_config tool_request \<Rightarrow> (string, json) dict
    \<Rightarrow> (resolved_attempt \<Rightarrow> (string, json) dict \<Rightarrow> nat \<Rightarrow> json list \<Rightarrow> json list \<Rightarrow> (string, message_event pull list) result)
    \<Rightarrow> (message_event \<Rightarrow> (string, string) result) \<Rightarrow> resume list \<Rightarrow> instant
    \<Rightarrow> gateway \<Rightarrow> gateway \<times> (pipe_error, (string, string) dict) result" where
  "hybrid_stream_message H plat q tq body ask f rs now g =
     hybrid_request (he_pipeline H) (he_auth H) messages_adapter messages_user_required messages_user_forbidden plat q enveloped
       (\<lambda>ctx info route g1. with_tools messages_adapter ctx (he_tools H) tq g1 (\<lambda>tc g2.
         let S = (\<lambda>a. message_streams (he_backends H) tc (he_loads H) (ask a));
             kwargs_of = (\<lambda>a p. default_attempt_kwargs a p (message_fields tc body))
         in if use_tool_loop tc
            then stream_first_attempt (he_pipeline H) messages_adapter ctx info (he_llm H)
              (\<lambda>a p. open_format_stream (he_backends H) tc (\<lambda>m. upstream (he_view H m)) (S a) (kwargs_of a p))
              now (message_args f) rs route g2
            else stream_with_fallback (he_backends H) tc messages_adapter (\<lambda>c d. anthropic_http_error ''api_error'' d c)
              (view_of H) (attempt_stream (he_llm H) kwargs_of (he_slow H) S) (message_args f) rs info route g2)) g"

text \<open>The Responses route first checks every attempt's provider.\<close>

fun first_unsupported :: "(string \<Rightarrow> string option) \<Rightarrow> (string \<Rightarrow> bool) \<Rightarrow> resolved_attempt list \<Rightarrow> pipe_error option" where
  "first_unsupported llm supports [] = None"
| "first_unsupported llm supports (a # as) = (case llm (att_provider a) of
     None \<Rightarrow> Some Pipe_Crash
   | Some p \<Rightarrow> if supports p then first_unsupported llm supports as else Some (Pipe_Http (responses_unsupported p)))"

definition hybrid_stream_response :: "hybrid_env \<Rightarrow> (string \<Rightarrow> bool) \<Rightarrow> (http_exception, resolved_route) result \<Rightarrow> request
    \<Rightarrow> mcp_server_config tool_request \<Rightarrow> (string, json) dict
    \<Rightarrow> (resolved_attempt \<Rightarrow> (string, json) dict \<Rightarrow> nat \<Rightarrow> json list \<Rightarrow> json list \<Rightarrow> (string, response_event pull list) result)
    \<Rightarrow> (response_event \<Rightarrow> (string, string) result) \<Rightarrow> resume list \<Rightarrow> instant
    \<Rightarrow> gateway \<Rightarrow> gateway \<times> (pipe_error, (string, string) dict) result" where
  "hybrid_stream_response H supports plat q tq body ask f rs now g =
     hybrid_request (he_pipeline H) (he_auth H) responses_adapter master_key_user_required user_forbidden plat q (\<lambda>e. e)
       (\<lambda>ctx info route g1. case first_unsupported (he_llm H) supports (attempts route) of
          Some e \<Rightarrow> (g1, Inl e)
        | None \<Rightarrow> with_tools responses_adapter ctx (he_tools H) tq g1 (\<lambda>tc g2.
         let S = (\<lambda>a. response_streams (he_backends H) tc (he_loads H) (ask a));
             kwargs_of = (\<lambda>a p. response_attempt_kwargs a p (response_fields tc body))
         in if use_tool_loop tc
            then stream_first_attempt (he_pipeline H) responses_adapter ctx info (he_llm H)
              (\<lambda>a p. open_format_stream (he_backends H) tc (\<lambda>m. upstream (he_view H m)) (S a) (kwargs_of a p))
              now (response_args f) rs route g2
            else stream_with_fallback (he_backends H) tc responses_adapter http_error
              (view_of H) (attempt_stream (he_llm H) kwargs_of (he_slow H) S) (response_args f) rs info route g2)) g"

text \<open>The plain call, walking the attempts; \<open>ask i\<close> are the calls of the \<open>i\<close>-th one.\<close>

definition walk_env :: "hybrid_env \<Rightarrow> ('r \<Rightarrow> usage option) \<Rightarrow> (nat \<Rightarrow> (string, json) dict \<Rightarrow> bool \<times> (attempt_exn, 'r) result)
    \<Rightarrow> 'r platform_env" where
  "walk_env H u run = \<lparr>provider_of = he_llm H, run_attempt = run, usage_of_result = u\<rparr>"

definition hybrid_chat :: "hybrid_env \<Rightarrow> (http_exception, resolved_route) result \<Rightarrow> request
    \<Rightarrow> mcp_server_config tool_request \<Rightarrow> (string, json) dict
    \<Rightarrow> (nat \<Rightarrow> (string, json) dict \<Rightarrow> nat \<Rightarrow> json list \<Rightarrow> json list \<Rightarrow> (string, completion) result)
    \<Rightarrow> gateway \<Rightarrow> gateway \<times> (pipe_error, completion \<times> (string, string) dict) result" where
  "hybrid_chat H plat q tq body ask g =
     (if py_strip (req_model q) = [] then (g, Inl (Pipe_Http (http_error 400 ''Invalid request: model is required'')))
      else hybrid_request (he_pipeline H) (he_auth H) chat_adapter master_key_user_required user_forbidden plat q (\<lambda>e. e)
        (\<lambda>ctx info route g1. with_tools chat_adapter ctx (he_tools H) tq g1 (\<lambda>tc g2.
          walk_answer (\<lambda>e. e) info (run_platform_non_stream (walk_env H chat_reply_usage (\<lambda>i kw.
            attempt_dispatch (he_backends H) tc (he_view H) (ask i kw 0 (list_kwarg ''tools'' kw) (list_kwarg ''messages'' kw))
              (\<lambda>B hints. mcp_tool_loop B (he_loads H) (ask i kw) (nat (tc_max_iterations tc)) (list_kwarg ''tools'' kw)
                (inject_purpose_hints (bk_text (he_backends H)) (bk_vars (he_backends H)) (list_kwarg ''messages'' kw) hints
                  (tc_tools_header tc)))))
            chat_adapter (chat_fields tc body) route) g2)) g)"

definition hybrid_message :: "hybrid_env \<Rightarrow> (http_exception, resolved_route) result \<Rightarrow> request
    \<Rightarrow> mcp_server_config tool_request \<Rightarrow> (string, json) dict
    \<Rightarrow> (nat \<Rightarrow> (string, json) dict \<Rightarrow> nat \<Rightarrow> json list \<Rightarrow> json list \<Rightarrow> (string, message_response) result)
    \<Rightarrow> gateway \<Rightarrow> gateway \<times> (pipe_error, message_response \<times> (string, string) dict) result" where
  "hybrid_message H plat q tq body ask g =
     hybrid_request (he_pipeline H) (he_auth H) messages_adapter messages_user_required messages_user_forbidden plat q enveloped
       (\<lambda>ctx info route g1. with_tools messages_adapter ctx (he_tools H) tq g1 (\<lambda>tc g2.
         walk_answer ensure_anthropic_error info (run_platform_non_stream (walk_env H message_reply_usage (\<lambda>i kw.
           attempt_dispatch (he_backends H) tc (he_view H) (ask i kw 0 (list_kwarg ''tools'' kw) (list_kwarg ''messages'' kw))
             (\<lambda>B hints. anthropic_tool_loop B
               (ask i (inject_purpose_hints_anthropic (bk_vars (he_backends H)) kw hints (tc_tools_header tc)))
               (nat (tc_max_iterations tc)) (list_kwarg ''tools'' kw) (list_kwarg ''messages'' kw))))
           messages_adapter (message_fields tc body) route) g2)) g"

definition hybrid_response :: "hybrid_env \<Rightarrow> (string \<Rightarrow> bool) \<Rightarrow> (http_exception, resolved_route) result \<Rightarrow> request
    \<Rightarrow> mcp_server_config tool_request \<Rightarrow> (string, json) dict
    \<Rightarrow> (nat \<Rightarrow> (string, json) dict \<Rightarrow> nat \<Rightarrow> json list \<Rightarrow> json list \<Rightarrow> (string, response_object) result)
    \<Rightarrow> gateway \<Rightarrow> gateway \<times> (pipe_error, response_object \<times> (string, string) dict) result" where
  "hybrid_response H supports plat q tq body ask g =
     hybrid_request (he_pipeline H) (he_auth H) responses_adapter master_key_user_required user_forbidden plat q (\<lambda>e. e)
       (\<lambda>ctx info route g1. case first_unsupported (he_llm H) supports (attempts route) of
          Some e \<Rightarrow> (g1, Inl e)
        | None \<Rightarrow> with_tools responses_adapter ctx (he_tools H) tq g1 (\<lambda>tc g2.
         walk_answer (\<lambda>e. e) info (run_platform_non_stream (walk_env H response_reply_usage (\<lambda>i kw0. let kw = split_model_kwarg kw0 in
           attempt_dispatch (he_backends H) tc (he_view H)
             (ask i kw 0 (list_kwarg ''tools'' kw) (coerce_input (map_of kw ''input_data'')))
             (\<lambda>B hints. responses_tool_loop B (he_loads H)
               (ask i (inject_purpose_hints_responses (bk_vars (he_backends H)) kw hints (tc_tools_header tc)))
               (nat (tc_max_iterations tc)) (list_kwarg ''tools'' kw) (map_of kw ''input_data''))))
           responses_adapter (response_fields tc body) route) g2)) g"

section \<open>Lemmas: holds\<close>

lemma serve_stream_holds:
  assumes "log_sink (log_put P)" "reservation ctx = Some h" "has_db ctx" "holds_extra h d0 (sdb (gw_server g))"
    and "serve_stream P A ctx info provider model None rid now G rs op g = (g', x)"
  shows "same_holds d0 (sdb (gw_server g'))"
proof (cases op)
  case (Opened ps)
  let ?T = "\<lparr>ss_ctx = ctx, ss_provider = provider, ss_model = model, ss_has_writer = True, ss_correlation = None, ss_now = now\<rparr>"
  from response_settles[OF assms(1), of ?T h d0 "gw_server g" A G ps rs] assms(2-5) Opened show ?thesis
    by (auto simp: serve_stream_def run_single_attempt_stream_def)
qed (use assms(5) raise_after_refunded[OF release_refunds[OF assms(2-4)]]
      raise_after_refunded[OF log_failure_refunds[OF assms(1-4)]]
    in \<open>fastforce simp: serve_stream_def run_single_attempt_stream_def split: prod.splits sum.splits\<close>)+

lemma selected_stream_holds:
  assumes "log_sink (log_put P)" "reservation ctx = Some h" "has_db ctx" "holds_extra h d0 (sdb (gw_server g))"
    and "(case resolve_provider_selector C m of Inl e \<Rightarrow> (g, Inl Pipe_Crash)
      | Inr r \<Rightarrow> serve_stream P A ctx info (Some (instance_name r)) (model_name r) None rid now G rs (op r) g) = (g', x)"
    and "x \<noteq> Inl Pipe_Crash"
  shows "same_holds d0 (sdb (gw_server g'))"
  using assms(5,6) serve_stream_holds[OF assms(1-4)] by (auto split: sum.splits)

lemma stream_chat_gives_back:
  assumes "log_sink (log_put P)" "healthy (sdb (gw_server g))"
  shows "gives_back g (stream_chat P C W hook E q tq body exn_of loads ask rs now g)"
proof (cases "py_strip (req_model q) = []")
  case True
  then show ?thesis by (simp add: stream_chat_def gives_back_def)
next
  case False
  show ?thesis unfolding stream_chat_def if_not_P[OF False]
    by (rule admit_then_serve[OF assms, where f = "\<lambda>e. e"], rule with_tools_holds, assumption+)
      (erule (1) selected_stream_holds[OF assms(1)]; assumption)
qed

lemma stream_message_gives_back:
  assumes "log_sink (log_put P)" "healthy (sdb (gw_server g))"
  shows "gives_back g (stream_message P C W hook E q tq body exn_of loads ask f rs now g)"
  unfolding stream_message_def
  by (rule admit_then_serve[OF assms], rule with_tools_holds, assumption+)
    (erule (1) selected_stream_holds[OF assms(1)]; assumption)

lemma stream_response_gives_back:
  assumes "log_sink (log_put P)" "healthy (sdb (gw_server g))"
  shows "gives_back g (stream_response P C W supports hook E q mo tq body exn_of loads ask f rs now g)"
  unfolding stream_response_def
proof (rule admit_then_serve[OF assms, where f = "\<lambda>e. e"], goal_cases)
  case (1 g1 ctx info h g' x)
  show ?case
  proof (cases "resolve_provider_selector (pcfg P) (req_model q)")
    case (Inl e)
    with 1(4,5) show ?thesis by simp
  next
    case (Inr r)
    show ?thesis
    proof (cases "supports (provider_impl r)")
      case True
      with 1(4) Inr have "with_tools responses_adapter ctx E tq g1 (\<lambda>tc g2.
          serve_stream P responses_adapter ctx info (Some (instance_name r)) (model_name r) None None now (response_args f) rs
            (open_format_stream W tc exn_of (response_streams W tc loads ask) (responses_kwargs r (req_user ctx) tc body)) g2)
          = (g', x)" by simp
      from with_tools_holds[OF 1(1-3) this 1(5)] serve_stream_holds[OF assms(1) 1(1-3)]
      show ?thesis by blast
    next
      case False
      with 1(4) Inr release_refunds[OF 1(1-3)] show ?thesis
        by (auto simp: refunded_def raise_after_def split: prod.splits)
    qed
  qed
qed

section \<open>Lemmas: reports\<close>

text \<open>What a request adds to the reports: each attempt of the route at most once.\<close>

definition reported_once :: "resolved_attempt list \<Rightarrow> gateway \<Rightarrow> gateway \<Rightarrow> bool" where
  "reported_once as g g' \<longleftrightarrow> (\<exists>new. reports (gw_server g') = reports (gw_server g) @ new
     \<and> distinct (map fst new) \<and> set (map fst new) \<subseteq> attempt_id ` set as)"

lemma reported_nothing [simp]: "reported_once as g g"
  by (simp add: reported_once_def)

definition hybrid_context :: request_context where
  "hybrid_context = \<lparr>has_db = False, hybrid_mode = True, req_api_key = None, req_user = None, reservation = None\<rparr>"

lemma hybrid_request_cases:
  "hybrid_request P C A md fd plat q f k g = (case plat of
     Inl e \<Rightarrow> (g, Inl (f (Pipe_Http e))) | Inr route \<Rightarrow> k hybrid_context None route g)"
  by (simp add: hybrid_request_def resolve_request_context_def hybrid_context_def split: sum.split)

lemma with_tools_hybrid:
  "with_tools A hybrid_context E tq g k = (case choose_tools A True E tq of
     Step_Ok tc \<Rightarrow> k tc g | Step_Http e \<Rightarrow> (g, Inl (Pipe_Http e)) | Step_Crash \<Rightarrow> (g, Inl Pipe_Crash))"
  by (simp add: with_tools_def prepare_gateway_tools_def hybrid_context_def release_reservation_def split: step.split)

lemma response_reports:
  assumes "ss_ctx T = hybrid_context" "ss_correlation T = Some c"
  shows "\<exists>new. reports (run_response P A T G ps rs s) = reports s @ new \<and> (new = [] \<or> (\<exists>r. new = [(c, r)]))"
proof -
  have on: "\<exists>new. reports (fst (on_event P A T ev s)) = reports s @ new \<and> (new = [] \<or> (\<exists>r. new = [(c, r)]))" for ev
    using assms by (cases ev) (auto simp: cb_complete_def cb_no_usage_def cb_error_def cb_incomplete_def report_def hybrid_context_def)
  obtain g x where g: "streaming_generator (stream_args P A T s G) ps rs = (g, x)" by fastforce
  have "has_on_incomplete (stream_args P A T s G)" "has_on_no_usage (stream_args P A T s G)"
    "cb (stream_args P A T s G) 0 On_Incomplete = Returns"
    using assms by (simp_all add: stream_args_def cb_incomplete_def hybrid_context_def)
  with generator_events[OF _ g] obtain ev where "events g = [ev]" by auto
  then have "run_response P A T G ps rs s = fst (on_event P A T ev s)" by (simp add: run_response_def g)
  with on[of ev] show ?thesis by simp
qed

lemma first_attempt_reports:
  assumes "stream_first_attempt P A hybrid_context info llm op now G rs route g = (g', x)"
  shows "reported_once (attempts route) g g'"
proof (cases "attempts route")
  case Nil
  with assms show ?thesis by (simp add: stream_first_attempt_def)
next
  case (Cons a as)
  show ?thesis
  proof (cases "llm (att_provider a)")
    case None
    with assms Cons show ?thesis by (simp add: stream_first_attempt_def)
  next
    case (Some p)
    let ?T = "\<lparr>ss_ctx = hybrid_context, ss_provider = Some p, ss_model = att_model a, ss_has_writer = True,
      ss_correlation = Some (attempt_id a), ss_now = now\<rparr>"
    from assms Cons Some have s: "serve_stream P A hybrid_context info (Some p) (att_model a) (Some (attempt_id a))
        (Some (request_id route)) now G rs (op a p) g = (g', x)" by (simp add: stream_first_attempt_def)
    show ?thesis
    proof (cases "op a p")
      case (Opened ps)
      with response_reports[of ?T "attempt_id a" P A G ps rs "gw_server g"] s Cons show ?thesis
        by (fastforce simp: serve_stream_def run_single_attempt_stream_def reported_once_def)
    qed (use s in \<open>auto simp: serve_stream_def run_single_attempt_stream_def release_reservation_def raise_after_def
        log_failure_and_refund_def hybrid_context_def reported_once_def split: prod.splits sum.splits\<close>)
  qed
qed

lemma delivered [simp]: "reports (gw_server (deliver rs g)) = reports (gw_server g)
    @ map (\<lambda>r. (attempt_id (rep_attempt r), if rep_success r then ''success'' else ''error'')) rs"
  by (simp add: deliver_def)

lemma deliver_once:
  assumes "distinct (map attempt_id as)" "distinct (map rep_attempt rs)" "set (map rep_attempt rs) \<subseteq> set as"
  shows "reported_once as g (deliver rs g)"
proof -
  have "inj_on attempt_id (set (map rep_attempt rs))"
    using assms(1,3) by (auto simp: distinct_map intro: inj_on_subset)
  with assms(2) have "distinct (map attempt_id (map rep_attempt rs))" by (simp add: distinct_map del: map_map)
  with assms(3) show ?thesis by (auto simp: reported_once_def comp_def)
qed

text \<open>A format's generator settles in hybrid mode as \<open>platform_args\<close> does.\<close>

definition platform_generator :: "'c gen_args \<Rightarrow> bool" where
  "platform_generator G \<longleftrightarrow> (\<exists>f u sf. G = platform_args f u sf)"

lemma platform_generators:
  "platform_generator (chat_args (\<lambda>_ _. Returns))" "platform_generator (message_args f)" "platform_generator (response_args f')"
  unfolding platform_generator_def platform_args_def chat_args_def message_args_def response_args_def by blast+

lemma reports_of_prefix:
  "as = xs @ post \<Longrightarrow> distinct as \<Longrightarrow> distinct xs \<and> set xs \<subseteq> set as"
  "as = xs @ a # post \<Longrightarrow> distinct as \<Longrightarrow> distinct (a # xs) \<and> set (a # xs) \<subseteq> set as"
  by auto

lemma fallback_reports_once:
  assumes "platform_generator G" "distinct (map attempt_id as)"
  shows "reported_once as g (deliver (streamed_reports G (run_streaming_with_fallback view None run as) rs) g)"
proof (rule deliver_once[OF assms(2)])
  let ?h = "run_streaming_with_fallback view None run as"
  let ?rs = "streamed_reports G ?h rs"
  from assms(1) obtain f u sf where G: "G = platform_args f u sf" by (auto simp: platform_generator_def)
  have d: "distinct as" using assms(2) by (simp add: distinct_map)
  have tried: "case hs_outcome ?h of Inr (a, ps) \<Rightarrow> (\<exists>post. as = map rep_attempt (hs_queued ?h) @ a # post)
      | Inl x \<Rightarrow> (\<exists>post. as = map rep_attempt (hs_flushed ?h) @ post)"
    using iterate_prefix[where run = run and classify = "classify_upstream_error \<circ> view" and ?x0.0 = No_Attempts and as = as]
    by (auto simp: run_streaming_with_fallback_def Let_def try_streams_def comp_def[of rep_attempt]
        split: option.splits sum.splits)
  have "distinct (map rep_attempt ?rs) \<and> set (map rep_attempt ?rs) \<subseteq> set as"
  proof (cases "hs_outcome ?h")
    case (Inl x)
    then have r: "?rs = hs_flushed ?h" by (simp add: streamed_reports_def)
    from Inl tried obtain post where p: "as = map rep_attempt (hs_flushed ?h) @ post" by auto
    from reports_of_prefix(1)[OF p d] show ?thesis by (simp only: r)
  next
    case (Inr ap)
    obtain a ps where ap: "ap = (a, ps)" by (cases ap)
    obtain ev where "events (fst (streaming_generator G ps rs)) = [ev]" using platform_settles unfolding G by blast
    with Inr ap have r: "?rs = platform_event a ev @ hs_queued ?h" by (simp add: streamed_reports_def)
    from Inr ap tried obtain post where p: "as = map rep_attempt (hs_queued ?h) @ a # post" by auto
    note pre = reports_of_prefix(2)[OF p d]
    have "map rep_attempt (platform_event a ev) = [] \<or> map rep_attempt (platform_event a ev) = [a]"
      by (cases ev) (simp_all add: platform_event_def)
    with pre show ?thesis unfolding r by (elim disjE) simp_all
  qed
  then show "distinct (map rep_attempt ?rs)" "set (map rep_attempt ?rs) \<subseteq> set as" by blast+
qed

lemma stream_with_fallback_reports:
  assumes "platform_generator G" "distinct (map attempt_id (attempts route))"
    and "stream_with_fallback W tc A err view run G rs info route g = (g', x)"
  shows "reported_once (attempts route) g g'"
  using assms(3) fallback_reports_once[OF assms(1,2)]
  by (auto simp: stream_with_fallback_def Let_def split: if_splits opened_backend.splits)

lemma subseq_distinct: "subseq xs ys \<Longrightarrow> distinct ys \<Longrightarrow> distinct xs \<and> set xs \<subseteq> set ys"
  by (induction rule: list_emb.induct) auto

lemma walk_reports_subseq: "subseq (map rep_attempt (w_reports (walk_attempts V base n i prev as))) as"
proof (induction as arbitrary: i prev)
  case (Cons a as)
  show ?case
    using Cons.IH
    by (auto simp: stop_walk_def add_front_def Let_def split: option.splits prod.splits sum.splits attempt_exn.splits)
qed (simp add: stop_walk_def)

lemma walk_answer_reports:
  assumes "distinct (map attempt_id (attempts route))"
    and "walk_answer f info (run_platform_non_stream V A base route) g = (g', x)"
  shows "reported_once (attempts route) g g'"
proof -
  let ?sent = "pr_sent (run_platform_non_stream V A base route)"
  have s: "subseq (map rep_attempt ?sent) (attempts route)"
    using walk_reports_subseq[of V base "length (attempts route)" 0 None "attempts route"]
    by (auto simp: run_platform_non_stream_def run_platform_attempts_def Let_def stop_walk_def
        split: sum.split walk_error.split intro: subseq_order.trans[OF subseq_map[OF subseq_filter_left]])
  have "distinct (attempts route)" using assms(1) by (simp add: distinct_map)
  note sd = subseq_distinct[OF s this]
  from deliver_once[OF assms(1) conjunct1[OF sd] conjunct2[OF sd]] assms(2) show ?thesis by (auto simp: walk_answer_def)
qed

section \<open>Properties\<close>




text \<open>A hybrid request without tools over two attempts, of which the first times out.\<close>

definition no_tools :: "mcp_server_config tool_request" where
  "no_tools = \<lparr>tq_tools = None, tq_mcp_servers = None, tq_mcp_server_ids = None, tq_max_iterations = None, tq_tools_header = None\<rparr>"

definition hybrid0 :: hybrid_env where
  "hybrid0 = \<lparr>he_pipeline = pipeline0, he_auth = sample_auth, he_backends = backends0\<lparr>bk_sandbox_up := False\<rparr>,
     he_tools = tool_env0\<lparr>te_user_token := Some ''t''\<rparr>, he_llm = Some,
     he_view = (\<lambda>m. if m = ''slow'' then timeout_exn else cancelled_exn), he_slow = (\<lambda>_. False), he_loads = sample_loads\<rparr>"

definition route0 :: resolved_route where
  "route0 = sample_route [sample_attempt ''a'' 0, sample_attempt ''b'' 1]"

definition ask0 :: "resolved_attempt \<Rightarrow> (string, json) dict \<Rightarrow> nat \<Rightarrow> json list \<Rightarrow> json list \<Rightarrow> (string, 'c pull list) result" where
  "ask0 a kw i tools msgs = (if attempt_id a = ''a'' then Inl ''slow'' else Inr [])"

lemmas hybrid0_defs = hybrid0_def route0_def ask0_def no_tools_def sample_route_def sample_attempt_def tool_env0_def backends0_def

lemma no_tools_chosen: "\<exists>tc. choose_tools A True (he_tools hybrid0) no_tools = Step_Ok tc \<and> backend_of tc = No_Backend"
  by (simp add: hybrid0_defs choose_tools_def resolve_mcp_step_def sandbox_step_def web_search_step_def
      extract_first_matching_tool_def backend_of_def use_tool_loop_def nonempty_def)


lemma attempts_reported_in_order:
  "reports (gw_server (fst (hybrid_stream_chat hybrid0 (Inr route0) (request0 ''m'') no_tools [] ask0 [] gateway0)))
    = reports (gw_server gateway0) @ [(''a'', ''error'')]"
proof -
  obtain tc where tc: "choose_tools chat_adapter True (he_tools hybrid0) no_tools = Step_Ok tc" "backend_of tc = No_Backend"
    using no_tools_chosen by blast
  then have o: "open_backend (he_backends hybrid0) tc = Plain_Call" by (simp add: open_backend_def)
  have m: "py_strip (req_model (request0 ''m'')) \<noteq> []" by (simp add: request0_def) code_simp
  let ?run = "attempt_stream (he_llm hybrid0) (\<lambda>a p. default_attempt_kwargs a p (chat_fields tc [])) (he_slow hybrid0)
      (\<lambda>a. chat_streams (he_backends hybrid0) tc (he_loads hybrid0) (ask0 a)) None"
  have run: "?run (sample_attempt ''a'' 0) = Build_Raises (Exc ''slow'')" "?run (sample_attempt ''b'' 1) = Ends_Empty"
    by (simp_all add: attempt_stream_def chat_streams_def hybrid0_def ask0_def sample_attempt_def first_pull_def Let_def)
  have view0: "view_of hybrid0 (Exc ''slow'') = timeout_exn" by (simp add: view_of_def hybrid0_def)
  let ?h = "run_streaming_with_fallback (view_of hybrid0) None ?run (attempts route0)"
  have h: "hs_outcome ?h = Inr (sample_attempt ''b'' 1, map Chunk [])"
    "hs_queued ?h = [Report (sample_attempt ''a'' 0) False None (Some ''timeout'')]"
    by (simp_all add: run_streaming_with_fallback_def Let_def try_streams_def route0_def sample_route_def run view0
        classify_upstream_error_def timeout_exn_def after_failure_def record_failure_def empty_async_iter_def
        attempt_report_def)
  have G: "chat_args (\<lambda>_ _. Returns) = platform_args (\<lambda>c. Inr (cc_body c)) (\<lambda>c. Inr (chat_stream_usage c)) openai_stream_format"
    by (simp add: chat_args_def platform_args_def)
  have "events (fst (streaming_generator (chat_args (\<lambda>_ _. Returns)) (map Chunk []) [])) = [On_No_Usage]"
    unfolding G by (subst platform_patient) (simp_all add: readable_def)
  then have "streamed_reports (chat_args (\<lambda>_ _. Returns)) ?h [] = [Report (sample_attempt ''a'' 0) False None (Some ''timeout'')]"
    by (simp add: streamed_reports_def h platform_event_def)
  then show ?thesis
    unfolding hybrid_stream_chat_def if_not_P[OF m] hybrid_request_cases sum.case with_tools_hybrid tc(1)
    by (simp add: stream_with_fallback_def Let_def o) (simp add: route0_def sample_route_def sample_attempt_def)
qed

text \<open>
  When the sandbox of a hybrid request is down, a streamed chat request says so and no attempt is reported. The
  same request without streaming is answered as a failure of the provider, and the platform is told that the first
  attempt failed: the walk catches the exception before the handlers that map it.
\<close>

theorem sandbox_outage_blamed_on_provider:
  assumes tools: "choose_tools chat_adapter True (he_tools H) tq = Step_Ok tc" "backend_of tc = Sandbox_Backend"
      "\<not> bk_sandbox_up (he_backends H)"
    and route: "attempts route = a # as" "he_llm H (att_provider a) = Some p"
    and view: "classify_upstream_error (he_view H ''SandboxNotReachableError'') = (False, cls)"
      "classify_provider_error (upstream (he_view H ''SandboxNotReachableError'')) = None"
    and model: "py_strip (req_model q) \<noteq> []"
  shows "hybrid_stream_chat H (Inr route) q tq body ask rs g = (g, Inl (Pipe_Http (http_error 502 sandbox_unreachable_detail)))
    \<and> hybrid_chat H (Inr route) q tq body ask' g
      = (deliver [Report a False None (Some cls)] g, Inl (Pipe_Http (http_error 502 ''LLM provider error'')))"
proof -
  have o: "open_backend (he_backends H) tc = Sandbox_Unreachable" using tools(2,3) by (simp add: open_backend_def)
  show ?thesis
    unfolding hybrid_stream_chat_def hybrid_chat_def if_not_P[OF model] hybrid_request_cases sum.case with_tools_hybrid tools(1)
    by (simp add: stream_with_fallback_def route o attempt_dispatch_def walk_env_def run_platform_non_stream_def
        run_platform_attempts_def view stop_walk_def walk_answer_def provider_failure_http_exc_def)
qed

lemma sandbox_outage_blamed_on_provider_witness:
  "\<exists>tc cls. choose_tools chat_adapter True (he_tools hybrid0) tool_request0 = Step_Ok tc
    \<and> hybrid_chat hybrid0 (Inr route0) (request0 ''m'') tool_request0 [] (\<lambda>_ _ _ _ _. Inl ''slow'') gateway0
      = (deliver [Report (sample_attempt ''a'' 0) False None (Some cls)] gateway0, Inl (Pipe_Http (http_error 502 ''LLM provider error'')))"
proof -
  have "\<exists>tc. choose_tools chat_adapter True (he_tools hybrid0) tool_request0 = Step_Ok tc \<and> backend_of tc = Sandbox_Backend"
    by (simp add: hybrid0_def tool_env0_def tool_request0_def choose_tools_def resolve_mcp_step_def sandbox_step_def
        web_search_step_def extract_first_matching_tool_def is_code_execution_tool_type_def nonempty_str_def nonempty_def
        backend_of_def use_tool_loop_def web_search_url_targets_platform_def)
  then obtain tc where tc: "choose_tools chat_adapter True (he_tools hybrid0) tool_request0 = Step_Ok tc"
      "backend_of tc = Sandbox_Backend" by blast
  have m: "py_strip (req_model (request0 ''m'')) \<noteq> []" by (simp add: request0_def) code_simp
  have w: "\<not> bk_sandbox_up (he_backends hybrid0)" "attempts route0 = sample_attempt ''a'' 0 # [sample_attempt ''b'' 1]"
    "he_llm hybrid0 (att_provider (sample_attempt ''a'' 0)) = Some ''a''"
    "he_view hybrid0 ''SandboxNotReachableError'' = cancelled_exn"
    by (simp_all add: hybrid0_defs)
  have c: "classify_upstream_error (he_view hybrid0 ''SandboxNotReachableError'') = (False, ''unknown'')"
    "classify_provider_error (upstream (he_view hybrid0 ''SandboxNotReachableError'')) = None"
    by (simp_all add: w(4) classify_upstream_error_def cancelled_exn_def classify_provider_error_def upstream_def
        upstream_exn.truncate_def upstream_status_code_def present_def)
  from sandbox_outage_blamed_on_provider[OF tc w(1-3) c m] tc(1) show ?thesis by blast
qed

text \<open>A streamed tool loop of the Messages and Responses formats takes the first attempt of a hybrid route only, and
  when its backend cannot be opened the platform hears nothing of it.\<close>

lemma unopened_attempt_unreported:
  assumes "attempts route = a # as" "llm (att_provider a) = Some p" "\<forall>ps. op a p \<noteq> Opened ps"
  shows "gw_server (fst (stream_first_attempt P A hybrid_context info llm op now G rs route g)) = gw_server g"
  using assms by (cases "op a p") (auto simp: stream_first_attempt_def serve_stream_def run_single_attempt_stream_def
      release_reservation_def raise_after_def log_failure_and_refund_def hybrid_context_def)

text \<open>The platform's refusal to resolve an MCP server leaves the Messages route without the Anthropic envelope.\<close>

lemma unresolved_mcp_server_plain:
  assumes "te_guardrails (he_tools H) = Step_Ok ()" "tq_mcp_server_ids tq = Some (i # is)" "te_user_token (he_tools H) \<noteq> None"
    "te_resolve_mcp (he_tools H) (i # is) = Step_Http e"
  shows "hybrid_message H (Inr route) q tq body ask g = (g, Inl (Pipe_Http e))"
  using assms by (simp add: hybrid_message_def hybrid_request_cases with_tools_hybrid choose_tools_def resolve_mcp_step_def nonempty_def)

end
