(* ===== verification/Mcp_Resolve.thy ===== *)
theory Mcp_Resolve
  imports Platform Backends Gateway_Tools Url_Safety
begin

text \<open>
  MCP servers by id (\<open>_resolve_platform_mcp_servers\<close> of \<open>api/routes/_platform.py\<close>): the platform turns the ids of
  a hybrid request into configurations, each of which is validated like one sent inline (\<open>models/mcp.py\<close>). An id is
  known by its text.
\<close>

section \<open>A server configuration\<close>

definition opt_text :: "nat option \<Rightarrow> json option \<Rightarrow> string option option" where
  "opt_text bound v = (case v of
     None \<Rightarrow> Some None
   | Some JNull \<Rightarrow> Some None
   | Some (JStr s) \<Rightarrow> (case bound of Some n \<Rightarrow> if length s \<le> n then Some (Some s) else None | None \<Rightarrow> Some (Some s))
   | Some _ \<Rightarrow> None)"

definition text_item :: "json \<Rightarrow> string option" where
  "text_item j = (case j of JStr s \<Rightarrow> Some s | _ \<Rightarrow> None)"

definition opt_texts :: "json option \<Rightarrow> string list option option" where
  "opt_texts v = (case v of
     None \<Rightarrow> Some None
   | Some JNull \<Rightarrow> Some None
   | Some (JArr js) \<Rightarrow> (if list_all (\<lambda>j. text_item j \<noteq> None) js then Some (Some (List.map_filter text_item js)) else None)
   | Some _ \<Rightarrow> None)"

text \<open>\<^const>\<open>None\<close> is a \<open>ValidationError\<close>: of a field, or of the URL check run after them.\<close>

definition mcp_server_of :: "net \<Rightarrow> json option \<Rightarrow> json option \<Rightarrow> json option \<Rightarrow> json option \<Rightarrow> json option
    \<Rightarrow> mcp_server_config option" where
  "mcp_server_of N nm url token hint allowed =
     (case (nm, url, opt_text None token, opt_text (Some 2000) hint, opt_texts allowed) of
        (Some (JStr n), Some (JStr u), Some t, Some h, Some a) \<Rightarrow>
          (if n \<noteq> [] \<and> length n \<le> 128 \<and> u \<noteq> []
              \<and> validate_mcp_url N u (case t of Some t \<Rightarrow> t \<noteq> [] | None \<Rightarrow> False) = None
           then Some \<lparr>ms_name = n, ms_url = u, ms_token = t, ms_hint = h, ms_allowed = a\<rparr> else None)
      | _ \<Rightarrow> None)"

section \<open>The call\<close>

text \<open>A server of the answer; \<^const>\<open>None\<close> is also an item that is no object or lacks its name or URL.\<close>

definition resolved_server :: "net \<Rightarrow> json \<Rightarrow> mcp_server_config option" where
  "resolved_server N s = (if \<not> is_jobj s \<or> jget ''name'' s = None \<or> jget ''url'' s = None then None
     else mcp_server_of N (jget ''name'' s) (jget ''url'' s) (jget ''authorization_token'' s)
       (jget ''purpose_hint'' s) (jget ''allowed_tools'' s))"

fun resolved_servers :: "net \<Rightarrow> json list \<Rightarrow> mcp_server_config list step" where
  "resolved_servers N [] = Step_Ok []"
| "resolved_servers N (s # ss) = (case resolved_server N s of
     None \<Rightarrow> Step_Crash
   | Some m \<Rightarrow> step_bind (resolved_servers N ss) (\<lambda>ms. Step_Ok (m # ms)))"

text \<open>\<open>payload.get("servers", [])\<close>, iterated: an empty object or string gives no server.\<close>

definition servers_of :: "net \<Rightarrow> json \<Rightarrow> mcp_server_config list step" where
  "servers_of N payload = (if \<not> is_jobj payload then Step_Crash else case jget ''servers'' payload of
     None \<Rightarrow> Step_Ok []
   | Some (JArr ss) \<Rightarrow> resolved_servers N ss
   | Some (JObj []) \<Rightarrow> Step_Ok []
   | Some (JStr []) \<Rightarrow> Step_Ok []
   | Some _ \<Rightarrow> Step_Crash)"

definition mcp_resolve_body :: "string list \<Rightarrow> (string, json) dict" where
  "mcp_resolve_body ids = [(''mcp_server_ids'', JArr (map JStr ids))]"

definition resolve_platform_mcp_servers :: "net \<Rightarrow> string option \<Rightarrow> ((string, json) dict \<Rightarrow> post_result)
    \<Rightarrow> string list \<Rightarrow> mcp_server_config list step" where
  "resolve_platform_mcp_servers N base_url post ids =
     (if base_url = None \<or> base_url = Some [] then Step_Http misconfigured
      else case platform_reply ''MCP server resolution failed'' (post (mcp_resolve_body ids)) of
        Inl e \<Rightarrow> Step_Http e
      | Inr None \<Rightarrow> Step_Crash
      | Inr (Some payload) \<Rightarrow> servers_of N payload)"

section \<open>What a resolved server is\<close>

definition acceptable_server :: "net \<Rightarrow> mcp_server_config \<Rightarrow> bool" where
  "acceptable_server N m \<longleftrightarrow> ms_name m \<noteq> [] \<and> length (ms_name m) \<le> 128
     \<and> validate_mcp_url N (ms_url m) (case ms_token m of Some t \<Rightarrow> t \<noteq> [] | None \<Rightarrow> False) = None"

lemma mcp_server_of_acceptable: "mcp_server_of N nm url token hint allowed = Some m \<Longrightarrow> acceptable_server N m"
  by (auto simp: mcp_server_of_def acceptable_server_def split: option.splits json.splits if_splits)

lemma resolved_servers_acceptable: "resolved_servers N ss = Step_Ok ms \<Longrightarrow> list_all (acceptable_server N) ms"
  by (induction ss arbitrary: ms)
    (auto simp: step_bind_ok resolved_server_def dest: mcp_server_of_acceptable split: option.splits if_splits)

lemma servers_of_acceptable: "servers_of N p = Step_Ok ms \<Longrightarrow> list_all (acceptable_server N) ms"
  by (auto simp: servers_of_def dest: resolved_servers_acceptable
      split: option.splits json.splits if_splits list.splits)

text \<open>Servers resolved by the platform meet the same requirements as inline ones: no private host, and no token
  over plain HTTP.\<close>

lemma resolved_by_platform_acceptable:
  "resolve_platform_mcp_servers N base_url post ids = Step_Ok ms \<Longrightarrow> list_all (acceptable_server N) ms"
  by (auto simp: resolve_platform_mcp_servers_def dest: servers_of_acceptable
      split: if_splits sum.splits option.splits)

lemma acceptable_token_not_in_clear:
  assumes "acceptable_server N m" "ms_token m = Some t" "t \<noteq> []"
  shows "py_lower (u_scheme (urlparse N (ms_url m))) = ''https''"
  using assms by (auto simp: acceptable_server_def validate_mcp_url_def Let_def split: if_splits)

lemma resolved_servers_no_http: "resolved_servers N ss \<noteq> Step_Http e"
  by (induction ss) (auto simp: step_bind_def split: option.split step.split)

text \<open>A single server that fails its check loses the whole request, with a plain 500: the \<open>ValidationError\<close> of
  the answer is not the client's, and nothing maps it.\<close>

lemma unsafe_resolved_server_crashes:
  assumes "base \<noteq> []" "resp_status r = 200"
    "resp_json r = Some (JObj [(''servers'', JArr ss)])" "s \<in> set ss" "resolved_server N s = None"
  shows "resolve_platform_mcp_servers N (Some base) (\<lambda>_. Post_Response r) ids = Step_Crash"
proof -
  have "resolved_servers N ss = Step_Crash" using assms(4,5)
    by (induction ss) (auto simp: step_bind_def split: option.splits step.splits simp: resolved_servers_no_http)
  then show ?thesis using assms(1-3)
    by (simp add: resolve_platform_mcp_servers_def platform_reply_def servers_of_def)
qed

section \<open>The servers a request dials\<close>

text \<open>The tool environment of a hybrid request, its ids resolved by the platform.\<close>

definition resolving_env :: "net \<Rightarrow> string option \<Rightarrow> ((string, json) dict \<Rightarrow> post_result)
    \<Rightarrow> mcp_server_config tool_env \<Rightarrow> mcp_server_config tool_env" where
  "resolving_env N base_url post E = E\<lparr>te_resolve_mcp := resolve_platform_mcp_servers N base_url post\<rparr>"

definition all_acceptable :: "net \<Rightarrow> mcp_server_config list option \<Rightarrow> bool" where
  "all_acceptable N ms \<longleftrightarrow> (case ms of None \<Rightarrow> True | Some xs \<Rightarrow> list_all (acceptable_server N) xs)"

lemma resolve_mcp_step_acceptable:
  assumes "all_acceptable N (tq_mcp_servers q)"
    "resolve_mcp_step A hybrid (resolving_env N base_url post E) q = Step_Ok ms"
  shows "all_acceptable N ms"
  using assms resolved_by_platform_acceptable[of N base_url post]
  by (auto simp: resolve_mcp_step_def resolving_env_def all_acceptable_def step_bind_ok split: if_splits option.splits)

lemma choose_tools_mcp:
  assumes "choose_tools A hybrid E q = Step_Ok c"
  shows "\<exists>mcp. resolve_mcp_step A hybrid E q = Step_Ok mcp \<and> tc_mcp_servers c = mcp"
proof -
  obtain sb tools1 where x1: "extract_first_matching_tool is_code_execution_tool_type (tq_tools q) = (sb, tools1)"
    by fastforce
  obtain ws tools2 where x2: "extract_first_matching_tool is_web_search_tool_type tools1 = (ws, tools2)" by fastforce
  show ?thesis using assms by (auto simp: choose_tools_def x1 x2 step_bind_ok)
qed


text \<open>One server by id, with a token.\<close>

definition by_id :: "mcp_server_config tool_request" where
  "by_id = \<lparr>tq_tools = None, tq_mcp_servers = None, tq_mcp_server_ids = Some [''i''], tq_max_iterations = None,
     tq_tools_header = None\<rparr>"

definition by_id_env :: "mcp_server_config tool_env" where
  "by_id_env = \<lparr>te_urlparse = sample_url, te_sandbox_url = None, te_web_search_url = None,
     te_platform_url = Some ''p'', te_platform_token = Some ''p'', te_user_token = Some ''u'',
     te_guardrails = Step_Ok (), te_resolve_mcp = (\<lambda>_. Step_Ok []), te_resolve_web = Step_Crash\<rparr>"

definition by_id_answer :: post_result where
  "by_id_answer = Post_Response \<lparr>resp_status = 200, resp_json = Some (JObj [(''servers'',
     JArr [JObj [(''name'', JStr ''s''), (''url'', JStr ''u''), (''authorization_token'', JStr ''t'')]])]),
     resp_retry_after = None\<rparr>"

definition by_id_server :: mcp_server_config where
  "by_id_server = \<lparr>ms_name = ''s'', ms_url = ''u'', ms_token = Some ''t'', ms_hint = None, ms_allowed = None\<rparr>"

definition by_id_choice :: "mcp_server_config tool_context step" where
  "by_id_choice = choose_tools plain_adapter True (resolving_env sample_net (Some ''p'') (\<lambda>_. by_id_answer) by_id_env) by_id"

lemma by_id_context: "by_id_choice = Step_Ok \<lparr>tc_mcp_servers = Some [by_id_server], tc_use_sandbox = False,
    tc_sandbox_entry = None, tc_sandbox_url = None, tc_sandbox_token = None, tc_use_web_search = False,
    tc_web_search_entry = None, tc_web_search_url = None, tc_web_search_token = None, tc_remaining_tools = None,
    tc_max_iterations = default_max_tool_iterations, tc_tools_header = None\<rparr>"
  by (simp add: by_id_choice_def choose_tools_def resolve_mcp_step_def sandbox_step_def web_search_step_def
      resolving_env_def by_id_def by_id_env_def nonempty_def resolve_platform_mcp_servers_def platform_reply_def
      by_id_answer_def servers_of_def resolved_server_def mcp_server_of_def opt_text_def opt_texts_def
      validate_mcp_url_def sample_net_simps check_host_None blocked_reason_None public_ip_def by_id_server_def
      extract_first_matching_tool_def iterations_of_def nonempty_str_def max_tool_iterations_cap_def
      default_max_tool_iterations_def)


end
