(* ===== verification/Agents.thy ===== *)
theory Agents
  imports Prelude
begin

text \<open>
  Runs of an any-agent agent (\<open>any_agent/frameworks/any_agent.py\<close>) over the wrapper that hooks the callbacks
  into a framework (\<open>callbacks/wrappers\<close>, here of Agno and LlamaIndex). Several runs of one agent may be under way;
  they share the wrapper, in which each has a context under the id of its trace. A run is a number of calls
  chosen by the framework, whose answers are given; the hooks of a callback change the context they are handed
  in place and return it, or raise.
\<close>

section \<open>Exceptions\<close>

text \<open>An exception with its class, as far as the code looks at it, its text, \<open>__cause__\<close> and \<open>__context__\<close>.\<close>

datatype exc_class = Agent_Cancel | Plain_Exception

datatype py_exc = Py_Exc (class_of: exc_class) (message_of: string) (cause_of: "py_exc option") (context_of: "py_exc option")

fun unwrap_agent_cancel :: "py_exc \<Rightarrow> py_exc option" where
  "unwrap_agent_cancel (Py_Exc k m c x) =
     (if k = Agent_Cancel then Some (Py_Exc k m c x)
      else case c of Some e \<Rightarrow> unwrap_agent_cancel e
        | None \<Rightarrow> (case x of Some e \<Rightarrow> unwrap_agent_cancel e | None \<Rightarrow> None))"

definition plain_exc :: "string \<Rightarrow> py_exc" where
  "plain_exc m = Py_Exc Plain_Exception m None None"

section \<open>Hooks\<close>

record run_ctx =
  rc_trace :: "string list"
  rc_shared :: "(string, string) dict"

definition new_context :: run_ctx where
  "new_context = \<lparr>rc_trace = [], rc_shared = []\<rparr>"

datatype hook_point = Before_Agent string | Before_Llm string | After_Llm string | Before_Tool string
  | After_Tool string | After_Agent string

type_synonym hook = "hook_point \<Rightarrow> run_ctx \<Rightarrow> run_ctx \<times> py_exc option"

fun run_hooks :: "hook list \<Rightarrow> hook_point \<Rightarrow> run_ctx \<Rightarrow> run_ctx \<times> py_exc option" where
  "run_hooks [] p c = (c, None)"
| "run_hooks (h # hs) p c = (case h p c of
     (c', None) \<Rightarrow> run_hooks hs p c'
   | (c', Some e) \<Rightarrow> (c', Some e))"

text \<open>\<open>_add_span_callbacks\<close>: the configured callbacks between the two that record spans.\<close>

datatype callback_kind = Span_Generation | Span_End | User_Callback

definition add_span_callbacks :: "(callback_kind \<times> 'a) list option \<Rightarrow> 'a \<Rightarrow> 'a \<Rightarrow> (callback_kind \<times> 'a) list option" where
  "add_span_callbacks cs gen close = map_option (\<lambda>xs.
     let ys = if Span_Generation \<notin> fst ` set xs then (Span_Generation, gen) # xs else xs
     in if Span_End \<notin> fst ` set ys then ys @ [(Span_End, close)] else ys) cs"

section \<open>Wrapped methods\<close>

text \<open>A method of the framework's object and what the wrapper saved of it. The installed function looks the saved
  one up when it is called, not when it is installed.\<close>

datatype meth = Original | Hooked

record patched =
  pa_method :: meth
  pa_saved :: "meth option"

definition unpatched :: patched where
  "unpatched = \<lparr>pa_method = Original, pa_saved = None\<rparr>"

definition patch :: "patched \<Rightarrow> patched" where
  "patch s = s\<lparr>pa_saved := Some (pa_method s), pa_method := Hooked\<rparr>"

definition unpatch :: "patched \<Rightarrow> patched" where
  "unpatch s = (case pa_saved s of Some m \<Rightarrow> s\<lparr>pa_method := m\<rparr> | None \<Rightarrow> s)"

text \<open>The kinds of call the two wrappers hook: the model call and, for Agno, the execution of a tool; for
  LlamaIndex, the call that shapes the final answer, hooked like a model call.\<close>

datatype framework = Agno_Agent | Llama_Index_Agent

datatype call_kind = Main_Call | Side_Call

definition hook_before :: "framework \<Rightarrow> call_kind \<Rightarrow> string \<Rightarrow> hook_point" where
  "hook_before F k = (if F = Agno_Agent \<and> k = Side_Call then Before_Tool else Before_Llm)"

definition hook_after :: "framework \<Rightarrow> call_kind \<Rightarrow> string \<Rightarrow> hook_point" where
  "hook_after F k = (if F = Agno_Agent \<and> k = Side_Call then After_Tool else After_Llm)"

text \<open>Both record the model in the shared dictionary at a model call.\<close>

definition note_model :: "string \<Rightarrow> call_kind \<Rightarrow> run_ctx \<Rightarrow> run_ctx" where
  "note_model model k c = (if k = Main_Call then c\<lparr>rc_shared := AList.update ''model_id'' model (rc_shared c)\<rparr> else c)"

text \<open>Python gives up a chain of calls at its recursion limit; \<open>depth\<close> is what is left of it.\<close>

definition recursion_error :: py_exc where
  "recursion_error = plain_exc ''maximum recursion depth exceeded''"

fun call_method :: "nat \<Rightarrow> hook list \<Rightarrow> (run_ctx \<Rightarrow> run_ctx) \<Rightarrow> (string \<Rightarrow> hook_point) \<Rightarrow> (string \<Rightarrow> hook_point) \<Rightarrow> meth option
    \<Rightarrow> meth \<Rightarrow> string \<Rightarrow> (py_exc, string) result \<Rightarrow> run_ctx \<Rightarrow> run_ctx \<times> (py_exc, string) result" where
  "call_method depth cbs f pre post saved Original x y c = (c, y)"
| "call_method 0 cbs f pre post saved Hooked x y c = (c, Inl recursion_error)"
| "call_method (Suc depth) cbs f pre post saved Hooked x y c = (case run_hooks cbs (pre x) (f c) of
     (c1, Some e) \<Rightarrow> (c1, Inl e)
   | (c1, None) \<Rightarrow> (case saved of
       None \<Rightarrow> (c1, Inl (plain_exc ''object is not callable''))
     | Some m \<Rightarrow> (case call_method depth cbs f pre post saved m x y c1 of
         (c2, Inl e) \<Rightarrow> (c2, Inl e)
       | (c2, Inr r) \<Rightarrow> (case run_hooks cbs (post r) c2 of
           (c3, Some e) \<Rightarrow> (c3, Inl e)
         | (c3, None) \<Rightarrow> (c3, Inr r)))))"

section \<open>The wrapper\<close>

record wrapper =
  w_main :: patched
  w_side :: patched
  w_contexts :: "(nat, run_ctx) dict"

definition new_wrapper :: wrapper where
  "new_wrapper = \<lparr>w_main = unpatched, w_side = unpatched, w_contexts = []\<rparr>"

definition wrap_agent :: "wrapper \<Rightarrow> wrapper" where
  "wrap_agent w = w\<lparr>w_main := patch (w_main w), w_side := patch (w_side w)\<rparr>"

text \<open>The Agno wrapper puts the saved tool method back under a name of its own
  (\<open>model.arun_function_calls\<close>), which nothing reads.\<close>

definition unwrap_agent :: "framework \<Rightarrow> wrapper \<Rightarrow> wrapper" where
  "unwrap_agent F w = (case F of
     Agno_Agent \<Rightarrow> w\<lparr>w_main := unpatch (w_main w)\<rparr>
   | Llama_Index_Agent \<Rightarrow> w\<lparr>w_main := unpatch (w_main w), w_side := unpatch (w_side w)\<rparr>)"

definition patched_of :: "call_kind \<Rightarrow> wrapper \<Rightarrow> patched" where
  "patched_of k w = (case k of Main_Call \<Rightarrow> w_main w | Side_Call \<Rightarrow> w_side w)"

definition key_error :: py_exc where
  "key_error = plain_exc ''KeyError''"

record agent_settings =
  se_framework :: framework
  se_hooks :: "hook list"
  se_model :: string
  se_depth :: nat

text \<open>A call of the framework from a run: an unhooked method never looks at the contexts.\<close>

definition framework_call :: "agent_settings \<Rightarrow> nat \<Rightarrow> call_kind \<Rightarrow> string \<Rightarrow> (py_exc, string) result \<Rightarrow> wrapper
    \<Rightarrow> wrapper \<times> (py_exc, string) result" where
  "framework_call S tid k x y w = (let s = patched_of k w in case pa_method s of
     Original \<Rightarrow> (w, y)
   | Hooked \<Rightarrow> (case map_of (w_contexts w) tid of
       None \<Rightarrow> (w, Inl key_error)
     | Some c \<Rightarrow> (case call_method (se_depth S) (se_hooks S) (note_model (se_model S) k)
           (hook_before (se_framework S) k) (hook_after (se_framework S) k) (pa_saved s) Hooked x y c of
         (c', r) \<Rightarrow> (w\<lparr>w_contexts := AList.update tid c' (w_contexts w)\<rparr>, r))))"

section \<open>A run\<close>

text \<open>\<open>run_async\<close> up to the call of \<open>_run_async\<close>; the exception is one of a \<open>before_agent_invocation\<close>.\<close>

definition enter_run :: "nat \<Rightarrow> wrapper \<Rightarrow> wrapper" where
  "enter_run tid w = (let w' = w\<lparr>w_contexts := AList.update tid new_context (w_contexts w)\<rparr>
     in if length (w_contexts w') = 1 then wrap_agent w' else w')"

definition begin_run :: "agent_settings \<Rightarrow> nat \<Rightarrow> string \<Rightarrow> wrapper \<Rightarrow> wrapper \<times> py_exc option" where
  "begin_run S tid prompt w = (let w' = enter_run tid w in case map_of (w_contexts w') tid of
     None \<Rightarrow> (w', Some key_error)
   | Some c \<Rightarrow> (case run_hooks (se_hooks S) (Before_Agent prompt) c of
       (c', e) \<Rightarrow> (w'\<lparr>w_contexts := AList.update tid c' (w_contexts w')\<rparr>, e)))"

text \<open>What \<open>run_async\<close> ends in: a trace, a raised \<open>AgentCancel\<close> with its trace, an \<open>AgentRunError\<close>, or an
  exception of an \<open>after_agent_invocation\<close> as it is.\<close>

datatype run_end = Run_Trace "string list" string | Run_Cancelled py_exc "string list"
  | Run_Error py_exc "string list" | Callback_Error py_exc

definition raised_end :: "py_exc \<Rightarrow> string list \<Rightarrow> run_end" where
  "raised_end e tr = (if class_of e = Agent_Cancel then Run_Cancelled e tr
     else case unwrap_agent_cancel e of Some x \<Rightarrow> Run_Cancelled x tr | None \<Rightarrow> Run_Error e tr)"

definition leave_run :: "agent_settings \<Rightarrow> nat \<Rightarrow> wrapper \<Rightarrow> wrapper" where
  "leave_run S tid w = (let w' = if length (w_contexts w) = 1 then unwrap_agent (se_framework S) w else w
     in w'\<lparr>w_contexts := AList.delete tid (w_contexts w')\<rparr>)"

text \<open>The span of the whole run is added to the trace last.\<close>

definition finish_run :: "agent_settings \<Rightarrow> nat \<Rightarrow> string \<Rightarrow> (py_exc, string) result \<Rightarrow> wrapper \<Rightarrow> wrapper \<times> run_end" where
  "finish_run S tid prompt r w =
     (let done_with = (\<lambda>tr. case r of Inr out \<Rightarrow> Run_Trace (tr @ [''invoke_agent'']) out
                         | Inl e \<Rightarrow> raised_end e (tr @ [''invoke_agent'']))
      in (leave_run S tid w, case map_of (w_contexts w) tid of
           None \<Rightarrow> done_with []
         | Some c \<Rightarrow> (case run_hooks (se_hooks S) (After_Agent prompt) c of
             (c', Some e) \<Rightarrow> Callback_Error e
           | (c', None) \<Rightarrow> done_with (rc_trace c'))))"

section \<open>Runs under way\<close>

text \<open>A step of some run of the agent. Every run has a trace id of its own: its span is a root span. A cancelled
  task ends in a \<open>BaseException\<close>, which \<open>run_async\<close> does not catch.\<close>

record live_run =
  lr_prompt :: string
  lr_failed :: "py_exc option"
  lr_calls :: "(call_kind \<times> string \<times> (py_exc, string) result) list"

record agent_world =
  aw_wrapper :: wrapper
  aw_live :: "nat \<Rightarrow> live_run option"
  aw_leaked :: "nat set"
  aw_seen :: "nat set"

definition idle_agent :: agent_world where
  "idle_agent = \<lparr>aw_wrapper = new_wrapper, aw_live = (\<lambda>_. None), aw_leaked = {}, aw_seen = {}\<rparr>"

inductive agent_step :: "agent_settings \<Rightarrow> agent_world \<Rightarrow> agent_world \<Rightarrow> bool" for S where
  run_begins: "tid \<notin> aw_seen W \<Longrightarrow> begin_run S tid p (aw_wrapper W) = (w, e) \<Longrightarrow>
    agent_step S W (W\<lparr>aw_wrapper := w, aw_seen := insert tid (aw_seen W),
      aw_live := (aw_live W)(tid \<mapsto> \<lparr>lr_prompt = p, lr_failed = e, lr_calls = []\<rparr>)\<rparr>)"
| run_calls: "aw_live W tid = Some r \<Longrightarrow> lr_failed r = None \<Longrightarrow>
    framework_call S tid k x y (aw_wrapper W) = (w, z) \<Longrightarrow>
    agent_step S W (W\<lparr>aw_wrapper := w, aw_live := (aw_live W)(tid \<mapsto> r\<lparr>lr_calls := lr_calls r @ [(k, x, y)]\<rparr>)\<rparr>)"
| run_finishes: "aw_live W tid = Some r \<Longrightarrow> (\<And>e. lr_failed r = Some e \<Longrightarrow> out = Inl e) \<Longrightarrow>
    finish_run S tid (lr_prompt r) out (aw_wrapper W) = (w, fin) \<Longrightarrow>
    agent_step S W (W\<lparr>aw_wrapper := w, aw_live := (aw_live W)(tid := None)\<rparr>)"
| run_cancelled: "aw_live W tid = Some r \<Longrightarrow>
    agent_step S W (W\<lparr>aw_live := (aw_live W)(tid := None), aw_leaked := insert tid (aw_leaked W)\<rparr>)"

definition agent_reachable :: "agent_settings \<Rightarrow> agent_world \<Rightarrow> bool" where
  "agent_reachable S W \<longleftrightarrow> (agent_step S)\<^sup>*\<^sup>* idle_agent W"

section \<open>A run alone\<close>

text \<open>What a call and a run do when nothing else is under way: hooks, the method, hooks.\<close>

definition observed_call :: "agent_settings \<Rightarrow> call_kind \<Rightarrow> string \<Rightarrow> (py_exc, string) result \<Rightarrow> run_ctx
    \<Rightarrow> run_ctx \<times> (py_exc, string) result" where
  "observed_call S k x y c =
     (case run_hooks (se_hooks S) (hook_before (se_framework S) k x) (note_model (se_model S) k c) of
        (c1, Some e) \<Rightarrow> (c1, Inl e)
      | (c1, None) \<Rightarrow> (case y of Inl e \<Rightarrow> (c1, Inl e) | Inr r \<Rightarrow>
          (case run_hooks (se_hooks S) (hook_after (se_framework S) k r) c1 of
             (c2, Some e) \<Rightarrow> (c2, Inl e) | (c2, None) \<Rightarrow> (c2, Inr r))))"

definition run_alone :: "agent_settings \<Rightarrow> live_run \<Rightarrow> run_ctx" where
  "run_alone S r = fold (\<lambda>(k, x, y) c. fst (observed_call S k x y c)) (lr_calls r)
     (fst (run_hooks (se_hooks S) (Before_Agent (lr_prompt r)) new_context))"

lemma call_method_once:
  "call_method (Suc n) (se_hooks S) (note_model (se_model S) k) (hook_before (se_framework S) k)
     (hook_after (se_framework S) k) (Some Original) Hooked x y c = observed_call S k x y c"
  by (auto simp: observed_call_def split: prod.splits option.splits sum.splits)

section \<open>The invariant\<close>

definition hooked_once :: "bool \<Rightarrow> patched \<Rightarrow> bool" where
  "hooked_once busy s \<longleftrightarrow> (if busy then s = \<lparr>pa_method = Hooked, pa_saved = Some Original\<rparr> else pa_method s = Original)"

lemma hooked_once_simps [simp]:
  "hooked_once False s \<Longrightarrow> hooked_once True (patch s)"
  "hooked_once True s \<Longrightarrow> hooked_once False (unpatch s)"
  by (auto simp: hooked_once_def patch_def unpatch_def)

text \<open>The contexts are those of the runs under way and of the cancelled ones, each in the state its own calls gave
  it; the methods are hooked, once, exactly while there is one.\<close>

definition agent_inv :: "agent_settings \<Rightarrow> agent_world \<Rightarrow> bool" where
  "agent_inv S W \<longleftrightarrow> (let cs = w_contexts (aw_wrapper W) in
     distinct (map fst cs) \<and> fst ` set cs = dom (aw_live W) \<union> aw_leaked W \<and> dom (aw_live W) \<inter> aw_leaked W = {}
     \<and> fst ` set cs \<subseteq> aw_seen W
     \<and> hooked_once (cs \<noteq> []) (w_main (aw_wrapper W)) \<and> hooked_once (cs \<noteq> []) (w_side (aw_wrapper W))
     \<and> (\<forall>tid r. aw_live W tid = Some r \<longrightarrow> map_of cs tid = Some (run_alone S r)))"

lemma update_new_key: "k \<notin> fst ` set d \<Longrightarrow> AList.update k v d = d @ [(k, v)]"
  by (induction d) auto

lemma delete_keys: "fst ` set (AList.delete k d) = fst ` set d - {k}"
  by (induction d) auto

lemma single_key: "distinct (map fst d) \<Longrightarrow> k \<in> fst ` set d \<Longrightarrow> length d = 1 \<longleftrightarrow> AList.delete k d = []"
  by (cases d; cases "tl d") (auto simp: AList.delete_eq)

lemma enter_run_hooks:
  assumes "tid \<notin> fst ` set (w_contexts w)" "hooked_once (w_contexts w \<noteq> []) (w_main w)"
    "hooked_once (w_contexts w \<noteq> []) (w_side w)"
  shows "hooked_once True (w_main (enter_run tid w))" "hooked_once True (w_side (enter_run tid w))"
    "w_contexts (enter_run tid w) = w_contexts w @ [(tid, new_context)]"
  using assms by (cases "w_contexts w = []"; simp add: enter_run_def wrap_agent_def Let_def update_new_key)+

lemma leave_run_hooks:
  assumes "distinct (map fst (w_contexts w))" "tid \<in> fst ` set (w_contexts w)" "hooked_once True (w_main w)"
    "hooked_once True (w_side w)" "se_framework S = Llama_Index_Agent"
  defines "rest \<equiv> AList.delete tid (w_contexts w)"
  shows "hooked_once (rest \<noteq> []) (w_main (leave_run S tid w))" "hooked_once (rest \<noteq> []) (w_side (leave_run S tid w))"
    "w_contexts (leave_run S tid w) = rest"
  using assms(3-5) single_key[OF assms(1,2)]
  by (cases "rest = []"; simp add: leave_run_def unwrap_agent_def Let_def rest_def)+

lemma framework_call_hooked:
  assumes "hooked_once True (patched_of k w)" "map_of (w_contexts w) tid = Some c" "0 < se_depth S"
  shows "framework_call S tid k x y w = (case observed_call S k x y c of
    (c', r) \<Rightarrow> (w\<lparr>w_contexts := AList.update tid c' (w_contexts w)\<rparr>, r))"
  using assms by (cases "se_depth S") (simp_all add: framework_call_def hooked_once_def call_method_once del: call_method.simps)

lemma patched_hooked:
  "hooked_once b (w_main w) \<Longrightarrow> hooked_once b (w_side w) \<Longrightarrow> hooked_once b (patched_of k w)"
  by (cases k) (simp_all add: patched_of_def)

lemma update_keys: "fst ` set (AList.update k v d) = insert k (fst ` set d)"
  by (induction d) auto

lemma run_alone_begin: "run_alone S \<lparr>lr_prompt = p, lr_failed = e, lr_calls = []\<rparr>
    = fst (run_hooks (se_hooks S) (Before_Agent p) new_context)"
  by (simp add: run_alone_def)

lemma run_alone_call: "run_alone S (r\<lparr>lr_calls := lr_calls r @ [(k, x, y)]\<rparr>) = fst (observed_call S k x y (run_alone S r))"
  by (simp add: run_alone_def)

lemma agent_invD:
  assumes "agent_inv S W"
  defines "w \<equiv> aw_wrapper W"
  shows "distinct (map fst (w_contexts w))" "fst ` set (w_contexts w) = dom (aw_live W) \<union> aw_leaked W"
    "dom (aw_live W) \<inter> aw_leaked W = {}" "fst ` set (w_contexts w) \<subseteq> aw_seen W"
    "hooked_once (w_contexts w \<noteq> []) (w_main w)" "hooked_once (w_contexts w \<noteq> []) (w_side w)"
    "aw_live W tid = Some r \<Longrightarrow> map_of (w_contexts w) tid = Some (run_alone S r)"
  using assms(1) unfolding agent_inv_def Let_def w_def by blast+

lemma live_run_hooked:
  assumes "agent_inv S W" "aw_live W tid = Some r"
  shows "tid \<in> fst ` set (w_contexts (aw_wrapper W))" "map_of (w_contexts (aw_wrapper W)) tid = Some (run_alone S r)"
    "hooked_once True (w_main (aw_wrapper W))" "hooked_once True (w_side (aw_wrapper W))"
proof -
  show key: "tid \<in> fst ` set (w_contexts (aw_wrapper W))" using agent_invD(2)[OF assms(1)] assms(2) by auto
  show "map_of (w_contexts (aw_wrapper W)) tid = Some (run_alone S r)" using agent_invD(7)[OF assms] .
  have "w_contexts (aw_wrapper W) \<noteq> []" using key by auto
  then show "hooked_once True (w_main (aw_wrapper W))" "hooked_once True (w_side (aw_wrapper W))"
    using agent_invD(5,6)[OF assms(1)] by simp_all
qed

lemma update_append: "k \<notin> fst ` set d \<Longrightarrow> AList.update k v (d @ [(k, u)]) = d @ [(k, v)]"
  by (induction d) auto

lemma begin_keeps_inv:
  assumes "agent_inv S W" "tid \<notin> aw_seen W" "begin_run S tid p (aw_wrapper W) = (w, e)"
  shows "agent_inv S (W\<lparr>aw_wrapper := w, aw_seen := insert tid (aw_seen W),
      aw_live := (aw_live W)(tid \<mapsto> \<lparr>lr_prompt = p, lr_failed = e, lr_calls = []\<rparr>)\<rparr>)"
proof -
  have fresh: "tid \<notin> fst ` set (w_contexts (aw_wrapper W))" and old: "tid \<notin> dom (aw_live W)" "tid \<notin> aw_leaked W"
    using assms(1,2) by (auto simp: agent_inv_def Let_def)
  have none: "map_of (w_contexts (aw_wrapper W)) tid = None" using fresh by (simp add: map_of_eq_None_iff)
  note entered = enter_run_hooks[OF fresh agent_invD(5,6)[OF assms(1)]]
  have cs: "w_contexts w = w_contexts (aw_wrapper W) @ [(tid, run_alone S \<lparr>lr_prompt = p, lr_failed = e, lr_calls = []\<rparr>)]"
    and slots: "w_main w = w_main (enter_run tid (aw_wrapper W))" "w_side w = w_side (enter_run tid (aw_wrapper W))"
    using assms(3) entered fresh none
    by (auto simp: begin_run_def Let_def run_alone_begin map_add_def update_append
        split: option.splits prod.splits)
  show ?thesis
    unfolding agent_inv_def Let_def
  proof (intro conjI allI impI, goal_cases)
    case 1 then show ?case using agent_invD(1)[OF assms(1)] fresh by (auto simp: cs)
  next
    case 2 then show ?case using agent_invD(2)[OF assms(1)] by (auto simp: cs)
  next
    case 3 then show ?case using agent_invD(3)[OF assms(1)] old by auto
  next
    case 4 then show ?case using agent_invD(4)[OF assms(1)] by (auto simp: cs)
  next
    case (7 t r)
    then show ?case using agent_invD(7)[OF assms(1), of t r] none by (auto simp: cs map_add_def split: if_splits)
  qed (use entered in \<open>simp_all add: cs slots\<close>)
qed

lemma call_keeps_inv:
  assumes "agent_inv S W" "aw_live W tid = Some r" "0 < se_depth S"
    "framework_call S tid k x y (aw_wrapper W) = (w, z)"
  shows "agent_inv S (W\<lparr>aw_wrapper := w, aw_live := (aw_live W)(tid \<mapsto> r\<lparr>lr_calls := lr_calls r @ [(k, x, y)]\<rparr>)\<rparr>)"
proof -
  let ?w = "aw_wrapper W"
  note live = live_run_hooked[OF assms(1,2)]
  have w: "w = ?w\<lparr>w_contexts := AList.update tid (fst (observed_call S k x y (run_alone S r))) (w_contexts ?w)\<rparr>"
    using assms(4) framework_call_hooked[OF patched_hooked[OF live(3,4)] live(2) assms(3)] by (simp split: prod.splits)
  show ?thesis
    using assms(1,2) live
    by (auto simp: agent_inv_def Let_def w update_conv' update_keys run_alone_call distinct_update)
qed

lemma finish_keeps_inv:
  assumes "agent_inv S W" "aw_live W tid = Some r" "se_framework S = Llama_Index_Agent"
  shows "agent_inv S (W\<lparr>aw_wrapper := leave_run S tid (aw_wrapper W), aw_live := (aw_live W)(tid := None)\<rparr>)"
proof -
  let ?w = "aw_wrapper W"
  note live = live_run_hooked[OF assms(1,2)]
  note left = leave_run_hooks[OF agent_invD(1)[OF assms(1)] live(1,3,4) assms(3)]
  show ?thesis
    using assms(1,2) left
    by (auto simp: agent_inv_def Let_def delete_keys distinct_delete delete_conv')
qed

lemma agent_inv_reachable:
  assumes "agent_reachable S W" "se_framework S = Llama_Index_Agent" "0 < se_depth S"
  shows "agent_inv S W"
  using assms(1) unfolding agent_reachable_def
proof (induction rule: rtranclp_induct)
  case base
  show ?case by (simp add: agent_inv_def idle_agent_def new_wrapper_def unpatched_def hooked_once_def)
next
  case (step W W')
  from step(2,3) show ?case
  proof (cases rule: agent_step.cases)
    case run_begins then show ?thesis using begin_keeps_inv[OF step(3)] by blast
  next
    case run_calls then show ?thesis using call_keeps_inv[OF step(3) _ assms(3)] by blast
  next
    case (run_finishes tid r out w fin)
    have "w = leave_run S tid (aw_wrapper W)" using run_finishes(4) by (simp add: finish_run_def)
    then show ?thesis using finish_keeps_inv[OF step(3) run_finishes(2) assms(2)] run_finishes(1) by simp
  next
    case run_cancelled then show ?thesis using step(3) by (auto simp: agent_inv_def Let_def)
  qed
qed


text \<open>Two runs under way, the first having called the model.\<close>

definition begins :: "agent_settings \<Rightarrow> nat \<Rightarrow> string \<Rightarrow> agent_world \<Rightarrow> agent_world" where
  "begins S tid p W = W\<lparr>aw_wrapper := fst (begin_run S tid p (aw_wrapper W)), aw_seen := insert tid (aw_seen W),
     aw_live := (aw_live W)(tid \<mapsto> \<lparr>lr_prompt = p, lr_failed = snd (begin_run S tid p (aw_wrapper W)), lr_calls = []\<rparr>)\<rparr>"

lemma begins_reachable: "agent_reachable S W \<Longrightarrow> tid \<notin> aw_seen W \<Longrightarrow> agent_reachable S (begins S tid p W)"
  unfolding agent_reachable_def begins_def
  by (rule rtranclp.rtrancl_into_rtrancl, assumption, rule run_begins, assumption, rule surjective_pairing)

definition logging_hook :: hook where
  "logging_hook p c = (c\<lparr>rc_trace := rc_trace c @ (case p of Before_Agent s \<Rightarrow> [s] | Before_Llm s \<Rightarrow> [s] | _ \<Rightarrow> [])\<rparr>, None)"

definition agent_settings0 :: agent_settings where
  "agent_settings0 = \<lparr>se_framework = Llama_Index_Agent, se_hooks = [logging_hook], se_model = ''m'', se_depth = 5\<rparr>"

definition two_runs :: agent_world where
  "two_runs = begins agent_settings0 2 ''b'' (begins agent_settings0 1 ''a'' idle_agent)"

lemma two_runs_reachable: "agent_reachable agent_settings0 two_runs"
  unfolding two_runs_def
  by (intro begins_reachable) (simp_all add: agent_reachable_def begins_def idle_agent_def)


section \<open>Where isolation ends\<close>

text \<open>A hooked method that saved itself never answers, whatever the recursion limit.\<close>

lemma self_call_raises: "isl (snd (call_method depth cbs f pre post (Some Hooked) Hooked x y c))"
proof (induction depth arbitrary: c)
  case (Suc n)
  obtain c1 e where first: "run_hooks cbs (pre x) (f c) = (c1, e)" by fastforce
  obtain c2 e2 where "call_method n cbs f pre post (Some Hooked) Hooked x y c1 = (c2, Inl e2)"
    using Suc[of c1] by (metis isl_def prod.collapse)
  then show ?case by (simp add: first split: option.split)
qed simp

lemma self_patched_raises:
  assumes "pa_method (patched_of k w) = Hooked" "pa_saved (patched_of k w) = Some Hooked"
  shows "isl (snd (framework_call S tid k x y w))"
proof (cases "map_of (w_contexts w) tid")
  case (Some c)
  show ?thesis
    using self_call_raises[of "se_depth S" "se_hooks S" "note_model (se_model S) k" "hook_before (se_framework S) k"
        "hook_after (se_framework S) k" x y c]
    by (simp add: framework_call_def Let_def assms Some case_prod_beta)
qed (simp add: framework_call_def Let_def assms)

lemma begin_first: "w_contexts w = [] \<Longrightarrow> \<exists>c. fst (begin_run S t p w) = (wrap_agent w)\<lparr>w_contexts := [(t, c)]\<rparr>"
  by (auto simp: begin_run_def enter_run_def wrap_agent_def Let_def split: prod.split)

lemma begin_again: "w_contexts w = [(t, c)] \<Longrightarrow> \<exists>c'. fst (begin_run S t p w) = (wrap_agent w)\<lparr>w_contexts := [(t, c')]\<rparr>"
  by (auto simp: begin_run_def enter_run_def wrap_agent_def Let_def split: prod.split)

lemma finish_wrapper:
  "w_contexts w = [(t, c)] \<Longrightarrow> fst (finish_run S t p r w) = (unwrap_agent (se_framework S) w)\<lparr>w_contexts := []\<rparr>"
  "w_contexts w = [] \<Longrightarrow> fst (finish_run S t p r w) = w"
  by (simp_all add: finish_run_def leave_run_def Let_def unwrap_agent_def split: framework.split)

lemma no_contexts: "w_contexts new_wrapper = []"
  by (simp add: new_wrapper_def)

lemmas patching = wrap_agent_def unwrap_agent_def patch_def unpatch_def patched_of_def new_wrapper_def unpatched_def


text \<open>An Agno agent executes tools in its first run only: the tool method is not put back after it, so the
  second run saves the hooked method as the original one, and from then on a tool call recurses without end. Model
  calls are not affected.\<close>

theorem agno_tools_fail_from_second_run:
  assumes "se_framework S = Agno_Agent" "0 < se_depth S"
  shows "let w1 = fst (begin_run S t p new_wrapper); w3 = fst (begin_run S u q (fst (finish_run S t p out w1)))
    in (\<exists>c. snd (framework_call S t Side_Call x y w1) = snd (observed_call S Side_Call x y c))
      \<and> (\<exists>c. snd (framework_call S u Main_Call x y w3) = snd (observed_call S Main_Call x y c))
      \<and> isl (snd (framework_call S u Side_Call x y w3))"
proof -
  obtain c1 where w1: "fst (begin_run S t p new_wrapper) = (wrap_agent new_wrapper)\<lparr>w_contexts := [(t, c1)]\<rparr>" (is "_ = ?w1")
    using begin_first[OF no_contexts] by blast
  let ?w2 = "(unwrap_agent (se_framework S) ?w1)\<lparr>w_contexts := []\<rparr>"
  have w2: "fst (finish_run S t p out ?w1) = ?w2" by (simp add: finish_wrapper)
  obtain c3 where w3: "fst (begin_run S u q ?w2) = (wrap_agent ?w2)\<lparr>w_contexts := [(u, c3)]\<rparr>" (is "_ = ?w3")
    using begin_first[of ?w2 S u q] by force
  have "hooked_once True (patched_of Side_Call ?w1)" "hooked_once True (patched_of Main_Call ?w3)"
    "pa_method (patched_of Side_Call ?w3) = Hooked" "pa_saved (patched_of Side_Call ?w3) = Some Hooked"
    by (simp_all add: patching hooked_once_def assms(1))
  then show ?thesis
    unfolding w1 w2 w3 Let_def
    using framework_call_hooked[of Side_Call ?w1 t c1 S x y] framework_call_hooked[of Main_Call ?w3 u c3 S x y] assms(2)
    by (auto simp: case_prod_beta intro!: self_patched_raises)
qed

lemma agno_tools_fail_from_second_run_witness:
  "let S = agent_settings0\<lparr>se_framework := Agno_Agent\<rparr>; w1 = fst (begin_run S 1 ''a'' new_wrapper);
       w3 = fst (begin_run S 2 ''b'' (fst (finish_run S 1 ''a'' (Inr ''out'') w1)))
   in isl (snd (framework_call S 2 Side_Call ''tool'' (Inr ''4'') w3))"
  using agno_tools_fail_from_second_run[of "agent_settings0\<lparr>se_framework := Agno_Agent\<rparr>" 1 "''a''" 2 "''b''" "Inr ''out''" "''tool''" "Inr ''4''"]
  by (simp add: agent_settings0_def Let_def)

section \<open>How a run ends\<close>

text \<open>An \<open>AgentCancel\<close> is found behind explicit causes, or behind contexts where there is no cause.\<close>

inductive chained :: "py_exc \<Rightarrow> py_exc \<Rightarrow> bool" where
  chained_self: "chained e e"
| chained_cause: "chained e e' \<Longrightarrow> class_of x = Plain_Exception \<Longrightarrow> cause_of x = Some e \<Longrightarrow> chained x e'"
| chained_context: "chained e e' \<Longrightarrow> class_of x = Plain_Exception \<Longrightarrow> cause_of x = None \<Longrightarrow> context_of x = Some e \<Longrightarrow> chained x e'"

lemma unwrap_agent_cancel_chained: "unwrap_agent_cancel e = Some x \<longleftrightarrow> chained e x \<and> class_of x = Agent_Cancel"
proof
  show "unwrap_agent_cancel e = Some x \<Longrightarrow> chained e x \<and> class_of x = Agent_Cancel"
  proof (induction e rule: unwrap_agent_cancel.induct)
    case (1 k m c d)
    then show ?case
      by (cases k; cases c; cases d) (auto intro: chained_self chained_cause chained_context)
  qed
  have "chained e x \<Longrightarrow> class_of x = Agent_Cancel \<Longrightarrow> unwrap_agent_cancel e = Some x"
  proof (induction rule: chained.induct)
    case (chained_self e) then show ?case by (cases e) auto
  next
    case (chained_cause e e' x) then show ?case by (cases x) auto
  next
    case (chained_context e e' x) then show ?case by (cases x) auto
  qed
  then show "chained e x \<and> class_of x = Agent_Cancel \<Longrightarrow> unwrap_agent_cancel e = Some x" by blast
qed

text \<open>A run that raised ends in the cancellation it finds, else in an error with the trace so far; only the hooks of
  the end of a run can replace that, by an exception of their own. One that is raised while another one is handled, and
  names a cause, hides a cancellation among what was being handled.\<close>

lemma run_hooks_raises: "run_hooks hs p c = (c', Some x) \<Longrightarrow> \<exists>h d d'. h \<in> set hs \<and> h p d = (d', Some x)"
proof (induction hs arbitrary: c)
  case (Cons h hs)
  show ?case
  proof (cases "snd (h p c)")
    case None
    then have "run_hooks hs p (fst (h p c)) = (c', Some x)" using Cons.prems by (simp add: case_prod_beta)
    then show ?thesis using Cons.IH by (meson list.set_intros(2))
  next
    case (Some y)
    then have "h p c = (c', Some x)" using Cons.prems by (simp add: case_prod_beta prod_eq_iff)
    then show ?thesis by (meson list.set_intros(1))
  qed
qed simp

lemma raised_run_ends:
  assumes "snd (finish_run S tid p (Inl e) w) = fin"
  shows "(\<exists>x tr. fin = Run_Cancelled x tr \<and> chained e x \<and> class_of x = Agent_Cancel)
    \<or> (\<exists>tr. fin = Run_Error e tr \<and> \<not> (\<exists>x. chained e x \<and> class_of x = Agent_Cancel))
    \<or> (\<exists>h c c' x. h \<in> set (se_hooks S) \<and> h (After_Agent p) c = (c', Some x) \<and> fin = Callback_Error x)"
proof -
  have raised: "(\<exists>x. raised_end e tr = Run_Cancelled x tr \<and> chained e x \<and> class_of x = Agent_Cancel)
      \<or> raised_end e tr = Run_Error e tr \<and> \<not> (\<exists>x. chained e x \<and> class_of x = Agent_Cancel)" for tr
    using unwrap_agent_cancel_chained[of e] chained_self[of e]
    by (cases "unwrap_agent_cancel e") (auto simp: raised_end_def)
  show ?thesis
  proof (cases "map_of (w_contexts w) tid")
    case None
    then show ?thesis using assms raised[of "[''invoke_agent'']"] by (auto simp: finish_run_def Let_def)
  next
    case (Some c)
    obtain c' x where h: "run_hooks (se_hooks S) (After_Agent p) c = (c', x)" by fastforce
    show ?thesis
    proof (cases x)
      case None
      then show ?thesis
        using assms raised[of "rc_trace c' @ [''invoke_agent'']"] by (auto simp: finish_run_def Let_def Some h)
    next
      case (Some y)
      have "\<exists>g d d'. g \<in> set (se_hooks S) \<and> g (After_Agent p) d = (d', Some y)"
        using run_hooks_raises h Some by blast
      moreover have "fin = Callback_Error y" using assms \<open>map_of _ _ = _\<close> by (simp add: finish_run_def Let_def h Some)
      ultimately show ?thesis by blast
    qed
  qed
qed

lemma hidden_cancel:
  "raised_end (Py_Exc Plain_Exception m (Some (plain_exc n)) (Some (Py_Exc Agent_Cancel s None None))) tr
     = Run_Error (Py_Exc Plain_Exception m (Some (plain_exc n)) (Some (Py_Exc Agent_Cancel s None None))) tr"
  by (simp add: raised_end_def plain_exc_def)

lemma add_span_callbacks_idem: "add_span_callbacks (add_span_callbacks cs g e) g e = add_span_callbacks cs g e"
  by (cases cs) (auto simp: add_span_callbacks_def Let_def)

end
