(* ===== verification/A2a.thy ===== *)
theory A2a
  imports Agents
begin

text \<open>
  Serving an agent over A2A (\<open>any_agent/serving/a2a\<close>): the conversations kept per context id
  (\<open>context_manager.py\<close>), the history put before a query (\<open>config_a2a.py\<close>) and the execution of a request
  (\<open>agent_executor.py\<close>), whose two halves, around the run of the agent, are separate because other requests
  are served in between. Instants are microseconds; a method reads the clock once. The messages of a trace, which another package
  extracts, come with the trace.
\<close>

section \<open>Conversations\<close>

record agent_message =
  am_role :: string
  am_content :: string

record context_data =
  conversation_history :: "agent_message list"
  last_activity :: int
  created_at :: int

definition new_context_data :: "int \<Rightarrow> context_data" where
  "new_context_data now = \<lparr>conversation_history = [], last_activity = now, created_at = now\<rparr>"

definition context_expired :: "int \<Rightarrow> int \<Rightarrow> context_data \<Rightarrow> bool" where
  "context_expired minutes now c \<longleftrightarrow> last_activity c + minutes * 60000000 < now"

record context_manager =
  cm_tasks :: "(string, context_data) dict"
  cm_last_cleanup :: "int option"

definition new_manager :: context_manager where
  "new_manager = \<lparr>cm_tasks = [], cm_last_cleanup = None\<rparr>"

definition remove_context :: "string \<Rightarrow> context_manager \<Rightarrow> context_manager" where
  "remove_context i m = m\<lparr>cm_tasks := AList.delete i (cm_tasks m)\<rparr>"

definition cleanup_expired_contexts :: "int \<Rightarrow> int \<Rightarrow> context_manager \<Rightarrow> context_manager" where
  "cleanup_expired_contexts minutes now m =
     (fold remove_context (map fst (filter (\<lambda>(i, c). context_expired minutes now c) (cm_tasks m))) m)\<lparr>cm_last_cleanup := Some now\<rparr>"

definition add_context :: "int \<Rightarrow> int \<Rightarrow> string \<Rightarrow> context_manager \<Rightarrow> context_manager" where
  "add_context minutes now i m = (let m' = cleanup_expired_contexts minutes now m
     in m'\<lparr>cm_tasks := AList.update i (new_context_data now) (cm_tasks m')\<rparr>)"

definition get_context :: "int \<Rightarrow> int \<Rightarrow> string \<Rightarrow> context_manager \<Rightarrow> context_manager \<times> context_data option" where
  "get_context minutes now i m = (case map_of (cm_tasks m) i of
     None \<Rightarrow> (m, None)
   | Some c \<Rightarrow> if context_expired minutes now c then (remove_context i m, None)
       else let c' = c\<lparr>last_activity := now\<rparr> in (m\<lparr>cm_tasks := AList.update i c' (cm_tasks m)\<rparr>, Some c'))"

text \<open>The messages of a trace with the query in place of the first user message, or the \<open>ValueError\<close>.\<close>

fun restore_query :: "string \<Rightarrow> agent_message list \<Rightarrow> (string, agent_message list) result" where
  "restore_query q [] = Inl ''No user message found in trace.''"
| "restore_query q (a # as) =
     (if am_role a = ''user''
      then if contains q (am_content a) then Inr (a\<lparr>am_content := q\<rparr> # as)
        else Inl (''Original query '' @ quoted q @ '' not found in first user message content.'')
      else (case restore_query q as of Inl e \<Rightarrow> Inl e | Inr bs \<Rightarrow> Inr (a # bs)))"

definition update_context_trace :: "int \<Rightarrow> int \<Rightarrow> string \<Rightarrow> agent_message list \<Rightarrow> string \<Rightarrow> context_manager
    \<Rightarrow> context_manager \<times> string option" where
  "update_context_trace minutes now i msgs q m = (case get_context minutes now i m of
     (m', None) \<Rightarrow> (m', None)
   | (m', Some c) \<Rightarrow> (case restore_query q msgs of
       Inl e \<Rightarrow> (m', Some e)
     | Inr ms \<Rightarrow> (m'\<lparr>cm_tasks := AList.update i
         (c\<lparr>conversation_history := conversation_history c @ ms, last_activity := now\<rparr>) (cm_tasks m')\<rparr>, None)))"

definition format_query_with_history :: "int \<Rightarrow> (agent_message list \<Rightarrow> string \<Rightarrow> string) \<Rightarrow> int \<Rightarrow> string \<Rightarrow> string
    \<Rightarrow> context_manager \<Rightarrow> context_manager \<times> string" where
  "format_query_with_history minutes formatter now i q m = (case get_context minutes now i m of
     (m', None) \<Rightarrow> (m', q)
   | (m', Some c) \<Rightarrow> (m', formatter (conversation_history c) q))"

text \<open>The formatter used unless another is configured; \<open>str.capitalize\<close> is that of ASCII.\<close>

definition capitalized :: "string \<Rightarrow> string" where
  "capitalized s = (case s of [] \<Rightarrow> [] | c # cs \<Rightarrow>
     (let n = of_char c :: nat in if 97 \<le> n \<and> n \<le> 122 then char_of (n - 32) else c) # py_lower cs)"

definition default_history_formatter :: "agent_message list \<Rightarrow> string \<Rightarrow> string" where
  "default_history_formatter ms q = (if ms = [] then q else
     ''Previous conversation:'' @ [CHR 0x0A]
     @ join [CHR 0x0A] (map (\<lambda>a. capitalized (am_role a) @ '': '' @ am_content a) (filter (\<lambda>a. am_role a \<noteq> ''system'') ms))
     @ [CHR 0x0A]
     @ ''Please respond to the current user message, taking into account the conversation history above.''
     @ ''Current user message: '' @ q @ [CHR 0x0A])"

section \<open>Execution of a request\<close>

text \<open>The callbacks of the agent are one list for all requests.\<close>

datatype callback_entry = Configured nat | Tool_Updater string

record a2a_server =
  as_manager :: context_manager
  as_callbacks :: "callback_entry list"
  as_created :: "string list"

record a2a_config =
  context_timeout :: int
  history_formatter :: "agent_message list \<Rightarrow> string \<Rightarrow> string"
  stream_tool_usage :: bool

text \<open>\<open>ar_message\<close> is the message, if any, with its context id; \<open>ar_new\<close> the id a task made of it gets.\<close>

record a2a_request =
  ar_query :: string
  ar_message :: "string option option"
  ar_task :: "string option"
  ar_new :: string

datatype served_output = Envelope string string | Other_Model | No_Model

record served_trace =
  st_messages :: "agent_message list"
  st_output :: served_output

text \<open>What the run ended in: a trace, an \<open>AgentRunError\<close> with the trace so far, or another exception.\<close>

datatype served_run = Served served_trace | Failed_Run served_trace | Escaped_Run

datatype executed = Final_Status string string | Exec_Value_Error string | Exec_Type_Error | Exec_Escaped

definition context_id_of :: "string option \<Rightarrow> string" where
  "context_id_of i = (case i of Some s \<Rightarrow> s | None \<Rightarrow> [])"

definition task_id_of :: "a2a_request \<Rightarrow> string" where
  "task_id_of r = (case ar_task r of Some t \<Rightarrow> t | None \<Rightarrow> ar_new r)"

definition open_context :: "int \<Rightarrow> int \<Rightarrow> string \<Rightarrow> context_manager \<Rightarrow> context_manager" where
  "open_context minutes now i m = (case get_context minutes now i m of
     (m', None) \<Rightarrow> add_context minutes now i m' | (m', Some c) \<Rightarrow> m')"

text \<open>\<open>execute\<close> up to the run: the query the agent gets; \<^const>\<open>None\<close> is the \<open>AttributeError\<close> of a request without a
  message, which comes before the check for one.\<close>

definition begin_execute :: "a2a_config \<Rightarrow> int \<Rightarrow> a2a_request \<Rightarrow> a2a_server \<Rightarrow> a2a_server \<times> string option" where
  "begin_execute C now r s = (case ar_message r of
     None \<Rightarrow> (s, None)
   | Some cid \<Rightarrow> (let i = context_id_of cid;
         (m, q) = format_query_with_history (context_timeout C) (history_formatter C) now i (ar_query r)
           (open_context (context_timeout C) now i (as_manager s))
       in (\<lparr>as_manager = m,
            as_callbacks = as_callbacks s @ (if stream_tool_usage C then [Tool_Updater (task_id_of r)] else []),
            as_created = as_created s @ (if ar_task r = None then [ar_new r] else [])\<rparr>, Some q)))"

text \<open>The tasks told of a tool the agent starts or ends, in whichever run.\<close>

definition told_of_tools :: "a2a_server \<Rightarrow> string list" where
  "told_of_tools s = List.map_filter (\<lambda>c. case c of Tool_Updater t \<Rightarrow> Some t | Configured _ \<Rightarrow> None) (as_callbacks s)"

text \<open>\<open>execute\<close> after the run.\<close>

definition served_status :: "served_output \<Rightarrow> executed" where
  "served_status out = (case out of Envelope st tx \<Rightarrow> Final_Status st tx | Other_Model \<Rightarrow> Exec_Type_Error | No_Model \<Rightarrow> Exec_Type_Error)"

definition settle_execute :: "a2a_config \<Rightarrow> int \<Rightarrow> a2a_request \<Rightarrow> string \<Rightarrow> served_trace \<Rightarrow> a2a_server \<Rightarrow> a2a_server \<times> executed" where
  "settle_execute C now r i tr s =
     (let cs = (if stream_tool_usage C then butlast (as_callbacks s) else as_callbacks s)
      in case update_context_trace (context_timeout C) now i (st_messages tr) (ar_query r) (as_manager s) of
           (m, e) \<Rightarrow> (s\<lparr>as_manager := m, as_callbacks := cs\<rparr>,
             case e of Some x \<Rightarrow> Exec_Value_Error x | None \<Rightarrow> served_status (st_output tr)))"

definition end_execute :: "a2a_config \<Rightarrow> int \<Rightarrow> a2a_request \<Rightarrow> served_run \<Rightarrow> a2a_server \<Rightarrow> a2a_server \<times> executed" where
  "end_execute C now r run s = (case ar_message r of
     None \<Rightarrow> (s, Exec_Escaped)
   | Some cid \<Rightarrow> (case run of
       Served tr \<Rightarrow> settle_execute C now r (context_id_of cid) tr s
     | Failed_Run tr \<Rightarrow> settle_execute C now r (context_id_of cid) tr s
     | Escaped_Run \<Rightarrow> (s, Exec_Escaped)))"

section \<open>What a conversation is worth\<close>

text \<open>The history a request of a context later or now is given.\<close>

definition recent_history :: "int \<Rightarrow> int \<Rightarrow> string \<Rightarrow> context_manager \<Rightarrow> agent_message list option" where
  "recent_history minutes later i m = (case map_of (cm_tasks m) i of
     None \<Rightarrow> None
   | Some c \<Rightarrow> if context_expired minutes later c then None else Some (conversation_history c))"

lemma still_expired: "context_expired minutes now c \<Longrightarrow> now \<le> later \<Longrightarrow> context_expired minutes later c"
  by (simp add: context_expired_def)

lemma removed_tasks: "map_of (cm_tasks (fold remove_context is m)) j = (if j \<in> set is then None else map_of (cm_tasks m) j)"
  by (induction "is" arbitrary: m) (auto simp: remove_context_def delete_conv')

lemma recent_after_cleanup:
  assumes "distinct (map fst (cm_tasks m))" "now \<le> later"
  shows "recent_history minutes later j (cleanup_expired_contexts minutes now m) = recent_history minutes later j m"
proof -
  have "context_expired minutes later c" if "(j, d) \<in> set (cm_tasks m)" "context_expired minutes now d" "map_of (cm_tasks m) j = Some c" for c d
    using that assms still_expired map_of_is_SomeI by fastforce
  then show ?thesis
    by (auto simp: recent_history_def cleanup_expired_contexts_def removed_tasks split: option.split)
qed

text \<open>An operation on one context leaves what every other is worth, at any later instant.\<close>

definition same_worth :: "int \<Rightarrow> int \<Rightarrow> string \<Rightarrow> context_manager \<Rightarrow> context_manager \<Rightarrow> bool" where
  "same_worth minutes later j m m' \<longleftrightarrow> recent_history minutes later j m' = recent_history minutes later j m"

definition manager_ok :: "context_manager \<Rightarrow> bool" where
  "manager_ok m \<longleftrightarrow> distinct (map fst (cm_tasks m))"

lemma manager_ok_fold_remove: "manager_ok m \<Longrightarrow> manager_ok (fold remove_context is m)"
  by (induction "is" arbitrary: m) (auto simp: remove_context_def manager_ok_def distinct_delete)

lemma manager_ok_simps [simp]:
  "manager_ok m \<Longrightarrow> manager_ok (remove_context i m)"
  "manager_ok m \<Longrightarrow> manager_ok (m\<lparr>cm_tasks := AList.update i c (cm_tasks m)\<rparr>)"
  "manager_ok m \<Longrightarrow> manager_ok (m\<lparr>cm_last_cleanup := t\<rparr>)"
  by (simp_all add: remove_context_def manager_ok_def distinct_delete distinct_update)

lemma manager_ok_add [simp]: "manager_ok m \<Longrightarrow> manager_ok (add_context minutes now i m)"
  using manager_ok_fold_remove[of m] by (simp add: add_context_def cleanup_expired_contexts_def Let_def manager_ok_def distinct_update)

lemma manager_ok_get [simp]: "manager_ok m \<Longrightarrow> manager_ok (fst (get_context minutes now i m))"
  by (simp add: get_context_def Let_def split: option.split)

lemma same_worth_get: "i \<noteq> j \<Longrightarrow> same_worth minutes later j m (fst (get_context minutes now i m))"
  by (auto simp: same_worth_def get_context_def recent_history_def remove_context_def delete_conv' update_conv' Let_def
      split: option.split)

lemma same_worth_add:
  assumes "i \<noteq> j" "manager_ok m" "now \<le> later"
  shows "same_worth minutes later j m (add_context minutes now i m)"
  using recent_after_cleanup[of m now later minutes j] assms
  by (simp add: same_worth_def add_context_def Let_def recent_history_def update_conv' manager_ok_def)

lemma same_worth_update: "i \<noteq> j \<Longrightarrow> same_worth minutes later j m (fst (update_context_trace minutes now i ms q m))"
  using same_worth_get[of i j minutes later m now]
  by (auto simp: same_worth_def update_context_trace_def recent_history_def update_conv' split: prod.split option.split sum.split)

lemma same_worth_format: "i \<noteq> j \<Longrightarrow> same_worth minutes later j m (fst (format_query_with_history minutes f now i q m))"
  using same_worth_get[of i j minutes later m now]
  by (auto simp: same_worth_def format_query_with_history_def split: prod.split option.split)

lemma same_worth_trans: "same_worth minutes later j m m' \<Longrightarrow> same_worth minutes later j m' m'' \<Longrightarrow> same_worth minutes later j m m''"
  by (simp add: same_worth_def)

lemma same_worth_open:
  assumes "i \<noteq> j" "manager_ok m" "now \<le> later"
  shows "same_worth minutes later j m (open_context minutes now i m)"
  using same_worth_get[OF assms(1), of minutes later m now] same_worth_add[OF assms(1) manager_ok_get[OF assms(2)] assms(3), of minutes minutes now i]
  by (auto simp: open_context_def split: prod.split option.split intro: same_worth_trans)

lemma begin_execute_manager: "ar_message r = Some cid \<Longrightarrow> as_manager (fst (begin_execute C now r s))
    = fst (format_query_with_history (context_timeout C) (history_formatter C) now (context_id_of cid) (ar_query r)
        (open_context (context_timeout C) now (context_id_of cid) (as_manager s)))"
  by (simp add: begin_execute_def case_prod_beta Let_def)

lemma begin_same_worth:
  assumes "ar_message r = Some cid" "context_id_of cid \<noteq> j" "manager_ok (as_manager s)" "now \<le> later"
  shows "same_worth (context_timeout C) later j (as_manager s) (as_manager (fst (begin_execute C now r s)))"
  unfolding begin_execute_manager[OF assms(1)]
  by (rule same_worth_trans[OF same_worth_open[OF assms(2-4)] same_worth_format[OF assms(2)]])

lemma settle_manager: "as_manager (fst (settle_execute C now r i tr s))
    = fst (update_context_trace (context_timeout C) now i (st_messages tr) (ar_query r) (as_manager s))"
  by (simp add: settle_execute_def Let_def case_prod_beta)

lemma end_same_worth:
  assumes "ar_message r = Some cid" "context_id_of cid \<noteq> j"
  shows "same_worth (context_timeout C) later j (as_manager s) (as_manager (fst (end_execute C now r run s)))"
  using same_worth_update[OF assms(2)]
  by (cases run) (simp_all add: end_execute_def assms(1) settle_manager, simp add: same_worth_def)

section \<open>Requests in between\<close>

text \<open>The halves of requests, each at an instant.\<close>

datatype a2a_event = Request_Begins int a2a_request | Request_Ends int a2a_request served_run

fun after_event :: "a2a_config \<Rightarrow> a2a_event \<Rightarrow> a2a_server \<Rightarrow> a2a_server" where
  "after_event C (Request_Begins now r) s = fst (begin_execute C now r s)"
| "after_event C (Request_Ends now r run) s = fst (end_execute C now r run s)"

definition after_events :: "a2a_config \<Rightarrow> a2a_event list \<Rightarrow> a2a_server \<Rightarrow> a2a_server" where
  "after_events C = fold (after_event C)"

text \<open>Events of other contexts, up to an instant.\<close>

fun elsewhere :: "string \<Rightarrow> int \<Rightarrow> a2a_event \<Rightarrow> bool" where
  "elsewhere i later (Request_Begins now r) \<longleftrightarrow> map_option context_id_of (ar_message r) \<noteq> Some i \<and> now \<le> later"
| "elsewhere i later (Request_Ends now r run) \<longleftrightarrow> map_option context_id_of (ar_message r) \<noteq> Some i"

lemma manager_ok_got: "get_context minutes now i m = (m', c) \<Longrightarrow> manager_ok m \<Longrightarrow> manager_ok m'"
  using manager_ok_get[of m minutes now i] by simp

lemma manager_ok_update [simp]: "manager_ok m \<Longrightarrow> manager_ok (fst (update_context_trace minutes now i ms q m))"
  by (auto simp: update_context_trace_def split: prod.split option.split sum.split dest: manager_ok_got)

lemma manager_ok_open: "manager_ok m \<Longrightarrow> manager_ok (open_context minutes now i m)"
  by (auto simp: open_context_def split: prod.split option.split dest: manager_ok_got)

lemma manager_ok_format: "manager_ok m \<Longrightarrow> manager_ok (fst (format_query_with_history minutes f now i q m))"
  by (auto simp: format_query_with_history_def split: prod.split option.split dest: manager_ok_got)

lemma manager_ok_event [simp]: "manager_ok (as_manager s) \<Longrightarrow> manager_ok (as_manager (after_event C e s))"
proof (cases e)
  case (Request_Begins now r)
  assume ok: "manager_ok (as_manager s)"
show ?thesis using ok manager_ok_open manager_ok_format
    by (cases "ar_message r") (simp_all add: Request_Begins begin_execute_manager, simp add: begin_execute_def)
next
  case (Request_Ends now r run)
  assume "manager_ok (as_manager s)"
  then show ?thesis
    by (cases "ar_message r"; cases run) (simp_all add: Request_Ends end_execute_def settle_manager)
qed

lemma event_same_worth:
  assumes "elsewhere i later e" "manager_ok (as_manager s)"
  shows "same_worth (context_timeout C) later i (as_manager s) (as_manager (after_event C e s))"
proof (cases e)
  case (Request_Begins now r)
  then show ?thesis
    using assms begin_same_worth[of r _ i s now later C]
    by (cases "ar_message r") (simp_all add: same_worth_def begin_execute_def)
next
  case (Request_Ends now r run)
  then show ?thesis
    using assms end_same_worth[of r _ i C later s now run]
    by (cases "ar_message r") (simp_all add: same_worth_def end_execute_def)
qed

lemma events_same_worth:
  "list_all (elsewhere i later) es \<Longrightarrow> manager_ok (as_manager s) \<Longrightarrow>
    same_worth (context_timeout C) later i (as_manager s) (as_manager (after_events C es s))"
proof (induction es arbitrary: s)
  case (Cons e es)
  then show ?case
    using same_worth_trans[OF event_same_worth Cons.IH] by (simp add: after_events_def)
qed (simp add: after_events_def same_worth_def)

lemma get_recent:
  assumes "0 \<le> minutes"
  shows "map_option conversation_history (snd (get_context minutes now i m)) = recent_history minutes now i m"
    "recent_history minutes now i m = Some h \<Longrightarrow> now \<le> later \<Longrightarrow> later \<le> now + minutes * 60000000 \<Longrightarrow>
      recent_history minutes later i (fst (get_context minutes now i m)) = Some h"
  using assms
  by (auto simp: get_context_def recent_history_def Let_def update_conv' context_expired_def split: option.splits if_splits)

lemma add_recent: "now \<le> later \<Longrightarrow> later \<le> now + minutes * 60000000 \<Longrightarrow>
    recent_history minutes later i (add_context minutes now i m) = Some []"
  by (simp add: add_context_def Let_def recent_history_def update_conv' context_expired_def new_context_data_def)

lemma open_recent:
  assumes "0 \<le> minutes" "now \<le> later" "later \<le> now + minutes * 60000000"
  shows "recent_history minutes later i (open_context minutes now i m)
    = Some (case recent_history minutes now i m of Some h \<Rightarrow> h | None \<Rightarrow> [])"
proof (cases "map_of (cm_tasks m) i")
  case None
  then have "open_context minutes now i m = add_context minutes now i m" "recent_history minutes now i m = None"
    by (simp_all add: open_context_def get_context_def recent_history_def)
  then show ?thesis using add_recent[OF assms(2,3)] by simp
next
  case (Some c)
  show ?thesis
  proof (cases "context_expired minutes now c")
    case True
    then have "open_context minutes now i m = add_context minutes now i (remove_context i m)" "recent_history minutes now i m = None"
      by (simp_all add: open_context_def get_context_def recent_history_def Some)
    then show ?thesis using add_recent[OF assms(2,3)] by simp
  next
    case False
    then show ?thesis using assms
      by (simp add: open_context_def get_context_def recent_history_def Some Let_def update_conv' context_expired_def)
  qed
qed

lemma formatted_query:
  assumes "recent_history minutes now i m = Some h"
  shows "snd (format_query_with_history minutes f now i q m) = f h q"
    and "\<lbrakk>now \<le> later; later \<le> now + minutes * 60000000\<rbrakk> \<Longrightarrow>
      recent_history minutes later i (fst (format_query_with_history minutes f now i q m)) = Some h"
  using assms
  by (auto simp: format_query_with_history_def get_context_def recent_history_def Let_def update_conv' context_expired_def
      split: option.splits if_splits)

lemma updated_recent:
  assumes "recent_history minutes now i m = Some h" "restore_query q msgs = Inr ms" "0 \<le> minutes"
  shows "recent_history minutes now i (fst (update_context_trace minutes now i msgs q m)) = Some (h @ ms)"
  using assms
  by (auto simp: update_context_trace_def get_context_def recent_history_def Let_def update_conv' context_expired_def
      split: option.splits if_splits)

text \<open>C36. A conversation goes on whatever other conversations do meanwhile: the agent is asked the query after the
  recent history of its context, and once the run has ended, within the timeout, that history has grown by the
  messages of the run, its first user message being the query as it was sent.\<close>

theorem conversation_continues:
  assumes "manager_ok (as_manager s)" "ar_message r = Some cid" "i = context_id_of cid"
    and "ta \<le> tb" "tb \<le> ta + context_timeout C * 60000000" "list_all (elsewhere i tb) es"
    and "run = Served tr \<or> run = Failed_Run tr" "restore_query (ar_query r) (st_messages tr) = Inr ms"
    and "begin_execute C ta r s = (sa, q)" "sb = after_events C es sa" "end_execute C tb r run sb = (sc, out)"
    and "h = (case recent_history (context_timeout C) ta i (as_manager s) of Some h \<Rightarrow> h | None \<Rightarrow> [])"
  shows "q = Some (history_formatter C h (ar_query r))
    \<and> recent_history (context_timeout C) tb i (as_manager sc) = Some (h @ ms)"
proof -
  let ?m = "context_timeout C"
  have ok: "0 \<le> ?m" using assms(4,5) by simp
  note opened = open_recent[OF ok, of ta _ i "as_manager s"]
  have h0: "recent_history ?m ta i (open_context ?m ta i (as_manager s)) = Some h"
    using opened[of ta] ok by (simp add: assms(12))
  have m1: "as_manager sa = fst (format_query_with_history ?m (history_formatter C) ta i (ar_query r) (open_context ?m ta i (as_manager s)))"
    using begin_execute_manager[OF assms(2), of C ta s] by (simp add: assms(3,9))
  have q: "q = Some (history_formatter C h (ar_query r))"
    using assms(9) formatted_query(1)[OF h0]
    by (auto simp: begin_execute_def assms(2,3) Let_def case_prod_beta)
  have h1: "recent_history ?m tb i (as_manager sa) = Some h"
    unfolding m1 by (rule formatted_query(2)[OF h0 assms(4,5)])
  have "manager_ok (as_manager sa)"
    using manager_ok_event[OF assms(1), of C "Request_Begins ta r"] by (simp add: assms(9))
  from events_same_worth[OF assms(6) this, of C]
  have h2: "recent_history ?m tb i (as_manager sb) = Some h" by (simp add: same_worth_def h1 assms(10))
  have "as_manager sc = fst (update_context_trace ?m tb i (st_messages tr) (ar_query r) (as_manager sb))"
    using assms(7,11) settle_manager[of C tb r i tr sb] by (auto simp: end_execute_def assms(2,3))
  then show ?thesis using q updated_recent[OF h2 assms(8) ok] by simp
qed

text \<open>One request, and the beginning of one of another context during its run.\<close>

definition a2a_config0 :: a2a_config where
  "a2a_config0 = \<lparr>context_timeout = 10, history_formatter = (\<lambda>h q. q), stream_tool_usage = True\<rparr>"

definition server0 :: a2a_server where
  "server0 = \<lparr>as_manager = new_manager, as_callbacks = [Configured 0], as_created = []\<rparr>"

definition request_of :: "string \<Rightarrow> a2a_request" where
  "request_of i = \<lparr>ar_query = ''hi'', ar_message = Some (Some i), ar_task = None, ar_new = i\<rparr>"

definition trace0 :: served_trace where
  "trace0 = \<lparr>st_messages = [\<lparr>am_role = ''user'', am_content = ''hi''\<rparr>], st_output = Envelope ''completed'' ''x''\<rparr>"

lemma conversation_continues_witness:
  "recent_history 10 5 ''c'' (as_manager (fst (end_execute a2a_config0 5 (request_of ''c'') (Served trace0)
     (after_events a2a_config0 [Request_Begins 3 (request_of ''d'')] (fst (begin_execute a2a_config0 1 (request_of ''c'') server0))))))
   = Some (st_messages trace0)"
  using conversation_continues[where s = server0 and r = "request_of ''c''" and cid = "Some ''c''" and ta = 1 and tb = 5
      and C = a2a_config0 and es = "[Request_Begins 3 (request_of ''d'')]" and run = "Served trace0" and tr = trace0
      and ms = "st_messages trace0" and h = "[]", OF _ _ refl _ _ _ _ _ surjective_pairing refl surjective_pairing]
  by (simp add: server0_def a2a_config0_def request_of_def trace0_def new_manager_def manager_ok_def context_id_of_def
      recent_history_def starts_with_def)

section \<open>Where serving falls short\<close>

text \<open>A run that failed is never reported to the client as a task that failed: its trace has no output, so
  \<open>execute\<close> itself raises, whatever the state.\<close>

theorem failed_run_not_reported:
  assumes "st_output tr = No_Model"
  shows "\<forall>st tx. snd (end_execute C now r (Failed_Run tr) s) \<noteq> Final_Status st tx"
  using assms
  by (auto simp: end_execute_def settle_execute_def served_status_def Let_def case_prod_beta split: option.split)

lemma failed_run_not_reported_witness:
  "snd (end_execute a2a_config0 5 (request_of ''c'') (Failed_Run (trace0\<lparr>st_output := No_Model\<rparr>)) server0) \<noteq> Final_Status ''failed'' ''x''"
  using failed_run_not_reported[of "trace0\<lparr>st_output := No_Model\<rparr>" a2a_config0 5 "request_of ''c''" server0]
  by simp

lemma end_callbacks:
  assumes "ar_message r \<noteq> None" "run \<noteq> Escaped_Run" "stream_tool_usage C"
  shows "as_callbacks (fst (end_execute C now r run s)) = butlast (as_callbacks s)"
  using assms by (cases run) (auto simp: end_execute_def settle_execute_def Let_def case_prod_beta)

lemma begin_callbacks:
  assumes "ar_message r \<noteq> None" "stream_tool_usage C"
  shows "as_callbacks (fst (begin_execute C now r s)) = as_callbacks s @ [Tool_Updater (task_id_of r)]"
  using assms by (auto simp: begin_execute_def Let_def case_prod_beta)

text \<open>One request at a time leaves the callbacks as they were, unless the run raised something other than an
  \<open>AgentRunError\<close>.\<close>

lemma single_request_callbacks:
  assumes "ar_message r \<noteq> None" "stream_tool_usage C"
  shows "as_callbacks (fst (end_execute C t1 r run (fst (begin_execute C t0 r s))))
    = as_callbacks s @ (if run = Escaped_Run then [Tool_Updater (task_id_of r)] else [])"
proof (cases "run = Escaped_Run")
  case True
  then have "fst (end_execute C t1 r run s') = s'" for s' by (cases "ar_message r") (simp_all add: end_execute_def)
  then show ?thesis using True begin_callbacks[OF assms] by simp
next
  case False
  then show ?thesis using begin_callbacks[OF assms] end_callbacks[OF assms(1) False assms(2)] by simp
qed

lemma told_append: "List.map_filter f (xs @ ys) = List.map_filter f xs @ List.map_filter f ys"
  by (simp add: List.map_filter_def)

lemma request_facts:
  "ar_message (request_of i) = Some (Some i)" "task_id_of (request_of i) = i" "stream_tool_usage a2a_config0"
  "told_of_tools server0 = []"
  by (simp_all add: request_of_def task_id_of_def a2a_config0_def told_of_tools_def server0_def)

text \<open>When the runs of two requests overlap, each task is told of the tools of both; and when the one that began first ends
  first, it takes away the reporting of the other, whose tools are from then on reported to the task that has ended.\<close>

theorem overlapping_requests_swap_reports:
  assumes "ar_message a \<noteq> None" "ar_message b \<noteq> None" "stream_tool_usage C" "run \<noteq> Escaped_Run"
    and "sa = fst (begin_execute C tb b (fst (begin_execute C ta a s)))" "sb = fst (end_execute C tc a run sa)"
  shows "told_of_tools sa = told_of_tools s @ [task_id_of a, task_id_of b]
    \<and> told_of_tools sb = told_of_tools s @ [task_id_of a]"
  using assms(5,6) begin_callbacks[OF assms(1,3)] begin_callbacks[OF assms(2,3)] end_callbacks[OF assms(1,4,3)]
  by (simp add: told_of_tools_def butlast_append told_append)

lemma overlapping_requests_swap_reports_witness:
  "told_of_tools (fst (end_execute a2a_config0 5 (request_of ''a'') (Served trace0)
     (fst (begin_execute a2a_config0 2 (request_of ''b'') (fst (begin_execute a2a_config0 1 (request_of ''a'') server0)))))) = [''a'']"
  using overlapping_requests_swap_reports[OF _ _ _ _ refl refl, where a = "request_of ''a''" and b = "request_of ''b''" and C = a2a_config0
      and run = "Served trace0" and ta = 1 and tb = 2 and tc = 5 and s = server0]
  by (simp add: request_facts)

end
