(* ===== verification/Call_Deltas.thy ===== *)
theory Call_Deltas
  imports Prelude
begin

text \<open>
  Tool calls of a streamed completion, as the LlamaIndex adapter of any-agent puts them together
  (\<open>any_agent/vendor/llama_index_utils.py\<close>) and takes them from the answer (\<open>any_agent/frameworks/llama_index.py\<close>).
  A delta always has an index; of the rest it may have any part.
\<close>

section \<open>Deltas and calls\<close>

record call_delta =
  td_index :: int
  td_id :: "string option"
  td_type :: "string option"
  td_function :: "(string option \<times> string option) option"

text \<open>A call under assembly is a delta too: the first one, extended by later ones.\<close>

definition append_opt :: "string option \<Rightarrow> string option \<Rightarrow> string option" where
  "append_opt old new = (case new of None \<Rightarrow> old | Some s \<Rightarrow> Some ((case old of Some t \<Rightarrow> t | None \<Rightarrow> []) @ s))"

definition extend_call :: "call_delta \<Rightarrow> call_delta \<Rightarrow> call_delta" where
  "extend_call d c = \<lparr>td_index = td_index d, td_id = append_opt (td_id c) (td_id d),
     td_type = (case td_type d of Some t \<Rightarrow> Some t | None \<Rightarrow> td_type c),
     td_function = (case td_function d of
       None \<Rightarrow> td_function c
     | Some (n, a) \<Rightarrow> (case td_function c of
         None \<Rightarrow> Some (append_opt None n, append_opt None a)
       | Some (n', a') \<Rightarrow> Some (append_opt n' n, append_opt a' a)))\<rparr>"

definition delta_matches :: "call_delta \<Rightarrow> call_delta \<Rightarrow> bool" where
  "delta_matches d c \<longleftrightarrow> td_index d = td_index c \<or> (td_id d \<noteq> None \<and> td_id d = td_id c)"

fun extend_first :: "call_delta \<Rightarrow> call_delta list \<Rightarrow> call_delta list" where
  "extend_first d [] = [d]"
| "extend_first d (c # cs) = (if delta_matches d c then extend_call d c # cs else c # extend_first d cs)"

definition update_tool_calls :: "call_delta list \<Rightarrow> call_delta list \<Rightarrow> call_delta list" where
  "update_tool_calls calls ds = fold extend_first ds calls"

section \<open>The calls of an answer\<close>

text \<open>\<open>get_tool_calls_from_response\<close>: a call's id, its name and its arguments, which are empty where they cannot be
  decoded. \<open>fresh\<close> is the id made for a call without one, by its position.\<close>

record answer_call =
  an_type :: string
  an_function :: "(string option \<times> string option) option"
  an_id :: "string option"

record tool_selection =
  ts_id :: string
  ts_name :: string
  ts_kwargs :: json

definition decoded_arguments :: "(string \<Rightarrow> json option) \<Rightarrow> string option \<Rightarrow> json" where
  "decoded_arguments loads a = (case a of None \<Rightarrow> JObj []
     | Some s \<Rightarrow> if s = [] then JObj [] else (case loads s of Some v \<Rightarrow> v | None \<Rightarrow> JObj []))"

fun selections :: "(string \<Rightarrow> json option) \<Rightarrow> (nat \<Rightarrow> string) \<Rightarrow> nat \<Rightarrow> answer_call list \<Rightarrow> (string, tool_selection list) result" where
  "selections loads fresh n [] = Inr []"
| "selections loads fresh n (c # cs) = (case (an_type c = ''function'', an_function c) of
     (True, Some (nm, a)) \<Rightarrow> rbind (selections loads fresh (Suc n) cs) (\<lambda>ss. Inr (
        (case nm of None \<Rightarrow> [] | Some s \<Rightarrow> if s = [] then [] else
           [\<lparr>ts_id = (case an_id c of Some i \<Rightarrow> if i = [] then fresh n else i | None \<Rightarrow> fresh n), ts_name = s,
             ts_kwargs = decoded_arguments loads a\<rparr>]) @ ss))
   | _ \<Rightarrow> Inl (''Invalid tool call of type '' @ an_type c))"

definition get_tool_calls_from_response :: "(string \<Rightarrow> json option) \<Rightarrow> (nat \<Rightarrow> string) \<Rightarrow> bool \<Rightarrow> answer_call list
    \<Rightarrow> (string, tool_selection list) result" where
  "get_tool_calls_from_response loads fresh strict cs =
     (if cs = [] then (if strict then Inl ''Expected at least one tool call, but got 0 tool calls.'' else Inr [])
      else rbind (selections loads fresh 0 cs) (\<lambda>ss.
        if ss = [] \<and> strict then Inl ''No valid tool calls found.'' else Inr ss))"

definition force_single_tool_call :: "answer_call list \<Rightarrow> answer_call list" where
  "force_single_tool_call cs = (if 1 < length cs then [hd cs] else cs)"

section \<open>What a stream should amount to\<close>

text \<open>A well-formed stream: the first delta of an index says what the call is, the later ones only add to its
  arguments.\<close>

definition only_arguments :: "call_delta \<Rightarrow> bool" where
  "only_arguments d \<longleftrightarrow> td_id d = None \<and> td_type d = None \<and> (\<exists>a. td_function d = Some (None, Some a))"

definition opens_call :: "call_delta \<Rightarrow> bool" where
  "opens_call d \<longleftrightarrow> (\<exists>n a. td_function d = Some (Some n, Some a)) \<and> td_id d \<noteq> None"

fun well_formed :: "int set \<Rightarrow> string set \<Rightarrow> call_delta list \<Rightarrow> bool" where
  "well_formed is ids [] \<longleftrightarrow> True"
| "well_formed is ids (d # ds) \<longleftrightarrow> (if td_index d \<in> is then only_arguments d \<and> well_formed is ids ds
     else opens_call d \<and> the (td_id d) \<notin> ids \<and> well_formed (insert (td_index d) is) (insert (the (td_id d)) ids) ds)"

text \<open>The call of an opening delta: its arguments and all that come for its index.\<close>

definition argument_of :: "call_delta \<Rightarrow> string" where
  "argument_of d = (case td_function d of Some (_, Some a) \<Rightarrow> a | _ \<Rightarrow> [])"

definition complete_call :: "call_delta list \<Rightarrow> call_delta \<Rightarrow> call_delta" where
  "complete_call ds d = d\<lparr>td_function := (case td_function d of
     Some (n, Some a) \<Rightarrow> Some (n, Some (a @ concat (map argument_of (filter (\<lambda>e. td_index e = td_index d) ds))))
   | f \<Rightarrow> f)\<rparr>"

fun assembled :: "int set \<Rightarrow> call_delta list \<Rightarrow> call_delta list" where
  "assembled is [] = []"
| "assembled is (d # ds) = (if td_index d \<in> is then assembled is ds
     else complete_call ds d # assembled (insert (td_index d) is) ds)"

section \<open>Assembly\<close>

text \<open>The calls open at some point: distinct indices and ids, each with a name and arguments.\<close>

definition open_calls :: "call_delta list \<Rightarrow> bool" where
  "open_calls cs \<longleftrightarrow> list_all opens_call cs \<and> distinct (map td_index cs) \<and> distinct (map td_id cs)"

lemma extend_new:
  assumes "td_index d \<notin> td_index ` set cs" "td_id d \<notin> td_id ` set cs"
  shows "extend_first d cs = cs @ [d]"
  using assms by (induction cs) (auto simp: delta_matches_def)

lemma extend_known:
  assumes "only_arguments d" "td_index d \<in> td_index ` set cs" "distinct (map td_index cs)"
  shows "extend_first d cs = map (\<lambda>c. if td_index c = td_index d then extend_call d c else c) cs"
  using assms
proof (induction cs)
  case (Cons c cs)
  have "map (\<lambda>c. if td_index c = td_index d then extend_call d c else c) cs = cs" if "td_index d \<notin> td_index ` set cs"
    using that by (intro map_idI) (metis image_eqI)
  then show ?case using Cons by (auto simp: delta_matches_def only_arguments_def)
qed simp

lemma extend_opens: "only_arguments d \<Longrightarrow> opens_call c \<Longrightarrow> td_index c = td_index d \<Longrightarrow>
    extend_call d c = complete_call [d] c"
  by (cases c; cases d) (auto simp: only_arguments_def opens_call_def extend_call_def append_opt_def complete_call_def argument_of_def)

lemma complete_complete: "opens_call c \<Longrightarrow> complete_call ds (complete_call es c) = complete_call (es @ ds) c"
  by (cases c) (auto simp: opens_call_def complete_call_def)

lemma complete_simps [simp]: "td_index (complete_call ds c) = td_index c" "td_id (complete_call ds c) = td_id c"
  "opens_call (complete_call ds c) = opens_call c"
  by (auto simp: complete_call_def opens_call_def split: option.splits)

lemma complete_none: "td_index c \<notin> td_index ` set ds \<Longrightarrow> opens_call c \<Longrightarrow> complete_call ds c = c"
  by (cases c) (auto simp: opens_call_def complete_call_def filter_empty_conv)

lemma complete_skip: "td_index c \<noteq> td_index d \<Longrightarrow> complete_call (d # ds) c = complete_call ds c"
  by (cases "td_function c") (auto simp: complete_call_def)

lemma complete_skip_all: "td_index d \<notin> td_index ` set cs \<Longrightarrow> map (complete_call (d # ds)) cs = map (complete_call ds) cs"
  by (intro map_cong refl complete_skip) (metis image_eqI)

lemma assembly_from:
  assumes "open_calls cs" "well_formed (td_index ` set cs) (the ` td_id ` set cs) ds"
  shows "fold extend_first ds cs = map (complete_call ds) cs @ assembled (td_index ` set cs) ds"
  using assms
proof (induction ds arbitrary: cs)
  case Nil
  then show ?case by (auto simp: open_calls_def list_all_iff complete_none intro!: map_idI[symmetric])
next
  case (Cons d ds)
  show ?case
  proof (cases "td_index d \<in> td_index ` set cs")
    case True
    let ?cs = "map (\<lambda>c. if td_index c = td_index d then extend_call d c else c) cs"
    have d: "only_arguments d" and ok: "list_all opens_call cs" using Cons.prems True by (auto simp: open_calls_def)
    have cs: "?cs = map (complete_call [d]) cs"
      using ok extend_opens[OF d] complete_none[of _ "[d]"] by (auto simp: list_all_iff)
    have step: "extend_first d cs = map (complete_call [d]) cs"
      using extend_known[OF d True] Cons.prems(1) cs by (simp add: open_calls_def)
    have "open_calls (map (complete_call [d]) cs)" using Cons.prems(1) by (simp add: open_calls_def list_all_iff comp_def)
    then show ?thesis
      using Cons.IH[of "map (complete_call [d]) cs"] Cons.prems True ok
      by (simp add: step image_image complete_complete list_all_iff)
  next
    case False
    have d: "opens_call d" "the (td_id d) \<notin> the ` td_id ` set cs" using Cons.prems False by auto
    then have new: "td_id d \<notin> td_id ` set cs" by auto
    have "open_calls (cs @ [d])"
      using Cons.prems(1) d(1) new False by (auto simp: open_calls_def)
    then show ?thesis
      using Cons.IH[of "cs @ [d]"] Cons.prems False
      by (simp add: extend_new[OF False new] complete_skip_all[OF False])
  qed
qed

text \<open>C32. From a well-formed stream, in whatever pieces its deltas come and however the calls interleave, the adapter
  assembles each call once, in the order the calls begin, with the arguments of its deltas one after the other.\<close>

theorem calls_assembled:
  assumes "well_formed {} {} (concat dss)"
  shows "fold (\<lambda>ds calls. update_tool_calls calls ds) dss [] = assembled {} (concat dss)"
proof -
  have "fold (\<lambda>ds calls. update_tool_calls calls ds) dss cs = fold extend_first (concat dss) cs" for cs
    by (induction dss arbitrary: cs) (simp_all add: update_tool_calls_def)
  then show ?thesis using assembly_from[of "[]" "concat dss"] assms by (simp add: open_calls_def)
qed

definition delta_of :: "int \<Rightarrow> string option \<Rightarrow> string option \<Rightarrow> string \<Rightarrow> call_delta" where
  "delta_of i d n a = \<lparr>td_index = i, td_id = d, td_type = None, td_function = Some (n, Some a)\<rparr>"

lemma calls_assembled_witness:
  "fold (\<lambda>ds calls. update_tool_calls calls ds)
     [[delta_of 0 (Some ''a'') (Some ''f'') ''{'', delta_of 1 (Some ''b'') (Some ''g'') ''[''], [delta_of 0 None None ''}''], [delta_of 1 None None '']'']] []
   = [delta_of 0 (Some ''a'') (Some ''f'') ''{}'', delta_of 1 (Some ''b'') (Some ''g'') ''[]'']"
  using calls_assembled[of "[[delta_of 0 (Some ''a'') (Some ''f'') ''{'', delta_of 1 (Some ''b'') (Some ''g'') ''[''],
      [delta_of 0 None None ''}''], [delta_of 1 None None '']'']]"]
  by (simp add: delta_of_def only_arguments_def opens_call_def complete_call_def argument_of_def)

text \<open>A provider that repeats the id and the name in every delta gets both doubled, so the tool is not found.\<close>

theorem repeated_id_doubled:
  "update_tool_calls [] [delta_of i (Some d) (Some n) a, delta_of i (Some d) (Some n) b] = [delta_of i (Some (d @ d)) (Some (n @ n)) (a @ b)]"
  by (simp add: update_tool_calls_def delta_of_def delta_matches_def extend_call_def append_opt_def)

text \<open>Arguments that do not decode become none at all, instead of an error the model could be told of.\<close>

lemma undecodable_arguments_dropped:
  assumes "loads s = None" "n \<noteq> []" "d \<noteq> []"
  shows "get_tool_calls_from_response loads fresh strict
      [\<lparr>an_type = ''function'', an_function = Some (Some n, Some s), an_id = Some d\<rparr>] = Inr [\<lparr>ts_id = d, ts_name = n, ts_kwargs = JObj []\<rparr>]"
  using assms by (simp add: get_tool_calls_from_response_def rbind_def decoded_arguments_def)

lemma selections_length: "selections loads fresh n cs = Inr ss \<Longrightarrow> length ss \<le> length cs"
proof (induction cs arbitrary: n ss)
  case (Cons c cs)
  then show ?case
    by (auto simp: rbind_def split: bool.splits option.splits prod.splits sum.splits if_splits) fastforce+
qed simp

lemma single_call_forced: "get_tool_calls_from_response loads fresh strict (force_single_tool_call cs) = Inr ss \<Longrightarrow> length ss \<le> 1"
  using selections_length[of loads fresh 0 "force_single_tool_call cs"]
  by (auto simp: get_tool_calls_from_response_def force_single_tool_call_def rbind_def split: if_splits sum.splits)

end
