(* ===== verification/Google_Adapter.thy ===== *)
theory Google_Adapter
  imports Prelude
begin

text \<open>
  The adapter of any-agent to Google's ADK (\<open>any_agent/frameworks/google.py\<close>): the contents of a request as messages,
  the arguments of the completion, its message as contents again, and the search of a run's events for the final
  output. A part of a content holds one thing. \<open>dumps\<close> is \<open>_safe_json_serialize\<close>.
\<close>

section \<open>Contents and messages\<close>

datatype content_part = Response_Part "string option" string json | Text_Part string | Inline_Part string
  | Call_Part "string option" string json | Blank_Part

record adk_content =
  co_role :: string
  co_parts :: "content_part list"

datatype adk_error = Unknown_Role string | Not_Supported string

definition any_llm_role :: "string \<Rightarrow> string option" where
  "any_llm_role r = map_of [(''user'', ''user''), (''assistant'', ''assistant''), (''model'', ''assistant'')] r"

definition id_json :: "string option \<Rightarrow> json" where
  "id_json i = (case i of Some s \<Rightarrow> JStr s | None \<Rightarrow> JNull)"

definition response_message :: "(json \<Rightarrow> string) \<Rightarrow> string option \<Rightarrow> json \<Rightarrow> json" where
  "response_message dumps i r = JObj [(''role'', JStr ''tool''), (''tool_call_id'', id_json i), (''content'', JStr (dumps r))]"

definition text_entry :: "string \<Rightarrow> json" where
  "text_entry t = JObj [(''type'', JStr ''text''), (''text'', JStr t)]"

definition call_item :: "string option \<Rightarrow> string \<Rightarrow> string \<Rightarrow> json" where
  "call_item i n args = JObj [(''type'', JStr ''function''), (''id'', id_json i),
     (''function'', JObj [(''name'', JStr n), (''arguments'', JStr args)])]"

text \<open>The parts of a content: the messages of its function responses, its texts and its calls.\<close>

fun split_parts :: "(json \<Rightarrow> string) \<Rightarrow> content_part list \<Rightarrow> (adk_error, json list \<times> json list \<times> json list) result" where
  "split_parts dumps [] = Inr ([], [], [])"
| "split_parts dumps (p # ps) = (case p of
     Response_Part i n r \<Rightarrow> rbind (split_parts dumps ps) (\<lambda>(rs, ts, cs). Inr (response_message dumps i r # rs, ts, cs))
   | Text_Part t \<Rightarrow> rbind (split_parts dumps ps) (\<lambda>(rs, ts, cs). Inr (rs, (if t = [] then ts else text_entry t # ts), cs))
   | Inline_Part m \<Rightarrow> Inl (Not_Supported m)
   | Call_Part i n a \<Rightarrow> rbind (split_parts dumps ps) (\<lambda>(rs, ts, cs). Inr (rs, ts, call_item i n (dumps a) # cs))
   | Blank_Part \<Rightarrow> split_parts dumps ps)"

definition list_or_null :: "json list \<Rightarrow> json" where
  "list_or_null xs = (if xs = [] then JNull else JArr xs)"

definition messages_of_content :: "(json \<Rightarrow> string) \<Rightarrow> adk_content \<Rightarrow> (adk_error, json list) result" where
  "messages_of_content dumps c = (case any_llm_role (co_role c) of
     None \<Rightarrow> Inl (Unknown_Role (co_role c))
   | Some r \<Rightarrow> rbind (split_parts dumps (co_parts c)) (\<lambda>(rs, ts, cs). Inr (rs @
       (if ts = [] \<and> cs = [] then []
        else [JObj [(''role'', JStr r), (''content'', list_or_null ts), (''tool_calls'', list_or_null cs)]]))))"

fun messages_from_content :: "(json \<Rightarrow> string) \<Rightarrow> adk_content list \<Rightarrow> (adk_error, json list) result" where
  "messages_from_content dumps [] = Inr []"
| "messages_from_content dumps (c # cs) = rbind (messages_of_content dumps c) (\<lambda>ms.
     rbind (messages_from_content dumps cs) (\<lambda>ms'. Inr (ms @ ms')))"

section \<open>The completion\<close>

record adk_request =
  ar_contents :: "adk_content list"
  ar_system :: "string option"
  ar_tools :: "json list"
  ar_options :: "(string, json) dict"

text \<open>The options copied over under their own name, as the code writes them down: two of the names have run
  together, and no option is called like that.\<close>

definition copied_options :: "string list" where
  "copied_options = [''frequency_penalty'', ''presence_penalty'', ''response_formattemperature'', ''top_k'', ''top_p'']"

definition set_option :: "string \<Rightarrow> json option \<Rightarrow> (string, json) dict \<Rightarrow> (string, json) dict" where
  "set_option k v d = (case v of Some x \<Rightarrow> if truthy x then AList.update k x d else d | None \<Rightarrow> d)"

definition completion_args :: "(json \<Rightarrow> string) \<Rightarrow> string \<Rightarrow> (string, json) dict \<Rightarrow> adk_request \<Rightarrow> (adk_error, (string, json) dict) result" where
  "completion_args dumps model kwargs q = rbind (messages_from_content dumps (ar_contents q)) (\<lambda>ms.
     let ms' = (case ar_system q of Some s \<Rightarrow> if s = [] then ms else JObj [(''role'', JStr ''system''), (''content'', JStr s)] # ms
           | None \<Rightarrow> ms);
         d0 = [(''messages'', JArr ms'), (''model'', JStr model)] @ (if ar_tools q = [] then [] else [(''tools'', JArr (ar_tools q))]);
         d1 = fold (\<lambda>k d. set_option k (map_of (ar_options q) k) d) copied_options d0;
         d2 = set_option ''max_tokens'' (map_of (ar_options q) ''max_output_tokens'') d1;
         d3 = set_option ''stop'' (map_of (ar_options q) ''stop_sequences'') d2
     in Inr (dict_merge kwargs d3))"

text \<open>A completion's message: its text and its calls, of which the arguments are decoded. \<^const>\<open>None\<close> is a
  \<open>JSONDecodeError\<close>.\<close>

record completion_call =
  cc_type :: string
  cc_id :: string
  cc_name :: string
  cc_arguments :: string

fun call_parts :: "(string \<Rightarrow> json option) \<Rightarrow> completion_call list \<Rightarrow> content_part list option" where
  "call_parts loads [] = Some []"
| "call_parts loads (c # cs) = (if cc_type c \<noteq> ''function'' then call_parts loads cs
     else case (loads (if cc_arguments c = [] then ''{}'' else cc_arguments c), call_parts loads cs) of
       (Some a, Some ps) \<Rightarrow> Some (Call_Part (Some (cc_id c)) (cc_name c) a # ps)
     | _ \<Rightarrow> None)"

definition message_to_response :: "(string \<Rightarrow> json option) \<Rightarrow> string option \<Rightarrow> completion_call list \<Rightarrow> adk_content option" where
  "message_to_response loads content calls = map_option (\<lambda>ps. \<lparr>co_role = ''model'',
     co_parts = (case content of Some t \<Rightarrow> if t = [] then [] else [Text_Part t] | None \<Rightarrow> []) @ ps\<rparr>) (call_parts loads calls)"

section \<open>The final output\<close>

definition max_output_attempts :: nat where
  "max_output_attempts = 3"

text \<open>A part that answers a call of the final-output tool with something.\<close>

definition final_response :: "content_part \<Rightarrow> json option" where
  "final_response p = (case p of Response_Part i n r \<Rightarrow> if n = ''final_output'' \<and> truthy r then Some r else None | _ \<Rightarrow> None)"

definition or_none_json :: "json option \<Rightarrow> json" where
  "or_none_json v = (case v of Some x \<Rightarrow> x | None \<Rightarrow> JNull)"

text \<open>The parts of an event, with the attempts so far: the error of too many attempts, or the attempts and the
  output found, which may be empty.\<close>

fun scan_parts :: "nat \<Rightarrow> content_part list \<Rightarrow> (nat, nat \<times> json option) result" where
  "scan_parts n [] = Inr (n, None)"
| "scan_parts n (p # ps) = (case final_response p of
     None \<Rightarrow> scan_parts n ps
   | Some r \<Rightarrow> if truthy_opt (jget ''success'' r) then Inr (Suc n, Some (or_none_json (jget ''result'' r)))
       else if max_output_attempts \<le> Suc n then Inl (Suc n)
       else scan_parts (Suc n) ps)"

text \<open>The events up to the output; an output found stays until a later one.\<close>

datatype output_error = Too_Many_Attempts nat | No_Final_Response

fun scan_events :: "nat \<Rightarrow> json \<Rightarrow> content_part list list \<Rightarrow> (output_error, json) result" where
  "scan_events n out [] = (if truthy out then Inr out else Inl No_Final_Response)"
| "scan_events n out (ps # es) = (case scan_parts n ps of
     Inl m \<Rightarrow> Inl (Too_Many_Attempts m)
   | Inr (m, found) \<Rightarrow> (let out' = (case found of Some v \<Rightarrow> v | None \<Rightarrow> out) in
       if ps \<noteq> [] \<and> (truthy out' \<or> max_output_attempts \<le> m)
       then (if truthy out' then Inr out' else Inl No_Final_Response)
       else scan_events m out' es))"

definition google_final_output :: "content_part list list \<Rightarrow> (output_error, json) result" where
  "google_final_output es = scan_events 0 JNull es"

section \<open>Properties\<close>



lemma set_option_other: "j \<noteq> k \<Longrightarrow> map_of (set_option k v d) j = map_of d j"
  by (simp add: set_option_def update_conv' split: option.split)

text \<open>A temperature or a response format set on the request never gets to the provider: what it is sent are those of the
  model's own arguments, if any.\<close>

theorem request_temperature_lost:
  assumes "completion_args dumps model kwargs q = Inr d"
  shows "map_of d ''temperature'' = map_of kwargs ''temperature'' \<and> map_of d ''response_format'' = map_of kwargs ''response_format''"
proof -
  obtain e where d: "d = dict_merge kwargs e" and e: "map_of e ''temperature'' = None" "map_of e ''response_format'' = None"
    using assms
    by (auto simp: completion_args_def rbind_def Let_def copied_options_def set_option_other split: sum.splits)
  then show ?thesis by (simp add: d map_of_dict_merge_rev map_add_def map_of_eq_None_iff[THEN iffD2] split: option.split)
    (metis (no_types) map_of_eq_None_iff option.distinct(1) set_rev image_set)
qed

lemma request_temperature_lost_witness:
  "\<exists>d. completion_args (\<lambda>_. []) ''m'' [] \<lparr>ar_contents = [], ar_system = None, ar_tools = [], ar_options = [(''temperature'', JInt 1)]\<rparr> = Inr d
     \<and> map_of d ''temperature'' = None"
proof -
  obtain d where d: "completion_args (\<lambda>_. []) ''m'' [] \<lparr>ar_contents = [], ar_system = None, ar_tools = [], ar_options = [(''temperature'', JInt 1)]\<rparr> = Inr d"
    by (simp add: completion_args_def rbind_def Let_def)
  show ?thesis using request_temperature_lost[OF d] d by simp
qed

definition accepted_output :: "content_part list list \<Rightarrow> json \<Rightarrow> bool" where
  "accepted_output es v \<longleftrightarrow> (\<exists>p \<in> set (concat es). \<exists>r. final_response p = Some r \<and> truthy_opt (jget ''success'' r)
     \<and> or_none_json (jget ''result'' r) = v)"

lemma scan_parts_found: "scan_parts n ps = Inr (m, Some v) \<Longrightarrow> accepted_output [ps] v"
  by (induction ps arbitrary: n) (auto simp: accepted_output_def split: option.splits if_splits)

lemma scan_parts_attempts: "n < 3 \<Longrightarrow> scan_parts n ps = Inl m \<Longrightarrow> m = 3"
proof (induction ps arbitrary: n)
  case (Cons p ps)
  show ?case
  proof (cases "max_output_attempts \<le> Suc n")
    case True
    then show ?thesis using Cons by (auto simp: max_output_attempts_def split: option.splits if_splits)
  next
    case False
    then show ?thesis
      using Cons.prems Cons.IH[of n] Cons.IH[of "Suc n"] by (auto simp: max_output_attempts_def split: option.splits if_splits)
  qed
qed simp

lemma accepted_mono: "accepted_output es v \<Longrightarrow> accepted_output (ps # es) v" "accepted_output [ps] v \<Longrightarrow> accepted_output (ps # es) v"
  by (auto simp: accepted_output_def)

lemma scan_events_sound:
  "n < 3 \<Longrightarrow> (case scan_events n out es of
      Inr v \<Rightarrow> truthy v \<and> (accepted_output es v \<or> v = out)
    | Inl (Too_Many_Attempts m) \<Rightarrow> m = 3
    | Inl No_Final_Response \<Rightarrow> True)"
proof (induction es arbitrary: n out)
  case (Cons ps es)
  show ?case
  proof (cases "scan_parts n ps")
    case (Inl m)
    then show ?thesis using scan_parts_attempts[OF Cons.prems] by simp
  next
    case (Inr r)
    obtain m f where r: "r = (m, f)" by fastforce
    define outp where "outp = (case f of Some v \<Rightarrow> v | None \<Rightarrow> out)"
    have out_from: "outp = out \<or> accepted_output [ps] outp"
      using Inr scan_parts_found[of n ps m] by (auto simp: outp_def r split: option.split)
    show ?thesis
    proof (cases "ps \<noteq> [] \<and> (truthy outp \<or> max_output_attempts \<le> m)")
      case True
      then show ?thesis using out_from accepted_mono(2) by (auto simp: Inr r Let_def outp_def[symmetric])
    next
      case False
      then have "m < 3" using Cons.prems Inr by (cases "ps = []") (auto simp: r max_output_attempts_def)
      from Cons.IH[OF this, of outp] False out_from accepted_mono show ?thesis
        by (auto simp: Inr r Let_def outp_def[symmetric] split: sum.splits output_error.splits)
    qed
  qed
qed simp

text \<open>The run of an agent with an output type ends after three attempts at most: in a value that the tool accepted,
  or in an error. A value that counts as empty is not taken for one, although it was accepted.\<close>

theorem final_output_within_attempts:
  "case google_final_output es of
      Inr v \<Rightarrow> truthy v \<and> accepted_output es v
    | Inl (Too_Many_Attempts n) \<Rightarrow> n = 3
    | Inl No_Final_Response \<Rightarrow> True"
  using scan_events_sound[of 0 es JNull]
  by (auto simp: google_final_output_def split: sum.splits output_error.splits)

lemma empty_output_refused:
  "google_final_output [[Response_Part i ''final_output'' (JObj [(''success'', JBool True), (''result'', JObj [])])]] = Inl No_Final_Response"
  by (simp add: google_final_output_def final_response_def or_none_json_def max_output_attempts_def)

end
