(* ===== verification/Agent_Tools.thy ===== *)
theory Agent_Tools
  imports Prelude
begin

text \<open>
  Tools of any-agent: the casting of arguments (\<open>any_agent/utils/cast.py\<close>), the wrapping of callables and MCP
  servers (\<open>tools/wrappers.py\<close>, \<open>tools/mcp/mcp_client.py\<close>), the final-output tool (\<open>tools/final_output.py\<close>) and the
  truncation of pages (\<open>tools/web_browsing.py\<close>). Values are those JSON has. \<open>loads\<close> is \<open>json.loads\<close>,
  \<^const>\<open>None\<close> its \<open>JSONDecodeError\<close>; \<open>conv\<close> is a call of a type.
\<close>

section \<open>Casting an argument\<close>

datatype py_type = T_None | T_Str | T_Int | T_Float | T_Bool | T_List | T_Dict | T_List_Of py_type
  | T_Dict_Of py_type py_type | T_Union "py_type list" | T_Other string

text \<open>A call of a type: a value, a \<open>ValueError\<close> or \<open>TypeError\<close>, or another exception, such as the
  \<open>OverflowError\<close> of an infinite float.\<close>

datatype conv_end = Conv json | Conv_Refused | Conv_Crash

definition is_optional_type :: "py_type \<Rightarrow> bool" where
  "is_optional_type t = (case t of T_Union ts \<Rightarrow> T_None \<in> set ts | _ \<Rightarrow> False)"

definition parsed_container :: "(string \<Rightarrow> json option) \<Rightarrow> json \<Rightarrow> py_type \<Rightarrow> json option" where
  "parsed_container loads v t = (case v of
     JStr s \<Rightarrow> if py_strip s = [] then None else (case (t, loads s) of
         (T_List, Some (JArr xs)) \<Rightarrow> Some (JArr xs)
       | (T_List_Of _, Some (JArr xs)) \<Rightarrow> Some (JArr xs)
       | (T_Dict, Some (JObj d)) \<Rightarrow> Some (JObj d)
       | (T_Dict_Of _ _, Some (JObj d)) \<Rightarrow> Some (JObj d)
       | _ \<Rightarrow> None)
   | _ \<Rightarrow> None)"

definition cast_bool :: "string \<Rightarrow> json" where
  "cast_bool s = (let l = py_strip (py_lower s) in
     if l \<in> {''true'', ''1'', ''yes''} then JBool True
     else if l \<in> {''false'', ''0''} then JBool False
     else JBool (s \<noteq> []))"

definition call_type :: "(py_type \<Rightarrow> json \<Rightarrow> conv_end) \<Rightarrow> json \<Rightarrow> py_type \<Rightarrow> json option" where
  "call_type conv v t = (case conv t v of Conv r \<Rightarrow> Some r | Conv_Refused \<Rightarrow> Some v | Conv_Crash \<Rightarrow> None)"

text \<open>Python's \<open>==\<close> of two values, where numbers and truth values compare as numbers. Objects compare by
  their items in order: a cast never reorders one.\<close>

fun number_of :: "json \<Rightarrow> rat option" where
  "number_of (JBool b) = Some (if b then 1 else 0)"
| "number_of (JInt i) = Some (of_int i)"
| "number_of (JFloat r) = Some r"
| "number_of _ = None"

fun same_value :: "json \<Rightarrow> json \<Rightarrow> bool" and same_values :: "json list \<Rightarrow> json list \<Rightarrow> bool"
  and same_items :: "(string \<times> json) list \<Rightarrow> (string \<times> json) list \<Rightarrow> bool" where
  "same_value (JArr xs) w = (case w of JArr ys \<Rightarrow> same_values xs ys | _ \<Rightarrow> False)"
| "same_value (JObj d) w = (case w of JObj e \<Rightarrow> same_items d e | _ \<Rightarrow> False)"
| "same_value v w = (v = w \<or> number_of v \<noteq> None \<and> number_of v = number_of w)"
| "same_values [] ys = (ys = [])"
| "same_values (x # xs) ys = (case ys of [] \<Rightarrow> False | y # ys' \<Rightarrow> same_value x y \<and> same_values xs ys')"
| "same_items [] e = (e = [])"
| "same_items (p # d) e = (case e of [] \<Rightarrow> False
     | q # e' \<Rightarrow> fst p = fst q \<and> same_value (snd p) (snd q) \<and> same_items d e')"

lemma size_filter_le: "size_list size (filter P (ts :: py_type list)) \<le> size_list size ts"
  by (induction ts) auto

lemma size_filtered: "filter P ts = us \<Longrightarrow> size_list size us \<le> size_list size (ts :: py_type list)"
  using size_filter_le[of P ts] by simp

text \<open>\<^const>\<open>None\<close> is an exception that escapes. The members of a union other than \<open>None\<close> are tried in order,
  unless there is only one; a cast counts if it changed the value.\<close>

function (sequential) safe_cast_argument :: "(string \<Rightarrow> json option) \<Rightarrow> (py_type \<Rightarrow> json \<Rightarrow> conv_end) \<Rightarrow> json \<Rightarrow> py_type \<Rightarrow> json option"
  and try_members :: "(string \<Rightarrow> json option) \<Rightarrow> (py_type \<Rightarrow> json \<Rightarrow> conv_end) \<Rightarrow> json \<Rightarrow> py_type list \<Rightarrow> json option" where
  "safe_cast_argument loads conv v t =
     (if v = JNull then Some JNull
      else if v = JStr [] \<and> is_optional_type t then Some JNull
      else (case parsed_container loads v t of
        Some p \<Rightarrow> Some p
      | None \<Rightarrow> (case t of
          T_Union ts \<Rightarrow> (case filter (\<lambda>u. u \<noteq> T_None) ts of
              [u] \<Rightarrow> safe_cast_argument loads conv v u
            | us \<Rightarrow> try_members loads conv v us)
        | T_Bool \<Rightarrow> (case v of JStr s \<Rightarrow> Some (cast_bool s) | _ \<Rightarrow> call_type conv v t)
        | T_List \<Rightarrow> Some v
        | T_Dict \<Rightarrow> Some v
        | T_List_Of _ \<Rightarrow> Some v
        | T_Dict_Of _ _ \<Rightarrow> Some v
        | _ \<Rightarrow> call_type conv v t)))"
| "try_members loads conv v [] = Some v"
| "try_members loads conv v (u # us) = (case safe_cast_argument loads conv v u of
     None \<Rightarrow> None
   | Some r \<Rightarrow> if \<not> same_value r v then Some r else try_members loads conv v us)"
  by pat_completeness auto

termination
  by (relation "measure (\<lambda>x. case x of Inl (_, _, _, t) \<Rightarrow> 2 * size t | Inr (_, _, _, ts) \<Rightarrow> 2 * size_list size ts + 1)")
    (auto dest: size_filtered)

declare safe_cast_argument.simps [simp del]

text \<open>What a value of a type is; list and dict types say nothing of their items.\<close>

fun conforms :: "py_type \<Rightarrow> json \<Rightarrow> bool" where
  "conforms T_None v \<longleftrightarrow> v = JNull"
| "conforms T_Str v \<longleftrightarrow> (case v of JStr s \<Rightarrow> True | _ \<Rightarrow> False)"
| "conforms T_Int v \<longleftrightarrow> (case v of JInt s \<Rightarrow> True | _ \<Rightarrow> False)"
| "conforms T_Float v \<longleftrightarrow> (case v of JFloat s \<Rightarrow> True | _ \<Rightarrow> False)"
| "conforms T_Bool v \<longleftrightarrow> (case v of JBool s \<Rightarrow> True | _ \<Rightarrow> False)"
| "conforms T_List v \<longleftrightarrow> (case v of JArr s \<Rightarrow> True | _ \<Rightarrow> False)"
| "conforms T_Dict v \<longleftrightarrow> (case v of JObj s \<Rightarrow> True | _ \<Rightarrow> False)"
| "conforms (T_List_Of t) v \<longleftrightarrow> (case v of JArr s \<Rightarrow> True | _ \<Rightarrow> False)"
| "conforms (T_Dict_Of k t) v \<longleftrightarrow> (case v of JObj s \<Rightarrow> True | _ \<Rightarrow> False)"
| "conforms (T_Union ts) v \<longleftrightarrow> list_ex (\<lambda>t. conforms t v) ts"
| "conforms (T_Other n) v \<longleftrightarrow> True"

text \<open>A call of a type gives a value of it.\<close>

definition calls_conform :: "(py_type \<Rightarrow> json \<Rightarrow> conv_end) \<Rightarrow> bool" where
  "calls_conform conv \<longleftrightarrow> (\<forall>t v r. conv t v = Conv r \<longrightarrow> conforms t r)"

lemma call_type_conforms: "calls_conform conv \<Longrightarrow> call_type conv v t = Some r \<Longrightarrow> r = v \<or> conforms t r"
  by (auto simp: call_type_def calls_conform_def split: conv_end.splits)

lemma parsed_conforms: "parsed_container loads v t = Some r \<Longrightarrow> conforms t r"
  by (auto simp: parsed_container_def split: json.splits if_splits py_type.splits option.splits)

lemma optional_conforms: "is_optional_type t \<Longrightarrow> conforms t JNull"
  by (auto simp: is_optional_type_def list_ex_iff split: py_type.splits intro!: bexI[of _ T_None])

lemma cast_union:
  assumes "v \<noteq> JNull" "\<not> (v = JStr [] \<and> is_optional_type (T_Union ts))"
  shows "safe_cast_argument loads conv v (T_Union ts) = (case filter (\<lambda>u. u \<noteq> T_None) ts of
    [u] \<Rightarrow> safe_cast_argument loads conv v u | us \<Rightarrow> try_members loads conv v us)"
  using assms by (subst safe_cast_argument.simps) (simp add: parsed_container_def split: json.split)

lemma cast_simple:
  assumes "v \<noteq> JNull" "\<not> (v = JStr [] \<and> is_optional_type t)" "parsed_container loads v t = None" "\<forall>ts. t \<noteq> T_Union ts"
  shows "safe_cast_argument loads conv v t = Some v \<or> safe_cast_argument loads conv v t = call_type conv v t
    \<or> t = T_Bool \<and> (\<exists>s. safe_cast_argument loads conv v t = Some (cast_bool s))"
  using assms by (subst (1 2 3) safe_cast_argument.simps) (auto simp: is_optional_type_def split: py_type.split json.split)

lemma cast_bool_is: "conforms T_Bool (cast_bool s)"
  by (simp add: cast_bool_def Let_def)

lemma in_filtered: "filter P ts = us \<Longrightarrow> u \<in> set us \<Longrightarrow> u \<in> set ts"
  by auto

lemma cast_conforms_aux:
  shows "calls_conform conv \<Longrightarrow> safe_cast_argument loads conv v t = Some r \<Longrightarrow> r = v \<or> conforms t r"
    and "calls_conform conv \<Longrightarrow> try_members loads conv v us = Some r \<Longrightarrow> r = v \<or> list_ex (\<lambda>u. conforms u r) us"
proof (induction loads conv v t and loads conv v us arbitrary: r and r rule: safe_cast_argument_try_members.induct)
  case (1 loads conv v t)
  note got = 1(5) and ok = 1(4)
  show ?case
  proof (cases "v = JNull \<or> v = JStr [] \<and> is_optional_type t \<or> parsed_container loads v t \<noteq> None")
    case True
    then show ?thesis
      using got optional_conforms[of t] parsed_conforms[of loads v t r]
      by (auto simp: safe_cast_argument.simps[of loads conv v t] split: if_splits)
  next
    case False
    then have plain: "v \<noteq> JNull" "\<not> (v = JStr [] \<and> is_optional_type t)" "parsed_container loads v t = None" by auto
    show ?thesis
    proof (cases "\<exists>ts. t = T_Union ts")
      case True
      then obtain ts where T_Union: "t = T_Union ts" by blast
      note cast = cast_union[of v ts loads conv] plain T_Union
      consider "filter (\<lambda>u. u \<noteq> T_None) ts = []" | u where "filter (\<lambda>u. u \<noteq> T_None) ts = [u]"
        | u w us where "filter (\<lambda>u. u \<noteq> T_None) ts = u # w # us"
        by (metis neq_Nil_conv)
      then show ?thesis
      proof cases
        case 1
        then show ?thesis using got cast by simp
      next
        case (2 u)
        then have "r = v \<or> conforms u r" using got cast "1"(2)[OF plain] ok by simp
        then show ?thesis using 2 T_Union by (auto simp: list_ex_iff dest!: in_filtered)
      next
        case (3 u w us)
        then have "r = v \<or> list_ex (\<lambda>x. conforms x r) (u # w # us)" using got cast "1"(3)[OF plain] ok by simp
        then show ?thesis using 3 T_Union in_filtered[OF 3] by (auto simp: list_ex_iff)
      qed
    next
      case False
      then have "\<forall>ts. t \<noteq> T_Union ts" by blast
      from cast_simple[OF plain this, of conv] show ?thesis
      proof (elim disjE conjE exE)
        assume "safe_cast_argument loads conv v t = Some v"
        then show ?thesis using got by simp
      next
        assume "safe_cast_argument loads conv v t = call_type conv v t"
        then show ?thesis using got call_type_conforms[OF ok, of v t r] by metis
      next
        fix s
        assume "t = T_Bool" "safe_cast_argument loads conv v t = Some (cast_bool s)"
        then show ?thesis using got cast_bool_is[of s] by (metis option.inject)
      qed
    qed
  qed
qed (auto split: option.splits if_splits)

lemma cast_escapes_aux:
  shows "safe_cast_argument loads conv v t = None \<Longrightarrow> \<exists>u. conv u v = Conv_Crash"
    and "try_members loads conv v us = None \<Longrightarrow> \<exists>u. conv u v = Conv_Crash"
proof (induction loads conv v t and loads conv v us rule: safe_cast_argument_try_members.induct)
  case (1 loads conv v t)
  then show ?case
    by (auto simp: safe_cast_argument.simps[of loads conv v t] call_type_def
        split: if_splits option.splits py_type.splits list.splits json.splits conv_end.splits)
qed (auto split: option.splits if_splits)


definition conv0 :: "py_type \<Rightarrow> json \<Rightarrow> conv_end" where
  "conv0 t v = (case (t, v) of (T_Str, JStr s) \<Rightarrow> Conv (JStr s) | (T_Int, JStr s) \<Rightarrow> (if s = ''5'' then Conv (JInt 5) else Conv_Refused)
     | _ \<Rightarrow> Conv_Refused)"


text \<open>A parameter that takes a string or a truth value never gets a string, although the argument is one: the
  cast to \<open>str\<close> changes nothing and does not count, and that to \<open>bool\<close> never fails.\<close>

theorem string_or_bool_gets_bool:
  assumes "conv T_Str (JStr s) = Conv (JStr s)"
  shows "safe_cast_argument loads conv (JStr s) (T_Union [T_Str, T_Bool]) = Some (cast_bool s)
    \<and> (\<exists>b. cast_bool s = JBool b) \<and> (py_strip (py_lower s) = ''no'' \<longrightarrow> cast_bool s = JBool True)"
proof -
  have "\<not> same_value (cast_bool s) (JStr s)" "same_value (JStr s) (JStr s)"
    by (simp_all add: cast_bool_def Let_def)
  then show ?thesis
    using assms
    by (auto simp: cast_union is_optional_type_def safe_cast_argument.simps[of _ _ _ T_Str] safe_cast_argument.simps[of _ _ _ T_Bool]
        parsed_container_def call_type_def cast_bool_def Let_def py_strip_def py_lower_def py_lstrip_def py_rstrip_def)
qed

lemma string_or_bool_gets_bool_witness:
  "safe_cast_argument (\<lambda>_. None) conv0 (JStr ''Paris'') (T_Union [T_Str, T_Bool]) = Some (cast_bool ''Paris'')"
  using string_or_bool_gets_bool[of conv0 "''Paris''"] by (simp add: conv0_def)

section \<open>Wrapping tools\<close>

text \<open>What \<open>inspect\<close> shows of a callable: its docstring, whether it has a return annotation, and which parameters are
  annotated.\<close>

record signature =
  sg_doc :: "string option"
  sg_returns :: bool
  sg_annotated :: "bool list"

definition verify_callable :: "string \<Rightarrow> signature \<Rightarrow> string option" where
  "verify_callable tool g =
     (if sg_doc g = None \<or> sg_doc g = Some [] then Some (''Tool '' @ tool @ '' needs to have a docstring but does not'')
      else if \<not> sg_returns g then Some (''Tool '' @ tool @ '' needs to have a return type but does not'')
      else if False \<in> set (sg_annotated g) then Some (''Tool '' @ tool @ '' needs to have typed arguments but does not'')
      else None)"

text \<open>A call of a tool returns, raises an \<open>Exception\<close>, or is cut off by another \<open>BaseException\<close>.\<close>

datatype tool_end = Tool_Returns string | Tool_Raises string | Tool_Cut_Off

definition wrap_no_exception :: "(string \<Rightarrow> tool_end) \<Rightarrow> string \<Rightarrow> tool_end" where
  "wrap_no_exception f args = (case f args of Tool_Raises e \<Rightarrow> Tool_Returns (''Error calling tool: '' @ e) | r \<Rightarrow> r)"

datatype agent_tool = Mcp_Params string | Callable_Tool string signature "string \<Rightarrow> tool_end" | Not_A_Tool string string

text \<open>A server's answer: no connection, a connection but no list of tools, or its tools.\<close>

datatype mcp_answer = No_Connection string | Connected_No_Tools string | Connected_Tools "(string \<Rightarrow> tool_end) list"

text \<open>How a framework takes tools: what it makes of a callable, and, for smolagents, that its MCP client gives tools of
  its own kind.\<close>

record 'w tool_framework =
  tf_wrap :: "(string \<Rightarrow> tool_end) \<Rightarrow> 'w"
  tf_own_client :: "((string \<Rightarrow> tool_end) \<Rightarrow> 'w) option"

definition wrap_mcp_tool :: "'w tool_framework \<Rightarrow> (string \<Rightarrow> tool_end) \<Rightarrow> 'w" where
  "wrap_mcp_tool F f = (case tf_own_client F of Some own \<Rightarrow> own f | None \<Rightarrow> tf_wrap F (wrap_no_exception f))"

text \<open>The servers connected on the way, and the error or the wrapped tools with the clients.\<close>

fun wrap_tools :: "'w tool_framework \<Rightarrow> (string \<Rightarrow> mcp_answer) \<Rightarrow> agent_tool list
    \<Rightarrow> string list \<times> (string, 'w list \<times> string list) result" where
  "wrap_tools F answer [] = ([], Inr ([], []))"
| "wrap_tools F answer (Mcp_Params p # ts) = (case answer p of
     No_Connection e \<Rightarrow> ([], Inl e)
   | Connected_No_Tools e \<Rightarrow> ([p], Inl e)
   | Connected_Tools fs \<Rightarrow> (case wrap_tools F answer ts of
       (cs, Inl e) \<Rightarrow> (p # cs, Inl e)
     | (cs, Inr (ws, ks)) \<Rightarrow> (p # cs, Inr (map (wrap_mcp_tool F) fs @ ws, p # ks))))"
| "wrap_tools F answer (Callable_Tool n g f # ts) = (case verify_callable n g of
     Some e \<Rightarrow> ([], Inl e)
   | None \<Rightarrow> (case wrap_tools F answer ts of
       (cs, Inl e) \<Rightarrow> (cs, Inl e)
     | (cs, Inr (ws, ks)) \<Rightarrow> (cs, Inr (tf_wrap F (wrap_no_exception f) # ws, ks))))"
| "wrap_tools F answer (Not_A_Tool n ty # ts) =
     ([], Inl (''Tool '' @ n @ '' needs to be of type `MCPStdio` or `callable` but is '' @ ty))"

text \<open>\<open>_load_tools\<close> and \<open>cleanup_async\<close> of an agent.\<close>

record tool_owner =
  to_clients :: "string list"
  to_connected :: "string list"

definition load_tools :: "'w tool_framework \<Rightarrow> (string \<Rightarrow> mcp_answer) \<Rightarrow> agent_tool list \<Rightarrow> tool_owner
    \<Rightarrow> tool_owner \<times> (string, 'w list) result" where
  "load_tools F answer ts a = (case wrap_tools F answer ts of
     (cs, Inl e) \<Rightarrow> (a\<lparr>to_connected := to_connected a @ cs\<rparr>, Inl e)
   | (cs, Inr (ws, ks)) \<Rightarrow> (\<lparr>to_clients = to_clients a @ ks, to_connected = to_connected a @ cs\<rparr>, Inr ws))"

definition cleanup_tools :: "tool_owner \<Rightarrow> tool_owner" where
  "cleanup_tools a = \<lparr>to_clients = [], to_connected = fold remove1 (to_clients a) (to_connected a)\<rparr>"

lemma wrap_tools_connected: "wrap_tools F answer ts = (cs, Inr (ws, ks)) \<Longrightarrow> cs = ks"
  by (induction ts arbitrary: cs ws ks rule: wrap_tools.induct) (auto split: mcp_answer.splits option.splits prod.splits sum.splits)

lemma fold_remove1_self [simp]: "fold remove1 xs xs = []"
  by (induction xs) simp_all

text \<open>When the tools of an agent load, cleaning up closes every connection opened for them. When they do not, the
  connections opened before the failure are not the agent's, and no clean-up closes them.\<close>

theorem loaded_connections_closed:
  "case load_tools F answer ts \<lparr>to_clients = [], to_connected = []\<rparr> of
      (a, Inr ws) \<Rightarrow> to_connected (cleanup_tools a) = []
    | (a, Inl e) \<Rightarrow> to_connected (cleanup_tools a) = fst (wrap_tools F answer ts) \<and> to_clients a = []"
  using wrap_tools_connected[of F answer ts]
  by (auto simp: load_tools_def cleanup_tools_def split: prod.split sum.split)

text \<open>A tool that is not one, after a server.\<close>

lemma abandoned_connection:
  "answer p = Connected_Tools fs \<Longrightarrow>
     to_connected (cleanup_tools (fst (load_tools F answer [Mcp_Params p, Not_A_Tool n ty] \<lparr>to_clients = [], to_connected = []\<rparr>))) = [p]"
  by (simp add: load_tools_def cleanup_tools_def)

section \<open>The MCP client\<close>

text \<open>In an input schema \<open>properties\<close> is an object and \<open>required\<close> an array of names, if they are there.\<close>

record server_tool =
  mt_name :: string
  mt_description :: "string option"
  mt_schema :: json

text \<open>The tools asked for, in the order asked for; the names that are not there are the \<open>ValueError\<close>.\<close>

definition named_tools :: "server_tool list \<Rightarrow> string \<Rightarrow> server_tool option" where
  "named_tools ts = map_of (rev (map (\<lambda>t. (mt_name t, t)) ts))"

definition filter_tools :: "string list option \<Rightarrow> server_tool list \<Rightarrow> (string list, server_tool list) result" where
  "filter_tools wanted ts = (let ns = (case wanted of Some ns \<Rightarrow> ns | None \<Rightarrow> []);
       missing = filter (\<lambda>n. named_tools ts n = None) ns
     in if ns = [] then Inr ts
        else if missing \<noteq> [] then Inl missing
        else Inr (List.map_filter (named_tools ts) ns))"

text \<open>The type of a parameter; \<^const>\<open>None\<close> is the \<open>TypeError\<close> of a \<open>type\<close> that is a list or an object.\<close>

definition schema_type :: "json \<Rightarrow> py_type option" where
  "schema_type s = (case (case jget ''type'' s of None \<Rightarrow> JStr ''string'' | Some t \<Rightarrow> t) of
     JStr n \<Rightarrow> Some (if n = ''integer'' then T_Int else if n = ''number'' then T_Float else if n = ''boolean'' then T_Bool
       else if n = ''array'' then T_List else if n = ''object'' then T_Dict else T_Str)
   | JArr _ \<Rightarrow> None
   | JObj _ \<Rightarrow> None
   | _ \<Rightarrow> Some T_Str)"

record parameter =
  pa_name :: string
  pa_type :: py_type
  pa_required :: bool

text \<open>\<open>identifier\<close> is \<open>inspect\<close>'s test of a parameter name, whose failure is a \<open>ValueError\<close>.\<close>

fun tool_parameters :: "(string \<Rightarrow> bool) \<Rightarrow> string list \<Rightarrow> (string \<times> json) list \<Rightarrow> parameter list option" where
  "tool_parameters identifier req [] = Some []"
| "tool_parameters identifier req ((n, s) # ps) =
     (if \<not> is_jobj s \<or> \<not> identifier n then None
      else case (schema_type s, tool_parameters identifier req ps) of
        (Some t, Some qs) \<Rightarrow> Some (\<lparr>pa_name = n, pa_type = (if n \<in> set req then t else T_Union [t, T_None]),
           pa_required = (n \<in> set req)\<rparr> # qs)
      | _ \<Rightarrow> None)"

definition strings_of :: "json option \<Rightarrow> string list" where
  "strings_of j = (case j of Some (JArr xs) \<Rightarrow> List.map_filter (\<lambda>x. case x of JStr s \<Rightarrow> Some s | _ \<Rightarrow> None) xs | _ \<Rightarrow> [])"

definition items_of :: "json option \<Rightarrow> (string \<times> json) list" where
  "items_of j = (case j of Some (JObj d) \<Rightarrow> d | _ \<Rightarrow> [])"

definition enhanced_description :: "(json \<Rightarrow> string) \<Rightarrow> string \<Rightarrow> json \<Rightarrow> string" where
  "enhanced_description shown d schema = (let ps = items_of (jget ''properties'' schema) in
     if ps = [] then d
     else d @ [CHR 0x0A, CHR 0x0A] @ ''Args:'' @ [CHR 0x0A] @ join [CHR 0x0A] (map (\<lambda>(n, s). ''    '' @ n @ '': ''
       @ (case jget ''description'' s of Some v \<Rightarrow> shown v | None \<Rightarrow> ''Parameter '' @ n)) ps))"

text \<open>What calling the function of a tool returns: it raises nothing.\<close>

datatype mcp_reply = First_Text string | First_Other string | No_Content string | Call_Raises string

definition tool_reply :: "bool \<Rightarrow> string \<Rightarrow> mcp_reply \<Rightarrow> string" where
  "tool_reply session n r = (if \<not> session then ''Error: MCP session not available for tool '' @ n
     else case r of First_Text t \<Rightarrow> t | First_Other t \<Rightarrow> t | No_Content t \<Rightarrow> t
       | Call_Raises e \<Rightarrow> ''Error calling MCP tool '' @ n @ '': '' @ e)"

record tool_function =
  fn_name :: string
  fn_doc :: string
  fn_parameters :: "parameter list"
  fn_call :: "bool \<Rightarrow> mcp_reply \<Rightarrow> string"

definition create_tool_function :: "(string \<Rightarrow> bool) \<Rightarrow> (json \<Rightarrow> string) \<Rightarrow> server_tool \<Rightarrow> tool_function option" where
  "create_tool_function identifier shown t =
     (let d = (case mt_description t of Some d \<Rightarrow> if d = [] then ''MCP tool: '' @ mt_name t else d | None \<Rightarrow> ''MCP tool: '' @ mt_name t);
          s = mt_schema t
      in map_option (\<lambda>ps. \<lparr>fn_name = mt_name t, fn_doc = enhanced_description shown d s, fn_parameters = ps,
           fn_call = (\<lambda>session. tool_reply session (mt_name t))\<rparr>)
         (tool_parameters identifier (strings_of (jget ''required'' s)) (items_of (jget ''properties'' s))))"

lemma named_tools_name: "named_tools ts n = Some t \<Longrightarrow> mt_name t = n \<and> t \<in> set ts"
  unfolding named_tools_def by (drule map_of_SomeD) auto

text \<open>A configured selection of tools is served exactly, in its order, from what the server has; or the error names
  the ones the server does not have.\<close>

theorem selected_tools_served:
  "case filter_tools (Some (n # ns)) ts of
      Inr us \<Rightarrow> map mt_name us = n # ns \<and> set us \<subseteq> set ts
    | Inl missing \<Rightarrow> missing \<noteq> [] \<and> set missing = {m \<in> set (n # ns). m \<notin> mt_name ` set ts}"
proof -
  have absent: "named_tools ts m = None \<longleftrightarrow> m \<notin> mt_name ` set ts" for m
    by (auto simp: named_tools_def map_of_eq_None_iff image_image)
  have present: "\<forall>m \<in> set ms. named_tools ts m \<noteq> None \<Longrightarrow>
      map mt_name (List.map_filter (named_tools ts) ms) = ms \<and> set (List.map_filter (named_tools ts) ms) \<subseteq> set ts" for ms
    by (induction ms) (auto dest: named_tools_name)
  show ?thesis
    using present[of "n # ns"] by (auto simp: filter_tools_def Let_def absent filter_empty_conv simp del: map_filter_simps)
qed

section \<open>Other tools\<close>

text \<open>\<open>s[:n]\<close> and \<open>s[n:]\<close>.\<close>

definition slice_to :: "int \<Rightarrow> string \<Rightarrow> string" where
  "slice_to n s = (if 0 \<le> n then take (nat n) s else take (nat (int (length s) + n)) s)"

definition slice_from :: "int \<Rightarrow> string \<Rightarrow> string" where
  "slice_from n s = (if 0 \<le> n then drop (nat n) s else drop (nat (int (length s) + n)) s)"

definition truncation_notice :: "int \<Rightarrow> string" where
  "truncation_notice m = CHR 0x0A # ''..._This content has been truncated to stay below '' @ str_int m @ '' characters_...'' @ [CHR 0x0A]"

definition truncate_content :: "string \<Rightarrow> int \<Rightarrow> string" where
  "truncate_content s m = (if int (length s) \<le> m then s
     else slice_to (m div 2) s @ truncation_notice m @ slice_from ((- m) div 2) s)"

text \<open>A truncated page is longer than the limit it is said to stay below: it has as many characters of the page as
  the limit allows, and the notice.\<close>

theorem truncated_page_exceeds_limit:
  assumes "0 < m" "m < int (length s)"
  shows "int (length (truncate_content s m)) = m + int (length (truncation_notice m))
    \<and> m < int (length (truncate_content s m))"
proof -
  have "nat (int (length s) + (- m) div 2) \<le> length s" "(- m) div 2 < 0" using assms by linarith+
  moreover have "m div 2 + - ((- m) div 2) = m" by presburger
  moreover have "0 \<le> int (length s) + (- m) div 2" using assms by linarith
  ultimately show ?thesis
    using assms by (simp add: truncate_content_def slice_to_def slice_from_def truncation_notice_def)
qed

lemma truncated_page_exceeds_limit_witness: "3 < int (length (truncate_content ''abcd'' 3))"
  by (rule truncated_page_exceeds_limit[THEN conjunct2]) simp_all

text \<open>The final-output tool: \<open>invalid\<close> is the validation error of the model for a text, \<open>schema\<close> its JSON schema.\<close>

definition final_output_instructions :: "string option \<Rightarrow> string \<Rightarrow> string" where
  "final_output_instructions instructions schema = (case instructions of Some i \<Rightarrow> i | None \<Rightarrow> [])
     @ ''You must call the final_output tool when finished.The '' @ quoted ''answer''
     @ '' argument passed to the final_output tool must be a JSON string that matches the following schema:''
     @ [CHR 0x0A] @ schema"

definition final_output_tool :: "(string \<Rightarrow> (string, json) result) \<Rightarrow> (string \<Rightarrow> string option) \<Rightarrow> string \<Rightarrow> string \<Rightarrow> json" where
  "final_output_tool parse invalid schema answer = (case parse answer of
     Inl e \<Rightarrow> JObj [(''success'', JBool False), (''result'', JStr (''Invalid JSON format: '' @ e
       @ ''. Please fix the '' @ quoted ''answer'' @ '' parameter so that it is a valid JSON string and call this tool again.''))]
   | Inr v \<Rightarrow> (case invalid answer of
       Some e \<Rightarrow> JObj [(''success'', JBool False), (''result'', JStr (''Please fix this validation error: '' @ e
         @ ''. The format must conform to '' @ schema))]
     | None \<Rightarrow> JObj [(''success'', JBool True), (''result'', v)]))"

lemma final_output_accepts: "jget ''success'' (final_output_tool parse invalid schema a) = Some (JBool True)
    \<longleftrightarrow> (\<exists>v. parse a = Inr v) \<and> invalid a = None"
  by (auto simp: final_output_tool_def split: sum.split option.split)

end
