(* ===== verification/Output_Types.thy ===== *)
theory Output_Types
  imports Agent_Tools
begin

text \<open>
  The output type of an agent (\<open>any_agent/frameworks/agno.py\<close>, \<open>openai.py\<close>, \<open>google.py\<close>, \<open>llama_index.py\<close>,
  \<open>smolagents.py\<close>): how each adapter hands it to its framework when the agent is loaded and when
  \<open>update_output_type_async\<close> changes or removes it. A type is known by its JSON schema. The configured argument dictionaries are
  shared: an adapter that adds a key to one changes the configuration, unless the dictionary was empty or absent.
\<close>

section \<open>The configuration\<close>

record agent_conf =
  ac_instructions :: "string option"
  ac_agent_args :: "(string, json) dict"
  ac_model_args :: "(string, json) dict"
  ac_output_type :: "string option"
  ac_tools :: "string list"

text \<open>\<open>args = self.config.<args> or {}\<close> and an assignment to a key of it: the arguments to pass on, and what becomes
  of the configured dictionary. An absent one is like an empty one.\<close>

definition assign_arg :: "string \<Rightarrow> json \<Rightarrow> (string, json) dict \<Rightarrow> (string, json) dict \<times> (string, json) dict" where
  "assign_arg k v args = (AList.update k v args, if args = [] then [] else AList.update k v args)"

text \<open>What the framework's agent is built of: its arguments, those of its model, its instructions and tools.\<close>

record built_agent =
  ba_args :: "(string, json) dict"
  ba_model_args :: "(string, json) dict"
  ba_instructions :: "string option"
  ba_tools :: "string list"

section \<open>Agno and OpenAI\<close>

definition build_with_arg :: "string \<Rightarrow> agent_conf \<Rightarrow> agent_conf \<times> built_agent" where
  "build_with_arg k C = (let (args, kept) = (case ac_output_type C of
         Some t \<Rightarrow> assign_arg k (JStr t) (ac_agent_args C) | None \<Rightarrow> (ac_agent_args C, ac_agent_args C))
     in (C\<lparr>ac_agent_args := kept\<rparr>, \<lparr>ba_args = args, ba_model_args = ac_model_args C,
          ba_instructions = ac_instructions C, ba_tools = ac_tools C\<rparr>))"

definition agno_build :: "agent_conf \<Rightarrow> agent_conf \<times> built_agent" where
  "agno_build = build_with_arg ''response_model''"

text \<open>OpenAI also turns the model arguments into an argument of the agent, and gives the model none.\<close>

definition openai_build :: "agent_conf \<Rightarrow> agent_conf \<times> built_agent" where
  "openai_build C = (let (args, kept) = (if ac_model_args C = [] then (ac_agent_args C, ac_agent_args C)
           else assign_arg ''model_settings'' (JObj (ac_model_args C)) (ac_agent_args C));
         (args', kept') = (case ac_output_type C of
           Some t \<Rightarrow> (AList.update ''output_type'' (JStr t) args, if ac_agent_args C = [] then [] else AList.update ''output_type'' (JStr t) args)
         | None \<Rightarrow> (args, kept))
     in (C\<lparr>ac_agent_args := kept'\<rparr>, \<lparr>ba_args = args', ba_model_args = [],
          ba_instructions = ac_instructions C, ba_tools = ac_tools C\<rparr>))"

section \<open>Google and LlamaIndex\<close>

definition google_instructions :: "string option \<Rightarrow> string" where
  "google_instructions i = (case i of Some s \<Rightarrow> s | None \<Rightarrow> [])"

text \<open>\<open>_get_model\<close> writes the choice of tools into the model arguments.\<close>

definition google_build :: "agent_conf \<Rightarrow> agent_conf \<times> built_agent" where
  "google_build C = (let (margs, kept) = (case ac_output_type C of
         Some t \<Rightarrow> assign_arg ''tool_choice'' (JStr ''required'') (ac_model_args C) | None \<Rightarrow> (ac_model_args C, ac_model_args C));
       i = google_instructions (ac_instructions C)
     in (C\<lparr>ac_model_args := kept\<rparr>, \<lparr>ba_args = ac_agent_args C, ba_model_args = margs,
          ba_instructions = Some (case ac_output_type C of Some t \<Rightarrow> final_output_instructions (Some i) t | None \<Rightarrow> i),
          ba_tools = ac_tools C @ (if ac_output_type C = None then [] else [''final_output''])\<rparr>))"

definition llama_build :: "agent_conf \<Rightarrow> agent_conf \<times> built_agent" where
  "llama_build C = (C, \<lparr>ba_args = ac_agent_args C, ba_model_args = ac_model_args C,
     ba_instructions = (case ac_output_type C of Some t \<Rightarrow> Some (final_output_instructions (ac_instructions C) t)
       | None \<Rightarrow> ac_instructions C),
     ba_tools = ac_tools C @ (if ac_output_type C = None then [] else [''final_output''])\<rparr>)"

text \<open>LangChain asks for the type after each run instead: the agent it builds does not depend on it.\<close>

definition langchain_build :: "agent_conf \<Rightarrow> agent_conf \<times> built_agent" where
  "langchain_build C = (C, \<lparr>ba_args = ac_agent_args C, ba_model_args = ac_model_args C,
     ba_instructions = ac_instructions C, ba_tools = ac_tools C\<rparr>)"

text \<open>\<open>update_output_type_async\<close> of a loaded agent: the new type, and the agent built anew.\<close>

definition update_output_type :: "(agent_conf \<Rightarrow> agent_conf \<times> built_agent) \<Rightarrow> string option \<Rightarrow> agent_conf
    \<Rightarrow> agent_conf \<times> built_agent" where
  "update_output_type build t C = build (C\<lparr>ac_output_type := t\<rparr>)"

section \<open>smolagents\<close>

text \<open>The agent is kept and changed in place: the type, if any, its final-answer tool enforces, and its system prompt.\<close>

record smol_agent =
  sm_enforced :: "string option"
  sm_prompt :: string

definition setup_output_type :: "string option \<Rightarrow> string option \<Rightarrow> smol_agent \<Rightarrow> smol_agent" where
  "setup_output_type instructions t A =
     (let A1 = (case instructions of Some i \<Rightarrow> if i \<noteq> [] then A\<lparr>sm_prompt := i\<rparr> else A | None \<Rightarrow> A)
      in case t of None \<Rightarrow> A1
         | Some s \<Rightarrow> A1\<lparr>sm_enforced := Some s, sm_prompt := final_output_instructions instructions s\<rparr>)"

text \<open>The wrapped final-answer tool: an answer that the final-output tool refuses is an error.\<close>

definition final_answer :: "(string \<Rightarrow> string \<Rightarrow> json) \<Rightarrow> smol_agent \<Rightarrow> string \<Rightarrow> (json, string) result" where
  "final_answer check A answer = (case sm_enforced A of
     None \<Rightarrow> Inr answer
   | Some s \<Rightarrow> (let r = check s answer in if truthy_opt (jget ''success'' r) then Inr answer
       else Inl (case jget ''result'' r of Some v \<Rightarrow> v | None \<Rightarrow> JNull)))"

section \<open>Removing an output type\<close>

text \<open>What still holds an agent to a type: an argument naming one, a choice of tools, the tool or the instructions
  of the final output.\<close>

definition held_to_type :: "built_agent \<Rightarrow> bool" where
  "held_to_type b \<longleftrightarrow> map_of (ba_args b) ''response_model'' \<noteq> None \<or> map_of (ba_args b) ''output_type'' \<noteq> None
     \<or> map_of (ba_model_args b) ''tool_choice'' = Some (JStr ''required'') \<or> ''final_output'' \<in> set (ba_tools b)"

definition plain_conf :: "agent_conf \<Rightarrow> bool" where
  "plain_conf C \<longleftrightarrow> map_of (ac_agent_args C) ''response_model'' = None \<and> map_of (ac_agent_args C) ''output_type'' = None
     \<and> map_of (ac_model_args C) ''tool_choice'' = None \<and> ''final_output'' \<notin> set (ac_tools C)"

lemmas builds = build_with_arg_def agno_build_def openai_build_def google_build_def llama_build_def langchain_build_def
  update_output_type_def assign_arg_def held_to_type_def plain_conf_def Let_def

text \<open>Removing the output type frees an agent of LangChain and LlamaIndex from it; one of Agno, OpenAI or Google
  only if the dictionary its adapter wrote to was not the user's: the keys written for the type stay in the
  configuration.\<close>

theorem removed_output_type_stays:
  assumes "plain_conf C"
  shows "\<not> held_to_type (snd (update_output_type langchain_build None (fst (update_output_type langchain_build (Some t) C))))
    \<and> \<not> held_to_type (snd (update_output_type llama_build None (fst (update_output_type llama_build (Some t) C))))
    \<and> (held_to_type (snd (update_output_type agno_build None (fst (update_output_type agno_build (Some t) C))))
        \<longleftrightarrow> ac_agent_args C \<noteq> [])
    \<and> (held_to_type (snd (update_output_type openai_build None (fst (update_output_type openai_build (Some t) C))))
        \<longleftrightarrow> ac_agent_args C \<noteq> [])
    \<and> (held_to_type (snd (update_output_type google_build None (fst (update_output_type google_build (Some t) C))))
        \<longleftrightarrow> ac_model_args C \<noteq> [])"
  using assms
  by (intro conjI) (simp_all add: builds update_conv')

definition conf0 :: agent_conf where
  "conf0 = \<lparr>ac_instructions = None, ac_agent_args = [(''markdown'', JBool True)], ac_model_args = [(''temperature'', JInt 0)],
     ac_output_type = None, ac_tools = []\<rparr>"

lemma removed_output_type_stays_witness:
  "held_to_type (snd (update_output_type agno_build None (fst (update_output_type agno_build (Some ''t'') conf0))))"
  using removed_output_type_stays[of conf0 "''t''"] by (simp add: plain_conf_def conf0_def)

text \<open>A smolagents agent goes on refusing the answers that do not fit a removed type.\<close>

lemma smolagents_type_stays:
  "final_answer check (setup_output_type i None (setup_output_type i (Some t) A)) answer
     = final_answer check (setup_output_type i (Some t) A) answer"
  by (simp add: final_answer_def setup_output_type_def Let_def split: option.split)

lemma smolagents_prompt_stays:
  "sm_prompt (setup_output_type None None (setup_output_type None (Some t) A)) = final_output_instructions None t"
  by (simp add: setup_output_type_def Let_def)

section \<open>Shaping the output after a run\<close>

text \<open>LangChain: the parameters of the call that follows a run, of its messages. With model arguments their
  temperature and frequency penalty are passed, if only as \<^const>\<open>JNull\<close>.\<close>

definition or_null :: "json option \<Rightarrow> json" where
  "or_null v = (case v of Some x \<Rightarrow> x | None \<Rightarrow> JNull)"

definition schema_request :: "string \<Rightarrow> json" where
  "schema_request schema = JObj [(''role'', JStr ''user''),
     (''content'', JStr (''Please conform your output to the following schema: '' @ schema @ ''.''))]"

definition langchain_shaping_params :: "string \<Rightarrow> agent_conf \<Rightarrow> string \<Rightarrow> json list \<Rightarrow> (string, json) dict" where
  "langchain_shaping_params model C schema msgs =
     (if ac_model_args C = [] then []
      else [(''temperature'', or_null (map_of (ac_model_args C) ''temperature'')),
            (''frequency_penalty'', or_null (map_of (ac_model_args C) ''frequency_penalty''))])
     @ [(''model'', JStr model), (''messages'', JArr (msgs @ [schema_request schema])), (''response_format'', JStr schema)]"

text \<open>LlamaIndex: the same, only when the output does not fit, and with all model arguments, in whose dictionary the
  call is put together.\<close>

definition llama_shaping_params :: "string \<Rightarrow> string \<Rightarrow> string \<Rightarrow> (string, json) dict \<Rightarrow> (string, json) dict" where
  "llama_shaping_params model schema out args = AList.update ''response_format'' (JStr schema)
     (AList.update ''messages'' (JArr [JObj [(''role'', JStr ''assistant''), (''content'', JStr out)], schema_request schema])
       (AList.update ''model'' (JStr model) args))"

definition llama_run_output :: "string \<Rightarrow> (string \<Rightarrow> json option) \<Rightarrow> ((string, json) dict \<Rightarrow> string) \<Rightarrow> string \<Rightarrow> agent_conf
    \<Rightarrow> agent_conf \<times> json option" where
  "llama_run_output model fits call out C = (case ac_output_type C of
     None \<Rightarrow> (C, Some (JStr out))
   | Some t \<Rightarrow> (case fits out of
       Some v \<Rightarrow> (C, Some v)
     | None \<Rightarrow> (let ps = llama_shaping_params model t out (ac_model_args C)
         in (C\<lparr>ac_model_args := (if ac_model_args C = [] then [] else ps)\<rparr>, fits (call ps)))))"

text \<open>A model call of LlamaIndex: the messages and the stream flag by name, then every other argument; \<^const>\<open>None\<close>
  is the \<open>TypeError\<close> of an argument given twice.\<close>

definition llama_call_kwargs :: "string \<Rightarrow> json \<Rightarrow> json \<Rightarrow> (string, json) dict \<Rightarrow> (string, json) dict \<Rightarrow> (string, json) dict" where
  "llama_call_kwargs model temp toks args kwargs =
     dict_merge (dict_merge [(''model'', JStr model), (''temperature'', temp), (''max_tokens'', toks)] args) kwargs"

definition llama_chat :: "((string, json) dict \<Rightarrow> 'r) \<Rightarrow> json list \<Rightarrow> (string, json) dict \<Rightarrow> 'r option" where
  "llama_chat call msgs kw = (if map_of kw ''messages'' \<noteq> None \<or> map_of kw ''stream'' \<noteq> None then None
     else Some (call ([(''messages'', JArr msgs), (''stream'', JBool False)] @ kw)))"

lemma merge_has: "map_of (dict_merge a b) k = None \<longleftrightarrow> map_of a k = None \<and> map_of b k = None"
  by (auto simp: map_of_dict_merge_rev map_add_None map_of_eq_None_iff)

text \<open>When the output of a run did not fit its type and model arguments are configured, the messages of the
  call that shaped it stay in the configuration; an agent built from it, as a change of the output type does, can make no model call.\<close>

theorem shaping_spoils_model_args:
  assumes "ac_output_type C = Some t" "fits out = None" "ac_model_args C \<noteq> []"
    and "C' = fst (llama_run_output model fits shape out C)"
    and "b = snd (update_output_type llama_build t' C')"
  shows "llama_chat call msgs (llama_call_kwargs m temp toks (ba_model_args b) kwargs) = None"
proof -
  have "map_of (ba_model_args b) ''messages'' \<noteq> None"
    using assms by (simp add: llama_run_output_def llama_shaping_params_def builds update_conv')
  then show ?thesis
    by (simp add: llama_chat_def llama_call_kwargs_def merge_has)
qed

lemma shaping_spoils_model_args_witness:
  "llama_chat (\<lambda>kw. ()) [] (llama_call_kwargs ''m'' JNull JNull (ba_model_args (snd (update_output_type llama_build None
     (fst (llama_run_output ''m'' (\<lambda>_. None) (\<lambda>_. []) ''x'' (conf0\<lparr>ac_output_type := Some ''t''\<rparr>)))))) []) = None"
  using shaping_spoils_model_args[where C = "conf0\<lparr>ac_output_type := Some ''t''\<rparr>" and t = "''t''" and fits = "\<lambda>_. None" and out = "''x''"
      and model = "''m''" and shape = "\<lambda>_. []" and t' = None, OF _ _ _ refl refl]
  by (simp add: conf0_def)

end
