(* ===== verification/Sdk_Spec.thy ===== *)
theory Sdk_Spec
  imports Prelude "HOL-Library.Char_ord" "HOL-Library.List_Lexorder"
begin

text \<open>
  What \<open>scripts/sdk_codegen/generate.py\<close> does to the OpenAPI document before it generates a client: the
  control-plane operations with the schemas they reach (\<open>filter_spec\<close>), or every operation with the completion
  types of any-llm put in (\<open>enrich_spec\<close>), and then the naming of free-form members of unions
  (\<open>sanitize_freeform_object_arrays\<close>). A document is the list of its entries; the schemas pydantic makes of
  any-llm's types are a parameter, by model and prefix of the references.
\<close>

section \<open>References\<close>

datatype codegen_error = Attribute_Error | Type_Error | Key_Error string | Value_Error string

type_synonym items = "(string, json) dict"

definition schemas_prefix :: string where
  "schemas_prefix = ''#/components/schemas/''"

definition ref_name :: "string \<Rightarrow> string option" where
  "ref_name r = (if starts_with schemas_prefix r then Some (rev (takeWhile (\<lambda>c. c \<noteq> CHR ''/'') (rev r))) else None)"

definition own_ref :: "items \<Rightarrow> string list" where
  "own_ref d = (case map_of d ''$ref'' of
     Some (JStr r) \<Rightarrow> (case ref_name r of Some n \<Rightarrow> [n] | None \<Rightarrow> [])
   | _ \<Rightarrow> [])"

fun collect_schema_refs :: "json \<Rightarrow> string list" and item_refs :: "items \<Rightarrow> string list"
  and list_refs :: "json list \<Rightarrow> string list" where
  "collect_schema_refs (JObj d) = own_ref d @ item_refs d"
| "collect_schema_refs (JArr xs) = list_refs xs"
| "collect_schema_refs _ = []"
| "item_refs [] = []"
| "item_refs ((k, v) # d) = collect_schema_refs v @ item_refs d"
| "list_refs [] = []"
| "list_refs (x # xs) = collect_schema_refs x @ list_refs xs"

abbreviation refs :: "json \<Rightarrow> string set" where
  "refs j \<equiv> set (collect_schema_refs j)"

lemma set_item_refs: "set (item_refs d) = (\<Union>p \<in> set d. refs (snd p))"
  by (induction d) auto

lemma set_list_refs: "set (list_refs xs) = (\<Union>x \<in> set xs. refs x)"
  by (induction xs) auto

lemma refs_JObj: "refs (JObj d) = set (own_ref d) \<union> (\<Union>p \<in> set d. refs (snd p))"
  by (simp add: set_item_refs)

lemma refs_JArr: "refs (JArr xs) = (\<Union>x \<in> set xs. refs x)"
  by (simp add: set_list_refs)

lemma refs_of_entry: "map_of d k = Some v \<Longrightarrow> refs v \<subseteq> refs (JObj d)"
  by (auto simp: set_item_refs dest!: map_of_SomeD intro!: bexI[of _ "(k, v)"])

section \<open>The control-plane document\<close>

definition hashable :: "json \<Rightarrow> bool" where
  "hashable j = (case j of JArr _ \<Rightarrow> False | JObj _ \<Rightarrow> False | _ \<Rightarrow> True)"

definition operation_kept :: "string list \<Rightarrow> json \<Rightarrow> (codegen_error, bool) result" where
  "operation_kept tags operation = (case operation of
     JObj d \<Rightarrow> (case map_of d ''tags'' of
         Some (JArr ts) \<Rightarrow> if list_all hashable ts then Inr (list_ex (\<lambda>t. t \<in> JStr ` set tags) ts) else Inl Type_Error
       | _ \<Rightarrow> Inr False)
   | _ \<Rightarrow> Inr False)"

fun kept_methods :: "string list \<Rightarrow> items \<Rightarrow> (codegen_error, items) result" where
  "kept_methods tags [] = Inr []"
| "kept_methods tags ((m, operation) # ms) = rbind (operation_kept tags operation) (\<lambda>keep.
     rbind (kept_methods tags ms) (\<lambda>kept. Inr (if keep then (m, operation) # kept else kept)))"

fun kept_paths :: "string list \<Rightarrow> items \<Rightarrow> (codegen_error, items) result" where
  "kept_paths tags [] = Inr []"
| "kept_paths tags ((path, methods) # ps) = (case methods of
     JObj ms \<Rightarrow> rbind (kept_methods tags ms) (\<lambda>kept.
       rbind (kept_paths tags ps) (\<lambda>r. Inr (if kept = [] then r else (path, JObj kept) # r)))
   | _ \<Rightarrow> Inl Attribute_Error)"

text \<open>
  The names found so far, and the queue with the end that is popped first. The order in which Python iterates
  over a set is not specified; \<open>remdups\<close> is one order, and \<open>set_close_refs\<close> shows that none matters.
\<close>

definition schema_universe :: "items \<Rightarrow> string set" where
  "schema_universe S = set (item_refs S)"

function close_refs :: "items \<Rightarrow> string list \<Rightarrow> string list \<Rightarrow> string list" where
  "close_refs S [] needed = needed"
| "close_refs S (n # queue) needed = (case map_of S n of
     None \<Rightarrow> close_refs S queue needed
   | Some s \<Rightarrow> (let found = filter (\<lambda>r. r \<notin> set needed) (remdups (collect_schema_refs s))
       in close_refs S (rev found @ queue) (needed @ found)))"
  by pat_completeness auto
termination
proof (relation "measures [\<lambda>(S, q, needed). card (schema_universe S - set needed), \<lambda>(S, q, needed). length q]",
    goal_cases)
  case 1
  show ?case by simp
next
  case 2
  then show ?case by simp
next
  case (3 S n q needed s found)
  show ?case
  proof (cases "found = []")
    case True
    then show ?thesis by simp
  next
    case False
    then obtain r where "r \<in> set found" by (cases found) auto
    with 3 have r: "r \<in> refs s" "r \<notin> set needed" by auto
    have "refs s \<subseteq> schema_universe S"
      using 3(1) by (force simp: schema_universe_def set_item_refs dest: map_of_SomeD)
    with r \<open>r \<in> set found\<close> have "schema_universe S - set (needed @ found) \<subset> schema_universe S - set needed"
      by auto
    then have "card (schema_universe S - set (needed @ found)) < card (schema_universe S - set needed)"
      by (rule psubset_card_mono[rotated]) (simp add: schema_universe_def)
    then show ?thesis by simp
  qed
qed

definition all_schemas :: "items \<Rightarrow> (codegen_error, json option) result" where
  "all_schemas spec = (case map_of spec ''components'' of
     None \<Rightarrow> Inr None | Some (JObj c) \<Rightarrow> Inr (map_of c ''schemas'') | Some _ \<Rightarrow> Inl Attribute_Error)"

definition kept_schemas :: "items \<Rightarrow> string list \<Rightarrow> items" where
  "kept_schemas S needed = map (\<lambda>n. (n, the (map_of S n))) (filter (\<lambda>n. map_of S n \<noteq> None) (sort needed))"

definition needed_schemas :: "json option \<Rightarrow> string list \<Rightarrow> (codegen_error, items) result" where
  "needed_schemas schemas used = (case schemas of
     None \<Rightarrow> Inr []
   | Some (JObj S) \<Rightarrow> Inr (kept_schemas S (close_refs S (rev used) used))
   | Some _ \<Rightarrow> if used = [] then Inr [] else Inl Attribute_Error)"

definition component_items :: "items \<Rightarrow> items" where
  "component_items spec = (case map_of spec ''components'' of Some (JObj c) \<Rightarrow> c | _ \<Rightarrow> [])"

definition filter_spec :: "items \<Rightarrow> string list \<Rightarrow> (codegen_error, items) result" where
  "filter_spec spec tags =
     rbind (case map_of spec ''paths'' of None \<Rightarrow> Inr [] | Some (JObj ps) \<Rightarrow> kept_paths tags ps | Some _ \<Rightarrow> Inl Attribute_Error)
       (\<lambda>paths. rbind (all_schemas spec) (\<lambda>schemas.
     rbind (needed_schemas schemas (remdups (collect_schema_refs (JObj paths)))) (\<lambda>kept.
       Inr (dict_remove {''paths'', ''components''} spec
         @ [(''paths'', JObj paths),
            (''components'', JObj (dict_remove {''schemas''} (component_items spec) @ [(''schemas'', JObj kept)]))]))))"

definition control_plane_tags :: "string list" where
  "control_plane_tags = [''keys'', ''users'', ''budgets'', ''pricing'', ''usage'']"

section \<open>What the closure computes\<close>

text \<open>Which schema a schema refers to.\<close>

definition ref_step :: "items \<Rightarrow> (string \<times> string) set" where
  "ref_step S = {(a, b). \<exists>s. map_of S a = Some s \<and> b \<in> refs s}"

lemma close_refs_sound: "set q \<subseteq> set needed \<Longrightarrow> set (close_refs S q needed) \<subseteq> (ref_step S)\<^sup>* `` set needed"
proof (induction S q needed rule: close_refs.induct)
  case (1 S needed)
  then show ?case by auto
next
  case (2 S n q needed)
  show ?case
  proof (cases "map_of S n")
    case None
    with 2 show ?thesis by simp
  next
    case (Some s)
    define found where "found = filter (\<lambda>r. r \<notin> set needed) (remdups (collect_schema_refs s))"
    have step: "b \<in> (ref_step S)\<^sup>* `` set needed" if "b \<in> set found" for b
      using that Some 2(3) by (auto simp: found_def ref_step_def)
    have "set (close_refs S (n # q) needed) \<subseteq> (ref_step S)\<^sup>* `` set (needed @ found)"
      using 2(2)[OF Some found_def] 2(3) by (simp add: Some found_def Let_def le_supI1)
    also have "\<dots> \<subseteq> (ref_step S)\<^sup>* `` set needed"
      using step by (auto intro: rtrancl_trans)
    finally show ?thesis .
  qed
qed

lemma close_refs_extends: "set needed \<subseteq> set (close_refs S q needed)"
  by (induction S q needed rule: close_refs.induct) (auto simp: Let_def split: option.splits)

lemma close_refs_closed:
  assumes "\<And>n s. \<lbrakk> n \<in> set needed; n \<notin> set q; map_of S n = Some s \<rbrakk> \<Longrightarrow> refs s \<subseteq> set needed"
  shows "\<lbrakk> n \<in> set (close_refs S q needed); map_of S n = Some s \<rbrakk> \<Longrightarrow> refs s \<subseteq> set (close_refs S q needed)"
  using assms
proof (induction S q needed rule: close_refs.induct)
  case (1 S needed)
  then show ?case by auto
next
  case (2 S m q needed)
  show ?case
  proof (cases "map_of S m")
    case None
    with 2(3,4) have *: "n \<in> set (close_refs S q needed)" by simp
    show ?thesis
      using 2(1)[OF None * 2(4)] 2(5) None by fastforce
  next
    case (Some t)
    define found where "found = filter (\<lambda>r. r \<notin> set needed) (remdups (collect_schema_refs t))"
    have eq: "close_refs S (m # q) needed = close_refs S (rev found @ q) (needed @ found)"
      by (simp add: Some found_def Let_def)
    have inv: "refs u \<subseteq> set (needed @ found)"
      if "k \<in> set (needed @ found)" "k \<notin> set (rev found @ q)" "map_of S k = Some u" for k u
      using that 2(5)[of k u] Some by (cases "k = m") (auto simp: found_def)
    show ?thesis
      using 2(2)[OF Some found_def] 2(3,4) inv unfolding eq by blast
  qed
qed

lemma set_close_refs: "set (close_refs S (rev used) used) = (ref_step S)\<^sup>* `` set used"
proof
  show "set (close_refs S (rev used) used) \<subseteq> (ref_step S)\<^sup>* `` set used"
    by (rule close_refs_sound) simp
next
  have "b \<in> set (close_refs S (rev used) used)" if "(a, b) \<in> (ref_step S)\<^sup>*" "a \<in> set used" for a b
    using that
  proof (induction rule: rtrancl_induct)
    case base
    then show ?case using close_refs_extends by blast
  next
    case (step y z)
    then obtain s where s: "map_of S y = Some s" "z \<in> refs s"
      by (auto simp: ref_step_def)
    from close_refs_closed[of used "rev used" S y s] step s show ?case by auto
  qed
  then show "(ref_step S)\<^sup>* `` set used \<subseteq> set (close_refs S (rev used) used)" by blast
qed

lemma distinct_close_refs: "distinct needed \<Longrightarrow> distinct (close_refs S q needed)"
  by (induction S q needed rule: close_refs.induct) (auto simp: Let_def split: option.splits)

section \<open>Free-form members of unions\<close>

definition free_form_object :: string where
  "free_form_object = ''FreeFormObject''"

definition free_form_ref :: json where
  "free_form_ref = JObj [(''$ref'', JStr (schemas_prefix @ free_form_object))]"

definition is_free_form_object :: "json \<Rightarrow> bool" where
  "is_free_form_object node = (case node of
     JObj d \<Rightarrow> map_of d ''type'' = Some (JStr ''object'') \<and> fst ` set d \<subseteq> {''type'', ''additionalProperties''}
       \<and> (case map_of d ''additionalProperties'' of None \<Rightarrow> True | Some v \<Rightarrow> v = JBool True)
   | _ \<Rightarrow> False)"

definition is_empty_schema :: "json \<Rightarrow> bool" where
  "is_empty_schema node = (case node of JObj d \<Rightarrow> fst ` set d \<subseteq> {''title'', ''description''} | _ \<Rightarrow> False)"

definition is_free_array :: "json \<Rightarrow> bool" where
  "is_free_array node = (jget ''type'' node = Some (JStr ''array'')
     \<and> (case jget ''items'' node of Some i \<Rightarrow> is_free_form_object i | None \<Rightarrow> False))"

definition is_free_member :: "json \<Rightarrow> bool" where
  "is_free_member m \<longleftrightarrow> is_free_array m \<or> is_empty_schema m"

definition name_member :: "json \<Rightarrow> json" where
  "name_member m = (if is_free_array m then (case m of JObj d \<Rightarrow> JObj (AList.update ''items'' free_form_ref d) | _ \<Rightarrow> m)
     else if is_empty_schema m then free_form_ref else m)"

definition unions :: "string set" where
  "unions = {''anyOf'', ''oneOf''}"

text \<open>An entry of a node once the members of its unions are named, and whether one was.\<close>

definition name_entry :: "string \<times> json \<Rightarrow> json" where
  "name_entry p = (case snd p of JArr ms \<Rightarrow> if fst p \<in> unions then JArr (map name_member ms) else JArr ms | v \<Rightarrow> v)"

definition entry_named :: "string \<times> json \<Rightarrow> bool" where
  "entry_named p = (case snd p of JArr ms \<Rightarrow> fst p \<in> unions \<and> list_ex is_free_member ms | _ \<Rightarrow> False)"

text \<open>A weight that the naming of an entry's members decreases below that of the node.\<close>

fun weight :: "json \<Rightarrow> nat" and items_weight :: "items \<Rightarrow> nat" and list_weight :: "json list \<Rightarrow> nat" where
  "weight (JObj d) = Suc (items_weight d)"
| "weight (JArr xs) = Suc (list_weight xs)"
| "weight _ = 1"
| "items_weight [] = 0"
| "items_weight ((k, v) # d) = weight v + (case v of JArr ms \<Rightarrow> length ms | _ \<Rightarrow> 0) + items_weight d"
| "list_weight [] = 0"
| "list_weight (x # xs) = weight x + list_weight xs"

lemma list_weight_member: "x \<in> set xs \<Longrightarrow> weight x \<le> list_weight xs"
  by (induction xs) auto

lemma items_weight_member:
  "p \<in> set d \<Longrightarrow> weight (snd p) + (case snd p of JArr ms \<Rightarrow> length ms | _ \<Rightarrow> 0) \<le> items_weight d"
  by (induction d) auto

lemma items_weight_update:
  "map_of d k = Some (JObj e) \<Longrightarrow> 1 \<le> items_weight e \<Longrightarrow>
    items_weight (AList.update k free_form_ref d) \<le> items_weight d"
  by (induction d) (auto simp: free_form_ref_def)

lemma weight_name_member: "weight (name_member m) \<le> Suc (weight m)"
proof (cases "is_free_array m")
  case True
  then obtain d e where m: "m = JObj d" "map_of d ''items'' = Some (JObj e)" "map_of e ''type'' = Some (JStr ''object'')"
    by (cases m) (auto simp: is_free_array_def is_free_form_object_def split: option.splits json.splits)
  from items_weight_member[OF map_of_SomeD[OF m(3)]] have "1 \<le> items_weight e" by simp
  from items_weight_update[OF m(2) this] True show ?thesis by (simp add: name_member_def m(1))
next
  case False
  then show ?thesis by (cases m) (auto simp: name_member_def free_form_ref_def)
qed

lemma list_weight_named: "list_weight (map name_member ms) \<le> list_weight ms + length ms"
proof (induction ms)
  case (Cons m ms)
  with weight_name_member[of m] show ?case by simp
qed simp

lemma weight_name_entry:
  assumes "p \<in> set d"
  shows "weight (name_entry p) < weight (JObj d)"
proof -
  have "weight (name_entry p) \<le> weight (snd p) + (case snd p of JArr ms \<Rightarrow> length ms | _ \<Rightarrow> 0)"
    using list_weight_named by (auto simp: name_entry_def split: json.splits)
  with items_weight_member[OF assms] show ?thesis by simp
qed

lemma weight_element: "x \<in> set xs \<Longrightarrow> weight x < weight (JArr xs)"
  using list_weight_member[of x xs] by simp

function walk :: "json \<Rightarrow> json" where
  "walk (JObj d) = JObj (map (\<lambda>p. (fst p, walk (name_entry p))) d)"
| "walk (JArr xs) = JArr (map walk xs)"
| "walk JNull = JNull"
| "walk (JBool b) = JBool b"
| "walk (JInt i) = JInt i"
| "walk (JFloat q) = JFloat q"
| "walk (JStr s) = JStr s"
  by pat_completeness auto
termination
  by (relation "measure weight") (use weight_name_entry weight_element in auto)

text \<open>The flag \<open>used\<close> once a node is walked.\<close>

function walk_used :: "json \<Rightarrow> bool" where
  "walk_used (JObj d) = list_ex (\<lambda>p. entry_named p \<or> walk_used (name_entry p)) d"
| "walk_used (JArr xs) = list_ex walk_used xs"
| "walk_used JNull = False"
| "walk_used (JBool b) = False"
| "walk_used (JInt i) = False"
| "walk_used (JFloat q) = False"
| "walk_used (JStr s) = False"
  by pat_completeness auto
termination
  by (relation "measure weight") (use weight_name_entry weight_element in auto)

text \<open>\<open>existing == desired\<close>; a number equal to one compares equal to \<open>True\<close>.\<close>

definition is_open_object :: "json \<Rightarrow> bool" where
  "is_open_object j = (case j of
     JObj d \<Rightarrow> fst ` set d = {''type'', ''additionalProperties''} \<and> map_of d ''type'' = Some (JStr ''object'')
       \<and> map_of d ''additionalProperties'' \<in> {Some (JBool True), Some (JInt 1), Some (JFloat 1)}
   | _ \<Rightarrow> False)"

definition open_object :: json where
  "open_object = JObj [(''type'', JStr ''object''), (''additionalProperties'', JBool True)]"

definition free_form_conflict :: string where
  "free_form_conflict = ''schema 'FreeFormObject' already exists with a different shape; cannot reuse it for free-form array-item sanitization''"

definition put_schemas :: "items \<Rightarrow> items \<Rightarrow> items" where
  "put_schemas spec S = AList.update ''components'' (JObj (AList.update ''schemas'' (JObj S) (component_items spec))) spec"

definition sanitize_freeform_object_arrays :: "items \<Rightarrow> (codegen_error, items) result" where
  "sanitize_freeform_object_arrays spec = rbind (all_schemas spec) (\<lambda>schemas. (case schemas of
     Some (JObj S) \<Rightarrow>
       let walked = (case walk (JObj spec) of JObj d \<Rightarrow> d | _ \<Rightarrow> spec);
           schemas' = (case walk (JObj S) of JObj S' \<Rightarrow> S' | _ \<Rightarrow> S)
       in if \<not> walk_used (JObj spec) then Inr walked
          else (case map_of schemas' free_form_object of
              Some existing \<Rightarrow> if is_open_object existing \<or> existing = JNull
                then Inr (put_schemas walked (AList.update free_form_object open_object schemas'))
                else Inl (Value_Error free_form_conflict)
            | None \<Rightarrow> Inr (put_schemas walked (AList.update free_form_object open_object schemas')))
   | _ \<Rightarrow> Inr spec))"

section \<open>The full document\<close>

text \<open>
  \<open>model_json_schema\<close> and \<open>json_schema\<close> of a type of any-llm, by the name of the type and the prefix its
  references are given: the entries of the schema, with the nested models under \<open>$defs\<close>.
\<close>

type_synonym pydantic = "string \<Rightarrow> string \<Rightarrow> items"

definition prefixed :: "string \<Rightarrow> string \<Rightarrow> string" where
  "prefixed prefix n = prefix @ ''_'' @ n"

definition absorb :: "items \<Rightarrow> string \<Rightarrow> items \<Rightarrow> (codegen_error, items \<times> items) result" where
  "absorb js prefix S = (case map_of js ''$defs'' of
     None \<Rightarrow> Inr (foldl (\<lambda>S p. AList.update (prefixed prefix (fst p)) (snd p) S) S [], dict_remove {''$defs''} js)
   | Some (JObj defs) \<Rightarrow> Inr (foldl (\<lambda>S p. AList.update (prefixed prefix (fst p)) (snd p) S) S defs, dict_remove {''$defs''} js)
   | Some _ \<Rightarrow> Inl Attribute_Error)"

text \<open>A schema put in: its name, the type it is made of, the prefix, and what is taken of it.\<close>

definition inject :: "pydantic \<Rightarrow> string \<Rightarrow> string \<Rightarrow> string \<Rightarrow> (items \<Rightarrow> json) \<Rightarrow> items \<Rightarrow> (codegen_error, items) result" where
  "inject P schema_name model prefix part S =
     rbind (absorb (P model prefix) prefix S) (\<lambda>(S', js). Inr (AList.update schema_name (part js) S'))"

definition items_schema :: "items \<Rightarrow> json" where
  "items_schema js = (case map_of js ''items'' of Some j \<Rightarrow> j | None \<Rightarrow> JObj [])"

definition inject_all :: "pydantic \<Rightarrow> items \<Rightarrow> (codegen_error, items) result" where
  "inject_all P S =
     rbind (inject P ''ChatCompletion'' ''ChatCompletion'' ''CC'' JObj S) (\<lambda>S.
     rbind (inject P ''ChatCompletionChunk'' ''ChatCompletionChunk'' ''CCK'' JObj S) (\<lambda>S.
     rbind (inject P ''ChatMessageInput'' ''list[ChatCompletionMessageParam]'' ''MSG'' items_schema S) (\<lambda>S.
     rbind (inject P ''MessageResponse'' ''MessageResponse'' ''MR'' JObj S) (\<lambda>S.
     rbind (inject P ''RerankResponse'' ''RerankResponse'' ''RR'' JObj S) (\<lambda>S.
     rbind (inject P ''CreateEmbeddingResponse'' ''CreateEmbeddingResponse'' ''EMB'' JObj S)
       (inject P ''ImagesResponse'' ''ImagesResponse'' ''IMG'' JObj))))))"

text \<open>\<open>node[k1]...[kn] = v\<close>.\<close>

fun set_at :: "string list \<Rightarrow> json \<Rightarrow> json \<Rightarrow> (codegen_error, json) result" where
  "set_at [] v node = Inr v"
| "set_at (k # ks) v node = (case node of
     JObj d \<Rightarrow> (if ks = [] then Inr (JObj (AList.update k v d))
       else (case map_of d k of
           None \<Rightarrow> Inl (Key_Error k)
         | Some x \<Rightarrow> rbind (set_at ks v x) (\<lambda>y. Inr (JObj (AList.update k y d)))))
   | _ \<Rightarrow> Inl Type_Error)"

definition schema_ref :: "string \<Rightarrow> json" where
  "schema_ref n = JObj [(''$ref'', JStr (schemas_prefix @ n))]"

definition set_json_200 :: "string \<Rightarrow> string \<Rightarrow> string \<Rightarrow> json \<Rightarrow> (codegen_error, json) result" where
  "set_json_200 path schema_name description = set_at [''paths'', path, ''post'', ''responses'', ''200''] (JObj
     [(''description'', JStr description),
      (''content'', JObj [(''application/json'', JObj [(''schema'', schema_ref schema_name)])])])"

definition messages_schema :: json where
  "messages_schema = JObj [(''type'', JStr ''array''), (''minItems'', JInt 1), (''items'', schema_ref ''ChatMessageInput'')]"

definition typed_surface :: "json \<Rightarrow> (codegen_error, json) result" where
  "typed_surface spec =
     rbind (set_json_200 ''/v1/chat/completions'' ''ChatCompletion'' ''Chat completion'' spec) (\<lambda>spec.
     rbind (set_json_200 ''/v1/messages'' ''MessageResponse'' ''Anthropic-style message'' spec) (\<lambda>spec.
     rbind (set_json_200 ''/v1/rerank'' ''RerankResponse'' ''Rerank result'' spec) (\<lambda>spec.
     rbind (set_json_200 ''/v1/embeddings'' ''CreateEmbeddingResponse'' ''Embeddings'' spec) (\<lambda>spec.
     rbind (set_json_200 ''/v1/images/generations'' ''ImagesResponse'' ''Generated images'' spec)
       (set_at [''components'', ''schemas'', ''ChatCompletionRequest'', ''properties'', ''messages''] messages_schema)))))"

definition enrich_spec :: "pydantic \<Rightarrow> items \<Rightarrow> (codegen_error, items) result" where
  "enrich_spec P spec = rbind (all_schemas spec) (\<lambda>schemas.
     rbind (case schemas of None \<Rightarrow> Inr [] | Some (JObj S) \<Rightarrow> Inr S | Some _ \<Rightarrow> Inl Type_Error) (\<lambda>S.
     rbind (inject_all P S) (\<lambda>S'.
     rbind (typed_surface (JObj (put_schemas spec S'))) (\<lambda>j.
       case j of JObj d \<Rightarrow> Inr d | _ \<Rightarrow> Inl Type_Error))))"

section \<open>The prepared document\<close>

definition default_spec_version :: string where
  "default_spec_version = ''0.0.0-dev''"

text \<open>The version the cores are stamped with, and the document with the version given on the command line.\<close>

definition spec_version_of :: "string option \<Rightarrow> items \<Rightarrow> (codegen_error, json) result" where
  "spec_version_of given spec = (case given of
     Some (c # v) \<Rightarrow> Inr (JStr (c # v))
   | _ \<Rightarrow> (case map_of spec ''info'' of
       None \<Rightarrow> Inr (JStr default_spec_version)
     | Some (JObj info) \<Rightarrow> Inr (case map_of info ''version'' of Some v \<Rightarrow> v | None \<Rightarrow> JStr default_spec_version)
     | Some _ \<Rightarrow> Inl Attribute_Error))"

definition stamped_spec :: "string option \<Rightarrow> items \<Rightarrow> (codegen_error, items) result" where
  "stamped_spec given spec = (case given of
     Some (c # v) \<Rightarrow> (case map_of spec ''info'' of
         None \<Rightarrow> Inr (AList.update ''info'' (JObj [(''version'', JStr (c # v))]) spec)
       | Some (JObj info) \<Rightarrow> Inr (AList.update ''info'' (JObj (AList.update ''version'' (JStr (c # v)) info)) spec)
       | Some _ \<Rightarrow> Inl Type_Error)
   | _ \<Rightarrow> Inr spec)"

definition prepared_spec :: "pydantic \<Rightarrow> bool \<Rightarrow> string option \<Rightarrow> items \<Rightarrow> (codegen_error, items) result" where
  "prepared_spec P full given spec = rbind (stamped_spec given spec) (\<lambda>spec.
     rbind (if full then enrich_spec P spec else filter_spec spec control_plane_tags) sanitize_freeform_object_arrays)"

section \<open>Walking a document\<close>

lemma walk_leaf [simp]:
  "walk j = JStr s \<longleftrightarrow> j = JStr s" "walk j = JBool b \<longleftrightarrow> j = JBool b"
  by (cases j; simp)+

lemma name_entry_leaf [simp]:
  "name_entry (k, v) = JStr s \<longleftrightarrow> v = JStr s" "name_entry (k, v) = JBool b \<longleftrightarrow> v = JBool b"
  by (cases v; simp add: name_entry_def)+

lemma name_entry_JObj [simp]: "name_entry (k, JObj d) = JObj d"
  by (simp add: name_entry_def)

lemma map_of_walk:
  "map_of (map (\<lambda>p. (fst p, walk (name_entry p))) d) k = map_option (\<lambda>v. walk (name_entry (k, v))) (map_of d k)"
  by (induction d) auto

lemma jget_walk: "jget k (walk j) = map_option (\<lambda>v. walk (name_entry (k, v))) (jget k j)"
  by (cases j) (simp_all add: map_of_walk)

lemma keys_walk: "fst ` set (map (\<lambda>p. (fst p, walk (name_entry p))) d) = fst ` set d"
  by (auto simp: image_image)

lemma is_free_form_object_walk [simp]: "is_free_form_object (walk j) = is_free_form_object j"
  by (cases j) (auto simp: is_free_form_object_def map_of_walk keys_walk image_image split: option.splits)

lemma is_empty_schema_walk [simp]: "is_empty_schema (walk j) = is_empty_schema j"
  by (cases j) (simp_all add: is_empty_schema_def image_image)

lemma name_entry_items: "name_entry (''items'', v) = v"
  by (cases v) (simp_all add: name_entry_def unions_def)

lemma is_free_array_walk [simp]: "is_free_array (walk j) = is_free_array j"
  by (auto simp: is_free_array_def jget_walk name_entry_items split: option.splits)

lemma is_free_member_walk [simp]: "is_free_member (walk j) = is_free_member j"
  by (simp add: is_free_member_def)

lemma free_form_ref_not_free [simp]:
  "\<not> is_free_form_object free_form_ref" "\<not> is_free_array free_form_ref" "\<not> is_empty_schema free_form_ref"
  by (simp_all add: free_form_ref_def is_free_form_object_def is_free_array_def is_empty_schema_def)

lemma name_member_not_free [simp]: "\<not> is_free_member (name_member m)"
proof (cases "is_free_array m")
  case True
  then obtain d where m: "m = JObj d" by (cases m) (simp_all add: is_free_array_def)
  from True have "''type'' \<in> fst ` set d"
    by (auto simp: m is_free_array_def dest!: map_of_SomeD intro!: rev_image_eqI)
  then have "\<not> is_empty_schema (name_member m)"
    using True by (auto simp: name_member_def m is_empty_schema_def dom_update)
  moreover have "\<not> is_free_array (name_member m)"
    using True by (simp add: name_member_def m is_free_array_def)
  ultimately show ?thesis by (simp add: is_free_member_def)
qed (auto simp: name_member_def is_free_member_def)

lemma name_member_kept: "\<not> is_free_member m \<Longrightarrow> name_member m = m"
  by (simp add: name_member_def is_free_member_def)

lemma name_entry_kept: "\<not> entry_named p \<Longrightarrow> name_entry p = snd p"
  by (cases "snd p") (auto simp: name_entry_def entry_named_def list_ex_iff name_member_kept intro!: map_idI)

lemma walk_unused: "\<not> walk_used j \<Longrightarrow> walk j = j"
  by (induction j rule: walk.induct) (auto simp: list_ex_iff name_entry_kept intro!: map_idI)

lemma entry_named_walk: "\<not> entry_named (fst p, walk (name_entry p))"
  by (cases "snd p") (auto simp: name_entry_def entry_named_def list_ex_iff)

lemma walk_used_walk [simp]: "\<not> walk_used (walk j)"
proof (induction j rule: walk.induct)
  case (1 d)
  then show ?case
    by (auto simp: list_ex_iff entry_named_walk name_entry_kept[OF entry_named_walk])
qed (simp_all add: list_ex_iff)

lemma walk_idem [simp]: "walk (walk j) = walk j"
  by (rule walk_unused) simp

text \<open>A member that is named refers to the shared schema instead of to what its items refer to.\<close>

lemma ref_name_prefix [simp]:
  "CHR ''/'' \<notin> set n \<Longrightarrow> ref_name (schemas_prefix @ n) = Some n"
proof -
  assume n: "CHR ''/'' \<notin> set n"
  have "takeWhile (\<lambda>c. c \<noteq> CHR ''/'') (rev n @ CHR ''/'' # rest) = rev n" for rest
    using n by (subst takeWhile_append2) auto
  moreover have "rev schemas_prefix = CHR ''/'' # tl (rev schemas_prefix)"
    by (simp add: schemas_prefix_def)
  ultimately have "takeWhile (\<lambda>c. c \<noteq> CHR ''/'') (rev n @ rev schemas_prefix) = rev n" by metis
  then show ?thesis by (simp add: ref_name_def starts_with_iff)
qed

lemma refs_free_form_ref: "refs free_form_ref = {free_form_object}"
  by (simp add: free_form_ref_def own_ref_def free_form_object_def)

lemma refs_update:
  assumes "k \<noteq> ''$ref''"
  shows "refs (JObj (AList.update k v d)) \<subseteq> refs v \<union> refs (JObj d)"
proof -
  have "own_ref (AList.update k v d) = own_ref d"
    using assms by (simp add: own_ref_def)
  moreover have "snd p = v \<or> p \<in> set d" if "p \<in> set (AList.update k v d)" for p
    using that by (induction d) (auto split: if_splits)
  ultimately show ?thesis by (fastforce simp: set_item_refs)
qed

lemma refs_name_member: "refs (name_member m) \<subseteq> refs m \<union> {free_form_object}"
proof (cases m)
  case (JObj d)
  show ?thesis
    using refs_update[of "''items''" free_form_ref d]
    by (auto simp: JObj name_member_def refs_free_form_ref)
qed (auto simp: name_member_def is_empty_schema_def)

lemma refs_name_entry: "refs (name_entry p) \<subseteq> refs (snd p) \<union> (if entry_named p then {free_form_object} else {})"
proof (cases "entry_named p")
  case True
  then obtain ms where ms: "snd p = JArr ms" "fst p \<in> unions"
    by (auto simp: entry_named_def split: json.splits)
  have "(\<Union>m \<in> set ms. refs (name_member m)) \<subseteq> (\<Union>m \<in> set ms. refs m) \<union> {free_form_object}"
    using refs_name_member by blast
  then show ?thesis by (simp add: name_entry_def ms True set_list_refs)
qed (simp add: name_entry_kept)

lemma own_ref_walk: "own_ref (map (\<lambda>p. (fst p, walk (name_entry p))) d) = own_ref d"
proof (cases "map_of d ''$ref''")
  case None
  then show ?thesis by (simp add: own_ref_def map_of_walk)
next
  case (Some v)
  show ?thesis
    unfolding own_ref_def map_of_walk Some by (cases v) (simp_all add: name_entry_def)
qed

lemma refs_walk: "refs (walk j) \<subseteq> refs j \<union> (if walk_used j then {free_form_object} else {})"
proof (induction j rule: walk.induct)
  case (1 d)
  have "refs (walk (name_entry p)) \<subseteq> refs (snd p) \<union> (if walk_used (JObj d) then {free_form_object} else {})"
    if p: "p \<in> set d" for p
  proof -
    have "entry_named p \<or> walk_used (name_entry p) \<Longrightarrow> walk_used (JObj d)"
      using p by (auto simp: list_ex_iff)
    with 1[OF p] refs_name_entry[of p] show ?thesis by (auto split: if_splits)
  qed
  then show ?case unfolding walk.simps refs_JObj own_ref_walk by fastforce
next
  case (2 xs)
  then show ?case by (fastforce simp: set_list_refs list_ex_iff split: if_splits)
qed simp_all

section \<open>References resolve\<close>

text \<open>
  The names of the document's schemas, and that every reference anywhere in it is one of them. OpenAPI allows
  no \<open>$\<close> in the name of a component.
\<close>

definition schema_names :: "items \<Rightarrow> string set" where
  "schema_names spec = (case map_of (component_items spec) ''schemas'' of Some (JObj S) \<Rightarrow> fst ` set S | _ \<Rightarrow> {})"

definition refs_resolved :: "items \<Rightarrow> bool" where
  "refs_resolved spec \<longleftrightarrow> refs (JObj spec) \<subseteq> schema_names spec \<and> ''$ref'' \<notin> schema_names spec"

lemma refs_component_items: "refs (JObj (component_items spec)) \<subseteq> refs (JObj spec)"
proof (cases "\<exists>c. map_of spec ''components'' = Some (JObj c)")
  case True
  then obtain c where c: "map_of spec ''components'' = Some (JObj c)" by blast
  from refs_of_entry[OF c] show ?thesis by (simp only: component_items_def c option.case json.case)
next
  case False
  then have "component_items spec = []"
    by (auto simp: component_items_def split: option.splits json.splits)
  then show ?thesis by (simp add: own_ref_def)
qed

lemma component_items_put [simp]:
  "component_items (put_schemas spec S) = AList.update ''schemas'' (JObj S) (component_items spec)"
  by (simp add: put_schemas_def component_items_def)

lemma schema_names_put [simp]: "schema_names (put_schemas spec S) = fst ` set S"
  by (simp add: schema_names_def)

lemma refs_put_schemas: "refs (JObj (put_schemas spec S)) \<subseteq> refs (JObj S) \<union> refs (JObj spec)"
  unfolding put_schemas_def
  using refs_update[of "''components''" "JObj (AList.update ''schemas'' (JObj S) (component_items spec))" spec]
    refs_update[of "''schemas''" "JObj S" "component_items spec"] refs_component_items[of spec] by simp blast

lemma all_schemas_SomeD:
  assumes "all_schemas spec = Inr (Some (JObj S))"
  shows "map_of (component_items spec) ''schemas'' = Some (JObj S)" "schema_names spec = fst ` set S"
    "refs (JObj S) \<subseteq> refs (JObj spec)"
proof -
  show *: "map_of (component_items spec) ''schemas'' = Some (JObj S)"
    using assms by (auto simp: all_schemas_def component_items_def split: option.splits json.splits)
  then show "schema_names spec = fst ` set S" by (simp add: schema_names_def)
  show "refs (JObj S) \<subseteq> refs (JObj spec)"
    using refs_of_entry[OF *] refs_component_items[of spec] by blast
qed

lemma all_schemas_of:
  "map_of spec ''components'' = Some (JObj c) \<Longrightarrow> all_schemas spec = Inr (map_of c ''schemas'')"
  by (simp add: all_schemas_def)

lemma all_schemas_put [simp]: "all_schemas (put_schemas spec S) = Inr (Some (JObj S))"
  by (simp add: all_schemas_def put_schemas_def)

lemma fst_set_update: "fst ` set (AList.update k v d) = insert k (fst ` set d)"
  by (simp add: dom_update)

abbreviation walked_items :: "items \<Rightarrow> items" where
  "walked_items d \<equiv> map (\<lambda>p. (fst p, walk (name_entry p))) d"

lemma walked_component:
  assumes "all_schemas spec = Inr (Some (JObj S))"
  shows "map_of (component_items (walked_items spec)) ''schemas'' = Some (JObj (walked_items S))"
proof -
  from assms obtain c where c: "map_of spec ''components'' = Some (JObj c)" "map_of c ''schemas'' = Some (JObj S)"
    by (auto simp: all_schemas_def split: option.splits json.splits)
  then show ?thesis by (simp add: component_items_def map_of_walk)
qed

lemma all_schemas_walked:
  assumes "all_schemas spec = Inr (Some (JObj S))"
  shows "all_schemas (walked_items spec) = Inr (Some (JObj (walked_items S)))"
proof -
  from assms obtain c where c: "map_of spec ''components'' = Some (JObj c)" "map_of c ''schemas'' = Some (JObj S)"
    by (auto simp: all_schemas_def split: option.splits json.splits)
  then show ?thesis by (simp add: all_schemas_def map_of_walk)
qed

text \<open>The two ways of going through the sanitizer.\<close>

lemma sanitize_cases:
  assumes "sanitize_freeform_object_arrays spec = Inr d"
  obtains (other) "d = spec" "\<And>S. all_schemas spec \<noteq> Inr (Some (JObj S))"
    | (unused) S where "all_schemas spec = Inr (Some (JObj S))" "\<not> walk_used (JObj spec)" "d = walked_items spec"
    | (named) S where "all_schemas spec = Inr (Some (JObj S))" "walk_used (JObj spec)"
        "d = put_schemas (walked_items spec) (AList.update free_form_object open_object (walked_items S))"
proof (cases "\<exists>S. all_schemas spec = Inr (Some (JObj S))")
  case True
  then obtain S where S: "all_schemas spec = Inr (Some (JObj S))" by blast
  show thesis
  proof (cases "walk_used (JObj spec)")
    case True
    with assms S have "d = put_schemas (walked_items spec) (AList.update free_form_object open_object (walked_items S))"
      by (simp add: sanitize_freeform_object_arrays_def Let_def del: walk_used.simps split: option.splits if_splits)
    with S True named show thesis by blast
  next
    case False
    with assms S have "d = walked_items spec"
      by (simp add: sanitize_freeform_object_arrays_def Let_def del: walk_used.simps)
    with S False unused show thesis by blast
  qed
next
  case False
  from assms obtain schemas where schemas: "all_schemas spec = Inr schemas"
    by (cases "all_schemas spec") (simp_all add: sanitize_freeform_object_arrays_def)
  with False have "\<nexists>S. schemas = Some (JObj S)" by simp
  with assms schemas have "d = spec"
    by (cases schemas) (simp_all add: sanitize_freeform_object_arrays_def split: json.splits)
  with False other show thesis by blast
qed

lemma refs_open_object [simp]: "refs open_object = {}"
  by (simp add: open_object_def own_ref_def)

lemma sanitized_refs_resolved:
  assumes d: "sanitize_freeform_object_arrays spec = Inr d" and resolved: "refs_resolved spec"
  shows "refs_resolved d"
  using d
proof (cases rule: sanitize_cases)
  case other
  with resolved show ?thesis by simp
next
  case (unused S)
  then have "d = spec" using walk_unused[of "JObj spec"] by (simp del: walk_used.simps)
  with resolved show ?thesis by simp
next
  case (named S)
  let ?S = "AList.update free_form_object open_object (walked_items S)"
  have "refs (JObj (walked_items spec)) \<subseteq> refs (JObj spec) \<union> {free_form_object}"
    using refs_walk[of "JObj spec"] by (auto split: if_splits)
  moreover have "refs (JObj ?S) \<subseteq> refs (JObj (walked_items S))"
    using refs_update[of free_form_object open_object "walked_items S"] by (simp add: free_form_object_def)
  moreover have "refs (JObj (walked_items S)) \<subseteq> refs (JObj (walked_items spec))"
    using all_schemas_SomeD(3)[OF all_schemas_walked[OF named(1)]] .
  ultimately have "refs (JObj d) \<subseteq> refs (JObj spec) \<union> {free_form_object}"
    using refs_put_schemas[of "walked_items spec" ?S] unfolding named(3) by blast
  moreover have "schema_names d = insert free_form_object (schema_names spec)"
    using all_schemas_SomeD(2)[OF named(1)] by (simp add: named(3) fst_set_update image_image)
  ultimately show ?thesis using resolved unfolding refs_resolved_def by (auto simp: free_form_object_def)
qed

text \<open>Nothing is left to name in a sanitized document, so sanitizing it again changes nothing.\<close>

lemma walk_used_update:
  assumes "\<not> walk_used (JObj x)" "\<not> walk_used (JObj e)"
  shows "\<not> walk_used (JObj (AList.update k (JObj e) x))"
proof -
  have "p = (k, JObj e) \<or> p \<in> set x" if "p \<in> set (AList.update k (JObj e) x)" for p
    using that by (induction x) (auto split: if_splits)
  with assms show ?thesis by (fastforce simp: list_ex_iff entry_named_def)
qed

lemma walk_used_walked: "\<not> walk_used (JObj (walked_items x))"
  using walk_used_walk[of "JObj x"] by (simp del: walk_used.simps)

lemma sanitized_unused:
  assumes d: "sanitize_freeform_object_arrays spec = Inr d" and S: "all_schemas spec = Inr (Some (JObj S))"
  shows "\<not> walk_used (JObj d)"
  using d
proof (cases rule: sanitize_cases)
  case other
  with S show ?thesis by simp
next
  case unused
  then show ?thesis using walk_used_walked[of spec] by (simp del: walk_used.simps)
next
  case (named T)
  obtain e where e: "open_object = JObj e" "\<not> walk_used (JObj e)"
    by (simp add: open_object_def entry_named_def name_entry_def)
  have T: "\<not> walk_used (JObj (AList.update free_form_object open_object (walked_items T)))"
    unfolding e(1) by (rule walk_used_update[OF walk_used_walked e(2)])
  obtain c where c: "map_of spec ''components'' = Some (JObj c)"
    using S by (auto simp: all_schemas_def split: option.splits json.splits)
  have "component_items (walked_items spec) = walked_items c"
    by (simp add: component_items_def map_of_walk c)
  with T show ?thesis
    unfolding named(3) put_schemas_def by (simp del: walk_used.simps add: walk_used_update walk_used_walked)
qed

lemma sanitized_idem:
  assumes d: "sanitize_freeform_object_arrays spec = Inr d"
  shows "sanitize_freeform_object_arrays d = Inr d"
proof (cases "\<exists>S. all_schemas spec = Inr (Some (JObj S))")
  case True
  then obtain S where S: "all_schemas spec = Inr (Some (JObj S))" by blast
  have same: "walked_items d = d"
    using walk_unused[OF sanitized_unused[OF d S]] by simp
  from d obtain T where "all_schemas d = Inr (Some (JObj T))"
    by (cases rule: sanitize_cases) (use S all_schemas_walked in auto)
  with same sanitized_unused[OF d S] show ?thesis
    by (simp add: sanitize_freeform_object_arrays_def Let_def del: walk_used.simps)
next
  case False
  from d have "d = spec" by (cases rule: sanitize_cases) (use False in auto)
  with d show ?thesis by simp
qed

text \<open>The values inside a value, itself included.\<close>

inductive occurs :: "json \<Rightarrow> json \<Rightarrow> bool" where
  itself: "occurs j j"
| in_object: "\<lbrakk> p \<in> set d; occurs (snd p) x \<rbrakk> \<Longrightarrow> occurs (JObj d) x"
| in_array: "\<lbrakk> y \<in> set ys; occurs y x \<rbrakk> \<Longrightarrow> occurs (JArr ys) x"

lemma walked_unions: "\<lbrakk> occurs j (JObj d); \<not> walk_used j; p \<in> set d \<rbrakk> \<Longrightarrow> \<not> entry_named p"
proof (induction j "JObj d" rule: occurs.induct)
  case (in_object q e)
  from in_object(1,4) have "\<not> entry_named q" "\<not> walk_used (name_entry q)" by (auto simp: list_ex_iff)
  with in_object(3,5) show ?case by (simp add: name_entry_kept)
qed (auto simp: list_ex_iff)

section \<open>Filtering keeps what is reachable\<close>

lemma kept_methods_subset: "kept_methods tags ms = Inr r \<Longrightarrow> set r \<subseteq> set ms"
  by (induction tags ms arbitrary: r rule: kept_methods.induct) (fastforce simp: rbind_eq_Inr split: if_splits)+

lemma own_ref_objects: "list_all (\<lambda>p. is_jobj (snd p)) r \<Longrightarrow> own_ref r = []"
  by (cases "map_of r ''$ref''") (auto simp: own_ref_def list_all_iff dest!: map_of_SomeD split: json.splits)

lemma kept_methods_objects: "kept_methods tags ms = Inr r \<Longrightarrow> list_all (\<lambda>p. is_jobj (snd p)) r"
proof (induction tags ms arbitrary: r rule: kept_methods.induct)
  case (2 tags m operation ms)
  then show ?case
    by (cases operation) (auto simp: rbind_eq_Inr operation_kept_def split: if_splits)
qed simp

lemma refs_kept_methods: "kept_methods tags ms = Inr r \<Longrightarrow> refs (JObj r) \<subseteq> refs (JObj ms)"
  using kept_methods_subset[of tags ms r] kept_methods_objects[of tags ms r]
  by (fastforce simp: set_item_refs own_ref_objects)

lemma kept_paths_objects: "kept_paths tags ps = Inr r \<Longrightarrow> list_all (\<lambda>p. is_jobj (snd p)) r"
  by (induction tags ps arbitrary: r rule: kept_paths.induct) (auto simp: rbind_eq_Inr split: json.splits if_splits)

lemma item_refs_kept_paths: "kept_paths tags ps = Inr r \<Longrightarrow> set (item_refs r) \<subseteq> set (item_refs ps)"
proof (induction tags ps arbitrary: r rule: kept_paths.induct)
  case (2 tags path methods ps)
  from 2(2) obtain ms kept s where ms: "methods = JObj ms" "kept_methods tags ms = Inr kept" "kept_paths tags ps = Inr s"
      "r = (if kept = [] then s else (path, JObj kept) # s)"
    by (auto simp: rbind_eq_Inr split: json.splits)
  with 2(1)[OF ms(1,3)] refs_kept_methods[OF ms(2)] show ?case by auto
qed simp

lemma refs_kept_paths: "kept_paths tags ps = Inr r \<Longrightarrow> refs (JObj r) \<subseteq> refs (JObj ps)"
  using item_refs_kept_paths[of tags ps r] kept_paths_objects[of tags ps r] by (auto simp: own_ref_objects)

text \<open>What a filtered document is made of.\<close>

lemma filter_specE:
  assumes "filter_spec spec tags = Inr d"
  obtains paths schemas kept where "refs (JObj paths) \<subseteq> refs (JObj spec)" "all_schemas spec = Inr schemas"
    "needed_schemas schemas (remdups (collect_schema_refs (JObj paths))) = Inr kept"
    "d = dict_remove {''paths'', ''components''} spec @ [(''paths'', JObj paths),
       (''components'', JObj (dict_remove {''schemas''} (component_items spec) @ [(''schemas'', JObj kept)]))]"
proof -
  from assms obtain paths schemas kept where *:
      "(case map_of spec ''paths'' of None \<Rightarrow> Inr [] | Some (JObj ps) \<Rightarrow> kept_paths tags ps | Some _ \<Rightarrow> Inl Attribute_Error) = Inr paths"
      "all_schemas spec = Inr schemas"
      "needed_schemas schemas (remdups (collect_schema_refs (JObj paths))) = Inr kept"
      "d = dict_remove {''paths'', ''components''} spec @ [(''paths'', JObj paths),
       (''components'', JObj (dict_remove {''schemas''} (component_items spec) @ [(''schemas'', JObj kept)]))]"
    unfolding filter_spec_def rbind_eq_Inr by blast
  have "refs (JObj paths) \<subseteq> refs (JObj spec)"
  proof (cases "map_of spec ''paths''")
    case None
    with *(1) show ?thesis by (simp add: own_ref_def)
  next
    case (Some v)
    with *(1) obtain ps where "v = JObj ps" "kept_paths tags ps = Inr paths" by (cases v) auto
    with refs_kept_paths refs_of_entry[OF Some] show ?thesis by blast
  qed
  from that[OF this *(2-)] show thesis .
qed

lemma component_items_appended [simp]:
  "component_items (dict_remove {''paths'', ''components''} spec @ [(''paths'', p), (''components'', JObj c)]) = c"
  by (simp add: component_items_def map_add_def)

lemma schemas_appended [simp]:
  "map_of (dict_remove {''schemas''} c @ [(''schemas'', s)]) ''schemas'' = Some s"
  by (simp add: map_add_def)

lemma refs_append:
  assumes "''$ref'' \<notin> fst ` set e"
  shows "refs (JObj (d @ e)) = refs (JObj d) \<union> set (item_refs e)"
proof -
  have "map_of e ''$ref'' = None" using assms by (simp add: map_of_eq_None_iff)
  then have "own_ref (d @ e) = own_ref d" by (simp add: own_ref_def map_add_def split: option.split)
  then show ?thesis by (auto simp: set_item_refs)
qed

lemma kept_schemas_eq:
  assumes "distinct needed"
  shows "kept_schemas S needed = map (\<lambda>n. (n, the (map_of S n))) (sorted_list_of_set {n \<in> set needed. map_of S n \<noteq> None})"
proof -
  have "filter (\<lambda>n. map_of S n \<noteq> None) (sort needed) = sort (filter (\<lambda>n. map_of S n \<noteq> None) needed)"
    by (rule filter_sort)
  also have "\<dots> = sorted_list_of_set (set (filter (\<lambda>n. map_of S n \<noteq> None) needed))"
    unfolding sorted_list_of_set_sort_remdups using assms by (simp add: distinct_remdups_id)
  finally show ?thesis by (simp add: kept_schemas_def)
qed

lemma needed_schemas_reachable:
  assumes "needed_schemas (Some (JObj S)) (remdups (collect_schema_refs p)) = Inr kept"
  shows "kept = map (\<lambda>n. (n, the (map_of S n)))
    (sorted_list_of_set {n. map_of S n \<noteq> None \<and> (\<exists>m \<in> refs p. (m, n) \<in> (ref_step S)\<^sup>*)})"
proof -
  have "distinct (close_refs S (rev (remdups (collect_schema_refs p))) (remdups (collect_schema_refs p)))"
    by (rule distinct_close_refs) simp
  moreover have "{n \<in> set (close_refs S (rev (remdups (collect_schema_refs p))) (remdups (collect_schema_refs p))). map_of S n \<noteq> None}
      = {n. map_of S n \<noteq> None \<and> (\<exists>m \<in> refs p. (m, n) \<in> (ref_step S)\<^sup>*)}"
    unfolding set_close_refs by auto
  ultimately show ?thesis
    using assms by (simp add: needed_schemas_def kept_schemas_eq)
qed

text \<open>
  The references of the operations and schemas are resolved in the filtered document when those of the whole one
  are, provided that nothing else in it refers to a schema: the other components are kept as they are.
\<close>

definition other_parts :: "items \<Rightarrow> json list" where
  "other_parts spec = [JObj (dict_remove {''paths'', ''components''} spec),
     JObj (dict_remove {''schemas''} (component_items spec))]"

lemma filtered_refs_resolved:
  assumes d: "filter_spec spec tags = Inr d" and resolved: "refs_resolved spec"
    and others: "refs (JArr (other_parts spec)) = {}"
  shows "refs_resolved d"
proof -
  from d obtain paths schemas kept where *: "refs (JObj paths) \<subseteq> refs (JObj spec)" "all_schemas spec = Inr schemas"
      "needed_schemas schemas (remdups (collect_schema_refs (JObj paths))) = Inr kept"
      "d = dict_remove {''paths'', ''components''} spec @ [(''paths'', JObj paths),
       (''components'', JObj (dict_remove {''schemas''} (component_items spec) @ [(''schemas'', JObj kept)]))]"
    by (rule filter_specE)
  have names: "schema_names d = fst ` set kept"
    by (simp add: schema_names_def *(4) del: map_of_append)
  have refs: "refs (JObj d) = refs (JObj paths) \<union> refs (JObj kept)"
    unfolding *(4) using others by (simp add: refs_append other_parts_def del: collect_schema_refs.simps(1))
  show ?thesis
  proof (cases "\<exists>S. schemas = Some (JObj S)")
    case True
    then obtain S where S: "all_schemas spec = Inr (Some (JObj S))" and schemas: "schemas = Some (JObj S)"
      using *(2) by blast
    define R where "R = {n. map_of S n \<noteq> None \<and> (\<exists>m \<in> refs (JObj paths). (m, n) \<in> (ref_step S)\<^sup>*)}"
    have "finite R"
      by (rule finite_subset[OF _ finite_dom_map_of[of S]]) (auto simp: R_def)
    moreover have "kept = map (\<lambda>n. (n, the (map_of S n))) (sorted_list_of_set R)"
      unfolding R_def by (rule needed_schemas_reachable[OF *(3)[unfolded schemas]])
    ultimately have kept: "fst ` set kept = R" "\<And>p. p \<in> set kept \<Longrightarrow> fst p \<in> R \<and> snd p = the (map_of S (fst p))"
      by (auto simp: image_image)
    have dom: "map_of S n \<noteq> None" if "n \<in> refs (JObj spec)" for n
      using that resolved all_schemas_SomeD(2)[OF S] by (auto simp: refs_resolved_def map_of_eq_None_iff)
    have "refs (JObj paths) \<subseteq> R"
      using *(1) dom by (auto simp: R_def)
    moreover have "refs (snd p) \<subseteq> R" if p: "p \<in> set kept" for p
    proof
      fix r assume r: "r \<in> refs (snd p)"
      obtain s where s: "map_of S (fst p) = Some s" "snd p = s" using kept(2)[OF p] by (auto simp: R_def)
      with r have "(fst p, r) \<in> ref_step S" by (auto simp: ref_step_def)
      moreover have "map_of S r \<noteq> None"
        using r s refs_of_entry[OF s(1)] all_schemas_SomeD(3)[OF S] by (intro dom) blast
      ultimately show "r \<in> R" using kept(2)[OF p] by (auto simp: R_def intro: rtrancl_into_rtrancl)
    qed
    moreover have "''$ref'' \<notin> R"
      using resolved all_schemas_SomeD(2)[OF S] by (auto simp: R_def refs_resolved_def dest!: map_of_SomeD intro: rev_image_eqI)
    then have "own_ref kept = []" "''$ref'' \<notin> R"
      using kept(1) map_of_eq_None_iff[of kept "''$ref''"] by (simp_all add: own_ref_def)
    ultimately show ?thesis
      unfolding refs_resolved_def refs names kept(1) refs_JObj[of kept] by auto
  next
    case False
    have "schema_names spec = {}"
      using False *(2) by (auto simp: schema_names_def all_schemas_def component_items_def split: option.splits json.splits)
    with *(1) resolved have none: "collect_schema_refs (JObj paths) = []" by (simp add: refs_resolved_def)
    have "kept = []"
      using *(3) False unfolding none by (cases schemas) (simp_all add: needed_schemas_def split: json.splits)
    with none show ?thesis unfolding refs_resolved_def refs names by (simp add: own_ref_def)
  qed
qed

section \<open>Enriching keeps references resolved\<close>

text \<open>
  What pydantic documents of \<open>ref_template\<close>: the references of a schema and of its nested models name its
  nested models, under the prefix. No name of a model has a slash.
\<close>

definition nested_models :: "items \<Rightarrow> items" where
  "nested_models js = (case map_of js ''$defs'' of Some (JObj defs) \<Rightarrow> defs | _ \<Rightarrow> [])"

definition self_contained_models :: "pydantic \<Rightarrow> bool" where
  "self_contained_models P \<longleftrightarrow> (\<forall>model prefix. CHR ''/'' \<notin> set prefix \<longrightarrow> (let js = P model prefix in
     refs (JObj (dict_remove {''$defs''} js)) \<union> set (item_refs (nested_models js))
       \<subseteq> prefixed prefix ` fst ` set (nested_models js)))"

lemma prefixed_not_ref: "prefixed prefix n \<noteq> ''$ref''"
proof -
  have "CHR ''_'' \<in> set (prefixed prefix n)" "CHR ''_'' \<notin> set ''$ref''" by (simp_all add: prefixed_def)
  then show ?thesis by metis
qed

lemma absorb_eq:
  "absorb js prefix S = Inr (S', js') \<Longrightarrow>
    S' = foldl (\<lambda>S p. AList.update (prefixed prefix (fst p)) (snd p) S) S (nested_models js) \<and> js' = dict_remove {''$defs''} js"
  by (auto simp: absorb_def nested_models_def split: option.splits json.splits)

lemma absorbed_models:
  "fst ` set (foldl (\<lambda>S p. AList.update (prefixed prefix (fst p)) (snd p) S) S defs) = fst ` set S \<union> prefixed prefix ` fst ` set defs
   \<and> refs (JObj (foldl (\<lambda>S p. AList.update (prefixed prefix (fst p)) (snd p) S) S defs)) \<subseteq> refs (JObj S) \<union> set (item_refs defs)"
proof (induction defs arbitrary: S)
  case Nil
  show ?case by simp
next
  case (Cons q defs)
  let ?S = "AList.update (prefixed prefix (fst q)) (snd q) S"
  have refs: "refs (JObj ?S) \<subseteq> refs (snd q) \<union> refs (JObj S)"
    by (rule refs_update[OF prefixed_not_ref])
  have items: "set (item_refs (q # defs)) = refs (snd q) \<union> set (item_refs defs)" by (cases q) simp
  show ?case
  proof
    show "fst ` set (foldl (\<lambda>S p. AList.update (prefixed prefix (fst p)) (snd p) S) S (q # defs))
        = fst ` set S \<union> prefixed prefix ` fst ` set (q # defs)"
      using Cons[of ?S] by (simp add: fst_set_update)
    show "refs (JObj (foldl (\<lambda>S p. AList.update (prefixed prefix (fst p)) (snd p) S) S (q # defs)))
        \<subseteq> refs (JObj S) \<union> set (item_refs (q # defs))"
      unfolding items foldl.simps using Cons[of ?S] refs by blast
  qed
qed

text \<open>Schemas that resolve their own references, whatever is put in.\<close>

definition own_refs_resolved :: "items \<Rightarrow> bool" where
  "own_refs_resolved S \<longleftrightarrow> refs (JObj S) \<subseteq> fst ` set S \<and> ''$ref'' \<notin> fst ` set S"

lemma inject_resolved:
  assumes P: "self_contained_models P" and S': "inject P n model prefix part S = Inr S'"
    and part: "\<And>js. refs (part js) \<subseteq> refs (JObj js)" and n: "n \<noteq> ''$ref''" and S: "own_refs_resolved S"
    and prefix: "CHR ''/'' \<notin> set prefix"
  shows "own_refs_resolved S' \<and> insert n (fst ` set S) \<subseteq> fst ` set S'"
proof -
  let ?js = "P model prefix"
  let ?T = "foldl (\<lambda>S p. AList.update (prefixed prefix (fst p)) (snd p) S) S (nested_models ?js)"
  from S' have S'': "S' = AList.update n (part (dict_remove {''$defs''} ?js)) ?T"
    by (auto simp: inject_def rbind_eq_Inr dest!: absorb_eq)
  let ?names = "prefixed prefix ` fst ` set (nested_models ?js)"
  note T = absorbed_models[of prefix S "nested_models ?js"]
  have js: "refs (JObj (dict_remove {''$defs''} ?js)) \<subseteq> ?names" "set (item_refs (nested_models ?js)) \<subseteq> ?names"
    using P prefix by (simp_all add: self_contained_models_def Let_def)
  have "refs (JObj S') \<subseteq> refs (part (dict_remove {''$defs''} ?js)) \<union> refs (JObj ?T)"
    unfolding S'' by (rule refs_update[OF n])
  also have "\<dots> \<subseteq> ?names \<union> refs (JObj S)"
    using order.trans[OF part js(1)] order.trans[OF conjunct2[OF T]] js(2) by (simp add: le_supI1 le_supI2)
  finally have refs: "refs (JObj S') \<subseteq> ?names \<union> refs (JObj S)" .
  have names: "fst ` set S' = insert n (fst ` set S \<union> ?names)"
    unfolding S'' fst_set_update using T by simp
  have "''$ref'' \<notin> ?names"
    using prefixed_not_ref[of prefix] by (metis imageE)
  with n S have "''$ref'' \<notin> fst ` set S'" "refs (JObj S) \<subseteq> fst ` set S"
    unfolding names own_refs_resolved_def by simp_all
  with refs show ?thesis unfolding own_refs_resolved_def names by blast
qed

lemma refs_items_schema: "refs (items_schema js) \<subseteq> refs (JObj js)"
proof (cases "map_of js ''items''")
  case None
  then show ?thesis by (simp add: items_schema_def own_ref_def)
next
  case (Some v)
  then show ?thesis using refs_of_entry[OF Some] by (simp add: items_schema_def)
qed

definition surface_names :: "string set" where
  "surface_names = {''ChatCompletion'', ''MessageResponse'', ''RerankResponse'', ''CreateEmbeddingResponse'',
     ''ImagesResponse'', ''ChatMessageInput''}"

lemma inject_all_resolved:
  assumes P: "self_contained_models P" and S': "inject_all P S = Inr S'" and S: "own_refs_resolved S"
  shows "own_refs_resolved S' \<and> surface_names \<union> fst ` set S \<subseteq> fst ` set S'"
proof -
  from S' obtain A B C D E F where *:
    "inject P ''ChatCompletion'' ''ChatCompletion'' ''CC'' JObj S = Inr A"
    "inject P ''ChatCompletionChunk'' ''ChatCompletionChunk'' ''CCK'' JObj A = Inr B"
    "inject P ''ChatMessageInput'' ''list[ChatCompletionMessageParam]'' ''MSG'' items_schema B = Inr C"
    "inject P ''MessageResponse'' ''MessageResponse'' ''MR'' JObj C = Inr D"
    "inject P ''RerankResponse'' ''RerankResponse'' ''RR'' JObj D = Inr E"
    "inject P ''CreateEmbeddingResponse'' ''CreateEmbeddingResponse'' ''EMB'' JObj E = Inr F"
    "inject P ''ImagesResponse'' ''ImagesResponse'' ''IMG'' JObj F = Inr S'"
    unfolding inject_all_def rbind_eq_Inr by blast
  note step = inject_resolved[OF P]
  have A: "own_refs_resolved A \<and> insert ''ChatCompletion'' (fst ` set S) \<subseteq> fst ` set A"
    by (rule step[OF *(1)]) (use S in simp_all)
  have B: "own_refs_resolved B \<and> insert ''ChatCompletionChunk'' (fst ` set A) \<subseteq> fst ` set B"
    by (rule step[OF *(2)]) (use A in simp_all)
  have C: "own_refs_resolved C \<and> insert ''ChatMessageInput'' (fst ` set B) \<subseteq> fst ` set C"
    by (rule step[OF *(3) refs_items_schema]) (use B in simp_all)
  have D: "own_refs_resolved D \<and> insert ''MessageResponse'' (fst ` set C) \<subseteq> fst ` set D"
    by (rule step[OF *(4)]) (use C in simp_all)
  have E: "own_refs_resolved E \<and> insert ''RerankResponse'' (fst ` set D) \<subseteq> fst ` set E"
    by (rule step[OF *(5)]) (use D in simp_all)
  have F: "own_refs_resolved F \<and> insert ''CreateEmbeddingResponse'' (fst ` set E) \<subseteq> fst ` set F"
    by (rule step[OF *(6)]) (use E in simp_all)
  have G: "own_refs_resolved S' \<and> insert ''ImagesResponse'' (fst ` set F) \<subseteq> fst ` set S'"
    by (rule step[OF *(7)]) (use F in simp_all)
  show ?thesis using A B C D E F G unfolding surface_names_def by (simp add: subset_iff)
qed

lemma refs_set_at:
  "\<lbrakk> set_at ks v j = Inr j'; ''$ref'' \<notin> set ks \<rbrakk> \<Longrightarrow> refs j' \<subseteq> refs v \<union> refs j"
proof (induction ks arbitrary: j j')
  case (Cons k ks)
  from Cons(2) obtain d where d: "j = JObj d" by (cases j) simp_all
  show ?case
  proof (cases "ks = []")
    case True
    with Cons(2) d have "j' = JObj (AList.update k v d)" by simp
    with refs_update[of k v d] Cons(3) d show ?thesis by (metis list.set_intros(1))
  next
    case False
    with Cons(2) d obtain x y where x: "map_of d k = Some x" "set_at ks v x = Inr y" "j' = JObj (AList.update k y d)"
      by (auto simp: rbind_eq_Inr split: option.splits)
    have "refs y \<subseteq> refs v \<union> refs x" "k \<noteq> ''$ref''" using Cons(1)[OF x(2)] Cons(3) by auto
    with refs_of_entry[OF x(1)] refs_update[of k y d] show ?thesis
      unfolding d x(3) by blast
  qed
qed simp

lemma refs_schema_ref: "CHR ''/'' \<notin> set n \<Longrightarrow> refs (schema_ref n) = {n}"
  by (simp add: schema_ref_def own_ref_def)

lemma set_json_200_resolved:
  assumes "set_json_200 path n description (JObj d) = Inr j" and path: "path \<noteq> ''$ref''" and n: "CHR ''/'' \<notin> set n"
  obtains d' where "j = JObj d'" "component_items d' = component_items d" "refs j \<subseteq> insert n (refs (JObj d))"
proof -
  let ?v = "JObj [(''description'', JStr description),
      (''content'', JObj [(''application/json'', JObj [(''schema'', schema_ref n)])])]"
  have set_at: "set_at [''paths'', path, ''post'', ''responses'', ''200''] ?v (JObj d) = Inr j"
    using assms(1) by (simp add: set_json_200_def)
  then obtain y where j: "j = JObj (AList.update ''paths'' y d)"
    by (auto simp: rbind_eq_Inr split: option.splits)
  have v: "refs ?v = {n}" using refs_schema_ref[OF n] by (simp add: own_ref_def)
  have "refs j \<subseteq> insert n (refs (JObj d))"
    using refs_set_at[OF set_at] path unfolding v by auto
  with j that show thesis by (simp add: component_items_def)
qed

lemma set_at_ConsE:
  assumes "set_at (k # k' # ks) v j = Inr j'"
  obtains d x y where "j = JObj d" "map_of d k = Some x" "set_at (k' # ks) v x = Inr y" "j' = JObj (AList.update k y d)"
proof (cases j)
  case (JObj d)
  with assms obtain x where x: "map_of d k = Some x" by (cases "map_of d k") simp_all
  with assms JObj obtain y where y: "set_at (k' # ks) v x = Inr y" by (cases "set_at (k' # ks) v x") simp_all
  with assms JObj x that show thesis by simp
qed (use assms in simp_all)

lemma messages_typed:
  assumes "set_at [''components'', ''schemas'', ''ChatCompletionRequest'', ''properties'', ''messages''] messages_schema (JObj d) = Inr j"
  obtains d' S' where "j = JObj d'" "schema_names d' = schema_names d" "refs j \<subseteq> insert ''ChatMessageInput'' (refs (JObj d))"
    "all_schemas d' = Inr (Some (JObj S'))"
proof -
  from assms obtain d0 x0 y0 where 0: "JObj d = JObj d0" "map_of d0 ''components'' = Some x0"
      "set_at [''schemas'', ''ChatCompletionRequest'', ''properties'', ''messages''] messages_schema x0 = Inr y0"
      "j = JObj (AList.update ''components'' y0 d0)"
    by (rule set_at_ConsE)
  from 0(3) obtain c x1 y1 where 1: "x0 = JObj c" "map_of c ''schemas'' = Some x1"
      "set_at [''ChatCompletionRequest'', ''properties'', ''messages''] messages_schema x1 = Inr y1"
      "y0 = JObj (AList.update ''schemas'' y1 c)"
    by (rule set_at_ConsE)
  from 1(3) obtain S r y where 2: "x1 = JObj S" "map_of S ''ChatCompletionRequest'' = Some r"
      "set_at [''properties'', ''messages''] messages_schema r = Inr y" "y1 = JObj (AList.update ''ChatCompletionRequest'' y S)"
    by (rule set_at_ConsE)
  have c: "map_of d ''components'' = Some (JObj c)" "map_of c ''schemas'' = Some (JObj S)"
      "map_of S ''ChatCompletionRequest'' = Some r" and j: "j = JObj (AList.update ''components'' (JObj (AList.update ''schemas''
        (JObj (AList.update ''ChatCompletionRequest'' y S)) c)) d)"
    using 0 1 2 by simp_all
  have "''ChatCompletionRequest'' \<in> fst ` set S" using map_of_SomeD[OF c(3)] by force
  then have names: "schema_names (AList.update ''components'' (JObj (AList.update ''schemas''
        (JObj (AList.update ''ChatCompletionRequest'' y S)) c)) d) = schema_names d"
    by (simp add: schema_names_def component_items_def c fst_set_update insert_absorb)
  have v: "refs messages_schema = {''ChatMessageInput''}"
    using refs_schema_ref[of "''ChatMessageInput''"] by (simp add: messages_schema_def own_ref_def)
  have "refs j \<subseteq> insert ''ChatMessageInput'' (refs (JObj d))"
    using refs_set_at[OF assms] unfolding v by simp
  from that[OF j names this] show thesis by (simp add: all_schemas_def)
qed

lemma schema_names_components: "component_items d' = component_items d \<Longrightarrow> schema_names d' = schema_names d"
  by (simp add: schema_names_def)

lemma typed_surface_resolved:
  assumes "typed_surface (JObj d) = Inr j"
  obtains d' S' where "j = JObj d'" "schema_names d' = schema_names d" "refs j \<subseteq> surface_names \<union> refs (JObj d)"
    "all_schemas d' = Inr (Some (JObj S'))"
proof -
  from assms obtain j1 j2 j3 j4 j5 where *:
    "set_json_200 ''/v1/chat/completions'' ''ChatCompletion'' ''Chat completion'' (JObj d) = Inr j1"
    "set_json_200 ''/v1/messages'' ''MessageResponse'' ''Anthropic-style message'' j1 = Inr j2"
    "set_json_200 ''/v1/rerank'' ''RerankResponse'' ''Rerank result'' j2 = Inr j3"
    "set_json_200 ''/v1/embeddings'' ''CreateEmbeddingResponse'' ''Embeddings'' j3 = Inr j4"
    "set_json_200 ''/v1/images/generations'' ''ImagesResponse'' ''Generated images'' j4 = Inr j5"
    "set_at [''components'', ''schemas'', ''ChatCompletionRequest'', ''properties'', ''messages''] messages_schema j5 = Inr j"
    unfolding typed_surface_def rbind_eq_Inr by blast
  obtain d1 where 1: "j1 = JObj d1" "component_items d1 = component_items d" "refs j1 \<subseteq> insert ''ChatCompletion'' (refs (JObj d))"
    using *(1) by (rule set_json_200_resolved) simp_all
  obtain d2 where 2: "j2 = JObj d2" "component_items d2 = component_items d1" "refs j2 \<subseteq> insert ''MessageResponse'' (refs j1)"
    using *(2) unfolding 1(1) by (rule set_json_200_resolved) simp_all
  obtain d3 where 3: "j3 = JObj d3" "component_items d3 = component_items d2" "refs j3 \<subseteq> insert ''RerankResponse'' (refs j2)"
    using *(3) unfolding 2(1) by (rule set_json_200_resolved) simp_all
  obtain d4 where 4: "j4 = JObj d4" "component_items d4 = component_items d3" "refs j4 \<subseteq> insert ''CreateEmbeddingResponse'' (refs j3)"
    using *(4) unfolding 3(1) by (rule set_json_200_resolved) simp_all
  obtain d5 where 5: "j5 = JObj d5" "component_items d5 = component_items d4" "refs j5 \<subseteq> insert ''ImagesResponse'' (refs j4)"
    using *(5) unfolding 4(1) by (rule set_json_200_resolved) simp_all
  obtain d' S' where 6: "j = JObj d'" "schema_names d' = schema_names d5" "refs j \<subseteq> insert ''ChatMessageInput'' (refs j5)"
      "all_schemas d' = Inr (Some (JObj S'))"
    using *(6) unfolding 5(1) by (rule messages_typed)
  have "schema_names d' = schema_names d"
    using 6(2) 5(2) 4(2) 3(2) 2(2) 1(2) by (simp add: schema_names_def)
  moreover have "refs j \<subseteq> surface_names \<union> refs (JObj d)"
  proof -
    have in_surface: "refs j \<subseteq> surface_names \<union> R" if "refs j \<subseteq> insert n R" "n \<in> surface_names" for j n R
      using that by blast
    have "refs j1 \<subseteq> surface_names \<union> refs (JObj d)" "refs j2 \<subseteq> surface_names \<union> refs j1"
      "refs j3 \<subseteq> surface_names \<union> refs j2" "refs j4 \<subseteq> surface_names \<union> refs j3"
      "refs j5 \<subseteq> surface_names \<union> refs j4" "refs j \<subseteq> surface_names \<union> refs j5"
      by (rule in_surface, (rule 1(3) 2(3) 3(3) 4(3) 5(3) 6(3)), simp add: surface_names_def)+
    then show ?thesis by blast
  qed
  ultimately show thesis by (rule that[OF 6(1) _ _ 6(4)])
qed

lemma enrich_specE:
  assumes "enrich_spec P spec = Inr d"
  obtains schemas S S' where "all_schemas spec = Inr schemas"
    "(case schemas of None \<Rightarrow> Inr [] | Some (JObj S) \<Rightarrow> Inr S | Some _ \<Rightarrow> Inl Type_Error) = Inr S"
    "inject_all P S = Inr S'" "typed_surface (JObj (put_schemas spec S')) = Inr (JObj d)"
proof -
  from assms obtain schemas S S' j where *: "all_schemas spec = Inr schemas"
      "(case schemas of None \<Rightarrow> Inr [] | Some (JObj S) \<Rightarrow> Inr S | Some _ \<Rightarrow> Inl Type_Error) = Inr S"
      "inject_all P S = Inr S'" "typed_surface (JObj (put_schemas spec S')) = Inr j"
      "(case j of JObj d \<Rightarrow> Inr d | _ \<Rightarrow> Inl Type_Error) = Inr d"
    unfolding enrich_spec_def rbind_eq_Inr by blast
  from *(5) have "j = JObj d" by (cases j) simp_all
  with * that show thesis by blast
qed

lemma enriched_refs_resolved:
  assumes d: "enrich_spec P spec = Inr d" and resolved: "refs_resolved spec" and P: "self_contained_models P"
  shows "refs_resolved d"
proof -
  from d obtain schemas S S' where *: "all_schemas spec = Inr schemas"
      "(case schemas of None \<Rightarrow> Inr [] | Some (JObj S) \<Rightarrow> Inr S | Some _ \<Rightarrow> Inl Type_Error) = Inr S"
      "inject_all P S = Inr S'" "typed_surface (JObj (put_schemas spec S')) = Inr (JObj d)"
    by (rule enrich_specE)
  have S: "refs (JObj S) \<subseteq> refs (JObj spec) \<and> schema_names spec = fst ` set S"
  proof (cases schemas)
    case None
    then have "schema_names spec = {}"
      using *(1) by (auto simp: schema_names_def all_schemas_def component_items_def split: option.splits json.splits)
    with None *(2) show ?thesis by (simp add: own_ref_def)
  next
    case (Some v)
    with *(2) have "v = JObj S" by (cases v) simp_all
    with all_schemas_SomeD[of spec S] *(1) Some show ?thesis by simp
  qed
  then have "own_refs_resolved S"
    using resolved unfolding own_refs_resolved_def refs_resolved_def by blast
  from inject_all_resolved[OF P *(3) this]
  have S': "own_refs_resolved S'" "surface_names \<union> fst ` set S \<subseteq> fst ` set S'" by simp_all
  obtain d' where d': "JObj d = JObj d'" "schema_names d' = fst ` set S'"
      "refs (JObj d) \<subseteq> surface_names \<union> refs (JObj (put_schemas spec S'))"
    using typed_surface_resolved[OF *(4)] by (metis schema_names_put)
  have "refs (JObj spec) \<subseteq> fst ` set S'"
    using resolved S S'(2) unfolding refs_resolved_def by (metis le_supE order.trans)
  then have "refs (JObj (put_schemas spec S')) \<subseteq> fst ` set S'"
    using refs_put_schemas[of spec S'] S'(1) unfolding own_refs_resolved_def by (meson Un_least order.trans)
  then have "refs (JObj d) \<subseteq> fst ` set S'"
    using d'(3) S'(2) by (meson Un_least order.trans le_supE)
  then show ?thesis
    using S'(1) d'(1,2) unfolding refs_resolved_def own_refs_resolved_def by simp
qed

lemma component_items_info [simp]: "component_items (AList.update ''info'' v spec) = component_items spec"
  by (simp add: component_items_def)

lemma dict_remove_update: "k \<notin> K \<Longrightarrow> dict_remove K (AList.update k v d) = AList.update k v (dict_remove K d)"
  by (induction d) (auto simp: dict_remove_def)

lemma refs_dict_remove:
  assumes "''$ref'' \<notin> K"
  shows "refs (JObj (dict_remove K d)) \<subseteq> refs (JObj d)"
proof -
  have "own_ref (dict_remove K d) = own_ref d" using assms by (simp add: own_ref_def)
  moreover have "set (dict_remove K d) \<subseteq> set d" by (auto simp: dict_remove_def)
  ultimately show ?thesis by (auto simp: set_item_refs)
qed

text \<open>Stamping a version adds no reference.\<close>

lemma stamped:
  assumes "stamped_spec given spec = Inr d"
  shows "d = spec \<or> (\<exists>info. d = AList.update ''info'' (JObj info) spec \<and>
    refs (JObj info) \<subseteq> refs (JObj (dict_remove {''paths'', ''components''} spec)))"
proof (cases "\<exists>c v. given = Some (c # v)")
  case False
  with assms have "d = spec" by (auto simp: stamped_spec_def split: option.splits list.splits)
  then show ?thesis by simp
next
  case True
  then obtain c v where given: "given = Some (c # v)" by blast
  show ?thesis
  proof (cases "map_of spec ''info''")
    case None
    with assms given show ?thesis by (auto simp: stamped_spec_def own_ref_def)
  next
    case (Some x)
    with assms given obtain info where x: "x = JObj info" "d = AList.update ''info'' (JObj (AList.update ''version'' (JStr (c # v)) info)) spec"
      by (cases x) (simp_all add: stamped_spec_def)
    have "map_of (dict_remove {''paths'', ''components''} spec) ''info'' = Some (JObj info)"
      using Some x(1) by simp
    from refs_of_entry[OF this] refs_update[of "''version''" "JStr (c # v)" info] x(2) show ?thesis
      by (simp del: collect_schema_refs.simps(1)) blast
  qed
qed

lemma stamped_refs_resolved:
  assumes d: "stamped_spec given spec = Inr d" and resolved: "refs_resolved spec"
  shows "refs_resolved d" and "refs (JArr (other_parts spec)) = {} \<Longrightarrow> refs (JArr (other_parts d)) = {}"
proof -
  have "refs (JObj (dict_remove {''paths'', ''components''} spec)) \<subseteq> refs (JObj spec)"
    by (rule refs_dict_remove) simp
  with stamped[OF d] refs_update[of "''info''" _ spec] resolved show "refs_resolved d"
    unfolding refs_resolved_def schema_names_def by (elim disjE exE conjE) (simp_all del: collect_schema_refs.simps, blast)
  assume none: "refs (JArr (other_parts spec)) = {}"
  from stamped[OF d] show "refs (JArr (other_parts d)) = {}"
  proof (elim disjE exE conjE)
    fix info assume info: "d = AList.update ''info'' (JObj info) spec"
      "refs (JObj info) \<subseteq> refs (JObj (dict_remove {''paths'', ''components''} spec))"
    with none refs_update[of "''info''" "JObj info" "dict_remove {''paths'', ''components''} spec"] show ?thesis
      by (simp add: other_parts_def dict_remove_update del: collect_schema_refs.simps(1))
  qed (use none in simp)
qed

section \<open>Properties\<close>

definition sample_spec :: items where
  "sample_spec = [(''paths'', JObj [
      (''/v1/keys'', JObj [(''post'', JObj [(''tags'', JArr [JStr ''keys'']), (''schema'', schema_ref ''KeyInfo'')])]),
      (''/v1/rerank'', JObj [(''post'', JObj [(''tags'', JArr [JStr ''rerank'']), (''schema'', schema_ref ''Rank'')])])]),
    (''components'', JObj [(''schemas'', JObj [(''Rank'', JObj []),
      (''KeyMeta'', JObj [(''anyOf'', JArr [JObj [], JObj [(''type'', JStr ''null'')]])]),
      (''KeyInfo'', JObj [(''properties'', JObj [(''meta'', schema_ref ''KeyMeta'')])])])])]"

text \<open>C29. 
  In both modes every schema that the document given to the generator refers to is one of its schemas, whatever
  the version it is stamped with, when the gateway's own document has that property: in the full mode by what
  pydantic promises of its schemas, in the control-plane mode if only operations and schemas refer to schemas.
\<close>

theorem prepared_refs_resolve:
  assumes "prepared_spec P full given spec = Inr d" and "refs_resolved spec"
    and "if full then self_contained_models P else refs (JArr (other_parts spec)) = {}"
  shows "refs_resolved d"
proof -
  from assms(1) obtain s p where s: "stamped_spec given spec = Inr s"
      and p: "(if full then enrich_spec P s else filter_spec s control_plane_tags) = Inr p"
      and d: "sanitize_freeform_object_arrays p = Inr d"
    unfolding prepared_spec_def rbind_eq_Inr by blast
  note stamped = stamped_refs_resolved[OF s assms(2)]
  have "refs_resolved p"
  proof (cases full)
    case True
    with p assms(3) stamped(1) show ?thesis by (auto intro: enriched_refs_resolved)
  next
    case False
    with p assms(3) stamped show ?thesis by (auto intro: filtered_refs_resolved)
  qed
  with sanitized_refs_resolved[OF d] show ?thesis .
qed

text \<open>
  No union anywhere in the document given to the generator has a member without a name: an array of free-form
  objects, or a schema that accepts everything.
\<close>

lemma prepared_schemas:
  assumes "(if full then enrich_spec P s else filter_spec s tags) = Inr p"
  obtains S where "all_schemas p = Inr (Some (JObj S))"
proof (cases full)
  case True
  with assms have "enrich_spec P s = Inr p" by simp
  then obtain S' where "typed_surface (JObj (put_schemas s S')) = Inr (JObj p)"
    by (rule enrich_specE)
  then show thesis
    by (rule typed_surface_resolved) (use that in simp)
next
  case False
  with assms have "filter_spec s tags = Inr p" by simp
  then show thesis
    by (rule filter_specE) (use that in \<open>simp add: all_schemas_def map_add_def\<close>)
qed

theorem prepared_unions_named:
  assumes "prepared_spec P full given spec = Inr d" and "occurs (JObj d) (JObj e)"
    and "(k, JArr ms) \<in> set e" and "k \<in> unions" and "m \<in> set ms"
  shows "\<not> is_free_array m \<and> \<not> is_empty_schema m"
proof -
  from assms(1) obtain s p where p: "(if full then enrich_spec P s else filter_spec s control_plane_tags) = Inr p"
      and d: "sanitize_freeform_object_arrays p = Inr d"
    unfolding prepared_spec_def rbind_eq_Inr by blast
  from p obtain S where "all_schemas p = Inr (Some (JObj S))" by (rule prepared_schemas)
  from walked_unions[OF assms(2) sanitized_unused[OF d this] assms(3)] assms(4,5) show ?thesis
    by (simp add: entry_named_def list_ex_iff is_free_member_def)
qed

definition sample_models :: pydantic where
  "sample_models model prefix = [(''$defs'', JObj [(''Usage'', JObj [(''type'', JStr ''object'')])]),
     (''usage'', schema_ref (prefixed prefix ''Usage'')), (''items'', JObj [])]"

lemma sample_models_self_contained: "self_contained_models sample_models"
proof -
  have "CHR ''/'' \<notin> set (prefixed prefix ''Usage'')" if "CHR ''/'' \<notin> set prefix" for prefix
    using that by (simp add: prefixed_def)
  then show ?thesis
    using refs_schema_ref by (simp add: self_contained_models_def sample_models_def dict_remove_def nested_models_def own_ref_def)
qed

definition sample_full :: items where
  "sample_full = [(''paths'', JObj (map (\<lambda>p. (p, JObj [(''post'', JObj [(''tags'', JArr [JStr ''chat'']), (''responses'', JObj [])])]))
      [''/v1/chat/completions'', ''/v1/messages'', ''/v1/rerank'', ''/v1/embeddings'', ''/v1/images/generations''])),
    (''components'', JObj [(''schemas'', JObj [(''ChatCompletionRequest'', JObj [(''properties'', JObj [])])])])]"

definition prepared_sample :: items where
  "prepared_sample = (case prepared_spec sample_models True (Some ''1.2.3'') sample_full of Inr d \<Rightarrow> d | Inl _ \<Rightarrow> [])"

lemma prepared_sample_ok: "prepared_spec sample_models True (Some ''1.2.3'') sample_full = Inr prepared_sample"
proof -
  have "(case prepared_spec sample_models True (Some ''1.2.3'') sample_full of Inr d \<Rightarrow> True | Inl _ \<Rightarrow> False)" by code_simp
  then show ?thesis by (simp add: prepared_sample_def split: sum.splits)
qed

lemma sample_full_resolved: "refs_resolved sample_full"
  by (simp add: refs_resolved_def sample_full_def schema_names_def component_items_def own_ref_def)

theorem prepared_refs_resolve_witness: "refs_resolved prepared_sample"
  by (rule prepared_refs_resolve[OF prepared_sample_ok sample_full_resolved]) (simp add: sample_models_self_contained)

definition union_sample :: items where
  "union_sample = (case prepared_spec sample_models False None sample_spec of Inr d \<Rightarrow> d | Inl _ \<Rightarrow> [])"

lemma union_sample_ok: "prepared_spec sample_models False None sample_spec = Inr union_sample"
proof -
  have "(case prepared_spec sample_models False None sample_spec of Inr d \<Rightarrow> True | Inl _ \<Rightarrow> False)" by code_simp
  then show ?thesis by (simp add: union_sample_def split: sum.splits)
qed

definition union_node :: items where
  "union_node = [(''anyOf'', JArr [free_form_ref, JObj [(''type'', JStr ''null'')]])]"

text \<open>The union of the sample, as it comes out.\<close>

lemma union_sample_schemas:
  "map_option (\<lambda>j. (''KeyMeta'', JObj union_node) \<in> set (case j of JObj S \<Rightarrow> S | _ \<Rightarrow> []))
     (map_of (component_items union_sample) ''schemas'') = Some True"
  by code_simp

lemma union_node_occurs: "occurs (JObj union_sample) (JObj union_node)"
proof -
  obtain S where S: "map_of (component_items union_sample) ''schemas'' = Some (JObj S)" "(''KeyMeta'', JObj union_node) \<in> set S"
    using union_sample_schemas by (auto split: json.splits)
  then obtain c where c: "map_of union_sample ''components'' = Some (JObj c)" "map_of c ''schemas'' = Some (JObj S)"
    by (auto simp: component_items_def split: option.splits json.splits)
  have "occurs (JObj S) (JObj union_node)" by (rule in_object[OF S(2)]) (simp add: itself)
  then have "occurs (JObj c) (JObj union_node)" using in_object[OF map_of_SomeD[OF c(2)]] by simp
  then show ?thesis using in_object[OF map_of_SomeD[OF c(1)]] by simp
qed

theorem prepared_unions_named_witness: "\<not> is_free_array free_form_ref \<and> \<not> is_empty_schema free_form_ref"
  by (rule prepared_unions_named[OF union_sample_ok union_node_occurs, of "''anyOf''" "[free_form_ref, JObj [(''type'', JStr ''null'')]]"])
    (simp_all add: union_node_def unions_def)

text \<open>
  Other components are copied with their references: a shared response of the gateway's document would make
  the control-plane document refer to a schema that it does not have.
\<close>

definition shared_response :: items where
  "shared_response = [(''paths'', JObj [(''/v1/keys'', JObj [(''get'', JObj [(''tags'', JArr [JStr ''keys'']),
      (''$ref'', JStr ''#/components/responses/Problem'')])])]),
    (''components'', JObj [(''responses'', JObj [(''Problem'', JObj [(''schema'', schema_ref ''Error'')])]),
      (''schemas'', JObj [(''Error'', JObj [])])])]"

lemma shared_response_dangles:
  "(case filter_spec shared_response control_plane_tags of
     Inr d \<Rightarrow> ''Error'' \<in> refs (JObj d) \<and> map_of (component_items d) ''schemas'' = Some (JObj []) | Inl _ \<Rightarrow> False)"
  by code_simp

text \<open>Parameters that the operations of a path share are not copied: the entry is a list, not an operation.\<close>

definition shared_parameters :: items where
  "shared_parameters = [(''paths'', JObj [(''/v1/keys/{key_id}'', JObj [(''parameters'', JArr [JObj [(''name'', JStr ''key_id'')]]),
      (''get'', JObj [(''tags'', JArr [JStr ''keys''])])])])]"

lemma shared_parameters_dropped:
  "(case filter_spec shared_parameters control_plane_tags of
     Inr d \<Rightarrow> map_of d ''paths'' = Some (JObj [(''/v1/keys/{key_id}'', JObj [(''get'', JObj [(''tags'', JArr [JStr ''keys''])])])])
   | Inl _ \<Rightarrow> False)"
  by code_simp

text \<open>C30. 
  The schemas of the control-plane document are exactly those of the whole document that the kept operations
  refer to, directly or through other schemas, once each and in the order of their names.
\<close>

theorem filtered_schemas_reachable:
  assumes "filter_spec spec tags = Inr d" and "all_schemas spec = Inr (Some (JObj S))"
  shows "map_of (component_items d) ''schemas'' = Some (JObj (map (\<lambda>n. (n, the (map_of S n)))
    (sorted_list_of_set {n. map_of S n \<noteq> None \<and> (\<exists>m \<in> refs (the (map_of d ''paths'')). (m, n) \<in> (ref_step S)\<^sup>*)})))"
proof -
  from assms(1) obtain paths schemas kept where *: "all_schemas spec = Inr schemas"
      "needed_schemas schemas (remdups (collect_schema_refs (JObj paths))) = Inr kept"
      "d = dict_remove {''paths'', ''components''} spec @ [(''paths'', JObj paths),
       (''components'', JObj (dict_remove {''schemas''} (component_items spec) @ [(''schemas'', JObj kept)]))]"
    by (rule filter_specE)
  have "the (map_of d ''paths'') = JObj paths" by (simp add: *(3) map_add_def)
  moreover have "map_of (component_items d) ''schemas'' = Some (JObj kept)"
    unfolding *(3) component_items_appended by (rule schemas_appended)
  ultimately show ?thesis
    using needed_schemas_reachable[of S "JObj paths" kept] *(1,2) assms(2) by (simp del: collect_schema_refs.simps)
qed

definition filtered_sample :: items where
  "filtered_sample = (case filter_spec sample_spec [''keys''] of Inr d \<Rightarrow> d | Inl _ \<Rightarrow> [])"

definition sample_schemas :: items where
  "sample_schemas = (case map_of (component_items sample_spec) ''schemas'' of Some (JObj S) \<Rightarrow> S | _ \<Rightarrow> [])"

lemma sample_ok: "(case filter_spec sample_spec [''keys''] of Inr d \<Rightarrow> True | Inl _ \<Rightarrow> False)"
  by code_simp

lemma sample_filtered: "filter_spec sample_spec [''keys''] = Inr filtered_sample"
  using sample_ok by (simp add: filtered_sample_def split: sum.splits)

lemma sample_all_schemas: "all_schemas sample_spec = Inr (Some (JObj sample_schemas))"
  by (simp add: all_schemas_def sample_schemas_def component_items_def sample_spec_def)

lemma sample_kept: "map_option (\<lambda>j. (case j of JObj S \<Rightarrow> map fst S | _ \<Rightarrow> [])) (map_of (component_items filtered_sample) ''schemas'')
    = Some [''KeyInfo'', ''KeyMeta'']"
  by code_simp

theorem filtered_schemas_reachable_witness:
  "sorted_list_of_set {n. map_of sample_schemas n \<noteq> None \<and>
     (\<exists>m \<in> refs (the (map_of filtered_sample ''paths'')). (m, n) \<in> (ref_step sample_schemas)\<^sup>*)} = [''KeyInfo'', ''KeyMeta'']"
  using sample_kept unfolding filtered_schemas_reachable[OF sample_filtered sample_all_schemas] by (simp add: comp_def)

end
