(* ===== verification/Sdk_Files.thy ===== *)
theory Sdk_Files
  imports Sdk_Spec
begin

text \<open>
  What \<open>scripts/sdk_codegen/generate.py\<close> does to the files the OpenAPI Generator wrote: the fix-ups of each
  language (\<open>postprocess\<close>), the reduction to what an SDK repository takes (\<open>normalize\<close>,
  \<open>_rust_inline_module\<close>) and the marker of the version (\<open>write_spec_version\<close>). A directory is the list of the
  paths of its files with what \<open>read_text\<close> gives of them; an empty directory is not represented. The
  generator and the formatters are parameters.
\<close>

section \<open>Targets\<close>

record language_target =
  generator_name :: string
  additional_properties :: string
  sdk_repo :: string
  target_path :: string
  inline_module :: bool

definition targets :: "(string \<times> language_target) list" where
  "targets = [
    (''python'', \<lparr>generator_name = ''python'', additional_properties = ''packageName=otari._control_plane'',
       sdk_repo = ''mozilla-ai/otari-sdk-python'', target_path = ''src/otari/_control_plane'', inline_module = False\<rparr>),
    (''typescript'', \<lparr>generator_name = ''typescript-fetch'', additional_properties = ''supportsES6=true'',
       sdk_repo = ''mozilla-ai/otari-sdk-ts'', target_path = ''src/_control_plane'', inline_module = False\<rparr>),
    (''go'', \<lparr>generator_name = ''go'', additional_properties = ''packageName=generated,withGoMod=false'',
       sdk_repo = ''mozilla-ai/otari-sdk-go'', target_path = ''otari/generated'', inline_module = False\<rparr>),
    (''rust'', \<lparr>generator_name = ''rust'', additional_properties = ''packageName=otari-control-plane,library=reqwest'',
       sdk_repo = ''mozilla-ai/otari-sdk-rust'', target_path = ''control-plane'', inline_module = False\<rparr>)]"

definition full_targets :: "(string \<times> language_target) list" where
  "full_targets = [
    (''python'', \<lparr>generator_name = ''python'', additional_properties = ''packageName=otari._client'',
       sdk_repo = ''mozilla-ai/otari-sdk-python'', target_path = ''src/otari/_client'', inline_module = False\<rparr>),
    (''typescript'', \<lparr>generator_name = ''typescript-fetch'', additional_properties = ''supportsES6=true'',
       sdk_repo = ''mozilla-ai/otari-sdk-ts'', target_path = ''src/_client'', inline_module = False\<rparr>),
    (''go'', \<lparr>generator_name = ''go'', additional_properties = ''packageName=client,withGoMod=false'',
       sdk_repo = ''mozilla-ai/otari-sdk-go'', target_path = ''otari/client'', inline_module = False\<rparr>),
    (''rust'', \<lparr>generator_name = ''rust'', additional_properties = ''packageName=otari-client,library=reqwest'',
       sdk_repo = ''mozilla-ai/otari-sdk-rust'', target_path = ''src/_client'', inline_module = True\<rparr>)]"

section \<open>Files\<close>

type_synonym path = "string list"
type_synonym tree = "(path \<times> string) list"

datatype file_error = File_Not_Found path | Is_A_Directory path | Called_Process_Error string

definition is_inside :: "path \<Rightarrow> path \<Rightarrow> bool" where
  "is_inside p q \<longleftrightarrow> take (length p) q = p"

definition is_dir :: "tree \<Rightarrow> path \<Rightarrow> bool" where
  "is_dir t p \<longleftrightarrow> list_ex (\<lambda>f. is_inside p (fst f) \<and> fst f \<noteq> p) t"

definition file_exists :: "tree \<Rightarrow> path \<Rightarrow> bool" where
  "file_exists t p \<longleftrightarrow> map_of t p \<noteq> None"

definition rmtree :: "path \<Rightarrow> tree \<Rightarrow> tree" where
  "rmtree p t = filter (\<lambda>f. \<not> is_inside p (fst f)) t"

definition write_text :: "path \<Rightarrow> string \<Rightarrow> tree \<Rightarrow> tree" where
  "write_text p text t = AList.update p text t"

definition move :: "path \<Rightarrow> path \<Rightarrow> tree \<Rightarrow> tree" where
  "move p q t = map (\<lambda>f. if is_inside p (fst f) then (q @ drop (length p) (fst f), snd f) else f) t"

section \<open>Text\<close>

definition line_feed :: string where
  "line_feed = [CHR 0x0A]"

definition dquote :: string where
  "dquote = [CHR 0x22]"

definition dquoted :: "string \<Rightarrow> string" where
  "dquoted s = dquote @ s @ dquote"

text \<open>\<open>str.splitlines\<close>, without the separators outside ASCII. A carriage return with the line feed after it is one.\<close>

definition line_break :: "char \<Rightarrow> bool" where
  "line_break c \<longleftrightarrow> of_char c \<in> {10, 11, 12, 13, 28, 29, 30 :: nat}"

fun lines_from :: "string \<Rightarrow> string \<Rightarrow> string list" where
  "lines_from l [] = (if l = [] then [] else [rev l])"
| "lines_from l (c # s) = (if line_break c
     then rev l # lines_from [] (if c = CHR 0x0D \<and> take 1 s = line_feed then tl s else s)
     else lines_from (c # l) s)"

definition splitlines :: "string \<Rightarrow> string list" where
  "splitlines s = lines_from [] s"

fun split_sep :: "char \<Rightarrow> string \<Rightarrow> string list" where
  "split_sep c [] = [[]]"
| "split_sep c (x # s) = (if x = c then [] # split_sep c s
     else (case split_sep c s of [] \<Rightarrow> [[x]] | l # ls \<Rightarrow> (x # l) # ls))"

text \<open>\<open>s.replace(old, new)\<close> for a non-empty \<open>old\<close>.\<close>

function replace_all :: "string \<Rightarrow> string \<Rightarrow> string \<Rightarrow> string" where
  "replace_all old new [] = []"
| "replace_all old new (c # s) = (if old \<noteq> [] \<and> starts_with old (c # s)
     then new @ replace_all old new (drop (length old) (c # s)) else c # replace_all old new s)"
  by pat_completeness auto
termination
  by (relation "measure (\<lambda>(old, new, s). length s)") (auto simp: neq_Nil_conv)

text \<open>\<open>re.sub(pattern, ..., count=1, flags=re.MULTILINE)\<close> of a pattern that begins with a caret; \<open>m\<close> matches at
  the beginning of a line and gives the replacement and the rest.\<close>

fun sub_line :: "(string \<Rightarrow> (string \<times> string) option) \<Rightarrow> bool \<Rightarrow> string \<Rightarrow> string" where
  "sub_line m bol [] = []"
| "sub_line m bol (c # s) = (case if bol then m (c # s) else None of
     Some (r, rest) \<Rightarrow> r @ rest
   | None \<Rightarrow> c # sub_line m (c = CHR 0x0A) s)"

definition last_segment :: "string \<Rightarrow> string" where
  "last_segment s = rev (takeWhile (\<lambda>c. c \<noteq> CHR ''/'') (rev s))"

section \<open>Fix-ups of a language\<close>

definition match_version :: "string \<Rightarrow> (string \<times> string) option" where
  "match_version s = (if starts_with ''version'' s then
     let sp = takeWhile is_space (drop 7 s); a = dropWhile is_space (drop 7 s) in
     if starts_with ''='' a then
       let sp' = takeWhile is_space (drop 1 a); b = dropWhile is_space (drop 1 a) in
       if starts_with (dquote @ ''0.0.0'') b then
         (case dropWhile (\<lambda>c. c \<noteq> CHR 0x22) (drop 6 b) of
            [] \<Rightarrow> None
          | _ # rest \<Rightarrow> Some (''version'' @ sp @ ''='' @ sp' @ dquoted ''0.1.0'', rest))
       else None
     else None
   else None)"

definition reqwest_line :: string where
  "reqwest_line = ''reqwest = { version = '' @ dquoted ''0.12'' @ '', default-features = false, features = ['' @
     dquoted ''json'' @ '', '' @ dquoted ''multipart'' @ ''] }''"

definition match_reqwest :: "string \<Rightarrow> (string \<times> string) option" where
  "match_reqwest s = (if starts_with ''reqwest'' s then
     let a = dropWhile is_space (drop 7 s) in
     if starts_with ''='' a then
       let b = dropWhile is_space (drop 1 a) in
       if starts_with ''{'' b then
         (case dropWhile (\<lambda>c. c \<noteq> CHR ''}'') (drop 1 b) of [] \<Rightarrow> None | _ # rest \<Rightarrow> Some (reqwest_line, rest))
       else None
     else None
   else None)"

definition patched_cargo :: "string \<Rightarrow> string" where
  "patched_cargo text = replace_all (dquoted ''reqwest/rustls'') (dquoted ''reqwest/rustls-tls'')
     (sub_line match_reqwest True (sub_line match_version True text))"

definition patch_rust_cargo_toml :: "tree \<Rightarrow> tree" where
  "patch_rust_cargo_toml t = (case map_of t [''Cargo.toml''] of
     None \<Rightarrow> t | Some text \<Rightarrow> write_text [''Cargo.toml''] (patched_cargo text) t)"

definition ts_mapvalues :: string where
  "ts_mapvalues = concat (map (\<lambda>l. l @ line_feed) [[],
     ''// Added by sdk_codegen post-processing: the generated models import `mapValues`'',
     ''// from runtime, but this generator version omits it.'',
     ''export function mapValues(data: any, fn: (item: any) => any) {'',
     ''  return Object.keys(data).reduce('',
     ''    (acc, key) => ({ ...acc, [key]: fn(data[key]) }),'',
     ''    {} as Record<string, any>,'',
     ''  );'',
     ''}''])"

text \<open>The tools on the machine: the generator, and the formatters that were found.\<close>

record toolchain =
  run_generator :: "language_target \<Rightarrow> items \<Rightarrow> tree \<Rightarrow> tree option"
  gofmt :: "(tree \<Rightarrow> tree option) option"
  rustfmt :: "(tree \<Rightarrow> tree option) option"

definition run_formatter :: "string \<Rightarrow> (tree \<Rightarrow> tree option) option \<Rightarrow> tree \<Rightarrow> (file_error, tree) result" where
  "run_formatter name tool t = (case tool of
     None \<Rightarrow> Inr t
   | Some run \<Rightarrow> (case run t of Some t' \<Rightarrow> Inr t' | None \<Rightarrow> Inl (Called_Process_Error name)))"

definition postprocess :: "toolchain \<Rightarrow> string \<Rightarrow> tree \<Rightarrow> (file_error, tree) result" where
  "postprocess T language t =
     (if language = ''rust'' then
        Inr (patch_rust_cargo_toml (write_text [''rustfmt.toml''] (''disable_all_formatting = true'' @ line_feed) t))
      else if language = ''typescript'' then
        (case map_of t [''runtime.ts''] of
           Some text \<Rightarrow> if contains ''export function mapValues'' text then Inr t
             else Inr (write_text [''runtime.ts''] (text @ ts_mapvalues) t)
         | None \<Rightarrow> Inr t)
      else if language = ''go'' then
        run_formatter ''gofmt'' (gofmt T) (if is_dir t [''test''] then rmtree [''test''] t else t)
      else Inr t)"

definition normalize :: "string \<Rightarrow> string \<Rightarrow> tree \<Rightarrow> tree" where
  "normalize language python_package t =
     (if language = ''python'' \<and> is_dir t [''otari'', python_package]
      then map (\<lambda>f. (drop 2 (fst f), snd f)) (filter (\<lambda>f. is_inside [''otari'', python_package] (fst f)) t)
      else t)"

section \<open>The marker of the version\<close>

definition package_property :: "string \<Rightarrow> string option" where
  "package_property prop = (case split_once (CHR ''='') prop of
     Some (key, v) \<Rightarrow> if py_strip key = ''packageName'' \<and> py_strip v \<noteq> [] then Some (py_strip v) else None
   | None \<Rightarrow> None)"

definition go_package_name :: "language_target \<Rightarrow> string" where
  "go_package_name target = (case List.map_filter package_property (split_sep (CHR '','') (additional_properties target)) of
     name # _ \<Rightarrow> name
   | [] \<Rightarrow> last_segment (target_path target))"

text \<open>The root of the Rust crate or module, and the line that declares the marker there.\<close>

definition rust_root :: "tree \<Rightarrow> path" where
  "rust_root t = (if \<not> file_exists t [''mod.rs''] \<and> file_exists t [''src'', ''lib.rs''] then [''src'', ''lib.rs''] else [''mod.rs''])"

definition module_declaration :: string where
  "module_declaration = ''pub mod spec_version;''"

definition declare_marker :: "path \<Rightarrow> tree \<Rightarrow> tree" where
  "declare_marker at_root t = (case map_of t at_root of
     Some text \<Rightarrow> if contains module_declaration text then t
       else write_text at_root (py_rstrip text @ line_feed @ module_declaration @ line_feed) t
   | None \<Rightarrow> write_text at_root (module_declaration @ line_feed) t)"

definition marker_path :: "string \<Rightarrow> tree \<Rightarrow> path" where
  "marker_path language t =
     (if language = ''python'' then [''_spec_version.py'']
      else if language = ''typescript'' then [''specVersion.ts'']
      else if language = ''go'' then [''spec_version.go'']
      else butlast (rust_root t) @ [''spec_version.rs''])"

definition marker_text :: "string \<Rightarrow> language_target \<Rightarrow> string \<Rightarrow> string" where
  "marker_text language target version =
     (if language = ''python'' then ''__spec_version__ = '' @ dquoted version @ line_feed
      else if language = ''typescript'' then ''export const SPEC_VERSION = '' @ dquoted version @ '';'' @ line_feed
      else if language = ''go'' then ''package '' @ go_package_name target @ line_feed @ line_feed @ ''const SpecVersion = '' @ dquoted version @ line_feed
      else ''pub const SPEC_VERSION: &str = '' @ dquoted version @ '';'' @ line_feed)"

definition write_spec_version :: "string \<Rightarrow> language_target \<Rightarrow> string \<Rightarrow> tree \<Rightarrow> tree" where
  "write_spec_version language target version t =
     (if language = ''rust'' then declare_marker (rust_root t) (write_text (marker_path language t) (marker_text language target version) t)
      else if language \<in> {''python'', ''typescript'', ''go''} then write_text (marker_path language t) (marker_text language target version) t
      else t)"

section \<open>Inlining the Rust core\<close>

definition rust_module_header :: string where
  "rust_module_header = concat (map (\<lambda>l. l @ line_feed) [
     ''//! OpenAPI-generated typed core. This module is produced by the otari codegen'',
     ''//! pipeline (scripts/sdk_codegen) and is not hand-edited; the lint allowances'',
     ''//! below exempt it from the SDK crate's strict lints, which it escaped when it'',
     ''//! lived in its own crate. Do not add hand-written code here.'',
     ''#![allow(unused_imports)]'',
     ''#![allow(dead_code)]'',
     ''#![allow(clippy::all)]'',
     ''#![allow(clippy::pedantic)]'',
     ''#![allow(clippy::nursery)]'',
     []])"

definition module_line :: "string \<Rightarrow> bool" where
  "module_line l \<longleftrightarrow> starts_with ''pub mod '' l \<or> starts_with ''mod '' l"

definition module_body :: "tree \<Rightarrow> string" where
  "module_body t = (case map_of t [''src'', ''lib.rs''] of
     Some text \<Rightarrow> py_strip (join line_feed (dropWhile (\<lambda>l. \<not> module_line l) (splitlines text)))
   | None \<Rightarrow> ''pub mod apis;'' @ line_feed @ ''pub mod models;'')"

text \<open>The names in \<open>src\<close>, in order. A child that is called \<open>src\<close> is deleted before it is moved.\<close>

definition children :: "tree \<Rightarrow> string list" where
  "children t = sort (remdups (List.map_filter
     (\<lambda>f. case fst f of d # n # _ \<Rightarrow> if d = ''src'' then Some n else None | _ \<Rightarrow> None) t))"

definition hoist :: "string \<Rightarrow> tree \<Rightarrow> (file_error, tree) result" where
  "hoist n t = (if n = ''src'' then Inl (File_Not_Found [''src'', n])
     else Inr (move [''src'', n] [n] (rmtree [n] t)))"

fun hoist_all :: "string list \<Rightarrow> tree \<Rightarrow> (file_error, tree) result" where
  "hoist_all [] t = Inr t"
| "hoist_all (n # ns) t = rbind (hoist n t) (hoist_all ns)"

definition unlink :: "path \<Rightarrow> tree \<Rightarrow> (file_error, tree) result" where
  "unlink p t = (if is_dir t p then Inl (Is_A_Directory p) else Inr (filter (\<lambda>f. fst f \<noteq> p) t))"

fun unlink_all :: "path list \<Rightarrow> tree \<Rightarrow> (file_error, tree) result" where
  "unlink_all [] t = Inr t"
| "unlink_all (p # ps) t = rbind (unlink p t) (unlink_all ps)"

definition scaffolding :: "path list" where
  "scaffolding = map (\<lambda>n. [n]) [''Cargo.toml'', ''README.md'', ''.travis.yml'', ''git_push.sh'', ''.gitignore'',
     ''rustfmt.toml'', ''.openapi-generator-ignore'']"

definition rustfmt_tree :: "toolchain \<Rightarrow> tree \<Rightarrow> (file_error, tree) result" where
  "rustfmt_tree T t = (if file_exists t [''mod.rs''] then run_formatter ''rustfmt'' (rustfmt T) t else Inr t)"

definition inlined_files :: "tree \<Rightarrow> (file_error, tree) result" where
  "inlined_files t = (if \<not> is_dir t [''src''] then Inl (File_Not_Found [''src''])
     else let t' = filter (\<lambda>f. fst f \<noteq> [''src'', ''lib.rs'']) t in
       rbind (hoist_all (children t') t') (\<lambda>u.
       rbind (unlink_all scaffolding (write_text [''mod.rs''] (rust_module_header @ module_body t @ line_feed) u)) (\<lambda>v.
         Inr (rmtree [''.openapi-generator''] (rmtree [''docs''] v)))))"

definition rust_inline_module :: "toolchain \<Rightarrow> tree \<Rightarrow> (file_error, tree) result" where
  "rust_inline_module T t = rbind (inlined_files t) (rustfmt_tree T)"

section \<open>Generating\<close>

definition generate_language :: "toolchain \<Rightarrow> items \<Rightarrow> string \<Rightarrow> language_target \<Rightarrow> string \<Rightarrow> tree \<Rightarrow> (file_error, tree) result" where
  "generate_language T spec language target version dest = (case run_generator T target spec dest of
     None \<Rightarrow> Inl (Called_Process_Error ''openapi-generator-cli'')
   | Some t \<Rightarrow> rbind
       (if inline_module target then rust_inline_module T t
        else rbind (postprocess T language t) (\<lambda>u. Inr (normalize language (last_segment (target_path target)) u)))
       (\<lambda>u. Inr (write_spec_version language target version u)))"

text \<open>The directories under \<open>out_dir\<close>, by language, and the first failure; what was written before it stays.\<close>

fun generate_all :: "toolchain \<Rightarrow> items \<Rightarrow> (string \<times> language_target) list \<Rightarrow> string \<Rightarrow> (string, tree) dict
    \<Rightarrow> (string, tree) dict \<times> file_error option" where
  "generate_all T spec [] version out = (out, None)"
| "generate_all T spec ((language, target) # ls) version out =
     (case generate_language T spec language target version (case map_of out language of Some t \<Rightarrow> t | None \<Rightarrow> []) of
        Inl e \<Rightarrow> (out, Some e)
      | Inr t \<Rightarrow> generate_all T spec ls version (AList.update language t out))"

definition chosen_targets :: "bool \<Rightarrow> string \<Rightarrow> (string \<times> language_target) list" where
  "chosen_targets full language = (let ts = if full then full_targets else targets in
     if language = ''all'' then ts else filter (\<lambda>t. fst t = language) ts)"

datatype main_error = Spec_Error codegen_error | File_Error file_error

definition generate_main :: "toolchain \<Rightarrow> pydantic \<Rightarrow> (json \<Rightarrow> string) \<Rightarrow> bool \<Rightarrow> string \<Rightarrow> string option \<Rightarrow> items
    \<Rightarrow> (string, tree) dict \<Rightarrow> (string, tree) dict \<times> main_error option" where
  "generate_main T P str_of full language given spec out = (case rbind (spec_version_of given spec) (\<lambda>v.
       rbind (prepared_spec P full given spec) (\<lambda>p. Inr (v, p))) of
     Inl e \<Rightarrow> (out, Some (Spec_Error e))
   | Inr (v, p) \<Rightarrow> (case generate_all T p (chosen_targets full language) (str_of v) out of
       (out', e) \<Rightarrow> (out', map_option File_Error e)))"

section \<open>Files after an operation\<close>

lemma map_of_filter_path: "map_of (filter (\<lambda>f. P (fst f)) t) p = (if P p then map_of t p else None)"
  by (induction t) auto

lemma map_of_write_text [simp]: "map_of (write_text p text t) = (map_of t)(p \<mapsto> text)"
  by (simp add: write_text_def)

lemma map_of_rmtree: "map_of (rmtree p t) q = (if is_inside p q then None else map_of t q)"
  unfolding rmtree_def using map_of_filter_path[of "\<lambda>q. \<not> is_inside p q" t q] by simp

lemma is_inside_singleton [simp]: "is_inside [n] p \<longleftrightarrow> p \<noteq> [] \<and> hd p = n"
  by (cases p) (auto simp: is_inside_def)

lemma is_inside_pair [simp]: "is_inside [m, n] p \<longleftrightarrow> (\<exists>r. p = m # n # r)"
  by (cases p rule: list.exhaust; cases "tl p") (auto simp: is_inside_def)

lemma map_of_hoist:
  assumes "hoist n t = Inr u"
  shows "map_of u p = (if p \<noteq> [] \<and> hd p = n then map_of t (''src'' # p)
    else if is_inside [''src'', n] p then None else map_of t p)"
proof -
  from assms have n: "n \<noteq> ''src''" and u: "u = move [''src'', n] [n] (rmtree [n] t)"
    by (auto simp: hoist_def split: if_splits)
  have "map_of (move [''src'', n] [n] s) p = (if p \<noteq> [] \<and> hd p = n then map_of s (''src'' # p)
      else if is_inside [''src'', n] p then None else map_of s p)" if "\<forall>f \<in> set s. \<not> is_inside [n] (fst f)" for s
    using that n by (induction s) (auto simp: move_def neq_Nil_conv)
  from this[of "rmtree [n] t"] n show ?thesis
    unfolding u by (auto simp: map_of_rmtree neq_Nil_conv) (auto simp: rmtree_def)
qed

lemma map_of_hoist_all:
  "\<lbrakk> hoist_all ns t = Inr u; distinct ns \<rbrakk> \<Longrightarrow> map_of u p =
    (if p \<noteq> [] \<and> hd p \<in> set ns then map_of t (''src'' # p)
     else if \<exists>n \<in> set ns. is_inside [''src'', n] p then None else map_of t p)"
proof (induction ns t arbitrary: u rule: hoist_all.induct)
  case (2 n ns t)
  from 2(2) obtain t' where t': "hoist n t = Inr t'" "hoist_all ns t' = Inr u"
    by (auto simp: rbind_eq_Inr)
  then have "n \<noteq> ''src''" by (auto simp: hoist_def split: if_splits)
  with 2(3) show ?case
    by (subst 2(1)[OF t'(2)]) (auto simp: map_of_hoist[OF t'(1)])
qed simp

lemma hoist_all_src: "''src'' \<in> set ns \<Longrightarrow> hoist_all ns t \<noteq> Inr u"
  by (induction ns t rule: hoist_all.induct) (auto simp: hoist_def rbind_eq_Inr)

lemma map_of_unlink_all:
  "unlink_all ps t = Inr u \<Longrightarrow> map_of u p = (if p \<in> set ps then None else map_of t p)"
proof (induction ps t arbitrary: u rule: unlink_all.induct)
  case (2 q ps t)
  then show ?case
    using map_of_filter_path[of "\<lambda>x. x \<noteq> q" t p] by (auto simp: rbind_eq_Inr unlink_def split: if_splits)
qed simp

lemma set_children: "n \<in> set (children t) \<longleftrightarrow> (\<exists>r. map_of t (''src'' # n # r) \<noteq> None)"
proof -
  have "(\<exists>r. map_of t (''src'' # n # r) \<noteq> None) \<longleftrightarrow> (\<exists>r. ''src'' # n # r \<in> fst ` set t)"
    by (simp add: map_of_eq_None_iff)
  also have "\<dots> \<longleftrightarrow> n \<in> set (children t)"
    by (force simp: children_def List.map_filter_def split: list.splits if_splits)
  finally show ?thesis by simp
qed

lemma distinct_children: "distinct (children t)"
  by (simp add: children_def)

section \<open>Properties\<close>

text \<open>C31. 
  Inlining the Rust core leaves the module root that was announced, nothing of the crate's \<open>src\<close>, scaffolding or
  documentation, and every other file of \<open>src\<close> one level up, in place of what was there under its name.
\<close>

theorem inlined_core_files:
  assumes "inlined_files t = Inr u" and "map_of t [''src''] = None" and "p \<noteq> []"
  shows "map_of u p =
    (if p \<in> set scaffolding \<or> hd p \<in> {''src'', ''docs'', ''.openapi-generator''} then None
     else if p = [''mod.rs''] then Some (rust_module_header @ module_body t @ line_feed)
     else if \<exists>r. ''src'' # hd p # r \<noteq> [''src'', ''lib.rs''] \<and> map_of t (''src'' # hd p # r) \<noteq> None
       then (if p = [''lib.rs''] then None else map_of t (''src'' # p))
     else map_of t p)"
proof -
  define t' where "t' = filter (\<lambda>f. fst f \<noteq> [''src'', ''lib.rs'']) t"
  have t': "map_of t' q = (if q = [''src'', ''lib.rs''] then None else map_of t q)" for q
    unfolding t'_def using map_of_filter_path[of "\<lambda>x. x \<noteq> [''src'', ''lib.rs'']" t q] by simp
  from assms(1) obtain h v where h: "hoist_all (children t') t' = Inr h"
      "unlink_all scaffolding (write_text [''mod.rs''] (rust_module_header @ module_body t @ line_feed) h) = Inr v"
      "u = rmtree [''.openapi-generator''] (rmtree [''docs''] v)"
    by (auto simp: inlined_files_def Let_def rbind_eq_Inr t'_def split: if_splits)
  have src: "''src'' \<notin> set (children t')"
    using hoist_all_src[of "children t'" t' h] h(1) by blast
  have hoisted: "map_of h p = (if hd p \<in> set (children t') then map_of t' (''src'' # p)
      else if hd p = ''src'' then None else map_of t p)"
  proof (cases "hd p \<in> set (children t')")
    case True
    with map_of_hoist_all[OF h(1) distinct_children, of p] assms(3) show ?thesis by simp
  next
    case False
    obtain n q where p: "p = n # q" using assms(3) by (cases p) auto
    have "map_of t' p = None" if "n = ''src''" "\<forall>m \<in> set (children t'). \<not> is_inside [''src'', m] p"
      using that p assms(2) t'[of p] set_children[of _ t'] by (cases q) auto
    with False map_of_hoist_all[OF h(1) distinct_children, of p] p t'[of p] show ?thesis by auto
  qed
  have "map_of u p = (if p \<in> set scaffolding \<or> hd p \<in> {''docs'', ''.openapi-generator''} then None
      else if p = [''mod.rs''] then Some (rust_module_header @ module_body t @ line_feed) else map_of h p)"
    using assms(3) unfolding h(3) map_of_rmtree map_of_unlink_all[OF h(2)] by simp
  moreover have "hd p \<in> set (children t') \<longleftrightarrow>
      (\<exists>r. ''src'' # hd p # r \<noteq> [''src'', ''lib.rs''] \<and> map_of t (''src'' # hd p # r) \<noteq> None)"
    unfolding set_children t' by auto
  moreover have "p = [''mod.rs''] \<Longrightarrow> hd p \<noteq> ''src''" by simp
  ultimately show ?thesis
    unfolding hoisted t' using src by auto
qed

text \<open>A sample crate: \<open>src/lib.rs\<close>, a module, a stale file of an earlier run, and scaffolding.\<close>

definition sample_lib :: string where
  "sample_lib = ''#![allow(unused_imports)]'' @ line_feed @ line_feed @ ''extern crate serde;'' @ line_feed @ line_feed @
     ''pub mod apis;'' @ line_feed @ ''pub mod models;'' @ line_feed"

definition sample_crate :: tree where
  "sample_crate = [([''Cargo.toml''], ''[package]''), ([''apis'', ''old.rs''], ''old''), ([''docs'', ''A.md''], ''A''),
     ([''src'', ''lib.rs''], sample_lib), ([''src'', ''apis'', ''mod.rs''], ''pub mod keys_api;'')]"

definition sample_inlined :: tree where
  "sample_inlined = (case inlined_files sample_crate of Inr t \<Rightarrow> t | Inl _ \<Rightarrow> [])"

lemma sample_inlined_ok: "inlined_files sample_crate = Inr sample_inlined"
proof -
  have "(case inlined_files sample_crate of Inr t \<Rightarrow> True | Inl _ \<Rightarrow> False)" by code_simp
  then show ?thesis by (simp add: sample_inlined_def split: sum.splits)
qed

theorem inlined_core_files_witness: "map_of sample_inlined [''apis'', ''mod.rs''] = Some ''pub mod keys_api;''"
proof -
  have "map_of sample_crate [''src''] = None" by (simp add: sample_crate_def)
  note files = inlined_core_files[OF sample_inlined_ok this, of "[''apis'', ''mod.rs'']"]
  have "\<exists>r. ''src'' # ''apis'' # r \<noteq> [''src'', ''lib.rs''] \<and> map_of sample_crate (''src'' # ''apis'' # r) \<noteq> None"
    by (rule exI[of _ "[''mod.rs'']"]) (simp add: sample_crate_def)
  with files show ?thesis by (simp add: scaffolding_def) (simp add: sample_crate_def)
qed

text \<open>
  A core that was generated carries the version it was generated from, in the file its SDK reads; the Rust core
  also declares that file as a module at its root, in both layouts.
\<close>

definition carries_version :: "string \<Rightarrow> language_target \<Rightarrow> string \<Rightarrow> tree \<Rightarrow> bool" where
  "carries_version language target version t \<longleftrightarrow>
     map_of t (marker_path language t) = Some (marker_text language target version) \<and>
     (language = ''rust'' \<longrightarrow> (case map_of t (rust_root t) of Some text \<Rightarrow> contains module_declaration text | None \<Rightarrow> False))"

lemma rust_root_cases: "rust_root t = [''mod.rs''] \<or> rust_root t = [''src'', ''lib.rs'']"
  by (simp add: rust_root_def)

lemma declare_marker_files:
  "map_of (declare_marker r t) q = (if q = r then map_of (declare_marker r t) r else map_of t q)"
  by (auto simp: declare_marker_def split: option.splits)

lemma declare_marker_declares: "\<exists>text. map_of (declare_marker r t) r = Some text \<and> contains module_declaration text"
proof (cases "map_of t r")
  case None
  then show ?thesis by (auto simp: declare_marker_def contains_iff)
next
  case (Some c)
  then show ?thesis
    by (auto simp: declare_marker_def contains_iff) (metis append.assoc)
qed

lemma written_version:
  assumes "language \<in> {''python'', ''typescript'', ''go'', ''rust''}"
  shows "carries_version language target version (write_spec_version language target version t)"
proof (cases "language = ''rust''")
  case False
  with assms show ?thesis by (auto simp: carries_version_def write_spec_version_def marker_path_def)
next
  case True
  define s where "s = write_text (marker_path language t) (marker_text language target version) t"
  define w where "w = declare_marker (rust_root t) s"
  have marker: "marker_path language t \<notin> {[''mod.rs''], [''src'', ''lib.rs'']}"
    using rust_root_cases[of t] True by (auto simp: marker_path_def)
  then have s: "file_exists s q = file_exists t q" if "q \<in> {[''mod.rs''], [''src'', ''lib.rs'']}" for q
    using that by (auto simp: file_exists_def s_def)
  have "file_exists w q = (q = rust_root t \<or> file_exists s q)" for q
    using declare_marker_files[of "rust_root t" s q] declare_marker_declares[of "rust_root t" s]
    by (auto simp: file_exists_def w_def)
  with s have root: "rust_root w = rust_root t" by (auto simp: rust_root_def)
  then have path: "marker_path language w = marker_path language t" by (simp add: marker_path_def)
  have "map_of w (marker_path language t) = Some (marker_text language target version)"
    using declare_marker_files[of "rust_root t" s "marker_path language t"] marker rust_root_cases[of t]
    by (auto simp: w_def s_def)
  moreover obtain c where "map_of w (rust_root t) = Some c" "contains module_declaration c"
    using declare_marker_declares[of "rust_root t" s] by (auto simp: w_def)
  ultimately have "carries_version language target version w"
    unfolding carries_version_def path root by simp
  then show ?thesis by (simp add: write_spec_version_def True w_def s_def)
qed

theorem generated_core_stamped:
  assumes "generate_language T spec language target version dest = Inr t"
    and "language \<in> {''python'', ''typescript'', ''go'', ''rust''}"
  shows "carries_version language target version t"
proof -
  from assms(1) obtain u where "t = write_spec_version language target version u"
    unfolding generate_language_def by (auto simp: rbind_eq_Inr split: option.splits)
  with written_version[OF assms(2)] show ?thesis by simp
qed

definition sample_tools :: toolchain where
  "sample_tools = \<lparr>run_generator = (\<lambda>target spec t. Some sample_crate), gofmt = None, rustfmt = None\<rparr>"

definition sample_core :: tree where
  "sample_core = write_spec_version ''rust'' (snd (full_targets ! 3)) ''1.2.3'' sample_inlined"

lemma sample_core_ok: "generate_language sample_tools [] ''rust'' (snd (full_targets ! 3)) ''1.2.3'' [] = Inr sample_core"
  by (simp add: generate_language_def sample_tools_def full_targets_def rust_inline_module_def sample_inlined_ok
      rustfmt_tree_def run_formatter_def sample_core_def)

theorem generated_core_stamped_witness: "carries_version ''rust'' (snd (full_targets ! 3)) ''1.2.3'' sample_core"
  by (rule generated_core_stamped[OF sample_core_ok]) simp

text \<open>
  A root that an earlier run left is taken for the crate's: in the control-plane mode the marker is then
  declared in a file that the crate does not have as a module, and \<open>src/lib.rs\<close> stays without it.
\<close>

lemma stale_root_takes_marker:
  assumes "map_of t [''mod.rs''] \<noteq> None"
  shows "map_of (write_spec_version ''rust'' target version t) [''src'', ''lib.rs''] = map_of t [''src'', ''lib.rs'']"
    and "map_of (write_spec_version ''rust'' target version t) [''src'', ''spec_version.rs''] = map_of t [''src'', ''spec_version.rs'']"
proof -
  have root: "rust_root t = [''mod.rs'']" using assms by (simp add: rust_root_def file_exists_def)
  show "map_of (write_spec_version ''rust'' target version t) [''src'', ''lib.rs''] = map_of t [''src'', ''lib.rs'']"
    "map_of (write_spec_version ''rust'' target version t) [''src'', ''spec_version.rs''] = map_of t [''src'', ''spec_version.rs'']"
    by (simp_all add: write_spec_version_def root marker_path_def declare_marker_files[of "[''mod.rs'']"])
qed

end
