(* ===== verification/Guardrails.thy ===== *)
theory Guardrails
  imports Gateway_Tools
begin

text \<open>
  Input guardrails (\<open>services/guardrails.py\<close>, \<open>models/guardrails.py\<close> and the guardrail part of
  \<open>api/routes/_helpers.py\<close>): the text that is checked, one check, the run over a request's guardrails
  with its fail-closed and fail-open handling, and what the route makes of the verdict.

  The guardrails service is a parameter: its \<open>k\<close>-th reply to a payload. \<open>show\<close> renders a structured
  error detail.
\<close>

section \<open>The text that is checked\<close>

fun content_parts :: "json list \<Rightarrow> string list" where
  "content_parts [] = []"
| "content_parts (JStr s # ps) = s # content_parts ps"
| "content_parts (p # ps) = (case jget ''text'' p of Some (JStr t) \<Rightarrow> [t] | _ \<Rightarrow> []) @ content_parts ps"

definition text_from_content :: "json option \<Rightarrow> string" where
  "text_from_content c = (case c of Some (JStr s) \<Rightarrow> s | Some (JArr ps) \<Rightarrow> join [CHR 0x0A] (content_parts ps) | _ \<Rightarrow> [])"

definition is_user_message :: "json \<Rightarrow> bool" where
  "is_user_message m \<longleftrightarrow> is_jobj m \<and> jget ''role'' m = Some (JStr ''user'')"

definition latest_user_text :: "json list \<Rightarrow> string" where
  "latest_user_text messages = (case find is_user_message (rev messages) of
     Some m \<Rightarrow> text_from_content (jget ''content'' m)
   | None \<Rightarrow> if messages \<noteq> [] \<and> is_jobj (last messages) then text_from_content (jget ''content'' (last messages)) else [])"

text \<open>\<open>_responses_input_text\<close> of the Responses route.\<close>

definition responses_input_text :: "json option \<Rightarrow> string" where
  "responses_input_text v = (case v of Some (JStr s) \<Rightarrow> s | Some (JArr ms) \<Rightarrow> latest_user_text ms | _ \<Rightarrow> text_from_content v)"

section \<open>One check\<close>

datatype direction = Input | Output

datatype guard_mode = Block | Monitor

record guardrail_config =
  gc_profile :: string
  gc_url :: "string option"
  gc_on :: "direction list"
  gc_mode :: guard_mode
  gc_kwargs :: "(string \<times> json) list"

record guardrail_result =
  gr_profile :: string
  gr_mode :: guard_mode
  gr_valid :: "bool option"
  gr_explanation :: "json option"
  gr_score :: "json option"

definition flagged :: "guardrail_result \<Rightarrow> bool" where
  "flagged r \<longleftrightarrow> gr_valid r = Some False"

definition blocked :: "guardrail_result list \<Rightarrow> bool" where
  "blocked rs \<longleftrightarrow> list_ex (\<lambda>r. flagged r \<and> gr_mode r = Block) rs"

text \<open>A request to the service fails as httpx or JSON decoding do, raises something else, or has a body.\<close>

datatype guard_reply = Guard_Failed | Guard_Raises | Guard_Body json

datatype 'a guard_check = Checked 'a | Not_Reachable string | Check_Crash

definition guard_payload :: "guardrail_config \<Rightarrow> string \<Rightarrow> (string, json) dict" where
  "guard_payload cfg t = [(''profile'', JStr (gc_profile cfg)), (''input_text'', JStr t)]
     @ (if gc_kwargs cfg = [] then [] else [(''validate_kwargs'', JObj (gc_kwargs cfg))])"

text \<open>The first result of a list, an empty object for an empty list.\<close>

definition unwrap_result :: "json \<Rightarrow> json" where
  "unwrap_result r = (case r of JArr [] \<Rightarrow> JObj [] | JArr (x # _) \<Rightarrow> x | _ \<Rightarrow> r)"

definition read_verdict :: "guardrail_config \<Rightarrow> json \<Rightarrow> guardrail_result guard_check" where
  "read_verdict cfg r = (case unwrap_result r of
     JObj d \<Rightarrow> (let made = (\<lambda>v. \<lparr>gr_profile = gc_profile cfg, gr_mode = gc_mode cfg, gr_valid = v,
           gr_explanation = map_of d ''explanation'', gr_score = map_of d ''score''\<rparr>) in
       case map_of d ''valid'' of
         None \<Rightarrow> Not_Reachable (''guardrail profile '' @ quoted (gc_profile cfg) @ '' returned no valid field'')
       | Some JNull \<Rightarrow> Checked (made None)
       | Some (JBool b) \<Rightarrow> Checked (made (Some b))
       | Some _ \<Rightarrow> Not_Reachable (''guardrail profile '' @ quoted (gc_profile cfg) @ '' returned a non-boolean valid''))
   | _ \<Rightarrow> Not_Reachable (''guardrail profile '' @ quoted (gc_profile cfg) @ '' returned an unexpected result shape''))"

text \<open>\<open>body["result"]\<close> is a \<open>KeyError\<close>, which is caught, only on an object; on any other body it is a
  \<open>TypeError\<close>, which is not.\<close>

definition validate_one :: "(string \<Rightarrow> (string, json) dict \<Rightarrow> guard_reply) \<Rightarrow> string \<Rightarrow> guardrail_config \<Rightarrow> string
    \<Rightarrow> guardrail_result guard_check" where
  "validate_one post base_url cfg t = (case post (base_url @ ''/validate'') (guard_payload cfg t) of
     Guard_Failed \<Rightarrow> Not_Reachable (''guardrail profile '' @ quoted (gc_profile cfg) @ '' failed against '' @ base_url)
   | Guard_Raises \<Rightarrow> Check_Crash
   | Guard_Body b \<Rightarrow> (if \<not> is_jobj b then Check_Crash
       else (case jget ''result'' b of
           None \<Rightarrow> Not_Reachable (''guardrail profile '' @ quoted (gc_profile cfg) @ '' failed against '' @ base_url)
         | Some r \<Rightarrow> read_verdict cfg r)))"

section \<open>All checks of a request\<close>

definition guard_url :: "guardrail_config \<Rightarrow> string option \<Rightarrow> string" where
  "guard_url cfg default_url = rstrip_char (CHR ''/'') (case gc_url cfg of
     Some (c # cs) \<Rightarrow> c # cs | _ \<Rightarrow> (case default_url of Some u \<Rightarrow> u | None \<Rightarrow> []))"

definition check_one :: "(string \<Rightarrow> (string, json) dict \<Rightarrow> guard_reply) \<Rightarrow> string option \<Rightarrow> guardrail_config \<Rightarrow> string
    \<Rightarrow> guardrail_result guard_check" where
  "check_one post default_url cfg t = (let base = guard_url cfg default_url in
     if base = [] then Not_Reachable (''guardrail profile '' @ quoted (gc_profile cfg) @ '' requested but no guardrails service is configured'')
     else validate_one post base cfg t)"

definition inconclusive :: "guardrail_config \<Rightarrow> guardrail_result" where
  "inconclusive cfg = \<lparr>gr_profile = gc_profile cfg, gr_mode = gc_mode cfg, gr_valid = None,
     gr_explanation = Some (JStr ''guardrail service unavailable''), gr_score = None\<rparr>"

fun run_guard_checks :: "(nat \<Rightarrow> string \<Rightarrow> (string, json) dict \<Rightarrow> guard_reply) \<Rightarrow> string option \<Rightarrow> nat \<Rightarrow> guardrail_config list
    \<Rightarrow> string \<Rightarrow> guardrail_result list guard_check" where
  "run_guard_checks post default_url k [] t = Checked []"
| "run_guard_checks post default_url k (cfg # cs) t = (case check_one (post k) default_url cfg t of
     Check_Crash \<Rightarrow> Check_Crash
   | Not_Reachable e \<Rightarrow> (if gc_mode cfg = Block then Not_Reachable e
       else (case run_guard_checks post default_url (k + 1) cs t of Checked rs \<Rightarrow> Checked (inconclusive cfg # rs) | c \<Rightarrow> c))
   | Checked r \<Rightarrow> (case run_guard_checks post default_url (k + 1) cs t of Checked rs \<Rightarrow> Checked (r # rs) | c \<Rightarrow> c))"

definition run_input_guardrails :: "(nat \<Rightarrow> string \<Rightarrow> (string, json) dict \<Rightarrow> guard_reply) \<Rightarrow> string option
    \<Rightarrow> guardrail_config list \<Rightarrow> string \<Rightarrow> guardrail_result list guard_check" where
  "run_input_guardrails post default_url gs t = run_guard_checks post default_url 0 (filter (\<lambda>g. Input \<in> set (gc_on g)) gs) t"

section \<open>The route's handling\<close>

definition opt_json :: "json option \<Rightarrow> json" where
  "opt_json v = (case v of Some j \<Rightarrow> j | None \<Rightarrow> JNull)"

definition blocked_detail :: "guardrail_result list \<Rightarrow> json" where
  "blocked_detail rs = JObj [(''message'', JStr ''Request blocked by guardrail policy.''), (''code'', JStr ''guardrail_violation''),
     (''guardrails'', JArr (map (\<lambda>r. JObj [(''profile'', JStr (gr_profile r)), (''explanation'', opt_json (gr_explanation r)),
        (''score'', opt_json (gr_score r))]) (filter (\<lambda>r. gr_mode r = Block) (filter flagged rs))))]"

definition mode_text :: "guard_mode \<Rightarrow> string" where
  "mode_text m = (case m of Block \<Rightarrow> ''block'' | Monitor \<Rightarrow> ''monitor'')"

definition guard_summary :: "guardrail_result list \<Rightarrow> json" where
  "guard_summary rs = JArr (map (\<lambda>r. JObj [(''profile'', JStr (gr_profile r)), (''mode'', JStr (mode_text (gr_mode r))),
     (''valid'', case gr_valid r of Some b \<Rightarrow> JBool b | None \<Rightarrow> JNull), (''score'', opt_json (gr_score r))]) rs)"

text \<open>The outcome is the value of the \<open>X-Otari-Guardrails\<close> header, if one is set.\<close>

definition apply_input_guardrails :: "(json \<Rightarrow> string) \<Rightarrow> (string \<Rightarrow> string option)
    \<Rightarrow> (nat \<Rightarrow> string \<Rightarrow> (string, json) dict \<Rightarrow> guard_reply) \<Rightarrow> guardrail_config list option \<Rightarrow> string \<Rightarrow> json option step" where
  "apply_input_guardrails show vars post guardrails t = (if \<not> nonempty guardrails then Step_Ok None
     else (case run_input_guardrails post (nonempty_str (otari_env vars ''GUARDRAILS_URL'')) (the guardrails) t of
         Check_Crash \<Rightarrow> Step_Crash
       | Not_Reachable e \<Rightarrow> Step_Http (http_error 502 e)
       | Checked rs \<Rightarrow> if blocked rs then Step_Http (http_error 403 (show (blocked_detail rs)))
           else Step_Ok (if rs = [] then None else Some (guard_summary rs))))"

text \<open>As the first step of \<^const>\<open>prepare_gateway_tools\<close>.\<close>

definition guardrail_step :: "json option step \<Rightarrow> unit step" where
  "guardrail_step r = step_bind r (\<lambda>_. Step_Ok ())"

section \<open>Lemmas\<close>

text \<open>A check with a conclusive or inconclusive verdict comes from an explicit reply of the service.\<close>

lemma read_verdict_checked:
  assumes "read_verdict cfg r = Checked v"
  shows "gr_profile v = gc_profile cfg \<and> gr_mode v = gc_mode cfg
    \<and> (\<exists>d j. unwrap_result r = JObj d \<and> map_of d ''valid'' = Some j
        \<and> (j = JNull \<and> gr_valid v = None \<or> (\<exists>b. j = JBool b \<and> gr_valid v = Some b)))"
proof -
  from assms obtain d where d: "unwrap_result r = JObj d" by (cases "unwrap_result r") (auto simp: read_verdict_def)
  with assms obtain j where "map_of d ''valid'' = Some j" by (auto simp: read_verdict_def Let_def split: option.splits)
  with assms d show ?thesis by (cases j) (auto simp: read_verdict_def Let_def)
qed

lemma check_one_checked:
  assumes "check_one post du cfg t = Checked v"
  shows "gr_profile v = gc_profile cfg \<and> gr_mode v = gc_mode cfg
    \<and> (\<exists>d r rd j. post (guard_url cfg du @ ''/validate'') (guard_payload cfg t) = Guard_Body (JObj d)
        \<and> map_of d ''result'' = Some r \<and> unwrap_result r = JObj rd \<and> map_of rd ''valid'' = Some j
        \<and> (j = JNull \<and> gr_valid v = None \<or> (\<exists>b. j = JBool b \<and> gr_valid v = Some b)))"
proof -
  from assms obtain b r where b: "post (guard_url cfg du @ ''/validate'') (guard_payload cfg t) = Guard_Body b"
    "is_jobj b" "jget ''result'' b = Some r" "read_verdict cfg r = Checked v"
    by (auto simp: check_one_def validate_one_def Let_def split: if_splits guard_reply.splits option.splits)
  then obtain d where "b = JObj d" by (cases b) auto
  with b read_verdict_checked[OF b(4)] show ?thesis by auto
qed

lemma read_verdict_no_crash: "read_verdict cfg r \<noteq> Check_Crash"
  by (cases "unwrap_result r") (auto simp: read_verdict_def Let_def split: option.split json.split)

lemma check_one_crash:
  assumes "\<And>u p. post u p \<noteq> Guard_Raises" "\<And>u p b. post u p = Guard_Body b \<Longrightarrow> is_jobj b"
  shows "check_one post du cfg t \<noteq> Check_Crash"
proof (cases "post (guard_url cfg du @ ''/validate'') (guard_payload cfg t)")
  case (Guard_Body b)
  then show ?thesis using assms(2)[OF Guard_Body]
    by (simp add: check_one_def validate_one_def Let_def read_verdict_no_crash split: option.split)
qed (use assms(1) in \<open>auto simp: check_one_def validate_one_def Let_def\<close>)

lemma run_guard_checks_checked:
  "run_guard_checks post du k cs t = Checked rs \<Longrightarrow> length rs = length cs \<and>
    (\<forall>i < length cs. check_one (post (k + i)) du (cs ! i) t = Checked (rs ! i)
       \<or> gc_mode (cs ! i) = Monitor \<and> (\<exists>e. check_one (post (k + i)) du (cs ! i) t = Not_Reachable e) \<and> rs ! i = inconclusive (cs ! i))"
proof (induction cs arbitrary: k rs)
  case (Cons cfg cs)
  from Cons.prems obtain r rs' where rs: "rs = r # rs'" "run_guard_checks post du (k + 1) cs t = Checked rs'"
    and r: "check_one (post k) du cfg t = Checked r
      \<or> gc_mode cfg = Monitor \<and> (\<exists>e. check_one (post k) du cfg t = Not_Reachable e) \<and> r = inconclusive cfg"
    by (cases "gc_mode cfg") (auto split: guard_check.splits if_splits)
  from Cons.IH[OF rs(2)] r show ?case by (auto simp: rs(1) nth_Cons split: nat.split)
qed simp

lemma run_guard_checks_monitor:
  assumes "\<And>k u p. post k u p \<noteq> Guard_Raises" "\<And>k u p b. post k u p = Guard_Body b \<Longrightarrow> is_jobj b"
  shows "\<forall>g \<in> set cs. gc_mode g = Monitor \<Longrightarrow> \<exists>rs. run_guard_checks post du k cs t = Checked rs"
proof (induction cs arbitrary: k)
  case (Cons cfg cs)
  then obtain rs where rs: "run_guard_checks post du (k + 1) cs t = Checked rs" by auto
  have "check_one (post k) du cfg t \<noteq> Check_Crash" by (rule check_one_crash) (use assms in blast)+
  then show ?case using rs Cons.prems by (cases "check_one (post k) du cfg t") auto
qed simp

lemma checks_describe_configs:
  assumes "run_guard_checks post du k cs t = Checked rs"
  shows "map gr_profile rs = map gc_profile cs" "map gr_mode rs = map gc_mode cs"
proof -
  note c = run_guard_checks_checked[OF assms]
  have "gr_profile (rs ! i) = gc_profile (cs ! i) \<and> gr_mode (rs ! i) = gc_mode (cs ! i)" if "i < length cs" for i
    using c that check_one_checked[of "post (k + i)" du "cs ! i" t "rs ! i"] by (auto simp: inconclusive_def)
  then show "map gr_profile rs = map gc_profile cs" "map gr_mode rs = map gc_mode cs"
    using c by (auto intro: nth_equalityI)
qed

text \<open>The text of the last user message is what is checked, whatever follows it.\<close>

lemma latest_user_text_last:
  assumes "is_user_message m" "\<forall>x \<in> set after. \<not> is_user_message x"
  shows "latest_user_text (before @ m # after) = text_from_content (jget ''content'' m)"
proof -
  have "find is_user_message (rev after @ m # rev before) = Some m"
    using assms by (induction after rule: rev_induct) (auto simp: find_None_iff split: option.splits)
  then show ?thesis by (simp add: latest_user_text_def)
qed

definition injection_guard :: "guard_mode \<Rightarrow> guardrail_config" where
  "injection_guard m = \<lparr>gc_profile = ''prompt-injection'', gc_url = Some ''http://g'', gc_on = [Input], gc_mode = m, gc_kwargs = []\<rparr>"

definition valid_reply :: json where
  "valid_reply = JObj [(''result'', JObj [(''valid'', JBool True)])]"

section \<open>Properties\<close>

text \<open>C13. A request that passes has been cleared by each of its blocking input guardrails: the service answered
  the check of this very text with an explicit verdict that is not negative; unreachable services and malformed
  answers do not pass.\<close>

theorem block_guardrails_enforced:
  assumes "apply_input_guardrails show vars post (Some gs) t = Step_Ok h" "g \<in> set gs" "gc_mode g = Block" "Input \<in> set (gc_on g)"
  shows "\<exists>k d r rd. post k (guard_url g (nonempty_str (otari_env vars ''GUARDRAILS_URL'')) @ ''/validate'') (guard_payload g t) = Guard_Body (JObj d)
    \<and> map_of d ''result'' = Some r \<and> unwrap_result r = JObj rd \<and> map_of rd ''valid'' \<in> {Some JNull, Some (JBool True)}"
proof -
  let ?du = "nonempty_str (otari_env vars ''GUARDRAILS_URL'')" and ?gs = "filter (\<lambda>g. Input \<in> set (gc_on g)) gs"
  have "nonempty (Some gs)" using assms(2) by (auto simp: nonempty_def)
  then obtain rs where rs: "run_guard_checks post ?du 0 ?gs t = Checked rs" "\<not> blocked rs"
    using assms(1) by (auto simp: apply_input_guardrails_def run_input_guardrails_def split: guard_check.splits if_splits)
  obtain i where i: "i < length ?gs" "?gs ! i = g" using assms(2,4) by (metis (mono_tags, lifting) in_set_conv_nth mem_Collect_eq set_filter)
  with run_guard_checks_checked[OF rs(1)] assms(3) have c: "check_one (post i) ?du g t = Checked (rs ! i)" and l: "i < length rs" by force+
  have "\<not> (flagged (rs ! i) \<and> gr_mode (rs ! i) = Block)" using rs(2) l by (auto simp: blocked_def list_ex_iff)
  with check_one_checked[OF c] assms(3) show ?thesis by (fastforce simp: flagged_def)
qed

lemma block_guardrails_enforced_witness:
  "\<exists>k d r rd. (\<lambda>(k::nat) (u::string) (p::(string, json) dict). Guard_Body valid_reply) k
      (guard_url (injection_guard Block) None @ ''/validate'') (guard_payload (injection_guard Block) ''hi'') = Guard_Body (JObj d)
    \<and> map_of d ''result'' = Some r \<and> unwrap_result r = JObj rd \<and> map_of rd ''valid'' \<in> {Some JNull, Some (JBool True)}"
proof -
  let ?post = "\<lambda>(k::nat) (u::string) (p::(string, json) dict). Guard_Body valid_reply"
  have "\<exists>h. apply_input_guardrails (\<lambda>_. []) (\<lambda>_. None) ?post (Some [injection_guard Block]) ''hi'' = Step_Ok h"
    by (simp add: apply_input_guardrails_def run_input_guardrails_def nonempty_def injection_guard_def check_one_def
        guard_url_def rstrip_char_def validate_one_def valid_reply_def read_verdict_def unwrap_result_def blocked_def flagged_def)
  then obtain h where h: "apply_input_guardrails (\<lambda>_. []) (\<lambda>_. None) ?post (Some [injection_guard Block]) ''hi'' = Step_Ok h" ..
  from block_guardrails_enforced[OF h, of "injection_guard Block"] show ?thesis
    by (simp add: injection_guard_def otari_env_def nonempty_str_def)
qed

text \<open>Guardrails in monitor mode never reject a request, whatever their verdicts and however the service
  fails, as long as its bodies are JSON objects; the header reports one entry per input guardrail, in order.\<close>

theorem monitor_never_rejects:
  assumes "\<forall>g \<in> set gs. Input \<in> set (gc_on g) \<longrightarrow> gc_mode g = Monitor"
    and "\<And>k u p. post k u p \<noteq> Guard_Raises" "\<And>k u p b. post k u p = Guard_Body b \<Longrightarrow> is_jobj b"
  shows "\<exists>rs. apply_input_guardrails show vars post (Some gs) t = Step_Ok (if rs = [] then None else Some (guard_summary rs))
    \<and> map gr_profile rs = map gc_profile (filter (\<lambda>g. Input \<in> set (gc_on g)) gs)"
proof -
  let ?du = "nonempty_str (otari_env vars ''GUARDRAILS_URL'')" and ?gs = "filter (\<lambda>g. Input \<in> set (gc_on g)) gs"
  have mon: "\<forall>g \<in> set ?gs. gc_mode g = Monitor" using assms(1) by simp
  have "\<exists>rs. run_guard_checks post ?du 0 ?gs t = Checked rs"
    by (rule run_guard_checks_monitor[OF _ _ mon]) (use assms(2,3) in blast)+
  then obtain rs where rs: "run_guard_checks post ?du 0 ?gs t = Checked rs" ..
  note d = checks_describe_configs[OF rs]
  have "\<forall>r \<in> set rs. gr_mode r = Monitor"
    using mon d(2) by (metis (no_types, lifting) imageE imageI list.set_map)
  then have "\<not> blocked rs" by (auto simp: blocked_def list_ex_iff)
  then show ?thesis using rs d(1)
    by (cases "gs = []") (auto simp: apply_input_guardrails_def nonempty_def run_input_guardrails_def intro!: exI[of _ rs])
qed

lemma monitor_never_rejects_witness:
  "\<exists>h. apply_input_guardrails (\<lambda>_. []) (\<lambda>_. None) (\<lambda>_ _ _. Guard_Failed) (Some [injection_guard Monitor]) ''hi'' = Step_Ok h"
  using monitor_never_rejects[of "[injection_guard Monitor]" "\<lambda>_ _ _. Guard_Failed"] by (force simp: injection_guard_def)

text \<open>A guardrails service that answers with a JSON array instead of an object crashes the request although
  the guardrail only monitors, and since only HTTP errors release the reservation, the estimate stays held.\<close>

theorem guardrail_crash_keeps_hold:
  assumes "Input \<in> set (gc_on g)" "guard_url g (nonempty_str (otari_env vars ''GUARDRAILS_URL'')) \<noteq> []"
    and "post 0 (guard_url g (nonempty_str (otari_env vars ''GUARDRAILS_URL'')) @ ''/validate'') (guard_payload g t) = Guard_Body (JArr xs)"
  shows "prepare_gateway_tools A ctx (E\<lparr>te_guardrails := guardrail_step (apply_input_guardrails show vars post (Some [g]) t)\<rparr>) q s
    = (s, Inl Pipe_Crash)"
  using assms by (simp add: prepare_gateway_tools_def choose_tools_def guardrail_step_def step_bind_def apply_input_guardrails_def
      nonempty_def run_input_guardrails_def check_one_def validate_one_def)

lemma guardrail_crash_keeps_hold_witness:
  "prepare_gateway_tools plain_adapter ctx (sample_tool_env\<lparr>te_guardrails := guardrail_step
     (apply_input_guardrails (\<lambda>_. []) (\<lambda>_. None) (\<lambda>_ _ _. Guard_Body (JArr [])) (Some [injection_guard Monitor]) ''hi'')\<rparr>)
     sandbox_request s = (s, Inl Pipe_Crash)"
  by (rule guardrail_crash_keeps_hold) (simp_all add: injection_guard_def guard_url_def rstrip_char_def)

end
