(* ===== verification/Genetic.thy ===== *)
theory Genetic
  imports Prelude
begin

text \<open>
  The genetic budget engine (\<open>genetic_budget_engine.py\<close>): candidate budget ceilings, their fitness
  under live traffic signals, one generation of the algorithm and the \<open>tick\<close> that runs six of them.

  Random draws are a parameter: the record \<open>rng\<close> gives the outcome of the \<open>n\<close>-th draw of each kind,
  and every operation returns the number of the next one. Floats are real numbers; \<open>py_round\<close> rounds
  half to even, as Python does.
\<close>

record rng =
  unit_at :: "nat \<Rightarrow> real"
  gauss_at :: "nat \<Rightarrow> real \<Rightarrow> real"
  pair_at :: "nat \<Rightarrow> nat \<times> nat"

definition population_size :: nat where "population_size = 12"
definition generations :: nat where "generations = 6"
definition mutation_rate :: real where "mutation_rate = 25 / 100"
definition crossover_rate :: real where "crossover_rate = 70 / 100"
definition budget_min :: real where "budget_min = 5 / 100"
definition budget_max :: real where "budget_max = 3"
definition budget_baseline :: real where "budget_baseline = 2"

record traffic_dna =
  threat_ratio :: real
  cpu_usage :: real
  request_rate :: real
  system_health :: real
  is_ddos_pattern :: bool
  is_critical_load :: bool

record genome =
  g_ceiling :: real
  fitness :: real

definition fresh :: "real \<Rightarrow> genome" where
  "fresh c = \<lparr>g_ceiling = c, fitness = 0\<rparr>"

definition clamp :: "real \<Rightarrow> real" where
  "clamp x = max budget_min (min budget_max x)"

definition mutate :: "rng \<Rightarrow> nat \<Rightarrow> genome \<Rightarrow> genome \<times> nat" where
  "mutate R n g =
     (if unit_at R n < mutation_rate
      then (g\<lparr>g_ceiling := clamp (g_ceiling g + gauss_at R (n + 1) (15 / 100))\<rparr>, n + 2)
      else (g, n + 1))"

definition crossover :: "rng \<Rightarrow> nat \<Rightarrow> genome \<Rightarrow> genome \<Rightarrow> genome \<times> nat" where
  "crossover R n a b =
     (if unit_at R n < crossover_rate
      then (let alpha = unit_at R (n + 1)
            in (fresh (clamp (alpha * g_ceiling a + (1 - alpha) * g_ceiling b)), n + 2))
      else (fresh (clamp (if fitness b \<le> fitness a then g_ceiling a else g_ceiling b)), n + 1))"

section \<open>Fitness\<close>

definition evaluate_fitness :: "real \<Rightarrow> traffic_dna \<Rightarrow> real" where
  "evaluate_fitness c dna = max 0
     (if is_ddos_pattern dna
      then (let s = 100 * exp (- 5 * (c - budget_min)) in if 50 / 100 < c then s * (1 / 10) else s)
      else if is_critical_load dna
      then (let s = 100 * exp (- 3 * \<bar>c - 25 / 10\<bar>) in if c < budget_baseline then s * (4 / 10) else s)
      else 100 * exp (- 4 * (c - budget_baseline) ^ 2) - threat_ratio dna * 40 + system_health dna * 15)"

section \<open>The engine\<close>

text \<open>Rounding to \<open>k\<close> decimals, halves to even.\<close>

definition nearest_even :: "real \<Rightarrow> int" where
  "nearest_even y = (let f = \<lfloor>y\<rfloor>; d = y - of_int f in
     if d < 1 / 2 then f else if 1 / 2 < d then f + 1 else if even f then f else f + 1)"

definition py_round :: "real \<Rightarrow> nat \<Rightarrow> real" where
  "py_round x k = of_int (nearest_even (x * 10 ^ k)) / 10 ^ k"

datatype mode = Ai_Starvation | Survival_Expansion | Threat_Contraction | Stable_Baseline

record tick_result =
  r_ceiling :: real
  r_prev_ceiling :: real
  r_delta :: real
  r_mode :: mode
  r_generation :: nat
  r_fitness_best :: real
  r_fitness_avg :: real
  r_dna :: traffic_dna

record engine =
  current_ceiling :: real
  generation_count :: nat
  last_dna :: "traffic_dna option"
  evolution_log :: "tick_result list"
  population :: "genome list"

fun seed_near :: "rng \<Rightarrow> nat \<Rightarrow> nat \<Rightarrow> genome list \<times> nat" where
  "seed_near R 0 n = ([], n)"
| "seed_near R (Suc k) n = (case seed_near R k (n + 1) of
     (gs, m) \<Rightarrow> (fresh (budget_baseline + gauss_at R n (1 / 10)) # gs, m))"

fun seed_wide :: "rng \<Rightarrow> nat \<Rightarrow> nat \<Rightarrow> genome list \<times> nat" where
  "seed_wide R 0 n = ([], n)"
| "seed_wide R (Suc k) n = (case seed_wide R k (n + 1) of
     (gs, m) \<Rightarrow> (fresh (budget_min + (budget_max - budget_min) * unit_at R n) # gs, m))"

definition seed_population :: "rng \<Rightarrow> nat \<Rightarrow> genome list \<times> nat" where
  "seed_population R n = (case seed_near R (population_size div 3) n of
     (near, m) \<Rightarrow> (case seed_wide R (population_size - length near) m of
       (wide, k) \<Rightarrow> (near @ wide, k)))"

definition new_engine :: "rng \<Rightarrow> nat \<Rightarrow> engine \<times> nat" where
  "new_engine R n = (case seed_population R n of (pop, m) \<Rightarrow>
     (\<lparr>current_ceiling = budget_baseline, generation_count = 0, last_dna = None, evolution_log = [],
       population = pop\<rparr>, m))"

text \<open>The fitter of two random candidates, the first one on a tie.\<close>

definition tournament :: "rng \<Rightarrow> nat \<Rightarrow> genome list \<Rightarrow> genome" where
  "tournament R n pop = (let (i, j) = pair_at R n in
     if fitness (pop ! j) \<le> fitness (pop ! i) then pop ! i else pop ! j)"

fun breed :: "rng \<Rightarrow> genome list \<Rightarrow> nat \<Rightarrow> nat \<Rightarrow> genome list \<times> nat" where
  "breed R pop 0 n = ([], n)"
| "breed R pop (Suc k) n =
     (let a = tournament R n pop; b = tournament R (n + 1) pop in
      case crossover R (n + 2) a b of (child, m) \<Rightarrow>
      case mutate R m child of (child', m') \<Rightarrow>
      case breed R pop k m' of (rest, m'') \<Rightarrow> (child' # rest, m''))"

definition evaluated :: "traffic_dna \<Rightarrow> genome list \<Rightarrow> genome list" where
  "evaluated dna pop = map (\<lambda>g. g\<lparr>fitness := evaluate_fitness (g_ceiling g) dna\<rparr>) pop"

text \<open>\<open>sort(key=fitness, reverse=True)\<close> is stable.\<close>

definition ranked :: "genome list \<Rightarrow> genome list" where
  "ranked pop = sort_key (\<lambda>g. - fitness g) pop"

definition evolve :: "rng \<Rightarrow> nat \<Rightarrow> traffic_dna \<Rightarrow> engine \<Rightarrow> engine \<times> real \<times> nat" where
  "evolve R n dna E =
     (let pop = ranked (evaluated dna (population E)) in
      case breed R pop (population_size - 2) n of (children, m) \<Rightarrow>
        (E\<lparr>population := fresh (g_ceiling (pop ! 0)) # fresh (g_ceiling (pop ! 1)) # children,
           generation_count := generation_count E + 1\<rparr>,
         g_ceiling (pop ! 0), m))"

fun evolve_times :: "nat \<Rightarrow> rng \<Rightarrow> nat \<Rightarrow> traffic_dna \<Rightarrow> engine \<Rightarrow> real \<Rightarrow> engine \<times> real \<times> nat" where
  "evolve_times 0 R n dna E best = (E, best, n)"
| "evolve_times (Suc k) R n dna E best = (case evolve R n dna E of
     (E', b, m) \<Rightarrow> evolve_times k R m dna E' b)"

definition mode_of :: "traffic_dna \<Rightarrow> mode" where
  "mode_of dna = (if is_ddos_pattern dna then Ai_Starvation
     else if is_critical_load dna then Survival_Expansion
     else if 4 / 10 < threat_ratio dna then Threat_Contraction else Stable_Baseline)"

definition push_log :: "tick_result \<Rightarrow> tick_result list \<Rightarrow> tick_result list" where
  "push_log r rs = (let rs' = rs @ [r] in if 20 < length rs' then tl rs' else rs')"

definition tick :: "rng \<Rightarrow> nat \<Rightarrow> traffic_dna \<Rightarrow> engine \<Rightarrow> engine \<times> tick_result \<times> nat" where
  "tick R n dna E =
     (case evolve_times generations R n dna (E\<lparr>last_dna := Some dna\<rparr>) (current_ceiling E) of
        (E1, best, m) \<Rightarrow>
          (let prev = current_ceiling E1; cur = py_round best 4; pop = population E1;
               r = \<lparr>r_ceiling = cur, r_prev_ceiling = py_round prev 4, r_delta = py_round (cur - prev) 4,
                    r_mode = mode_of dna, r_generation = generation_count E1,
                    r_fitness_best = py_round (fitness (pop ! 0)) 2,
                    r_fitness_avg = py_round (sum_list (map fitness pop) / real (length pop)) 2,
                    r_dna = dna\<rparr>
           in (E1\<lparr>current_ceiling := cur, evolution_log := push_log r (evolution_log E1)\<rparr>, r, m)))"

section \<open>Traffic signals\<close>

definition build_traffic_dna :: "nat \<Rightarrow> nat \<Rightarrow> real \<Rightarrow> bool \<Rightarrow> traffic_dna" where
  "build_traffic_dna threat_count total_count cpu_percent burst =
     (let ratio = real threat_count / real (max total_count 1);
          cpu = cpu_percent / 100
      in \<lparr>threat_ratio = ratio, cpu_usage = cpu,
          request_rate = max 0 ((1 - ratio) * (1 - max 0 (cpu - 85 / 100))),
          system_health = max 0 (1 - (ratio * (6 / 10) + max 0 (cpu - 7 / 10) * (4 / 10))),
          is_ddos_pattern = burst \<or> (6 / 10 < ratio \<and> 5 < total_count),
          is_critical_load = 85 / 100 < cpu \<and> ratio < 2 / 10\<rparr>)"

section \<open>Lemmas\<close>

definition in_range :: "real \<Rightarrow> bool" where
  "in_range c \<longleftrightarrow> budget_min \<le> c \<and> c \<le> budget_max"

lemma clamp_range [simp]: "in_range (clamp x)"
  by (auto simp: in_range_def clamp_def budget_min_def budget_max_def)

lemma fresh_simps [simp]: "g_ceiling (fresh c) = c" "fitness (fresh c) = 0"
  by (simp_all add: fresh_def)

lemma crossover_child:
  assumes "crossover R n a b = (child, m)" shows "in_range (g_ceiling child)" "fitness child = 0"
  using assms by (auto simp: crossover_def Let_def split: if_splits)

lemma mutate_child:
  assumes "mutate R n g = (g', m)" "in_range (g_ceiling g)"
  shows "in_range (g_ceiling g')" "fitness g' = fitness g"
  using assms by (auto simp: mutate_def split: if_splits)

lemma breed_children:
  assumes "breed R pop k n = (cs, m)"
  shows "length cs = k \<and> (\<forall>c \<in> set cs. in_range (g_ceiling c) \<and> fitness c = 0)"
  using assms
proof (induction k arbitrary: n cs m)
  case (Suc k)
  let ?a = "tournament R n pop" and ?b = "tournament R (n + 1) pop"
  obtain c m1 where c: "crossover R (n + 2) ?a ?b = (c, m1)" by fastforce
  obtain c' m2 where c': "mutate R m1 c = (c', m2)" by fastforce
  obtain r m3 where r: "breed R pop k m2 = (r, m3)" by fastforce
  from Suc.prems c c' r have "cs = c' # r" by (simp add: Let_def)
  with Suc.IH[OF r] crossover_child[OF c] mutate_child[OF c'] show ?case by auto
qed simp

lemma ranked_length [simp]: "length (ranked pop) = length pop"
  by (simp add: ranked_def)

lemma evaluated_length [simp]: "length (evaluated dna pop) = length pop"
  by (simp add: evaluated_def)

lemma ranked_set [simp]: "set (ranked pop) = set pop"
  by (simp add: ranked_def)

text \<open>The best of a ranked population is at the front.\<close>

lemma ranked_best:
  assumes "g \<in> set pop" shows "fitness g \<le> fitness (ranked pop ! 0)"
proof -
  have "sorted (map (\<lambda>g. - fitness g) (ranked pop))" by (simp add: ranked_def)
  moreover obtain i where i: "i < length (ranked pop)" "ranked pop ! i = g"
    using assms by (metis in_set_conv_nth ranked_set)
  ultimately have "map (\<lambda>g. - fitness g) (ranked pop) ! 0 \<le> map (\<lambda>g. - fitness g) (ranked pop) ! i"
    by (intro sorted_nth_mono) auto
  with i show ?thesis by (simp add: nth_map[of 0] nth_map[of i] length_greater_0_conv[symmetric] del: length_greater_0_conv)
qed

lemma evaluated_mem:
  "g \<in> set (evaluated dna pop) \<Longrightarrow> fitness g = evaluate_fitness (g_ceiling g) dna \<and>
    (\<exists>h \<in> set pop. g_ceiling h = g_ceiling g)"
  by (auto simp: evaluated_def)

text \<open>A generation returns the fittest candidate it started with, and keeps it at the front.\<close>

lemma evolve_step:
  assumes "evolve R n dna E = (E', best, m)" "length (population E) = population_size"
  shows "length (population E') = population_size" and "best = g_ceiling (population E' ! 0)"
    and "\<forall>g \<in> set (population E'). fitness g = 0"
    and "g \<in> set (population E) \<Longrightarrow> evaluate_fitness (g_ceiling g) dna \<le> evaluate_fitness best dna"
    and "\<exists>h \<in> set (population E). best = g_ceiling h"
    and "\<forall>g \<in> set (population E). in_range (g_ceiling g) \<Longrightarrow> \<forall>g \<in> set (population E'). in_range (g_ceiling g)"
    and "generation_count E' = generation_count E + 1" "evolution_log E' = evolution_log E"
      "current_ceiling E' = current_ceiling E"
proof -
  let ?ev = "evaluated dna (population E)"
  obtain cs k where b: "breed R (ranked ?ev) (population_size - 2) n = (cs, k)" by fastforce
  have E': "E' = E\<lparr>population := fresh (g_ceiling (ranked ?ev ! 0)) # fresh (g_ceiling (ranked ?ev ! 1)) # cs,
      generation_count := generation_count E + 1\<rparr>"
    using assms(1) b by (auto simp: evolve_def Let_def)
  have best: "best = g_ceiling (ranked ?ev ! 0)"
    using assms(1) b by (auto simp: evolve_def Let_def)
  have len: "length (ranked ?ev) = 12" using assms(2) by (simp add: population_size_def)
  have mem: "ranked ?ev ! 0 \<in> set ?ev" "ranked ?ev ! 1 \<in> set ?ev"
    using nth_mem[of 0 "ranked ?ev"] nth_mem[of 1 "ranked ?ev"] unfolding ranked_set len by linarith+
  note br = breed_children[OF b]
  show "length (population E') = population_size" using br by (simp add: E' population_size_def)
  show "best = g_ceiling (population E' ! 0)" by (simp add: E' best)
  show "\<forall>g \<in> set (population E'). fitness g = 0" using br by (auto simp: E')
  show "\<exists>h \<in> set (population E). best = g_ceiling h" using evaluated_mem[OF mem(1)] unfolding best by metis
  show "generation_count E' = generation_count E + 1" "evolution_log E' = evolution_log E"
    "current_ceiling E' = current_ceiling E" by (simp_all add: E')
  show "\<forall>g \<in> set (population E'). in_range (g_ceiling g)" if "\<forall>g \<in> set (population E). in_range (g_ceiling g)"
  proof -
    have "in_range (g_ceiling (ranked ?ev ! 0))" "in_range (g_ceiling (ranked ?ev ! 1))"
      using that evaluated_mem[OF mem(1)] evaluated_mem[OF mem(2)] by metis+
    with br show ?thesis by (auto simp: E')
  qed
  show "evaluate_fitness (g_ceiling g) dna \<le> evaluate_fitness best dna" if "g \<in> set (population E)"
  proof -
    let ?g = "g\<lparr>fitness := evaluate_fitness (g_ceiling g) dna\<rparr>"
    have "?g \<in> set ?ev" using that by (auto simp: evaluated_def)
    from ranked_best[OF this] evaluated_mem[OF mem(1)] best show ?thesis by simp
  qed
qed

text \<open>What \<open>k\<close> generations guarantee.\<close>

definition evolved :: "traffic_dna \<Rightarrow> nat \<Rightarrow> engine \<Rightarrow> engine \<Rightarrow> real \<Rightarrow> bool" where
  "evolved dna k E E' best \<longleftrightarrow>
     length (population E') = population_size \<and> best = g_ceiling (population E' ! 0)
   \<and> (\<forall>g \<in> set (population E'). fitness g = 0)
   \<and> (\<forall>g \<in> set (population E). evaluate_fitness (g_ceiling g) dna \<le> evaluate_fitness best dna)
   \<and> ((\<forall>g \<in> set (population E). in_range (g_ceiling g)) \<longrightarrow>
        (\<forall>g \<in> set (population E'). in_range (g_ceiling g)) \<and> in_range best)
   \<and> generation_count E' = generation_count E + k \<and> evolution_log E' = evolution_log E
   \<and> current_ceiling E' = current_ceiling E"

lemma evolvedD:
  assumes "evolved dna k E E' best"
  shows "length (population E') = population_size" "best = g_ceiling (population E' ! 0)"
    "\<And>g. g \<in> set (population E') \<Longrightarrow> fitness g = 0"
    "\<And>g. g \<in> set (population E) \<Longrightarrow> evaluate_fitness (g_ceiling g) dna \<le> evaluate_fitness best dna"
    "\<forall>g \<in> set (population E). in_range (g_ceiling g) \<Longrightarrow> \<forall>g \<in> set (population E'). in_range (g_ceiling g)"
    "\<forall>g \<in> set (population E). in_range (g_ceiling g) \<Longrightarrow> in_range best"
    "generation_count E' = generation_count E + k" "evolution_log E' = evolution_log E"
    "current_ceiling E' = current_ceiling E"
  using assms unfolding evolved_def by blast+

lemma evolved_trans:
  assumes a: "evolved dna j E E1 b" and b: "evolved dna k E1 E' best"
  shows "evolved dna (j + k) E E' best"
proof -
  have mem: "population E1 ! 0 \<in> set (population E1)"
    using evolvedD(1)[OF a] by (simp add: population_size_def)
  have up: "evaluate_fitness b dna \<le> evaluate_fitness best dna"
    using evolvedD(4)[OF b mem] unfolding evolvedD(2)[OF a] .
  have fit: "evaluate_fitness (g_ceiling g) dna \<le> evaluate_fitness best dna" if "g \<in> set (population E)" for g
    using evolvedD(4)[OF a that] up by (rule order_trans)
  have gen: "generation_count E' = generation_count E + (j + k)"
    using evolvedD(7)[OF a] evolvedD(7)[OF b] by simp
  have keep: "evolution_log E' = evolution_log E" "current_ceiling E' = current_ceiling E"
    using evolvedD(8,9)[OF a] evolvedD(8,9)[OF b] by simp_all
  show ?thesis unfolding evolved_def
    using evolvedD(1,2,3)[OF b] evolvedD(5)[OF a] evolvedD(5,6)[OF b] fit gen keep by blast
qed

lemma evolve_times_step:
  assumes "evolve_times k R n dna E b0 = (E', best, m)" "length (population E) = population_size" "0 < k"
  shows "evolved dna k E E' best"
  using assms
proof (induction k arbitrary: n E b0)
  case (Suc k)
  obtain E1 b m1 where e: "evolve R n dna E = (E1, b, m1)" by (cases "evolve R n dna E") auto
  note st = evolve_step[OF e Suc.prems(2)]
  have rec: "evolve_times k R m1 dna E1 b = (E', best, m)" using Suc.prems(1) e by simp
  have "in_range b" if "\<forall>g \<in> set (population E). in_range (g_ceiling g)" using that st(5) by metis
  then have one: "evolved dna 1 E E1 b" unfolding evolved_def using st(1,2,3,4,6,7,8,9) by blast
  show ?case
  proof (cases k)
    case 0
    with rec one show ?thesis by simp
  next
    case (Suc k')
    then have "evolved dna k E1 E' best" using Suc.IH[OF rec st(1)] by simp
    from evolved_trans[OF one this] show ?thesis by simp
  qed
qed simp

lemma nearest_even_lower: "of_int l \<le> y \<Longrightarrow> l \<le> nearest_even y"
proof -
  assume "of_int l \<le> y"
  then have "l \<le> \<lfloor>y\<rfloor>" by (simp add: le_floor_iff)
  then show ?thesis by (auto simp: nearest_even_def Let_def)
qed

lemma nearest_even_upper: "y \<le> of_int u \<Longrightarrow> nearest_even y \<le> u"
proof -
  assume y: "y \<le> of_int u"
  show ?thesis
  proof (cases "\<lfloor>y\<rfloor> = u")
    case True
    with y have "y = of_int u" by linarith
    then show ?thesis by (simp add: nearest_even_def Let_def)
  next
    case False
    with y have "\<lfloor>y\<rfloor> + 1 \<le> u" by linarith
    then show ?thesis by (auto simp: nearest_even_def Let_def)
  qed
qed

lemma py_round_range: "in_range c \<Longrightarrow> in_range (py_round c 4)"
proof -
  assume c: "in_range c"
  have "500 \<le> nearest_even (c * 10 ^ 4)"
    by (rule nearest_even_lower) (use c in \<open>simp add: in_range_def budget_min_def\<close>)
  moreover have "nearest_even (c * 10 ^ 4) \<le> 30000"
    by (rule nearest_even_upper) (use c in \<open>simp add: in_range_def budget_max_def\<close>)
  ultimately show ?thesis
    by (auto simp: in_range_def py_round_def budget_min_def budget_max_def field_simps)
qed

lemma py_round_error: "\<bar>py_round c k - c\<bar> \<le> 1 / (2 * 10 ^ k)"
proof -
  have n: "\<bar>of_int (nearest_even y) - y\<bar> \<le> 1 / 2" for y :: real
    by (simp add: nearest_even_def Let_def; linarith)
  have "py_round c k - c = (of_int (nearest_even (c * 10 ^ k)) - c * 10 ^ k) / 10 ^ k"
    by (simp add: py_round_def field_simps)
  then have "\<bar>py_round c k - c\<bar> = \<bar>of_int (nearest_even (c * 10 ^ k)) - c * 10 ^ k\<bar> / 10 ^ k" by simp
  also have "\<dots> \<le> (1 / 2) / 10 ^ k" by (rule divide_right_mono[OF n]) simp
  finally show ?thesis by simp
qed

text \<open>What every engine looks like after start-up, and what each tick keeps.\<close>

definition engine_ok :: "engine \<Rightarrow> bool" where
  "engine_ok E \<longleftrightarrow> length (population E) = population_size \<and> length (evolution_log E) \<le> 20
     \<and> in_range (current_ceiling E) \<and> (\<forall>g \<in> set (population E). in_range (g_ceiling g))"

lemma tick_unfold:
  assumes "tick R n dna E = (E', r, m)"
  obtains E1 best where "evolve_times generations R n dna (E\<lparr>last_dna := Some dna\<rparr>) (current_ceiling E) = (E1, best, m)"
    "E' = E1\<lparr>current_ceiling := py_round best 4, evolution_log := push_log r (evolution_log E1)\<rparr>"
    "r_ceiling r = py_round best 4" "r_generation r = generation_count E1" "r_mode r = mode_of dna"
    "r_fitness_best r = py_round (fitness (population E1 ! 0)) 2"
    "r_fitness_avg r = py_round (sum_list (map fitness (population E1)) / real (length (population E1))) 2"
proof -
  obtain E1 best k where e: "evolve_times generations R n dna (E\<lparr>last_dna := Some dna\<rparr>) (current_ceiling E)
      = (E1, best, k)" by (cases "evolve_times generations R n dna (E\<lparr>last_dna := Some dna\<rparr>) (current_ceiling E)") auto
  with assms have "m = k" by (simp add: tick_def Let_def)
  with assms e that[of E1 best] show ?thesis by (auto simp: tick_def Let_def)
qed

lemma push_log_length: "length rs \<le> 20 \<Longrightarrow> length (push_log r rs) \<le> 20"
  by (simp add: push_log_def Let_def)

lemma tick_engine:
  assumes "engine_ok E" "tick R n dna E = (E', r, m)"
  shows "engine_ok E' \<and> r_ceiling r = current_ceiling E' \<and> generation_count E' = generation_count E + 6
    \<and> (\<exists>best. in_range best \<and> \<bar>r_ceiling r - best\<bar> \<le> 1 / 20000
        \<and> (\<forall>g \<in> set (population E). evaluate_fitness (g_ceiling g) dna \<le> evaluate_fitness best dna))"
proof -
  from assms(2) obtain E1 best where
    e: "evolve_times generations R n dna (E\<lparr>last_dna := Some dna\<rparr>) (current_ceiling E) = (E1, best, m)"
    and E': "E' = E1\<lparr>current_ceiling := py_round best 4, evolution_log := push_log r (evolution_log E1)\<rparr>"
    and r: "r_ceiling r = py_round best 4" by (rule tick_unfold)
  have ok: "length (population E) = population_size" "\<forall>g \<in> set (population E). in_range (g_ceiling g)"
    "length (evolution_log E) \<le> 20" using assms(1) by (auto simp: engine_ok_def)
  have ev: "evolved dna 6 (E\<lparr>last_dna := Some dna\<rparr>) E1 best"
    using evolve_times_step[OF e] ok(1) by (simp add: generations_def)
  have rng: "in_range best" "\<forall>g \<in> set (population E1). in_range (g_ceiling g)"
    using evolvedD(5,6)[OF ev] ok(2) by simp_all
  have fit: "\<forall>g \<in> set (population E). evaluate_fitness (g_ceiling g) dna \<le> evaluate_fitness best dna"
    using evolvedD(4)[OF ev] by simp
  have err: "\<bar>r_ceiling r - best\<bar> \<le> 1 / 20000" using py_round_error[of best 4] by (simp add: r)
  have "engine_ok E'"
    using evolvedD(1,8)[OF ev] ok(3) rng(2) py_round_range[OF rng(1)] push_log_length[of "evolution_log E" r]
    by (simp add: engine_ok_def E')
  moreover have "r_ceiling r = current_ceiling E'" "generation_count E' = generation_count E + 6"
    using evolvedD(7)[OF ev] by (simp_all add: E' r)
  ultimately show ?thesis using fit err rng(1) by blast
qed

lemma tick_mode: "tick R n dna E = (E', r, m) \<Longrightarrow> r_mode r = mode_of dna"
  by (erule tick_unfold)

text \<open>Start-up, with seeds that stay within one dollar of the baseline.\<close>

definition seeds_ok :: "rng \<Rightarrow> bool" where
  "seeds_ok R \<longleftrightarrow> (\<forall>n. \<bar>gauss_at R n (1 / 10)\<bar> \<le> 1 \<and> 0 \<le> unit_at R n \<and> unit_at R n \<le> 1)"

lemma seed_near_ok:
  "seeds_ok R \<Longrightarrow> seed_near R k n = (gs, m) \<Longrightarrow> length gs = k \<and> (\<forall>g \<in> set gs. in_range (g_ceiling g))"
proof (induction k arbitrary: n gs m)
  case (Suc k)
  obtain hs m' where h: "seed_near R k (n + 1) = (hs, m')" by fastforce
  have "\<bar>gauss_at R n (1 / 10)\<bar> \<le> 1" using Suc.prems(1) by (simp add: seeds_ok_def)
  then have "in_range (budget_baseline + gauss_at R n (1 / 10))"
    unfolding in_range_def budget_baseline_def budget_min_def budget_max_def by linarith
  with Suc.IH[OF Suc.prems(1) h] Suc.prems(2) h show ?case by auto
qed simp

lemma seed_wide_ok:
  "seeds_ok R \<Longrightarrow> seed_wide R k n = (gs, m) \<Longrightarrow> length gs = k \<and> (\<forall>g \<in> set gs. in_range (g_ceiling g))"
proof (induction k arbitrary: n gs m)
  case (Suc k)
  obtain hs m' where h: "seed_wide R k (n + 1) = (hs, m')" by fastforce
  have "0 \<le> unit_at R n" "unit_at R n \<le> 1" using Suc.prems(1) by (simp_all add: seeds_ok_def)
  then have "in_range (budget_min + (budget_max - budget_min) * unit_at R n)"
    unfolding in_range_def budget_min_def budget_max_def by (simp; linarith)
  with Suc.IH[OF Suc.prems(1) h] Suc.prems(2) h show ?case by auto
qed simp

lemma new_engine_ok: "seeds_ok R \<Longrightarrow> engine_ok (fst (new_engine R n))"
proof -
  assume R: "seeds_ok R"
  obtain near m where a: "seed_near R (population_size div 3) n = (near, m)" by fastforce
  obtain wide k where b: "seed_wide R (population_size - length near) m = (wide, k)" by fastforce
  from seed_near_ok[OF R a] seed_wide_ok[OF R b] a b show ?thesis
    by (auto simp: engine_ok_def new_engine_def seed_population_def population_size_def in_range_def
        budget_baseline_def budget_min_def budget_max_def)
qed

section \<open>Properties\<close>

text \<open>Whatever the random draws, a tick of the engine keeps its shape: twelve candidates, all
  ceilings including the announced one between 0.05 and 3.00, at most twenty history entries, six
  generations counted; and the ceiling it announces is, up to rounding to four decimals, at least as
  fit for the current traffic as every candidate it started from.\<close>

theorem tick_keeps_engine:
  assumes "engine_ok E" "tick R n dna E = (E', r, m)"
  shows "engine_ok E' \<and> r_ceiling r = current_ceiling E' \<and> generation_count E' = generation_count E + 6
    \<and> (\<exists>best. in_range best \<and> \<bar>r_ceiling r - best\<bar> \<le> 1 / 20000
        \<and> (\<forall>g \<in> set (population E). evaluate_fitness (g_ceiling g) dna \<le> evaluate_fitness best dna))"
  by (rule tick_engine[OF assms])

definition flat_engine :: engine where
  "flat_engine = \<lparr>current_ceiling = budget_baseline, generation_count = 0, last_dna = None,
     evolution_log = [], population = replicate population_size (fresh budget_baseline)\<rparr>"

definition quiet_rng :: rng where
  "quiet_rng = \<lparr>unit_at = (\<lambda>_. 1 / 2), gauss_at = (\<lambda>_ _. 0), pair_at = (\<lambda>_. (0, 1))\<rparr>"

lemma flat_engine_ok: "engine_ok flat_engine"
  by (simp add: engine_ok_def flat_engine_def in_range_def budget_baseline_def budget_min_def budget_max_def)

lemma tick_keeps_engine_witness:
  "engine_ok (fst (tick quiet_rng 0 (build_traffic_dna 1 10 40 False) flat_engine))"
  using tick_keeps_engine[OF flat_engine_ok, of quiet_rng 0 "build_traffic_dna 1 10 40 False"]
  by (cases "tick quiet_rng 0 (build_traffic_dna 1 10 40 False) flat_engine") auto

text \<open>The fitness function has its peak where the design says: at 0.05 under a flood of
  attacks, at 2.50 under critical legitimate load, at 2.00 otherwise, among all ceilings in the
  allowed range.\<close>

theorem fitness_peaks:
  assumes "in_range c"
  shows "evaluate_fitness c dna \<le> evaluate_fitness (if is_ddos_pattern dna then 5 / 100
    else if is_critical_load dna then 25 / 10 else 2) dna"
proof -
  consider (ddos) "is_ddos_pattern dna" | (critical) "\<not> is_ddos_pattern dna" "is_critical_load dna"
    | (normal) "\<not> is_ddos_pattern dna" "\<not> is_critical_load dna" by blast
  then show ?thesis
  proof cases
    case ddos
    have e: "exp (- (5 * (c - 1 / 20))) \<le> 1" using assms by (simp add: in_range_def budget_min_def)
    have "100 * exp (- (5 * (c - 1 / 20))) * (1 / 10) \<le> 100"
      using e exp_ge_zero[of "- (5 * (c - 1 / 20))"] by linarith
    with ddos e show ?thesis by (simp add: evaluate_fitness_def Let_def budget_min_def)
  next
    case critical
    let ?s = "100 * exp (- 3 * \<bar>c - 25 / 10\<bar>)"
    have s: "?s \<le> 100" "0 \<le> ?s" by simp_all
    have v: "evaluate_fitness c dna = max 0 (if c < budget_baseline then ?s * (4 / 10) else ?s)"
      unfolding evaluate_fitness_def Let_def using critical by (simp only: if_True if_False simp_thms)
    have "evaluate_fitness (25 / 10) dna = 100"
      using critical by (simp add: evaluate_fitness_def Let_def budget_baseline_def)
    moreover have "max 0 (if b then x * (4 / 10) else x) \<le> 100" if "x \<le> 100" "0 \<le> x" for x :: real and b
      using that by simp
    ultimately have "evaluate_fitness c dna \<le> evaluate_fitness (25 / 10) dna" using s v by metis
    with critical show ?thesis by simp
  next
    case normal
    let ?f = "\<lambda>x. 100 * exp (- 4 * (x - budget_baseline) ^ 2) - threat_ratio dna * 40 + system_health dna * 15"
    have v: "evaluate_fitness x dna = max 0 (?f x)" for x
      unfolding evaluate_fitness_def using normal by (simp only: if_False)
    have "exp (- 4 * (c - budget_baseline) ^ 2) \<le> exp (- 4 * (2 - budget_baseline) ^ 2)"
      by (simp add: budget_baseline_def)
    then have "?f c \<le> ?f 2" by linarith
    then have "max 0 (?f c) \<le> max 0 (?f 2)" by (rule max.mono[OF order_refl])
    with v have "evaluate_fitness c dna \<le> evaluate_fitness 2 dna" by metis
    with normal show ?thesis by (simp only: if_False)
  qed
qed

lemma fitness_peaks_witness:
  "evaluate_fitness 1 (build_traffic_dna 8 10 40 False) \<le> evaluate_fitness (5 / 100) (build_traffic_dna 8 10 40 False)"
  using fitness_peaks[of 1 "build_traffic_dna 8 10 40 False"]
  by (simp add: in_range_def budget_min_def budget_max_def build_traffic_dna_def Let_def)

text \<open>The fitness figures a tick reports are always zero: the six generations leave a population
  of newly made candidates whose fitness has not been evaluated.\<close>

theorem reported_fitness_is_zero:
  assumes "length (population E) = population_size" "tick R n dna E = (E', r, m)"
  shows "r_fitness_best r = 0 \<and> r_fitness_avg r = 0"
proof -
  from assms(2) obtain E1 best where
    e: "evolve_times generations R n dna (E\<lparr>last_dna := Some dna\<rparr>) (current_ceiling E) = (E1, best, m)"
    and r: "r_fitness_best r = py_round (fitness (population E1 ! 0)) 2"
      "r_fitness_avg r = py_round (sum_list (map fitness (population E1)) / real (length (population E1))) 2"
    by (rule tick_unfold)
  have ev: "evolved dna 6 (E\<lparr>last_dna := Some dna\<rparr>) E1 best"
    using evolve_times_step[OF e] assms(1) by (simp add: generations_def)
  note z = evolvedD(3)[OF ev] and l = evolvedD(1)[OF ev]
  have "map fitness (population E1) = replicate (length (population E1)) 0"
    using z by (intro replicate_eqI) auto
  moreover have "fitness (population E1 ! 0) = 0" using z l by (simp add: population_size_def)
  moreover have "py_round 0 2 = 0" by (simp add: py_round_def nearest_even_def)
  ultimately show ?thesis using r by (simp add: sum_list_replicate)
qed

lemma reported_fitness_is_zero_witness:
  "r_fitness_best (fst (snd (tick quiet_rng 0 (build_traffic_dna 1 10 40 False) flat_engine))) = 0"
  using reported_fitness_is_zero[of flat_engine quiet_rng 0 "build_traffic_dna 1 10 40 False"]
  by (cases "tick quiet_rng 0 (build_traffic_dna 1 10 40 False) flat_engine") (auto simp: flat_engine_def)

end
