(* ===== verification/Telemetry.thy ===== *)
theory Telemetry
  imports Genetic
begin

text \<open>
  The telemetry server (\<open>server_telemetry.py\<close>): it tails the log file, classifies every line, feeds the
  genetic budget engine, keeps the running spend under the evolved ceiling and caches what a newly
  connected dashboard is sent; \<open>/scan\<close> asks one of two model servers and appends to the same file.

  Clock readings and random draws are parameters (\<open>draws\<close>), the model servers are functions from the
  prompt to a \<open>llm_reply\<close>. The statements between two \<open>await\<close>s are one definition each
  (\<open>account_line\<close>, \<open>spend_line\<close>, \<open>cache_log\<close>, \<open>cache_event\<close>, \<open>publish_stats\<close>); a line and a scan are one step of
  the transition relation.
\<close>

section \<open>Data\<close>

datatype log_payload =
    Line_log (line_stamp: string) (line_raw: string) (line_sanitized: string) (line_injection: bool)
  | Scan_log (scan_stamp: string) (scan_raw: string) (scan_sanitized: string) (scan_blocked: bool)
      (scan_cost: real) (scan_latency: int)

text \<open>The \<open>tag\<close> entry of both payloads.\<close>

definition tag_of :: "bool \<Rightarrow> string" where
  "tag_of injection = (if injection then ''SECURITY_ALERT'' else ''PDP_ROUTED'')"

record event_payload =
  e_stamp :: string
  e_text :: string
  e_type :: string

record stats_payload =
  s_cpu :: int
  s_ram :: real
  s_disk :: real
  s_gate_latency :: int
  s_inference_latency :: int
  s_active_model :: string

datatype emit =
    Budget_genome tick_result
  | Budget_update real real
  | Log_event log_payload
  | System_event event_payload
  | Hardware_stats stats_payload

record telemetry =
  active_node_id :: string
  active_node_url :: string
  current_budget :: real
  ga_engine :: engine
  latest_genome_result :: tick_result
  recent_injection_times :: "real list"
  recent_events_window :: "bool list"
  log_history :: "log_payload list"
  system_events :: "event_payload list"
  latest_stats :: stats_payload
  log_file :: "string option"
  file_pointer :: nat

text \<open>What the clock and the random generator deliver while one line or scan is handled.\<close>

record draws =
  d_stamp :: string
  d_seen_at :: real
  d_now :: real
  d_unit :: real
  d_latency :: int
  d_spare_latency :: int
  d_gate :: int
  d_cpu :: int
  d_ram :: real
  d_disk :: real
  d_rng :: rng

section \<open>Classification\<close>

definition threat_keywords :: "string list" where
  "threat_keywords = [''ignore'', ''override'', ''rm -rf'', ''bypass'', ''hijack'', ''secrets'', ''keys'', ''password'']"

definition check_for_threat :: "string \<Rightarrow> bool" where
  "check_for_threat s = (let n = py_lower s in list_ex (\<lambda>k. contains k n) threat_keywords)"

text \<open>\<open>line.split("]", 2)[-1].strip()\<close>, or the whole line without a bracket.\<close>

definition message_of :: "string \<Rightarrow> string" where
  "message_of line = (case split_once (CHR '']'') line of
     None \<Rightarrow> line
   | Some (_, rest) \<Rightarrow> (case split_once (CHR '']'') rest of
       None \<Rightarrow> py_strip rest
     | Some (_, rest') \<Rightarrow> py_strip rest'))"

definition threat_description :: "string \<Rightarrow> string" where
  "threat_description msg = (let n = py_lower msg in
     if contains ''override'' n \<or> contains ''limit'' n then ''System Prompt Bypass''
     else if contains ''rm -rf'' n \<or> contains ''command'' n then ''Remote Code Execution attempt''
     else if contains ''hijack'' n \<or> contains ''bypass'' n then ''Safety Filter Bypass''
     else ''Policy Bypass Attempt'')"

definition sanitize :: "bool \<Rightarrow> string \<Rightarrow> string" where
  "sanitize injection msg = (if injection
     then ''[BLOCKED: Intercepted prompt injection threat ('' @ threat_description msg @ '')]''
     else msg)"

definition line_cost :: "bool \<Rightarrow> real \<Rightarrow> real" where
  "line_cost injection u = (if injection then 5 / 1000 else u * (5 / 100) + 1 / 100)"

section \<open>One log line\<close>

text \<open>\<open>deque(maxlen=k)\<close> and the explicit \<open>pop(0)\<close> of the caches.\<close>

definition bounded_append :: "nat \<Rightarrow> 'a list \<Rightarrow> 'a \<Rightarrow> 'a list" where
  "bounded_append k xs x = (let ys = xs @ [x] in drop (length ys - k) ys)"

definition append_pop :: "nat \<Rightarrow> 'a list \<Rightarrow> 'a \<Rightarrow> 'a list" where
  "append_pop k xs x = (let ys = xs @ [x] in if k < length ys then tl ys else ys)"

definition count_true :: "bool list \<Rightarrow> nat" where
  "count_true bs = length (filter id bs)"

definition recent_burst :: "real \<Rightarrow> real list \<Rightarrow> bool" where
  "recent_burst now ts \<longleftrightarrow> 3 \<le> length (filter (\<lambda>t. now - t < 10) ts)"

definition dna_of :: "real \<Rightarrow> telemetry \<Rightarrow> traffic_dna" where
  "dna_of now S = build_traffic_dna (count_true (recent_events_window S)) (length (recent_events_window S))
     (of_int (s_cpu (latest_stats S))) (recent_burst now (recent_injection_times S))"

definition note_event :: "draws \<Rightarrow> bool \<Rightarrow> telemetry \<Rightarrow> telemetry" where
  "note_event d injection S =
     S\<lparr>recent_events_window := bounded_append 15 (recent_events_window S) injection,
       recent_injection_times := (if injection
         then bounded_append 20 (recent_injection_times S) (d_seen_at d) else recent_injection_times S)\<rparr>"

definition account_line :: "draws \<Rightarrow> bool \<Rightarrow> telemetry \<Rightarrow> telemetry \<times> tick_result" where
  "account_line d injection S =
     (let S1 = note_event d injection S in
      case tick (d_rng d) 0 (dna_of (d_now d) S1) (ga_engine S1) of
        (E, r, _) \<Rightarrow> (S1\<lparr>ga_engine := E, latest_genome_result := r\<rparr>, r))"

definition spend_line :: "real \<Rightarrow> real \<Rightarrow> telemetry \<Rightarrow> telemetry" where
  "spend_line cap c S = S\<lparr>current_budget := min cap (current_budget S + c)\<rparr>"

definition cache_log :: "log_payload \<Rightarrow> telemetry \<Rightarrow> telemetry" where
  "cache_log p S = S\<lparr>log_history := append_pop 50 (log_history S) p\<rparr>"

definition cache_event :: "event_payload \<Rightarrow> telemetry \<Rightarrow> telemetry" where
  "cache_event p S = S\<lparr>system_events := append_pop 50 (system_events S) p\<rparr>"

definition publish_stats :: "stats_payload \<Rightarrow> telemetry \<Rightarrow> telemetry" where
  "publish_stats p S = S\<lparr>latest_stats := p\<rparr>"

definition model_name :: "bool \<Rightarrow> string" where
  "model_name injection = (if injection then ''Llama-3-8B (Escalated)'' else ''DeepSeek-1.5B (Local)'')"

definition line_event :: "string \<Rightarrow> bool \<Rightarrow> event_payload" where
  "line_event stamp injection = \<lparr>e_stamp = stamp,
     e_text = (if injection then ''PDP Decision: Blocked injection threat at Gateway [Node 04]''
       else ''Router: Query verified. Sanitized output generated [Node 02]''),
     e_type = (if injection then ''danger'' else ''info'')\<rparr>"

definition stats_of :: "draws \<Rightarrow> int \<Rightarrow> bool \<Rightarrow> stats_payload" where
  "stats_of d latency injection = \<lparr>s_cpu = d_cpu d, s_ram = d_ram d, s_disk = d_disk d,
     s_gate_latency = d_gate d, s_inference_latency = latency, s_active_model = model_name injection\<rparr>"

definition budget_update_of :: "telemetry \<Rightarrow> real \<Rightarrow> emit" where
  "budget_update_of S cap = Budget_update (py_round (current_budget S) 4) cap"

definition process_line :: "draws \<Rightarrow> string \<Rightarrow> telemetry \<Rightarrow> telemetry \<times> emit list" where
  "process_line d raw S =
     (let line = py_strip raw in
      if line = [] then (S, []) else
      let injection = check_for_threat line;
          stamp = ''['' @ d_stamp d @ '']'';
          msg = message_of line;
          payload = Line_log stamp msg (sanitize injection msg) injection;
          event = line_event stamp injection;
          stats = stats_of d (if 0 < d_latency d then d_latency d else d_spare_latency d) injection
      in case account_line d injection S of (S1, r) \<Rightarrow>
      let S2 = spend_line (r_ceiling r) (line_cost injection (d_unit d)) S1;
          S3 = cache_log payload S2; S4 = cache_event event S3; S5 = publish_stats stats S4
      in (S5, [Budget_genome r, budget_update_of S2 (py_round (r_ceiling r) 4), Log_event payload,
           System_event event, Hardware_stats stats]))"

section \<open>The tail loop\<close>

text \<open>The lines \<open>readlines\<close> yields, cut at either line terminator; the blank pieces this adds are
  dropped by \<open>process_line\<close> like every blank line.\<close>

fun lines_of :: "string \<Rightarrow> string list" where
  "lines_of [] = [[]]"
| "lines_of (c # s) = (if c = CHR 0x0A \<or> c = CHR 0x0D then [] # lines_of s
     else (case lines_of s of [] \<Rightarrow> [[c]] | l # ls \<Rightarrow> (c # l) # ls))"

fun process_lines :: "(nat \<Rightarrow> draws) \<Rightarrow> nat \<Rightarrow> string list \<Rightarrow> telemetry \<Rightarrow> telemetry \<times> emit list" where
  "process_lines ds n [] S = (S, [])"
| "process_lines ds n (l # ls) S = (case process_line (ds n) l S of (S1, es) \<Rightarrow>
     case process_lines ds (n + 1) ls S1 of (S2, es') \<Rightarrow> (S2, es @ es'))"

definition start_pointer :: "string \<Rightarrow> nat" where
  "start_pointer content = length content - 5000"

text \<open>What one round of the loop reads, and where it leaves the pointer.\<close>

definition poll_read :: "string option \<Rightarrow> nat \<Rightarrow> string \<times> nat" where
  "poll_read file p = (case file of None \<Rightarrow> ([], p)
   | Some content \<Rightarrow> (let p' = (if length content < p then 0 else p) in
       if p' < length content then (drop p' content, length content) else ([], p')))"

definition poll :: "(nat \<Rightarrow> draws) \<Rightarrow> telemetry \<Rightarrow> telemetry \<times> emit list" where
  "poll ds S = (case poll_read (log_file S) (file_pointer S) of (text, p) \<Rightarrow>
     process_lines ds 0 (lines_of text) (S\<lparr>file_pointer := p\<rparr>))"

section \<open>Prompt scans\<close>

text \<open>A model server raises, or answers with the contents of its choices.\<close>

datatype llm_reply = Llm_error | Llm_reply "string option list"

definition ask :: "(string \<Rightarrow> llm_reply) \<Rightarrow> string \<Rightarrow> string option option" where
  "ask server prompt = (case server prompt of Llm_error \<Rightarrow> None
     | Llm_reply [] \<Rightarrow> None | Llm_reply (c # _) \<Rightarrow> Some c)"

definition set_node :: "string \<Rightarrow> string \<Rightarrow> telemetry \<Rightarrow> telemetry" where
  "set_node i u S = S\<lparr>active_node_id := i, active_node_url := u\<rparr>"

definition execute_llm_query ::
  "(string \<Rightarrow> llm_reply) \<Rightarrow> (string \<Rightarrow> llm_reply) \<Rightarrow> string \<Rightarrow> telemetry \<Rightarrow>
    telemetry \<times> string option \<times> string \<times> string" where
  "execute_llm_query primary backup prompt S =
     (let answer = (\<lambda>S c. (S, c, active_node_id S, active_node_url S)) in
      case ask primary prompt of
        Some c \<Rightarrow> answer (set_node ''Node_1_Primary'' ''http://127.0.0.1:8080/v1'' S) c
      | None \<Rightarrow> (case ask backup prompt of
          Some c \<Rightarrow> answer (set_node ''Node_2_Backup (FAILOVER)'' ''http://127.0.0.1:8081/v1'' S) c
        | None \<Rightarrow> answer (set_node ''Internal_Gateway_Shield (FALLBACK)'' ''Local System Loop'' S)
            (Some ''Internal Gateway Fallback: Safe offline verification output.'')))"

record scan_response =
  sr_blocked :: bool
  sr_response :: string
  sr_latency :: int
  sr_cost :: real

text \<open>The answer part of \<open>/scan\<close>: response text, cost and latency. A missing content prints as
  \<open>None\<close>; \<open>execute_llm_query\<close> returns on every path, so the handler's own fallback is not reached.\<close>

definition scan_answer ::
  "(string \<Rightarrow> llm_reply) \<Rightarrow> (string \<Rightarrow> llm_reply) \<Rightarrow> draws \<Rightarrow> string \<Rightarrow> telemetry \<Rightarrow>
    telemetry \<times> string \<times> real \<times> int" where
  "scan_answer primary backup d prompt S =
     (if check_for_threat prompt
      then (S, ''ACCESS DENIED. Secure policy violation detected at gateway.'', 5 / 1000, 2)
      else (case execute_llm_query primary backup prompt S of (S1, c, node, _) \<Rightarrow>
        (S1, ''['' @ node @ ''] '' @ (case c of None \<Rightarrow> ''None'' | Some t \<Rightarrow> t),
         1 / 100 + (3 / 100 - 1 / 100) * d_unit d, d_latency d)))"

definition scan_log_line :: "string \<Rightarrow> bool \<Rightarrow> string \<Rightarrow> string \<Rightarrow> string" where
  "scan_log_line stamp injection prompt text =
     ''['' @ stamp @ ''] ['' @ (if injection then ''SECURITY_ALERT'' else ''AGENT_INPUT'') @ ''] Prompt: ''
       @ prompt @ '' | Output: '' @ text"

definition append_file :: "string \<Rightarrow> telemetry \<Rightarrow> telemetry" where
  "append_file t S = S\<lparr>log_file := Some ((case log_file S of None \<Rightarrow> [] | Some c \<Rightarrow> c) @ t)\<rparr>"

definition push_event :: "event_payload \<Rightarrow> telemetry \<Rightarrow> telemetry" where
  "push_event p S = S\<lparr>system_events := system_events S @ [p]\<rparr>"

definition scan_prompt ::
  "(string \<Rightarrow> llm_reply) \<Rightarrow> (string \<Rightarrow> llm_reply) \<Rightarrow> draws \<Rightarrow> string \<Rightarrow> telemetry \<Rightarrow>
    telemetry \<times> emit list \<times> scan_response" where
  "scan_prompt primary backup d prompt S =
     (let injection = check_for_threat prompt in
      case scan_answer primary backup d prompt S of (S1, text, c, l) \<Rightarrow>
      let S2 = spend_line 2 c S1;
          S3 = append_file (scan_log_line (d_stamp d) injection prompt text @ [CHR 0x0A]) S2;
          payload = Scan_log (d_stamp d) prompt
            (if injection then ''[BLOCKED: Intercepted prompt injection threat]'' else prompt) injection c l;
          S4 = cache_log payload S3;
          event = \<lparr>e_stamp = d_stamp d, e_text = ''Gateway: Scanned manual prompt from dashboard'',
            e_type = (if injection then ''danger'' else ''info'')\<rparr>;
          S5 = push_event event S4;
          stats = stats_of d l injection;
          S6 = publish_stats stats S5
      in (S6, [budget_update_of S2 (r_ceiling (latest_genome_result S2)), Log_event payload,
           System_event event, Hardware_stats stats],
          \<lparr>sr_blocked = injection, sr_response = text, sr_latency = l, sr_cost = c\<rparr>))"

text \<open>What a newly connected dashboard is sent.\<close>

definition connect :: "telemetry \<Rightarrow> emit list" where
  "connect S = [budget_update_of S (r_ceiling (latest_genome_result S)), Hardware_stats (latest_stats S),
     Budget_genome (latest_genome_result S)] @ map Log_event (log_history S) @ map System_event (system_events S)"

section \<open>Start-up and steps\<close>

definition initial_genome_result :: tick_result where
  "initial_genome_result = \<lparr>r_ceiling = 2, r_prev_ceiling = 2, r_delta = 0, r_mode = Stable_Baseline,
     r_generation = 0, r_fitness_best = 0, r_fitness_avg = 0,
     r_dna = \<lparr>threat_ratio = 0, cpu_usage = 0, request_rate = 0, system_health = 1,
       is_ddos_pattern = False, is_critical_load = False\<rparr>\<rparr>"

definition start_telemetry :: "rng \<Rightarrow> string \<Rightarrow> telemetry" where
  "start_telemetry R content = \<lparr>active_node_id = ''Node_1_Primary'', active_node_url = ''http://127.0.0.1:8080/v1'',
     current_budget = 42 / 100, ga_engine = fst (new_engine R 0), latest_genome_result = initial_genome_result,
     recent_injection_times = [], recent_events_window = [], log_history = [], system_events = [],
     latest_stats = \<lparr>s_cpu = 40, s_ram = 54 / 10, s_disk = 8 / 10, s_gate_latency = 10,
       s_inference_latency = 25, s_active_model = ''DeepSeek-1.5B (Local)''\<rparr>,
     log_file = Some content, file_pointer = start_pointer content\<rparr>"

text \<open>The ranges of the random calls the properties rely on: every \<open>cpu\<close> figure is drawn below 76,
  \<open>random()\<close> is not negative.\<close>

definition draws_ok :: "draws \<Rightarrow> bool" where
  "draws_ok d \<longleftrightarrow> d_cpu d \<le> 75 \<and> 0 \<le> d_unit d"

text \<open>A round of the loop, a scan, or another process changing the log file.\<close>

inductive telemetry_step :: "telemetry \<Rightarrow> telemetry \<Rightarrow> bool" where
  poll: "(\<And>n. draws_ok (ds n)) \<Longrightarrow> telemetry_step S (fst (poll ds S))"
| scan: "draws_ok d \<Longrightarrow> telemetry_step S (fst (scan_prompt primary backup d prompt S))"
| edit: "telemetry_step S (S\<lparr>log_file := f\<rparr>)"

section \<open>Lemmas\<close>

lemma bounded_append_length [simp]: "length (bounded_append k xs x) \<le> k"
  by (simp add: bounded_append_def Let_def)

lemma append_pop_length: "length xs \<le> k \<Longrightarrow> length (append_pop k xs x) \<le> k"
  by (simp add: append_pop_def Let_def)

text \<open>What every reachable state satisfies.\<close>

definition telemetry_ok :: "telemetry \<Rightarrow> bool" where
  "telemetry_ok S \<longleftrightarrow> engine_ok (ga_engine S) \<and> length (recent_events_window S) \<le> 15
     \<and> length (recent_injection_times S) \<le> 20 \<and> length (log_history S) \<le> 50
     \<and> 0 \<le> current_budget S \<and> current_budget S \<le> 3 \<and> s_cpu (latest_stats S) \<le> 75
     \<and> r_mode (latest_genome_result S) \<noteq> Survival_Expansion"

lemma no_critical_load:
  "cpu \<le> 75 \<Longrightarrow> mode_of (build_traffic_dna t n (of_int cpu) b) \<noteq> Survival_Expansion"
  by (simp add: mode_of_def build_traffic_dna_def Let_def)

lemma account_line_ok:
  assumes "telemetry_ok S" "account_line d injection S = (S', r)"
  shows "telemetry_ok S' \<and> r = latest_genome_result S' \<and> in_range (r_ceiling r) \<and> r_mode r \<noteq> Survival_Expansion"
proof -
  let ?S = "note_event d injection S"
  obtain E r' m where t: "tick (d_rng d) 0 (dna_of (d_now d) ?S) (ga_engine ?S) = (E, r', m)"
    by (cases "tick (d_rng d) 0 (dna_of (d_now d) ?S) (ga_engine ?S)") auto
  from assms(2) t have S': "S' = ?S\<lparr>ga_engine := E, latest_genome_result := r'\<rparr>" and r: "r = r'"
    by (auto simp: account_line_def Let_def)
  have eng: "engine_ok (ga_engine ?S)" and win: "length (recent_injection_times ?S) \<le> 20"
    using assms(1) by (simp_all add: telemetry_ok_def note_event_def)
  have cpu: "s_cpu (latest_stats ?S) \<le> 75" using assms(1) by (simp add: telemetry_ok_def note_event_def)
  from tick_engine[OF eng t] have e: "engine_ok E" "r_ceiling r' = current_ceiling E" by blast+
  have mode: "r_mode r' \<noteq> Survival_Expansion"
    using tick_mode[OF t] no_critical_load[OF cpu] by (simp add: dna_of_def)
  have "in_range (r_ceiling r')" using e by (simp add: engine_ok_def)
  moreover have "telemetry_ok S'"
    using assms(1) e(1) win mode by (simp add: telemetry_ok_def S' note_event_def)
  ultimately show ?thesis using mode by (simp add: S' r)
qed

lemma spend_line_ok:
  "telemetry_ok S \<Longrightarrow> 0 \<le> cap \<Longrightarrow> cap \<le> 3 \<Longrightarrow> 0 \<le> c \<Longrightarrow> telemetry_ok (spend_line cap c S)"
  by (auto simp: telemetry_ok_def spend_line_def)

lemma cache_ok:
  "telemetry_ok S \<Longrightarrow> telemetry_ok (cache_log p S)"
  "telemetry_ok S \<Longrightarrow> telemetry_ok (cache_event e S)"
  "telemetry_ok S \<Longrightarrow> telemetry_ok (push_event e S)"
  "telemetry_ok S \<Longrightarrow> s_cpu st \<le> 75 \<Longrightarrow> telemetry_ok (publish_stats st S)"
  by (simp_all add: telemetry_ok_def cache_log_def cache_event_def push_event_def publish_stats_def append_pop_length)

lemma file_ok [simp]:
  "telemetry_ok (S\<lparr>log_file := f\<rparr>) = telemetry_ok S" "telemetry_ok (S\<lparr>file_pointer := p\<rparr>) = telemetry_ok S"
  "telemetry_ok (append_file t S) = telemetry_ok S" "telemetry_ok (set_node i u S) = telemetry_ok S"
  by (simp_all add: telemetry_ok_def append_file_def set_node_def)

lemma line_cost_nonneg: "0 \<le> u \<Longrightarrow> 0 \<le> line_cost b u"
  by (simp add: line_cost_def)

text \<open>A non-blank line, in terms of the accounting it starts with.\<close>

lemma process_line_cases:
  obtains (blank) "py_strip raw = []" "process_line d raw S = (S, [])"
  | (line) S1 r st where "py_strip raw \<noteq> []"
      "account_line d (check_for_threat (py_strip raw)) S = (S1, r)"
      "s_cpu st = d_cpu d"
      "fst (process_line d raw S) = publish_stats st (cache_event
         (line_event (''['' @ d_stamp d @ '']'') (check_for_threat (py_strip raw)))
         (cache_log (Line_log (''['' @ d_stamp d @ '']'') (message_of (py_strip raw))
           (sanitize (check_for_threat (py_strip raw)) (message_of (py_strip raw)))
           (check_for_threat (py_strip raw)))
         (spend_line (r_ceiling r) (line_cost (check_for_threat (py_strip raw)) (d_unit d)) S1)))"
      "hd (snd (process_line d raw S)) = Budget_genome r"
proof (cases "py_strip raw = []")
  case True
  with blank show ?thesis by (simp add: process_line_def Let_def)
next
  case False
  obtain S1 r where a: "account_line d (check_for_threat (py_strip raw)) S = (S1, r)" by fastforce
  let ?st = "stats_of d (if 0 < d_latency d then d_latency d else d_spare_latency d) (check_for_threat (py_strip raw))"
  show ?thesis
    by (rule line[of S1 r ?st]) (use False a in \<open>simp_all add: process_line_def Let_def stats_of_def\<close>)
qed

lemma process_line_ok:
  assumes "telemetry_ok S" "draws_ok d" shows "telemetry_ok (fst (process_line d raw S))"
proof (cases d raw S rule: process_line_cases)
  case (line S1 r st)
  have a: "telemetry_ok S1" "in_range (r_ceiling r)" using account_line_ok[OF assms(1) line(2)] by blast+
  have "telemetry_ok (spend_line (r_ceiling r) (line_cost (check_for_threat (py_strip raw)) (d_unit d)) S1)"
    using a assms(2) by (intro spend_line_ok line_cost_nonneg)
      (simp_all add: in_range_def budget_min_def budget_max_def draws_ok_def)
  then show ?thesis using line(3) assms(2) by (simp add: line(4) cache_ok draws_ok_def)
qed (use assms in simp)

lemma process_lines_ok:
  assumes "\<And>n. draws_ok (ds n)" shows "telemetry_ok S \<Longrightarrow> telemetry_ok (fst (process_lines ds n ls S))"
proof (induction ls arbitrary: n S)
  case (Cons l ls)
  from Cons.IH[OF process_line_ok[OF Cons.prems assms]] show ?case
    by (simp add: split_beta)
qed simp

lemma scan_answer_ok:
  assumes "telemetry_ok S" "0 \<le> d_unit d" "scan_answer primary backup d prompt S = (S1, t, c, l)"
  shows "telemetry_ok S1 \<and> 0 \<le> c"
  using assms
  by (auto simp: scan_answer_def execute_llm_query_def Let_def split: if_splits option.splits)

lemma scan_prompt_ok:
  assumes "telemetry_ok S" "draws_ok d"
  shows "telemetry_ok (fst (scan_prompt primary backup d prompt S))"
proof -
  obtain S1 t c l where a: "scan_answer primary backup d prompt S = (S1, t, c, l)"
    by (cases "scan_answer primary backup d prompt S") auto
  have ok: "telemetry_ok S1" "0 \<le> c" using scan_answer_ok[OF assms(1) _ a] assms(2) by (simp_all add: draws_ok_def)
  have "telemetry_ok (spend_line 2 c S1)" by (rule spend_line_ok) (use ok in simp_all)
  with a assms(2) show ?thesis by (simp add: scan_prompt_def Let_def cache_ok stats_of_def draws_ok_def)
qed

lemma telemetry_step_ok: "telemetry_step S S' \<Longrightarrow> telemetry_ok S \<Longrightarrow> telemetry_ok S'"
  by (induction rule: telemetry_step.induct)
    (simp_all add: poll_def split_beta process_lines_ok scan_prompt_ok)

lemma start_telemetry_ok: "seeds_ok R \<Longrightarrow> telemetry_ok (start_telemetry R content)"
  by (simp add: telemetry_ok_def start_telemetry_def new_engine_ok initial_genome_result_def)

lemma lower_blank: "is_space (lower_char c) = is_space c"
  by (auto simp: is_space_def lower_char_def Let_def)

text \<open>A keyword survives a longer context, and stripping when it neither starts nor ends with a blank.\<close>

lemma contains_context: "contains k s \<Longrightarrow> contains k (a @ s @ b)"
proof -
  assume "contains k s"
  then obtain x y where "s = x @ k @ y" by (auto simp: contains_iff)
  then have "a @ s @ b = (a @ x) @ k @ (y @ b)" by simp
  then show ?thesis unfolding contains_iff by blast
qed

lemma threat_context: "check_for_threat s \<Longrightarrow> check_for_threat (a @ s @ b)"
  unfolding check_for_threat_def Let_def list_ex_iff py_lower_append using contains_context by blast

lemma strip_between:
  assumes "\<not> is_space x" "\<not> is_space y"
  shows "py_strip (x # s @ [y]) = x # s @ [y]"
  using assms by (simp add: py_strip_def py_lstrip_def py_rstrip_def)

lemma lines_of_single: "CHR 0x0A \<notin> set s \<Longrightarrow> CHR 0x0D \<notin> set s \<Longrightarrow> lines_of (s @ [CHR 0x0A]) = [s, []]"
  by (induction s) auto

text \<open>What a sequence of rounds reads in total.\<close>

fun read_all :: "string list \<Rightarrow> nat \<Rightarrow> string" where
  "read_all [] p = []"
| "read_all (c # cs) p = (case poll_read (Some c) p of (t, p') \<Rightarrow> t @ read_all cs p')"

fun grows :: "string \<Rightarrow> string list \<Rightarrow> bool" where
  "grows c [] = True"
| "grows c (d # ds) = (take (length c) d = c \<and> grows d ds)"

lemma poll_read_grown: "p \<le> length c \<Longrightarrow> poll_read (Some c) p = (drop p c, length c)"
  by (auto simp: poll_read_def Let_def)

lemma take_length_le: "take (length c) d = c \<Longrightarrow> length c \<le> length d"
  by (metis nat_le_linear take_all)

lemma grows_last: "grows c ds \<Longrightarrow> take (length c) (last (c # ds)) = c"
proof (induction ds arbitrary: c)
  case (Cons d ds)
  then have d: "take (length c) d = c" "take (length d) (last (d # ds)) = d" by simp_all
  with take_length_le[OF d(1)] show ?case
    by (metis last_ConsR list.distinct(1) min.absorb1 take_take)
qed simp

lemma read_all_grown:
  "p \<le> length c \<Longrightarrow> grows c ds \<Longrightarrow> read_all (c # ds) p = drop p (last (c # ds))"
proof (induction ds arbitrary: c p)
  case Nil
  then show ?case by (simp add: poll_read_grown)
next
  case (Cons d ds)
  have d: "take (length c) d = c" "grows d ds" using Cons.prems(2) by simp_all
  have "read_all (d # ds) (length c) = drop (length c) (last (d # ds))"
    by (rule Cons.IH[OF take_length_le[OF d(1)] d(2)])
  moreover have "take (length c) (last (d # ds)) = c" using grows_last[OF Cons.prems(2)] by simp
  then have "drop p (last (d # ds)) = drop p c @ drop (length c) (last (d # ds))"
    using Cons.prems(1) by (metis append_take_drop_id drop_append diff_is_0_eq drop0)
  ultimately show ?case by (simp add: poll_read_grown[OF Cons.prems(1)])
qed

definition quiet_draws :: draws where
  "quiet_draws = \<lparr>d_stamp = ''2026-07-01 10:00:00'', d_seen_at = 0, d_now = 0, d_unit = 1 / 2,
     d_latency = 20, d_spare_latency = 30, d_gate = 7, d_cpu = 40, d_ram = 5, d_disk = 1, d_rng = quiet_rng\<rparr>"

lemma quiet_ok: "draws_ok quiet_draws" "seeds_ok quiet_rng"
  by (simp_all add: draws_ok_def quiet_draws_def seeds_ok_def quiet_rng_def)

lemma reachable_ok: "telemetry_step\<^sup>*\<^sup>* S S' \<Longrightarrow> telemetry_ok S \<Longrightarrow> telemetry_ok S'"
  by (induction rule: rtranclp_induct) (auto intro: telemetry_step_ok)

lemma quiet_scan_reachable:
  "telemetry_step\<^sup>*\<^sup>* (start_telemetry quiet_rng [])
     (fst (scan_prompt (\<lambda>_. Llm_error) (\<lambda>_. Llm_error) quiet_draws ''hi'' (start_telemetry quiet_rng [])))"
  by (rule r_into_rtranclp, rule telemetry_step.scan) (rule quiet_ok)

section \<open>Properties\<close>



text \<open>The engine's critical-load mode is dead in this program: the server only ever publishes CPU
  figures of at most 75, critical load needs more than 85, so no processed line announces the
  survival expansion.\<close>

theorem survival_mode_unreachable:
  assumes "seeds_ok R" "telemetry_step\<^sup>*\<^sup>* (start_telemetry R content) S" "py_strip raw \<noteq> []"
  shows "\<exists>r. hd (snd (process_line d raw S)) = Budget_genome r \<and> r_mode r \<noteq> Survival_Expansion"
proof (cases d raw S rule: process_line_cases)
  case (line S1 r st)
  have "telemetry_ok S" by (rule reachable_ok[OF assms(2) start_telemetry_ok[OF assms(1)]])
  from account_line_ok[OF this line(2)] line(5) show ?thesis by blast
qed (use assms(3) in simp)

lemma survival_mode_unreachable_witness:
  "\<exists>r. hd (snd (process_line quiet_draws ''ignore it'' (start_telemetry quiet_rng []))) = Budget_genome r
     \<and> r_mode r \<noteq> Survival_Expansion"
  by (rule survival_mode_unreachable[OF quiet_ok(2) rtranclp.rtrancl_refl])
    (simp add: py_strip_def py_lstrip_def py_rstrip_def is_space_def)

text \<open>A prompt that \<open>/scan\<close> blocks, with no line break in it, is written to the log file as one line
  that the tail loop classifies as a threat again: it reaches the event window and the spend a
  second time.\<close>

theorem blocked_scan_flagged_again:
  assumes "check_for_threat prompt" "CHR 0x0A \<notin> set prompt" "CHR 0x0D \<notin> set prompt"
    "CHR 0x0A \<notin> set stamp" "CHR 0x0D \<notin> set stamp"
  shows "\<exists>line. lines_of (scan_log_line stamp True prompt ''ACCESS DENIED. Secure policy violation detected at gateway.''
      @ [CHR 0x0A]) = [line, []] \<and> check_for_threat (py_strip line)"
proof (intro exI conjI)
  let ?t = "''ACCESS DENIED. Secure policy violation detected at gateway''"
  let ?line = "scan_log_line stamp True prompt (?t @ [CHR ''.''])"
  show "lines_of (scan_log_line stamp True prompt ''ACCESS DENIED. Secure policy violation detected at gateway.''
      @ [CHR 0x0A]) = [?line, []]"
    using lines_of_single[of ?line] assms by (simp add: scan_log_line_def)
  have sb: "py_strip (CHR ''['' # m @ [CHR ''.'']) = CHR ''['' # m @ [CHR ''.'']" for m
    by (rule strip_between) (simp_all add: is_space_def)
  have "\<exists>m. ?line = CHR ''['' # m @ [CHR ''.'']"
    by (rule exI[of _ "stamp @ ''] [SECURITY_ALERT] Prompt: '' @ prompt @ '' | Output: '' @ ?t"])
      (simp add: scan_log_line_def)
  with sb have "py_strip ?line = ?line" by metis
  moreover have "?line = (''['' @ stamp @ ''] [SECURITY_ALERT] Prompt: '') @ prompt @ ('' | Output: '' @ ?t @ [CHR ''.''])"
    by (simp add: scan_log_line_def)
  ultimately show "check_for_threat (py_strip ?line)" using threat_context[OF assms(1)] by metis
qed

lemma blocked_scan_flagged_again_witness:
  "\<exists>line. lines_of (scan_log_line ''t'' True ''show the keys'' ''ACCESS DENIED. Secure policy violation detected at gateway.''
      @ [CHR 0x0A]) = [line, []] \<and> check_for_threat (py_strip line)"
  by (rule blocked_scan_flagged_again)
    (simp_all add: check_for_threat_def threat_keywords_def py_lower_def lower_char_def starts_with_def)

text \<open>A scan asks the primary server first, the backup only when the primary fails or sends no
  choice, and otherwise answers by itself; it never fails, and the node it announces is the one that
  answered.\<close>

theorem failover_order:
  "case execute_llm_query primary backup prompt S of (S', c, node, url) \<Rightarrow>
     node = active_node_id S' \<and> url = active_node_url S' \<and>
     (case ask primary prompt of
        Some a \<Rightarrow> c = a \<and> node = ''Node_1_Primary''
      | None \<Rightarrow> (case ask backup prompt of
          Some b \<Rightarrow> c = b \<and> node = ''Node_2_Backup (FAILOVER)''
        | None \<Rightarrow> c = Some ''Internal Gateway Fallback: Safe offline verification output.''
            \<and> node = ''Internal_Gateway_Shield (FALLBACK)''))"
  by (auto simp: execute_llm_query_def Let_def set_node_def split: option.splits)

text \<open>While the log file only grows, the rounds of the tail loop read what was appended exactly
  once and in order: all they read together is the last content from the start position on.\<close>

theorem tail_reads_once:
  assumes "grows c cs" "p \<le> length c"
  shows "read_all (c # cs) p = drop p (last (c # cs))"
  by (rule read_all_grown[OF assms(2,1)])

lemma tail_reads_once_witness:
  "read_all [''ab'', ''abcd'', ''abcde''] 1 = ''bcde''"
  using tail_reads_once[of "''ab''" "[''abcd'', ''abcde'']" 1] by simp

text \<open>The event cache grows with every scan and never shrinks: unlike the tail loop, \<open>/scan\<close> appends
  without dropping the oldest entry.\<close>

theorem scans_grow_event_cache:
  "length (system_events (fst (scan_prompt primary backup d prompt S))) = length (system_events S) + 1 \<and>
   length (system_events S) \<le> length (system_events (fst (process_line d raw S)))"
proof -
  have "system_events (fst (scan_answer primary backup d prompt S)) = system_events S"
    by (auto simp: scan_answer_def execute_llm_query_def set_node_def Let_def split: option.splits)
  then have "length (system_events (fst (scan_prompt primary backup d prompt S))) = length (system_events S) + 1"
    by (auto simp: scan_prompt_def Let_def split_beta spend_line_def append_file_def cache_log_def push_event_def publish_stats_def)
  moreover have "length (system_events S) \<le> length (system_events (fst (process_line d raw S)))"
  proof (cases d raw S rule: process_line_cases)
    case (line S1 r st)
    have "system_events S1 = system_events S"
      using line(2) by (auto simp: account_line_def note_event_def Let_def split: prod.splits)
    then show ?thesis
      by (simp add: line(4) publish_stats_def cache_event_def cache_log_def spend_line_def append_pop_def Let_def)
  qed simp
  ultimately show ?thesis by simp
qed

text \<open>What the dashboard shows as the sanitised text of a flagged line is one of four fixed
  messages, whatever the line says; an unflagged line is shown as it is.\<close>

theorem sanitized_text:
  assumes "py_strip raw \<noteq> []" "length (log_history S) \<le> 50"
  shows "\<exists>p. last (log_history (fst (process_line d raw S))) = p \<and> line_injection p = check_for_threat (py_strip raw)
    \<and> (if check_for_threat (py_strip raw)
       then \<exists>k \<in> {''System Prompt Bypass'', ''Remote Code Execution attempt'', ''Safety Filter Bypass'',
          ''Policy Bypass Attempt''}. line_sanitized p = ''[BLOCKED: Intercepted prompt injection threat ('' @ k @ '')]''
       else line_sanitized p = message_of (py_strip raw))"
proof (cases d raw S rule: process_line_cases)
  case (line S1 r st)
  have last: "last (append_pop 50 xs p) = p" for xs and p :: log_payload
    by (cases xs) (auto simp: append_pop_def Let_def)
  have "threat_description m \<in> {''System Prompt Bypass'', ''Remote Code Execution attempt'',
      ''Safety Filter Bypass'', ''Policy Bypass Attempt''}" for m
    by (simp add: threat_description_def Let_def)
  then show ?thesis
    by (auto simp: line(4) publish_stats_def cache_event_def cache_log_def last sanitize_def)
qed (use assms in simp)

lemma sanitized_text_witness:
  "line_injection (last (log_history (fst (process_line quiet_draws ''ignore it'' (start_telemetry quiet_rng [])))))"
  using sanitized_text[of "''ignore it''" "start_telemetry quiet_rng []" quiet_draws]
  by (auto simp: py_strip_def py_lstrip_def py_rstrip_def is_space_def start_telemetry_def
      check_for_threat_def threat_keywords_def py_lower_def lower_char_def starts_with_def)

end
