(* ===== verification/Log_Reader.thy ===== *)
theory Log_Reader
  imports Telemetry
begin

text \<open>
  The two other readers of the log file: the MCP tool that hands new lines to the agent
  (\<open>mcp_log_reader/__main__.py\<close>) and the older dashboard bridge (\<open>socket_bridge.py\<close>). File positions
  count characters, the files are ASCII.
\<close>

section \<open>The MCP log reader\<close>

definition missing_log_text :: string where
  "missing_log_text = ''Error: Log file logs_stream.log does not exist yet. Please run the mock_log_generator first.''"

definition no_new_logs_text :: string where
  "no_new_logs_text = ''No new logs found since the last check.''"

text \<open>A call of the tool on the file and the last position: a \<open>ValueError\<close> message or the reply, and
  the new position. Reading past the end yields nothing and leaves the position where it was.\<close>

definition handle_call_tool :: "string \<Rightarrow> string option \<Rightarrow> nat \<Rightarrow> (string, string) result \<times> nat" where
  "handle_call_tool name file p =
     (if name \<noteq> ''read_new_logs'' then (Inl (''Unknown tool: '' @ name), p)
      else (case file of
          None \<Rightarrow> (Inr missing_log_text, p)
        | Some content \<Rightarrow> (let new = drop p content; p' = max p (length content)
            in (Inr (if new = [] then no_new_logs_text else new), p'))))"

definition reader_start :: "string option \<Rightarrow> nat" where
  "reader_start file = (case file of None \<Rightarrow> 0 | Some content \<Rightarrow> length content)"

section \<open>The dashboard bridge\<close>

record bridge =
  b_spent :: real

datatype bridge_event =
    Bridge_budget real
  | Bridge_log (bl_stamp: string) (bl_raw: string) (bl_sanitized: string) (bl_injection: bool)

definition budget_limit :: real where "budget_limit = 2"

definition bridge_injection :: "string \<Rightarrow> bool" where
  "bridge_injection line \<longleftrightarrow> contains ''CRITICAL'' line \<or> contains ''injection'' (py_lower line)
     \<or> contains ''bypass'' (py_lower line)"

text \<open>\<open>s.split("] ", 2)\<close>: first and last part.\<close>

fun split_bracket :: "string \<Rightarrow> (string \<times> string) option" where
  "split_bracket (x # y # s) = (if x = CHR '']'' \<and> y = CHR '' '' then Some ([], s)
     else (case split_bracket (y # s) of None \<Rightarrow> None | Some (a, b) \<Rightarrow> Some (x # a, b)))"
| "split_bracket _ = None"

definition bridge_stamp :: "string \<Rightarrow> string" where
  "bridge_stamp line = (case split_bracket line of None \<Rightarrow> line | Some (a, _) \<Rightarrow> a) @ '']''"

definition bridge_message :: "string \<Rightarrow> string" where
  "bridge_message line = (case split_bracket line of None \<Rightarrow> line
     | Some (_, r) \<Rightarrow> (case split_bracket r of None \<Rightarrow> r | Some (_, r') \<Rightarrow> r'))"

definition bridge_cost :: "bool \<Rightarrow> string \<Rightarrow> real" where
  "bridge_cost injection msg = (if injection then 2 / 1000 else 4 / 100 + real (length msg) * (2 / 10000))"

definition bridge_line :: "string \<Rightarrow> bridge \<Rightarrow> bridge \<times> bridge_event list" where
  "bridge_line raw B =
     (let line = py_strip raw; injection = bridge_injection line; msg = bridge_message line;
          B' = B\<lparr>b_spent := min budget_limit (b_spent B + bridge_cost injection msg)\<rparr>
      in (B', [Bridge_budget (py_round (b_spent B') 4),
               Bridge_log (bridge_stamp line) msg
                 (if injection then ''[BLOCKED: Intercepted prompt injection threat]'' else msg) injection]))"

fun bridge_lines :: "string list \<Rightarrow> bridge \<Rightarrow> bridge" where
  "bridge_lines [] B = B"
| "bridge_lines (l # ls) B = bridge_lines ls (fst (bridge_line l B))"

section \<open>Lemmas\<close>

text \<open>The texts that a sequence of calls returns, without the notices.\<close>

fun delivered :: "string list \<Rightarrow> nat \<Rightarrow> string" where
  "delivered [] p = []"
| "delivered (c # cs) p = (case handle_call_tool ''read_new_logs'' (Some c) p of
     (r, p') \<Rightarrow> (if drop p c = [] then [] else (case r of Inl _ \<Rightarrow> [] | Inr t \<Rightarrow> t)) @ delivered cs p')"

lemma delivered_step: "p \<le> length c \<Longrightarrow> delivered (c # cs) p = drop p c @ delivered cs (length c)"
  by (simp add: handle_call_tool_def Let_def)

lemma delivered_read_all: "p \<le> length c \<Longrightarrow> grows c cs \<Longrightarrow> delivered (c # cs) p = read_all (c # cs) p"
proof (induction cs arbitrary: c p)
  case Nil
  then show ?case by (simp add: delivered_step poll_read_grown del: delivered.simps(2))
next
  case (Cons d ds)
  have g: "take (length c) d = c" "grows d ds" using Cons.prems(2) by simp_all
  have "delivered (d # ds) (length c) = read_all (d # ds) (length c)"
    by (rule Cons.IH[OF take_length_le[OF g(1)] g(2)])
  then show ?case
    by (simp only: delivered_step[OF Cons.prems(1)]) (simp add: poll_read_grown[OF Cons.prems(1)])
qed

lemma bridge_line_spent:
  assumes "b_spent B \<le> budget_limit"
  shows "b_spent B \<le> b_spent (fst (bridge_line raw B)) \<and> b_spent (fst (bridge_line raw B)) \<le> budget_limit"
proof -
  have "0 \<le> bridge_cost b m" for b m by (simp add: bridge_cost_def)
  with assms show ?thesis by (simp add: bridge_line_def Let_def)
qed

section \<open>Properties\<close>

text \<open>While the log file only grows, the agent is handed every appended character exactly once.\<close>

theorem reader_delivers_once:
  assumes "grows c cs" "p \<le> length c"
  shows "delivered (c # cs) p = drop p (last (c # cs))"
  unfolding delivered_read_all[OF assms(2,1)] by (rule read_all_grown[OF assms(2,1)])

lemma reader_delivers_once_witness: "delivered [''ab'', ''abc''] 1 = ''bc''"
  using reader_delivers_once[of "''ab''" "[''abc'']" 1] by simp

text \<open>After a rotation the tool reports that there are no new lines until the new file has outgrown
  the old position: what it holds up to there is never delivered. The telemetry server restarts
  from the beginning in that case.\<close>

theorem reader_misses_rotated_file:
  assumes "length content < p"
  shows "handle_call_tool ''read_new_logs'' (Some content) p = (Inr no_new_logs_text, p)
    \<and> (content \<noteq> [] \<longrightarrow> poll_read (Some content) p = (content, length content))"
  using assms by (simp add: handle_call_tool_def poll_read_def Let_def)

lemma reader_misses_rotated_file_witness:
  "handle_call_tool ''read_new_logs'' (Some ''abc'') 10 = (Inr no_new_logs_text, 10)"
  using reader_misses_rotated_file[of "''abc''" 10] by simp

text \<open>The bridge's running spend never falls and never passes its limit, whatever lines arrive.\<close>

theorem bridge_spend_bounded:
  assumes "b_spent B \<le> budget_limit"
  shows "b_spent B \<le> b_spent (bridge_lines ls B) \<and> b_spent (bridge_lines ls B) \<le> budget_limit"
  using assms
proof (induction ls arbitrary: B)
  case (Cons l ls)
  from bridge_line_spent[OF Cons.prems, of l] Cons.IH[of "fst (bridge_line l B)"] show ?case by simp
qed simp

lemma bridge_spend_bounded_witness:
  "b_spent (bridge_lines [''a'', ''bypass''] \<lparr>b_spent = 42 / 100\<rparr>) \<le> budget_limit"
  using bridge_spend_bounded[of "\<lparr>b_spent = 42 / 100\<rparr>" "[''a'', ''bypass'']"] by (simp add: budget_limit_def)

end
