(* ===== verification/Spec2Isabelle.thy ===== *)
theory Spec2Isabelle
  imports Budget_Concurrency Serve Models Batches Attachments Startup Serve_Stream Mcp_Resolve A2a Call_Deltas Google_Adapter Output_Types Sdk_Files Guardrails Log_Reader
begin

text \<open>
  A verification development for the OtariGuard FinOps repository.

  \<^bold>\<open>The program.\<close> The repository holds an LLM gateway (\<open>otari/src/gateway\<close>) that authenticates callers,
  enforces rate limits and budgets, calls providers through any-llm and settles what was used; a demo
  telemetry server with a genetic budget engine (\<open>server_telemetry.py\<close>, \<open>genetic_budget_engine.py\<close>) and two
  readers of its log (\<open>mcp_log_reader\<close>, \<open>socket_bridge.py\<close>); and three further projects (\<open>any-agent\<close>,
  \<open>encoderfile\<close>, \<open>mcpd\<close>). A request to the gateway passes admission (key, user, rate limit, price,
  reservation of an estimate), then guardrails and tool selection, then the provider or a tool loop, then
  settlement (cost against reservation, usage log). In hybrid mode a platform answers admission with a list
  of provider attempts and receives one report per attempt instead.

  \<^bold>\<open>Theories, in the order of imports\<close> (paths under \<open>src/otari/src/gateway\<close> unless given):

  \<^item> \<open>Prelude\<close>: JSON values, dictionaries, Python string operations, results and HTTP errors.
  \<^item> \<open>Usage\<close> (\<open>core/usage.py\<close>), \<open>Store\<close> (\<open>models/entities.py\<close> as tables, with
    commits that may fail), \<open>Ledger\<close> (the budget columns of the store as one ledger).
  \<^item> \<open>Rate_Limit\<close> (\<open>rate_limit.py\<close>), with a reference sliding-window limiter that the deque-based code
    refines.
  \<^item> \<open>Pricing\<close>, \<open>Providers\<close>, \<open>Auth\<close> (\<open>services/pricing_service.py\<close>, \<open>services/provider_kwargs.py\<close>,
    \<open>auth/models.py\<close> and \<open>api/deps.py\<close>).
  \<^item> \<open>Budget\<close> (\<open>services/budget_service.py\<close>, each operation on the store), \<open>Budget_Spec\<close> (what each does to
    spend and hold) and \<open>Budget_Concurrency\<close> (the transactions of concurrent requests as a step relation,
    with the sequential operations as its runs).
  \<^item> \<open>Streaming\<close> (\<open>streaming.py\<close>): the SSE generator against a list of pulls and a consumer script.
  \<^item> \<open>Log_Writer\<close> (\<open>services/log_writer.py\<close>), with the locale of what a writer promises.
  \<^item> \<open>Admission\<close>, \<open>Settlement\<close>, \<open>Settlement_Spec\<close>, \<open>Chat\<close> (\<open>api/routes/_pipeline.py\<close>,
    \<open>api/routes/chat.py\<close>): the standalone request from its headers to its last database write.
  \<^item> \<open>Direct_Routes\<close> (\<open>api/routes/embeddings.py\<close>, \<open>rerank.py\<close>, \<open>images.py\<close>, \<open>moderations.py\<close>,
    \<open>audio.py\<close>): the handlers that call one provider operation and settle it themselves.
  \<^item> \<open>Platform\<close>, \<open>Hybrid_Stream\<close> (\<open>api/routes/_platform.py\<close> and the hybrid runners of \<open>_pipeline.py\<close>).
  \<^item> \<open>Mcp_Resolve\<close> (\<open>_platform.py\<close>, \<open>models/mcp.py\<close>): MCP servers the platform resolves from ids.
  \<^item> \<open>Url_Safety\<close> (\<open>services/url_safety.py\<close>), \<open>Gateway_Tools\<close> (\<open>api/routes/_tools.py\<close> and
    \<open>prepare_gateway_tools\<close>), \<open>Guardrails\<close> (\<open>services/guardrails.py\<close>, \<open>api/routes/_helpers.py\<close>).
  \<^item> \<open>Web_Search\<close>, \<open>Backends\<close> (\<open>services/web_search_backend.py\<close>, \<open>mcp_client.py\<close>, \<open>sandbox_backend.py\<close>)
    behind the interface \<open>tool_backend\<close>; \<open>Tool_Format\<close> (\<open>services/tool_format.py\<close>); \<open>Tool_Loop\<close>,
    \<open>Tool_Loop_Spec\<close>, \<open>Tool_Stream\<close>, \<open>Format_Streams\<close> (\<open>services/mcp_loop*.py\<close>).
  \<^item> \<open>Dispatch\<close> (\<open>dispatch_non_stream\<close> and the hint and backend builders of \<open>_tools.py\<close>) and \<open>Serve\<close>
    (\<open>api/routes/chat.py\<close>, \<open>messages.py\<close>, \<open>responses.py\<close>): the three handlers composed of admission, tool
    choice, dispatch and settlement, with each format's adapter; \<open>Serve_Stream\<close> (the same files, with the
    runners of \<open>_pipeline.py\<close>): the same handlers streaming, and their hybrid paths.
  \<^item> \<open>Accounts\<close> (\<open>api/routes/users.py\<close>, \<open>keys.py\<close>, \<open>budgets.py\<close>), with the tables' constraints as an
    invariant of a step relation, and \<open>Price_Admin\<close> (\<open>api/routes/pricing.py\<close>, \<open>usage.py\<close>, the seeding of
    prices and of the first key).
  \<^item> \<open>Models\<close> (\<open>services/model_discovery_service.py\<close>, \<open>api/routes/models.py\<close>): the catalogue cache, with the
    requests that share it as a step relation, discovery and the model listing.
  \<^item> \<open>Config\<close> (\<open>core/config.py\<close>) and \<open>Startup\<close> (\<open>cli.py\<close>, \<open>main.py\<close>, \<open>api/main.py\<close>, \<open>core/database.py\<close>,
    \<open>metrics.py\<close>, \<open>api/routes/health.py\<close>, \<open>auth/vertex_auth.py\<close>): from the environment and the configuration
    file to the running application.
  \<^item> \<open>Batches\<close> (\<open>api/routes/batches.py\<close>).
  \<^item> \<open>Encoding\<close> (base64, percent-encoding, data URLs, the download header), \<open>Files\<close>
    (\<open>api/routes/files.py\<close>, \<open>services/file_store.py\<close>, \<open>file_service.py\<close>, with the locale of what a blob
    backend promises) and \<open>Attachments\<close> (\<open>services/content_normalizer.py\<close>, \<open>file_extractors.py\<close>, \<open>vision.py\<close>,
    \<open>model_capabilities.py\<close>, \<open>api/routes/_normalize.py\<close>): uploads, and what becomes of them in a request.
  \<^item> \<open>Genetic\<close>, \<open>Telemetry\<close>, \<open>Log_Reader\<close> (\<open>src/genetic_budget_engine.py\<close>, \<open>src/server_telemetry.py\<close>,
    \<open>src/mcp_log_reader\<close>, \<open>src/socket_bridge.py\<close>).

  \<^item> \<open>Agents\<close> (\<open>src/any-agent/src/any_agent/frameworks/any_agent.py\<close>, \<open>callbacks/wrappers\<close>): concurrent runs of an
    agent over the shared wrapper as a step relation; \<open>A2a\<close> (\<open>any_agent/serving/a2a\<close>): conversations and the
    execution of requests; \<open>Agent_Tools\<close> (\<open>any_agent/utils/cast.py\<close>, \<open>tools\<close>): casting, wrapping, the MCP client; \<open>Call_Deltas\<close>,
    \<open>Google_Adapter\<close>, \<open>Output_Types\<close> (\<open>any_agent/frameworks\<close>, \<open>vendor/llama_index_utils.py\<close>): parts of the adapters to the frameworks.

  \<^bold>\<open>How code becomes definitions.\<close> A class or dataclass is a record, a method a function from the state to the
  state and its result, a raise or early return a branch of a result type, a loop a recursive function over
  the list it walks. Awaited calls to other parties (providers, the platform, MCP servers, the guardrails
  service, DNS) are function arguments, indexed by the call's number where an answer may change from call to
  call. Where coroutines interleave, the transactions are steps of an inductive relation. Money is real,
  stored instants are integers (microseconds), Python integers are \<^typ>\<open>int\<close>; the code has no fixed-width
  integers.

  \<^bold>\<open>What the lemmas show.\<close> Locales state the interfaces: the operations a settlement needs of the budget
  service, what a log writer and a tool backend promise; each is interpreted on the model of its provider.
  On top of them: a request, however it ends, leaves no estimate held and charges exactly the logged cost;
  concurrent requests never exceed a cap; a stream settles once; a tool loop ends, runs only the gateway's own
  tools and adds up usage; attempts are tried in order and reported once; credentials and tokens stay with
  the party they belong to; every fetched URL was checked; an upload
  comes back as it was sent, to its owner only, and no request sees another user's files; concurrent runs of an agent do not
  touch each other, nor do its conversations; the limiter, the selector parser, the legacy payload,
  the streamed loops and the substitution of variables agree with simpler references. A number of properties state defects of the code as it
  is; the manifest's findings name them.

  \<^bold>\<open>Bounds.\<close> No definition uses fuel: the loops recurse over the list of attempts, hits, chunks or log lines, or
  over the rounds left (\<open>max_iterations\<close>, redirects, retries, generations), as the code's \<open>range\<close> loops do. The one depth in the model, in \<open>Agents\<close>, is Python's own recursion limit.

  \<^bold>\<open>Not modelled.\<close> Transport and framework plumbing (FastAPI dependencies, Socket.IO, httpx, SQLAlchemy sessions),
  log output and most counters;
  the rest of any-agent's adapters to the agent frameworks, its search tools and judges, the encoderfile, mcpd and
  transparency-layer projects, generators, migrations and tests. The manifest lists each with its reason.
\<close>

end
